(* ===== verification/Prelude.thy ===== *)
theory Prelude
  imports Main "HOL-Library.AList"
begin

text \<open>
  What every component of the development shares: the reading of Go's
  \<open>(value, error)\<close> results as sums, the int64 bounds, SQL tables as association
  lists, and the two rule collections the component proofs run on.

  A Go function \<open>f(...) (T, error)\<close> is a function into \<open>'err + 'a\<close>; one that returns
  only an \<open>error\<close> is a function into \<open>'err option\<close> (\<open>None\<close> is \<open>nil\<close>). A transaction
  body takes the database and returns it updated with its value. The early return
  \<open>if err != nil { return zero, err }\<close> is the branch \<open>Inl e \<Rightarrow> Inl e\<close>.
\<close>

section \<open>Results\<close>

named_theorems tx_simps \<open>successful runs of early-return chains\<close>

lemma case_sum_Inr_iff [tx_simps]:
  "(case r of Inl e \<Rightarrow> Inl e | Inr x \<Rightarrow> f x) = Inr y \<longleftrightarrow> (\<exists>x. r = Inr x \<and> f x = Inr y)"
  by (cases r) auto

lemma case_err_Inr_iff [tx_simps]:
  "(case r of None \<Rightarrow> k | Some e \<Rightarrow> Inl (g e)) = Inr y \<longleftrightarrow> r = None \<and> k = Inr y"
  by (cases r) auto

lemma if_Inl_Inr_iff [tx_simps]:
  "(if c then Inl e else k) = Inr y \<longleftrightarrow> \<not> c \<and> k = Inr y"
  by simp

lemma case_need_Inr_iff [tx_simps]:
  "(case r of None \<Rightarrow> Inl e | Some x \<Rightarrow> f x) = Inr y \<longleftrightarrow> (\<exists>x. r = Some x \<and> f x = Inr y)"
  by (cases r) auto

lemma case_sum_Inl_map [tx_simps]:
  "(case r of Inl e \<Rightarrow> Inl (g e) | Inr x \<Rightarrow> f x) = Inr y \<longleftrightarrow> (\<exists>x. r = Inr x \<and> f x = Inr y)"
  by (cases r) auto

lemma case_err_None_iff [tx_simps]:
  "(case r of None \<Rightarrow> k | Some e \<Rightarrow> Some (g e)) = None \<longleftrightarrow> r = None \<and> k = None"
  by (cases r) auto

lemma if_Some_None_iff [tx_simps]:
  "(if c then Some e else k) = None \<longleftrightarrow> \<not> c \<and> k = None"
  by simp

text \<open>The error component of a result, and whether it succeeded.\<close>

definition succeeds :: "'e + 'a \<Rightarrow> bool" where
  "succeeds r \<longleftrightarrow> (case r of Inl _ \<Rightarrow> False | Inr _ \<Rightarrow> True)"

lemma succeeds_simps [simp]: "succeeds (Inr x)" "\<not> succeeds (Inl e)"
  by (simp_all add: succeeds_def)

lemma succeeds_iff: "succeeds r \<longleftrightarrow> (\<exists>x. r = Inr x)"
  by (cases r) auto

text \<open>The first error a validator finds in a list, in list order.\<close>

fun first_error :: "('a \<Rightarrow> 'e option) \<Rightarrow> 'a list \<Rightarrow> 'e option" where
  "first_error f [] = None"
| "first_error f (x # xs) = (case f x of None \<Rightarrow> first_error f xs | Some e \<Rightarrow> Some e)"

lemma first_error_None_iff [simp]: "first_error f xs = None \<longleftrightarrow> (\<forall>x \<in> set xs. f x = None)"
  by (induction xs) (auto split: option.splits)

section \<open>Machine integers\<close>

text \<open>Go's \<open>int64\<close> values are integers here; the one place that counts up to the
  bound (the reservation fence) tests it against \<open>math.MaxInt64\<close> as the code does.\<close>

definition MaxInt64 :: int where
  "MaxInt64 = 9223372036854775807"

section \<open>Tables\<close>

text \<open>
  A table with a primary key is an association list from keys to rows: \<open>map_of\<close> is the
  indexed read, \<open>AList.update\<close> the \<open>INSERT ... ON CONFLICT DO UPDATE\<close>, and a plain
  \<open>INSERT\<close> fails when the key is there. Scans (\<open>EXISTS\<close>, \<open>COUNT\<close>) go over the rows.
\<close>

type_synonym ('k, 'r) table = "('k \<times> 'r) list"

definition tb_insert :: "'k \<Rightarrow> 'r \<Rightarrow> ('k, 'r) table \<Rightarrow> ('k, 'r) table option" where
  "tb_insert k r t = (if map_of t k = None then Some (t @ [(k, r)]) else None)"

definition tb_exists :: "('k \<Rightarrow> 'r \<Rightarrow> bool) \<Rightarrow> ('k, 'r) table \<Rightarrow> bool" where
  "tb_exists P t \<longleftrightarrow> list_ex (\<lambda>(k, r). P k r) t"

definition tb_count :: "('k \<Rightarrow> 'r \<Rightarrow> bool) \<Rightarrow> ('k, 'r) table \<Rightarrow> nat" where
  "tb_count P t = length (filter (\<lambda>(k, r). P k r) t)"

definition tb_ok :: "('k, 'r) table \<Rightarrow> bool" where
  "tb_ok t \<longleftrightarrow> distinct (map fst t)"

lemma tb_ok_Nil [simp]: "tb_ok []"
  by (simp add: tb_ok_def)

lemma tb_insert_SomeD:
  assumes "tb_insert k r t = Some t'"
  shows "map_of t k = None" and "map_of t' = (map_of t)(k \<mapsto> r)" and "tb_ok t \<Longrightarrow> tb_ok t'"
proof -
  from assms have n: "map_of t k = None" and t': "t' = t @ [(k, r)]"
    by (auto simp: tb_insert_def split: if_splits)
  show "map_of t k = None" by (rule n)
  show "map_of t' = (map_of t)(k \<mapsto> r)"
    using n by (auto simp: t' map_add_def fun_eq_iff split: option.splits)
  show "tb_ok t \<Longrightarrow> tb_ok t'"
    using n by (auto simp: t' tb_ok_def map_of_eq_None_iff)
qed

lemma tb_insert_length: "tb_insert k r t = Some t' \<Longrightarrow> length t' = Suc (length t)"
  by (auto simp: tb_insert_def split: if_splits)

lemma tb_ok_update [simp]: "tb_ok t \<Longrightarrow> tb_ok (AList.update k r t)"
  by (simp add: tb_ok_def distinct_update)

lemma map_of_update [simp]: "map_of (AList.update k r t) = (map_of t)(k \<mapsto> r)"
  by (rule update_conv')

lemma tb_exists_iff: "tb_ok t \<Longrightarrow> tb_exists P t \<longleftrightarrow> (\<exists>k r. map_of t k = Some r \<and> P k r)"
  unfolding tb_exists_def list_ex_iff tb_ok_def
  by (metis (mono_tags, lifting) case_prod_conv map_of_SomeD map_of_is_SomeI prod.exhaust)

lemma tb_exists_Nil [simp]: "\<not> tb_exists P []"
  by (simp add: tb_exists_def)

lemma tb_mem_iff: "tb_ok t \<Longrightarrow> (k, r) \<in> set t \<longleftrightarrow> map_of t k = Some r"
  by (simp add: tb_ok_def)

lemma tb_ok_filter [simp]: "tb_ok t \<Longrightarrow> tb_ok (filter P t)"
  unfolding tb_ok_def by (induction t) auto

lemma map_of_filter_key: "map_of (filter (\<lambda>(k, _). P k) t) k = (if P k then map_of t k else None)"
  by (induction t) auto

lemma map_of_filter_value:
  "tb_ok t \<Longrightarrow> map_of (filter (\<lambda>(k, v). P v) t) k = (case map_of t k of None \<Rightarrow> None | Some v \<Rightarrow> if P v then Some v else None)"
proof (induction t)
  case (Cons x t)
  obtain j v where x: "x = (j, v)" by (cases x)
  from Cons.prems have j: "map_of t j = None" "tb_ok t" by (auto simp: tb_ok_def x map_of_eq_None_iff)
  with Cons.IH show ?case by (auto simp: x)
qed simp

section \<open>Version histories\<close>

text \<open>\<open>cur\<close> is the current revision of each key, \<open>h\<close> the history rows by key and
  revision. The history is complete when it holds the revisions from 1 to the current
  one and nothing else. Each write extends it at the end.\<close>

definition history_complete :: "('k \<Rightarrow> int option) \<Rightarrow> ('k \<times> int \<Rightarrow> 'h option) \<Rightarrow> bool" where
  "history_complete cur h \<longleftrightarrow> (\<forall>k n. h (k, n) \<noteq> None \<longleftrightarrow> (\<exists>r. cur k = Some r \<and> 1 \<le> n \<and> n \<le> r))"

lemma history_complete_empty [simp]: "history_complete (\<lambda>_. None) (\<lambda>_. None)"
  by (simp add: history_complete_def)

lemma history_completeD: "history_complete cur h \<Longrightarrow> h (k, n) \<noteq> None \<longleftrightarrow> (\<exists>r. cur k = Some r \<and> 1 \<le> n \<and> n \<le> r)"
  unfolding history_complete_def by blast

lemma history_complete_create:
  "history_complete cur h \<Longrightarrow> cur k = None \<Longrightarrow> history_complete (cur(k \<mapsto> 1)) (h((k, 1) \<mapsto> x))"
  unfolding history_complete_def by (auto simp del: not_None_eq)

lemma history_complete_next:
  assumes "history_complete cur h" "cur k = Some r" "1 \<le> r"
  shows "history_complete (cur(k \<mapsto> r + 1)) (h((k, r + 1) \<mapsto> x))"
  unfolding history_complete_def
proof (intro allI)
  fix i n
  show "(h((k, r + 1) \<mapsto> x)) (i, n) \<noteq> None \<longleftrightarrow> (\<exists>q. (cur(k \<mapsto> r + 1)) i = Some q \<and> 1 \<le> n \<and> n \<le> q)"
    using history_completeD [OF assms(1), of i n] assms(2,3) by auto
qed

end
