(* ===== verification/GoText.thy ===== *)
theory GoText
  imports Prelude "HOL-Library.Sublist"
begin

text \<open>
  Go strings are byte sequences, as Isabelle's \<open>string\<close> (a list of 8-bit \<open>char\<close>) is.
  This theory reads them as the code does: \<open>range s\<close> over runes (an invalid byte is
  U+FFFD, one byte wide), \<open>utf8.ValidString\<close>, \<open>strings.TrimSpace(s) == ""\<close>,
  \<open>unicode.IsControl\<close>, and package \<open>regexp\<close> restricted to the operators the
  repository's patterns use, with its leftmost-first preference.
\<close>

section \<open>Runes\<close>

definition cont_byte :: "nat \<Rightarrow> bool" where
  "cont_byte b \<longleftrightarrow> 128 \<le> b \<and> b \<le> 191"

text \<open>\<open>utf8.DecodeRune\<close> on a non-empty string: the rune (\<open>None\<close> for an invalid
  encoding) and the number of bytes it takes.\<close>

fun decode_rune :: "nat list \<Rightarrow> nat option \<times> nat" where
  "decode_rune [] = (None, 0)"
| "decode_rune (b0 # bs) =
     (if b0 < 128 then (Some b0, 1)
      else if 194 \<le> b0 \<and> b0 \<le> 223 then
        (case bs of b1 # _ \<Rightarrow>
           if cont_byte b1 then (Some ((b0 - 192) * 64 + (b1 - 128)), 2) else (None, 1)
         | [] \<Rightarrow> (None, 1))
      else if 224 \<le> b0 \<and> b0 \<le> 239 then
        (case bs of b1 # b2 # _ \<Rightarrow>
           if (if b0 = 224 then 160 else 128) \<le> b1 \<and> b1 \<le> (if b0 = 237 then 159 else 191)
              \<and> cont_byte b2
           then (Some ((b0 - 224) * 4096 + (b1 - 128) * 64 + (b2 - 128)), 3) else (None, 1)
         | _ \<Rightarrow> (None, 1))
      else if 240 \<le> b0 \<and> b0 \<le> 244 then
        (case bs of b1 # b2 # b3 # _ \<Rightarrow>
           if (if b0 = 240 then 144 else 128) \<le> b1 \<and> b1 \<le> (if b0 = 244 then 143 else 191)
              \<and> cont_byte b2 \<and> cont_byte b3
           then (Some ((b0 - 240) * 262144 + (b1 - 128) * 4096 + (b2 - 128) * 64 + (b3 - 128)), 4)
           else (None, 1)
         | _ \<Rightarrow> (None, 1))
      else (None, 1))"

declare decode_rune.simps [simp del]

lemma decode_rune_width: "0 < snd (decode_rune (b # bs))"
  by (auto simp: decode_rune.simps split: list.splits)

text \<open>A string as its units: each rune with the bytes it came from. \<open>None\<close> marks an
  invalid byte.\<close>

type_synonym unit_of = "nat option \<times> string"

function go_units :: "string \<Rightarrow> unit_of list" where
  "go_units s = (if s = [] then [] else
     (let (r, w) = decode_rune (map of_char s) in (r, take w s) # go_units (drop w s)))"
  by pat_completeness auto
termination
proof (relation "measure length", goal_cases)
  case 1 show ?case by simp
next
  case (2 s x r w)
  then have "0 < snd x"
    using decode_rune_width by (cases s) auto
  moreover from 2 have "w = snd x" by (metis snd_conv)
  ultimately show ?case using 2(1) by simp
qed

declare go_units.simps [simp del]

lemma go_units_Nil [simp]: "go_units [] = []"
  by (simp add: go_units.simps)

text \<open>The bytes of the units are the string: decoding loses nothing.\<close>

lemma go_units_bytes: "concat (map snd (go_units s)) = s"
proof (induction s rule: go_units.induct)
  case (1 s)
  show ?case
  proof (cases "s = []")
    case False
    obtain r w where rw: "decode_rune (map of_char s) = (r, w)"
      by (cases "decode_rune (map of_char s)")
    have "concat (map snd (go_units (drop w s))) = drop w s"
      using "1.IH" [OF False, of "(r, w)" r w] rw by simp
    with False rw show ?thesis
      by (simp add: go_units.simps [of s])
  qed simp
qed

definition runes :: "string \<Rightarrow> nat list" where
  \<comment> \<open>\<open>for _, r := range s\<close>: an invalid byte yields \<open>utf8.RuneError\<close>\<close>
  "runes s = map (\<lambda>(r, _). case r of None \<Rightarrow> 65533 | Some n \<Rightarrow> n) (go_units s)"

definition ValidString :: "string \<Rightarrow> bool" where
  "ValidString s \<longleftrightarrow> list_all (\<lambda>(r, _). r \<noteq> None) (go_units s)"

definition IsSpace :: "nat \<Rightarrow> bool" where
  "IsSpace r \<longleftrightarrow> r \<in> {9, 10, 11, 12, 13, 32, 133, 160, 5760, 8232, 8233, 8239, 8287, 12288}
     \<or> (8192 \<le> r \<and> r \<le> 8202)"

definition IsControl :: "nat \<Rightarrow> bool" where
  "IsControl r \<longleftrightarrow> r < 32 \<or> (127 \<le> r \<and> r < 160)"

definition blank :: "string \<Rightarrow> bool" where
  \<comment> \<open>\<open>strings.TrimSpace(s) == ""\<close>\<close>
  "blank s \<longleftrightarrow> list_all IsSpace (runes s)"

lemma blank_Nil [simp]: "blank []"
  by (simp add: blank_def runes_def)

definition TrimSpace :: "string \<Rightarrow> string" where
  "TrimSpace s =
     (let sp = (\<lambda>(r, _). case r of None \<Rightarrow> False | Some n \<Rightarrow> IsSpace n)
      in concat (map snd (rev (dropWhile sp (rev (dropWhile sp (go_units s)))))))"

text \<open>Decimal digits, \<open>%d\<close>.\<close>

fun show_nat :: "nat \<Rightarrow> string" where
  "show_nat n = (if n < 10 then [char_of (48 + n)] else show_nat (n div 10) @ [char_of (48 + n mod 10)])"

declare show_nat.simps [simp del]

text \<open>ASCII text decodes to its bytes.\<close>

definition ascii :: "string \<Rightarrow> bool" where
  "ascii s \<longleftrightarrow> list_all (\<lambda>c. (of_char c :: nat) < 128) s"

lemma go_units_ascii: "ascii s \<Longrightarrow> go_units s = map (\<lambda>c. (Some (of_char c), [c])) s"
proof (induction s)
  case (Cons c s)
  then have "decode_rune (map of_char (c # s)) = (Some (of_char c), 1)"
    by (simp add: decode_rune.simps ascii_def)
  with Cons show ?case
    by (subst go_units.simps) (simp add: ascii_def)
qed simp

lemma ascii_ValidString: "ascii s \<Longrightarrow> ValidString s"
  by (simp add: ValidString_def go_units_ascii list_all_iff)

lemma ascii_runes: "ascii s \<Longrightarrow> runes s = map of_char s"
  by (simp add: runes_def go_units_ascii)

section \<open>Regular expressions\<close>

text \<open>
  Package \<open>regexp\<close> matches runes. \<open>Star\<close> is greedy and \<open>StarLazy\<close> is \<open>*?\<close>;
  \<open>WordB\<close> is the ASCII \<open>\b\<close>, \<open>EndText\<close> is \<open>$\<close> and \<open>\z\<close> without
  the \<open>m\<close> flag, \<open>BeginText\<close> is \<open>^\<close>.
\<close>

datatype re =
    Eps
  | Cls "nat \<Rightarrow> bool"
  | Cat re re
  | Alt re re
  | Star re
  | StarLazy re
  | WordB
  | BeginText
  | EndText

text \<open>A position in the text: the rune before it, if any, and the units from it on.\<close>

type_synonym rpos = "nat option \<times> unit_of list"

definition rune_of :: "unit_of \<Rightarrow> nat" where
  "rune_of u = (case fst u of None \<Rightarrow> 65533 | Some n \<Rightarrow> n)"

definition word_rune :: "nat \<Rightarrow> bool" where
  "word_rune r \<longleftrightarrow> (48 \<le> r \<and> r \<le> 57) \<or> (65 \<le> r \<and> r \<le> 90) \<or> r = 95 \<or> (97 \<le> r \<and> r \<le> 122)"

definition at_boundary :: "rpos \<Rightarrow> bool" where
  "at_boundary p \<longleftrightarrow>
     (case fst p of None \<Rightarrow> False | Some r \<Rightarrow> word_rune r) \<noteq>
     (case snd p of [] \<Rightarrow> False | u # _ \<Rightarrow> word_rune (rune_of u))"

text \<open>
  Every position a match that starts at \<open>p\<close> can end in, the preferred one first
  (\<open>regexp\<close> is leftmost-first, as Perl is). A round of a star that consumes nothing is
  not repeated.
\<close>

function (sequential) match_ends :: "re \<Rightarrow> rpos \<Rightarrow> rpos list" where
  "match_ends Eps p = [p]"
| "match_ends (Cls P) (_, []) = []"
| "match_ends (Cls P) (_, u # us) = (if P (rune_of u) then [(Some (rune_of u), us)] else [])"
| "match_ends (Cat a b) p = concat (map (match_ends b) (match_ends a p))"
| "match_ends (Alt a b) p = match_ends a p @ match_ends b p"
| "match_ends (Star a) p =
     concat (map (match_ends (Star a)) (filter (\<lambda>q. length (snd q) < length (snd p)) (match_ends a p))) @ [p]"
| "match_ends (StarLazy a) p =
     p # concat (map (match_ends (StarLazy a)) (filter (\<lambda>q. length (snd q) < length (snd p)) (match_ends a p)))"
| "match_ends WordB p = (if at_boundary p then [p] else [])"
| "match_ends BeginText p = (if fst p = None then [p] else [])"
| "match_ends EndText p = (if snd p = [] then [p] else [])"
  by pat_completeness auto
termination
  by (relation "measures [\<lambda>(r, p). size r, \<lambda>(r, p). length (snd p)]") auto

text \<open>The two star equations call themselves on their right: unfold them by name.\<close>

declare match_ends.simps(6,7) [simp del]

text \<open>All the positions of a text, from its start: where an unanchored search tries.\<close>

fun starts :: "nat option \<Rightarrow> unit_of list \<Rightarrow> rpos list" where
  "starts prev [] = [(prev, [])]"
| "starts prev (u # us) = (prev, u # us) # starts (Some (rune_of u)) us"

definition MatchString :: "re \<Rightarrow> string \<Rightarrow> bool" where
  "MatchString r s \<longleftrightarrow> list_ex (\<lambda>p. match_ends r p \<noteq> []) (starts None (go_units s))"

text \<open>A match only moves forward, over units of the text.\<close>

lemma match_ends_suffix: "q \<in> set (match_ends r p) \<Longrightarrow> suffix (snd q) (snd p)"
proof (induction r p arbitrary: q rule: match_ends.induct)
  case (4 a b p)
  then obtain m where "m \<in> set (match_ends a p)" "q \<in> set (match_ends b m)" by auto
  with 4 show ?case by (meson suffix_order.trans)
next
  case (6 a p)
  show ?case
  proof (cases "q = p")
    case False
    have "q \<in> set (concat (map (match_ends (Star a)) (filter (\<lambda>q. length (snd q) < length (snd p)) (match_ends a p))))"
      using "6.prems" False unfolding match_ends.simps(6) [of a p] set_append Un_iff by simp
    then obtain m where m: "m \<in> set (match_ends a p)"
      "m \<in> set (filter (\<lambda>q. length (snd q) < length (snd p)) (match_ends a p))"
      "q \<in> set (match_ends (Star a) m)" by auto
    from "6.IH"(1) [OF m(1)] "6.IH"(2) [OF m(2,3)] show ?thesis
      by (rule suffix_order.trans [rotated])
  qed simp
next
  case (7 a p)
  show ?case
  proof (cases "q = p")
    case False
    have "q \<in> set (concat (map (match_ends (StarLazy a)) (filter (\<lambda>q. length (snd q) < length (snd p)) (match_ends a p))))"
      using "7.prems" False unfolding match_ends.simps(7) [of a p] by simp
    then obtain m where m: "m \<in> set (match_ends a p)"
      "m \<in> set (filter (\<lambda>q. length (snd q) < length (snd p)) (match_ends a p))"
      "q \<in> set (match_ends (StarLazy a) m)" by auto
    from "7.IH"(1) [OF m(1)] "7.IH"(2) [OF m(2,3)] show ?thesis
      by (rule suffix_order.trans [rotated])
  qed simp
qed (auto split: if_splits intro: suffix_ConsI)

subsection \<open>Building patterns\<close>

definition Lit :: "nat \<Rightarrow> re" where
  "Lit n = Cls (\<lambda>r. r = n)"

fun Word_of :: "string \<Rightarrow> re" where
  "Word_of [] = Eps"
| "Word_of (c # cs) = Cat (Lit (of_char c)) (Word_of cs)"

definition Opt :: "re \<Rightarrow> re" where
  "Opt r = Alt r Eps"

fun Times :: "nat \<Rightarrow> re \<Rightarrow> re" where
  "Times 0 r = Eps"
| "Times (Suc n) r = Cat r (Times n r)"

fun UpTo :: "nat \<Rightarrow> re \<Rightarrow> re" where
  \<comment> \<open>\<open>r{0,n}\<close>\<close>
  "UpTo 0 r = Eps"
| "UpTo (Suc n) r = Opt (Cat r (UpTo n r))"

definition AtLeast :: "nat \<Rightarrow> re \<Rightarrow> re" where
  "AtLeast n r = Cat (Times n r) (Star r)"

fun Cats :: "re list \<Rightarrow> re" where
  "Cats [] = Eps"
| "Cats [r] = r"
| "Cats (r # rs) = Cat r (Cats rs)"

fun Alts :: "re list \<Rightarrow> re" where
  "Alts [] = Cls (\<lambda>_. False)"
| "Alts [r] = r"
| "Alts (r # rs) = Alt r (Alts rs)"

definition rng :: "char \<Rightarrow> char \<Rightarrow> nat \<Rightarrow> bool" where
  "rng a b r \<longleftrightarrow> of_char a \<le> r \<and> r \<le> of_char b"

definition one_of :: "string \<Rightarrow> nat \<Rightarrow> bool" where
  "one_of cs r \<longleftrightarrow> list_ex (\<lambda>c. of_char c = r) cs"

definition digit :: "nat \<Rightarrow> bool" where "digit r \<longleftrightarrow> rng CHR ''0'' CHR ''9'' r"
definition lower :: "nat \<Rightarrow> bool" where "lower r \<longleftrightarrow> rng CHR ''a'' CHR ''z'' r"
definition upper :: "nat \<Rightarrow> bool" where "upper r \<longleftrightarrow> rng CHR ''A'' CHR ''Z'' r"
definition hexdigit :: "nat \<Rightarrow> bool" where
  "hexdigit r \<longleftrightarrow> digit r \<or> rng CHR ''a'' CHR ''f'' r"
definition alnum :: "nat \<Rightarrow> bool" where
  "alnum r \<longleftrightarrow> upper r \<or> lower r \<or> digit r"
definition re_space :: "nat \<Rightarrow> bool" where
  \<comment> \<open>\<open>\s\<close>: \<open>[\t\n\f\r ]\<close>\<close>
  "re_space r \<longleftrightarrow> r \<in> {9, 10, 12, 13, 32}"

text \<open>\<open>FindString\<close>: the leftmost match, the preferred one there; the empty text when
  there is none.\<close>

fun find_in :: "re \<Rightarrow> rpos list \<Rightarrow> string" where
  "find_in r [] = []"
| "find_in r (p # ps) =
     (case match_ends r p of
        [] \<Rightarrow> find_in r ps
      | q # _ \<Rightarrow> concat (map snd (take (length (snd p) - length (snd q)) (snd p))))"

definition FindString :: "re \<Rightarrow> string \<Rightarrow> string" where
  "FindString r s = find_in r (starts None (go_units s))"

subsection \<open>Ruling a match out\<close>

text \<open>\<open>needs n r\<close>: every match of \<open>r\<close> goes over the rune \<open>n\<close>. A text without that rune
  then has no match, which decides most scans without running them.\<close>

primrec needs :: "nat \<Rightarrow> re \<Rightarrow> bool" where
  "needs n Eps \<longleftrightarrow> False"
| "needs n (Cls P) \<longleftrightarrow> (\<forall>r. P r \<longrightarrow> r = n)"
| "needs n (Cat a b) \<longleftrightarrow> needs n a \<or> needs n b"
| "needs n (Alt a b) \<longleftrightarrow> needs n a \<and> needs n b"
| "needs n (Star a) \<longleftrightarrow> False"
| "needs n (StarLazy a) \<longleftrightarrow> False"
| "needs n WordB \<longleftrightarrow> False"
| "needs n BeginText \<longleftrightarrow> False"
| "needs n EndText \<longleftrightarrow> False"

lemma needs_Lit [simp]: "needs n (Lit m) \<longleftrightarrow> m = n"
  by (auto simp: Lit_def)

lemma needs_Times [simp]: "needs n (Times k r) \<longleftrightarrow> 0 < k \<and> needs n r"
  by (induction k) auto

lemma suffix_runes: "suffix us vs \<Longrightarrow> rune_of ` set us \<subseteq> rune_of ` set vs"
  by (auto simp: suffix_def)

lemma needs_no_match: "needs n r \<Longrightarrow> n \<notin> rune_of ` set (snd p) \<Longrightarrow> match_ends r p = []"
proof (induction r arbitrary: p)
  case (Cls P)
  then show ?case by (cases p rule: prod.exhaust; cases "snd p") auto
next
  case (Cat a b)
  have "match_ends b q = []" if "needs n b" "q \<in> set (match_ends a p)" for q
    using Cat.IH(2) [of q] Cat.prems(2) that suffix_runes [OF match_ends_suffix [OF that(2)]] by auto
  moreover have "match_ends a p = []" if "needs n a"
    using Cat.IH(1) [of p] Cat.prems(2) that by simp
  ultimately show ?case using Cat.prems(1) by (cases "needs n a") auto
qed auto

lemma rune_of_units: "rune_of ` set (go_units s) = set (runes s)"
  by (auto simp: runes_def rune_of_def split: prod.splits option.splits) force+

lemma starts_suffix: "q \<in> set (starts prev us) \<Longrightarrow> suffix (snd q) us"
  by (induction us arbitrary: prev) (auto intro: suffix_ConsI)

lemma needs_MatchString: "needs n r \<Longrightarrow> n \<notin> set (runes s) \<Longrightarrow> \<not> MatchString r s"
proof -
  assume r: "needs n r" and n: "n \<notin> set (runes s)"
  have "match_ends r q = []" if "q \<in> set (starts None (go_units s))" for q
    using suffix_runes [OF starts_suffix [OF that]] n
    by (intro needs_no_match [OF r]) (auto simp: rune_of_units [symmetric])
  then show ?thesis by (auto simp: MatchString_def list_ex_iff)
qed

subsection \<open>Anchored patterns of fixed length\<close>

text \<open>A pattern \<open>^c1 ... cn$\<close> of single-rune classes is a test of the text's runes, one
  by one. This is how the identifier patterns are evaluated.\<close>

fun shape :: "(nat \<Rightarrow> bool) list \<Rightarrow> nat list \<Rightarrow> bool" where
  "shape [] rs \<longleftrightarrow> rs = []"
| "shape (P # Ps) [] \<longleftrightarrow> False"
| "shape (P # Ps) (r # rs) \<longleftrightarrow> P r \<and> shape Ps rs"

fun classes :: "re \<Rightarrow> (nat \<Rightarrow> bool) list option" where
  "classes Eps = Some []"
| "classes (Cls P) = Some [P]"
| "classes (Cat a b) =
     (case classes a of None \<Rightarrow> None | Some ps \<Rightarrow>
      case classes b of None \<Rightarrow> None | Some qs \<Rightarrow> Some (ps @ qs))"
| "classes _ = None"

fun classes_end :: "re \<Rightarrow> (nat \<Rightarrow> bool) list option" where
  "classes_end EndText = Some []"
| "classes_end (Cat a b) =
     (case classes a of None \<Rightarrow> None | Some ps \<Rightarrow>
      case classes_end b of None \<Rightarrow> None | Some qs \<Rightarrow> Some (ps @ qs))"
| "classes_end _ = None"

fun prefix_shape :: "(nat \<Rightarrow> bool) list \<Rightarrow> rpos \<Rightarrow> rpos list" where
  "prefix_shape [] p = [p]"
| "prefix_shape (P # Ps) (_, []) = []"
| "prefix_shape (P # Ps) (_, u # us) = (if P (rune_of u) then prefix_shape Ps (Some (rune_of u), us) else [])"

lemma prefix_shape_append:
  "concat (map (prefix_shape qs) (prefix_shape ps p)) = prefix_shape (ps @ qs) p"
  by (induction ps p rule: prefix_shape.induct) auto

lemma classes_match_ends: "classes r = Some ps \<Longrightarrow> match_ends r p = prefix_shape ps p"
proof (induction r arbitrary: ps p)
  case (Cls P)
  then show ?case by (cases p rule: prod.exhaust; cases "snd p") auto
next
  case (Cat a b)
  then obtain qs rs where "classes a = Some qs" "classes b = Some rs" "ps = qs @ rs"
    by (auto split: option.splits)
  with Cat.IH have "match_ends a p = prefix_shape qs p" "match_ends b = prefix_shape rs" by auto
  then show ?case by (simp add: \<open>ps = qs @ rs\<close> prefix_shape_append)
qed auto

lemma prefix_shape_rest:
  "(\<exists>q \<in> set (prefix_shape qs p). shape rs (map rune_of (snd q))) \<longleftrightarrow> shape (qs @ rs) (map rune_of (snd p))"
proof (induction qs p rule: prefix_shape.induct)
  case (3 P Ps prev u us)
  then show ?case by (cases "P (rune_of u)") (simp_all only: prefix_shape.simps if_True if_False list.set bex_empty
      snd_conv list.map append_Cons shape.simps simp_thms)
qed simp_all

lemma classes_end_match_ends:
  "classes_end r = Some ps \<Longrightarrow> match_ends r p \<noteq> [] \<longleftrightarrow> shape ps (map rune_of (snd p))"
proof (induction r arbitrary: ps p)
  case (Cat a b)
  then obtain qs rs where a: "classes a = Some qs" and b: "classes_end b = Some rs" and ps: "ps = qs @ rs"
    by (auto split: option.splits)
  have "concat (map (match_ends b) (prefix_shape qs p)) \<noteq> []
      \<longleftrightarrow> (\<exists>q \<in> set (prefix_shape qs p). match_ends b q \<noteq> [])"
    by (simp add: concat_eq_Nil_conv)
  then show ?case by (simp add: classes_match_ends [OF a] ps Cat.IH(2) [OF b] prefix_shape_rest)
qed auto

lemma starts_later: "q \<in> set (starts (Some r) us) \<Longrightarrow> fst q \<noteq> None"
  by (induction us arbitrary: r) auto

lemma runes_units: "map rune_of (go_units s) = runes s"
  by (auto simp: runes_def rune_of_def split: prod.splits)

lemma MatchString_anchored:
  assumes "classes_end r = Some ps"
  shows "MatchString (Cat BeginText r) s \<longleftrightarrow> shape ps (runes s)"
proof -
  have later: "match_ends (Cat BeginText r) q = []" if "fst q \<noteq> None" for q
    using that by auto
  have first: "match_ends (Cat BeginText r) (None, us) = match_ends r (None, us)" for us
    by simp
  have "MatchString (Cat BeginText r) s \<longleftrightarrow> match_ends r (None, go_units s) \<noteq> []"
  proof (cases "go_units s")
    case Nil
    then show ?thesis unfolding MatchString_def Nil by simp
  next
    case (Cons u us)
    have "\<not> list_ex (\<lambda>p. match_ends (Cat BeginText r) p \<noteq> []) (starts (Some (rune_of u)) us)"
      using later starts_later unfolding list_ex_iff by blast
    then show ?thesis unfolding MatchString_def Cons starts.simps first list_ex_iff by auto
  qed
  also have "\<dots> \<longleftrightarrow> shape ps (runes s)"
    unfolding classes_end_match_ends [OF assms] snd_conv runes_units ..
  finally show ?thesis .
qed

end
