(* ===== verification/Json.thy ===== *)
theory Json
  imports GoText "HOL-Library.List_Lexorder" "HOL-Library.Char_ord"
begin

text \<open>
  JSON as \<open>encoding/json\<close> writes and reads it, as far as the store depends on it: the
  text \<open>json.Marshal\<close> produces (its length bounds a task's content, its SHA-256 is a
  receipt's digest), what a value looks like after \<open>json.Unmarshal\<close> into \<open>any\<close>, and
  the canonicalization of retry receipts (\<open>pruneZero\<close>, \<open>isZero\<close> of
  \<open>internal/store/tasks.go\<close>). Numbers are the integers the structs hold.
\<close>

section \<open>Values\<close>

datatype json =
    JNull
  | JBool bool
  | JNum int
  | JStr string
  | JArr "json list"
  | JObj "(string \<times> json) list"

text \<open>A struct's members in field order; \<open>omitempty\<close> members are left out when empty.\<close>

definition fld :: "string \<Rightarrow> json \<Rightarrow> (string \<times> json) list" where
  "fld k v = [(k, v)]"

definition fld_str_opt :: "string \<Rightarrow> string \<Rightarrow> (string \<times> json) list" where
  "fld_str_opt k s = (if s = [] then [] else [(k, JStr s)])"

definition fld_num_opt :: "string \<Rightarrow> int \<Rightarrow> (string \<times> json) list" where
  "fld_num_opt k n = (if n = 0 then [] else [(k, JNum n)])"

definition fld_ptr_opt :: "string \<Rightarrow> ('a \<Rightarrow> json) \<Rightarrow> 'a option \<Rightarrow> (string \<times> json) list" where
  "fld_ptr_opt k f p = (case p of None \<Rightarrow> [] | Some x \<Rightarrow> [(k, f x)])"

definition fld_list_opt :: "string \<Rightarrow> ('a \<Rightarrow> json) \<Rightarrow> 'a list \<Rightarrow> (string \<times> json) list" where
  "fld_list_opt k f xs = (if xs = [] then [] else [(k, JArr (map f xs))])"

section \<open>Marshal\<close>

definition hex_char :: "nat \<Rightarrow> char" where
  "hex_char n = char_of (if n < 10 then 48 + n else 87 + n)"

text \<open>One unit of a string: \<open><\<close>, \<open>>\<close>, \<open>&\<close>, the line separators, control
  characters and invalid bytes are escaped.\<close>

definition marshal_unit :: "unit_of \<Rightarrow> string" where
  "marshal_unit u =
     (case fst u of
        None \<Rightarrow> [CHR 92] @ ''ufffd''
      | Some r \<Rightarrow>
          if r = 34 \<or> r = 92 then [CHR 92, char_of r]
          else if r = 8 then [CHR 92, CHR ''b'']
          else if r = 12 then [CHR 92, CHR ''f'']
          else if r = 10 then [CHR 92, CHR ''n'']
          else if r = 13 then [CHR 92, CHR ''r'']
          else if r = 9 then [CHR 92, CHR ''t'']
          else if r < 32 \<or> r = 60 \<or> r = 62 \<or> r = 38 then
            [CHR 92] @ ''u00'' @ [hex_char (r div 16), hex_char (r mod 16)]
          else if r = 8232 \<or> r = 8233 then [CHR 92] @ ''u202'' @ [hex_char (r mod 16)]
          else snd u)"

definition marshal_string :: "string \<Rightarrow> string" where
  "marshal_string s = [CHR 34] @ concat (map marshal_unit (go_units s)) @ [CHR 34]"

definition show_int :: "int \<Rightarrow> string" where
  "show_int n = (if n < 0 then CHR ''-'' # show_nat (nat (- n)) else show_nat (nat n))"

fun join :: "string \<Rightarrow> string list \<Rightarrow> string" where
  "join sep [] = []"
| "join sep [s] = s"
| "join sep (s # t # ss) = s @ sep @ join sep (t # ss)"

primrec marshal :: "json \<Rightarrow> string" where
  "marshal JNull = ''null''"
| "marshal (JBool b) = (if b then ''true'' else ''false'')"
| "marshal (JNum n) = show_int n"
| "marshal (JStr s) = marshal_string s"
| "marshal (JArr vs) = ''['' @ join '','' (map marshal vs) @ '']''"
| "marshal (JObj kvs) = [CHR 123]
     @ join '','' (map (\<lambda>(k, s). marshal_string k @ '':'' @ s) (map (map_prod id marshal) kvs)) @ [CHR 125]"

section \<open>Unmarshal into \<open>any\<close>\<close>

text \<open>An integer as the \<open>float64\<close> it decodes to: 53 significant bits, ties to even.\<close>

fun shrink :: "nat \<Rightarrow> int \<Rightarrow> nat" where
  \<comment> \<open>how many low bits of a magnitude are beyond the 53 significant ones\<close>
  "shrink 0 n = 0"
| "shrink (Suc fuel) n = (if n < 9007199254740992 then 0 else Suc (shrink fuel (n div 2)))"

definition round_even :: "int \<Rightarrow> int" where
  \<comment> \<open>of a magnitude below \<open>2^63\<close>\<close>
  "round_even n =
     (let m = 2 ^ shrink 11 n; q = n div m; r = n mod m
      in (if 2 * r < m \<or> (2 * r = m \<and> even q) then q else q + 1) * m)"

definition float64 :: "int \<Rightarrow> int" where
  "float64 n = (if n < 0 then - round_even (- n) else round_even n)"

text \<open>The shortest decimal that reads back as the same \<open>float64\<close>, which is what
  \<open>json.Marshal\<close> writes for one: as many trailing zeros as possible. Below \<open>2^53\<close> the
  number is its own.\<close>

definition round_dec :: "int \<Rightarrow> nat \<Rightarrow> int" where
  "round_dec n k = (let m = 10 ^ k in (if 2 * (n mod m) < m then n div m else n div m + 1) * m)"

fun shortest_from :: "nat \<Rightarrow> int \<Rightarrow> int" where
  "shortest_from 0 n = n"
| "shortest_from (Suc k) n = (if round_even (round_dec n (Suc k)) = n then round_dec n (Suc k) else shortest_from k n)"

definition shortest :: "int \<Rightarrow> int" where
  "shortest n = (if \<bar>n\<bar> < 9007199254740992 then n
     else if n < 0 then - shortest_from 18 (- n) else shortest_from 18 n)"

definition to_valid :: "string \<Rightarrow> string" where
  \<comment> \<open>invalid bytes come back as U+FFFD\<close>
  "to_valid s = concat (map (\<lambda>u. if fst u = None then [CHR 0xEF, CHR 0xBF, CHR 0xBD] else snd u) (go_units s))"

text \<open>\<open>map[string]any\<close> has no order of its own and is written with its keys sorted, so
  a decoded object is kept sorted.\<close>

primrec decode :: "json \<Rightarrow> json" where
  "decode JNull = JNull"
| "decode (JBool b) = JBool b"
| "decode (JNum n) = JNum (shortest (float64 n))"
| "decode (JStr s) = JStr (to_valid s)"
| "decode (JArr vs) = JArr (map decode vs)"
| "decode (JObj kvs) = JObj (sort_key fst (map (map_prod to_valid decode) kvs))"

section \<open>Canonical form\<close>

fun isZero :: "json \<Rightarrow> bool" where
  "isZero JNull \<longleftrightarrow> True"
| "isZero (JStr s) \<longleftrightarrow> s = []"
| "isZero (JBool b) \<longleftrightarrow> \<not> b"
| "isZero (JNum n) \<longleftrightarrow> n = 0"
| "isZero (JArr vs) \<longleftrightarrow> vs = []"
| "isZero (JObj kvs) \<longleftrightarrow> kvs = []"

primrec pruneZero :: "json \<Rightarrow> json" where
  "pruneZero JNull = JNull"
| "pruneZero (JBool b) = JBool b"
| "pruneZero (JNum n) = JNum n"
| "pruneZero (JStr s) = JStr s"
| "pruneZero (JArr vs) = JArr (map pruneZero vs)"
| "pruneZero (JObj kvs) = JObj (filter (\<lambda>kv. \<not> isZero (snd kv)) (map (map_prod id pruneZero) kvs))"

definition receiptDigestFormat :: string where
  "receiptDigestFormat = ''1''"

definition canonical :: "json \<Rightarrow> json" where
  "canonical input = pruneZero (decode input)"

definition receiptDigest :: "(string \<Rightarrow> string) \<Rightarrow> json \<Rightarrow> string" where
  \<comment> \<open>\<open>sha\<close>: the hex SHA-256 of a byte string\<close>
  "receiptDigest sha input = receiptDigestFormat @ '':'' @ sha (marshal (canonical input))"

section \<open>Lemmas\<close>

lemma isZero_pruneZero_Obj: "isZero (pruneZero (JObj kvs)) \<longleftrightarrow> (\<forall>kv \<in> set kvs. isZero (pruneZero (snd kv)))"
  by (auto simp: filter_empty_conv)

text \<open>No member of a pruned object, at any depth, is zero.\<close>

primrec no_zero_member :: "json \<Rightarrow> bool" where
  "no_zero_member JNull \<longleftrightarrow> True"
| "no_zero_member (JBool b) \<longleftrightarrow> True"
| "no_zero_member (JNum n) \<longleftrightarrow> True"
| "no_zero_member (JStr s) \<longleftrightarrow> True"
| "no_zero_member (JArr vs) \<longleftrightarrow> list_all id (map no_zero_member vs)"
| "no_zero_member (JObj kvs) \<longleftrightarrow>
     list_all (\<lambda>kv. \<not> isZero (snd kv)) kvs \<and> list_all snd (map (map_prod id no_zero_member) kvs)"

lemma pruneZero_no_zero_member: "no_zero_member (pruneZero j)"
proof (induction j)
  case (JObj kvs)
  then show ?case
    by (auto simp: list_all_iff snds.simps)
qed (auto simp: list_all_iff)

lemma pruneZero_fixed: "no_zero_member j \<Longrightarrow> pruneZero j = j"
proof (induction j)
  case (JArr vs)
  then show ?case by (auto simp: list_all_iff intro: map_idI)
next
  case (JObj kvs)
  have "map_prod id pruneZero kv = kv" if "kv \<in> set kvs" for kv
    using JObj.IH [of kv "snd kv"] JObj.prems that by (cases kv) (fastforce simp: list_all_iff)
  then have m: "map (map_prod id pruneZero) kvs = kvs" by (simp add: map_idI)
  from JObj.prems have "filter (\<lambda>kv. \<not> isZero (snd kv)) kvs = kvs"
    by (simp add: list_all_iff filter_id_conv)
  with m show ?case by (simp only: pruneZero.simps)
qed auto

text \<open>Dropping a member that prunes to zero changes nothing; nor does member order.\<close>

lemma sort_key_filter: "sort_key f (filter P xs) = filter P (sort_key f xs)"
  by (rule filter_sort [symmetric])

lemma map_sort_key: "(\<And>x. f (h x) = f x) \<Longrightarrow> map h (sort_key f xs) = sort_key f (map h xs)"
proof (induction xs)
  case (Cons x xs)
  have "map h (insort_key f y ys) = insort_key f (h y) (map h ys)" for y ys
    by (induction ys) (auto simp: Cons.prems)
  with Cons show ?case by simp
qed simp

lemma canonical_drop_zero:
  assumes "isZero (canonical v)"
  shows "canonical (JObj (xs @ (k, v) # ys)) = canonical (JObj (xs @ ys))"
proof -
  let ?P = "\<lambda>kv. \<not> isZero (snd kv)"
  let ?m = "map (map_prod id pruneZero)"
  have comm: "?m (sort_key fst zs) = sort_key fst (?m zs)" for zs :: "(string \<times> json) list"
    by (rule map_sort_key) simp
  have "filter ?P (?m (sort_key fst (map (map_prod to_valid decode) (xs @ (k, v) # ys))))
      = sort_key fst (filter ?P (?m (map (map_prod to_valid decode) (xs @ (k, v) # ys))))"
    by (simp only: comm sort_key_filter)
  also have "\<dots> = sort_key fst (filter ?P (?m (map (map_prod to_valid decode) (xs @ ys))))"
    using assms by (simp add: canonical_def)
  also have "\<dots> = filter ?P (?m (sort_key fst (map (map_prod to_valid decode) (xs @ ys))))"
    by (simp only: comm sort_key_filter)
  finally show ?thesis by (simp only: canonical_def decode.simps pruneZero.simps)
qed

end
