(* ===== verification/StoreState.thy ===== *)
theory StoreState
  imports Json
begin

text \<open>
  The data of \<open>internal/store\<close>: the structs of the task board, the reservation ledger
  and team coordination, the errors the operations return, and a project's database.
  Field names are the source's with a prefix per struct. An embedded struct is a field
  of its own. Columns that SQLite stores beside a JSON body are kept beside it here,
  because the queries read the columns and the callers the body.
\<close>

section \<open>The task board\<close>

record TaskActor =
  ac_Kind :: string
  ac_UserID :: string
  ac_TokenID :: string
  ac_Name :: string

record TaskAssignee =
  as_Kind :: string
  as_ID :: string

record TaskRef =
  rf_Kind :: string
  rf_Ref :: string
  rf_Note :: string
  rf_Scope :: string

record TaskContent =
  tc_Title :: string
  tc_Objective :: string
  tc_AcceptanceCriteria :: string
  tc_NonGoals :: string
  tc_State :: string
  tc_Assignee :: "TaskAssignee option"
  tc_Blocker :: string
  tc_Dependencies :: "string list"
  tc_CandidateRefs :: "TaskRef list"
  tc_EvidenceRefs :: "TaskRef list"
  tc_NextAction :: string
  tc_Archived :: bool
  tc_Epic :: string
  tc_RequiredCapability :: string

record TaskCoordination =
  co_TeamID :: string
  co_AttemptID :: string
  co_State :: string

record Task =
  tk_ID :: string
  tk_Revision :: int
  tk_Coordination :: "TaskCoordination option"
  tk_Content :: TaskContent
  tk_CreatedAt :: string
  tk_UpdatedAt :: string

record TaskChange =
  ch_Task :: Task
  ch_Actor :: TaskActor

record TaskComment =
  cm_ID :: string
  cm_TaskID :: string
  cm_Sequence :: int
  cm_Body :: string
  cm_Actor :: TaskActor
  cm_CreatedAt :: string

record TaskStateChange =
  sc_Sequence :: int
  sc_TaskID :: string
  sc_Revision :: int
  sc_From :: string
  sc_To :: string
  sc_At :: string
  sc_RequiredCapability :: string

record EpicContent =
  ec_Title :: string
  ec_Objective :: string
  ec_State :: string
  ec_Target :: string

record Epic =
  ep_ID :: string
  ep_Revision :: int
  ep_Content :: EpicContent
  ep_CreatedAt :: string
  ep_UpdatedAt :: string

record EpicChange =
  ech_Epic :: Epic
  ech_Actor :: TaskActor

section \<open>The reservation ledger\<close>

record ReservationHolder =
  ho_Mode :: string
  ho_Ref :: string

record ReservationBinding =
  rb_UserID :: string
  rb_Mode :: string
  rb_ServiceID :: string
  rb_ProfileID :: string
  rb_TeamID :: string
  rb_Role :: string
  rb_SessionID :: string
  rb_Generation :: string

record ReservationWorker =
  rw_UserID :: string
  rw_AgentID :: string

record TaskReservation =
  rs_TaskID :: string
  rs_ID :: string
  rs_Fence :: int
  rs_Holder :: ReservationHolder
  rs_Binding :: ReservationBinding
  rs_TaskRevision :: int
  rs_IntendedWorker :: "ReservationWorker option"

record ProcessPin =
  pp_Repo :: string
  pp_Commit :: string
  pp_Manifest :: string

record RecoveryRecord =
  rr_Operation :: string
  rr_EvidenceKind :: string
  rr_EvidenceRef :: string
  rr_Affected :: ReservationBinding

record CoordinationRecord =
  cr_Kind :: string
  cr_ProofDigest :: string
  cr_EvidenceDigest :: string

record TaskReservationOutcome =
  ou_Task :: Task
  ou_Reservation :: TaskReservation
  ou_Binding :: ReservationBinding
  ou_Recovery :: "RecoveryRecord option"
  ou_Coordination :: "CoordinationRecord option"
  ou_Replayed :: bool

text \<open>A row of \<open>task_reservations\<close>, and one of \<open>task_reservation_services\<close>.\<close>

record reservation_row =
  rv_fence :: int
  rv_active_id :: string
  rv_holder :: ReservationHolder
  rv_bound :: ReservationBinding
  rv_intended :: ReservationWorker

record DependencyEvidence =
  de_TaskID :: string
  de_Project :: string
  de_AccessID :: string
  de_Revision :: int

text \<open>The two bodies \<open>recordReservationEvent\<close> and \<open>recordRecoveryEvent\<close> write.\<close>

datatype event_body =
    TransitionEvent (ev_before: TaskReservation) (ev_after: TaskReservation) (ev_actor: TaskActor)
      ReservationBinding string "string list option" string "CoordinationRecord option"
      "DependencyEvidence list option"
  | RecoveryEvent (ev_before: TaskReservation) (ev_after: TaskReservation) (ev_actor: TaskActor)
      RecoveryRecord string string

record reservation_event =
  re_task_id :: string
  re_fence :: int
  re_operation :: string
  re_body :: event_body

record reservation_receipt =
  rq_digest :: string
  rq_result :: TaskReservationOutcome
  rq_service_id :: string
  rq_proof_digest :: string
  rq_reservation_id :: string
  rq_committed_at :: string

record service_row =
  sv_reservation_id :: string
  sv_closing_fence :: int
  sv_closed_by :: string
  sv_closed_at :: string
  sv_task_revision :: int

section \<open>Teams\<close>

record TeamEnrollment =
  en_UserID :: string
  en_Coordinator :: bool

record TeamContent =
  tt_Name :: string
  tt_Description :: string
  tt_Enrollment :: "TeamEnrollment list"

record Team =
  te_ID :: string
  te_Revision :: int
  te_ProjectInstance :: string
  te_Content :: TeamContent
  te_CreatedAt :: string
  te_UpdatedAt :: string

record TeamModel =
  mo_Provider :: string
  mo_ID :: string
  mo_Version :: string
  mo_Source :: string
  mo_ObservedAt :: string

record TeamProfile =
  pf_Label :: string
  pf_Platform :: string
  pf_PlatformVersion :: string
  pf_Model :: TeamModel
  pf_Capabilities :: "string list"

record TeamSession =
  se_ID :: string
  se_TeamID :: string
  se_UserID :: string
  se_TokenID :: string
  se_Generation :: int
  se_CoordinatorGeneration :: int
  se_Role :: string
  se_State :: string
  se_Availability :: string
  se_ProfileRevision :: int
  se_Profile :: TeamProfile
  se_CreatedAt :: string
  se_LastSeenAt :: string

record TeamSessionHandle =
  sh_SessionID :: string
  sh_Generation :: int

record TeamResultContent =
  rc_BaseCommit :: string
  rc_Commit :: string
  rc_Summary :: string
  rc_Validation :: string
  rc_EvidenceRefs :: "TaskRef list"

record TeamResult =
  ts_ID :: string
  ts_AttemptID :: string
  ts_Worker :: TeamSessionHandle
  ts_TaskRevision :: int
  ts_ProfileRevision :: int
  ts_Profile :: TeamProfile
  ts_CreatedAt :: string
  ts_Content :: TeamResultContent

record TeamResultReview =
  rw_ResultID :: string
  rw_Decision :: string
  rw_Reason :: string
  rw_Coordinator :: TeamSessionHandle
  rw_CoordinatorGeneration :: int
  rw_CreatedAt :: string

record TeamRecoveryEvidence =
  rd_ExecutionStopped :: bool
  rd_Reason :: string
  rd_RuntimeCheck :: string
  rd_WorktreeCheck :: string
  rd_EvidenceRefs :: "TaskRef list"

record TeamAssignmentRecovery =
  ar_SessionGeneration :: int
  ar_CoordinatorGeneration :: int
  ar_TaskRevision :: int
  ar_CreatedAt :: string
  ar_Reconciliation :: TeamRecoveryEvidence

record TeamAssignmentRebind =
  br_PreviousGeneration :: int
  br_Generation :: int
  br_CreatedAt :: string

record TeamAssignment =
  am_ID :: string
  am_TeamID :: string
  am_TaskID :: string
  am_State :: string
  am_Coordinator :: TeamSessionHandle
  am_CoordinatorGeneration :: int
  am_Worker :: TeamSessionHandle
  am_ProfileRevision :: int
  am_Profile :: TeamProfile
  am_TaskRevision :: int
  am_Requirements :: TaskContent
  am_SuitabilityRationale :: string
  am_CostRationale :: string
  am_Reason :: string
  am_CreatedAt :: string
  am_UpdatedAt :: string
  am_Result :: "TeamResult option"
  am_Review :: "TeamResultReview option"
  am_Recovery :: "TeamAssignmentRecovery option"
  am_Rebinds :: "TeamAssignmentRebind list"
  am_RebindCount :: int

record TeamHandoffReconciliation =
  hr_CoordinatorStopped :: bool
  hr_LivenessCheck :: string
  hr_EvidenceRefs :: "TaskRef list"

record TeamCoordinatorHandoff =
  ha_From :: TeamSessionHandle
  ha_To :: TeamSessionHandle
  ha_PreviousCoordinatorGeneration :: int
  ha_CoordinatorGeneration :: int
  ha_Reason :: string
  ha_CreatedAt :: string
  ha_Reconciliation :: "TeamHandoffReconciliation option"

record TeamManagedChange =
  mc_TaskID :: string
  mc_AttemptID :: string
  mc_PreviousRevision :: int
  mc_Revision :: int
  mc_PreviousState :: string
  mc_State :: string
  mc_Reason :: string
  mc_Evidence :: "TaskRef list"
  mc_CreatedAt :: string

record TeamTokenRebindEvidence =
  tv_OldCredentialStopped :: bool
  tv_Reason :: string
  tv_RuntimeCheck :: string
  tv_EvidenceRefs :: "TaskRef list"

record TeamTokenRebind =
  tb_PreviousTokenID :: string
  tb_TokenID :: string
  tb_CreatedAt :: string
  tb_Reconciliation :: TeamTokenRebindEvidence

record TeamRecipient =
  rp_Kind :: string
  rp_ID :: string

record TeamMessagePayload =
  pl_Text :: string
  pl_Refs :: "TaskRef list"
  pl_Deadline :: string

record TeamMessageContent =
  mg_Recipient :: TeamRecipient
  mg_Kind :: string
  mg_TaskID :: string
  mg_AttemptID :: string
  mg_ReplyTo :: string
  mg_Payload :: TeamMessagePayload

record TeamLifecycle =
  lc_Operation :: string
  lc_TaskID :: string
  lc_AttemptID :: string
  lc_State :: string
  lc_TaskState :: string
  lc_ActorKind :: string
  lc_Session :: "TeamSessionHandle option"
  lc_Successor :: "TeamSessionHandle option"
  lc_CoordinatorGeneration :: int

record TeamMessage =
  ms_ID :: string
  ms_Sequence :: int
  ms_TeamID :: string
  ms_SenderID :: string
  ms_SenderGeneration :: int
  ms_ProfileRevision :: int
  ms_Profile :: TeamProfile
  ms_CreatedAt :: string
  ms_Lifecycle :: "TeamLifecycle option"
  ms_Content :: TeamMessageContent

record TeamAck =
  ak_MessageIDs :: "string list"

record TeamAuditContext =
  au_Actor :: TaskActor
  au_RequestID :: string
  au_ServerVersion :: string
  au_ProcessCommit :: string

record TeamEvent =
  tev_ID :: string
  tev_ProtocolVersion :: int
  tev_Operation :: string
  tev_At :: string
  tev_Audit :: TeamAuditContext
  tev_PreviousRevision :: int
  tev_Team :: Team
  tev_Session :: "TeamSession option"
  tev_PreviousGeneration :: int
  tev_MessageIDs :: "string list"
  tev_Assignment :: "TeamAssignment option"
  tev_Handoff :: "TeamCoordinatorHandoff option"
  tev_Managed :: "TeamManagedChange option"
  tev_TokenRebind :: "TeamTokenRebind option"

text \<open>Rows that carry columns beside their body.\<close>

record task_row =
  tr_state :: string
  tr_archived :: bool
  tr_assignee :: string
  tr_epic :: string
  tr_body :: Task

record epic_row =
  er_state :: string
  er_body :: Epic

record team_row =
  mr_name :: string
  mr_body :: Team

record session_row =
  sr_team_id :: string
  sr_role :: string
  sr_state :: string
  sr_body :: TeamSession

record managed_row =
  gr_team_id :: string
  gr_managed :: bool

record assignment_row =
  ag_team_id :: string
  ag_task_id :: string
  ag_worker_id :: string
  ag_state :: string
  ag_reserved :: bool
  ag_body :: TeamAssignment

record message_row =
  mw_id :: string
  mw_team_id :: string
  mw_body :: TeamMessage

record delivery_row =
  dl_delivered_at :: string
  dl_delivery_count :: int
  dl_acked_at :: string

section \<open>Results, errors, receipts\<close>

datatype err =
    ErrTaskInvalid string
  | ErrTaskNotFound
  | ErrTaskArchived
  | ErrTaskRetryConflict
  | ErrTaskReservedScope
  | TaskConflict Task
  | EpicConflict Epic
  | ErrEpicNotFound
  | ErrManagedTask
  | ErrTaskReserved
  | ErrReservationConflict
  | ErrReservationStale
  | ErrReservationOverflow
  | ErrReservationHolder
  | ErrReservationTasksDisabled
  | ErrTaskNotReady
  | ErrDependencyUnresolved
  | ErrCoordinationMismatch
  | ErrProcessMismatch
  | ErrEvidenceMismatch
  | ErrRecoveryEvidence
  | ErrTeamNotFound
  | ErrTeamNameTaken
  | TeamConflict Team
  | ErrTeamSessionDenied
  | ErrTeamSessionStale
  | ErrTeamCoordinatorOccupied
  | ErrTeamSessionQuota
  | ErrTeamAssignmentConflict
  | ErrTeamAssignmentNotFound
  | ErrTeamMessageNotFound
  | ErrTeamMessageQuota
  | ErrTeamMessageUndelivered
  | ErrActor string
  | ErrSQL
  | ErrDecode
  | ErrOther string

text \<open>\<open>invalid(err)\<close>: a caller-input error.\<close>

definition invalid :: "string \<Rightarrow> err" where
  "invalid m = ErrTaskInvalid m"

text \<open>The result a receipt keeps as JSON, one constructor per result type of
  \<open>taskMutation\<close>. Reading it back as another type is \<open>ErrDecode\<close>.\<close>

datatype reply =
    RTask Task
  | RComment TaskComment
  | REpic Epic
  | RTeam Team
  | RSession TeamSession
  | RAssignment TeamAssignment
  | RMessage TeamMessage
  | RAck TeamAck

section \<open>The project database\<close>

type_synonym request_key = "string \<times> string \<times> string \<times> string"

record db =
  db_projectID :: string
  db_meta :: "(string, string) table"
  db_tasks :: "(string, task_row) table"
  db_history :: "(string \<times> int, TaskChange) table"
  db_comments :: "TaskComment list"
  db_requests :: "(request_key, string \<times> reply) table"
  db_epics :: "(string, epic_row) table"
  db_epic_history :: "(string \<times> int, EpicChange) table"
  db_state_changes :: "TaskStateChange list"
  db_reservations :: "(string, reservation_row) table"
  db_res_events :: "reservation_event list"
  db_res_requests :: "(request_key, reservation_receipt) table"
  db_res_services :: "(string \<times> string, service_row) table"
  db_teams :: "(string, team_row) table"
  db_team_events :: "(string \<times> TeamEvent) list"
  db_sessions :: "(string, session_row) table"
  db_control :: "(string, int) table"
  db_messages :: "message_row list"
  db_deliveries :: "(string \<times> string, delivery_row) table"
  db_managed :: "(string, managed_row) table"
  db_assignments :: "(string, assignment_row) table"

text \<open>
  What an operation takes from outside the repository: the clock and the id generator
  (each call site of an operation reads its own number), SHA-256 as hex and in unpadded
  base64url, \<open>unicode.IsPrint\<close>, \<open>url.Parse\<close> (scheme and host), \<open>time.Parse\<close>, and the
  decoding of the stored process selection. Nothing is assumed of them.
\<close>

record env =
  e_now :: "nat \<Rightarrow> string"
  e_uuid :: "nat \<Rightarrow> string"
  e_sha :: "string \<Rightarrow> string"
  e_sha64 :: "string \<Rightarrow> string"
  e_isPrint :: "nat \<Rightarrow> bool"
  e_url :: "string \<Rightarrow> (string \<times> string) option"
  e_parseTime :: "string \<Rightarrow> int option"
  e_parsePin :: "string \<Rightarrow> ProcessPin option"

section \<open>JSON of the shared structs\<close>

definition json_actor :: "TaskActor \<Rightarrow> json" where
  "json_actor a = JObj (fld ''kind'' (JStr (ac_Kind a)) @ fld_str_opt ''user_id'' (ac_UserID a)
     @ fld_str_opt ''token_id'' (ac_TokenID a) @ fld ''name'' (JStr (ac_Name a)))"

definition json_assignee :: "TaskAssignee \<Rightarrow> json" where
  "json_assignee a = JObj (fld ''kind'' (JStr (as_Kind a)) @ fld ''id'' (JStr (as_ID a)))"

definition json_ref :: "TaskRef \<Rightarrow> json" where
  "json_ref r = JObj (fld ''kind'' (JStr (rf_Kind r)) @ fld ''ref'' (JStr (rf_Ref r))
     @ fld_str_opt ''note'' (rf_Note r) @ fld_str_opt ''scope'' (rf_Scope r))"

definition json_content_fields :: "TaskContent \<Rightarrow> (string \<times> json) list" where
  "json_content_fields c =
     fld ''title'' (JStr (tc_Title c)) @ fld ''objective'' (JStr (tc_Objective c))
     @ fld ''acceptance_criteria'' (JStr (tc_AcceptanceCriteria c)) @ fld ''non_goals'' (JStr (tc_NonGoals c))
     @ fld ''state'' (JStr (tc_State c)) @ fld_ptr_opt ''assignee'' json_assignee (tc_Assignee c)
     @ fld ''blocker'' (JStr (tc_Blocker c)) @ fld ''dependencies'' (JArr (map JStr (tc_Dependencies c)))
     @ fld ''candidate_refs'' (JArr (map json_ref (tc_CandidateRefs c)))
     @ fld ''evidence_refs'' (JArr (map json_ref (tc_EvidenceRefs c)))
     @ fld ''next_action'' (JStr (tc_NextAction c)) @ fld ''archived'' (JBool (tc_Archived c))
     @ fld_str_opt ''epic'' (tc_Epic c) @ fld_str_opt ''required_capability'' (tc_RequiredCapability c)"

definition json_content :: "TaskContent \<Rightarrow> json" where
  "json_content c = JObj (json_content_fields c)"

definition json_epic_content :: "EpicContent \<Rightarrow> json" where
  "json_epic_content c = JObj (fld ''title'' (JStr (ec_Title c)) @ fld ''objective'' (JStr (ec_Objective c))
     @ fld ''state'' (JStr (ec_State c)) @ fld ''target'' (JStr (ec_Target c)))"

definition json_handle_fields :: "TeamSessionHandle \<Rightarrow> (string \<times> json) list" where
  "json_handle_fields h = fld ''session_id'' (JStr (sh_SessionID h)) @ fld ''generation'' (JNum (sh_Generation h))"

definition json_handle :: "TeamSessionHandle \<Rightarrow> json" where
  "json_handle h = JObj (json_handle_fields h)"

definition json_model :: "TeamModel \<Rightarrow> json" where
  "json_model m = JObj (fld ''provider'' (JStr (mo_Provider m)) @ fld ''id'' (JStr (mo_ID m))
     @ fld ''version'' (JStr (mo_Version m)) @ fld ''source'' (JStr (mo_Source m))
     @ fld ''observed_at'' (JStr (mo_ObservedAt m)))"

definition json_profile :: "TeamProfile \<Rightarrow> json" where
  "json_profile p = JObj (fld ''label'' (JStr (pf_Label p)) @ fld ''platform'' (JStr (pf_Platform p))
     @ fld ''platform_version'' (JStr (pf_PlatformVersion p)) @ fld ''model'' (json_model (pf_Model p))
     @ fld ''capabilities'' (JArr (map JStr (pf_Capabilities p))))"

end
