(* ===== verification/Redact.thy ===== *)
theory Redact
  imports GoText
begin

text \<open>
  Package \<open>redact\<close> (\<open>internal/redact/redact.go\<close>): the secret patterns, the scan that
  refuses authored text, and the sanitizer with its size cap. SHA-256 and the process
  environment are arguments (\<open>sha\<close>, \<open>getenv\<close>); nothing is assumed of them.
\<close>

section \<open>Patterns\<close>

definition Placeholder :: string where
  "Placeholder = ''[REDACTED]''"

definition DefaultMaxFieldBytes :: int where
  "DefaultMaxFieldBytes = 64 * 1024"

text \<open>The \<open>i\<close> flag folds case as \<open>regexp\<close> does: ASCII case, and U+212A for k and
  U+017F for s.\<close>

definition ILit :: "char \<Rightarrow> re" where
  "ILit c = Cls (\<lambda>r. r = of_char c \<or> (lower (of_char c) \<and> r + 32 = of_char c)
      \<or> (c = CHR ''k'' \<and> r = 8490) \<or> (c = CHR ''s'' \<and> r = 383))"

fun IWord :: "string \<Rightarrow> re" where
  "IWord [] = Eps"
| "IWord (c # cs) = Cat (ILit c) (IWord cs)"

definition ICls :: "(nat \<Rightarrow> bool) \<Rightarrow> re" where
  "ICls P = Cls (\<lambda>r. P r \<or> (r = 8490 \<and> P (of_char CHR ''k'')) \<or> (r = 383 \<and> P (of_char CHR ''s'')))"

definition quote_opt :: re where
  "quote_opt = Opt (Cls (\<lambda>r. r = 34 \<or> r = 39))"

definition spaces :: re where
  "spaces = Star (Cls re_space)"

definition dash_opt :: re where
  "dash_opt = Opt (Cls (one_of ''_-''))"

record pattern =
  pat_kind :: string
  pat_high :: bool
  pat_re :: re

definition authorization_re :: re where
  "authorization_re = Cats [WordB, IWord ''authorization'', WordB, spaces, Cls (one_of '':=''), spaces,
     AtLeast 1 (Cls (\<lambda>r. \<not> re_space r)),
     Opt (Cat (AtLeast 1 (Cls re_space)) (AtLeast 1 (Cls (\<lambda>r. \<not> re_space r))))]"

definition bearer_re :: re where
  "bearer_re = Cats [WordB, IWord ''bearer'', AtLeast 1 (Cls re_space),
     AtLeast 16 (ICls (\<lambda>r. alnum r \<or> one_of ''._~+/=-'' r))]"

definition private_key_re :: re where
  "private_key_re = Cats [Word_of ''-----BEGIN '', Star (Cls (\<lambda>r. upper r \<or> digit r \<or> r = 32)),
     Word_of ''PRIVATE KEY-----'', StarLazy (Cls (\<lambda>_. True)),
     Alt (Cats [Word_of ''-----END '', Star (Cls (\<lambda>r. upper r \<or> digit r \<or> r = 32)),
       Word_of ''PRIVATE KEY-----'']) EndText]"

definition credential_re :: re where
  "credential_re = Cats [WordB,
     Alts [Cats [IWord ''api'', dash_opt, IWord ''key''], IWord ''apikey'',
       Cats [IWord ''secret'', dash_opt, IWord ''key''], Cats [IWord ''client'', dash_opt, IWord ''secret''],
       IWord ''secret'', Cats [IWord ''access'', dash_opt, IWord ''token''],
       Cats [IWord ''refresh'', dash_opt, IWord ''token''], Cats [IWord ''auth'', dash_opt, IWord ''token''],
       IWord ''token'', IWord ''passwd'', IWord ''password'',
       Cats [IWord ''access'', dash_opt, IWord ''key'']],
     WordB, quote_opt, spaces, Cls (one_of '':=''), spaces, quote_opt,
     AtLeast 8 (Cls (\<lambda>r. \<not> re_space r \<and> r \<notin> {34, 39, 44, 59}))]"

definition alnum_dash :: "nat \<Rightarrow> bool" where
  "alnum_dash r \<longleftrightarrow> alnum r \<or> r = 95 \<or> r = 45"

definition jwt_re :: re where
  "jwt_re = Cats [WordB, Word_of ''eyJ'', AtLeast 20 (Cls alnum_dash), Word_of ''.'',
     AtLeast 10 (Cls alnum_dash), Word_of ''.'', AtLeast 10 (Cls alnum_dash), WordB]"

definition patterns :: "pattern list" where
  "patterns =
    [\<lparr>pat_kind = ''authorization header'', pat_high = False, pat_re = authorization_re\<rparr>,
     \<lparr>pat_kind = ''bearer token'', pat_high = False, pat_re = bearer_re\<rparr>,
     \<lparr>pat_kind = ''private key block'', pat_high = True, pat_re = private_key_re\<rparr>,
     \<lparr>pat_kind = ''credential assignment'', pat_high = False, pat_re = credential_re\<rparr>,
     \<lparr>pat_kind = ''aimem user token'', pat_high = True,
       pat_re = Cats [WordB, Word_of ''aimem_user_'', Times 64 (Cls hexdigit), WordB]\<rparr>,
     \<lparr>pat_kind = ''AWS access key id'', pat_high = True,
       pat_re = Cats [WordB, Word_of ''AKIA'', Times 16 (Cls (\<lambda>r. digit r \<or> upper r)), WordB]\<rparr>,
     \<lparr>pat_kind = ''GitHub PAT'', pat_high = True,
       pat_re = Cats [WordB, Word_of ''ghp_'', AtLeast 30 (Cls alnum), WordB]\<rparr>,
     \<lparr>pat_kind = ''GitHub fine-grained PAT'', pat_high = True,
       pat_re = Cats [WordB, Word_of ''github_pat_'', AtLeast 30 (Cls (\<lambda>r. alnum r \<or> r = 95)), WordB]\<rparr>,
     \<lparr>pat_kind = ''OpenAI-style secret key'', pat_high = True,
       pat_re = Cats [WordB, Word_of ''sk-'', AtLeast 20 (Cls alnum_dash), WordB]\<rparr>,
     \<lparr>pat_kind = ''Slack token'', pat_high = True,
       pat_re = Cats [WordB, Word_of ''xox'', Cls (one_of ''baprs''), Word_of ''-'',
         AtLeast 10 (Cls (\<lambda>r. alnum r \<or> r = 45)), WordB]\<rparr>,
     \<lparr>pat_kind = ''GitLab PAT'', pat_high = True,
       pat_re = Cats [WordB, Word_of ''glpat-'', AtLeast 20 (Cls alnum_dash), WordB]\<rparr>,
     \<lparr>pat_kind = ''JWT'', pat_high = True, pat_re = jwt_re\<rparr>]"

definition ScanAuthored :: "string \<Rightarrow> string list \<times> string list" where
  \<comment> \<open>\<open>(warn, refuse)\<close>\<close>
  "ScanAuthored s =
     (map pat_kind (filter (\<lambda>p. \<not> pat_high p \<and> MatchString (pat_re p) s) patterns),
      map pat_kind (filter (\<lambda>p. pat_high p \<and> MatchString (pat_re p) s) patterns))"

section \<open>Sanitizing\<close>

text \<open>\<open>ReplaceAllString\<close>: matches from left to right, each the preferred one at its
  start. No pattern above matches the empty text, so a match always moves on.\<close>

function replace_from :: "re \<Rightarrow> string \<Rightarrow> rpos \<Rightarrow> string" where
  "replace_from r rep p =
     (case snd p of
        [] \<Rightarrow> []
      | u # us \<Rightarrow>
          (case match_ends r p of
             [] \<Rightarrow> snd u @ replace_from r rep (Some (rune_of u), us)
           | q # _ \<Rightarrow>
               if length (snd q) < length (snd p) then rep @ replace_from r rep q
               else snd u @ replace_from r rep (Some (rune_of u), us)))"
  by pat_completeness auto
termination
  by (relation "measure (\<lambda>(r, rep, p). length (snd p))") auto

declare replace_from.simps [simp del]

definition ReplaceAllString :: "re \<Rightarrow> string \<Rightarrow> string \<Rightarrow> string" where
  "ReplaceAllString r s rep = replace_from r rep (None, go_units s)"

text \<open>\<open>strings.ReplaceAll\<close> for a non-empty \<open>old\<close>.\<close>

function ReplaceAll :: "string \<Rightarrow> string \<Rightarrow> string \<Rightarrow> string" where
  "ReplaceAll s old new =
     (case s of
        [] \<Rightarrow> []
      | c # cs \<Rightarrow>
          if old \<noteq> [] \<and> take (length old) s = old then new @ ReplaceAll (drop (length old) s) old new
          else c # ReplaceAll cs old new)"
  by pat_completeness auto
termination
  by (relation "measure (\<lambda>(s, old, new). length s)") auto

declare ReplaceAll.simps [simp del]

fun split_comma :: "string \<Rightarrow> string \<Rightarrow> string list" where
  "split_comma acc [] = [rev acc]"
| "split_comma acc (c # cs) =
     (if c = CHR '','' then rev acc # split_comma [] cs else split_comma (c # acc) cs)"

definition secretEnvValues :: "(string \<Rightarrow> string) \<Rightarrow> string list" where
  "secretEnvValues getenv =
     (let names = getenv ''SESSIOND_SECRET_ENV''
      in if names = [] then []
         else filter (\<lambda>v. 6 \<le> length v) (map (\<lambda>n. getenv (TrimSpace n)) (split_comma [] names)))"

definition sanitize :: "(string \<Rightarrow> string) \<Rightarrow> string \<Rightarrow> string" where
  "sanitize getenv s =
     (let s1 = fold (\<lambda>p t. ReplaceAllString (pat_re p) t Placeholder) patterns s
      in fold (\<lambda>v t. ReplaceAll t v Placeholder) (secretEnvValues getenv) s1)"

text \<open>The loop that means not to split a rune: it drops trailing bytes in
  \<open>[0x80, 0xC0)\<close> and stops.\<close>

definition trim_cut :: "string \<Rightarrow> string" where
  "trim_cut pre = rev (dropWhile (\<lambda>c. 128 \<le> (of_char c :: nat) \<and> (of_char c :: nat) < 192) (rev pre))"

definition trunc_marker :: "(string \<Rightarrow> string) \<Rightarrow> string \<Rightarrow> string" where
  "trunc_marker sha s =
     CHR 0x0A # ''[TRUNCATED sha256='' @ sha s @ '' orig_bytes='' @ show_nat (length s) @ '']''"

definition redact_String :: "(string \<Rightarrow> string) \<Rightarrow> (string \<Rightarrow> string) \<Rightarrow> string \<Rightarrow> int \<Rightarrow> string \<times> bool" where
  "redact_String sha getenv s maxBytes =
     (let m = (if maxBytes \<le> 0 then DefaultMaxFieldBytes else maxBytes);
          t = sanitize getenv s
      in if int (length t) > m then (trim_cut (take (nat m) t) @ trunc_marker sha t, True)
         else (t, False))"

definition redact_Strings :: "(string \<Rightarrow> string) \<Rightarrow> (string \<Rightarrow> string) \<Rightarrow> string list \<Rightarrow> int \<Rightarrow> string list \<times> bool" where
  "redact_Strings sha getenv xs maxBytes =
     (let rs = map (\<lambda>s. redact_String sha getenv s maxBytes) xs
      in (map fst rs, list_ex snd rs))"

section \<open>Lemmas\<close>

lemma trim_cut_prefix: "\<exists>rest. pre = trim_cut pre @ rest"
proof -
  let ?P = "\<lambda>c. 128 \<le> (of_char c :: nat) \<and> (of_char c :: nat) < 192"
  have "pre = rev (takeWhile ?P (rev pre) @ dropWhile ?P (rev pre))" by simp
  then have "pre = trim_cut pre @ rev (takeWhile ?P (rev pre))"
    by (simp only: rev_append trim_cut_def)
  then show ?thesis by blast
qed

lemma trim_cut_length: "length (trim_cut pre) \<le> length pre"
  by (metis trim_cut_prefix length_append le_add1)

lemma starts_self: "(prev, us) \<in> set (starts prev us)"
  by (cases us) auto

lemma replace_from_no_match:
  "(\<And>q. q \<in> set (starts (fst p) (snd p)) \<Longrightarrow> match_ends r q = []) \<Longrightarrow> replace_from r rep p = concat (map snd (snd p))"
proof (induction "snd p" arbitrary: p)
  case Nil
  then show ?case by (simp add: replace_from.simps)
next
  case (Cons u us)
  from Cons.prems [of p] have "match_ends r p = []"
    by (cases p) (simp add: starts_self)
  moreover have "replace_from r rep (Some (rune_of u), us) = concat (map snd us)"
    using Cons.hyps(1) [of "(Some (rune_of u), us)"] Cons.prems
    by (simp add: Cons.hyps(2) [symmetric])
  ultimately show ?case
    by (simp add: replace_from.simps [of r rep p] Cons.hyps(2) [symmetric])
qed

lemma ReplaceAllString_no_match: "\<not> MatchString r s \<Longrightarrow> ReplaceAllString r s rep = s"
  using replace_from_no_match [of "(None, go_units s)" r rep]
  by (auto simp: ReplaceAllString_def MatchString_def list_ex_iff go_units_bytes)

lemma ReplaceAll_absent: "(\<And>a b. s \<noteq> a @ old @ b) \<Longrightarrow> ReplaceAll s old new = s"
proof (induction s)
  case Nil
  then show ?case by (simp add: ReplaceAll.simps)
next
  case (Cons c cs)
  from Cons.prems [of "[]" "drop (length old) (c # cs)"] have "take (length old) (c # cs) \<noteq> old"
    by (metis append_Nil append_take_drop_id)
  moreover have "cs \<noteq> a @ old @ b" for a b
    using Cons.prems [of "c # a" b] by simp
  ultimately show ?case using Cons.IH by (simp add: ReplaceAll.simps [of "c # cs"])
qed

text \<open>Text with no secret shape and no known secret passes unchanged.\<close>

lemma fold_id: "(\<And>x. x \<in> set xs \<Longrightarrow> f x s = s) \<Longrightarrow> fold f xs s = s"
  by (induction xs) auto

lemma sanitize_clean:
  assumes "ScanAuthored s = ([], [])"
    and "\<And>v a b. v \<in> set (secretEnvValues getenv) \<Longrightarrow> s \<noteq> a @ v @ b"
  shows "sanitize getenv s = s"
proof -
  have "\<not> MatchString (pat_re p) s" if "p \<in> set patterns" for p
    using assms(1) that by (auto simp: ScanAuthored_def filter_empty_conv)
  then have "fold (\<lambda>p t. ReplaceAllString (pat_re p) t Placeholder) patterns s = s"
    by (intro fold_id) (simp add: ReplaceAllString_no_match)
  moreover have "fold (\<lambda>v t. ReplaceAll t v Placeholder) (secretEnvValues getenv) s = s"
    using assms(2) by (intro fold_id ReplaceAll_absent) blast
  ultimately show ?thesis by (simp add: sanitize_def)
qed

text \<open>Every refusing pattern needs one of \<open>-\<close>, \<open>_\<close>, \<open>K\<close> and \<open>J\<close>.\<close>

lemma ScanAuthored_benign:
  assumes "set (runes s) \<inter> {45, 95, 74, 75} = {}"
  shows "snd (ScanAuthored s) = []"
proof -
  have n: "45 \<notin> set (runes s)" "95 \<notin> set (runes s)" "75 \<notin> set (runes s)" "74 \<notin> set (runes s)"
    using assms by auto
  have "\<not> MatchString (pat_re p) s" if "p \<in> set patterns" "pat_high p" for p
    using that n [THEN needs_MatchString [rotated]]
    by (auto simp: patterns_def private_key_re_def jwt_re_def)
  then show ?thesis by (auto simp: ScanAuthored_def filter_empty_conv)
qed

text \<open>The cut at the size cap drops the continuation bytes before it but never their lead byte: a
  whole rune at the cap loses its tail.\<close>

lemma trim_cut_leaves_lead_byte:
  "ValidString [CHR ''a'', CHR 0xC3, CHR 0xA9]" "trim_cut [CHR ''a'', CHR 0xC3, CHR 0xA9] = [CHR ''a'', CHR 0xC3]"
  "\<not> ValidString (trim_cut [CHR ''a'', CHR 0xC3, CHR 0xA9])"
  by code_simp+

end
