(* ===== verification/Validate.thy ===== *)
theory Validate
  imports StoreState Redact
begin

text \<open>
  Input validation of the task board: \<open>taskText\<close>, actor keys, capabilities, typed
  references and task content (\<open>internal/store/tasks.go\<close>, \<open>taskrefs.go\<close>), with the
  name checks they use from \<open>docs.go\<close>, \<open>collections.go\<close> and \<open>internal/schema\<close>. A
  validator returns \<open>None\<close> for \<open>nil\<close> and the start of its message otherwise.
\<close>

section \<open>Identifiers\<close>

definition MaxTaskBytes :: nat where "MaxTaskBytes = 32 * 1024"
definition MaxTaskCommentBytes :: nat where "MaxTaskCommentBytes = 32 * 1024"
definition MaxTaskTitleBytes :: nat where "MaxTaskTitleBytes = 256"
definition MaxCapabilityBytes :: nat where "MaxCapabilityBytes = 256"
definition MaxTaskRefBytes :: nat where "MaxTaskRefBytes = 2048"
definition MaxTaskListEntries :: nat where "MaxTaskListEntries = 32"
definition MaxTaskKeyBytes :: nat where "MaxTaskKeyBytes = 128"
definition maxTaskActorName :: nat where "maxTaskActorName = 128"
definition MaxTaskRefNoteBytes :: nat where "MaxTaskRefNoteBytes = 512"

text \<open>\<open>^[0-9a-f]{8}-[0-9a-f]{4}-7[0-9a-f]{3}-[89ab][0-9a-f]{3}-[0-9a-f]{12}$\<close>\<close>

definition taskIDRE :: re where
  "taskIDRE = Cats [BeginText, Times 8 (Cls hexdigit), Lit 45, Times 4 (Cls hexdigit), Lit 45,
     Lit 55, Times 3 (Cls hexdigit), Lit 45, Cls (one_of ''89ab''), Times 3 (Cls hexdigit), Lit 45,
     Times 12 (Cls hexdigit), EndText]"

definition is_id :: "string \<Rightarrow> bool" where
  "is_id s \<longleftrightarrow> MatchString taskIDRE s"

definition dot_dash :: "nat \<Rightarrow> bool" where
  "dot_dash r \<longleftrightarrow> alnum r \<or> one_of ''._-'' r"

text \<open>\<open>docNameRe\<close> and \<open>recordSegRe\<close> are the same pattern.\<close>

definition docNameRe :: re where
  "docNameRe = Cats [BeginText, Cls alnum, UpTo 63 (Cls dot_dash), EndText]"

fun split_slash :: "string \<Rightarrow> string \<Rightarrow> string list" where
  "split_slash acc [] = [rev acc]"
| "split_slash acc (c # cs) =
     (if c = CHR ''/'' then rev acc # split_slash [] cs else split_slash (c # acc) cs)"

definition validRecordID :: "string \<Rightarrow> bool" where
  "validRecordID rid \<longleftrightarrow> rid \<noteq> [] \<and> length rid \<le> 512 \<and> length (split_slash [] rid) \<le> 8
     \<and> list_all (MatchString docNameRe) (split_slash [] rid)"

definition projectIDRe :: re where
  "projectIDRe = Cats [BeginText, Cls dot_dash, UpTo 127 (Cls dot_dash), EndText]"

definition ValidProjectID :: "string \<Rightarrow> bool" where
  "ValidProjectID p \<longleftrightarrow> MatchString projectIDRe p \<and> p \<noteq> ''.'' \<and> p \<noteq> ''..''"

definition UserScopeProject :: string where "UserScopeProject = ''user''"

definition IsReservedProject :: "string \<Rightarrow> bool" where
  "IsReservedProject p \<longleftrightarrow> p = UserScopeProject \<or> take 6 p = ''group-''"

definition taskScopeOK :: "db \<Rightarrow> err option" where
  "taskScopeOK d = (if IsReservedProject (db_projectID d) then Some ErrTaskReservedScope else None)"

section \<open>Authored text\<close>

definition bidi :: "nat \<Rightarrow> bool" where
  "bidi r \<longleftrightarrow> (8234 \<le> r \<and> r \<le> 8238) \<or> (8294 \<le> r \<and> r \<le> 8297)"

definition bad_rune :: "nat \<Rightarrow> string option" where
  "bad_rune r =
     (if IsControl r \<and> r \<noteq> 10 \<and> r \<noteq> 13 \<and> r \<noteq> 9 then Some ''text contains an unsupported control character''
      else if bidi r then Some ''text contains a bidirectional override character''
      else None)"

definition taskText :: "string \<Rightarrow> nat \<Rightarrow> bool \<Rightarrow> string option" where
  "taskText s lim required =
     (if \<not> ValidString s then Some ''text must be valid UTF-8''
      else if length s > lim then Some ''text is over the limit''
      else if required \<and> blank s then Some ''text must not be blank''
      else case first_error bad_rune (runes s) of
        Some e \<Rightarrow> Some e
      | None \<Rightarrow> if snd (ScanAuthored s) \<noteq> [] then Some ''secret-shaped content refused'' else None)"

section \<open>Actors\<close>

definition actor_key :: "TaskActor \<Rightarrow> err + string" where
  "actor_key a =
     (case taskText (ac_Name a) maxTaskActorName True of
        Some e \<Rightarrow> Inl (ErrActor ''invalid actor name'')
      | None \<Rightarrow>
          if ac_Kind a = ''user'' \<and> is_id (ac_UserID a) \<and> is_id (ac_TokenID a)
          then Inr (''user/'' @ ac_UserID a @ ''/'' @ ac_TokenID a)
          else if ac_Kind a = ''admin'' \<and> ac_UserID a = [] \<and> ac_TokenID a = []
          then Inr (''admin/'' @ ac_Name a)
          else Inl (ErrActor ''invalid authenticated task actor''))"

definition assignee_column :: "TaskAssignee option \<Rightarrow> string" where
  "assignee_column p = (case p of None \<Rightarrow> [] | Some a \<Rightarrow> as_Kind a @ ''/'' @ as_ID a)"

definition assignee_ok :: "TaskAssignee \<Rightarrow> bool" where
  "assignee_ok a \<longleftrightarrow> (as_Kind a = ''user'' \<or> as_Kind a = ''group'') \<and> is_id (as_ID a)"

section \<open>Capabilities\<close>

definition capabilityKindRE :: re where
  "capabilityKindRE = Cats [BeginText, Cls lower,
     UpTo 31 (Cls (\<lambda>r. lower r \<or> digit r \<or> r = 45)), Word_of '': '']"

definition validCapability :: "env \<Rightarrow> string \<Rightarrow> bool" where
  "validCapability e s =
     (if length s > MaxCapabilityBytes \<or> \<not> ValidString s then False
      else let prefix = FindString capabilityKindRE s; name = drop (length prefix) s
        in if prefix = [] \<or> name = [] \<or> hd name = CHR '' '' \<or> last name = CHR '' '' then False
           else list_all (e_isPrint e) (runes name))"

section \<open>References\<close>

definition TaskRefKinds :: "string list" where
  "TaskRefKinds = [''task'', ''doc'', ''record'', ''commit'', ''pr'', ''ci'', ''url'', ''text'']"

definition httpURL :: "env \<Rightarrow> string \<Rightarrow> bool" where
  "httpURL e s =
     (case e_url e s of
        None \<Rightarrow> False
      | Some (scheme, host) \<Rightarrow>
          (scheme = ''http'' \<or> scheme = ''https'') \<and> host \<noteq> []
          \<and> \<not> list_ex (\<lambda>c. c \<in> {CHR '' '', CHR 9, CHR 13, CHR 10}) s)"

text \<open>\<open>strings.Cut(s, "/")\<close>.\<close>

definition cut_slash :: "string \<Rightarrow> (string \<times> string) option" where
  "cut_slash s =
     (case dropWhile (\<lambda>c. c \<noteq> CHR ''/'') s of
        [] \<Rightarrow> None
      | _ # rest \<Rightarrow> Some (takeWhile (\<lambda>c. c \<noteq> CHR ''/'') s, rest))"

definition ref_target_ok :: "env \<Rightarrow> TaskRef \<Rightarrow> bool" where
  "ref_target_ok e r =
     (if rf_Kind r = ''task'' then is_id (rf_Ref r)
      else if rf_Kind r = ''doc'' then MatchString docNameRe (rf_Ref r)
      else if rf_Kind r = ''record'' then
        (case cut_slash (rf_Ref r) of
           None \<Rightarrow> False
         | Some (col, rid) \<Rightarrow> MatchString docNameRe col \<and> validRecordID rid)
      else if rf_Kind r \<in> {''commit'', ''pr'', ''ci'', ''url''} then httpURL e (rf_Ref r)
      else True)"

definition ref_validate :: "env \<Rightarrow> TaskRef \<Rightarrow> string option" where
  "ref_validate e r =
     (if rf_Kind r \<notin> set TaskRefKinds then Some ''kind must be one of task, doc, record, commit, pr, ci, url, text''
      else if taskText (rf_Ref r) MaxTaskRefBytes True \<noteq> None then Some ''ref''
      else if taskText (rf_Note r) MaxTaskRefNoteBytes False \<noteq> None then Some ''note''
      else if rf_Scope r \<noteq> [] \<and> rf_Kind r \<noteq> ''doc'' \<and> rf_Kind r \<noteq> ''record''
        then Some ''scope applies to doc and record references only''
      else if rf_Scope r \<noteq> [] \<and> \<not> ValidProjectID (rf_Scope r) then Some ''scope must be a project or group id''
      else if \<not> ref_target_ok e r then Some ''the reference does not name a target of its kind''
      else None)"

definition validateRefs :: "env \<Rightarrow> TaskRef list \<Rightarrow> string option" where
  "validateRefs e refs =
     (if length refs > MaxTaskListEntries then Some ''at most 32 entries per dependency or reference list''
      else first_error (ref_validate e) refs)"

definition LegacyRef :: "env \<Rightarrow> string \<Rightarrow> TaskRef" where
  "LegacyRef e s =
     (if httpURL e s then \<lparr>rf_Kind = ''url'', rf_Ref = s, rf_Note = [], rf_Scope = []\<rparr>
      else \<lparr>rf_Kind = ''text'', rf_Ref = s, rf_Note = [], rf_Scope = []\<rparr>)"

section \<open>Task content\<close>

definition TaskStates :: "string list" where
  "TaskStates = [''BACKLOG'', ''READY'', ''IN_PROGRESS'', ''REVIEW'', ''BLOCKED'', ''DONE'', ''CANCELLED'']"

definition validTaskState :: "string \<Rightarrow> bool" where
  "validTaskState s \<longleftrightarrow> s \<in> set TaskStates"

definition content_validate :: "env \<Rightarrow> TaskContent \<Rightarrow> string option" where
  "content_validate e c =
     (if taskText (tc_Title c) MaxTaskTitleBytes True \<noteq> None then Some ''title''
      else if \<not> validTaskState (tc_State c) then Some ''invalid task state''
      else if tc_Archived c \<and> tc_State c \<noteq> ''DONE'' \<and> tc_State c \<noteq> ''CANCELLED''
        then Some ''only DONE or CANCELLED tasks can be archived''
      else if \<not> (case tc_Assignee c of None \<Rightarrow> True | Some a \<Rightarrow> assignee_ok a)
        then Some ''assignee must be {kind: user|group, id: <access identity UUID>}''
      else if tc_Epic c \<noteq> [] \<and> \<not> is_id (tc_Epic c) then Some ''epic must be an epic id''
      else if tc_RequiredCapability c \<noteq> [] \<and> \<not> validCapability e (tc_RequiredCapability c)
        then Some ''required_capability must be <kind>: <name>''
      else if taskText (tc_RequiredCapability c) MaxCapabilityBytes False \<noteq> None then Some ''required_capability''
      else if length (tc_Dependencies c) > MaxTaskListEntries
        then Some ''at most 32 entries per dependency or reference list''
      else case validateRefs e (tc_CandidateRefs c) of Some m \<Rightarrow> Some m | None \<Rightarrow>
      case validateRefs e (tc_EvidenceRefs c) of Some m \<Rightarrow> Some m | None \<Rightarrow>
      if \<not> list_all is_id (tc_Dependencies c) then Some ''each dependency must be a task ID''
      else case first_error (\<lambda>t. taskText t MaxTaskBytes False)
          [tc_Objective c, tc_AcceptanceCriteria c, tc_NonGoals c, tc_Blocker c, tc_NextAction c] of
        Some m \<Rightarrow> Some m
      | None \<Rightarrow> if length (marshal (json_content c)) > MaxTaskBytes then Some ''task content is over the limit'' else None)"

section \<open>Lemmas\<close>

text \<open>Plain ASCII text without the four runes the refusing patterns need.\<close>

definition plain :: "string \<Rightarrow> bool" where
  "plain s \<longleftrightarrow> list_all (\<lambda>c. let n = (of_char c :: nat) in 32 \<le> n \<and> n < 127 \<and> n \<notin> {45, 95, 74, 75}) s"

lemma plain_ascii: "plain s \<Longrightarrow> ascii s"
  by (auto simp: plain_def ascii_def list_all_iff Let_def)

lemma taskText_plain:
  assumes "plain s" "length s \<le> n" "\<not> list_all (\<lambda>c. c = CHR '' '') s \<or> \<not> req"
  shows "taskText s n req = None"
proof -
  have runes: "runes s = map of_char s" by (simp add: plain_ascii [OF assms(1)] ascii_runes)
  have "first_error bad_rune (runes s) = None"
    using assms(1) by (auto simp: runes bad_rune_def IsControl_def bidi_def plain_def list_all_iff Let_def)
  moreover have "snd (ScanAuthored s) = []"
    using assms(1) by (intro ScanAuthored_benign) (auto simp: runes plain_def list_all_iff Let_def)
  moreover have "\<not> blank s" if "req"
  proof -
    from that assms(3) obtain c where c: "c \<in> set s" "c \<noteq> CHR '' ''" by (auto simp: list_all_iff)
    with assms(1) have "32 \<le> (of_char c :: nat)" "(of_char c :: nat) < 127" by (auto simp: plain_def list_all_iff Let_def)
    moreover have "(of_char c :: nat) \<noteq> 32"
      using c(2) of_char_eq_iff [of c "CHR '' ''", where ?'a = nat] by simp
    ultimately show ?thesis using c(1) by (auto simp: blank_def runes IsSpace_def list_all_iff intro!: bexI [of _ c])
  qed
  ultimately show ?thesis
    using assms plain_ascii [OF assms(1)] by (auto simp: taskText_def ascii_ValidString simp del: first_error_None_iff)
qed

lemma taskText_Nil [simp]: "taskText [] n False = None"
  by (rule taskText_plain) (auto simp: plain_def)

lemma taskText_required: "taskText s n True = None \<Longrightarrow> s \<noteq> []"
  by (auto simp: taskText_def ValidString_def)

text \<open>The shape of an identifier, spelled out by position.\<close>

definition id_shape :: "(nat \<Rightarrow> bool) list" where
  "id_shape = replicate 8 hexdigit @ [\<lambda>r. r = 45] @ replicate 4 hexdigit @ [\<lambda>r. r = 45, \<lambda>r. r = 55] @ replicate 3 hexdigit
     @ [\<lambda>r. r = 45, one_of ''89ab''] @ replicate 3 hexdigit @ [\<lambda>r. r = 45] @ replicate 12 hexdigit"

lemma classes_Times [simp]: "classes (Times n (Cls P)) = Some (replicate n P)"
  by (induction n) auto

lemma is_id_shape: "is_id s \<longleftrightarrow> shape id_shape (runes s)"
proof -
  have "classes_end (Cats [Times 8 (Cls hexdigit), Lit 45, Times 4 (Cls hexdigit), Lit 45,
     Lit 55, Times 3 (Cls hexdigit), Lit 45, Cls (one_of ''89ab''), Times 3 (Cls hexdigit), Lit 45,
     Times 12 (Cls hexdigit), EndText]) = Some id_shape"
    by (simp add: Lit_def id_shape_def)
  from MatchString_anchored [OF this] show ?thesis
    by (simp add: is_id_def taskIDRE_def)
qed

lemma is_id_ascii: "ascii s \<Longrightarrow> is_id s \<longleftrightarrow> shape id_shape (map of_char s)"
  by (simp add: is_id_shape ascii_runes)

lemma shape_length: "shape ps rs \<Longrightarrow> length rs = length ps"
  by (induction ps rs rule: shape.induct) auto

lemma is_id_nonempty: "is_id s \<Longrightarrow> s \<noteq> []"
  using shape_length [of id_shape "runes s"] by (auto simp: is_id_shape id_shape_def runes_def)

end
