(* ===== verification/Receipts.thy ===== *)
theory Receipts
  imports Validate
begin

text \<open>
  Retry receipts (\<open>taskMutation\<close>, \<open>checkedTaskMutation\<close> and \<open>replays\<close> of
  \<open>internal/store/tasks.go\<close>): one transaction that checks authority, looks the receipt
  up, runs the mutation and stores its result. The transaction is the whole function: an
  error returns no database, which is the rollback.

  The check returns what the mutation closure captures from it. \<open>wr\<close> and \<open>rd\<close> write a
  result as a receipt and read it back.
\<close>

section \<open>The mutation wrapper\<close>

definition checkedTaskMutation ::
  "env \<Rightarrow> TaskActor \<Rightarrow> string \<Rightarrow> string \<Rightarrow> string \<Rightarrow> json \<Rightarrow> (db \<Rightarrow> err + 'c) \<Rightarrow> ('a \<Rightarrow> reply)
    \<Rightarrow> (reply \<Rightarrow> 'a option) \<Rightarrow> ('c \<Rightarrow> db \<Rightarrow> err + ('a \<times> db)) \<Rightarrow> db \<Rightarrow> err + ('a \<times> db)" where
  "checkedTaskMutation e actor op scope key input check wr rd fn d =
     (case taskScopeOK d of Some x \<Rightarrow> Inl x | None \<Rightarrow>
      case actor_key actor of Inl x \<Rightarrow> Inl x | Inr actorKey \<Rightarrow>
      case taskText key MaxTaskKeyBytes True of Some m \<Rightarrow> Inl (invalid m) | None \<Rightarrow>
      case check d of Inl x \<Rightarrow> Inl x | Inr c \<Rightarrow>
      case map_of (db_requests d) (actorKey, op, scope, key) of
        Some (savedDigest, saved) \<Rightarrow>
          if savedDigest \<noteq> receiptDigest (e_sha e) input then Inl ErrTaskRetryConflict
          else (case rd saved of None \<Rightarrow> Inl ErrDecode | Some out \<Rightarrow> Inr (out, d))
      | None \<Rightarrow>
          case fn c d of Inl x \<Rightarrow> Inl x | Inr (out, d1) \<Rightarrow>
          case tb_insert (actorKey, op, scope, key) (receiptDigest (e_sha e) input, wr out) (db_requests d1) of
            None \<Rightarrow> Inl ErrSQL
          | Some t \<Rightarrow> Inr (out, d1\<lparr>db_requests := t\<rparr>))"

definition taskMutation ::
  "env \<Rightarrow> TaskActor \<Rightarrow> string \<Rightarrow> string \<Rightarrow> string \<Rightarrow> json \<Rightarrow> ('a \<Rightarrow> reply)
    \<Rightarrow> (reply \<Rightarrow> 'a option) \<Rightarrow> (db \<Rightarrow> err + ('a \<times> db)) \<Rightarrow> db \<Rightarrow> err + ('a \<times> db)" where
  "taskMutation e actor op scope key input wr rd fn =
     checkedTaskMutation e actor op scope key input (\<lambda>_. Inr ()) wr rd (\<lambda>_. fn)"

record retry =
  ry_op :: string
  ry_scope :: string
  ry_input :: json

definition replays :: "env \<Rightarrow> TaskActor \<Rightarrow> string \<Rightarrow> retry \<Rightarrow> db \<Rightarrow> bool" where
  "replays e actor key r d =
     (case actor_key actor of Inl _ \<Rightarrow> False | Inr actorKey \<Rightarrow>
      case map_of (db_requests d) (actorKey, ry_op r, ry_scope r, key) of
        None \<Rightarrow> False
      | Some (saved, _) \<Rightarrow> saved = receiptDigest (e_sha e) (ry_input r))"

fun prj_task :: "reply \<Rightarrow> Task option" where
  "prj_task (RTask t) = Some t" | "prj_task _ = None"
fun prj_comment :: "reply \<Rightarrow> TaskComment option" where
  "prj_comment (RComment t) = Some t" | "prj_comment _ = None"
fun prj_epic :: "reply \<Rightarrow> Epic option" where
  "prj_epic (REpic t) = Some t" | "prj_epic _ = None"
fun prj_team :: "reply \<Rightarrow> Team option" where
  "prj_team (RTeam t) = Some t" | "prj_team _ = None"
fun prj_session :: "reply \<Rightarrow> TeamSession option" where
  "prj_session (RSession t) = Some t" | "prj_session _ = None"
fun prj_assignment :: "reply \<Rightarrow> TeamAssignment option" where
  "prj_assignment (RAssignment t) = Some t" | "prj_assignment _ = None"
fun prj_message :: "reply \<Rightarrow> TeamMessage option" where
  "prj_message (RMessage t) = Some t" | "prj_message _ = None"
fun prj_ack :: "reply \<Rightarrow> TeamAck option" where
  "prj_ack (RAck t) = Some t" | "prj_ack _ = None"

section \<open>What a call does\<close>

text \<open>A successful call either served the stored result and changed nothing, or ran the
  mutation once and added its receipt.\<close>

lemma checkedTaskMutation_cases:
  assumes "checkedTaskMutation e a op scope key input check wr rd fn d = Inr (out, d')"
  obtains (replay) k saved where "actor_key a = Inr k" "d' = d" "rd saved = Some out" "succeeds (check d)"
      "map_of (db_requests d) (k, op, scope, key) = Some (receiptDigest (e_sha e) input, saved)"
  | (fresh) k c d1 t where "actor_key a = Inr k" "taskScopeOK d = None" "check d = Inr c"
      "map_of (db_requests d) (k, op, scope, key) = None" "fn c d = Inr (out, d1)"
      "tb_insert (k, op, scope, key) (receiptDigest (e_sha e) input, wr out) (db_requests d1) = Some t"
      "d' = d1\<lparr>db_requests := t\<rparr>"
proof -
  from assms obtain k c where s: "taskScopeOK d = None" and k: "actor_key a = Inr k" and c: "check d = Inr c"
    and r: "(case map_of (db_requests d) (k, op, scope, key) of
        Some (savedDigest, saved) \<Rightarrow>
          if savedDigest \<noteq> receiptDigest (e_sha e) input then Inl ErrTaskRetryConflict
          else (case rd saved of None \<Rightarrow> Inl ErrDecode | Some out \<Rightarrow> Inr (out, d))
      | None \<Rightarrow>
          case fn c d of Inl x \<Rightarrow> Inl x | Inr (out, d1) \<Rightarrow>
          case tb_insert (k, op, scope, key) (receiptDigest (e_sha e) input, wr out) (db_requests d1) of
            None \<Rightarrow> Inl ErrSQL
          | Some t \<Rightarrow> Inr (out, d1\<lparr>db_requests := t\<rparr>)) = Inr (out, d')"
    unfolding checkedTaskMutation_def by (simp only: tx_simps) blast
  show ?thesis
  proof (cases "map_of (db_requests d) (k, op, scope, key)")
    case None
    with r obtain d1 t where "fn c d = Inr (out, d1)"
      "tb_insert (k, op, scope, key) (receiptDigest (e_sha e) input, wr out) (db_requests d1) = Some t"
      "d' = d1\<lparr>db_requests := t\<rparr>"
      by (auto split: sum.splits option.splits)
    then show ?thesis by (rule fresh [OF k s c None])
  next
    case (Some x)
    with r obtain saved where "x = (receiptDigest (e_sha e) input, saved)" "rd saved = Some out" "d' = d"
      by (cases x) (auto split: if_splits option.splits)
    with Some show ?thesis by (intro replay [OF k]) (simp_all add: c)
  qed
qed

lemma taskMutation_cases:
  assumes "taskMutation e a op scope key input wr rd fn d = Inr (out, d')"
  obtains (replay) k saved where "actor_key a = Inr k" "d' = d" "rd saved = Some out"
      "map_of (db_requests d) (k, op, scope, key) = Some (receiptDigest (e_sha e) input, saved)"
  | (fresh) k d1 t where "actor_key a = Inr k" "taskScopeOK d = None"
      "map_of (db_requests d) (k, op, scope, key) = None" "fn d = Inr (out, d1)"
      "tb_insert (k, op, scope, key) (receiptDigest (e_sha e) input, wr out) (db_requests d1) = Some t"
      "d' = d1\<lparr>db_requests := t\<rparr>"
  using assms unfolding taskMutation_def
proof (cases rule: checkedTaskMutation_cases)
  case (replay k saved)
  show ?thesis by (rule that(1) [OF replay(1-3,5)])
next
  case (fresh k c d1 t)
  show ?thesis by (rule that(2) [OF fresh(1,2,4-7)])
qed

text \<open>A property of the database that does not look at the receipts is kept by the
  wrapper when the mutation keeps it.\<close>

lemma checkedTaskMutation_keeps:
  assumes "checkedTaskMutation e a op scope key input check wr rd fn d = Inr (out, d')"
    and "P d"
    and "\<And>c d1. \<lbrakk>check d = Inr c; fn c d = Inr (out, d1); taskScopeOK d = None\<rbrakk> \<Longrightarrow> P d1"
    and "\<And>d1 t. P d1 \<Longrightarrow> P (d1\<lparr>db_requests := t\<rparr>)"
  shows "P d'"
  using assms(1) by (rule checkedTaskMutation_cases) (use assms(2-) in auto)

text \<open>The receipt of a call: what is stored under its key.\<close>

definition receipt_of :: "db \<Rightarrow> TaskActor \<Rightarrow> string \<Rightarrow> string \<Rightarrow> string \<Rightarrow> (string \<times> reply) option" where
  "receipt_of d actor op scope key =
     (case actor_key actor of Inl _ \<Rightarrow> None | Inr k \<Rightarrow> map_of (db_requests d) (k, op, scope, key))"

text \<open>Receipts are only ever added.\<close>

definition receipts_grow :: "db \<Rightarrow> db \<Rightarrow> bool" where
  "receipts_grow d d' \<longleftrightarrow> map_of (db_requests d) \<subseteq>\<^sub>m map_of (db_requests d')"

lemma receipts_grow_refl [simp]: "receipts_grow d d"
  by (simp add: receipts_grow_def)

lemma receipts_grow_trans: "receipts_grow d d1 \<Longrightarrow> receipts_grow d1 d2 \<Longrightarrow> receipts_grow d d2"
  by (auto simp: receipts_grow_def intro: map_le_trans)

lemma receipts_grow_same: "db_requests d' = db_requests d \<Longrightarrow> receipts_grow d d'"
  by (simp add: receipts_grow_def)

lemma checkedTaskMutation_receipts_grow:
  assumes "checkedTaskMutation e a op scope key input check wr rd fn d = Inr (out, d')"
    and "\<And>c d1. fn c d = Inr (out, d1) \<Longrightarrow> db_requests d1 = db_requests d"
  shows "receipts_grow d d'"
  using assms(1)
proof (cases rule: checkedTaskMutation_cases)
  case (fresh k c d1 t)
  then have n: "map_of (db_requests d) (k, op, scope, key) = None"
    and t: "map_of (db_requests d') = (map_of (db_requests d))((k, op, scope, key) \<mapsto> (receiptDigest (e_sha e) input, wr out))"
    using assms(2) [of c d1] tb_insert_SomeD(2) [OF fresh(6)] by simp_all
  show ?thesis unfolding receipts_grow_def t map_le_def using n by (metis domIff fun_upd_other)
qed simp

lemma checkedTaskMutation_receipt:
  assumes "checkedTaskMutation e a op scope key input check wr rd fn d = Inr (out, d')"
    and "\<And>x. rd (wr x) = Some x"
  shows "\<exists>saved. receipt_of d' a op scope key = Some (receiptDigest (e_sha e) input, saved) \<and> rd saved = Some out"
  using assms(1)
proof (cases rule: checkedTaskMutation_cases)
  case (fresh k c d1 t)
  from tb_insert_SomeD(2) [OF fresh(6)] show ?thesis
    by (simp add: receipt_of_def fresh assms(2))
qed (auto simp: receipt_of_def)

text \<open>With a receipt of the same input in place, the mutation does not run: the answer is
  the stored one, or the error of a check that comes before the lookup.\<close>

lemma checkedTaskMutation_replay:
  assumes "receipt_of d a op scope key = Some (receiptDigest (e_sha e) input, saved)"
    and "checkedTaskMutation e a op scope key input check wr rd fn d = Inr (out, d')"
  shows "d' = d \<and> rd saved = Some out"
  using assms(2) by (rule checkedTaskMutation_cases) (use assms(1) in \<open>auto simp: receipt_of_def\<close>)

lemma checkedTaskMutation_conflict:
  assumes "receipt_of d a op scope key = Some (dg, saved)" "dg \<noteq> receiptDigest (e_sha e) input"
  shows "\<not> succeeds (checkedTaskMutation e a op scope key input check wr rd fn d)"
proof
  assume "succeeds (checkedTaskMutation e a op scope key input check wr rd fn d)"
  then obtain out d' where "checkedTaskMutation e a op scope key input check wr rd fn d = Inr (out, d')"
    by (auto simp: succeeds_iff)
  then show False
    by (rule checkedTaskMutation_cases) (use assms in \<open>auto simp: receipt_of_def\<close>)
qed

section \<open>Principals\<close>

lemma decode_rune_ascii: "fst (decode_rune (b # bs)) = Some n \<Longrightarrow> n < 128 \<Longrightarrow> n = b \<and> snd (decode_rune (b # bs)) = 1"
  by (auto simp: decode_rune.simps cont_byte_def split: if_splits list.splits)

lemma runes_ascii: "\<forall>r \<in> set (runes s). r < 128 \<Longrightarrow> ascii s"
proof (induction s rule: length_induct)
  case (1 s)
  show ?case
  proof (cases s)
    case (Cons c cs)
    obtain r w where rw: "decode_rune (map of_char (c # cs)) = (r, w)" by fastforce
    have u: "go_units s = (r, take w s) # go_units (drop w s)"
      unfolding Cons using rw by (subst go_units.simps) simp
    then have rs: "runes s = (case r of None \<Rightarrow> 65533 | Some n \<Rightarrow> n) # runes (drop w s)"
      by (simp add: runes_def)
    with "1.prems" obtain n where n: "r = Some n" "n < 128" by (cases r) auto
    from decode_rune_ascii [of "of_char c" "map of_char cs" n] rw n have w: "w = 1" "n = of_char c" by auto
    have "ascii cs" using "1.IH" [rule_format, of cs] "1.prems" rs w by (auto simp: Cons)
    then show ?thesis using w n by (simp add: Cons ascii_def)
  qed (simp add: ascii_def)
qed

lemma shape_all: "shape ps rs \<Longrightarrow> (\<And>P r. P \<in> set ps \<Longrightarrow> P r \<Longrightarrow> Q r) \<Longrightarrow> \<forall>r \<in> set rs. Q r"
  by (induction ps rs rule: shape.induct) auto

lemma is_id_ascii_36: "is_id s \<Longrightarrow> ascii s \<and> length s = 36"
proof -
  assume s: "is_id s"
  have "\<forall>r \<in> set (runes s). r < 128"
    using s unfolding is_id_shape
    by (rule shape_all) (auto simp: id_shape_def hexdigit_def digit_def rng_def one_of_def)
  then have a: "ascii s" by (rule runes_ascii)
  have "length s = length id_shape"
    using shape_length [of id_shape "runes s"] s by (simp add: is_id_shape ascii_runes [OF a])
  with a show ?thesis by (simp add: id_shape_def)
qed

text \<open>Two accepted actors with the same receipt key are the same principal.\<close>

lemma actor_key_inj:
  assumes "actor_key a = Inr k" "actor_key b = Inr k"
  shows "ac_Kind a = ac_Kind b \<and> ac_UserID a = ac_UserID b \<and> ac_TokenID a = ac_TokenID b
     \<and> (ac_Kind a = ''admin'' \<longrightarrow> ac_Name a = ac_Name b)"
proof -
  have split: "u = u' \<and> t = t'" if "''user/'' @ u @ ''/'' @ t = ''user/'' @ u' @ ''/'' @ t'" "is_id u" "is_id u'" for u u' t t'
    using that is_id_ascii_36 [of u] is_id_ascii_36 [of u'] by auto
  have shape: "(ac_Kind x = ''user'' \<and> is_id (ac_UserID x) \<and> k = ''user/'' @ ac_UserID x @ ''/'' @ ac_TokenID x)
      \<or> (ac_Kind x = ''admin'' \<and> ac_UserID x = [] \<and> ac_TokenID x = [] \<and> k = ''admin/'' @ ac_Name x)"
    if "actor_key x = Inr k" for x
    using that by (auto simp: actor_key_def split: option.splits if_splits)
  from shape [OF assms(1)] shape [OF assms(2)] show ?thesis
    using split [of "ac_UserID a" "ac_TokenID a" "ac_UserID b" "ac_TokenID b"] by auto
qed

end
