(* ===== verification/Epics.thy ===== *)
theory Epics
  imports Receipts
begin

text \<open>
  Epics (\<open>internal/store/epics.go\<close>): the grouping above tasks, written through the same
  receipt-backed mutation, with its own history and expected-revision check.
\<close>

section \<open>Operations\<close>

definition MaxEpicTextBytes :: nat where "MaxEpicTextBytes = 8 * 1024"
definition MaxEpicsListed :: nat where "MaxEpicsListed = 500"

text \<open>\<open>validate\<close> also sets the default state; it returns the content it leaves.\<close>

definition epic_validate :: "EpicContent \<Rightarrow> string + EpicContent" where
  "epic_validate c =
     (if taskText (ec_Title c) MaxTaskTitleBytes True \<noteq> None then Inl ''title''
      else let c = (if ec_State c = [] then c\<lparr>ec_State := ''OPEN''\<rparr> else c)
        in if ec_State c \<noteq> ''OPEN'' \<and> ec_State c \<noteq> ''RETIRED'' then Inl ''invalid epic state''
        else if taskText (ec_Objective c) MaxEpicTextBytes False \<noteq> None then Inl ''objective''
        else if taskText (ec_Target c) MaxTaskTitleBytes False \<noteq> None then Inl ''target''
        else Inr c)"

definition readEpic :: "string \<Rightarrow> db \<Rightarrow> err + Epic" where
  "readEpic eid d = (case map_of (db_epics d) eid of None \<Rightarrow> Inl ErrEpicNotFound | Some r \<Rightarrow> Inr (er_body r))"

definition saveEpic :: "Epic \<Rightarrow> TaskActor \<Rightarrow> bool \<Rightarrow> db \<Rightarrow> err + db" where
  "saveEpic ep actor create d =
     (let row = \<lparr>er_state = ec_State (ep_Content ep), er_body = ep\<rparr>
      in case (if create then tb_insert (ep_ID ep) row (db_epics d)
               else Some (if map_of (db_epics d) (ep_ID ep) = None then db_epics d
                          else AList.update (ep_ID ep) row (db_epics d))) of
        None \<Rightarrow> Inl ErrSQL
      | Some t \<Rightarrow>
          (case tb_insert (ep_ID ep, ep_Revision ep) \<lparr>ech_Epic = ep, ech_Actor = actor\<rparr> (db_epic_history d) of
             None \<Rightarrow> Inl ErrSQL
           | Some h \<Rightarrow> Inr (d\<lparr>db_epics := t, db_epic_history := h\<rparr>)))"

definition CreateEpic_tx :: "env \<Rightarrow> EpicContent \<Rightarrow> TaskActor \<Rightarrow> db \<Rightarrow> err + (Epic \<times> db)" where
  "CreateEpic_tx e content actor d =
     (let ep = \<lparr>ep_ID = e_uuid e 0, ep_Revision = 1, ep_Content = content,
        ep_CreatedAt = e_now e 0, ep_UpdatedAt = e_now e 0\<rparr>
      in case saveEpic ep actor True d of Inl x \<Rightarrow> Inl x | Inr d' \<Rightarrow> Inr (ep, d'))"

definition CreateEpic :: "env \<Rightarrow> EpicContent \<Rightarrow> TaskActor \<Rightarrow> string \<Rightarrow> db \<Rightarrow> err + (Epic \<times> db)" where
  "CreateEpic e content actor key d =
     (case epic_validate content of Inl m \<Rightarrow> Inl (invalid m) | Inr content \<Rightarrow>
      taskMutation e actor ''epic-create'' [] key (json_epic_content content) REpic prj_epic
        (CreateEpic_tx e content actor) d)"

definition UpdateEpic_tx :: "env \<Rightarrow> string \<Rightarrow> EpicContent \<Rightarrow> int \<Rightarrow> TaskActor \<Rightarrow> db \<Rightarrow> err + (Epic \<times> db)" where
  "UpdateEpic_tx e eid content expected actor d =
     (case readEpic eid d of Inl x \<Rightarrow> Inl x | Inr old \<Rightarrow>
      if ep_Revision old \<noteq> expected then Inl (EpicConflict old)
      else let ep = old\<lparr>ep_Content := content, ep_Revision := ep_Revision old + 1, ep_UpdatedAt := e_now e 0\<rparr>
        in case saveEpic ep actor False d of Inl x \<Rightarrow> Inl x | Inr d' \<Rightarrow> Inr (ep, d'))"

definition UpdateEpic :: "env \<Rightarrow> string \<Rightarrow> EpicContent \<Rightarrow> int \<Rightarrow> TaskActor \<Rightarrow> string \<Rightarrow> db \<Rightarrow> err + (Epic \<times> db)" where
  "UpdateEpic e eid content expected actor key d =
     (if \<not> is_id eid then Inl ErrEpicNotFound
      else if expected < 1 then Inl (invalid ''expected_revision must be a positive revision'')
      else case epic_validate content of Inl m \<Rightarrow> Inl (invalid m) | Inr content \<Rightarrow>
      taskMutation e actor ''epic-update'' eid key
        (JObj [(''content'', json_epic_content content), (''expected'', JNum expected)]) REpic prj_epic
        (UpdateEpic_tx e eid content expected actor) d)"

definition GetEpic :: "string \<Rightarrow> db \<Rightarrow> err + Epic" where
  "GetEpic eid d =
     (if \<not> is_id eid then Inl ErrEpicNotFound
      else case taskScopeOK d of Some x \<Rightarrow> Inl x | None \<Rightarrow> readEpic eid d)"

definition ListEpics :: "bool \<Rightarrow> db \<Rightarrow> err + Epic list" where
  "ListEpics includeRetired d =
     (case taskScopeOK d of Some x \<Rightarrow> Inl x | None \<Rightarrow>
      Inr (take MaxEpicsListed (map (\<lambda>(_, r). er_body r)
        (filter (\<lambda>(_, r). includeRetired \<or> er_state r = ''OPEN'') (sort_key fst (db_epics d))))))"

text \<open>May a task carry \<open>epic\<close>? A retired epic keeps the tasks it has and takes no new one.\<close>

definition checkEpicAssignable :: "string \<Rightarrow> string \<Rightarrow> db \<Rightarrow> err option" where
  "checkEpicAssignable epic previous d =
     (if epic = [] then None
      else case readEpic epic d of
        Inl ErrEpicNotFound \<Rightarrow> Some (invalid ''epic does not exist in this project'')
      | Inl x \<Rightarrow> Some x
      | Inr ep \<Rightarrow>
          if ec_State (ep_Content ep) = ''RETIRED'' \<and> epic \<noteq> previous
          then Some (invalid ''epic is retired and takes no new assignment'') else None)"

section \<open>Invariant\<close>

text \<open>An epic's row is its last history entry, its column agrees with its body, and its
  history holds every revision from 1 on.\<close>

definition epic_revision :: "db \<Rightarrow> string \<Rightarrow> int option" where
  "epic_revision d i = map_option (\<lambda>r. ep_Revision (er_body r)) (map_of (db_epics d) i)"

definition epics_ok :: "db \<Rightarrow> bool" where
  "epics_ok d \<longleftrightarrow>
     tb_ok (db_epics d) \<and> tb_ok (db_epic_history d)
     \<and> history_complete (epic_revision d) (map_of (db_epic_history d))
     \<and> (\<forall>i r. map_of (db_epics d) i = Some r \<longrightarrow>
          ep_ID (er_body r) = i \<and> er_state r = ec_State (ep_Content (er_body r)) \<and> 1 \<le> ep_Revision (er_body r)
          \<and> ec_State (ep_Content (er_body r)) \<in> {''OPEN'', ''RETIRED''}
          \<and> map_option ech_Epic (map_of (db_epic_history d) (i, ep_Revision (er_body r))) = Some (er_body r))"

lemma epics_okD:
  assumes "epics_ok d"
  shows "tb_ok (db_epics d)" and "tb_ok (db_epic_history d)"
    and "history_complete (epic_revision d) (map_of (db_epic_history d))"
    and "map_of (db_epics d) i = Some r \<Longrightarrow> ep_ID (er_body r) = i"
    and "map_of (db_epics d) i = Some r \<Longrightarrow> 1 \<le> ep_Revision (er_body r)"
    and "map_of (db_epics d) i = Some r \<Longrightarrow> er_state r = ec_State (ep_Content (er_body r))"
  using assms unfolding epics_ok_def by blast+

lemma epics_ok_cong:
  "db_epics d' = db_epics d \<Longrightarrow> db_epic_history d' = db_epic_history d \<Longrightarrow> epics_ok d' = epics_ok d"
  by (simp add: epics_ok_def epic_revision_def [abs_def])

lemma epics_ok_requests [simp]: "epics_ok (d\<lparr>db_requests := t\<rparr>) = epics_ok d"
  by (rule epics_ok_cong) simp_all

lemma epic_validate_state: "epic_validate c = Inr c' \<Longrightarrow> ec_State c' \<in> {''OPEN'', ''RETIRED''}"
  by (auto simp: epic_validate_def Let_def split: if_splits)

lemma saveEpic_SomeD:
  assumes "saveEpic ep actor create d = Inr d'"
    and "create \<or> map_of (db_epics d) (ep_ID ep) \<noteq> None"
  shows "create \<Longrightarrow> map_of (db_epics d) (ep_ID ep) = None"
    and "map_of (db_epics d') = (map_of (db_epics d))(ep_ID ep \<mapsto> \<lparr>er_state = ec_State (ep_Content ep), er_body = ep\<rparr>)"
    and "map_of (db_epic_history d') = (map_of (db_epic_history d))((ep_ID ep, ep_Revision ep) \<mapsto> \<lparr>ech_Epic = ep, ech_Actor = actor\<rparr>)"
    and "map_of (db_epic_history d) (ep_ID ep, ep_Revision ep) = None"
    and "tb_ok (db_epics d) \<Longrightarrow> tb_ok (db_epics d')"
    and "tb_ok (db_epic_history d) \<Longrightarrow> tb_ok (db_epic_history d')"
    and "\<exists>t h. d' = d\<lparr>db_epics := t, db_epic_history := h\<rparr>"
  using assms by (auto simp: saveEpic_def Let_def tx_simps tb_insert_SomeD split: if_splits option.splits)

lemma saveEpic_ok:
  assumes ok: "epics_ok d" and s: "saveEpic ep actor create d = Inr d'"
    and st: "ec_State (ep_Content ep) \<in> {''OPEN'', ''RETIRED''}"
    and new: "create \<Longrightarrow> ep_Revision ep = 1"
    and old: "\<not> create \<Longrightarrow> \<exists>r. map_of (db_epics d) (ep_ID ep) = Some r \<and> ep_Revision ep = ep_Revision (er_body r) + 1"
  shows "epics_ok d'"
proof -
  have "create \<or> map_of (db_epics d) (ep_ID ep) \<noteq> None" using old by auto
  note S = saveEpic_SomeD [OF s this]
  have r: "epic_revision d' = (epic_revision d)(ep_ID ep \<mapsto> ep_Revision ep)"
    by (auto simp: epic_revision_def S(2))
  have "history_complete (epic_revision d') (map_of (db_epic_history d'))"
  proof (cases create)
    case True
    then show ?thesis
      using history_complete_create [OF epics_okD(3) [OF ok]] S(1) new by (simp add: r S(3) epic_revision_def)
  next
    case False
    with old obtain q where q: "map_of (db_epics d) (ep_ID ep) = Some q" "ep_Revision ep = ep_Revision (er_body q) + 1" by auto
    from history_complete_next [OF epics_okD(3) [OF ok], of "ep_ID ep" "ep_Revision (er_body q)"] q epics_okD(5) [OF ok]
    show ?thesis by (simp add: r S(3) epic_revision_def)
  qed
  moreover have "1 \<le> ep_Revision ep" using new old epics_okD(5) [OF ok] by (cases create) fastforce+
  ultimately show ?thesis
    using ok st S(2-6) unfolding epics_ok_def by auto
qed

lemma CreateEpic_txD:
  assumes "CreateEpic_tx e c actor d = Inr (ep, d')"
  shows "saveEpic ep actor True d = Inr d'" and "ep_Revision ep = 1" and "ep_Content ep = c"
  using assms by (auto simp: CreateEpic_tx_def Let_def tx_simps)

lemma UpdateEpic_txD:
  assumes "UpdateEpic_tx e eid c expected actor d = Inr (ep, d')"
  shows "saveEpic ep actor False d = Inr d'" and "ep_Content ep = c"
    and "\<exists>r. map_of (db_epics d) eid = Some r \<and> ep_Revision (er_body r) = expected \<and> ep_Revision ep = expected + 1
       \<and> ep_ID ep = ep_ID (er_body r)"
  using assms by (auto simp: UpdateEpic_tx_def readEpic_def Let_def tx_simps split: option.splits)

lemma CreateEpic_ok:
  assumes "CreateEpic e c actor key d = Inr (ep, d')" "epics_ok d"
  shows "epics_ok d'"
proof -
  from assms(1) obtain c' where c': "epic_validate c = Inr c'"
    and "taskMutation e actor ''epic-create'' [] key (json_epic_content c') REpic prj_epic
      (CreateEpic_tx e c' actor) d = Inr (ep, d')"
    by (auto simp: CreateEpic_def tx_simps)
  moreover have "epics_ok d1" if "CreateEpic_tx e c' actor d = Inr (ep, d1)" for d1
    using saveEpic_ok [OF assms(2) CreateEpic_txD(1) [OF that]] CreateEpic_txD(2,3) [OF that]
      epic_validate_state [OF c'] by simp
  ultimately show ?thesis unfolding taskMutation_def
    by (elim checkedTaskMutation_keeps [where P = epics_ok]) (auto simp: assms(2))
qed

lemma UpdateEpic_ok:
  assumes "UpdateEpic e eid c expected actor key d = Inr (ep, d')" "epics_ok d"
  shows "epics_ok d'"
proof -
  from assms(1) obtain c' where c': "epic_validate c = Inr c'"
    and "taskMutation e actor ''epic-update'' eid key
        (JObj [(''content'', json_epic_content c'), (''expected'', JNum expected)]) REpic prj_epic
        (UpdateEpic_tx e eid c' expected actor) d = Inr (ep, d')"
    by (auto simp: UpdateEpic_def tx_simps)
  moreover have "epics_ok d1" if "UpdateEpic_tx e eid c' expected actor d = Inr (ep, d1)" for d1
  proof -
    note U = UpdateEpic_txD [OF that]
    from U(3) obtain r where r: "map_of (db_epics d) eid = Some r" "ep_Revision (er_body r) = expected"
      "ep_Revision ep = expected + 1" "ep_ID ep = ep_ID (er_body r)" by blast
    with epics_okD(4) [OF assms(2) r(1)] have "\<exists>r. map_of (db_epics d) (ep_ID ep) = Some r \<and> ep_Revision ep = ep_Revision (er_body r) + 1"
      by auto
    then show ?thesis
      using saveEpic_ok [OF assms(2) U(1)] U(2) epic_validate_state [OF c'] by simp
  qed
  ultimately show ?thesis unfolding taskMutation_def
    by (elim checkedTaskMutation_keeps [where P = epics_ok]) (auto simp: assms(2))
qed

end
