(* ===== verification/Tasks.thy ===== *)
theory Tasks
  imports Epics
begin

text \<open>
  The task board (\<open>internal/store/tasks.go\<close>, \<open>task_triage.go\<close>, \<open>task_state_changes.go\<close>):
  creating, replacing, triaging and commenting tasks. Every write stores the current row
  with its filter columns, a history row, and a feed row when the state changed, in one
  transaction. The in-memory placement hint \<open>d.hints\<close> is not part of the state.
\<close>

section \<open>Rows\<close>

definition ErrNoRows :: err where
  "ErrNoRows = ErrOther ''sql: no rows in result set''"

definition rejectActiveReservation :: "string \<Rightarrow> db \<Rightarrow> err option" where
  "rejectActiveReservation tid d =
     (case map_of (db_reservations d) tid of
        None \<Rightarrow> None
      | Some r \<Rightarrow> if rv_active_id r \<noteq> [] then Some ErrTaskReserved else None)"

definition task_managed :: "string \<Rightarrow> db \<Rightarrow> bool" where
  "task_managed tid d \<longleftrightarrow> (case map_of (db_managed d) tid of None \<Rightarrow> False | Some g \<Rightarrow> gr_managed g)"

text \<open>The feed: \<open>UNIQUE(task_id, revision)\<close> is a constraint of its table.\<close>

definition recordStateChange :: "Task \<Rightarrow> string \<Rightarrow> bool \<Rightarrow> db \<Rightarrow> err + db" where
  "recordStateChange t from_state create d =
     (if \<not> create \<and> from_state = tc_State (tk_Content t) then Inr d
      else if list_ex (\<lambda>s. sc_TaskID s = tk_ID t \<and> sc_Revision s = tk_Revision t) (db_state_changes d) then Inl ErrSQL
      else Inr (d\<lparr>db_state_changes := db_state_changes d @
        [\<lparr>sc_Sequence = int (length (db_state_changes d)) + 1, sc_TaskID = tk_ID t, sc_Revision = tk_Revision t,
          sc_From = from_state, sc_To = tc_State (tk_Content t), sc_At = tk_UpdatedAt t, sc_RequiredCapability = []\<rparr>]\<rparr>))"

definition task_columns :: "Task \<Rightarrow> task_row" where
  "task_columns t = \<lparr>tr_state = tc_State (tk_Content t), tr_archived = tc_Archived (tk_Content t),
     tr_assignee = assignee_column (tc_Assignee (tk_Content t)), tr_epic = tc_Epic (tk_Content t), tr_body = t\<rparr>"

lemma tr_body_task_columns [simp]: "tr_body (task_columns t) = t"
  by (simp add: task_columns_def)

definition writeTask :: "Task \<Rightarrow> TaskActor \<Rightarrow> bool \<Rightarrow> db \<Rightarrow> err + db" where
  "writeTask t actor create d =
     (let t = t\<lparr>tk_Coordination := None\<rparr>
      in case (if create then
             (case tb_insert (tk_ID t) (task_columns t) (db_tasks d) of
                None \<Rightarrow> Inl ErrSQL | Some ts \<Rightarrow> Inr ([], ts))
           else
             (case map_of (db_tasks d) (tk_ID t) of
                None \<Rightarrow> Inl ErrNoRows
              | Some old \<Rightarrow> Inr (tr_state old, AList.update (tk_ID t) (task_columns t) (db_tasks d)))) of
        Inl x \<Rightarrow> Inl x
      | Inr (from_state, ts) \<Rightarrow>
          (case tb_insert (tk_ID t, tk_Revision t) \<lparr>ch_Task = t, ch_Actor = actor\<rparr> (db_history d) of
             None \<Rightarrow> Inl ErrSQL
           | Some h \<Rightarrow> recordStateChange t from_state create (d\<lparr>db_tasks := ts, db_history := h\<rparr>)))"

definition saveTask :: "Task \<Rightarrow> TaskActor \<Rightarrow> bool \<Rightarrow> db \<Rightarrow> err + db" where
  "saveTask t actor create d =
     (case (if create then None else rejectActiveReservation (tk_ID t) d) of
        Some x \<Rightarrow> Inl x
      | None \<Rightarrow> writeTask t actor create d)"

definition saveReservedTask :: "Task \<Rightarrow> TaskActor \<Rightarrow> db \<Rightarrow> err + db" where
  "saveReservedTask t actor d = writeTask t actor False d"

text \<open>\<open>readTask\<close> joins the current management and the reserved attempt onto the row.\<close>

definition reserved_attempt :: "string \<Rightarrow> db \<Rightarrow> (string \<times> assignment_row) option" where
  "reserved_attempt tid d =
     find (\<lambda>(_, a). ag_task_id a = tid \<and> ag_reserved a) (db_assignments d)"

definition coordination_of :: "string \<Rightarrow> db \<Rightarrow> TaskCoordination option" where
  "coordination_of tid d =
     (case map_of (db_managed d) tid of
        None \<Rightarrow> None
      | Some g \<Rightarrow>
          if \<not> gr_managed g \<or> gr_team_id g = [] then None
          else Some (case reserved_attempt tid d of
              None \<Rightarrow> \<lparr>co_TeamID = gr_team_id g, co_AttemptID = [], co_State = []\<rparr>
            | Some (aid, a) \<Rightarrow> \<lparr>co_TeamID = gr_team_id g, co_AttemptID = aid, co_State = ag_state a\<rparr>))"

definition readTask :: "string \<Rightarrow> db \<Rightarrow> err + Task" where
  "readTask tid d =
     (case map_of (db_tasks d) tid of
        None \<Rightarrow> Inl ErrTaskNotFound
      | Some r \<Rightarrow> Inr (case coordination_of tid d of
            None \<Rightarrow> tr_body r
          | Some c \<Rightarrow> (tr_body r)\<lparr>tk_Coordination := Some c\<rparr>))"

definition GetTask :: "string \<Rightarrow> db \<Rightarrow> err + Task" where
  "GetTask tid d = (if \<not> is_id tid then Inl ErrTaskNotFound else readTask tid d)"

section \<open>Create and update\<close>

definition default_state :: "TaskContent \<Rightarrow> TaskContent" where
  "default_state c = (if tc_State c = [] then c\<lparr>tc_State := ''BACKLOG''\<rparr> else c)"

definition createRetry :: "TaskContent \<Rightarrow> retry" where
  "createRetry c = \<lparr>ry_op = ''create'', ry_scope = [], ry_input = json_content (default_state c)\<rparr>"

definition CreateReplays :: "env \<Rightarrow> TaskContent \<Rightarrow> TaskActor \<Rightarrow> string \<Rightarrow> db \<Rightarrow> bool" where
  "CreateReplays e c actor key d = replays e actor key (createRetry c) d"

definition CreateTask_tx :: "env \<Rightarrow> TaskContent \<Rightarrow> TaskActor \<Rightarrow> db \<Rightarrow> err + (Task \<times> db)" where
  "CreateTask_tx e content actor d =
     (case checkEpicAssignable (tc_Epic content) [] d of Some x \<Rightarrow> Inl x | None \<Rightarrow>
      let t = \<lparr>tk_ID = e_uuid e 0, tk_Revision = 1, tk_Coordination = None, tk_Content = content,
               tk_CreatedAt = e_now e 0, tk_UpdatedAt = e_now e 0\<rparr>
      in case saveTask t actor True d of Inl x \<Rightarrow> Inl x | Inr d' \<Rightarrow> Inr (t, d'))"

definition CreateTask :: "env \<Rightarrow> TaskContent \<Rightarrow> TaskActor \<Rightarrow> string \<Rightarrow> db \<Rightarrow> err + (Task \<times> db)" where
  "CreateTask e c actor key d =
     (let content = default_state c; r = createRetry content
      in case content_validate e content of Some m \<Rightarrow> Inl (invalid m) | None \<Rightarrow>
      taskMutation e actor (ry_op r) (ry_scope r) key (ry_input r) RTask prj_task (CreateTask_tx e content actor) d)"

definition updateRetry :: "string \<Rightarrow> TaskContent \<Rightarrow> int \<Rightarrow> retry" where
  "updateRetry tid c expected = \<lparr>ry_op = ''update'', ry_scope = tid,
     ry_input = JObj [(''content'', json_content c), (''expected'', JNum expected)]\<rparr>"

definition UpdateReplays :: "env \<Rightarrow> string \<Rightarrow> TaskContent \<Rightarrow> int \<Rightarrow> TaskActor \<Rightarrow> string \<Rightarrow> db \<Rightarrow> bool" where
  "UpdateReplays e tid c expected actor key d = replays e actor key (updateRetry tid c expected) d"

text \<open>The check of every generic task write: not managed by a team, not reserved.\<close>

definition generic_write_check :: "string \<Rightarrow> db \<Rightarrow> err + unit" where
  "generic_write_check tid d =
     (if task_managed tid d then Inl ErrManagedTask
      else case rejectActiveReservation tid d of Some x \<Rightarrow> Inl x | None \<Rightarrow> Inr ())"

definition UpdateTask_tx :: "env \<Rightarrow> string \<Rightarrow> TaskContent \<Rightarrow> int \<Rightarrow> TaskActor \<Rightarrow> db \<Rightarrow> err + (Task \<times> db)" where
  "UpdateTask_tx e tid content expected actor d =
     (case readTask tid d of Inl x \<Rightarrow> Inl x | Inr t \<Rightarrow>
      if tk_Revision t \<noteq> expected then Inl (TaskConflict t)
      else case checkEpicAssignable (tc_Epic content) (tc_Epic (tk_Content t)) d of Some x \<Rightarrow> Inl x | None \<Rightarrow>
      let t' = t\<lparr>tk_Content := content, tk_Revision := tk_Revision t + 1, tk_UpdatedAt := e_now e 0\<rparr>
      in case saveTask t' actor False d of Inl x \<Rightarrow> Inl x | Inr d' \<Rightarrow> Inr (t', d'))"

definition UpdateTask :: "env \<Rightarrow> string \<Rightarrow> TaskContent \<Rightarrow> int \<Rightarrow> TaskActor \<Rightarrow> string \<Rightarrow> db \<Rightarrow> err + (Task \<times> db)" where
  "UpdateTask e tid content expected actor key d =
     (if \<not> is_id tid then Inl ErrTaskNotFound
      else if expected < 1 then Inl (invalid ''expected_revision must be a positive revision'')
      else case content_validate e content of Some m \<Rightarrow> Inl (invalid m) | None \<Rightarrow>
      let r = updateRetry tid content expected
      in checkedTaskMutation e actor (ry_op r) (ry_scope r) key (ry_input r) (generic_write_check tid)
           RTask prj_task (\<lambda>_. UpdateTask_tx e tid content expected actor) d)"

section \<open>Triage\<close>

record TaskTriage =
  tg_State :: "string option"
  tg_NextAction :: "string option"

definition triageStates :: "string \<Rightarrow> bool" where
  "triageStates s \<longleftrightarrow> s = ''BACKLOG'' \<or> s = ''READY''"

definition triage_validate :: "TaskTriage \<Rightarrow> string option" where
  "triage_validate p =
     (if tg_State p = None \<and> tg_NextAction p = None then Some ''name at least one of state or next_action''
      else if (case tg_State p of None \<Rightarrow> False | Some s \<Rightarrow> \<not> triageStates s)
        then Some ''triage moves a task between BACKLOG and READY only''
      else None)"

text \<open>The input names the fields the patch sets, because the digest drops empty values.\<close>

definition triage_input :: "TaskTriage \<Rightarrow> int \<Rightarrow> json" where
  "triage_input p expected =
     (let named = (if tg_NextAction p \<noteq> None then [''next_action''] else [])
                @ (if tg_State p \<noteq> None then [''state''] else [])
      in JObj [(''triage'', JObj (fld_ptr_opt ''state'' JStr (tg_State p)
                  @ fld_ptr_opt ''next_action'' JStr (tg_NextAction p))),
               (''expected'', JNum expected),
               (''named'', if named = [] then JNull else JArr (map JStr named))])"

definition triage_patch :: "TaskTriage \<Rightarrow> TaskContent \<Rightarrow> TaskContent" where
  "triage_patch p c =
     (let c = (case tg_State p of None \<Rightarrow> c | Some s \<Rightarrow> c\<lparr>tc_State := s\<rparr>)
      in case tg_NextAction p of None \<Rightarrow> c | Some s \<Rightarrow> c\<lparr>tc_NextAction := s\<rparr>)"

definition TriageTask_tx :: "env \<Rightarrow> string \<Rightarrow> TaskTriage \<Rightarrow> int \<Rightarrow> TaskActor \<Rightarrow> db \<Rightarrow> err + (Task \<times> db)" where
  "TriageTask_tx e tid p expected actor d =
     (case readTask tid d of Inl x \<Rightarrow> Inl x | Inr t \<Rightarrow>
      if tk_Revision t \<noteq> expected then Inl (TaskConflict t)
      else if tc_Archived (tk_Content t) then Inl ErrTaskArchived
      else if tg_State p \<noteq> None \<and> \<not> triageStates (tc_State (tk_Content t))
        then Inl (invalid ''triage moves a task between BACKLOG and READY only'')
      else let c = triage_patch p (tk_Content t)
        in case content_validate e c of Some m \<Rightarrow> Inl (invalid m) | None \<Rightarrow>
        let t' = t\<lparr>tk_Content := c, tk_Revision := tk_Revision t + 1, tk_UpdatedAt := e_now e 0\<rparr>
        in case saveTask t' actor False d of Inl x \<Rightarrow> Inl x | Inr d' \<Rightarrow> Inr (t', d'))"

definition TriageTask :: "env \<Rightarrow> string \<Rightarrow> TaskTriage \<Rightarrow> int \<Rightarrow> TaskActor \<Rightarrow> string \<Rightarrow> db \<Rightarrow> err + (Task \<times> db)" where
  "TriageTask e tid p expected actor key d =
     (if \<not> is_id tid then Inl ErrTaskNotFound
      else if expected < 1 then Inl (invalid ''expected_revision must be a positive revision'')
      else case triage_validate p of Some m \<Rightarrow> Inl (invalid m) | None \<Rightarrow>
      checkedTaskMutation e actor ''triage'' tid key (triage_input p expected) (generic_write_check tid)
        RTask prj_task (\<lambda>_. TriageTask_tx e tid p expected actor) d)"

section \<open>Comments\<close>

definition addTaskComment_tx :: "env \<Rightarrow> string \<Rightarrow> string \<Rightarrow> TaskActor \<Rightarrow> db \<Rightarrow> err + (TaskComment \<times> db)" where
  "addTaskComment_tx e tid body actor d =
     (case readTask tid d of Inl x \<Rightarrow> Inl x | Inr t \<Rightarrow>
      if tc_Archived (tk_Content t) then Inl ErrTaskArchived
      else let c = \<lparr>cm_ID = e_uuid e 0, cm_TaskID = tid, cm_Sequence = int (length (db_comments d)) + 1,
                    cm_Body = body, cm_Actor = actor, cm_CreatedAt = e_now e 0\<rparr>
        in if list_ex (\<lambda>q. cm_ID q = cm_ID c) (db_comments d) then Inl ErrSQL
           else Inr (c, d\<lparr>db_comments := db_comments d @ [c]\<rparr>))"

definition addTaskComment ::
  "env \<Rightarrow> string \<Rightarrow> string \<Rightarrow> TaskActor \<Rightarrow> string \<Rightarrow> (db \<Rightarrow> err + unit) \<Rightarrow> db \<Rightarrow> err + (TaskComment \<times> db)" where
  "addTaskComment e tid body actor key check d =
     (if \<not> is_id tid then Inl ErrTaskNotFound
      else case taskText body MaxTaskCommentBytes True of Some m \<Rightarrow> Inl (invalid m) | None \<Rightarrow>
      checkedTaskMutation e actor ''comment'' tid key (JStr body) check RComment prj_comment
        (\<lambda>_. addTaskComment_tx e tid body actor) d)"

definition AddTaskComment :: "env \<Rightarrow> string \<Rightarrow> string \<Rightarrow> TaskActor \<Rightarrow> string \<Rightarrow> db \<Rightarrow> err + (TaskComment \<times> db)" where
  "AddTaskComment e tid body actor key d = addTaskComment e tid body actor key (\<lambda>_. Inr ()) d"

definition AddTaskCommentUnheld :: "env \<Rightarrow> string \<Rightarrow> string \<Rightarrow> TaskActor \<Rightarrow> string \<Rightarrow> db \<Rightarrow> err + (TaskComment \<times> db)" where
  "AddTaskCommentUnheld e tid body actor key d =
     addTaskComment e tid body actor key
       (\<lambda>d. case rejectActiveReservation tid d of Some x \<Rightarrow> Inl x | None \<Rightarrow> Inr ()) d"

definition GetTaskComment :: "string \<Rightarrow> string \<Rightarrow> db \<Rightarrow> err + TaskComment" where
  "GetTaskComment tid cid d =
     (if \<not> is_id tid \<or> \<not> is_id cid then Inl ErrTaskNotFound
      else case find (\<lambda>c. cm_TaskID c = tid \<and> cm_ID c = cid) (db_comments d) of
        None \<Rightarrow> Inl ErrTaskNotFound
      | Some c \<Rightarrow> Inr c)"

section \<open>Enablement\<close>

definition TasksEnabled :: "db \<Rightarrow> bool" where
  "TasksEnabled d \<longleftrightarrow> map_of (db_meta d) ''tasks'' = Some ''on''"

definition HasTasks :: "db \<Rightarrow> bool" where
  "HasTasks d \<longleftrightarrow> db_tasks d \<noteq> []"

end
