(* ===== verification/Board.thy ===== *)
theory Board
  imports Tasks
begin

text \<open>
  What the board's writes keep. \<open>board_ok\<close> ties the current row, its filter columns and
  the history together; \<open>feed_ok\<close> says that the feed of state changes is the one the
  history determines. Every writer of tasks (generic, reserved, managed) goes through
  \<open>writeTask\<close>, so the lemma about it serves them all.
\<close>

section \<open>The invariant\<close>

definition task_revision :: "db \<Rightarrow> string \<Rightarrow> int option" where
  "task_revision d i = map_option (\<lambda>r. tk_Revision (tr_body r)) (map_of (db_tasks d) i)"

definition task_state :: "db \<Rightarrow> string \<Rightarrow> string option" where
  "task_state d i = map_option (\<lambda>r. tc_State (tk_Content (tr_body r))) (map_of (db_tasks d) i)"

definition board_ok :: "db \<Rightarrow> bool" where
  "board_ok d \<longleftrightarrow>
     tb_ok (db_tasks d) \<and> tb_ok (db_history d)
     \<and> history_complete (task_revision d) (map_of (db_history d))
     \<and> (\<forall>i r. map_of (db_tasks d) i = Some r \<longrightarrow>
          r = task_columns (tr_body r) \<and> tk_ID (tr_body r) = i \<and> 1 \<le> tk_Revision (tr_body r)
          \<and> tk_Coordination (tr_body r) = None
          \<and> map_option ch_Task (map_of (db_history d) (i, tk_Revision (tr_body r))) = Some (tr_body r))
     \<and> (\<forall>i n c. map_of (db_history d) (i, n) = Some c \<longrightarrow> tk_ID (ch_Task c) = i \<and> tk_Revision (ch_Task c) = n)"

definition hist_state :: "db \<Rightarrow> string \<Rightarrow> int \<Rightarrow> string" where
  \<comment> \<open>the state a revision set; empty before the first\<close>
  "hist_state d i n = (case map_of (db_history d) (i, n) of None \<Rightarrow> [] | Some c \<Rightarrow> tc_State (tk_Content (ch_Task c)))"

text \<open>The feed rows the history determines: creations and changes of state.\<close>

definition feed_rows :: "db \<Rightarrow> (string \<times> int \<times> string \<times> string) set" where
  "feed_rows d = {(i, n, f, t). map_of (db_history d) (i, n) \<noteq> None \<and> f = hist_state d i (n - 1)
     \<and> t = hist_state d i n \<and> (n = 1 \<or> f \<noteq> t)}"

definition feed_ok :: "db \<Rightarrow> bool" where
  "feed_ok d \<longleftrightarrow>
     map sc_Sequence (db_state_changes d) = map (\<lambda>k. int k + 1) [0..<length (db_state_changes d)]
     \<and> distinct (map (\<lambda>s. (sc_TaskID s, sc_Revision s)) (db_state_changes d))
     \<and> (\<lambda>s. (sc_TaskID s, sc_Revision s, sc_From s, sc_To s)) ` set (db_state_changes d)
       = feed_rows d"

definition task_board_ok :: "db \<Rightarrow> bool" where
  "task_board_ok d \<longleftrightarrow> board_ok d \<and> feed_ok d"

lemma board_okD:
  assumes "board_ok d"
  shows "tb_ok (db_tasks d)" and "tb_ok (db_history d)"
    and "history_complete (task_revision d) (map_of (db_history d))"
    and "map_of (db_tasks d) i = Some r \<Longrightarrow> r = task_columns (tr_body r)"
    and "map_of (db_tasks d) i = Some r \<Longrightarrow> tk_ID (tr_body r) = i"
    and "map_of (db_tasks d) i = Some r \<Longrightarrow> 1 \<le> tk_Revision (tr_body r)"
    and "map_of (db_tasks d) i = Some r \<Longrightarrow> tk_Coordination (tr_body r) = None"
    and "map_of (db_tasks d) i = Some r \<Longrightarrow>
      map_option ch_Task (map_of (db_history d) (i, tk_Revision (tr_body r))) = Some (tr_body r)"
    and "map_of (db_history d) (i, n) = Some c \<Longrightarrow> tk_ID (ch_Task c) = i \<and> tk_Revision (ch_Task c) = n"
  using assms unfolding board_ok_def by blast+

lemma task_board_ok_cong:
  assumes "db_tasks d' = db_tasks d" "db_history d' = db_history d" "db_state_changes d' = db_state_changes d"
  shows "task_board_ok d' = task_board_ok d"
  using assms by (simp add: task_board_ok_def board_ok_def feed_ok_def feed_rows_def task_revision_def [abs_def] hist_state_def)

lemma task_board_ok_requests [simp]: "task_board_ok (d\<lparr>db_requests := t\<rparr>) = task_board_ok d"
  by (rule task_board_ok_cong) simp_all

section \<open>The one writer\<close>

abbreviation stored :: "Task \<Rightarrow> Task" where
  "stored t \<equiv> t\<lparr>tk_Coordination := None\<rparr>"

definition state_before :: "Task \<Rightarrow> bool \<Rightarrow> db \<Rightarrow> string" where
  "state_before t create d = (if create then [] else
     (case map_of (db_tasks d) (tk_ID t) of None \<Rightarrow> [] | Some r \<Rightarrow> tr_state r))"

lemma writeTask_D:
  assumes "writeTask t actor create d = Inr d'"
  shows "create \<Longrightarrow> map_of (db_tasks d) (tk_ID t) = None"
    and "\<not> create \<Longrightarrow> \<exists>old. map_of (db_tasks d) (tk_ID t) = Some old"
    and "map_of (db_tasks d') = (map_of (db_tasks d))(tk_ID t \<mapsto> task_columns (stored t))"
    and "map_of (db_history d') = (map_of (db_history d))((tk_ID t, tk_Revision t) \<mapsto> \<lparr>ch_Task = stored t, ch_Actor = actor\<rparr>)"
    and "map_of (db_history d) (tk_ID t, tk_Revision t) = None"
    and "tb_ok (db_tasks d) \<Longrightarrow> tb_ok (db_tasks d')"
    and "tb_ok (db_history d) \<Longrightarrow> tb_ok (db_history d')"
    and "\<exists>ts h f. d' = d\<lparr>db_tasks := ts, db_history := h, db_state_changes := f\<rparr>"
    and "recordStateChange (stored t) (state_before t create d) create
           (d\<lparr>db_tasks := db_tasks d', db_history := db_history d'\<rparr>) = Inr d'"
proof -
  obtain ts h where ts: "(if create then tb_insert (tk_ID t) (task_columns (stored t)) (db_tasks d) = Some ts
        else (\<exists>old. map_of (db_tasks d) (tk_ID t) = Some old) \<and> ts = AList.update (tk_ID t) (task_columns (stored t)) (db_tasks d))"
    and h: "tb_insert (tk_ID t, tk_Revision t) \<lparr>ch_Task = stored t, ch_Actor = actor\<rparr> (db_history d) = Some h"
    and r: "recordStateChange (stored t) (state_before t create d) create (d\<lparr>db_tasks := ts, db_history := h\<rparr>) = Inr d'"
  proof (cases create)
    case True
    then show ?thesis using assms that
      by (auto simp: writeTask_def Let_def tx_simps state_before_def split: option.splits)
  next
    case False
    then show ?thesis using assms that
      by (auto simp: writeTask_def Let_def tx_simps state_before_def split: option.splits)
  qed
  have d': "\<exists>f. d' = d\<lparr>db_tasks := ts, db_history := h, db_state_changes := f\<rparr>"
  proof (cases "\<not> create \<and> state_before t create d = tc_State (tk_Content (stored t))")
    case True
    with r show ?thesis by (intro exI [of _ "db_state_changes d"]) (auto simp: recordStateChange_def)
  next
    case False
    with r show ?thesis by (auto simp: recordStateChange_def split: if_splits)
  qed
  then have tabs: "db_tasks d' = ts" "db_history d' = h" by auto
  show "create \<Longrightarrow> map_of (db_tasks d) (tk_ID t) = None"
    and "\<not> create \<Longrightarrow> \<exists>old. map_of (db_tasks d) (tk_ID t) = Some old"
    and "map_of (db_tasks d') = (map_of (db_tasks d))(tk_ID t \<mapsto> task_columns (stored t))"
    and "tb_ok (db_tasks d) \<Longrightarrow> tb_ok (db_tasks d')"
    using ts tb_insert_SomeD [of "tk_ID t" "task_columns (stored t)" "db_tasks d" ts] by (auto simp: tabs split: if_splits)
  show "map_of (db_history d') = (map_of (db_history d))((tk_ID t, tk_Revision t) \<mapsto> \<lparr>ch_Task = stored t, ch_Actor = actor\<rparr>)"
    and "map_of (db_history d) (tk_ID t, tk_Revision t) = None"
    and "tb_ok (db_history d) \<Longrightarrow> tb_ok (db_history d')"
    using tb_insert_SomeD [OF h] by (simp_all add: tabs)
  show "\<exists>ts h f. d' = d\<lparr>db_tasks := ts, db_history := h, db_state_changes := f\<rparr>" using d' by blast
  show "recordStateChange (stored t) (state_before t create d) create
      (d\<lparr>db_tasks := db_tasks d', db_history := db_history d'\<rparr>) = Inr d'" using r by (simp add: tabs)
qed

text \<open>A write is in order when it creates revision 1 or continues the current one.\<close>

definition in_order :: "Task \<Rightarrow> bool \<Rightarrow> db \<Rightarrow> bool" where
  "in_order t create d \<longleftrightarrow>
     (if create then tk_Revision t = 1 else task_revision d (tk_ID t) = Some (tk_Revision t - 1))"

lemma in_order_revision:
  assumes "board_ok d" "in_order t create d"
  shows "1 \<le> tk_Revision t" and "create \<longleftrightarrow> tk_Revision t = 1"
proof -
  have "1 \<le> tk_Revision t - 1" if "\<not> create"
    using that assms(2) board_okD(6) [OF assms(1), of "tk_ID t"] by (auto simp: in_order_def task_revision_def)
  then show "1 \<le> tk_Revision t" "create \<longleftrightarrow> tk_Revision t = 1"
    using assms(2) by (cases create; simp add: in_order_def)+
qed

lemma writeTask_board_ok:
  assumes ok: "board_ok d" and w: "writeTask t actor create d = Inr d'" and o: "in_order t create d"
  shows "board_ok d'"
proof -
  note W = writeTask_D [OF w]
  have r: "task_revision d' = (task_revision d)(tk_ID t \<mapsto> tk_Revision t)"
    by (auto simp: task_revision_def W(3) task_columns_def)
  have rev: "1 \<le> tk_Revision t" by (rule in_order_revision [OF ok o])
  have "history_complete (task_revision d') (map_of (db_history d'))"
  proof (cases create)
    case True
    then show ?thesis
      using history_complete_create [OF board_okD(3) [OF ok]] W(1) o
      by (simp add: r W(4) in_order_def task_revision_def)
  next
    case False
    with o have q: "task_revision d (tk_ID t) = Some (tk_Revision t - 1)" by (simp add: in_order_def)
    with in_order_revision [OF ok o] False have "1 \<le> tk_Revision t - 1" by simp
    from history_complete_next [OF board_okD(3) [OF ok] q this] show ?thesis by (simp add: r W(4))
  qed
  then show ?thesis
    using W(5-7) ok rev unfolding board_ok_def
    by (simp add: W(3,4) task_columns_def)
qed

lemma state_before_hist:
  assumes ok: "board_ok d" and w: "writeTask t actor create d = Inr d'" and o: "in_order t create d"
  shows "state_before t create d = hist_state d (tk_ID t) (tk_Revision t - 1)"
proof (cases create)
  case True
  then have "map_of (db_history d) (tk_ID t, 0) = None"
    using history_completeD [OF board_okD(3) [OF ok], of "tk_ID t" 0] by auto
  with True o show ?thesis by (simp add: state_before_def hist_state_def in_order_def)
next
  case False
  then obtain r where r: "map_of (db_tasks d) (tk_ID t) = Some r" using writeTask_D(2) [OF w] by blast
  with False o have "tk_Revision (tr_body r) = tk_Revision t - 1" by (simp add: in_order_def task_revision_def)
  with board_okD(8) [OF ok r] obtain c where
    "map_of (db_history d) (tk_ID t, tk_Revision t - 1) = Some c" "ch_Task c = tr_body r"
    by auto
  moreover have "tr_state r = tc_State (tk_Content (tr_body r))"
    using arg_cong [OF board_okD(4) [OF ok r], of tr_state] by (simp add: task_columns_def)
  ultimately show ?thesis using False r by (simp add: state_before_def hist_state_def)
qed

lemma graft:
  assumes "\<And>i n f t. (i, n) \<noteq> (i0, n0) \<Longrightarrow> (i, n, f, t) \<in> B \<longleftrightarrow> (i, n, f, t) \<in> A"
    and "\<And>f t. (i0, n0, f, t) \<notin> A"
    and "\<And>f t. (i0, n0, f, t) \<in> B \<longleftrightarrow> f = f0 \<and> t = t0 \<and> c"
  shows "B = (if c then insert (i0, n0, f0, t0) A else A)"
proof -
  have "(i, n, f, t) \<in> B \<longleftrightarrow> (i, n, f, t) \<in> A \<or> (c \<and> (i, n, f, t) = (i0, n0, f0, t0))" for i n f t
    using assms by (cases "(i, n) = (i0, n0)") auto
  then show ?thesis by (auto simp: set_eq_iff)
qed

lemma writeTask_feed_ok:
  assumes ok: "board_ok d" and f: "feed_ok d" and w: "writeTask t actor create d = Inr d'" and o: "in_order t create d"
  shows "feed_ok d'"
proof -
  note W = writeTask_D [OF w]
  let ?i = "tk_ID t" and ?n = "tk_Revision t"
  let ?from = "state_before t create d" and ?to = "tc_State (tk_Content t)"
  let ?obs = "\<lambda>s. (sc_TaskID s, sc_Revision s, sc_From s, sc_To s)"
  have hist: "hist_state d' i n = (if (i, n) = (?i, ?n) then ?to else hist_state d i n)" for i n
    by (auto simp: hist_state_def W(4))
  have last: "map_of (db_history d) (?i, ?n + 1) = None"
    using history_completeD [OF board_okD(3) [OF ok], of ?i "?n + 1"] history_completeD [OF board_okD(3) [OF ok], of ?i ?n] W(5)
      in_order_revision(1) [OF ok o] by fastforce
  have from_state: "?from = hist_state d ?i (?n - 1)" by (rule state_before_hist [OF ok w o])
  have create_1: "create \<longleftrightarrow> ?n = 1" by (rule in_order_revision [OF ok o])
  have rows: "feed_rows d' = (if \<not> create \<and> ?from = ?to then feed_rows d else insert (?i, ?n, ?from, ?to) (feed_rows d))"
  proof -
    have old: "(i, n, f, t') \<in> feed_rows d' \<longleftrightarrow> (i, n, f, t') \<in> feed_rows d" if "(i, n) \<noteq> (?i, ?n)" for i n f t'
    proof (cases "map_of (db_history d) (i, n) = None")
      case True
      with that show ?thesis by (auto simp: feed_rows_def W(4))
    next
      case False
      have "(i, n - 1) \<noteq> (?i, ?n)"
      proof
        assume "(i, n - 1) = (?i, ?n)"
        then have "i = ?i" "n = ?n + 1" by auto
        with last False show False by simp
      qed
      with that False show ?thesis by (auto simp: feed_rows_def W(4) hist)
    qed
    have new: "(?i, ?n, f, t') \<in> feed_rows d' \<longleftrightarrow> f = ?from \<and> t' = ?to \<and> (create \<or> ?from \<noteq> ?to)" for f t'
      by (cases create) (use create_1 from_state in \<open>auto simp: feed_rows_def W(4) hist\<close>)
    have none: "(?i, ?n, f, t') \<notin> feed_rows d" for f t' using W(5) by (simp add: feed_rows_def)
    have "feed_rows d' = (if create \<or> ?from \<noteq> ?to then insert (?i, ?n, ?from, ?to) (feed_rows d) else feed_rows d)"
      by (rule graft [OF old none new])
    then show ?thesis by (auto split: if_splits)
  qed
  have feed: "map sc_Sequence (db_state_changes d) = map (\<lambda>k. int k + 1) [0..<length (db_state_changes d)]"
    "distinct (map (\<lambda>s. (sc_TaskID s, sc_Revision s)) (db_state_changes d))"
    "?obs ` set (db_state_changes d) = feed_rows d"
    using f unfolding feed_ok_def by auto
  show ?thesis
  proof (cases "\<not> create \<and> ?from = ?to")
    case True
    then have "db_state_changes d' = db_state_changes d"
      using W(9) by (auto simp: recordStateChange_def dest!: arg_cong [of _ _ db_state_changes])
    moreover have "feed_rows d' = feed_rows d" unfolding rows by (rule if_P [OF True])
    ultimately show ?thesis using feed unfolding feed_ok_def by simp
  next
    case False
    let ?row = "\<lparr>sc_Sequence = int (length (db_state_changes d)) + 1, sc_TaskID = ?i, sc_Revision = ?n,
          sc_From = ?from, sc_To = ?to, sc_At = tk_UpdatedAt t, sc_RequiredCapability = []\<rparr>"
    have app: "db_state_changes d' = db_state_changes d @ [?row]"
      and new: "\<not> list_ex (\<lambda>s. sc_TaskID s = ?i \<and> sc_Revision s = ?n) (db_state_changes d)"
      using W(9) False by (auto simp: recordStateChange_def split: if_splits dest!: arg_cong [of _ _ db_state_changes])
    have "?obs ` set (db_state_changes d') = feed_rows d'"
      unfolding rows if_not_P [OF False] app using feed(3) by simp
    then show ?thesis using feed(1,2) new unfolding feed_ok_def
      by (auto simp: app list_ex_iff)
  qed
qed

lemma writeTask_task_board_ok:
  "task_board_ok d \<Longrightarrow> writeTask t actor create d = Inr d' \<Longrightarrow> in_order t create d \<Longrightarrow> task_board_ok d'"
  using writeTask_board_ok writeTask_feed_ok unfolding task_board_ok_def by blast

section \<open>The board's operations\<close>

lemma readTask_D:
  assumes "readTask tid d = Inr t"
  shows "\<exists>r. map_of (db_tasks d) tid = Some r \<and> stored t = stored (tr_body r) \<and> tk_ID t = tk_ID (tr_body r)
     \<and> tk_Revision t = tk_Revision (tr_body r) \<and> tk_Content t = tk_Content (tr_body r)"
  using assms by (auto simp: readTask_def split: option.splits)

lemma readTask_ok:
  assumes "board_ok d" "readTask tid d = Inr t"
  shows "tk_ID t = tid" and "task_revision d tid = Some (tk_Revision t)" and "task_state d tid = Some (tc_State (tk_Content t))"
    and "1 \<le> tk_Revision t"
proof -
  from readTask_D [OF assms(2)] obtain r where r: "map_of (db_tasks d) tid = Some r" "tk_ID t = tk_ID (tr_body r)"
    "tk_Revision t = tk_Revision (tr_body r)" "tk_Content t = tk_Content (tr_body r)" by blast
  then show "tk_ID t = tid" "task_revision d tid = Some (tk_Revision t)" "task_state d tid = Some (tc_State (tk_Content t))"
    "1 \<le> tk_Revision t"
    using board_okD(5,6) [OF assms(1) r(1)] by (auto simp: task_revision_def task_state_def)
qed

lemma coordination_of_cong:
  assumes "db_managed d' = db_managed d" "db_assignments d' = db_assignments d"
  shows "coordination_of tid d' = coordination_of tid d"
  unfolding coordination_of_def reserved_attempt_def assms ..

text \<open>\<open>wrote t d d'\<close>: the write of a new version of task \<open>t\<close> is what happened.\<close>

definition wrote :: "Task \<Rightarrow> bool \<Rightarrow> db \<Rightarrow> db \<Rightarrow> bool" where
  "wrote t create d d' \<longleftrightarrow> in_order t create d \<and> (\<exists>actor. writeTask t actor create d = Inr d')"

lemma wrote_ok: "wrote t create d d' \<Longrightarrow> task_board_ok d \<Longrightarrow> task_board_ok d'"
  unfolding wrote_def by (blast intro: writeTask_task_board_ok)

lemma wrote_only: "wrote t create d d' \<Longrightarrow> \<exists>ts h f. d' = d\<lparr>db_tasks := ts, db_history := h, db_state_changes := f\<rparr>"
  unfolding wrote_def by (auto dest: writeTask_D(8))

lemma wrote_state:
  assumes "wrote t create d d'"
  shows "task_state d' i = (if i = tk_ID t then Some (tc_State (tk_Content t)) else task_state d i)"
    and "task_revision d' i = (if i = tk_ID t then Some (tk_Revision t) else task_revision d i)"
    and "map_of (db_tasks d') i = (if i = tk_ID t then Some (task_columns (stored t)) else map_of (db_tasks d) i)"
  using assms by (auto simp: wrote_def task_state_def task_revision_def writeTask_D(3) task_columns_def)

lemma CreateTask_txD:
  assumes "CreateTask_tx e c actor d = Inr (t, d')"
  shows "wrote t True d d'" and "tk_ID t = e_uuid e 0" and "tk_Content t = c" and "tk_Revision t = 1"
    and "map_of (db_tasks d) (tk_ID t) = None"
  using assms writeTask_D(1)
  by (fastforce simp: CreateTask_tx_def saveTask_def Let_def tx_simps wrote_def in_order_def)+

lemma saveTask_D: "saveTask t actor False d = Inr d' \<Longrightarrow> writeTask t actor False d = Inr d' \<and> rejectActiveReservation (tk_ID t) d = None"
  by (auto simp: saveTask_def split: option.splits)

lemma UpdateTask_txD:
  assumes "board_ok d" "UpdateTask_tx e tid c expected actor d = Inr (t, d')"
  shows "wrote t False d d'" and "tk_ID t = tid" and "tk_Content t = c" and "tk_Revision t = expected + 1"
    and "task_revision d tid = Some expected"
    and "rejectActiveReservation tid d = None"
proof -
  from assms(2) obtain old where old: "readTask tid d = Inr old" "tk_Revision old = expected"
    and t: "t = old\<lparr>tk_Content := c, tk_Revision := tk_Revision old + 1, tk_UpdatedAt := e_now e 0\<rparr>"
    and s: "saveTask t actor False d = Inr d'"
    by (auto simp: UpdateTask_tx_def Let_def tx_simps)
  note R = readTask_ok [OF assms(1) old(1)]
  show "wrote t False d d'" "tk_ID t = tid" "tk_Content t = c" "tk_Revision t = expected + 1"
    "task_revision d tid = Some expected" "rejectActiveReservation tid d = None"
    using saveTask_D [OF s] R old(2) by (auto simp: t wrote_def in_order_def)
qed

lemma TriageTask_txD:
  assumes "board_ok d" "TriageTask_tx e tid p expected actor d = Inr (t, d')"
  shows "wrote t False d d'" and "tk_ID t = tid" and "tk_Revision t = expected + 1"
    and "task_revision d tid = Some expected"
    and "rejectActiveReservation tid d = None"
    and "\<exists>old. readTask tid d = Inr old \<and> \<not> tc_Archived (tk_Content old)
       \<and> (tg_State p \<noteq> None \<longrightarrow> triageStates (tc_State (tk_Content old)))
       \<and> tk_Content t = triage_patch p (tk_Content old)"
proof -
  from assms(2) obtain old c where old: "readTask tid d = Inr old" "tk_Revision old = expected"
    and a: "\<not> tc_Archived (tk_Content old)" "tg_State p \<noteq> None \<longrightarrow> triageStates (tc_State (tk_Content old))"
    and c: "c = triage_patch p (tk_Content old)"
    and t: "t = old\<lparr>tk_Content := c, tk_Revision := tk_Revision old + 1, tk_UpdatedAt := e_now e 0\<rparr>"
    and s: "saveTask t actor False d = Inr d'"
    unfolding TriageTask_tx_def Let_def by (simp only: tx_simps prod.inject split_paired_all) (metis Inr_inject prod.inject)
  note R = readTask_ok [OF assms(1) old(1)]
  show "wrote t False d d'" "tk_ID t = tid" "tk_Revision t = expected + 1"
    "task_revision d tid = Some expected" "rejectActiveReservation tid d = None"
    "\<exists>old. readTask tid d = Inr old \<and> \<not> tc_Archived (tk_Content old)
       \<and> (tg_State p \<noteq> None \<longrightarrow> triageStates (tc_State (tk_Content old)))
       \<and> tk_Content t = triage_patch p (tk_Content old)"
    using saveTask_D [OF s] R old a by (auto simp: t c wrote_def in_order_def)
qed

lemma addTaskComment_txD:
  assumes "addTaskComment_tx e tid body actor d = Inr (c, d')"
  shows "d' = d\<lparr>db_comments := db_comments d @ [c]\<rparr>" and "cm_Sequence c = int (length (db_comments d)) + 1"
    and "cm_TaskID c = tid" and "\<exists>t. readTask tid d = Inr t \<and> \<not> tc_Archived (tk_Content t)"
    and "\<forall>q \<in> set (db_comments d). cm_ID q \<noteq> cm_ID c"
  using assms by (auto simp: addTaskComment_tx_def Let_def tx_simps list_ex_iff)

end
