(* ===== verification/Reservations.thy ===== *)
theory Reservations
  imports Board
begin

text \<open>
  The reservation ledger (\<open>internal/store/task_reservations.go\<close>,
  \<open>task_reservation_coordination.go\<close>, \<open>task_reservation_recovery.go\<close>): who holds a task,
  under which fence, and the transitions claim, transfer, update, release, finalize and
  recovery. Each runs in one transaction with its receipt; \<open>authorize\<close> is the caller's
  recheck, \<open>None\<close> where the code is given no function.
\<close>

section \<open>Inputs\<close>

record TaskReservationInput =
  ri_TaskID :: string
  ri_ID :: string
  ri_Fence :: int
  ri_ExpectedRevision :: int
  ri_Holder :: ReservationHolder
  ri_Content :: "TaskContent option"
  ri_Reason :: string
  ri_TerminalEvidence :: "string list option"
  ri_Intent :: string

record ReservationCoordination =
  rk_Record :: CoordinationRecord
  rk_WorkRef :: string
  rk_IntendedWorker :: "ReservationWorker option"
  rk_Worker :: "ReservationWorker option"
  rk_Coordinator :: bool
  rk_Process :: "ProcessPin option"

record RecoveryEvidence =
  rx_Kind :: string
  rx_Ref :: string
  rx_Statement :: string
  rx_HolderRef :: string

type_synonym authorizer = "err option option"

definition ReservationClaim :: string where "ReservationClaim = ''claim''"
definition ReservationTransfer :: string where "ReservationTransfer = ''transfer''"
definition ReservationUpdate :: string where "ReservationUpdate = ''update''"
definition ReservationRelease :: string where "ReservationRelease = ''release''"
definition ReservationFinalize :: string where "ReservationFinalize = ''finalize''"
definition RecoveryRelease :: string where "RecoveryRelease = ''recovery_release''"
definition RecoveryCancel :: string where "RecoveryCancel = ''recovery_cancel''"

lemmas reservation_ops = ReservationClaim_def ReservationTransfer_def ReservationUpdate_def
  ReservationRelease_def ReservationFinalize_def RecoveryRelease_def RecoveryCancel_def

definition no_holder :: ReservationHolder where
  "no_holder = \<lparr>ho_Mode = [], ho_Ref = []\<rparr>"

definition no_binding :: ReservationBinding where
  "no_binding = \<lparr>rb_UserID = [], rb_Mode = [], rb_ServiceID = [], rb_ProfileID = [], rb_TeamID = [],
     rb_Role = [], rb_SessionID = [], rb_Generation = []\<rparr>"

definition no_worker :: ReservationWorker where
  "no_worker = \<lparr>rw_UserID = [], rw_AgentID = []\<rparr>"

definition json_holder :: "ReservationHolder \<Rightarrow> json" where
  "json_holder h = JObj (fld ''mode'' (JStr (ho_Mode h)) @ fld ''ref'' (JStr (ho_Ref h)))"

definition json_reservation_input :: "TaskReservationInput \<Rightarrow> json" where
  "json_reservation_input i = JObj (fld ''task_id'' (JStr (ri_TaskID i))
     @ fld_str_opt ''reservation_id'' (ri_ID i) @ fld_num_opt ''fence'' (ri_Fence i)
     @ fld ''expected_revision'' (JNum (ri_ExpectedRevision i)) @ fld ''holder'' (json_holder (ri_Holder i))
     @ fld_ptr_opt ''content'' json_content (ri_Content i) @ fld_str_opt ''reason'' (ri_Reason i)
     @ fld_list_opt ''terminal_evidence'' JStr (case ri_TerminalEvidence i of None \<Rightarrow> [] | Some xs \<Rightarrow> xs)
     @ fld_str_opt ''intent'' (ri_Intent i))"

definition json_evidence :: "RecoveryEvidence \<Rightarrow> json" where
  "json_evidence x = JObj (fld ''kind'' (JStr (rx_Kind x)) @ fld ''ref'' (JStr (rx_Ref x))
     @ fld_str_opt ''statement'' (rx_Statement x))"

section \<open>Validation\<close>

definition SameHolder :: "ReservationBinding \<Rightarrow> ReservationBinding \<Rightarrow> bool" where
  "SameHolder b q \<longleftrightarrow> rb_UserID b \<noteq> [] \<and> rb_Mode b \<noteq> [] \<and> rb_UserID b = rb_UserID q \<and> rb_Mode b = rb_Mode q
     \<and> rb_ProfileID b = rb_ProfileID q \<and> rb_Role b = rb_Role q"

definition binding_validate :: "ReservationBinding \<Rightarrow> err option" where
  "binding_validate b =
     (if rb_UserID b = [] then Some (invalid ''reservation binding needs a user'')
      else if (rb_Mode b = ''personal'' \<or> rb_Mode b = ''recovery'') \<and> rb_ServiceID b = [] \<and> rb_ProfileID b = []
        \<and> rb_TeamID b = [] \<and> rb_Role b = [] \<and> rb_SessionID b = [] \<and> rb_Generation b = [] then None
      else if rb_Mode b = ''team'' \<and> rb_ServiceID b \<noteq> [] \<and> rb_ProfileID b \<noteq> [] \<and> rb_TeamID b \<noteq> []
        \<and> rb_Role b \<noteq> [] \<and> rb_SessionID b \<noteq> [] \<and> rb_Generation b \<noteq> [] then None
      else Some (invalid ''reservation binding is incomplete''))"

definition validReservationOperation :: "string \<Rightarrow> bool" where
  "validReservationOperation op \<longleftrightarrow>
     op \<in> {ReservationClaim, ReservationTransfer, ReservationUpdate, ReservationRelease, ReservationFinalize}"

definition takes_content :: "string \<Rightarrow> bool" where
  "takes_content op \<longleftrightarrow> op = ReservationUpdate \<or> op = ReservationRelease \<or> op = ReservationFinalize"

definition content_state :: "TaskReservationInput \<Rightarrow> string" where
  "content_state i = (case ri_Content i of None \<Rightarrow> [] | Some c \<Rightarrow> tc_State c)"

definition evidence_list :: "TaskReservationInput \<Rightarrow> string list" where
  "evidence_list i = (case ri_TerminalEvidence i of None \<Rightarrow> [] | Some xs \<Rightarrow> xs)"

definition validateReservationInput :: "env \<Rightarrow> string \<Rightarrow> TaskReservationInput \<Rightarrow> err option" where
  "validateReservationInput e op i =
     (if \<not> validReservationOperation op then Some (invalid ''unknown reservation operation'')
      else if \<not> is_id (ri_TaskID i) \<or> ri_ExpectedRevision i < 1
        then Some (invalid ''task ID and positive expected revision required'')
      else if taskText (ri_Reason i) 4096 False \<noteq> None then Some (invalid ''reason'')
      else if (op = ReservationClaim \<or> op = ReservationTransfer) \<and> taskText (ho_Mode (ri_Holder i)) 64 True \<noteq> None
        then Some (invalid ''holder mode'')
      else if (op = ReservationClaim \<or> op = ReservationTransfer) \<and> taskText (ho_Ref (ri_Holder i)) 256 True \<noteq> None
        then Some (invalid ''holder reference'')
      else if \<not> (op = ReservationClaim \<or> op = ReservationTransfer) \<and> ri_Holder i \<noteq> no_holder
        then Some (invalid ''holder belongs to claim or transfer'')
      else if op = ReservationClaim \<and> (ri_ID i \<noteq> [] \<or> ri_Fence i \<noteq> 0 \<or> ri_Content i \<noteq> None \<or> ri_Reason i \<noteq> [])
        then Some (invalid ''claim takes only task, revision and holder'')
      else if op \<noteq> ReservationClaim \<and> (\<not> is_id (ri_ID i) \<or> ri_Fence i < 1)
        then Some (invalid ''current reservation ID and fence required'')
      else if takes_content op \<and> ri_Content i = None then Some (invalid ''task content required'')
      else if takes_content op \<and> (case ri_Content i of None \<Rightarrow> False | Some c \<Rightarrow> content_validate e c \<noteq> None)
        then Some (invalid ''task content'')
      else if \<not> takes_content op \<and> ri_Content i \<noteq> None
        then Some (invalid ''task content belongs to update, release or finalize'')
      else if (op = ReservationRelease \<or> op = ReservationFinalize) \<and> taskText (ri_Reason i) 4096 True \<noteq> None
        then Some (invalid ''reason'')
      else if op = ReservationRelease \<and> content_state i \<noteq> ''READY'' \<and> content_state i \<noteq> ''BLOCKED''
        then Some (invalid ''release must leave task READY or BLOCKED'')
      else if op = ReservationUpdate \<and> (content_state i = ''DONE'' \<or> content_state i = ''CANCELLED'')
        then Some (invalid ''terminal state requires finalize'')
      else if op = ReservationFinalize \<and> content_state i \<noteq> ''DONE'' \<and> content_state i \<noteq> ''CANCELLED''
        then Some (invalid ''finalize must leave task DONE or CANCELLED'')
      else if op \<noteq> ReservationFinalize \<and> ri_TerminalEvidence i \<noteq> None
        then Some (invalid ''terminal evidence belongs to finalize'')
      else if length (evidence_list i) > 16 then Some (invalid ''at most 16 terminal evidence references'')
      else if list_ex (\<lambda>x. taskText x 512 True \<noteq> None) (evidence_list i) then Some (invalid ''terminal evidence'')
      else if op = ReservationFinalize \<and> content_state i = ''DONE'' \<and> evidence_list i = []
        then Some (invalid ''DONE requires terminal evidence of reviewed delivery and human merge'')
      else if ri_Intent i \<noteq> [] \<and> op \<noteq> ReservationUpdate then Some (invalid ''intent belongs to update'')
      else if ri_Intent i \<noteq> [] \<and> ri_Intent i \<notin> {''block'', ''submit'', ''resume''}
        then Some (invalid ''intent is block, submit or resume'')
      else None)"

section \<open>Ledger rows\<close>

definition readTaskReservation :: "string \<Rightarrow> int \<Rightarrow> db \<Rightarrow> TaskReservation" where
  "readTaskReservation tid revision d =
     (case map_of (db_reservations d) tid of
        None \<Rightarrow> \<lparr>rs_TaskID = tid, rs_ID = [], rs_Fence = 0, rs_Holder = no_holder, rs_Binding = no_binding,
                 rs_TaskRevision = revision, rs_IntendedWorker = None\<rparr>
      | Some r \<Rightarrow> \<lparr>rs_TaskID = tid, rs_ID = rv_active_id r, rs_Fence = rv_fence r, rs_Holder = rv_holder r,
                 rs_Binding = rv_bound r, rs_TaskRevision = revision,
                 rs_IntendedWorker = (if rv_intended r \<noteq> no_worker then Some (rv_intended r) else None)\<rparr>)"

text \<open>The table's \<open>CHECK\<close> constraints.\<close>

definition reservation_check :: "reservation_row \<Rightarrow> bool" where
  "reservation_check r \<longleftrightarrow> 1 \<le> rv_fence r
     \<and> (rv_active_id r = [] \<and> ho_Mode (rv_holder r) = [] \<and> ho_Ref (rv_holder r) = []
        \<or> rv_active_id r \<noteq> [] \<and> ho_Mode (rv_holder r) \<noteq> [] \<and> ho_Ref (rv_holder r) \<noteq> [])"

definition advanceReservation :: "TaskReservation \<Rightarrow> db \<Rightarrow> err + (TaskReservation \<times> db)" where
  "advanceReservation r d =
     (if rs_Fence r = MaxInt64 then Inl ErrReservationOverflow
      else let r = r\<lparr>rs_Fence := rs_Fence r + 1, rs_IntendedWorker := (if rs_ID r = [] then None else rs_IntendedWorker r)\<rparr>;
               row = \<lparr>rv_fence = rs_Fence r, rv_active_id = rs_ID r, rv_holder = rs_Holder r, rv_bound = rs_Binding r,
                      rv_intended = (case rs_IntendedWorker r of None \<Rightarrow> no_worker | Some w \<Rightarrow> w)\<rparr>
        in if \<not> reservation_check row then Inl ErrSQL
           else Inr (r, d\<lparr>db_reservations := AList.update (rs_TaskID r) row (db_reservations d)\<rparr>))"

definition append_res_event :: "string \<Rightarrow> int \<Rightarrow> string \<Rightarrow> event_body \<Rightarrow> db \<Rightarrow> db" where
  "append_res_event tid fence op body d = d\<lparr>db_res_events := db_res_events d @
     [\<lparr>re_task_id = tid, re_fence = fence, re_operation = op, re_body = body\<rparr>]\<rparr>"

definition recordReservationEvent ::
  "string \<Rightarrow> TaskReservation \<Rightarrow> TaskReservation \<Rightarrow> TaskActor \<Rightarrow> ReservationBinding \<Rightarrow> TaskReservationInput
    \<Rightarrow> CoordinationRecord option \<Rightarrow> DependencyEvidence list option \<Rightarrow> db \<Rightarrow> db" where
  "recordReservationEvent op before after actor binding i coord deps d =
     append_res_event (rs_TaskID after) (rs_Fence after) op
       (TransitionEvent before after actor binding (ri_Reason i) (ri_TerminalEvidence i) (ri_Intent i) coord deps) d"

definition recordRecoveryEvent ::
  "TaskReservation \<Rightarrow> TaskReservation \<Rightarrow> TaskActor \<Rightarrow> RecoveryRecord \<Rightarrow> string \<Rightarrow> string \<Rightarrow> db \<Rightarrow> db" where
  "recordRecoveryEvent before after actor rec statement reason d =
     append_res_event (rs_TaskID after) (rs_Fence after) (rr_Operation rec)
       (RecoveryEvent before after actor rec statement reason) d"

definition holderClosedBy :: "string \<Rightarrow> string" where
  "holderClosedBy op = (if op = ReservationRelease then ''holder_release''
     else if op = ReservationFinalize then ''holder_finalize'' else [])"

text \<open>Per task and service, the last reservation the service established and how it
  closed.\<close>

definition trackServiceReservation ::
  "env \<Rightarrow> TaskReservation \<Rightarrow> TaskReservation \<Rightarrow> string \<Rightarrow> db \<Rightarrow> err + db" where
  "trackServiceReservation e before after closedBy d =
     (if rs_ID after \<noteq> [] \<and> rb_ServiceID (rs_Binding after) \<noteq> []
         \<and> (rs_ID after \<noteq> rs_ID before \<or> rb_ServiceID (rs_Binding after) \<noteq> rb_ServiceID (rs_Binding before)) then
        Inr (d\<lparr>db_res_services := AList.update (rs_TaskID after, rb_ServiceID (rs_Binding after))
          \<lparr>sv_reservation_id = rs_ID after, sv_closing_fence = 0, sv_closed_by = [], sv_closed_at = [],
            sv_task_revision = rs_TaskRevision after\<rparr> (db_res_services d)\<rparr>)
      else if rs_ID before \<noteq> [] \<and> rs_ID after = [] \<and> rb_ServiceID (rs_Binding before) \<noteq> [] then
        (if closedBy = [] then Inl (ErrOther ''closing a service's reservation without a closure kind'')
         else let k = (rs_TaskID after, rb_ServiceID (rs_Binding before))
           in Inr (case map_of (db_res_services d) k of
                None \<Rightarrow> d
              | Some s \<Rightarrow> if sv_reservation_id s \<noteq> rs_ID before then d
                  else d\<lparr>db_res_services := AList.update k
                    (s\<lparr>sv_closing_fence := rs_Fence after, sv_closed_by := closedBy, sv_closed_at := e_now e 1,
                       sv_task_revision := rs_TaskRevision after\<rparr>) (db_res_services d)\<rparr>))
      else Inr d)"

section \<open>Coordination facts\<close>

definition b64url :: "nat \<Rightarrow> bool" where
  "b64url r \<longleftrightarrow> alnum r \<or> r = 95 \<or> r = 45"

definition proofDigestRE :: re where
  "proofDigestRE = Cats [BeginText, Word_of ''p1_'', Times 43 (Cls b64url), EndText]"

definition evidenceDigestRE :: re where
  "evidenceDigestRE = Cats [BeginText, Word_of ''e1_'', Times 43 (Cls b64url), EndText]"

definition be32 :: "nat \<Rightarrow> string" where
  "be32 n = [char_of (n div 16777216), char_of (n div 65536), char_of (n div 256), char_of n]"

definition EvidenceDigest :: "env \<Rightarrow> string list \<Rightarrow> string" where
  "EvidenceDigest e refs = ''e1_'' @ e_sha64 e (concat (map (\<lambda>r. be32 (length r) @ r) refs))"

definition coordination_validate :: "ReservationCoordination \<Rightarrow> string \<Rightarrow> err option" where
  "coordination_validate c op =
     (let kind = cr_Kind (rk_Record c); claim = (op = ReservationClaim); ed = cr_EvidenceDigest (rk_Record c)
      in if kind = [] \<or> \<not> MatchString proofDigestRE (cr_ProofDigest (rk_Record c))
           then Some (invalid ''coordination needs its fact kind and proof digest'')
         else if (claim \<and> rk_WorkRef c \<noteq> []) \<or> (\<not> claim \<and> rk_WorkRef c = [])
           then Some (invalid ''a coordinated transition names the hold's work reference, a claim none'')
         else if (rk_IntendedWorker c \<noteq> None) \<noteq> (claim \<and> kind = ''offer'')
           then Some (invalid ''only an offer names an intended worker'')
         else if (rk_Worker c \<noteq> None) \<noteq> (op = ReservationTransfer)
           then Some (invalid ''only a transfer names the accepting worker'')
         else if (rk_Process c \<noteq> None) \<noteq> (kind = ''offer'' \<or> kind = ''accepted_attempt'' \<or> kind = ''independent_claim'')
           then Some (invalid ''the facts that start work carry the process pin, nothing else'')
         else if rk_Coordinator c \<and> op \<noteq> ReservationRelease \<and> op \<noteq> ReservationFinalize
           then Some (invalid ''the coordinator path is a release or a finalize'')
         else if (ed \<noteq> []) \<noteq> (kind = ''accepted_for_finalization'') \<or> (ed \<noteq> [] \<and> \<not> MatchString evidenceDigestRE ed)
           then Some (invalid ''the finalize fact, and only it, binds the evidence digest'')
         else None)"

definition coord_pin :: "ReservationCoordination option \<Rightarrow> ProcessPin option" where
  "coord_pin c = (case c of None \<Rightarrow> None | Some k \<Rightarrow> rk_Process k)"

definition coord_intended :: "ReservationCoordination option \<Rightarrow> ReservationWorker option" where
  "coord_intended c = (case c of None \<Rightarrow> None | Some k \<Rightarrow> rk_IntendedWorker k)"

definition coord_record :: "ReservationCoordination option \<Rightarrow> CoordinationRecord option" where
  "coord_record c = (case c of None \<Rightarrow> None | Some k \<Rightarrow> Some (rk_Record k))"

definition checkCoordinatedHolder ::
  "string \<Rightarrow> TaskReservation \<Rightarrow> ReservationBinding \<Rightarrow> ReservationCoordination option \<Rightarrow> err option" where
  "checkCoordinatedHolder op hold binding coord =
     (case coord of
        None \<Rightarrow>
          if op = ReservationTransfer then Some ErrReservationHolder
          else if \<not> SameHolder (rs_Binding hold) binding then Some ErrReservationHolder
          else None
      | Some c \<Rightarrow>
          let sameTeam = (rb_Mode binding = ''team'' \<and> rb_Mode (rs_Binding hold) = ''team''
                \<and> rb_ServiceID binding = rb_ServiceID (rs_Binding hold) \<and> rb_TeamID binding = rb_TeamID (rs_Binding hold))
          in if ho_Ref (rs_Holder hold) \<noteq> rk_WorkRef c then Some ErrCoordinationMismatch
             else if op = ReservationTransfer then
               (if \<not> sameTeam then Some ErrReservationHolder
                else if rs_IntendedWorker hold = None \<or> rs_IntendedWorker hold \<noteq> rk_Worker c then Some ErrCoordinationMismatch
                else None)
             else if rk_Coordinator c then
               (if \<not> sameTeam \<or> rb_Role binding \<noteq> ''coordinator'' then Some ErrReservationHolder else None)
             else if \<not> SameHolder (rs_Binding hold) binding then Some ErrReservationHolder
             else None)"

definition checkEvidenceDigest :: "env \<Rightarrow> ReservationCoordination option \<Rightarrow> string list \<Rightarrow> err option" where
  "checkEvidenceDigest e coord evidence =
     (case coord of
        None \<Rightarrow> None
      | Some c \<Rightarrow>
          if cr_EvidenceDigest (rk_Record c) = [] then None
          else if EvidenceDigest e evidence \<noteq> cr_EvidenceDigest (rk_Record c) then Some ErrEvidenceMismatch
          else None)"

definition checkProcessPin :: "env \<Rightarrow> ProcessPin option \<Rightarrow> db \<Rightarrow> err option" where
  "checkProcessPin e pin d =
     (case pin of
        None \<Rightarrow> None
      | Some p \<Rightarrow>
          (case map_of (db_meta d) ''process'' of
             None \<Rightarrow> Some ErrProcessMismatch
           | Some raw \<Rightarrow>
               if raw = [] then Some ErrProcessMismatch
               else (case e_parsePin e raw of
                   None \<Rightarrow> Some ErrDecode
                 | Some current \<Rightarrow> if current \<noteq> p then Some ErrProcessMismatch else None)))"

definition actingMember :: "string \<Rightarrow> ReservationBinding \<Rightarrow> ReservationBinding \<Rightarrow> bool" where
  "actingMember op recorded caller \<longleftrightarrow> SameHolder recorded caller
     \<and> (op = ReservationFinalize \<and> rb_Role recorded = ''coordinator'' \<longrightarrow> rb_SessionID recorded = rb_SessionID caller)"

section \<open>The transaction\<close>

definition reservationPrincipal :: "TaskActor \<Rightarrow> err + string" where
  "reservationPrincipal a =
     (case actor_key a of
        Inl x \<Rightarrow> Inl x
      | Inr _ \<Rightarrow> if ac_Kind a = ''user'' then Inr (''user/'' @ ac_UserID a) else Inr (''admin/'' @ ac_Name a))"

definition recoveryPrincipal :: "TaskActor \<Rightarrow> err + string" where
  "recoveryPrincipal a =
     (if ac_Kind a \<noteq> ''recovery'' \<or> ac_UserID a \<noteq> [] \<or> ac_TokenID a \<noteq> [] then Inl (ErrActor ''invalid recovery actor'')
      else if taskText (ac_Name a) maxTaskActorName True \<noteq> None then Inl (ErrActor ''invalid recovery actor name'')
      else Inr (''recovery/'' @ ac_Name a))"

definition reservation_digest :: "env \<Rightarrow> TaskReservationInput \<Rightarrow> json option \<Rightarrow> string" where
  "reservation_digest e i extra =
     receiptDigest (e_sha e) (case extra of None \<Rightarrow> json_reservation_input i
       | Some x \<Rightarrow> JObj [(''in'', json_reservation_input i), (''extra'', x)])"

definition reservationMutation ::
  "env \<Rightarrow> TaskActor \<Rightarrow> ReservationBinding \<Rightarrow> string \<Rightarrow> TaskReservationInput \<Rightarrow> string \<Rightarrow> json option
    \<Rightarrow> (db \<Rightarrow> err + (TaskReservationOutcome \<times> db)) \<Rightarrow> authorizer \<Rightarrow> db \<Rightarrow> err + (TaskReservationOutcome \<times> db)" where
  "reservationMutation e actor binding op i key extra fn authorize d =
     (case taskScopeOK d of Some x \<Rightarrow> Inl x | None \<Rightarrow>
      case authorize of None \<Rightarrow> Inl (ErrOther ''reservation transition without an authorization check'') | Some auth \<Rightarrow>
      case binding_validate binding of Some x \<Rightarrow> Inl x | None \<Rightarrow>
      case (if rb_Mode binding = ''recovery'' then recoveryPrincipal actor else reservationPrincipal actor) of
        Inl x \<Rightarrow> Inl x | Inr who \<Rightarrow>
      case taskText key MaxTaskKeyBytes True of Some m \<Rightarrow> Inl (invalid m) | None \<Rightarrow>
      case map_of (db_res_requests d) (who, op, ri_TaskID i, key) of
        Some saved \<Rightarrow>
          if rq_digest saved \<noteq> reservation_digest e i extra then Inl ErrTaskRetryConflict
          else if \<not> actingMember op (ou_Binding (rq_result saved)) binding then Inl ErrReservationHolder
          else (case auth of Some x \<Rightarrow> Inl x | None \<Rightarrow> Inr ((rq_result saved)\<lparr>ou_Replayed := True\<rparr>, d))
      | None \<Rightarrow>
          if \<not> TasksEnabled d then Inl ErrReservationTasksDisabled
          else case fn d of Inl x \<Rightarrow> Inl x | Inr (res, d1) \<Rightarrow>
          let out = res\<lparr>ou_Binding := binding\<rparr>;
              actedOn = (if op = ReservationClaim then rs_ID (ou_Reservation out) else ri_ID i);
              row = \<lparr>rq_digest = reservation_digest e i extra, rq_result = out,
                     rq_service_id = (if ou_Coordination out \<noteq> None then rb_ServiceID binding else []),
                     rq_proof_digest = (case ou_Coordination out of None \<Rightarrow> [] | Some c \<Rightarrow> cr_ProofDigest c),
                     rq_reservation_id = actedOn, rq_committed_at = e_now e 2\<rparr>
          in case tb_insert (who, op, ri_TaskID i, key) row (db_res_requests d1) of
               None \<Rightarrow> Inl ErrSQL
             | Some t \<Rightarrow> (case auth of Some x \<Rightarrow> Inl x | None \<Rightarrow> Inr (out, d1\<lparr>db_res_requests := t\<rparr>)))"

section \<open>The transitions\<close>

definition new_outcome ::
  "Task \<Rightarrow> TaskReservation \<Rightarrow> RecoveryRecord option \<Rightarrow> CoordinationRecord option \<Rightarrow> TaskReservationOutcome" where
  "new_outcome t r rec coord = \<lparr>ou_Task = t, ou_Reservation = r, ou_Binding = no_binding, ou_Recovery = rec,
     ou_Coordination = coord, ou_Replayed = False\<rparr>"

text \<open>The tail every member transition shares: advance the fence, log the event, keep the
  service's record.\<close>

definition commit_transition ::
  "env \<Rightarrow> string \<Rightarrow> Task \<Rightarrow> TaskReservation \<Rightarrow> TaskReservation \<Rightarrow> TaskActor \<Rightarrow> ReservationBinding
    \<Rightarrow> TaskReservationInput \<Rightarrow> ReservationCoordination option \<Rightarrow> DependencyEvidence list option \<Rightarrow> db
    \<Rightarrow> err + (TaskReservationOutcome \<times> db)" where
  "commit_transition e op t before r actor binding i coord deps d =
     (case advanceReservation r d of Inl x \<Rightarrow> Inl x | Inr (r, d1) \<Rightarrow>
      case trackServiceReservation e before r (holderClosedBy op)
        (recordReservationEvent op before r actor binding i (coord_record coord) deps d1) of
        Inl x \<Rightarrow> Inl x
      | Inr d2 \<Rightarrow> Inr (new_outcome t r None (coord_record coord), d2))"

definition commit_claim ::
  "env \<Rightarrow> TaskReservationInput \<Rightarrow> TaskActor \<Rightarrow> ReservationBinding \<Rightarrow> ReservationCoordination option \<Rightarrow> DependencyEvidence list option
    \<Rightarrow> Task \<Rightarrow> TaskReservation \<Rightarrow> db \<Rightarrow> err + (TaskReservationOutcome \<times> db)" where
  "commit_claim e i actor binding coord deps t r d =
     (if task_managed (ri_TaskID i) d \<or> rs_ID r \<noteq> [] \<or> tc_Archived (tk_Content t) then Inl ErrReservationConflict
      else if tc_State (tk_Content t) \<noteq> ''READY'' then Inl ErrTaskNotReady
      else case checkProcessPin e (coord_pin coord) d of Some x \<Rightarrow> Inl x | None \<Rightarrow>
        commit_transition e ReservationClaim t r
          (r\<lparr>rs_ID := e_uuid e 0, rs_Holder := ri_Holder i, rs_Binding := binding, rs_IntendedWorker := coord_intended coord\<rparr>)
          actor binding i coord deps d)"

definition claim_tx ::
  "env \<Rightarrow> TaskReservationInput \<Rightarrow> TaskActor \<Rightarrow> ReservationBinding \<Rightarrow> ReservationCoordination option
    \<Rightarrow> Task \<Rightarrow> TaskReservation \<Rightarrow> db \<Rightarrow> err + (TaskReservationOutcome \<times> db)" where
  "claim_tx e i actor binding coord t r d =
     (if tc_Dependencies (tk_Content t) \<noteq> [] then Inl ErrDependencyUnresolved
      else commit_claim e i actor binding coord None t r d)"

definition content_tx ::
  "env \<Rightarrow> string \<Rightarrow> TaskReservationInput \<Rightarrow> TaskActor \<Rightarrow> ReservationBinding \<Rightarrow> ReservationCoordination option
    \<Rightarrow> TaskContent \<Rightarrow> Task \<Rightarrow> TaskReservation \<Rightarrow> db \<Rightarrow> err + (TaskReservationOutcome \<times> db)" where
  "content_tx e op i actor binding coord c t r d =
     (case checkEpicAssignable (tc_Epic c) (tc_Epic (tk_Content t)) d of Some x \<Rightarrow> Inl x | None \<Rightarrow>
      let t' = t\<lparr>tk_Content := c, tk_Revision := tk_Revision t + 1, tk_UpdatedAt := e_now e 0\<rparr>
      in case saveReservedTask t' actor d of Inl x \<Rightarrow> Inl x | Inr d1 \<Rightarrow>
      let r' = r\<lparr>rs_TaskRevision := tk_Revision t'\<rparr>;
          r'' = (if op \<noteq> ReservationUpdate
                 then r'\<lparr>rs_ID := [], rs_Holder := no_holder, rs_Binding := no_binding\<rparr> else r')
      in commit_transition e op t' r r'' actor binding i coord None d1)"

definition held_tx ::
  "env \<Rightarrow> string \<Rightarrow> TaskReservationInput \<Rightarrow> TaskActor \<Rightarrow> ReservationBinding \<Rightarrow> ReservationCoordination option
    \<Rightarrow> Task \<Rightarrow> TaskReservation \<Rightarrow> db \<Rightarrow> err + (TaskReservationOutcome \<times> db)" where
  "held_tx e op i actor binding coord t r d =
     (if rs_ID r = [] \<or> rs_ID r \<noteq> ri_ID i \<or> rs_Fence r \<noteq> ri_Fence i then Inl ErrReservationStale
      else case checkCoordinatedHolder op r binding coord of Some x \<Rightarrow> Inl x | None \<Rightarrow>
      case checkProcessPin e (coord_pin coord) d of Some x \<Rightarrow> Inl x | None \<Rightarrow>
      case checkEvidenceDigest e coord (evidence_list i) of Some x \<Rightarrow> Inl x | None \<Rightarrow>
      if op = ReservationTransfer then
        commit_transition e op t r
          (r\<lparr>rs_Holder := ri_Holder i, rs_Binding := binding, rs_IntendedWorker := None\<rparr>) actor binding i coord None d
      else case ri_Content i of
        None \<Rightarrow> Inl (invalid ''task content required'')
      | Some c \<Rightarrow> content_tx e op i actor binding coord c t r d)"

definition ApplyTaskReservation_tx ::
  "env \<Rightarrow> string \<Rightarrow> TaskReservationInput \<Rightarrow> TaskActor \<Rightarrow> ReservationBinding \<Rightarrow> ReservationCoordination option
    \<Rightarrow> db \<Rightarrow> err + (TaskReservationOutcome \<times> db)" where
  "ApplyTaskReservation_tx e op i actor binding coord d =
     (case readTask (ri_TaskID i) d of Inl x \<Rightarrow> Inl x | Inr t \<Rightarrow>
      if tk_Revision t \<noteq> ri_ExpectedRevision i then Inl (TaskConflict t)
      else let r = readTaskReservation (ri_TaskID i) (tk_Revision t) d
        in if op = ReservationClaim then claim_tx e i actor binding coord t r d
           else held_tx e op i actor binding coord t r d)"

definition ApplyTaskReservation ::
  "env \<Rightarrow> string \<Rightarrow> TaskReservationInput \<Rightarrow> TaskActor \<Rightarrow> ReservationBinding \<Rightarrow> string
    \<Rightarrow> ReservationCoordination option \<Rightarrow> authorizer \<Rightarrow> db \<Rightarrow> err + (TaskReservationOutcome \<times> db)" where
  "ApplyTaskReservation e op i actor binding key coord authorize d =
     (case validateReservationInput e op i of Some x \<Rightarrow> Inl x | None \<Rightarrow>
      if rb_Mode binding = ''recovery'' then Inl (invalid ''a recovery goes through RecoverTaskReservation'')
      else case (case coord of None \<Rightarrow> None | Some c \<Rightarrow> coordination_validate c op) of Some x \<Rightarrow> Inl x | None \<Rightarrow>
      reservationMutation e actor binding op i key None (ApplyTaskReservation_tx e op i actor binding coord) authorize d)"

section \<open>Recovery\<close>

definition evidence_validate :: "RecoveryEvidence \<Rightarrow> err option" where
  "evidence_validate x =
     (if rx_Kind x = ''stop_evidence'' \<and> MatchString proofDigestRE (rx_Ref x) \<and> rx_Statement x = [] then None
      else if rx_Kind x = ''attestation'' \<and> taskText (rx_Ref x) 128 True = None \<and> taskText (rx_Statement x) 8192 True = None
        \<and> 16 \<le> length (runes (rx_Statement x)) \<and> length (runes (rx_Statement x)) \<le> 2048 then None
      else Some ErrRecoveryEvidence)"

definition validateRecovery :: "env \<Rightarrow> string \<Rightarrow> TaskReservationInput \<Rightarrow> RecoveryEvidence \<Rightarrow> TaskActor \<Rightarrow> err option" where
  "validateRecovery e op i x actor =
     (case (if op = RecoveryRelease then validateReservationInput e ReservationRelease i
            else if op = RecoveryCancel then
              (case validateReservationInput e ReservationFinalize i of Some m \<Rightarrow> Some m | None \<Rightarrow>
               if content_state i \<noteq> ''CANCELLED'' then Some (invalid ''a recovery can cancel a task, never complete it'') else None)
            else Some (invalid ''unknown recovery operation'')) of Some m \<Rightarrow> Some m | None \<Rightarrow>
      if ri_TerminalEvidence i \<noteq> None then Some (invalid ''a recovery carries no terminal evidence'')
      else case evidence_validate x of Some m \<Rightarrow> Some m | None \<Rightarrow>
      case recoveryPrincipal actor of Inl m \<Rightarrow> Some m | Inr _ \<Rightarrow> None)"

definition RecoverTaskReservation_tx ::
  "env \<Rightarrow> string \<Rightarrow> TaskReservationInput \<Rightarrow> RecoveryEvidence \<Rightarrow> TaskActor \<Rightarrow> db \<Rightarrow> err + (TaskReservationOutcome \<times> db)" where
  "RecoverTaskReservation_tx e op i x actor d =
     (case readTask (ri_TaskID i) d of Inl m \<Rightarrow> Inl m | Inr t \<Rightarrow>
      if tk_Revision t \<noteq> ri_ExpectedRevision i then Inl (TaskConflict t)
      else let hold = readTaskReservation (ri_TaskID i) (tk_Revision t) d
        in if rs_ID hold = [] \<or> rs_ID hold \<noteq> ri_ID i \<or> rs_Fence hold \<noteq> ri_Fence i then Inl ErrReservationStale
        else if rx_Kind x = ''stop_evidence'' \<and> ho_Ref (rs_Holder hold) \<noteq> rx_HolderRef x then Inl ErrReservationStale
        else if rs_Binding hold = no_binding \<and> rx_Kind x \<noteq> ''attestation'' then Inl ErrRecoveryEvidence
        else case ri_Content i of
          None \<Rightarrow> Inl (invalid ''task content required'')
        | Some c \<Rightarrow>
        (case checkEpicAssignable (tc_Epic c) (tc_Epic (tk_Content t)) d of Some m \<Rightarrow> Inl m | None \<Rightarrow>
         let t' = t\<lparr>tk_Content := c, tk_Revision := tk_Revision t + 1, tk_UpdatedAt := e_now e 0\<rparr>
         in case saveReservedTask t' actor d of Inl m \<Rightarrow> Inl m | Inr d1 \<Rightarrow>
         case advanceReservation (hold\<lparr>rs_TaskRevision := tk_Revision t', rs_ID := [], rs_Holder := no_holder,
                rs_Binding := no_binding\<rparr>) d1 of Inl m \<Rightarrow> Inl m | Inr (r, d2) \<Rightarrow>
         let rec = \<lparr>rr_Operation = op, rr_EvidenceKind = rx_Kind x, rr_EvidenceRef = rx_Ref x, rr_Affected = rs_Binding hold\<rparr>
         in case trackServiceReservation e hold r op
                   (recordRecoveryEvent hold r actor rec (rx_Statement x) (ri_Reason i) d2) of
              Inl m \<Rightarrow> Inl m
            | Inr d3 \<Rightarrow> Inr (new_outcome t' r (Some rec) None, d3)))"

definition RecoverTaskReservation ::
  "env \<Rightarrow> string \<Rightarrow> TaskReservationInput \<Rightarrow> RecoveryEvidence \<Rightarrow> TaskActor \<Rightarrow> string \<Rightarrow> authorizer \<Rightarrow> db
    \<Rightarrow> err + (TaskReservationOutcome \<times> db)" where
  "RecoverTaskReservation e op i x actor key authorize d =
     (case validateRecovery e op i x actor of Some m \<Rightarrow> Inl m | None \<Rightarrow>
      if rx_Kind x = ''stop_evidence'' \<and> rx_HolderRef x = []
        then Inl (invalid ''stop evidence names the hold it was verified against'')
      else reservationMutation e actor (no_binding\<lparr>rb_UserID := ac_Name actor, rb_Mode := ''recovery''\<rparr>) op i key
        (Some (json_evidence x)) (RecoverTaskReservation_tx e op i x actor) authorize d)"

section \<open>Reads\<close>

definition GetTaskReservation :: "string \<Rightarrow> db \<Rightarrow> err + TaskReservation" where
  "GetTaskReservation tid d =
     (case taskScopeOK d of Some x \<Rightarrow> Inl x | None \<Rightarrow>
      if \<not> is_id tid then Inl ErrTaskNotFound
      else case readTask tid d of Inl x \<Rightarrow> Inl x | Inr t \<Rightarrow> Inr (readTaskReservation tid (tk_Revision t) d))"

definition GetTaskReservationReceipt ::
  "env \<Rightarrow> string \<Rightarrow> TaskReservationInput \<Rightarrow> TaskActor \<Rightarrow> ReservationBinding \<Rightarrow> string \<Rightarrow> db
    \<Rightarrow> err + TaskReservationOutcome option" where
  "GetTaskReservationReceipt e op i actor binding key d =
     (case taskScopeOK d of Some x \<Rightarrow> Inl x | None \<Rightarrow>
      case binding_validate binding of Some x \<Rightarrow> Inl x | None \<Rightarrow>
      case validateReservationInput e op i of Some x \<Rightarrow> Inl x | None \<Rightarrow>
      case reservationPrincipal actor of Inl x \<Rightarrow> Inl x | Inr who \<Rightarrow>
      case taskText key MaxTaskKeyBytes True of Some m \<Rightarrow> Inl (invalid m) | None \<Rightarrow>
      case map_of (db_res_requests d) (who, op, ri_TaskID i, key) of
        None \<Rightarrow> Inr None
      | Some saved \<Rightarrow>
          if rq_digest saved \<noteq> reservation_digest e i None then Inl ErrTaskRetryConflict
          else if \<not> actingMember op (ou_Binding (rq_result saved)) binding then Inl ErrReservationHolder
          else Inr (Some (rq_result saved)))"

definition TaskReservationReceiptByKey ::
  "string \<Rightarrow> string \<Rightarrow> TaskActor \<Rightarrow> ReservationBinding \<Rightarrow> string \<Rightarrow> db \<Rightarrow> err + TaskReservationOutcome option" where
  "TaskReservationReceiptByKey op tid actor binding key d =
     (case taskScopeOK d of Some x \<Rightarrow> Inl x | None \<Rightarrow>
      if \<not> validReservationOperation op \<or> \<not> is_id tid then Inl (invalid ''unknown operation or task'')
      else case binding_validate binding of Some x \<Rightarrow> Inl x | None \<Rightarrow>
      case reservationPrincipal actor of Inl x \<Rightarrow> Inl x | Inr who \<Rightarrow>
      case taskText key MaxTaskKeyBytes True of Some m \<Rightarrow> Inl (invalid m) | None \<Rightarrow>
      case map_of (db_res_requests d) (who, op, tid, key) of
        None \<Rightarrow> Inr None
      | Some saved \<Rightarrow>
          if \<not> actingMember op (ou_Binding (rq_result saved)) binding then Inl ErrReservationHolder
          else Inr (Some (rq_result saved)))"

definition RecoveryReplay ::
  "env \<Rightarrow> string \<Rightarrow> TaskReservationInput \<Rightarrow> RecoveryEvidence \<Rightarrow> TaskActor \<Rightarrow> string \<Rightarrow> db
    \<Rightarrow> err + TaskReservationOutcome option" where
  "RecoveryReplay e op i x actor key d =
     (case validateRecovery e op i x actor of Some m \<Rightarrow> Inl m | None \<Rightarrow>
      case map_of (db_res_requests d)
        ((case recoveryPrincipal actor of Inl _ \<Rightarrow> [] | Inr p \<Rightarrow> p), op, ri_TaskID i, key) of
        None \<Rightarrow> Inr None
      | Some saved \<Rightarrow>
          if rq_digest saved \<noteq> reservation_digest e i (Some (json_evidence x)) then Inl ErrTaskRetryConflict
          else Inr (Some ((rq_result saved)\<lparr>ou_Replayed := True\<rparr>)))"

text \<open>A hold as one service's read scope sees it.\<close>

datatype ServiceHold =
    HoldNone
  | HoldHeld string int string string int \<comment> \<open>reservation, fence, holder mode, work reference, task revision\<close>
  | HoldClosed string int string string int \<comment> \<open>reservation, closing fence, closed by, closed at, task revision\<close>

definition ServiceHoldStatus :: "string \<Rightarrow> string \<Rightarrow> db \<Rightarrow> err + ServiceHold" where
  "ServiceHoldStatus tid service d =
     (case taskScopeOK d of Some x \<Rightarrow> Inl x | None \<Rightarrow>
      if \<not> is_id tid \<or> service = [] then Inr HoldNone
      else case readTask tid d of
        Inl ErrTaskNotFound \<Rightarrow> Inr HoldNone
      | Inl x \<Rightarrow> Inl x
      | Inr t \<Rightarrow>
          let hold = readTaskReservation tid (tk_Revision t) d
          in if rs_ID hold \<noteq> [] \<and> rb_ServiceID (rs_Binding hold) = service
             then Inr (HoldHeld (rs_ID hold) (rs_Fence hold) (ho_Mode (rs_Holder hold)) (ho_Ref (rs_Holder hold)) (tk_Revision t))
             else (case map_of (db_res_services d) (tid, service) of
                 None \<Rightarrow> Inr HoldNone
               | Some s \<Rightarrow> if 0 < sv_closing_fence s
                   then Inr (HoldClosed (sv_reservation_id s) (sv_closing_fence s) (sv_closed_by s) (sv_closed_at s) (sv_task_revision s))
                   else Inr HoldNone))"

end
