(* ===== verification/Ledger.thy ===== *)
theory Ledger
  imports Reservations
begin

text \<open>
  What the reservation ledger keeps. A transition advances the fence of its task by one
  and logs one event; an active row carries a verified binding, an inactive one none; a
  held task is open. The fence discipline is stated once, as a contract, and discharged
  on the transitions.
\<close>

section \<open>The fence contract\<close>

text \<open>Commands on one ledger entry: \<open>exec c s\<close> runs one, \<open>token c\<close> is the fence it names
  (a claim names none). Between commands the rest of the system moves the state without
  lowering the fence.\<close>

locale fenced =
  fixes fence :: "'s \<Rightarrow> int"
    and exec :: "'c \<Rightarrow> 's \<Rightarrow> 's option"
    and token :: "'c \<Rightarrow> int option"
  assumes current: "exec c s = Some s' \<Longrightarrow> token c = Some f \<Longrightarrow> f = fence s"
    and advances: "exec c s = Some s' \<Longrightarrow> fence s' = fence s + 1"
begin

inductive later :: "'s \<Rightarrow> 's \<Rightarrow> bool" where
  refl: "later s s"
| command: "later s s1 \<Longrightarrow> exec c s1 = Some s2 \<Longrightarrow> later s s2"
| environment: "later s s1 \<Longrightarrow> fence s1 \<le> fence s2 \<Longrightarrow> later s s2"

lemma later_fence: "later s s' \<Longrightarrow> fence s \<le> fence s'"
  by (induction rule: later.induct) (auto dest: advances)

text \<open>Once a command has run, every command that names its fence, or an older one, is
  refused for ever.\<close>

lemma stale_refused:
  assumes "exec c s = Some s1" "later s1 s2" "token c' = Some f" "f \<le> fence s"
  shows "exec c' s2 = None"
proof (rule ccontr)
  assume "exec c' s2 \<noteq> None"
  then obtain s3 where "exec c' s2 = Some s3" by blast
  with assms(3) have "f = fence s2" by (rule current [rotated])
  with advances [OF assms(1)] later_fence [OF assms(2)] assms(4) show False by linarith
qed

end

section \<open>One transition\<close>

definition fence_of :: "db \<Rightarrow> string \<Rightarrow> int" where
  "fence_of d tid = (case map_of (db_reservations d) tid of None \<Rightarrow> 0 | Some r \<Rightarrow> rv_fence r)"

definition held :: "db \<Rightarrow> string \<Rightarrow> bool" where
  "held d tid \<longleftrightarrow> (\<exists>r. map_of (db_reservations d) tid = Some r \<and> rv_active_id r \<noteq> [])"

lemma rejectActiveReservation_held: "rejectActiveReservation tid d = None \<longleftrightarrow> \<not> held d tid"
  by (auto simp: rejectActiveReservation_def held_def split: option.splits)

text \<open>\<open>moved op tid row d d'\<close>: a transition wrote \<open>row\<close> for the task, with the next fence,
  and logged itself; nothing outside the ledger changed.\<close>

definition moved :: "string \<Rightarrow> string \<Rightarrow> reservation_row \<Rightarrow> db \<Rightarrow> db \<Rightarrow> bool" where
  "moved op tid row d d' \<longleftrightarrow>
     map_of (db_reservations d') = (map_of (db_reservations d))(tid \<mapsto> row)
     \<and> (tb_ok (db_reservations d) \<longrightarrow> tb_ok (db_reservations d'))
     \<and> rv_fence row = fence_of d tid + 1 \<and> fence_of d tid \<noteq> MaxInt64 \<and> reservation_check row
     \<and> (\<exists>ev. db_res_events d' = db_res_events d @ [ev] \<and> re_task_id ev = tid \<and> re_fence ev = rv_fence row
          \<and> re_operation ev = op)
     \<and> (\<exists>rs evs sv. d' = d\<lparr>db_reservations := rs, db_res_events := evs, db_res_services := sv\<rparr>)"

lemma moved_fence: "moved op tid row d d' \<Longrightarrow> fence_of d' i = (if i = tid then fence_of d i + 1 else fence_of d i)"
  by (auto simp: moved_def fence_of_def)

lemma moved_only: "moved op tid row d d' \<Longrightarrow>
    \<exists>rs evs sv. d' = d\<lparr>db_reservations := rs, db_res_events := evs, db_res_services := sv\<rparr>"
  by (simp add: moved_def)

lemma readTaskReservation_fence [simp]: "rs_Fence (readTaskReservation tid rv d) = fence_of d tid"
  by (simp add: readTaskReservation_def fence_of_def split: option.splits)

lemma readTaskReservation_TaskID [simp]: "rs_TaskID (readTaskReservation tid rv d) = tid"
  by (simp add: readTaskReservation_def split: option.splits)

lemma readTaskReservation_held: "rs_ID (readTaskReservation tid rv d) \<noteq> [] \<longleftrightarrow> held d tid"
  by (auto simp: readTaskReservation_def held_def split: option.splits)

lemma readTaskReservation_Some:
  "map_of (db_reservations d) tid = Some r \<Longrightarrow>
    rs_ID (readTaskReservation tid rv d) = rv_active_id r \<and> rs_Holder (readTaskReservation tid rv d) = rv_holder r
    \<and> rs_Binding (readTaskReservation tid rv d) = rv_bound r"
  by (simp add: readTaskReservation_def)

definition row_of :: "TaskReservation \<Rightarrow> reservation_row" where
  "row_of r = \<lparr>rv_fence = rs_Fence r + 1, rv_active_id = rs_ID r, rv_holder = rs_Holder r, rv_bound = rs_Binding r,
     rv_intended = (if rs_ID r = [] then no_worker else
       (case rs_IntendedWorker r of None \<Rightarrow> no_worker | Some w \<Rightarrow> w))\<rparr>"

lemma advanceReservation_D:
  assumes "advanceReservation r d = Inr (r', d')"
  shows "d' = d\<lparr>db_reservations := AList.update (rs_TaskID r) (row_of r) (db_reservations d)\<rparr>"
    and "rs_Fence r \<noteq> MaxInt64" and "reservation_check (row_of r)"
    and "rs_Fence r' = rs_Fence r + 1" and "rs_ID r' = rs_ID r" and "rs_TaskID r' = rs_TaskID r"
    and "rs_Binding r' = rs_Binding r" and "rs_Holder r' = rs_Holder r"
  using assms by (auto simp: advanceReservation_def Let_def row_of_def split: if_splits)

lemma trackServiceReservation_only:
  "trackServiceReservation e before after cb d = Inr d' \<Longrightarrow> \<exists>sv. d' = d\<lparr>db_res_services := sv\<rparr>"
  by (auto simp: trackServiceReservation_def Let_def split: if_splits option.splits intro: exI [of _ "db_res_services d"])

lemma advance_and_log:
  assumes a: "advanceReservation r d = Inr (r', d1)"
    and t: "trackServiceReservation e before r' cb (append_res_event (rs_TaskID r') (rs_Fence r') op body d1) = Inr d'"
    and f: "rs_Fence r = fence_of d (rs_TaskID r)"
  shows "moved op (rs_TaskID r) (row_of r) d d'"
proof -
  note A = advanceReservation_D [OF a]
  from trackServiceReservation_only [OF t] obtain sv where
    "d' = (append_res_event (rs_TaskID r') (rs_Fence r') op body d1)\<lparr>db_res_services := sv\<rparr>" by blast
  then have d': "d' = d\<lparr>db_reservations := AList.update (rs_TaskID r) (row_of r) (db_reservations d),
      db_res_events := db_res_events d @ [\<lparr>re_task_id = rs_TaskID r, re_fence = rs_Fence r + 1, re_operation = op, re_body = body\<rparr>],
      db_res_services := sv\<rparr>"
    by (simp add: append_res_event_def A)
  show ?thesis
    unfolding moved_def d' using A(2,3) f by (auto simp: row_of_def)
qed

lemma commit_transition_D:
  assumes "commit_transition e op t before r actor binding i coord deps d = Inr (out, d')"
    and "rs_Fence r = fence_of d (rs_TaskID r)"
  shows "moved op (rs_TaskID r) (row_of r) d d'" and "ou_Task out = t"
    and "rs_Fence (ou_Reservation out) = fence_of d (rs_TaskID r) + 1"
    and "rs_ID (ou_Reservation out) = rs_ID r"
proof -
  from assms(1) obtain r' d1 where a: "advanceReservation r d = Inr (r', d1)"
    and t: "trackServiceReservation e before r' (holderClosedBy op)
        (recordReservationEvent op before r' actor binding i (coord_record coord) deps d1) = Inr d'"
    and out: "out = new_outcome t r' None (coord_record coord)"
    by (auto simp: commit_transition_def tx_simps split: prod.splits)
  show "moved op (rs_TaskID r) (row_of r) d d'"
    by (rule advance_and_log [OF a t [unfolded recordReservationEvent_def] assms(2)])
  show "ou_Task out = t" "rs_Fence (ou_Reservation out) = fence_of d (rs_TaskID r) + 1"
    "rs_ID (ou_Reservation out) = rs_ID r"
    using advanceReservation_D [OF a] assms(2) by (simp_all add: out new_outcome_def)
qed

section \<open>What each transition did\<close>

text \<open>A claim: the task was free, open and READY.\<close>

lemma commit_claim_D:
  assumes "commit_claim e i actor binding coord deps t (readTaskReservation (ri_TaskID i) rv d) d = Inr (out, d')"
  shows "\<not> held d (ri_TaskID i)" and "\<not> task_managed (ri_TaskID i) d" and "\<not> tc_Archived (tk_Content t)"
    and "tc_State (tk_Content t) = ''READY''"
    and "\<exists>row. moved ReservationClaim (ri_TaskID i) row d d' \<and> rv_active_id row = e_uuid e 0 \<and> rv_bound row = binding
       \<and> rv_holder row = ri_Holder i"
    and "ou_Task out = t" and "rs_Fence (ou_Reservation out) = fence_of d (ri_TaskID i) + 1"
proof -
  let ?r = "(readTaskReservation (ri_TaskID i) rv d)\<lparr>rs_ID := e_uuid e 0, rs_Holder := ri_Holder i, rs_Binding := binding,
      rs_IntendedWorker := coord_intended coord\<rparr>"
  from assms have g: "\<not> task_managed (ri_TaskID i) d"
      "rs_ID (readTaskReservation (ri_TaskID i) rv d) = []" "\<not> tc_Archived (tk_Content t)" "tc_State (tk_Content t) = ''READY''"
    and c: "commit_transition e ReservationClaim t (readTaskReservation (ri_TaskID i) rv d) ?r actor binding i coord deps d = Inr (out, d')"
    by (auto simp: commit_claim_def tx_simps)
  from commit_transition_D [OF c] have "moved ReservationClaim (ri_TaskID i) (row_of ?r) d d'" "ou_Task out = t"
    "rs_Fence (ou_Reservation out) = fence_of d (ri_TaskID i) + 1" by simp_all
  with g readTaskReservation_held show "\<not> held d (ri_TaskID i)" "\<not> task_managed (ri_TaskID i) d" "\<not> tc_Archived (tk_Content t)"
    "tc_State (tk_Content t) = ''READY''" "ou_Task out = t"
    "\<exists>row. moved ReservationClaim (ri_TaskID i) row d d' \<and> rv_active_id row = e_uuid e 0 \<and> rv_bound row = binding
       \<and> rv_holder row = ri_Holder i" "rs_Fence (ou_Reservation out) = fence_of d (ri_TaskID i) + 1"
    by (auto simp: row_of_def intro!: exI [of _ "row_of ?r"])
qed

lemma claim_tx_commit:
  "claim_tx e i actor binding coord t r d = Inr x \<Longrightarrow> commit_claim e i actor binding coord None t r d = Inr x"
  by (simp add: claim_tx_def split: if_splits)

lemmas claim_tx_D = commit_claim_D [OF claim_tx_commit]

lemma saveReservedTask_wrote:
  assumes "board_ok d" "readTask tid d = Inr t"
    and "saveReservedTask (t\<lparr>tk_Content := c, tk_Revision := tk_Revision t + 1, tk_UpdatedAt := now\<rparr>) actor d = Inr d'"
  shows "wrote (t\<lparr>tk_Content := c, tk_Revision := tk_Revision t + 1, tk_UpdatedAt := now\<rparr>) False d d'"
  using assms(3) readTask_ok [OF assms(1,2)] by (auto simp: saveReservedTask_def wrote_def in_order_def)

lemma wrote_reservations:
  "wrote t b d d' \<Longrightarrow> db_reservations d' = db_reservations d \<and> db_res_events d' = db_res_events d
    \<and> db_managed d' = db_managed d \<and> db_res_services d' = db_res_services d \<and> db_res_requests d' = db_res_requests d"
  by (drule wrote_only) auto

text \<open>An update, release or finalize: a new version of the task, then the ledger.\<close>

lemma content_tx_D:
  assumes ok: "board_ok d" and t: "readTask (ri_TaskID i) d = Inr t"
    and c: "content_tx e op i actor binding coord c t (readTaskReservation (ri_TaskID i) (tk_Revision t) d) d = Inr (out, d')"
  shows "\<exists>d1 row. wrote (ou_Task out) False d d1 \<and> moved op (ri_TaskID i) row d1 d'
     \<and> (if op = ReservationUpdate
        then rv_active_id row = rs_ID (readTaskReservation (ri_TaskID i) (tk_Revision t) d)
          \<and> rv_bound row = rs_Binding (readTaskReservation (ri_TaskID i) (tk_Revision t) d)
          \<and> rv_holder row = rs_Holder (readTaskReservation (ri_TaskID i) (tk_Revision t) d)
        else rv_active_id row = [] \<and> rv_bound row = no_binding \<and> rv_intended row = no_worker)"
    and "tk_Content (ou_Task out) = c" and "tk_ID (ou_Task out) = ri_TaskID i" and "tk_Revision (ou_Task out) = tk_Revision t + 1"
    and "rs_Fence (ou_Reservation out) = fence_of d (ri_TaskID i) + 1"
proof -
  let ?t = "t\<lparr>tk_Content := c, tk_Revision := tk_Revision t + 1, tk_UpdatedAt := e_now e 0\<rparr>"
  let ?r = "readTaskReservation (ri_TaskID i) (tk_Revision t) d"
  let ?r1 = "?r\<lparr>rs_TaskRevision := tk_Revision ?t\<rparr>"
  let ?r2 = "if op \<noteq> ReservationUpdate then ?r1\<lparr>rs_ID := [], rs_Holder := no_holder, rs_Binding := no_binding\<rparr> else ?r1"
  from c obtain d1 where s: "saveReservedTask ?t actor d = Inr d1"
    and m: "commit_transition e op ?t ?r ?r2 actor binding i coord None d1 = Inr (out, d')"
    unfolding content_tx_def Let_def by (auto simp: tx_simps)
  have w: "wrote ?t False d d1" by (rule saveReservedTask_wrote [OF ok t s])
  have f: "fence_of d1 (ri_TaskID i) = fence_of d (ri_TaskID i)"
    using wrote_reservations [OF w] by (simp add: fence_of_def)
  have "rs_Fence ?r2 = fence_of d1 (rs_TaskID ?r2)" by (simp add: f)
  note C = commit_transition_D [OF m this]
  have "rs_TaskID ?r2 = ri_TaskID i" by simp
  with C(1) have "moved op (ri_TaskID i) (row_of ?r2) d1 d'" by simp
  with w show "\<exists>d1 row. wrote (ou_Task out) False d d1 \<and> moved op (ri_TaskID i) row d1 d'
     \<and> (if op = ReservationUpdate
        then rv_active_id row = rs_ID ?r \<and> rv_bound row = rs_Binding ?r \<and> rv_holder row = rs_Holder ?r
        else rv_active_id row = [] \<and> rv_bound row = no_binding \<and> rv_intended row = no_worker)"
    unfolding C(2) by (intro exI [of _ d1] exI [of _ "row_of ?r2"]) (auto simp: row_of_def)
  show "tk_Content (ou_Task out) = c" "tk_ID (ou_Task out) = ri_TaskID i" "tk_Revision (ou_Task out) = tk_Revision t + 1"
    using readTask_ok(1) [OF ok t] by (simp_all add: C(2))
  show "rs_Fence (ou_Reservation out) = fence_of d (ri_TaskID i) + 1" using C(3) f by simp
qed

text \<open>A transfer: the offer's hold passes to the worker it named.\<close>

lemma transfer_tx_D:
  assumes "held_tx e ReservationTransfer i actor binding coord t (readTaskReservation (ri_TaskID i) rv d) d = Inr (out, d')"
  shows "\<exists>row. moved ReservationTransfer (ri_TaskID i) row d d' \<and> rv_active_id row = ri_ID i \<and> rv_bound row = binding
       \<and> rv_intended row = no_worker" and "ou_Task out = t"
    and "rs_Fence (ou_Reservation out) = fence_of d (ri_TaskID i) + 1"
proof -
  let ?h = "readTaskReservation (ri_TaskID i) rv d"
  let ?r = "?h\<lparr>rs_Holder := ri_Holder i, rs_Binding := binding, rs_IntendedWorker := None\<rparr>"
  from assms have g: "rs_ID ?h = ri_ID i"
    and c: "commit_transition e ReservationTransfer t ?h ?r actor binding i coord None d = Inr (out, d')"
    by (auto simp: held_tx_def tx_simps)
  from commit_transition_D [OF c] g
  show "\<exists>row. moved ReservationTransfer (ri_TaskID i) row d d' \<and> rv_active_id row = ri_ID i \<and> rv_bound row = binding
       \<and> rv_intended row = no_worker" "ou_Task out = t" "rs_Fence (ou_Reservation out) = fence_of d (ri_TaskID i) + 1"
    by (auto simp: row_of_def intro!: exI [of _ "row_of ?r"])
qed

lemma held_tx_guards:
  assumes "held_tx e op i actor binding coord t (readTaskReservation (ri_TaskID i) rv d) d = Inr x"
  shows "held d (ri_TaskID i)" and "rs_ID (readTaskReservation (ri_TaskID i) rv d) = ri_ID i" and "fence_of d (ri_TaskID i) = ri_Fence i"
    and "checkCoordinatedHolder op (readTaskReservation (ri_TaskID i) rv d) binding coord = None"
    and "checkEvidenceDigest e coord (evidence_list i) = None"
    and "checkProcessPin e (coord_pin coord) d = None"
  using assms readTaskReservation_held [of "ri_TaskID i" rv d] by (auto simp: held_tx_def tx_simps)

lemma held_tx_content:
  assumes "held_tx e op i actor binding coord t (readTaskReservation (ri_TaskID i) rv d) d = Inr x" "op \<noteq> ReservationTransfer"
  obtains c where "ri_Content i = Some c"
    "content_tx e op i actor binding coord c t (readTaskReservation (ri_TaskID i) rv d) d = Inr x"
  using assms by (auto simp: held_tx_def tx_simps)

lemma ApplyTaskReservation_tx_D:
  assumes "ApplyTaskReservation_tx e op i actor binding coord d = Inr x"
  obtains t where "readTask (ri_TaskID i) d = Inr t" "tk_Revision t = ri_ExpectedRevision i"
    "if op = ReservationClaim
     then claim_tx e i actor binding coord t (readTaskReservation (ri_TaskID i) (tk_Revision t) d) d = Inr x
     else held_tx e op i actor binding coord t (readTaskReservation (ri_TaskID i) (tk_Revision t) d) d = Inr x"
  using assms by (auto simp: ApplyTaskReservation_tx_def Let_def tx_simps split: if_splits)

text \<open>A recovery closes the hold, whoever held it.\<close>

lemma RecoverTaskReservation_tx_D:
  assumes ok: "board_ok d" and x: "RecoverTaskReservation_tx e op i x actor d = Inr (out, d')"
  shows "\<exists>d1 row. wrote (ou_Task out) False d d1 \<and> moved op (ri_TaskID i) row d1 d'
      \<and> rv_active_id row = [] \<and> rv_bound row = no_binding \<and> rv_intended row = no_worker"
    and "ri_Content i = Some (tk_Content (ou_Task out))" and "tk_ID (ou_Task out) = ri_TaskID i"
    and "held d (ri_TaskID i)" and "fence_of d (ri_TaskID i) = ri_Fence i"
    and "rs_Fence (ou_Reservation out) = fence_of d (ri_TaskID i) + 1"
    and "map_option (\<lambda>r. rv_bound r) (map_of (db_reservations d) (ri_TaskID i)) = map_option rr_Affected (ou_Recovery out)"
proof -
  from x obtain t c d1 r d2 where t: "readTask (ri_TaskID i) d = Inr t"
    and hold: "rs_ID (readTaskReservation (ri_TaskID i) (tk_Revision t) d) \<noteq> []"
      "rs_Fence (readTaskReservation (ri_TaskID i) (tk_Revision t) d) = ri_Fence i"
    and c: "ri_Content i = Some c"
    and s: "saveReservedTask (t\<lparr>tk_Content := c, tk_Revision := tk_Revision t + 1, tk_UpdatedAt := e_now e 0\<rparr>) actor d = Inr d1"
    and a: "advanceReservation ((readTaskReservation (ri_TaskID i) (tk_Revision t) d)\<lparr>rs_TaskRevision := tk_Revision t + 1,
        rs_ID := [], rs_Holder := no_holder, rs_Binding := no_binding\<rparr>) d1 = Inr (r, d2)"
    and tr: "trackServiceReservation e (readTaskReservation (ri_TaskID i) (tk_Revision t) d) r op
        (recordRecoveryEvent (readTaskReservation (ri_TaskID i) (tk_Revision t) d) r actor
          \<lparr>rr_Operation = op, rr_EvidenceKind = rx_Kind x, rr_EvidenceRef = rx_Ref x,
           rr_Affected = rs_Binding (readTaskReservation (ri_TaskID i) (tk_Revision t) d)\<rparr> (rx_Statement x) (ri_Reason i) d2) = Inr d'"
    and out: "out = new_outcome (t\<lparr>tk_Content := c, tk_Revision := tk_Revision t + 1, tk_UpdatedAt := e_now e 0\<rparr>) r
       (Some \<lparr>rr_Operation = op, rr_EvidenceKind = rx_Kind x, rr_EvidenceRef = rx_Ref x,
           rr_Affected = rs_Binding (readTaskReservation (ri_TaskID i) (tk_Revision t) d)\<rparr>) None"
    unfolding RecoverTaskReservation_tx_def Let_def by (auto simp: tx_simps split: prod.splits)
  have w: "wrote (ou_Task out) False d d1" using saveReservedTask_wrote [OF ok t s] by (simp add: out new_outcome_def)
  have f: "fence_of d1 (ri_TaskID i) = fence_of d (ri_TaskID i)"
    using wrote_reservations [OF w] by (simp add: fence_of_def)
  have "moved op (ri_TaskID i) (row_of ((readTaskReservation (ri_TaskID i) (tk_Revision t) d)\<lparr>rs_TaskRevision := tk_Revision t + 1,
        rs_ID := [], rs_Holder := no_holder, rs_Binding := no_binding\<rparr>)) d1 d'"
    using advance_and_log [OF a tr [unfolded recordRecoveryEvent_def, simplified]] f by simp
  with w show "\<exists>d1 row. wrote (ou_Task out) False d d1 \<and> moved op (ri_TaskID i) row d1 d'
      \<and> rv_active_id row = [] \<and> rv_bound row = no_binding \<and> rv_intended row = no_worker"
    by (intro exI conjI) (assumption | simp add: row_of_def)+
  show "ri_Content i = Some (tk_Content (ou_Task out))" "tk_ID (ou_Task out) = ri_TaskID i"
    using c readTask_ok(1) [OF ok t] by (simp_all add: out new_outcome_def)
  show "held d (ri_TaskID i)" using hold(1) readTaskReservation_held by blast
  then show "map_option (\<lambda>r. rv_bound r) (map_of (db_reservations d) (ri_TaskID i)) = map_option rr_Affected (ou_Recovery out)"
    by (auto simp: held_def out new_outcome_def readTaskReservation_Some)
  show "fence_of d (ri_TaskID i) = ri_Fence i" using hold(2) by simp
  show "rs_Fence (ou_Reservation out) = fence_of d (ri_TaskID i) + 1"
    using advanceReservation_D(4) [OF a] by (simp add: out new_outcome_def)
qed

section \<open>The receipt wrapper\<close>

lemma reservationMutation_cases:
  assumes "reservationMutation e actor binding op i key extra fn authorize d = Inr (out, d')"
  obtains (replay) who saved where "d' = d" "out = (rq_result saved)\<lparr>ou_Replayed := True\<rparr>"
      "map_of (db_res_requests d) (who, op, ri_TaskID i, key) = Some saved" "rq_digest saved = reservation_digest e i extra"
      "actingMember op (ou_Binding (rq_result saved)) binding" "authorize = Some None"
      "(if rb_Mode binding = ''recovery'' then recoveryPrincipal actor else reservationPrincipal actor) = Inr who"
  | (fresh) who res d1 t row where "TasksEnabled d" "fn d = Inr (res, d1)" "out = res\<lparr>ou_Binding := binding\<rparr>"
      "binding_validate binding = None" "authorize = Some None" "taskScopeOK d = None"
      "map_of (db_res_requests d) (who, op, ri_TaskID i, key) = None"
      "tb_insert (who, op, ri_TaskID i, key) row (db_res_requests d1) = Some t"
      "rq_result row = out" "rq_digest row = reservation_digest e i extra"
      "d' = d1\<lparr>db_res_requests := t\<rparr>"
      "(if rb_Mode binding = ''recovery'' then recoveryPrincipal actor else reservationPrincipal actor) = Inr who"
proof -
  from assms obtain auth who where b: "taskScopeOK d = None" "authorize = Some auth" "binding_validate binding = None"
    and p: "(if rb_Mode binding = ''recovery'' then recoveryPrincipal actor else reservationPrincipal actor) = Inr who"
    and r: "(case map_of (db_res_requests d) (who, op, ri_TaskID i, key) of
        Some saved \<Rightarrow>
          if rq_digest saved \<noteq> reservation_digest e i extra then Inl ErrTaskRetryConflict
          else if \<not> actingMember op (ou_Binding (rq_result saved)) binding then Inl ErrReservationHolder
          else (case auth of Some x \<Rightarrow> Inl x | None \<Rightarrow> Inr ((rq_result saved)\<lparr>ou_Replayed := True\<rparr>, d))
      | None \<Rightarrow>
          if \<not> TasksEnabled d then Inl ErrReservationTasksDisabled
          else case fn d of Inl x \<Rightarrow> Inl x | Inr (res, d1) \<Rightarrow>
          let out = res\<lparr>ou_Binding := binding\<rparr>;
              actedOn = (if op = ReservationClaim then rs_ID (ou_Reservation out) else ri_ID i);
              row = \<lparr>rq_digest = reservation_digest e i extra, rq_result = out,
                     rq_service_id = (if ou_Coordination out \<noteq> None then rb_ServiceID binding else []),
                     rq_proof_digest = (case ou_Coordination out of None \<Rightarrow> [] | Some c \<Rightarrow> cr_ProofDigest c),
                     rq_reservation_id = actedOn, rq_committed_at = e_now e 2\<rparr>
          in case tb_insert (who, op, ri_TaskID i, key) row (db_res_requests d1) of
               None \<Rightarrow> Inl ErrSQL
             | Some t \<Rightarrow> (case auth of Some x \<Rightarrow> Inl x | None \<Rightarrow> Inr (out, d1\<lparr>db_res_requests := t\<rparr>))) = Inr (out, d')"
    unfolding reservationMutation_def by (simp only: tx_simps) blast
  show ?thesis
  proof (cases "map_of (db_res_requests d) (who, op, ri_TaskID i, key)")
    case None
    from r obtain res d1 where f: "TasksEnabled d" "fn d = Inr (res, d1)"
      unfolding None by (auto simp: tx_simps)
    let ?out = "res\<lparr>ou_Binding := binding\<rparr>"
    let ?row = "\<lparr>rq_digest = reservation_digest e i extra, rq_result = ?out,
                     rq_service_id = (if ou_Coordination ?out \<noteq> None then rb_ServiceID binding else []),
                     rq_proof_digest = (case ou_Coordination ?out of None \<Rightarrow> [] | Some c \<Rightarrow> cr_ProofDigest c),
                     rq_reservation_id = (if op = ReservationClaim then rs_ID (ou_Reservation ?out) else ri_ID i),
                     rq_committed_at = e_now e 2\<rparr>"
    from r f obtain t where "tb_insert (who, op, ri_TaskID i, key) ?row (db_res_requests d1) = Some t"
      "auth = None" "out = ?out" "d' = d1\<lparr>db_res_requests := t\<rparr>"
      unfolding None Let_def by (auto simp: tx_simps split: option.splits)
    then show ?thesis using fresh [of res d1 who ?row t] f b None p by simp
  next
    case (Some saved)
    with r have "d' = d" "out = (rq_result saved)\<lparr>ou_Replayed := True\<rparr>" "rq_digest saved = reservation_digest e i extra"
      "actingMember op (ou_Binding (rq_result saved)) binding" "auth = None"
      by (auto split: if_splits option.splits)
    then show ?thesis using replay Some b p by blast
  qed
qed

section \<open>The fence, discharged\<close>

text \<open>The commands on one task's ledger entry: any member transition or recovery of it.\<close>

datatype command =
    Member env string TaskReservationInput TaskActor ReservationBinding "ReservationCoordination option"
  | Recovery env string TaskReservationInput RecoveryEvidence TaskActor

fun command_input :: "command \<Rightarrow> TaskReservationInput" where
  "command_input (Member e op i actor binding coord) = i"
| "command_input (Recovery e op i x actor) = i"

fun run_command :: "command \<Rightarrow> db \<Rightarrow> err + (TaskReservationOutcome \<times> db)" where
  "run_command (Member e op i actor binding coord) d = ApplyTaskReservation_tx e op i actor binding coord d"
| "run_command (Recovery e op i x actor) d = RecoverTaskReservation_tx e op i x actor d"

fun command_token :: "command \<Rightarrow> int option" where
  "command_token (Member e op i actor binding coord) = (if op = ReservationClaim then None else Some (ri_Fence i))"
| "command_token (Recovery e op i x actor) = Some (ri_Fence i)"

definition exec_on :: "string \<Rightarrow> command \<Rightarrow> db \<Rightarrow> db option" where
  "exec_on tid c d = (if ri_TaskID (command_input c) \<noteq> tid \<or> \<not> board_ok d then None
     else case run_command c d of Inl _ \<Rightarrow> None | Inr (_, d') \<Rightarrow> Some d')"

text \<open>Every transition of the ledger is one \<open>moved\<close>, after at most one write of the task.\<close>

lemma member_moved:
  assumes ok: "board_ok d" and a: "ApplyTaskReservation_tx e op i actor binding coord d = Inr (out, d')"
  shows "\<exists>d1 row. (d1 = d \<or> wrote (ou_Task out) False d d1 \<and> tk_ID (ou_Task out) = ri_TaskID i)
     \<and> moved op (ri_TaskID i) row d1 d'"
  using a
proof (cases rule: ApplyTaskReservation_tx_D)
  case (1 t)
  show ?thesis
  proof (cases "op = ReservationClaim")
    case True
    with 1(3) claim_tx_D(5) show ?thesis by (fastforce split: if_splits)
  next
    case False
    with 1(3) have h: "held_tx e op i actor binding coord t (readTaskReservation (ri_TaskID i) (tk_Revision t) d) d = Inr (out, d')"
      by simp
    show ?thesis
    proof (cases "op = ReservationTransfer")
      case True
      with h transfer_tx_D(1) show ?thesis by fastforce
    next
      case False
      from held_tx_content [OF h False] obtain c where
        "content_tx e op i actor binding coord c t (readTaskReservation (ri_TaskID i) (tk_Revision t) d) d = Inr (out, d')" by blast
      from content_tx_D(1,3) [OF ok 1(1) this] show ?thesis by blast
    qed
  qed
qed

lemma run_command_moved:
  assumes "board_ok d" "run_command c d = Inr (out, d')"
  shows "\<exists>d1 row op. (d1 = d \<or> wrote (ou_Task out) False d d1 \<and> tk_ID (ou_Task out) = ri_TaskID (command_input c))
     \<and> moved op (ri_TaskID (command_input c)) row d1 d'"
proof (cases c)
  case (Member e op i actor binding coord)
  with assms(2) have "ApplyTaskReservation_tx e op i actor binding coord d = Inr (out, d')" by simp
  from member_moved [OF assms(1) this] show ?thesis unfolding Member command_input.simps by blast
next
  case (Recovery e op i x actor)
  with assms(2) have "RecoverTaskReservation_tx e op i x actor d = Inr (out, d')" by simp
  from RecoverTaskReservation_tx_D(1,3) [OF assms(1) this] show ?thesis
    unfolding Recovery command_input.simps by blast
qed

lemma run_command_fence:
  assumes "board_ok d" "run_command c d = Inr (out, d')"
  shows "fence_of d' i = (if i = ri_TaskID (command_input c) then fence_of d i + 1 else fence_of d i)"
proof -
  from run_command_moved [OF assms] obtain d1 row op where
    d1: "d1 = d \<or> wrote (ou_Task out) False d d1" and m: "moved op (ri_TaskID (command_input c)) row d1 d'" by blast
  have "fence_of d1 i = fence_of d i"
    using d1 wrote_reservations by (auto simp: fence_of_def)
  with moved_fence [OF m, of i] show ?thesis by (simp split: if_splits)
qed

lemma run_command_token:
  assumes "run_command c d = Inr x" "command_token c = Some f"
  shows "f = fence_of d (ri_TaskID (command_input c))"
proof (cases c)
  case (Member e op i actor binding coord)
  with assms have a: "ApplyTaskReservation_tx e op i actor binding coord d = Inr x" and n: "op \<noteq> ReservationClaim" "f = ri_Fence i"
    by (auto split: if_splits)
  from a obtain t where "held_tx e op i actor binding coord t (readTaskReservation (ri_TaskID i) (tk_Revision t) d) d = Inr x"
  proof (cases rule: ApplyTaskReservation_tx_D)
    case (1 t)
    from 1(3) show ?thesis unfolding if_not_P [OF n(1)] by (rule that)
  qed
  from held_tx_guards(3) [OF this] show ?thesis using n Member by simp
next
  case (Recovery e op i y actor)
  with assms show ?thesis
    by (auto simp: RecoverTaskReservation_tx_def Let_def tx_simps split: if_splits)
qed

interpretation ledger: fenced "\<lambda>d. fence_of d tid" "exec_on tid" command_token for tid
proof unfold_locales
  fix c d d' f
  assume "exec_on tid c d = Some d'"
  then obtain out where o: "board_ok d" "ri_TaskID (command_input c) = tid" "run_command c d = Inr (out, d')"
    by (auto simp: exec_on_def split: if_splits sum.splits)
  then show "fence_of d' tid = fence_of d tid + 1" by (simp add: run_command_fence)
  assume "command_token c = Some f"
  with o run_command_token show "f = fence_of d tid" by blast
qed

section \<open>Ledger invariant\<close>

definition member_binding :: "ReservationBinding \<Rightarrow> bool" where
  "member_binding b \<longleftrightarrow> binding_validate b = None \<and> rb_Mode b \<noteq> ''recovery''"

definition row_ok :: "reservation_row \<Rightarrow> bool" where
  "row_ok r \<longleftrightarrow> reservation_check r \<and> rv_fence r \<le> MaxInt64
     \<and> (if rv_active_id r = [] then rv_bound r = no_binding \<and> rv_intended r = no_worker else member_binding (rv_bound r))"

definition ledger_ok :: "db \<Rightarrow> bool" where
  "ledger_ok d \<longleftrightarrow> tb_ok (db_reservations d)
     \<and> (\<forall>tid r. map_of (db_reservations d) tid = Some r \<longrightarrow> row_ok r)
     \<and> (\<forall>tid. map re_fence (filter (\<lambda>ev. re_task_id ev = tid) (db_res_events d)) = [1..fence_of d tid])"

lemma ledger_ok_cong:
  "db_reservations d' = db_reservations d \<Longrightarrow> db_res_events d' = db_res_events d \<Longrightarrow> ledger_ok d' = ledger_ok d"
  by (simp add: ledger_ok_def fence_of_def)

lemma fence_of_bounds: "ledger_ok d \<Longrightarrow> 0 \<le> fence_of d tid \<and> fence_of d tid \<le> MaxInt64"
proof (cases "map_of (db_reservations d) tid")
  case (Some r)
  moreover assume "ledger_ok d"
  ultimately have "row_ok r" unfolding ledger_ok_def by blast
  then show ?thesis using Some by (simp add: fence_of_def row_ok_def reservation_check_def)
qed (simp add: fence_of_def MaxInt64_def)

lemma moved_ledger_ok:
  assumes ok: "ledger_ok d" and m: "moved op tid row d d'"
    and row: "if rv_active_id row = [] then rv_bound row = no_binding \<and> rv_intended row = no_worker else member_binding (rv_bound row)"
  shows "ledger_ok d'"
proof -
  from m obtain ev where t: "map_of (db_reservations d') = (map_of (db_reservations d))(tid \<mapsto> row)"
    "tb_ok (db_reservations d) \<longrightarrow> tb_ok (db_reservations d')" "rv_fence row = fence_of d tid + 1" "fence_of d tid \<noteq> MaxInt64"
    "reservation_check row" "db_res_events d' = db_res_events d @ [ev]" "re_task_id ev = tid" "re_fence ev = rv_fence row"
    unfolding moved_def by blast
  have f: "fence_of d' i = (if i = tid then fence_of d i + 1 else fence_of d i)" for i by (rule moved_fence [OF m])
  have up: "[1..fence_of d tid + 1] = [1..fence_of d tid] @ [fence_of d tid + 1]"
    using fence_of_bounds [OF ok, of tid] by (simp add: upto_rec2)
  have "row_ok row" using fence_of_bounds [OF ok, of tid] t row by (auto simp: row_ok_def split: if_splits)
  moreover have "map re_fence (filter (\<lambda>ev. re_task_id ev = i) (db_res_events d')) = [1..fence_of d' i]" for i
    using ok t up unfolding ledger_ok_def f by (cases "i = tid") simp_all
  ultimately show ?thesis
    using ok t(1,2) unfolding ledger_ok_def by simp
qed

lemma wrote_ledger_ok: "wrote t b d d' \<Longrightarrow> ledger_ok d' = ledger_ok d"
  using wrote_reservations by (intro ledger_ok_cong) blast+

section \<open>A held task is open\<close>

definition task_open :: "db \<Rightarrow> string \<Rightarrow> bool" where
  "task_open d tid \<longleftrightarrow> (\<exists>r. map_of (db_tasks d) tid = Some r \<and> \<not> tr_archived r \<and> tr_state r \<noteq> ''DONE'' \<and> tr_state r \<noteq> ''CANCELLED'')"

definition holds_ok :: "db \<Rightarrow> bool" where
  "holds_ok d \<longleftrightarrow> (\<forall>tid. held d tid \<longrightarrow> task_open d tid \<and> \<not> task_managed tid d)"

lemma holds_ok_cong:
  "db_tasks d' = db_tasks d \<Longrightarrow> db_reservations d' = db_reservations d \<Longrightarrow> db_managed d' = db_managed d \<Longrightarrow> holds_ok d' = holds_ok d"
  by (simp add: holds_ok_def held_def task_open_def task_managed_def)

lemma content_validate_archived:
  "content_validate e c = None \<Longrightarrow> tc_Archived c \<Longrightarrow> tc_State c = ''DONE'' \<or> tc_State c = ''CANCELLED''"
  by (auto simp: content_validate_def split: if_splits)

lemma held_cong: "db_reservations d' = db_reservations d \<Longrightarrow> held d' tid = held d tid"
  by (simp add: held_def)

lemma moved_held: "moved op tid row d d' \<Longrightarrow> held d' i = (if i = tid then rv_active_id row \<noteq> [] else held d i)"
  by (auto simp: moved_def held_def)

lemma moved_frame: "moved op tid row d d' \<Longrightarrow> db_tasks d' = db_tasks d \<and> db_managed d' = db_managed d
    \<and> db_history d' = db_history d \<and> db_state_changes d' = db_state_changes d \<and> db_res_requests d' = db_res_requests d"
  by (drule moved_only) auto

lemma task_open_readTask:
  assumes "board_ok d" "readTask tid d = Inr t"
  shows "task_open d tid \<longleftrightarrow> \<not> tc_Archived (tk_Content t) \<and> tc_State (tk_Content t) \<noteq> ''DONE'' \<and> tc_State (tk_Content t) \<noteq> ''CANCELLED''"
proof -
  from readTask_D [OF assms(2)] obtain r where r: "map_of (db_tasks d) tid = Some r" "tk_Content t = tk_Content (tr_body r)" by blast
  from board_okD(4) [OF assms(1) r(1)] have "tr_archived r = tc_Archived (tk_Content t)" "tr_state r = tc_State (tk_Content t)"
    unfolding r(2) by (metis task_columns_def task_row.select_convs(1,2))+
  with r(1) show ?thesis by (simp add: task_open_def)
qed

lemma wrote_task_open:
  assumes "wrote t b d d'"
  shows "task_open d' i \<longleftrightarrow> (if i = tk_ID t
    then \<not> tc_Archived (tk_Content t) \<and> tc_State (tk_Content t) \<noteq> ''DONE'' \<and> tc_State (tk_Content t) \<noteq> ''CANCELLED''
    else task_open d i)"
  using wrote_state(3) [OF assms] by (auto simp: task_open_def task_columns_def)

text \<open>A write of a task no one holds cannot touch a held one.\<close>

lemma wrote_unheld_holds_ok:
  assumes "wrote t b d d'" "holds_ok d" "\<not> held d (tk_ID t)"
  shows "holds_ok d'"
  unfolding holds_ok_def
proof (intro allI impI)
  fix i assume "held d' i"
  then have h: "held d i" using wrote_reservations [OF assms(1)] held_cong by blast
  with assms(3) have "i \<noteq> tk_ID t" by auto
  with h assms(2) wrote_task_open [OF assms(1), of i] wrote_reservations [OF assms(1)]
  show "task_open d' i \<and> \<not> task_managed i d'" by (simp add: holds_ok_def task_managed_def)
qed

lemma wrote_then_moved_holds_ok:
  assumes "holds_ok d" and d1: "d1 = d \<or> wrote t False d d1 \<and> tk_ID t = tid" and m: "moved op tid row d1 d'"
    and new: "rv_active_id row \<noteq> [] \<Longrightarrow> task_open d1 tid \<and> \<not> task_managed tid d1"
  shows "holds_ok d'"
  unfolding holds_ok_def
proof (intro allI impI)
  fix i assume h: "held d' i"
  have fr: "db_tasks d' = db_tasks d1" "db_managed d' = db_managed d1" using moved_frame [OF m] by auto
  have "task_open d1 i \<and> \<not> task_managed i d1"
  proof (cases "i = tid")
    case True
    with h moved_held [OF m, of i] new show ?thesis by simp
  next
    case False
    then have "held d1 i" using h moved_held [OF m, of i] by simp
    then have "held d i" using d1 wrote_reservations held_cong by blast
    then have "task_open d i \<and> \<not> task_managed i d" using assms(1) by (simp add: holds_ok_def)
    then show ?thesis using d1 False wrote_task_open wrote_reservations by (auto simp: task_managed_def)
  qed
  then show "task_open d' i \<and> \<not> task_managed i d'" by (simp add: task_open_def task_managed_def fr)
qed

text \<open>What a new member transition kept and required, by operation.\<close>

definition ledger_inv :: "db \<Rightarrow> bool" where
  "ledger_inv d \<longleftrightarrow> task_board_ok d \<and> ledger_ok d \<and> holds_ok d"

lemma ledger_inv_res_requests [simp]: "ledger_inv (d\<lparr>db_res_requests := t\<rparr>) = ledger_inv d"
  unfolding ledger_inv_def using task_board_ok_cong [of "d\<lparr>db_res_requests := t\<rparr>" d] ledger_ok_cong [of "d\<lparr>db_res_requests := t\<rparr>" d]
    holds_ok_cong [of "d\<lparr>db_res_requests := t\<rparr>" d] by simp

lemma ledger_inv_requests [simp]: "ledger_inv (d\<lparr>db_requests := t\<rparr>) = ledger_inv d"
  unfolding ledger_inv_def using task_board_ok_cong [of "d\<lparr>db_requests := t\<rparr>" d] ledger_ok_cong [of "d\<lparr>db_requests := t\<rparr>" d]
    holds_ok_cong [of "d\<lparr>db_requests := t\<rparr>" d] by simp

lemma moved_task_board_ok: "moved op tid row d d' \<Longrightarrow> task_board_ok d' = task_board_ok d"
  using moved_frame by (intro task_board_ok_cong) blast+

lemma ledger_inv_step:
  assumes inv: "ledger_inv d" and d1: "d1 = d \<or> wrote t False d d1 \<and> tk_ID t = tid" and m: "moved op tid row d1 d'"
    and row: "if rv_active_id row = [] then rv_bound row = no_binding \<and> rv_intended row = no_worker else member_binding (rv_bound row)"
    and new: "rv_active_id row \<noteq> [] \<Longrightarrow> task_open d1 tid \<and> \<not> task_managed tid d1"
  shows "ledger_inv d'"
proof -
  have b1: "task_board_ok d1" "ledger_ok d1" using inv d1 wrote_ok wrote_ledger_ok by (auto simp: ledger_inv_def)
  have h: "holds_ok d" using inv by (simp add: ledger_inv_def)
  show ?thesis
    unfolding ledger_inv_def moved_task_board_ok [OF m]
    using b1 moved_ledger_ok [OF b1(2) m row] wrote_then_moved_holds_ok [OF h d1 m new] by simp
qed

lemma held_row:
  assumes "ledger_ok d" "held d tid"
  shows "rs_ID (readTaskReservation tid rv d) \<noteq> []" and "member_binding (rs_Binding (readTaskReservation tid rv d))"
proof -
  from assms(2) obtain r where r: "map_of (db_reservations d) tid = Some r" "rv_active_id r \<noteq> []" by (auto simp: held_def)
  with assms(1) have "row_ok r" unfolding ledger_ok_def by blast
  with r readTaskReservation_Some [OF r(1)] show "rs_ID (readTaskReservation tid rv d) \<noteq> []"
    "member_binding (rs_Binding (readTaskReservation tid rv d))" by (auto simp: row_ok_def)
qed

lemma commit_claim_inv:
  assumes inv: "ledger_inv d" and v: "validateReservationInput e ReservationClaim i = None" and b: "member_binding binding"
    and t: "readTask (ri_TaskID i) d = Inr t"
    and c: "commit_claim e i actor binding coord deps t (readTaskReservation (ri_TaskID i) rv d) d = Inr (out, d')"
  shows "ledger_inv d'"
proof -
  have ok: "board_ok d" using inv by (simp add: ledger_inv_def task_board_ok_def)
  note C = commit_claim_D [OF c]
  from C(5) obtain row where m: "moved ReservationClaim (ri_TaskID i) row d d'" and r: "rv_bound row = binding"
    and h: "rv_holder row = ri_Holder i" by blast
  have "taskText (ho_Mode (ri_Holder i)) 64 True = None"
    using v by (simp add: validateReservationInput_def split: if_splits)
  then have "ho_Mode (rv_holder row) \<noteq> []" using taskText_required h by fastforce
  moreover have "reservation_check row" using m by (simp add: moved_def)
  ultimately have r': "rv_active_id row \<noteq> []" by (auto simp: reservation_check_def)
  have "task_open d (ri_TaskID i)" using task_open_readTask [OF ok t] C(3,4) by simp
  with C(2) m r b r' show ?thesis by (intro ledger_inv_step [OF inv _ m]) auto
qed

lemma member_tx_inv:
  assumes inv: "ledger_inv d" and v: "validateReservationInput e op i = None" and b: "member_binding binding"
    and a: "ApplyTaskReservation_tx e op i actor binding coord d = Inr (out, d')"
  shows "ledger_inv d'"
proof -
  have ok: "board_ok d" "ledger_ok d" "holds_ok d" using inv by (auto simp: ledger_inv_def task_board_ok_def)
  from a show ?thesis
  proof (cases rule: ApplyTaskReservation_tx_D)
    case (1 t)
    show ?thesis
    proof (cases "op = ReservationClaim")
      case True
      with 1(3) have "claim_tx e i actor binding coord t (readTaskReservation (ri_TaskID i) (tk_Revision t) d) d = Inr (out, d')" by simp
      from commit_claim_inv [OF inv v [unfolded True] b 1(1) claim_tx_commit [OF this]] show ?thesis .
    next
      case False
      with 1(3) have h: "held_tx e op i actor binding coord t (readTaskReservation (ri_TaskID i) (tk_Revision t) d) d = Inr (out, d')"
        by simp
      from held_tx_guards(1) [OF h] have hd: "held d (ri_TaskID i)" .
      with ok(3) have op: "task_open d (ri_TaskID i)" "\<not> task_managed (ri_TaskID i) d" by (auto simp: holds_ok_def)
      show ?thesis
      proof (cases "op = ReservationTransfer")
        case True
        with h transfer_tx_D(1) obtain row where m: "moved ReservationTransfer (ri_TaskID i) row d d'"
          "rv_active_id row = ri_ID i" "rv_bound row = binding" by blast
        have "ri_ID i \<noteq> []" using held_tx_guards(2) [OF h] held_row(1) [OF ok(2) hd] by metis
        with m b op show ?thesis by (intro ledger_inv_step [OF inv _ m(1)]) auto
      next
        case False
        from held_tx_content [OF h False] obtain c where c: "ri_Content i = Some c"
          "content_tx e op i actor binding coord c t (readTaskReservation (ri_TaskID i) (tk_Revision t) d) d = Inr (out, d')" by blast
        note C = content_tx_D [OF ok(1) 1(1) c(2)]
        from C(1) obtain d1 row where w: "wrote (ou_Task out) False d d1" and m: "moved op (ri_TaskID i) row d1 d'"
          and u: "if op = ReservationUpdate
            then rv_active_id row = rs_ID (readTaskReservation (ri_TaskID i) (tk_Revision t) d)
              \<and> rv_bound row = rs_Binding (readTaskReservation (ri_TaskID i) (tk_Revision t) d)
            else rv_active_id row = [] \<and> rv_bound row = no_binding \<and> rv_intended row = no_worker"
          by (auto split: if_splits)
        have vc: "content_validate e c = None" "op = ReservationUpdate \<longrightarrow> tc_State c \<noteq> ''DONE'' \<and> tc_State c \<noteq> ''CANCELLED''"
          using v c(1) unfolding validateReservationInput_def
          by (auto simp: takes_content_def content_state_def reservation_ops split: if_splits)
        have "task_open d1 (ri_TaskID i)" if "op = ReservationUpdate"
          using wrote_task_open [OF w, of "ri_TaskID i"] C(2,3) vc that content_validate_archived by auto
        moreover have "\<not> task_managed (ri_TaskID i) d1"
          using op(2) wrote_reservations [OF w] by (simp add: task_managed_def)
        ultimately show ?thesis
          using u held_row [OF ok(2) hd] w C(3)
          by (intro ledger_inv_step [OF inv _ m]) (auto split: if_splits)
      qed
    qed
  qed
qed

lemma ApplyTaskReservation_D:
  assumes "ApplyTaskReservation e op i actor binding key coord authorize d = Inr (out, d')"
  shows "validateReservationInput e op i = None" and "rb_Mode binding \<noteq> ''recovery''"
    and "\<And>c. coord = Some c \<Longrightarrow> coordination_validate c op = None"
    and "reservationMutation e actor binding op i key None (ApplyTaskReservation_tx e op i actor binding coord) authorize d = Inr (out, d')"
  using assms by (auto simp: ApplyTaskReservation_def tx_simps split: option.splits)

lemma ApplyTaskReservation_inv:
  assumes "ApplyTaskReservation e op i actor binding key coord authorize d = Inr (out, d')" "ledger_inv d"
  shows "ledger_inv d'"
proof -
  note A = ApplyTaskReservation_D [OF assms(1)]
  from A(4) show ?thesis
  proof (cases rule: reservationMutation_cases)
    case replay
    with assms(2) show ?thesis by simp
  next
    case (fresh who res d1 t row)
    have "member_binding binding" using A(2) fresh(4) by (simp add: member_binding_def)
    from member_tx_inv [OF assms(2) A(1) this fresh(2)] show ?thesis by (simp add: fresh(11))
  qed
qed

lemma RecoverTaskReservation_D:
  assumes "RecoverTaskReservation e op i x actor key authorize d = Inr (out, d')"
  shows "validateRecovery e op i x actor = None"
    and "reservationMutation e actor (no_binding\<lparr>rb_UserID := ac_Name actor, rb_Mode := ''recovery''\<rparr>) op i key
        (Some (json_evidence x)) (RecoverTaskReservation_tx e op i x actor) authorize d = Inr (out, d')"
  using assms by (auto simp: RecoverTaskReservation_def tx_simps)

lemma RecoverTaskReservation_inv:
  assumes "RecoverTaskReservation e op i x actor key authorize d = Inr (out, d')" "ledger_inv d"
  shows "ledger_inv d'"
  using RecoverTaskReservation_D(2) [OF assms(1)]
proof (cases rule: reservationMutation_cases)
  case replay
  with assms(2) show ?thesis by simp
next
  case (fresh who res d1 t row)
  have ok: "board_ok d" using assms(2) by (simp add: ledger_inv_def task_board_ok_def)
  note R = RecoverTaskReservation_tx_D [OF ok fresh(2)]
  from R(1) obtain d2 row' where "wrote (ou_Task res) False d d2" "moved op (ri_TaskID i) row' d2 d1"
    "rv_active_id row' = []" "rv_bound row' = no_binding" "rv_intended row' = no_worker" by blast
  with R(3) have "ledger_inv d1" by (intro ledger_inv_step [OF assms(2) _ \<open>moved op (ri_TaskID i) row' d2 d1\<close>]) auto
  then show ?thesis by (simp add: fresh(11))
qed

text \<open>The board's own writes, against the ledger.\<close>

lemma wrote_ledger_inv:
  assumes "wrote t b d d'" "ledger_inv d" "\<not> held d (tk_ID t)"
  shows "ledger_inv d'"
  using assms wrote_ok wrote_ledger_ok wrote_unheld_holds_ok unfolding ledger_inv_def by blast

lemma wrote_create_unheld:
  assumes "ledger_inv d" "map_of (db_tasks d) (tk_ID t) = None"
  shows "\<not> held d (tk_ID t)"
  using assms by (auto simp: ledger_inv_def holds_ok_def task_open_def)

lemma ledger_inv_comments [simp]: "ledger_inv (d\<lparr>db_comments := t\<rparr>) = ledger_inv d"
  unfolding ledger_inv_def using task_board_ok_cong [of "d\<lparr>db_comments := t\<rparr>" d] ledger_ok_cong [of "d\<lparr>db_comments := t\<rparr>" d]
    holds_ok_cong [of "d\<lparr>db_comments := t\<rparr>" d] by simp

lemma CreateTask_inv:
  assumes "CreateTask e c actor key d = Inr (t, d')" "ledger_inv d"
  shows "ledger_inv d'"
proof -
  have "ledger_inv d1" if "CreateTask_tx e c' actor d = Inr (t, d1)" for c' d1
    using wrote_ledger_inv [OF CreateTask_txD(1) [OF that] assms(2)]
      wrote_create_unheld [OF assms(2) CreateTask_txD(5) [OF that]] by blast
  with assms show ?thesis
    by (auto simp: CreateTask_def Let_def tx_simps taskMutation_def elim!: checkedTaskMutation_keeps [where P = ledger_inv])
qed

lemma UpdateTask_inv:
  assumes "UpdateTask e tid c expected actor key d = Inr (t, d')" "ledger_inv d"
  shows "ledger_inv d'"
proof -
  have ok: "board_ok d" using assms(2) by (simp add: ledger_inv_def task_board_ok_def)
  have "ledger_inv d1" if "UpdateTask_tx e tid c expected actor d = Inr (t, d1)" for d1
    using wrote_ledger_inv [OF UpdateTask_txD(1) [OF ok that] assms(2)] UpdateTask_txD(2,6) [OF ok that]
    by (simp add: rejectActiveReservation_held)
  with assms show ?thesis
    by (auto simp: UpdateTask_def Let_def tx_simps elim!: checkedTaskMutation_keeps [where P = ledger_inv])
qed

lemma TriageTask_inv:
  assumes "TriageTask e tid p expected actor key d = Inr (t, d')" "ledger_inv d"
  shows "ledger_inv d'"
proof -
  have ok: "board_ok d" using assms(2) by (simp add: ledger_inv_def task_board_ok_def)
  have "ledger_inv d1" if "TriageTask_tx e tid p expected actor d = Inr (t, d1)" for d1
    using wrote_ledger_inv [OF TriageTask_txD(1) [OF ok that] assms(2)] TriageTask_txD(2,5) [OF ok that]
    by (simp add: rejectActiveReservation_held)
  with assms show ?thesis
    by (auto simp: TriageTask_def Let_def tx_simps elim!: checkedTaskMutation_keeps [where P = ledger_inv])
qed

lemma addTaskComment_inv:
  assumes "addTaskComment e tid body actor key check d = Inr (c, d')" "ledger_inv d"
  shows "ledger_inv d'"
  using assms by (auto simp: addTaskComment_def Let_def tx_simps dest!: addTaskComment_txD(1)
    elim!: checkedTaskMutation_keeps [where P = ledger_inv])

end
