(* ===== verification/ExamplesBoard.thy ===== *)
theory ExamplesBoard
  imports Ledger
begin

text \<open>
  A concrete run of the board and of the ledger: a task is created, updated, claimed and
  finished. The states and the calls between them are evaluated here once, and the
  properties are applied to them.
\<close>

section \<open>The world of the run\<close>

definition mk_id :: "char \<Rightarrow> string" where
  "mk_id c = ''0190aaaa-bbbb-7ccc-8ddd-eeeeeeeeeee'' @ [c]"

lemma is_id_mk_id: "hexdigit (of_char c) \<Longrightarrow> is_id (mk_id c)"
proof -
  assume h: "hexdigit (of_char c)"
  then have "(of_char c :: nat) < 128" by (auto simp: hexdigit_def digit_def rng_def)
  then have a: "ascii (mk_id c)" by (simp add: mk_id_def ascii_def)
  show ?thesis
    using h by (simp add: is_id_ascii [OF a]) (simp add: mk_id_def id_shape_def numeral_eq_Suc hexdigit_def digit_def rng_def one_of_def)
qed

definition ex_id :: "nat \<Rightarrow> string" where
  "ex_id n = mk_id (char_of (48 + n mod 10))"

lemma ex_id_inject [simp]: "ex_id m = ex_id n \<longleftrightarrow> m mod 10 = n mod 10"
proof
  assume "ex_id m = ex_id n"
  then have "(of_char (char_of (48 + m mod 10)) :: nat) = of_char (char_of (48 + n mod 10))" by (simp add: ex_id_def mk_id_def)
  then show "m mod 10 = n mod 10" by simp
qed (simp add: ex_id_def)

definition ex_env :: "nat \<Rightarrow> env" where
  "ex_env n = \<lparr>e_now = (\<lambda>_. ''t''), e_uuid = (\<lambda>_. ex_id n), e_sha = id, e_sha64 = id, e_isPrint = (\<lambda>_. True),
     e_url = (\<lambda>_. None), e_parseTime = (\<lambda>_. None), e_parsePin = (\<lambda>_. None)\<rparr>"

lemma ex_env_sel [simp]: "e_now (ex_env n) k = ''t''" "e_uuid (ex_env n) k = ex_id n" "e_sha (ex_env n) = id"
  "e_sha64 (ex_env n) = id" "e_isPrint (ex_env n) = (\<lambda>_. True)" "e_url (ex_env n) = (\<lambda>_. None)"
  "e_parseTime (ex_env n) = (\<lambda>_. None)" "e_parsePin (ex_env n) = (\<lambda>_. None)"
  by (simp_all add: ex_env_def)

definition ex_user :: TaskActor where
  "ex_user = \<lparr>ac_Kind = ''user'', ac_UserID = mk_id CHR ''a'',
     ac_TokenID = mk_id CHR ''c'', ac_Name = ''ann''\<rparr>"

lemma is_id_literals [simp]: "is_id (mk_id CHR ''a'')" "is_id (mk_id CHR ''b'')" "is_id (mk_id CHR ''c'')" "is_id (mk_id CHR ''d'')"
  by (rule is_id_mk_id, simp add: hexdigit_def digit_def rng_def)+

lemma is_id_ex_id [simp]: "is_id (ex_id n)"
  unfolding ex_id_def by (rule is_id_mk_id) (auto simp: hexdigit_def digit_def rng_def)

lemma ex_id_nonempty [simp]: "ex_id n \<noteq> []" "[] \<noteq> ex_id n"
  by (simp_all add: ex_id_def mk_id_def)

lemma ex_texts [simp]: "taskText ''ann'' maxTaskActorName True = None" "taskText ''build'' MaxTaskTitleBytes True = None"
  "taskText ''r1'' MaxTaskKeyBytes True = None" "taskText ''r2'' MaxTaskKeyBytes True = None" "taskText ''r3'' MaxTaskKeyBytes True = None"
  "taskText ''r4'' MaxTaskKeyBytes True = None"
  by (rule taskText_plain; simp add: plain_def maxTaskActorName_def MaxTaskTitleBytes_def MaxTaskKeyBytes_def)+

definition ex_user_key :: string where "ex_user_key = ''user/'' @ ac_UserID ex_user @ ''/'' @ ac_TokenID ex_user"

lemma ex_user_key [simp]: "actor_key ex_user = Inr ex_user_key"
  by (simp add: actor_key_def ex_user_def ex_user_key_def is_id_literals)

section \<open>Content\<close>

definition ex_content :: TaskContent where
  "ex_content = \<lparr>tc_Title = ''build'', tc_Objective = [], tc_AcceptanceCriteria = [], tc_NonGoals = [], tc_State = ''READY'',
     tc_Assignee = None, tc_Blocker = [], tc_Dependencies = [], tc_CandidateRefs = [], tc_EvidenceRefs = [], tc_NextAction = [],
     tc_Archived = False, tc_Epic = [], tc_RequiredCapability = []\<rparr>"

lemma ex_content_sel [simp]: "tc_State ex_content = ''READY''" "tc_Epic ex_content = []" "\<not> tc_Archived ex_content"
  "tc_Dependencies ex_content = []" "tc_Assignee ex_content = None" "tc_Blocker ex_content = []"
  by (simp_all add: ex_content_def)

lemma ex_content_ok [simp]: "content_validate e ex_content = None"
  "content_validate e (ex_content\<lparr>tc_State := ''DONE''\<rparr>) = None"
  "content_validate e (ex_content\<lparr>tc_State := ''IN_PROGRESS''\<rparr>) = None"
  by (simp_all add: content_validate_def ex_content_def validTaskState_def TaskStates_def validateRefs_def
      json_content_def json_content_fields_def fld_def fld_ptr_opt_def fld_str_opt_def marshal_string_def go_units_ascii
      ascii_def marshal_unit_def MaxTaskBytes_def)

lemma ex_default_state [simp]: "default_state ex_content = ex_content"
  by (simp add: default_state_def)

section \<open>An empty board\<close>

definition db0 :: db where
  "db0 = \<lparr>db_projectID = ''p'', db_meta = [(''tasks'', ''on'')], db_tasks = [], db_history = [], db_comments = [], db_requests = [],
    db_epics = [], db_epic_history = [], db_state_changes = [], db_reservations = [], db_res_events = [], db_res_requests = [],
    db_res_services = [], db_teams = [], db_team_events = [], db_sessions = [], db_control = [], db_messages = [],
    db_deliveries = [], db_managed = [], db_assignments = []\<rparr>"

lemma db0_sel [simp]: "db_projectID db0 = ''p''" "db_meta db0 = [(''tasks'', ''on'')]" "db_tasks db0 = []" "db_history db0 = []"
  "db_comments db0 = []" "db_requests db0 = []" "db_epics db0 = []" "db_epic_history db0 = []" "db_state_changes db0 = []"
  "db_reservations db0 = []" "db_res_events db0 = []" "db_res_requests db0 = []" "db_res_services db0 = []"
  "db_teams db0 = []" "db_team_events db0 = []" "db_sessions db0 = []" "db_control db0 = []" "db_messages db0 = []"
  "db_deliveries db0 = []" "db_managed db0 = []" "db_assignments db0 = []"
  by (simp_all add: db0_def)

lemma db0_inv: "ledger_inv db0"
  by (auto simp: ledger_inv_def task_board_ok_def board_ok_def feed_ok_def feed_rows_def ledger_ok_def holds_ok_def held_def
      fence_of_def history_complete_def task_revision_def)

lemma db0_scope [simp]: "taskScopeOK db0 = None"
  by (simp add: taskScopeOK_def IsReservedProject_def UserScopeProject_def)

section \<open>A task is created\<close>

definition ex_task :: Task where
  "ex_task = \<lparr>tk_ID = ex_id 0, tk_Revision = 1, tk_Coordination = None, tk_Content = ex_content,
     tk_CreatedAt = ''t'', tk_UpdatedAt = ''t''\<rparr>"

lemma ex_task_sel [simp]: "tk_ID ex_task = ex_id 0" "tk_Revision ex_task = 1" "tk_Coordination ex_task = None"
  "tk_Content ex_task = ex_content" "tk_CreatedAt ex_task = ''t''" "tk_UpdatedAt ex_task = ''t''"
  by (simp_all add: ex_task_def)

definition db1 :: db where
  "db1 = db0\<lparr>db_tasks := [(ex_id 0, task_columns ex_task)],
     db_history := [((ex_id 0, 1), \<lparr>ch_Task = ex_task, ch_Actor = ex_user\<rparr>)],
     db_state_changes := [\<lparr>sc_Sequence = 1, sc_TaskID = ex_id 0, sc_Revision = 1, sc_From = [], sc_To = ''READY'', sc_At = ''t'', sc_RequiredCapability = []\<rparr>],
     db_requests := [((ex_user_key, ''create'', [], ''r1''), (receiptDigest id (json_content ex_content), RTask ex_task))]\<rparr>"

lemma db1_sel [simp]: "db_projectID db1 = ''p''" "db_meta db1 = [(''tasks'', ''on'')]" "db_tasks db1 = [(ex_id 0, task_columns ex_task)]"
  "db_history db1 = [((ex_id 0, 1), \<lparr>ch_Task = ex_task, ch_Actor = ex_user\<rparr>)]"
  "db_comments db1 = []" "db_state_changes db1 = [\<lparr>sc_Sequence = 1, sc_TaskID = ex_id 0, sc_Revision = 1, sc_From = [], sc_To = ''READY'', sc_At = ''t'', sc_RequiredCapability = []\<rparr>]"
  "db_requests db1 = [((ex_user_key, ''create'', [], ''r1''), (receiptDigest id (json_content ex_content), RTask ex_task))]"
  "db_epics db1 = []" "db_reservations db1 = []" "db_res_events db1 = []" "db_res_requests db1 = []" "db_res_services db1 = []"
  "db_teams db1 = []" "db_team_events db1 = []" "db_sessions db1 = []" "db_control db1 = []" "db_messages db1 = []"
  "db_deliveries db1 = []" "db_managed db1 = []" "db_assignments db1 = []"
  by (simp_all add: db1_def)

lemma db1_scope [simp]: "taskScopeOK db1 = None"
  by (simp add: taskScopeOK_def IsReservedProject_def UserScopeProject_def)

lemma ex_task_stored [simp]: "ex_task\<lparr>tk_Coordination := None\<rparr> = ex_task"
  by (simp add: ex_task_def)

lemma ex_create: "CreateTask (ex_env 0) ex_content ex_user ''r1'' db0 = Inr (ex_task, db1)"
proof -
  have t: "\<lparr>tk_ID = ex_id 0, tk_Revision = 1, tk_Coordination = None, tk_Content = ex_content, tk_CreatedAt = ''t'', tk_UpdatedAt = ''t''\<rparr> = ex_task"
    by (simp add: ex_task_def)
  show ?thesis
    by (simp add: CreateTask_def taskMutation_def checkedTaskMutation_def CreateTask_tx_def checkEpicAssignable_def saveTask_def
        writeTask_def Let_def tb_insert_def recordStateChange_def createRetry_def t db1_def)
qed

lemma db1_inv: "ledger_inv db1"
  by (rule CreateTask_inv [OF ex_create db0_inv])

lemma db1_readTask: "readTask (ex_id 0) db1 = Inr ex_task"
  by (simp add: readTask_def coordination_of_def task_columns_def)

section \<open>It is claimed\<close>

definition ex_holder :: ReservationHolder where
  "ex_holder = \<lparr>ho_Mode = ''build'', ho_Ref = ''build''\<rparr>"

definition ex_claim :: TaskReservationInput where
  "ex_claim = \<lparr>ri_TaskID = ex_id 0, ri_ID = [], ri_Fence = 0, ri_ExpectedRevision = 1, ri_Holder = ex_holder, ri_Content = None,
     ri_Reason = [], ri_TerminalEvidence = None, ri_Intent = []\<rparr>"

definition ex_binding :: ReservationBinding where
  "ex_binding = no_binding\<lparr>rb_UserID := mk_id CHR ''a'', rb_Mode := ''personal''\<rparr>"

definition ex_hold :: TaskReservation where
  "ex_hold = \<lparr>rs_TaskID = ex_id 0, rs_ID = ex_id 2, rs_Fence = 1, rs_Holder = ex_holder, rs_Binding = ex_binding,
     rs_TaskRevision = 1, rs_IntendedWorker = None\<rparr>"

definition ex_free :: TaskReservation where
  "ex_free = \<lparr>rs_TaskID = ex_id 0, rs_ID = [], rs_Fence = 0, rs_Holder = no_holder, rs_Binding = no_binding,
     rs_TaskRevision = 1, rs_IntendedWorker = None\<rparr>"

definition ex_claimed :: TaskReservationOutcome where
  "ex_claimed = (new_outcome ex_task ex_hold None None)\<lparr>ou_Binding := ex_binding\<rparr>"

definition ex_who :: string where "ex_who = ''user/'' @ ac_UserID ex_user"

definition ex_hold_row :: reservation_row where
  "ex_hold_row = \<lparr>rv_fence = 1, rv_active_id = ex_id 2, rv_holder = ex_holder, rv_bound = ex_binding, rv_intended = no_worker\<rparr>"

definition ex_claim_receipt :: reservation_receipt where
  "ex_claim_receipt = \<lparr>rq_digest = reservation_digest (ex_env 2) ex_claim None, rq_result = ex_claimed, rq_service_id = [],
     rq_proof_digest = [], rq_reservation_id = ex_id 2, rq_committed_at = ''t''\<rparr>"

definition db2 :: db where
  "db2 = db1\<lparr>db_reservations := [(ex_id 0, ex_hold_row)],
     db_res_events := [\<lparr>re_task_id = ex_id 0, re_fence = 1, re_operation = ReservationClaim,
        re_body = TransitionEvent ex_free ex_hold ex_user ex_binding [] None [] None None\<rparr>],
     db_res_requests := [((ex_who, ReservationClaim, ex_id 0, ''r2''), ex_claim_receipt)]\<rparr>"

lemma ex_ledger_sel [simp]: "ri_TaskID ex_claim = ex_id 0" "ri_ID ex_claim = []" "ri_Fence ex_claim = 0" "ri_ExpectedRevision ex_claim = 1"
  "ri_Holder ex_claim = ex_holder" "ri_Content ex_claim = None" "ri_Reason ex_claim = []" "ri_TerminalEvidence ex_claim = None"
  "ri_Intent ex_claim = []" "ho_Mode ex_holder = ''build''" "ho_Ref ex_holder = ''build''"
  "rs_ID ex_free = []" "rs_Fence ex_free = 0" "rs_TaskID ex_free = ex_id 0" "rs_Binding ex_free = no_binding"
  "rs_ID ex_hold = ex_id 2" "rs_Fence ex_hold = 1" "rs_TaskID ex_hold = ex_id 0" "rs_Binding ex_hold = ex_binding"
  "rb_ServiceID ex_binding = []" "rb_Mode ex_binding = ''personal''" "rb_ServiceID no_binding = []"
  by (simp_all add: ex_claim_def ex_holder_def ex_binding_def no_binding_def ex_free_def ex_hold_def)

lemma ex_binding_ok [simp]: "binding_validate ex_binding = None"
  by (simp add: binding_validate_def ex_binding_def no_binding_def mk_id_def)

lemma ex_who [simp]: "reservationPrincipal ex_user = Inr ex_who"
  by (simp add: reservationPrincipal_def ex_who_def) (simp add: ex_user_def)

lemma ex_holder_texts [simp]: "taskText ''build'' 64 True = None" "taskText ''build'' 256 True = None" "taskText [] 4096 False = None"
  by (rule taskText_plain; simp add: plain_def)+ 

lemma ex_claim_valid [simp]: "validateReservationInput e ReservationClaim ex_claim = None"
  by (simp add: validateReservationInput_def validReservationOperation_def takes_content_def evidence_list_def)
     (simp add: reservation_ops)

lemma ex_claim_run: "ApplyTaskReservation (ex_env 2) ReservationClaim ex_claim ex_user ex_binding ''r2'' None (Some None) db1
    = Inr (ex_claimed, db2)"
proof -
  have r: "readTaskReservation (ex_id 0) 1 db1 = ex_free" by (simp add: readTaskReservation_def ex_free_def)
  have f: "ex_free\<lparr>rs_ID := ex_id 2, rs_Holder := ex_holder, rs_Binding := ex_binding, rs_IntendedWorker := None\<rparr> = ex_hold\<lparr>rs_Fence := 0\<rparr>"
    by (simp add: ex_free_def ex_hold_def)
  have a: "advanceReservation (ex_hold\<lparr>rs_Fence := 0\<rparr>) db1 = Inr (ex_hold, db1\<lparr>db_reservations := [(ex_id 0, ex_hold_row)]\<rparr>)"
    by (simp add: advanceReservation_def MaxInt64_def Let_def reservation_check_def ex_hold_row_def) (simp add: ex_hold_def)
  show ?thesis
    by (simp add: ApplyTaskReservation_def reservationMutation_def TasksEnabled_def ApplyTaskReservation_tx_def db1_readTask Let_def r
        claim_tx_def commit_claim_def task_managed_def checkProcessPin_def coord_pin_def coord_intended_def commit_transition_def f a
        trackServiceReservation_def recordReservationEvent_def append_res_event_def coord_record_def tb_insert_def)
       (simp add: db2_def ex_claimed_def ex_claim_receipt_def new_outcome_def)
qed

lemma db2_sel [simp]: "db_projectID db2 = ''p''" "db_meta db2 = [(''tasks'', ''on'')]" "db_tasks db2 = [(ex_id 0, task_columns ex_task)]"
  "db_history db2 = [((ex_id 0, 1), \<lparr>ch_Task = ex_task, ch_Actor = ex_user\<rparr>)]"
  "db_comments db2 = []" "db_epics db2 = []" "db_reservations db2 = [(ex_id 0, ex_hold_row)]"
  "db_res_requests db2 = [((ex_who, ReservationClaim, ex_id 0, ''r2''), ex_claim_receipt)]" "db_res_services db2 = []"
  "db_managed db2 = []" "db_assignments db2 = []"
  "db_requests db2 = [((ex_user_key, ''create'', [], ''r1''), (receiptDigest id (json_content ex_content), RTask ex_task))]"
  by (simp_all add: db2_def)

lemma db2_scope [simp]: "taskScopeOK db2 = None"
  by (simp add: taskScopeOK_def IsReservedProject_def UserScopeProject_def)

lemma db2_inv: "ledger_inv db2"
  by (rule ApplyTaskReservation_inv [OF ex_claim_run db1_inv])

section \<open>It is finished\<close>

definition ex_finalize :: TaskReservationInput where
  "ex_finalize = \<lparr>ri_TaskID = ex_id 0, ri_ID = ex_id 2, ri_Fence = 1, ri_ExpectedRevision = 1, ri_Holder = no_holder,
     ri_Content = Some (ex_content\<lparr>tc_State := ''DONE''\<rparr>), ri_Reason = ''build'', ri_TerminalEvidence = Some [''build''], ri_Intent = []\<rparr>"

definition ex_done :: Task where
  "ex_done = ex_task\<lparr>tk_Content := ex_content\<lparr>tc_State := ''DONE''\<rparr>, tk_Revision := 2\<rparr>"

definition ex_closed :: TaskReservation where
  "ex_closed = \<lparr>rs_TaskID = ex_id 0, rs_ID = [], rs_Fence = 2, rs_Holder = no_holder, rs_Binding = no_binding,
     rs_TaskRevision = 2, rs_IntendedWorker = None\<rparr>"

definition ex_closed_row :: reservation_row where
  "ex_closed_row = \<lparr>rv_fence = 2, rv_active_id = [], rv_holder = no_holder, rv_bound = no_binding, rv_intended = no_worker\<rparr>"

definition ex_finalized :: TaskReservationOutcome where
  "ex_finalized = (new_outcome ex_done ex_closed None None)\<lparr>ou_Binding := ex_binding\<rparr>"

definition db3w :: db where \<comment> \<open>the task written, the hold not yet closed\<close>
  "db3w = db2\<lparr>db_tasks := [(ex_id 0, task_columns ex_done)],
     db_history := db_history db2 @ [((ex_id 0, 2), \<lparr>ch_Task = ex_done, ch_Actor = ex_user\<rparr>)],
     db_state_changes := db_state_changes db2 @ [\<lparr>sc_Sequence = 2, sc_TaskID = ex_id 0, sc_Revision = 2, sc_From = ''READY'',
        sc_To = ''DONE'', sc_At = ''t'', sc_RequiredCapability = []\<rparr>]\<rparr>"

definition db3 :: db where
  "db3 = db3w\<lparr>db_reservations := [(ex_id 0, ex_closed_row)],
     db_res_events := db_res_events db2 @ [\<lparr>re_task_id = ex_id 0, re_fence = 2, re_operation = ReservationFinalize,
        re_body = TransitionEvent ex_hold ex_closed ex_user ex_binding ''build'' (Some [''build'']) [] None None\<rparr>],
     db_res_requests := db_res_requests db2 @ [((ex_who, ReservationFinalize, ex_id 0, ''r3''),
        \<lparr>rq_digest = reservation_digest (ex_env 3) ex_finalize None, rq_result = ex_finalized, rq_service_id = [],
         rq_proof_digest = [], rq_reservation_id = ex_id 2, rq_committed_at = ''t''\<rparr>)]\<rparr>"

lemma ex_finalize_sel [simp]: "ri_TaskID ex_finalize = ex_id 0" "ri_ID ex_finalize = ex_id 2" "ri_Fence ex_finalize = 1"
  "ri_ExpectedRevision ex_finalize = 1" "ri_Holder ex_finalize = no_holder"
  "ri_Content ex_finalize = Some (ex_content\<lparr>tc_State := ''DONE''\<rparr>)" "ri_Reason ex_finalize = ''build''"
  "ri_TerminalEvidence ex_finalize = Some [''build'']" "ri_Intent ex_finalize = []"
  "tk_ID ex_done = ex_id 0" "tk_Revision ex_done = 2" "tk_Content ex_done = ex_content\<lparr>tc_State := ''DONE''\<rparr>"
  "tk_UpdatedAt ex_done = ''t''" "ex_done\<lparr>tk_Coordination := None\<rparr> = ex_done"
  "rs_ID ex_closed = []" "rs_Fence ex_closed = 2" "rs_TaskID ex_closed = ex_id 0"
  by (simp_all add: ex_finalize_def ex_done_def ex_task_def ex_closed_def)

lemma ex_finalize_texts [simp]: "taskText ''build'' 4096 False = None" "taskText ''build'' 4096 True = None" "taskText ''build'' 512 True = None"
  by (rule taskText_plain; simp add: plain_def)+

lemma ex_finalize_valid [simp]: "validateReservationInput e ReservationFinalize ex_finalize = None"
  by (simp add: validateReservationInput_def validReservationOperation_def takes_content_def evidence_list_def content_state_def)
     (simp add: reservation_ops)

lemma ex_finalize_save: "saveReservedTask ex_done ex_user db2 = Inr db3w"
  by (simp add: saveReservedTask_def writeTask_def Let_def tb_insert_def recordStateChange_def db3w_def task_columns_def)
     (simp add: db2_def db1_def)

lemma ex_finalize_run: "ApplyTaskReservation (ex_env 3) ReservationFinalize ex_finalize ex_user ex_binding ''r3'' None (Some None) db2
    = Inr (ex_finalized, db3)"
proof -
  have t: "readTask (ex_id 0) db2 = Inr ex_task" by (simp add: readTask_def coordination_of_def task_columns_def)
  have r: "readTaskReservation (ex_id 0) 1 db2 = ex_hold" by (simp add: readTaskReservation_def ex_hold_row_def ex_hold_def)
  have n: "ex_task\<lparr>tk_Content := ex_content\<lparr>tc_State := ''DONE''\<rparr>, tk_Revision := 2, tk_UpdatedAt := ''t''\<rparr> = ex_done"
    by (simp add: ex_done_def ex_task_def)
  have f: "ex_hold\<lparr>rs_TaskRevision := 2, rs_ID := [], rs_Holder := no_holder, rs_Binding := no_binding\<rparr> = ex_closed\<lparr>rs_Fence := 1\<rparr>"
    by (simp add: ex_closed_def ex_hold_def)
  have a: "advanceReservation (ex_closed\<lparr>rs_Fence := 1\<rparr>) db3w = Inr (ex_closed, db3w\<lparr>db_reservations := [(ex_id 0, ex_closed_row)]\<rparr>)"
    by (simp add: advanceReservation_def MaxInt64_def Let_def reservation_check_def ex_closed_row_def)
       (simp add: ex_closed_def db3w_def no_holder_def)
  have ops: "ReservationFinalize \<noteq> ReservationClaim" "ReservationFinalize \<noteq> ReservationTransfer" "ReservationFinalize \<noteq> ReservationUpdate"
    "ReservationClaim \<noteq> ReservationFinalize"
    by (simp_all add: reservation_ops)
  have h: "SameHolder ex_binding ex_binding" by (simp add: SameHolder_def ex_binding_def no_binding_def mk_id_def)
  show ?thesis
    by (simp add: ApplyTaskReservation_def reservationMutation_def TasksEnabled_def ApplyTaskReservation_tx_def t Let_def r ops h
        held_tx_def checkCoordinatedHolder_def checkEvidenceDigest_def checkEpicAssignable_def n f a content_tx_def ex_finalize_save
        checkProcessPin_def coord_pin_def coord_intended_def commit_transition_def
        trackServiceReservation_def recordReservationEvent_def append_res_event_def coord_record_def tb_insert_def)
       (simp add: db3_def db3w_def ex_finalized_def new_outcome_def)
qed

lemma db3_inv: "ledger_inv db3"
  by (rule ApplyTaskReservation_inv [OF ex_finalize_run db2_inv])

end
