(* ===== verification/LedgerProps.thy ===== *)
theory LedgerProps
  imports ExamplesBoard
begin

text \<open>
  The properties of the task board and of its reservation ledger, each applied to the
  run of \<open>ExamplesBoard\<close>.
\<close>

section \<open>The board\<close>

lemma UpdateTask_fresh:
  assumes "UpdateTask e tid c expected actor key d = Inr (t, d')" "receipt_of d actor ''update'' tid key = None"
  shows "\<exists>d1 k r. actor_key actor = Inr k \<and> UpdateTask_tx e tid c expected actor d = Inr (t, d1) \<and> d' = d1\<lparr>db_requests := r\<rparr>
    \<and> map_of r = (map_of (db_requests d1))((k, ''update'', tid, key)
         \<mapsto> (receiptDigest (e_sha e) (JObj [(''content'', json_content c), (''expected'', JNum expected)]), RTask t))"
proof -
  from assms(1) have "checkedTaskMutation e actor ''update'' tid key (JObj [(''content'', json_content c), (''expected'', JNum expected)])
      (generic_write_check tid) RTask prj_task (\<lambda>_. UpdateTask_tx e tid c expected actor) d = Inr (t, d')"
    by (simp add: UpdateTask_def Let_def tx_simps updateRetry_def)
  then show ?thesis
  proof (cases rule: checkedTaskMutation_cases)
    case (replay k saved)
    then show ?thesis using assms(2) by (simp add: receipt_of_def)
  next
    case (fresh k ck d1 r)
    then show ?thesis using tb_insert_SomeD(2) [OF fresh(6)] by blast
  qed
qed

text \<open>The task an update stored is read back with the coordination it had.\<close>

lemma UpdateTask_tx_reads:
  assumes ok: "board_ok d" and tx: "UpdateTask_tx e tid c expected actor d = Inr (t, d1)" and old: "readTask tid d = Inr old"
    and t: "t = old\<lparr>tk_Content := c, tk_Revision := expected + 1, tk_UpdatedAt := e_now e 0\<rparr>"
    and row: "map_of (db_tasks d1) = (map_of (db_tasks d))(tid \<mapsto> task_columns (stored t))"
    and only: "\<exists>ts h f. d1 = d\<lparr>db_tasks := ts, db_history := h, db_state_changes := f\<rparr>" and d': "d' = d1\<lparr>db_requests := r\<rparr>"
  shows "readTask tid d' = Inr t"
proof -
  have co: "coordination_of tid d' = coordination_of tid d"
    by (rule coordination_of_cong) (use only in \<open>auto simp: d'\<close>)
  have row: "map_of (db_tasks d') tid = Some (task_columns (stored t))" by (simp add: d' row)
  from old obtain q where q: "map_of (db_tasks d) tid = Some q"
    "old = (case coordination_of tid d of None \<Rightarrow> tr_body q | Some k \<Rightarrow> (tr_body q)\<lparr>tk_Coordination := Some k\<rparr>)"
    by (auto simp: readTask_def split: option.splits)
  have "tk_Coordination (tr_body q) = None" by (rule board_okD(7) [OF ok q(1)])
  then have "(case coordination_of tid d of None \<Rightarrow> stored t | Some k \<Rightarrow> (stored t)\<lparr>tk_Coordination := Some k\<rparr>) = t"
    unfolding t q(2) by (cases "tr_body q") (auto split: option.splits)
  then show ?thesis unfolding readTask_def row co by (simp cong: option.case_cong)
qed

lemma UpdateTask_tx_exact:
  assumes "board_ok d" "UpdateTask_tx e tid c expected actor d = Inr (t, d1)"
  obtains old where "readTask tid d = Inr old" "tk_Revision old = expected"
    "t = old\<lparr>tk_Content := c, tk_Revision := expected + 1, tk_UpdatedAt := e_now e 0\<rparr>"
    "map_of (db_tasks d1) = (map_of (db_tasks d))(tid \<mapsto> task_columns (stored t))"
    "map_of (db_history d) (tid, expected + 1) = None"
    "map_of (db_history d1) = (map_of (db_history d))((tid, expected + 1) \<mapsto> \<lparr>ch_Task = stored t, ch_Actor = actor\<rparr>)"
    "db_state_changes d1 = (if tc_State (tk_Content old) = tc_State c then db_state_changes d
       else db_state_changes d @ [\<lparr>sc_Sequence = int (length (db_state_changes d)) + 1, sc_TaskID = tid, sc_Revision = expected + 1,
         sc_From = tc_State (tk_Content old), sc_To = tc_State c, sc_At = e_now e 0, sc_RequiredCapability = []\<rparr>])"
    "\<exists>ts h f. d1 = d\<lparr>db_tasks := ts, db_history := h, db_state_changes := f\<rparr>"
proof -
  from assms(2) obtain old where old: "readTask tid d = Inr old" "tk_Revision old = expected"
    and t: "t = old\<lparr>tk_Content := c, tk_Revision := expected + 1, tk_UpdatedAt := e_now e 0\<rparr>"
    and s: "saveTask t actor False d = Inr d1"
    by (auto simp: UpdateTask_tx_def Let_def tx_simps)
  have id: "tk_ID t = tid" using readTask_ok(1) [OF assms(1) old(1)] t by simp
  from old(1) obtain q where q: "map_of (db_tasks d) tid = Some q" "tk_Content old = tk_Content (tr_body q)"
    by (auto simp: readTask_def split: option.splits)
  have st: "tr_state q = tc_State (tk_Content old)"
    using arg_cong [where f = tr_state, OF board_okD(4) [OF assms(1) q(1)]] q(2) by (simp add: task_columns_def)
  from s have "writeTask t actor False d = Inr d1" using saveTask_D by blast
  then obtain h where h: "tb_insert (tid, expected + 1) \<lparr>ch_Task = stored t, ch_Actor = actor\<rparr> (db_history d) = Some h"
    and f: "recordStateChange (stored t) (tr_state q) False (d\<lparr>db_tasks := AList.update tid (task_columns (stored t)) (db_tasks d), db_history := h\<rparr>) = Inr d1"
    using id q(1) t by (auto simp: writeTask_def Let_def split: option.splits)
  let ?entry = "\<lparr>sc_Sequence = int (length (db_state_changes d)) + 1, sc_TaskID = tid, sc_Revision = expected + 1,
      sc_From = tc_State (tk_Content old), sc_To = tc_State c, sc_At = e_now e 0, sc_RequiredCapability = []\<rparr>"
  have d1: "d1 = d\<lparr>db_tasks := AList.update tid (task_columns (stored t)) (db_tasks d), db_history := h,
      db_state_changes := (if tc_State (tk_Content old) = tc_State c then db_state_changes d else db_state_changes d @ [?entry])\<rparr>"
    using f id t st by (auto simp: recordStateChange_def split: if_splits)
  show ?thesis
    by (rule that [OF old t _ _ _ _ wrote_only [OF UpdateTask_txD(1) [OF assms]]]) (use tb_insert_SomeD [OF h] in \<open>simp_all add: d1\<close>)
qed

text \<open>C1: an update that is not the retry of an earlier one is a compare-and-swap. It needs the
  current revision, and the task then is the old one but for its content, its revision, which is
  the next, and the time of the update: its creation time stays. Exactly one version is added to
  the history, one entry to the feed of state changes if the state changed and none otherwise,
  and one receipt; every other task and every other table stay as they were. A second update that
  expected the same revision, and is no retry either, is refused.\<close>

theorem update_compare_and_swap:
  assumes "board_ok d" "UpdateTask e tid c expected actor key d = Inr (t, d')"
    "receipt_of d actor ''update'' tid key = None"
  shows "\<exists>old k. GetTask tid d = Inr old \<and> tk_Revision old = expected \<and> GetTask tid d' = Inr t
    \<and> t = old\<lparr>tk_Content := c, tk_Revision := expected + 1, tk_UpdatedAt := e_now e 0\<rparr>
    \<and> map_of (db_tasks d') = (map_of (db_tasks d))(tid \<mapsto> task_columns (stored t))
    \<and> map_of (db_history d) (tid, expected + 1) = None
    \<and> map_of (db_history d') = (map_of (db_history d))((tid, expected + 1) \<mapsto> \<lparr>ch_Task = stored t, ch_Actor = actor\<rparr>)
    \<and> db_state_changes d' = (if tc_State (tk_Content old) = tc_State c then db_state_changes d
       else db_state_changes d @ [\<lparr>sc_Sequence = int (length (db_state_changes d)) + 1, sc_TaskID = tid, sc_Revision = expected + 1,
         sc_From = tc_State (tk_Content old), sc_To = tc_State c, sc_At = e_now e 0, sc_RequiredCapability = []\<rparr>])
    \<and> actor_key actor = Inr k
    \<and> map_of (db_requests d') = (map_of (db_requests d))((k, ''update'', tid, key)
         \<mapsto> (receiptDigest (e_sha e) (JObj [(''content'', json_content c), (''expected'', JNum expected)]), RTask t))
    \<and> (\<exists>ts h f r. d' = d\<lparr>db_tasks := ts, db_history := h, db_state_changes := f, db_requests := r\<rparr>)
    \<and> (\<forall>e2 c2 actor2 key2. receipt_of d' actor2 ''update'' tid key2 = None
         \<longrightarrow> \<not> succeeds (UpdateTask e2 tid c2 expected actor2 key2 d'))"
proof -
  from UpdateTask_fresh [OF assms(2,3)] obtain d1 k r where k: "actor_key actor = Inr k" and
    tx: "UpdateTask_tx e tid c expected actor d = Inr (t, d1)" and d': "d' = d1\<lparr>db_requests := r\<rparr>"
    and r: "map_of r = (map_of (db_requests d1))((k, ''update'', tid, key)
         \<mapsto> (receiptDigest (e_sha e) (JObj [(''content'', json_content c), (''expected'', JNum expected)]), RTask t))" by blast
  have id: "is_id tid" using assms(2) by (simp add: UpdateTask_def split: if_splits)
  from UpdateTask_tx_exact [OF assms(1) tx] obtain old where X: "readTask tid d = Inr old" "tk_Revision old = expected"
    "t = old\<lparr>tk_Content := c, tk_Revision := expected + 1, tk_UpdatedAt := e_now e 0\<rparr>"
    "map_of (db_tasks d1) = (map_of (db_tasks d))(tid \<mapsto> task_columns (stored t))"
    "map_of (db_history d) (tid, expected + 1) = None"
    "map_of (db_history d1) = (map_of (db_history d))((tid, expected + 1) \<mapsto> \<lparr>ch_Task = stored t, ch_Actor = actor\<rparr>)"
    "db_state_changes d1 = (if tc_State (tk_Content old) = tc_State c then db_state_changes d
       else db_state_changes d @ [\<lparr>sc_Sequence = int (length (db_state_changes d)) + 1, sc_TaskID = tid, sc_Revision = expected + 1,
         sc_From = tc_State (tk_Content old), sc_To = tc_State c, sc_At = e_now e 0, sc_RequiredCapability = []\<rparr>])"
    and only: "\<exists>ts h f. d1 = d\<lparr>db_tasks := ts, db_history := h, db_state_changes := f\<rparr>" by metis
  have read: "readTask tid d' = Inr t"
    by (rule UpdateTask_tx_reads [OF assms(1) tx X(1) X(3) X(4) only d'])
  have "\<not> succeeds (UpdateTask e2 tid c2 expected actor2 key2 d')" if "receipt_of d' actor2 ''update'' tid key2 = None" for e2 c2 actor2 key2
  proof
    assume "succeeds (UpdateTask e2 tid c2 expected actor2 key2 d')"
    then obtain t2 d2 where "UpdateTask e2 tid c2 expected actor2 key2 d' = Inr (t2, d2)" by (auto simp: succeeds_iff)
    from UpdateTask_fresh [OF this that] obtain d3 where "UpdateTask_tx e2 tid c2 expected actor2 d' = Inr (t2, d3)" by blast
    then show False using X(3) by (simp add: UpdateTask_tx_def read)
  qed
  moreover have "db_requests d1 = db_requests d" using only by auto
  ultimately show ?thesis using X only k r id read by (auto simp: GetTask_def d')
qed

definition ex_updated :: Task where
  "ex_updated = ex_task\<lparr>tk_Content := ex_content\<lparr>tc_State := ''DONE''\<rparr>, tk_Revision := 2\<rparr>"

lemma ex_update_run: "\<exists>d'. UpdateTask (ex_env 0) (ex_id 0) (ex_content\<lparr>tc_State := ''DONE''\<rparr>) 1 ex_user ''r2'' db1 = Inr (ex_updated, d')"
proof -
  have n: "ex_task\<lparr>tk_Content := ex_content\<lparr>tc_State := ''DONE''\<rparr>, tk_Revision := 2, tk_UpdatedAt := ''t''\<rparr> = ex_updated"
    by (simp add: ex_updated_def ex_task_def)
  have s: "tk_ID ex_updated = ex_id 0" "tk_Revision ex_updated = 2" "tk_Content ex_updated = ex_content\<lparr>tc_State := ''DONE''\<rparr>"
    "ex_updated\<lparr>tk_Coordination := None\<rparr> = ex_updated" by (simp_all add: ex_updated_def ex_task_def)
  show ?thesis
    by (simp add: UpdateTask_def checkedTaskMutation_def generic_write_check_def task_managed_def rejectActiveReservation_def
        UpdateTask_tx_def db1_readTask checkEpicAssignable_def saveTask_def n s writeTask_def Let_def tb_insert_def recordStateChange_def
        updateRetry_def task_columns_def)
qed

lemma update_compare_and_swap_witness:
  "\<exists>d'. UpdateTask (ex_env 0) (ex_id 0) (ex_content\<lparr>tc_State := ''DONE''\<rparr>) 1 ex_user ''r2'' db1 = Inr (ex_updated, d')
    \<and> GetTask (ex_id 0) d' = Inr ex_updated \<and> map sc_To (db_state_changes d') = [''READY'', ''DONE'']
    \<and> \<not> succeeds (UpdateTask (ex_env 1) (ex_id 0) ex_content 1 ex_user ''r3'' d')"
proof -
  obtain d' where r: "UpdateTask (ex_env 0) (ex_id 0) (ex_content\<lparr>tc_State := ''DONE''\<rparr>) 1 ex_user ''r2'' db1 = Inr (ex_updated, d')"
    using ex_update_run by blast
  have "board_ok db1" using db1_inv by (simp add: ledger_inv_def task_board_ok_def)
  moreover have "receipt_of db1 ex_user ''update'' (ex_id 0) ''r2'' = None" by (simp add: receipt_of_def)
  ultimately obtain old k where P: "GetTask (ex_id 0) db1 = Inr old" "GetTask (ex_id 0) d' = Inr ex_updated" "actor_key ex_user = Inr k"
    "map_of (db_requests d') = (map_of (db_requests db1))((k, ''update'', ex_id 0, ''r2'')
         \<mapsto> (receiptDigest (e_sha (ex_env 0)) (JObj [(''content'', json_content (ex_content\<lparr>tc_State := ''DONE''\<rparr>)), (''expected'', JNum 1)]), RTask ex_updated))"
    "db_state_changes d' = (if tc_State (tk_Content old) = ''DONE'' then db_state_changes db1
       else db_state_changes db1 @ [\<lparr>sc_Sequence = int (length (db_state_changes db1)) + 1, sc_TaskID = ex_id 0, sc_Revision = 1 + 1,
         sc_From = tc_State (tk_Content old), sc_To = ''DONE'', sc_At = e_now (ex_env 0) 0, sc_RequiredCapability = []\<rparr>])"
    "\<forall>e2 c2 actor2 key2. receipt_of d' actor2 ''update'' (ex_id 0) key2 = None
         \<longrightarrow> \<not> succeeds (UpdateTask e2 (ex_id 0) c2 1 actor2 key2 d')"
    using update_compare_and_swap [OF _ r] by (auto simp del: db1_sel)
  have "tc_State (tk_Content old) = ''READY''" using P(1) by (simp add: GetTask_def db1_readTask)
  moreover have "receipt_of d' ex_user ''update'' (ex_id 0) ''r3'' = None" using P(3,4) by (simp add: receipt_of_def)
  ultimately show ?thesis using r P by auto
qed

text \<open>C2: while a task is reserved, no board write changes it. Update, triage and the
  comment entry for unheld tasks all fail, whatever the actor, the expected revision and
  the retry key.\<close>

theorem held_task_is_fenced_off:
  assumes "held d tid"
  shows "\<not> succeeds (UpdateTask e tid c expected actor key d) \<and> \<not> succeeds (TriageTask e tid p expected actor key d)
    \<and> \<not> succeeds (AddTaskCommentUnheld e tid body actor key d)"
proof -
  have g: "generic_write_check tid d \<noteq> Inr x" for x
    using assms rejectActiveReservation_held [of tid d] by (auto simp: generic_write_check_def split: option.splits)
  have u: "UpdateTask e tid c expected actor key d \<noteq> Inr (x, d')" for x d'
  proof
    assume "UpdateTask e tid c expected actor key d = Inr (x, d')"
    then have "checkedTaskMutation e actor ''update'' tid key (ry_input (updateRetry tid c expected)) (generic_write_check tid)
      RTask prj_task (\<lambda>_. UpdateTask_tx e tid c expected actor) d = Inr (x, d')"
      by (simp add: UpdateTask_def Let_def tx_simps updateRetry_def)
    then show False by (rule checkedTaskMutation_cases) (use g in \<open>auto simp: succeeds_iff\<close>)
  qed
  have t: "TriageTask e tid p expected actor key d \<noteq> Inr (x, d')" for x d'
  proof
    assume "TriageTask e tid p expected actor key d = Inr (x, d')"
    then have "checkedTaskMutation e actor ''triage'' tid key (triage_input p expected) (generic_write_check tid)
      RTask prj_task (\<lambda>_. TriageTask_tx e tid p expected actor) d = Inr (x, d')"
      by (simp add: TriageTask_def tx_simps)
    then show False by (rule checkedTaskMutation_cases) (use g in \<open>auto simp: succeeds_iff\<close>)
  qed
  have a: "AddTaskCommentUnheld e tid body actor key d \<noteq> Inr (x, d')" for x d'
  proof
    let ?check = "\<lambda>d. case rejectActiveReservation tid d of Some x \<Rightarrow> Inl x | None \<Rightarrow> Inr ()"
    assume "AddTaskCommentUnheld e tid body actor key d = Inr (x, d')"
    then have "checkedTaskMutation e actor ''comment'' tid key (JStr body) ?check RComment prj_comment
        (\<lambda>_. addTaskComment_tx e tid body actor) d = Inr (x, d')"
      by (simp add: AddTaskCommentUnheld_def addTaskComment_def tx_simps)
    moreover have "?check d \<noteq> Inr y" for y
      using assms rejectActiveReservation_held [of tid d] by (auto split: option.splits)
    ultimately show False by (elim checkedTaskMutation_cases) (auto simp: succeeds_iff)
  qed
  show ?thesis using u t a by (auto simp: succeeds_iff)
qed

lemma held_task_is_fenced_off_witness:
  "\<not> succeeds (UpdateTask (ex_env 3) (ex_id 0) ex_content 1 ex_user ''r3'' db2)"
proof -
  have "held db2 (ex_id 0)" by (simp add: held_def ex_hold_row_def)
  then show ?thesis using held_task_is_fenced_off by blast
qed

end
