(* ===== verification/TaskLoc.thy ===== *)
theory TaskLoc
  imports Tasks "HOL-Library.List_Lexorder" "HOL-Library.Char_ord" "HOL-Library.Sublist"
begin

text \<open>
  Finding a task among the projects of the hub (\<open>internal/store/taskloc.go\<close>,
  \<open>internal/store/taskprefix.go\<close>): the scan over the projects, the hints that spare it, and
  identifiers given by a unique prefix. Strings are ordered bytewise, as Go and SQLite order
  them: \<open>List_Lexorder\<close> over \<open>Char_ord\<close>.

  A \<open>world\<close> is what the registry sees at one moment: the listed projects, each with what
  opening it gives and its access id. The clock is an integer of nanoseconds.
\<close>

section \<open>The registry\<close>

record project_dir =
  pd_open :: "err + db"
  pd_access :: "err + string"

record world =
  wd_fault :: "err option"
  wd_dirs :: "(string \<times> project_dir) list"

definition Projects :: "world \<Rightarrow> err + string list" where
  "Projects w = (case wd_fault w of Some x \<Rightarrow> Inl x | None \<Rightarrow> Inr (filter ValidProjectID (map fst (wd_dirs w))))"

definition OpenExisting :: "string \<Rightarrow> world \<Rightarrow> err + db" where
  "OpenExisting p w =
     (if \<not> ValidProjectID p then Inl (ErrOther ''no such project'')
      else case map_of (wd_dirs w) p of None \<Rightarrow> Inl (ErrOther ''no such project'') | Some x \<Rightarrow> pd_open x)"

section \<open>Hints\<close>

record taskHints =
  th_loc :: "(string \<times> string) list"
  th_miss :: "(string \<times> int) list"

definition taskHintMax :: nat where "taskHintMax = 65536"
definition taskMissMax :: nat where "taskMissMax = 4096"
definition taskMissTTL :: int where "taskMissTTL = 30 * 10 ^ 9"

definition newTaskHints :: taskHints where
  "newTaskHints = \<lparr>th_loc = [], th_miss = []\<rparr>"

definition put :: "string \<Rightarrow> string \<Rightarrow> taskHints \<Rightarrow> taskHints" where
  "put i project h =
     (let l = (if taskHintMax \<le> length (th_loc h) then [] else th_loc h)
      in \<lparr>th_loc = AList.update i project l, th_miss = filter (\<lambda>(k, at). \<not> prefix k i) (th_miss h)\<rparr>)"

definition get :: "string \<Rightarrow> taskHints \<Rightarrow> string option" where
  "get i h = map_of (th_loc h) i"

definition forget :: "string \<Rightarrow> taskHints \<Rightarrow> taskHints" where
  "forget i h = h\<lparr>th_loc := AList.delete i (th_loc h)\<rparr>"

definition missed :: "int \<Rightarrow> string \<Rightarrow> taskHints \<Rightarrow> bool \<times> taskHints" where
  "missed now i h =
     (case map_of (th_miss h) i of
        None \<Rightarrow> (False, h)
      | Some at \<Rightarrow> if now - at > taskMissTTL then (False, h\<lparr>th_miss := AList.delete i (th_miss h)\<rparr>) else (True, h))"

definition noteMiss :: "int \<Rightarrow> string \<Rightarrow> taskHints \<Rightarrow> taskHints" where
  "noteMiss now i h = h\<lparr>th_miss := AList.update i now (if taskMissMax \<le> length (th_miss h) then [] else th_miss h)\<rparr>"

section \<open>Locating a task\<close>

fun scan_from :: "world \<Rightarrow> string \<Rightarrow> string list \<Rightarrow> err option \<Rightarrow> err + string \<times> db" where
  "scan_from w i [] unreadable = Inl (case unreadable of Some x \<Rightarrow> x | None \<Rightarrow> ErrTaskNotFound)"
| "scan_from w i (p # ps) unreadable =
     (if IsReservedProject p then scan_from w i ps unreadable
      else case OpenExisting p w of
        Inl x \<Rightarrow> scan_from w i ps (Some (ErrOther ''task lookup incomplete: a project could not be opened''))
      | Inr d \<Rightarrow>
          (case GetTask i d of
             Inr t \<Rightarrow> Inr (p, d)
           | Inl x \<Rightarrow> scan_from w i ps
               (if x \<noteq> ErrTaskNotFound then Some (ErrOther ''task lookup incomplete: a project could not be read'') else unreadable)))"

definition scanForTask :: "world \<Rightarrow> string \<Rightarrow> err + string \<times> db" where
  "scanForTask w i = (case Projects w of Inl x \<Rightarrow> Inl x | Inr ps \<Rightarrow> scan_from w i ps None)"

text \<open>Each attempt walks the projects as they are then, and sees whether the registry's
  lifecycle moved meanwhile.\<close>

fun locate_attempts :: "int \<Rightarrow> string \<Rightarrow> (world \<times> bool) list \<Rightarrow> (err + string \<times> db) \<Rightarrow> taskHints
    \<Rightarrow> (err + string \<times> db) \<times> taskHints" where
  "locate_attempts now i [] res h = (res, h)"
| "locate_attempts now i ((w, moved) # ws) res h =
     (let r = scanForTask w i
      in if moved then locate_attempts now i ws r h
         else case r of
             Inr (p, d) \<Rightarrow> (r, put i p h)
           | Inl x \<Rightarrow> (r, if x = ErrTaskNotFound then noteMiss now i h else h))"

definition LocateTask :: "int \<Rightarrow> world \<Rightarrow> (nat \<Rightarrow> world \<times> bool) \<Rightarrow> string \<Rightarrow> taskHints
    \<Rightarrow> (err + string \<times> db) \<times> taskHints" where
  "LocateTask now w scans i h =
     (if \<not> is_id i then (Inl ErrTaskNotFound, h)
      else case (case get i h of None \<Rightarrow> None | Some p \<Rightarrow>
             (case OpenExisting p w of Inl x \<Rightarrow> None | Inr d \<Rightarrow> if succeeds (GetTask i d) then Some (p, d) else None)) of
        Some r \<Rightarrow> (Inr r, h)
      | None \<Rightarrow>
          (case missed now i (if get i h = None then h else forget i h) of (was, h1) \<Rightarrow>
             if was then (Inl ErrTaskNotFound, h1)
             else locate_attempts now i (map scans [0, 1, 2]) (Inl ErrTaskNotFound) h1))"

section \<open>Identifiers by prefix\<close>

definition TaskIDPrefixMin :: nat where "TaskIDPrefixMin = 13"
definition taskIDLayout :: string where "taskIDLayout = ''xxxxxxxx-xxxx-7xxx-vxxx-xxxxxxxxxxxx''"
definition taskIDMatchMax :: nat where "taskIDMatchMax = 10"

record TaskIDMatch =
  mt_Project :: string
  mt_ID :: string

datatype resolve_error =
    ErrTaskIDShort
  | AmbiguousIDError string "TaskIDMatch list"
  | StoreError err

definition layout_fits :: "char \<Rightarrow> char \<Rightarrow> bool" where
  "layout_fits l c \<longleftrightarrow>
     (if l = CHR ''-'' then c = CHR ''-''
      else if l = CHR ''7'' then c = CHR ''7''
      else if l = CHR ''v'' then c \<in> set ''89ab''
      else (CHR ''0'' \<le> c \<and> c \<le> CHR ''9'') \<or> (CHR ''a'' \<le> c \<and> c \<le> CHR ''f''))"

definition IDPrefixShape :: "string \<Rightarrow> bool" where
  "IDPrefixShape s \<longleftrightarrow> s \<noteq> [] \<and> length s < length taskIDLayout \<and> list_all2 layout_fits (take (length s) taskIDLayout) s"

definition prefixBound :: "string \<Rightarrow> string" where
  "prefixBound p = p @ ''g''"

definition idsWithPrefix :: "string list \<Rightarrow> string \<Rightarrow> nat \<Rightarrow> string list" where
  "idsWithPrefix column p limit = take limit (sort (filter (\<lambda>i. p \<le> i \<and> i < prefixBound p) column))"

definition taskIDsWithPrefix :: "string \<Rightarrow> nat \<Rightarrow> db \<Rightarrow> string list" where
  "taskIDsWithPrefix p limit d = idsWithPrefix (map fst (db_tasks d)) p limit"

definition FullTaskID :: "string \<Rightarrow> bool" where
  "FullTaskID s \<longleftrightarrow> is_id s"

definition resolveIDIn :: "string \<Rightarrow> (string \<Rightarrow> string list) \<Rightarrow> resolve_error + string" where
  "resolveIDIn arg list =
     (if FullTaskID arg \<or> \<not> IDPrefixShape arg then Inr arg
      else if length arg < TaskIDPrefixMin then Inl ErrTaskIDShort
      else case list arg of
        [] \<Rightarrow> Inl (StoreError ErrTaskNotFound)
      | [i] \<Rightarrow> Inr i
      | ids \<Rightarrow> Inl (AmbiguousIDError arg (map (\<lambda>i. \<lparr>mt_Project = [], mt_ID = i\<rparr>) ids)))"

definition ResolveTaskCommentID :: "string \<Rightarrow> string \<Rightarrow> db \<Rightarrow> resolve_error + string" where
  "ResolveTaskCommentID tid arg d = resolveIDIn arg (\<lambda>p. idsWithPrefix
     (map cm_ID (filter (\<lambda>c. cm_TaskID c = tid) (db_comments d))) p taskIDMatchMax)"

definition ResolveProjectTaskID :: "string \<Rightarrow> db \<Rightarrow> resolve_error + string" where
  "ResolveProjectTaskID arg d = resolveIDIn arg (\<lambda>p. taskIDsWithPrefix p taskIDMatchMax d)"

fun matches_from :: "world \<Rightarrow> string \<Rightarrow> string list \<Rightarrow> TaskIDMatch list \<Rightarrow> err + TaskIDMatch list" where
  "matches_from w p [] out = Inr out"
| "matches_from w p (q # qs) out =
     (if IsReservedProject q then matches_from w p qs out
      else case OpenExisting q w of
        Inl x \<Rightarrow> Inl (ErrOther ''task lookup incomplete: a project could not be opened'')
      | Inr d \<Rightarrow>
          let out' = out @ map (\<lambda>i. \<lparr>mt_Project = q, mt_ID = i\<rparr>) (taskIDsWithPrefix p (taskIDMatchMax - length out) d)
          in if taskIDMatchMax \<le> length out' then Inr out' else matches_from w p qs out')"

definition taskIDMatches :: "world \<Rightarrow> string \<Rightarrow> err + TaskIDMatch list" where
  "taskIDMatches w p = (case Projects w of Inl x \<Rightarrow> Inl x | Inr ps \<Rightarrow> matches_from w p ps [])"

definition ResolveTaskID :: "int \<Rightarrow> world \<Rightarrow> bool \<Rightarrow> string \<Rightarrow> taskHints \<Rightarrow> (resolve_error + string) \<times> taskHints" where
  "ResolveTaskID now w moved arg h =
     (if FullTaskID arg \<or> \<not> IDPrefixShape arg then (Inr arg, h)
      else if length arg < TaskIDPrefixMin then (Inl ErrTaskIDShort, h)
      else case missed now arg h of (was, h1) \<Rightarrow>
        if was then (Inl (StoreError ErrTaskNotFound), h1)
        else case taskIDMatches w arg of
          Inl x \<Rightarrow> (Inl (StoreError x), h1)
        | Inr [] \<Rightarrow> (Inl (StoreError ErrTaskNotFound), if moved then h1 else noteMiss now arg h1)
        | Inr [m] \<Rightarrow> (Inr (mt_ID m), put (mt_ID m) (mt_Project m) h1)
        | Inr ms \<Rightarrow> (Inl (AmbiguousIDError arg ms), h1))"

section \<open>What the hub holds\<close>

text \<open>The ordinary projects that open, in the order of the scan, and their tasks.\<close>

definition ordinary_of :: "world \<Rightarrow> string list \<Rightarrow> (string \<times> db) list" where
  "ordinary_of w ps = List.map_filter (\<lambda>p. if IsReservedProject p then None else
     case OpenExisting p w of Inl x \<Rightarrow> None | Inr d \<Rightarrow> Some (p, d)) ps"

definition ordinary :: "world \<Rightarrow> (string \<times> db) list" where
  "ordinary w = (case Projects w of Inl x \<Rightarrow> [] | Inr ps \<Rightarrow> ordinary_of w ps)"

definition has_task :: "string \<Rightarrow> db \<Rightarrow> bool" where
  "has_task i d \<longleftrightarrow> map_of (db_tasks d) i \<noteq> None"

definition readable :: "world \<Rightarrow> bool" where
  "readable w \<longleftrightarrow> (\<exists>ps. Projects w = Inr ps \<and> (\<forall>p \<in> set ps. \<not> IsReservedProject p \<longrightarrow> succeeds (OpenExisting p w)))"

text \<open>Every project opens, names and identifiers are keys, task identifiers are well formed, and a
  task is in one project.\<close>

definition hub_ok :: "world \<Rightarrow> bool" where
  "hub_ok w \<longleftrightarrow> readable w \<and> distinct (map fst (ordinary w)) \<and> (\<forall>(p, d) \<in> set (ordinary w). distinct (map fst (db_tasks d)))
     \<and> (\<forall>(p, d) \<in> set (ordinary w). \<forall>i. has_task i d \<longrightarrow> is_id i)
     \<and> (\<forall>(p, d) \<in> set (ordinary w). \<forall>i p' d'. has_task i d \<and> OpenExisting p' w = Inr d' \<and> has_task i d' \<longrightarrow> p' = p)
     \<and> (\<forall>p d i. OpenExisting p w = Inr d \<and> has_task i d \<longrightarrow> (p, d) \<in> set (ordinary w))"

definition miss_true :: "world \<Rightarrow> string \<Rightarrow> bool" where
  "miss_true w k \<longleftrightarrow> (\<forall>(p, d) \<in> set (ordinary w). \<forall>i. has_task i d \<longrightarrow> \<not> prefix k i)"

text \<open>What is still believed missing is missing.\<close>

definition hints_ok :: "int \<Rightarrow> world \<Rightarrow> taskHints \<Rightarrow> bool" where
  "hints_ok now w h \<longleftrightarrow> (\<forall>k at. map_of (th_miss h) k = Some at \<and> now - at \<le> taskMissTTL \<longrightarrow> miss_true w k)"

lemma GetTask_succeeds: "is_id i \<Longrightarrow> succeeds (GetTask i d) \<longleftrightarrow> has_task i d"
  by (auto simp: GetTask_def readTask_def has_task_def split: option.splits)

lemma GetTask_fails: "GetTask i d = Inl x \<Longrightarrow> x = ErrTaskNotFound"
  by (auto simp: GetTask_def readTask_def split: option.splits if_splits)

lemma ordinary_of_simps [simp]: "ordinary_of w [] = []"
  "IsReservedProject p \<Longrightarrow> ordinary_of w (p # ps) = ordinary_of w ps"
  "\<not> IsReservedProject p \<Longrightarrow> OpenExisting p w = Inr d \<Longrightarrow> ordinary_of w (p # ps) = (p, d) # ordinary_of w ps"
  by (simp_all add: ordinary_of_def List.map_filter_simps)

lemma scan_from_find:
  "(\<forall>p \<in> set ps. \<not> IsReservedProject p \<longrightarrow> succeeds (OpenExisting p w)) \<Longrightarrow>
   scan_from w i ps None = (case find (\<lambda>(p, d). succeeds (GetTask i d)) (ordinary_of w ps) of None \<Rightarrow> Inl ErrTaskNotFound | Some r \<Rightarrow> Inr r)"
proof (induction ps)
  case (Cons p ps)
  show ?case
  proof (cases "IsReservedProject p")
    case False
    then obtain d where d: "OpenExisting p w = Inr d" using Cons.prems by (auto simp: succeeds_iff)
    show ?thesis
    proof (cases "GetTask i d")
      case (Inl x)
      with GetTask_fails [OF Inl] Cons False d show ?thesis by simp
    qed (use False d in simp)
  qed (use Cons in simp)
qed simp

lemma scan_find:
  "readable w \<Longrightarrow> scanForTask w i = (case find (\<lambda>(p, d). succeeds (GetTask i d)) (ordinary w) of None \<Rightarrow> Inl ErrTaskNotFound | Some r \<Rightarrow> Inr r)"
  unfolding readable_def scanForTask_def ordinary_def by (elim exE conjE) (simp add: scan_from_find)

lemma ordinary_open: "(p, d) \<in> set (ordinary w) \<Longrightarrow> OpenExisting p w = Inr d"
  by (auto simp: ordinary_def ordinary_of_def List.map_filter_def split: sum.splits if_splits)

lemma hub_okD:
  assumes "hub_ok w"
  shows "readable w" "(p, d) \<in> set (ordinary w) \<Longrightarrow> has_task i d \<Longrightarrow> is_id i"
    "(p, d) \<in> set (ordinary w) \<Longrightarrow> has_task i d \<Longrightarrow> OpenExisting p' w = Inr d' \<Longrightarrow> has_task i d' \<Longrightarrow> p' = p"
    "OpenExisting p w = Inr d \<Longrightarrow> has_task i d \<Longrightarrow> (p, d) \<in> set (ordinary w)"
proof -
  note ok = assms [unfolded hub_ok_def]
  show "readable w" using ok by simp
  show "(p, d) \<in> set (ordinary w) \<Longrightarrow> has_task i d \<Longrightarrow> is_id i" using ok [THEN conjunct2, THEN conjunct2, THEN conjunct2, THEN conjunct1] by blast
  show "(p, d) \<in> set (ordinary w) \<Longrightarrow> has_task i d \<Longrightarrow> OpenExisting p' w = Inr d' \<Longrightarrow> has_task i d' \<Longrightarrow> p' = p"
    using ok [THEN conjunct2, THEN conjunct2, THEN conjunct2, THEN conjunct2, THEN conjunct1] by blast
  show "OpenExisting p w = Inr d \<Longrightarrow> has_task i d \<Longrightarrow> (p, d) \<in> set (ordinary w)"
    using ok [THEN conjunct2, THEN conjunct2, THEN conjunct2, THEN conjunct2, THEN conjunct2] by blast
qed

lemma scan_finds:
  assumes "hub_ok w" "is_id i" "OpenExisting p w = Inr d" "has_task i d"
  shows "scanForTask w i = Inr (p, d)"
proof -
  have m: "(p, d) \<in> set (ordinary w)" and r: "readable w" using assms hub_okD by metis+
  have "find (\<lambda>(p, d). succeeds (GetTask i d)) (ordinary w) \<noteq> None"
    using m assms(2,4) by (auto simp: find_None_iff GetTask_succeeds)
  then obtain q where q: "find (\<lambda>(p, d). succeeds (GetTask i d)) (ordinary w) = Some q" by blast
  then have "q \<in> set (ordinary w)" "case q of (p, d) \<Rightarrow> has_task i d"
    using assms(2) by (auto simp: find_Some_iff GetTask_succeeds in_set_conv_nth)
  then obtain p' d' where q': "q = (p', d')" "(p', d') \<in> set (ordinary w)" "has_task i d'" by (cases q) auto
  from hub_okD(3) [OF assms(1) m assms(4) ordinary_open [OF q'(2)] q'(3)] have "p' = p" .
  with ordinary_open [OF q'(2)] assms(3) q'(1) have "q = (p, d)" by simp
  then show ?thesis by (simp add: scan_find [OF r] q)
qed

lemma scan_misses: "readable w \<Longrightarrow> is_id i \<Longrightarrow> scanForTask w i = Inl x \<Longrightarrow> x = ErrTaskNotFound \<and> (\<forall>(p, d) \<in> set (ordinary w). \<not> has_task i d)"
  by (auto simp: scan_find find_None_iff GetTask_succeeds split: option.splits)

section \<open>The hints cannot be seen\<close>

lemma hints_ok_same: "th_miss h' = th_miss h \<Longrightarrow> hints_ok now w h \<Longrightarrow> hints_ok now w h'"
  by (simp add: hints_ok_def)

lemma hints_ok_forget [simp]: "hints_ok now w (forget i h) = hints_ok now w h"
  by (simp add: forget_def hints_ok_def)

lemma hints_ok_put: "hints_ok now w h \<Longrightarrow> hints_ok now w (put i p h)"
  by (auto simp: put_def hints_ok_def Let_def map_of_filter_key split: if_splits)

lemma missed_ok:
  assumes "hints_ok now w h" "missed now i h = (was, h1)"
  shows "hints_ok now w h1" "was \<Longrightarrow> miss_true w i"
  using assms by (auto simp: missed_def hints_ok_def delete_conv split: option.splits if_splits)

lemma noteMiss_ok: "hints_ok now w h \<Longrightarrow> miss_true w i \<Longrightarrow> hints_ok now w (noteMiss now i h)"
  by (auto simp: noteMiss_def hints_ok_def update_conv split: if_splits)

lemma no_task_miss_true:
  assumes "hub_ok w" "is_id i" "\<forall>(p, d) \<in> set (ordinary w). \<not> has_task i d"
  shows "miss_true w i"
proof -
  have "j = i" if "(p, d) \<in> set (ordinary w)" "has_task j d" "prefix i j" for p d j
  proof -
    have "is_id j" using hub_okD(2) [OF assms(1) that(1,2)] .
    then have "length i = length j" using assms(2) is_id_ascii_36 by metis
    with that(3) show ?thesis by (metis append_eq_conv_conj prefix_def take_all order_refl)
  qed
  with assms(3) show ?thesis unfolding miss_true_def by blast
qed

lemma miss_true_no_task: "miss_true w i \<Longrightarrow> \<forall>(p, d) \<in> set (ordinary w). \<not> has_task i d"
  by (auto simp: miss_true_def)

lemma LocateTask_scan:
  assumes "hub_ok w" "hints_ok now w h" "LocateTask now w (\<lambda>_. (w, False)) i h = (r, h')"
  shows "r = (if is_id i then scanForTask w i else Inl ErrTaskNotFound)" "hints_ok now w h'"
proof -
  have rd: "readable w" using assms(1) by (simp add: hub_ok_def)
  let ?hint = "case get i h of None \<Rightarrow> None | Some p \<Rightarrow>
    (case OpenExisting p w of Inl x \<Rightarrow> None | Inr d \<Rightarrow> if succeeds (GetTask i d) then Some (p, d) else None)"
  have "r = (if is_id i then scanForTask w i else Inl ErrTaskNotFound) \<and> hints_ok now w h'"
  proof (cases "is_id i")
    case False
    then show ?thesis using assms(2,3) by (simp add: LocateTask_def)
  next
    case True
    show ?thesis
    proof (cases ?hint)
      case (Some q)
      then obtain p d where q: "q = (p, d)" "OpenExisting p w = Inr d" "has_task i d"
        by (auto simp: GetTask_succeeds [OF True] split: option.splits sum.splits if_splits)
      with scan_finds [OF assms(1) True q(2,3)] True Some assms(2,3) show ?thesis by (simp add: LocateTask_def)
    next
      case None
      obtain was h1 where m: "missed now i (if get i h = None then h else forget i h) = (was, h1)" by fastforce
      have "hints_ok now w (if get i h = None then h else forget i h)" using assms(2) by simp
      note M = missed_ok [OF this m]
      show ?thesis
      proof (cases was)
        case True
        then have "find (\<lambda>(p, d). succeeds (GetTask i d)) (ordinary w) = None"
          using miss_true_no_task [OF M(2)] \<open>is_id i\<close> by (auto simp: find_None_iff GetTask_succeeds)
        then show ?thesis using True None m M(1) assms(3) \<open>is_id i\<close> by (simp add: LocateTask_def scan_find [OF rd])
      next
        case False
        then have L: "(r, h') = locate_attempts now i [(w, False), (w, False), (w, False)] (Inl ErrTaskNotFound) h1"
          using None m assms(3) \<open>is_id i\<close> by (simp add: LocateTask_def)
        show ?thesis
        proof (cases "scanForTask w i")
          case (Inl x)
          with L scan_misses [OF rd \<open>is_id i\<close> Inl] no_task_miss_true [OF assms(1) \<open>is_id i\<close>] M(1) \<open>is_id i\<close>
          show ?thesis by (auto intro: noteMiss_ok)
        next
          case (Inr q)
          with L M(1) \<open>is_id i\<close> show ?thesis by (cases q) (auto intro: hints_ok_put)
        qed
      qed
    qed
  qed
  then show "r = (if is_id i then scanForTask w i else Inl ErrTaskNotFound)" "hints_ok now w h'" by blast+
qed

section \<open>A prefix is a range\<close>

lemma range_is_prefix:
  assumes "\<forall>c \<in> set i. c < CHR ''g''"
  shows "p \<le> i \<and> i < prefixBound p \<longleftrightarrow> prefix p i"
  using assms
proof (induction p arbitrary: i)
  case Nil
  then show ?case by (cases i) (simp_all add: prefixBound_def)
next
  case (Cons c p)
  then show ?case by (cases i) (auto simp: prefixBound_def)
qed

lemma hexdigit_char: "hexdigit (of_char c) \<Longrightarrow> (CHR ''0'' \<le> c \<and> c \<le> CHR ''9'') \<or> (CHR ''a'' \<le> c \<and> c \<le> CHR ''f'')"
  by (auto simp: hexdigit_def digit_def rng_def less_eq_char_def)

lemma shape_all2: "shape ps rs \<longleftrightarrow> list_all2 (\<lambda>P r. P r) ps rs"
  by (induction ps rs rule: shape.induct) auto

lemma id_chars: "is_id i \<Longrightarrow> list_all2 (\<lambda>P c. P (of_char c)) id_shape i"
  using is_id_ascii_36 [of i] is_id_ascii [of i] by (simp add: shape_all2 list_all2_map2)

lemma layout_shape: "list_all2 (\<lambda>P l. \<forall>c. P (of_char c) \<longrightarrow> layout_fits l c) id_shape taskIDLayout"
proof -
  have x: "hexdigit (of_char c) \<Longrightarrow> layout_fits CHR ''x'' c" for c using hexdigit_char by (simp add: layout_fits_def)
  have d: "of_char c = (45 :: nat) \<Longrightarrow> layout_fits CHR ''-'' c" "of_char c = (55 :: nat) \<Longrightarrow> layout_fits CHR ''7'' c" for c
    using of_char_eq_iff [of c "CHR ''-''", where 'a = nat] of_char_eq_iff [of c "CHR ''7''", where 'a = nat] by (simp_all add: layout_fits_def)
  have v: "one_of ''89ab'' (of_char c) \<Longrightarrow> layout_fits CHR ''v'' c" for c
    using of_char_eq_iff [of c, where 'a = nat] by (auto simp: one_of_def layout_fits_def)
  show ?thesis unfolding id_shape_def taskIDLayout_def by (simp add: eval_nat_numeral x d v)
qed

lemma id_layout: "is_id i \<Longrightarrow> list_all2 layout_fits taskIDLayout i"
  using layout_shape id_chars [of i] by (auto simp: list_all2_conv_all_nth)

lemma layout_below: "layout_fits l c \<Longrightarrow> c < CHR ''g''"
  by (auto simp: layout_fits_def less_eq_char_def less_char_def split: if_splits)

lemma id_below: "is_id i \<Longrightarrow> \<forall>c \<in> set i. c < CHR ''g''"
  using id_layout [of i] layout_below by (auto simp: list_all2_conv_all_nth in_set_conv_nth) blast

lemma id_prefix_shape: "is_id i \<Longrightarrow> 0 < n \<Longrightarrow> n < 36 \<Longrightarrow> IDPrefixShape (take n i)"
  using list_all2_takeI [OF id_layout, of i n] is_id_ascii_36 [of i] by (auto simp: IDPrefixShape_def taskIDLayout_def)

section \<open>Resolving a prefix\<close>

text \<open>Every task a prefix names, project by project.\<close>

definition matches_in :: "string \<Rightarrow> string \<times> db \<Rightarrow> TaskIDMatch list" where
  "matches_in p = (\<lambda>(q, d). map (\<lambda>i. \<lparr>mt_Project = q, mt_ID = i\<rparr>) (sort (filter (prefix p) (map fst (db_tasks d)))))"

definition all_matches :: "world \<Rightarrow> string \<Rightarrow> TaskIDMatch list" where
  "all_matches w p = concat (map (matches_in p) (ordinary w))"

lemma has_task_iff: "has_task i d \<longleftrightarrow> i \<in> set (map fst (db_tasks d))"
  by (simp add: has_task_def map_of_eq_None_iff)

lemma taskIDs_take:
  assumes "\<forall>i. has_task i d \<longrightarrow> is_id i"
  shows "map (\<lambda>i. \<lparr>mt_Project = q, mt_ID = i\<rparr>) (taskIDsWithPrefix p n d) = take n (matches_in p (q, d))"
proof -
  have "filter (\<lambda>i. p \<le> i \<and> i < prefixBound p) (map fst (db_tasks d)) = filter (prefix p) (map fst (db_tasks d))"
  proof (intro filter_cong refl)
    fix i assume "i \<in> set (map fst (db_tasks d))"
    then have "is_id i" using assms has_task_iff by metis
    from range_is_prefix [OF id_below [OF this]] show "(p \<le> i \<and> i < prefixBound p) = prefix p i" .
  qed
  then show ?thesis by (simp add: taskIDsWithPrefix_def idsWithPrefix_def matches_in_def take_map)
qed

lemma matches_from_take:
  assumes "\<forall>p \<in> set ps. \<not> IsReservedProject p \<longrightarrow> succeeds (OpenExisting p w)"
    and "\<forall>(p, d) \<in> set (ordinary_of w ps). \<forall>i. has_task i d \<longrightarrow> is_id i" "length out \<le> taskIDMatchMax"
  shows "matches_from w p ps out = Inr (take taskIDMatchMax (out @ concat (map (matches_in p) (ordinary_of w ps))))"
  using assms
proof (induction ps arbitrary: out)
  case (Cons q qs)
  show ?case
  proof (cases "IsReservedProject q")
    case True
    then show ?thesis using Cons by simp
  next
    case False
    then obtain d where d: "OpenExisting q w = Inr d" using Cons.prems(1) by (auto simp: succeeds_iff)
    let ?m = "matches_in p (q, d)" and ?r = "concat (map (matches_in p) (ordinary_of w qs))"
    have ids: "\<forall>i. has_task i d \<longrightarrow> is_id i" using Cons.prems(2) False d by simp
    let ?o = "out @ take (taskIDMatchMax - length out) ?m"
    have o: "?o = take taskIDMatchMax (out @ ?m)" using Cons.prems(3) by simp
    show ?thesis
    proof (cases "taskIDMatchMax \<le> length ?o")
      case True
      then have "taskIDMatchMax \<le> length (out @ ?m)" by (simp add: min_def split: if_splits)
      then have "take taskIDMatchMax (out @ ?m @ ?r) = ?o" using o by simp
      then show ?thesis using False d True by (simp add: taskIDs_take [OF ids])
    next
      case False
      then have f: "?o = out @ ?m" using Cons.prems(3) by (simp add: min_def split: if_splits)
      have "matches_from w p qs ?o = Inr (take taskIDMatchMax (?o @ ?r))"
        using Cons.prems False \<open>\<not> IsReservedProject q\<close> d by (intro Cons.IH) auto
      then show ?thesis using False \<open>\<not> IsReservedProject q\<close> d f by (simp add: taskIDs_take [OF ids])
    qed
  qed
qed simp

lemma taskIDMatches_take: "hub_ok w \<Longrightarrow> taskIDMatches w p = Inr (take taskIDMatchMax (all_matches w p))"
proof -
  assume ok: "hub_ok w"
  then obtain ps where ps: "Projects w = Inr ps" "\<forall>p \<in> set ps. \<not> IsReservedProject p \<longrightarrow> succeeds (OpenExisting p w)"
    by (auto simp: hub_ok_def readable_def)
  then have o: "ordinary w = ordinary_of w ps" by (simp add: ordinary_def)
  with ok have "\<forall>(p, d) \<in> set (ordinary_of w ps). \<forall>i. has_task i d \<longrightarrow> is_id i" by (simp add: hub_ok_def)
  from matches_from_take [OF ps(2) this, of "[]" p] show ?thesis by (simp add: taskIDMatches_def all_matches_def ps(1) o)
qed

lemma all_matches_iff: "m \<in> set (all_matches w p) \<longleftrightarrow> (\<exists>d. (mt_Project m, d) \<in> set (ordinary w) \<and> has_task (mt_ID m) d \<and> prefix p (mt_ID m))"
  by (cases m) (auto simp: all_matches_def matches_in_def has_task_iff image_iff)

lemma all_matches_distinct:
  assumes "hub_ok w"
  shows "distinct (all_matches w p)"
proof -
  have "distinct (concat (map (matches_in p) xs))"
    if "distinct (map fst xs)" "\<forall>(q, d) \<in> set xs. distinct (map fst (db_tasks d))" for xs
    using that
  proof (induction xs)
    case (Cons x xs)
    have project: "mt_Project m = fst y" if "m \<in> set (matches_in p y)" for m y
      using that by (cases y) (auto simp: matches_in_def)
    have "set (matches_in p x) \<inter> set (concat (map (matches_in p) xs)) = {}"
    proof (intro equals0I)
      fix m assume "m \<in> set (matches_in p x) \<inter> set (concat (map (matches_in p) xs))"
      then obtain y where "y \<in> set xs" "m \<in> set (matches_in p y)" "m \<in> set (matches_in p x)" by auto
      with project have "fst y = fst x" "y \<in> set xs" by metis+
      with Cons.prems(1) show False by (metis distinct.simps(2) image_eqI list.set_map list.simps(9))
    qed
    moreover have "distinct (matches_in p x)" using Cons.prems(2)
      by (cases x) (auto simp: matches_in_def distinct_map inj_on_def intro!: distinct_filter)
    ultimately show ?case using Cons by simp
  qed simp
  with assms show ?thesis by (auto simp: all_matches_def hub_ok_def)
qed

lemma no_match_miss_true: "all_matches w p = [] \<Longrightarrow> miss_true w p"
  unfolding miss_true_def
proof clarify
  fix q d i assume "all_matches w p = []" "(q, d) \<in> set (ordinary w)" "has_task i d" "prefix p i"
  then have "\<lparr>mt_Project = q, mt_ID = i\<rparr> \<in> set (all_matches w p)" unfolding all_matches_iff by auto
  with \<open>all_matches w p = []\<close> show False by simp
qed

lemma miss_true_no_match: "miss_true w p \<Longrightarrow> all_matches w p = []"
proof (rule ccontr)
  assume t: "miss_true w p" and "all_matches w p \<noteq> []"
  then obtain m where "m \<in> set (all_matches w p)" by (meson list.set_sel(1))
  with t show False by (auto simp: all_matches_iff miss_true_def)
qed

definition resolved :: "string \<Rightarrow> TaskIDMatch list \<Rightarrow> resolve_error + string" where
  "resolved arg ms = (case ms of [] \<Rightarrow> Inl (StoreError ErrTaskNotFound) | [m] \<Rightarrow> Inr (mt_ID m)
     | _ \<Rightarrow> Inl (AmbiguousIDError arg (take taskIDMatchMax ms)))"

lemma ResolveTaskID_resolved:
  assumes "hub_ok w" "hints_ok now w h" "ResolveTaskID now w moved arg h = (r, h')"
  shows "r = (if FullTaskID arg \<or> \<not> IDPrefixShape arg then Inr arg else if length arg < TaskIDPrefixMin then Inl ErrTaskIDShort
     else resolved arg (all_matches w arg))" "hints_ok now w h'"
proof -
  obtain was h1 where m: "missed now arg h = (was, h1)" by fastforce
  note M = missed_ok [OF assms(2) m] and T = taskIDMatches_take [OF assms(1)]
  have "r = (if FullTaskID arg \<or> \<not> IDPrefixShape arg then Inr arg else if length arg < TaskIDPrefixMin then Inl ErrTaskIDShort
     else resolved arg (all_matches w arg)) \<and> hints_ok now w h'"
  proof (cases "FullTaskID arg \<or> \<not> IDPrefixShape arg \<or> length arg < TaskIDPrefixMin")
    case True
    then show ?thesis using assms(2,3) by (auto simp: ResolveTaskID_def split: if_splits)
  next
    case False
    show ?thesis
    proof (cases was)
      case True
      then show ?thesis using False M m assms(3) by (auto simp: ResolveTaskID_def miss_true_no_match resolved_def)
    next
      case nw: False
      consider "all_matches w arg = []" | x where "all_matches w arg = [x]" | x y zs where "all_matches w arg = x # y # zs"
        by (metis list.exhaust)
      then show ?thesis
      proof cases
        case 1
        then show ?thesis using False nw m M(1) assms(3) no_match_miss_true [OF 1]
          by (auto simp: ResolveTaskID_def T resolved_def intro: noteMiss_ok split: if_splits)
      next
        case 2
        then show ?thesis using False nw m M(1) assms(3)
          by (auto simp: ResolveTaskID_def T resolved_def taskIDMatchMax_def intro: hints_ok_put)
      next
        case 3
        then show ?thesis using False nw m M(1) assms(3)
          by (auto simp: ResolveTaskID_def T resolved_def taskIDMatchMax_def eval_nat_numeral)
      qed
    qed
  qed
  then show "r = (if FullTaskID arg \<or> \<not> IDPrefixShape arg then Inr arg else if length arg < TaskIDPrefixMin then Inl ErrTaskIDShort
     else resolved arg (all_matches w arg))" "hints_ok now w h'" by blast+
qed

end
