(* ===== verification/Dependencies.thy ===== *)
theory Dependencies
  imports Ledger TaskLoc
begin

text \<open>
  Claims of tasks with dependencies (\<open>internal/store/task_reservation_dependencies.go\<close>). A
  claim walks the dependency graph across projects without locks, then locks every project it
  met, checks the graph again under the locks, and commits the claim with its evidence.

  A \<open>moment\<close> is what one step sees: the registry's world, the context's error, the caller's
  read verification, the clock, and the scans of a lookup. Between the moments of the walk
  anything may change; the locked world is one moment. An error wrapped around
  \<open>ErrDependencyUnresolved\<close> is that error. Errors that depend on the order in which Go iterates
  over the map of nodes are those of one order, that of discovery.
\<close>

section \<open>The walk\<close>

type_synonym verifier = "string \<Rightarrow> string \<Rightarrow> err option"

record moment =
  mo_world :: world
  mo_ctx :: "err option"
  mo_verify :: verifier
  mo_now :: int
  mo_scans :: "nat \<Rightarrow> world \<times> bool"

record dependencyNode =
  dn_task :: Task
  dn_project :: string
  dn_accessID :: string

type_synonym nodes = "(string \<times> dependencyNode) list"

definition maxDependencyWalk :: nat where "maxDependencyWalk = 512"

abbreviation deps_of :: "Task \<Rightarrow> string list" where
  "deps_of t \<equiv> tc_Dependencies (tk_Content t)"

definition ExistingProjectAccessID :: "string \<Rightarrow> world \<Rightarrow> err + string" where
  "ExistingProjectAccessID p w =
     (if \<not> ValidProjectID p \<or> p = UserScopeProject \<or> take 6 p = ''group-'' then Inl (ErrOther ''invalid access project'')
      else case map_of (wd_dirs w) p of None \<Rightarrow> Inl (ErrOther ''no such file'') | Some x \<Rightarrow> pd_access x)"

text \<open>One node: the task's project, its access id, the caller's right to read it, the task.\<close>

definition locate_node :: "moment \<Rightarrow> moment \<Rightarrow> string list \<Rightarrow> string \<Rightarrow> taskHints \<Rightarrow> (err + dependencyNode) \<times> taskHints" where
  "locate_node m m' verified i h =
     (case LocateTask (mo_now m) (mo_world m) (mo_scans m) i h of
        (Inl x, h') \<Rightarrow> (Inl ErrDependencyUnresolved, h')
      | (Inr (project, _), h') \<Rightarrow>
          ((case mo_ctx m' of Some x \<Rightarrow> Inl x | None \<Rightarrow>
            case ExistingProjectAccessID project (mo_world m') of Inl x \<Rightarrow> Inl ErrDependencyUnresolved | Inr accessID \<Rightarrow>
            if accessID = [] then Inl ErrDependencyUnresolved
            else case (if project \<in> set verified then None else mo_verify m' project accessID) of
              Some x \<Rightarrow> Inl ErrDependencyUnresolved
            | None \<Rightarrow>
            case OpenExisting project (mo_world m') of Inl x \<Rightarrow> Inl ErrDependencyUnresolved | Inr d \<Rightarrow>
            case GetTask i d of Inl x \<Rightarrow> Inl ErrDependencyUnresolved | Inr t \<Rightarrow>
            Inr \<lparr>dn_task = t, dn_project = project, dn_accessID = accessID\<rparr>), h'))"

text \<open>The stack of pending identifiers has its top first.\<close>

function locate_from :: "(nat \<Rightarrow> moment) \<Rightarrow> nat \<Rightarrow> nodes \<Rightarrow> string list \<Rightarrow> string list \<Rightarrow> taskHints \<Rightarrow> (err + nodes) \<times> taskHints" where
  "locate_from at n nodes verified [] h = (Inr nodes, h)"
| "locate_from at n nodes verified (i # pending) h =
     (case mo_ctx (at n) of Some x \<Rightarrow> (Inl x, h) | None \<Rightarrow>
      if maxDependencyWalk \<le> length nodes then (Inl ErrDependencyUnresolved, h)
      else if map_of nodes i \<noteq> None then locate_from at (n + 1) nodes verified pending h
      else case locate_node (at n) (at (n + 1)) verified i h of
        (Inl x, h') \<Rightarrow> (Inl x, h')
      | (Inr nd, h') \<Rightarrow> locate_from at (n + 2) ((i, nd) # nodes) (dn_project nd # verified) (rev (deps_of (dn_task nd)) @ pending) h')"
  by pat_completeness auto
termination
  by (relation "measures [\<lambda>(at, n, nodes, verified, pending, h). maxDependencyWalk - length nodes,
    \<lambda>(at, n, nodes, verified, pending, h). length pending]") auto

definition locateDependencyGraph :: "(nat \<Rightarrow> moment) \<Rightarrow> string \<Rightarrow> taskHints \<Rightarrow> (err + nodes) \<times> taskHints" where
  "locateDependencyGraph at owner h = locate_from at 0 [] [] [owner] h"

definition dependencyProjects :: "nodes \<Rightarrow> string list" where
  "dependencyProjects nodes = sort (remdups (map (dn_project \<circ> snd) nodes))"

definition taskDependenciesEqual :: "string list \<Rightarrow> string list \<Rightarrow> bool" where
  "taskDependenciesEqual a b \<longleftrightarrow> length a = length b \<and> list_all (\<lambda>i. a ! i = b ! i) [0..<length a]"

definition tasksEnabledTx :: "db \<Rightarrow> bool" where
  "tasksEnabledTx d \<longleftrightarrow> (case map_of (db_meta d) ''tasks'' of None \<Rightarrow> False | Some v \<Rightarrow> v = ''on'')"

section \<open>The check under the locks\<close>

fun current_tasks :: "string \<Rightarrow> moment \<Rightarrow> string list \<Rightarrow> nodes \<Rightarrow> err + (string \<times> Task) list" where
  "current_tasks owner m checked [] = Inr []"
| "current_tasks owner m checked ((i, nd) # ns) =
     (case mo_ctx m of Some x \<Rightarrow> Inl x | None \<Rightarrow>
      case OpenExisting (dn_project nd) (mo_world m) of Inl x \<Rightarrow> Inl x | Inr d \<Rightarrow>
      if dn_project nd \<notin> set checked \<and> \<not> tasksEnabledTx d then Inl ErrDependencyUnresolved
      else case (if dn_project nd \<in> set checked then None else mo_verify m (dn_project nd) (dn_accessID nd)) of
        Some x \<Rightarrow> Inl ErrDependencyUnresolved
      | None \<Rightarrow>
      case readTask i d of Inl x \<Rightarrow> Inl ErrDependencyUnresolved | Inr t \<Rightarrow>
      if tk_Revision t \<noteq> tk_Revision (dn_task nd) \<or> \<not> taskDependenciesEqual (deps_of t) (deps_of (dn_task nd))
        then Inl (if i = owner then TaskConflict t else ErrDependencyUnresolved)
      else case current_tasks owner m (dn_project nd # checked) ns of Inl x \<Rightarrow> Inl x | Inr ts \<Rightarrow> Inr ((i, t) # ts))"

text \<open>The depth-first walk: colour 0 is unvisited, 1 on the path, 2 done. The fuel bounds the
  depth; one more than the number of tasks is enough.\<close>

fun walk :: "nat \<Rightarrow> (string \<times> Task) list \<Rightarrow> string \<Rightarrow> (string \<Rightarrow> nat) \<Rightarrow> (err + (string \<Rightarrow> nat)) option"
  and walk_deps :: "nat \<Rightarrow> (string \<times> Task) list \<Rightarrow> string list \<Rightarrow> (string \<Rightarrow> nat) \<Rightarrow> (err + (string \<Rightarrow> nat)) option" where
  "walk 0 cur i c = None"
| "walk (Suc n) cur i c =
     (if c i = 1 then Some (Inl ErrDependencyUnresolved)
      else if c i = 2 then Some (Inr c)
      else case walk_deps n cur (case map_of cur i of None \<Rightarrow> [] | Some t \<Rightarrow> deps_of t) (c(i := 1)) of
        None \<Rightarrow> None
      | Some (Inl x) \<Rightarrow> Some (Inl x)
      | Some (Inr c') \<Rightarrow> Some (Inr (c'(i := 2))))"
| "walk_deps n cur [] c = Some (Inr c)"
| "walk_deps n cur (i # is) c =
     (if map_of cur i = None then Some (Inl ErrDependencyUnresolved)
      else case walk n cur i c of
        None \<Rightarrow> None
      | Some (Inl x) \<Rightarrow> Some (Inl x)
      | Some (Inr c') \<Rightarrow> walk_deps n cur is c')"

fun evidence_from :: "string \<Rightarrow> nodes \<Rightarrow> (string \<times> Task) list \<Rightarrow> string list \<Rightarrow> string list \<Rightarrow> err + DependencyEvidence list" where
  "evidence_from owner nodes cur seen [] = Inr []"
| "evidence_from owner nodes cur seen (i # is) =
     (if i = owner then Inl ErrDependencyUnresolved
      else if i \<in> set seen then evidence_from owner nodes cur seen is
      else case (map_of cur i, map_of nodes i) of
        (Some t, Some nd) \<Rightarrow>
          if tc_State (tk_Content t) \<noteq> ''DONE'' then Inl ErrDependencyUnresolved
          else (case evidence_from owner nodes cur (i # seen) is of Inl x \<Rightarrow> Inl x | Inr ev \<Rightarrow>
            Inr (\<lparr>de_TaskID = i, de_Project = dn_project nd, de_AccessID = dn_accessID nd, de_Revision = tk_Revision t\<rparr> # ev))
      | _ \<Rightarrow> Inl ErrDependencyUnresolved)"

definition validateDependencyGraph :: "string \<Rightarrow> nodes \<Rightarrow> moment \<Rightarrow> err + (Task \<times> DependencyEvidence list)" where
  "validateDependencyGraph owner nodes m =
     (case current_tasks owner m [] nodes of Inl x \<Rightarrow> Inl x | Inr cur \<Rightarrow>
      case walk (Suc (length cur)) cur owner (\<lambda>_. 0) of
        None \<Rightarrow> Inl (ErrOther ''out of fuel'')
      | Some (Inl x) \<Rightarrow> Inl x
      | Some (Inr _) \<Rightarrow>
          (case map_of cur owner of None \<Rightarrow> Inl ErrDependencyUnresolved | Some t \<Rightarrow>
           case evidence_from owner nodes cur [] (deps_of t) of Inl x \<Rightarrow> Inl x | Inr ev \<Rightarrow> Inr (t, ev)))"

text \<open>Every task the walk met is in the map, so the branches for a missing one are never taken.\<close>

section \<open>The claim\<close>

record claim_run =
  rn_busy :: "err option"
  rn_start :: moment
  rn_checked :: moment
  rn_walk :: "nat \<Rightarrow> moment"
  rn_locked :: moment
  rn_authorize :: moment
  rn_commit :: "err option"

fun access_of :: "string \<Rightarrow> nodes \<Rightarrow> string" where
  "access_of p [] = []"
| "access_of p ((i, nd) # ns) = (if dn_project nd = p then dn_accessID nd else access_of p ns)"

fun authorize_projects :: "nodes \<Rightarrow> moment \<Rightarrow> string list \<Rightarrow> err option" where
  "authorize_projects nodes m [] = mo_ctx m"
| "authorize_projects nodes m (p # ps) =
     (case ExistingProjectAccessID p (mo_world m) of Inl x \<Rightarrow> Some ErrDependencyUnresolved | Inr current \<Rightarrow>
      if current \<noteq> access_of p nodes then Some ErrDependencyUnresolved
      else case mo_verify m p (access_of p nodes) of Some x \<Rightarrow> Some ErrDependencyUnresolved | None \<Rightarrow>
      authorize_projects nodes m ps)"

definition authorize_claim :: "nodes \<Rightarrow> moment \<Rightarrow> err option" where
  "authorize_claim nodes m = (case mo_ctx m of Some x \<Rightarrow> Some x | None \<Rightarrow> authorize_projects nodes m (dependencyProjects nodes))"

text \<open>The locks, in the order of the project names.\<close>

fun lock_projects :: "moment \<Rightarrow> string list \<Rightarrow> err option" where
  "lock_projects m [] = None"
| "lock_projects m (p # ps) =
     (case mo_ctx m of Some x \<Rightarrow> Some x | None \<Rightarrow>
      case OpenExisting p (mo_world m) of Inl x \<Rightarrow> Some x | Inr d \<Rightarrow> lock_projects m ps)"

definition dependent_claim_tx ::
  "env \<Rightarrow> TaskReservationInput \<Rightarrow> TaskActor \<Rightarrow> ReservationBinding \<Rightarrow> ReservationCoordination option \<Rightarrow> nodes \<Rightarrow> moment
    \<Rightarrow> db \<Rightarrow> err + (TaskReservationOutcome \<times> db)" where
  "dependent_claim_tx e i actor binding coord nodes m d =
     (case validateDependencyGraph (ri_TaskID i) nodes m of Inl x \<Rightarrow> Inl x | Inr (current, evidence) \<Rightarrow>
      if tk_Revision current \<noteq> ri_ExpectedRevision i then Inl (TaskConflict current)
      else commit_claim e i actor binding coord (Some evidence) current
        (readTaskReservation (ri_TaskID i) (tk_Revision current) d) d)"

text \<open>Under the locks: the transaction on the owner's database, its receipt, the commit.\<close>

definition claim_locked ::
  "env \<Rightarrow> TaskReservationInput \<Rightarrow> TaskActor \<Rightarrow> ReservationBinding \<Rightarrow> string \<Rightarrow> ReservationCoordination option \<Rightarrow> string \<Rightarrow> nodes
    \<Rightarrow> claim_run \<Rightarrow> err + (TaskReservationOutcome \<times> db)" where
  "claim_locked e i actor binding key coord project nodes r =
     (case lock_projects (rn_locked r) (dependencyProjects nodes) of Some x \<Rightarrow> Inl x | None \<Rightarrow>
      case OpenExisting project (mo_world (rn_locked r)) of Inl x \<Rightarrow> Inl x | Inr d \<Rightarrow>
      case reservationMutation e actor binding ReservationClaim i key None
          (dependent_claim_tx e i actor binding coord nodes (rn_locked r)) (Some (authorize_claim nodes (rn_authorize r))) d of
        Inl x \<Rightarrow> Inl x
      | Inr (out, d') \<Rightarrow> (case rn_commit r of Some x \<Rightarrow> Inl x | None \<Rightarrow> Inr (out, d')))"

definition nodes_project :: "string \<Rightarrow> nodes \<Rightarrow> string" where
  "nodes_project i nodes = (case map_of nodes i of None \<Rightarrow> [] | Some nd \<Rightarrow> dn_project nd)"

text \<open>Before the walk: access, a committed retry's answer, whether tasks are enabled.\<close>

definition claim_checks ::
  "env \<Rightarrow> TaskReservationInput \<Rightarrow> TaskActor \<Rightarrow> ReservationBinding \<Rightarrow> string \<Rightarrow> moment \<Rightarrow> string
    \<Rightarrow> err + TaskReservationOutcome option" where
  "claim_checks e i actor binding key m project =
     (case mo_ctx m of Some x \<Rightarrow> Inl x | None \<Rightarrow>
      case ExistingProjectAccessID project (mo_world m) of Inl x \<Rightarrow> Inl ErrDependencyUnresolved | Inr ownerAccessID \<Rightarrow>
      if ownerAccessID = [] then Inl ErrDependencyUnresolved
      else case mo_verify m project ownerAccessID of Some x \<Rightarrow> Inl ErrDependencyUnresolved | None \<Rightarrow>
      case OpenExisting project (mo_world m) of Inl x \<Rightarrow> Inl x | Inr d \<Rightarrow>
      case GetTaskReservationReceipt e ReservationClaim i actor binding key d of Inl x \<Rightarrow> Inl x | Inr found \<Rightarrow>
      if found \<noteq> None then Inr found
      else if \<not> TasksEnabled d then Inl ErrReservationTasksDisabled
      else case GetTask (ri_TaskID i) d of Inl x \<Rightarrow> Inl x | Inr owner \<Rightarrow> Inr None)"

text \<open>The answer, with the project and its new database when a transaction committed.\<close>

definition claim_walked ::
  "env \<Rightarrow> TaskReservationInput \<Rightarrow> TaskActor \<Rightarrow> ReservationBinding \<Rightarrow> string \<Rightarrow> ReservationCoordination option \<Rightarrow> claim_run \<Rightarrow> string
    \<Rightarrow> taskHints \<Rightarrow> (err + TaskReservationOutcome \<times> (string \<times> db) option) \<times> taskHints" where
  "claim_walked e i actor binding key coord r project h =
     (case locateDependencyGraph (rn_walk r) (ri_TaskID i) h of (res, h') \<Rightarrow>
       ((case res of Inl x \<Rightarrow> Inl x | Inr nodes \<Rightarrow>
         if nodes_project (ri_TaskID i) nodes \<noteq> project then Inl ErrDependencyUnresolved
         else case claim_locked e i actor binding key coord project nodes r of Inl x \<Rightarrow> Inl x
           | Inr (out, d') \<Rightarrow> Inr (out, Some (project, d'))), h'))"

definition ClaimTaskReservation ::
  "env \<Rightarrow> TaskReservationInput \<Rightarrow> TaskActor \<Rightarrow> ReservationBinding \<Rightarrow> string \<Rightarrow> ReservationCoordination option \<Rightarrow> bool
    \<Rightarrow> claim_run \<Rightarrow> taskHints \<Rightarrow> (err + TaskReservationOutcome \<times> (string \<times> db) option) \<times> taskHints" where
  "ClaimTaskReservation e i actor binding key coord verifier r h =
     (case validateReservationInput e ReservationClaim i of Some x \<Rightarrow> (Inl x, h) | None \<Rightarrow>
      case (case coord of None \<Rightarrow> None | Some c \<Rightarrow> coordination_validate c ReservationClaim) of Some x \<Rightarrow> (Inl x, h) | None \<Rightarrow>
      if \<not> verifier then (Inl ErrDependencyUnresolved, h)
      else case rn_busy r of Some x \<Rightarrow> (Inl x, h) | None \<Rightarrow>
      case LocateTask (mo_now (rn_start r)) (mo_world (rn_start r)) (mo_scans (rn_start r)) (ri_TaskID i) h of (res, h1) \<Rightarrow>
      (case res of Inl x \<Rightarrow> (Inl x, h1) | Inr (project, _) \<Rightarrow>
       case claim_checks e i actor binding key (rn_checked r) project of Inl x \<Rightarrow> (Inl x, h1) | Inr found \<Rightarrow>
       case found of
         Some prior \<Rightarrow> (Inr (prior\<lparr>ou_Replayed := True\<rparr>, None), h1)
       | None \<Rightarrow> claim_walked e i actor binding key coord r project h1))"

section \<open>Reconciliation\<close>

fun prove_dependencies :: "(nat \<Rightarrow> moment) \<Rightarrow> nat \<Rightarrow> DependencyEvidence list \<Rightarrow> taskHints \<Rightarrow> err option \<times> taskHints" where
  "prove_dependencies at n [] h = (None, h)"
| "prove_dependencies at n (p # ps) h =
     (let m = at n in
      case mo_ctx m of Some x \<Rightarrow> (Some x, h) | None \<Rightarrow>
      case LocateTask (mo_now m) (mo_world m) (mo_scans m) (de_TaskID p) h of
        (Inl x, h1) \<Rightarrow> (Some ErrDependencyUnresolved, h1)
      | (Inr (located, _), h1) \<Rightarrow>
      case ExistingProjectAccessID located (mo_world m) of Inl x \<Rightarrow> (Some ErrDependencyUnresolved, h1) | Inr currentAccess \<Rightarrow>
      if currentAccess \<noteq> de_AccessID p then (Some ErrDependencyUnresolved, h1)
      else case mo_verify m located currentAccess of Some x \<Rightarrow> (Some ErrDependencyUnresolved, h1) | None \<Rightarrow>
      case OpenExisting located (mo_world m) of Inl x \<Rightarrow> (Some ErrDependencyUnresolved, h1) | Inr d \<Rightarrow>
      if \<not> TasksEnabled d then (Some ErrDependencyUnresolved, h1)
      else case GetTask (de_TaskID p) d of Inl x \<Rightarrow> (Some ErrDependencyUnresolved, h1) | Inr t \<Rightarrow>
      if tc_State (tk_Content t) \<noteq> ''DONE'' \<or> tk_Revision t \<noteq> de_Revision p then (Some ErrDependencyUnresolved, h1)
      else prove_dependencies at (n + 1) ps h1)"

definition last_claim :: "string \<Rightarrow> db \<Rightarrow> event_body option" where
  "last_claim tid d = map_option re_body (find (\<lambda>r. re_task_id r = tid \<and> re_operation r = ''claim'') (rev (db_res_events d)))"

text \<open>What the claim recorded: the reservation after it, and its evidence (\<open>None\<close> is \<open>null\<close>).\<close>

definition claim_evidence :: "event_body \<Rightarrow> TaskReservation \<times> DependencyEvidence list option" where
  "claim_evidence ev = (case ev of TransitionEvent _ after _ _ _ _ _ _ deps \<Rightarrow> (after, deps) | RecoveryEvent _ after _ _ _ _ \<Rightarrow> (after, None))"

text \<open>The current dependencies are exactly those the evidence proves, as sets.\<close>

definition same_dependencies :: "string list \<Rightarrow> DependencyEvidence list \<Rightarrow> bool" where
  "same_dependencies ids evidence \<longleftrightarrow> list_all (\<lambda>i. i \<in> set (map de_TaskID evidence)) ids
     \<and> card (set ids) = card (set (map de_TaskID evidence))"

text \<open>The hold and the evidence of its claim, if they still fit the task.\<close>

definition reconcile_read :: "string \<Rightarrow> moment \<Rightarrow> string \<Rightarrow> err + (TaskReservation \<times> DependencyEvidence list)" where
  "reconcile_read tid m project =
     (case ExistingProjectAccessID project (mo_world m) of Inl x \<Rightarrow> Inl ErrDependencyUnresolved | Inr accessID \<Rightarrow>
      if accessID = [] then Inl ErrDependencyUnresolved
      else case mo_verify m project accessID of Some x \<Rightarrow> Inl ErrDependencyUnresolved | None \<Rightarrow>
      case OpenExisting project (mo_world m) of Inl x \<Rightarrow> Inl x | Inr d \<Rightarrow>
      case GetTaskReservation tid d of Inl x \<Rightarrow> Inl x | Inr hold \<Rightarrow>
      if rs_ID hold = [] then Inl ErrReservationStale
      else case last_claim tid d of None \<Rightarrow> Inl ErrNoRows | Some body \<Rightarrow>
      if rs_ID (fst (claim_evidence body)) \<noteq> rs_ID hold then Inl ErrDependencyUnresolved
      else case GetTask tid d of Inl x \<Rightarrow> Inl ErrDependencyUnresolved | Inr owner \<Rightarrow>
      case snd (claim_evidence body) of None \<Rightarrow> Inl ErrDependencyUnresolved | Some evidence \<Rightarrow>
      if \<not> same_dependencies (deps_of owner) evidence then Inl ErrDependencyUnresolved
      else Inr (hold, evidence))"

definition ReconcileReservationDependencies ::
  "string \<Rightarrow> bool \<Rightarrow> err option \<Rightarrow> moment \<Rightarrow> (nat \<Rightarrow> moment) \<Rightarrow> moment \<Rightarrow> taskHints \<Rightarrow> (bool \<times> err option) \<times> taskHints" where
  "ReconcileReservationDependencies tid verifier busy m at fin h =
     (if \<not> verifier then ((True, Some ErrDependencyUnresolved), h)
      else case busy of Some x \<Rightarrow> ((True, Some x), h) | None \<Rightarrow>
      case LocateTask (mo_now m) (mo_world m) (mo_scans m) tid h of (res, h1) \<Rightarrow>
      (case res of Inl x \<Rightarrow> ((True, Some x), h1) | Inr (project, _) \<Rightarrow>
       case reconcile_read tid m project of Inl x \<Rightarrow> ((True, Some x), h1) | Inr (hold, evidence) \<Rightarrow>
       case prove_dependencies at 0 evidence h1 of (failed, h2) \<Rightarrow>
       (case failed of Some x \<Rightarrow> ((True, Some x), h2) | None \<Rightarrow>
        case OpenExisting project (mo_world fin) of Inl x \<Rightarrow> ((True, Some ErrDependencyUnresolved), h2) | Inr d' \<Rightarrow>
        case GetTaskReservation tid d' of Inl x \<Rightarrow> ((True, Some ErrDependencyUnresolved), h2) | Inr currentHold \<Rightarrow>
        if rs_ID currentHold \<noteq> rs_ID hold then ((True, Some ErrDependencyUnresolved), h2) else ((False, None), h2))))"

end
