(* ===== verification/DependencyProps.thy ===== *)
theory DependencyProps
  imports Dependencies ExamplesBoard
begin

text \<open>
  The walk over a dependency graph decides whether everything the task depends on is known and
  acyclic; a claim that commits has proved its dependencies under the locks, whatever happened
  while the graph was gathered; and reconciliation finds exactly that evidence again.
\<close>

section \<open>The graph\<close>

definition dep_edges :: "(string \<times> Task) list \<Rightarrow> (string \<times> string) set" where
  "dep_edges cur = {(a, b). \<exists>t. map_of cur a = Some t \<and> b \<in> set (deps_of t)}"

text \<open>All that \<open>i\<close> depends on, directly or not, is known, and none of it depends on itself.\<close>

definition well_founded_from :: "(string \<times> Task) list \<Rightarrow> string \<Rightarrow> bool" where
  "well_founded_from cur i \<longleftrightarrow> (\<forall>j. (i, j) \<in> (dep_edges cur)\<^sup>* \<longrightarrow> map_of cur j \<noteq> None \<and> (j, j) \<notin> (dep_edges cur)\<^sup>+)"

text \<open>The tasks done: closed under dependencies, all known, none on a cycle.\<close>

definition done_ok :: "(string \<times> Task) list \<Rightarrow> (string \<Rightarrow> nat) \<Rightarrow> bool" where
  "done_ok cur c \<longleftrightarrow> (\<forall>x. c x = 2 \<longrightarrow> (\<forall>y. (x, y) \<in> dep_edges cur \<longrightarrow> c y = 2 \<and> map_of cur y \<noteq> None) \<and> (x, x) \<notin> (dep_edges cur)\<^sup>+)"

lemma done_closed:
  assumes "done_ok cur c" "c x = 2" "(x, y) \<in> (dep_edges cur)\<^sup>*"
  shows "c y = 2"
  using assms(3,2) by (induction rule: rtrancl_induct) (use assms(1) in \<open>auto simp: done_ok_def\<close>)

text \<open>What a walk does to the colours.\<close>

definition recolours :: "(string \<Rightarrow> nat) \<Rightarrow> (string \<Rightarrow> nat) \<Rightarrow> bool" where
  "recolours c c' \<longleftrightarrow> c' -` {1} = c -` {1} \<and> c -` {2} \<subseteq> c' -` {2} \<and> c' -` {0} \<subseteq> c -` {0}"

lemma recolours_refl [simp]: "recolours c c"
  by (simp add: recolours_def)

lemma recolours_trans [trans]: "recolours a b \<Longrightarrow> recolours b c \<Longrightarrow> recolours a c"
  unfolding recolours_def by (metis order_trans)

lemma recoloursD: "recolours c c' \<Longrightarrow> c x = 2 \<Longrightarrow> c' x = 2" "recolours c c' \<Longrightarrow> c' x = 1 \<longleftrightarrow> c x = 1"
  "recolours c c' \<Longrightarrow> c' x = 0 \<Longrightarrow> c x = 0"
  unfolding recolours_def by (auto simp: set_eq_iff subset_iff)

lemma walk_deps_recolours:
  assumes "\<And>i c c'. walk n cur i c = Some (Inr c') \<Longrightarrow> recolours c c' \<and> c' i = 2"
  shows "walk_deps n cur is c = Some (Inr c') \<Longrightarrow> recolours c c' \<and> (\<forall>i \<in> set is. c' i = 2 \<and> map_of cur i \<noteq> None)"
proof (induction "is" arbitrary: c)
  case (Cons i ids)
  then obtain d where d: "map_of cur i \<noteq> None" "walk n cur i c = Some (Inr d)" "walk_deps n cur ids d = Some (Inr c')"
    by (auto split: option.splits sum.splits if_splits)
  note A = assms [OF d(2)] and B = Cons.IH [OF d(3)]
  have "recolours c c'" using A B recolours_trans by blast
  moreover have "c' i = 2" using A B recoloursD(1) by blast
  ultimately show ?case using B d(1) by simp
qed simp

lemma walk_recolours: "walk n cur i c = Some (Inr c') \<Longrightarrow> recolours c c' \<and> c' i = 2"
proof (induction n arbitrary: i c c')
  case (Suc n)
  show ?case
  proof (cases "c i = 2")
    case False
    with Suc.prems obtain d where "c i \<noteq> 1" and d: "c' = d(i := 2)"
      "walk_deps n cur (case map_of cur i of None \<Rightarrow> [] | Some t \<Rightarrow> deps_of t) (c(i := 1)) = Some (Inr d)"
      by (auto split: option.splits sum.splits if_splits)
    from walk_deps_recolours [OF Suc.IH d(2)] have "recolours (c(i := 1)) d" by blast
    note R = recoloursD [OF this]
    have "recolours c c'"
      unfolding recolours_def set_eq_iff subset_iff vimage_def d(1)
      using R(1) R(2) R(3) \<open>c i \<noteq> 1\<close> False by (simp split: if_splits) (metis fun_upd_apply)
    then show ?thesis unfolding d(1) by (simp only: fun_upd_same)
  qed (use Suc.prems in auto)
qed simp

section \<open>What a finished walk proves\<close>

lemma walk_deps_done:
  assumes "\<And>i c c'. walk n cur i c = Some (Inr c') \<Longrightarrow> done_ok cur c \<Longrightarrow> done_ok cur c'"
  shows "walk_deps n cur is c = Some (Inr c') \<Longrightarrow> done_ok cur c \<Longrightarrow> done_ok cur c'"
proof (induction "is" arbitrary: c)
  case (Cons i ids)
  then obtain d where "walk n cur i c = Some (Inr d)" "walk_deps n cur ids d = Some (Inr c')"
    by (auto split: option.splits sum.splits if_splits)
  with assms Cons show ?case by blast
qed simp

lemma walk_done: "walk n cur i c = Some (Inr c') \<Longrightarrow> done_ok cur c \<Longrightarrow> done_ok cur c'"
proof (induction n arbitrary: i c c')
  case (Suc n)
  show ?case
  proof (cases "c i = 2")
    case True
    with Suc.prems show ?thesis by simp
  next
    case False
    let ?deps = "case map_of cur i of None \<Rightarrow> [] | Some t \<Rightarrow> deps_of t" and ?E = "dep_edges cur"
    from False Suc.prems(1) obtain d where i: "c i \<noteq> 1" and d: "c' = d(i := 2)" "walk_deps n cur ?deps (c(i := 1)) = Some (Inr d)"
      by (auto split: option.splits sum.splits if_splits)
    have "done_ok cur (c(i := 1))" using Suc.prems(2) False by (auto simp: done_ok_def)
    then have ok: "done_ok cur d" by (rule walk_deps_done [OF _ d(2), rotated]) (rule Suc.IH)
    have "recolours (c(i := 1)) d \<and> (\<forall>j \<in> set ?deps. d j = 2 \<and> map_of cur j \<noteq> None)"
      by (rule walk_deps_recolours [OF _ d(2)]) (rule walk_recolours)
    then have R: "recolours (c(i := 1)) d" "\<forall>j \<in> set ?deps. d j = 2 \<and> map_of cur j \<noteq> None" by blast+
    have grey: "d i = 1" using recoloursD(2) [OF R(1), of i] by simp
    have succ: "d y = 2 \<and> map_of cur y \<noteq> None" if "(i, y) \<in> ?E" for y using that R(2) by (auto simp: dep_edges_def)
    have "(i, i) \<notin> ?E\<^sup>+"
    proof
      assume "(i, i) \<in> ?E\<^sup>+"
      then obtain y where "(i, y) \<in> ?E" "(y, i) \<in> ?E\<^sup>*" by (meson tranclD)
      with succ done_closed [OF ok] have "d i = 2" by blast
      with grey show False by simp
    qed
    with ok succ show ?thesis unfolding d(1) done_ok_def by (auto simp: grey)
  qed
qed simp

section \<open>Enough fuel\<close>

definition unvisited :: "(string \<times> Task) list \<Rightarrow> (string \<Rightarrow> nat) \<Rightarrow> nat" where
  "unvisited cur c = card {x \<in> dom (map_of cur). c x = 0}"

lemma unvisited_finite: "finite {x \<in> dom (map_of cur). c x = 0}"
  by (rule finite_subset [OF _ finite_dom_map_of]) auto

lemma unvisited_mono: "recolours c c' \<Longrightarrow> unvisited cur c' \<le> unvisited cur c"
  unfolding unvisited_def by (rule card_mono [OF unvisited_finite]) (auto dest: recoloursD(3))

lemma unvisited_less:
  assumes "map_of cur i \<noteq> None" "c i = 0"
  shows "unvisited cur (c(i := 1)) < unvisited cur c"
proof -
  have "{x \<in> dom (map_of cur). (c(i := 1)) x = 0} \<subset> {x \<in> dom (map_of cur). c x = 0}" using assms by auto
  then show ?thesis unfolding unvisited_def by (rule psubset_card_mono [OF unvisited_finite])
qed

lemma unvisited_start: "unvisited cur (\<lambda>_. 0) \<le> length cur"
proof -
  have "card (dom (map_of cur)) \<le> length cur" by (metis card_length dom_map_of_conv_image_fst length_map set_map)
  then show ?thesis by (simp add: unvisited_def dom_def)
qed

definition coloured :: "(string \<Rightarrow> nat) \<Rightarrow> bool" where
  "coloured c \<longleftrightarrow> (\<forall>x. c x = 0 \<or> c x = 1 \<or> c x = 2)"

lemma walk_deps_coloured:
  assumes "\<And>i c c'. walk n cur i c = Some (Inr c') \<Longrightarrow> coloured c \<Longrightarrow> coloured c'"
  shows "walk_deps n cur is c = Some (Inr c') \<Longrightarrow> coloured c \<Longrightarrow> coloured c'"
proof (induction "is" arbitrary: c)
  case (Cons i ids)
  then obtain d where "walk n cur i c = Some (Inr d)" "walk_deps n cur ids d = Some (Inr c')"
    by (auto split: option.splits sum.splits if_splits)
  with assms Cons show ?case by blast
qed simp

lemma walk_coloured: "walk n cur i c = Some (Inr c') \<Longrightarrow> coloured c \<Longrightarrow> coloured c'"
proof (induction n arbitrary: i c c')
  case (Suc n)
  show ?case
  proof (cases "c i = 2")
    case False
    with Suc.prems obtain d where d: "c' = d(i := 2)"
      "walk_deps n cur (case map_of cur i of None \<Rightarrow> [] | Some t \<Rightarrow> deps_of t) (c(i := 1)) = Some (Inr d)"
      by (auto split: option.splits sum.splits if_splits)
    have "coloured (c(i := 1))" using Suc.prems(2) by (simp add: coloured_def)
    then have "coloured d" by (rule walk_deps_coloured [OF _ d(2), rotated]) (rule Suc.IH)
    then show ?thesis by (simp add: coloured_def d(1))
  qed (use Suc.prems in auto)
qed simp

text \<open>With fuel for every task not yet visited the walk returns.\<close>

lemma walk_deps_returns:
  assumes "\<And>i c. coloured c \<Longrightarrow> unvisited cur c < n \<Longrightarrow> map_of cur i \<noteq> None \<Longrightarrow> walk n cur i c \<noteq> None"
  shows "coloured c \<Longrightarrow> unvisited cur c < n \<Longrightarrow> walk_deps n cur is c \<noteq> None"
proof (induction "is" arbitrary: c)
  case (Cons i ids)
  show ?case
  proof (cases "map_of cur i = None")
    case False
    from assms [OF Cons.prems False] obtain r where r: "walk n cur i c = Some r" by blast
    show ?thesis
    proof (cases r)
      case (Inr d)
      with r have d: "walk n cur i c = Some (Inr d)" by simp
      have "walk_deps n cur ids d \<noteq> None"
        using walk_coloured [OF d Cons.prems(1)] unvisited_mono [OF conjunct1 [OF walk_recolours [OF d]]] Cons.prems(2)
        by (intro Cons.IH) (auto intro: le_less_trans)
      then show ?thesis using False d by simp
    qed (use False r in simp)
  qed simp
qed simp

lemma walk_returns: "coloured c \<Longrightarrow> unvisited cur c < n \<Longrightarrow> map_of cur i \<noteq> None \<Longrightarrow> walk n cur i c \<noteq> None"
proof (induction n arbitrary: i c)
  case (Suc n)
  show ?case
  proof (cases "c i = 0")
    case True
    from Suc.prems(3) True have less: "unvisited cur (c(i := 1)) < n" using unvisited_less [of cur i c] Suc.prems(2) by simp
    have "coloured (c(i := 1))" using Suc.prems(1) by (simp add: coloured_def)
    from walk_deps_returns [OF Suc.IH this less] show ?thesis using True by (auto split: option.splits sum.splits)
  next
    case False
    then have "c i = 1 \<or> c i = 2" using Suc.prems(1) unfolding coloured_def by metis
    then show ?thesis by auto
  qed
qed simp

section \<open>A good graph is accepted\<close>

text \<open>The nodes on the path all lead to the node visited.\<close>

lemma walk_deps_accepts:
  assumes "\<And>i c r. walk n cur i c = Some r \<Longrightarrow> well_founded_from cur i \<Longrightarrow> (\<forall>g. c g = 1 \<longrightarrow> (g, i) \<in> (dep_edges cur)\<^sup>+) \<Longrightarrow> \<exists>c'. r = Inr c'"
  shows "walk_deps n cur is c = Some r \<Longrightarrow> \<forall>i \<in> set is. well_founded_from cur i \<and> (\<forall>g. c g = 1 \<longrightarrow> (g, i) \<in> (dep_edges cur)\<^sup>+) \<Longrightarrow> \<exists>c'. r = Inr c'"
proof (induction "is" arbitrary: c)
  case (Cons i ids)
  have "map_of cur i \<noteq> None" using Cons.prems(2) by (auto simp: well_founded_from_def)
  with Cons.prems(1) obtain q where q: "walk n cur i c = Some q" by (auto split: option.splits)
  with assms [OF q] Cons.prems(2) obtain d where d: "q = Inr d" by auto
  have "recolours c d" using walk_recolours q d by blast
  then have "d g = 1 \<longleftrightarrow> c g = 1" for g by (rule recoloursD(2))
  with Cons.prems d q \<open>map_of cur i \<noteq> None\<close> show ?case by (intro Cons.IH [of d]) auto
qed auto

lemma walk_accepts:
  "walk n cur i c = Some r \<Longrightarrow> well_founded_from cur i \<Longrightarrow> \<forall>g. c g = 1 \<longrightarrow> (g, i) \<in> (dep_edges cur)\<^sup>+ \<Longrightarrow> \<exists>c'. r = Inr c'"
proof (induction n arbitrary: i c r)
  case (Suc n)
  let ?E = "dep_edges cur"
  have nc: "(i, i) \<notin> ?E\<^sup>+" using Suc.prems(2) by (auto simp: well_founded_from_def)
  then have i: "c i \<noteq> 1" using Suc.prems(3) by blast
  show ?case
  proof (cases "c i = 2")
    case True
    with Suc.prems(1) show ?thesis by auto
  next
    case False
    let ?deps = "case map_of cur i of None \<Rightarrow> [] | Some t \<Rightarrow> deps_of t"
    from Suc.prems(1) i False obtain q where q: "walk_deps n cur ?deps (c(i := 1)) = Some q"
      by (auto split: option.splits)
    have "\<forall>j \<in> set ?deps. well_founded_from cur j \<and> (\<forall>g. (c(i := 1)) g = 1 \<longrightarrow> (g, j) \<in> ?E\<^sup>+)"
    proof (intro ballI conjI allI impI)
      fix j assume "j \<in> set ?deps"
      then have e: "(i, j) \<in> ?E" by (cases "map_of cur i") (auto simp: dep_edges_def)
      then show "well_founded_from cur j" using Suc.prems(2) unfolding well_founded_from_def by (meson converse_rtrancl_into_rtrancl)
      fix g assume "(c(i := 1)) g = 1"
      then show "(g, j) \<in> ?E\<^sup>+" using e Suc.prems(3) by (cases "g = i") (auto intro: trancl_into_trancl)
    qed
    from this have "\<exists>d. q = Inr d" by (rule walk_deps_accepts [OF _ q, rotated]) (rule Suc.IH)
    then obtain d where "q = Inr d" by blast
    then show ?thesis using Suc.prems(1) q i False by auto
  qed
qed simp

lemma walk_decides:
  assumes "map_of cur i \<noteq> None"
  shows "\<exists>r. walk (Suc (length cur)) cur i (\<lambda>_. 0) = Some r \<and> ((\<exists>c. r = Inr c) \<longleftrightarrow> well_founded_from cur i)"
proof -
  have "walk (Suc (length cur)) cur i (\<lambda>_. 0) \<noteq> None"
    by (rule walk_returns [OF _ _ assms]) (simp_all add: coloured_def le_imp_less_Suc unvisited_start)
  then obtain r where r: "walk (Suc (length cur)) cur i (\<lambda>_. 0) = Some r" by blast
  have "well_founded_from cur i" if c: "r = Inr c" for c
  proof -
    have w: "walk (Suc (length cur)) cur i (\<lambda>_. 0) = Some (Inr c)" using r c by simp
    have ok: "done_ok cur c" by (rule walk_done [OF w]) (simp add: done_ok_def)
    have i: "c i = 2" using walk_recolours [OF w] by blast
    show ?thesis unfolding well_founded_from_def
    proof (intro allI impI)
      fix j assume j: "(i, j) \<in> (dep_edges cur)\<^sup>*"
      have "map_of cur j \<noteq> None"
        using j by (cases rule: rtranclE) (use assms done_closed [OF ok i] ok in \<open>auto simp: done_ok_def\<close>)
      moreover have "c j = 2" by (rule done_closed [OF ok i j])
      ultimately show "map_of cur j \<noteq> None \<and> (j, j) \<notin> (dep_edges cur)\<^sup>+" using ok unfolding done_ok_def by blast
    qed
  qed
  moreover have "\<exists>c. r = Inr c" if "well_founded_from cur i" using walk_accepts [OF r that] by simp
  ultimately show ?thesis using r by blast
qed

text \<open>C6: The walk over the dependencies decides the question. With the fuel it is given it always
  returns, and it accepts a task exactly when everything the task depends on, however far, is among
  the tasks read and no task among those depends on itself.\<close>

theorem dependency_walk_decides:
  assumes "map_of cur i \<noteq> None"
  shows "\<exists>r. walk (Suc (length cur)) cur i (\<lambda>_. 0) = Some r
    \<and> ((\<exists>c. r = Inr c) \<longleftrightarrow>
       (\<forall>j. (i, j) \<in> {(a, b). \<exists>t. map_of cur a = Some t \<and> b \<in> set (deps_of t)}\<^sup>* \<longrightarrow>
          map_of cur j \<noteq> None \<and> (j, j) \<notin> {(a, b). \<exists>t. map_of cur a = Some t \<and> b \<in> set (deps_of t)}\<^sup>+))"
  using walk_decides [OF assms] unfolding well_founded_from_def dep_edges_def .

theorem dependency_walk_decides_witness:
  "\<exists>r. walk 2 [(ex_id 0, ex_task)] (ex_id 0) (\<lambda>_. 0) = Some r \<and> (\<exists>c. r = Inr c)"
proof -
  have E: "{(a, b). \<exists>t. map_of [(ex_id 0, ex_task)] a = Some t \<and> b \<in> set (deps_of t)} = {}" by auto
  from dependency_walk_decides [of "[(ex_id 0, ex_task)]" "ex_id 0", unfolded E] show ?thesis by (simp add: numeral_2_eq_2 del: walk.simps)
qed

section \<open>The evidence\<close>

fun firsts :: "'a list \<Rightarrow> 'a list \<Rightarrow> 'a list" where
  "firsts seen [] = []"
| "firsts seen (i # is) = (if i \<in> set seen then firsts seen is else i # firsts (i # seen) is)"

lemma set_firsts: "set (firsts seen is) = set is - set seen"
  by (induction seen "is" rule: firsts.induct) auto

lemma distinct_firsts: "distinct (firsts seen is)"
  by (induction seen "is" rule: firsts.induct) (auto simp: set_firsts)

lemma evidence_from_D:
  "evidence_from owner nodes cur seen ids = Inr ev \<Longrightarrow>
     map de_TaskID ev = firsts seen ids \<and> owner \<notin> set ids
     \<and> (\<forall>x \<in> set ev. \<exists>t nd. map_of cur (de_TaskID x) = Some t \<and> map_of nodes (de_TaskID x) = Some nd \<and> tc_State (tk_Content t) = ''DONE''
          \<and> x = \<lparr>de_TaskID = de_TaskID x, de_Project = dn_project nd, de_AccessID = dn_accessID nd, de_Revision = tk_Revision t\<rparr>)"
proof (induction seen ids arbitrary: ev rule: firsts.induct)
  case (2 seen i ids)
  from "2.prems" have i: "i \<noteq> owner" by (auto split: if_splits)
  show ?case
  proof (cases "i \<in> set seen")
    case True
    with 2 i show ?thesis by simp
  next
    case False
    with "2.prems" i obtain t nd ev' where t: "map_of cur i = Some t" "map_of nodes i = Some nd" "tc_State (tk_Content t) = ''DONE''"
      and ev: "evidence_from owner nodes cur (i # seen) ids = Inr ev'"
      "ev = \<lparr>de_TaskID = i, de_Project = dn_project nd, de_AccessID = dn_accessID nd, de_Revision = tk_Revision t\<rparr> # ev'"
      by (auto split: option.splits sum.splits if_splits)
    from "2.IH"(2) [OF False ev(1)] show ?thesis using False i t ev(2) by auto
  qed
qed simp

lemma current_tasks_D:
  "current_tasks owner m checked ns = Inr cur \<Longrightarrow>
     map fst cur = map fst ns
     \<and> (\<forall>(j, t) \<in> set cur. \<exists>nd d. (j, nd) \<in> set ns \<and> OpenExisting (dn_project nd) (mo_world m) = Inr d \<and> readTask j d = Inr t)
     \<and> (\<forall>(j, nd) \<in> set ns. dn_project nd \<notin> set checked \<longrightarrow>
          (\<exists>d. OpenExisting (dn_project nd) (mo_world m) = Inr d \<and> tasksEnabledTx d))"
proof (induction owner m checked ns arbitrary: cur rule: current_tasks.induct)
  case (2 owner m checked i nd ns)
  from "2.prems" obtain d t ts where d: "OpenExisting (dn_project nd) (mo_world m) = Inr d" "readTask i d = Inr t"
    "dn_project nd \<in> set checked \<or> tasksEnabledTx d" and ts: "current_tasks owner m (dn_project nd # checked) ns = Inr ts" "cur = (i, t) # ts"
    and g: "mo_ctx m = None" "(if dn_project nd \<in> set checked then None else mo_verify m (dn_project nd) (dn_accessID nd)) = None"
      "tk_Revision t = tk_Revision (dn_task nd)" "taskDependenciesEqual (deps_of t) (deps_of (dn_task nd))"
    by (auto split: option.splits sum.splits if_splits)
  have "\<not> (dn_project nd \<notin> set checked \<and> \<not> tasksEnabledTx d)" using d(3) by blast
  from "2.IH" [OF g(1) d(1) this g(2) d(2) _ ts(1)] g(3,4) have IH: "map fst ts = map fst ns"
     "\<forall>(j, t) \<in> set ts. \<exists>nd d. (j, nd) \<in> set ns \<and> OpenExisting (dn_project nd) (mo_world m) = Inr d \<and> readTask j d = Inr t"
     "\<forall>(j, x) \<in> set ns. dn_project x \<notin> set (dn_project nd # checked) \<longrightarrow>
          (\<exists>d. OpenExisting (dn_project x) (mo_world m) = Inr d \<and> tasksEnabledTx d)" by simp_all
  show ?case
  proof (intro conjI)
    show "map fst cur = map fst ((i, nd) # ns)" using IH(1) ts(2) by simp
    show "\<forall>(j, t) \<in> set cur. \<exists>x d. (j, x) \<in> set ((i, nd) # ns) \<and> OpenExisting (dn_project x) (mo_world m) = Inr d \<and> readTask j d = Inr t"
      using IH(2) ts(2) d(1,2) by fastforce
    show "\<forall>(j, x) \<in> set ((i, nd) # ns). dn_project x \<notin> set checked \<longrightarrow>
          (\<exists>d. OpenExisting (dn_project x) (mo_world m) = Inr d \<and> tasksEnabledTx d)"
      using IH(3) d(1,3) by fastforce
  qed
qed simp

section \<open>What a committed claim proved\<close>

lemma commit_claim_event:
  assumes "commit_claim e i actor binding coord deps t (readTaskReservation (ri_TaskID i) rv d) d = Inr (out, d')"
  shows "\<exists>before. last_claim (ri_TaskID i) d' = Some (TransitionEvent before (ou_Reservation out) actor binding (ri_Reason i) (ri_TerminalEvidence i) (ri_Intent i)
      (coord_record coord) deps)" "db_tasks d' = db_tasks d" "db_meta d' = db_meta d" "db_projectID d' = db_projectID d"
    "\<not> ou_Replayed out"
proof -
  let ?h = "readTaskReservation (ri_TaskID i) rv d"
  from assms obtain r0 r d1 where a: "advanceReservation r0 d = Inr (r, d1)" and r0: "rs_TaskID r0 = rs_TaskID ?h"
    and t: "trackServiceReservation e ?h r (holderClosedBy ReservationClaim)
        (recordReservationEvent ReservationClaim ?h r actor binding i (coord_record coord) deps d1) = Inr d'"
    and out: "out = new_outcome t r None (coord_record coord)"
    by (auto simp: commit_claim_def commit_transition_def tx_simps split: prod.splits)
  from trackServiceReservation_only [OF t] obtain sv where
    "d' = (recordReservationEvent ReservationClaim ?h r actor binding i (coord_record coord) deps d1)\<lparr>db_res_services := sv\<rparr>" by blast
  with advanceReservation_D(1,6) [OF a] r0 readTaskReservation_TaskID
  show "\<exists>before. last_claim (ri_TaskID i) d' = Some (TransitionEvent before (ou_Reservation out) actor binding (ri_Reason i) (ri_TerminalEvidence i) (ri_Intent i)
      (coord_record coord) deps)" "db_tasks d' = db_tasks d" "db_meta d' = db_meta d" "db_projectID d' = db_projectID d" "\<not> ou_Replayed out"
    by (simp_all add: recordReservationEvent_def append_res_event_def last_claim_def ReservationClaim_def out new_outcome_def)
qed

lemma validate_D:
  assumes "validateDependencyGraph owner nodes m = Inr (t, ev)"
  obtains cur where "current_tasks owner m [] nodes = Inr cur" "map_of cur owner = Some t" "well_founded_from cur owner"
    "evidence_from owner nodes cur [] (deps_of t) = Inr ev"
proof -
  from assms obtain cur c where c: "current_tasks owner m [] nodes = Inr cur" "walk (Suc (length cur)) cur owner (\<lambda>_. 0) = Some (Inr c)"
    and t: "map_of cur owner = Some t" "evidence_from owner nodes cur [] (deps_of t) = Inr ev"
    by (auto simp: validateDependencyGraph_def simp del: walk.simps split: sum.splits option.splits)
  have "map_of cur owner \<noteq> None" using t(1) by simp
  from walk_decides [OF this] c(2) have "well_founded_from cur owner" by auto
  with that c(1) t show ?thesis by blast
qed

lemma ClaimTaskReservation_D:
  assumes "ClaimTaskReservation e i actor binding key coord v r h = (Inr (out, Some (p, d')), h')" "\<not> ou_Replayed out"
  obtains nodes d ev d1 res t where "OpenExisting p (mo_world (rn_locked r)) = Inr d"
    "validateDependencyGraph (ri_TaskID i) nodes (rn_locked r) = Inr (ou_Task out, ev)"
    "tk_Revision (ou_Task out) = ri_ExpectedRevision i"
    "commit_claim e i actor binding coord (Some ev) (ou_Task out) (readTaskReservation (ri_TaskID i) (tk_Revision (ou_Task out)) d) d = Inr (res, d1)"
    "out = res\<lparr>ou_Binding := binding\<rparr>" "d' = d1\<lparr>db_res_requests := t\<rparr>" "nodes_project (ri_TaskID i) nodes = p"
    "authorize_claim nodes (rn_authorize r) = None" "is_id (ri_TaskID i)" "taskScopeOK d = None"
proof -
  from assms(1) have id: "is_id (ri_TaskID i)"
    by (auto simp: ClaimTaskReservation_def LocateTask_def split: option.splits if_splits)
  from assms(1) obtain nodes where c: "claim_locked e i actor binding key coord p nodes r = Inr (out, d')" and np: "nodes_project (ri_TaskID i) nodes = p"
    by (auto simp: ClaimTaskReservation_def claim_walked_def split: option.splits if_splits prod.splits sum.splits)
  from c obtain d where d: "OpenExisting p (mo_world (rn_locked r)) = Inr d"
    and m: "reservationMutation e actor binding ReservationClaim i key None
          (dependent_claim_tx e i actor binding coord nodes (rn_locked r)) (Some (authorize_claim nodes (rn_authorize r))) d = Inr (out, d')"
    by (auto simp: claim_locked_def split: option.splits sum.splits prod.splits)
  from m show ?thesis
  proof (cases rule: reservationMutation_cases)
    case (replay who saved)
    with assms(2) show ?thesis by simp
  next
    case (fresh who res d1 t row)
    from fresh(2) obtain current ev where v: "validateDependencyGraph (ri_TaskID i) nodes (rn_locked r) = Inr (current, ev)"
      "tk_Revision current = ri_ExpectedRevision i"
      and k: "commit_claim e i actor binding coord (Some ev) current (readTaskReservation (ri_TaskID i) (tk_Revision current) d) d = Inr (res, d1)"
      by (auto simp: dependent_claim_tx_def split: sum.splits prod.splits if_splits)
    have "ou_Task res = current" by (rule commit_claim_D(6) [OF k])
    then have "ou_Task out = current" using fresh(3) by simp
    with that d v k fresh np id show ?thesis by auto
  qed
qed

text \<open>C5: A claim that commits has proved its dependencies. Whatever happened to any project while
  the graph was gathered without locks, in the locked state the claim commits in, everything the
  task depends on is known, read from a project with tasks enabled and free of cycles, every direct
  dependency is DONE, and the event the claim logs records exactly the direct dependencies, each
  once, with their current revisions.\<close>

theorem claim_proves_dependencies:
  assumes "ClaimTaskReservation e i actor binding key coord v r h = (Inr (out, Some (p, d')), h')" "\<not> ou_Replayed out"
  shows "\<exists>cur ev. (\<forall>(j, t) \<in> set cur. \<exists>q dq. OpenExisting q (mo_world (rn_locked r)) = Inr dq \<and> tasksEnabledTx dq \<and> readTask j dq = Inr t)
    \<and> map_of cur (ri_TaskID i) = Some (ou_Task out) \<and> tk_Revision (ou_Task out) = ri_ExpectedRevision i
    \<and> well_founded_from cur (ri_TaskID i)
    \<and> (\<forall>j \<in> set (deps_of (ou_Task out)). \<exists>t. map_of cur j = Some t \<and> tc_State (tk_Content t) = ''DONE'')
    \<and> map_option claim_evidence (last_claim (ri_TaskID i) d') = Some (ou_Reservation out, Some ev)
    \<and> set (map de_TaskID ev) = set (deps_of (ou_Task out)) \<and> distinct (map de_TaskID ev)
    \<and> (\<forall>x \<in> set ev. \<exists>t. map_of cur (de_TaskID x) = Some t \<and> de_Revision x = tk_Revision t)"
proof -
  from ClaimTaskReservation_D [OF assms] obtain nodes d ev d1 res t where d: "OpenExisting p (mo_world (rn_locked r)) = Inr d"
    and v: "validateDependencyGraph (ri_TaskID i) nodes (rn_locked r) = Inr (ou_Task out, ev)" and rev: "tk_Revision (ou_Task out) = ri_ExpectedRevision i"
    and k: "commit_claim e i actor binding coord (Some ev) (ou_Task out) (readTaskReservation (ri_TaskID i) (tk_Revision (ou_Task out)) d) d = Inr (res, d1)"
    and o: "out = res\<lparr>ou_Binding := binding\<rparr>" "d' = d1\<lparr>db_res_requests := t\<rparr>" by metis
  from validate_D [OF v] obtain cur where cur: "current_tasks (ri_TaskID i) (rn_locked r) [] nodes = Inr cur"
    "map_of cur (ri_TaskID i) = Some (ou_Task out)" "well_founded_from cur (ri_TaskID i)"
    and ev: "evidence_from (ri_TaskID i) nodes cur [] (deps_of (ou_Task out)) = Inr ev" by metis
  note C = current_tasks_D [OF cur(1)] and E = evidence_from_D [OF ev]
  have read: "\<forall>(j, t) \<in> set cur. \<exists>q dq. OpenExisting q (mo_world (rn_locked r)) = Inr dq \<and> tasksEnabledTx dq \<and> readTask j dq = Inr t"
    using C by fastforce
  have ids: "set (map de_TaskID ev) = set (deps_of (ou_Task out))" "distinct (map de_TaskID ev)"
    unfolding conjunct1 [OF E] by (simp_all add: set_firsts distinct_firsts)
  have fin: "\<exists>t. map_of cur j = Some t \<and> tc_State (tk_Content t) = ''DONE''" if "j \<in> set (deps_of (ou_Task out))" for j
  proof -
    have "j \<in> de_TaskID ` set ev" using that ids(1) by simp
    then obtain x where "x \<in> set ev" "j = de_TaskID x" by (rule imageE)
    with E show ?thesis by blast
  qed
  have revs: "\<exists>t. map_of cur (de_TaskID x) = Some t \<and> de_Revision x = tk_Revision t" if "x \<in> set ev" for x
    using that E by (metis DependencyEvidence.select_convs(4))
  obtain before where "last_claim (ri_TaskID i) d1 = Some (TransitionEvent before (ou_Reservation res) actor binding (ri_Reason i) (ri_TerminalEvidence i) (ri_Intent i)
      (coord_record coord) (Some ev))" using commit_claim_event(1) [OF k] by blast
  then have "map_option claim_evidence (last_claim (ri_TaskID i) d1) = Some (ou_Reservation res, Some ev)"
    by (simp add: claim_evidence_def)
  then have "map_option claim_evidence (last_claim (ri_TaskID i) d') = Some (ou_Reservation out, Some ev)"
    by (simp add: o last_claim_def)
  with read cur(2,3) rev ids fin revs show ?thesis
    by (intro exI [of _ cur] exI [of _ ev] conjI) auto
qed

section \<open>A claim with one finished dependency\<close>

definition need :: Task where
  "need = ex_task\<lparr>tk_Content := ex_content\<lparr>tc_Dependencies := [ex_id 3]\<rparr>\<rparr>"

definition met :: Task where
  "met = ex_task\<lparr>tk_ID := ex_id 3, tk_Content := ex_content\<lparr>tc_State := ''DONE''\<rparr>\<rparr>"

definition two :: db where
  "two = db0\<lparr>db_tasks := [(ex_id 0, task_columns need), (ex_id 3, task_columns met)]\<rparr>"

definition two_world :: world where
  "two_world = \<lparr>wd_fault = None, wd_dirs = [(''p'', \<lparr>pd_open = Inr two, pd_access = Inr ''a''\<rparr>)]\<rparr>"

definition two_moment :: moment where
  "two_moment = \<lparr>mo_world = two_world, mo_ctx = None, mo_verify = (\<lambda>_ _. None), mo_now = 5, mo_scans = (\<lambda>_. (two_world, False))\<rparr>"

definition two_run :: claim_run where
  "two_run = \<lparr>rn_busy = None, rn_start = two_moment, rn_checked = two_moment, rn_walk = (\<lambda>_. two_moment),
     rn_locked = two_moment, rn_authorize = two_moment, rn_commit = None\<rparr>"

definition two_nodes :: nodes where
  "two_nodes = [(ex_id 3, \<lparr>dn_task = met, dn_project = ''p'', dn_accessID = ''a''\<rparr>),
     (ex_id 0, \<lparr>dn_task = need, dn_project = ''p'', dn_accessID = ''a''\<rparr>)]"

definition two_proof :: DependencyEvidence where
  "two_proof = \<lparr>de_TaskID = ex_id 3, de_Project = ''p'', de_AccessID = ''a'', de_Revision = 1\<rparr>"

definition two_claimed :: TaskReservationOutcome where
  "two_claimed = (new_outcome need ex_hold None None)\<lparr>ou_Binding := ex_binding\<rparr>"

definition two_db :: db where
  "two_db = two\<lparr>db_reservations := [(ex_id 0, ex_hold_row)],
     db_res_events := [\<lparr>re_task_id = ex_id 0, re_fence = 1, re_operation = ReservationClaim,
        re_body = TransitionEvent ex_free ex_hold ex_user ex_binding [] None [] None (Some [two_proof])\<rparr>],
     db_res_requests := [((ex_who, ReservationClaim, ex_id 0, ''r2''), ex_claim_receipt\<lparr>rq_result := two_claimed\<rparr>)]\<rparr>"

lemma two_sel [simp]: "tk_ID need = ex_id 0" "tk_ID met = ex_id 3" "tk_Revision need = 1" "tk_Revision met = 1"
  "tc_Dependencies (tk_Content need) = [ex_id 3]" "tc_Dependencies (tk_Content met) = []" "tc_State (tk_Content need) = ''READY''"
  "tc_State (tk_Content met) = ''DONE''" "\<not> tc_Archived (tk_Content need)"
  "db_meta two = [(''tasks'', ''on'')]" "db_tasks two = [(ex_id 0, task_columns need), (ex_id 3, task_columns met)]"
  "db_reservations two = []" "db_res_events two = []" "db_res_requests two = []" "db_managed two = []" "db_assignments two = []"
  "db_res_services two = []" "db_projectID two = ''p''"
  by (simp_all add: need_def met_def two_def db0_def)

lemma two_moment_sel [simp]: "mo_world two_moment = two_world" "mo_ctx two_moment = None" "mo_verify two_moment = (\<lambda>_ _. None)"
  "mo_now two_moment = 5" "mo_scans two_moment = (\<lambda>_. (two_world, False))"
  by (simp_all add: two_moment_def)

lemma two_run_sel [simp]: "rn_busy two_run = None" "rn_start two_run = two_moment" "rn_checked two_run = two_moment"
  "rn_walk two_run = (\<lambda>_. two_moment)" "rn_locked two_run = two_moment" "rn_authorize two_run = two_moment" "rn_commit two_run = None"
  by (simp_all add: two_run_def)

lemma two_scope [simp]: "taskScopeOK two = None"
  by (simp add: taskScopeOK_def IsReservedProject_def UserScopeProject_def)

lemma two_readTask [simp]: "readTask (ex_id 0) two = Inr need" "readTask (ex_id 3) two = Inr met"
  "GetTask (ex_id 0) two = Inr need" "GetTask (ex_id 3) two = Inr met" "TasksEnabled two" "tasksEnabledTx two"
  by (simp_all add: GetTask_def readTask_def coordination_of_def task_columns_def TasksEnabled_def tasksEnabledTx_def)

lemma two_world_open: "ValidProjectID ''p''" "\<not> IsReservedProject ''p''"
  by (code_simp, simp add: IsReservedProject_def UserScopeProject_def)

lemma two_open [simp]: "OpenExisting q two_world = (if q = ''p'' then Inr two else Inl (ErrOther ''no such project''))"
  "ExistingProjectAccessID ''p'' two_world = Inr ''a''"
  using two_world_open by (auto simp: OpenExisting_def ExistingProjectAccessID_def two_world_def UserScopeProject_def)

lemma two_ok: "hub_ok two_world"
proof -
  have r: "Projects two_world = Inr [''p'']" "ordinary two_world = [(''p'', two)]"
    using two_world_open by (auto simp: Projects_def two_world_def ordinary_def OpenExisting_def)
  have t: "has_task i two \<longleftrightarrow> i = ex_id 0 \<or> i = ex_id 3" for i
    by (auto simp: has_task_def readTask_def coordination_of_def reserved_attempt_def split: option.splits)
  show ?thesis by (auto simp: hub_ok_def readable_def r t succeeds_iff split: if_splits)
qed

lemma two_locate:
  assumes "hints_ok 5 two_world h" "k = 0 \<or> k = 3"
  obtains h' where "LocateTask 5 two_world (\<lambda>_. (two_world, False)) (ex_id k) h = (Inr (''p'', two), h')" "hints_ok 5 two_world h'"
proof -
  obtain r h' where l: "LocateTask 5 two_world (\<lambda>_. (two_world, False)) (ex_id k) h = (r, h')" by fastforce
  have "scanForTask two_world (ex_id k) = Inr (''p'', two)"
    using assms(2) by (intro scan_finds [OF two_ok]) (auto simp: has_task_def)
  with l LocateTask_scan [OF two_ok assms(1) l] that show ?thesis by simp
qed

lemma two_node:
  assumes "hints_ok 5 two_world h" "k = 0 \<or> k = 3"
  obtains h' where "locate_node two_moment two_moment v (ex_id k) h = (Inr \<lparr>dn_task = (if k = 0 then need else met), dn_project = ''p'', dn_accessID = ''a''\<rparr>, h')"
    "hints_ok 5 two_world h'"
proof -
  obtain h' where "LocateTask 5 two_world (\<lambda>_. (two_world, False)) (ex_id k) h = (Inr (''p'', two), h')" "hints_ok 5 two_world h'"
    using two_locate [OF assms] by blast
  with that assms(2) show ?thesis by (auto simp: locate_node_def)
qed

lemma two_graph:
  assumes "hints_ok 5 two_world h"
  obtains h' where "locateDependencyGraph (\<lambda>_. two_moment) (ex_id 0) h = (Inr two_nodes, h')"
proof -
  obtain h1 where 1: "locate_node two_moment two_moment [] (ex_id 0) h = (Inr \<lparr>dn_task = need, dn_project = ''p'', dn_accessID = ''a''\<rparr>, h1)"
      "hints_ok 5 two_world h1" using two_node [OF assms, of 0] by auto
  obtain h2 where 2: "locate_node two_moment two_moment [''p''] (ex_id 3) h1 = (Inr \<lparr>dn_task = met, dn_project = ''p'', dn_accessID = ''a''\<rparr>, h2)"
    using two_node [OF 1(2), of 3] by auto
  show ?thesis by (rule that [of h2]) (simp add: locateDependencyGraph_def 1(1) 2 maxDependencyWalk_def two_nodes_def)
qed

lemma two_valid: "validateDependencyGraph (ex_id 0) two_nodes two_moment = Inr (need, [two_proof])"
  by (simp add: validateDependencyGraph_def two_nodes_def taskDependenciesEqual_def two_proof_def)

lemma two_commit: "claim_locked (ex_env 2) ex_claim ex_user ex_binding ''r2'' None ''p'' two_nodes two_run = Inr (two_claimed, two_db)"
proof -
  have r: "readTaskReservation (ex_id 0) 1 two = ex_free" by (simp add: readTaskReservation_def ex_free_def)
  have f: "ex_free\<lparr>rs_ID := ex_id 2, rs_Holder := ex_holder, rs_Binding := ex_binding, rs_IntendedWorker := None\<rparr> = ex_hold\<lparr>rs_Fence := 0\<rparr>"
    by (simp add: ex_free_def ex_hold_def)
  have a: "advanceReservation (ex_hold\<lparr>rs_Fence := 0\<rparr>) two = Inr (ex_hold, two\<lparr>db_reservations := [(ex_id 0, ex_hold_row)]\<rparr>)"
    by (simp add: advanceReservation_def MaxInt64_def Let_def reservation_check_def ex_hold_row_def) (simp add: ex_hold_def)
  have p: "dependencyProjects two_nodes = [''p'']" by (simp add: dependencyProjects_def two_nodes_def)
  have u: "authorize_claim two_nodes two_moment = None" by (simp add: authorize_claim_def p) (simp add: two_nodes_def)
  let ?d = "two\<lparr>db_reservations := [(ex_id 0, ex_hold_row)],
     db_res_events := [\<lparr>re_task_id = ex_id 0, re_fence = 1, re_operation = ReservationClaim,
        re_body = TransitionEvent ex_free ex_hold ex_user ex_binding [] None [] None (Some [two_proof])\<rparr>]\<rparr>"
  have c: "commit_claim (ex_env 2) ex_claim ex_user ex_binding None (Some [two_proof]) need ex_free two
      = Inr (new_outcome need ex_hold None None, ?d)"
    by (simp add: commit_claim_def task_managed_def checkProcessPin_def coord_pin_def coord_intended_def commit_transition_def f a
        trackServiceReservation_def recordReservationEvent_def append_res_event_def coord_record_def)
  have t: "dependent_claim_tx (ex_env 2) ex_claim ex_user ex_binding None two_nodes two_moment two = Inr (new_outcome need ex_hold None None, ?d)"
    by (simp add: dependent_claim_tx_def two_valid r c)
  have m: "reservationMutation (ex_env 2) ex_user ex_binding ReservationClaim ex_claim ''r2'' None
      (dependent_claim_tx (ex_env 2) ex_claim ex_user ex_binding None two_nodes two_moment) (Some None) two = Inr (two_claimed, two_db)"
    by (simp add: reservationMutation_def t Let_def tb_insert_def) (simp add: two_db_def two_claimed_def ex_claim_receipt_def new_outcome_def)
  show ?thesis by (simp add: claim_locked_def p u m)
qed

lemma two_claim: "\<exists>h'. ClaimTaskReservation (ex_env 2) ex_claim ex_user ex_binding ''r2'' None True two_run newTaskHints
    = (Inr (two_claimed, Some (''p'', two_db)), h')"
proof -
  have h: "hints_ok 5 two_world newTaskHints" by (simp add: hints_ok_def newTaskHints_def)
  obtain h1 where 1: "LocateTask 5 two_world (\<lambda>_. (two_world, False)) (ex_id 0) newTaskHints = (Inr (''p'', two), h1)" "hints_ok 5 two_world h1"
    using two_locate [OF h, of 0] by auto
  obtain h2 where 2: "locateDependencyGraph (\<lambda>_. two_moment) (ex_id 0) h1 = (Inr two_nodes, h2)" using two_graph [OF 1(2)] .
  have c: "claim_checks (ex_env 2) ex_claim ex_user ex_binding ''r2'' two_moment ''p'' = Inr None"
    by (simp add: claim_checks_def GetTaskReservationReceipt_def)
  have n: "nodes_project (ex_id 0) two_nodes = ''p''" by (simp add: nodes_project_def two_nodes_def)
  show ?thesis by (simp add: ClaimTaskReservation_def 1(1) c claim_walked_def 2 n two_commit)
qed

theorem claim_proves_dependencies_witness:
  "\<exists>ev. map_option claim_evidence (last_claim (ex_id 0) two_db) = Some (ex_hold, Some ev) \<and> de_TaskID ` set ev = {ex_id 3}"
proof -
  have r: "ou_Reservation two_claimed = ex_hold" "deps_of (ou_Task two_claimed) = [ex_id 3]" "ri_TaskID ex_claim = ex_id 0" "\<not> ou_Replayed two_claimed"
    by (simp_all add: two_claimed_def new_outcome_def)
  obtain h' where c: "ClaimTaskReservation (ex_env 2) ex_claim ex_user ex_binding ''r2'' None True two_run newTaskHints
    = (Inr (two_claimed, Some (''p'', two_db)), h')" using two_claim by blast
  from claim_proves_dependencies [OF c r(4)] show ?thesis
  proof (elim exE conjE)
    fix ev
    assume "map_option claim_evidence (last_claim (ri_TaskID ex_claim) two_db) = Some (ou_Reservation two_claimed, Some ev)"
      "set (map de_TaskID ev) = set (deps_of (ou_Task two_claimed))"
    then show ?thesis by (intro exI [of _ ev]) (simp add: r)
  qed
qed

section \<open>Reconciliation\<close>

lemma same_dependencies_set: "same_dependencies ids ev \<Longrightarrow> set ids = set (map de_TaskID ev)"
proof -
  assume s: "same_dependencies ids ev"
  then have "set ids \<subseteq> set (map de_TaskID ev)" by (auto simp: same_dependencies_def list_all_iff)
  with s show ?thesis by (intro card_subset_eq) (simp_all add: same_dependencies_def)
qed

text \<open>One evidence entry, proved again at one moment.\<close>

definition proved_at :: "moment \<Rightarrow> DependencyEvidence \<Rightarrow> bool" where
  "proved_at m x \<longleftrightarrow> (\<exists>q d t. OpenExisting q (mo_world m) = Inr d \<and> ExistingProjectAccessID q (mo_world m) = Inr (de_AccessID x)
     \<and> mo_verify m q (de_AccessID x) = None \<and> TasksEnabled d \<and> GetTask (de_TaskID x) d = Inr t
     \<and> tc_State (tk_Content t) = ''DONE'' \<and> tk_Revision t = de_Revision x)"

lemma prove_dependencies_D: "prove_dependencies at n ev h = (None, h') \<Longrightarrow> \<forall>x \<in> set ev. \<exists>k. proved_at (at k) x"
proof (induction "at" n ev h arbitrary: h' rule: prove_dependencies.induct)
  case (2 at' n p ps h)
  from "2.prems" obtain located d h1 t where l: "mo_ctx (at' n) = None"
      "LocateTask (mo_now (at' n)) (mo_world (at' n)) (mo_scans (at' n)) (de_TaskID p) h = (Inr (located, d), h1)"
    and q: "ExistingProjectAccessID located (mo_world (at' n)) = Inr (de_AccessID p)" "mo_verify (at' n) located (de_AccessID p) = None"
    and rest: "prove_dependencies at' (n + 1) ps h1 = (None, h')"
    and now: "\<exists>dq. OpenExisting located (mo_world (at' n)) = Inr dq \<and> TasksEnabled dq \<and> GetTask (de_TaskID p) dq = Inr t
      \<and> tc_State (tk_Content t) = ''DONE'' \<and> tk_Revision t = de_Revision p"
    by (auto simp: Let_def split: option.splits sum.splits prod.splits if_splits)
  from now q have "proved_at (at' n) p" unfolding proved_at_def by blast
  moreover have "\<forall>x \<in> set ps. \<exists>k. proved_at (at' k) x"
    using "2.IH" l q rest now by fastforce
  ultimately show ?case by auto
qed simp

text \<open>Reconciliation fails closed. It either answers with an error and asks for the hold to be
  stopped, or the hold is still there at the end, its task still has exactly the dependencies the
  claim proved, and every one of them was proved again: found in a project with the recorded access
  identity that the caller may read, tasks enabled there, DONE, at the recorded revision.\<close>

theorem reconcile_fails_closed:
  "(\<exists>x. fst (ReconcileReservationDependencies tid verifier busy m at fin h) = (True, Some x))
   \<or> (fst (ReconcileReservationDependencies tid verifier busy m at fin h) = (False, None)
      \<and> (\<exists>p d d' hold hold' owner body ev. OpenExisting p (mo_world m) = Inr d \<and> GetTaskReservation tid d = Inr hold \<and> rs_ID hold \<noteq> []
         \<and> GetTask tid d = Inr owner \<and> last_claim tid d = Some body \<and> rs_ID (fst (claim_evidence body)) = rs_ID hold
         \<and> snd (claim_evidence body) = Some ev \<and> set (deps_of owner) = set (map de_TaskID ev)
         \<and> {x \<in> set ev. \<nexists>k. proved_at (at k) x} = {}
         \<and> OpenExisting p (mo_world fin) = Inr d' \<and> GetTaskReservation tid d' = Inr hold' \<and> rs_ID hold' = rs_ID hold))"
proof (cases "\<exists>x. fst (ReconcileReservationDependencies tid verifier busy m at fin h) = (True, Some x)")
  case False
  then have "\<exists>h'. ReconcileReservationDependencies tid verifier busy m at fin h = ((False, None), h')"
    by (auto simp: ReconcileReservationDependencies_def split: option.splits sum.splits prod.splits if_splits)
  then obtain p dp h1 h2 hold ev d' hold' where l: "LocateTask (mo_now m) (mo_world m) (mo_scans m) tid h = (Inr (p, dp), h1)"
    and r: "reconcile_read tid m p = Inr (hold, ev)" and pr: "prove_dependencies at 0 ev h1 = (None, h2)"
    and f: "OpenExisting p (mo_world fin) = Inr d'" "GetTaskReservation tid d' = Inr hold'" "rs_ID hold' = rs_ID hold"
    and res: "fst (ReconcileReservationDependencies tid verifier busy m at fin h) = (False, None)"
    by (auto simp: ReconcileReservationDependencies_def split: option.splits sum.splits prod.splits if_splits)
  from r obtain d owner body where d: "OpenExisting p (mo_world m) = Inr d" "GetTaskReservation tid d = Inr hold" "rs_ID hold \<noteq> []"
    "GetTask tid d = Inr owner" "last_claim tid d = Some body" "rs_ID (fst (claim_evidence body)) = rs_ID hold"
    "snd (claim_evidence body) = Some ev" "same_dependencies (deps_of owner) ev"
    by (auto simp: reconcile_read_def split: option.splits sum.splits if_splits)
  have "{x \<in> set ev. \<nexists>k. proved_at (at k) x} = {}" using prove_dependencies_D [OF pr] by blast
  with d f res same_dependencies_set [OF d(8)] show ?thesis by blast
qed blast

end
