(* ===== verification/Teams.thy ===== *)
theory Teams
  imports Board
begin

text \<open>
  Teams and their sessions (\<open>internal/store/teams.go\<close>, \<open>team_sessions.go\<close>): the
  configuration of a team under its own expected revision, and the sessions that members
  hold. A session carries a generation that every change of its handle advances; the
  coordinator slot carries one of its own, so a coordinator that lost the slot is refused.

  \<open>ConfigureTeam\<close> takes the project instance that the registry resolved as an argument.
\<close>

section \<open>Team configuration\<close>

definition team_content_validate :: "TeamContent \<Rightarrow> err option" where
  "team_content_validate c =
     (if taskText (tt_Name c) 128 True \<noteq> None then Some (invalid ''name'')
      else if TrimSpace (tt_Name c) \<noteq> tt_Name c then Some (invalid ''name has surrounding whitespace'')
      else if list_ex (\<lambda>x. x \<in> {CHR 13, CHR 10, CHR 9}) (tt_Name c) then Some (invalid ''name must be one line without tabs'')
      else if taskText (tt_Description c) 4096 False \<noteq> None then Some (invalid ''description'')
      else if length (tt_Enrollment c) > 100 then Some (invalid ''at most 100 enrolled users'')
      else if \<not> list_all (\<lambda>x. is_id (en_UserID x)) (tt_Enrollment c) \<or> \<not> distinct (map en_UserID (tt_Enrollment c))
        then Some (invalid ''enrollment requires unique user IDs'')
      else None)"

definition json_team_content :: "TeamContent \<Rightarrow> json" where
  "json_team_content c = JObj (fld ''name'' (JStr (tt_Name c)) @ fld ''description'' (JStr (tt_Description c))
     @ fld ''enrollment'' (JArr (map (\<lambda>x. JObj (fld ''user_id'' (JStr (en_UserID x))
         @ fld ''coordinator'' (JBool (en_Coordinator x)))) (tt_Enrollment c))))"

definition readTeam :: "string \<Rightarrow> db \<Rightarrow> err + Team" where
  "readTeam team d = (case map_of (db_teams d) team of None \<Rightarrow> Inl ErrTeamNotFound | Some r \<Rightarrow> Inr (mr_body r))"

definition base_event :: "env \<Rightarrow> nat \<Rightarrow> string \<Rightarrow> string \<Rightarrow> TeamAuditContext \<Rightarrow> Team \<Rightarrow> TeamEvent" where
  "base_event e n op now audit t = \<lparr>tev_ID = e_uuid e n, tev_ProtocolVersion = 1, tev_Operation = op, tev_At = now,
     tev_Audit = audit, tev_PreviousRevision = 0, tev_Team = t, tev_Session = None, tev_PreviousGeneration = 0,
     tev_MessageIDs = [], tev_Assignment = None, tev_Handoff = None, tev_Managed = None, tev_TokenRebind = None\<rparr>"

definition putTeamEvent :: "string \<Rightarrow> TeamEvent \<Rightarrow> db \<Rightarrow> db" where
  "putTeamEvent team ev d = d\<lparr>db_team_events := db_team_events d @ [(team, ev)]\<rparr>"

text \<open>\<open>name\<close> is \<open>UNIQUE\<close> in the table; the query before it reports the clash by name.\<close>

definition ConfigureTeam_tx ::
  "env \<Rightarrow> string \<Rightarrow> string \<Rightarrow> int \<Rightarrow> TeamContent \<Rightarrow> TeamAuditContext \<Rightarrow> db \<Rightarrow> err + (Team \<times> db)" where
  "ConfigureTeam_tx e project_instance team expected content audit d =
     (if \<not> TasksEnabled d then Inl (invalid ''tasks are not enabled'')
      else if tb_exists (\<lambda>k r. mr_name r = tt_Name content \<and> k \<noteq> team) (db_teams d) then Inl ErrTeamNameTaken
      else case (if team = [] then Inr (e_uuid e 0, e_now e 0)
            else case readTeam team d of
                Inl x \<Rightarrow> Inl x
              | Inr old \<Rightarrow>
                  if te_Revision old \<noteq> expected then Inl (TeamConflict old)
                  else if te_ProjectInstance old \<noteq> project_instance then Inl (ErrOther ''team project instance mismatch'')
                  else Inr (team, te_CreatedAt old)) of
        Inl x \<Rightarrow> Inl x
      | Inr (tid, created) \<Rightarrow>
          let t = \<lparr>te_ID = tid, te_Revision = expected + 1, te_ProjectInstance = project_instance, te_Content = content,
                   te_CreatedAt = created, te_UpdatedAt = e_now e 0\<rparr>;
              row = \<lparr>mr_name = tt_Name content, mr_body = t\<rparr>
          in case (if team = [] then tb_insert tid row (db_teams d) else Some (AList.update tid row (db_teams d))) of
               None \<Rightarrow> Inl ErrSQL
             | Some ts \<Rightarrow> Inr (t, putTeamEvent tid ((base_event e 1 ''team.configure'' (e_now e 0) audit t)\<lparr>tev_PreviousRevision := expected\<rparr>)
                  (d\<lparr>db_teams := ts\<rparr>)))"

definition ConfigureTeam ::
  "env \<Rightarrow> string \<Rightarrow> string \<Rightarrow> int \<Rightarrow> TeamContent \<Rightarrow> TeamAuditContext \<Rightarrow> string \<Rightarrow> db \<Rightarrow> err + (Team \<times> db)" where
  "ConfigureTeam e project_instance team expected content audit key d =
     (if ac_Kind (au_Actor audit) \<noteq> ''admin'' then Inl (invalid ''team setup requires an admin actor'')
      else case team_content_validate content of Some x \<Rightarrow> Inl x | None \<Rightarrow>
      if (team = [] \<and> expected \<noteq> 0) \<or> (team \<noteq> [] \<and> (\<not> is_id team \<or> expected < 1))
        then Inl (invalid ''invalid team ID or expected revision'')
      else case taskScopeOK d of Some x \<Rightarrow> Inl x | None \<Rightarrow>
      if \<not> TasksEnabled d then Inl (invalid ''tasks are not enabled'')
      else taskMutation e (au_Actor audit) ''team-configure'' team key
        (JObj [(''ID'', JStr team), (''Expected'', JNum expected), (''Content'', json_team_content content)])
        RTeam prj_team (ConfigureTeam_tx e project_instance team expected content audit) d)"

definition GetTeam :: "string \<Rightarrow> db \<Rightarrow> err + Team" where
  "GetTeam team d = (case taskScopeOK d of Some x \<Rightarrow> Inl x | None \<Rightarrow> readTeam team d)"

definition ResolveTeam :: "string \<Rightarrow> db \<Rightarrow> err + Team" where
  "ResolveTeam name d =
     (if GetTeam name d \<noteq> Inl ErrTeamNotFound then GetTeam name d
      else case find (\<lambda>(_, r). mr_name r = name) (db_teams d) of
        None \<Rightarrow> Inl ErrTeamNotFound
      | Some (k, _) \<Rightarrow> GetTeam k d)"

definition ListTeams :: "string \<Rightarrow> int \<Rightarrow> db \<Rightarrow> err + Team list" where
  "ListTeams after limit d =
     (case taskScopeOK d of Some x \<Rightarrow> Inl x | None \<Rightarrow>
      if limit < 1 \<or> 101 < limit then Inl (invalid ''invalid team page limit'')
      else Inr (map (\<lambda>(_, r). mr_body r) (take (nat limit) (filter (\<lambda>(k, _). after < k) (sort_key fst (db_teams d))))))"

definition TeamEvents :: "string \<Rightarrow> int \<Rightarrow> int \<Rightarrow> db \<Rightarrow> err + (int \<times> TeamEvent) list" where
  "TeamEvents team after limit d =
     (case GetTeam team d of Inl x \<Rightarrow> Inl x | Inr _ \<Rightarrow>
      if after < 0 \<or> limit < 1 \<or> 101 < limit then Inl (invalid ''invalid audit page'')
      else Inr (take (nat limit) (map (\<lambda>(n, (_, ev)). (n, ev))
        (filter (\<lambda>(n, (k, _)). k = team \<and> after < n) (zip (map (\<lambda>k. int k + 1) [0..<length (db_team_events d)]) (db_team_events d))))))"

definition HasTeams :: "db \<Rightarrow> bool" where
  "HasTeams d \<longleftrightarrow> db_teams d \<noteq> []"

section \<open>Profiles\<close>

definition model_default :: "string \<Rightarrow> string" where
  "model_default s = (if s = [] then ''unknown'' else s)"

definition normal_model :: "TeamModel \<Rightarrow> TeamModel" where
  "normal_model m = m\<lparr>mo_Source := model_default (mo_Source m), mo_Provider := model_default (mo_Provider m),
     mo_ID := model_default (mo_ID m), mo_Version := model_default (mo_Version m)\<rparr>"

text \<open>\<open>validate\<close> fills the defaults in; it returns the profile it leaves.\<close>

definition profile_validate :: "env \<Rightarrow> TeamProfile \<Rightarrow> err + TeamProfile" where
  "profile_validate e p =
     (if taskText (pf_Label p) 128 True \<noteq> None \<or> taskText (pf_Platform p) 128 True \<noteq> None
         \<or> taskText (pf_PlatformVersion p) 128 True \<noteq> None then Inl (invalid ''label, platform or platform_version'')
      else let m = normal_model (pf_Model p)
        in if mo_Source m \<notin> {''runtime_reported'', ''operator_configured'', ''agent_reported'', ''unknown''}
             then Inl (invalid ''invalid model source'')
           else if taskText (mo_Provider m) 256 True \<noteq> None \<or> taskText (mo_ID m) 256 True \<noteq> None
             \<or> taskText (mo_Version m) 256 True \<noteq> None then Inl (invalid ''model'')
           else if mo_ObservedAt m \<noteq> [] \<and> e_parseTime e (mo_ObservedAt m) = None
             then Inl (invalid ''invalid model observation time'')
           else if length (pf_Capabilities p) > 32 then Inl (invalid ''at most 32 capabilities'')
           else if list_ex (\<lambda>v. taskText v 128 True \<noteq> None) (pf_Capabilities p) then Inl (invalid ''capability'')
           else Inr (p\<lparr>pf_Model := m\<rparr>))"

definition observed :: "TeamProfile \<Rightarrow> string \<Rightarrow> TeamProfile" where
  "observed p now = (if mo_ObservedAt (pf_Model p) = [] then p\<lparr>pf_Model := (pf_Model p)\<lparr>mo_ObservedAt := now\<rparr>\<rparr> else p)"

text \<open>Liveness is an observation: it never frees a slot.\<close>

definition Suspect :: "env \<Rightarrow> TeamSession \<Rightarrow> int \<Rightarrow> int \<Rightarrow> bool" where
  "Suspect e s now timeout \<longleftrightarrow> se_State s = ''active''
     \<and> (case e_parseTime e (se_LastSeenAt s) of None \<Rightarrow> True | Some seen \<Rightarrow> timeout \<le> 0 \<or> \<not> now < seen + timeout)"

section \<open>Sessions\<close>

definition MaxTeamSessions :: int where "MaxTeamSessions = 100"

definition enrolled :: "Team \<Rightarrow> string \<Rightarrow> bool \<Rightarrow> bool" where
  "enrolled t user coordinator \<longleftrightarrow>
     list_ex (\<lambda>x. en_UserID x = user \<and> (\<not> coordinator \<or> en_Coordinator x)) (tt_Enrollment (te_Content t))"

definition requireTeamMember :: "string \<Rightarrow> TaskActor \<Rightarrow> bool \<Rightarrow> db \<Rightarrow> err + Team" where
  "requireTeamMember team actor coordinator d =
     (if ac_Kind actor \<noteq> ''user'' then Inl ErrTeamSessionDenied
      else if \<not> succeeds (actor_key actor) then Inl ErrTeamSessionDenied
      else if \<not> TasksEnabled d then Inl ErrTeamSessionDenied
      else case readTeam team d of Inl x \<Rightarrow> Inl x | Inr t \<Rightarrow>
      if enrolled t (ac_UserID actor) coordinator then Inr t else Inl ErrTeamSessionDenied)"

definition readTeamSession :: "string \<Rightarrow> string \<Rightarrow> db \<Rightarrow> err + TeamSession" where
  "readTeamSession team sid d =
     (case map_of (db_sessions d) sid of
        None \<Rightarrow> Inl ErrTeamSessionDenied
      | Some r \<Rightarrow> if sr_team_id r = team then Inr (sr_body r) else Inl ErrTeamSessionDenied)"

definition boundTeamSession :: "string \<Rightarrow> string \<Rightarrow> TaskActor \<Rightarrow> db \<Rightarrow> err + (Team \<times> TeamSession)" where
  "boundTeamSession team sid a d =
     (case readTeamSession team sid d of Inl x \<Rightarrow> Inl x | Inr s \<Rightarrow>
      if se_UserID s \<noteq> ac_UserID a \<or> se_TokenID s \<noteq> ac_TokenID a then Inl ErrTeamSessionDenied
      else case requireTeamMember team a (se_Role s = ''coordinator'') d of Inl x \<Rightarrow> Inl x | Inr t \<Rightarrow> Inr (t, s))"

definition currentMessageSession :: "string \<Rightarrow> TeamSessionHandle \<Rightarrow> TaskActor \<Rightarrow> db \<Rightarrow> err + (Team \<times> TeamSession)" where
  "currentMessageSession team h a d =
     (case boundTeamSession team (sh_SessionID h) a d of Inl x \<Rightarrow> Inl x | Inr (t, s) \<Rightarrow>
      if se_State s \<noteq> ''active'' \<or> sh_Generation h < 1 \<or> se_Generation s \<noteq> sh_Generation h then Inl ErrTeamSessionStale
      else Inr (t, s))"

definition control_generation :: "string \<Rightarrow> db \<Rightarrow> int" where
  "control_generation team d = (case map_of (db_control d) team of None \<Rightarrow> 0 | Some n \<Rightarrow> n)"

definition nextCoordinatorGeneration :: "string \<Rightarrow> db \<Rightarrow> int \<times> db" where
  "nextCoordinatorGeneration team d =
     (let n = control_generation team d + 1 in (n, d\<lparr>db_control := AList.update team n (db_control d)\<rparr>))"

text \<open>The row's role and state columns feed the unique index over active coordinators.\<close>

definition active_coordinator_row :: "session_row \<Rightarrow> bool" where
  "active_coordinator_row r \<longleftrightarrow> sr_role r = ''coordinator'' \<and> sr_state r = ''active''"

definition putTeamSession :: "TeamSession \<Rightarrow> db \<Rightarrow> err + db" where
  "putTeamSession s d =
     (let row = (case map_of (db_sessions d) (se_ID s) of
            None \<Rightarrow> \<lparr>sr_team_id = se_TeamID s, sr_role = se_Role s, sr_state = se_State s, sr_body = s\<rparr>
          | Some old \<Rightarrow> old\<lparr>sr_role := se_Role s, sr_state := se_State s, sr_body := s\<rparr>)
      in if active_coordinator_row row
            \<and> tb_exists (\<lambda>k r. k \<noteq> se_ID s \<and> sr_team_id r = sr_team_id row \<and> active_coordinator_row r) (db_sessions d)
         then Inl ErrSQL
         else Inr (d\<lparr>db_sessions := AList.update (se_ID s) row (db_sessions d)\<rparr>))"

definition saveTeamSession ::
  "env \<Rightarrow> Team \<Rightarrow> TeamSession \<Rightarrow> int \<Rightarrow> string \<Rightarrow> TeamAuditContext \<Rightarrow> db \<Rightarrow> err + db" where
  "saveTeamSession e t s previous op audit d =
     (case putTeamSession s d of Inl x \<Rightarrow> Inl x | Inr d1 \<Rightarrow>
      Inr (putTeamEvent (te_ID t) ((base_event e 3 op (e_now e 3) audit t)
        \<lparr>tev_Session := Some s, tev_PreviousGeneration := previous\<rparr>) d1))"

definition JoinTeam_tx ::
  "env \<Rightarrow> string \<Rightarrow> string \<Rightarrow> TeamProfile \<Rightarrow> TeamAuditContext \<Rightarrow> int \<Rightarrow> Team \<Rightarrow> db \<Rightarrow> err + (TeamSession \<times> db)" where
  "JoinTeam_tx e team role profile audit limit t d =
     (if int (tb_count (\<lambda>_ r. sr_team_id r = team \<and> sr_state r = ''active'') (db_sessions d)) \<ge> limit
        then Inl ErrTeamSessionQuota
      else let s = \<lparr>se_ID = e_uuid e 0, se_TeamID = team, se_UserID = ac_UserID (au_Actor audit),
              se_TokenID = ac_TokenID (au_Actor audit), se_Generation = 1, se_CoordinatorGeneration = 0, se_Role = role,
              se_State = ''active'', se_Availability = ''available'', se_ProfileRevision = 1,
              se_Profile = observed profile (e_now e 0), se_CreatedAt = e_now e 0, se_LastSeenAt = e_now e 0\<rparr>
        in if role = ''coordinator'' \<and> tb_exists (\<lambda>_ r. sr_team_id r = team \<and> active_coordinator_row r) (db_sessions d)
             then Inl ErrTeamCoordinatorOccupied
           else let (n, d1) = (if role = ''coordinator'' then nextCoordinatorGeneration team d else (0, d));
                    s = s\<lparr>se_CoordinatorGeneration := n\<rparr>
             in case saveTeamSession e t s 0 ''team.join'' audit d1 of Inl x \<Rightarrow> Inl x | Inr d2 \<Rightarrow> Inr (s, d2))"

definition JoinTeamLimit ::
  "env \<Rightarrow> string \<Rightarrow> string \<Rightarrow> TeamProfile \<Rightarrow> TeamAuditContext \<Rightarrow> string \<Rightarrow> int \<Rightarrow> db \<Rightarrow> err + (TeamSession \<times> db)" where
  "JoinTeamLimit e team role profile audit key limit d =
     (if limit < 1 \<or> limit > 10000 then Inl (invalid ''invalid team session limit'')
      else case profile_validate e profile of Inl x \<Rightarrow> Inl x | Inr profile \<Rightarrow>
      if role \<noteq> ''worker'' \<and> role \<noteq> ''reviewer'' \<and> role \<noteq> ''coordinator'' then Inl (invalid ''invalid team role'')
      else checkedTaskMutation e (au_Actor audit) ''team.join'' team key
        (JObj [(''Role'', JStr role), (''Profile'', json_profile profile)])
        (requireTeamMember team (au_Actor audit) (role = ''coordinator'')) RSession prj_session
        (JoinTeam_tx e team role profile audit limit) d)"

definition JoinTeam ::
  "env \<Rightarrow> string \<Rightarrow> string \<Rightarrow> TeamProfile \<Rightarrow> TeamAuditContext \<Rightarrow> string \<Rightarrow> db \<Rightarrow> err + (TeamSession \<times> db)" where
  "JoinTeam e team role profile audit key d = JoinTeamLimit e team role profile audit key MaxTeamSessions d"

definition TeamRoster ::
  "string \<Rightarrow> string \<Rightarrow> int \<Rightarrow> TaskActor \<Rightarrow> string \<Rightarrow> int \<Rightarrow> db \<Rightarrow> err + TeamSession list" where
  "TeamRoster team sid generation actor after limit d =
     (case taskScopeOK d of Some x \<Rightarrow> Inl x | None \<Rightarrow>
      if limit < 1 \<or> 101 < limit then Inl (invalid ''invalid roster page limit'')
      else case boundTeamSession team sid actor d of Inl x \<Rightarrow> Inl x | Inr (_, s) \<Rightarrow>
      if se_State s \<noteq> ''active'' \<or> generation \<noteq> se_Generation s then Inl ErrTeamSessionStale
      else Inr (map (\<lambda>(_, r). sr_body r) (take (nat limit)
        (filter (\<lambda>(k, r). sr_team_id r = team \<and> after < k) (sort_key fst (db_sessions d))))))"

end
