(* ===== verification/Attempts.thy ===== *)
theory Attempts
  imports Teams
begin

text \<open>
  Team assignments (\<open>internal/store/team_assignments.go\<close>, \<open>team_work.go\<close>,
  \<open>team_results.go\<close>, \<open>team_recovery.go\<close>) and the lifecycle messages they write
  (\<open>team_messages.go\<close>): a coordinator offers a READY task to a worker, the worker accepts,
  blocks, resumes, submits; the coordinator reviews or cancels; an operator recovers. Every
  transition writes the attempt, the task, one message and one audit event together.
\<close>

section \<open>Commands\<close>

record TeamOffer =
  of_Handle :: TeamSessionHandle
  of_CoordinatorGeneration :: int
  of_TaskID :: string
  of_ExpectedRevision :: int
  of_Worker :: TeamSessionHandle
  of_SuitabilityRationale :: string
  of_CostRationale :: string

record TeamAssignmentCommand =
  ax_Handle :: TeamSessionHandle
  ax_CoordinatorGeneration :: int
  ax_Reason :: string

record TeamWorkCommand =
  wk_Handle :: TeamSessionHandle
  wk_CoordinatorGeneration :: int
  wk_ExpectedRevision :: int
  wk_Reason :: string

record TeamResultSubmission =
  rb_Handle :: TeamSessionHandle
  rb_ExpectedRevision :: int
  rb_Content :: TeamResultContent

record TeamResultDecision =
  dc_Handle :: TeamSessionHandle
  dc_CoordinatorGeneration :: int
  dc_ExpectedRevision :: int
  dc_ResultID :: string
  dc_Decision :: string
  dc_Reason :: string

record TeamRecoveryCommand =
  rm_ExpectedRevision :: int
  rm_ExpectedWorker :: TeamSessionHandle
  rm_ExpectedSessionGeneration :: int
  rm_ExpectedCoordinatorGeneration :: int
  rm_Reconciliation :: TeamRecoveryEvidence

type_synonym WorkerAuthority = "(TeamSession \<Rightarrow> err option) option"

definition MaxTeamRebinds :: nat where "MaxTeamRebinds = 32"

definition json_offer :: "TeamOffer \<Rightarrow> json" where
  "json_offer c = JObj (json_handle_fields (of_Handle c) @ fld ''coordinator_generation'' (JNum (of_CoordinatorGeneration c))
     @ fld ''task_id'' (JStr (of_TaskID c)) @ fld ''expected_revision'' (JNum (of_ExpectedRevision c))
     @ fld ''worker'' (json_handle (of_Worker c)) @ fld ''suitability_rationale'' (JStr (of_SuitabilityRationale c))
     @ fld ''cost_rationale'' (JStr (of_CostRationale c)))"

definition json_assignment_command :: "TeamAssignmentCommand \<Rightarrow> json" where
  "json_assignment_command c = JObj (json_handle_fields (ax_Handle c)
     @ fld_num_opt ''coordinator_generation'' (ax_CoordinatorGeneration c) @ fld_str_opt ''reason'' (ax_Reason c))"

definition json_work_command :: "TeamWorkCommand \<Rightarrow> json" where
  "json_work_command c = JObj (json_handle_fields (wk_Handle c)
     @ fld_num_opt ''coordinator_generation'' (wk_CoordinatorGeneration c)
     @ fld ''expected_revision'' (JNum (wk_ExpectedRevision c)) @ fld ''reason'' (JStr (wk_Reason c)))"

definition json_result_fields :: "TeamResultContent \<Rightarrow> (string \<times> json) list" where
  "json_result_fields c = fld ''base_commit'' (JStr (rc_BaseCommit c)) @ fld ''commit'' (JStr (rc_Commit c))
     @ fld ''summary'' (JStr (rc_Summary c)) @ fld ''validation'' (JStr (rc_Validation c))
     @ fld ''evidence_refs'' (JArr (map json_ref (rc_EvidenceRefs c)))"

definition json_submission :: "TeamResultSubmission \<Rightarrow> json" where
  "json_submission c = JObj (json_handle_fields (rb_Handle c) @ fld ''expected_revision'' (JNum (rb_ExpectedRevision c))
     @ json_result_fields (rb_Content c))"

definition json_decision :: "TeamResultDecision \<Rightarrow> json" where
  "json_decision c = JObj (json_handle_fields (dc_Handle c) @ fld ''coordinator_generation'' (JNum (dc_CoordinatorGeneration c))
     @ fld ''expected_revision'' (JNum (dc_ExpectedRevision c)) @ fld ''result_id'' (JStr (dc_ResultID c))
     @ fld ''decision'' (JStr (dc_Decision c)) @ fld ''reason'' (JStr (dc_Reason c)))"

definition json_recovery_evidence :: "TeamRecoveryEvidence \<Rightarrow> json" where
  "json_recovery_evidence x = JObj (fld ''execution_stopped'' (JBool (rd_ExecutionStopped x)) @ fld ''reason'' (JStr (rd_Reason x))
     @ fld ''runtime_check'' (JStr (rd_RuntimeCheck x)) @ fld ''worktree_check'' (JStr (rd_WorktreeCheck x))
     @ fld ''evidence_refs'' (JArr (map json_ref (rd_EvidenceRefs x))))"

definition json_recovery_command :: "TeamRecoveryCommand \<Rightarrow> json" where
  "json_recovery_command c = JObj (fld ''expected_revision'' (JNum (rm_ExpectedRevision c))
     @ fld ''expected_worker'' (json_handle (rm_ExpectedWorker c))
     @ fld ''expected_session_generation'' (JNum (rm_ExpectedSessionGeneration c))
     @ fld ''expected_coordinator_generation'' (JNum (rm_ExpectedCoordinatorGeneration c))
     @ fld ''reconciliation'' (json_recovery_evidence (rm_Reconciliation c)))"

section \<open>Lifecycle messages\<close>

definition no_model :: TeamModel where
  "no_model = \<lparr>mo_Provider = [], mo_ID = [], mo_Version = [], mo_Source = [], mo_ObservedAt = []\<rparr>"

definition no_profile :: TeamProfile where
  "no_profile = \<lparr>pf_Label = [], pf_Platform = [], pf_PlatformVersion = [], pf_Model = no_model, pf_Capabilities = []\<rparr>"

text \<open>Active, enrolled, and still designated when a coordinator.\<close>

definition may_receive :: "Team \<Rightarrow> TeamSession \<Rightarrow> bool" where
  "may_receive t s \<longleftrightarrow> enrolled t (se_UserID s) (se_Role s = ''coordinator'')"

fun insert_deliveries :: "string \<Rightarrow> string list \<Rightarrow> db \<Rightarrow> err + db" where
  "insert_deliveries mid [] d = Inr d"
| "insert_deliveries mid (sid # sids) d =
     (case tb_insert (mid, sid) \<lparr>dl_delivered_at = [], dl_delivery_count = 0, dl_acked_at = []\<rparr> (db_deliveries d) of
        None \<Rightarrow> Inl ErrSQL
      | Some t \<Rightarrow> insert_deliveries mid sids (d\<lparr>db_deliveries := t\<rparr>))"

definition put_message :: "TeamMessage \<Rightarrow> string list \<Rightarrow> db \<Rightarrow> err + (TeamMessage \<times> db)" where
  "put_message m recipients d =
     (if list_ex (\<lambda>r. mw_id r = ms_ID m) (db_messages d) then Inl ErrSQL
      else let m = m\<lparr>ms_Sequence := int (length (db_messages d)) + 1\<rparr>
        in case insert_deliveries (ms_ID m) recipients
             (d\<lparr>db_messages := db_messages d @ [\<lparr>mw_id = ms_ID m, mw_team_id = ms_TeamID m, mw_body = m\<rparr>]\<rparr>) of
             Inl x \<Rightarrow> Inl x
           | Inr d' \<Rightarrow> Inr (m, d'))"

definition lifecycleMessage ::
  "env \<Rightarrow> string \<Rightarrow> TeamRecipient \<Rightarrow> string list \<Rightarrow> TeamLifecycle \<Rightarrow> string \<Rightarrow> TaskRef list \<Rightarrow> db \<Rightarrow> err + (string \<times> db)" where
  "lifecycleMessage e team recipient recipients l text refs d =
     (let m = \<lparr>ms_ID = e_uuid e 1, ms_Sequence = 0, ms_TeamID = team, ms_SenderID = [], ms_SenderGeneration = 0,
         ms_ProfileRevision = 0, ms_Profile = no_profile, ms_CreatedAt = e_now e 1, ms_Lifecycle = Some l,
         ms_Content = \<lparr>mg_Recipient = recipient, mg_Kind = ''lifecycle'', mg_TaskID = lc_TaskID l,
           mg_AttemptID = lc_AttemptID l, mg_ReplyTo = [], mg_Payload = \<lparr>pl_Text = text, pl_Refs = refs, pl_Deadline = []\<rparr>\<rparr>\<rparr>
      in case put_message m recipients d of Inl x \<Rightarrow> Inl x | Inr (m, d') \<Rightarrow> Inr (ms_ID m, d'))"

fun lifecycleRecipients :: "Team \<Rightarrow> string \<Rightarrow> string list \<Rightarrow> string list \<Rightarrow> db \<Rightarrow> string list" where
  "lifecycleRecipients t exclude seen [] d = []"
| "lifecycleRecipients t exclude seen (i # is) d =
     (if i = [] \<or> i = exclude \<or> i \<in> set seen then lifecycleRecipients t exclude seen is d
      else case readTeamSession (te_ID t) i d of
        Inl _ \<Rightarrow> lifecycleRecipients t exclude (i # seen) is d
      | Inr s \<Rightarrow>
          if se_State s \<noteq> ''active'' \<or> \<not> may_receive t s then lifecycleRecipients t exclude (i # seen) is d
          else i # lifecycleRecipients t exclude (i # seen) is d)"

definition activeCoordinatorID :: "string \<Rightarrow> db \<Rightarrow> string" where
  "activeCoordinatorID team d =
     (case find (\<lambda>(_, r). sr_team_id r = team \<and> active_coordinator_row r) (db_sessions d) of
        None \<Rightarrow> [] | Some (k, _) \<Rightarrow> k)"

section \<open>Attempt rows\<close>

definition reserved_state :: "string \<Rightarrow> bool" where
  "reserved_state s \<longleftrightarrow> s \<in> {''OFFERED'', ''RUNNING'', ''SUBMITTED'', ''BLOCKED'', ''STOP_REQUESTED'', ''STOPPED''}"

text \<open>The upsert: its unique indexes hold one reserved attempt per task and per worker.\<close>

definition put_assignment :: "TeamAssignment \<Rightarrow> db \<Rightarrow> err + db" where
  "put_assignment a d =
     (let row = (case map_of (db_assignments d) (am_ID a) of
            None \<Rightarrow> \<lparr>ag_team_id = am_TeamID a, ag_task_id = am_TaskID a, ag_worker_id = sh_SessionID (am_Worker a),
              ag_state = am_State a, ag_reserved = reserved_state (am_State a), ag_body = a\<rparr>
          | Some old \<Rightarrow> old\<lparr>ag_state := am_State a, ag_reserved := reserved_state (am_State a), ag_body := a\<rparr>)
      in if ag_reserved row \<and> tb_exists (\<lambda>k r. k \<noteq> am_ID a \<and> ag_reserved r
              \<and> (ag_task_id r = ag_task_id row \<or> ag_worker_id r = ag_worker_id row)) (db_assignments d)
         then Inl ErrSQL
         else Inr (d\<lparr>db_assignments := AList.update (am_ID a) row (db_assignments d)\<rparr>))"

definition saveTeamAssignment ::
  "env \<Rightarrow> Team \<Rightarrow> TeamSession \<Rightarrow> TeamAssignment \<Rightarrow> string \<Rightarrow> TeamAuditContext \<Rightarrow> db \<Rightarrow> err + db" where
  "saveTeamAssignment e t s a op audit d =
     (case put_assignment a d of Inl x \<Rightarrow> Inl x | Inr d1 \<Rightarrow>
      case readTask (am_TaskID a) d1 of Inl x \<Rightarrow> Inl x | Inr task \<Rightarrow>
      let coordinator = activeCoordinatorID (te_ID t) d1;
          user = (ac_Kind (au_Actor audit) = ''user'');
          exclude = (if user then se_ID s else []);
          l = \<lparr>lc_Operation = op, lc_TaskID = am_TaskID a, lc_AttemptID = am_ID a, lc_State = am_State a,
               lc_TaskState = tc_State (tk_Content task), lc_ActorKind = ac_Kind (au_Actor audit),
               lc_Session = (if user then Some \<lparr>sh_SessionID = se_ID s, sh_Generation = se_Generation s\<rparr> else None),
               lc_Successor = None, lc_CoordinatorGeneration = 0\<rparr>;
          recipients = lifecycleRecipients t exclude [] [sh_SessionID (am_Worker a), coordinator] d1;
          text = op @ '': attempt '' @ am_ID a @ '' is '' @ am_State a @ ''; task '' @ am_TaskID a @ '' is ''
            @ tc_State (tk_Content task) @ (if am_Reason a \<noteq> [] then ''; reason: '' @ am_Reason a else [])
      in case lifecycleMessage e (te_ID t) \<lparr>rp_Kind = ''participants'', rp_ID = []\<rparr> recipients l text
           [\<lparr>rf_Kind = ''task'', rf_Ref = am_TaskID a, rf_Note = [], rf_Scope = []\<rparr>] d1 of
           Inl x \<Rightarrow> Inl x
         | Inr (msg, d2) \<Rightarrow> Inr (putTeamEvent (te_ID t) ((base_event e 2 op (e_now e 2) audit t)
             \<lparr>tev_Session := Some s, tev_Assignment := Some a, tev_MessageIDs := [msg]\<rparr>) d2))"

definition readTeamAssignment :: "string \<Rightarrow> string \<Rightarrow> db \<Rightarrow> err + TeamAssignment" where
  "readTeamAssignment team aid d =
     (case map_of (db_assignments d) aid of
        None \<Rightarrow> Inl ErrTeamAssignmentNotFound
      | Some r \<Rightarrow> if ag_team_id r = team then Inr (ag_body r) else Inl ErrTeamAssignmentNotFound)"

section \<open>Guards\<close>

definition currentCoordinator :: "string \<Rightarrow> TeamSessionHandle \<Rightarrow> int \<Rightarrow> TaskActor \<Rightarrow> db \<Rightarrow> err + (Team \<times> TeamSession)" where
  "currentCoordinator team h generation a d =
     (case currentMessageSession team h a d of Inl x \<Rightarrow> Inl x | Inr (t, s) \<Rightarrow>
      if se_Role s \<noteq> ''coordinator'' \<or> generation < 1 \<or> se_CoordinatorGeneration s \<noteq> generation then Inl ErrTeamSessionStale
      else case map_of (db_control d) team of
        None \<Rightarrow> Inl ErrNoRows
      | Some current \<Rightarrow> if current \<noteq> generation then Inl ErrTeamSessionStale else Inr (t, s))"

fun dependencies_done :: "string list \<Rightarrow> db \<Rightarrow> err option" where
  "dependencies_done [] d = None"
| "dependencies_done (i # is) d =
     (case readTask i d of
        Inl x \<Rightarrow> Some x
      | Inr dep \<Rightarrow> if tc_State (tk_Content dep) \<noteq> ''DONE'' then Some ErrTeamAssignmentConflict else dependencies_done is d)"

definition assignmentReady :: "string \<Rightarrow> int \<Rightarrow> db \<Rightarrow> err + Task" where
  "assignmentReady tid revision d =
     (case readTask tid d of Inl x \<Rightarrow> Inl x | Inr t \<Rightarrow>
      case rejectActiveReservation tid d of Some x \<Rightarrow> Inl x | None \<Rightarrow>
      if tk_Revision t \<noteq> revision then Inl (TaskConflict t)
      else if tc_State (tk_Content t) \<noteq> ''READY'' \<or> tc_Archived (tk_Content t) then Inl ErrTeamAssignmentConflict
      else case dependencies_done (tc_Dependencies (tk_Content t)) d of Some x \<Rightarrow> Inl x | None \<Rightarrow> Inr t)"

definition member_actor :: "string \<Rightarrow> TeamSession \<Rightarrow> TaskActor" where
  "member_actor name s = \<lparr>ac_Kind = ''user'', ac_UserID = se_UserID s, ac_TokenID = se_TokenID s, ac_Name = name\<rparr>"

definition assignmentWorker :: "string \<Rightarrow> TeamSessionHandle \<Rightarrow> WorkerAuthority \<Rightarrow> db \<Rightarrow> err + TeamSession" where
  "assignmentWorker team h authorize d =
     (case readTeamSession team (sh_SessionID h) d of Inl x \<Rightarrow> Inl x | Inr s \<Rightarrow>
      if se_Role s \<noteq> ''worker'' \<or> se_State s \<noteq> ''active'' \<or> se_Generation s \<noteq> sh_Generation h \<or> sh_Generation h < 1
         \<or> se_Availability s \<noteq> ''available'' then Inl ErrTeamAssignmentConflict
      else case requireTeamMember team (member_actor ''assignment worker'' s) False d of Inl x \<Rightarrow> Inl x | Inr _ \<Rightarrow>
      case authorize of None \<Rightarrow> Inl ErrTeamSessionDenied | Some f \<Rightarrow>
      case f s of Some x \<Rightarrow> Inl x | None \<Rightarrow> Inr s)"

definition assignmentTask :: "TeamAssignment \<Rightarrow> int \<Rightarrow> string \<Rightarrow> db \<Rightarrow> err + Task" where
  "assignmentTask a revision state d =
     (case readTask (am_TaskID a) d of Inl x \<Rightarrow> Inl x | Inr t \<Rightarrow>
      if tk_Revision t \<noteq> revision then Inl (TaskConflict t)
      else if tc_Archived (tk_Content t) \<or> tc_State (tk_Content t) \<noteq> state then Inl ErrTeamAssignmentConflict
      else case tk_Coordination t of
        None \<Rightarrow> Inl ErrTeamAssignmentConflict
      | Some c \<Rightarrow> if co_TeamID c \<noteq> am_TeamID a \<or> co_AttemptID c \<noteq> am_ID a then Inl ErrTeamAssignmentConflict else Inr t)"

section \<open>Offer, accept, decline, withdraw\<close>

definition next_version :: "Task \<Rightarrow> TaskContent \<Rightarrow> string \<Rightarrow> Task" where
  "next_version t c now = t\<lparr>tk_Content := c, tk_Revision := tk_Revision t + 1, tk_UpdatedAt := now\<rparr>"

definition OfferTeamAssignment_tx ::
  "env \<Rightarrow> string \<Rightarrow> TeamOffer \<Rightarrow> TeamAuditContext \<Rightarrow> WorkerAuthority \<Rightarrow> db \<Rightarrow> err + (TeamAssignment \<times> db)" where
  "OfferTeamAssignment_tx e team c audit authorize d =
     (case currentCoordinator team (of_Handle c) (of_CoordinatorGeneration c) (au_Actor audit) d of Inl x \<Rightarrow> Inl x | Inr (tm, coordinator) \<Rightarrow>
      case assignmentReady (of_TaskID c) (of_ExpectedRevision c) d of Inl x \<Rightarrow> Inl x | Inr t \<Rightarrow>
      if (case tk_Coordination t of None \<Rightarrow> False | Some k \<Rightarrow> co_TeamID k \<noteq> team \<or> co_AttemptID k \<noteq> [])
        then Inl ErrTeamAssignmentConflict
      else case assignmentWorker team (of_Worker c) authorize d of Inl x \<Rightarrow> Inl x | Inr worker \<Rightarrow>
      if tb_exists (\<lambda>_ r. ag_worker_id r = se_ID worker \<and> ag_reserved r) (db_assignments d) then Inl ErrTeamAssignmentConflict
      else let a = \<lparr>am_ID = e_uuid e 0, am_TeamID = team, am_TaskID = tk_ID t, am_State = ''OFFERED'', am_Coordinator = of_Handle c,
             am_CoordinatorGeneration = of_CoordinatorGeneration c, am_Worker = of_Worker c, am_ProfileRevision = se_ProfileRevision worker,
             am_Profile = se_Profile worker, am_TaskRevision = tk_Revision t, am_Requirements = tk_Content t,
             am_SuitabilityRationale = of_SuitabilityRationale c, am_CostRationale = of_CostRationale c, am_Reason = [],
             am_CreatedAt = e_now e 0, am_UpdatedAt = e_now e 0, am_Result = None, am_Review = None, am_Recovery = None,
             am_Rebinds = [], am_RebindCount = 0\<rparr>
        in case saveTeamAssignment e tm coordinator a ''team.assignment.offer'' audit
             (d\<lparr>db_managed := AList.update (tk_ID t) \<lparr>gr_team_id = team, gr_managed = True\<rparr> (db_managed d)\<rparr>) of
             Inl x \<Rightarrow> Inl x | Inr d' \<Rightarrow> Inr (a, d'))"

definition OfferTeamAssignment ::
  "env \<Rightarrow> string \<Rightarrow> TeamOffer \<Rightarrow> TeamAuditContext \<Rightarrow> string \<Rightarrow> WorkerAuthority \<Rightarrow> db \<Rightarrow> err + (TeamAssignment \<times> db)" where
  "OfferTeamAssignment e team c audit key authorize d =
     (if \<not> is_id (of_TaskID c) \<or> of_ExpectedRevision c < 1 then Inl (invalid ''task ID and positive expected_revision required'')
      else if taskText (of_SuitabilityRationale c) 4096 True \<noteq> None \<or> taskText (of_CostRationale c) 4096 True \<noteq> None
        then Inl (invalid ''rationale'')
      else checkedTaskMutation e (au_Actor audit) ''team.assignment.offer'' team key (json_offer c)
        (\<lambda>d. case boundTeamSession team (sh_SessionID (of_Handle c)) (au_Actor audit) d of Inl x \<Rightarrow> Inl x | Inr _ \<Rightarrow>
             case rejectActiveReservation (of_TaskID c) d of Some x \<Rightarrow> Inl x | None \<Rightarrow> Inr ())
        RAssignment prj_assignment (\<lambda>_. OfferTeamAssignment_tx e team c audit authorize) d)"

definition bound_check :: "string \<Rightarrow> string \<Rightarrow> TeamAuditContext \<Rightarrow> db \<Rightarrow> err + unit" where
  "bound_check team sid audit d =
     (case boundTeamSession team sid (au_Actor audit) d of Inl x \<Rightarrow> Inl x | Inr _ \<Rightarrow> Inr ())"

definition ChangeTeamAssignment_tx ::
  "env \<Rightarrow> string \<Rightarrow> string \<Rightarrow> string \<Rightarrow> TeamAssignmentCommand \<Rightarrow> TeamAuditContext \<Rightarrow> WorkerAuthority \<Rightarrow> db
    \<Rightarrow> err + (TeamAssignment \<times> db)" where
  "ChangeTeamAssignment_tx e team aid op c audit authorize d =
     (case currentMessageSession team (ax_Handle c) (au_Actor audit) d of Inl x \<Rightarrow> Inl x | Inr (tm, s) \<Rightarrow>
      case readTeamAssignment team aid d of Inl x \<Rightarrow> Inl x | Inr a \<Rightarrow>
      if am_State a \<noteq> ''OFFERED'' then Inl ErrTeamAssignmentConflict
      else case (if op = ''withdraw''
            then (case currentCoordinator team (ax_Handle c) (ax_CoordinatorGeneration c) (au_Actor audit) d of Inl x \<Rightarrow> Some x | Inr _ \<Rightarrow> None)
            else if am_Worker a \<noteq> ax_Handle c \<or> se_Role s \<noteq> ''worker'' then Some ErrTeamSessionDenied else None) of
        Some x \<Rightarrow> Inl x
      | None \<Rightarrow>
      case (if op = ''accept'' then
              (case assignmentWorker team (am_Worker a) authorize d of Inl x \<Rightarrow> Inl x | Inr _ \<Rightarrow>
               case assignmentReady (am_TaskID a) (am_TaskRevision a) d of Inl x \<Rightarrow> Inl x | Inr t \<Rightarrow>
               case saveTask (next_version t ((tk_Content t)\<lparr>tc_State := ''IN_PROGRESS''\<rparr>) (e_now e 0)) (au_Actor audit) False d of
                 Inl x \<Rightarrow> Inl x
               | Inr d1 \<Rightarrow> Inr (''RUNNING'', d1))
            else if op = ''decline'' then Inr (''DECLINED'', d)
            else Inr (''WITHDRAWN'', d)) of
        Inl x \<Rightarrow> Inl x
      | Inr (state, d1) \<Rightarrow>
          let a' = a\<lparr>am_State := state, am_Reason := ax_Reason c, am_UpdatedAt := e_now e 4\<rparr>
          in case saveTeamAssignment e tm s a' (''team.assignment.'' @ op) audit d1 of Inl x \<Rightarrow> Inl x | Inr d' \<Rightarrow> Inr (a', d'))"

definition ChangeTeamAssignment ::
  "env \<Rightarrow> string \<Rightarrow> string \<Rightarrow> string \<Rightarrow> TeamAssignmentCommand \<Rightarrow> TeamAuditContext \<Rightarrow> string \<Rightarrow> WorkerAuthority \<Rightarrow> db
    \<Rightarrow> err + (TeamAssignment \<times> db)" where
  "ChangeTeamAssignment e team aid op c audit key authorize d =
     (if op \<noteq> ''accept'' \<and> op \<noteq> ''decline'' \<and> op \<noteq> ''withdraw'' then Inl (invalid ''unsupported assignment operation'')
      else if op = ''accept'' \<and> (ax_Reason c \<noteq> [] \<or> ax_CoordinatorGeneration c \<noteq> 0)
        then Inl (invalid ''accept requires only the worker session handle'')
      else if op = ''decline'' \<and> ax_CoordinatorGeneration c \<noteq> 0
        then Inl (invalid ''decline requires only the worker handle and reason'')
      else if op \<noteq> ''accept'' \<and> taskText (ax_Reason c) 4096 True \<noteq> None then Inl (invalid ''reason'')
      else checkedTaskMutation e (au_Actor audit) (''team.assignment.'' @ op) (team @ ''/'' @ aid) key (json_assignment_command c)
        (bound_check team (sh_SessionID (ax_Handle c)) audit) RAssignment prj_assignment
        (\<lambda>_. ChangeTeamAssignment_tx e team aid op c audit authorize) d)"

definition GetTeamAssignment :: "string \<Rightarrow> string \<Rightarrow> TeamSessionHandle \<Rightarrow> TaskActor \<Rightarrow> db \<Rightarrow> err + TeamAssignment" where
  "GetTeamAssignment team aid h actor d =
     (case taskScopeOK d of Some x \<Rightarrow> Inl x | None \<Rightarrow>
      case currentMessageSession team h actor d of Inl x \<Rightarrow> Inl x | Inr _ \<Rightarrow> readTeamAssignment team aid d)"

definition ReservedTeamAssignment :: "string \<Rightarrow> TeamSessionHandle \<Rightarrow> TaskActor \<Rightarrow> db \<Rightarrow> err + TeamAssignment" where
  "ReservedTeamAssignment team h actor d =
     (case taskScopeOK d of Some x \<Rightarrow> Inl x | None \<Rightarrow>
      case currentMessageSession team h actor d of Inl x \<Rightarrow> Inl x | Inr _ \<Rightarrow>
      case find (\<lambda>(_, r). ag_team_id r = team \<and> ag_worker_id r = sh_SessionID h \<and> ag_reserved r) (db_assignments d) of
        None \<Rightarrow> Inl ErrTeamAssignmentNotFound
      | Some (k, _) \<Rightarrow> readTeamAssignment team k d)"

section \<open>Work control\<close>

text \<open>The attempt's next state, the task's, and the task state the transition needs.\<close>

definition workTransition :: "string \<Rightarrow> string \<Rightarrow> err + string \<times> string \<times> string" where
  "workTransition op state =
     (let prior = (if state \<in> {''BLOCKED'', ''STOP_REQUESTED'', ''STOPPED''} then ''BLOCKED'' else ''IN_PROGRESS'')
      in if op = ''block'' \<and> state = ''RUNNING'' then Inr (''BLOCKED'', ''BLOCKED'', prior)
         else if op = ''resume-work'' \<and> state = ''BLOCKED'' then Inr (''RUNNING'', ''IN_PROGRESS'', prior)
         else if op = ''cancel'' \<and> (state = ''RUNNING'' \<or> state = ''BLOCKED'') then Inr (''STOP_REQUESTED'', ''BLOCKED'', prior)
         else if op = ''stopped'' \<and> state = ''STOP_REQUESTED'' then Inr (''STOPPED'', ''BLOCKED'', prior)
         else if op = ''close-stop'' \<and> state = ''STOPPED'' then Inr (''CANCELLED'', ''READY'', prior)
         else Inl ErrTeamAssignmentConflict)"

definition coordinator_op :: "string \<Rightarrow> bool" where
  "coordinator_op op \<longleftrightarrow> op = ''cancel'' \<or> op = ''close-stop''"

definition ChangeTeamWork_tx ::
  "env \<Rightarrow> string \<Rightarrow> string \<Rightarrow> string \<Rightarrow> TeamWorkCommand \<Rightarrow> TeamAuditContext \<Rightarrow> db \<Rightarrow> err + (TeamAssignment \<times> db)" where
  "ChangeTeamWork_tx e team aid op c audit d =
     (case currentMessageSession team (wk_Handle c) (au_Actor audit) d of Inl x \<Rightarrow> Inl x | Inr (tm, s) \<Rightarrow>
      case readTeamAssignment team aid d of Inl x \<Rightarrow> Inl x | Inr a \<Rightarrow>
      case (if coordinator_op op
            then (case currentCoordinator team (wk_Handle c) (wk_CoordinatorGeneration c) (au_Actor audit) d of Inl x \<Rightarrow> Some x | Inr _ \<Rightarrow> None)
            else if se_Role s \<noteq> ''worker'' \<or> am_Worker a \<noteq> wk_Handle c then Some ErrTeamSessionDenied else None) of
        Some x \<Rightarrow> Inl x
      | None \<Rightarrow>
      case workTransition op (am_State a) of Inl x \<Rightarrow> Inl x | Inr (nxt, taskState, prior) \<Rightarrow>
      case assignmentTask a (wk_ExpectedRevision c) prior d of Inl x \<Rightarrow> Inl x | Inr t \<Rightarrow>
      let content = (tk_Content t)\<lparr>tc_Blocker := (if op = ''block'' \<or> op = ''cancel'' then wk_Reason c
             else if op = ''resume-work'' \<or> op = ''close-stop'' then [] else tc_Blocker (tk_Content t)), tc_State := taskState\<rparr>
      in case content_validate e content of Some m \<Rightarrow> Inl (invalid m) | None \<Rightarrow>
      case saveTask (next_version t content (e_now e 0)) (au_Actor audit) False d of Inl x \<Rightarrow> Inl x | Inr d1 \<Rightarrow>
      let a' = a\<lparr>am_State := nxt, am_Reason := wk_Reason c, am_UpdatedAt := e_now e 0\<rparr>
      in case saveTeamAssignment e tm s a' (''team.assignment.'' @ op) audit d1 of Inl x \<Rightarrow> Inl x | Inr d' \<Rightarrow> Inr (a', d'))"

definition ChangeTeamWork ::
  "env \<Rightarrow> string \<Rightarrow> string \<Rightarrow> string \<Rightarrow> TeamWorkCommand \<Rightarrow> TeamAuditContext \<Rightarrow> string \<Rightarrow> db \<Rightarrow> err + (TeamAssignment \<times> db)" where
  "ChangeTeamWork e team aid op c audit key d =
     (if op \<notin> {''block'', ''resume-work'', ''cancel'', ''stopped'', ''close-stop''} then Inl (invalid ''unsupported work operation'')
      else if wk_ExpectedRevision c < 1 \<or> (\<not> coordinator_op op \<and> wk_CoordinatorGeneration c \<noteq> 0)
          \<or> (coordinator_op op \<and> wk_CoordinatorGeneration c < 1) then Inl (invalid ''positive expected_revision required'')
      else if taskText (wk_Reason c) 4096 True \<noteq> None then Inl (invalid ''reason'')
      else checkedTaskMutation e (au_Actor audit) (''team.assignment.'' @ op) (team @ ''/'' @ aid) key (json_work_command c)
        (bound_check team (sh_SessionID (wk_Handle c)) audit) RAssignment prj_assignment
        (\<lambda>_. ChangeTeamWork_tx e team aid op c audit) d)"

section \<open>Results and their review\<close>

definition teamCommitRE :: re where
  "teamCommitRE = Cats [BeginText, Alts [Times 40 (Cls hexdigit), Times 64 (Cls hexdigit)], EndText]"

definition result_validate :: "env \<Rightarrow> TeamResultContent \<Rightarrow> err option" where
  "result_validate e c =
     (if \<not> MatchString teamCommitRE (rc_BaseCommit c) \<or> \<not> MatchString teamCommitRE (rc_Commit c)
        then Some (invalid ''base_commit and commit require full lowercase Git object IDs'')
      else if taskText (rc_Summary c) MaxTaskBytes True \<noteq> None \<or> taskText (rc_Validation c) MaxTaskBytes True \<noteq> None
        then Some (invalid ''summary or validation'')
      else if rc_EvidenceRefs c = [] then Some (invalid ''result requires evidence_refs'')
      else if validateRefs e (rc_EvidenceRefs c) \<noteq> None then Some (invalid ''evidence_refs'')
      else if MaxTaskBytes < length (marshal (JObj (json_result_fields c)))
        then Some (invalid ''result content exceeds 32 KiB; link long evidence instead'')
      else None)"

definition SubmitTeamResult_tx ::
  "env \<Rightarrow> string \<Rightarrow> string \<Rightarrow> TeamResultSubmission \<Rightarrow> TeamAuditContext \<Rightarrow> db \<Rightarrow> err + (TeamAssignment \<times> db)" where
  "SubmitTeamResult_tx e team aid c audit d =
     (case currentMessageSession team (rb_Handle c) (au_Actor audit) d of Inl x \<Rightarrow> Inl x | Inr (tm, worker) \<Rightarrow>
      case readTeamAssignment team aid d of Inl x \<Rightarrow> Inl x | Inr a \<Rightarrow>
      if se_Role worker \<noteq> ''worker'' \<or> am_Worker a \<noteq> rb_Handle c then Inl ErrTeamSessionDenied
      else if am_State a \<noteq> ''RUNNING'' \<or> am_Result a \<noteq> None then Inl ErrTeamAssignmentConflict
      else case assignmentTask a (rb_ExpectedRevision c) ''IN_PROGRESS'' d of Inl x \<Rightarrow> Inl x | Inr t \<Rightarrow>
      let a' = a\<lparr>am_Result := Some \<lparr>ts_ID = e_uuid e 0, ts_AttemptID = am_ID a, ts_Worker = rb_Handle c, ts_TaskRevision = tk_Revision t,
              ts_ProfileRevision = se_ProfileRevision worker, ts_Profile = se_Profile worker, ts_CreatedAt = e_now e 0,
              ts_Content = rb_Content c\<rparr>, am_State := ''SUBMITTED'', am_UpdatedAt := e_now e 0\<rparr>
      in case saveTask (next_version t ((tk_Content t)\<lparr>tc_State := ''REVIEW''\<rparr>) (e_now e 0)) (au_Actor audit) False d of
           Inl x \<Rightarrow> Inl x
         | Inr d1 \<Rightarrow>
           (case saveTeamAssignment e tm worker a' ''team.assignment.submit'' audit d1 of Inl x \<Rightarrow> Inl x | Inr d' \<Rightarrow> Inr (a', d')))"

definition SubmitTeamResult ::
  "env \<Rightarrow> string \<Rightarrow> string \<Rightarrow> TeamResultSubmission \<Rightarrow> TeamAuditContext \<Rightarrow> string \<Rightarrow> db \<Rightarrow> err + (TeamAssignment \<times> db)" where
  "SubmitTeamResult e team aid c audit key d =
     (if rb_ExpectedRevision c < 1 then Inl (invalid ''positive expected_revision required'')
      else case result_validate e (rb_Content c) of Some x \<Rightarrow> Inl x | None \<Rightarrow>
      checkedTaskMutation e (au_Actor audit) ''team.assignment.submit'' (team @ ''/'' @ aid) key (json_submission c)
        (bound_check team (sh_SessionID (rb_Handle c)) audit) RAssignment prj_assignment
        (\<lambda>_. SubmitTeamResult_tx e team aid c audit) d)"

text \<open>Acceptance closes the attempt and leaves the task in review; rework makes it READY.\<close>

definition ReviewTeamResult_tx ::
  "env \<Rightarrow> string \<Rightarrow> string \<Rightarrow> TeamResultDecision \<Rightarrow> TeamAuditContext \<Rightarrow> db \<Rightarrow> err + (TeamAssignment \<times> db)" where
  "ReviewTeamResult_tx e team aid c audit d =
     (case currentCoordinator team (dc_Handle c) (dc_CoordinatorGeneration c) (au_Actor audit) d of Inl x \<Rightarrow> Inl x | Inr (tm, coordinator) \<Rightarrow>
      case readTeamAssignment team aid d of Inl x \<Rightarrow> Inl x | Inr a \<Rightarrow>
      if am_State a \<noteq> ''SUBMITTED'' \<or> map_option ts_ID (am_Result a) \<noteq> Some (dc_ResultID c) \<or> am_Review a \<noteq> None
        then Inl ErrTeamAssignmentConflict
      else case assignmentTask a (dc_ExpectedRevision c) ''REVIEW'' d of Inl x \<Rightarrow> Inl x | Inr t \<Rightarrow>
      let rework = (dc_Decision c = ''rework'');
          a' = a\<lparr>am_Review := Some \<lparr>rw_ResultID = dc_ResultID c, rw_Decision = dc_Decision c, rw_Reason = dc_Reason c,
              rw_Coordinator = dc_Handle c, rw_CoordinatorGeneration = dc_CoordinatorGeneration c, rw_CreatedAt = e_now e 0\<rparr>,
              am_State := (if rework then ''RETURNED'' else ''ACCEPTED''), am_UpdatedAt := e_now e 0\<rparr>;
          content = (if rework then (tk_Content t)\<lparr>tc_State := ''READY''\<rparr> else tk_Content t)
      in case saveTask (next_version t content (e_now e 0)) (au_Actor audit) False d of Inl x \<Rightarrow> Inl x | Inr d1 \<Rightarrow>
         (case saveTeamAssignment e tm coordinator a' ''team.assignment.review'' audit d1 of Inl x \<Rightarrow> Inl x | Inr d' \<Rightarrow> Inr (a', d')))"

definition ReviewTeamResult ::
  "env \<Rightarrow> string \<Rightarrow> string \<Rightarrow> TeamResultDecision \<Rightarrow> TeamAuditContext \<Rightarrow> string \<Rightarrow> db \<Rightarrow> err + (TeamAssignment \<times> db)" where
  "ReviewTeamResult e team aid c audit key d =
     (if dc_ExpectedRevision c < 1 \<or> \<not> is_id (dc_ResultID c) \<or> (dc_Decision c \<noteq> ''accept'' \<and> dc_Decision c \<noteq> ''rework'')
        then Inl (invalid ''positive expected_revision, result_id and decision accept or rework required'')
      else if taskText (dc_Reason c) 4096 True \<noteq> None then Inl (invalid ''reason'')
      else checkedTaskMutation e (au_Actor audit) ''team.assignment.review'' (team @ ''/'' @ aid) key (json_decision c)
        (bound_check team (sh_SessionID (dc_Handle c)) audit) RAssignment prj_assignment
        (\<lambda>_. ReviewTeamResult_tx e team aid c audit) d)"

section \<open>Operator recovery\<close>

definition recovery_evidence_validate :: "env \<Rightarrow> TeamRecoveryEvidence \<Rightarrow> err option" where
  "recovery_evidence_validate e x =
     (if \<not> rd_ExecutionStopped x then Some (invalid ''recovery requires an explicit execution_stopped affirmation after reconciliation'')
      else if taskText (rd_Reason x) 4096 True \<noteq> None \<or> taskText (rd_RuntimeCheck x) 4096 True \<noteq> None
        \<or> taskText (rd_WorktreeCheck x) 4096 True \<noteq> None then Some (invalid ''reason, runtime_check or worktree_check'')
      else if rd_EvidenceRefs x = [] then Some (invalid ''recovery requires reconciliation evidence_refs'')
      else if validateRefs e (rd_EvidenceRefs x) \<noteq> None then Some (invalid ''evidence_refs'')
      else if MaxTaskBytes < length (marshal (json_recovery_evidence x))
        then Some (invalid ''reconciliation exceeds 32 KiB; link long evidence instead'')
      else None)"

text \<open>The check of every operator command of a team: tasks are on and the team exists.\<close>

definition operator_check :: "string \<Rightarrow> db \<Rightarrow> err + Team" where
  "operator_check team d = (if \<not> TasksEnabled d then Inl ErrTeamSessionDenied else readTeam team d)"

definition RecoverTeamAssignment_tx ::
  "env \<Rightarrow> string \<Rightarrow> string \<Rightarrow> TeamRecoveryCommand \<Rightarrow> TeamAuditContext \<Rightarrow> Team \<Rightarrow> db \<Rightarrow> err + (TeamAssignment \<times> db)" where
  "RecoverTeamAssignment_tx e team aid c audit tm d =
     (case readTeamAssignment team aid d of Inl x \<Rightarrow> Inl x | Inr a \<Rightarrow>
      if am_State a \<notin> {''RUNNING'', ''BLOCKED'', ''STOP_REQUESTED'', ''STOPPED''} then Inl ErrTeamAssignmentConflict
      else if am_Worker a \<noteq> rm_ExpectedWorker c \<or> am_Result a \<noteq> None \<or> am_Recovery a \<noteq> None then Inl ErrTeamAssignmentConflict
      else case readTeamSession team (sh_SessionID (am_Worker a)) d of Inl x \<Rightarrow> Inl x | Inr worker \<Rightarrow>
      case map_of (db_control d) team of None \<Rightarrow> Inl ErrNoRows | Some current \<Rightarrow>
      if se_Generation worker \<noteq> rm_ExpectedSessionGeneration c \<or> current \<noteq> rm_ExpectedCoordinatorGeneration c
        then Inl ErrTeamSessionStale
      else case assignmentTask a (rm_ExpectedRevision c) (if am_State a = ''RUNNING'' then ''IN_PROGRESS'' else ''BLOCKED'') d of
        Inl x \<Rightarrow> Inl x
      | Inr t \<Rightarrow>
      let a' = a\<lparr>am_Recovery := Some \<lparr>ar_SessionGeneration = se_Generation worker, ar_CoordinatorGeneration = current,
              ar_TaskRevision = tk_Revision t, ar_CreatedAt = e_now e 0, ar_Reconciliation = rm_Reconciliation c\<rparr>,
              am_State := ''RECOVERED'', am_Reason := rd_Reason (rm_Reconciliation c), am_UpdatedAt := e_now e 0\<rparr>;
          content = (tk_Content t)\<lparr>tc_Blocker := [], tc_State := ''READY''\<rparr>
      in case content_validate e content of Some m \<Rightarrow> Inl (invalid m) | None \<Rightarrow>
         (case saveTask (next_version t content (e_now e 0)) (au_Actor audit) False d of Inl x \<Rightarrow> Inl x | Inr d1 \<Rightarrow>
          case saveTeamAssignment e tm worker a' ''team.assignment.recover'' audit d1 of Inl x \<Rightarrow> Inl x | Inr d' \<Rightarrow> Inr (a', d')))"

definition RecoverTeamAssignment ::
  "env \<Rightarrow> string \<Rightarrow> string \<Rightarrow> TeamRecoveryCommand \<Rightarrow> TeamAuditContext \<Rightarrow> string \<Rightarrow> db \<Rightarrow> err + (TeamAssignment \<times> db)" where
  "RecoverTeamAssignment e team aid c audit key d =
     (if ac_Kind (au_Actor audit) \<noteq> ''admin'' then Inl ErrTeamSessionDenied
      else if rm_ExpectedRevision c < 1 \<or> \<not> is_id (sh_SessionID (rm_ExpectedWorker c)) \<or> sh_Generation (rm_ExpectedWorker c) < 1
          \<or> rm_ExpectedSessionGeneration c < 1 \<or> rm_ExpectedCoordinatorGeneration c < 1
        then Inl (invalid ''positive task/session/coordinator generations and an assigned worker handle required'')
      else case recovery_evidence_validate e (rm_Reconciliation c) of Some x \<Rightarrow> Inl x | None \<Rightarrow>
      checkedTaskMutation e (au_Actor audit) ''team.assignment.recover'' (team @ ''/'' @ aid) key (json_recovery_command c)
        (operator_check team) RAssignment prj_assignment
        (RecoverTeamAssignment_tx e team aid c audit) d)"

section \<open>Rebinding on resume\<close>

definition last_rebinds :: "TeamAssignmentRebind list \<Rightarrow> TeamAssignmentRebind list" where
  "last_rebinds xs = drop (length xs - MaxTeamRebinds) xs"

definition rebindReservedAssignment :: "env \<Rightarrow> Team \<Rightarrow> TeamSession \<Rightarrow> TeamAuditContext \<Rightarrow> db \<Rightarrow> err + db" where
  "rebindReservedAssignment e t s audit d =
     (case find (\<lambda>(_, r). ag_team_id r = te_ID t \<and> ag_worker_id r = se_ID s \<and> ag_reserved r \<and> ag_state r \<noteq> ''OFFERED'')
             (db_assignments d) of
        None \<Rightarrow> Inr d
      | Some (k, _) \<Rightarrow>
          (case readTeamAssignment (te_ID t) k d of Inl x \<Rightarrow> Inl x | Inr a \<Rightarrow>
           saveTeamAssignment e t s (a\<lparr>am_Rebinds := last_rebinds (am_Rebinds a @
                 [\<lparr>br_PreviousGeneration = sh_Generation (am_Worker a), br_Generation = se_Generation s, br_CreatedAt = e_now e 5\<rparr>]),
               am_RebindCount := am_RebindCount a + 1,
               am_Worker := (am_Worker a)\<lparr>sh_Generation := se_Generation s\<rparr>, am_UpdatedAt := e_now e 5\<rparr>)
             ''team.assignment.rebind'' audit d))"

end
