(* ===== verification/TeamOps.thy ===== *)
theory TeamOps
  imports Attempts
begin

text \<open>
  The rest of team coordination: what a member does to its own session
  (\<open>ChangeTeamSession\<close> of \<open>team_sessions.go\<close>), the transfer of the coordinator slot
  (\<open>team_handoff.go\<close>), the replacement of a session's credential (\<open>team_token.go\<close>) and the
  writes of a task its team manages (\<open>team_managed.go\<close>).
\<close>

section \<open>Commands\<close>

record TeamSessionCommand =
  ss_SessionID :: string
  ss_Generation :: int
  ss_Profile :: "TeamProfile option"
  ss_ExpectedProfileRevision :: int
  ss_Availability :: string

record TeamHandoffCommand =
  hc_Handle :: TeamSessionHandle
  hc_CoordinatorGeneration :: int
  hc_Target :: TeamSessionHandle
  hc_Reason :: string
  hc_Reconciliation :: "TeamHandoffReconciliation option"

record TeamTokenRebindCommand =
  tn_SessionID :: string
  tn_ExpectedGeneration :: int
  tn_TokenID :: string
  tn_Reconciliation :: TeamTokenRebindEvidence

record TeamManagedEditCommand =
  me_Handle :: TeamSessionHandle
  me_CoordinatorGeneration :: int
  me_ExpectedRevision :: int
  me_Content :: TaskContent
  me_Reason :: string

record TeamFinalizeCommand =
  mf_Handle :: TeamSessionHandle
  mf_CoordinatorGeneration :: int
  mf_ExpectedRevision :: int
  mf_AttemptID :: string
  mf_Reason :: string
  mf_Evidence :: "TaskRef list"

record TeamUnmanageCommand =
  mu_ExpectedRevision :: int
  mu_Reason :: string

definition json_session_command :: "TeamSessionCommand \<Rightarrow> json" where
  "json_session_command c = JObj (fld ''session_id'' (JStr (ss_SessionID c)) @ fld ''generation'' (JNum (ss_Generation c))
     @ fld_ptr_opt ''profile'' json_profile (ss_Profile c)
     @ fld_num_opt ''expected_profile_revision'' (ss_ExpectedProfileRevision c)
     @ fld_str_opt ''availability'' (ss_Availability c))"

definition json_handoff_reconciliation :: "TeamHandoffReconciliation \<Rightarrow> json" where
  "json_handoff_reconciliation r = JObj (fld ''coordinator_stopped'' (JBool (hr_CoordinatorStopped r))
     @ fld ''liveness_check'' (JStr (hr_LivenessCheck r)) @ fld ''evidence_refs'' (JArr (map json_ref (hr_EvidenceRefs r))))"

definition json_handoff_command :: "TeamHandoffCommand \<Rightarrow> json" where
  "json_handoff_command c = JObj (json_handle_fields (hc_Handle c)
     @ fld ''coordinator_generation'' (JNum (hc_CoordinatorGeneration c)) @ fld ''target'' (json_handle (hc_Target c))
     @ fld ''reason'' (JStr (hc_Reason c)) @ fld_ptr_opt ''reconciliation'' json_handoff_reconciliation (hc_Reconciliation c))"

definition json_token_evidence :: "TeamTokenRebindEvidence \<Rightarrow> json" where
  "json_token_evidence x = JObj (fld ''old_credential_stopped'' (JBool (tv_OldCredentialStopped x)) @ fld ''reason'' (JStr (tv_Reason x))
     @ fld ''runtime_check'' (JStr (tv_RuntimeCheck x)) @ fld ''evidence_refs'' (JArr (map json_ref (tv_EvidenceRefs x))))"

definition json_token_command :: "TeamTokenRebindCommand \<Rightarrow> json" where
  "json_token_command c = JObj (fld ''session_id'' (JStr (tn_SessionID c)) @ fld ''expected_generation'' (JNum (tn_ExpectedGeneration c))
     @ fld ''token_id'' (JStr (tn_TokenID c)) @ fld ''reconciliation'' (json_token_evidence (tn_Reconciliation c)))"

definition json_edit_command :: "TeamManagedEditCommand \<Rightarrow> json" where
  "json_edit_command c = JObj (json_handle_fields (me_Handle c)
     @ fld ''coordinator_generation'' (JNum (me_CoordinatorGeneration c)) @ fld ''expected_revision'' (JNum (me_ExpectedRevision c))
     @ fld ''content'' (json_content (me_Content c)) @ fld ''reason'' (JStr (me_Reason c)))"

definition json_finalize_command :: "TeamFinalizeCommand \<Rightarrow> json" where
  "json_finalize_command c = JObj (json_handle_fields (mf_Handle c)
     @ fld ''coordinator_generation'' (JNum (mf_CoordinatorGeneration c)) @ fld ''expected_revision'' (JNum (mf_ExpectedRevision c))
     @ fld ''attempt_id'' (JStr (mf_AttemptID c)) @ fld ''reason'' (JStr (mf_Reason c))
     @ fld ''evidence'' (JArr (map json_ref (mf_Evidence c))))"

definition json_unmanage_command :: "TeamUnmanageCommand \<Rightarrow> json" where
  "json_unmanage_command c = JObj (fld ''expected_revision'' (JNum (mu_ExpectedRevision c)) @ fld ''reason'' (JStr (mu_Reason c)))"

section \<open>A member's own session\<close>

text \<open>The command's fields fit the operation; the profile is normalised by its validation.\<close>

definition session_command_validate :: "env \<Rightarrow> string \<Rightarrow> TeamSessionCommand \<Rightarrow> err + TeamSessionCommand" where
  "session_command_validate e op c =
     (if ss_Generation c < 1 \<or> \<not> is_id (ss_SessionID c) then Inl (invalid ''invalid session handle'')
      else if op \<noteq> ''profile'' \<and> (ss_Profile c \<noteq> None \<or> ss_ExpectedProfileRevision c \<noteq> 0)
        then Inl (invalid ''profile fields require profile operation'')
      else if op \<noteq> ''heartbeat'' \<and> ss_Availability c \<noteq> [] then Inl (invalid ''availability requires heartbeat'')
      else if op = ''profile'' then
        (case ss_Profile c of
           None \<Rightarrow> Inl (invalid ''profile and expected revision required'')
         | Some p \<Rightarrow>
             if ss_ExpectedProfileRevision c < 1 then Inl (invalid ''profile and expected revision required'')
             else (case profile_validate e p of Inl x \<Rightarrow> Inl x | Inr p' \<Rightarrow> Inr (c\<lparr>ss_Profile := Some p'\<rparr>)))
      else if op = ''heartbeat'' then
        (if ss_Availability c \<noteq> ''available'' \<and> ss_Availability c \<noteq> ''unavailable''
           then Inl (invalid ''invalid availability'') else Inr c)
      else if op = ''resume'' \<or> op = ''leave'' then Inr c
      else Inl (invalid ''unknown session operation''))"

text \<open>What the operation makes of the session, and of the coordinator slot.\<close>

definition change_session :: "env \<Rightarrow> string \<Rightarrow> string \<Rightarrow> TeamSessionCommand \<Rightarrow> TeamSession \<Rightarrow> db \<Rightarrow> err + (TeamSession \<times> db)" where
  "change_session e team op c s d =
     (let s = s\<lparr>se_LastSeenAt := e_now e 0\<rparr>
      in if op = ''profile'' then
           (if se_ProfileRevision s \<noteq> ss_ExpectedProfileRevision c then Inl ErrTeamSessionStale
            else case ss_Profile c of None \<Rightarrow> Inl ErrDecode | Some p \<Rightarrow>
              Inr (s\<lparr>se_Profile := observed p (se_LastSeenAt s), se_ProfileRevision := se_ProfileRevision s + 1\<rparr>, d))
         else if op = ''heartbeat'' then Inr (s\<lparr>se_Availability := ss_Availability c\<rparr>, d)
         else if op = ''resume'' then
           (if se_Role s = ''coordinator''
            then (case nextCoordinatorGeneration team d of (n, d1) \<Rightarrow>
               Inr (s\<lparr>se_Generation := se_Generation s + 1, se_CoordinatorGeneration := n\<rparr>, d1))
            else Inr (s\<lparr>se_Generation := se_Generation s + 1\<rparr>, d))
         else Inr (s\<lparr>se_State := ''left'', se_Availability := ''unavailable'', se_Generation := se_Generation s + 1\<rparr>, d))"

definition ChangeTeamSession_tx ::
  "env \<Rightarrow> string \<Rightarrow> string \<Rightarrow> TeamSessionCommand \<Rightarrow> TeamAuditContext \<Rightarrow> Team \<times> TeamSession \<Rightarrow> db \<Rightarrow> err + (TeamSession \<times> db)" where
  "ChangeTeamSession_tx e team op c audit = (\<lambda>(t, s) d.
     (if se_State s \<noteq> ''active'' \<or> se_Generation s \<noteq> ss_Generation c then Inl ErrTeamSessionStale
      else case change_session e team op c s d of Inl x \<Rightarrow> Inl x | Inr (s', d1) \<Rightarrow>
      case saveTeamSession e t s' (ss_Generation c) (''team.'' @ op) audit d1 of Inl x \<Rightarrow> Inl x | Inr d2 \<Rightarrow>
      case (if op = ''resume'' \<and> se_Role s' = ''worker'' then rebindReservedAssignment e t s' audit d2 else Inr d2) of
        Inl x \<Rightarrow> Inl x
      | Inr d' \<Rightarrow> Inr (s', d')))"

definition ChangeTeamSession ::
  "env \<Rightarrow> string \<Rightarrow> string \<Rightarrow> TeamSessionCommand \<Rightarrow> TeamAuditContext \<Rightarrow> string \<Rightarrow> db \<Rightarrow> err + (TeamSession \<times> db)" where
  "ChangeTeamSession e team op c audit key d =
     (case session_command_validate e op c of Inl x \<Rightarrow> Inl x | Inr c \<Rightarrow>
      checkedTaskMutation e (au_Actor audit) (''team.'' @ op) team key (json_session_command c)
        (boundTeamSession team (ss_SessionID c) (au_Actor audit)) RSession prj_session
        (ChangeTeamSession_tx e team op c audit) d)"

section \<open>Handing the coordinator slot over\<close>

definition handoff_reconciliation_validate :: "env \<Rightarrow> TeamHandoffReconciliation \<Rightarrow> err option" where
  "handoff_reconciliation_validate e r =
     (if \<not> hr_CoordinatorStopped r then Some (invalid ''admin handoff requires an explicit coordinator_stopped affirmation after reconciliation'')
      else if taskText (hr_LivenessCheck r) 4096 True \<noteq> None then Some (invalid ''liveness_check'')
      else if hr_EvidenceRefs r = [] then Some (invalid ''admin handoff requires reconciliation evidence_refs'')
      else if validateRefs e (hr_EvidenceRefs r) \<noteq> None then Some (invalid ''evidence_refs'')
      else if MaxTaskBytes < length (marshal (json_handoff_reconciliation r))
        then Some (invalid ''reconciliation exceeds 32 KiB; link long evidence instead'')
      else None)"

fun messageRecipients_from :: "Team \<Rightarrow> TeamRecipient \<Rightarrow> (string \<times> session_row) list \<Rightarrow> string list" where
  "messageRecipients_from t r [] = []"
| "messageRecipients_from t r ((k, row) # rows) =
     (if sr_team_id row = te_ID t \<and> sr_state row = ''active'' \<and> may_receive t (sr_body row)
         \<and> (rp_Kind r = ''team'' \<or> se_ID (sr_body row) = rp_ID r)
      then se_ID (sr_body row) # messageRecipients_from t r rows
      else messageRecipients_from t r rows)"

definition messageRecipients :: "Team \<Rightarrow> TeamRecipient \<Rightarrow> db \<Rightarrow> err + string list" where
  "messageRecipients t r d =
     (let ids = messageRecipients_from t r (sort_key fst (db_sessions d))
      in if rp_Kind r = ''member'' \<and> length ids \<noteq> 1 then Inl ErrTeamSessionDenied else Inr ids)"

definition outgoingCoordinator :: "Team \<Rightarrow> TeamHandoffCommand \<Rightarrow> TaskActor \<Rightarrow> bool \<Rightarrow> db \<Rightarrow> err + TeamSession" where
  "outgoingCoordinator tm c actor admin d =
     (if \<not> admin then
        (case currentCoordinator (te_ID tm) (hc_Handle c) (hc_CoordinatorGeneration c) actor d of Inl x \<Rightarrow> Inl x | Inr (_, s) \<Rightarrow> Inr s)
      else case readTeamSession (te_ID tm) (sh_SessionID (hc_Handle c)) d of Inl x \<Rightarrow> Inl x | Inr s \<Rightarrow>
      case map_of (db_control d) (te_ID tm) of None \<Rightarrow> Inl ErrNoRows | Some current \<Rightarrow>
      if se_Role s \<noteq> ''coordinator'' \<or> se_State s \<noteq> ''active'' \<or> se_Generation s \<noteq> sh_Generation (hc_Handle c)
          \<or> se_CoordinatorGeneration s \<noteq> hc_CoordinatorGeneration c \<or> current \<noteq> hc_CoordinatorGeneration c
        then Inl ErrTeamSessionStale
      else Inr s)"

definition HandoffTeamCoordinator_tx ::
  "env \<Rightarrow> string \<Rightarrow> TeamHandoffCommand \<Rightarrow> TeamAuditContext \<Rightarrow> Team \<Rightarrow> db \<Rightarrow> err + (TeamSession \<times> db)" where
  "HandoffTeamCoordinator_tx e team c audit tm d =
     (let admin = (ac_Kind (au_Actor audit) = ''admin'')
      in case outgoingCoordinator tm c (au_Actor audit) admin d of Inl x \<Rightarrow> Inl x | Inr from_s \<Rightarrow>
      case readTeamSession team (sh_SessionID (hc_Target c)) d of Inl x \<Rightarrow> Inl x | Inr to_s \<Rightarrow>
      if se_State to_s \<noteq> ''active'' \<or> se_Generation to_s \<noteq> sh_Generation (hc_Target c) then Inl ErrTeamSessionStale
      else case requireTeamMember team (member_actor ''handoff target'' to_s) True d of Inl x \<Rightarrow> Inl x | Inr _ \<Rightarrow>
      if tb_exists (\<lambda>_ r. ag_worker_id r = se_ID to_s \<and> ag_reserved r) (db_assignments d) then Inl ErrTeamAssignmentConflict
      else case putTeamSession (from_s\<lparr>se_State := ''left'', se_Availability := ''unavailable'', se_Generation := se_Generation from_s + 1\<rparr>) d of
        Inl x \<Rightarrow> Inl x
      | Inr d1 \<Rightarrow>
      (case nextCoordinatorGeneration team d1 of (n, d2) \<Rightarrow>
       let to' = to_s\<lparr>se_Role := ''coordinator'', se_CoordinatorGeneration := n\<rparr>
       in case putTeamSession to' d2 of Inl x \<Rightarrow> Inl x | Inr d3 \<Rightarrow>
       let h = \<lparr>ha_From = hc_Handle c, ha_To = hc_Target c, ha_PreviousCoordinatorGeneration = hc_CoordinatorGeneration c,
                ha_CoordinatorGeneration = n, ha_Reason = hc_Reason c, ha_CreatedAt = e_now e 0,
                ha_Reconciliation = hc_Reconciliation c\<rparr>;
           l = \<lparr>lc_Operation = ''team.coordinator.handoff'', lc_TaskID = [], lc_AttemptID = [], lc_State = ''coordinator'',
                lc_TaskState = [], lc_ActorKind = ac_Kind (au_Actor audit), lc_Session = (if admin then None else Some (hc_Handle c)),
                lc_Successor = Some (hc_Target c), lc_CoordinatorGeneration = n\<rparr>
       in case messageRecipients tm \<lparr>rp_Kind = ''team'', rp_ID = []\<rparr> d3 of Inl x \<Rightarrow> Inl x | Inr recipients \<Rightarrow>
       case lifecycleMessage e team \<lparr>rp_Kind = ''team'', rp_ID = []\<rparr> recipients l
            (''team.coordinator.handoff: session '' @ se_ID to' @ '' is coordinator at generation '' @ show_int n
              @ ''; reason: '' @ hc_Reason c) [] d3 of
         Inl x \<Rightarrow> Inl x
       | Inr (msg, d4) \<Rightarrow>
           Inr (to', putTeamEvent team ((base_event e 2 ''team.coordinator.handoff'' (e_now e 0) audit tm)
             \<lparr>tev_Session := Some to', tev_Handoff := Some h, tev_MessageIDs := [msg]\<rparr>) d4)))"

definition handoff_check :: "string \<Rightarrow> TeamHandoffCommand \<Rightarrow> TeamAuditContext \<Rightarrow> db \<Rightarrow> err + Team" where
  "handoff_check team c audit d =
     (if ac_Kind (au_Actor audit) \<noteq> ''admin''
      then (case boundTeamSession team (sh_SessionID (hc_Handle c)) (au_Actor audit) d of Inl x \<Rightarrow> Inl x | Inr (t, _) \<Rightarrow> Inr t)
      else operator_check team d)"

definition HandoffTeamCoordinator ::
  "env \<Rightarrow> string \<Rightarrow> TeamHandoffCommand \<Rightarrow> TeamAuditContext \<Rightarrow> string \<Rightarrow> db \<Rightarrow> err + (TeamSession \<times> db)" where
  "HandoffTeamCoordinator e team c audit key d =
     (let admin = (ac_Kind (au_Actor audit) = ''admin'')
      in if hc_CoordinatorGeneration c < 1 \<or> sh_Generation (hc_Handle c) < 1 \<or> sh_Generation (hc_Target c) < 1
           \<or> \<not> is_id (sh_SessionID (hc_Handle c)) \<or> \<not> is_id (sh_SessionID (hc_Target c))
         then Inl (invalid ''outgoing coordinator handle, coordinator_generation and target handle required'')
      else if sh_SessionID (hc_Handle c) = sh_SessionID (hc_Target c) then Inl (invalid ''target must be a different session'')
      else if taskText (hc_Reason c) 4096 True \<noteq> None then Inl (invalid ''reason'')
      else if admin \<noteq> (hc_Reconciliation c \<noteq> None)
        then Inl (invalid ''reconciliation is required from an admin and refused from the coordinator'')
      else case (case hc_Reconciliation c of None \<Rightarrow> None | Some r \<Rightarrow> handoff_reconciliation_validate e r) of Some x \<Rightarrow> Inl x | None \<Rightarrow>
      checkedTaskMutation e (au_Actor audit) ''team.coordinator.handoff'' team key (json_handoff_command c)
        (handoff_check team c audit) RSession prj_session (HandoffTeamCoordinator_tx e team c audit) d)"

section \<open>Replacing a credential\<close>

definition token_evidence_validate :: "env \<Rightarrow> TeamTokenRebindEvidence \<Rightarrow> err option" where
  "token_evidence_validate e x =
     (if \<not> tv_OldCredentialStopped x then Some (invalid ''token replacement requires an explicit old_credential_stopped affirmation after reconciliation'')
      else if taskText (tv_Reason x) 4096 True \<noteq> None \<or> taskText (tv_RuntimeCheck x) 4096 True \<noteq> None
        then Some (invalid ''reason or runtime_check'')
      else if tv_EvidenceRefs x = [] then Some (invalid ''token replacement requires reconciliation evidence_refs'')
      else if validateRefs e (tv_EvidenceRefs x) \<noteq> None then Some (invalid ''evidence_refs'')
      else if MaxTaskBytes < length (marshal (json_token_evidence x))
        then Some (invalid ''reconciliation exceeds 32 KiB; link long evidence instead'')
      else None)"

definition RebindTeamSessionToken_tx ::
  "env \<Rightarrow> string \<Rightarrow> TeamTokenRebindCommand \<Rightarrow> TeamAuditContext \<Rightarrow> WorkerAuthority \<Rightarrow> Team \<Rightarrow> db \<Rightarrow> err + (TeamSession \<times> db)" where
  "RebindTeamSessionToken_tx e team c audit authorize tm d =
     (case readTeamSession team (tn_SessionID c) d of Inl x \<Rightarrow> Inl x | Inr s \<Rightarrow>
      if se_State s \<noteq> ''active'' \<or> se_Generation s \<noteq> tn_ExpectedGeneration c then Inl ErrTeamSessionStale
      else if se_TokenID s = tn_TokenID c then Inl (invalid ''replacement token must differ from the bound token'')
      else let rebound = s\<lparr>se_TokenID := tn_TokenID c\<rparr>
      in case requireTeamMember team (member_actor ''rebound session'' rebound) (se_Role s = ''coordinator'') d of Inl x \<Rightarrow> Inl x | Inr _ \<Rightarrow>
      case authorize of None \<Rightarrow> Inl ErrTeamSessionDenied | Some f \<Rightarrow>
      case f rebound of Some x \<Rightarrow> Inl x | None \<Rightarrow>
      let audit_row = \<lparr>tb_PreviousTokenID = se_TokenID s, tb_TokenID = tn_TokenID c, tb_CreatedAt = e_now e 0,
            tb_Reconciliation = tn_Reconciliation c\<rparr>
      in case (if se_Role s = ''coordinator''
            then (case nextCoordinatorGeneration team d of (n, d1) \<Rightarrow>
               (rebound\<lparr>se_Generation := se_Generation s + 1, se_CoordinatorGeneration := n\<rparr>, d1))
            else (rebound\<lparr>se_Generation := se_Generation s + 1\<rparr>, d)) of
        (s', d1) \<Rightarrow>
      (case putTeamSession s' d1 of Inl x \<Rightarrow> Inl x | Inr d2 \<Rightarrow>
       let d3 = putTeamEvent team ((base_event e 3 ''team.session.rebind_token'' (e_now e 0) audit tm)
             \<lparr>tev_Session := Some s', tev_PreviousGeneration := se_Generation s, tev_TokenRebind := Some audit_row\<rparr>) d2
       in case (if se_Role s' = ''worker'' then rebindReservedAssignment e tm s' audit d3 else Inr d3) of
            Inl x \<Rightarrow> Inl x
          | Inr d' \<Rightarrow> Inr (s', d')))"

definition RebindTeamSessionToken ::
  "env \<Rightarrow> string \<Rightarrow> TeamTokenRebindCommand \<Rightarrow> TeamAuditContext \<Rightarrow> string \<Rightarrow> WorkerAuthority \<Rightarrow> db \<Rightarrow> err + (TeamSession \<times> db)" where
  "RebindTeamSessionToken e team c audit key authorize d =
     (if ac_Kind (au_Actor audit) \<noteq> ''admin'' then Inl ErrTeamSessionDenied
      else if \<not> is_id (tn_SessionID c) \<or> tn_ExpectedGeneration c < 1
        then Inl (invalid ''session_id and positive expected_generation required'')
      else if taskText (tn_TokenID c) 128 True \<noteq> None then Inl (invalid ''token_id required'')
      else case token_evidence_validate e (tn_Reconciliation c) of Some x \<Rightarrow> Inl x | None \<Rightarrow>
      checkedTaskMutation e (au_Actor audit) ''team.session.rebind_token'' (team @ ''/'' @ tn_SessionID c) key (json_token_command c)
        (operator_check team) RSession prj_session (RebindTeamSessionToken_tx e team c audit authorize) d)"

section \<open>Managed tasks\<close>

definition managedTask :: "string \<Rightarrow> string \<Rightarrow> int \<Rightarrow> db \<Rightarrow> err + Task" where
  "managedTask team tid revision d =
     (case readTask tid d of Inl x \<Rightarrow> Inl x | Inr t \<Rightarrow>
      if tk_Revision t \<noteq> revision then Inl (TaskConflict t)
      else case tk_Coordination t of
        None \<Rightarrow> Inl ErrTeamAssignmentConflict
      | Some k \<Rightarrow> if co_TeamID k \<noteq> team \<or> co_AttemptID k \<noteq> [] then Inl ErrTeamAssignmentConflict else Inr t)"

definition managedEvent :: "env \<Rightarrow> Team \<Rightarrow> TeamSession option \<Rightarrow> string \<Rightarrow> TeamManagedChange \<Rightarrow> TeamAuditContext \<Rightarrow> db \<Rightarrow> db" where
  "managedEvent e tm s op change audit d =
     putTeamEvent (te_ID tm) ((base_event e 2 op (e_now e 2) audit tm)\<lparr>tev_Session := s,
       tev_PreviousRevision := mc_PreviousRevision change, tev_Managed := Some (change\<lparr>mc_CreatedAt := e_now e 2\<rparr>)\<rparr>) d"

definition managed_change :: "Task \<Rightarrow> Task \<Rightarrow> string \<Rightarrow> string \<Rightarrow> TaskRef list \<Rightarrow> TeamManagedChange" where
  "managed_change before after attempt reason evidence = \<lparr>mc_TaskID = tk_ID before, mc_AttemptID = attempt,
     mc_PreviousRevision = tk_Revision before, mc_Revision = tk_Revision after, mc_PreviousState = tc_State (tk_Content before),
     mc_State = tc_State (tk_Content after), mc_Reason = reason, mc_Evidence = evidence, mc_CreatedAt = []\<rparr>"

definition managedEditRetry :: "string \<Rightarrow> TeamManagedEditCommand \<Rightarrow> retry" where
  "managedEditRetry tid c = \<lparr>ry_op = ''team.task.edit'', ry_scope = tid, ry_input = json_edit_command c\<rparr>"

definition EditManagedReplays :: "env \<Rightarrow> string \<Rightarrow> TeamManagedEditCommand \<Rightarrow> TaskActor \<Rightarrow> string \<Rightarrow> db \<Rightarrow> bool" where
  "EditManagedReplays e tid c actor key d = replays e actor key (managedEditRetry tid c) d"

definition EditManagedTask_tx ::
  "env \<Rightarrow> string \<Rightarrow> string \<Rightarrow> TeamManagedEditCommand \<Rightarrow> TeamAuditContext \<Rightarrow> db \<Rightarrow> err + (Task \<times> db)" where
  "EditManagedTask_tx e team tid c audit d =
     (case currentCoordinator team (me_Handle c) (me_CoordinatorGeneration c) (au_Actor audit) d of Inl x \<Rightarrow> Inl x | Inr (tm, coordinator) \<Rightarrow>
      case managedTask team tid (me_ExpectedRevision c) d of Inl x \<Rightarrow> Inl x | Inr t \<Rightarrow>
      if tc_Archived (tk_Content t) then Inl ErrTaskArchived
      else if tc_State (me_Content c) \<noteq> tc_State (tk_Content t)
        then Inl (invalid ''managed task state is set by coordination operations'')
      else case checkEpicAssignable (tc_Epic (me_Content c)) (tc_Epic (tk_Content t)) d of Some x \<Rightarrow> Inl x | None \<Rightarrow>
      let t' = next_version t (me_Content c) (e_now e 0)
      in case saveTask t' (au_Actor audit) False d of Inl x \<Rightarrow> Inl x | Inr d1 \<Rightarrow>
         Inr (t', managedEvent e tm (Some coordinator) ''team.task.edit'' (managed_change t t' [] (me_Reason c) []) audit d1))"

definition EditManagedTask ::
  "env \<Rightarrow> string \<Rightarrow> string \<Rightarrow> TeamManagedEditCommand \<Rightarrow> TeamAuditContext \<Rightarrow> string \<Rightarrow> db \<Rightarrow> err + (Task \<times> db)" where
  "EditManagedTask e team tid c audit key d =
     (if \<not> is_id tid then Inl ErrTaskNotFound
      else if me_CoordinatorGeneration c < 1 \<or> me_ExpectedRevision c < 1
        then Inl (invalid ''positive coordinator_generation and expected_revision required'')
      else if taskText (me_Reason c) 4096 True \<noteq> None then Inl (invalid ''reason'')
      else case content_validate e (me_Content c) of Some m \<Rightarrow> Inl (invalid m) | None \<Rightarrow>
      if tc_Archived (me_Content c) then Inl (invalid ''managed tasks are archived after unmanage, not by edit'')
      else let r = managedEditRetry tid c
      in checkedTaskMutation e (au_Actor audit) (ry_op r) (ry_scope r) key (ry_input r)
        (bound_check team (sh_SessionID (me_Handle c)) audit) RTask prj_task (\<lambda>_. EditManagedTask_tx e team tid c audit) d)"

definition FinalizeManagedTask_tx ::
  "env \<Rightarrow> string \<Rightarrow> string \<Rightarrow> TeamFinalizeCommand \<Rightarrow> TeamAuditContext \<Rightarrow> db \<Rightarrow> err + (Task \<times> db)" where
  "FinalizeManagedTask_tx e team tid c audit d =
     (case currentCoordinator team (mf_Handle c) (mf_CoordinatorGeneration c) (au_Actor audit) d of Inl x \<Rightarrow> Inl x | Inr (tm, coordinator) \<Rightarrow>
      case managedTask team tid (mf_ExpectedRevision c) d of Inl x \<Rightarrow> Inl x | Inr t \<Rightarrow>
      if tc_State (tk_Content t) \<noteq> ''REVIEW'' \<or> tc_Archived (tk_Content t) then Inl ErrTeamAssignmentConflict
      else case readTeamAssignment team (mf_AttemptID c) d of Inl x \<Rightarrow> Inl x | Inr attempt \<Rightarrow>
      if am_TaskID attempt \<noteq> tid \<or> am_State attempt \<noteq> ''ACCEPTED'' then Inl ErrTeamAssignmentConflict
      else let content = (tk_Content t)\<lparr>tc_EvidenceRefs := tc_EvidenceRefs (tk_Content t) @ mf_Evidence c, tc_State := ''DONE''\<rparr>
      in case content_validate e content of Some m \<Rightarrow> Inl (invalid m) | None \<Rightarrow>
      (let t' = next_version t content (e_now e 0)
       in case saveTask t' (au_Actor audit) False d of Inl x \<Rightarrow> Inl x | Inr d1 \<Rightarrow>
          Inr (t', managedEvent e tm (Some coordinator) ''team.task.finalize''
            (managed_change t t' (am_ID attempt) (mf_Reason c) (mf_Evidence c)) audit d1)))"

definition FinalizeManagedTask ::
  "env \<Rightarrow> string \<Rightarrow> string \<Rightarrow> TeamFinalizeCommand \<Rightarrow> TeamAuditContext \<Rightarrow> string \<Rightarrow> db \<Rightarrow> err + (Task \<times> db)" where
  "FinalizeManagedTask e team tid c audit key d =
     (if \<not> is_id tid then Inl ErrTaskNotFound
      else if mf_CoordinatorGeneration c < 1 \<or> mf_ExpectedRevision c < 1 \<or> \<not> is_id (mf_AttemptID c)
        then Inl (invalid ''positive coordinator_generation, expected_revision and attempt_id required'')
      else if taskText (mf_Reason c) 4096 True \<noteq> None then Inl (invalid ''reason'')
      else if mf_Evidence c = [] then Inl (invalid ''finalize requires merge/delivery evidence'')
      else if validateRefs e (mf_Evidence c) \<noteq> None then Inl (invalid ''evidence'')
      else checkedTaskMutation e (au_Actor audit) ''team.task.finalize'' tid key (json_finalize_command c)
        (bound_check team (sh_SessionID (mf_Handle c)) audit) RTask prj_task (\<lambda>_. FinalizeManagedTask_tx e team tid c audit) d)"

definition UnmanageTask_tx ::
  "env \<Rightarrow> string \<Rightarrow> string \<Rightarrow> TeamUnmanageCommand \<Rightarrow> TeamAuditContext \<Rightarrow> Team \<Rightarrow> db \<Rightarrow> err + (Task \<times> db)" where
  "UnmanageTask_tx e team tid c audit tm d =
     (case managedTask team tid (mu_ExpectedRevision c) d of Inl x \<Rightarrow> Inl x | Inr t \<Rightarrow>
      case map_of (db_managed d) tid of
        None \<Rightarrow> Inl ErrTeamAssignmentConflict
      | Some g \<Rightarrow>
          if gr_team_id g \<noteq> team \<or> \<not> gr_managed g then Inl ErrTeamAssignmentConflict
          else let t' = (next_version t (tk_Content t) (e_now e 0))\<lparr>tk_Coordination := None\<rparr>
            in case saveTask t' (au_Actor audit) False (d\<lparr>db_managed := AList.update tid (g\<lparr>gr_managed := False\<rparr>) (db_managed d)\<rparr>) of
                 Inl x \<Rightarrow> Inl x
               | Inr d1 \<Rightarrow> Inr (t', managedEvent e tm None ''team.task.unmanage'' (managed_change t t' [] (mu_Reason c) []) audit d1))"

definition UnmanageTask ::
  "env \<Rightarrow> string \<Rightarrow> string \<Rightarrow> TeamUnmanageCommand \<Rightarrow> TeamAuditContext \<Rightarrow> string \<Rightarrow> db \<Rightarrow> err + (Task \<times> db)" where
  "UnmanageTask e team tid c audit key d =
     (if ac_Kind (au_Actor audit) \<noteq> ''admin'' then Inl ErrTeamSessionDenied
      else if \<not> is_id tid then Inl ErrTaskNotFound
      else if mu_ExpectedRevision c < 1 then Inl (invalid ''positive expected_revision required'')
      else if taskText (mu_Reason c) 4096 True \<noteq> None then Inl (invalid ''reason'')
      else checkedTaskMutation e (au_Actor audit) ''team.task.unmanage'' (team @ ''/'' @ tid) key (json_unmanage_command c)
        (operator_check team) RTask prj_task (UnmanageTask_tx e team tid c audit) d)"

end
