(* ===== verification/Messages.thy ===== *)
theory Messages
  imports TeamOps
begin

text \<open>
  Team messages (\<open>internal/store/team_messages.go\<close>): sending, reading a page of the team's
  history or of a session's inbox, and acknowledging what was delivered. Reading an inbox
  records the attempted delivery in the same transaction.
\<close>

section \<open>Content\<close>

definition json_recipient :: "TeamRecipient \<Rightarrow> json" where
  "json_recipient r = JObj (fld ''kind'' (JStr (rp_Kind r)) @ fld_str_opt ''id'' (rp_ID r))"

definition json_payload :: "TeamMessagePayload \<Rightarrow> json" where
  "json_payload p = JObj (fld ''text'' (JStr (pl_Text p)) @ fld_list_opt ''refs'' json_ref (pl_Refs p)
     @ fld_str_opt ''deadline'' (pl_Deadline p))"

definition json_message_content :: "TeamMessageContent \<Rightarrow> json" where
  "json_message_content c = JObj (fld ''recipient'' (json_recipient (mg_Recipient c)) @ fld ''kind'' (JStr (mg_Kind c))
     @ fld_str_opt ''task_id'' (mg_TaskID c) @ fld_str_opt ''attempt_id'' (mg_AttemptID c)
     @ fld_str_opt ''reply_to'' (mg_ReplyTo c) @ fld ''payload'' (json_payload (mg_Payload c)))"

definition message_validate :: "env \<Rightarrow> TeamMessageContent \<Rightarrow> err option" where
  "message_validate e c =
     (if mg_Kind c \<notin> {''question'', ''answer'', ''note'', ''progress'', ''blocker'', ''review_feedback''}
        then Some (invalid ''invalid message kind'')
      else if rp_Kind (mg_Recipient c) = ''team'' \<and> rp_ID (mg_Recipient c) \<noteq> [] then Some (invalid ''team recipient has no ID'')
      else if rp_Kind (mg_Recipient c) = ''member'' \<and> \<not> is_id (rp_ID (mg_Recipient c)) then Some (invalid ''invalid recipient session'')
      else if rp_Kind (mg_Recipient c) \<noteq> ''team'' \<and> rp_Kind (mg_Recipient c) \<noteq> ''member''
        then Some (invalid ''recipient must be team or member'')
      else if taskText (pl_Text (mg_Payload c)) 32768 True \<noteq> None then Some (invalid ''payload.text'')
      else if validateRefs e (pl_Refs (mg_Payload c)) \<noteq> None then Some (invalid ''payload.refs'')
      else if pl_Deadline (mg_Payload c) \<noteq> [] \<and> mg_Kind c \<noteq> ''question'' then Some (invalid ''deadline applies only to questions'')
      else if pl_Deadline (mg_Payload c) \<noteq> [] \<and> e_parseTime e (pl_Deadline (mg_Payload c)) = None then Some (invalid ''invalid deadline'')
      else if mg_AttemptID c \<noteq> [] then Some (invalid ''attempt references unavailable until assignment support'')
      else if mg_TaskID c \<noteq> [] \<and> \<not> is_id (mg_TaskID c) then Some (invalid ''invalid task reference'')
      else if mg_ReplyTo c \<noteq> [] \<and> \<not> is_id (mg_ReplyTo c) then Some (invalid ''invalid reply reference'')
      else if mg_Kind c = ''answer'' \<and> mg_ReplyTo c = [] then Some (invalid ''answer requires a question reply_to'')
      else if 32768 < length (marshal (json_message_content c)) then Some (invalid ''message content exceeds 32 KiB'')
      else None)"

section \<open>Sending\<close>

definition readTeamMessage :: "string \<Rightarrow> string \<Rightarrow> db \<Rightarrow> err + TeamMessage" where
  "readTeamMessage team mid d =
     (case find (\<lambda>r. mw_team_id r = team \<and> mw_id r = mid) (db_messages d) of
        None \<Rightarrow> Inl ErrTeamMessageNotFound | Some r \<Rightarrow> Inr (mw_body r))"

definition messageAudit :: "env \<Rightarrow> Team \<Rightarrow> TeamSession \<Rightarrow> string \<Rightarrow> string list \<Rightarrow> TeamAuditContext \<Rightarrow> db \<Rightarrow> db" where
  "messageAudit e t s op ids audit d =
     putTeamEvent (te_ID t) ((base_event e 2 op (e_now e 2) audit t)\<lparr>tev_Session := Some s, tev_MessageIDs := ids\<rparr>) d"

fun refs_exist :: "TaskRef list \<Rightarrow> db \<Rightarrow> err option" where
  "refs_exist [] d = None"
| "refs_exist (r # rs) d =
     (if rf_Kind r = ''task'' then (case readTask (rf_Ref r) d of Inl x \<Rightarrow> Some x | Inr _ \<Rightarrow> refs_exist rs d)
      else refs_exist rs d)"

definition reply_check :: "string \<Rightarrow> TeamMessageContent \<Rightarrow> db \<Rightarrow> err option" where
  "reply_check team c d =
     (if mg_ReplyTo c = [] then None
      else case readTeamMessage team (mg_ReplyTo c) d of
        Inl x \<Rightarrow> Some x
      | Inr m \<Rightarrow> if mg_Kind c = ''answer'' \<and> mg_Kind (ms_Content m) \<noteq> ''question''
          then Some (invalid ''answer must reply to a question'') else None)"

definition SendTeamMessage_tx ::
  "env \<Rightarrow> string \<Rightarrow> TeamSessionHandle \<Rightarrow> TeamMessageContent \<Rightarrow> TeamAuditContext \<Rightarrow> int \<Rightarrow> Team \<times> TeamSession \<Rightarrow> db
    \<Rightarrow> err + (TeamMessage \<times> db)" where
  "SendTeamMessage_tx e team h c audit limit = (\<lambda>(t, s) d.
     (if se_State s \<noteq> ''active'' \<or> sh_Generation h < 1 \<or> se_Generation s \<noteq> sh_Generation h then Inl ErrTeamSessionStale
      else case (if mg_TaskID c = [] then None else case readTask (mg_TaskID c) d of Inl x \<Rightarrow> Some x | Inr _ \<Rightarrow> None) of Some x \<Rightarrow> Inl x | None \<Rightarrow>
      case refs_exist (pl_Refs (mg_Payload c)) d of Some x \<Rightarrow> Inl x | None \<Rightarrow>
      case reply_check team c d of Some x \<Rightarrow> Inl x | None \<Rightarrow>
      if limit \<le> int (length (filter (\<lambda>r. mw_team_id r = team) (db_messages d))) then Inl ErrTeamMessageQuota
      else case messageRecipients t (mg_Recipient c) d of Inl x \<Rightarrow> Inl x | Inr recipients \<Rightarrow>
      let m = \<lparr>ms_ID = e_uuid e 0, ms_Sequence = 0, ms_TeamID = team, ms_SenderID = se_ID s, ms_SenderGeneration = se_Generation s,
           ms_ProfileRevision = se_ProfileRevision s, ms_Profile = se_Profile s, ms_CreatedAt = e_now e 0, ms_Lifecycle = None,
           ms_Content = c\<rparr>
      in case put_message m recipients d of Inl x \<Rightarrow> Inl x | Inr (m', d1) \<Rightarrow>
         Inr (m', messageAudit e t s ''team.message.send'' [ms_ID m'] audit d1)))"

definition SendTeamMessage ::
  "env \<Rightarrow> string \<Rightarrow> TeamSessionHandle \<Rightarrow> TeamMessageContent \<Rightarrow> TeamAuditContext \<Rightarrow> string \<Rightarrow> int \<Rightarrow> db \<Rightarrow> err + (TeamMessage \<times> db)" where
  "SendTeamMessage e team h c audit key limit d =
     (case message_validate e c of Some x \<Rightarrow> Inl x | None \<Rightarrow>
      if limit < 1 \<or> 1000000 < limit then Inl (invalid ''invalid message quota'')
      else checkedTaskMutation e (au_Actor audit) ''team.message.send'' team key
        (JObj [(''Handle'', json_handle h), (''Content'', json_message_content c)])
        (boundTeamSession team (sh_SessionID h) (au_Actor audit)) RMessage prj_message
        (SendTeamMessage_tx e team h c audit limit) d)"

section \<open>Reading\<close>

record TeamMessagePage =
  pg_Messages :: "TeamMessage list"
  pg_Next :: int
  pg_HasMore :: bool
  pg_ServerTime :: string

text \<open>A row's sequence is its position in the table.\<close>

definition numbered_messages :: "db \<Rightarrow> (int \<times> message_row) list" where
  "numbered_messages d = zip (map (\<lambda>k. int k + 1) [0..<length (db_messages d)]) (db_messages d)"

definition unacked :: "string \<Rightarrow> string \<Rightarrow> db \<Rightarrow> bool" where
  "unacked mid sid d \<longleftrightarrow> (case map_of (db_deliveries d) (mid, sid) of None \<Rightarrow> False | Some r \<Rightarrow> dl_acked_at r = [])"

definition message_query :: "string \<Rightarrow> int \<Rightarrow> string option \<Rightarrow> db \<Rightarrow> TeamMessage list" where
  "message_query team after inbox d = map (\<lambda>(n, r). mw_body r)
     (filter (\<lambda>(n, r). mw_team_id r = team \<and> after < n
        \<and> (case inbox of None \<Rightarrow> True | Some sid \<Rightarrow> unacked (mw_id r) sid d)) (numbered_messages d))"

fun mark_delivered :: "string \<Rightarrow> string \<Rightarrow> TeamMessage list \<Rightarrow> db \<Rightarrow> db" where
  "mark_delivered now sid [] d = d"
| "mark_delivered now sid (m # ms) d = mark_delivered now sid ms
     (case map_of (db_deliveries d) (ms_ID m, sid) of
        None \<Rightarrow> d
      | Some r \<Rightarrow> d\<lparr>db_deliveries := AList.update (ms_ID m, sid)
          (r\<lparr>dl_delivered_at := now, dl_delivery_count := dl_delivery_count r + 1\<rparr>) (db_deliveries d)\<rparr>)"

definition TeamMessages ::
  "env \<Rightarrow> string \<Rightarrow> TeamSessionHandle \<Rightarrow> int \<Rightarrow> int \<Rightarrow> bool \<Rightarrow> TeamAuditContext \<Rightarrow> db \<Rightarrow> err + (TeamMessagePage \<times> db)" where
  "TeamMessages e team h after limit inbox audit d =
     (case taskScopeOK d of Some x \<Rightarrow> Inl x | None \<Rightarrow>
      if after < 0 \<or> limit < 1 \<or> 100 < limit then Inl (invalid ''invalid message page'')
      else case currentMessageSession team h (au_Actor audit) d of Inl x \<Rightarrow> Inl x | Inr (t, s) \<Rightarrow>
      let rows = take (nat limit + 1) (message_query team after (if inbox then Some (se_ID s) else None) d);
          page = take (nat limit) rows;
          out = \<lparr>pg_Messages = page, pg_Next = (if page = [] then after else ms_Sequence (last page)),
                 pg_HasMore = int (length rows) > limit, pg_ServerTime = e_now e 0\<rparr>
      in if \<not> inbox \<or> page = [] then Inr (out, d)
         else Inr (out, messageAudit e t s ''team.message.delivery_attempt'' (map ms_ID page) audit
           (mark_delivered (e_now e 0) (se_ID s) page d)))"

section \<open>Acknowledging\<close>

fun ack_each :: "env \<Rightarrow> string \<Rightarrow> string \<Rightarrow> string list \<Rightarrow> db \<Rightarrow> err + (string list \<times> db)" where
  "ack_each e team sid [] d = Inr ([], d)"
| "ack_each e team sid (i # is) d =
     (case (if list_ex (\<lambda>r. mw_id r = i \<and> mw_team_id r = team) (db_messages d) then map_of (db_deliveries d) (i, sid) else None) of
        None \<Rightarrow> Inl ErrTeamMessageUndelivered
      | Some r \<Rightarrow>
          if dl_delivered_at r = [] then Inl ErrTeamMessageUndelivered
          else if dl_acked_at r \<noteq> [] then ack_each e team sid is d
          else (case ack_each e team sid is (d\<lparr>db_deliveries := AList.update (i, sid) (r\<lparr>dl_acked_at := e_now e 1\<rparr>) (db_deliveries d)\<rparr>) of
              Inl x \<Rightarrow> Inl x
            | Inr (changed, d') \<Rightarrow> Inr (i # changed, d')))"

definition AckTeamMessages_tx ::
  "env \<Rightarrow> string \<Rightarrow> TeamSessionHandle \<Rightarrow> string list \<Rightarrow> TeamAuditContext \<Rightarrow> Team \<times> TeamSession \<Rightarrow> db \<Rightarrow> err + (TeamAck \<times> db)" where
  "AckTeamMessages_tx e team h ids audit = (\<lambda>(t, s) d.
     (if se_State s \<noteq> ''active'' \<or> sh_Generation h < 1 \<or> se_Generation s \<noteq> sh_Generation h then Inl ErrTeamSessionStale
      else case ack_each e team (se_ID s) ids d of Inl x \<Rightarrow> Inl x | Inr (changed, d1) \<Rightarrow>
        Inr (\<lparr>ak_MessageIDs = ids\<rparr>,
          if changed = [] then d1 else messageAudit e t s ''team.message.ack'' changed audit d1)))"

definition AckTeamMessages ::
  "env \<Rightarrow> string \<Rightarrow> TeamSessionHandle \<Rightarrow> string list \<Rightarrow> TeamAuditContext \<Rightarrow> string \<Rightarrow> db \<Rightarrow> err + (TeamAck \<times> db)" where
  "AckTeamMessages e team h ids audit key d =
     (if length ids < 1 \<or> 100 < length ids then Inl (invalid ''ack needs 1-100 message IDs'')
      else if \<not> list_all is_id ids \<or> \<not> distinct ids then Inl (invalid ''ack needs unique message IDs'')
      else checkedTaskMutation e (au_Actor audit) ''team.message.ack'' team key
        (JObj [(''Handle'', json_handle h), (''IDs'', JArr (map JStr ids))])
        (boundTeamSession team (sh_SessionID h) (au_Actor audit)) RAck prj_ack
        (AckTeamMessages_tx e team h ids audit) d)"

end
