(* ===== verification/TeamInv.thy ===== *)
theory TeamInv
  imports Messages Ledger
begin

text \<open>
  What team coordination keeps: one active coordinator per team, under the team's current
  coordinator generation; at most one reserved attempt per task and per worker; a task
  with a reserved attempt is managed by the attempt's team, is not held in the reservation
  ledger, and is in the state that the attempt's state calls for; a worker's handle follows
  its session.
\<close>

section \<open>Log frames\<close>

text \<open>\<open>logs d d'\<close>: only messages, deliveries and audit events were added.\<close>

definition logs :: "db \<Rightarrow> db \<Rightarrow> bool" where
  "logs d d' \<longleftrightarrow> (\<exists>m dl ev. d' = d\<lparr>db_messages := m, db_deliveries := dl, db_team_events := ev\<rparr>)"

lemma logs_refl [simp]: "logs d d"
  unfolding logs_def by (intro exI [of _ "db_messages d"] exI [of _ "db_deliveries d"] exI [of _ "db_team_events d"]) simp

lemma logs_trans: "logs d d1 \<Longrightarrow> logs d1 d2 \<Longrightarrow> logs d d2"
  unfolding logs_def by (elim exE) (simp, blast)

lemma logs_tables:
  assumes "logs d d'"
  shows "db_projectID d' = db_projectID d" "db_meta d' = db_meta d" "db_tasks d' = db_tasks d" "db_history d' = db_history d"
    "db_state_changes d' = db_state_changes d" "db_reservations d' = db_reservations d" "db_res_events d' = db_res_events d"
    "db_managed d' = db_managed d" "db_sessions d' = db_sessions d" "db_control d' = db_control d"
    "db_assignments d' = db_assignments d" "db_teams d' = db_teams d" "db_requests d' = db_requests d"
    "db_res_requests d' = db_res_requests d" "db_epics d' = db_epics d" "db_epic_history d' = db_epic_history d"
    "db_comments d' = db_comments d" "db_res_services d' = db_res_services d"
  using assms by (auto simp: logs_def)

lemma logs_messages [simp]: "logs d (d\<lparr>db_messages := m\<rparr>)"
  unfolding logs_def by (intro exI [of _ m] exI [of _ "db_deliveries d"] exI [of _ "db_team_events d"]) simp

lemma logs_deliveries [simp]: "logs d (d\<lparr>db_deliveries := m\<rparr>)"
  unfolding logs_def by (intro exI [of _ "db_messages d"] exI [of _ m] exI [of _ "db_team_events d"]) simp

lemma logs_putTeamEvent [simp]: "logs d (putTeamEvent team ev d)"
  unfolding logs_def putTeamEvent_def
  by (intro exI [of _ "db_messages d"] exI [of _ "db_deliveries d"] exI [of _ "db_team_events d @ [(team, ev)]"]) simp

lemma insert_deliveries_logs: "insert_deliveries mid sids d = Inr d' \<Longrightarrow> logs d d'"
  by (induction sids arbitrary: d) (auto split: option.splits intro: logs_trans [OF logs_deliveries])

lemma put_message_logs: "put_message m rs d = Inr (m', d') \<Longrightarrow> logs d d'"
  by (auto simp: put_message_def Let_def tx_simps dest!: insert_deliveries_logs intro: logs_trans [OF logs_messages])

lemma lifecycleMessage_logs: "lifecycleMessage e team r rs l tx refs d = Inr (mid, d') \<Longrightarrow> logs d d'"
  by (auto simp: lifecycleMessage_def Let_def tx_simps dest!: put_message_logs)

lemma saveTeamAssignment_D:
  assumes "saveTeamAssignment e t s a op audit d = Inr d'"
  obtains d1 where "put_assignment a d = Inr d1" "logs d1 d'"
  using assms unfolding saveTeamAssignment_def Let_def
  by (auto simp only: tx_simps split_paired_Ex prod.case dest!: lifecycleMessage_logs intro: logs_trans [OF _ logs_putTeamEvent])

lemma saveTeamSession_D:
  assumes "saveTeamSession e t s previous op audit d = Inr d'"
  obtains d1 where "putTeamSession s d = Inr d1" "logs d1 d'"
  using assms unfolding saveTeamSession_def by (auto simp only: tx_simps sum.inject intro: logs_putTeamEvent)

section \<open>The invariants\<close>

definition teams_ok :: "db \<Rightarrow> bool" where
  "teams_ok d \<longleftrightarrow> (\<forall>k r. map_of (db_teams d) k = Some r \<longrightarrow> te_ID (mr_body r) = k)"

definition session_row_ok :: "(string, int) table \<Rightarrow> string \<Rightarrow> session_row \<Rightarrow> bool" where
  "session_row_ok control k r \<longleftrightarrow> se_ID (sr_body r) = k \<and> sr_team_id r = se_TeamID (sr_body r) \<and> sr_role r = se_Role (sr_body r)
     \<and> sr_state r = se_State (sr_body r) \<and> 1 \<le> se_Generation (sr_body r)
     \<and> (active_coordinator_row r \<longrightarrow> map_of control (sr_team_id r) = Some (se_CoordinatorGeneration (sr_body r)))"

definition sessions_ok :: "db \<Rightarrow> bool" where
  "sessions_ok d \<longleftrightarrow> tb_ok (db_sessions d)
     \<and> (\<forall>k r. map_of (db_sessions d) k = Some r \<longrightarrow> session_row_ok (db_control d) k r)
     \<and> (\<forall>k k' r r'. map_of (db_sessions d) k = Some r \<longrightarrow> map_of (db_sessions d) k' = Some r' \<longrightarrow> active_coordinator_row r
          \<longrightarrow> active_coordinator_row r' \<longrightarrow> sr_team_id r = sr_team_id r' \<longrightarrow> k = k')"

definition assignment_row_ok :: "string \<Rightarrow> assignment_row \<Rightarrow> bool" where
  "assignment_row_ok k r \<longleftrightarrow> k \<noteq> [] \<and> am_ID (ag_body r) = k \<and> ag_team_id r = am_TeamID (ag_body r) \<and> ag_task_id r = am_TaskID (ag_body r)
     \<and> ag_worker_id r = sh_SessionID (am_Worker (ag_body r)) \<and> ag_state r = am_State (ag_body r)
     \<and> ag_reserved r = reserved_state (ag_state r)"

definition attempts_ok :: "db \<Rightarrow> bool" where
  "attempts_ok d \<longleftrightarrow> tb_ok (db_assignments d) \<and> tb_ok (db_managed d)
     \<and> (\<forall>k r. map_of (db_assignments d) k = Some r \<longrightarrow> assignment_row_ok k r)
     \<and> (\<forall>k k' r r'. map_of (db_assignments d) k = Some r \<longrightarrow> map_of (db_assignments d) k' = Some r' \<longrightarrow> ag_reserved r \<longrightarrow> ag_reserved r'
          \<longrightarrow> ag_task_id r = ag_task_id r' \<or> ag_worker_id r = ag_worker_id r' \<longrightarrow> k = k')"

text \<open>The task state an attempt's state calls for.\<close>

definition matching_state :: "string \<Rightarrow> string" where
  "matching_state s = (if s = ''OFFERED'' then ''READY'' else if s = ''RUNNING'' then ''IN_PROGRESS''
     else if s = ''SUBMITTED'' then ''REVIEW'' else ''BLOCKED'')"

definition task_couples :: "db \<Rightarrow> assignment_row \<Rightarrow> bool" where
  "task_couples d r \<longleftrightarrow> map_of (db_managed d) (ag_task_id r) = Some \<lparr>gr_team_id = ag_team_id r, gr_managed = True\<rparr>
     \<and> \<not> held d (ag_task_id r)
     \<and> (\<exists>q. map_of (db_tasks d) (ag_task_id r) = Some q \<and> \<not> tr_archived q \<and> tr_state q = matching_state (ag_state r))"

definition worker_couples :: "db \<Rightarrow> assignment_row \<Rightarrow> bool" where
  "worker_couples d r \<longleftrightarrow> (\<exists>s. map_of (db_sessions d) (ag_worker_id r) = Some s \<and> sr_team_id s = ag_team_id r \<and> sr_role s = ''worker''
     \<and> (ag_state r \<noteq> ''OFFERED'' \<longrightarrow> sr_state s = ''active'' \<longrightarrow> sh_Generation (am_Worker (ag_body r)) = se_Generation (sr_body s)))"

definition coupled :: "db \<Rightarrow> bool" where
  "coupled d \<longleftrightarrow> (\<forall>k r. map_of (db_assignments d) k = Some r \<longrightarrow> ag_reserved r \<longrightarrow> task_couples d r)"

definition workers_ok :: "db \<Rightarrow> bool" where
  "workers_ok d \<longleftrightarrow> (\<forall>k r. map_of (db_assignments d) k = Some r \<longrightarrow> ag_reserved r \<longrightarrow> worker_couples d r)"

definition team_inv :: "db \<Rightarrow> bool" where
  "team_inv d \<longleftrightarrow> ledger_inv d \<and> teams_ok d \<and> sessions_ok d \<and> attempts_ok d \<and> coupled d \<and> workers_ok d"

lemma team_inv_cong:
  assumes "db_tasks d' = db_tasks d" "db_history d' = db_history d" "db_state_changes d' = db_state_changes d"
    "db_reservations d' = db_reservations d" "db_res_events d' = db_res_events d" "db_managed d' = db_managed d"
    "db_sessions d' = db_sessions d" "db_control d' = db_control d" "db_assignments d' = db_assignments d" "db_teams d' = db_teams d"
  shows "team_inv d' = team_inv d"
  unfolding team_inv_def ledger_inv_def task_board_ok_cong [OF assms(1-3)] ledger_ok_cong [OF assms(4,5)]
    holds_ok_cong [OF assms(1,4,6)] teams_ok_def sessions_ok_def attempts_ok_def coupled_def workers_ok_def
    task_couples_def worker_couples_def held_cong [OF assms(4)] assms ..

lemma logs_team_inv: "logs d d' \<Longrightarrow> team_inv d' = team_inv d"
  using logs_tables by (intro team_inv_cong) blast+

lemma team_inv_requests [simp]: "team_inv (d\<lparr>db_requests := t\<rparr>) = team_inv d"
  by (rule team_inv_cong) simp_all

lemma team_inv_res_requests [simp]: "team_inv (d\<lparr>db_res_requests := t\<rparr>) = team_inv d"
  by (rule team_inv_cong) simp_all

lemma team_invD:
  assumes "team_inv d"
  shows "ledger_inv d" "teams_ok d" "sessions_ok d" "attempts_ok d" "coupled d" "workers_ok d" "board_ok d" "holds_ok d"
  using assms by (auto simp: team_inv_def ledger_inv_def task_board_ok_def)

section \<open>Writing an attempt row\<close>

definition arow :: "TeamAssignment \<Rightarrow> assignment_row" where
  "arow a = \<lparr>ag_team_id = am_TeamID a, ag_task_id = am_TaskID a, ag_worker_id = sh_SessionID (am_Worker a), ag_state = am_State a,
     ag_reserved = reserved_state (am_State a), ag_body = a\<rparr>"

lemma arow_sel [simp]: "ag_team_id (arow a) = am_TeamID a" "ag_task_id (arow a) = am_TaskID a"
  "ag_worker_id (arow a) = sh_SessionID (am_Worker a)" "ag_state (arow a) = am_State a"
  "ag_reserved (arow a) = reserved_state (am_State a)" "ag_body (arow a) = a"
  by (simp_all add: arow_def)

lemma arow_ok [simp]: "assignment_row_ok (am_ID a) (arow a) \<longleftrightarrow> am_ID a \<noteq> []"
  by (simp add: assignment_row_ok_def)

definition same_keys :: "db \<Rightarrow> TeamAssignment \<Rightarrow> bool" where
  "same_keys d a \<longleftrightarrow> am_ID a \<noteq> [] \<and> (\<forall>old. map_of (db_assignments d) (am_ID a) = Some old \<longrightarrow>
     ag_team_id old = am_TeamID a \<and> ag_task_id old = am_TaskID a \<and> ag_worker_id old = sh_SessionID (am_Worker a))"

definition clashes :: "db \<Rightarrow> TeamAssignment \<Rightarrow> bool" where
  "clashes d a \<longleftrightarrow> (\<exists>k r. map_of (db_assignments d) k = Some r \<and> k \<noteq> am_ID a \<and> ag_reserved r
     \<and> (ag_task_id r = am_TaskID a \<or> ag_worker_id r = sh_SessionID (am_Worker a)))"

lemma put_assignment_D:
  assumes "put_assignment a d = Inr d'" "same_keys d a" "tb_ok (db_assignments d)"
  shows "d' = d\<lparr>db_assignments := AList.update (am_ID a) (arow a) (db_assignments d)\<rparr>"
    and "reserved_state (am_State a) \<Longrightarrow> \<not> clashes d a"
proof -
  let ?row = "case map_of (db_assignments d) (am_ID a) of
      None \<Rightarrow> \<lparr>ag_team_id = am_TeamID a, ag_task_id = am_TaskID a, ag_worker_id = sh_SessionID (am_Worker a),
        ag_state = am_State a, ag_reserved = reserved_state (am_State a), ag_body = a\<rparr>
    | Some old \<Rightarrow> old\<lparr>ag_state := am_State a, ag_reserved := reserved_state (am_State a), ag_body := a\<rparr>"
  have row: "?row = arow a"
  proof (cases "map_of (db_assignments d) (am_ID a)")
    case (Some old)
    then show ?thesis using assms(2) by (cases old) (auto simp: same_keys_def arow_def)
  qed (simp add: arow_def)
  show "d' = d\<lparr>db_assignments := AList.update (am_ID a) (arow a) (db_assignments d)\<rparr>"
    "reserved_state (am_State a) \<Longrightarrow> \<not> clashes d a"
    using assms(1) unfolding put_assignment_def row Let_def
    by (auto simp: clashes_def tb_exists_iff [OF assms(3)] split: if_splits)
qed

lemma attempts_okD:
  assumes "attempts_ok d"
  shows "tb_ok (db_assignments d)" and "tb_ok (db_managed d)"
    and "map_of (db_assignments d) k = Some r \<Longrightarrow> assignment_row_ok k r"
    and "\<lbrakk>map_of (db_assignments d) k = Some r; map_of (db_assignments d) k' = Some r'; ag_reserved r; ag_reserved r';
      ag_task_id r = ag_task_id r' \<or> ag_worker_id r = ag_worker_id r'\<rbrakk> \<Longrightarrow> k = k'"
  using assms unfolding attempts_ok_def by blast+

lemma put_assignment_ok:
  assumes ok: "attempts_ok d" and p: "put_assignment a d = Inr d'" and k: "same_keys d a"
  shows "attempts_ok d'" and "map_of (db_assignments d') = (map_of (db_assignments d))(am_ID a \<mapsto> arow a)"
    and "\<exists>t. d' = d\<lparr>db_assignments := t\<rparr>"
proof -
  note P = put_assignment_D [OF p k attempts_okD(1) [OF ok]]
  show m: "map_of (db_assignments d') = (map_of (db_assignments d))(am_ID a \<mapsto> arow a)" by (simp add: P(1))
  show "\<exists>t. d' = d\<lparr>db_assignments := t\<rparr>" using P(1) by blast
  show "attempts_ok d'"
    unfolding attempts_ok_def m
  proof (intro conjI allI impI)
    show "tb_ok (db_assignments d')" using attempts_okD(1) [OF ok] by (simp add: P(1))
    show "tb_ok (db_managed d')" using attempts_okD(2) [OF ok] by (simp add: P(1))
    fix i r assume "((map_of (db_assignments d))(am_ID a \<mapsto> arow a)) i = Some r"
    then show "assignment_row_ok i r" using attempts_okD(3) [OF ok] k unfolding same_keys_def by (auto split: if_splits)
  next
    fix i j r q
    assume r: "((map_of (db_assignments d))(am_ID a \<mapsto> arow a)) i = Some r"
      and q: "((map_of (db_assignments d))(am_ID a \<mapsto> arow a)) j = Some q"
      and res: "ag_reserved r" "ag_reserved q" and same: "ag_task_id r = ag_task_id q \<or> ag_worker_id r = ag_worker_id q"
    show "i = j"
    proof (cases "i = am_ID a"; cases "j = am_ID a")
      assume "i = am_ID a" "j \<noteq> am_ID a"
      then have "clashes d a" using r q res same unfolding clashes_def by fastforce
      moreover have "reserved_state (am_State a)" using r res \<open>i = am_ID a\<close> by auto
      ultimately show ?thesis using P(2) by blast
    next
      assume "i \<noteq> am_ID a" "j = am_ID a"
      then have "clashes d a" using r q res same unfolding clashes_def by fastforce
      moreover have "reserved_state (am_State a)" using q res \<open>j = am_ID a\<close> by auto
      ultimately show ?thesis using P(2) by blast
    next
      assume "i \<noteq> am_ID a" "j \<noteq> am_ID a"
      then show ?thesis using attempts_okD(4) [OF ok _ _ res same] r q by simp
    qed auto
  qed
qed

text \<open>The other reserved attempts concern other tasks and other workers.\<close>

lemma others_apart:
  assumes ok: "attempts_ok d" and p: "put_assignment a d = Inr d'" and k: "same_keys d a"
    and r: "reserved_state (am_State a) \<or> (\<exists>old. map_of (db_assignments d) (am_ID a) = Some old \<and> ag_reserved old)"
    and o: "map_of (db_assignments d) i = Some q" "i \<noteq> am_ID a" "ag_reserved q"
  shows "ag_task_id q \<noteq> am_TaskID a" "ag_worker_id q \<noteq> sh_SessionID (am_Worker a)"
proof -
  have "\<not> clashes d a"
    using r
  proof
    assume "\<exists>old. map_of (db_assignments d) (am_ID a) = Some old \<and> ag_reserved old"
    then obtain old where old: "map_of (db_assignments d) (am_ID a) = Some old" "ag_reserved old" by blast
    then have "ag_task_id old = am_TaskID a" "ag_worker_id old = sh_SessionID (am_Worker a)" using k by (auto simp: same_keys_def)
    with old show ?thesis using attempts_okD(4) [OF ok] unfolding clashes_def by metis
  qed (rule put_assignment_D(2) [OF p k attempts_okD(1) [OF ok]])
  with o show "ag_task_id q \<noteq> am_TaskID a" "ag_worker_id q \<noteq> sh_SessionID (am_Worker a)" unfolding clashes_def by blast+
qed

section \<open>A transition of an attempt\<close>

lemma wrote_frame:
  assumes "wrote t b d d'"
  shows "db_assignments d' = db_assignments d" "db_managed d' = db_managed d" "db_sessions d' = db_sessions d"
    "db_control d' = db_control d" "db_teams d' = db_teams d" "db_reservations d' = db_reservations d" "db_requests d' = db_requests d"
    "db_meta d' = db_meta d"
  using wrote_only [OF assms] by auto

lemma attempts_ok_cong:
  "db_assignments d' = db_assignments d \<Longrightarrow> db_managed d' = db_managed d \<Longrightarrow> attempts_ok d' = attempts_ok d"
  by (simp add: attempts_ok_def)

lemma wrote_task_couples:
  assumes "wrote t b d d'" "ag_task_id r \<noteq> tk_ID t"
  shows "task_couples d' r = task_couples d r"
  using assms(2) wrote_state(3) [OF assms(1), of "ag_task_id r"] wrote_frame [OF assms(1)]
  unfolding task_couples_def held_def by simp

text \<open>Storing an attempt keeps the invariants when the rest of the state is in order, the
  attempts of other tasks are, and the new row is, if it is reserved.\<close>

lemma attempt_put:
  assumes rest: "ledger_inv d" "teams_ok d" "sessions_ok d" "attempts_ok d"
    and workers: "\<And>k r. \<lbrakk>map_of (db_assignments d) k = Some r; ag_reserved r; ag_worker_id r \<noteq> sh_SessionID (am_Worker a)\<rbrakk> \<Longrightarrow> worker_couples d r"
    and others: "\<And>k r. \<lbrakk>map_of (db_assignments d) k = Some r; ag_reserved r; ag_task_id r \<noteq> am_TaskID a\<rbrakk> \<Longrightarrow> task_couples d r"
    and keys: "same_keys d a"
    and res: "reserved_state (am_State a) \<or> (\<exists>old. map_of (db_assignments d) (am_ID a) = Some old \<and> ag_reserved old)"
    and new: "reserved_state (am_State a) \<Longrightarrow> task_couples d (arow a) \<and> worker_couples d (arow a)"
    and p: "put_assignment a d = Inr d2" and l: "logs d2 d'"
  shows "team_inv d'"
proof -
  note P = put_assignment_ok [OF rest(4) p keys]
  obtain tb where d2: "d2 = d\<lparr>db_assignments := tb\<rparr>" using P(3) by blast
  have led2: "ledger_inv d2"
    using rest(1) task_board_ok_cong [of d2 d] ledger_ok_cong [of d2 d] holds_ok_cong [of d2 d] by (simp add: ledger_inv_def d2)
  have same: "task_couples d2 r = task_couples d r" "worker_couples d2 r = worker_couples d r" for r
    by (simp_all add: task_couples_def worker_couples_def held_def d2)
  have cw: "task_couples d2 r \<and> worker_couples d2 r" if k: "map_of (db_assignments d2) k = Some r" "ag_reserved r" for k r
  proof (cases "k = am_ID a")
    case True
    with k(1) have r: "r = arow a" by (simp add: P(2))
    with k(2) new show ?thesis by (simp add: same)
  next
    case False
    with k have q: "map_of (db_assignments d) k = Some r" by (simp add: P(2))
    from others_apart [OF rest(4) p keys res q False k(2)] others [OF q k(2)] workers [OF q k(2)]
    show ?thesis unfolding same by blast
  qed
  have "team_inv d2"
    using led2 P(1) rest(2,3) cw unfolding team_inv_def coupled_def workers_ok_def by (simp add: teams_ok_def sessions_ok_def d2)
  then show ?thesis using logs_team_inv [OF l] by simp
qed

lemma attempt_transition:
  assumes inv: "team_inv d" and old: "map_of (db_assignments d) (am_ID a) = Some old" "ag_reserved old" and keys: "same_keys d a"
    and d1: "d1 = d \<or> wrote t False d d1 \<and> tk_ID t = am_TaskID a"
    and p: "put_assignment a d1 = Inr d2" and l: "logs d2 d'"
    and st: "reserved_state (am_State a) \<Longrightarrow> \<exists>q. map_of (db_tasks d1) (am_TaskID a) = Some q \<and> \<not> tr_archived q \<and> tr_state q = matching_state (am_State a)"
    and gen: "\<And>s. \<lbrakk>reserved_state (am_State a); am_State a \<noteq> ''OFFERED''; map_of (db_sessions d) (sh_SessionID (am_Worker a)) = Some s;
        sr_state s = ''active''\<rbrakk> \<Longrightarrow> sh_Generation (am_Worker a) = se_Generation (sr_body s)"
  shows "team_inv d'"
proof -
  note I = team_invD [OF inv]
  have f1: "db_assignments d1 = db_assignments d" "db_managed d1 = db_managed d" "db_sessions d1 = db_sessions d"
    "db_control d1 = db_control d" "db_teams d1 = db_teams d" "db_reservations d1 = db_reservations d"
    using d1 wrote_frame by auto
  have oc: "task_couples d old" "worker_couples d old" using I(5,6) old unfolding coupled_def workers_ok_def by blast+
  have keysD: "ag_team_id old = am_TeamID a" "ag_task_id old = am_TaskID a" "ag_worker_id old = sh_SessionID (am_Worker a)"
    using keys old(1) by (auto simp: same_keys_def)
  show ?thesis
  proof (rule attempt_put [OF _ _ _ _ _ _ _ _ _ p l])
    show "ledger_inv d1" using d1 I(1) oc(1) wrote_ledger_inv keysD by (auto simp: task_couples_def)
    show "teams_ok d1" "sessions_ok d1" using I(2,3) by (simp_all add: teams_ok_def sessions_ok_def f1)
    show "worker_couples d1 r" if "map_of (db_assignments d1) k = Some r" "ag_reserved r" for k r
      using I(6) that unfolding workers_ok_def worker_couples_def f1 by blast
    show "attempts_ok d1" using I(4) attempts_ok_cong [OF f1(1,2)] by simp
    show "same_keys d1 a" using keys by (simp add: same_keys_def f1)
    show "task_couples d1 r" if "map_of (db_assignments d1) k = Some r" "ag_reserved r" "ag_task_id r \<noteq> am_TaskID a" for k r
      using I(5) that d1 wrote_task_couples unfolding coupled_def f1 by metis
    show "reserved_state (am_State a) \<or> (\<exists>old. map_of (db_assignments d1) (am_ID a) = Some old \<and> ag_reserved old)"
      using old by (simp add: f1)
    show "task_couples d1 (arow a) \<and> worker_couples d1 (arow a)" if r: "reserved_state (am_State a)"
    proof
      show "task_couples d1 (arow a)" using st [OF r] oc(1) by (simp add: task_couples_def held_def f1 keysD)
      show "worker_couples d1 (arow a)" using gen [OF r] oc(2) by (auto simp: worker_couples_def f1 keysD)
    qed
  qed
qed

end
