(* ===== verification/AttemptInv.thy ===== *)
theory AttemptInv
  imports TeamInv
begin

text \<open>
  The invariants of team coordination, operation by operation: what each transition of an
  attempt read and wrote, and that the invariants survive it.
\<close>

section \<open>What the readers return\<close>

lemma readTeamAssignment_D:
  assumes "team_inv d" "readTeamAssignment team aid d = Inr a"
  obtains r where "map_of (db_assignments d) aid = Some r" "ag_body r = a" "am_ID a = aid" "am_TeamID a = team"
    "ag_team_id r = team" "ag_task_id r = am_TaskID a" "ag_worker_id r = sh_SessionID (am_Worker a)" "ag_state r = am_State a"
    "ag_reserved r = reserved_state (am_State a)" "aid \<noteq> []"
proof -
  from assms(2) obtain r where r: "map_of (db_assignments d) aid = Some r" "ag_body r = a" "ag_team_id r = team"
    by (auto simp: readTeamAssignment_def split: option.splits if_splits)
  have "assignment_row_ok aid r" by (rule attempts_okD(3) [OF team_invD(4) [OF assms(1)] r(1)])
  then show ?thesis by (intro that [OF r(1,2)]) (simp_all add: assignment_row_ok_def r)
qed

lemma readTeamSession_D:
  assumes "team_inv d" "readTeamSession team sid d = Inr s"
  obtains r where "map_of (db_sessions d) sid = Some r" "sr_body r = s" "se_ID s = sid" "sr_team_id r = team" "se_TeamID s = team"
    "sr_role r = se_Role s" "sr_state r = se_State s" "1 \<le> se_Generation s"
proof -
  from assms(2) obtain r where r: "map_of (db_sessions d) sid = Some r" "sr_body r = s" "sr_team_id r = team"
    by (auto simp: readTeamSession_def split: option.splits if_splits)
  have "session_row_ok (db_control d) sid r" using team_invD(3) [OF assms(1)] r(1) unfolding sessions_ok_def by blast
  then show ?thesis by (intro that [OF r(1,2)]) (simp_all add: session_row_ok_def r)
qed

lemma readTeam_D: "team_inv d \<Longrightarrow> readTeam team d = Inr t \<Longrightarrow> te_ID t = team"
  by (auto simp: readTeam_def teams_ok_def dest!: team_invD(2) split: option.splits)

lemma requireTeamMember_D: "requireTeamMember team actor c d = Inr t \<Longrightarrow> readTeam team d = Inr t \<and> enrolled t (ac_UserID actor) c"
  by (auto simp: requireTeamMember_def tx_simps split: if_splits)

lemma boundTeamSession_D:
  assumes "boundTeamSession team sid a d = Inr (t, s)"
  shows "readTeamSession team sid d = Inr s" "readTeam team d = Inr t" "enrolled t (ac_UserID a) (se_Role s = ''coordinator'')"
    "se_UserID s = ac_UserID a" "se_TokenID s = ac_TokenID a"
  using assms by (auto simp: boundTeamSession_def tx_simps dest!: requireTeamMember_D)

lemma currentMessageSession_D:
  assumes "currentMessageSession team h a d = Inr (t, s)"
  shows "boundTeamSession team (sh_SessionID h) a d = Inr (t, s)" "se_State s = ''active''" "se_Generation s = sh_Generation h"
  using assms by (auto simp: currentMessageSession_def tx_simps split: prod.splits)

lemma currentCoordinator_D:
  assumes "currentCoordinator team h g a d = Inr (t, s)"
  shows "currentMessageSession team h a d = Inr (t, s)" "se_Role s = ''coordinator''" "se_CoordinatorGeneration s = g"
    "map_of (db_control d) team = Some g"
  using assms by (auto simp: currentCoordinator_def tx_simps split: prod.splits option.splits if_splits)

lemma assignmentTask_D:
  assumes "assignmentTask a rv st d = Inr t"
  shows "readTask (am_TaskID a) d = Inr t" "tk_Revision t = rv" "\<not> tc_Archived (tk_Content t)" "tc_State (tk_Content t) = st"
  using assms by (auto simp: assignmentTask_def tx_simps)

lemma assignmentReady_D:
  assumes "assignmentReady tid rv d = Inr t"
  shows "readTask tid d = Inr t" "\<not> held d tid" "tk_Revision t = rv" "tc_State (tk_Content t) = ''READY''" "\<not> tc_Archived (tk_Content t)"
    "dependencies_done (tc_Dependencies (tk_Content t)) d = None"
  using assms by (auto simp: assignmentReady_def tx_simps rejectActiveReservation_held)

lemma assignmentWorker_D:
  assumes "assignmentWorker team h authorize d = Inr s"
  shows "readTeamSession team (sh_SessionID h) d = Inr s" "se_Role s = ''worker''" "se_State s = ''active''" "se_Generation s = sh_Generation h"
  using assms by (auto simp: assignmentWorker_def tx_simps)

lemma next_version_sel [simp]: "tk_Content (next_version t c now) = c" "tk_Revision (next_version t c now) = tk_Revision t + 1"
  "tk_ID (next_version t c now) = tk_ID t" "tk_Coordination (next_version t c now) = tk_Coordination t"
  by (simp_all add: next_version_def)

lemma saveTask_next:
  assumes "board_ok d" "readTask tid d = Inr t" "saveTask (next_version t c now) actor False d = Inr d'"
  shows "wrote (next_version t c now) False d d'" "tk_ID (next_version t c now) = tid" "\<not> held d tid"
  using saveTask_D [OF assms(3)] readTask_ok [OF assms(1,2)]
  by (auto simp: wrote_def in_order_def rejectActiveReservation_held)

text \<open>A written version's row.\<close>

lemma wrote_row:
  assumes "wrote t b d d'" "tk_ID t = tid"
  shows "\<exists>q. map_of (db_tasks d') tid = Some q \<and> tr_archived q = tc_Archived (tk_Content t) \<and> tr_state q = tc_State (tk_Content t)"
  using wrote_state(3) [OF assms(1), of tid] assms(2) by (simp add: task_columns_def)

lemma readTask_row:
  assumes "board_ok d" "readTask tid d = Inr t"
  shows "\<exists>q. map_of (db_tasks d) tid = Some q \<and> tr_archived q = tc_Archived (tk_Content t) \<and> tr_state q = tc_State (tk_Content t)"
proof -
  from readTask_D [OF assms(2)] obtain q where q: "map_of (db_tasks d) tid = Some q" "tk_Content t = tk_Content (tr_body q)" by blast
  from board_okD(4) [OF assms(1) q(1)] have "tr_archived q = tc_Archived (tk_Content t)" "tr_state q = tc_State (tk_Content t)"
    unfolding q(2) by (metis task_columns_def task_row.select_convs(1,2))+
  with q show ?thesis by blast
qed

section \<open>Transitions of a reserved attempt\<close>

text \<open>The attempt keeps its identity, its task, its team and its worker's session.\<close>

definition same_attempt :: "TeamAssignment \<Rightarrow> TeamAssignment \<Rightarrow> bool" where
  "same_attempt a a' \<longleftrightarrow> am_ID a' = am_ID a \<and> am_TeamID a' = am_TeamID a \<and> am_TaskID a' = am_TaskID a
     \<and> sh_SessionID (am_Worker a') = sh_SessionID (am_Worker a)"

text \<open>The handle an attempt in progress carries is its worker's current one.\<close>

lemma worker_generation:
  assumes "team_inv d" "map_of (db_assignments d) k = Some r" "ag_reserved r" "ag_state r \<noteq> ''OFFERED''"
    "map_of (db_sessions d) (ag_worker_id r) = Some s" "sr_state s = ''active''"
  shows "sh_Generation (am_Worker (ag_body r)) = se_Generation (sr_body s)"
  using team_invD(6) [OF assms(1)] assms(2-) unfolding workers_ok_def worker_couples_def by fastforce

lemma attempt_step:
  assumes inv: "team_inv d" and a: "readTeamAssignment team aid d = Inr a" and res: "reserved_state (am_State a)"
    and same: "same_attempt a a'" "reserved_state (am_State a') \<Longrightarrow> am_State a' \<noteq> ''OFFERED'' \<Longrightarrow> am_Worker a' = am_Worker a \<and> am_State a \<noteq> ''OFFERED''
       \<or> (\<exists>s authorize. assignmentWorker team (am_Worker a') authorize d = Inr s)"
    and d1: "d1 = d \<and> \<not> reserved_state (am_State a')
      \<or> (\<exists>t c now actor. readTask (am_TaskID a) d = Inr t \<and> saveTask (next_version t c now) actor False d = Inr d1
          \<and> (reserved_state (am_State a') \<longrightarrow> \<not> tc_Archived c \<and> tc_State c = matching_state (am_State a')))"
    and s: "saveTeamAssignment e tm ss a' op audit d1 = Inr d'"
  shows "team_inv d'"
proof -
  note I = team_invD [OF inv]
  from readTeamAssignment_D [OF inv a] obtain r where r: "map_of (db_assignments d) aid = Some r" "ag_body r = a" "am_ID a = aid"
    "ag_team_id r = team" "am_TeamID a = team" "ag_task_id r = am_TaskID a" "ag_worker_id r = sh_SessionID (am_Worker a)" "ag_state r = am_State a"
    "ag_reserved r = reserved_state (am_State a)" "aid \<noteq> []" by metis
  from s obtain d2 where p: "put_assignment a' d1 = Inr d2" "logs d2 d'" by (rule saveTeamAssignment_D)
  have old: "map_of (db_assignments d) (am_ID a') = Some r" "ag_reserved r" using r res same(1) by (simp_all add: same_attempt_def)
  have keys: "same_keys d a'" using old r same(1) by (auto simp: same_keys_def same_attempt_def)
  have step: "d1 = d \<or> wrote t False d d1 \<and> tk_ID t = am_TaskID a'" if "d1 = d \<or> wrote t False d d1 \<and> tk_ID t = am_TaskID a" for t
    using that same(1) by (simp add: same_attempt_def)
  have gen: "sh_Generation (am_Worker a') = se_Generation (sr_body q)"
    if g: "reserved_state (am_State a')" "am_State a' \<noteq> ''OFFERED''" "map_of (db_sessions d) (sh_SessionID (am_Worker a')) = Some q" "sr_state q = ''active''" for q
    using same(2) [OF g(1,2)]
  proof
    assume "am_Worker a' = am_Worker a \<and> am_State a \<noteq> ''OFFERED''"
    then show ?thesis using worker_generation [OF inv r(1), of q] g r res same(1) by (simp add: same_attempt_def)
  next
    assume "\<exists>s authorize. assignmentWorker team (am_Worker a') authorize d = Inr s"
    then obtain w authorize where w: "assignmentWorker team (am_Worker a') authorize d = Inr w" by blast
    from readTeamSession_D [OF inv assignmentWorker_D(1) [OF w]] g(3) have "sr_body q = w" by auto
    with assignmentWorker_D(4) [OF w] show ?thesis by simp
  qed
  from d1 show ?thesis
  proof
    assume "d1 = d \<and> \<not> reserved_state (am_State a')"
    then show ?thesis using attempt_transition [OF inv old keys _ p] by blast
  next
    assume "\<exists>t c now actor. readTask (am_TaskID a) d = Inr t \<and> saveTask (next_version t c now) actor False d = Inr d1
          \<and> (reserved_state (am_State a') \<longrightarrow> \<not> tc_Archived c \<and> tc_State c = matching_state (am_State a'))"
    then obtain t c now actor where t: "readTask (am_TaskID a) d = Inr t" "saveTask (next_version t c now) actor False d = Inr d1"
      "reserved_state (am_State a') \<longrightarrow> \<not> tc_Archived c \<and> tc_State c = matching_state (am_State a')" by blast
    note w = saveTask_next [OF I(7) t(1,2)]
    show ?thesis
    proof (rule attempt_transition [OF inv old keys step [of "next_version t c now"] p])
      show "d1 = d \<or> wrote (next_version t c now) False d d1 \<and> tk_ID (next_version t c now) = am_TaskID a" using w by blast
      show "\<exists>q. map_of (db_tasks d1) (am_TaskID a') = Some q \<and> \<not> tr_archived q \<and> tr_state q = matching_state (am_State a')"
        if "reserved_state (am_State a')"
        using wrote_row [OF w(1,2)] t(3) that same(1) by (simp add: same_attempt_def)
    qed (rule gen)
  qed
qed

text \<open>The common case: the task was written, and the handle is the one the attempt had.\<close>

lemma attempt_write:
  assumes "team_inv d" "readTeamAssignment team aid d = Inr a" "reserved_state (am_State a)" "am_State a \<noteq> ''OFFERED''"
    and "readTask (am_TaskID a) d = Inr t" "saveTask (next_version t c now) actor False d = Inr d1"
    and "saveTeamAssignment e tm ss a' op audit d1 = Inr d'"
    and "same_attempt a a'" "am_Worker a' = am_Worker a"
    and "reserved_state (am_State a') \<Longrightarrow> \<not> tc_Archived c \<and> tc_State c = matching_state (am_State a')"
  shows "team_inv d'"
  using assms(4-6,9,10) by (intro attempt_step [OF assms(1-3,8) _ _ assms(7)]) blast+

lemmas attempt_states = reserved_state_def matching_state_def same_attempt_def

lemma workTransition_D:
  assumes "workTransition op st = Inr (nxt, task, prior)"
  shows "reserved_state st" "st \<noteq> ''OFFERED''" "prior = matching_state st" "nxt \<noteq> ''OFFERED''"
    "reserved_state nxt \<Longrightarrow> task = matching_state nxt" "\<not> reserved_state nxt \<Longrightarrow> task = ''READY''"
  using assms by (auto simp: workTransition_def Let_def attempt_states split: if_splits)

lemma ChangeTeamWork_tx_inv:
  assumes "team_inv d" "ChangeTeamWork_tx e team aid op c audit d = Inr (a', d')"
  shows "team_inv d'"
proof -
  from assms(2) obtain tm s a nxt st prior t content d1 where a: "readTeamAssignment team aid d = Inr a"
    and w: "workTransition op (am_State a) = Inr (nxt, st, prior)"
    and t: "assignmentTask a (wk_ExpectedRevision c) prior d = Inr t"
    and content: "content = (tk_Content t)\<lparr>tc_Blocker := (if op = ''block'' \<or> op = ''cancel'' then wk_Reason c
             else if op = ''resume-work'' \<or> op = ''close-stop'' then [] else tc_Blocker (tk_Content t)), tc_State := st\<rparr>"
    and sv: "saveTask (next_version t content (e_now e 0)) (au_Actor audit) False d = Inr d1"
    and a': "a' = a\<lparr>am_State := nxt, am_Reason := wk_Reason c, am_UpdatedAt := e_now e 0\<rparr>"
    and sa: "saveTeamAssignment e tm s a' (''team.assignment.'' @ op) audit d1 = Inr d'"
    unfolding ChangeTeamWork_tx_def Let_def by (simp only: tx_simps split_paired_Ex prod.case sum.inject prod.inject) blast
  note T = assignmentTask_D [OF t]
  note r = workTransition_D [OF w]
  show ?thesis
    by (rule attempt_write [OF assms(1) a r(1,2) T(1) sv sa]) (use r(5) T(3) in \<open>simp_all add: a' content same_attempt_def\<close>)
qed

lemma SubmitTeamResult_tx_inv:
  assumes "team_inv d" "SubmitTeamResult_tx e team aid c audit d = Inr (a', d')"
  shows "team_inv d'"
proof -
  from assms(2) obtain tm w a t d1 where a: "readTeamAssignment team aid d = Inr a" "am_State a = ''RUNNING''"
    and t: "assignmentTask a (rb_ExpectedRevision c) ''IN_PROGRESS'' d = Inr t"
    and sv: "saveTask (next_version t ((tk_Content t)\<lparr>tc_State := ''REVIEW''\<rparr>) (e_now e 0)) (au_Actor audit) False d = Inr d1"
    and a': "am_State a' = ''SUBMITTED''" "am_Worker a' = am_Worker a" "same_attempt a a'"
    and sa: "saveTeamAssignment e tm w a' ''team.assignment.submit'' audit d1 = Inr d'"
    unfolding SubmitTeamResult_tx_def Let_def by (auto simp: tx_simps same_attempt_def split: prod.splits)
  note T = assignmentTask_D [OF t]
  show ?thesis
    by (rule attempt_write [OF assms(1) a(1) _ _ T(1) sv sa]) (use a' T(3) in \<open>simp_all add: a attempt_states\<close>)
qed

lemma ReviewTeamResult_tx_inv:
  assumes "team_inv d" "ReviewTeamResult_tx e team aid c audit d = Inr (a', d')"
  shows "team_inv d'"
proof -
  from assms(2) obtain tm w a t d1 content where a: "readTeamAssignment team aid d = Inr a" "am_State a = ''SUBMITTED''"
    and t: "assignmentTask a (dc_ExpectedRevision c) ''REVIEW'' d = Inr t"
    and sv: "saveTask (next_version t content (e_now e 0)) (au_Actor audit) False d = Inr d1"
    and a': "\<not> reserved_state (am_State a')" "am_Worker a' = am_Worker a" "same_attempt a a'"
    and sa: "saveTeamAssignment e tm w a' ''team.assignment.review'' audit d1 = Inr d'"
    unfolding ReviewTeamResult_tx_def Let_def by (auto simp: tx_simps attempt_states split: prod.splits)
  note T = assignmentTask_D [OF t]
  show ?thesis
    by (rule attempt_write [OF assms(1) a(1) _ _ T(1) sv sa]) (use a' in \<open>simp_all add: a attempt_states\<close>)
qed

lemma RecoverTeamAssignment_tx_inv:
  assumes "team_inv d" "RecoverTeamAssignment_tx e team aid c audit tm d = Inr (a', d')"
  shows "team_inv d'"
proof -
  from assms(2) obtain w a t d1 content prior where a: "readTeamAssignment team aid d = Inr a"
      "am_State a \<in> {''RUNNING'', ''BLOCKED'', ''STOP_REQUESTED'', ''STOPPED''}"
    and t: "assignmentTask a (rm_ExpectedRevision c) prior d = Inr t"
    and sv: "saveTask (next_version t content (e_now e 0)) (au_Actor audit) False d = Inr d1"
    and a': "\<not> reserved_state (am_State a')" "am_Worker a' = am_Worker a" "same_attempt a a'"
    and sa: "saveTeamAssignment e tm w a' ''team.assignment.recover'' audit d1 = Inr d'"
    unfolding RecoverTeamAssignment_tx_def Let_def by (auto simp: tx_simps attempt_states split: prod.splits)
  note T = assignmentTask_D [OF t]
  show ?thesis
    by (rule attempt_write [OF assms(1) a(1) _ _ T(1) sv sa]) (use a' a(2) in \<open>auto simp: attempt_states\<close>)
qed

lemma ChangeTeamAssignment_tx_inv:
  assumes "team_inv d" "ChangeTeamAssignment_tx e team aid op c audit authorize d = Inr (a', d')"
  shows "team_inv d'"
proof -
  from assms(2) obtain tm s a state d1 where a: "readTeamAssignment team aid d = Inr a" "am_State a = ''OFFERED''"
    and st: "(if op = ''accept'' then
              (case assignmentWorker team (am_Worker a) authorize d of Inl x \<Rightarrow> Inl x | Inr _ \<Rightarrow>
               case assignmentReady (am_TaskID a) (am_TaskRevision a) d of Inl x \<Rightarrow> Inl x | Inr t \<Rightarrow>
               case saveTask (next_version t ((tk_Content t)\<lparr>tc_State := ''IN_PROGRESS''\<rparr>) (e_now e 0)) (au_Actor audit) False d of
                 Inl x \<Rightarrow> Inl x
               | Inr d1 \<Rightarrow> Inr (''RUNNING'', d1))
            else if op = ''decline'' then Inr (''DECLINED'', d)
            else Inr (''WITHDRAWN'', d)) = Inr (state, d1)"
    and a': "a' = a\<lparr>am_State := state, am_Reason := ax_Reason c, am_UpdatedAt := e_now e 4\<rparr>"
    and sa: "saveTeamAssignment e tm s a' (''team.assignment.'' @ op) audit d1 = Inr d'"
    unfolding ChangeTeamAssignment_tx_def Let_def by (simp only: tx_simps split_paired_Ex prod.case sum.inject prod.inject) blast
  show ?thesis
  proof (cases "op = ''accept''")
    case True
    with st obtain w t where w: "assignmentWorker team (am_Worker a) authorize d = Inr w"
      and t: "assignmentReady (am_TaskID a) (am_TaskRevision a) d = Inr t" and state: "state = ''RUNNING''"
      and sv: "saveTask (next_version t ((tk_Content t)\<lparr>tc_State := ''IN_PROGRESS''\<rparr>) (e_now e 0)) (au_Actor audit) False d = Inr d1"
      by (auto simp: tx_simps)
    note T = assignmentReady_D [OF t]
    have n: "d1 = d \<and> \<not> reserved_state (am_State a')
      \<or> (\<exists>t c now actor. readTask (am_TaskID a) d = Inr t \<and> saveTask (next_version t c now) actor False d = Inr d1
          \<and> (reserved_state (am_State a') \<longrightarrow> \<not> tc_Archived c \<and> tc_State c = matching_state (am_State a')))"
      using T(1,5) sv by (intro disjI2 exI conjI) (assumption | simp add: a' state attempt_states)+
    show ?thesis
      by (rule attempt_step [OF assms(1) a(1) _ _ _ n sa]) (use w in \<open>auto simp: a a' state attempt_states\<close>)
  next
    case False
    with st have state: "state = ''DECLINED'' \<or> state = ''WITHDRAWN''" "d1 = d" by (auto split: if_splits)
    show ?thesis
      by (rule attempt_step [OF assms(1) a(1) _ _ _ _ sa]) (use state in \<open>auto simp: a a' attempt_states\<close>)
  qed
qed

section \<open>A new offer\<close>

lemma ledger_inv_manage:
  assumes "ledger_inv d" "\<not> held d tid"
  shows "ledger_inv (d\<lparr>db_managed := AList.update tid g (db_managed d)\<rparr>)"
  using assms task_board_ok_cong [of "d\<lparr>db_managed := AList.update tid g (db_managed d)\<rparr>" d]
    ledger_ok_cong [of "d\<lparr>db_managed := AList.update tid g (db_managed d)\<rparr>" d]
  unfolding ledger_inv_def holds_ok_def by (auto simp: held_def task_open_def task_managed_def)

text \<open>Offers need a new attempt identifier; nothing else is asked of the generator.\<close>

lemma OfferTeamAssignment_tx_inv:
  assumes inv: "team_inv d" and new: "map_of (db_assignments d) (e_uuid e 0) = None" "e_uuid e 0 \<noteq> []"
    and o: "OfferTeamAssignment_tx e team c audit authorize d = Inr (a, d')"
  shows "team_inv d'"
proof -
  let ?g = "\<lparr>gr_team_id = team, gr_managed = True\<rparr>"
  from o obtain tm s t w where t: "assignmentReady (of_TaskID c) (of_ExpectedRevision c) d = Inr t"
    and w: "assignmentWorker team (of_Worker c) authorize d = Inr w"
    and a: "am_ID a = e_uuid e 0" "am_TeamID a = team" "am_TaskID a = tk_ID t" "am_State a = ''OFFERED''" "am_Worker a = of_Worker c"
    and sa: "saveTeamAssignment e tm s a ''team.assignment.offer'' audit
             (d\<lparr>db_managed := AList.update (tk_ID t) ?g (db_managed d)\<rparr>) = Inr d'"
    unfolding OfferTeamAssignment_tx_def Let_def by (auto simp: tx_simps split: prod.splits)
  note I = team_invD [OF inv] and T = assignmentReady_D [OF t]
  have tid: "tk_ID t = of_TaskID c" using readTask_ok(1) [OF I(7) T(1)] .
  let ?d = "d\<lparr>db_managed := AList.update (tk_ID t) ?g (db_managed d)\<rparr>"
  from sa obtain d2 where p: "put_assignment a ?d = Inr d2" "logs d2 d'" by (rule saveTeamAssignment_D)
  have m: "map_of (db_managed ?d) = (map_of (db_managed d))(tk_ID t \<mapsto> ?g)" by simp
  show ?thesis
  proof (rule attempt_put [OF _ _ _ _ _ _ _ _ _ p])
    show "ledger_inv ?d" using ledger_inv_manage [OF I(1), of "tk_ID t"] T(2) tid by simp
    show "teams_ok ?d" "sessions_ok ?d" using I(2,3) by (simp_all add: teams_ok_def sessions_ok_def)
    show "worker_couples ?d r" if "map_of (db_assignments ?d) k = Some r" "ag_reserved r" for k r
      using I(6) that unfolding workers_ok_def worker_couples_def by simp
    show "attempts_ok ?d" using I(4) by (simp add: attempts_ok_def)
    show "same_keys ?d a" using new by (simp add: same_keys_def a)
    show "task_couples ?d r" if "map_of (db_assignments ?d) k = Some r" "ag_reserved r" "ag_task_id r \<noteq> am_TaskID a" for k r
    proof -
      have "task_couples d r" using I(5) that(1,2) unfolding coupled_def by simp
      then show ?thesis using that(3) unfolding task_couples_def m held_def by (simp add: a)
    qed
    show "reserved_state (am_State a) \<or> (\<exists>old. map_of (db_assignments ?d) (am_ID a) = Some old \<and> ag_reserved old)"
      by (simp add: a attempt_states)
    show "task_couples ?d (arow a) \<and> worker_couples ?d (arow a)"
    proof
      have "\<exists>q. map_of (db_tasks d) (tk_ID t) = Some q \<and> \<not> tr_archived q \<and> tr_state q = ''READY''"
        using readTask_row [OF I(7) T(1)] T(4,5) tid by simp
      then show "task_couples ?d (arow a)" using T(2) unfolding task_couples_def m
        by (simp add: a held_def attempt_states tid)
      note W = assignmentWorker_D [OF w]
      from readTeamSession_D [OF inv W(1)] obtain r where "map_of (db_sessions d) (sh_SessionID (of_Worker c)) = Some r"
        "sr_body r = w" "sr_team_id r = team" "sr_role r = se_Role w" by metis
      then show "worker_couples ?d (arow a)" using W(2) by (simp add: worker_couples_def a)
    qed
  qed
qed

section \<open>Sessions\<close>

text \<open>A session write as the database sees it.\<close>

lemma putTeamSession_D:
  assumes "putTeamSession s d = Inr d'"
  obtains row where "d' = d\<lparr>db_sessions := AList.update (se_ID s) row (db_sessions d)\<rparr>"
    "sr_role row = se_Role s" "sr_state row = se_State s" "sr_body row = s"
    "sr_team_id row = (case map_of (db_sessions d) (se_ID s) of None \<Rightarrow> se_TeamID s | Some old \<Rightarrow> sr_team_id old)"
    "active_coordinator_row row \<longrightarrow> \<not> tb_exists (\<lambda>k r. k \<noteq> se_ID s \<and> sr_team_id r = sr_team_id row \<and> active_coordinator_row r) (db_sessions d)"
proof -
  let ?row = "case map_of (db_sessions d) (se_ID s) of
            None \<Rightarrow> \<lparr>sr_team_id = se_TeamID s, sr_role = se_Role s, sr_state = se_State s, sr_body = s\<rparr>
          | Some old \<Rightarrow> old\<lparr>sr_role := se_Role s, sr_state := se_State s, sr_body := s\<rparr>"
  have r: "sr_role ?row = se_Role s" "sr_state ?row = se_State s" "sr_body ?row = s"
    "sr_team_id ?row = (case map_of (db_sessions d) (se_ID s) of None \<Rightarrow> se_TeamID s | Some old \<Rightarrow> sr_team_id old)"
    by (simp_all split: option.splits)
  have "\<not> (active_coordinator_row ?row \<and> tb_exists (\<lambda>k r. k \<noteq> se_ID s \<and> sr_team_id r = sr_team_id ?row \<and> active_coordinator_row r) (db_sessions d))
    \<and> d\<lparr>db_sessions := AList.update (se_ID s) ?row (db_sessions d)\<rparr> = d'"
    using assms unfolding putTeamSession_def Let_def if_Inl_Inr_iff sum.inject .
  then show ?thesis using that [of ?row] r by blast
qed

text \<open>A session keeps its identity and its team; the coordinator slot's generation is what
  an active coordinator of the team carries, and a worker with a reserved attempt stays a
  worker. Its generation may move: the attempts in progress then lag until they are
  rebound, unless the session is closed.\<close>

definition sessions_step :: "db \<Rightarrow> TeamSession \<Rightarrow> bool" where
  "sessions_step d s \<longleftrightarrow> 1 \<le> se_Generation s
     \<and> (\<forall>old. map_of (db_sessions d) (se_ID s) = Some old \<longrightarrow> se_TeamID s = sr_team_id old)
     \<and> (se_Role s = ''coordinator'' \<and> se_State s = ''active'' \<longrightarrow> map_of (db_control d) (se_TeamID s) = Some (se_CoordinatorGeneration s))"

lemma putTeamSession_sessions_ok:
  assumes ok: "tb_ok (db_sessions d)" "\<And>k r. map_of (db_sessions d) k = Some r \<Longrightarrow> k \<noteq> se_ID s \<Longrightarrow> session_row_ok (db_control d) k r"
    "\<And>k k' r r'. \<lbrakk>map_of (db_sessions d) k = Some r; map_of (db_sessions d) k' = Some r'; active_coordinator_row r;
        active_coordinator_row r'; sr_team_id r = sr_team_id r'; k \<noteq> se_ID s; k' \<noteq> se_ID s\<rbrakk> \<Longrightarrow> k = k'"
    and p: "putTeamSession s d = Inr d'" and st: "sessions_step d s"
  shows "sessions_ok d'" and "\<exists>row. d' = d\<lparr>db_sessions := AList.update (se_ID s) row (db_sessions d)\<rparr>
      \<and> sr_body row = s \<and> sr_role row = se_Role s \<and> sr_state row = se_State s \<and> sr_team_id row = se_TeamID s"
proof -
  obtain row where d': "d' = d\<lparr>db_sessions := AList.update (se_ID s) row (db_sessions d)\<rparr>"
    and r: "sr_role row = se_Role s" "sr_state row = se_State s" "sr_body row = s"
    "sr_team_id row = (case map_of (db_sessions d) (se_ID s) of None \<Rightarrow> se_TeamID s | Some old \<Rightarrow> sr_team_id old)"
    and u: "active_coordinator_row row \<longrightarrow>
       \<not> tb_exists (\<lambda>k r. k \<noteq> se_ID s \<and> sr_team_id r = sr_team_id row \<and> active_coordinator_row r) (db_sessions d)"
    using p by (rule putTeamSession_D)
  have t: "sr_team_id row = se_TeamID s" using st r(4) by (auto simp: sessions_step_def split: option.splits)
  show "\<exists>row. d' = d\<lparr>db_sessions := AList.update (se_ID s) row (db_sessions d)\<rparr>
      \<and> sr_body row = s \<and> sr_role row = se_Role s \<and> sr_state row = se_State s \<and> sr_team_id row = se_TeamID s"
    using d' r t by blast
  have m: "map_of (db_sessions d') = (map_of (db_sessions d))(se_ID s \<mapsto> row)" and c: "db_control d' = db_control d" by (simp_all add: d')
  have rowok: "session_row_ok (db_control d) (se_ID s) row"
    using st r(1-3) t by (auto simp: session_row_ok_def sessions_step_def active_coordinator_row_def)
  have one: "k = se_ID s" if "active_coordinator_row row" "map_of (db_sessions d) k = Some q" "active_coordinator_row q" "sr_team_id q = sr_team_id row" for k q
    using u that tb_exists_iff [OF ok(1)] by blast
  show "sessions_ok d'"
    unfolding sessions_ok_def m c
  proof (intro conjI allI impI)
    show "tb_ok (db_sessions d')" using ok(1) by (simp add: d')
    show "session_row_ok (db_control d) k q" if "((map_of (db_sessions d))(se_ID s \<mapsto> row)) k = Some q" for k q
      using that rowok ok(2) by (cases "k = se_ID s") auto
    fix k k' q q'
    assume q: "((map_of (db_sessions d))(se_ID s \<mapsto> row)) k = Some q" "((map_of (db_sessions d))(se_ID s \<mapsto> row)) k' = Some q'"
      "active_coordinator_row q" "active_coordinator_row q'" "sr_team_id q = sr_team_id q'"
    show "k = k'"
    proof (cases "k = se_ID s"; cases "k' = se_ID s")
      assume "k = se_ID s" "k' \<noteq> se_ID s"
      then show ?thesis using q one [of k' q'] by simp
    next
      assume "k \<noteq> se_ID s" "k' = se_ID s"
      then show ?thesis using q one [of k q] by simp
    next
      assume "k \<noteq> se_ID s" "k' \<noteq> se_ID s"
      then show ?thesis using q ok(3) by simp
    qed simp
  qed
qed

end
