(* ===== verification/SessionInv.thy ===== *)
theory SessionInv
  imports AttemptInv
begin

text \<open>
  Sessions against the invariants: joining, the changes a member makes to its own session,
  the handover of the coordinator slot and the replacement of a credential. A change of a
  worker's generation leaves its attempt in progress behind for the rest of the
  transaction; \<open>rebindReservedAssignment\<close> catches it up.
\<close>

section \<open>The invariant, but for one worker\<close>

definition worker_home :: "db \<Rightarrow> assignment_row \<Rightarrow> bool" where
  "worker_home d r \<longleftrightarrow> (\<exists>s. map_of (db_sessions d) (ag_worker_id r) = Some s \<and> sr_team_id s = ag_team_id r \<and> sr_role s = ''worker'')"

definition team_inv_but :: "string \<Rightarrow> db \<Rightarrow> bool" where
  "team_inv_but w d \<longleftrightarrow> ledger_inv d \<and> teams_ok d \<and> sessions_ok d \<and> attempts_ok d \<and> coupled d
     \<and> (\<forall>k r. map_of (db_assignments d) k = Some r \<longrightarrow> ag_reserved r \<longrightarrow> worker_home d r \<and> (ag_worker_id r \<noteq> w \<longrightarrow> worker_couples d r))"

lemma worker_couples_home: "worker_couples d r \<Longrightarrow> worker_home d r"
  by (auto simp: worker_couples_def worker_home_def)

lemma team_inv_butD: "team_inv d \<Longrightarrow> team_inv_but w d"
  unfolding team_inv_def team_inv_but_def workers_ok_def using worker_couples_home by blast

text \<open>Closing the gap: every attempt in progress of that worker has the session's
  generation, or the session is closed.\<close>

lemma team_inv_butI:
  assumes "team_inv_but w d"
    and "\<And>k r s. \<lbrakk>map_of (db_assignments d) k = Some r; ag_reserved r; ag_worker_id r = w; ag_state r \<noteq> ''OFFERED'';
        map_of (db_sessions d) w = Some s; sr_state s = ''active''\<rbrakk> \<Longrightarrow> sh_Generation (am_Worker (ag_body r)) = se_Generation (sr_body s)"
  shows "team_inv d"
proof -
  have "worker_couples d r" if "map_of (db_assignments d) k = Some r" "ag_reserved r" for k r
  proof (cases "ag_worker_id r = w")
    case True
    with assms that show ?thesis unfolding team_inv_but_def worker_home_def worker_couples_def by metis
  next
    case False
    with assms(1) that show ?thesis unfolding team_inv_but_def by blast
  qed
  then show ?thesis using assms(1) unfolding team_inv_but_def team_inv_def workers_ok_def by blast
qed

lemma team_inv_but_logs: "logs d d' \<Longrightarrow> team_inv_but w d' = team_inv_but w d"
proof -
  assume l: "logs d d'"
  note t = logs_tables [OF l]
  have "ledger_inv d' = ledger_inv d"
    unfolding ledger_inv_def task_board_ok_cong [OF t(3-5)] ledger_ok_cong [OF t(6,7)] holds_ok_cong [OF t(3,6,8)] ..
  then show ?thesis
    by (simp add: team_inv_but_def teams_ok_def sessions_ok_def attempts_ok_def coupled_def task_couples_def worker_couples_def
        worker_home_def held_def t)
qed

section \<open>Storing a session\<close>

text \<open>\<open>slot team n d\<close>: the coordinator slot of the team moved to generation \<open>n\<close>.\<close>

definition slot :: "string \<Rightarrow> int \<Rightarrow> db \<Rightarrow> db" where
  "slot team n d = d\<lparr>db_control := AList.update team n (db_control d)\<rparr>"

lemma slot_sel [simp]: "db_sessions (slot team n d) = db_sessions d" "db_assignments (slot team n d) = db_assignments d"
  "db_managed (slot team n d) = db_managed d" "db_teams (slot team n d) = db_teams d" "db_tasks (slot team n d) = db_tasks d"
  "db_reservations (slot team n d) = db_reservations d" "map_of (db_control (slot team n d)) = (map_of (db_control d))(team \<mapsto> n)"
  "db_history (slot team n d) = db_history d" "db_state_changes (slot team n d) = db_state_changes d" "db_res_events (slot team n d) = db_res_events d"
  by (simp_all add: slot_def)

lemma nextCoordinatorGeneration_slot: "nextCoordinatorGeneration team d = (control_generation team d + 1, slot team (control_generation team d + 1) d)"
  by (simp add: nextCoordinatorGeneration_def slot_def Let_def)

lemma ledger_inv_frame:
  assumes "db_tasks d' = db_tasks d" "db_history d' = db_history d" "db_state_changes d' = db_state_changes d"
    "db_reservations d' = db_reservations d" "db_res_events d' = db_res_events d" "db_managed d' = db_managed d"
  shows "ledger_inv d' = ledger_inv d"
  unfolding ledger_inv_def task_board_ok_cong [OF assms(1-3)] ledger_ok_cong [OF assms(4,5)] holds_ok_cong [OF assms(1,4,6)] ..

lemma put_session:
  assumes inv: "team_inv_but (se_ID s) d"
    and d1: "d1 = d \<or> (\<exists>n. d1 = slot (se_TeamID s) n d
       \<and> (\<forall>k r. map_of (db_sessions d) k = Some r \<longrightarrow> active_coordinator_row r \<longrightarrow> sr_team_id r = se_TeamID s \<longrightarrow> k = se_ID s))"
    and p: "putTeamSession s d1 = Inr d2" and st: "sessions_step d1 s"
    and role: "se_Role s = ''worker'' \<or> (\<forall>k r. map_of (db_assignments d) k = Some r \<longrightarrow> ag_reserved r \<longrightarrow> ag_worker_id r \<noteq> se_ID s)"
  shows "team_inv_but (se_ID s) d2"
    and "\<exists>row. map_of (db_sessions d2) (se_ID s) = Some row \<and> sr_body row = s \<and> sr_state row = se_State s \<and> sr_role row = se_Role s \<and> sr_team_id row = se_TeamID s"
    and "db_assignments d2 = db_assignments d" "db_teams d2 = db_teams d"
proof -
  note B = inv [unfolded team_inv_but_def]
  have f1: "db_sessions d1 = db_sessions d" "db_assignments d1 = db_assignments d" "db_teams d1 = db_teams d"
    "db_managed d1 = db_managed d" "db_tasks d1 = db_tasks d" "db_reservations d1 = db_reservations d"
    "db_history d1 = db_history d" "db_state_changes d1 = db_state_changes d" "db_res_events d1 = db_res_events d"
    using d1 by auto
  have S: "tb_ok (db_sessions d)" "map_of (db_sessions d) k = Some r \<Longrightarrow> session_row_ok (db_control d) k r"
    "\<lbrakk>map_of (db_sessions d) k = Some r; map_of (db_sessions d) k' = Some r'; active_coordinator_row r; active_coordinator_row r';
      sr_team_id r = sr_team_id r'\<rbrakk> \<Longrightarrow> k = k'" for k k' r r'
    using B unfolding sessions_ok_def by blast+
  have "session_row_ok (db_control d1) k r" if "map_of (db_sessions d1) k = Some r" "k \<noteq> se_ID s" for k r
    using d1
  proof
    assume "\<exists>n. d1 = slot (se_TeamID s) n d
       \<and> (\<forall>k r. map_of (db_sessions d) k = Some r \<longrightarrow> active_coordinator_row r \<longrightarrow> sr_team_id r = se_TeamID s \<longrightarrow> k = se_ID s)"
    then obtain n where n: "d1 = slot (se_TeamID s) n d"
      and u: "\<forall>k r. map_of (db_sessions d) k = Some r \<longrightarrow> active_coordinator_row r \<longrightarrow> sr_team_id r = se_TeamID s \<longrightarrow> k = se_ID s" by blast
    have k: "map_of (db_sessions d) k = Some r" using that(1) f1(1) by simp
    with u that(2) have "active_coordinator_row r \<longrightarrow> sr_team_id r \<noteq> se_TeamID s" by blast
    with S(2) [OF k] show ?thesis by (auto simp: session_row_ok_def n)
  qed (use S(2) that in simp)
  note P = putTeamSession_sessions_ok [OF _ this _ p st]
  have so: "sessions_ok d2" by (rule P(1)) (use S f1 in auto)
  have "\<exists>row. d2 = d1\<lparr>db_sessions := AList.update (se_ID s) row (db_sessions d1)\<rparr>
      \<and> sr_body row = s \<and> sr_role row = se_Role s \<and> sr_state row = se_State s \<and> sr_team_id row = se_TeamID s"
    by (rule P(2)) (use S f1 in auto)
  then obtain row where d2: "d2 = d1\<lparr>db_sessions := AList.update (se_ID s) row (db_sessions d1)\<rparr>"
    and row: "sr_body row = s" "sr_role row = se_Role s" "sr_state row = se_State s" "sr_team_id row = se_TeamID s" by blast
  have m: "map_of (db_sessions d2) = (map_of (db_sessions d))(se_ID s \<mapsto> row)" by (simp add: d2 f1)
  show "\<exists>row. map_of (db_sessions d2) (se_ID s) = Some row \<and> sr_body row = s \<and> sr_state row = se_State s \<and> sr_role row = se_Role s \<and> sr_team_id row = se_TeamID s"
    using row by (simp add: m)
  show fa: "db_assignments d2 = db_assignments d" "db_teams d2 = db_teams d" by (simp_all add: d2 f1)
  have f2: "db_managed d2 = db_managed d" "db_tasks d2 = db_tasks d" "db_reservations d2 = db_reservations d"
    "db_history d2 = db_history d" "db_state_changes d2 = db_state_changes d" "db_res_events d2 = db_res_events d"
    by (simp_all add: d2 f1)
  have tc: "task_couples d2 r = task_couples d r" for r by (simp add: task_couples_def held_def f2)
  have home: "worker_home d2 r \<and> (ag_worker_id r \<noteq> se_ID s \<longrightarrow> worker_couples d2 r)"
    if r: "map_of (db_assignments d) k = Some r" "ag_reserved r" for k r
  proof (cases "ag_worker_id r = se_ID s")
    case True
    from B r have "worker_home d r" by blast
    then obtain q where q: "map_of (db_sessions d) (se_ID s) = Some q" "sr_team_id q = ag_team_id r" "sr_role q = ''worker''"
      using True by (auto simp: worker_home_def)
    have "se_TeamID s = sr_team_id q" using st q(1) f1 by (simp add: sessions_step_def)
    moreover have "se_Role s = ''worker''" using role r True by blast
    ultimately show ?thesis using True q row by (simp add: worker_home_def m)
  next
    case False
    with B r have "worker_couples d r" by blast
    with False have "worker_couples d2 r" by (simp add: worker_couples_def m)
    then show ?thesis using worker_couples_home by blast
  qed
  show "team_inv_but (se_ID s) d2"
    unfolding team_inv_but_def coupled_def fa tc
    using B so home ledger_inv_frame [OF f2(2,4,5,3,6,1)] by (auto simp: teams_ok_def fa attempts_ok_def f2 coupled_def)
qed

end
