(* ===== verification/MemberInv.thy ===== *)
theory MemberInv
  imports SessionInv
begin

text \<open>
  The operations on sessions keep the invariants of team coordination: joining, the changes
  of a member to its own session, the handover of the coordinator slot and the replacement
  of a credential.
\<close>

section \<open>Catching an attempt up\<close>

lemma team_inv_but_cong:
  assumes "db_tasks d' = db_tasks d" "db_history d' = db_history d" "db_state_changes d' = db_state_changes d"
    "db_reservations d' = db_reservations d" "db_res_events d' = db_res_events d" "db_managed d' = db_managed d"
    "db_sessions d' = db_sessions d" "db_control d' = db_control d" "db_assignments d' = db_assignments d" "db_teams d' = db_teams d"
  shows "team_inv_but w d' = team_inv_but w d"
  unfolding team_inv_but_def ledger_inv_frame [OF assms(1-6)] teams_ok_def sessions_ok_def attempts_ok_def coupled_def
    task_couples_def worker_couples_def worker_home_def held_cong [OF assms(4)] assms ..

lemma readTeamAssignment_row:
  assumes "attempts_ok d" "readTeamAssignment team aid d = Inr a"
  obtains r where "map_of (db_assignments d) aid = Some r" "ag_body r = a" "am_ID a = aid" "am_TeamID a = team"
    "ag_team_id r = team" "ag_task_id r = am_TaskID a" "ag_worker_id r = sh_SessionID (am_Worker a)" "ag_state r = am_State a"
    "ag_reserved r = reserved_state (am_State a)" "aid \<noteq> []"
proof -
  from assms(2) obtain r where r: "map_of (db_assignments d) aid = Some r" "ag_body r = a" "ag_team_id r = team"
    by (auto simp: readTeamAssignment_def split: option.splits if_splits)
  have "assignment_row_ok aid r" by (rule attempts_okD(3) [OF assms(1) r(1)])
  then show ?thesis by (intro that [OF r(1,2)]) (simp_all add: assignment_row_ok_def r)
qed

lemma rebind_catches_up:
  assumes but: "team_inv_but (se_ID s) d" and row: "map_of (db_sessions d) (se_ID s) = Some row" "sr_body row = s" "sr_team_id row = te_ID t"
    and rb: "rebindReservedAssignment e t s audit d = Inr d'"
  shows "team_inv d'"
proof -
  let ?P = "\<lambda>(k, r). ag_team_id r = te_ID t \<and> ag_worker_id r = se_ID s \<and> ag_reserved r \<and> ag_state r \<noteq> ''OFFERED''"
  note B = but [unfolded team_inv_but_def]
  have tb: "tb_ok (db_assignments d)" and ao: "attempts_ok d" using B unfolding attempts_ok_def by blast+
  show ?thesis
  proof (cases "find ?P (db_assignments d)")
    case None
    then have d': "d' = d" using rb by (simp add: rebindReservedAssignment_def)
    have no: "\<not> ?P (k, r)" if "map_of (db_assignments d) k = Some r" for k r
      using None map_of_SomeD [OF that] unfolding find_None_iff by blast
    show ?thesis unfolding d'
    proof (rule team_inv_butI [OF but])
      fix k r q assume r: "map_of (db_assignments d) k = Some r" "ag_reserved r" "ag_worker_id r = se_ID s" "ag_state r \<noteq> ''OFFERED''"
      have "ag_team_id r = te_ID t" using B r row(1,3) by (force simp: worker_home_def)
      with no [OF r(1)] r show "sh_Generation (am_Worker (ag_body r)) = se_Generation (sr_body q)" by simp
    qed
  next
    case (Some kr)
    obtain k r where kr: "kr = (k, r)" by (cases kr)
    have P: "?P (k, r)" "(k, r) \<in> set (db_assignments d)" using Some kr unfolding find_Some_iff by (metis, metis nth_mem)
    have m: "map_of (db_assignments d) k = Some r" using P(2) tb_mem_iff [OF tb] by blast
    from rb Some kr obtain a where a: "readTeamAssignment (te_ID t) k d = Inr a"
      and sv: "saveTeamAssignment e t s (a\<lparr>am_Rebinds := last_rebinds (am_Rebinds a @
                 [\<lparr>br_PreviousGeneration = sh_Generation (am_Worker a), br_Generation = se_Generation s, br_CreatedAt = e_now e 5\<rparr>]),
               am_RebindCount := am_RebindCount a + 1,
               am_Worker := (am_Worker a)\<lparr>sh_Generation := se_Generation s\<rparr>, am_UpdatedAt := e_now e 5\<rparr>)
             ''team.assignment.rebind'' audit d = Inr d'" (is "saveTeamAssignment e t s ?a _ audit d = _")
      by (auto simp: rebindReservedAssignment_def tx_simps)
    from readTeamAssignment_row [OF ao a] m have R: "ag_body r = a" "am_ID a = k" "am_TeamID a = te_ID t" "ag_team_id r = te_ID t"
      "ag_task_id r = am_TaskID a" "ag_worker_id r = sh_SessionID (am_Worker a)" "ag_state r = am_State a" "ag_reserved r = reserved_state (am_State a)" "k \<noteq> []"
      by auto
    from sv obtain d2 where p: "put_assignment ?a d = Inr d2" "logs d2 d'" by (rule saveTeamAssignment_D)
    show ?thesis
    proof (rule attempt_put [OF _ _ _ ao _ _ _ _ _ p])
      show "ledger_inv d" "teams_ok d" "sessions_ok d" using B by blast+
      show "worker_couples d q" if "map_of (db_assignments d) i = Some q" "ag_reserved q" "ag_worker_id q \<noteq> sh_SessionID (am_Worker ?a)" for i q
        using B that P(1) R(6) by simp
      show "task_couples d q" if "map_of (db_assignments d) i = Some q" "ag_reserved q" for i q
        using B that unfolding coupled_def by blast
      show "same_keys d ?a" using m R by (simp add: same_keys_def)
      show "reserved_state (am_State ?a) \<or> (\<exists>old. map_of (db_assignments d) (am_ID ?a) = Some old \<and> ag_reserved old)"
        using P(1) R by simp
      have tc: "task_couples d r" using B m P(1) unfolding coupled_def by blast
      have wh: "worker_home d r" using B m P(1) by blast
      show "task_couples d (arow ?a) \<and> worker_couples d (arow ?a)"
        using tc wh P(1) R row by (simp add: task_couples_def worker_couples_def worker_home_def)
    qed
  qed
qed

section \<open>A session stored again\<close>

lemma session_row:
  assumes "team_inv d" "map_of (db_sessions d) k = Some r"
  shows "session_row_ok (db_control d) k r"
  using team_invD(3) [OF assms(1)] assms(2) unfolding sessions_ok_def by blast

lemma one_active_coordinator:
  assumes "team_inv d" "map_of (db_sessions d) k = Some r" "map_of (db_sessions d) k' = Some r'"
    "active_coordinator_row r" "active_coordinator_row r'" "sr_team_id r = sr_team_id r'"
  shows "k = k'"
  using team_invD(3) [OF assms(1)] assms(2-) unfolding sessions_ok_def by blast

lemma only_workers_carry:
  assumes "team_inv d" "map_of (db_sessions d) k = Some r" "sr_role r \<noteq> ''worker''"
    "map_of (db_assignments d) i = Some q" "ag_reserved q"
  shows "ag_worker_id q \<noteq> k"
  using team_invD(6) [OF assms(1)] assms(2-) unfolding workers_ok_def worker_couples_def by fastforce

text \<open>A member's session as one of its operations leaves it: the same identity, team and
  role; the coordinator slot untouched, or advanced by the session that occupies it.\<close>

definition resaved :: "string \<Rightarrow> db \<Rightarrow> TeamSession \<Rightarrow> TeamSession \<Rightarrow> db \<Rightarrow> bool" where
  "resaved team d s s' d1 \<longleftrightarrow> se_ID s' = se_ID s \<and> se_TeamID s' = team \<and> se_Role s' = se_Role s \<and> 1 \<le> se_Generation s'
     \<and> (d1 = d \<and> (se_Role s = ''coordinator'' \<longrightarrow> se_State s' = ''active'' \<longrightarrow>
          se_State s = ''active'' \<and> se_CoordinatorGeneration s' = se_CoordinatorGeneration s)
        \<or> d1 = slot team (se_CoordinatorGeneration s') d \<and> se_Role s = ''coordinator'' \<and> se_State s = ''active'')"

lemma resave:
  assumes inv: "team_inv d" and s: "readTeamSession team sid d = Inr s" and re: "resaved team d s s' d1"
    and p: "putTeamSession s' d1 = Inr d2"
  shows "team_inv_but (se_ID s') d2"
    and "\<exists>row. map_of (db_sessions d2) (se_ID s') = Some row \<and> sr_body row = s' \<and> sr_state row = se_State s' \<and> sr_role row = se_Role s' \<and> sr_team_id row = se_TeamID s'"
    and "db_assignments d2 = db_assignments d" "db_teams d2 = db_teams d"
proof -
  from readTeamSession_D [OF inv s] obtain r where r: "map_of (db_sessions d) sid = Some r" "sr_body r = s" "se_ID s = sid" "sr_team_id r = team"
    "se_TeamID s = team" "sr_role r = se_Role s" "sr_state r = se_State s" "1 \<le> se_Generation s" by metis
  have ok: "session_row_ok (db_control d) sid r" by (rule session_row [OF inv r(1)])
  have ids: "se_ID s' = sid" "se_TeamID s' = team" "se_Role s' = se_Role s" "1 \<le> se_Generation s'"
    using re r(3) by (auto simp: resaved_def)
  have act: "active_coordinator_row r" if "se_Role s = ''coordinator''" "se_State s = ''active''"
    using that r by (simp add: active_coordinator_row_def)
  have d1: "d1 = d \<or> (\<exists>n. d1 = slot (se_TeamID s') n d
       \<and> (\<forall>k q. map_of (db_sessions d) k = Some q \<longrightarrow> active_coordinator_row q \<longrightarrow> sr_team_id q = se_TeamID s' \<longrightarrow> k = se_ID s'))"
    using re act one_active_coordinator [OF inv _ r(1)] r(4) ids unfolding resaved_def by metis
  have st: "sessions_step d1 s'"
    using re ok act r ids unfolding sessions_step_def resaved_def session_row_ok_def
    by (elim conjE disjE) (auto simp: slot_def)
  have role: "se_Role s' = ''worker'' \<or> (\<forall>k q. map_of (db_assignments d) k = Some q \<longrightarrow> ag_reserved q \<longrightarrow> ag_worker_id q \<noteq> se_ID s')"
    using only_workers_carry [OF inv r(1)] r(6) ids by metis
  note P = put_session [OF team_inv_butD [OF inv] d1 p st role]
  show "team_inv_but (se_ID s') d2" by (rule P)
  show "\<exists>row. map_of (db_sessions d2) (se_ID s') = Some row \<and> sr_body row = s' \<and> sr_state row = se_State s' \<and> sr_role row = se_Role s' \<and> sr_team_id row = se_TeamID s'"
    by (rule P)
  show "db_assignments d2 = db_assignments d" "db_teams d2 = db_teams d" by (rule P)+
qed

lemma resave_keeps:
  assumes inv: "team_inv d" and s: "readTeamSession team sid d = Inr s" and re: "resaved team d s s' d1"
    and p: "putTeamSession s' d1 = Inr d2"
    and quiet: "se_Role s \<noteq> ''worker'' \<or> se_State s' \<noteq> ''active'' \<or> se_Generation s' = se_Generation s \<and> se_State s = ''active''"
  shows "team_inv d2"
proof (rule team_inv_butI [OF resave(1) [OF inv s re p]])
  fix k r q
  assume r: "map_of (db_assignments d2) k = Some r" "ag_reserved r" "ag_worker_id r = se_ID s'" "ag_state r \<noteq> ''OFFERED''"
    and q: "map_of (db_sessions d2) (se_ID s') = Some q" "sr_state q = ''active''"
  from readTeamSession_D [OF inv s] obtain o' where o': "map_of (db_sessions d) sid = Some o'" "sr_body o' = s" "se_ID s = sid"
    "sr_role o' = se_Role s" "sr_state o' = se_State s" by metis
  have id: "se_ID s' = sid" using re o'(3) by (simp add: resaved_def)
  have a: "map_of (db_assignments d) k = Some r" using r(1) resave(3) [OF inv s re p] by simp
  have "se_Role s = ''worker''" using only_workers_carry [OF inv o'(1) _ a r(2)] r(3) o'(4) id by auto
  moreover have "sr_body q = s'" "sr_state q = se_State s'" using resave(2) [OF inv s re p] q(1) by auto
  ultimately have "se_Generation s' = se_Generation s" "se_State s = ''active''" using quiet q(2) by auto
  moreover have "sh_Generation (am_Worker (ag_body r)) = se_Generation (sr_body o')"
    by (rule worker_generation [OF inv a r(2,4)]) (use r(3) id o' \<open>se_State s = ''active''\<close> in auto)
  ultimately show "sh_Generation (am_Worker (ag_body r)) = se_Generation (sr_body q)" using \<open>sr_body q = s'\<close> o'(2) by simp
qed

section \<open>The operations on sessions\<close>

lemma change_session_resaved:
  assumes inv: "team_inv d" and s: "readTeamSession team sid d = Inr s" and act: "se_State s = ''active''"
    and c: "change_session e team op c s d = Inr (s', d1)"
  shows "resaved team d s s' d1"
    and "op \<noteq> ''resume'' \<Longrightarrow> se_State s' \<noteq> ''active'' \<or> se_Generation s' = se_Generation s"
    and "se_Role s' = se_Role s"
proof -
  from readTeamSession_D [OF inv s] have k: "se_TeamID s = team" "1 \<le> se_Generation s" by auto
  show "resaved team d s s' d1" "se_Role s' = se_Role s" "op \<noteq> ''resume'' \<Longrightarrow> se_State s' \<noteq> ''active'' \<or> se_Generation s' = se_Generation s"
    using c k act unfolding change_session_def Let_def nextCoordinatorGeneration_slot resaved_def
    by (auto split: if_splits option.splits)
qed

lemma ChangeTeamSession_tx_inv:
  assumes inv: "team_inv d" and b: "boundTeamSession team sid actor d = Inr (t, s)"
    and tx: "ChangeTeamSession_tx e team op c audit (t, s) d = Inr (s'', d')"
  shows "team_inv d'"
proof -
  note R = boundTeamSession_D [OF b]
  from tx obtain s' d1 d2 where act: "se_State s = ''active''" and c: "change_session e team op c s d = Inr (s', d1)"
    and sv: "saveTeamSession e t s' (ss_Generation c) (''team.'' @ op) audit d1 = Inr d2"
    and fin: "(if op = ''resume'' \<and> se_Role s' = ''worker'' then rebindReservedAssignment e t s' audit d2 else Inr d2) = Inr d'"
    unfolding ChangeTeamSession_tx_def by (simp only: tx_simps split_paired_Ex prod.case sum.inject prod.inject simp_thms) blast
  note C = change_session_resaved [OF inv R(1) act c]
  from sv obtain d3 where p: "putTeamSession s' d1 = Inr d3" "logs d3 d2" by (rule saveTeamSession_D)
  note S = resave [OF inv R(1) C(1) p(1)]
  have "te_ID t = se_TeamID s'" using C(1) readTeam_D [OF inv R(2)] by (simp add: resaved_def)
  show ?thesis
  proof (cases "op = ''resume'' \<and> se_Role s' = ''worker''")
    case True
    from S(2) obtain row where row: "map_of (db_sessions d2) (se_ID s') = Some row" "sr_body row = s'" "sr_team_id row = te_ID t"
      using logs_tables(9) [OF p(2)] \<open>te_ID t = se_TeamID s'\<close> by auto
    show ?thesis by (rule rebind_catches_up [OF _ row]) (use S(1) team_inv_but_logs [OF p(2)] True fin in simp_all)
  next
    case False
    then have "se_Role s \<noteq> ''worker'' \<or> se_State s' \<noteq> ''active'' \<or> se_Generation s' = se_Generation s \<and> se_State s = ''active''"
      using C act by auto
    from resave_keeps [OF inv R(1) C(1) p(1) this] show ?thesis using fin False logs_team_inv [OF p(2)] by auto
  qed
qed

lemma case_prod_Inr_iff: "(case p of (a, b) \<Rightarrow> f a b) = Inr y \<longleftrightarrow> (\<exists>a b. p = (a, b) \<and> f a b = Inr y)"
  by (cases p) auto

lemma RebindTeamSessionToken_tx_inv:
  assumes inv: "team_inv d" and tm: "readTeam team d = Inr tm" and tx: "RebindTeamSessionToken_tx e team c audit authorize tm d = Inr (s'', d')"
  shows "team_inv d'"
proof -
  define mk where "mk = (\<lambda>s :: TeamSession. if se_Role s = ''coordinator''
            then (case nextCoordinatorGeneration team d of (n, d1) \<Rightarrow>
               (s\<lparr>se_TokenID := tn_TokenID c, se_Generation := se_Generation s + 1, se_CoordinatorGeneration := n\<rparr>, d1))
            else (s\<lparr>se_TokenID := tn_TokenID c, se_Generation := se_Generation s + 1\<rparr>, d))"
  from tx obtain s s' d1 d2 ev where s: "readTeamSession team (tn_SessionID c) d = Inr s" and act: "se_State s = ''active''"
    and c: "mk s = (s', d1)" and p: "putTeamSession s' d1 = Inr d2"
    and fin: "(if se_Role s' = ''worker'' then rebindReservedAssignment e tm s' audit (putTeamEvent team ev d2)
        else Inr (putTeamEvent team ev d2)) = Inr d'"
    unfolding RebindTeamSessionToken_tx_def Let_def mk_def
    by (simp only: tx_simps case_prod_Inr_iff split_paired_Ex prod.case sum.inject prod.inject simp_thms) blast
  from readTeamSession_D [OF inv s] have k: "se_TeamID s = team" "1 \<le> se_Generation s" by auto
  have re: "resaved team d s s' d1" using c k act by (auto simp: mk_def nextCoordinatorGeneration_slot resaved_def split: if_splits)
  note S = resave [OF inv s re p]
  have l: "logs d2 (putTeamEvent team ev d2)" by simp
  have id: "te_ID tm = se_TeamID s'" using re readTeam_D [OF inv tm] by (simp add: resaved_def)
  show ?thesis
  proof (cases "se_Role s' = ''worker''")
    case True
    from S(2) obtain row where row: "map_of (db_sessions (putTeamEvent team ev d2)) (se_ID s') = Some row" "sr_body row = s'" "sr_team_id row = te_ID tm"
      using logs_tables(9) [OF l] id by auto
    show ?thesis by (rule rebind_catches_up [OF _ row]) (use S(1) team_inv_but_logs [OF l] True fin in simp_all)
  next
    case False
    have "se_Role s' = se_Role s" using re by (simp add: resaved_def)
    with False have "se_Role s \<noteq> ''worker'' \<or> se_State s' \<noteq> ''active'' \<or> se_Generation s' = se_Generation s \<and> se_State s = ''active''" by simp
    from resave_keeps [OF inv s re p this] show ?thesis using fin False logs_team_inv [OF l] by auto
  qed
qed

text \<open>Joining needs a new session identifier; nothing else is asked of the generator.\<close>

lemma no_attempts_close:
  assumes "team_inv_but w d" "\<And>k r. map_of (db_assignments d) k = Some r \<Longrightarrow> ag_reserved r \<Longrightarrow> ag_worker_id r \<noteq> w"
  shows "team_inv d"
  by (rule team_inv_butI [OF assms(1)]) (use assms(2) in blast)

lemma JoinTeam_tx_inv:
  assumes inv: "team_inv d" and new: "map_of (db_sessions d) (e_uuid e 0) = None"
    and tx: "JoinTeam_tx e team role profile audit limit t d = Inr (s', d')"
  shows "team_inv d'"
proof -
  define s0 :: TeamSession where "s0 = \<lparr>se_ID = e_uuid e 0, se_TeamID = team, se_UserID = ac_UserID (au_Actor audit),
              se_TokenID = ac_TokenID (au_Actor audit), se_Generation = 1, se_CoordinatorGeneration = 0, se_Role = role,
              se_State = ''active'', se_Availability = ''available'', se_ProfileRevision = 1,
              se_Profile = observed profile (e_now e 0), se_CreatedAt = e_now e 0, se_LastSeenAt = e_now e 0\<rparr>"
  from tx obtain n d1 where occ: "\<not> (role = ''coordinator'' \<and> tb_exists (\<lambda>_ r. sr_team_id r = team \<and> active_coordinator_row r) (db_sessions d))"
    and slot: "(if role = ''coordinator'' then nextCoordinatorGeneration team d else (0, d)) = (n, d1)"
    and sv: "saveTeamSession e t (s0\<lparr>se_CoordinatorGeneration := n\<rparr>) 0 ''team.join'' audit d1 = Inr d'"
      (is "saveTeamSession e t ?s _ _ _ _ = _")
    unfolding JoinTeam_tx_def Let_def s0_def
    by (simp only: tx_simps case_prod_Inr_iff split_paired_Ex prod.case sum.inject prod.inject simp_thms) blast
  define s where "s = ?s"
  have s: "se_ID s = e_uuid e 0" "se_TeamID s = team" "se_Generation s = 1" "se_Role s = role" "se_CoordinatorGeneration s = n"
    by (simp_all add: s_def s0_def)
  note sv = sv [folded s_def]
  from sv obtain d2 where p: "putTeamSession s d1 = Inr d2" "logs d2 d'" by (rule saveTeamSession_D)
  note I = team_invD [OF inv]
  have tb: "tb_ok (db_sessions d)" using I(3) by (simp add: sessions_ok_def)
  have none: "ag_worker_id r \<noteq> se_ID s" if "map_of (db_assignments d) k = Some r" "ag_reserved r" for k r
    using I(6) that new s(1) unfolding workers_ok_def worker_couples_def by force
  have d1: "d1 = d \<or> (\<exists>n. d1 = slot (se_TeamID s) n d
       \<and> (\<forall>k q. map_of (db_sessions d) k = Some q \<longrightarrow> active_coordinator_row q \<longrightarrow> sr_team_id q = se_TeamID s \<longrightarrow> k = se_ID s))"
    using slot occ s(2) tb_exists_iff [OF tb] by (auto simp: nextCoordinatorGeneration_slot split: if_splits)
  have st: "sessions_step d1 s" using slot s new by (auto simp: sessions_step_def nextCoordinatorGeneration_slot split: if_splits)
  note P = put_session [OF team_inv_butD [OF inv] d1 p(1) st disjI2]
  have "team_inv d2"
  proof (rule no_attempts_close)
    show "team_inv_but (se_ID s) d2" by (rule P) (use none in blast)
    have "db_assignments d2 = db_assignments d" by (rule P) (use none in blast)
    then show "ag_worker_id r \<noteq> se_ID s" if "map_of (db_assignments d2) k = Some r" "ag_reserved r" for k r using none that by simp
  qed
  then show ?thesis using logs_team_inv [OF p(2)] by simp
qed

lemma outgoingCoordinator_D:
  assumes inv: "team_inv d" and o': "outgoingCoordinator tm c actor admin d = Inr s"
  shows "readTeamSession (te_ID tm) (sh_SessionID (hc_Handle c)) d = Inr s" "se_Role s = ''coordinator''" "se_State s = ''active''"
    "map_of (db_control d) (te_ID tm) = Some (hc_CoordinatorGeneration c)" "se_CoordinatorGeneration s = hc_CoordinatorGeneration c"
proof -
  have "readTeamSession (te_ID tm) (sh_SessionID (hc_Handle c)) d = Inr s \<and> se_Role s = ''coordinator'' \<and> se_State s = ''active''
    \<and> map_of (db_control d) (te_ID tm) = Some (hc_CoordinatorGeneration c) \<and> se_CoordinatorGeneration s = hc_CoordinatorGeneration c"
  proof (cases admin)
    case False
    with o' obtain t where c: "currentCoordinator (te_ID tm) (hc_Handle c) (hc_CoordinatorGeneration c) actor d = Inr (t, s)"
      by (auto simp: outgoingCoordinator_def tx_simps)
    note C = currentCoordinator_D [OF c]
    note M = currentMessageSession_D [OF C(1)]
    from C(2-4) M(2) boundTeamSession_D(1) [OF M(1)] show ?thesis by simp
  qed (use o' in \<open>auto simp: outgoingCoordinator_def tx_simps\<close>)
  then show "readTeamSession (te_ID tm) (sh_SessionID (hc_Handle c)) d = Inr s" "se_Role s = ''coordinator''" "se_State s = ''active''"
    "map_of (db_control d) (te_ID tm) = Some (hc_CoordinatorGeneration c)" "se_CoordinatorGeneration s = hc_CoordinatorGeneration c" by blast+
qed

lemma HandoffTeamCoordinator_tx_D:
  assumes "HandoffTeamCoordinator_tx e team c audit tm d = Inr (s', d')"
  obtains a b d1 n d2 d3 d4 ev rs l tx' msg where
    "outgoingCoordinator tm c (au_Actor audit) (ac_Kind (au_Actor audit) = ''admin'') d = Inr a"
    "readTeamSession team (sh_SessionID (hc_Target c)) d = Inr b"
    "\<not> tb_exists (\<lambda>_ r. ag_worker_id r = se_ID b \<and> ag_reserved r) (db_assignments d)"
    "putTeamSession (a\<lparr>se_State := ''left'', se_Availability := ''unavailable'', se_Generation := se_Generation a + 1\<rparr>) d = Inr d1"
    "nextCoordinatorGeneration team d1 = (n, d2)"
    "putTeamSession (b\<lparr>se_Role := ''coordinator'', se_CoordinatorGeneration := n\<rparr>) d2 = Inr d3"
    "lifecycleMessage e team \<lparr>rp_Kind = ''team'', rp_ID = []\<rparr> rs l tx' [] d3 = Inr (msg, d4)"
    "d' = putTeamEvent team ev d4" "s' = b\<lparr>se_Role := ''coordinator'', se_CoordinatorGeneration := n\<rparr>"
    "se_State b = ''active''"
proof -
  have "\<exists>a b d1 n d2 d3 d4 ev rs l tx' msg.
    outgoingCoordinator tm c (au_Actor audit) (ac_Kind (au_Actor audit) = ''admin'') d = Inr a
    \<and> readTeamSession team (sh_SessionID (hc_Target c)) d = Inr b
    \<and> \<not> tb_exists (\<lambda>_ r. ag_worker_id r = se_ID b \<and> ag_reserved r) (db_assignments d)
    \<and> putTeamSession (a\<lparr>se_State := ''left'', se_Availability := ''unavailable'', se_Generation := se_Generation a + 1\<rparr>) d = Inr d1
    \<and> nextCoordinatorGeneration team d1 = (n, d2)
    \<and> putTeamSession (b\<lparr>se_Role := ''coordinator'', se_CoordinatorGeneration := n\<rparr>) d2 = Inr d3
    \<and> lifecycleMessage e team \<lparr>rp_Kind = ''team'', rp_ID = []\<rparr> rs l tx' [] d3 = Inr (msg, d4)
    \<and> d' = putTeamEvent team ev d4 \<and> s' = b\<lparr>se_Role := ''coordinator'', se_CoordinatorGeneration := n\<rparr>
    \<and> se_State b = ''active''"
    using assms unfolding HandoffTeamCoordinator_tx_def Let_def
    by (simp only: tx_simps case_prod_Inr_iff split_paired_Ex prod.case sum.inject prod.inject simp_thms de_Morgan_disj not_not) blast
  then show thesis using that by blast
qed

lemma HandoffTeamCoordinator_tx_inv:
  assumes inv: "team_inv d" and tm: "readTeam team d = Inr tm" and tx: "HandoffTeamCoordinator_tx e team c audit tm d = Inr (s', d')"
  shows "team_inv d'"
proof -
  have id: "te_ID tm = team" by (rule readTeam_D [OF inv tm])
  from tx obtain a b d1 n d2 d3 d4 ev rs l tx' msg where o': "outgoingCoordinator tm c (au_Actor audit) (ac_Kind (au_Actor audit) = ''admin'') d = Inr a"
    and b: "readTeamSession team (sh_SessionID (hc_Target c)) d = Inr b"
    and free: "\<not> tb_exists (\<lambda>_ r. ag_worker_id r = se_ID b \<and> ag_reserved r) (db_assignments d)"
    and p1: "putTeamSession (a\<lparr>se_State := ''left'', se_Availability := ''unavailable'', se_Generation := se_Generation a + 1\<rparr>) d = Inr d1"
    and n: "nextCoordinatorGeneration team d1 = (n, d2)"
    and p2: "putTeamSession (b\<lparr>se_Role := ''coordinator'', se_CoordinatorGeneration := n\<rparr>) d2 = Inr d3"
    and msg: "lifecycleMessage e team \<lparr>rp_Kind = ''team'', rp_ID = []\<rparr> rs l tx' [] d3 = Inr (msg, d4)"
    and d': "d' = putTeamEvent team ev d4"
    by (elim HandoffTeamCoordinator_tx_D)
  let ?a = "a\<lparr>se_State := ''left'', se_Availability := ''unavailable'', se_Generation := se_Generation a + 1\<rparr>"
  let ?b = "b\<lparr>se_Role := ''coordinator'', se_CoordinatorGeneration := n\<rparr>"
  note A = outgoingCoordinator_D [OF inv o', unfolded id]
  from readTeamSession_D [OF inv A(1)] obtain r where r: "map_of (db_sessions d) (se_ID a) = Some r" "sr_body r = a" "sr_team_id r = team"
    "se_TeamID a = team" "sr_role r = se_Role a" "sr_state r = se_State a" "1 \<le> se_Generation a" by metis
  have re: "resaved team d a ?a d" using r by (simp add: resaved_def)
  have i1: "team_inv d1" by (rule resave_keeps [OF inv A(1) re p1]) simp
  obtain row where m: "map_of (db_sessions d1) = (map_of (db_sessions d))(se_ID a \<mapsto> row)" "sr_state row = ''left''"
    "db_assignments d1 = db_assignments d"
    using p1 by (elim putTeamSession_D) (auto simp: fun_eq_iff)
  from readTeamSession_D [OF inv b] obtain q where q: "map_of (db_sessions d) (se_ID b) = Some q" "se_TeamID b = team" "sr_team_id q = team"
    "1 \<le> se_Generation b" by metis
  have none: "ag_worker_id r \<noteq> se_ID ?b" if "map_of (db_assignments d1) k = Some r" "ag_reserved r" for k r
    using free that m(3) attempts_okD(1) [OF team_invD(4) [OF inv]] by (auto simp: tb_exists_iff)
  have ar: "active_coordinator_row r" using r A(2,3) by (simp add: active_coordinator_row_def)
  have "k = se_ID ?b" if "map_of (db_sessions d1) k = Some x" "active_coordinator_row x" "sr_team_id x = team" for k x
    using that m(1,2) one_active_coordinator [OF inv _ r(1) _ ar] r(3)
    by (cases "k = se_ID a") (auto simp: active_coordinator_row_def)
  then have d2: "d2 = d1 \<or> (\<exists>n. d2 = slot (se_TeamID ?b) n d1
       \<and> (\<forall>k q. map_of (db_sessions d1) k = Some q \<longrightarrow> active_coordinator_row q \<longrightarrow> sr_team_id q = se_TeamID ?b \<longrightarrow> k = se_ID ?b))"
    using n q(2) by (auto simp: nextCoordinatorGeneration_slot)
  have own: "sr_team_id row = team" using p1 m(1) r(1,3) by (auto elim!: putTeamSession_D simp: fun_eq_iff split: if_splits)
  have st: "sessions_step d2 ?b" using n q own m(1) by (auto simp: nextCoordinatorGeneration_slot sessions_step_def split: if_splits)
  note P = put_session [OF team_inv_butD [OF i1] d2 p2 st disjI2]
  have "team_inv d3"
  proof (rule no_attempts_close)
    show "team_inv_but (se_ID ?b) d3" by (rule P) (use none in blast)
    have "db_assignments d3 = db_assignments d1" by (rule P) (use none in blast)
    then show "ag_worker_id r \<noteq> se_ID ?b" if "map_of (db_assignments d3) k = Some r" "ag_reserved r" for k r using none that by simp
  qed
  moreover have "logs d3 d'" unfolding d' by (rule logs_trans [OF lifecycleMessage_logs [OF msg]]) simp
  ultimately show ?thesis using logs_team_inv by blast
qed

end
