(* ===== verification/HubInv.thy ===== *)
theory HubInv
  imports MemberInv
begin

text \<open>
  The other operations of the hub against the invariants of team coordination: the task
  board's generic writes, the managed writes, the reservation ledger, messages, epics and
  the configuration of teams.
\<close>

section \<open>Writes of a task without an attempt\<close>

text \<open>No attempt in progress concerns the task.\<close>

definition unattempted :: "string \<Rightarrow> db \<Rightarrow> bool" where
  "unattempted tid d \<longleftrightarrow> (\<forall>k r. map_of (db_assignments d) k = Some r \<longrightarrow> ag_reserved r \<longrightarrow> ag_task_id r \<noteq> tid)"

lemma unmanaged_unattempted: "team_inv d \<Longrightarrow> \<not> task_managed tid d \<Longrightarrow> unattempted tid d"
  unfolding unattempted_def task_managed_def by (auto dest!: team_invD(5) simp: coupled_def task_couples_def)

lemma missing_unattempted: "team_inv d \<Longrightarrow> map_of (db_tasks d) tid = None \<Longrightarrow> unattempted tid d"
  unfolding unattempted_def by (drule team_invD(5)) (force simp: coupled_def task_couples_def)

text \<open>A managed task that reads back without an attempt has none in progress.\<close>

lemma managedTask_D:
  assumes inv: "team_inv d" and m: "managedTask team tid n d = Inr t"
  shows "readTask tid d = Inr t" "tk_Revision t = n" "unattempted tid d"
    "\<exists>g. map_of (db_managed d) tid = Some g \<and> gr_managed g \<and> gr_team_id g = team"
proof -
  from m obtain k where r: "readTask tid d = Inr t" "tk_Revision t = n" "tk_Coordination t = Some k" "co_TeamID k = team" "co_AttemptID k = []"
    by (auto simp: managedTask_def tx_simps split: option.splits if_splits)
  from r(1) obtain q where q: "map_of (db_tasks d) tid = Some q"
    "t = (case coordination_of tid d of None \<Rightarrow> tr_body q | Some c \<Rightarrow> (tr_body q)\<lparr>tk_Coordination := Some c\<rparr>)"
    by (auto simp: readTask_def split: option.splits)
  have "tk_Coordination (tr_body q) = None" by (rule board_okD(7) [OF team_invD(7) [OF inv] q(1)])
  with r(3) q(2) have c: "coordination_of tid d = Some k" by (auto split: option.splits)
  then obtain g where g: "map_of (db_managed d) tid = Some g" "gr_managed g"
    "k = (case reserved_attempt tid d of None \<Rightarrow> \<lparr>co_TeamID = gr_team_id g, co_AttemptID = [], co_State = []\<rparr>
            | Some (aid, a) \<Rightarrow> \<lparr>co_TeamID = gr_team_id g, co_AttemptID = aid, co_State = ag_state a\<rparr>)"
    by (auto simp: coordination_of_def split: option.splits if_splits)
  have tb: "tb_ok (db_assignments d)" by (rule attempts_okD(1) [OF team_invD(4) [OF inv]])
  have "reserved_attempt tid d = None"
  proof (rule ccontr)
    assume "reserved_attempt tid d \<noteq> None"
    then obtain aid a where a: "reserved_attempt tid d = Some (aid, a)" by auto
    then have "(aid, a) \<in> set (db_assignments d)" unfolding reserved_attempt_def find_Some_iff by (metis nth_mem)
    then have "aid \<noteq> []" using attempts_okD(3) [OF team_invD(4) [OF inv]] tb_mem_iff [OF tb] by (auto simp: assignment_row_ok_def)
    with g(3) a r(5) show False by simp
  qed
  then show "unattempted tid d"
    unfolding unattempted_def reserved_attempt_def find_None_iff by (auto dest: map_of_SomeD)
  show "readTask tid d = Inr t" "tk_Revision t = n" by (rule r)+
  show "\<exists>g. map_of (db_managed d) tid = Some g \<and> gr_managed g \<and> gr_team_id g = team"
    using g r(4) by (cases "reserved_attempt tid d") auto
qed

text \<open>What concerns one task only, without an attempt, and leaves the ledger in order.\<close>

lemma off_attempts:
  assumes inv: "team_inv d" and led: "ledger_inv d'" and un: "unattempted tid d"
    and fr: "db_sessions d' = db_sessions d" "db_control d' = db_control d" "db_assignments d' = db_assignments d" "db_teams d' = db_teams d"
      "tb_ok (db_managed d')"
    and other: "\<And>i. i \<noteq> tid \<Longrightarrow> map_of (db_tasks d') i = map_of (db_tasks d) i \<and> held d' i = held d i
        \<and> map_of (db_managed d') i = map_of (db_managed d) i"
  shows "team_inv d'"
proof -
  note I = team_invD [OF inv]
  have "task_couples d' r" if r: "map_of (db_assignments d) k = Some r" "ag_reserved r" for k r
  proof -
    have "ag_task_id r \<noteq> tid" using un r unfolding unattempted_def by blast
    then show ?thesis using I(5) r other [of "ag_task_id r"] unfolding coupled_def task_couples_def by fastforce
  qed
  then show ?thesis
    using led I(2-4,6) fr unfolding team_inv_def coupled_def
    by (simp add: teams_ok_def sessions_ok_def attempts_ok_def workers_ok_def worker_couples_def)
qed

lemma wrote_off_attempts:
  assumes inv: "team_inv d" and w: "wrote t b d d'" and un: "unattempted (tk_ID t) d" and h: "\<not> held d (tk_ID t)"
  shows "team_inv d'"
proof (rule off_attempts [OF inv wrote_ledger_inv [OF w team_invD(1) [OF inv] h] un])
  show "db_sessions d' = db_sessions d" "db_control d' = db_control d" "db_assignments d' = db_assignments d" "db_teams d' = db_teams d"
    "tb_ok (db_managed d')"
    using wrote_frame [OF w] attempts_okD(2) [OF team_invD(4) [OF inv]] by simp_all
  show "map_of (db_tasks d') i = map_of (db_tasks d) i \<and> held d' i = held d i \<and> map_of (db_managed d') i = map_of (db_managed d) i"
    if "i \<noteq> tk_ID t" for i
    using wrote_state(3) [OF w] wrote_frame [OF w] that by (simp add: held_def)
qed

section \<open>The task board\<close>

lemma generic_write_check_D: "generic_write_check tid d = Inr u \<Longrightarrow> \<not> task_managed tid d \<and> \<not> held d tid"
  by (auto simp: generic_write_check_def rejectActiveReservation_held tx_simps split: option.splits)

lemma CreateTask_tx_team: "team_inv d \<Longrightarrow> CreateTask_tx e c actor d = Inr (t, d') \<Longrightarrow> team_inv d'"
  using wrote_off_attempts [OF _ CreateTask_txD(1)] missing_unattempted wrote_create_unheld team_invD(1) CreateTask_txD(5) by metis

lemma UpdateTask_tx_team:
  assumes "team_inv d" "generic_write_check tid d = Inr u" "UpdateTask_tx e tid c expected actor d = Inr (t, d')"
  shows "team_inv d'"
  using wrote_off_attempts [OF assms(1)] unmanaged_unattempted [OF assms(1)] generic_write_check_D [OF assms(2)]
    UpdateTask_txD(1,2) [OF team_invD(7) [OF assms(1)] assms(3)] by metis

lemma TriageTask_tx_team:
  assumes "team_inv d" "generic_write_check tid d = Inr u" "TriageTask_tx e tid p expected actor d = Inr (t, d')"
  shows "team_inv d'"
  using wrote_off_attempts [OF assms(1)] unmanaged_unattempted [OF assms(1)] generic_write_check_D [OF assms(2)]
    TriageTask_txD(1,2) [OF team_invD(7) [OF assms(1)] assms(3)] by metis

lemma addTaskComment_tx_team: "team_inv d \<Longrightarrow> addTaskComment_tx e tid body actor d = Inr (c, d') \<Longrightarrow> team_inv d'"
  by (drule addTaskComment_txD(1)) (simp add: team_inv_cong [of "d\<lparr>db_comments := db_comments d @ [c]\<rparr>" d])

section \<open>Managed tasks\<close>

lemma managedEvent_logs [simp]: "logs d (managedEvent e tm s op change audit d)"
  by (simp add: managedEvent_def)

lemma managed_write:
  assumes inv: "team_inv d" and m: "managedTask team tid n d = Inr t" and sv: "saveTask (next_version t c now) actor False d = Inr d1" and l: "logs d1 d'"
  shows "team_inv d'"
proof -
  note M = managedTask_D [OF inv m]
  note S = saveTask_next [OF team_invD(7) [OF inv] M(1) sv]
  have "team_inv d1" by (rule wrote_off_attempts [OF inv S(1)]) (use S(2,3) M(3) in simp_all)
  then show ?thesis using logs_team_inv [OF l] by simp
qed

lemma EditManagedTask_tx_team:
  assumes inv: "team_inv d" and tx: "EditManagedTask_tx e team tid c audit d = Inr (t', d')"
  shows "team_inv d'"
proof -
  from tx obtain t d1 s tm ch where "managedTask team tid (me_ExpectedRevision c) d = Inr t"
    "saveTask (next_version t (me_Content c) (e_now e 0)) (au_Actor audit) False d = Inr d1"
    "d' = managedEvent e tm s ''team.task.edit'' ch audit d1"
    unfolding EditManagedTask_tx_def Let_def by (simp only: tx_simps split_paired_Ex prod.case sum.inject prod.inject) blast
  then show ?thesis using managed_write [OF inv] managedEvent_logs by blast
qed

lemma FinalizeManagedTask_tx_team:
  assumes inv: "team_inv d" and tx: "FinalizeManagedTask_tx e team tid c audit d = Inr (t', d')"
  shows "team_inv d'"
proof -
  from tx obtain t d1 s tm ch cn where "managedTask team tid (mf_ExpectedRevision c) d = Inr t"
    "saveTask (next_version t cn (e_now e 0)) (au_Actor audit) False d = Inr d1"
    "d' = managedEvent e tm s ''team.task.finalize'' ch audit d1"
    unfolding FinalizeManagedTask_tx_def Let_def by (simp only: tx_simps split_paired_Ex prod.case sum.inject prod.inject) blast
  then show ?thesis using managed_write [OF inv] managedEvent_logs by blast
qed

lemma unattempted_cong: "db_assignments d' = db_assignments d \<Longrightarrow> unattempted tid d' = unattempted tid d"
  by (simp add: unattempted_def)

lemma UnmanageTask_tx_team:
  assumes inv: "team_inv d" and tx: "UnmanageTask_tx e team tid c audit tm d = Inr (t', d')"
  shows "team_inv d'"
proof -
  from tx obtain t g d1 ch where m: "managedTask team tid (mu_ExpectedRevision c) d = Inr t" and g: "map_of (db_managed d) tid = Some g" "gr_managed g"
    and sv: "saveTask ((next_version t (tk_Content t) (e_now e 0))\<lparr>tk_Coordination := None\<rparr>) (au_Actor audit) False
        (d\<lparr>db_managed := AList.update tid (g\<lparr>gr_managed := False\<rparr>) (db_managed d)\<rparr>) = Inr d1" (is "saveTask ?t _ _ ?d = _")
    and d': "d' = managedEvent e tm None ''team.task.unmanage'' ch audit d1"
    unfolding UnmanageTask_tx_def Let_def
    by (simp only: tx_simps split_paired_Ex prod.case sum.inject prod.inject de_Morgan_disj not_not) blast
  note M = managedTask_D [OF inv m] and I = team_invD [OF inv]
  have h: "\<not> held d tid" using I(8) g by (auto simp: holds_ok_def task_managed_def)
  have inv0: "team_inv ?d"
    by (rule off_attempts [OF inv ledger_inv_manage [OF I(1) h] M(3)]) (use attempts_okD(2) [OF I(4)] in \<open>simp_all add: held_def\<close>)
  have id: "tk_ID ?t = tid" using readTask_ok(1) [OF I(7) M(1)] by simp
  have w: "wrote ?t False ?d d1"
    using saveTask_D [OF sv] readTask_ok [OF I(7) M(1)] by (auto simp: wrote_def in_order_def task_revision_def)
  have "team_inv d1"
    by (rule wrote_off_attempts [OF inv0 w]) (use id M(3) h in \<open>simp_all add: unattempted_def held_def\<close>)
  then show ?thesis using logs_team_inv [of d1 d'] by (simp add: d')
qed

section \<open>The reservation ledger\<close>

lemma held_unmanaged: "team_inv d \<Longrightarrow> held d tid \<Longrightarrow> \<not> task_managed tid d"
  using team_invD(8) by (auto simp: holds_ok_def)

lemma command_unmanaged:
  assumes inv: "team_inv d" and r: "run_command c d = Inr x"
  shows "\<not> task_managed (ri_TaskID (command_input c)) d"
proof (cases c)
  case (Member e op i actor binding coord)
  with r have "ApplyTaskReservation_tx e op i actor binding coord d = Inr x" by simp
  then show ?thesis
  proof (cases rule: ApplyTaskReservation_tx_D)
    case (1 t)
    from 1(3) show ?thesis unfolding Member command_input.simps
      using claim_tx_D(2) held_tx_guards(1) held_unmanaged [OF inv] by (cases x) (metis (full_types))
  qed
next
  case (Recovery e op i y actor)
  with r have "RecoverTaskReservation_tx e op i y actor d = Inr x" by simp
  then show ?thesis unfolding Recovery command_input.simps
    using RecoverTaskReservation_tx_D(4) [OF team_invD(7) [OF inv]] held_unmanaged [OF inv] by (cases x) blast
qed

lemma run_command_team:
  assumes inv: "team_inv d" and r: "run_command c d = Inr (out, d1)" and led: "ledger_inv d1"
  shows "team_inv d1"
proof -
  let ?tid = "ri_TaskID (command_input c)"
  from run_command_moved [OF team_invD(7) [OF inv] r] obtain d0 row op where
    d0: "d0 = d \<or> wrote (ou_Task out) False d d0 \<and> tk_ID (ou_Task out) = ?tid" and m: "moved op ?tid row d0 d1" by blast
  have un: "unattempted ?tid d" by (rule unmanaged_unattempted [OF inv command_unmanaged [OF inv r]])
  show ?thesis
  proof (rule off_attempts [OF inv led un])
    show "db_sessions d1 = db_sessions d" "db_control d1 = db_control d" "db_assignments d1 = db_assignments d" "db_teams d1 = db_teams d"
      "tb_ok (db_managed d1)"
      using d0 moved_only [OF m] wrote_frame attempts_okD(2) [OF team_invD(4) [OF inv]] by auto
    show "map_of (db_tasks d1) i = map_of (db_tasks d) i \<and> held d1 i = held d i \<and> map_of (db_managed d1) i = map_of (db_managed d) i"
      if "i \<noteq> ?tid" for i
      using d0
    proof
      assume "d0 = d"
      with moved_held [OF m, of i] moved_frame [OF m] that show ?thesis by simp
    next
      assume w: "wrote (ou_Task out) False d d0 \<and> tk_ID (ou_Task out) = ?tid"
      then have "wrote (ou_Task out) False d d0" by blast
      note W = wrote_state(3) [OF this, of i] wrote_frame [OF this]
      from W(7) have "held d0 i = held d i" by (rule held_cong)
      with moved_held [OF m, of i] moved_frame [OF m] that w W show ?thesis by simp
    qed
  qed
qed

lemma ApplyTaskReservation_team:
  assumes "team_inv d" "ApplyTaskReservation e op i actor binding key coord authorize d = Inr (out, d')"
  shows "team_inv d'"
proof -
  have led: "ledger_inv d'" by (rule ApplyTaskReservation_inv [OF assms(2) team_invD(1) [OF assms(1)]])
  from ApplyTaskReservation_D(4) [OF assms(2)] show ?thesis
  proof (cases rule: reservationMutation_cases)
    case (fresh who res d1 t row)
    have r: "run_command (Member e op i actor binding coord) d = Inr (res, d1)" using fresh(2) by simp
    have l: "ledger_inv d1" using led by (simp add: fresh(11))
    from run_command_team [OF assms(1) r l] show ?thesis by (simp add: fresh(11))
  qed (use assms(1) in simp)
qed

lemma RecoverTaskReservation_team:
  assumes "team_inv d" "RecoverTaskReservation e op i x actor key authorize d = Inr (out, d')"
  shows "team_inv d'"
proof -
  have led: "ledger_inv d'" by (rule RecoverTaskReservation_inv [OF assms(2) team_invD(1) [OF assms(1)]])
  from RecoverTaskReservation_D(2) [OF assms(2)] show ?thesis
  proof (cases rule: reservationMutation_cases)
    case (fresh who res d1 t row)
    have r: "run_command (Recovery e op i x actor) d = Inr (res, d1)" using fresh(2) by simp
    have l: "ledger_inv d1" using led by (simp add: fresh(11))
    from run_command_team [OF assms(1) r l] show ?thesis by (simp add: fresh(11))
  qed (use assms(1) in simp)
qed

section \<open>Messages\<close>

lemma messageAudit_logs [simp]: "logs d (messageAudit e t s op ids audit d)"
  by (simp add: messageAudit_def)

lemma SendTeamMessage_tx_logs:
  assumes "SendTeamMessage_tx e team h c audit limit (t, s) d = Inr (m, d')"
  shows "logs d d'"
proof -
  from assms obtain m0 rs d1 where "put_message m0 rs d = Inr (m, d1)" "d' = messageAudit e t s ''team.message.send'' [ms_ID m] audit d1"
    unfolding SendTeamMessage_tx_def Let_def by (auto simp: tx_simps split: prod.splits)
  then show ?thesis using put_message_logs logs_trans messageAudit_logs by blast
qed

lemma mark_delivered_logs: "logs d (mark_delivered now sid ms d)"
proof (induction ms arbitrary: d)
  case (Cons m ms)
  show ?case by (auto split: option.splits intro: Cons logs_trans [OF logs_deliveries Cons])
qed simp

lemma TeamMessages_logs: "TeamMessages e team h after limit inbox audit d = Inr (out, d') \<Longrightarrow> logs d d'"
  unfolding TeamMessages_def Let_def
  by (auto simp: tx_simps split: prod.splits if_splits intro: logs_trans [OF mark_delivered_logs messageAudit_logs])

lemma ack_each_logs: "ack_each e team sid ids d = Inr (ch, d') \<Longrightarrow> logs d d'"
proof (induction ids arbitrary: d ch)
  case (Cons i ids)
  from Cons.prems show ?case
    by (auto simp: tx_simps split: if_splits prod.splits dest!: Cons.IH intro: logs_trans [OF logs_deliveries])
qed simp

lemma AckTeamMessages_tx_logs: "AckTeamMessages_tx e team h ids audit (t, s) d = Inr (out, d') \<Longrightarrow> logs d d'"
  unfolding AckTeamMessages_tx_def
  by (auto simp: tx_simps split: prod.splits dest!: ack_each_logs intro: logs_trans)

section \<open>Team configuration and epics\<close>

lemma team_inv_teams:
  assumes "team_inv d" "\<And>k r. map_of ts k = Some r \<Longrightarrow> te_ID (mr_body r) = k"
  shows "team_inv (d\<lparr>db_teams := ts\<rparr>)"
proof -
  have "ledger_inv (d\<lparr>db_teams := ts\<rparr>)" using team_invD(1) [OF assms(1)] ledger_inv_frame [of "d\<lparr>db_teams := ts\<rparr>" d] by simp
  then show ?thesis using assms unfolding team_inv_def
    by (simp add: teams_ok_def sessions_ok_def attempts_ok_def coupled_def workers_ok_def task_couples_def worker_couples_def held_def)
qed

lemma ConfigureTeam_tx_team:
  assumes inv: "team_inv d" and tx: "ConfigureTeam_tx e inst team expected content audit d = Inr (t, d')"
  shows "team_inv d'"
proof -
  from tx obtain tid created row ts ev where ts: "(if team = [] then tb_insert tid row (db_teams d) else Some (AList.update tid row (db_teams d))) = Some ts"
    and row: "te_ID (mr_body row) = tid" and d': "d' = putTeamEvent tid ev (d\<lparr>db_teams := ts\<rparr>)"
    unfolding ConfigureTeam_tx_def Let_def by (auto simp: tx_simps split: prod.splits)
  have "te_ID (mr_body r) = k" if "map_of ts k = Some r" for k r
    using ts that row team_invD(2) [OF inv] tb_insert_SomeD(2) [of tid row "db_teams d" ts]
    by (auto simp: teams_ok_def split: if_splits)
  from team_inv_teams [OF inv this] show ?thesis using logs_team_inv [of "d\<lparr>db_teams := ts\<rparr>" d'] by (simp add: d')
qed

lemma CreateEpic_tx_team: "team_inv d \<Longrightarrow> CreateEpic_tx e c actor d = Inr (x, d') \<Longrightarrow> team_inv d'"
  by (auto simp: CreateEpic_tx_def saveEpic_def Let_def tx_simps split: if_splits option.splits elim!: team_inv_cong [THEN iffD2, rotated -1])

lemma UpdateEpic_tx_team: "team_inv d \<Longrightarrow> UpdateEpic_tx e eid c expected actor d = Inr (x, d') \<Longrightarrow> team_inv d'"
  by (auto simp: UpdateEpic_tx_def saveEpic_def Let_def tx_simps split: if_splits option.splits elim!: team_inv_cong [THEN iffD2, rotated -1])

end
