(* ===== verification/Claims.thy ===== *)
theory Claims
  imports HubInv Dependencies
begin

text \<open>
  A claim through the registry as a step of the hub: the transaction it commits in the project
  that holds the task, and that it keeps what every state of the hub keeps.
\<close>

section \<open>What a claim commits\<close>

lemma current_tasks_node:
  "current_tasks owner m checked ns = Inr cur \<Longrightarrow> map_of cur i = Some t \<Longrightarrow>
    \<exists>nd d. map_of ns i = Some nd \<and> OpenExisting (dn_project nd) (mo_world m) = Inr d \<and> readTask i d = Inr t"
proof (induction owner m checked ns arbitrary: cur rule: current_tasks.induct)
  case (2 owner m checked j nd ns)
  from "2.prems"(1) obtain d x ts where d: "OpenExisting (dn_project nd) (mo_world m) = Inr d" "readTask j d = Inr x"
    and ts: "current_tasks owner m (dn_project nd # checked) ns = Inr ts" "cur = (j, x) # ts"
    and g: "mo_ctx m = None" "\<not> (dn_project nd \<notin> set checked \<and> \<not> tasksEnabledTx d)"
      "(if dn_project nd \<in> set checked then None else mo_verify m (dn_project nd) (dn_accessID nd)) = None"
      "\<not> (tk_Revision x \<noteq> tk_Revision (dn_task nd) \<or> \<not> taskDependenciesEqual (deps_of x) (deps_of (dn_task nd)))"
    by (auto split: option.splits sum.splits if_splits)
  show ?case
  proof (cases "i = j")
    case True
    then show ?thesis using "2.prems"(2) d ts(2) by auto
  next
    case False
    then show ?thesis using "2.IH" [OF g(1) d(1) g(2,3) d(2) g(4) ts(1)] "2.prems"(2) ts(2) by auto
  qed
qed simp

lemma dependent_claim_D:
  assumes "dependent_claim_tx e i actor binding coord nodes m d = Inr (res, d1)"
    and "OpenExisting (nodes_project (ri_TaskID i) nodes) (mo_world m) = Inr d"
  obtains t ev where "readTask (ri_TaskID i) d = Inr t"
    "commit_claim e i actor binding coord (Some ev) t (readTaskReservation (ri_TaskID i) (tk_Revision t) d) d = Inr (res, d1)"
proof -
  from assms(1) obtain t ev where v: "validateDependencyGraph (ri_TaskID i) nodes m = Inr (t, ev)"
    and c: "commit_claim e i actor binding coord (Some ev) t (readTaskReservation (ri_TaskID i) (tk_Revision t) d) d = Inr (res, d1)"
    by (auto simp: dependent_claim_tx_def split: sum.splits prod.splits if_splits)
  from v obtain cur where "current_tasks (ri_TaskID i) m [] nodes = Inr cur" "map_of cur (ri_TaskID i) = Some t"
    by (auto simp: validateDependencyGraph_def simp del: walk.simps split: sum.splits option.splits)
  from current_tasks_node [OF this] assms(2) have "readTask (ri_TaskID i) d = Inr t" by (auto simp: nodes_project_def)
  with c that show ?thesis by blast
qed

text \<open>The claim replays its receipt and changes nothing, or commits the hold.\<close>

lemma ClaimTaskReservation_cases:
  assumes "fst (ClaimTaskReservation e i actor binding key coord v r h) = Inr (out, Some (p, d'))"
    and "OpenExisting p (mo_world (rn_locked r)) = Inr d"
  obtains (replay) who saved where "d' = d" "out = (rq_result saved)\<lparr>ou_Replayed := True\<rparr>"
      "map_of (db_res_requests d) (who, ReservationClaim, ri_TaskID i, key) = Some saved" "rq_digest saved = reservation_digest e i None"
  | (fresh) res d1 t ev tab where "readTask (ri_TaskID i) d = Inr t"
      "commit_claim e i actor binding coord (Some ev) t (readTaskReservation (ri_TaskID i) (tk_Revision t) d) d = Inr (res, d1)"
      "d' = d1\<lparr>db_res_requests := tab\<rparr>" "out = res\<lparr>ou_Binding := binding\<rparr>" "member_binding binding"
      "validateReservationInput e ReservationClaim i = None"
proof -
  let ?nodes_run = "\<lambda>nodes. reservationMutation e actor binding ReservationClaim i key None
      (dependent_claim_tx e i actor binding coord nodes (rn_locked r)) (Some (authorize_claim nodes (rn_authorize r))) d = Inr (out, d')"
  from assms obtain nodes q where m: "?nodes_run nodes" and p: "nodes_project (ri_TaskID i) nodes = p"
    and v: "validateReservationInput e ReservationClaim i = None"
    and c: "claim_checks e i actor binding key (rn_checked r) q = Inr None"
    by (auto simp: ClaimTaskReservation_def claim_walked_def claim_locked_def split: option.splits if_splits prod.splits sum.splits)
  have "rb_Mode binding \<noteq> ''recovery''" if "(if rb_Mode binding = ''recovery'' then recoveryPrincipal actor else reservationPrincipal actor) = Inr who" for who
    using c that by (auto simp: claim_checks_def GetTaskReservationReceipt_def reservationPrincipal_def recoveryPrincipal_def actor_key_def
        split: option.splits sum.splits if_splits)
  note mode = this
  from m show ?thesis
  proof (cases rule: reservationMutation_cases)
    case (replay who saved)
    then show ?thesis using that(1) by blast
  next
    case (fresh who res d1 tab row)
    from assms(2) p have "OpenExisting (nodes_project (ri_TaskID i) nodes) (mo_world (rn_locked r)) = Inr d" by simp
    from dependent_claim_D [OF fresh(2) this] obtain t ev where "readTask (ri_TaskID i) d = Inr t"
      "commit_claim e i actor binding coord (Some ev) t (readTaskReservation (ri_TaskID i) (tk_Revision t) d) d = Inr (res, d1)" .
    moreover have "member_binding binding" using fresh(4) mode [OF fresh(12)] by (simp add: member_binding_def)
    ultimately show ?thesis using that(2) fresh(3,11) v by blast
  qed
qed

section \<open>The invariants of the hub\<close>

lemma commit_claim_team:
  assumes inv: "team_inv d" and t: "readTask (ri_TaskID i) d = Inr t"
    and c: "commit_claim e i actor binding coord deps t (readTaskReservation (ri_TaskID i) rv d) d = Inr (out, d')"
    and v: "validateReservationInput e ReservationClaim i = None" "member_binding binding"
  shows "team_inv d'"
proof -
  note C = commit_claim_D [OF c]
  from C(5) obtain row where m: "moved ReservationClaim (ri_TaskID i) row d d'" by blast
  have led: "ledger_inv d'" by (rule commit_claim_inv [OF team_invD(1) [OF inv] v t c])
  show ?thesis
  proof (rule off_attempts [OF inv led unmanaged_unattempted [OF inv C(2)]])
    show "db_sessions d' = db_sessions d" "db_control d' = db_control d" "db_assignments d' = db_assignments d" "db_teams d' = db_teams d"
      "tb_ok (db_managed d')"
      using moved_only [OF m] attempts_okD(2) [OF team_invD(4) [OF inv]] by auto
    show "map_of (db_tasks d') j = map_of (db_tasks d) j \<and> held d' j = held d j \<and> map_of (db_managed d') j = map_of (db_managed d) j"
      if "j \<noteq> ri_TaskID i" for j
      using moved_held [OF m, of j] moved_frame [OF m] that by simp
  qed
qed

lemma ClaimTaskReservation_team:
  assumes "team_inv d" "fst (ClaimTaskReservation e i actor binding key coord v r h) = Inr (out, Some (p, d'))"
    and "OpenExisting p (mo_world (rn_locked r)) = Inr d"
  shows "team_inv d'"
  using assms(2,3)
proof (cases rule: ClaimTaskReservation_cases)
  case (fresh res d1 t ev tab)
  from commit_claim_team [OF assms(1) fresh(1,2,6,5)] show ?thesis by (simp add: fresh(3))
qed (use assms(1) in simp)

end
