(* ===== verification/Hub.thy ===== *)
theory Hub
  imports Claims
begin

text \<open>
  The hub as a whole: every operation of the task board, the reservation ledger and team
  coordination as one request type, the answer each request gets, and the states the hub
  can reach from an empty project by serving any requests in any order. The invariants of
  all the components hold in every reachable state.

  A request runs in one transaction (\<open>_txlock=immediate\<close>), so requests are serialised and a
  refused one leaves the database as it was.
\<close>

section \<open>Requests\<close>

datatype request =
    NewTask TaskContent TaskActor string
  | SetTask string TaskContent int TaskActor string
  | Triage string TaskTriage int TaskActor string
  | Comment string string TaskActor string
  | CommentUnheld string string TaskActor string
  | NewEpic EpicContent TaskActor string
  | SetEpic string EpicContent int TaskActor string
  | Configure string string int TeamContent TeamAuditContext string
  | Join string string TeamProfile TeamAuditContext string int
  | Session string string TeamSessionCommand TeamAuditContext string
  | Handoff string TeamHandoffCommand TeamAuditContext string
  | RebindToken string TeamTokenRebindCommand TeamAuditContext string WorkerAuthority
  | EditManaged string string TeamManagedEditCommand TeamAuditContext string
  | Finalize string string TeamFinalizeCommand TeamAuditContext string
  | Unmanage string string TeamUnmanageCommand TeamAuditContext string
  | Offer string TeamOffer TeamAuditContext string WorkerAuthority
  | Assignment string string string TeamAssignmentCommand TeamAuditContext string WorkerAuthority
  | Work string string string TeamWorkCommand TeamAuditContext string
  | Submit string string TeamResultSubmission TeamAuditContext string
  | Review string string TeamResultDecision TeamAuditContext string
  | Recover string string TeamRecoveryCommand TeamAuditContext string
  | Send string TeamSessionHandle TeamMessageContent TeamAuditContext string int
  | Ack string TeamSessionHandle "string list" TeamAuditContext string

definition as :: "('a \<Rightarrow> 'b) \<Rightarrow> err + ('a \<times> db) \<Rightarrow> err + ('b \<times> db)" where
  "as f r = (case r of Inl x \<Rightarrow> Inl x | Inr (a, d) \<Rightarrow> Inr (f a, d))"

lemma as_Inr_iff: "as f r = Inr (b, d) \<longleftrightarrow> (\<exists>a. r = Inr (a, d) \<and> b = f a)"
  by (auto simp: as_def split: sum.splits)

fun serve :: "env \<Rightarrow> request \<Rightarrow> db \<Rightarrow> err + (reply \<times> db)" where
  "serve e (NewTask c a key) d = as RTask (CreateTask e c a key d)"
| "serve e (SetTask tid c n a key) d = as RTask (UpdateTask e tid c n a key d)"
| "serve e (Triage tid p n a key) d = as RTask (TriageTask e tid p n a key d)"
| "serve e (Comment tid b a key) d = as RComment (AddTaskComment e tid b a key d)"
| "serve e (CommentUnheld tid b a key) d = as RComment (AddTaskCommentUnheld e tid b a key d)"
| "serve e (NewEpic c a key) d = as REpic (CreateEpic e c a key d)"
| "serve e (SetEpic eid c n a key) d = as REpic (UpdateEpic e eid c n a key d)"
| "serve e (Configure inst team n c au key) d = as RTeam (ConfigureTeam e inst team n c au key d)"
| "serve e (Join team role p au key limit) d = as RSession (JoinTeamLimit e team role p au key limit d)"
| "serve e (Session team op c au key) d = as RSession (ChangeTeamSession e team op c au key d)"
| "serve e (Handoff team c au key) d = as RSession (HandoffTeamCoordinator e team c au key d)"
| "serve e (RebindToken team c au key f) d = as RSession (RebindTeamSessionToken e team c au key f d)"
| "serve e (EditManaged team tid c au key) d = as RTask (EditManagedTask e team tid c au key d)"
| "serve e (Finalize team tid c au key) d = as RTask (FinalizeManagedTask e team tid c au key d)"
| "serve e (Unmanage team tid c au key) d = as RTask (UnmanageTask e team tid c au key d)"
| "serve e (Offer team c au key f) d = as RAssignment (OfferTeamAssignment e team c au key f d)"
| "serve e (Assignment team aid op c au key f) d = as RAssignment (ChangeTeamAssignment e team aid op c au key f d)"
| "serve e (Work team aid op c au key) d = as RAssignment (ChangeTeamWork e team aid op c au key d)"
| "serve e (Submit team aid c au key) d = as RAssignment (SubmitTeamResult e team aid c au key d)"
| "serve e (Review team aid c au key) d = as RAssignment (ReviewTeamResult e team aid c au key d)"
| "serve e (Recover team aid c au key) d = as RAssignment (RecoverTeamAssignment e team aid c au key d)"
| "serve e (Send team h c au key limit) d = as RMessage (SendTeamMessage e team h c au key limit d)"
| "serve e (Ack team h ids au key) d = as RAck (AckTeamMessages e team h ids au key d)"

text \<open>The reservation ledger keeps receipts of its own, and reading an inbox counts the
  deliveries it attempts. A claim through the registry names the moments it sees; it is a step of
  this project's database if the project it found and locked is this one.\<close>

datatype action =
    Request request
  | Reserve string TaskReservationInput TaskActor ReservationBinding string "ReservationCoordination option" authorizer
  | Reclaim string TaskReservationInput RecoveryEvidence TaskActor string authorizer
  | Claim TaskReservationInput TaskActor ReservationBinding string "ReservationCoordination option" bool claim_run taskHints
  | Inbox string TeamSessionHandle int int bool TeamAuditContext

fun act :: "env \<Rightarrow> action \<Rightarrow> db \<Rightarrow> err + db" where
  "act e (Request r) d = (case serve e r d of Inl x \<Rightarrow> Inl x | Inr (_, d') \<Rightarrow> Inr d')"
| "act e (Reserve op i a b key co f) d = (case ApplyTaskReservation e op i a b key co f d of Inl x \<Rightarrow> Inl x | Inr (_, d') \<Rightarrow> Inr d')"
| "act e (Reclaim op i x a key f) d = (case RecoverTaskReservation e op i x a key f d of Inl x \<Rightarrow> Inl x | Inr (_, d') \<Rightarrow> Inr d')"
| "act e (Claim i a b key co v r h) d =
     (case fst (ClaimTaskReservation e i a b key co v r h) of
        Inl x \<Rightarrow> Inl x
      | Inr (_, None) \<Rightarrow> Inr d
      | Inr (_, Some (p, d')) \<Rightarrow>
          if OpenExisting p (mo_world (rn_locked r)) = Inr d then Inr d' else Inl (ErrOther ''another project''))"
| "act e (Inbox team h after limit inbox au) d = (case TeamMessages e team h after limit inbox au d of Inl x \<Rightarrow> Inl x | Inr (_, d') \<Rightarrow> Inr d')"

lemma act_Claim_cases:
  assumes "act e (Claim i ac b key co v r h) d = Inr d'"
  obtains (replay) "d' = d"
  | (ran) out p where "fst (ClaimTaskReservation e i ac b key co v r h) = Inr (out, Some (p, d'))" "OpenExisting p (mo_world (rn_locked r)) = Inr d"
  using assms by (auto split: sum.splits prod.splits option.splits if_splits)

section \<open>One request keeps the invariants\<close>

text \<open>The generator's identifiers are new: UUIDs do not repeat and are not empty.\<close>

definition new_ids :: "env \<Rightarrow> db \<Rightarrow> bool" where
  "new_ids e d \<longleftrightarrow> e_uuid e 0 \<noteq> [] \<and> map_of (db_assignments d) (e_uuid e 0) = None \<and> map_of (db_sessions d) (e_uuid e 0) = None"

lemma operator_check_D: "operator_check team d = Inr t \<Longrightarrow> readTeam team d = Inr t"
  by (simp add: operator_check_def split: if_splits)

lemma handoff_check_D:
  assumes "handoff_check team c audit d = Inr t"
  shows "readTeam team d = Inr t"
  using assms by (auto simp: handoff_check_def tx_simps split: if_splits prod.splits dest: boundTeamSession_D(2) operator_check_D)

lemmas wrapped_team = checkedTaskMutation_keeps [where P = team_inv, OF _ _ _ team_inv_requests [THEN iffD2]]

lemma serve_team_inv:
  assumes "team_inv d" "new_ids e d" "serve e r d = Inr (x, d')"
  shows "team_inv d'"
  using assms(2,3)
proof (cases r)
  case (NewTask c a key)
  with assms show ?thesis
    by (auto simp: as_Inr_iff CreateTask_def Let_def tx_simps taskMutation_def elim!: wrapped_team intro: CreateTask_tx_team)
next
  case (SetTask tid c n a key)
  with assms show ?thesis
    by (auto simp: as_Inr_iff UpdateTask_def Let_def tx_simps elim!: wrapped_team intro: UpdateTask_tx_team)
next
  case (Triage tid p n a key)
  with assms show ?thesis
    by (auto simp: as_Inr_iff TriageTask_def Let_def tx_simps elim!: wrapped_team intro: TriageTask_tx_team)
next
  case (Comment tid b a key)
  with assms show ?thesis
    by (auto simp: as_Inr_iff AddTaskComment_def addTaskComment_def tx_simps elim!: wrapped_team intro: addTaskComment_tx_team)
next
  case (CommentUnheld tid b a key)
  with assms show ?thesis
    by (auto simp: as_Inr_iff AddTaskCommentUnheld_def addTaskComment_def tx_simps elim!: wrapped_team intro: addTaskComment_tx_team)
next
  case (NewEpic c a key)
  with assms show ?thesis
    by (auto simp: as_Inr_iff CreateEpic_def tx_simps taskMutation_def elim!: wrapped_team intro: CreateEpic_tx_team)
next
  case (SetEpic eid c n a key)
  with assms show ?thesis
    by (auto simp: as_Inr_iff UpdateEpic_def tx_simps taskMutation_def elim!: wrapped_team intro: UpdateEpic_tx_team)
next
  case (Configure inst team n c au key)
  with assms show ?thesis
    by (auto simp: as_Inr_iff ConfigureTeam_def tx_simps taskMutation_def elim!: wrapped_team intro: ConfigureTeam_tx_team)
next
  case (Join team role p au key limit)
  with assms show ?thesis
    by (auto simp: as_Inr_iff JoinTeamLimit_def tx_simps new_ids_def elim!: wrapped_team intro: JoinTeam_tx_inv)
next
  case (Session team op c au key)
  with assms show ?thesis
    by (auto simp: as_Inr_iff ChangeTeamSession_def tx_simps elim!: wrapped_team intro: ChangeTeamSession_tx_inv)
next
  case (Handoff team c au key)
  with assms show ?thesis
    by (auto simp: as_Inr_iff HandoffTeamCoordinator_def Let_def tx_simps elim!: wrapped_team
        intro: HandoffTeamCoordinator_tx_inv dest!: handoff_check_D)
next
  case (RebindToken team c au key f)
  with assms show ?thesis
    by (auto simp: as_Inr_iff RebindTeamSessionToken_def tx_simps elim!: wrapped_team
        intro: RebindTeamSessionToken_tx_inv dest!: operator_check_D)
next
  case (EditManaged team tid c au key)
  with assms show ?thesis
    by (auto simp: as_Inr_iff EditManagedTask_def Let_def tx_simps elim!: wrapped_team intro: EditManagedTask_tx_team)
next
  case (Finalize team tid c au key)
  with assms show ?thesis
    by (auto simp: as_Inr_iff FinalizeManagedTask_def tx_simps elim!: wrapped_team intro: FinalizeManagedTask_tx_team)
next
  case (Unmanage team tid c au key)
  with assms show ?thesis
    by (auto simp: as_Inr_iff UnmanageTask_def tx_simps elim!: wrapped_team intro: UnmanageTask_tx_team)
next
  case (Offer team c au key f)
  with assms show ?thesis
    by (auto simp: as_Inr_iff OfferTeamAssignment_def tx_simps new_ids_def elim!: wrapped_team intro: OfferTeamAssignment_tx_inv)
next
  case (Assignment team aid op c au key f)
  with assms(3) obtain a where "ChangeTeamAssignment e team aid op c au key f d = Inr (a, d')" by (auto simp: as_Inr_iff)
  then show ?thesis
    unfolding ChangeTeamAssignment_def tx_simps using assms(1)
    by (elim conjE) (erule wrapped_team, auto intro: ChangeTeamAssignment_tx_inv)
next
  case (Work team aid op c au key)
  with assms show ?thesis
    by (auto simp: as_Inr_iff ChangeTeamWork_def tx_simps elim!: wrapped_team intro: ChangeTeamWork_tx_inv)
next
  case (Submit team aid c au key)
  with assms show ?thesis
    by (auto simp: as_Inr_iff SubmitTeamResult_def tx_simps elim!: wrapped_team intro: SubmitTeamResult_tx_inv)
next
  case (Review team aid c au key)
  with assms show ?thesis
    by (auto simp: as_Inr_iff ReviewTeamResult_def tx_simps elim!: wrapped_team intro: ReviewTeamResult_tx_inv)
next
  case (Recover team aid c au key)
  with assms show ?thesis
    by (auto simp: as_Inr_iff RecoverTeamAssignment_def tx_simps elim!: wrapped_team intro: RecoverTeamAssignment_tx_inv)
next
  case (Send team h c au key limit)
  with assms show ?thesis
    by (auto simp: as_Inr_iff SendTeamMessage_def tx_simps logs_team_inv elim!: wrapped_team dest!: SendTeamMessage_tx_logs)
next
  case (Ack team h ids au key)
  with assms show ?thesis
    by (auto simp: as_Inr_iff AckTeamMessages_def tx_simps logs_team_inv elim!: wrapped_team dest!: AckTeamMessages_tx_logs)
qed

lemma act_team_inv:
  assumes "team_inv d" "new_ids e d" "act e a d = Inr d'"
  shows "team_inv d'"
  using assms
  by (cases a) (auto simp: tx_simps logs_team_inv split: prod.splits option.splits if_splits
      dest: serve_team_inv ApplyTaskReservation_team RecoverTaskReservation_team ClaimTaskReservation_team TeamMessages_logs)

section \<open>Reachable states\<close>

definition new_hub :: "string \<Rightarrow> (string, string) table \<Rightarrow> db" where
  "new_hub project meta = \<lparr>db_projectID = project, db_meta = meta, db_tasks = [], db_history = [], db_comments = [], db_requests = [],
     db_epics = [], db_epic_history = [], db_state_changes = [], db_reservations = [], db_res_events = [], db_res_requests = [],
     db_res_services = [], db_teams = [], db_team_events = [], db_sessions = [], db_control = [], db_messages = [], db_deliveries = [],
     db_managed = [], db_assignments = []\<rparr>"

text \<open>From an empty project: requests in any order, and changes of the project's metadata
  (which enable and disable tasks) by the registry.\<close>

inductive reachable :: "db \<Rightarrow> bool" where
  start: "reachable (new_hub project meta)"
| acted: "reachable d \<Longrightarrow> new_ids e d \<Longrightarrow> act e a d = Inr d' \<Longrightarrow> reachable d'"
| settings: "reachable d \<Longrightarrow> reachable (d\<lparr>db_meta := meta\<rparr>)"

lemma new_hub_sel [simp]: "db_projectID (new_hub p m) = p" "db_meta (new_hub p m) = m" "db_tasks (new_hub p m) = []"
  "db_history (new_hub p m) = []" "db_comments (new_hub p m) = []" "db_requests (new_hub p m) = []" "db_epics (new_hub p m) = []"
  "db_epic_history (new_hub p m) = []" "db_state_changes (new_hub p m) = []" "db_reservations (new_hub p m) = []"
  "db_res_events (new_hub p m) = []" "db_res_requests (new_hub p m) = []" "db_res_services (new_hub p m) = []"
  "db_teams (new_hub p m) = []" "db_team_events (new_hub p m) = []" "db_sessions (new_hub p m) = []" "db_control (new_hub p m) = []"
  "db_messages (new_hub p m) = []" "db_deliveries (new_hub p m) = []" "db_managed (new_hub p m) = []" "db_assignments (new_hub p m) = []"
  by (simp_all add: new_hub_def)

lemma new_hub_ledger_inv: "ledger_inv (new_hub p m)"
  by (simp add: ledger_inv_def task_board_ok_def board_ok_def feed_ok_def feed_rows_def ledger_ok_def holds_ok_def held_def
      history_complete_def task_revision_def fence_of_def)

lemma new_hub_team_inv: "team_inv (new_hub p m)"
  by (simp add: team_inv_def new_hub_ledger_inv teams_ok_def sessions_ok_def attempts_ok_def coupled_def workers_ok_def)

lemma team_inv_meta [simp]: "team_inv (d\<lparr>db_meta := m\<rparr>) = team_inv d"
  by (rule team_inv_cong) simp_all

lemma reachable_team_inv: "reachable d \<Longrightarrow> team_inv d"
  by (induction rule: reachable.induct) (auto simp: new_hub_team_inv intro: act_team_inv)

text \<open>What can happen next to a database of the hub: an action with new identifiers, or a change
  of the project's settings.\<close>

definition hub_step :: "db \<Rightarrow> db \<Rightarrow> bool" where
  "hub_step d d' \<longleftrightarrow> (\<exists>e a. new_ids e d \<and> act e a d = Inr d') \<or> (\<exists>m. d' = d\<lparr>db_meta := m\<rparr>)"

lemma hub_step_act: "new_ids e d \<Longrightarrow> act e a d = Inr d' \<Longrightarrow> hub_step d d'"
  by (auto simp: hub_step_def)

lemma hub_step_team_inv: "hub_step d d' \<Longrightarrow> team_inv d \<Longrightarrow> team_inv d'"
  by (auto simp: hub_step_def intro: act_team_inv)

lemma hub_steps_team_inv: "hub_step\<^sup>*\<^sup>* d d' \<Longrightarrow> team_inv d \<Longrightarrow> team_inv d'"
  by (induction rule: rtranclp_induct) (auto intro: hub_step_team_inv)

lemma hub_steps_reachable: "hub_step\<^sup>*\<^sup>* d d' \<Longrightarrow> reachable d \<Longrightarrow> reachable d'"
  by (induction rule: rtranclp_induct) (auto simp: hub_step_def intro: reachable.intros)

end
