(* ===== verification/Growth.thy ===== *)
theory Growth
  imports Hub
begin

text \<open>
  What no transaction ever takes back: the retry receipts, the version histories of tasks
  and epics, the comments, the state-change feed, the reservation log, the messages and the
  audit trail of the teams only grow, at their end, and no team's coordinator generation
  goes down.
\<close>

section \<open>Growing\<close>

text \<open>Messages are numbered by their place, and their identifiers do not repeat.\<close>

definition messages_ok :: "db \<Rightarrow> bool" where
  "messages_ok d \<longleftrightarrow> map (\<lambda>r. ms_Sequence (mw_body r)) (db_messages d) = map (\<lambda>k. int k + 1) [0..<length (db_messages d)]
     \<and> distinct (map mw_id (db_messages d)) \<and> (\<forall>r \<in> set (db_messages d). ms_ID (mw_body r) = mw_id r \<and> ms_TeamID (mw_body r) = mw_team_id r)"

text \<open>So are the comments, on all tasks together.\<close>

definition comments_ok :: "db \<Rightarrow> bool" where
  "comments_ok d \<longleftrightarrow> map cm_Sequence (db_comments d) = map (\<lambda>k. int k + 1) [0..<length (db_comments d)]"

text \<open>A delivery is counted and acknowledged but never taken back, and a stored message gets no further
  recipient.\<close>

definition delivery_advances :: "delivery_row \<Rightarrow> delivery_row \<Rightarrow> bool" where
  "delivery_advances r r' \<longleftrightarrow> dl_delivery_count r \<le> dl_delivery_count r' \<and> (dl_acked_at r \<noteq> [] \<longrightarrow> dl_acked_at r' = dl_acked_at r)"

definition deliveries_grow :: "db \<Rightarrow> db \<Rightarrow> bool" where
  "deliveries_grow d d' \<longleftrightarrow>
     (\<forall>k r. map_of (db_deliveries d) k = Some r \<longrightarrow> (\<exists>r'. map_of (db_deliveries d') k = Some r' \<and> delivery_advances r r'))
     \<and> (\<forall>w \<in> set (db_messages d). \<forall>sid. map_of (db_deliveries d) (mw_id w, sid) = None \<longrightarrow> map_of (db_deliveries d') (mw_id w, sid) = None)"

lemma delivery_advances_refl [simp]: "delivery_advances r r"
  by (simp add: delivery_advances_def)

lemma delivery_advances_trans: "delivery_advances r r1 \<Longrightarrow> delivery_advances r1 r2 \<Longrightarrow> delivery_advances r r2"
  by (auto simp: delivery_advances_def)

lemma deliveries_grow_same [simp]: "db_deliveries d' = db_deliveries d \<Longrightarrow> deliveries_grow d d'"
  by (simp add: deliveries_grow_def)

lemma deliveries_grow_trans:
  assumes "deliveries_grow d d1" "prefix (db_messages d) (db_messages d1)" "deliveries_grow d1 d2"
  shows "deliveries_grow d d2"
  unfolding deliveries_grow_def
proof (intro conjI allI impI ballI)
  fix k r
  assume "map_of (db_deliveries d) k = Some r"
  with assms(1) obtain r1 where r1: "map_of (db_deliveries d1) k = Some r1" "delivery_advances r r1" unfolding deliveries_grow_def by blast
  with assms(3) obtain r2 where "map_of (db_deliveries d2) k = Some r2" "delivery_advances r1 r2" unfolding deliveries_grow_def by blast
  with r1(2) delivery_advances_trans show "\<exists>r'. map_of (db_deliveries d2) k = Some r' \<and> delivery_advances r r'" by blast
next
  fix w sid
  assume w: "w \<in> set (db_messages d)" "map_of (db_deliveries d) (mw_id w, sid) = None"
  then have "w \<in> set (db_messages d1)" using set_mono_prefix [OF assms(2)] by blast
  with w assms(1,3) show "map_of (db_deliveries d2) (mw_id w, sid) = None" unfolding deliveries_grow_def by blast
qed

definition log_grows :: "db \<Rightarrow> db \<Rightarrow> bool" where
  "log_grows d d' \<longleftrightarrow> prefix (db_team_events d) (db_team_events d') \<and> prefix (db_state_changes d) (db_state_changes d')
     \<and> prefix (db_res_events d) (db_res_events d') \<and> prefix (db_comments d) (db_comments d') \<and> prefix (db_messages d) (db_messages d')
     \<and> map_of (db_history d) \<subseteq>\<^sub>m map_of (db_history d') \<and> map_of (db_epic_history d) \<subseteq>\<^sub>m map_of (db_epic_history d')
     \<and> (\<forall>team. control_generation team d \<le> control_generation team d')
     \<and> (messages_ok d \<longrightarrow> messages_ok d') \<and> (comments_ok d \<longrightarrow> comments_ok d') \<and> deliveries_grow d d'"

text \<open>A transaction under the receipt wrapper leaves the receipts to the wrapper.\<close>

definition grows :: "db \<Rightarrow> db \<Rightarrow> bool" where
  "grows d d' \<longleftrightarrow> log_grows d d' \<and> db_requests d' = db_requests d"

lemma log_grows_refl [simp]: "log_grows d d"
  by (simp add: log_grows_def)

lemma log_grows_trans: "log_grows d d1 \<Longrightarrow> log_grows d1 d2 \<Longrightarrow> log_grows d d2"
  unfolding log_grows_def by (intro conjI; meson map_le_trans order_trans prefix_order.trans deliveries_grow_trans)

lemma grows_refl [simp]: "grows d d"
  by (simp add: grows_def)

lemma grows_trans: "grows d d1 \<Longrightarrow> grows d1 d2 \<Longrightarrow> grows d d2"
  unfolding grows_def using log_grows_trans by auto

lemma grows_requests: "grows d d' \<Longrightarrow> db_requests d' = db_requests d"
  by (simp add: grows_def)

text \<open>The tables that change in place play no part in it.\<close>

lemma log_grows_tables [simp]:
  "log_grows d (d'\<lparr>db_meta := t0\<rparr>) = log_grows d d'" "log_grows (d\<lparr>db_meta := t0\<rparr>) d' = log_grows d d'"
  "log_grows d (d'\<lparr>db_tasks := t1\<rparr>) = log_grows d d'" "log_grows (d\<lparr>db_tasks := t1\<rparr>) d' = log_grows d d'"
  "log_grows d (d'\<lparr>db_epics := t2\<rparr>) = log_grows d d'" "log_grows (d\<lparr>db_epics := t2\<rparr>) d' = log_grows d d'"
  "log_grows d (d'\<lparr>db_reservations := t3\<rparr>) = log_grows d d'" "log_grows (d\<lparr>db_reservations := t3\<rparr>) d' = log_grows d d'"
  "log_grows d (d'\<lparr>db_res_requests := t4\<rparr>) = log_grows d d'" "log_grows (d\<lparr>db_res_requests := t4\<rparr>) d' = log_grows d d'"
  "log_grows d (d'\<lparr>db_res_services := t5\<rparr>) = log_grows d d'" "log_grows (d\<lparr>db_res_services := t5\<rparr>) d' = log_grows d d'"
  "log_grows d (d'\<lparr>db_teams := t6\<rparr>) = log_grows d d'" "log_grows (d\<lparr>db_teams := t6\<rparr>) d' = log_grows d d'"
  "log_grows d (d'\<lparr>db_sessions := t7\<rparr>) = log_grows d d'" "log_grows (d\<lparr>db_sessions := t7\<rparr>) d' = log_grows d d'"
  "log_grows d (d'\<lparr>db_managed := t9\<rparr>) = log_grows d d'" "log_grows (d\<lparr>db_managed := t9\<rparr>) d' = log_grows d d'"
  "log_grows d (d'\<lparr>db_assignments := t10\<rparr>) = log_grows d d'" "log_grows (d\<lparr>db_assignments := t10\<rparr>) d' = log_grows d d'"
  by (simp_all add: log_grows_def control_generation_def messages_ok_def comments_ok_def deliveries_grow_def)

lemma grows_tables [simp]:
  "grows d (d'\<lparr>db_meta := t0\<rparr>) = grows d d'" "grows (d\<lparr>db_meta := t0\<rparr>) d' = grows d d'"
  "grows d (d'\<lparr>db_tasks := t1\<rparr>) = grows d d'" "grows (d\<lparr>db_tasks := t1\<rparr>) d' = grows d d'"
  "grows d (d'\<lparr>db_epics := t2\<rparr>) = grows d d'" "grows (d\<lparr>db_epics := t2\<rparr>) d' = grows d d'"
  "grows d (d'\<lparr>db_reservations := t3\<rparr>) = grows d d'" "grows (d\<lparr>db_reservations := t3\<rparr>) d' = grows d d'"
  "grows d (d'\<lparr>db_res_requests := t4\<rparr>) = grows d d'" "grows (d\<lparr>db_res_requests := t4\<rparr>) d' = grows d d'"
  "grows d (d'\<lparr>db_res_services := t5\<rparr>) = grows d d'" "grows (d\<lparr>db_res_services := t5\<rparr>) d' = grows d d'"
  "grows d (d'\<lparr>db_teams := t6\<rparr>) = grows d d'" "grows (d\<lparr>db_teams := t6\<rparr>) d' = grows d d'"
  "grows d (d'\<lparr>db_sessions := t7\<rparr>) = grows d d'" "grows (d\<lparr>db_sessions := t7\<rparr>) d' = grows d d'"
  "grows d (d'\<lparr>db_managed := t9\<rparr>) = grows d d'" "grows (d\<lparr>db_managed := t9\<rparr>) d' = grows d d'"
  "grows d (d'\<lparr>db_assignments := t10\<rparr>) = grows d d'" "grows (d\<lparr>db_assignments := t10\<rparr>) d' = grows d d'"
  by (simp_all add: grows_def)

lemma log_grows_requests [simp]: "log_grows d (d'\<lparr>db_requests := t\<rparr>) = log_grows d d'"
  by (simp add: log_grows_def control_generation_def messages_ok_def comments_ok_def deliveries_grow_def)

section \<open>The writes\<close>

named_theorems growth \<open>writes and transactions that only grow the logs\<close>

lemma map_le_insert: "tb_insert k r t = Some t' \<Longrightarrow> map_of t \<subseteq>\<^sub>m map_of t'"
  using tb_insert_SomeD(1,2) [of k r t t'] by (auto simp: map_le_def)

lemma recordStateChange_grows: "recordStateChange t f b d = Inr d' \<Longrightarrow> grows d d'"
  by (auto simp: recordStateChange_def grows_def log_grows_def control_generation_def messages_ok_def comments_ok_def split: if_splits)

lemma history_grows: "map_of (db_history d) \<subseteq>\<^sub>m map_of h \<Longrightarrow> grows d (d\<lparr>db_tasks := ts, db_history := h\<rparr>)"
  by (simp add: grows_def log_grows_def control_generation_def messages_ok_def comments_ok_def)

lemma writeTask_grows [growth]: "writeTask t actor b d = Inr d' \<Longrightarrow> grows d d'"
  unfolding writeTask_def Let_def
  by (auto simp: tx_simps split: prod.splits option.splits if_splits
      dest!: recordStateChange_grows map_le_insert intro: grows_trans [OF history_grows])

lemma saveTask_grows [growth]: "saveTask t actor b d = Inr d' \<Longrightarrow> grows d d'"
  by (auto simp: saveTask_def split: option.splits dest: writeTask_grows)

lemma saveReservedTask_grows [growth]: "saveReservedTask t actor d = Inr d' \<Longrightarrow> grows d d'"
  by (auto simp: saveReservedTask_def dest: writeTask_grows)

lemma saveEpic_grows [growth]: "saveEpic ep actor b d = Inr d' \<Longrightarrow> grows d d'"
  by (auto simp: saveEpic_def Let_def tx_simps grows_def log_grows_def control_generation_def messages_ok_def comments_ok_def split: option.splits dest: map_le_insert)

lemma putTeamSession_grows [growth]: "putTeamSession s d = Inr d' \<Longrightarrow> grows d d'"
  by (auto simp: putTeamSession_def Let_def split: if_splits)

lemma put_assignment_grows [growth]: "put_assignment a d = Inr d' \<Longrightarrow> grows d d'"
  by (auto simp: put_assignment_def Let_def split: if_splits)

lemma putTeamEvent_grows [simp]: "grows d (putTeamEvent team ev d)"
  by (simp add: putTeamEvent_def grows_def log_grows_def control_generation_def messages_ok_def comments_ok_def)

lemma managedEvent_grows [simp]: "grows d (managedEvent e tm s op ch audit d)"
  by (simp add: managedEvent_def)

lemma messageAudit_grows [simp]: "grows d (messageAudit e t s op ids audit d)"
  by (simp add: messageAudit_def)

lemma putTeamEvent_grows_trans: "grows d d' \<Longrightarrow> grows d (putTeamEvent team ev d')"
  by (erule grows_trans) (rule putTeamEvent_grows)

lemma managedEvent_grows_trans: "grows d d' \<Longrightarrow> grows d (managedEvent e tm s op ch audit d')"
  by (erule grows_trans) (rule managedEvent_grows)

lemma messageAudit_grows_trans: "grows d d' \<Longrightarrow> grows d (messageAudit e t s op ids audit d')"
  by (erule grows_trans) (rule messageAudit_grows)

text \<open>Deliveries: those of a new message are all its own, and one that is there only advances.\<close>

lemma insert_deliveries_only:
  "insert_deliveries mid sids d = Inr d' \<Longrightarrow> \<exists>t. d' = d\<lparr>db_deliveries := t\<rparr>
    \<and> (\<forall>k. (fst k \<noteq> mid \<or> map_of (db_deliveries d) k \<noteq> None) \<longrightarrow> map_of t k = map_of (db_deliveries d) k)"
proof (induction sids arbitrary: d)
  case Nil
  then show ?case by (intro exI [of _ "db_deliveries d"]) simp
next
  case (Cons sid sids)
  then obtain t where t: "tb_insert (mid, sid) \<lparr>dl_delivered_at = [], dl_delivery_count = 0, dl_acked_at = []\<rparr> (db_deliveries d) = Some t"
    and i: "insert_deliveries mid sids (d\<lparr>db_deliveries := t\<rparr>) = Inr d'" by (auto split: option.splits)
  have m: "map_of t k = map_of (db_deliveries d) k" if "fst k \<noteq> mid \<or> map_of (db_deliveries d) k \<noteq> None" for k
    using that tb_insert_SomeD(1,2) [OF t] by auto
  from Cons.IH [OF i] obtain t' where "d' = d\<lparr>db_deliveries := t'\<rparr>"
    and t': "\<forall>k. (fst k \<noteq> mid \<or> map_of t k \<noteq> None) \<longrightarrow> map_of t' k = map_of t k" by auto
  then show ?case using m by (intro exI [of _ t']) auto
qed

lemma delivery_advance_grows:
  assumes "map_of (db_deliveries d) k = Some r" "delivery_advances r r'"
  shows "grows d (d\<lparr>db_deliveries := AList.update k r' (db_deliveries d)\<rparr>)"
  using assms by (auto simp: grows_def log_grows_def control_generation_def messages_ok_def comments_ok_def deliveries_grow_def update_conv)

lemma put_message_grows [growth]:
  assumes "put_message m rs d = Inr (m', d')"
  shows "grows d d'"
proof -
  from assms have m: "m' = m\<lparr>ms_Sequence := int (length (db_messages d)) + 1\<rparr>" and n: "ms_ID m \<notin> mw_id ` set (db_messages d)"
    and i: "insert_deliveries (ms_ID m') rs (d\<lparr>db_messages := db_messages d @ [\<lparr>mw_id = ms_ID m', mw_team_id = ms_TeamID m', mw_body = m'\<rparr>]\<rparr>) = Inr d'"
    by (auto simp: put_message_def Let_def tx_simps list_ex_iff)
  from insert_deliveries_only [OF i] obtain t where
    d': "d' = d\<lparr>db_messages := db_messages d @ [\<lparr>mw_id = ms_ID m', mw_team_id = ms_TeamID m', mw_body = m'\<rparr>], db_deliveries := t\<rparr>"
    and t: "\<forall>k. (fst k \<noteq> ms_ID m' \<or> map_of (db_deliveries d) k \<noteq> None) \<longrightarrow> map_of t k = map_of (db_deliveries d) k" by auto
  have "map_of t k = Some r" if "map_of (db_deliveries d) k = Some r" for k r using t [rule_format, of k] that by simp
  moreover have "map_of t (mw_id w, sid) = None" if "w \<in> set (db_messages d)" "map_of (db_deliveries d) (mw_id w, sid) = None" for w sid
  proof -
    have "mw_id w \<noteq> ms_ID m'" using imageI [OF that(1), of mw_id] m n by auto
    with t [rule_format, of "(mw_id w, sid)"] that(2) show ?thesis by simp
  qed
  ultimately have "deliveries_grow d d'" by (simp add: deliveries_grow_def d')
  then show ?thesis using m n by (auto simp: d' grows_def log_grows_def control_generation_def messages_ok_def comments_ok_def)
qed

lemma lifecycleMessage_grows [growth]: "lifecycleMessage e team r rs l tx refs d = Inr (mid, d') \<Longrightarrow> grows d d'"
  by (auto simp: lifecycleMessage_def Let_def tx_simps dest!: put_message_grows)

lemma saveTeamAssignment_grows [growth]: "saveTeamAssignment e t s a op audit d = Inr d' \<Longrightarrow> grows d d'"
  unfolding saveTeamAssignment_def Let_def
  by (simp only: tx_simps split_paired_Ex prod.case sum.inject)
     (clarify, (drule growth)+, blast intro: grows_trans putTeamEvent_grows)

lemma saveTeamSession_grows [growth]: "saveTeamSession e t s n op audit d = Inr d' \<Longrightarrow> grows d d'"
  unfolding saveTeamSession_def
  by (simp only: tx_simps sum.inject) (clarify, (drule growth)+, blast intro: grows_trans putTeamEvent_grows)

lemma rebind_grows [growth]: "rebindReservedAssignment e t s audit d = Inr d' \<Longrightarrow> grows d d'"
  by (auto simp: rebindReservedAssignment_def tx_simps split: option.splits dest: saveTeamAssignment_grows)

lemma slot_grows: "control_generation team d \<le> n \<Longrightarrow> grows d (slot team n d)"
  by (auto simp: slot_def grows_def log_grows_def control_generation_def messages_ok_def comments_ok_def)

lemma next_pair_grows [growth]: "nextCoordinatorGeneration team d = (n, d') \<Longrightarrow> grows d d'"
  using slot_grows by (auto simp: nextCoordinatorGeneration_slot)

section \<open>The transactions\<close>

lemmas grows_chain = grows_trans putTeamEvent_grows_trans managedEvent_grows_trans messageAudit_grows_trans

lemma CreateTask_tx_grows [growth]: "CreateTask_tx e c actor d = Inr (x, d') \<Longrightarrow> grows d d'"
  unfolding CreateTask_tx_def Let_def
  by (simp only: tx_simps case_prod_Inr_iff split_paired_Ex prod.case sum.inject prod.inject)
     (clarify, (drule growth)+, auto intro: grows_chain)

lemma UpdateTask_tx_grows [growth]: "UpdateTask_tx e tid c n actor d = Inr (x, d') \<Longrightarrow> grows d d'"
  unfolding UpdateTask_tx_def Let_def
  by (simp only: tx_simps case_prod_Inr_iff split_paired_Ex prod.case sum.inject prod.inject)
     (clarify, (drule growth)+, auto intro: grows_chain)

lemma TriageTask_tx_grows [growth]: "TriageTask_tx e tid p n actor d = Inr (x, d') \<Longrightarrow> grows d d'"
  unfolding TriageTask_tx_def Let_def
  by (simp only: tx_simps case_prod_Inr_iff split_paired_Ex prod.case sum.inject prod.inject)
     (clarify, (drule growth)+, auto intro: grows_chain)

lemma CreateEpic_tx_grows [growth]: "CreateEpic_tx e c actor d = Inr (x, d') \<Longrightarrow> grows d d'"
  unfolding CreateEpic_tx_def Let_def
  by (simp only: tx_simps case_prod_Inr_iff split_paired_Ex prod.case sum.inject prod.inject)
     (clarify, (drule growth)+, auto intro: grows_chain)

lemma UpdateEpic_tx_grows [growth]: "UpdateEpic_tx e eid c n actor d = Inr (x, d') \<Longrightarrow> grows d d'"
  unfolding UpdateEpic_tx_def Let_def
  by (simp only: tx_simps case_prod_Inr_iff split_paired_Ex prod.case sum.inject prod.inject)
     (clarify, (drule growth)+, auto intro: grows_chain)

lemma EditManagedTask_tx_grows [growth]: "EditManagedTask_tx e team tid c audit d = Inr (x, d') \<Longrightarrow> grows d d'"
  unfolding EditManagedTask_tx_def Let_def
  by (simp only: tx_simps case_prod_Inr_iff split_paired_Ex prod.case sum.inject prod.inject)
     (clarify, (drule growth)+, auto intro: grows_chain)

lemma FinalizeManagedTask_tx_grows [growth]: "FinalizeManagedTask_tx e team tid c audit d = Inr (x, d') \<Longrightarrow> grows d d'"
  unfolding FinalizeManagedTask_tx_def Let_def
  by (simp only: tx_simps case_prod_Inr_iff split_paired_Ex prod.case sum.inject prod.inject)
     (clarify, (drule growth)+, auto intro: grows_chain)

lemma UnmanageTask_tx_grows [growth]: "UnmanageTask_tx e team tid c audit tm d = Inr (x, d') \<Longrightarrow> grows d d'"
  unfolding UnmanageTask_tx_def Let_def
  by (simp only: tx_simps case_prod_Inr_iff split_paired_Ex prod.case sum.inject prod.inject)
     (clarify, (drule growth)+, auto intro: grows_chain)

lemma OfferTeamAssignment_tx_grows [growth]: "OfferTeamAssignment_tx e team c audit f d = Inr (x, d') \<Longrightarrow> grows d d'"
  unfolding OfferTeamAssignment_tx_def Let_def
  by (simp only: tx_simps case_prod_Inr_iff split_paired_Ex prod.case sum.inject prod.inject)
     (clarify, (drule growth)+, auto intro: grows_chain)

lemma ChangeTeamWork_tx_grows [growth]: "ChangeTeamWork_tx e team aid op c audit d = Inr (x, d') \<Longrightarrow> grows d d'"
  unfolding ChangeTeamWork_tx_def Let_def
  by (simp only: tx_simps case_prod_Inr_iff split_paired_Ex prod.case sum.inject prod.inject)
     (clarify, (drule growth)+, auto intro: grows_chain)

lemma SubmitTeamResult_tx_grows [growth]: "SubmitTeamResult_tx e team aid c audit d = Inr (x, d') \<Longrightarrow> grows d d'"
  unfolding SubmitTeamResult_tx_def Let_def
  by (simp only: tx_simps case_prod_Inr_iff split_paired_Ex prod.case sum.inject prod.inject)
     (clarify, (drule growth)+, auto intro: grows_chain)

lemma ReviewTeamResult_tx_grows [growth]: "ReviewTeamResult_tx e team aid c audit d = Inr (x, d') \<Longrightarrow> grows d d'"
  unfolding ReviewTeamResult_tx_def Let_def
  by (simp only: tx_simps case_prod_Inr_iff split_paired_Ex prod.case sum.inject prod.inject)
     (clarify, (drule growth)+, auto intro: grows_chain)

lemma RecoverTeamAssignment_tx_grows [growth]: "RecoverTeamAssignment_tx e team aid c audit tm d = Inr (x, d') \<Longrightarrow> grows d d'"
  unfolding RecoverTeamAssignment_tx_def Let_def
  by (simp only: tx_simps case_prod_Inr_iff split_paired_Ex prod.case sum.inject prod.inject)
     (clarify, (drule growth)+, auto intro: grows_chain)

lemma HandoffTeamCoordinator_tx_grows [growth]: "HandoffTeamCoordinator_tx e team c audit tm d = Inr (x, d') \<Longrightarrow> grows d d'"
  unfolding HandoffTeamCoordinator_tx_def Let_def
  by (simp only: tx_simps case_prod_Inr_iff split_paired_Ex prod.case sum.inject prod.inject)
     (clarify, (drule growth)+, auto intro: grows_chain)

lemma addTaskComment_tx_grows [growth]: "addTaskComment_tx e tid b actor d = Inr (x, d') \<Longrightarrow> grows d d'"
  by (auto simp: addTaskComment_tx_def Let_def grows_def log_grows_def control_generation_def messages_ok_def comments_ok_def split: sum.splits if_splits)

lemma ConfigureTeam_tx_grows [growth]: "ConfigureTeam_tx e inst team n c audit d = Inr (x, d') \<Longrightarrow> grows d d'"
  unfolding ConfigureTeam_tx_def Let_def
  by (auto simp: tx_simps case_prod_Inr_iff split: prod.splits intro!: putTeamEvent_grows_trans)

lemma JoinTeam_tx_grows [growth]: "JoinTeam_tx e team role p audit limit t d = Inr (x, d') \<Longrightarrow> grows d d'"
  unfolding JoinTeam_tx_def Let_def
  by (simp only: tx_simps case_prod_Inr_iff split_paired_Ex prod.case sum.inject prod.inject)
     (auto split: if_splits dest!: growth intro: grows_trans)

lemma change_session_grows: "change_session e team op c s d = Inr (s', d') \<Longrightarrow> grows d d'"
  unfolding change_session_def Let_def by (auto split: if_splits option.splits prod.splits dest: growth)

lemma ChangeTeamSession_tx_grows [growth]:
  assumes "ChangeTeamSession_tx e team op c audit (t, s) d = Inr (x, d')"
  shows "grows d d'"
proof -
  from assms obtain s' d1 d2 where c: "change_session e team op c s d = Inr (s', d1)"
    and sv: "saveTeamSession e t s' (ss_Generation c) (''team.'' @ op) audit d1 = Inr d2"
    and fin: "(if op = ''resume'' \<and> se_Role s' = ''worker'' then rebindReservedAssignment e t s' audit d2 else Inr d2) = Inr d'"
    unfolding ChangeTeamSession_tx_def by (simp only: tx_simps split_paired_Ex prod.case sum.inject prod.inject simp_thms) blast
  have "grows d2 d'" using fin by (auto split: if_splits dest: growth)
  with change_session_grows [OF c] saveTeamSession_grows [OF sv] show ?thesis by (blast intro: grows_trans)
qed

lemma RebindTeamSessionToken_tx_grows [growth]:
  assumes "RebindTeamSessionToken_tx e team c audit authorize tm d = Inr (s, d')"
  shows "grows d d'"
proof -
  define mk where "mk = (\<lambda>s :: TeamSession. if se_Role s = ''coordinator''
            then (case nextCoordinatorGeneration team d of (n, d1) \<Rightarrow>
               (s\<lparr>se_TokenID := tn_TokenID c, se_Generation := se_Generation s + 1, se_CoordinatorGeneration := n\<rparr>, d1))
            else (s\<lparr>se_TokenID := tn_TokenID c, se_Generation := se_Generation s + 1\<rparr>, d))"
  from assms obtain s0 s' d1 d2 ev where c: "mk s0 = (s', d1)" and p: "putTeamSession s' d1 = Inr d2"
    and fin: "(if se_Role s' = ''worker'' then rebindReservedAssignment e tm s' audit (putTeamEvent team ev d2)
        else Inr (putTeamEvent team ev d2)) = Inr d'"
    unfolding RebindTeamSessionToken_tx_def Let_def mk_def
    by (simp only: tx_simps case_prod_Inr_iff split_paired_Ex prod.case sum.inject prod.inject simp_thms) blast
  have "grows d d1" using c by (auto simp: mk_def split: if_splits prod.splits dest: growth)
  moreover have "grows (putTeamEvent team ev d2) d'" using fin by (auto split: if_splits dest: growth)
  ultimately show ?thesis using putTeamSession_grows [OF p] putTeamEvent_grows by (blast intro: grows_trans)
qed

lemma ChangeTeamAssignment_tx_grows [growth]:
  "ChangeTeamAssignment_tx e team aid op c audit f d = Inr (a, d') \<Longrightarrow> grows d d'"
  unfolding ChangeTeamAssignment_tx_def Let_def
  by (simp only: tx_simps split_paired_Ex prod.case sum.inject prod.inject)
     (cases "op = ''accept''"; auto simp: tx_simps dest!: saveTask_grows saveTeamAssignment_grows split: if_splits intro: grows_trans)

lemma SendTeamMessage_tx_grows [growth]:
  assumes "SendTeamMessage_tx e team h c audit limit (t, s) d = Inr (m, d')"
  shows "grows d d'"
proof -
  from assms obtain m0 rs d1 where p: "put_message m0 rs d = Inr (m, d1)" and "d' = messageAudit e t s ''team.message.send'' [ms_ID m] audit d1"
    unfolding SendTeamMessage_tx_def Let_def by (auto simp: tx_simps split: prod.splits)
  then show ?thesis using put_message_grows [OF p] by (blast intro: grows_chain)
qed

lemma mark_delivered_grows: "grows d (mark_delivered now sid ms d)"
proof (induction ms arbitrary: d)
  case (Cons m ms)
  show ?case
  proof (cases "map_of (db_deliveries d) (ms_ID m, sid)")
    case None
    with Cons show ?thesis by simp
  next
    case (Some r)
    let ?r = "r\<lparr>dl_delivered_at := now, dl_delivery_count := dl_delivery_count r + 1\<rparr>"
    have "grows d (d\<lparr>db_deliveries := AList.update (ms_ID m, sid) ?r (db_deliveries d)\<rparr>)"
      by (rule delivery_advance_grows [OF Some]) (simp add: delivery_advances_def)
    from grows_trans [OF this Cons.IH] Some show ?thesis by simp
  qed
qed simp

lemma TeamMessages_grows: "TeamMessages e team h after limit inbox audit d = Inr (x, d') \<Longrightarrow> grows d d'"
  unfolding TeamMessages_def Let_def
  by (auto simp: tx_simps split: prod.splits if_splits intro: messageAudit_grows_trans mark_delivered_grows)

lemma ack_each_grows: "ack_each e team sid ids d = Inr (ch, d') \<Longrightarrow> grows d d'"
proof (induction ids arbitrary: d ch)
  case (Cons i ids)
  from Cons.prems obtain r where r: "map_of (db_deliveries d) (i, sid) = Some r" by (auto split: option.splits if_splits)
  show ?case
  proof (cases "dl_acked_at r = []")
    case False
    with Cons r show ?thesis by (auto split: if_splits)
  next
    case True
    let ?d = "d\<lparr>db_deliveries := AList.update (i, sid) (r\<lparr>dl_acked_at := e_now e 1\<rparr>) (db_deliveries d)\<rparr>"
    from Cons.prems r True obtain ch' where "ack_each e team sid ids ?d = Inr (ch', d')" by (auto simp: tx_simps split: if_splits prod.splits)
    from Cons.IH [OF this] show ?thesis
      by (rule grows_trans [OF delivery_advance_grows [OF r], rotated]) (simp add: True delivery_advances_def)
  qed
qed simp

lemma AckTeamMessages_tx_grows [growth]: "AckTeamMessages_tx e team h ids audit (t, s) d = Inr (x, d') \<Longrightarrow> grows d d'"
  unfolding AckTeamMessages_tx_def
  by (auto simp: tx_simps split: prod.splits dest!: ack_each_grows intro: messageAudit_grows_trans)

lemma append_res_event_grows: "grows d (append_res_event tid f op body d)"
  by (simp add: append_res_event_def grows_def log_grows_def control_generation_def messages_ok_def comments_ok_def)

lemma advanceReservation_grows: "advanceReservation r d = Inr (r', d') \<Longrightarrow> grows d d'"
  by (drule advanceReservation_D(1)) simp

lemma trackServiceReservation_grows: "trackServiceReservation e before r cb d = Inr d' \<Longrightarrow> grows d d'"
  by (drule trackServiceReservation_only) auto

lemma commit_transition_grows [growth]:
  "commit_transition e op t before r actor binding i coord deps d = Inr (out, d') \<Longrightarrow> grows d d'"
  unfolding commit_transition_def recordReservationEvent_def
  by (simp only: tx_simps split_paired_Ex prod.case sum.inject prod.inject)
     (clarify, blast dest: advanceReservation_grows trackServiceReservation_grows intro: grows_trans append_res_event_grows)

lemma content_tx_grows [growth]: "content_tx e op i actor binding coord c t r d = Inr (out, d') \<Longrightarrow> grows d d'"
  unfolding content_tx_def Let_def
  by (simp only: tx_simps) (clarify, blast dest: saveReservedTask_grows commit_transition_grows intro: grows_trans)

lemma held_tx_grows [growth]: "held_tx e op i actor binding coord t r d = Inr (out, d') \<Longrightarrow> grows d d'"
  unfolding held_tx_def
  by (simp only: tx_simps split: if_splits) (auto simp: tx_simps dest: commit_transition_grows content_tx_grows)

lemma commit_claim_grows:
  "commit_claim e i actor binding coord deps t r d = Inr (out, d') \<Longrightarrow> grows d d'"
  unfolding commit_claim_def by (simp only: tx_simps) (auto simp: tx_simps dest: commit_transition_grows split: if_splits)

lemma reservation_tx_grows [growth]:
  "ApplyTaskReservation_tx e op i actor binding coord d = Inr (out, d') \<Longrightarrow> grows d d'"
  unfolding ApplyTaskReservation_tx_def claim_tx_def commit_claim_def Let_def
  by (simp only: tx_simps) (auto simp: tx_simps dest: commit_transition_grows held_tx_grows split: if_splits)

lemma RecoverTaskReservation_tx_grows [growth]:
  assumes "RecoverTaskReservation_tx e op i x actor d = Inr (out, d')"
  shows "grows d d'"
proof -
  from assms obtain t d1 r r' d2 tid f op' body before where s: "saveReservedTask t actor d = Inr d1" and a: "advanceReservation r d1 = Inr (r', d2)"
    and tr: "trackServiceReservation e before r' op (append_res_event tid f op' body d2) = Inr d'"
    unfolding RecoverTaskReservation_tx_def recordRecoveryEvent_def Let_def
    by (simp only: tx_simps split_paired_Ex prod.case sum.inject prod.inject) blast
  show ?thesis
    by (rule grows_trans [OF saveReservedTask_grows [OF s] grows_trans [OF advanceReservation_grows [OF a]
          grows_trans [OF append_res_event_grows trackServiceReservation_grows [OF tr]]]])
qed

section \<open>Whatever the hub is asked\<close>

text \<open>The wrapper adds the receipt to what the transaction did.\<close>

lemma checkedTaskMutation_log_grows:
  assumes "checkedTaskMutation e a op scope key input check wr rd fn d = Inr (out, d')"
    and "\<And>c d1. \<lbrakk>check d = Inr c; fn c d = Inr (out, d1)\<rbrakk> \<Longrightarrow> grows d d1"
  shows "log_grows d d'"
  using assms(1) by (cases rule: checkedTaskMutation_cases) (use assms(2) in \<open>auto simp: grows_def\<close>)

lemma reservationMutation_grows:
  assumes "reservationMutation e actor binding op i key extra fn authorize d = Inr (out, d')"
    and "\<And>out d1. fn d = Inr (out, d1) \<Longrightarrow> grows d d1"
  shows "grows d d'"
  using assms(1) by (cases rule: reservationMutation_cases) (use assms(2) in auto)

end
