(* ===== verification/Retry.thy ===== *)
theory Retry
  imports Growth
begin

text \<open>
  Retries against the whole hub. Every request of \<open>Hub\<close> carries a retry key; its receipt
  is stored with what it wrote, in the same transaction. The contract of a retry is the
  locale \<open>idempotent\<close>, and the hub's requests fulfil it.
\<close>

section \<open>The contract of a retry\<close>

text \<open>
  What a client of a receipt-backed service relies on. \<open>step w r s\<close> serves request \<open>r\<close> in
  state \<open>s\<close> under the circumstances \<open>w\<close> of the call (its clock, its fresh identifiers);
  \<open>remembers r s\<close> is the answer stored for \<open>r\<close>; \<open>move\<close> is anything else that happens. The
  laws speak of one step; the consequence is about any history between a request and its
  retry.
\<close>

locale idempotent =
  fixes step :: "'w \<Rightarrow> 'r \<Rightarrow> 's \<Rightarrow> 'e + ('o \<times> 's)"
    and remembers :: "'r \<Rightarrow> 's \<Rightarrow> 'o option"
    and move :: "'s \<Rightarrow> 's \<Rightarrow> bool"
  assumes step_remembers: "step w r s = Inr (x, s') \<Longrightarrow> remembers r s' = Some x"
    and step_replays: "remembers r s = Some x \<Longrightarrow> step w r s = Inr (y, s') \<Longrightarrow> y = x \<and> s' = s"
    and move_keeps: "move s s' \<Longrightarrow> remembers r s = Some x \<Longrightarrow> remembers r s' = Some x"
begin

lemma moves_keep: "move\<^sup>*\<^sup>* s s' \<Longrightarrow> remembers r s = Some x \<Longrightarrow> remembers r s' = Some x"
  by (induction rule: rtranclp_induct) (blast dest: move_keeps)+

lemma retry_after_anything:
  assumes "step w r s = Inr (x, s1)" "move\<^sup>*\<^sup>* s1 s2" "step w' r s2 = Inr (y, s3)"
  shows "y = x \<and> s3 = s2"
  using step_replays [OF moves_keep [OF assms(2) step_remembers [OF assms(1)]] assms(3)] .

end

section \<open>The hub's receipts\<close>

definition normal_profile :: "TeamProfile \<Rightarrow> TeamProfile" where
  "normal_profile p = p\<lparr>pf_Model := normal_model (pf_Model p)\<rparr>"

definition normal_command :: "string \<Rightarrow> TeamSessionCommand \<Rightarrow> TeamSessionCommand" where
  "normal_command op c = (if op = ''profile'' then c\<lparr>ss_Profile := map_option normal_profile (ss_Profile c)\<rparr> else c)"

definition normal_epic :: "EpicContent \<Rightarrow> EpicContent" where
  "normal_epic c = (case epic_validate c of Inl _ \<Rightarrow> c | Inr c' \<Rightarrow> c')"

lemma profile_validate_D: "profile_validate e p = Inr p' \<Longrightarrow> p' = normal_profile p"
  by (auto simp: profile_validate_def Let_def normal_profile_def split: if_splits)

lemma session_command_validate_D: "session_command_validate e op c = Inr c' \<Longrightarrow> c' = normal_command op c"
  unfolding session_command_validate_def normal_command_def
  by (simp only: if_Inl_Inr_iff) (auto split: if_splits option.splits sum.splits dest: profile_validate_D)

text \<open>Where a request's receipt is stored, and the input its digest covers.\<close>

fun receipt_key :: "request \<Rightarrow> TaskActor \<times> string \<times> string \<times> string" where
  "receipt_key (NewTask c a key) = (a, ''create'', [], key)"
| "receipt_key (SetTask tid c n a key) = (a, ''update'', tid, key)"
| "receipt_key (Triage tid p n a key) = (a, ''triage'', tid, key)"
| "receipt_key (Comment tid b a key) = (a, ''comment'', tid, key)"
| "receipt_key (CommentUnheld tid b a key) = (a, ''comment'', tid, key)"
| "receipt_key (NewEpic c a key) = (a, ''epic-create'', [], key)"
| "receipt_key (SetEpic eid c n a key) = (a, ''epic-update'', eid, key)"
| "receipt_key (Configure inst team n c au key) = (au_Actor au, ''team-configure'', team, key)"
| "receipt_key (Join team role p au key limit) = (au_Actor au, ''team.join'', team, key)"
| "receipt_key (Session team op c au key) = (au_Actor au, ''team.'' @ op, team, key)"
| "receipt_key (Handoff team c au key) = (au_Actor au, ''team.coordinator.handoff'', team, key)"
| "receipt_key (RebindToken team c au key f) = (au_Actor au, ''team.session.rebind_token'', team @ ''/'' @ tn_SessionID c, key)"
| "receipt_key (EditManaged team tid c au key) = (au_Actor au, ''team.task.edit'', tid, key)"
| "receipt_key (Finalize team tid c au key) = (au_Actor au, ''team.task.finalize'', tid, key)"
| "receipt_key (Unmanage team tid c au key) = (au_Actor au, ''team.task.unmanage'', team @ ''/'' @ tid, key)"
| "receipt_key (Offer team c au key f) = (au_Actor au, ''team.assignment.offer'', team, key)"
| "receipt_key (Assignment team aid op c au key f) = (au_Actor au, ''team.assignment.'' @ op, team @ ''/'' @ aid, key)"
| "receipt_key (Work team aid op c au key) = (au_Actor au, ''team.assignment.'' @ op, team @ ''/'' @ aid, key)"
| "receipt_key (Submit team aid c au key) = (au_Actor au, ''team.assignment.submit'', team @ ''/'' @ aid, key)"
| "receipt_key (Review team aid c au key) = (au_Actor au, ''team.assignment.review'', team @ ''/'' @ aid, key)"
| "receipt_key (Recover team aid c au key) = (au_Actor au, ''team.assignment.recover'', team @ ''/'' @ aid, key)"
| "receipt_key (Send team h c au key limit) = (au_Actor au, ''team.message.send'', team, key)"
| "receipt_key (Ack team h ids au key) = (au_Actor au, ''team.message.ack'', team, key)"

fun receipt_input :: "request \<Rightarrow> json" where
  "receipt_input (NewTask c a key) = json_content (default_state c)"
| "receipt_input (SetTask tid c n a key) = JObj [(''content'', json_content c), (''expected'', JNum n)]"
| "receipt_input (Triage tid p n a key) = triage_input p n"
| "receipt_input (Comment tid b a key) = JStr b"
| "receipt_input (CommentUnheld tid b a key) = JStr b"
| "receipt_input (NewEpic c a key) = json_epic_content (normal_epic c)"
| "receipt_input (SetEpic eid c n a key) = JObj [(''content'', json_epic_content (normal_epic c)), (''expected'', JNum n)]"
| "receipt_input (Configure inst team n c au key) = JObj [(''ID'', JStr team), (''Expected'', JNum n), (''Content'', json_team_content c)]"
| "receipt_input (Join team role p au key limit) = JObj [(''Role'', JStr role), (''Profile'', json_profile (normal_profile p))]"
| "receipt_input (Session team op c au key) = json_session_command (normal_command op c)"
| "receipt_input (Handoff team c au key) = json_handoff_command c"
| "receipt_input (RebindToken team c au key f) = json_token_command c"
| "receipt_input (EditManaged team tid c au key) = json_edit_command c"
| "receipt_input (Finalize team tid c au key) = json_finalize_command c"
| "receipt_input (Unmanage team tid c au key) = json_unmanage_command c"
| "receipt_input (Offer team c au key f) = json_offer c"
| "receipt_input (Assignment team aid op c au key f) = json_assignment_command c"
| "receipt_input (Work team aid op c au key) = json_work_command c"
| "receipt_input (Submit team aid c au key) = json_submission c"
| "receipt_input (Review team aid c au key) = json_decision c"
| "receipt_input (Recover team aid c au key) = json_recovery_command c"
| "receipt_input (Send team h c au key limit) = JObj [(''Handle'', json_handle h), (''Content'', json_message_content c)]"
| "receipt_input (Ack team h ids au key) = JObj [(''Handle'', json_handle h), (''IDs'', JArr (map JStr ids))]"

text \<open>A request was answered from its receipt, or ran and stored one.\<close>

definition served :: "(string \<Rightarrow> string) \<Rightarrow> TaskActor \<times> string \<times> string \<times> string \<Rightarrow> json \<Rightarrow> reply \<Rightarrow> db \<Rightarrow> db \<Rightarrow> bool" where
  "served sha ks input x d d' \<longleftrightarrow> (case ks of (a, op, scope, key) \<Rightarrow>
     d' = d \<and> receipt_of d a op scope key = Some (receiptDigest sha input, x)
     \<or> receipt_of d a op scope key = None \<and> receipt_of d' a op scope key = Some (receiptDigest sha input, x) \<and> receipts_grow d d' \<and> log_grows d d')"

lemma checkedTaskMutation_served:
  assumes "checkedTaskMutation e a op scope key input check wr rd fn d = Inr (out, d')"
    and "\<And>s y. rd s = Some y \<Longrightarrow> s = wr y" and "\<And>y. rd (wr y) = Some y"
    and "\<And>c d1. \<lbrakk>check d = Inr c; fn c d = Inr (out, d1)\<rbrakk> \<Longrightarrow> grows d d1"
  shows "served (e_sha e) (a, op, scope, key) input (wr out) d d'"
  using assms(1)
proof (cases rule: checkedTaskMutation_cases)
  case (replay k saved)
  then show ?thesis using assms(2) [OF replay(3)] by (simp add: served_def receipt_of_def)
next
  case (fresh k c d1 t)
  have g: "grows d d1" by (rule assms(4) [OF fresh(3,5)])
  then have fr: "db_requests d1 = db_requests d" by (rule grows_requests)
  then have n: "map_of (db_requests d) (k, op, scope, key) = None"
    and t: "map_of (db_requests d') = (map_of (db_requests d))((k, op, scope, key) \<mapsto> (receiptDigest (e_sha e) input, wr out))"
    using fresh(4,7) tb_insert_SomeD(2) [OF fresh(6)] by simp_all
  have "receipts_grow d d'" unfolding receipts_grow_def t map_le_def using n by (metis domIff fun_upd_other)
  then show ?thesis using n t g fresh(1,7) by (simp add: served_def receipt_of_def grows_def)
qed

lemma prj_inv:
  "prj_task s = Some t \<Longrightarrow> s = RTask t" "prj_comment s = Some cm \<Longrightarrow> s = RComment cm" "prj_epic s = Some ep \<Longrightarrow> s = REpic ep"
  "prj_team s = Some tm \<Longrightarrow> s = RTeam tm" "prj_session s = Some se \<Longrightarrow> s = RSession se"
  "prj_assignment s = Some a \<Longrightarrow> s = RAssignment a" "prj_message s = Some m \<Longrightarrow> s = RMessage m" "prj_ack s = Some k \<Longrightarrow> s = RAck k"
  by (cases s; simp)+

lemma default_state_idem: "default_state (default_state c) = default_state c"
  by (simp add: default_state_def)

lemma serve_served:
  assumes "serve e r d = Inr (x, d')"
  shows "served (e_sha e) (receipt_key r) (receipt_input r) x d d'"
proof (cases r)
  case (NewTask c a key)
  with assms obtain y where y: "CreateTask e c a key d = Inr (y, d')" "x = RTask y" by (auto simp: as_Inr_iff)
  show ?thesis using y(1) unfolding NewTask y(2) receipt_key.simps receipt_input.simps CreateTask_def createRetry_def taskMutation_def Let_def tx_simps retry.simps default_state_idem
    by (elim conjE exE) (drule checkedTaskMutation_served; auto dest: prj_inv growth)
next
  case (SetTask tid c n a key)
  with assms obtain y where y: "UpdateTask e tid c n a key d = Inr (y, d')" "x = RTask y" by (auto simp: as_Inr_iff)
  show ?thesis using y(1) unfolding SetTask y(2) receipt_key.simps receipt_input.simps UpdateTask_def updateRetry_def Let_def tx_simps retry.simps
    by (elim conjE exE) (drule checkedTaskMutation_served; auto dest: prj_inv growth)
next
  case (Triage tid p n a key)
  with assms obtain y where y: "TriageTask e tid p n a key d = Inr (y, d')" "x = RTask y" by (auto simp: as_Inr_iff)
  show ?thesis using y(1) unfolding Triage y(2) receipt_key.simps receipt_input.simps TriageTask_def Let_def tx_simps retry.simps
    by (elim conjE exE) (drule checkedTaskMutation_served; auto dest: prj_inv growth)
next
  case (Comment tid b a key)
  with assms obtain y where y: "AddTaskComment e tid b a key d = Inr (y, d')" "x = RComment y" by (auto simp: as_Inr_iff)
  show ?thesis using y(1) unfolding Comment y(2) receipt_key.simps receipt_input.simps AddTaskComment_def addTaskComment_def Let_def tx_simps retry.simps
    by (elim conjE exE) (drule checkedTaskMutation_served; auto dest: prj_inv growth)
next
  case (CommentUnheld tid b a key)
  with assms obtain y where y: "AddTaskCommentUnheld e tid b a key d = Inr (y, d')" "x = RComment y" by (auto simp: as_Inr_iff)
  show ?thesis using y(1) unfolding CommentUnheld y(2) receipt_key.simps receipt_input.simps AddTaskCommentUnheld_def addTaskComment_def Let_def tx_simps retry.simps
    by (elim conjE exE) (drule checkedTaskMutation_served; auto dest: prj_inv growth)
next
  case (NewEpic c a key)
  with assms obtain y where y: "CreateEpic e c a key d = Inr (y, d')" "x = REpic y" by (auto simp: as_Inr_iff)
  show ?thesis using y(1) unfolding NewEpic y(2) receipt_key.simps receipt_input.simps CreateEpic_def taskMutation_def normal_epic_def Let_def tx_simps retry.simps
    by (elim conjE exE) (drule checkedTaskMutation_served; auto dest: prj_inv growth)
next
  case (SetEpic eid c n a key)
  with assms obtain y where y: "UpdateEpic e eid c n a key d = Inr (y, d')" "x = REpic y" by (auto simp: as_Inr_iff)
  show ?thesis using y(1) unfolding SetEpic y(2) receipt_key.simps receipt_input.simps UpdateEpic_def taskMutation_def normal_epic_def Let_def tx_simps retry.simps
    by (elim conjE exE) (drule checkedTaskMutation_served; auto dest: prj_inv growth)
next
  case (Configure inst team n c au key)
  with assms obtain y where y: "ConfigureTeam e inst team n c au key d = Inr (y, d')" "x = RTeam y" by (auto simp: as_Inr_iff)
  show ?thesis using y(1) unfolding Configure y(2) receipt_key.simps receipt_input.simps ConfigureTeam_def taskMutation_def Let_def tx_simps retry.simps
    by (elim conjE exE) (drule checkedTaskMutation_served; auto dest: prj_inv growth)
next
  case (Join team role p au key limit)
  with assms obtain y where y: "JoinTeamLimit e team role p au key limit d = Inr (y, d')" "x = RSession y" by (auto simp: as_Inr_iff)
  show ?thesis using y(1) unfolding Join y(2) receipt_key.simps receipt_input.simps JoinTeamLimit_def Let_def tx_simps retry.simps
    by (elim conjE exE) (drule profile_validate_D, drule checkedTaskMutation_served; auto dest: prj_inv growth)
next
  case (Session team op c au key)
  with assms obtain y where y: "ChangeTeamSession e team op c au key d = Inr (y, d')" "x = RSession y" by (auto simp: as_Inr_iff)
  show ?thesis using y(1) unfolding Session y(2) receipt_key.simps receipt_input.simps ChangeTeamSession_def Let_def tx_simps retry.simps
    by (elim conjE exE) (drule session_command_validate_D, drule checkedTaskMutation_served; auto dest: prj_inv growth)
next
  case (Handoff team c au key)
  with assms obtain y where y: "HandoffTeamCoordinator e team c au key d = Inr (y, d')" "x = RSession y" by (auto simp: as_Inr_iff)
  show ?thesis using y(1) unfolding Handoff y(2) receipt_key.simps receipt_input.simps HandoffTeamCoordinator_def Let_def tx_simps retry.simps
    by (elim conjE exE) (drule checkedTaskMutation_served; auto dest: prj_inv growth)
next
  case (RebindToken team c au key f)
  with assms obtain y where y: "RebindTeamSessionToken e team c au key f d = Inr (y, d')" "x = RSession y" by (auto simp: as_Inr_iff)
  show ?thesis using y(1) unfolding RebindToken y(2) receipt_key.simps receipt_input.simps RebindTeamSessionToken_def Let_def tx_simps retry.simps
    by (elim conjE exE) (drule checkedTaskMutation_served; auto dest: prj_inv growth)
next
  case (EditManaged team tid c au key)
  with assms obtain y where y: "EditManagedTask e team tid c au key d = Inr (y, d')" "x = RTask y" by (auto simp: as_Inr_iff)
  show ?thesis using y(1) unfolding EditManaged y(2) receipt_key.simps receipt_input.simps EditManagedTask_def managedEditRetry_def Let_def tx_simps retry.simps
    by (elim conjE exE) (drule checkedTaskMutation_served; auto dest: prj_inv growth)
next
  case (Finalize team tid c au key)
  with assms obtain y where y: "FinalizeManagedTask e team tid c au key d = Inr (y, d')" "x = RTask y" by (auto simp: as_Inr_iff)
  show ?thesis using y(1) unfolding Finalize y(2) receipt_key.simps receipt_input.simps FinalizeManagedTask_def Let_def tx_simps retry.simps
    by (elim conjE exE) (drule checkedTaskMutation_served; auto dest: prj_inv growth)
next
  case (Unmanage team tid c au key)
  with assms obtain y where y: "UnmanageTask e team tid c au key d = Inr (y, d')" "x = RTask y" by (auto simp: as_Inr_iff)
  show ?thesis using y(1) unfolding Unmanage y(2) receipt_key.simps receipt_input.simps UnmanageTask_def Let_def tx_simps retry.simps
    by (elim conjE exE) (drule checkedTaskMutation_served; auto dest: prj_inv growth)
next
  case (Offer team c au key f)
  with assms obtain y where y: "OfferTeamAssignment e team c au key f d = Inr (y, d')" "x = RAssignment y" by (auto simp: as_Inr_iff)
  show ?thesis using y(1) unfolding Offer y(2) receipt_key.simps receipt_input.simps OfferTeamAssignment_def Let_def tx_simps retry.simps
    by (elim conjE exE) (drule checkedTaskMutation_served; auto dest: prj_inv growth)
next
  case (Assignment team aid op c au key f)
  with assms obtain y where y: "ChangeTeamAssignment e team aid op c au key f d = Inr (y, d')" "x = RAssignment y" by (auto simp: as_Inr_iff)
  show ?thesis using y(1) unfolding Assignment y(2) receipt_key.simps receipt_input.simps ChangeTeamAssignment_def Let_def tx_simps retry.simps
    by (elim conjE exE) (drule checkedTaskMutation_served; auto dest: prj_inv growth)
next
  case (Work team aid op c au key)
  with assms obtain y where y: "ChangeTeamWork e team aid op c au key d = Inr (y, d')" "x = RAssignment y" by (auto simp: as_Inr_iff)
  show ?thesis using y(1) unfolding Work y(2) receipt_key.simps receipt_input.simps ChangeTeamWork_def Let_def tx_simps retry.simps
    by (elim conjE exE) (drule checkedTaskMutation_served; auto dest: prj_inv growth)
next
  case (Submit team aid c au key)
  with assms obtain y where y: "SubmitTeamResult e team aid c au key d = Inr (y, d')" "x = RAssignment y" by (auto simp: as_Inr_iff)
  show ?thesis using y(1) unfolding Submit y(2) receipt_key.simps receipt_input.simps SubmitTeamResult_def Let_def tx_simps retry.simps
    by (elim conjE exE) (drule checkedTaskMutation_served; auto dest: prj_inv growth)
next
  case (Review team aid c au key)
  with assms obtain y where y: "ReviewTeamResult e team aid c au key d = Inr (y, d')" "x = RAssignment y" by (auto simp: as_Inr_iff)
  show ?thesis using y(1) unfolding Review y(2) receipt_key.simps receipt_input.simps ReviewTeamResult_def Let_def tx_simps retry.simps
    by (elim conjE exE) (drule checkedTaskMutation_served; auto dest: prj_inv growth)
next
  case (Recover team aid c au key)
  with assms obtain y where y: "RecoverTeamAssignment e team aid c au key d = Inr (y, d')" "x = RAssignment y" by (auto simp: as_Inr_iff)
  show ?thesis using y(1) unfolding Recover y(2) receipt_key.simps receipt_input.simps RecoverTeamAssignment_def Let_def tx_simps retry.simps
    by (elim conjE exE) (drule checkedTaskMutation_served; auto dest: prj_inv growth)
next
  case (Send team h c au key limit)
  with assms obtain y where y: "SendTeamMessage e team h c au key limit d = Inr (y, d')" "x = RMessage y" by (auto simp: as_Inr_iff)
  show ?thesis using y(1) unfolding Send y(2) receipt_key.simps receipt_input.simps SendTeamMessage_def Let_def tx_simps retry.simps
    by (elim conjE exE) (drule checkedTaskMutation_served; auto dest: prj_inv growth)
next
  case (Ack team h ids au key)
  with assms obtain y where y: "AckTeamMessages e team h ids au key d = Inr (y, d')" "x = RAck y" by (auto simp: as_Inr_iff)
  show ?thesis using y(1) unfolding Ack y(2) receipt_key.simps receipt_input.simps AckTeamMessages_def Let_def tx_simps retry.simps
    by (elim conjE exE) (drule checkedTaskMutation_served; auto dest: prj_inv growth)
qed

section \<open>The interpretation\<close>

lemma serve_grows: "serve e r d = Inr (x, d') \<Longrightarrow> receipts_grow d d' \<and> log_grows d d'"
  by (drule serve_served) (auto simp: served_def split: prod.splits)

lemma grows_both: "grows d d' \<Longrightarrow> receipts_grow d d' \<and> log_grows d d'"
  by (simp add: grows_def receipts_grow_same)

lemma act_grows: "act e a d = Inr d' \<Longrightarrow> receipts_grow d d' \<and> log_grows d d'"
proof (cases a)
  case (Request r)
  assume "act e a d = Inr d'"
  then show ?thesis by (auto simp: Request tx_simps split: prod.splits dest: serve_grows)
next
  case (Reserve op i ac b key co f)
  assume "act e a d = Inr d'"
  then obtain out where "ApplyTaskReservation e op i ac b key co f d = Inr (out, d')" by (auto simp: Reserve tx_simps split: prod.splits)
  from grows_both [OF reservationMutation_grows [OF ApplyTaskReservation_D(4) [OF this] reservation_tx_grows]] show ?thesis .
next
  case (Reclaim op i x ac key f)
  assume "act e a d = Inr d'"
  then obtain out where "RecoverTaskReservation e op i x ac key f d = Inr (out, d')" by (auto simp: Reclaim tx_simps split: prod.splits)
  from grows_both [OF reservationMutation_grows [OF RecoverTaskReservation_D(2) [OF this] RecoverTaskReservation_tx_grows]] show ?thesis .
next
  case (Claim i ac b key co v r h)
  assume "act e a d = Inr d'"
  then have "act e (Claim i ac b key co v r h) d = Inr d'" by (simp only: Claim)
  then show ?thesis
  proof (cases rule: act_Claim_cases)
    case (ran out p)
    from ran show ?thesis
    proof (cases rule: ClaimTaskReservation_cases)
      case (fresh res d1 t ev tab)
      have "grows d d1" by (rule commit_claim_grows [OF fresh(2)])
      then show ?thesis using grows_both [of d d'] by (simp add: fresh(3))
    qed simp
  qed simp
next
  case (Inbox team h after limit inbox au)
  assume "act e a d = Inr d'"
  then obtain out where "TeamMessages e team h after limit inbox au d = Inr (out, d')" by (auto simp: Inbox tx_simps split: prod.splits)
  from grows_both [OF TeamMessages_grows [OF this]] show ?thesis .
qed

text \<open>Anything that happens to the hub's database.\<close>

definition moves :: "db \<Rightarrow> db \<Rightarrow> bool" where
  "moves d d' \<longleftrightarrow> (\<exists>e a. act e a d = Inr d') \<or> (\<exists>m. d' = d\<lparr>db_meta := m\<rparr>)"

definition remembered :: "(string \<Rightarrow> string) \<Rightarrow> request \<Rightarrow> db \<Rightarrow> reply option" where
  "remembered sha r d = (case receipt_key r of (a, op, scope, key) \<Rightarrow>
     case receipt_of d a op scope key of None \<Rightarrow> None
     | Some (dg, x) \<Rightarrow> if dg = receiptDigest sha (receipt_input r) then Some x else None)"

lemma moves_grow: "moves d d' \<Longrightarrow> receipts_grow d d' \<and> log_grows d d'"
  unfolding moves_def using act_grows receipts_grow_same by fastforce

lemma hub_step_moves: "hub_step d d' \<Longrightarrow> moves d d'"
  unfolding hub_step_def moves_def by blast

lemma hub_steps_moves: "hub_step\<^sup>*\<^sup>* d d' \<Longrightarrow> moves\<^sup>*\<^sup>* d d'"
  by (rule mono_rtranclp [rule_format]) (rule hub_step_moves)

lemma moves_rtrancl_log_grows: "moves\<^sup>*\<^sup>* d d' \<Longrightarrow> log_grows d d'"
  by (induction rule: rtranclp_induct) (auto dest: moves_grow intro: log_grows_trans)

lemma remembered_Some:
  "remembered sha r d = Some x \<longleftrightarrow> (case receipt_key r of (a, op, scope, key) \<Rightarrow>
     receipt_of d a op scope key = Some (receiptDigest sha (receipt_input r), x))"
  by (auto simp: remembered_def split: prod.splits option.splits if_splits)

lemma receipts_grow_receipt_of: "receipts_grow d d' \<Longrightarrow> receipt_of d a op scope key = Some y \<Longrightarrow> receipt_of d' a op scope key = Some y"
  by (auto simp: receipts_grow_def receipt_of_def map_le_def split: sum.splits) (metis domI)

interpretation receipts: idempotent "\<lambda>e r d. serve (e\<lparr>e_sha := sha\<rparr>) r d" "remembered sha" moves for sha
proof unfold_locales
  fix w r s x s' y
  show "remembered sha r s' = Some x" if "serve (w\<lparr>e_sha := sha\<rparr>) r s = Inr (x, s')"
    using serve_served [OF that] by (auto simp: remembered_Some served_def split: prod.splits)
  show "y = x \<and> s' = s" if "remembered sha r s = Some x" "serve (w\<lparr>e_sha := sha\<rparr>) r s = Inr (y, s')"
    using serve_served [OF that(2)] that(1) by (auto simp: remembered_Some served_def split: prod.splits)
next
  fix s s' r x
  assume m: "moves s s'" and "remembered sha r s = Some x"
  moreover have "receipts_grow s s'" using moves_grow [OF m] by blast
  ultimately show "remembered sha r s' = Some x"
    using receipts_grow_receipt_of by (fastforce simp: remembered_Some split: prod.splits)
qed

end
