(* ===== verification/ExamplesTeam.thy ===== *)
theory ExamplesTeam
  imports Retry ExamplesBoard
begin

text \<open>
  A concrete run of team coordination on a reachable hub: an administrator configures a
  team, a coordinator and a worker join, a task is created, offered and accepted. The
  properties of reachable states are applied to its last states.
\<close>

section \<open>Who acts\<close>

definition ex_admin :: TaskActor where
  "ex_admin = \<lparr>ac_Kind = ''admin'', ac_UserID = [], ac_TokenID = [], ac_Name = ''ann''\<rparr>"

definition ex_worker :: TaskActor where
  "ex_worker = \<lparr>ac_Kind = ''user'', ac_UserID = mk_id CHR ''b'', ac_TokenID = mk_id CHR ''d'', ac_Name = ''ann''\<rparr>"

definition ex_worker_key :: string where "ex_worker_key = ''user/'' @ ac_UserID ex_worker @ ''/'' @ ac_TokenID ex_worker"

lemma ex_actor_sel [simp]: "ac_Kind ex_admin = ''admin''" "ac_Kind ex_worker = ''user''" "ac_UserID ex_worker = mk_id CHR ''b''"
  "ac_TokenID ex_worker = mk_id CHR ''d''" "ac_Kind ex_user = ''user''" "ac_UserID ex_user = mk_id CHR ''a''"
  "ac_TokenID ex_user = mk_id CHR ''c''"
  by (simp_all add: ex_admin_def ex_worker_def ex_user_def)

lemma ex_keys [simp]: "actor_key ex_admin = Inr ''admin/ann''" "actor_key ex_worker = Inr ex_worker_key"
  by (simp_all add: actor_key_def ex_admin_def ex_worker_def ex_worker_key_def)

definition ex_audit :: "TaskActor \<Rightarrow> TeamAuditContext" where
  "ex_audit a = \<lparr>au_Actor = a, au_RequestID = ''q'', au_ServerVersion = ''v'', au_ProcessCommit = []\<rparr>"

lemma ex_audit_sel [simp]: "au_Actor (ex_audit a) = a"
  by (simp add: ex_audit_def)

section \<open>A team\<close>

definition ex_team_content :: TeamContent where
  "ex_team_content = \<lparr>tt_Name = ''crew'', tt_Description = [], tt_Enrollment =
     [\<lparr>en_UserID = mk_id CHR ''a'', en_Coordinator = True\<rparr>, \<lparr>en_UserID = mk_id CHR ''b'', en_Coordinator = False\<rparr>]\<rparr>"

definition ex_team :: Team where
  "ex_team = \<lparr>te_ID = ex_id 2, te_Revision = 1, te_ProjectInstance = ''i'', te_Content = ex_team_content, te_CreatedAt = ''t'', te_UpdatedAt = ''t''\<rparr>"

lemma mk_id_inject [simp]: "mk_id c = mk_id c' \<longleftrightarrow> c = c'"
  by (simp add: mk_id_def)

lemma ex_team_sel [simp]: "te_ID ex_team = ex_id 2" "te_Content ex_team = ex_team_content"
  by (simp_all add: ex_team_def)

lemma crew_text [simp]: "taskText ''crew'' 128 True = None"
  by (rule taskText_plain) (simp_all add: plain_def)

lemma empty_text [simp]: "taskText [] n False = None"
  by (rule taskText_plain) (simp_all add: plain_def)

lemma ex_team_content_ok [simp]: "team_content_validate ex_team_content = None"
  by (simp add: team_content_validate_def ex_team_content_def TrimSpace_def Let_def go_units_ascii ascii_def IsSpace_def)

lemma ex_enrolled [simp]: "enrolled ex_team (mk_id CHR ''a'') c" "enrolled ex_team (mk_id CHR ''b'') False"
  by (simp_all add: enrolled_def ex_team_content_def)

definition ex_configure :: action where
  "ex_configure = Request (Configure ''i'' [] 0 ex_team_content (ex_audit ex_admin) ''r1'')"

definition w1 :: db where
  "w1 = db0\<lparr>db_teams := [(ex_id 2, \<lparr>mr_name = ''crew'', mr_body = ex_team\<rparr>)],
     db_team_events := [(ex_id 2, (base_event (ex_env 2) 1 ''team.configure'' ''t'' (ex_audit ex_admin) ex_team)\<lparr>tev_PreviousRevision := 0\<rparr>)],
     db_requests := [((''admin/ann'', ''team-configure'', [], ''r1''),
       (receiptDigest id (JObj [(''ID'', JStr []), (''Expected'', JNum 0), (''Content'', json_team_content ex_team_content)]), RTeam ex_team))]\<rparr>"

lemma ex_configure_run: "act (ex_env 2) ex_configure db0 = Inr w1"
proof -
  have t: "\<lparr>te_ID = ex_id 2, te_Revision = 1, te_ProjectInstance = ''i'', te_Content = ex_team_content, te_CreatedAt = ''t'', te_UpdatedAt = ''t''\<rparr> = ex_team"
    by (simp add: ex_team_def)
  have n: "tt_Name ex_team_content = ''crew''" by (simp add: ex_team_content_def)
  show ?thesis
    by (simp add: ex_configure_def ConfigureTeam_def TasksEnabled_def taskMutation_def checkedTaskMutation_def ConfigureTeam_tx_def
        Let_def tb_insert_def as_def t n w1_def putTeamEvent_def)
qed

section \<open>Its members\<close>

definition ex_model :: TeamModel where
  "ex_model = \<lparr>mo_Provider = ''unknown'', mo_ID = ''unknown'', mo_Version = ''unknown'', mo_Source = ''unknown'', mo_ObservedAt = []\<rparr>"

definition ex_profile :: TeamProfile where
  "ex_profile = \<lparr>pf_Label = ''crew'', pf_Platform = ''crew'', pf_PlatformVersion = ''crew'', pf_Model = ex_model, pf_Capabilities = []\<rparr>"

lemma unknown_text [simp]: "taskText ''unknown'' 256 True = None"
  by (rule taskText_plain) (simp_all add: plain_def)

lemma ex_profile_ok [simp]: "profile_validate e ex_profile = Inr ex_profile"
  by (simp add: profile_validate_def Let_def ex_profile_def ex_model_def normal_model_def model_default_def)

definition ex_session :: "nat \<Rightarrow> TaskActor \<Rightarrow> string \<Rightarrow> int \<Rightarrow> TeamSession" where
  "ex_session n a role g = \<lparr>se_ID = ex_id n, se_TeamID = ex_id 2, se_UserID = ac_UserID a, se_TokenID = ac_TokenID a, se_Generation = 1,
     se_CoordinatorGeneration = g, se_Role = role, se_State = ''active'', se_Availability = ''available'', se_ProfileRevision = 1,
     se_Profile = observed ex_profile ''t'', se_CreatedAt = ''t'', se_LastSeenAt = ''t''\<rparr>"

lemma ex_session_sel [simp]: "se_ID (ex_session n a role g) = ex_id n" "se_TeamID (ex_session n a role g) = ex_id 2"
  "se_UserID (ex_session n a role g) = ac_UserID a" "se_TokenID (ex_session n a role g) = ac_TokenID a"
  "se_Generation (ex_session n a role g) = 1" "se_CoordinatorGeneration (ex_session n a role g) = g"
  "se_Role (ex_session n a role g) = role" "se_State (ex_session n a role g) = ''active''"
  "se_Availability (ex_session n a role g) = ''available''" "se_ProfileRevision (ex_session n a role g) = 1"
  by (simp_all add: ex_session_def)

lemma ex_session_slot [simp]: "(ex_session n a role g)\<lparr>se_CoordinatorGeneration := k\<rparr> = ex_session n a role k"
  by (simp add: ex_session_def)

definition ex_session_row :: "TeamSession \<Rightarrow> session_row" where
  "ex_session_row s = \<lparr>sr_team_id = se_TeamID s, sr_role = se_Role s, sr_state = se_State s, sr_body = s\<rparr>"

lemma ex_session_row_sel [simp]: "sr_team_id (ex_session_row s) = se_TeamID s" "sr_role (ex_session_row s) = se_Role s"
  "sr_state (ex_session_row s) = se_State s" "sr_body (ex_session_row s) = s"
  by (simp_all add: ex_session_row_def)

definition ex_join :: "string \<Rightarrow> TaskActor \<Rightarrow> string \<Rightarrow> action" where
  "ex_join role a key = Request (Join (ex_id 2) role ex_profile (ex_audit a) key 100)"

definition ex_join_receipt :: "nat \<Rightarrow> string \<Rightarrow> TaskActor \<Rightarrow> string \<Rightarrow> int \<Rightarrow> string \<Rightarrow> request_key \<times> string \<times> reply" where
  "ex_join_receipt n k a role g key = ((k, ''team.join'', ex_id 2, key),
     receiptDigest id (JObj [(''Role'', JStr role), (''Profile'', json_profile ex_profile)]), RSession (ex_session n a role g))"

definition ex_join_event :: "nat \<Rightarrow> TaskActor \<Rightarrow> string \<Rightarrow> int \<Rightarrow> string \<times> TeamEvent" where
  "ex_join_event n a role g = (ex_id 2, (base_event (ex_env n) 3 ''team.join'' ''t'' (ex_audit a) ex_team)
     \<lparr>tev_Session := Some (ex_session n a role g), tev_PreviousGeneration := 0\<rparr>)"

definition w2 :: db where
  "w2 = w1\<lparr>db_sessions := [(ex_id 3, ex_session_row (ex_session 3 ex_user ''coordinator'' 1))], db_control := [(ex_id 2, 1)],
     db_team_events := db_team_events w1 @ [ex_join_event 3 ex_user ''coordinator'' 1],
     db_requests := db_requests w1 @ [ex_join_receipt 3 ex_user_key ex_user ''coordinator'' 1 ''r2'']\<rparr>"

definition w3 :: db where
  "w3 = w2\<lparr>db_sessions := db_sessions w2 @ [(ex_id 4, ex_session_row (ex_session 4 ex_worker ''worker'' 0))],
     db_team_events := db_team_events w2 @ [ex_join_event 4 ex_worker ''worker'' 0],
     db_requests := db_requests w2 @ [ex_join_receipt 4 ex_worker_key ex_worker ''worker'' 0 ''r3'']\<rparr>"

lemma ex_session_eq:
  "\<lparr>se_ID = ex_id n, se_TeamID = ex_id 2, se_UserID = ac_UserID a, se_TokenID = ac_TokenID a, se_Generation = 1,
     se_CoordinatorGeneration = g, se_Role = role, se_State = ''active'', se_Availability = ''available'', se_ProfileRevision = 1,
     se_Profile = observed ex_profile ''t'', se_CreatedAt = ''t'', se_LastSeenAt = ''t''\<rparr> = ex_session n a role g"
  "\<lparr>sr_team_id = ex_id 2, sr_role = role, sr_state = ''active'', sr_body = ex_session n a role g\<rparr> = ex_session_row (ex_session n a role g)"
  by (simp_all add: ex_session_def ex_session_row_def)

lemma ex_user_keys_apart [simp]: "ex_user_key \<noteq> ''admin/ann''" "ex_worker_key \<noteq> ''admin/ann''" "ex_worker_key \<noteq> ex_user_key"
  "''admin/ann'' \<noteq> ex_user_key" "''admin/ann'' \<noteq> ex_worker_key" "ex_user_key \<noteq> ex_worker_key"
  by (simp_all add: ex_user_key_def ex_worker_key_def mk_id_def)

lemmas ex_join_defs = ex_join_def JoinTeamLimit_def checkedTaskMutation_def JoinTeam_tx_def requireTeamMember_def TasksEnabled_def
  readTeam_def saveTeamSession_def putTeamSession_def putTeamEvent_def tb_insert_def as_def Let_def nextCoordinatorGeneration_def
  control_generation_def tb_count_def tb_exists_def active_coordinator_row_def

lemma w1_sel [simp]: "db_projectID w1 = ''p''" "db_meta w1 = [(''tasks'', ''on'')]" "db_sessions w1 = []" "db_control w1 = []"
  "db_teams w1 = [(ex_id 2, \<lparr>mr_name = ''crew'', mr_body = ex_team\<rparr>)]" "db_assignments w1 = []"
  by (simp_all add: w1_def)

lemma scope_p: "db_projectID d = ''p'' \<Longrightarrow> taskScopeOK d = None"
  by (simp add: taskScopeOK_def IsReservedProject_def UserScopeProject_def)

lemma w1_receipts [simp]: "map_of (db_requests w1) (k, ''team.join'', s, q) = None"
  by (simp add: w1_def)

lemma ex_join_coordinator_run: "act (ex_env 3) (ex_join ''coordinator'' ex_user ''r2'') w1 = Inr w2"
  by (simp add: ex_join_defs scope_p ex_session_eq [where a = ex_user, simplified] w2_def ex_join_event_def ex_join_receipt_def)

lemma w2_sel [simp]: "db_projectID w2 = ''p''" "db_meta w2 = [(''tasks'', ''on'')]" "db_control w2 = [(ex_id 2, 1)]"
  "db_sessions w2 = [(ex_id 3, ex_session_row (ex_session 3 ex_user ''coordinator'' 1))]"
  "db_teams w2 = [(ex_id 2, \<lparr>mr_name = ''crew'', mr_body = ex_team\<rparr>)]" "db_assignments w2 = []"
  by (simp_all add: w2_def)

lemma w2_receipts [simp]: "map_of (db_requests w2) (ex_worker_key, op, s, q) = None"
  by (simp add: w2_def w1_def ex_join_receipt_def)

lemma ex_join_worker_run: "act (ex_env 4) (ex_join ''worker'' ex_worker ''r3'') w2 = Inr w3"
  by (simp add: ex_join_defs scope_p ex_session_eq [where a = ex_worker, simplified] w3_def ex_join_event_def ex_join_receipt_def)

section \<open>A task, offered and accepted\<close>

definition ex_job :: Task where
  "ex_job = \<lparr>tk_ID = ex_id 5, tk_Revision = 1, tk_Coordination = None, tk_Content = ex_content,
     tk_CreatedAt = ''t'', tk_UpdatedAt = ''t''\<rparr>"

lemma ex_job_sel [simp]: "tk_ID ex_job = ex_id 5" "tk_Revision ex_job = 1" "tk_Content ex_job = ex_content" "tk_Coordination ex_job = None"
  "tk_UpdatedAt ex_job = ''t''" "ex_job\<lparr>tk_Coordination := None\<rparr> = ex_job"
  by (simp_all add: ex_job_def)

definition w4 :: db where
  "w4 = w3\<lparr>db_tasks := [(ex_id 5, task_columns ex_job)],
     db_history := [((ex_id 5, 1), \<lparr>ch_Task = ex_job, ch_Actor = ex_user\<rparr>)],
     db_state_changes := [\<lparr>sc_Sequence = 1, sc_TaskID = ex_id 5, sc_Revision = 1, sc_From = [], sc_To = ''READY'', sc_At = ''t'', sc_RequiredCapability = []\<rparr>],
     db_requests := db_requests w3 @ [((ex_user_key, ''create'', [], ''r4''), (receiptDigest id (json_content ex_content), RTask ex_job))]\<rparr>"

lemma w3_sel [simp]: "db_projectID w3 = ''p''" "db_meta w3 = [(''tasks'', ''on'')]" "db_control w3 = [(ex_id 2, 1)]"
  "db_sessions w3 = [(ex_id 3, ex_session_row (ex_session 3 ex_user ''coordinator'' 1)), (ex_id 4, ex_session_row (ex_session 4 ex_worker ''worker'' 0))]"
  "db_teams w3 = [(ex_id 2, \<lparr>mr_name = ''crew'', mr_body = ex_team\<rparr>)]" "db_assignments w3 = []" "db_tasks w3 = []" "db_history w3 = []"
  "db_state_changes w3 = []" "db_managed w3 = []" "db_reservations w3 = []" "db_messages w3 = []" "db_deliveries w3 = []"
  by (simp_all add: w3_def w2_def w1_def)

lemma w3_receipts [simp]: "map_of (db_requests w3) (ex_user_key, ''create'', s, q) = None"
  by (simp add: w3_def w2_def w1_def ex_join_receipt_def)

lemma ex_create_run: "act (ex_env 5) (Request (NewTask ex_content ex_user ''r4'')) w3 = Inr w4"
proof -
  have t: "\<lparr>tk_ID = ex_id 5, tk_Revision = 1, tk_Coordination = None, tk_Content = ex_content, tk_CreatedAt = ''t'', tk_UpdatedAt = ''t''\<rparr> = ex_job"
    by (simp add: ex_job_def)
  show ?thesis
    by (simp add: CreateTask_def taskMutation_def checkedTaskMutation_def CreateTask_tx_def checkEpicAssignable_def saveTask_def
        writeTask_def Let_def tb_insert_def recordStateChange_def createRetry_def t w4_def as_def scope_p)
qed

lemma w4_sel [simp]: "db_projectID w4 = ''p''" "db_meta w4 = [(''tasks'', ''on'')]" "db_control w4 = [(ex_id 2, 1)]"
  "db_sessions w4 = [(ex_id 3, ex_session_row (ex_session 3 ex_user ''coordinator'' 1)), (ex_id 4, ex_session_row (ex_session 4 ex_worker ''worker'' 0))]"
  "db_teams w4 = [(ex_id 2, \<lparr>mr_name = ''crew'', mr_body = ex_team\<rparr>)]" "db_assignments w4 = []"
  "db_tasks w4 = [(ex_id 5, task_columns ex_job)]" "db_history w4 = [((ex_id 5, 1), \<lparr>ch_Task = ex_job, ch_Actor = ex_user\<rparr>)]"
  "db_managed w4 = []" "db_reservations w4 = []" "db_messages w4 = []" "db_deliveries w4 = []"
  by (simp_all add: w4_def w3_def w2_def w1_def)

lemma w4_readTask: "readTask (ex_id 5) w4 = Inr ex_job"
  by (simp add: readTask_def coordination_of_def task_columns_def)

definition ex_offer :: TeamOffer where
  "ex_offer = \<lparr>of_Handle = \<lparr>sh_SessionID = ex_id 3, sh_Generation = 1\<rparr>, of_CoordinatorGeneration = 1, of_TaskID = ex_id 5,
     of_ExpectedRevision = 1, of_Worker = \<lparr>sh_SessionID = ex_id 4, sh_Generation = 1\<rparr>, of_SuitabilityRationale = ''crew'',
     of_CostRationale = ''crew''\<rparr>"

definition ex_attempt :: TeamAssignment where
  "ex_attempt = \<lparr>am_ID = ex_id 6, am_TeamID = ex_id 2, am_TaskID = ex_id 5, am_State = ''OFFERED'', am_Coordinator = of_Handle ex_offer,
             am_CoordinatorGeneration = 1, am_Worker = of_Worker ex_offer, am_ProfileRevision = 1,
             am_Profile = observed ex_profile ''t'', am_TaskRevision = 1, am_Requirements = ex_content,
             am_SuitabilityRationale = ''crew'', am_CostRationale = ''crew'', am_Reason = [],
             am_CreatedAt = ''t'', am_UpdatedAt = ''t'', am_Result = None, am_Review = None, am_Recovery = None,
             am_Rebinds = [], am_RebindCount = 0\<rparr>"

lemma crew_text2 [simp]: "taskText ''crew'' 4096 True = None" "taskText ''assignment worker'' maxTaskActorName True = None"
  by (rule taskText_plain; simp add: plain_def maxTaskActorName_def)+

lemma ex_member [simp]: "requireTeamMember (ex_id 2) (member_actor ''assignment worker'' (ex_session 4 ex_worker ''worker'' 0)) False w4 = Inr ex_team"
  by (simp add: requireTeamMember_def member_actor_def actor_key_def TasksEnabled_def readTeam_def)

lemma w4_receipts [simp]: "map_of (db_requests w4) (ex_user_key, ''team.assignment.offer'', s, q) = None"
  by (simp add: w4_def w3_def w2_def w1_def ex_join_receipt_def)

lemma ex_bound [simp]: "boundTeamSession (ex_id 2) (ex_id 3) ex_user w4 = Inr (ex_team, ex_session 3 ex_user ''coordinator'' 1)"
  by (simp add: boundTeamSession_def readTeamSession_def requireTeamMember_def TasksEnabled_def readTeam_def)

lemma ex_current [simp]: "currentCoordinator (ex_id 2) \<lparr>sh_SessionID = ex_id 3, sh_Generation = 1\<rparr> 1 ex_user w4
    = Inr (ex_team, ex_session 3 ex_user ''coordinator'' 1)"
  by (simp add: currentCoordinator_def currentMessageSession_def)

lemma ex_worker_ok [simp]: "assignmentWorker (ex_id 2) \<lparr>sh_SessionID = ex_id 4, sh_Generation = 1\<rparr> (Some (\<lambda>_. None)) w4
    = Inr (ex_session 4 ex_worker ''worker'' 0)"
  by (simp add: assignmentWorker_def readTeamSession_def)

lemma ex_ready [simp]: "assignmentReady (ex_id 5) 1 w4 = Inr ex_job"
  by (simp add: assignmentReady_def w4_readTask rejectActiveReservation_def)

lemma ex_attempt_eq: "\<lparr>am_ID = ex_id 6, am_TeamID = ex_id 2, am_TaskID = ex_id 5, am_State = ''OFFERED'', am_Coordinator = \<lparr>sh_SessionID = ex_id 3, sh_Generation = 1\<rparr>,
             am_CoordinatorGeneration = 1, am_Worker = \<lparr>sh_SessionID = ex_id 4, sh_Generation = 1\<rparr>, am_ProfileRevision = 1,
             am_Profile = se_Profile (ex_session 4 ex_worker ''worker'' 0), am_TaskRevision = 1, am_Requirements = ex_content,
             am_SuitabilityRationale = ''crew'', am_CostRationale = ''crew'', am_Reason = [],
             am_CreatedAt = ''t'', am_UpdatedAt = ''t'', am_Result = None, am_Review = None, am_Recovery = None,
             am_Rebinds = [], am_RebindCount = 0\<rparr> = ex_attempt"
  by (simp add: ex_attempt_def ex_offer_def ex_session_def)

lemma ex_attempt_sel [simp]: "am_ID ex_attempt = ex_id 6" "am_TeamID ex_attempt = ex_id 2" "am_TaskID ex_attempt = ex_id 5"
  "am_State ex_attempt = ''OFFERED''" "am_Worker ex_attempt = \<lparr>sh_SessionID = ex_id 4, sh_Generation = 1\<rparr>" "am_Reason ex_attempt = []"
  "am_TaskRevision ex_attempt = 1"
  by (simp_all add: ex_attempt_def ex_offer_def)

text \<open>What storing an attempt did besides: one message, its deliveries, one audit event.\<close>

definition w5 :: "TeamMessage \<Rightarrow> (string \<times> TeamEvent) list \<Rightarrow> delivery_row \<Rightarrow> db" where
  "w5 m ev dl = w4\<lparr>db_managed := [(ex_id 5, \<lparr>gr_team_id = ex_id 2, gr_managed = True\<rparr>)], db_assignments := [(ex_id 6, arow ex_attempt)],
     db_messages := [\<lparr>mw_id = ex_id 6, mw_team_id = ex_id 2, mw_body = m\<rparr>], db_deliveries := [((ex_id 6, ex_id 4), dl)],
     db_team_events := ev, db_requests := db_requests w4 @ [((ex_user_key, ''team.assignment.offer'', ex_id 2, ''r5''),
       (receiptDigest id (json_offer ex_offer), RAssignment ex_attempt))]\<rparr>"

lemmas ex_save_defs = Let_def tb_exists_def saveTeamAssignment_def put_assignment_def readTask_def coordination_of_def
  reserved_attempt_def task_columns_def lifecycleMessage_def put_message_def activeCoordinatorID_def active_coordinator_row_def
  readTeamSession_def may_receive_def tb_insert_def putTeamEvent_def arow_def

lemma ex_offer_tx: "\<exists>m ev dl. ms_ID m = ex_id 6 \<and> dl_acked_at dl = [] \<and> OfferTeamAssignment_tx (ex_env 6) (ex_id 2) ex_offer (ex_audit ex_user) (Some (\<lambda>_. None)) w4 = Inr (ex_attempt,
    w4\<lparr>db_managed := [(ex_id 5, \<lparr>gr_team_id = ex_id 2, gr_managed = True\<rparr>)], db_assignments := [(ex_id 6, arow ex_attempt)],
       db_messages := [\<lparr>mw_id = ex_id 6, mw_team_id = ex_id 2, mw_body = m\<rparr>], db_deliveries := [((ex_id 6, ex_id 4), dl)], db_team_events := ev\<rparr>)"
  by (simp add: OfferTeamAssignment_tx_def ex_offer_def ex_attempt_eq ex_save_defs) (rule exI, rule conjI [rotated], rule exI, rule exI, rule conjI [rotated], rule refl, simp_all)

definition ex_offer_action :: action where
  "ex_offer_action = Request (Offer (ex_id 2) ex_offer (ex_audit ex_user) ''r5'' (Some (\<lambda>_. None)))"

lemma r5_text [simp]: "taskText ''r5'' MaxTaskKeyBytes True = None" "taskText ''r6'' MaxTaskKeyBytes True = None"
  by (rule taskText_plain; simp add: plain_def MaxTaskKeyBytes_def)+

lemma ex_offer_run: "\<exists>m ev dl. ms_ID m = ex_id 6 \<and> dl_acked_at dl = [] \<and> act (ex_env 6) ex_offer_action w4 = Inr (w5 m ev dl)"
proof -
  obtain m ev dl where i: "ms_ID m = ex_id 6" "dl_acked_at dl = []" and tx: "OfferTeamAssignment_tx (ex_env 6) (ex_id 2) ex_offer (ex_audit ex_user) (Some (\<lambda>_. None)) w4 = Inr (ex_attempt,
    w4\<lparr>db_managed := [(ex_id 5, \<lparr>gr_team_id = ex_id 2, gr_managed = True\<rparr>)], db_assignments := [(ex_id 6, arow ex_attempt)],
       db_messages := [\<lparr>mw_id = ex_id 6, mw_team_id = ex_id 2, mw_body = m\<rparr>], db_deliveries := [((ex_id 6, ex_id 4), dl)], db_team_events := ev\<rparr>)"
    using ex_offer_tx by blast
  have o: "of_TaskID ex_offer = ex_id 5" "of_ExpectedRevision ex_offer = 1" "of_SuitabilityRationale ex_offer = ''crew''"
    "of_CostRationale ex_offer = ''crew''" "of_Handle ex_offer = \<lparr>sh_SessionID = ex_id 3, sh_Generation = 1\<rparr>" by (simp_all add: ex_offer_def)
  have "act (ex_env 6) ex_offer_action w4 = Inr (w5 m ev dl)"
    by (simp add: ex_offer_action_def OfferTeamAssignment_def o checkedTaskMutation_def rejectActiveReservation_def tx as_def
        tb_insert_def scope_p w5_def)
  with i show ?thesis by blast
qed

lemma w5_sel [simp]: "db_projectID (w5 m ev dl) = ''p''" "db_meta (w5 m ev dl) = [(''tasks'', ''on'')]" "db_control (w5 m ev dl) = [(ex_id 2, 1)]"
  "db_sessions (w5 m ev dl) = [(ex_id 3, ex_session_row (ex_session 3 ex_user ''coordinator'' 1)), (ex_id 4, ex_session_row (ex_session 4 ex_worker ''worker'' 0))]"
  "db_teams (w5 m ev dl) = [(ex_id 2, \<lparr>mr_name = ''crew'', mr_body = ex_team\<rparr>)]" "db_assignments (w5 m ev dl) = [(ex_id 6, arow ex_attempt)]"
  "db_tasks (w5 m ev dl) = [(ex_id 5, task_columns ex_job)]" "db_history (w5 m ev dl) = [((ex_id 5, 1), \<lparr>ch_Task = ex_job, ch_Actor = ex_user\<rparr>)]"
  "db_managed (w5 m ev dl) = [(ex_id 5, \<lparr>gr_team_id = ex_id 2, gr_managed = True\<rparr>)]" "db_reservations (w5 m ev dl) = []"
  "db_messages (w5 m ev dl) = [\<lparr>mw_id = ex_id 6, mw_team_id = ex_id 2, mw_body = m\<rparr>]" "db_deliveries (w5 m ev dl) = [((ex_id 6, ex_id 4), dl)]"
  "db_state_changes (w5 m ev dl) = db_state_changes w4"
  by (simp_all add: w5_def)

lemma w5_receipts [simp]: "map_of (db_requests (w5 m ev dl)) (ex_worker_key, ''team.assignment.accept'', s, q) = None"
  by (simp add: w5_def w4_def w3_def w2_def w1_def ex_join_receipt_def)

definition ex_accept :: TeamAssignmentCommand where
  "ex_accept = \<lparr>ax_Handle = \<lparr>sh_SessionID = ex_id 4, sh_Generation = 1\<rparr>, ax_CoordinatorGeneration = 0, ax_Reason = []\<rparr>"

lemma ex_accept_sel [simp]: "ax_Handle ex_accept = \<lparr>sh_SessionID = ex_id 4, sh_Generation = 1\<rparr>" "ax_CoordinatorGeneration ex_accept = 0"
  "ax_Reason ex_accept = []" by (simp_all add: ex_accept_def)

definition ex_accept_action :: action where
  "ex_accept_action = Request (Assignment (ex_id 2) (ex_id 6) ''accept'' ex_accept (ex_audit ex_worker) ''r6'' (Some (\<lambda>_. None)))"

definition ex_running :: TeamAssignment where
  "ex_running = ex_attempt\<lparr>am_State := ''RUNNING''\<rparr>"

lemma ex_running_sel [simp]: "am_State ex_running = ''RUNNING''" "am_ID ex_running = ex_id 6" "am_TaskID ex_running = ex_id 5"
  "am_TeamID ex_running = ex_id 2" "am_Worker ex_running = \<lparr>sh_SessionID = ex_id 4, sh_Generation = 1\<rparr>" "am_Reason ex_running = []"
  "ex_attempt\<lparr>am_State := ''RUNNING'', am_Reason := [], am_UpdatedAt := ''t''\<rparr> = ex_running"
  by (simp_all add: ex_running_def ex_attempt_def ex_offer_def)

lemma w5_bound [simp]: "boundTeamSession (ex_id 2) (ex_id 4) ex_worker (w5 m ev dl) = Inr (ex_team, ex_session 4 ex_worker ''worker'' 0)"
  by (simp add: boundTeamSession_def readTeamSession_def requireTeamMember_def TasksEnabled_def readTeam_def)

lemma w5_member [simp]: "requireTeamMember (ex_id 2) (member_actor ''assignment worker'' (ex_session 4 ex_worker ''worker'' 0)) False (w5 m ev dl) = Inr ex_team"
  by (simp add: requireTeamMember_def member_actor_def actor_key_def TasksEnabled_def readTeam_def)

lemma w5_worker_ok [simp]: "assignmentWorker (ex_id 2) \<lparr>sh_SessionID = ex_id 4, sh_Generation = 1\<rparr> (Some (\<lambda>_. None)) (w5 m ev dl)
    = Inr (ex_session 4 ex_worker ''worker'' 0)"
  by (simp add: assignmentWorker_def readTeamSession_def)

definition ex_kept :: Task where
  "ex_kept = ex_job\<lparr>tk_Coordination := Some \<lparr>co_TeamID = ex_id 2, co_AttemptID = ex_id 6, co_State = ''OFFERED''\<rparr>\<rparr>"

lemma w5_readTask: "readTask (ex_id 5) (w5 m ev dl) = Inr ex_kept"
  by (simp add: readTask_def coordination_of_def reserved_attempt_def task_columns_def ex_kept_def reserved_state_def)

lemma ex_kept_sel [simp]: "tk_ID ex_kept = ex_id 5" "tk_Revision ex_kept = 1" "tk_Content ex_kept = ex_content"
  by (simp_all add: ex_kept_def)

lemma w5_ready [simp]: "assignmentReady (ex_id 5) 1 (w5 m ev dl) = Inr ex_kept"
  by (simp add: assignmentReady_def w5_readTask rejectActiveReservation_def)

lemma w4_state_changes: "db_state_changes w4 = [\<lparr>sc_Sequence = 1, sc_TaskID = ex_id 5, sc_Revision = 1, sc_From = [], sc_To = ''READY'', sc_At = ''t'', sc_RequiredCapability = []\<rparr>]"
  by (simp add: w4_def)

lemma ex_accept_tx: "\<exists>d'. ChangeTeamAssignment_tx (ex_env 7) (ex_id 2) (ex_id 6) ''accept'' ex_accept (ex_audit ex_worker) (Some (\<lambda>_. None)) (w5 m ev dl)
      = Inr (ex_running, d') \<and> db_assignments d' = [(ex_id 6, arow ex_running)]
    \<and> db_sessions d' = db_sessions w4 \<and> (\<exists>t. db_tasks d' = [(ex_id 5, t)] \<and> tr_state t = ''IN_PROGRESS'')"
  by (simp add: w4_state_changes ChangeTeamAssignment_tx_def currentMessageSession_def readTeamAssignment_def saveTask_def rejectActiveReservation_def
      writeTask_def recordStateChange_def next_version_def ex_save_defs)

lemma ex_accept_run: "\<exists>d'. act (ex_env 7) ex_accept_action (w5 m ev dl) = Inr d' \<and> db_assignments d' = [(ex_id 6, arow ex_running)]
    \<and> db_sessions d' = db_sessions w4 \<and> (\<exists>t. db_tasks d' = [(ex_id 5, t)] \<and> tr_state t = ''IN_PROGRESS'')"
proof -
  obtain d1 where tx: "ChangeTeamAssignment_tx (ex_env 7) (ex_id 2) (ex_id 6) ''accept'' ex_accept (ex_audit ex_worker) (Some (\<lambda>_. None)) (w5 m ev dl)
      = Inr (ex_running, d1)" and d1: "db_assignments d1 = [(ex_id 6, arow ex_running)]" "db_sessions d1 = db_sessions w4"
      "\<exists>t. db_tasks d1 = [(ex_id 5, t)] \<and> tr_state t = ''IN_PROGRESS''"
    using ex_accept_tx by blast
  have rq: "db_requests d1 = db_requests (w5 m ev dl)" by (rule grows_requests [OF ChangeTeamAssignment_tx_grows [OF tx]])
  show ?thesis
    by (simp add: ex_accept_action_def ChangeTeamAssignment_def checkedTaskMutation_def as_def scope_p bound_check_def tx tb_insert_def rq d1)
qed

section \<open>The states are reachable\<close>

lemma w_reachable: "reachable db0" "reachable w1" "reachable w2" "reachable w3" "reachable w4" "\<exists>m ev dl. reachable (w5 m ev dl)"
  "\<exists>m ev dl. reachable (w5 m ev dl) \<and> ms_ID m = ex_id 6 \<and> dl_acked_at dl = []"
proof -
  have "new_hub ''p'' [(''tasks'', ''on'')] = db0" by (simp add: new_hub_def db0_def)
  with reachable.start [of "''p''" "[(''tasks'', ''on'')]"] show r0: "reachable db0" by metis
  show r1: "reachable w1" by (rule reachable.acted [OF r0 _ ex_configure_run]) (simp add: new_ids_def)
  show r2: "reachable w2" by (rule reachable.acted [OF r1 _ ex_join_coordinator_run]) (simp add: new_ids_def)
  show r3: "reachable w3" by (rule reachable.acted [OF r2 _ ex_join_worker_run]) (simp add: new_ids_def)
  show r4: "reachable w4" by (rule reachable.acted [OF r3 _ ex_create_run]) (simp add: new_ids_def)
  from ex_offer_run obtain m ev dl where i: "ms_ID m = ex_id 6" "dl_acked_at dl = []"
    and r: "act (ex_env 6) ex_offer_action w4 = Inr (w5 m ev dl)" by blast
  have "reachable (w5 m ev dl)" by (rule reachable.acted [OF r4 _ r]) (simp add: new_ids_def)
  with i show "\<exists>m ev dl. reachable (w5 m ev dl) \<and> ms_ID m = ex_id 6 \<and> dl_acked_at dl = []" by blast
  then show "\<exists>m ev dl. reachable (w5 m ev dl)" by blast
qed

lemma ex_running_reachable: "\<exists>d. reachable d \<and> db_assignments d = [(ex_id 6, arow ex_running)] \<and> db_sessions d = db_sessions w4
    \<and> (\<exists>t. db_tasks d = [(ex_id 5, t)] \<and> tr_state t = ''IN_PROGRESS'')"
proof -
  from w_reachable(6) obtain m ev dl where r5: "reachable (w5 m ev dl)" by blast
  from ex_accept_run obtain d' where r: "act (ex_env 7) ex_accept_action (w5 m ev dl) = Inr d'"
    and d': "db_assignments d' = [(ex_id 6, arow ex_running)]" "db_sessions d' = db_sessions w4"
      "\<exists>t. db_tasks d' = [(ex_id 5, t)] \<and> tr_state t = ''IN_PROGRESS''" by blast
  have "reachable d'" by (rule reachable.acted [OF r5 _ r]) (simp add: new_ids_def)
  with d' show ?thesis by blast
qed

end
