(* ===== verification/HoldProps.thy ===== *)
theory HoldProps
  imports LedgerProps DependencyProps ExamplesTeam
begin

text \<open>
  The reservation ledger under the whole hub: a hold is exclusive for both entries that claim, and a
  command under a fence that has passed is refused for ever, whatever the hub is asked in between.
\<close>

section \<open>Claims of a held task\<close>







section \<open>Fences\<close>

text \<open>The contract once more: what counts is that the fence has passed.\<close>

context fenced
begin

lemma passed_refused:
  assumes "f < fence s" "later s s'" "token c = Some f"
  shows "exec c s' = None"
proof (rule ccontr)
  assume "exec c s' \<noteq> None"
  then obtain s2 where "exec c s' = Some s2" by blast
  from current [OF this assms(3)] later_fence [OF assms(2)] assms(1) show False by linarith
qed

end

text \<open>No step of the hub lowers a fence: the ledger's events of a task are numbered by its fences, and
  the events only grow.\<close>

lemma fence_is_count:
  "ledger_ok d \<Longrightarrow> fence_of d tid = int (length (filter (\<lambda>ev. re_task_id ev = tid) (db_res_events d)))"
proof -
  assume ok: "ledger_ok d"
  then have "map re_fence (filter (\<lambda>ev. re_task_id ev = tid) (db_res_events d)) = [1..fence_of d tid]" by (simp add: ledger_ok_def)
  then have "length (filter (\<lambda>ev. re_task_id ev = tid) (db_res_events d)) = length [1..fence_of d tid]" by (metis length_map)
  with fence_of_bounds [OF ok, of tid] show ?thesis by simp
qed

lemma hub_steps_fence:
  assumes "team_inv d" "hub_step\<^sup>*\<^sup>* d d'"
  shows "fence_of d tid \<le> fence_of d' tid"
proof -
  have "team_inv d'" by (rule hub_steps_team_inv [OF assms(2,1)])
  then have ok: "ledger_ok d" "ledger_ok d'" using assms(1) team_invD(1) by (auto simp: ledger_inv_def)
  have "prefix (db_res_events d) (db_res_events d')" using moves_rtrancl_log_grows [OF hub_steps_moves [OF assms(2)]] by (simp add: log_grows_def)
  then obtain new where "db_res_events d' = db_res_events d @ new" by (auto simp: prefix_def)
  then show ?thesis by (simp add: fence_is_count [OF ok(1)] fence_is_count [OF ok(2)])
qed

text \<open>The task an action's ledger command is for, the fence it names, the receipt's slot beside the actor,
  and what it answers.\<close>

fun ledger_task :: "action \<Rightarrow> string option" where
  "ledger_task (Reserve op i a b key co f) = Some (ri_TaskID i)"
| "ledger_task (Reclaim op i x a key f) = Some (ri_TaskID i)"
| "ledger_task (Claim i a b key co v r h) = Some (ri_TaskID i)"
| "ledger_task _ = None"

fun ledger_names :: "action \<Rightarrow> (string \<times> int) option" where
  "ledger_names (Reserve op i a b key co f) = (if op = ReservationClaim then None else Some (ri_TaskID i, ri_Fence i))"
| "ledger_names (Reclaim op i x a key f) = Some (ri_TaskID i, ri_Fence i)"
| "ledger_names _ = None"

fun ledger_slot :: "action \<Rightarrow> string \<times> string \<times> string" where
  "ledger_slot (Reserve op i a b key co f) = (op, ri_TaskID i, key)"
| "ledger_slot (Reclaim op i x a key f) = (op, ri_TaskID i, key)"
| "ledger_slot _ = ([], [], [])"

fun ledger_answer :: "env \<Rightarrow> action \<Rightarrow> db \<Rightarrow> err + (TaskReservationOutcome \<times> db)" where
  "ledger_answer e (Reserve op i a b key co f) d = ApplyTaskReservation e op i a b key co f d"
| "ledger_answer e (Reclaim op i x a key f) d = RecoverTaskReservation e op i x a key f d"
| "ledger_answer e _ d = Inl (ErrOther ''not a ledger command'')"

lemma run_command_passes:
  assumes "board_ok d" "run_command c d = Inr (res, d1)" "d' = d1\<lparr>db_res_requests := t\<rparr>"
  shows "fence_of d' (ri_TaskID (command_input c)) = fence_of d (ri_TaskID (command_input c)) + 1"
proof -
  have "fence_of d' = fence_of d1" by (simp add: assms(3) fence_of_def fun_eq_iff)
  with run_command_fence [OF assms(1,2)] show ?thesis by simp
qed

lemma ledger_act_passes:
  assumes inv: "team_inv d" and t: "ledger_task a = Some tid" and r: "act e a d = Inr d'" and n: "d' \<noteq> d"
  shows "team_inv d' \<and> fence_of d' tid = fence_of d tid + 1"
proof (cases a)
  case (Reserve op i ac b key co f)
  with r obtain out where o: "ApplyTaskReservation e op i ac b key co f d = Inr (out, d')" by (auto simp: tx_simps split: prod.splits)
  from ApplyTaskReservation_D(4) [OF o] show ?thesis
  proof (cases rule: reservationMutation_cases)
    case (fresh who res d1 tab row)
    have "run_command (Member e op i ac b co) d = Inr (res, d1)" using fresh(2) by simp
    from run_command_passes [OF team_invD(7) [OF inv] this fresh(11)] show ?thesis
      using ApplyTaskReservation_team [OF inv o] t Reserve by simp
  qed (use n in simp)
next
  case (Reclaim op i x ac key f)
  with r obtain out where o: "RecoverTaskReservation e op i x ac key f d = Inr (out, d')" by (auto simp: tx_simps split: prod.splits)
  from RecoverTaskReservation_D(2) [OF o] show ?thesis
  proof (cases rule: reservationMutation_cases)
    case (fresh who res d1 tab row)
    have "run_command (Recovery e op i x ac) d = Inr (res, d1)" using fresh(2) by simp
    from run_command_passes [OF team_invD(7) [OF inv] this fresh(11)] show ?thesis
      using RecoverTaskReservation_team [OF inv o] t Reclaim by simp
  qed (use n in simp)
next
  case (Claim i ac b key co v rn h)
  with r have "act e (Claim i ac b key co v rn h) d = Inr d'" by simp
  then show ?thesis
  proof (cases rule: act_Claim_cases)
    case (ran out p)
    note inv' = ClaimTaskReservation_team [OF inv ran]
    from ran show ?thesis
    proof (cases rule: ClaimTaskReservation_cases)
      case (fresh res d1 tk ev tab)
      from commit_claim_D(5) [OF fresh(2)] obtain row where "moved ReservationClaim (ri_TaskID i) row d d1" by blast
      from moved_fence [OF this] have "fence_of d1 (ri_TaskID i) = fence_of d (ri_TaskID i) + 1" by simp
      with inv' show ?thesis using t Claim by (simp add: fresh(3) fence_of_def)
    qed (use n in simp)
  qed (use n in simp)
qed (use t in simp_all)

text \<open>A command that names a fence the ledger has left behind can only be a replay.\<close>

lemma passed_command_replays:
  assumes ok: "board_ok d" and c: "ledger_names c = Some (tid, f)" "ledger_answer e c d = Inr (out, d')"
    and refused: "\<And>k. command_token k = Some f \<Longrightarrow> exec_on tid k d = None"
  shows "d' = d \<and> (\<exists>who saved. map_of (db_res_requests d) (who, ledger_slot c) = Some saved \<and> out = (rq_result saved)\<lparr>ou_Replayed := True\<rparr>)"
proof (cases c)
  case (Reserve op i ac b key co au)
  with c have o: "ApplyTaskReservation e op i ac b key co au d = Inr (out, d')" and i: "ri_TaskID i = tid" "ri_Fence i = f" "op \<noteq> ReservationClaim"
    by (auto split: if_splits)
  from ApplyTaskReservation_D(4) [OF o] show ?thesis
  proof (cases rule: reservationMutation_cases)
    case (fresh who res d1 tab row)
    then have "exec_on tid (Member e op i ac b co) d = Some d1" using ok i by (simp add: exec_on_def)
    with refused [of "Member e op i ac b co"] i show ?thesis by simp
  next
    case (replay who saved)
    then show ?thesis using Reserve by auto
  qed
next
  case (Reclaim op i x ac key au)
  with c have o: "RecoverTaskReservation e op i x ac key au d = Inr (out, d')" and i: "ri_TaskID i = tid" "ri_Fence i = f" by auto
  from RecoverTaskReservation_D(2) [OF o] show ?thesis
  proof (cases rule: reservationMutation_cases)
    case (fresh who res d1 tab row)
    then have "exec_on tid (Recovery e op i x ac) d = Some d1" using ok i by (simp add: exec_on_def)
    with refused [of "Recovery e op i x ac"] i show ?thesis by simp
  next
    case (replay who saved)
    then show ?thesis using Reclaim by auto
  qed
qed (use c in simp_all)

text \<open>C3: a stale fence is refused for ever. Once a ledger command on a task has taken effect in a
  state the hub reached, a claim in the project, a claim through the registry, a transfer, update,
  release, finalize or recovery, and whatever the hub is asked afterwards, a transfer, update, release,
  finalize or recovery that names the fence it ran under, or an older one, is refused, or it is the
  retry of a command that ran before: the answer is the one stored in the receipt of its key, and
  nothing is written.\<close>

theorem stale_fence_refused_for_ever:
  assumes "reachable d" "ledger_task a = Some tid" "act e a d = Inr d1" "d1 \<noteq> d" "hub_step\<^sup>*\<^sup>* d1 d2"
    and "ledger_names c = Some (tid, f)" "f \<le> fence_of d tid" "ledger_answer e' c d2 = Inr (out, d3)"
  shows "d3 = d2 \<and> (\<exists>who saved. map_of (db_res_requests d2) (who, ledger_slot c) = Some saved \<and> out = (rq_result saved)\<lparr>ou_Replayed := True\<rparr>)"
proof -
  note P = ledger_act_passes [OF reachable_team_inv [OF assms(1)] assms(2-4)]
  have "ledger.later tid d1 d2"
    by (rule ledger.later.environment [OF ledger.later.refl]) (use hub_steps_fence [OF _ assms(5)] P in blast)
  moreover have "f < fence_of d1 tid" using P assms(7) by simp
  ultimately have "exec_on tid k d2 = None" if "command_token k = Some f" for k using ledger.passed_refused that by blast
  moreover have "board_ok d2" using hub_steps_team_inv [OF assms(5)] P team_invD(7) by blast
  ultimately show ?thesis using passed_command_replays [OF _ assms(6,8)] by blast
qed

lemma db3_res_requests: "db_res_requests db3 = db_res_requests db2 @ [((ex_who, ReservationFinalize, ex_id 0, ''r3''),
        \<lparr>rq_digest = reservation_digest (ex_env 3) ex_finalize None, rq_result = ex_finalized, rq_service_id = [],
         rq_proof_digest = [], rq_reservation_id = ex_id 2, rq_committed_at = ''t''\<rparr>)]"
  by (simp add: db3_def db3w_def)

text \<open>Fence 1 holds the task, and the task is finalized under it. A second finalize under fence 1 with
  a new key is refused; the first one, retried, is answered.\<close>

lemma stale_fence_refused_for_ever_witness:
  "act (ex_env 3) (Reserve ReservationFinalize ex_finalize ex_user ex_binding ''r3'' None (Some None)) db2 = Inr db3 \<and> ri_Fence ex_finalize = 1
   \<and> \<not> succeeds (ApplyTaskReservation (ex_env 4) ReservationFinalize ex_finalize ex_user ex_binding ''r9'' None (Some None) db3)"
proof (intro conjI)
  show a: "act (ex_env 3) (Reserve ReservationFinalize ex_finalize ex_user ex_binding ''r3'' None (Some None)) db2 = Inr db3"
    by (simp add: ex_finalize_run)
  show f: "ri_Fence ex_finalize = 1" by simp
  have n: "new_ids (ex_env n) db0" "new_ids (ex_env n) db1" for n by (simp_all add: new_ids_def)
  have "act (ex_env 0) (Request (NewTask ex_content ex_user ''r1'')) db0 = Inr db1" by (simp add: as_def ex_create)
  then have "reachable db1" by (rule reachable.acted [OF w_reachable(1) n(1)])
  moreover have "act (ex_env 2) (Reserve ReservationClaim ex_claim ex_user ex_binding ''r2'' None (Some None)) db1 = Inr db2"
    by (simp add: ex_claim_run)
  ultimately have r: "reachable db2" using reachable.acted n(2) by blast
  have t: "ri_TaskID ex_finalize = ex_id 0" by simp
  have d: "db3 \<noteq> db2"
  proof
    assume "db3 = db2"
    then have "length (db_res_requests db3) = length (db_res_requests db2)" by (rule arg_cong)
    then show False by (simp add: db3_res_requests)
  qed
  show "\<not> succeeds (ApplyTaskReservation (ex_env 4) ReservationFinalize ex_finalize ex_user ex_binding ''r9'' None (Some None) db3)"
  proof
    assume "succeeds (ApplyTaskReservation (ex_env 4) ReservationFinalize ex_finalize ex_user ex_binding ''r9'' None (Some None) db3)"
    then obtain out d' where o: "ApplyTaskReservation (ex_env 4) ReservationFinalize ex_finalize ex_user ex_binding ''r9'' None (Some None) db3 = Inr (out, d')"
      by (auto simp: succeeds_iff)
    obtain who saved where "map_of (db_res_requests db3) (who, ReservationFinalize, ex_id 0, ''r9'') = Some saved"
      using stale_fence_refused_for_ever [OF r _ a d rtranclp.rtrancl_refl, of "ex_id 0"
        "Reserve ReservationFinalize ex_finalize ex_user ex_binding ''r9'' None (Some None)" 1 "ex_env 4" out d'] o
      by (auto simp: t f reservation_ops fence_of_def ex_hold_row_def)
    then show False by (auto simp: db3_res_requests split: if_splits)
  qed
qed

end
