(* ===== verification/RetryLive.thy ===== *)
theory RetryLive
  imports Retry
begin

text \<open>
  A retry is answered. \<open>Retry\<close> shows that a retry that succeeds gives the stored result; here, that it
  does succeed unless a check that runs before the receipts are read refuses it.
\<close>

section \<open>Refused before the receipts are read\<close>

text \<open>The call gives \<open>x\<close> and changes nothing, or its refusal is the same whatever receipts are stored.\<close>

definition answers :: "(db \<Rightarrow> err + ('a \<times> db)) \<Rightarrow> 'a \<Rightarrow> db \<Rightarrow> bool" where
  "answers f x d \<longleftrightarrow> f d = Inr (x, d) \<or> (\<exists>er. \<forall>q. f (d\<lparr>db_requests := q\<rparr>) = Inl er)"

lemma answers_Inl: "answers (\<lambda>_. Inl er) x d"
  by (simp add: answers_def)

lemma answers_as: "answers f x d \<Longrightarrow> answers (\<lambda>d. as g (f d)) (g x) d"
  by (auto simp: answers_def as_def)

lemma answers_if:
  "\<lbrakk>\<And>q. b (d\<lparr>db_requests := q\<rparr>) = b d; b d \<Longrightarrow> answers f x d; \<not> b d \<Longrightarrow> answers g x d\<rbrakk>
    \<Longrightarrow> answers (\<lambda>d. if b d then f d else g d) x d"
  by (cases "b d") (simp_all add: answers_def)

lemma answers_option:
  "\<lbrakk>\<And>q. v (d\<lparr>db_requests := q\<rparr>) = v d; v d = None \<Longrightarrow> answers f x d; \<And>y. v d = Some y \<Longrightarrow> answers (g y) x d\<rbrakk>
    \<Longrightarrow> answers (\<lambda>d. case v d of None \<Rightarrow> f d | Some y \<Rightarrow> g y d) x d"
  by (cases "v d") (simp_all add: answers_def)

lemma answers_sum:
  "\<lbrakk>\<And>z. v = Inl z \<Longrightarrow> answers (f z) x d; \<And>y. v = Inr y \<Longrightarrow> answers (g y) x d\<rbrakk>
    \<Longrightarrow> answers (\<lambda>d. case v of Inl z \<Rightarrow> f z d | Inr y \<Rightarrow> g y d) x d"
  by (cases v) (simp_all add: answers_def)

text \<open>The wrapper, with the receipt stored and a check that does not read receipts.\<close>

lemma answers_checked:
  assumes "receipt_of d a op scope key = Some (receiptDigest (e_sha e) input, wr x)" "rd (wr x) = Some x"
    and "\<And>q. check (d\<lparr>db_requests := q\<rparr>) = check d"
  shows "answers (checkedTaskMutation e a op scope key input check wr rd fn) x d"
proof -
  have s: "taskScopeOK (d\<lparr>db_requests := q\<rparr>) = taskScopeOK d" for q by (simp add: taskScopeOK_def)
  show ?thesis
    using assms(1,2) unfolding answers_def checkedTaskMutation_def assms(3) s
    by (auto simp: receipt_of_def split: option.splits sum.splits)
qed

section \<open>The checks\<close>

text \<open>No check reads the receipts.\<close>

lemma checks_blind [simp]:
  "taskScopeOK (d\<lparr>db_requests := q\<rparr>) = taskScopeOK d" "TasksEnabled (d\<lparr>db_requests := q\<rparr>) = TasksEnabled d"
  "rejectActiveReservation tid (d\<lparr>db_requests := q\<rparr>) = rejectActiveReservation tid d"
  "task_managed tid (d\<lparr>db_requests := q\<rparr>) = task_managed tid d"
  "readTeam team (d\<lparr>db_requests := q\<rparr>) = readTeam team d"
  "readTeamSession team sid (d\<lparr>db_requests := q\<rparr>) = readTeamSession team sid d"
  by (simp_all add: taskScopeOK_def TasksEnabled_def rejectActiveReservation_def task_managed_def readTeam_def readTeamSession_def)

lemma member_blind [simp]: "requireTeamMember team a b (d\<lparr>db_requests := q\<rparr>) = requireTeamMember team a b d"
  by (simp add: requireTeamMember_def)

lemma bound_blind [simp]: "boundTeamSession team sid a (d\<lparr>db_requests := q\<rparr>) = boundTeamSession team sid a d"
  by (auto simp: boundTeamSession_def split: sum.splits)

lemma wrapped_checks_blind [simp]:
  "generic_write_check tid (d\<lparr>db_requests := q\<rparr>) = generic_write_check tid d"
  "bound_check team sid au (d\<lparr>db_requests := q\<rparr>) = bound_check team sid au d"
  "operator_check team (d\<lparr>db_requests := q\<rparr>) = operator_check team d"
  by (simp_all add: generic_write_check_def bound_check_def operator_check_def)

lemma handoff_blind [simp]: "handoff_check team c au (d\<lparr>db_requests := q\<rparr>) = handoff_check team c au d"
  by (simp add: handoff_check_def)

section \<open>Every request\<close>

lemmas answer_rules = answers_as answers_if answers_option answers_sum answers_Inl

lemma receipt_answers:
  assumes "remembered (e_sha e) r d = Some x" "serve e0 r d0 = Inr (x, d1)"
  shows "answers (serve e r) x d"
proof -
  have rc: "case receipt_key r of (a, op, scope, key) \<Rightarrow> receipt_of d a op scope key = Some (receiptDigest (e_sha e) (receipt_input r), x)"
    using assms(1) by (simp add: remembered_Some)
  show ?thesis
  proof (cases r)
    case (NewTask c a key)
    with assms(2) obtain y where x: "x = RTask y" by (auto simp: as_Inr_iff)
    have "answers (\<lambda>d. as RTask (CreateTask e c a key d)) (RTask y) d"
      unfolding CreateTask_def createRetry_def taskMutation_def Let_def retry.simps
      by (intro answer_rules answers_checked; use rc in \<open>auto simp: NewTask x default_state_idem\<close>)
    then show ?thesis by (simp add: answers_def NewTask x)
  next
    case (SetTask tid c n a key)
    with assms(2) obtain y where x: "x = RTask y" by (auto simp: as_Inr_iff)
    have "answers (\<lambda>d. as RTask (UpdateTask e tid c n a key d)) (RTask y) d"
      unfolding UpdateTask_def updateRetry_def Let_def retry.simps
      by (intro answer_rules answers_checked; use rc in \<open>auto simp: SetTask x default_state_idem\<close>)
    then show ?thesis by (simp add: answers_def SetTask x)
  next
    case (Triage tid p n a key)
    with assms(2) obtain y where x: "x = RTask y" by (auto simp: as_Inr_iff)
    have "answers (\<lambda>d. as RTask (TriageTask e tid p n a key d)) (RTask y) d"
      unfolding TriageTask_def Let_def retry.simps
      by (intro answer_rules answers_checked; use rc in \<open>auto simp: Triage x default_state_idem\<close>)
    then show ?thesis by (simp add: answers_def Triage x)
  next
    case (Comment tid b a key)
    with assms(2) obtain y where x: "x = RComment y" by (auto simp: as_Inr_iff)
    have "answers (\<lambda>d. as RComment (AddTaskComment e tid b a key d)) (RComment y) d"
      unfolding AddTaskComment_def addTaskComment_def Let_def retry.simps
      by (intro answer_rules answers_checked; use rc in \<open>auto simp: Comment x default_state_idem\<close>)
    then show ?thesis by (simp add: answers_def Comment x)
  next
    case (CommentUnheld tid b a key)
    with assms(2) obtain y where x: "x = RComment y" by (auto simp: as_Inr_iff)
    have "answers (\<lambda>d. as RComment (AddTaskCommentUnheld e tid b a key d)) (RComment y) d"
      unfolding AddTaskCommentUnheld_def addTaskComment_def Let_def retry.simps
      by (intro answer_rules answers_checked; use rc in \<open>auto simp: CommentUnheld x default_state_idem\<close>)
    then show ?thesis by (simp add: answers_def CommentUnheld x)
  next
    case (NewEpic c a key)
    with assms(2) obtain y where x: "x = REpic y" by (auto simp: as_Inr_iff)
    have "answers (\<lambda>d. as REpic (CreateEpic e c a key d)) (REpic y) d"
      unfolding CreateEpic_def taskMutation_def Let_def retry.simps
      by (intro answer_rules answers_checked; use rc in \<open>auto simp: NewEpic x normal_epic_def default_state_idem\<close>)
    then show ?thesis by (simp add: answers_def NewEpic x)
  next
    case (SetEpic eid c n a key)
    with assms(2) obtain y where x: "x = REpic y" by (auto simp: as_Inr_iff)
    have "answers (\<lambda>d. as REpic (UpdateEpic e eid c n a key d)) (REpic y) d"
      unfolding UpdateEpic_def taskMutation_def Let_def retry.simps
      by (intro answer_rules answers_checked; use rc in \<open>auto simp: SetEpic x normal_epic_def default_state_idem\<close>)
    then show ?thesis by (simp add: answers_def SetEpic x)
  next
    case (Configure inst team n c au key)
    with assms(2) obtain y where x: "x = RTeam y" by (auto simp: as_Inr_iff)
    have "answers (\<lambda>d. as RTeam (ConfigureTeam e inst team n c au key d)) (RTeam y) d"
      unfolding ConfigureTeam_def taskMutation_def Let_def retry.simps
      by (intro answer_rules answers_checked; use rc in \<open>auto simp: Configure x default_state_idem\<close>)
    then show ?thesis by (simp add: answers_def Configure x)
  next
    case (Join team role p au key limit)
    with assms(2) obtain y where x: "x = RSession y" by (auto simp: as_Inr_iff)
    have "answers (\<lambda>d. as RSession (JoinTeamLimit e team role p au key limit d)) (RSession y) d"
      unfolding JoinTeamLimit_def Let_def retry.simps
      by (intro answer_rules answers_checked; use rc in \<open>auto simp: Join x default_state_idem dest!: profile_validate_D\<close>)
    then show ?thesis by (simp add: answers_def Join x)
  next
    case (Session team op c au key)
    with assms(2) obtain y where x: "x = RSession y" by (auto simp: as_Inr_iff)
    have "answers (\<lambda>d. as RSession (ChangeTeamSession e team op c au key d)) (RSession y) d"
      unfolding ChangeTeamSession_def Let_def retry.simps
      by (intro answer_rules answers_checked; use rc in \<open>auto simp: Session x default_state_idem dest!: session_command_validate_D\<close>)
    then show ?thesis by (simp add: answers_def Session x)
  next
    case (Handoff team c au key)
    with assms(2) obtain y where x: "x = RSession y" by (auto simp: as_Inr_iff)
    have "answers (\<lambda>d. as RSession (HandoffTeamCoordinator e team c au key d)) (RSession y) d"
      unfolding HandoffTeamCoordinator_def Let_def retry.simps
      by (intro answer_rules answers_checked; use rc in \<open>auto simp: Handoff x default_state_idem\<close>)
    then show ?thesis by (simp add: answers_def Handoff x)
  next
    case (RebindToken team c au key f)
    with assms(2) obtain y where x: "x = RSession y" by (auto simp: as_Inr_iff)
    have "answers (\<lambda>d. as RSession (RebindTeamSessionToken e team c au key f d)) (RSession y) d"
      unfolding RebindTeamSessionToken_def Let_def retry.simps
      by (intro answer_rules answers_checked; use rc in \<open>auto simp: RebindToken x default_state_idem\<close>)
    then show ?thesis by (simp add: answers_def RebindToken x)
  next
    case (EditManaged team tid c au key)
    with assms(2) obtain y where x: "x = RTask y" by (auto simp: as_Inr_iff)
    have "answers (\<lambda>d. as RTask (EditManagedTask e team tid c au key d)) (RTask y) d"
      unfolding EditManagedTask_def managedEditRetry_def Let_def retry.simps
      by (intro answer_rules answers_checked; use rc in \<open>auto simp: EditManaged x default_state_idem\<close>)
    then show ?thesis by (simp add: answers_def EditManaged x)
  next
    case (Finalize team tid c au key)
    with assms(2) obtain y where x: "x = RTask y" by (auto simp: as_Inr_iff)
    have "answers (\<lambda>d. as RTask (FinalizeManagedTask e team tid c au key d)) (RTask y) d"
      unfolding FinalizeManagedTask_def Let_def retry.simps
      by (intro answer_rules answers_checked; use rc in \<open>auto simp: Finalize x default_state_idem\<close>)
    then show ?thesis by (simp add: answers_def Finalize x)
  next
    case (Unmanage team tid c au key)
    with assms(2) obtain y where x: "x = RTask y" by (auto simp: as_Inr_iff)
    have "answers (\<lambda>d. as RTask (UnmanageTask e team tid c au key d)) (RTask y) d"
      unfolding UnmanageTask_def Let_def retry.simps
      by (intro answer_rules answers_checked; use rc in \<open>auto simp: Unmanage x default_state_idem\<close>)
    then show ?thesis by (simp add: answers_def Unmanage x)
  next
    case (Offer team c au key f)
    with assms(2) obtain y where x: "x = RAssignment y" by (auto simp: as_Inr_iff)
    have "answers (\<lambda>d. as RAssignment (OfferTeamAssignment e team c au key f d)) (RAssignment y) d"
      unfolding OfferTeamAssignment_def Let_def retry.simps
      by (intro answer_rules answers_checked; use rc in \<open>auto simp: Offer x default_state_idem split: sum.splits\<close>)
    then show ?thesis by (simp add: answers_def Offer x)
  next
    case (Assignment team aid op c au key f)
    with assms(2) obtain y where x: "x = RAssignment y" by (auto simp: as_Inr_iff)
    have "answers (\<lambda>d. as RAssignment (ChangeTeamAssignment e team aid op c au key f d)) (RAssignment y) d"
      unfolding ChangeTeamAssignment_def Let_def retry.simps
      by (intro answer_rules answers_checked; use rc in \<open>auto simp: Assignment x default_state_idem\<close>)
    then show ?thesis by (simp add: answers_def Assignment x)
  next
    case (Work team aid op c au key)
    with assms(2) obtain y where x: "x = RAssignment y" by (auto simp: as_Inr_iff)
    have "answers (\<lambda>d. as RAssignment (ChangeTeamWork e team aid op c au key d)) (RAssignment y) d"
      unfolding ChangeTeamWork_def Let_def retry.simps
      by (intro answer_rules answers_checked; use rc in \<open>auto simp: Work x default_state_idem\<close>)
    then show ?thesis by (simp add: answers_def Work x)
  next
    case (Submit team aid c au key)
    with assms(2) obtain y where x: "x = RAssignment y" by (auto simp: as_Inr_iff)
    have "answers (\<lambda>d. as RAssignment (SubmitTeamResult e team aid c au key d)) (RAssignment y) d"
      unfolding SubmitTeamResult_def Let_def retry.simps
      by (intro answer_rules answers_checked; use rc in \<open>auto simp: Submit x default_state_idem\<close>)
    then show ?thesis by (simp add: answers_def Submit x)
  next
    case (Review team aid c au key)
    with assms(2) obtain y where x: "x = RAssignment y" by (auto simp: as_Inr_iff)
    have "answers (\<lambda>d. as RAssignment (ReviewTeamResult e team aid c au key d)) (RAssignment y) d"
      unfolding ReviewTeamResult_def Let_def retry.simps
      by (intro answer_rules answers_checked; use rc in \<open>auto simp: Review x default_state_idem\<close>)
    then show ?thesis by (simp add: answers_def Review x)
  next
    case (Recover team aid c au key)
    with assms(2) obtain y where x: "x = RAssignment y" by (auto simp: as_Inr_iff)
    have "answers (\<lambda>d. as RAssignment (RecoverTeamAssignment e team aid c au key d)) (RAssignment y) d"
      unfolding RecoverTeamAssignment_def Let_def retry.simps
      by (intro answer_rules answers_checked; use rc in \<open>auto simp: Recover x default_state_idem\<close>)
    then show ?thesis by (simp add: answers_def Recover x)
  next
    case (Send team h c au key limit)
    with assms(2) obtain y where x: "x = RMessage y" by (auto simp: as_Inr_iff)
    have "answers (\<lambda>d. as RMessage (SendTeamMessage e team h c au key limit d)) (RMessage y) d"
      unfolding SendTeamMessage_def Let_def retry.simps
      by (intro answer_rules answers_checked; use rc in \<open>auto simp: Send x default_state_idem\<close>)
    then show ?thesis by (simp add: answers_def Send x)
  next
    case (Ack team h ids au key)
    with assms(2) obtain y where x: "x = RAck y" by (auto simp: as_Inr_iff)
    have "answers (\<lambda>d. as RAck (AckTeamMessages e team h ids au key d)) (RAck y) d"
      unfolding AckTeamMessages_def Let_def retry.simps
      by (intro answer_rules answers_checked; use rc in \<open>auto simp: Ack x default_state_idem\<close>)
    then show ?thesis by (simp add: answers_def Ack x)
  qed
qed

text \<open>After a request was served, and whatever happened since.\<close>

lemma retry_answers:
  assumes "serve e r d = Inr (x, d1)" "moves\<^sup>*\<^sup>* d1 d2" "e_sha e' = e_sha e"
  shows "answers (serve e' r) x d2"
proof -
  have "remembered (e_sha e) r d1 = Some x" using serve_served [OF assms(1)] by (auto simp: remembered_Some served_def split: prod.splits)
  then have "remembered (e_sha e') r d2 = Some x" using receipts.moves_keep [OF assms(2)] assms(3) by simp
  from receipt_answers [OF this assms(1)] show ?thesis .
qed

end
