(* ===== verification/TeamProps.thy ===== *)
theory TeamProps
  imports ExamplesTeam RetryLive LedgerProps
begin

text \<open>
  The properties of the hub as a whole: what holds in every state it can reach, and what a
  request can and cannot do there. Each is applied to the run of \<open>ExamplesTeam\<close>.
\<close>

section \<open>Coordinator commands\<close>

text \<open>The team and the coordinator generation that a command names.\<close>

fun coordinator_claim :: "request \<Rightarrow> (string \<times> int) option" where
  "coordinator_claim (Offer team c au key f) = Some (team, of_CoordinatorGeneration c)"
| "coordinator_claim (Assignment team aid op c au key f) = (if op = ''withdraw'' then Some (team, ax_CoordinatorGeneration c) else None)"
| "coordinator_claim (Work team aid op c au key) = (if coordinator_op op then Some (team, wk_CoordinatorGeneration c) else None)"
| "coordinator_claim (Review team aid c au key) = Some (team, dc_CoordinatorGeneration c)"
| "coordinator_claim (EditManaged team tid c au key) = Some (team, me_CoordinatorGeneration c)"
| "coordinator_claim (Finalize team tid c au key) = Some (team, mf_CoordinatorGeneration c)"
| "coordinator_claim (Handoff team c au key) = Some (team, hc_CoordinatorGeneration c)"
| "coordinator_claim _ = None"

lemma coordinator_tx_D:
  "OfferTeamAssignment_tx e team co au f d = Inr x \<Longrightarrow> \<exists>p. currentCoordinator team (of_Handle co) (of_CoordinatorGeneration co) (au_Actor au) d = Inr p"
  "ReviewTeamResult_tx e team aid cr au d = Inr x \<Longrightarrow> \<exists>p. currentCoordinator team (dc_Handle cr) (dc_CoordinatorGeneration cr) (au_Actor au) d = Inr p"
  "EditManagedTask_tx e team tid ce au d = Inr y \<Longrightarrow> \<exists>p. currentCoordinator team (me_Handle ce) (me_CoordinatorGeneration ce) (au_Actor au) d = Inr p"
  "FinalizeManagedTask_tx e team tid cf au d = Inr y \<Longrightarrow> \<exists>p. currentCoordinator team (mf_Handle cf) (mf_CoordinatorGeneration cf) (au_Actor au) d = Inr p"
  unfolding OfferTeamAssignment_tx_def ReviewTeamResult_tx_def EditManagedTask_tx_def FinalizeManagedTask_tx_def
  by (auto split: sum.splits)

lemma work_tx_D: "ChangeTeamWork_tx e team aid op c au d = Inr x \<Longrightarrow> coordinator_op op \<Longrightarrow>
    \<exists>p. currentCoordinator team (wk_Handle c) (wk_CoordinatorGeneration c) (au_Actor au) d = Inr p"
  unfolding ChangeTeamWork_tx_def by (auto simp: tx_simps split: sum.splits option.splits)

lemma assignment_tx_D: "ChangeTeamAssignment_tx e team aid ''withdraw'' c au f d = Inr x \<Longrightarrow>
    \<exists>p. currentCoordinator team (ax_Handle c) (ax_CoordinatorGeneration c) (au_Actor au) d = Inr p"
  unfolding ChangeTeamAssignment_tx_def by (auto simp: tx_simps split: sum.splits)

lemma current_generation: "currentCoordinator team h g a d = Inr p \<Longrightarrow> control_generation team d = g"
  using currentCoordinator_D(4) [of team h g a d "fst p" "snd p"] by (simp add: control_generation_def)

lemma handoff_tx_generation:
  assumes "team_inv d" "handoff_check team c au d = Inr tm" "HandoffTeamCoordinator_tx e team c au tm d = Inr x"
  shows "control_generation team d = hc_CoordinatorGeneration c"
proof -
  have "te_ID tm = team" using handoff_check_D [OF assms(2)] readTeam_D [OF assms(1)] by blast
  moreover from assms(3) obtain a where "outgoingCoordinator tm c (au_Actor au) (ac_Kind (au_Actor au) = ''admin'') d = Inr a"
    by (auto simp: HandoffTeamCoordinator_tx_def Let_def split: sum.splits)
  ultimately show ?thesis using outgoingCoordinator_D(4) [OF assms(1)] by (fastforce simp: control_generation_def)
qed

text \<open>A command that names a generation which is no longer the slot's can only be a replay.\<close>

lemma stale_claim_replays:
  assumes "team_inv d" "coordinator_claim r = Some (team, g)" "serve e r d = Inr (x, d')" "g \<noteq> control_generation team d"
  shows "d' = d"
proof -
  have go: "d' = d" if "checkedTaskMutation e a op scope key input check wr rd fn d = Inr (y, d')"
    and "\<And>c z. fn c d = Inr z \<Longrightarrow> \<exists>h a p. currentCoordinator team h g a d = Inr p"
    for a :: TaskActor and op scope key input and check :: "db \<Rightarrow> err + 'c" and wr :: "'y \<Rightarrow> reply" and rd fn y
    using that(1)
  proof (cases rule: checkedTaskMutation_cases)
    case (fresh k c d1 t)
    from that(2) [OF fresh(5)] current_generation assms(4) show ?thesis by blast
  qed
  show ?thesis
  proof (cases r)
    case (Offer t c au key f)
    with assms show ?thesis
      by (auto simp: as_Inr_iff OfferTeamAssignment_def tx_simps elim!: go dest!: coordinator_tx_D(1))
  next
    case (Assignment t aid op c au key f)
    with assms show ?thesis
      by (auto simp: as_Inr_iff ChangeTeamAssignment_def tx_simps split: if_splits elim!: go dest!: assignment_tx_D)
  next
    case (Work t aid op c au key)
    with assms show ?thesis
      by (auto simp: as_Inr_iff ChangeTeamWork_def tx_simps split: if_splits elim!: go dest!: work_tx_D)
  next
    case (Review t aid c au key)
    with assms show ?thesis
      by (auto simp: as_Inr_iff ReviewTeamResult_def tx_simps elim!: go dest!: coordinator_tx_D(2))
  next
    case (EditManaged t tid c au key)
    with assms show ?thesis
      by (auto simp: as_Inr_iff EditManagedTask_def tx_simps managedEditRetry_def elim!: go dest!: coordinator_tx_D(3))
  next
    case (Finalize t tid c au key)
    with assms show ?thesis
      by (auto simp: as_Inr_iff FinalizeManagedTask_def tx_simps elim!: go dest!: coordinator_tx_D(4))
  next
    case (Handoff t c au key)
    with assms obtain y where "checkedTaskMutation e (au_Actor au) ''team.coordinator.handoff'' t key (json_handoff_command c)
        (handoff_check t c au) RSession prj_session (HandoffTeamCoordinator_tx e t c au) d = Inr (y, d')"
      by (auto simp: as_Inr_iff HandoffTeamCoordinator_def Let_def tx_simps split: if_splits)
    then show ?thesis
    proof (cases rule: checkedTaskMutation_cases)
      case (fresh k tm d1 tab)
      from handoff_tx_generation [OF assms(1) fresh(3,5)] assms Handoff show ?thesis by simp
    qed
  qed (use assms in simp_all)
qed

section \<open>The shape of every reachable state\<close>

lemma reachableD:
  assumes "reachable d"
  shows "team_inv d" "ledger_inv d" "tb_ok (db_sessions d)" "tb_ok (db_assignments d)" "attempts_ok d" "holds_ok d"
    "task_board_ok d"
  using reachable_team_inv [OF assms] team_invD [of d] by (auto simp: sessions_ok_def attempts_ok_def ledger_inv_def)

text \<open>C25: In every state the hub can reach, a team has at most one active coordinator, and
  the generation stored in its session is the team's current coordinator generation.\<close>

theorem one_coordinator:
  assumes "reachable d" "(k, r) \<in> set (db_sessions d)" "(k', r') \<in> set (db_sessions d)"
    and "active_coordinator_row r" "active_coordinator_row r'" "sr_team_id r = sr_team_id r'"
  shows "k = k' \<and> control_generation (sr_team_id r) d = se_CoordinatorGeneration (sr_body r)"
proof -
  note R = reachableD [OF assms(1)]
  have s: "map_of (db_sessions d) k = Some r" "map_of (db_sessions d) k' = Some r'" using assms(2,3) R(3) by (simp_all add: tb_mem_iff)
  then have "k = k'" using team_invD(3) [OF R(1)] assms(4-6) unfolding sessions_ok_def by blast
  moreover have "session_row_ok (db_control d) k r" using s team_invD(3) [OF R(1)] unfolding sessions_ok_def by blast
  ultimately show ?thesis using assms(4) by (auto simp: session_row_ok_def control_generation_def active_coordinator_row_def)
qed

theorem one_coordinator_witness:
  "control_generation (ex_id 2) w4 = se_CoordinatorGeneration (ex_session 3 ex_user ''coordinator'' 1)"
  using one_coordinator [OF w_reachable(5), of "ex_id 3" "ex_session_row (ex_session 3 ex_user ''coordinator'' 1)" "ex_id 3"
    "ex_session_row (ex_session 3 ex_user ''coordinator'' 1)"]
  by (simp add: active_coordinator_row_def)

text \<open>C24: In every reachable state the live attempts are exclusive: no two reserve the same
  task, and no two reserve the same worker session.\<close>

theorem attempts_exclusive:
  assumes "reachable d" "(k, r) \<in> set (db_assignments d)" "(k', r') \<in> set (db_assignments d)"
    and "reserved_state (am_State (ag_body r))" "reserved_state (am_State (ag_body r'))"
    and "am_TaskID (ag_body r) = am_TaskID (ag_body r') \<or> sh_SessionID (am_Worker (ag_body r)) = sh_SessionID (am_Worker (ag_body r'))"
  shows "k = k'"
proof -
  note R = reachableD [OF assms(1)]
  have s: "map_of (db_assignments d) k = Some r" "map_of (db_assignments d) k' = Some r'" using assms(2,3) R(4) by (simp_all add: tb_mem_iff)
  then have "assignment_row_ok k r" "assignment_row_ok k' r'" using R(5) unfolding attempts_ok_def by blast+
  then have "ag_reserved r" "ag_reserved r'" "ag_task_id r = ag_task_id r' \<or> ag_worker_id r = ag_worker_id r'"
    using assms(4-6) by (auto simp: assignment_row_ok_def)
  then show ?thesis using s R(5) unfolding attempts_ok_def by blast
qed

theorem attempts_exclusive_witness:
  "\<exists>d. reachable d \<and> (\<forall>p \<in> set (db_assignments d). reserved_state (am_State (ag_body (snd p))) \<longrightarrow> fst p = ex_id 6)"
proof -
  obtain d where d: "reachable d" "db_assignments d = [(ex_id 6, arow ex_running)]" using ex_running_reachable by blast
  have "reserved_state (am_State ex_running)" by (simp add: reserved_state_def)
  then have "fst p = ex_id 6" if "p \<in> set (db_assignments d)" "reserved_state (am_State (ag_body (snd p)))" for p
    using attempts_exclusive [OF d(1), of "fst p" "snd p" "ex_id 6" "arow ex_running"] that d(2) by (simp add: arow_def)
  then show ?thesis using d(1) by blast
qed

text \<open>C23: In every reachable state a live attempt and its task agree: the task is managed by
  the attempt's team, not reserved in the ledger, not archived, and in the state that the
  attempt's state calls for; the worker's session is a worker of the team, and while it is active
  an accepted attempt carries its current generation.\<close>

theorem attempt_couples_task:
  assumes "reachable d" "(k, r) \<in> set (db_assignments d)" "reserved_state (am_State (ag_body r))"
  shows "task_couples d r \<and> worker_couples d r"
proof -
  note R = reachableD [OF assms(1)]
  have s: "map_of (db_assignments d) k = Some r" using assms(2) R(4) by (simp add: tb_mem_iff)
  then have "ag_reserved r" using assms(3) R(5) unfolding attempts_ok_def by (auto simp: assignment_row_ok_def)
  then show ?thesis using s team_invD(5,6) [OF R(1)] unfolding coupled_def workers_ok_def by blast
qed

theorem attempt_couples_task_witness:
  "\<exists>d. reachable d \<and> map_of (db_managed d) (ex_id 5) = Some \<lparr>gr_team_id = ex_id 2, gr_managed = True\<rparr>
    \<and> (\<exists>q. map_of (db_tasks d) (ex_id 5) = Some q \<and> tr_state q = ''IN_PROGRESS'')"
proof -
  obtain d where d: "reachable d" "db_assignments d = [(ex_id 6, arow ex_running)]" using ex_running_reachable by blast
  have "task_couples d (arow ex_running)"
    using attempt_couples_task [OF d(1), of "ex_id 6" "arow ex_running"] by (simp add: d(2) arow_def reserved_state_def)
  then show ?thesis using d(1) by (auto simp: task_couples_def arow_def matching_state_def)
qed

text \<open>C28: In every reachable state the task log is the tasks' past: each task has exactly one
  stored version per revision, from the first to the current one, which is the last stored; and the
  feed of state changes is exactly the changes between consecutive versions, each once, numbered
  without gaps.\<close>

theorem log_is_the_past:
  assumes "reachable d"
  shows "history_complete (task_revision d) (map_of (db_history d))
    \<and> list_all (\<lambda>(i, q). map_option ch_Task (map_of (db_history d) (i, tk_Revision (tr_body q))) = Some (tr_body q)) (db_tasks d)
    \<and> map sc_Sequence (db_state_changes d) = map (\<lambda>k. int k + 1) [0..<length (db_state_changes d)]
    \<and> (\<lambda>s. (sc_TaskID s, sc_Revision s, sc_From s, sc_To s)) ` set (db_state_changes d) = feed_rows d"
proof -
  note B = reachableD(7) [OF assms]
  have b: "board_ok d" "feed_ok d" using B by (auto simp: task_board_ok_def)
  have "map_option ch_Task (map_of (db_history d) (i, tk_Revision (tr_body q))) = Some (tr_body q)" if "(i, q) \<in> set (db_tasks d)" for i q
    using b(1) that tb_mem_iff [of "db_tasks d" i q] unfolding board_ok_def by blast
  then show ?thesis using b by (auto simp: board_ok_def feed_ok_def list_all_iff)
qed

theorem log_is_the_past_witness: "history_complete (task_revision w4) (map_of (db_history w4))"
  using log_is_the_past [OF w_reachable(5)] by blast

text \<open>In every reachable state a task reserved in the ledger is open and not under a
  team's management: the two kinds of ownership exclude each other.\<close>

theorem reserved_task_is_open_and_unmanaged:
  assumes "reachable d" "held d tid"
  shows "task_open d tid \<and> \<not> task_managed tid d"
  using reachableD(6) [OF assms(1)] assms(2) unfolding holds_ok_def by blast

theorem reserved_task_is_open_and_unmanaged_witness: "task_open db2 (ex_id 0) \<and> \<not> task_managed (ex_id 0) db2"
proof -
  have n: "new_ids (ex_env n) db0" "new_ids (ex_env n) db1" for n by (simp_all add: new_ids_def)
  have "act (ex_env 0) (Request (NewTask ex_content ex_user ''r1'')) db0 = Inr db1" by (simp add: as_def ex_create)
  then have "reachable db1" by (rule reachable.acted [OF w_reachable(1) n(1)])
  moreover have "act (ex_env 2) (Reserve ReservationClaim ex_claim ex_user ex_binding ''r2'' None (Some None)) db1 = Inr db2"
    by (simp add: ex_claim_run)
  ultimately have "reachable db2" using reachable.acted n(2) by blast
  then show ?thesis by (rule reserved_task_is_open_and_unmanaged) (simp add: held_def ex_hold_row_def)
qed

section \<open>What holds between two states\<close>

text \<open>C27: A retry is answered from its receipt. After a request has been served, and whatever
  happens to the database afterwards, the same request with the same key, at any later time and
  with any fresh identifiers, is answered with the stored result and changes nothing. The one
  exception is a refusal by the checks that run before the receipts are read (the arguments, the
  caller's standing, a managed or reserved task): it is the same refusal whatever receipts are
  stored, so no retry is ever refused for its receipt, and none runs a second time.\<close>

theorem retry_exactly_once:
  assumes "serve e r d = Inr (x, d1)" "moves\<^sup>*\<^sup>* d1 d2" "e_sha e' = e_sha e"
  shows "serve e' r d2 = Inr (x, d2) \<or> (\<exists>er. \<forall>q. serve e' r (d2\<lparr>db_requests := q\<rparr>) = Inl er)"
  using retry_answers [OF assms] by (simp add: answers_def)

lemma ex_update_scope:
  assumes "UpdateTask (ex_env 0) (ex_id 0) (ex_content\<lparr>tc_State := ''DONE''\<rparr>) 1 ex_user ''r2'' db1 = Inr (ex_updated, d2)"
  shows "taskScopeOK d2 = None"
proof -
  have "board_ok db1" using db1_inv by (simp add: ledger_inv_def task_board_ok_def)
  moreover obtain d1 r where "UpdateTask_tx (ex_env 0) (ex_id 0) (ex_content\<lparr>tc_State := ''DONE''\<rparr>) 1 ex_user db1 = Inr (ex_updated, d1)"
    "d2 = d1\<lparr>db_requests := r\<rparr>" using UpdateTask_fresh [OF assms] by (auto simp: receipt_of_def)
  ultimately have "db_projectID d2 = db_projectID db1" using UpdateTask_txD(1) wrote_only by fastforce
  then show ?thesis by (simp add: scope_p)
qed

text \<open>A task is created, updated, and the creation retried: the first answer comes back, and nothing changes.\<close>

theorem retry_exactly_once_witness:
  "\<exists>d2. serve (ex_env 0) (SetTask (ex_id 0) (ex_content\<lparr>tc_State := ''DONE''\<rparr>) 1 ex_user ''r2'') db1 = Inr (RTask ex_updated, d2)
    \<and> serve (ex_env 9) (NewTask ex_content ex_user ''r1'') d2 = Inr (RTask ex_task, d2)"
proof -
  obtain d2 where u: "UpdateTask (ex_env 0) (ex_id 0) (ex_content\<lparr>tc_State := ''DONE''\<rparr>) 1 ex_user ''r2'' db1 = Inr (ex_updated, d2)"
    using ex_update_run by blast
  have c: "serve (ex_env 0) (NewTask ex_content ex_user ''r1'') db0 = Inr (RTask ex_task, db1)" by (simp add: as_def ex_create)
  have s: "serve (ex_env 0) (SetTask (ex_id 0) (ex_content\<lparr>tc_State := ''DONE''\<rparr>) 1 ex_user ''r2'') db1 = Inr (RTask ex_updated, d2)"
    by (simp add: as_def u)
  then have "act (ex_env 0) (Request (SetTask (ex_id 0) (ex_content\<lparr>tc_State := ''DONE''\<rparr>) 1 ex_user ''r2'')) db1 = Inr d2" by simp
  then have m: "moves\<^sup>*\<^sup>* db1 d2" unfolding moves_def by blast
  have "serve (ex_env 9) (NewTask ex_content ex_user ''r1'') (d2\<lparr>db_requests := db_requests db1\<rparr>) = Inr (RTask ex_task, d2\<lparr>db_requests := db_requests db1\<rparr>)"
    by (simp add: as_def CreateTask_def taskMutation_def checkedTaskMutation_def createRetry_def ex_update_scope [OF u])
  with retry_exactly_once [OF c m, of "ex_env 9"] s show ?thesis by auto
qed

text \<open>C29: The logs only grow. Whatever happens to the database, the audit events, the feed of
  state changes, the reservation events, the comments and the messages keep every entry at its
  place, no stored version of a task or epic changes, and no coordinator generation decreases.\<close>

theorem logs_only_grow:
  assumes "moves\<^sup>*\<^sup>* d d'"
  shows "prefix (db_team_events d) (db_team_events d') \<and> prefix (db_state_changes d) (db_state_changes d')
    \<and> prefix (db_res_events d) (db_res_events d') \<and> prefix (db_comments d) (db_comments d') \<and> prefix (db_messages d) (db_messages d')
    \<and> map_of (db_history d) \<subseteq>\<^sub>m map_of (db_history d') \<and> map_of (db_epic_history d) \<subseteq>\<^sub>m map_of (db_epic_history d')
    \<and> control_generation team d \<le> control_generation team d'"
  using moves_rtrancl_log_grows [OF assms] unfolding log_grows_def by blast

theorem logs_only_grow_witness: "prefix (db_comments w3) (db_comments w4) \<and> control_generation (ex_id 2) w3 \<le> control_generation (ex_id 2) w4"
proof -
  have "moves\<^sup>*\<^sup>* w3 w4" using ex_create_run unfolding moves_def by blast
  from logs_only_grow [OF this, of "ex_id 2"] show ?thesis by blast
qed

text \<open>C26: A coordinator that lost the slot cannot command the team again. Once the team's
  coordinator generation has passed \<open>g\<close>, whatever the hub is asked afterwards, no offer,
  withdrawal, stop, review, managed edit, finalization or handoff under \<open>g\<close>, the handoff that an
  admin makes for a lost coordinator included, takes effect: it is refused, or it is the retry of
  a command that ran before, answered from its receipt.\<close>

theorem stale_coordinator_refused_for_ever:
  assumes "reachable d" "hub_step\<^sup>*\<^sup>* d d1" "g < control_generation team d" "coordinator_claim r = Some (team, g)"
    and "serve e r d1 = Inr (x, d2)"
  shows "d2 = d1 \<and> remembered (e_sha e) r d1 = Some x"
proof -
  have "control_generation team d \<le> control_generation team d1"
    using moves_rtrancl_log_grows [OF hub_steps_moves [OF assms(2)]] by (simp add: log_grows_def)
  moreover have "team_inv d1" by (rule hub_steps_team_inv [OF assms(2) reachable_team_inv [OF assms(1)]])
  ultimately have "d2 = d1" using stale_claim_replays [OF _ assms(4,5)] assms(3) by simp
  with serve_served [OF assms(5)] show ?thesis by (auto simp: served_def remembered_Some split: prod.splits)
qed

section \<open>Handoff\<close>

text \<open>A handoff that is not a retry moves the team's one coordinator slot in one step: the
  command named the slot's current generation; the slot advances by one; the outgoing session is
  closed under a new session generation, so its handle is dead; and the successor is returned and
  stored as coordinator under the new generation.\<close>

theorem handoff_moves_the_slot:
  assumes "reachable d" "HandoffTeamCoordinator e team c au key d = Inr (s, d')"
    and "receipt_of d (au_Actor au) ''team.coordinator.handoff'' team key = None"
  shows "hc_CoordinatorGeneration c = control_generation team d \<and> control_generation team d' = control_generation team d + 1
    \<and> se_CoordinatorGeneration s = control_generation team d' \<and> se_Role s = ''coordinator''
    \<and> map_option sr_body (map_of (db_sessions d') (sh_SessionID (hc_Target c))) = Some s
    \<and> (\<exists>old. map_option sr_body (map_of (db_sessions d) (sh_SessionID (hc_Handle c))) = Some old
         \<and> map_option sr_body (map_of (db_sessions d') (sh_SessionID (hc_Handle c)))
             = Some (old\<lparr>se_State := ''left'', se_Availability := ''unavailable'', se_Generation := se_Generation old + 1\<rparr>))"
proof -
  have inv: "team_inv d" by (rule reachable_team_inv [OF assms(1)])
  have ne: "sh_SessionID (hc_Handle c) \<noteq> sh_SessionID (hc_Target c)" and
    tx: "checkedTaskMutation e (au_Actor au) ''team.coordinator.handoff'' team key (json_handoff_command c) (handoff_check team c au)
      RSession prj_session (HandoffTeamCoordinator_tx e team c au) d = Inr (s, d')"
    using assms(2) unfolding HandoffTeamCoordinator_def by (auto simp: tx_simps split: if_splits option.splits)
  from tx show ?thesis
  proof (cases rule: checkedTaskMutation_cases)
    case (replay k saved)
    with assms(3) show ?thesis by (simp add: receipt_of_def)
  next
    case (fresh k tm d1 t)
    have id: "te_ID tm = team" using handoff_check_D [OF fresh(3)] readTeam_D [OF inv] by blast
    from fresh(5) show ?thesis
    proof (cases rule: HandoffTeamCoordinator_tx_D)
      case (1 a b d2 n d3 d4 d5 ev rs l tx' msg)
      note A = outgoingCoordinator_D [OF inv 1(1), unfolded id]
      obtain r where r: "map_of (db_sessions d) (sh_SessionID (hc_Handle c)) = Some r" "sr_body r = a" "se_ID a = sh_SessionID (hc_Handle c)"
        using readTeamSession_D [OF inv A(1)] by metis
      have b: "se_ID b = sh_SessionID (hc_Target c)" using readTeamSession_D [OF inv 1(2)] by metis
      let ?a = "a\<lparr>se_State := ''left'', se_Availability := ''unavailable'', se_Generation := se_Generation a + 1\<rparr>"
      from 1(4) obtain ra where ra: "d2 = d\<lparr>db_sessions := AList.update (se_ID a) ra (db_sessions d)\<rparr>" "sr_body ra = ?a"
        by (elim putTeamSession_D) auto
      have n: "n = control_generation team d + 1" "d3 = d2\<lparr>db_control := AList.update team n (db_control d2)\<rparr>"
        using 1(5) ra(1) by (auto simp: nextCoordinatorGeneration_def Let_def control_generation_def)
      from 1(6) obtain rb where rb: "d4 = d3\<lparr>db_sessions := AList.update (se_ID b) rb (db_sessions d3)\<rparr>" "sr_body rb = s"
        using 1(9) by (elim putTeamSession_D) auto
      have "logs d4 d1" unfolding 1(8) by (rule logs_trans [OF lifecycleMessage_logs [OF 1(7)]]) simp
      then have e: "db_sessions d' = db_sessions d4" "db_control d' = db_control d4"
        using logs_tables(9,10) fresh(7) by simp_all
      have "control_generation team d = hc_CoordinatorGeneration c" using A(4) by (simp add: control_generation_def)
      moreover have "control_generation team d' = n" using e(2) rb(1) n(2) ra(1) by (simp add: control_generation_def)
      moreover have "map_of (db_sessions d') = (map_of (db_sessions d))(se_ID a \<mapsto> ra, se_ID b \<mapsto> rb)" using e(1) rb(1) n(2) ra(1) by simp
      ultimately show ?thesis using n(1) r b ra(2) rb(2) ne 1(9) by simp
    qed
  qed
qed

text \<open>The run: the coordinator's user joins once more, as a worker, and hands over to that session.\<close>

definition w3u :: db where
  "w3u = w2\<lparr>db_sessions := db_sessions w2 @ [(ex_id 4, ex_session_row (ex_session 4 ex_user ''worker'' 0))],
     db_team_events := db_team_events w2 @ [ex_join_event 4 ex_user ''worker'' 0],
     db_requests := db_requests w2 @ [ex_join_receipt 4 ex_user_key ex_user ''worker'' 0 ''r3'']\<rparr>"

lemma w2_user_receipts [simp]: "map_of (db_requests w2) (ex_user_key, ''team.join'', s, ''r3'') = None"
  "map_of (db_requests w2) (ex_user_key, ''team.coordinator.handoff'', s, q) = None"
  by (simp_all add: w2_def w1_def ex_join_receipt_def)

lemma ex_join_user_run: "act (ex_env 4) (ex_join ''worker'' ex_user ''r3'') w2 = Inr w3u"
  by (simp add: ex_join_defs scope_p ex_session_eq [where a = ex_user, simplified] w3u_def ex_join_event_def ex_join_receipt_def)

lemma w3u_sel [simp]: "db_projectID w3u = ''p''" "db_meta w3u = [(''tasks'', ''on'')]" "db_control w3u = [(ex_id 2, 1)]"
  "db_sessions w3u = [(ex_id 3, ex_session_row (ex_session 3 ex_user ''coordinator'' 1)), (ex_id 4, ex_session_row (ex_session 4 ex_user ''worker'' 0))]"
  "db_teams w3u = [(ex_id 2, \<lparr>mr_name = ''crew'', mr_body = ex_team\<rparr>)]" "db_assignments w3u = []" "db_messages w3u = []" "db_deliveries w3u = []"
  "map_of (db_requests w3u) (ex_user_key, ''team.coordinator.handoff'', s, q) = None"
  by (simp_all add: w3u_def ex_join_receipt_def) (simp_all add: w2_def w1_def)

definition ex_handoff :: TeamHandoffCommand where
  "ex_handoff = \<lparr>hc_Handle = \<lparr>sh_SessionID = ex_id 3, sh_Generation = 1\<rparr>, hc_CoordinatorGeneration = 1,
     hc_Target = \<lparr>sh_SessionID = ex_id 4, sh_Generation = 1\<rparr>, hc_Reason = ''crew'', hc_Reconciliation = None\<rparr>"

lemma ex_handoff_sel [simp]: "hc_Handle ex_handoff = \<lparr>sh_SessionID = ex_id 3, sh_Generation = 1\<rparr>" "hc_CoordinatorGeneration ex_handoff = 1"
  "hc_Target ex_handoff = \<lparr>sh_SessionID = ex_id 4, sh_Generation = 1\<rparr>" "hc_Reason ex_handoff = ''crew''" "hc_Reconciliation ex_handoff = None"
  by (simp_all add: ex_handoff_def)

lemma w3u_bound [simp]: "boundTeamSession (ex_id 2) (ex_id 3) ex_user w3u = Inr (ex_team, ex_session 3 ex_user ''coordinator'' 1)"
  by (simp add: boundTeamSession_def readTeamSession_def requireTeamMember_def TasksEnabled_def readTeam_def)

lemma handoff_target_text [simp]: "taskText ''handoff target'' maxTaskActorName True = None"
  by (rule taskText_plain) (simp_all add: plain_def maxTaskActorName_def)

lemma w3u_member [simp]: "requireTeamMember (ex_id 2) (member_actor ''handoff target'' (ex_session 4 ex_user ''worker'' 0)) True w3u = Inr ex_team"
  by (simp add: requireTeamMember_def member_actor_def actor_key_def TasksEnabled_def readTeam_def)

lemma ex_handoff_run: "\<exists>s d'. HandoffTeamCoordinator (ex_env 8) (ex_id 2) ex_handoff (ex_audit ex_user) ''r5'' w3u = Inr (s, d')"
  by (simp add: HandoffTeamCoordinator_def checkedTaskMutation_def handoff_check_def scope_p HandoffTeamCoordinator_tx_def outgoingCoordinator_def
      currentCoordinator_def currentMessageSession_def readTeamSession_def tb_exists_def putTeamSession_def nextCoordinatorGeneration_def Let_def
      control_generation_def active_coordinator_row_def messageRecipients_def may_receive_def lifecycleMessage_def put_message_def
      tb_insert_def putTeamEvent_def sort_key_def)

lemma w3u_reachable: "reachable w3u"
  by (rule reachable.acted [OF w_reachable(3) _ ex_join_user_run]) (simp add: new_ids_def)

theorem handoff_moves_the_slot_witness:
  "\<exists>s d'. HandoffTeamCoordinator (ex_env 8) (ex_id 2) ex_handoff (ex_audit ex_user) ''r5'' w3u = Inr (s, d')
    \<and> control_generation (ex_id 2) d' = 2 \<and> se_CoordinatorGeneration s = 2"
proof -
  obtain s d' where r: "HandoffTeamCoordinator (ex_env 8) (ex_id 2) ex_handoff (ex_audit ex_user) ''r5'' w3u = Inr (s, d')"
    using ex_handoff_run by blast
  from handoff_moves_the_slot [OF w3u_reachable r] r show ?thesis by (auto simp: receipt_of_def control_generation_def)
qed

lemma ex_handoff_receipts:
  assumes "HandoffTeamCoordinator (ex_env 8) (ex_id 2) ex_handoff (ex_audit ex_user) ''r5'' w3u = Inr (s, d')"
  shows "receipt_of d' ex_user op (ex_id 2) ''r6'' = None"
proof -
  have a: "au_Actor (ex_audit ex_user) = ex_user" by (simp add: ex_audit_def)
  from assms have "checkedTaskMutation (ex_env 8) ex_user ''team.coordinator.handoff'' (ex_id 2) ''r5'' (json_handoff_command ex_handoff)
      (handoff_check (ex_id 2) ex_handoff (ex_audit ex_user)) RSession prj_session
      (HandoffTeamCoordinator_tx (ex_env 8) (ex_id 2) ex_handoff (ex_audit ex_user)) w3u = Inr (s, d')"
    by (simp add: HandoffTeamCoordinator_def a del: w3u_sel)
  then show ?thesis
  proof (cases rule: checkedTaskMutation_cases)
    case (replay k saved)
    then show ?thesis by (simp add: receipt_of_def)
  next
    case (fresh k tm d1 t)
    have "db_requests d1 = db_requests w3u" by (rule grows_requests [OF HandoffTeamCoordinator_tx_grows [OF fresh(5)]])
    moreover have "map_of (db_requests w3u) (ex_user_key, op, ex_id 2, ''r6'') = None"
      by (simp add: w3u_def w2_def w1_def ex_join_receipt_def)
    ultimately show ?thesis using tb_insert_SomeD(2) [OF fresh(6)] fresh(7) by (simp add: receipt_of_def)
  qed
qed

text \<open>After the handoff, neither an offer nor a handoff back under the old generation is accepted.\<close>

theorem stale_coordinator_refused_for_ever_witness:
  "\<exists>s d'. HandoffTeamCoordinator (ex_env 8) (ex_id 2) ex_handoff (ex_audit ex_user) ''r5'' w3u = Inr (s, d')
    \<and> \<not> succeeds (serve (ex_env 9) (Handoff (ex_id 2) ex_handoff (ex_audit ex_user) ''r6'') d')
    \<and> \<not> succeeds (serve (ex_env 9) (Offer (ex_id 2) (ex_offer\<lparr>of_CoordinatorGeneration := 1\<rparr>) (ex_audit ex_user) ''r6'' (Some (\<lambda>_. None))) d')"
proof -
  obtain s d' where r: "HandoffTeamCoordinator (ex_env 8) (ex_id 2) ex_handoff (ex_audit ex_user) ''r5'' w3u = Inr (s, d')"
    using ex_handoff_run by blast
  have "new_ids (ex_env 8) w3u" by (simp add: new_ids_def)
  moreover have "act (ex_env 8) (Request (Handoff (ex_id 2) ex_handoff (ex_audit ex_user) ''r5'')) w3u = Inr d'" by (simp add: as_def r)
  ultimately have step: "reachable d'" by (rule reachable.acted [OF w3u_reachable])
  have gen: "1 < control_generation (ex_id 2) d'" using handoff_moves_the_slot [OF w3u_reachable r] by (simp add: receipt_of_def control_generation_def)
  have none: "receipt_of d' ex_user op (ex_id 2) ''r6'' = None" for op by (rule ex_handoff_receipts [OF r])
  have stale: "\<not> succeeds (serve (ex_env 9) rq d')" if "coordinator_claim rq = Some (ex_id 2, 1)" "\<exists>op. receipt_key rq = (ex_user, op, ex_id 2, ''r6'')" for rq
  proof
    assume "succeeds (serve (ex_env 9) rq d')"
    then obtain x d2 where "serve (ex_env 9) rq d' = Inr (x, d2)" by (auto simp: succeeds_iff)
    from stale_coordinator_refused_for_ever [OF step rtranclp.rtrancl_refl gen that(1) this] that(2) none show False
      by (auto simp: remembered_Some)
  qed
  have "\<not> succeeds (serve (ex_env 9) (Handoff (ex_id 2) ex_handoff (ex_audit ex_user) ''r6'') d')"
    by (rule stale) simp_all
  moreover have "\<not> succeeds (serve (ex_env 9) (Offer (ex_id 2) (ex_offer\<lparr>of_CoordinatorGeneration := 1\<rparr>) (ex_audit ex_user) ''r6'' (Some (\<lambda>_. None))) d')"
    by (rule stale) simp_all
  ultimately show ?thesis using r by blast
qed

end
