(* ===== verification/Lifecycle.thy ===== *)
theory Lifecycle
  imports Retry
begin

text \<open>
  The life of an attempt, as an abstract state machine, and the hub's operations as an
  implementation of it: whatever the hub does moves at most one attempt, by one step of the
  machine, and leaves what was offered and what was submitted as it was.
\<close>

section \<open>The machine\<close>

text \<open>\<open>None\<close> is an attempt that does not exist yet.\<close>

inductive attempt_edge :: "string option \<Rightarrow> string \<Rightarrow> bool" where
  offer: "attempt_edge None ''OFFERED''"
| accept: "attempt_edge (Some ''OFFERED'') ''RUNNING''"
| decline: "attempt_edge (Some ''OFFERED'') ''DECLINED''"
| withdraw: "attempt_edge (Some ''OFFERED'') ''WITHDRAWN''"
| block: "attempt_edge (Some ''RUNNING'') ''BLOCKED''"
| resume: "attempt_edge (Some ''BLOCKED'') ''RUNNING''"
| cancel: "s \<in> {''RUNNING'', ''BLOCKED''} \<Longrightarrow> attempt_edge (Some s) ''STOP_REQUESTED''"
| stopped: "attempt_edge (Some ''STOP_REQUESTED'') ''STOPPED''"
| close_stop: "attempt_edge (Some ''STOPPED'') ''CANCELLED''"
| submit: "attempt_edge (Some ''RUNNING'') ''SUBMITTED''"
| review: "s \<in> {''ACCEPTED'', ''RETURNED''} \<Longrightarrow> attempt_edge (Some ''SUBMITTED'') s"
| recover: "s \<in> {''RUNNING'', ''BLOCKED'', ''STOP_REQUESTED'', ''STOPPED''} \<Longrightarrow> attempt_edge (Some s) ''RECOVERED''"

inductive_cases attempt_edge_from: "attempt_edge (Some s) s'"

lemma closed_is_final: "attempt_edge (Some s) s' \<Longrightarrow> reserved_state s"
  by (cases rule: attempt_edge.cases) (auto simp: reserved_state_def)

text \<open>What the offer fixed.\<close>

definition terms :: "TeamAssignment \<Rightarrow> TeamAssignment" where
  "terms a = a\<lparr>am_State := [], am_Worker := (am_Worker a)\<lparr>sh_Generation := 0\<rparr>, am_Reason := [], am_UpdatedAt := [], am_Result := None,
     am_Review := None, am_Recovery := None, am_Rebinds := [], am_RebindCount := 0\<rparr>"

text \<open>One attempt before and after. A step of the machine may add the result, the review or the
  recovery; they do not change afterwards. Between steps only the rebinding of the worker's
  handle is recorded.\<close>

definition attempt_step :: "TeamAssignment \<Rightarrow> TeamAssignment \<Rightarrow> bool" where
  "attempt_step a a' \<longleftrightarrow> terms a' = terms a \<and> reserved_state (am_State a)
     \<and> (am_Result a = None \<or> am_Result a' = am_Result a) \<and> (am_Review a = None \<or> am_Review a' = am_Review a)
     \<and> (am_Recovery a = None \<or> am_Recovery a' = am_Recovery a)
     \<and> (am_State a' = am_State a \<or> attempt_edge (Some (am_State a)) (am_State a'))"

definition attempts_move :: "db \<Rightarrow> db \<Rightarrow> bool" where
  "attempts_move d d' \<longleftrightarrow> map_of (db_assignments d') = map_of (db_assignments d)
     \<or> (\<exists>k r'. map_of (db_assignments d') = (map_of (db_assignments d))(k \<mapsto> r')
         \<and> (case map_of (db_assignments d) k of
              None \<Rightarrow> am_State (ag_body r') = ''OFFERED'' \<and> am_Result (ag_body r') = None
            | Some r \<Rightarrow> attempt_step (ag_body r) (ag_body r')))"

section \<open>What leaves the attempts alone\<close>

abbreviation steady :: "db \<Rightarrow> db \<Rightarrow> bool" where
  "steady d d' \<equiv> db_assignments d' = db_assignments d"

named_theorems steadies

lemma writeTask_steady [steadies]: "writeTask t actor b d = Inr d' \<Longrightarrow> steady d d'"
  unfolding writeTask_def recordStateChange_def Let_def
  by (auto simp: tx_simps split: prod.splits option.splits if_splits)

lemma saveTask_steady [steadies]: "saveTask t actor b d = Inr d' \<Longrightarrow> steady d d'"
  by (auto simp: saveTask_def split: option.splits dest: writeTask_steady)

lemma saveReservedTask_steady [steadies]: "saveReservedTask t actor d = Inr d' \<Longrightarrow> steady d d'"
  by (auto simp: saveReservedTask_def dest: writeTask_steady)

lemma saveEpic_steady [steadies]: "saveEpic ep actor b d = Inr d' \<Longrightarrow> steady d d'"
  by (auto simp: saveEpic_def Let_def tx_simps split: option.splits)

lemma putTeamSession_steady [steadies]: "putTeamSession s d = Inr d' \<Longrightarrow> steady d d'"
  by (auto simp: putTeamSession_def Let_def split: if_splits)

lemma events_steady [simp]: "steady d (putTeamEvent team ev d)" "steady d (managedEvent e tm s op ch audit d)"
  "steady d (messageAudit e t s0 op ids audit d)"
  by (simp_all add: putTeamEvent_def managedEvent_def messageAudit_def)

lemma lifecycleMessage_steady [steadies]: "lifecycleMessage e team r rs l tx refs d = Inr (mid, d') \<Longrightarrow> steady d d'"
  by (drule lifecycleMessage_logs) (simp add: logs_tables(11))

lemma put_message_steady [steadies]: "put_message m rs d = Inr (m', d') \<Longrightarrow> steady d d'"
  by (drule put_message_logs) (simp add: logs_tables(11))

lemma next_steady [steadies]: "nextCoordinatorGeneration team d = (n, d') \<Longrightarrow> steady d d'"
  by (auto simp: nextCoordinatorGeneration_def Let_def)

lemma saveTeamSession_steady [steadies]: "saveTeamSession e t s n op audit d = Inr d' \<Longrightarrow> steady d d'"
  unfolding saveTeamSession_def by (auto simp: tx_simps dest: steadies)

lemma advanceReservation_steady [steadies]: "advanceReservation r d = Inr (r', d') \<Longrightarrow> steady d d'"
  by (drule advanceReservation_D(1)) simp

lemma append_res_event_steady [simp]: "steady d (append_res_event tid f op body d)"
  by (simp add: append_res_event_def)

lemma trackServiceReservation_steady [steadies]: "trackServiceReservation e before r cb d = Inr d' \<Longrightarrow> steady d d'"
  by (drule trackServiceReservation_only) auto

lemma commit_transition_steady [steadies]:
  "commit_transition e op t before r actor binding i coord deps d = Inr (out, d') \<Longrightarrow> steady d d'"
  unfolding commit_transition_def recordReservationEvent_def by (auto simp: tx_simps dest!: steadies)

lemma content_tx_steady [steadies]: "content_tx e op i actor binding coord c t r d = Inr (out, d') \<Longrightarrow> steady d d'"
  unfolding content_tx_def Let_def by (simp only: tx_simps) (clarify, (drule steadies)+, simp)

lemma held_tx_steady [steadies]: "held_tx e op i actor binding coord t r d = Inr (out, d') \<Longrightarrow> steady d d'"
  unfolding held_tx_def
  by (simp only: tx_simps split: if_splits) (auto simp: tx_simps dest: commit_transition_steady content_tx_steady)

lemma commit_claim_steady:
  "commit_claim e i actor binding coord deps t r d = Inr (out, d') \<Longrightarrow> steady d d'"
  unfolding commit_claim_def by (simp only: tx_simps) (auto simp: tx_simps dest: commit_transition_steady split: if_splits)

lemma reservation_tx_steady [steadies]:
  "ApplyTaskReservation_tx e op i actor binding coord d = Inr (out, d') \<Longrightarrow> steady d d'"
  unfolding ApplyTaskReservation_tx_def claim_tx_def commit_claim_def Let_def
  by (simp only: tx_simps) (auto simp: tx_simps dest: commit_transition_steady held_tx_steady split: if_splits)

lemma RecoverTaskReservation_tx_steady [steadies]: "RecoverTaskReservation_tx e op i x actor d = Inr (out, d') \<Longrightarrow> steady d d'"
  unfolding RecoverTaskReservation_tx_def recordRecoveryEvent_def Let_def
  by (simp only: tx_simps split_paired_Ex prod.case sum.inject prod.inject) (clarify, (drule steadies)+, simp)

lemma board_tx_steady [steadies]:
  "CreateTask_tx e c actor d = Inr (t, d') \<Longrightarrow> steady d d'"
  "UpdateTask_tx e tid c n actor d = Inr (t, d') \<Longrightarrow> steady d d'"
  "TriageTask_tx e tid p n actor d = Inr (t, d') \<Longrightarrow> steady d d'"
  "CreateEpic_tx e ec actor d = Inr (ep, d') \<Longrightarrow> steady d d'"
  "UpdateEpic_tx e eid ec n actor d = Inr (ep, d') \<Longrightarrow> steady d d'"
  unfolding CreateTask_tx_def UpdateTask_tx_def TriageTask_tx_def CreateEpic_tx_def UpdateEpic_tx_def Let_def
  by (simp only: tx_simps case_prod_Inr_iff split_paired_Ex prod.case sum.inject prod.inject, clarify, (drule steadies)+, simp)+

lemma comment_tx_steady [steadies]: "addTaskComment_tx e tid b actor d = Inr (cm, d') \<Longrightarrow> steady d d'"
  by (drule addTaskComment_txD(1)) simp

lemma managed_tx_steady [steadies]:
  "EditManagedTask_tx e team tid ce audit d = Inr (t, d') \<Longrightarrow> steady d d'"
  "FinalizeManagedTask_tx e team tid cf audit d = Inr (t, d') \<Longrightarrow> steady d d'"
  "UnmanageTask_tx e team tid cu audit tm d = Inr (t, d') \<Longrightarrow> steady d d'"
  unfolding EditManagedTask_tx_def FinalizeManagedTask_tx_def UnmanageTask_tx_def Let_def
  by (simp only: tx_simps case_prod_Inr_iff split_paired_Ex prod.case sum.inject prod.inject, clarify, (drule steadies)+, simp)+

lemma team_tx_steady [steadies]:
  "ConfigureTeam_tx e inst team n c audit d = Inr (tm, d') \<Longrightarrow> steady d d'"
  "JoinTeam_tx e team role p audit limit t d = Inr (s, d') \<Longrightarrow> steady d d'"
  "change_session e team op cs s0 d = Inr (s, d') \<Longrightarrow> steady d d'"
  unfolding ConfigureTeam_tx_def JoinTeam_tx_def change_session_def Let_def
  by (auto simp: tx_simps case_prod_Inr_iff split: prod.splits if_splits option.splits dest!: steadies)

lemma handoff_tx_steady [steadies]: "HandoffTeamCoordinator_tx e team c audit tm d = Inr (s, d') \<Longrightarrow> steady d d'"
  by (elim HandoffTeamCoordinator_tx_D) (drule putTeamSession_steady next_steady lifecycleMessage_steady | simp)+

lemma message_tx_steady [steadies]:
  "TeamMessages e team h after limit inbox audit d = Inr (pg, d') \<Longrightarrow> steady d d'"
  "AckTeamMessages_tx e team h ids audit (t, s) d = Inr (ak, d') \<Longrightarrow> steady d d'"
  by (drule TeamMessages_logs AckTeamMessages_tx_logs, simp add: logs_tables(11))+

lemma send_tx_steady [steadies]: "SendTeamMessage_tx e team h c audit limit (t, s) d = Inr (m, d') \<Longrightarrow> steady d d'"
  by (drule SendTeamMessage_tx_logs) (simp add: logs_tables(11))

section \<open>What moves an attempt\<close>

lemma save_writes: "saveTeamAssignment e t s a op audit d = Inr d'
    \<Longrightarrow> \<exists>row. map_of (db_assignments d') = (map_of (db_assignments d))(am_ID a \<mapsto> row) \<and> ag_body row = a"
  by (elim saveTeamAssignment_D) (auto simp: put_assignment_def Let_def logs_tables(11) split: if_splits option.splits)

lemma terms_ID: "terms a' = terms a \<Longrightarrow> am_ID a' = am_ID a"
  by (cases a; cases a') (simp add: terms_def)

lemma attempt_moved:
  assumes "attempts_ok d" "readTeamAssignment team aid d = Inr a" "saveTeamAssignment e t s a' op audit d1 = Inr d'"
    and "steady d d1" "attempt_step a a'"
  shows "attempts_move d d'"
proof -
  obtain r where r: "map_of (db_assignments d) aid = Some r" "ag_body r = a" "am_ID a = aid" using readTeamAssignment_row [OF assms(1,2)] by metis
  have "am_ID a' = aid" using assms(5) r(3) terms_ID unfolding attempt_step_def by metis
  with save_writes [OF assms(3)] obtain row where "map_of (db_assignments d') = (map_of (db_assignments d))(aid \<mapsto> row)" "ag_body row = a'"
    using assms(4) by auto
  then show ?thesis using r assms(5) unfolding attempts_move_def by (intro disjI2 exI [of _ aid] exI [of _ row]) simp
qed

lemma steady_move: "steady d d' \<Longrightarrow> attempts_move d d'"
  by (simp add: attempts_move_def)

lemma rebind_moves:
  assumes "attempts_ok d" "rebindReservedAssignment e t s audit d = Inr d'"
  shows "attempts_move d d'"
proof (cases "find (\<lambda>(_, r). ag_team_id r = te_ID t \<and> ag_worker_id r = se_ID s \<and> ag_reserved r \<and> ag_state r \<noteq> ''OFFERED'') (db_assignments d)")
  case None
  then show ?thesis using assms(2) by (simp add: rebindReservedAssignment_def steady_move)
next
  case (Some p)
  then obtain k q where p: "p = (k, q)" "ag_reserved q" "(k, q) \<in> set (db_assignments d)"
    unfolding find_Some_iff by (cases p) (fastforce dest: nth_mem)
  obtain a where a: "readTeamAssignment (te_ID t) k d = Inr a"
    and sv: "saveTeamAssignment e t s (a\<lparr>am_Rebinds := last_rebinds (am_Rebinds a @
                 [\<lparr>br_PreviousGeneration = sh_Generation (am_Worker a), br_Generation = se_Generation s, br_CreatedAt = e_now e 5\<rparr>]),
               am_RebindCount := am_RebindCount a + 1,
               am_Worker := (am_Worker a)\<lparr>sh_Generation := se_Generation s\<rparr>, am_UpdatedAt := e_now e 5\<rparr>)
             ''team.assignment.rebind'' audit d = Inr d'"
    using assms(2) Some p(1) by (auto simp: rebindReservedAssignment_def tx_simps)
  obtain r where r: "map_of (db_assignments d) k = Some r" "ag_reserved r = reserved_state (am_State a)"
    using readTeamAssignment_row [OF assms(1) a] by metis
  have "r = q" using r(1) p(3) attempts_okD(1) [OF assms(1)] by (simp add: tb_mem_iff)
  with r(2) p(2) have "reserved_state (am_State a)" by simp
  then show ?thesis by (intro attempt_moved [OF assms(1) a sv]) (simp_all add: attempt_step_def terms_def)
qed

lemma Offer_moves:
  assumes "map_of (db_assignments d) (e_uuid e 0) = None" "OfferTeamAssignment_tx e team c audit f d = Inr (a, d')"
  shows "attempts_move d d'"
proof -
  from assms(2) obtain tm co d1 where "saveTeamAssignment e tm co a ''team.assignment.offer'' audit d1 = Inr d'" "steady d d1"
    and a: "am_ID a = e_uuid e 0" "am_State a = ''OFFERED''" "am_Result a = None"
    unfolding OfferTeamAssignment_tx_def Let_def
    by (simp only: tx_simps case_prod_Inr_iff split_paired_Ex prod.case sum.inject prod.inject) auto
  with save_writes obtain row where "map_of (db_assignments d') = (map_of (db_assignments d))(e_uuid e 0 \<mapsto> row)" "ag_body row = a" by metis
  then show ?thesis using assms(1) a unfolding attempts_move_def
    by (intro disjI2 exI [of _ "e_uuid e 0"] exI [of _ row]) simp
qed

lemma Change_moves:
  assumes "attempts_ok d" "ChangeTeamAssignment_tx e team aid op c audit f d = Inr (a', d')"
  shows "attempts_move d d'"
proof -
  let ?ops = "if op = ''accept'' then ''RUNNING'' else if op = ''decline'' then ''DECLINED'' else ''WITHDRAWN''"
  from assms(2) obtain tm s a d1 where a: "readTeamAssignment team aid d = Inr a" "am_State a = ''OFFERED''"
    and st: "steady d d1"
    and sv: "saveTeamAssignment e tm s (a\<lparr>am_State := ?ops, am_Reason := ax_Reason c, am_UpdatedAt := e_now e 4\<rparr>) (''team.assignment.'' @ op) audit d1 = Inr d'"
    unfolding ChangeTeamAssignment_tx_def Let_def
    by (cases "op = ''accept''"; cases "op = ''decline''";
        simp only: tx_simps split_paired_Ex prod.case sum.inject prod.inject if_True if_False simp_thms not_not; elim exE conjE;
        blast dest: saveTask_steady)
  have op: "?ops \<in> {''RUNNING'', ''DECLINED'', ''WITHDRAWN''}" by simp
  show ?thesis
    by (rule attempt_moved [OF assms(1) a(1) sv st]) (use op a(2) in \<open>auto simp: attempt_step_def terms_def reserved_state_def intro: attempt_edge.intros\<close>)
qed

lemma work_edge: "workTransition op s = Inr (nxt, t, p) \<Longrightarrow> attempt_edge (Some s) nxt"
  by (auto simp: workTransition_def Let_def split: if_splits intro: attempt_edge.intros)

lemma Work_moves:
  assumes "attempts_ok d" "ChangeTeamWork_tx e team aid op c audit d = Inr (a', d')"
  shows "attempts_move d d'"
proof -
  from assms(2) obtain tm s a nxt ts p d1 where a: "readTeamAssignment team aid d = Inr a" "workTransition op (am_State a) = Inr (nxt, ts, p)"
    and sv: "saveTeamAssignment e tm s (a\<lparr>am_State := nxt, am_Reason := wk_Reason c, am_UpdatedAt := e_now e 0\<rparr>) (''team.assignment.'' @ op) audit d1 = Inr d'"
    and st: "steady d d1"
    unfolding ChangeTeamWork_tx_def Let_def
    by (simp only: tx_simps split_paired_Ex prod.case sum.inject prod.inject) (blast dest: saveTask_steady)
  note w = work_edge [OF a(2)]
  show ?thesis
    by (rule attempt_moved [OF assms(1) a(1) sv st]) (use w closed_is_final [OF w] in \<open>simp add: attempt_step_def terms_def\<close>)
qed

lemma Submit_moves:
  assumes "attempts_ok d" "SubmitTeamResult_tx e team aid c audit d = Inr (a', d')"
  shows "attempts_move d d'"
proof -
  from assms(2) obtain tm s a res d1 where a: "readTeamAssignment team aid d = Inr a" "am_State a = ''RUNNING''" "am_Result a = None"
    and sv: "saveTeamAssignment e tm s (a\<lparr>am_Result := Some res, am_State := ''SUBMITTED'', am_UpdatedAt := e_now e 0\<rparr>) ''team.assignment.submit'' audit d1 = Inr d'"
    and st: "steady d d1"
    unfolding SubmitTeamResult_tx_def Let_def
    by (simp only: tx_simps split_paired_Ex prod.case sum.inject prod.inject) (auto dest: saveTask_steady)
  show ?thesis
    by (rule attempt_moved [OF assms(1) a(1) sv st]) (use a(2,3) in \<open>auto simp: attempt_step_def terms_def reserved_state_def intro: attempt_edge.intros\<close>)
qed

lemma Review_moves:
  assumes "attempts_ok d" "ReviewTeamResult_tx e team aid c audit d = Inr (a', d')"
  shows "attempts_move d d'"
proof -
  from assms(2) obtain tm s a rv st d1 where a: "readTeamAssignment team aid d = Inr a" "am_State a = ''SUBMITTED''" "am_Review a = None"
    and sv: "saveTeamAssignment e tm s (a\<lparr>am_Review := Some rv, am_State := st, am_UpdatedAt := e_now e 0\<rparr>) ''team.assignment.review'' audit d1 = Inr d'"
    and st: "steady d d1" "st \<in> {''ACCEPTED'', ''RETURNED''}"
    unfolding ReviewTeamResult_tx_def Let_def
    by (simp only: tx_simps split_paired_Ex prod.case sum.inject prod.inject) (auto dest: saveTask_steady split: if_splits)
  show ?thesis
    by (rule attempt_moved [OF assms(1) a(1) sv st(1)]) (use a(2,3) st(2) in \<open>auto simp: attempt_step_def terms_def reserved_state_def intro: attempt_edge.intros\<close>)
qed

lemma Recover_moves:
  assumes "attempts_ok d" "RecoverTeamAssignment_tx e team aid c audit tm d = Inr (a', d')"
  shows "attempts_move d d'"
proof -
  from assms(2) obtain s a rv rs d1 where a: "readTeamAssignment team aid d = Inr a" "am_State a \<in> {''RUNNING'', ''BLOCKED'', ''STOP_REQUESTED'', ''STOPPED''}"
      "am_Recovery a = None"
    and sv: "saveTeamAssignment e tm s (a\<lparr>am_Recovery := Some rv, am_State := ''RECOVERED'', am_Reason := rs, am_UpdatedAt := e_now e 0\<rparr>) ''team.assignment.recover'' audit d1 = Inr d'"
    and st: "steady d d1"
    unfolding RecoverTeamAssignment_tx_def Let_def
    by (simp only: tx_simps split_paired_Ex prod.case sum.inject prod.inject) (auto dest: saveTask_steady)
  show ?thesis
    by (rule attempt_moved [OF assms(1) a(1) sv st]) (use a(2,3) in \<open>auto simp: attempt_step_def terms_def reserved_state_def intro: attempt_edge.intros\<close>)
qed

section \<open>Sessions that carry their attempt along\<close>

lemma session_frames:
  "putTeamSession s d = Inr d' \<Longrightarrow> db_managed d' = db_managed d"
  "nextCoordinatorGeneration team d = (n, d') \<Longrightarrow> db_managed d' = db_managed d"
  "db_managed (putTeamEvent team ev d) = db_managed d"
  by (auto simp: putTeamSession_def nextCoordinatorGeneration_def putTeamEvent_def Let_def split: if_splits)

lemma change_session_frame: "change_session e team op c s d = Inr (s', d') \<Longrightarrow> db_managed d' = db_managed d"
  unfolding change_session_def Let_def by (auto split: if_splits option.splits prod.splits dest: session_frames(2))

lemma Session_moves:
  assumes "attempts_ok d" "ChangeTeamSession_tx e team op c audit (t, s) d = Inr (x, d')"
  shows "attempts_move d d'"
proof -
  from assms(2) obtain s' d1 d2 where c: "change_session e team op c s d = Inr (s', d1)"
    and sv: "saveTeamSession e t s' (ss_Generation c) (''team.'' @ op) audit d1 = Inr d2"
    and fin: "(if op = ''resume'' \<and> se_Role s' = ''worker'' then rebindReservedAssignment e t s' audit d2 else Inr d2) = Inr d'"
    unfolding ChangeTeamSession_tx_def by (simp only: tx_simps split_paired_Ex prod.case sum.inject prod.inject simp_thms) blast
  have m: "db_managed d2 = db_managed d1"
    using sv unfolding saveTeamSession_def by (auto simp: tx_simps session_frames(3) dest: session_frames(1))
  have st: "steady d d2" using team_tx_steady(3) [OF c] saveTeamSession_steady [OF sv] by simp
  have "attempts_ok d2 = attempts_ok d" by (rule attempts_ok_cong) (use st m change_session_frame [OF c] in simp_all)
  with assms(1) have "attempts_ok d2" by simp
  then have "attempts_move d2 d'" using fin by (auto split: if_splits dest: rebind_moves intro: steady_move)
  then show ?thesis using st by (simp add: attempts_move_def)
qed

lemma Token_moves:
  assumes "attempts_ok d" "RebindTeamSessionToken_tx e team c audit authorize tm d = Inr (s, d')"
  shows "attempts_move d d'"
proof -
  define mk where "mk = (\<lambda>s :: TeamSession. if se_Role s = ''coordinator''
            then (case nextCoordinatorGeneration team d of (n, d1) \<Rightarrow>
               (s\<lparr>se_TokenID := tn_TokenID c, se_Generation := se_Generation s + 1, se_CoordinatorGeneration := n\<rparr>, d1))
            else (s\<lparr>se_TokenID := tn_TokenID c, se_Generation := se_Generation s + 1\<rparr>, d))"
  from assms(2) obtain s0 s' d1 d2 ev where c: "mk s0 = (s', d1)" and p: "putTeamSession s' d1 = Inr d2"
    and fin: "(if se_Role s' = ''worker'' then rebindReservedAssignment e tm s' audit (putTeamEvent team ev d2)
        else Inr (putTeamEvent team ev d2)) = Inr d'"
    unfolding RebindTeamSessionToken_tx_def Let_def mk_def
    by (simp only: tx_simps case_prod_Inr_iff split_paired_Ex prod.case sum.inject prod.inject simp_thms) blast
  have st: "steady d d1" "db_managed d1 = db_managed d"
    using c by (auto simp: mk_def split: if_splits prod.splits dest: next_steady session_frames(2))
  have st2: "steady d (putTeamEvent team ev d2)" using st(1) putTeamSession_steady [OF p] by simp
  have "attempts_ok (putTeamEvent team ev d2) = attempts_ok d"
    by (rule attempts_ok_cong) (use st2 st(2) session_frames(1) [OF p] in \<open>simp_all add: session_frames(3)\<close>)
  with assms(1) have "attempts_move (putTeamEvent team ev d2) d'" using fin by (auto split: if_splits dest: rebind_moves intro: steady_move)
  then show ?thesis using st2 by (simp add: attempts_move_def)
qed

section \<open>Every operation\<close>

lemma wrapped_moves:
  assumes "checkedTaskMutation e a op scope key input check wr rd fn d = Inr (out, d')"
    and "\<And>c d1. fn c d = Inr (out, d1) \<Longrightarrow> attempts_move d d1"
  shows "attempts_move d d'"
  using assms(1) by (cases rule: checkedTaskMutation_cases) (use assms(2) in \<open>auto simp: attempts_move_def\<close>)

lemmas wrapper_defs = CreateTask_def UpdateTask_def TriageTask_def AddTaskComment_def AddTaskCommentUnheld_def addTaskComment_def
  CreateEpic_def UpdateEpic_def ConfigureTeam_def JoinTeamLimit_def ChangeTeamSession_def HandoffTeamCoordinator_def
  RebindTeamSessionToken_def EditManagedTask_def FinalizeManagedTask_def UnmanageTask_def OfferTeamAssignment_def
  ChangeTeamWork_def SubmitTeamResult_def ReviewTeamResult_def RecoverTeamAssignment_def SendTeamMessage_def
  AckTeamMessages_def taskMutation_def

lemmas tx_moves = steady_move [OF board_tx_steady(1)] steady_move [OF board_tx_steady(2)] steady_move [OF board_tx_steady(3)]
  steady_move [OF board_tx_steady(4)] steady_move [OF board_tx_steady(5)] steady_move [OF comment_tx_steady]
  steady_move [OF managed_tx_steady(1)] steady_move [OF managed_tx_steady(2)] steady_move [OF managed_tx_steady(3)]
  steady_move [OF team_tx_steady(1)] steady_move [OF team_tx_steady(2)] steady_move [OF handoff_tx_steady]
  steady_move [OF message_tx_steady(2)] steady_move [OF send_tx_steady]
  Session_moves Token_moves Offer_moves Work_moves Submit_moves Review_moves Recover_moves

lemma Assignment_moves:
  assumes "attempts_ok d" "ChangeTeamAssignment e team aid op c au key f d = Inr (a, d')"
  shows "attempts_move d d'"
  using assms(2) unfolding ChangeTeamAssignment_def tx_simps
  by (elim conjE) (erule wrapped_moves, rule Change_moves [OF assms(1)])

lemma serve_moves:
  assumes "team_inv d" "new_ids e d" "serve e r d = Inr (x, d')"
  shows "attempts_move d d'"
proof -
  have ok: "attempts_ok d" "map_of (db_assignments d) (e_uuid e 0) = None" using assms(1,2) team_invD(4) by (auto simp: new_ids_def)
  show ?thesis
  proof (cases "\<exists>team aid op c au key f. r = Assignment team aid op c au key f")
    case True
    with assms(3) show ?thesis by (auto simp: as_Inr_iff intro: Assignment_moves [OF ok(1)])
  next
    case False
    then show ?thesis using assms(3) ok
      by (cases r) (auto simp: as_Inr_iff wrapper_defs Let_def tx_simps elim!: wrapped_moves intro: tx_moves)
  qed
qed

lemma act_moves:
  assumes "team_inv d" "new_ids e d" "act e a d = Inr d'"
  shows "attempts_move d d'"
proof (cases a)
  case (Request r)
  with assms show ?thesis by (auto simp: tx_simps split: prod.splits intro: serve_moves)
next
  case (Reserve op i ac b key co f)
  with assms(3) obtain out where "ApplyTaskReservation e op i ac b key co f d = Inr (out, d')" by (auto simp: tx_simps split: prod.splits)
  from ApplyTaskReservation_D(4) [OF this] show ?thesis
    by (cases rule: reservationMutation_cases) (auto dest: reservation_tx_steady simp: attempts_move_def)
next
  case (Reclaim op i x ac key f)
  with assms(3) obtain out where "RecoverTaskReservation e op i x ac key f d = Inr (out, d')" by (auto simp: tx_simps split: prod.splits)
  from RecoverTaskReservation_D(2) [OF this] show ?thesis
    by (cases rule: reservationMutation_cases) (auto dest: RecoverTaskReservation_tx_steady simp: attempts_move_def)
next
  case (Claim i ac b key co v r h)
  with assms(3) have "act e (Claim i ac b key co v r h) d = Inr d'" by (simp only:)
  then show ?thesis
  proof (cases rule: act_Claim_cases)
    case (ran out p)
    from ran show ?thesis
    proof (cases rule: ClaimTaskReservation_cases)
      case (fresh res d1 t ev tab)
      have "steady d d1" by (rule commit_claim_steady [OF fresh(2)])
      then have "steady d d'" by (simp add: fresh(3))
      then show ?thesis by (rule steady_move)
    qed (simp add: attempts_move_def)
  qed (simp add: attempts_move_def)
next
  case (Inbox team h after limit inbox au)
  with assms(3) show ?thesis by (auto simp: tx_simps split: prod.splits dest: message_tx_steady(1) intro: steady_move)
qed

end
