(* ===== verification/LifecycleProps.thy ===== *)
theory LifecycleProps
  imports Lifecycle ExamplesTeam
begin

text \<open>
  The properties of attempts over time: the hub implements the abstract life cycle of
  \<open>Lifecycle\<close>, closed attempts are final, and so is the evidence that was submitted.
\<close>

section \<open>The abstraction\<close>

text \<open>What the abstract machine sees of the database: the state of each attempt.\<close>

definition lives :: "db \<Rightarrow> string \<Rightarrow> string option" where
  "lives d k = map_option (\<lambda>r. am_State (ag_body r)) (map_of (db_assignments d) k)"

lemma lives_update: "map_of (db_assignments d') = (map_of (db_assignments d))(k \<mapsto> r) \<Longrightarrow> lives d' = (lives d)(k \<mapsto> am_State (ag_body r))"
  by (rule ext) (simp add: lives_def)

lemma moved_lives: "attempts_move d d' \<Longrightarrow> lives d' = lives d \<or> (\<exists>k s. attempt_edge (lives d k) s \<and> lives d' = (lives d)(k \<mapsto> s))"
  unfolding attempts_move_def
proof (elim disjE exE conjE)
  fix k r'
  assume m: "map_of (db_assignments d') = (map_of (db_assignments d))(k \<mapsto> r')"
    and s: "case map_of (db_assignments d) k of
              None \<Rightarrow> am_State (ag_body r') = ''OFFERED'' \<and> am_Result (ag_body r') = None
            | Some r \<Rightarrow> attempt_step (ag_body r) (ag_body r')"
  note L = lives_update [OF m]
  show ?thesis
  proof (cases "map_of (db_assignments d) k")
    case None
    then have "lives d k = None" by (simp add: lives_def)
    then have "attempt_edge (lives d k) (am_State (ag_body r'))" using s None by (simp add: attempt_edge.offer)
    then show ?thesis using L by blast
  next
    case (Some r)
    then have k: "lives d k = Some (am_State (ag_body r))" by (simp add: lives_def)
    then have "am_State (ag_body r') = am_State (ag_body r) \<or> attempt_edge (lives d k) (am_State (ag_body r'))"
      using s Some by (auto simp: attempt_step_def)
    then show ?thesis using L k by (metis fun_upd_triv)
  qed
qed (simp add: lives_def fun_eq_iff)

section \<open>Longer histories\<close>

definition acts :: "db \<Rightarrow> db \<Rightarrow> bool" where
  "acts d d' \<longleftrightarrow> (\<exists>e a. new_ids e d \<and> act e a d = Inr d') \<or> (\<exists>m. d' = d\<lparr>db_meta := m\<rparr>)"

lemma acts_reachable: "acts\<^sup>*\<^sup>* d d' \<Longrightarrow> reachable d \<Longrightarrow> reachable d'"
  by (induction rule: rtranclp_induct) (auto simp: acts_def intro: reachable.intros)

lemma acts_move: "acts d d' \<Longrightarrow> reachable d \<Longrightarrow> attempts_move d d'"
  unfolding acts_def by (elim disjE exE conjE) (blast dest: reachable_team_inv act_moves, simp add: attempts_move_def)

text \<open>What every move keeps of one attempt, every history keeps.\<close>

lemma acts_keep:
  assumes "acts\<^sup>*\<^sup>* d d'" "reachable d" "P (map_of (db_assignments d) k)"
    and step: "\<And>d d'. \<lbrakk>attempts_move d d'; P (map_of (db_assignments d) k)\<rbrakk> \<Longrightarrow> P (map_of (db_assignments d') k)"
  shows "P (map_of (db_assignments d') k)"
  using assms(1,3)
proof (induction rule: rtranclp_induct)
  case (step d1 d2)
  then show ?case using acts_move [OF step(2) acts_reachable [OF step(1) assms(2)]] assms(4) by blast
qed

section \<open>Properties\<close>

text \<open>C15: Refinement: seen through the states of its attempts, the hub is the abstract life cycle.
  Every operation, from every reachable state, leaves all attempts in their states or moves exactly
  one of them along one edge of the machine.\<close>

theorem attempts_refine_lifecycle:
  assumes "reachable d" "new_ids e d" "act e a d = Inr d'"
  shows "lives d' = lives d \<or> (\<exists>k s. attempt_edge (lives d k) s \<and> lives d' = (lives d)(k \<mapsto> s))"
  by (rule moved_lives [OF act_moves [OF reachable_team_inv [OF assms(1)] assms(2,3)]])

theorem attempts_refine_lifecycle_witness:
  "\<exists>d' k s. act (ex_env 6) ex_offer_action w4 = Inr d' \<and> attempt_edge (lives w4 k) s \<and> lives d' = (lives w4)(k \<mapsto> s)"
proof -
  obtain m ev dl where r: "act (ex_env 6) ex_offer_action w4 = Inr (w5 m ev dl)" using ex_offer_run by blast
  have "new_ids (ex_env 6) w4" by (simp add: new_ids_def)
  from attempts_refine_lifecycle [OF w_reachable(5) this r]
  have "lives (w5 m ev dl) = lives w4 \<or> (\<exists>k s. attempt_edge (lives w4 k) s \<and> lives (w5 m ev dl) = (lives w4)(k \<mapsto> s))" .
  moreover have "lives (w5 m ev dl) (ex_id 6) \<noteq> lives w4 (ex_id 6)" by (simp add: lives_def)
  ultimately show ?thesis using r by metis
qed

text \<open>A closed attempt is final. Once an attempt was declined, withdrawn, cancelled, accepted,
  returned or recovered, its row, with everything recorded in it, never changes again.\<close>

theorem closed_attempt_is_final:
  assumes "reachable d" "map_of (db_assignments d) k = Some r" "\<not> reserved_state (am_State (ag_body r))" "acts\<^sup>*\<^sup>* d d'"
  shows "map_of (db_assignments d') k = Some r"
proof -
  let ?P = "\<lambda>x. x = Some r"
  have "?P (map_of (db_assignments d') k)"
  proof (rule acts_keep [OF assms(4,1)])
    show "?P (map_of (db_assignments d) k)" by (rule assms(2))
    fix d1 d2 assume "attempts_move d1 d2" "?P (map_of (db_assignments d1) k)"
    then show "?P (map_of (db_assignments d2) k)" using assms(3)
      unfolding attempts_move_def by (auto simp: attempt_step_def split: option.splits if_splits)
  qed
  then show ?thesis .
qed

text \<open>The worker of the example declines the offer.\<close>

definition ex_decline :: TeamAssignmentCommand where "ex_decline = ex_accept\<lparr>ax_Reason := ''crew''\<rparr>"

lemma ex_decline_sel [simp]: "ax_Handle ex_decline = \<lparr>sh_SessionID = ex_id 4, sh_Generation = 1\<rparr>" "ax_CoordinatorGeneration ex_decline = 0"
  "ax_Reason ex_decline = ''crew''" by (simp_all add: ex_decline_def)

definition ex_declined :: TeamAssignment where "ex_declined = ex_attempt\<lparr>am_State := ''DECLINED'', am_Reason := ''crew'', am_UpdatedAt := ''t''\<rparr>"

lemma ex_declined_sel [simp]: "am_State ex_declined = ''DECLINED''" "am_ID ex_declined = ex_id 6" "am_TaskID ex_declined = ex_id 5"
  "am_TeamID ex_declined = ex_id 2" "am_Worker ex_declined = \<lparr>sh_SessionID = ex_id 4, sh_Generation = 1\<rparr>" "am_Reason ex_declined = ''crew''"
  "ex_attempt\<lparr>am_State := ''DECLINED'', am_Reason := ''crew'', am_UpdatedAt := ''t''\<rparr> = ex_declined"
  by (simp_all add: ex_declined_def)

lemma ex_decline_tx: "\<exists>d'. ChangeTeamAssignment_tx (ex_env 7) (ex_id 2) (ex_id 6) ''decline'' ex_decline (ex_audit ex_worker) (Some (\<lambda>_. None)) (w5 m ev dl)
      = Inr (ex_declined, d') \<and> db_assignments d' = [(ex_id 6, arow ex_declined)]"
  by (simp add: ChangeTeamAssignment_tx_def currentMessageSession_def readTeamAssignment_def ex_save_defs)

lemma w5_decline_receipt [simp]: "map_of (db_requests (w5 m ev dl)) (ex_worker_key, ''team.assignment.decline'', s, q) = None"
  by (simp add: w5_def w4_def w3_def w2_def w1_def ex_join_receipt_def)

lemma ex_declined_reachable: "\<exists>d. reachable d \<and> db_assignments d = [(ex_id 6, arow ex_declined)]"
proof -
  from w_reachable(6) obtain m ev dl where r5: "reachable (w5 m ev dl)" by blast
  let ?a = "Request (Assignment (ex_id 2) (ex_id 6) ''decline'' ex_decline (ex_audit ex_worker) ''r6'' (Some (\<lambda>_. None)))"
  obtain d1 where tx: "ChangeTeamAssignment_tx (ex_env 7) (ex_id 2) (ex_id 6) ''decline'' ex_decline (ex_audit ex_worker) (Some (\<lambda>_. None)) (w5 m ev dl)
      = Inr (ex_declined, d1)" and d1: "db_assignments d1 = [(ex_id 6, arow ex_declined)]" using ex_decline_tx by blast
  have rq: "db_requests d1 = db_requests (w5 m ev dl)" by (rule grows_requests [OF ChangeTeamAssignment_tx_grows [OF tx]])
  have "\<exists>d'. act (ex_env 7) ?a (w5 m ev dl) = Inr d' \<and> db_assignments d' = [(ex_id 6, arow ex_declined)]"
    by (simp add: ChangeTeamAssignment_def checkedTaskMutation_def as_def scope_p bound_check_def tx tb_insert_def rq d1)
  then obtain d' where r: "act (ex_env 7) ?a (w5 m ev dl) = Inr d'" "db_assignments d' = [(ex_id 6, arow ex_declined)]" by blast
  have "reachable d'" by (rule reachable.acted [OF r5 _ r(1)]) (simp add: new_ids_def)
  with r(2) show ?thesis by blast
qed

theorem closed_attempt_is_final_witness:
  "\<exists>d. reachable d \<and> (\<forall>d'. acts\<^sup>*\<^sup>* d d' \<longrightarrow> map_of (db_assignments d') (ex_id 6) = Some (arow ex_declined))"
proof -
  obtain d where d: "reachable d" "db_assignments d = [(ex_id 6, arow ex_declined)]" using ex_declined_reachable by blast
  have "map_of (db_assignments d) (ex_id 6) = Some (arow ex_declined)" "\<not> reserved_state (am_State (ag_body (arow ex_declined)))"
    by (simp_all add: d(2) arow_def reserved_state_def)
  from closed_attempt_is_final [OF d(1) this] show ?thesis using d(1) by blast
qed

text \<open>An attempt never disappears, and its terms stay what was offered: in every later state
  the attempt is there, with the same task, team, coordinator, worker session, task revision,
  requirements and rationales; and once it carries a result, that result never changes.\<close>

theorem attempt_terms_are_fixed:
  assumes "reachable d" "map_of (db_assignments d) k = Some r" "acts\<^sup>*\<^sup>* d d'"
  shows "\<exists>r'. map_of (db_assignments d') k = Some r' \<and> terms (ag_body r') = terms (ag_body r)
    \<and> (am_Result (ag_body r) = None \<or> am_Result (ag_body r') = am_Result (ag_body r))"
proof -
  let ?P = "\<lambda>x. \<exists>r'. x = Some r' \<and> terms (ag_body r') = terms (ag_body r)
    \<and> (am_Result (ag_body r) = None \<or> am_Result (ag_body r') = am_Result (ag_body r))"
  show "?P (map_of (db_assignments d') k)"
  proof (rule acts_keep [OF assms(3,1)])
    show "?P (map_of (db_assignments d) k)" using assms(2) by blast
    fix d1 d2 assume "attempts_move d1 d2" "?P (map_of (db_assignments d1) k)"
    then show "?P (map_of (db_assignments d2) k)"
      unfolding attempts_move_def by (auto simp: attempt_step_def split: option.splits if_splits)
  qed
qed

theorem attempt_terms_are_fixed_witness:
  "\<exists>d d' r. reachable d \<and> acts d d' \<and> map_of (db_assignments d') (ex_id 6) = Some r \<and> terms (ag_body r) = terms ex_attempt"
proof -
  from w_reachable(6) obtain m ev dl where r5: "reachable (w5 m ev dl)" by blast
  from ex_accept_run obtain d' where r: "act (ex_env 7) ex_accept_action (w5 m ev dl) = Inr d'" by blast
  have a: "acts (w5 m ev dl) d'" unfolding acts_def by (intro disjI1 exI conjI, rule_tac [2] r) (simp add: new_ids_def)
  have "map_of (db_assignments (w5 m ev dl)) (ex_id 6) = Some (arow ex_attempt)" by simp
  from attempt_terms_are_fixed [OF r5 this r_into_rtranclp [of acts, OF a]]
  show ?thesis using r5 a by (auto simp: arow_def)
qed

end
