(* ===== verification/MessageProps.thy ===== *)
theory MessageProps
  imports Lifecycle ExamplesTeam
begin

text \<open>
  Team messages from the client's side: reading the history page by page, reading the inbox
  and acknowledging what it returned.
\<close>

section \<open>Numbered messages\<close>

lemma reachable_messages_ok: "reachable d \<Longrightarrow> messages_ok d"
proof (induction rule: reachable.induct)
  case (start project meta)
  then show ?case by (simp add: messages_ok_def)
next
  case (acted d e a d')
  from act_grows [OF acted(3)] acted.IH show ?case by (simp add: log_grows_def)
next
  case (settings d meta)
  then show ?case by (simp add: messages_ok_def)
qed

text \<open>A list in strictly increasing order of its keys, cut after the key of one element.\<close>

lemma filter_above:
  assumes "sorted_wrt (\<lambda>x y. f x < f y) xs" "0 < k" "k \<le> length xs"
  shows "filter (\<lambda>x. (f (xs ! (k - 1)) :: int) < f x) xs = drop k xs"
  using assms
proof (induction xs arbitrary: k)
  case (Cons x xs)
  show ?case
  proof (cases "k = 1")
    case True
    have "filter (\<lambda>y. f x < f y) xs = xs" using Cons.prems(1) by (simp add: filter_id_conv)
    then show ?thesis using True by simp
  next
    case False
    then obtain j where k: "k = Suc j" "0 < j" using Cons.prems(2) by (cases k) auto
    then have j: "j \<le> length xs" using Cons.prems(3) by simp
    then have "xs ! (j - 1) \<in> set xs" using k by (intro nth_mem) simp
    then have "f x < f (xs ! (j - 1))" using Cons.prems(1) by simp
    then have "\<not> f (xs ! (j - 1)) < f x" by simp
    moreover have "(x # xs) ! (k - 1) = xs ! (j - 1)" using k by (simp add: nth_Cons')
    moreover have "filter (\<lambda>y. f (xs ! (j - 1)) < f y) xs = drop j xs" using Cons.IH k(2) j Cons.prems(1) by simp
    ultimately show ?thesis using k by simp
  qed
qed simp

definition team_rows :: "string \<Rightarrow> int \<Rightarrow> db \<Rightarrow> (int \<times> message_row) list" where
  "team_rows team after d = filter (\<lambda>(n, r). mw_team_id r = team \<and> after < n) (numbered_messages d)"

lemma history_query: "message_query team after None d = map (\<lambda>(n, r). mw_body r) (team_rows team after d)"
  by (simp add: message_query_def team_rows_def)

lemma numbered_sorted: "sorted_wrt (\<lambda>x y. fst x < fst y) (numbered_messages d)"
  unfolding sorted_wrt_iff_nth_less numbered_messages_def by simp

lemma numbered_sequence: "messages_ok d \<Longrightarrow> (n, r) \<in> set (numbered_messages d) \<Longrightarrow> ms_Sequence (mw_body r) = n"
proof -
  assume ok: "messages_ok d" and m: "(n, r) \<in> set (numbered_messages d)"
  from m obtain k where k: "k < length (db_messages d)" "n = int k + 1" "r = db_messages d ! k"
    by (auto simp: numbered_messages_def set_zip)
  from ok have "map (\<lambda>r. ms_Sequence (mw_body r)) (db_messages d) = map (\<lambda>k. int k + 1) [0..<length (db_messages d)]" by (simp add: messages_ok_def)
  then have "map (\<lambda>r. ms_Sequence (mw_body r)) (db_messages d) ! k = map (\<lambda>k. int k + 1) [0..<length (db_messages d)] ! k" by simp
  then show ?thesis using k by simp
qed

lemma team_rows_from:
  assumes "messages_ok d" "0 < k" "k \<le> length (team_rows team after d)"
  shows "team_rows team (ms_Sequence (mw_body (snd (team_rows team after d ! (k - 1))))) d = drop k (team_rows team after d)"
proof -
  let ?R = "team_rows team after d"
  have m: "?R ! (k - 1) \<in> set ?R" using assms(2,3) by (intro nth_mem) simp
  then have s: "ms_Sequence (mw_body (snd (?R ! (k - 1)))) = fst (?R ! (k - 1))" and a: "after < fst (?R ! (k - 1))"
    using numbered_sequence [OF assms(1), of "fst (?R ! (k - 1))" "snd (?R ! (k - 1))"] by (auto simp: team_rows_def)
  have "sorted_wrt (\<lambda>x y. fst x < fst y) ?R" unfolding team_rows_def by (rule sorted_wrt_filter [OF numbered_sorted])
  from filter_above [OF this assms(2,3)] have "filter (\<lambda>x. fst (?R ! (k - 1)) < fst x) ?R = drop k ?R" .
  moreover have "team_rows team (fst (?R ! (k - 1))) d = filter (\<lambda>x. fst (?R ! (k - 1)) < fst x) ?R"
    unfolding team_rows_def filter_filter using a by (auto intro!: filter_cong simp: team_rows_def)
  ultimately show ?thesis using s by simp
qed

section \<open>Reading the history\<close>

text \<open>The client's loop: from cursor to cursor until a page says there is no more.\<close>

fun read_history :: "nat \<Rightarrow> env \<Rightarrow> string \<Rightarrow> TeamSessionHandle \<Rightarrow> int \<Rightarrow> int \<Rightarrow> TeamAuditContext \<Rightarrow> db \<Rightarrow> (err + TeamMessage list) option" where
  "read_history 0 e team h after limit au d = None"
| "read_history (Suc fuel) e team h after limit au d =
     (case TeamMessages e team h after limit False au d of
        Inl x \<Rightarrow> Some (Inl x)
      | Inr (pg, d') \<Rightarrow>
          if \<not> pg_HasMore pg then Some (Inr (pg_Messages pg))
          else map_option (map_sum id (\<lambda>ms. pg_Messages pg @ ms)) (read_history fuel e team h (pg_Next pg) limit au d'))"

lemma TeamMessages_history:
  assumes "taskScopeOK d = None" "0 \<le> after" "1 \<le> limit" "limit \<le> 100" "currentMessageSession team h (au_Actor au) d = Inr p"
  shows "TeamMessages e team h after limit False au d = Inr (\<lparr>pg_Messages = take (nat limit) (message_query team after None d),
      pg_Next = (if message_query team after None d = [] then after else ms_Sequence (last (take (nat limit) (message_query team after None d)))),
      pg_HasMore = limit < int (length (message_query team after None d)), pg_ServerTime = e_now e 0\<rparr>, d)"
proof -
  let ?q = "message_query team after None d"
  have "take (nat limit) (take (nat limit + 1) ?q) = take (nat limit) ?q" by simp
  moreover have "(take (nat limit) ?q = []) = (?q = [])" using assms(3) by simp
  moreover have "(int (length (take (nat limit + 1) ?q)) > limit) = (limit < int (length ?q))" using assms(3) by (simp add: min_def) linarith
  ultimately show ?thesis using assms by (cases p) (simp add: TeamMessages_def Let_def del: take_eq_Nil)
qed

lemma read_history_from:
  assumes "messages_ok d" "taskScopeOK d = None" "1 \<le> limit" "limit \<le> 100" "currentMessageSession team h (au_Actor au) d = Inr p"
  shows "0 \<le> after \<Longrightarrow> length (team_rows team after d) < fuel
    \<Longrightarrow> read_history fuel e team h after limit au d = Some (Inr (message_query team after None d))"
proof (induction fuel arbitrary: after)
  case (Suc fuel)
  let ?R = "team_rows team after d" and ?q = "message_query team after None d" and ?k = "nat limit"
  note T = TeamMessages_history [OF assms(2) Suc.prems(1) assms(3-5)]
  show ?case
  proof (cases "limit < int (length ?q)")
    case False
    then have "take ?k ?q = ?q" by simp
    then show ?thesis using False by (simp add: T)
  next
    case True
    then have k: "0 < ?k" "?k \<le> length ?R" "?k < length ?q" using assms(3) by (simp_all add: history_query)
    have ne: "?q \<noteq> []" "take ?k ?q \<noteq> []" using k by auto
    have "last (take ?k ?q) = take ?k ?q ! (length (take ?k ?q) - 1)" by (rule last_conv_nth [OF ne(2)])
    also have "\<dots> = ?q ! (?k - 1)" using k by (simp add: min_def)
    also have "\<dots> = mw_body (snd (?R ! (?k - 1)))" using k by (simp add: history_query case_prod_beta)
    finally have nx: "ms_Sequence (last (take ?k ?q)) = ms_Sequence (mw_body (snd (?R ! (?k - 1))))" by simp
    let ?n = "ms_Sequence (mw_body (snd (?R ! (?k - 1))))"
    have R: "team_rows team ?n d = drop ?k ?R" by (rule team_rows_from [OF assms(1) k(1,2)])
    have "?R ! (?k - 1) \<in> set ?R" using k by (intro nth_mem) simp
    then have "(fst (?R ! (?k - 1)), snd (?R ! (?k - 1))) \<in> set (numbered_messages d)" "after < fst (?R ! (?k - 1))" by (auto simp: team_rows_def)
    with numbered_sequence [OF assms(1)] Suc.prems(1) have "0 \<le> ?n" by fastforce
    moreover have "length (team_rows team ?n d) < fuel" using R k(1,2) Suc.prems(2) by simp
    ultimately have "read_history fuel e team h ?n limit au d = Some (Inr (message_query team ?n None d))" by (rule Suc.IH)
    moreover have "message_query team ?n None d = drop ?k ?q" unfolding history_query R by (simp add: drop_map)
    ultimately show ?thesis using True ne(1) by (simp add: T nx)
  qed
qed simp

text \<open>Paging is complete. In every reachable state, a client that follows the cursor from
  0, with any page size the hub allows, ends and has read every message of the team exactly once,
  in the order in which they were sent.\<close>

theorem history_is_read_completely:
  assumes "reachable d" "taskScopeOK d = None" "1 \<le> limit" "limit \<le> 100" "succeeds (currentMessageSession team h (au_Actor au) d)"
  shows "read_history (Suc (length (db_messages d))) e team h 0 limit au d
    = Some (Inr (map mw_body (filter (\<lambda>r. mw_team_id r = team) (db_messages d))))"
proof -
  obtain p where p: "currentMessageSession team h (au_Actor au) d = Inr p" using assms(5) by (auto simp: succeeds_iff)
  have n: "numbered_messages d = zip (map (\<lambda>k. int k + 1) [0..<length (db_messages d)]) (db_messages d)" by (simp add: numbered_messages_def)
  have pos: "0 < fst x" if "x \<in> set (numbered_messages d)" for x using that by (auto simp: n set_zip)
  then have "team_rows team 0 d = filter ((\<lambda>r. mw_team_id r = team) \<circ> snd) (numbered_messages d)"
    unfolding team_rows_def by (intro filter_cong) (auto simp: case_prod_beta)
  then have "map snd (team_rows team 0 d) = filter (\<lambda>r. mw_team_id r = team) (map snd (numbered_messages d))"
    by (simp add: filter_map)
  also have "map snd (numbered_messages d) = db_messages d" by (simp add: n)
  finally have r: "map snd (team_rows team 0 d) = filter (\<lambda>r. mw_team_id r = team) (db_messages d)" .
  have "message_query team 0 None d = map mw_body (map snd (team_rows team 0 d))" by (simp add: history_query case_prod_beta comp_def)
  with r have q: "message_query team 0 None d = map mw_body (filter (\<lambda>r. mw_team_id r = team) (db_messages d))"
    by simp
  have "length (team_rows team 0 d) \<le> length (db_messages d)" unfolding team_rows_def
    by (rule order.trans [OF length_filter_le]) (simp add: n)
  then show ?thesis using read_history_from [OF reachable_messages_ok [OF assms(1)] assms(2-4) p, of 0 "Suc (length (db_messages d))" e] q
    by (simp del: read_history.simps)
qed

theorem history_is_read_completely_witness:
  "\<exists>d. reachable d \<and> read_history (Suc (length (db_messages d))) (ex_env 9) (ex_id 2) \<lparr>sh_SessionID = ex_id 4, sh_Generation = 1\<rparr> 0 1 (ex_audit ex_worker) d
    = Some (Inr (map mw_body (db_messages d))) \<and> length (db_messages d) = 1"
proof -
  from w_reachable(6) obtain m ev dl where r: "reachable (w5 m ev dl)" by blast
  have "succeeds (currentMessageSession (ex_id 2) \<lparr>sh_SessionID = ex_id 4, sh_Generation = 1\<rparr> (au_Actor (ex_audit ex_worker)) (w5 m ev dl))"
    by (simp add: currentMessageSession_def)
  from history_is_read_completely [OF r _ _ _ this, of 1 "ex_env 9"] show ?thesis
    using r by (intro exI [of _ "w5 m ev dl"]) (simp add: scope_p)
qed

section \<open>The inbox\<close>

lemma TeamMessages_inbox:
  assumes "TeamMessages e team h after limit True au d = Inr (pg, d')" "pg_Messages pg \<noteq> []"
  obtains t s k ev where "currentMessageSession team h (au_Actor au) d = Inr (t, s)"
    "pg_Messages pg = take k (message_query team after (Some (se_ID s)) d)"
    "length (pg_Messages pg) \<le> 100" "d' = messageAudit e t s ''team.message.delivery_attempt'' ev au (mark_delivered (e_now e 0) (se_ID s) (pg_Messages pg) d)"
  using assms unfolding TeamMessages_def Let_def
  by (auto simp: tx_simps split: prod.splits if_splits)

lemma mark_delivered_keeps:
  "map_of (db_deliveries d) k = Some r \<Longrightarrow> \<exists>r'. map_of (db_deliveries (mark_delivered now sid ms d)) k = Some r' \<and> dl_acked_at r' = dl_acked_at r
    \<and> (dl_delivered_at r' = dl_delivered_at r \<or> dl_delivered_at r' = now)"
proof (induction ms arbitrary: d r)
  case (Cons m ms)
  show ?case
  proof (cases "map_of (db_deliveries d) (ms_ID m, sid)")
    case None
    with Cons show ?thesis by simp
  next
    case (Some q)
    let ?q = "q\<lparr>dl_delivered_at := now, dl_delivery_count := dl_delivery_count q + 1\<rparr>"
    have "\<exists>x. map_of (db_deliveries (d\<lparr>db_deliveries := AList.update (ms_ID m, sid) ?q (db_deliveries d)\<rparr>)) k = Some x
      \<and> dl_acked_at x = dl_acked_at r \<and> (dl_delivered_at x = dl_delivered_at r \<or> dl_delivered_at x = now)"
      using Some Cons.prems by auto
    with Cons.IH show ?thesis using Some by (fastforce simp: option.case)
  qed
qed simp

lemma mark_delivered_marks:
  "m \<in> set ms \<Longrightarrow> map_of (db_deliveries d) (ms_ID m, sid) = Some r \<Longrightarrow> \<exists>r'. map_of (db_deliveries (mark_delivered now sid ms d)) (ms_ID m, sid) = Some r'
    \<and> dl_acked_at r' = dl_acked_at r \<and> dl_delivered_at r' = now"
proof (induction ms arbitrary: d r)
  case (Cons n ms)
  show ?case
  proof (cases "ms_ID n = ms_ID m")
    case True
    let ?d = "d\<lparr>db_deliveries := AList.update (ms_ID m, sid) (r\<lparr>dl_delivered_at := now, dl_delivery_count := dl_delivery_count r + 1\<rparr>) (db_deliveries d)\<rparr>"
    have "map_of (db_deliveries ?d) (ms_ID m, sid) = Some (r\<lparr>dl_delivered_at := now, dl_delivery_count := dl_delivery_count r + 1\<rparr>)" by simp
    from mark_delivered_keeps [OF this, of now sid ms] True Cons.prems(2) show ?thesis by auto
  next
    case False
    then have m: "m \<in> set ms" using Cons.prems(1) by auto
    show ?thesis
    proof (cases "map_of (db_deliveries d) (ms_ID n, sid)")
      case None
      then show ?thesis using Cons.IH [OF m Cons.prems(2)] by simp
    next
      case (Some q)
      then show ?thesis using False Cons.prems(2)
        Cons.IH [OF m, of "d\<lparr>db_deliveries := AList.update (ms_ID n, sid) (q\<lparr>dl_delivered_at := now, dl_delivery_count := dl_delivery_count q + 1\<rparr>) (db_deliveries d)\<rparr>" r]
        by simp
    qed
  qed
qed simp

section \<open>Acknowledging\<close>

definition acked_row :: "env \<Rightarrow> delivery_row \<Rightarrow> delivery_row" where
  "acked_row e r = (if dl_acked_at r = [] then r\<lparr>dl_acked_at := e_now e 1\<rparr> else r)"

lemma ack_each_D:
  "ack_each e team sid ids d = Inr (changed, d') \<Longrightarrow> distinct ids \<Longrightarrow>
   d' = d\<lparr>db_deliveries := db_deliveries d'\<rparr>
   \<and> (\<forall>i \<in> set ids. list_ex (\<lambda>r. mw_id r = i \<and> mw_team_id r = team) (db_messages d)
        \<and> (\<exists>r. map_of (db_deliveries d) (i, sid) = Some r \<and> dl_delivered_at r \<noteq> [] \<and> map_of (db_deliveries d') (i, sid) = Some (acked_row e r)))
   \<and> (\<forall>k. k \<notin> (\<lambda>i. (i, sid)) ` set ids \<longrightarrow> map_of (db_deliveries d') k = map_of (db_deliveries d) k)"
proof (induction ids arbitrary: changed d)
  case (Cons i ids)
  from Cons.prems(1) obtain r where r: "map_of (db_deliveries d) (i, sid) = Some r" "dl_delivered_at r \<noteq> []"
    and m: "list_ex (\<lambda>r. mw_id r = i \<and> mw_team_id r = team) (db_messages d)"
    by (auto split: if_splits option.splits)
  let ?d = "if dl_acked_at r = [] then d\<lparr>db_deliveries := AList.update (i, sid) (acked_row e r) (db_deliveries d)\<rparr> else d"
  from Cons.prems(1) r m obtain c where c: "ack_each e team sid ids ?d = Inr (c, d')"
    by (auto simp: acked_row_def split: if_splits sum.splits prod.splits)
  have d: "map_of (db_deliveries ?d) (i, sid) = Some (acked_row e r)" using r(1) by (simp add: acked_row_def)
  have o: "map_of (db_deliveries ?d) k = map_of (db_deliveries d) k" if "k \<noteq> (i, sid)" for k using that by simp
  have f: "db_messages ?d = db_messages d" "?d\<lparr>db_deliveries := x\<rparr> = d\<lparr>db_deliveries := x\<rparr>" for x by simp_all
  have i: "i \<notin> set ids" "distinct ids" using Cons.prems(2) by auto
  note I = Cons.IH [OF c i(2), unfolded f]
  note IH = I [THEN conjunct1] I [THEN conjunct2, THEN conjunct1, rule_format] I [THEN conjunct2, THEN conjunct2, rule_format]
  have "map_of (db_deliveries d') (i, sid) = Some (acked_row e r)" using IH(3) [of "(i, sid)"] i(1) d by force
  moreover have "\<exists>r. map_of (db_deliveries d) (j, sid) = Some r \<and> dl_delivered_at r \<noteq> [] \<and> map_of (db_deliveries d') (j, sid) = Some (acked_row e r)"
    if "j \<in> set ids" for j using IH(2) [OF that] o [of "(j, sid)"] that i(1) by fastforce
  moreover have "map_of (db_deliveries d') k = map_of (db_deliveries d) k" if "k \<notin> (\<lambda>i. (i, sid)) ` set (i # ids)" for k
    using IH(3) [of k] o [of k] that by force
  ultimately show ?case using IH(1,2) r m by simp
qed auto

lemma ack_each_returns:
  assumes "distinct ids" "\<And>i. i \<in> set ids \<Longrightarrow> list_ex (\<lambda>r. mw_id r = i \<and> mw_team_id r = team) (db_messages d)
      \<and> (\<exists>r. map_of (db_deliveries d) (i, sid) = Some r \<and> dl_delivered_at r \<noteq> [])"
  shows "\<exists>x. ack_each e team sid ids d = Inr x"
  using assms
proof (induction ids arbitrary: d)
  case (Cons i ids)
  from Cons.prems(2) [of i] obtain r where r: "map_of (db_deliveries d) (i, sid) = Some r" "dl_delivered_at r \<noteq> []"
    and m: "list_ex (\<lambda>r. mw_id r = i \<and> mw_team_id r = team) (db_messages d)" by auto
  show ?case
  proof (cases "dl_acked_at r = []")
    case True
    have "\<exists>x. ack_each e team sid ids (d\<lparr>db_deliveries := AList.update (i, sid) (r\<lparr>dl_acked_at := e_now e 1\<rparr>) (db_deliveries d)\<rparr>) = Inr x"
      using Cons.prems by (intro Cons.IH) (auto simp: update_conv)
    then show ?thesis using r m True by auto
  next
    case False
    have "\<exists>x. ack_each e team sid ids d = Inr x" using Cons.prems by (intro Cons.IH) auto
    then show ?thesis using r m False by simp
  qed
qed simp

text \<open>Who may speak in a session does not depend on the mailboxes or on the log.\<close>

lemma member_tables [simp]:
  "requireTeamMember team a c (d\<lparr>db_deliveries := x\<rparr>) = requireTeamMember team a c d"
  "requireTeamMember team a c (d\<lparr>db_team_events := v\<rparr>) = requireTeamMember team a c d"
  by (simp_all add: requireTeamMember_def TasksEnabled_def readTeam_def)

lemma session_tables:
  "boundTeamSession team sid a (d\<lparr>db_deliveries := x\<rparr>) = boundTeamSession team sid a d"
  "boundTeamSession team sid a (putTeamEvent n ev d) = boundTeamSession team sid a d"
  "taskScopeOK (d\<lparr>db_deliveries := x\<rparr>) = taskScopeOK d" "taskScopeOK (putTeamEvent n ev d) = taskScopeOK d"
  by (simp_all add: boundTeamSession_def readTeamSession_def putTeamEvent_def taskScopeOK_def split: sum.split option.split)

lemma mark_delivered_tables: "\<exists>x. mark_delivered now sid ms d = d\<lparr>db_deliveries := x\<rparr>"
proof (induction ms arbitrary: d)
  case Nil
  show ?case by (rule exI [of _ "db_deliveries d"]) simp
next
  case (Cons m ms)
  show ?case
  proof (cases "map_of (db_deliveries d) (ms_ID m, sid)")
    case None
    then show ?thesis using Cons.IH [of d] by simp
  next
    case (Some r)
    then show ?thesis
      using Cons.IH [of "d\<lparr>db_deliveries := AList.update (ms_ID m, sid)
        (r\<lparr>dl_delivered_at := now, dl_delivery_count := dl_delivery_count r + 1\<rparr>) (db_deliveries d)\<rparr>"] by simp
  qed
qed

lemma bound_session_id: "reachable d \<Longrightarrow> boundTeamSession team sid a d = Inr (t, s) \<Longrightarrow> se_ID s = sid"
  using readTeamSession_D [OF reachable_team_inv boundTeamSession_D(1)] by metis

lemma bound_scope: "boundTeamSession team sid a d = Inr (t, s) \<Longrightarrow> \<exists>k. actor_key a = Inr k"
  by (auto simp: boundTeamSession_def requireTeamMember_def tx_simps succeeds_iff split: if_splits)

lemma messageAudit_sel [simp]: "db_deliveries (messageAudit e t s op ids au d) = db_deliveries d"
  "db_messages (messageAudit e t s op ids au d) = db_messages d" "db_requests (messageAudit e t s op ids au d) = db_requests d"
  by (simp_all add: messageAudit_def putTeamEvent_def)

lemma ack_changes:
  assumes "AckTeamMessages e team h ids au key d = Inr (a, d')" "actor_key (au_Actor au) = Inr ak"
    "map_of (db_requests d) (ak, ''team.message.ack'', team, key) = None"
  obtains t s changed d1 where "boundTeamSession team (sh_SessionID h) (au_Actor au) d = Inr (t, s)" "distinct ids"
    "ack_each e team (se_ID s) ids d = Inr (changed, d1)" "db_deliveries d' = db_deliveries d1"
  using assms unfolding AckTeamMessages_def checkedTaskMutation_def AckTeamMessages_tx_def
  by (auto simp: tx_simps split: if_splits prod.splits)

text \<open>C31: An acknowledgement names exactly what it acknowledges. A new command that the hub
  accepts names messages of its team that were already delivered to its own session; their rows are
  acknowledged, and no other delivery row changes: a cursor range or another session's inbox cannot
  be acknowledged.\<close>

theorem ack_is_precise:
  assumes "reachable d" "AckTeamMessages e team h ids au key d = Inr (a, d')" "actor_key (au_Actor au) = Inr ak"
    "map_of (db_requests d) (ak, ''team.message.ack'', team, key) = None"
  shows "(\<forall>i \<in> set ids. \<exists>r. map_of (db_deliveries d) (i, sh_SessionID h) = Some r \<and> dl_delivered_at r \<noteq> []
        \<and> list_ex (\<lambda>m. mw_id m = i \<and> mw_team_id m = team) (db_messages d)
        \<and> map_of (db_deliveries d') (i, sh_SessionID h) = Some (if dl_acked_at r = [] then r\<lparr>dl_acked_at := e_now e 1\<rparr> else r))
    \<and> (\<forall>i sid. sid \<noteq> sh_SessionID h \<or> i \<notin> set ids \<longrightarrow> map_of (db_deliveries d') (i, sid) = map_of (db_deliveries d) (i, sid))"
proof -
  from ack_changes [OF assms(2-4)] obtain t s changed d1 where b: "boundTeamSession team (sh_SessionID h) (au_Actor au) d = Inr (t, s)"
    and x: "distinct ids" "ack_each e team (se_ID s) ids d = Inr (changed, d1)" "db_deliveries d' = db_deliveries d1" by metis
  note D = ack_each_D [OF x(2,1)] and sid = bound_session_id [OF assms(1) b]
  have "map_of (db_deliveries d') (i, sid) = map_of (db_deliveries d) (i, sid)" if "sid \<noteq> sh_SessionID h \<or> i \<notin> set ids" for i sid
    using D [THEN conjunct2, THEN conjunct2, rule_format, of "(i, sid)"] that sid x(3) by auto
  then show ?thesis using D [THEN conjunct2, THEN conjunct1] unfolding sid x(3) acked_row_def by fastforce
qed

section \<open>Draining the inbox\<close>

lemma mark_delivered_acked:
  "map_option dl_acked_at (map_of (db_deliveries (mark_delivered now sid ms d)) k) = map_option dl_acked_at (map_of (db_deliveries d) k)"
proof (induction ms arbitrary: d)
  case (Cons m ms)
  then show ?case by (cases "map_of (db_deliveries d) (ms_ID m, sid)") (auto simp: update_conv)
qed simp

lemma unacked_option: "unacked i sid d \<longleftrightarrow> map_option dl_acked_at (map_of (db_deliveries d) (i, sid)) = Some []"
  by (auto simp: unacked_def split: option.splits)

lemma query_rows:
  assumes "messages_ok d" "m \<in> set (message_query team n inbox d)"
  shows "\<exists>r \<in> set (db_messages d). mw_body r = m \<and> mw_id r = ms_ID m \<and> mw_team_id r = team
    \<and> (\<forall>sid. inbox = Some sid \<longrightarrow> unacked (ms_ID m) sid d)"
proof -
  from assms(2) obtain j r where r: "(j, r) \<in> set (numbered_messages d)" "mw_team_id r = team" "mw_body r = m"
    "case inbox of None \<Rightarrow> True | Some sid \<Rightarrow> unacked (mw_id r) sid d" by (auto simp: message_query_def)
  then have m: "r \<in> set (db_messages d)" by (auto simp: numbered_messages_def dest: set_zip_rightD)
  with assms(1) r(3) have "mw_id r = ms_ID m" by (auto simp: messages_ok_def)
  with r m show ?thesis by (intro bexI [of _ r] conjI allI impI) simp_all
qed

lemma query_distinct:
  assumes "messages_ok d"
  shows "distinct (map ms_ID (message_query team n inbox d))"
proof -
  have "map mw_id (map snd (numbered_messages d)) = map mw_id (db_messages d)" by (simp add: numbered_messages_def)
  then have "distinct (map (\<lambda>x. mw_id (snd x)) (numbered_messages d))" using assms by (simp add: messages_ok_def comp_def)
  then have "distinct (map (\<lambda>x. mw_id (snd x)) (filter p (numbered_messages d)))" for p by (rule distinct_map_filter)
  moreover have "ms_ID (mw_body (snd x)) = mw_id (snd x)" if "x \<in> set (numbered_messages d)" for x
    using assms that by (cases x) (auto simp: messages_ok_def numbered_messages_def dest: set_zip_rightD)
  then have "map ms_ID (map (\<lambda>(n, r). mw_body r) (filter p (numbered_messages d))) = map (\<lambda>x. mw_id (snd x)) (filter p (numbered_messages d))" for p
    by (auto simp: case_prod_beta)
  ultimately show ?thesis unfolding message_query_def by (simp only:)
qed

lemma query_after_ack:
  assumes "messages_ok d" "db_messages d2 = db_messages d"
    "\<And>i. unacked i sid d2 \<longleftrightarrow> unacked i sid d \<and> i \<notin> S"
  shows "message_query team n (Some sid) d2 = filter (\<lambda>m. ms_ID m \<notin> S) (message_query team n (Some sid) d)"
proof -
  have "ms_ID (mw_body r) = mw_id r" if "(j, r) \<in> set (numbered_messages d)" for j r
    using assms(1) that by (auto simp: messages_ok_def numbered_messages_def dest: set_zip_rightD)
  moreover have "numbered_messages d2 = numbered_messages d" by (simp add: numbered_messages_def assms(2))
  ultimately show ?thesis unfolding message_query_def filter_map filter_filter comp_def
    by (intro arg_cong [where f = "map _"] filter_cong) (auto simp: assms(3))
qed

lemma page_is_acked:
  assumes "reachable d" "TeamMessages e team h after limit True au d = Inr (pg, d1)" "pg_Messages pg \<noteq> []"
    "list_all is_id (map ms_ID (pg_Messages pg))" "e_now e 0 \<noteq> []" "e_now e' 1 \<noteq> []" "taskText key MaxTaskKeyBytes True = None"
    "\<forall>ak. map_of (db_requests d) (ak, ''team.message.ack'', team, key) = None"
  shows "\<exists>a d2. AckTeamMessages e' team h (map ms_ID (pg_Messages pg)) au key d1 = Inr (a, d2) \<and> db_messages d2 = db_messages d
    \<and> (\<forall>i. unacked i (sh_SessionID h) d2 \<longleftrightarrow> unacked i (sh_SessionID h) d \<and> i \<notin> ms_ID ` set (pg_Messages pg))"
proof -
  let ?sid = "sh_SessionID h" and ?ids = "map ms_ID (pg_Messages pg)" and ?k = "''team.message.ack''"
  note ok = reachable_messages_ok [OF assms(1)]
  from TeamMessages_inbox [OF assms(2,3)] obtain t s k ev where c: "currentMessageSession team h (au_Actor au) d = Inr (t, s)"
    and pg: "pg_Messages pg = take k (message_query team after (Some (se_ID s)) d)"
    and len: "length (pg_Messages pg) \<le> 100"
    and d1: "d1 = messageAudit e t s ''team.message.delivery_attempt'' ev au (mark_delivered (e_now e 0) (se_ID s) (pg_Messages pg) d)" by metis
  note b = currentMessageSession_D(1) [OF c] and sid = bound_session_id [OF assms(1) currentMessageSession_D(1) [OF c]]
  have h: "se_State s = ''active''" "\<not> sh_Generation h < 1" "se_Generation s = sh_Generation h"
    using c by (auto simp: currentMessageSession_def b split: if_splits)
  from mark_delivered_tables [of "e_now e 0" ?sid "pg_Messages pg" d] obtain x
    where x: "mark_delivered (e_now e 0) ?sid (pg_Messages pg) d = d\<lparr>db_deliveries := x\<rparr>" by blast
  have D1: "db_deliveries d1 = db_deliveries (mark_delivered (e_now e 0) ?sid (pg_Messages pg) d)" "db_messages d1 = db_messages d"
    "db_requests d1 = db_requests d" "boundTeamSession team ?sid (au_Actor au) d1 = Inr (t, s)" "taskScopeOK d1 = taskScopeOK d"
    by (simp_all add: d1 sid x) (simp_all add: messageAudit_def session_tables b)
  have row: "list_ex (\<lambda>r. mw_id r = i \<and> mw_team_id r = team) (db_messages d1)
      \<and> (\<exists>r. map_of (db_deliveries d1) (i, ?sid) = Some r \<and> dl_delivered_at r \<noteq> [])" if i: "i \<in> set ?ids" for i
  proof -
    from i obtain m where m: "m \<in> set (pg_Messages pg)" "i = ms_ID m" by auto
    then have "m \<in> set (message_query team after (Some ?sid) d)" using pg sid in_set_takeD by metis
    from query_rows [OF ok this] m(2) have q: "list_ex (\<lambda>r. mw_id r = i \<and> mw_team_id r = team) (db_messages d)" "unacked i ?sid d"
      by (auto simp: list_ex_iff)
    then obtain r where "map_of (db_deliveries d) (ms_ID m, ?sid) = Some r" by (auto simp: unacked_def m split: option.splits)
    from mark_delivered_marks [OF m(1) this, of "e_now e 0"] q(1) assms(5) show ?thesis by (auto simp: D1 m)
  qed
  have dis: "distinct ?ids" using query_distinct [OF ok, of team after "Some (se_ID s)"] by (simp add: pg flip: take_map)
  from ack_each_returns [OF dis row, of e'] obtain ch d' where a: "ack_each e' team ?sid ?ids d1 = Inr (ch, d')" by auto
  note A = ack_each_D [OF a dis]
  from bound_scope [OF b] obtain ak where ak: "actor_key (au_Actor au) = Inr ak" by blast
  from assms(2) have sc: "taskScopeOK d = None" by (simp add: TeamMessages_def split: option.splits)
  define d2 where "d2 = (if ch = [] then d' else messageAudit e' t s ''team.message.ack'' ch au d')"
  have r2: "db_requests d2 = db_requests d" and m2: "db_messages d2 = db_messages d" and v2: "db_deliveries d2 = db_deliveries d'"
    using A [THEN conjunct1] D1(2,3) by (simp_all add: d2_def) (metis db.select_convs db.surjective db.update_convs)+
  let ?d3 = "d2\<lparr>db_requests := db_requests d2 @ [((ak, ?k, team, key), receiptDigest (e_sha e') (JObj [(''Handle'', json_handle h), (''IDs'', JArr (map JStr ?ids))]),
      RAck \<lparr>ak_MessageIDs = ?ids\<rparr>)]\<rparr>"
  have tx: "AckTeamMessages_tx e' team h ?ids au (t, s) d1 = Inr (\<lparr>ak_MessageIDs = ?ids\<rparr>, d2)"
    by (simp add: AckTeamMessages_tx_def h sid a d2_def)
  have "1 \<le> length ?ids" using assms(3) by (cases "pg_Messages pg") auto
  then have "AckTeamMessages e' team h ?ids au key d1 = Inr (\<lparr>ak_MessageIDs = ?ids\<rparr>, ?d3)"
    using assms(3,4,7,8) len dis unfolding AckTeamMessages_def checkedTaskMutation_def D1(5) sc ak
    by (simp add: D1 ak tx tb_insert_def r2)
  moreover have "unacked i ?sid ?d3 \<longleftrightarrow> unacked i ?sid d \<and> i \<notin> ms_ID ` set (pg_Messages pg)" for i
  proof (cases "i \<in> set ?ids")
    case True
    from A [THEN conjunct2, THEN conjunct1, rule_format, OF True] obtain r where "map_of (db_deliveries d') (i, ?sid) = Some (acked_row e' r)"
      by blast
    then have "\<not> unacked i ?sid ?d3" using assms(6) by (simp add: unacked_def v2 acked_row_def)
    with True show ?thesis by simp
  next
    case False
    then have "map_of (db_deliveries d') (i, ?sid) = map_of (db_deliveries d1) (i, ?sid)"
      by (intro A [THEN conjunct2, THEN conjunct2, rule_format]) auto
    then show ?thesis using False mark_delivered_acked [of "e_now e 0" ?sid "pg_Messages pg" d "(i, ?sid)"] by (simp add: unacked_option v2 D1)
  qed
  moreover have "db_messages ?d3 = db_messages d" by (simp add: m2)
  ultimately show ?thesis by blast
qed

text \<open>C30: What an inbox read returned can be acknowledged, and is then done with. In every
  reachable state, a new acknowledgement of exactly the messages of the page just read succeeds,
  and afterwards the inbox is the old inbox without these messages, at every cursor.\<close>

theorem inbox_drains:
  assumes "reachable d" "TeamMessages e team h after limit True au d = Inr (pg, d1)" "pg_Messages pg \<noteq> []"
    "list_all is_id (map ms_ID (pg_Messages pg))" "e_now e 0 \<noteq> []" "e_now e' 1 \<noteq> []" "taskText key MaxTaskKeyBytes True = None"
    "\<forall>ak. map_of (db_requests d) (ak, ''team.message.ack'', team, key) = None"
  shows "\<exists>a d2. AckTeamMessages e' team h (map ms_ID (pg_Messages pg)) au key d1 = Inr (a, d2)
    \<and> (\<forall>n. message_query team n (Some (sh_SessionID h)) d2
          = filter (\<lambda>m. ms_ID m \<notin> ms_ID ` set (pg_Messages pg)) (message_query team n (Some (sh_SessionID h)) d))"
  using page_is_acked [OF assms] query_after_ack [OF reachable_messages_ok [OF assms(1)]] by meson

lemma w5_inbox: "ms_ID m = ex_id 6 \<Longrightarrow> dl_acked_at dl = [] \<Longrightarrow>
  \<exists>pg d1. TeamMessages (ex_env 9) (ex_id 2) \<lparr>sh_SessionID = ex_id 4, sh_Generation = 1\<rparr> 0 100 True (ex_audit ex_worker) (w5 m ev dl) = Inr (pg, d1)
    \<and> pg_Messages pg = [m]"
  by (simp add: TeamMessages_def currentMessageSession_def message_query_def numbered_messages_def unacked_def scope_p)

lemma w5_no_ack: "map_of (db_requests (w5 m ev dl)) (ak, ''team.message.ack'', ex_id 2, ''r6'') = None"
  by (simp add: w5_def w4_def w3_def w2_def w1_def ex_join_receipt_def)

theorem inbox_drains_witness: "\<exists>d d1 pg a d2. reachable d
    \<and> TeamMessages (ex_env 9) (ex_id 2) \<lparr>sh_SessionID = ex_id 4, sh_Generation = 1\<rparr> 0 100 True (ex_audit ex_worker) d = Inr (pg, d1)
    \<and> AckTeamMessages (ex_env 9) (ex_id 2) \<lparr>sh_SessionID = ex_id 4, sh_Generation = 1\<rparr> (map ms_ID (pg_Messages pg)) (ex_audit ex_worker) ''r6'' d1 = Inr (a, d2)
    \<and> length (pg_Messages pg) = 1 \<and> message_query (ex_id 2) 0 (Some (ex_id 4)) d2 = []"
proof -
  from w_reachable(7) obtain m ev dl where r: "reachable (w5 m ev dl)" and i: "ms_ID m = ex_id 6" "dl_acked_at dl = []" by blast
  from w5_inbox [OF i] obtain pg d1 where p: "TeamMessages (ex_env 9) (ex_id 2) \<lparr>sh_SessionID = ex_id 4, sh_Generation = 1\<rparr> 0 100 True (ex_audit ex_worker) (w5 m ev dl) = Inr (pg, d1)"
    and m: "pg_Messages pg = [m]" by blast
  from inbox_drains [OF r p, of "ex_env 9" "''r6''"] m i(1) w5_no_ack
  obtain a d2 where "AckTeamMessages (ex_env 9) (ex_id 2) \<lparr>sh_SessionID = ex_id 4, sh_Generation = 1\<rparr> (map ms_ID (pg_Messages pg)) (ex_audit ex_worker) ''r6'' d1 = Inr (a, d2)"
    and "message_query (ex_id 2) 0 (Some (ex_id 4)) d2 = filter (\<lambda>m. ms_ID m \<notin> ms_ID ` set (pg_Messages pg)) (message_query (ex_id 2) 0 (Some (ex_id 4)) (w5 m ev dl))"
    by auto
  moreover from this(2) have "message_query (ex_id 2) 0 (Some (ex_id 4)) d2 = []" by (simp add: m message_query_def numbered_messages_def)
  ultimately show ?thesis using r p m by (intro exI [of _ "w5 m ev dl"] exI [of _ d1] exI [of _ pg] exI [of _ a] exI [of _ d2]) simp
qed

theorem ack_is_precise_witness: "\<exists>d a d'. reachable d
    \<and> AckTeamMessages (ex_env 9) (ex_id 2) \<lparr>sh_SessionID = ex_id 4, sh_Generation = 1\<rparr> [ex_id 6] (ex_audit ex_worker) ''r6'' d = Inr (a, d')
    \<and> (\<exists>r. map_of (db_deliveries d) (ex_id 6, ex_id 4) = Some r \<and> dl_delivered_at r \<noteq> [])
    \<and> map_of (db_deliveries d') (ex_id 6, ex_id 3) = map_of (db_deliveries d) (ex_id 6, ex_id 3)"
proof -
  let ?h = "\<lparr>sh_SessionID = ex_id 4, sh_Generation = 1\<rparr>"
  from w_reachable(7) obtain m ev dl where r: "reachable (w5 m ev dl)" and i: "ms_ID m = ex_id 6" "dl_acked_at dl = []" by blast
  from w5_inbox [OF i] obtain pg d1 where p: "TeamMessages (ex_env 9) (ex_id 2) ?h 0 100 True (ex_audit ex_worker) (w5 m ev dl) = Inr (pg, d1)"
    and m: "pg_Messages pg = [m]" by blast
  have "act (ex_env 9) (Inbox (ex_id 2) ?h 0 100 True (ex_audit ex_worker)) (w5 m ev dl) = Inr d1" by (simp add: p)
  then have r1: "reachable d1" by (rule reachable.acted [OF r, rotated]) (simp add: new_ids_def)
  from page_is_acked [OF r p, of "ex_env 9" "''r6''"] m i(1) w5_no_ack
  obtain a d2 where ack: "AckTeamMessages (ex_env 9) (ex_id 2) ?h [ex_id 6] (ex_audit ex_worker) ''r6'' d1 = Inr (a, d2)" by auto
  from TeamMessages_inbox [OF p] m obtain t s ev' where
    "d1 = messageAudit (ex_env 9) t s ''team.message.delivery_attempt'' ev' (ex_audit ex_worker)
       (mark_delivered (e_now (ex_env 9) 0) (se_ID s) (pg_Messages pg) (w5 m ev dl))" by (metis list.discI)
  moreover obtain x where "mark_delivered (e_now (ex_env 9) 0) (se_ID s) (pg_Messages pg) (w5 m ev dl) = w5 m ev dl\<lparr>db_deliveries := x\<rparr>"
    using mark_delivered_tables by blast
  ultimately have "db_requests d1 = db_requests (w5 m ev dl)" by simp
  then have "map_of (db_requests d1) (ex_worker_key, ''team.message.ack'', ex_id 2, ''r6'') = None" by (simp only: w5_no_ack)
  from ack_is_precise [OF r1 ack _ this] have P: "\<exists>r. map_of (db_deliveries d1) (ex_id 6, ex_id 4) = Some r \<and> dl_delivered_at r \<noteq> []"
    "map_of (db_deliveries d2) (ex_id 6, ex_id 3) = map_of (db_deliveries d1) (ex_id 6, ex_id 3)" by auto
  from r1 ack P show ?thesis by (intro exI [of _ d1] exI [of _ a] exI [of _ d2] conjI)
qed

end
