(* ===== verification/TaskLocProps.thy ===== *)
theory TaskLocProps
  imports TaskLoc ExamplesBoard
begin

text \<open>
  Lookups against the history of the hub: whatever was looked up, created, renamed or dropped
  before, and whatever could not be read then, the remembered hints and misses never show in an
  answer.
\<close>

section \<open>The hub and what a lookup sees of it\<close>

text \<open>The hub: its ordinary projects with their databases, readable at the moment or not.\<close>

type_synonym hub = "string \<rightharpoonup> db"

definition tasks_of :: "hub \<Rightarrow> string set" where
  "tasks_of hub = {i. \<exists>p d. hub p = Some d \<and> has_task i d}"

text \<open>Identifiers are keys and well formed, and a task is in one project.\<close>

definition hub_good :: "hub \<Rightarrow> bool" where
  "hub_good hub \<longleftrightarrow> (\<forall>p d. hub p = Some d \<longrightarrow> distinct (map fst (db_tasks d)) \<and> (\<forall>i. has_task i d \<longrightarrow> is_id i))
     \<and> (\<forall>p d p' d' i. hub p = Some d \<and> has_task i d \<and> hub p' = Some d' \<and> has_task i d' \<longrightarrow> p' = p)"

text \<open>A world shows the hub: it lists exactly the hub's projects, beside the reserved ones, unless the
  listing fails, and what opens is a project of the hub. A project of the hub may fail to open.\<close>

definition shown :: "hub \<Rightarrow> world \<Rightarrow> bool" where
  "shown hub w \<longleftrightarrow> wd_fault w \<noteq> Some ErrTaskNotFound
     \<and> (\<forall>ps. Projects w = Inr ps \<longrightarrow> distinct ps \<and> {p \<in> set ps. \<not> IsReservedProject p} = dom hub)
     \<and> (\<forall>p d. OpenExisting p w = Inr d \<and> (\<not> IsReservedProject p \<or> (\<exists>i. has_task i d)) \<longrightarrow> hub p = Some d)"

text \<open>What is still believed missing is missing.\<close>

definition hints_true :: "int \<Rightarrow> hub \<Rightarrow> taskHints \<Rightarrow> bool" where
  "hints_true now hub h \<longleftrightarrow> (\<forall>k at. map_of (th_miss h) k = Some at \<and> now - at \<le> taskMissTTL \<longrightarrow> (\<forall>i \<in> tasks_of hub. \<not> prefix k i))"

section \<open>Histories of lookups\<close>

text \<open>Tasks are looked up and resolved, created through the registry, which notes them, and projects
  change without gaining tasks: updates, renames, merges, drops. A project may be unreadable at any
  moment. A rename, merge or drop may also overlap a lookup: a scan whose lifecycle generation moved
  meanwhile may see anything at all, and the hub after it need not be the hub before. A creation
  falls between two lookups, not inside a scan.\<close>

inductive lookups :: "int \<Rightarrow> hub \<Rightarrow> taskHints \<Rightarrow> bool" where
  start: "hub_good hub \<Longrightarrow> lookups now hub newTaskHints"
| located: "lookups now hub h \<Longrightarrow> shown hub w \<Longrightarrow> hub_good hub' \<Longrightarrow> tasks_of hub' \<subseteq> tasks_of hub
    \<Longrightarrow> (\<forall>k. snd (scans k) \<or> shown hub' (fst (scans k))) \<Longrightarrow> LocateTask now w scans i h = (r, h') \<Longrightarrow> lookups now hub' h'"
| resolved: "lookups now hub h \<Longrightarrow> mv \<or> shown hub w \<Longrightarrow> ResolveTaskID now w mv arg h = (res, h') \<Longrightarrow> lookups now hub h'"
| created: "lookups now hub h \<Longrightarrow> hub_good hub' \<Longrightarrow> tasks_of hub' \<subseteq> insert i (tasks_of hub) \<Longrightarrow> lookups now hub' (put i p h)"
| changed: "lookups now hub h \<Longrightarrow> hub_good hub' \<Longrightarrow> tasks_of hub' \<subseteq> tasks_of hub \<Longrightarrow> lookups now hub' h"
| later: "lookups now hub h \<Longrightarrow> now \<le> now' \<Longrightarrow> lookups now' hub h"

section \<open>Scans\<close>

lemma scan_from_found:
  "scan_from w i ps u = Inr (p, d) \<Longrightarrow> p \<in> set ps \<and> \<not> IsReservedProject p \<and> OpenExisting p w = Inr d \<and> succeeds (GetTask i d)"
  by (induction w i ps u rule: scan_from.induct) (auto simp: succeeds_iff split: if_splits sum.splits)

lemma scan_from_finds:
  assumes "\<not> IsReservedProject p" "OpenExisting p w = Inr d" "succeeds (GetTask i d)"
  shows "p \<in> set ps \<Longrightarrow> \<exists>q. scan_from w i ps u = Inr q"
proof (induction ps arbitrary: u)
  case (Cons x ps)
  show ?case
  proof (cases "x = p")
    case True
    then show ?thesis using assms by (auto simp: succeeds_iff)
  next
    case False
    with Cons have "\<exists>q. scan_from w i ps v = Inr q" for v by simp
    then show ?thesis by (simp split: sum.split)
  qed
qed simp

lemma scan_from_nothing:
  "scan_from w i ps u = Inl ErrTaskNotFound \<Longrightarrow> u \<noteq> Some ErrTaskNotFound
    \<Longrightarrow> u = None \<and> (\<forall>p \<in> set ps. \<not> IsReservedProject p \<longrightarrow> (\<exists>d. OpenExisting p w = Inr d \<and> \<not> succeeds (GetTask i d)))"
proof (induction ps arbitrary: u)
  case (Cons p ps)
  show ?case
  proof (cases "IsReservedProject p")
    case True
    with Cons show ?thesis by simp
  next
    case False
    show ?thesis
    proof (cases "OpenExisting p w")
      case (Inl x)
      with Cons.prems(1) False have "scan_from w i ps (Some (ErrOther ''task lookup incomplete: a project could not be opened'')) = Inl ErrTaskNotFound" by simp
      from Cons.IH [OF this] show ?thesis by simp
    next
      case (Inr d)
      show ?thesis
      proof (cases "GetTask i d")
        case (Inl x)
        have "scan_from w i ps (if x \<noteq> ErrTaskNotFound then Some (ErrOther ''task lookup incomplete: a project could not be read'') else u) = Inl ErrTaskNotFound"
          using Cons.prems(1) False Inr Inl by simp
        note IH = Cons.IH [OF this]
        have x: "x = ErrTaskNotFound" using IH by (cases "x = ErrTaskNotFound") simp_all
        with IH Cons.prems(2) Inr Inl show ?thesis by (simp add: succeeds_iff)
      qed (use Cons.prems(1) False Inr in simp)
    qed
  qed
qed (auto split: option.splits)

lemma shown_hub: "shown hub w \<Longrightarrow> OpenExisting p w = Inr d \<Longrightarrow> \<not> IsReservedProject p \<or> has_task i d \<Longrightarrow> hub p = Some d"
  unfolding shown_def by blast

lemma shown_listed: "shown hub w \<Longrightarrow> Projects w = Inr ps \<Longrightarrow> hub p = Some d \<Longrightarrow> p \<in> set ps \<and> \<not> IsReservedProject p"
  unfolding shown_def by (metis (mono_tags, lifting) domI mem_Collect_eq)

lemma scan_found:
  assumes "shown hub w" "is_id i" "scanForTask w i = Inr (p, d)"
  shows "hub p = Some d \<and> has_task i d"
proof -
  from assms(3) obtain ps where "scan_from w i ps None = Inr (p, d)" by (auto simp: scanForTask_def split: sum.splits)
  from scan_from_found [OF this] assms(2) have "\<not> IsReservedProject p" "OpenExisting p w = Inr d" "has_task i d"
    by (auto simp: GetTask_succeeds)
  with shown_hub [OF assms(1)] show ?thesis by blast
qed

lemma scan_nothing:
  assumes "shown hub w" "is_id i" "scanForTask w i = Inl ErrTaskNotFound"
  shows "i \<notin> tasks_of hub"
proof
  assume "i \<in> tasks_of hub"
  then obtain p d where p: "hub p = Some d" "has_task i d" by (auto simp: tasks_of_def)
  have f: "wd_fault w \<noteq> Some ErrTaskNotFound" using assms(1) by (simp add: shown_def)
  then obtain ps where ps: "Projects w = Inr ps" "scan_from w i ps None = Inl ErrTaskNotFound"
    using assms(3) by (auto simp: scanForTask_def Projects_def split: sum.splits option.splits)
  from shown_listed [OF assms(1) ps(1) p(1)] scan_from_nothing [OF ps(2)] obtain d' where d': "OpenExisting p w = Inr d'" "\<not> succeeds (GetTask i d')"
    "\<not> IsReservedProject p" by auto
  with shown_hub [OF assms(1) d'(1)] p have "d' = d" by simp
  with d'(2) p(2) show False by (simp add: GetTask_succeeds [OF assms(2)])
qed

lemma scan_finds_task:
  assumes "hub_good hub" "shown hub w" "Projects w = Inr ps" "hub p = Some d" "has_task i d" "OpenExisting p w = Inr d"
  shows "scanForTask w i = Inr (p, d)"
proof -
  have i: "is_id i" using assms(1,4,5) by (auto simp: hub_good_def)
  have s: "succeeds (GetTask i d)" using assms(5) by (simp add: GetTask_succeeds [OF i])
  from shown_listed [OF assms(2-4)] have l: "p \<in> set ps" "\<not> IsReservedProject p" by blast+
  have "\<exists>q. scanForTask w i = Inr q" using scan_from_finds [OF l(2) assms(6) s l(1)] by (simp add: scanForTask_def assms(3))
  then obtain p' d' where q: "scanForTask w i = Inr (p', d')" by auto
  with scan_found [OF assms(2) i] have d': "hub p' = Some d'" "has_task i d'" by blast+
  with assms(1,4,5) have "p' = p" unfolding hub_good_def by blast
  with d'(1) assms(4) q show ?thesis by simp
qed

text \<open>A scan that fails otherwise could not read everything.\<close>

lemma scan_readable: "readable w \<Longrightarrow> scanForTask w i = Inl x \<Longrightarrow> x = ErrTaskNotFound"
  by (auto simp: scan_find split: option.splits)

section \<open>Hints stay true\<close>

lemma hints_true_less: "hints_true now hub h \<Longrightarrow> tasks_of hub' \<subseteq> tasks_of hub \<Longrightarrow> hints_true now hub' h"
  unfolding hints_true_def by blast

lemma hints_true_forget [simp]: "hints_true now hub (forget i h) = hints_true now hub h"
  by (simp add: forget_def hints_true_def)

lemma hints_true_created: "hints_true now hub h \<Longrightarrow> tasks_of hub' \<subseteq> insert i (tasks_of hub) \<Longrightarrow> hints_true now hub' (put i p h)"
  by (auto simp: put_def hints_true_def Let_def map_of_filter_key split: if_splits)

lemma hints_true_put: "hints_true now hub h \<Longrightarrow> hints_true now hub (put i p h)"
  by (rule hints_true_created) auto

lemma missed_true:
  assumes "hints_true now hub h" "missed now i h = (was, h1)"
  shows "hints_true now hub h1" "was \<Longrightarrow> j \<in> tasks_of hub \<Longrightarrow> \<not> prefix i j"
  using assms by (auto simp: missed_def hints_true_def delete_conv split: option.splits if_splits)

lemma noteMiss_true: "hints_true now hub h \<Longrightarrow> (\<forall>j \<in> tasks_of hub. \<not> prefix i j) \<Longrightarrow> hints_true now hub (noteMiss now i h)"
  by (auto simp: noteMiss_def hints_true_def update_conv split: if_splits)

lemma id_no_prefix: "hub_good hub \<Longrightarrow> is_id i \<Longrightarrow> i \<notin> tasks_of hub \<Longrightarrow> j \<in> tasks_of hub \<Longrightarrow> \<not> prefix i j"
proof
  assume g: "hub_good hub" and i: "is_id i" and n: "i \<notin> tasks_of hub" and j: "j \<in> tasks_of hub" and p: "prefix i j"
  from g j have "is_id j" by (auto simp: tasks_of_def hub_good_def)
  with i have "length i = length j" using is_id_ascii_36 by metis
  with p have "i = j" by (metis append_eq_conv_conj prefix_def take_all order_refl)
  with n j show False by simp
qed

lemma locate_attempts_true:
  assumes "hub_good hub"
  shows "\<lbrakk>is_id i; locate_attempts now i ws res h = (r, h'); \<forall>(w, m) \<in> set ws. m \<or> shown hub w; hints_true now hub h\<rbrakk>
    \<Longrightarrow> hints_true now hub h' \<and> ((\<exists>(w, m) \<in> set ws. \<not> m) \<longrightarrow> (\<exists>(w, m) \<in> set ws. \<not> m \<and> r = scanForTask w i))"
proof (induction now i ws res h rule: locate_attempts.induct)
  case (2 now i w m ws res h)
  show ?case
  proof (cases m)
    case True
    with 2 show ?thesis by (auto simp: Let_def)
  next
    case False
    then have s: "shown hub w" using "2.prems"(3) by simp
    show ?thesis
    proof (cases "scanForTask w i")
      case (Inl x)
      with "2.prems"(2) False have r: "r = scanForTask w i" "h' = (if x = ErrTaskNotFound then noteMiss now i h else h)" by (auto simp: Let_def)
      have "hints_true now hub h'"
      proof (cases "x = ErrTaskNotFound")
        case True
        have "i \<notin> tasks_of hub" by (rule scan_nothing [OF s "2.prems"(1)]) (simp add: Inl True)
        with id_no_prefix [OF assms "2.prems"(1)] "2.prems"(4) True show ?thesis by (simp add: r noteMiss_true)
      qed (use r "2.prems"(4) in simp)
      with r(1) False show ?thesis by auto
    next
      case (Inr q)
      then show ?thesis using "2.prems" False by (cases q) (auto simp: Let_def intro: hints_true_put)
    qed
  qed
qed simp

section \<open>A readable hub\<close>

lemma readable_ordinary:
  assumes "shown hub w" "readable w"
  shows "(p, d) \<in> set (ordinary w) \<longleftrightarrow> hub p = Some d"
proof
  assume o: "(p, d) \<in> set (ordinary w)"
  then have "\<not> IsReservedProject p"
    by (auto simp: ordinary_def ordinary_of_def List.map_filter_def split: sum.splits if_splits)
  with shown_hub [OF assms(1) ordinary_open [OF o]] show "hub p = Some d" by blast
next
  assume h: "hub p = Some d"
  from assms(2) obtain ps where ps: "Projects w = Inr ps" "\<forall>p \<in> set ps. \<not> IsReservedProject p \<longrightarrow> succeeds (OpenExisting p w)"
    by (auto simp: readable_def)
  from shown_listed [OF assms(1) ps(1) h] have p: "p \<in> set ps" "\<not> IsReservedProject p" by blast+
  with ps(2) obtain d' where d': "OpenExisting p w = Inr d'" by (auto simp: succeeds_iff)
  with shown_hub [OF assms(1) d'] p(2) h have "d' = d" by simp
  with d' p ps(1) show "(p, d) \<in> set (ordinary w)" by (force simp: ordinary_def ordinary_of_def List.map_filter_def)
qed

lemma ordinary_of_names: "distinct ps \<Longrightarrow> distinct (map fst (ordinary_of w ps)) \<and> set (map fst (ordinary_of w ps)) \<subseteq> set ps"
  by (induction ps) (auto simp: ordinary_of_def List.map_filter_simps split: sum.splits)

lemma readable_hub_ok:
  assumes "hub_good hub" "shown hub w" "readable w"
  shows "hub_ok w"
proof -
  note o = readable_ordinary [OF assms(2,3)]
  from assms(3) obtain ps where ps: "Projects w = Inr ps" by (auto simp: readable_def)
  with assms(2) have "distinct ps" by (simp add: shown_def)
  then have "distinct (map fst (ordinary w))" using ordinary_of_names by (simp add: ordinary_def ps)
  moreover have "hub p = Some d" if "OpenExisting p w = Inr d" "has_task i d" for p d i using shown_hub [OF assms(2) that(1)] that(2) by blast
  moreover have "distinct (map fst (db_tasks d)) \<and> (\<forall>i. has_task i d \<longrightarrow> is_id i)" if "hub p = Some d" for p d
    using assms(1) that unfolding hub_good_def by blast
  moreover have "p' = p" if "hub p = Some d" "has_task i d" "hub p' = Some d'" "has_task i d'" for p d p' d' i
    using assms(1) that unfolding hub_good_def by blast
  ultimately show ?thesis using assms(3) unfolding hub_ok_def by (fastforce simp: o)
qed

lemma readable_tasks: "shown hub w \<Longrightarrow> readable w \<Longrightarrow> miss_true w k \<longleftrightarrow> (\<forall>i \<in> tasks_of hub. \<not> prefix k i)"
  using readable_ordinary [of hub w] unfolding miss_true_def tasks_of_def by fast

lemma readable_hints: "shown hub w \<Longrightarrow> readable w \<Longrightarrow> hints_ok now w h \<longleftrightarrow> hints_true now hub h"
  by (simp add: hints_ok_def hints_true_def readable_tasks)

lemma matches_from_nothing:
  "matches_from w a ps out = Inr [] \<Longrightarrow> out = [] \<and> (\<forall>p \<in> set ps. \<not> IsReservedProject p \<longrightarrow> succeeds (OpenExisting p w))"
  by (induction w a ps out rule: matches_from.induct) (auto simp: Let_def succeeds_iff taskIDMatchMax_def split: if_splits sum.splits)

section \<open>A lookup tells the truth\<close>

lemma LocateTask_answer:
  assumes "hub_good hub" "hub_good hub'" "tasks_of hub' \<subseteq> tasks_of hub" "shown hub w"
    and "\<forall>k. snd (scans k) \<or> shown hub' (fst (scans k))" "hints_true now hub h" "LocateTask now w scans i h = (r, h')" "is_id i"
  shows "hints_true now hub' h'
    \<and> ((\<exists>p d. r = Inr (p, d) \<and> hub p = Some d \<and> has_task i d) \<or> r = Inl ErrTaskNotFound \<and> i \<notin> tasks_of hub
      \<or> ((\<exists>k<3. \<not> snd (scans k)) \<longrightarrow> (\<exists>k<3. \<not> snd (scans k) \<and> r = scanForTask (fst (scans k)) i)))"
proof -
  let ?hint = "case get i h of None \<Rightarrow> None | Some p \<Rightarrow>
    (case OpenExisting p w of Inl x \<Rightarrow> None | Inr d \<Rightarrow> if succeeds (GetTask i d) then Some (p, d) else None)"
  have ht: "hints_true now hub' h" by (rule hints_true_less [OF assms(6,3)])
  show ?thesis
  proof (cases ?hint)
    case (Some q)
    then obtain p d where q: "q = (p, d)" "OpenExisting p w = Inr d" "has_task i d"
      by (auto simp: GetTask_succeeds [OF assms(8)] split: option.splits sum.splits if_splits)
    moreover have "(r, h') = (Inr q, h)" using assms(7,8) Some by (simp add: LocateTask_def)
    ultimately show ?thesis using shown_hub [OF assms(4) q(2)] ht by blast
  next
    case None
    obtain was h1 where m: "missed now i (if get i h = None then h else forget i h) = (was, h1)" by fastforce
    have "hints_true now hub (if get i h = None then h else forget i h)" using assms(6) by simp
    note M = missed_true [OF this m]
    show ?thesis
    proof (cases was)
      case True
      then have "(r, h') = (Inl ErrTaskNotFound, h1)" using assms(7,8) None m by (simp add: LocateTask_def)
      moreover have "i \<notin> tasks_of hub" using M(2) [OF True] by blast
      ultimately show ?thesis using hints_true_less [OF M(1) assms(3)] by blast
    next
      case False
      then have L: "locate_attempts now i (map scans [0, 1, 2]) (Inl ErrTaskNotFound) h1 = (r, h')" using assms(7,8) None m by (simp add: LocateTask_def)
      have s: "\<forall>(w, m) \<in> set (map scans [0, 1, 2]). m \<or> shown hub' w" using assms(5) by (auto simp: case_prod_unfold)
      note A = locate_attempts_true [OF assms(2,8) L s hints_true_less [OF M(1) assms(3)]]
      moreover have "\<exists>(w, m) \<in> set (map scans [0, 1, 2]). \<not> m" if "k < 3" "\<not> snd (scans k)" for k
      proof -
        have "k = 0 \<or> k = 1 \<or> k = 2" using that(1) by auto
        with that(2) show ?thesis by (auto simp: case_prod_unfold)
      qed
      moreover have "\<exists>k<3. \<not> snd (scans k) \<and> r = scanForTask (fst (scans k)) i" if "\<exists>(w, m) \<in> set (map scans [0, 1, 2]). \<not> m \<and> r = scanForTask w i"
      proof -
        from that consider "\<not> snd (scans 0) \<and> r = scanForTask (fst (scans 0)) i" | "\<not> snd (scans 1) \<and> r = scanForTask (fst (scans 1)) i"
          | "\<not> snd (scans 2) \<and> r = scanForTask (fst (scans 2)) i" by (auto simp: case_prod_unfold)
        then show ?thesis by cases (rule exI [of _ 0], simp, rule exI [of _ 1], simp, rule exI [of _ 2], simp)
      qed
      ultimately show ?thesis by blast
    qed
  qed
qed

lemma ResolveTaskID_true:
  assumes "hub_good hub" "mv \<or> shown hub w" "hints_true now hub h" "ResolveTaskID now w mv arg h = (res, h')"
  shows "hints_true now hub h'"
proof (cases "FullTaskID arg \<or> \<not> IDPrefixShape arg \<or> length arg < TaskIDPrefixMin")
  case True
  then show ?thesis using assms(3,4) by (auto simp: ResolveTaskID_def split: if_splits)
next
  case False
  obtain was h1 where m: "missed now arg h = (was, h1)" by fastforce
  note M = missed_true [OF assms(3) m]
  have nothing_there: "\<forall>j \<in> tasks_of hub. \<not> prefix arg j" if "\<not> mv" "taskIDMatches w arg = Inr []"
  proof -
    have s: "shown hub w" using assms(2) that(1) by simp
    from that(2) obtain ps where ps: "Projects w = Inr ps" "matches_from w arg ps [] = Inr []" by (auto simp: taskIDMatches_def split: sum.splits)
    with matches_from_nothing [OF ps(2)] have rd: "readable w" by (auto simp: readable_def)
    have "take taskIDMatchMax (all_matches w arg) = []" using taskIDMatches_take [OF readable_hub_ok [OF assms(1) s rd]] that(2) by simp
    then have "all_matches w arg = []" by (simp add: taskIDMatchMax_def)
    from no_match_miss_true [OF this] readable_tasks [OF s rd] show ?thesis by blast
  qed
  show ?thesis
  proof (cases was)
    case True
    then show ?thesis using False m M(1) assms(4) by (auto simp: ResolveTaskID_def)
  next
    case nw: False
    show ?thesis
    proof (cases "taskIDMatches w arg")
      case (Inl x)
      then show ?thesis using False nw m M(1) assms(4) by (auto simp: ResolveTaskID_def)
    next
      case (Inr ms)
      consider "ms = []" | x where "ms = [x]" | x y zs where "ms = x # y # zs" by (metis list.exhaust)
      then show ?thesis
      proof cases
        case 1
        then show ?thesis using False nw m M(1) assms(4) Inr nothing_there
          by (auto simp: ResolveTaskID_def intro: noteMiss_true split: if_splits)
      next
        case 2
        then show ?thesis using False nw m M(1) assms(4) Inr by (auto simp: ResolveTaskID_def intro: hints_true_put)
      next
        case 3
        then show ?thesis using False nw m M(1) assms(4) Inr by (auto simp: ResolveTaskID_def)
      qed
    qed
  qed
qed

lemma lookups_true: "lookups now hub h \<Longrightarrow> hub_good hub \<and> hints_true now hub h"
proof (induction rule: lookups.induct)
  case (start hub now)
  then show ?case by (simp add: hints_true_def newTaskHints_def)
next
  case (located now hub h w hub' scans i r h')
  show ?case
  proof (cases "is_id i")
    case True
    from located.IH have g: "hub_good hub" "hints_true now hub h" by blast+
    from LocateTask_answer [OF g(1) located.hyps(3,4,2,5) g(2) located.hyps(6) True] located.hyps(3) show ?thesis by blast
  next
    case False
    with located.hyps(6) have "h' = h" by (simp add: LocateTask_def)
    with located show ?thesis using hints_true_less by blast
  qed
next
  case (resolved now hub h mv w arg res h')
  then show ?case using ResolveTaskID_true by blast
next
  case (created now hub h hub' i p)
  then show ?case using hints_true_created by blast
next
  case (changed now hub h hub')
  then show ?case using hints_true_less by blast
next
  case (later now hub h now')
  then show ?case by (auto simp: hints_true_def)
qed

section \<open>Properties\<close>

text \<open>C37: The hints cannot be seen. After any history of lookups, creations and changes, in which
  projects were unreadable at times and renames, merges and drops overlapped lookups, a lookup that is
  not overlapped in all of its three attempts tells the truth about the hub as it is: a place it answers
  holds the task; \<open>not found\<close> means that no project of the hub has the task, so a remembered miss never
  hides one; any other failure means that something was unreadable. A task whose project can be read is
  found, whatever is remembered.\<close>

theorem hints_are_invisible:
  assumes "lookups now hub h" "shown hub w" "\<forall>k. snd (scans k) \<or> shown hub (fst (scans k))" "\<exists>k<3. \<not> snd (scans k)"
  shows "(case fst (LocateTask now w scans i h) of
        Inr (p, d) \<Rightarrow> hub p = Some d \<and> has_task i d
      | Inl x \<Rightarrow> (x = ErrTaskNotFound \<longrightarrow> i \<notin> tasks_of hub)
          \<and> (x \<noteq> ErrTaskNotFound \<longrightarrow> (\<exists>k<3. \<not> snd (scans k) \<and> \<not> readable (fst (scans k)))))
    \<and> (\<forall>p d. hub p = Some d \<and> has_task i d
        \<and> (\<forall>k<3. \<not> snd (scans k) \<longrightarrow> succeeds (Projects (fst (scans k))) \<and> OpenExisting p (fst (scans k)) = Inr d)
        \<longrightarrow> fst (LocateTask now w scans i h) = Inr (p, d))"
proof -
  obtain r h' where r: "LocateTask now w scans i h = (r, h')" by fastforce
  from lookups_true [OF assms(1)] have g: "hub_good hub" "hints_true now hub h" by blast+
  show ?thesis
  proof (cases "is_id i")
    case False
    then have "fst (LocateTask now w scans i h) = Inl ErrTaskNotFound" by (simp add: LocateTask_def)
    moreover have "i \<notin> tasks_of hub" using g(1) False by (auto simp: hub_good_def tasks_of_def)
    ultimately show ?thesis by (auto simp: tasks_of_def)
  next
    case True
    from LocateTask_answer [OF g(1) g(1) order_refl assms(2,3) g(2) r True] assms(4) consider
      (place) p d where "r = Inr (p, d)" "hub p = Some d" "has_task i d" | (miss) "r = Inl ErrTaskNotFound" "i \<notin> tasks_of hub"
      | (scan) k where "k < 3" "\<not> snd (scans k)" "r = scanForTask (fst (scans k)) i" by blast
    then show ?thesis
    proof cases
      case place
      have "p' = p \<and> d' = d" if "hub p' = Some d'" "has_task i d'" for p' d'
      proof -
        have "p' = p" using place(2,3) that g(1) unfolding hub_good_def by blast
        with place(2) that(1) show ?thesis by simp
      qed
      then have u: "\<forall>p' d'. hub p' = Some d' \<and> has_task i d' \<longrightarrow> Inr (p, d) = Inr (p', d')" by blast
      have l: "fst (LocateTask now w scans i h) = Inr (p, d)" by (simp add: r place(1))
      show ?thesis unfolding l sum.case prod.case
        by (rule conjI [OF conjI [OF place(2,3)]], rule allI, rule allI, rule impI, rule u [rule_format], erule conjE, erule conjE, rule conjI; assumption)
    next
      case miss
      then have "has_task i d \<Longrightarrow> hub p \<noteq> Some d" for p d by (auto simp: tasks_of_def)
      with miss show ?thesis by (simp add: r)
    next
      case scan
      then have s: "shown hub (fst (scans k))" using assms(3) by blast
      have "fst (LocateTask now w scans i h) = scanForTask (fst (scans k)) i" by (simp add: r scan(3))
      moreover have "case scanForTask (fst (scans k)) i of
        Inr (p, d) \<Rightarrow> hub p = Some d \<and> has_task i d
      | Inl x \<Rightarrow> (x = ErrTaskNotFound \<longrightarrow> i \<notin> tasks_of hub)
          \<and> (x \<noteq> ErrTaskNotFound \<longrightarrow> (\<exists>k<3. \<not> snd (scans k) \<and> \<not> readable (fst (scans k))))"
        using scan_found [OF s True] scan_nothing [OF s True] scan_readable [of "fst (scans k)" i] scan(1,2)
        by (cases "scanForTask (fst (scans k)) i") (auto split: prod.splits)
      moreover have "scanForTask (fst (scans k)) i = Inr (p, d)" if "hub p = Some d" "has_task i d"
        "\<forall>k<3. \<not> snd (scans k) \<longrightarrow> succeeds (Projects (fst (scans k))) \<and> OpenExisting p (fst (scans k)) = Inr d" for p d
        using that scan(1,2) scan_finds_task [OF g(1) s _ that(1,2)] by (auto simp: succeeds_iff)
      ultimately show ?thesis by auto
    qed
  qed
qed

text \<open>A prefix is resolved exactly. After any such history, with every project readable, a prefix of at least 13 characters
  resolves to a task if and only if it is the only task of the ordinary projects that starts with
  it; a prefix of none is not found, and one of several is refused with the first ten of them.\<close>

theorem prefix_resolution_is_exact:
  assumes "lookups now hub h" "shown hub w" "readable w" "IDPrefixShape arg" "13 \<le> length arg"
  shows "fst (ResolveTaskID now w mv arg h) = (case all_matches w arg of
      [] \<Rightarrow> Inl (StoreError ErrTaskNotFound)
    | [m] \<Rightarrow> Inr (mt_ID m)
    | ms \<Rightarrow> Inl (AmbiguousIDError arg (take 10 ms)))
   \<and> (\<forall>m. m \<in> set (all_matches w arg) \<longleftrightarrow> (\<exists>d. hub (mt_Project m) = Some d \<and> has_task (mt_ID m) d \<and> prefix arg (mt_ID m)))"
proof -
  have "\<not> FullTaskID arg" using assms(4) is_id_ascii_36 [of arg] by (auto simp: FullTaskID_def IDPrefixShape_def taskIDLayout_def)
  moreover obtain r h' where r: "ResolveTaskID now w mv arg h = (r, h')" by fastforce
  ultimately have "fst (ResolveTaskID now w mv arg h) = resolved arg (all_matches w arg)"
    using ResolveTaskID_resolved(1) [OF _ _ r] readable_hub_ok [OF _ assms(2,3)] readable_hints [OF assms(2,3)] lookups_true [OF assms(1)] assms(4,5) by (simp add: r TaskIDPrefixMin_def)
  then show ?thesis using all_matches_iff readable_ordinary [OF assms(2,3)] by (simp add: resolved_def taskIDMatchMax_def split: list.split)
qed

text \<open>A short name finds its task: the first 13 or more characters of a stored task's
  identifier, when no other task starts with them, resolve to it.\<close>

theorem short_name_finds_task:
  assumes "lookups now hub h" "shown hub w" "readable w" "i \<in> tasks_of hub" "13 \<le> n" "n < 36" "\<forall>j \<in> tasks_of hub. take n j = take n i \<longrightarrow> j = i"
  shows "fst (ResolveTaskID now w mv (take n i) h) = Inr i"
proof -
  note o = readable_ordinary [OF assms(2,3)]
  have ok: "hub_ok w" "hints_ok now w h"
    using lookups_true [OF assms(1)] readable_hub_ok [OF _ assms(2,3)] readable_hints [OF assms(2,3)] by blast+
  from assms(4) obtain p d where t: "(p, d) \<in> set (ordinary w)" "has_task i d" by (auto simp: tasks_of_def o)
  then have i: "is_id i" using hub_okD(2) [OF ok(1)] by blast
  have s: "IDPrefixShape (take n i)" using id_prefix_shape [OF i] assms(5,6) by simp
  have l: "length (take n i) = n" using is_id_ascii_36 [OF i] assms(6) by simp
  let ?m = "\<lparr>mt_Project = p, mt_ID = i\<rparr>"
  have "?m \<in> set (all_matches w (take n i))" using t by (auto simp: all_matches_iff take_is_prefix)
  moreover have "x = ?m" if x: "x \<in> set (all_matches w (take n i))" for x
  proof -
    from x obtain d' where d': "(mt_Project x, d') \<in> set (ordinary w)" "has_task (mt_ID x) d'" "prefix (take n i) (mt_ID x)"
      by (auto simp: all_matches_iff)
    then have "take n (mt_ID x) = take n i" using l by (auto simp: prefix_def)
    moreover have "mt_ID x \<in> tasks_of hub" using d' by (auto simp: tasks_of_def o)
    ultimately have j: "mt_ID x = i" using assms(7) by simp
    with hub_okD(3) [OF ok(1) t ordinary_open [OF d'(1)]] d'(2) have "mt_Project x = p" by simp
    with j show ?thesis by (cases x) simp
  qed
  ultimately have single: "set (all_matches w (take n i)) = {?m}" by blast
  then have "length (all_matches w (take n i)) = 1"
    using distinct_card [OF all_matches_distinct [OF ok(1)], of "take n i"] by simp
  then obtain y where "all_matches w (take n i) = [y]" by (auto simp: length_Suc_conv)
  with single have "all_matches w (take n i) = [?m]" by simp
  moreover have "\<not> FullTaskID (take n i)" using l assms(6) is_id_ascii_36 [of "take n i"] by (auto simp: FullTaskID_def)
  moreover obtain r h' where r: "ResolveTaskID now w mv (take n i) h = (r, h')" by fastforce
  ultimately show ?thesis using ResolveTaskID_resolved(1) [OF ok r] s l assms(5) by (simp add: r resolved_def TaskIDPrefixMin_def)
qed

section \<open>A hub with one task\<close>

definition ex_world :: world where
  "ex_world = \<lparr>wd_fault = None, wd_dirs = [(''p'', \<lparr>pd_open = Inr db1, pd_access = Inr ''a''\<rparr>)]\<rparr>"

lemma ex_world_open: "ValidProjectID ''p''" "\<not> IsReservedProject ''p''"
  by (code_simp, simp add: IsReservedProject_def UserScopeProject_def)

lemma ex_world_ordinary: "Projects ex_world = Inr [''p'']" "OpenExisting q ex_world = Inr d \<longleftrightarrow> q = ''p'' \<and> d = db1" "ordinary ex_world = [(''p'', db1)]"
  using ex_world_open by (auto simp: Projects_def OpenExisting_def ex_world_def ordinary_def split: if_splits)

lemma ex_world_task: "has_task i db1 \<longleftrightarrow> i = ex_id 0"
  by (simp add: has_task_def)

lemma ex_world_ok: "hub_ok ex_world"
  by (auto simp: hub_ok_def readable_def ex_world_ordinary ex_world_task succeeds_iff)

definition ex_hub :: "string \<Rightarrow> hub" where "ex_hub p = [p \<mapsto> db1]"

lemma ex_tasks: "tasks_of (ex_hub p) = {ex_id 0}"
  by (auto simp: tasks_of_def ex_hub_def ex_world_task split: if_splits)

lemma ex_hub_good: "hub_good (ex_hub p)"
  by (auto simp: hub_good_def ex_hub_def ex_world_task split: if_splits)

lemma ex_shown: "shown (ex_hub ''p'') ex_world"
  using ex_world_open by (auto simp: shown_def ex_hub_def ex_world_ordinary) (simp_all add: ex_world_def)

lemma ex_readable: "readable ex_world"
  using ex_world_ok by (simp add: hub_ok_def)

text \<open>The same hub after the project was renamed.\<close>

definition ex_renamed :: world where
  "ex_renamed = \<lparr>wd_fault = None, wd_dirs = [(''q'', \<lparr>pd_open = Inr db1, pd_access = Inr ''a''\<rparr>)]\<rparr>"

lemma ex_renamed_open: "ValidProjectID ''q''" "\<not> IsReservedProject ''q''"
  by (code_simp, simp add: IsReservedProject_def UserScopeProject_def)

lemma ex_renamed_ordinary: "Projects ex_renamed = Inr [''q'']" "OpenExisting p ex_renamed = Inr d \<longleftrightarrow> p = ''q'' \<and> d = db1"
  using ex_renamed_open by (auto simp: Projects_def OpenExisting_def ex_renamed_def split: if_splits)

lemma ex_renamed_shown: "shown (ex_hub ''q'') ex_renamed"
  using ex_renamed_open by (auto simp: shown_def ex_hub_def ex_renamed_ordinary) (simp_all add: ex_renamed_def)

text \<open>The task was found in \<open>p\<close>, which was then renamed to \<open>q\<close>; another identifier was missed. The hint for \<open>p\<close>
  and the miss are still remembered when the task is found in \<open>q\<close>.\<close>

theorem hints_are_invisible_witness:
  "\<exists>h. lookups 5 (ex_hub ''q'') h \<and> get (ex_id 0) h = Some ''p'' \<and> map_of (th_miss h) (ex_id 2) = Some 5
    \<and> fst (LocateTask 5 ex_renamed (\<lambda>_. (ex_renamed, False)) (ex_id 0) h) = Inr (''q'', db1)"
proof -
  have l0: "lookups 5 (ex_hub ''p'') newTaskHints" by (rule lookups.start [OF ex_hub_good])
  have q: "\<forall>k :: nat. snd ((\<lambda>_. (ex_world, False)) k) \<or> shown (ex_hub ''p'') (fst ((\<lambda>_. (ex_world, False)) k))" using ex_shown by simp
  let ?h1 = "put (ex_id 0) ''p'' newTaskHints" and ?quiet = "\<lambda>_ :: nat. (ex_world, False)"
  have s0: "scanForTask ex_world (ex_id 0) = Inr (''p'', db1)"
    by (rule scan_finds [OF ex_world_ok]) (simp_all add: ex_world_ordinary ex_world_task)
  have "LocateTask 5 ex_world ?quiet (ex_id 0) newTaskHints = (Inr (''p'', db1), ?h1)"
    by (simp add: LocateTask_def get_def newTaskHints_def missed_def s0)
  then have l1: "lookups 5 (ex_hub ''p'') ?h1" by (rule lookups.located [OF l0 ex_shown ex_hub_good order_refl q])
  let ?h2 = "noteMiss 5 (ex_id 2) ?h1"
  have s1: "scanForTask ex_world (ex_id 2) = Inl ErrTaskNotFound"
    by (simp add: scan_find [OF ex_readable] ex_world_ordinary GetTask_succeeds ex_world_task)
  have n: "get (ex_id 2) ?h1 = None" "missed 5 (ex_id 2) ?h1 = (False, ?h1)"
    by (simp_all add: get_def missed_def put_def newTaskHints_def update_conv)
  have "LocateTask 5 ex_world ?quiet (ex_id 2) ?h1 = (Inl ErrTaskNotFound, ?h2)"
    by (simp add: LocateTask_def n s1)
  then have "lookups 5 (ex_hub ''p'') ?h2" by (rule lookups.located [OF l1 ex_shown ex_hub_good order_refl q])
  then have l2: "lookups 5 (ex_hub ''q'') ?h2" by (rule lookups.changed [OF _ ex_hub_good]) (simp add: ex_tasks)
  have "get (ex_id 0) ?h2 = Some ''p''" "map_of (th_miss ?h2) (ex_id 2) = Some 5"
    by (simp_all add: get_def noteMiss_def put_def newTaskHints_def update_conv taskMissMax_def)
  moreover have "fst (LocateTask 5 ex_renamed (\<lambda>_. (ex_renamed, False)) (ex_id 0) ?h2) = Inr (''q'', db1)"
  proof -
    have q: "\<forall>k :: nat. snd ((\<lambda>_. (ex_renamed, False)) k) \<or> shown (ex_hub ''q'') (fst ((\<lambda>_. (ex_renamed, False)) k))"
      "\<exists>k < 3 :: nat. \<not> snd ((\<lambda>_. (ex_renamed, False)) k)" using ex_renamed_shown by (auto intro: exI [of _ 0])
    from hints_are_invisible [OF l2 ex_renamed_shown q, of "ex_id 0"]
    have "ex_hub ''q'' ''q'' = Some db1 \<and> has_task (ex_id 0) db1 \<and> succeeds (Projects ex_renamed) \<and> OpenExisting ''q'' ex_renamed = Inr db1
      \<longrightarrow> fst (LocateTask 5 ex_renamed (\<lambda>_. (ex_renamed, False)) (ex_id 0) ?h2) = Inr (''q'', db1)" by simp
    then show ?thesis by (simp add: ex_hub_def ex_world_task ex_renamed_ordinary succeeds_iff)
  qed
  ultimately show ?thesis using l2 by blast
qed

theorem prefix_resolution_is_exact_witness:
  "\<exists>h. lookups 5 (ex_hub ''p'') h \<and> fst (ResolveTaskID 5 ex_world False (take 13 (ex_id 1)) h) \<noteq> Inr (ex_id 1)"
proof -
  have l: "lookups 5 (ex_hub ''p'') newTaskHints" by (rule lookups.start [OF ex_hub_good])
  have s: "IDPrefixShape (take 13 (ex_id 1))" "13 \<le> length (take 13 (ex_id 1))"
    using id_prefix_shape [of "ex_id 1" 13] is_id_ascii_36 [of "ex_id 1"] by simp_all
  have "mt_ID m \<noteq> ex_id 1" if "all_matches ex_world (take 13 (ex_id 1)) = [m]" for m
  proof -
    from that have "m \<in> set (all_matches ex_world (take 13 (ex_id 1)))" by simp
    then have "mt_ID m = ex_id 0" by (auto simp: all_matches_iff ex_world_ordinary ex_world_task)
    then show ?thesis by simp
  qed
  with prefix_resolution_is_exact [OF l ex_shown ex_readable s, of False] l show ?thesis by (auto split: list.splits)
qed

theorem short_name_finds_task_witness:
  "\<exists>h. lookups 5 (ex_hub ''p'') h \<and> fst (ResolveTaskID 5 ex_world False (take 13 (ex_id 0)) h) = Inr (ex_id 0)"
proof -
  have l: "lookups 5 (ex_hub ''p'') newTaskHints" by (rule lookups.start [OF ex_hub_good])
  from short_name_finds_task [OF l ex_shown ex_readable, of "ex_id 0" 13 False] l show ?thesis by (auto simp: ex_tasks)
qed

end
