(* ===== verification/Cas.thy ===== *)
theory Cas
  imports Prelude
begin

text \<open>
  The contract that shared documents and collection records have in common: a value per key,
  every write gives it the next revision, and a bounded number of past revisions is kept. The
  interface is the locale \<open>versioned\<close>; its clients' facts are about sequences of writes.
\<close>

definition newest :: "'v list \<Rightarrow> 'v option" where
  "newest vs = (if vs = [] then None else Some (last vs))"

text \<open>\<open>keeps n rv log cur old\<close>: \<open>log k\<close> is everything ever written at \<open>k\<close>, oldest first, its
  revisions counting from 1; \<open>cur\<close> is the newest of it and \<open>old\<close> the newest \<open>n\<close> of it.\<close>

definition keeps :: "nat \<Rightarrow> ('v \<Rightarrow> int) \<Rightarrow> ('k \<Rightarrow> 'v list) \<Rightarrow> ('k \<Rightarrow> 'v option) \<Rightarrow> ('k \<Rightarrow> int \<Rightarrow> 'v option) \<Rightarrow> bool" where
  "keeps n rv log cur old \<longleftrightarrow> (\<forall>k. cur k = newest (log k) \<and> map rv (log k) = [1..int (length (log k))]
     \<and> (\<forall>r. old k r = (if 1 \<le> r \<and> int (length (log k)) - int n < r \<and> r \<le> int (length (log k))
          then Some (log k ! nat (r - 1)) else None)))"

lemma newest_append [simp]: "newest (vs @ [v]) = Some v"
  by (simp add: newest_def)

lemma keepsD:
  assumes "keeps n rv log cur old"
  shows "cur k = newest (log k)" "map rv (log k) = [1..int (length (log k))]"
    "old k r = (if 1 \<le> r \<and> int (length (log k)) - int n < r \<and> r \<le> int (length (log k)) then Some (log k ! nat (r - 1)) else None)"
  using assms unfolding keeps_def by blast+

lemma keeps_rev:
  assumes "keeps n rv log cur old" "i < length (log k)"
  shows "rv (log k ! i) = int i + 1"
  using arg_cong [OF keepsD(2) [OF assms(1), of k], of "\<lambda>xs. xs ! i"] assms(2) by (simp add: nth_upto)

lemma keeps_current:
  assumes "keeps n rv log cur old"
  shows "(case cur k of None \<Rightarrow> 0 | Some c \<Rightarrow> rv c) = int (length (log k))"
proof (cases "log k = []")
  case False
  then have "rv (last (log k)) = int (length (log k))"
    using keeps_rev [OF assms, of "length (log k) - 1" k] by (simp add: last_conv_nth of_nat_diff Suc_leI)
  with False show ?thesis by (simp add: keepsD(1) [OF assms] newest_def)
qed (simp add: keepsD(1) [OF assms] newest_def)

locale versioned =
  fixes cur :: "'s \<Rightarrow> 'k \<Rightarrow> 'v option" and old :: "'s \<Rightarrow> 'k \<Rightarrow> int \<Rightarrow> 'v option" and rv :: "'v \<Rightarrow> int"
    and writes :: "'k \<Rightarrow> 'v \<Rightarrow> 's \<Rightarrow> 's \<Rightarrow> bool" and keep :: nat and init :: 's
  assumes unwritten: "\<And>k. cur init k = None" "\<And>k r. old init k r = None"
    and keeps_some: "0 < keep"
    and next_revision: "writes k v s s' \<Longrightarrow> rv v = (case cur s k of None \<Rightarrow> 0 | Some c \<Rightarrow> rv c) + 1"
    and current: "writes k v s s' \<Longrightarrow> cur s' = (cur s)(k \<mapsto> v)"
    and past: "writes k v s s' \<Longrightarrow> old s' = (old s)(k := \<lambda>r. if r \<le> rv v - int keep then None else if r = rv v then Some v else old s k r)"
begin

lemma keeps_write:
  assumes "keeps keep rv log (cur s) (old s)" "writes k v s s'"
  shows "keeps keep rv (log(k := log k @ [v])) (cur s') (old s')"
proof -
  note K = keepsD [OF assms(1)]
  have r: "rv v = int (length (log k)) + 1"
    using next_revision [OF assms(2)] keeps_current [OF assms(1), of k] by simp
  show ?thesis
    unfolding keeps_def current [OF assms(2)] past [OF assms(2)]
  proof (intro allI conjI)
    fix j
    show "((cur s)(k \<mapsto> v)) j = newest ((log(k := log k @ [v])) j)" by (simp add: K(1))
    show "map rv ((log(k := log k @ [v])) j) = [1..int (length ((log(k := log k @ [v])) j))]"
      using upto_rec2 [of 1 "int (length (log k)) + 1"] by (simp add: K(2) r add.commute)
    fix x
    show "((old s)(k := \<lambda>x. if x \<le> rv v - int keep then None else if x = rv v then Some v else old s k x)) j x
      = (if 1 \<le> x \<and> int (length ((log(k := log k @ [v])) j)) - int keep < x \<and> x \<le> int (length ((log(k := log k @ [v])) j))
         then Some ((log(k := log k @ [v])) j ! nat (x - 1)) else None)"
      using keeps_some by (auto simp: K(3) r nth_append)
  qed
qed

lemma keeps_init: "keeps keep rv (\<lambda>_. []) (cur init) (old init)"
  unfolding keeps_def newest_def by (intro allI conjI) (simp_all add: unwritten)

theorem run_log:
  assumes "(\<lambda>s s'. \<exists>k v. writes k v s s')\<^sup>*\<^sup>* init s"
  shows "\<exists>log. keeps keep rv log (cur s) (old s)"
  using assms
proof (induction rule: rtranclp_induct)
  case base
  show ?case using keeps_init by blast
next
  case (step s s')
  then show ?case using keeps_write by blast
qed

theorem revisions_grow:
  assumes "(\<lambda>s s'. \<exists>k v. writes k v s s')\<^sup>*\<^sup>* s s'" "cur s k = Some v"
  shows "\<exists>v'. cur s' k = Some v' \<and> (v' = v \<or> rv v < rv v')"
  using assms(1)
proof (induction rule: rtranclp_induct)
  case base
  with assms(2) show ?case by simp
next
  case (step t u)
  then obtain v' j w where v': "cur t k = Some v'" "v' = v \<or> rv v < rv v'" and w: "writes j w t u" by blast
  show ?case
  proof (cases "j = k")
    case True
    with next_revision [OF w] v' show ?thesis by (auto simp: current [OF w])
  next
    case False
    with v' show ?thesis by (auto simp: current [OF w])
  qed
qed

end

end
