(* ===== verification/GoStrings.thy ===== *)
theory GoStrings
  imports GoText
begin

text \<open>
  More of Go's package \<open>strings\<close>, over the bytes and the UTF-8 units of theory GoText.
\<close>

text \<open>\<open>strings.Index\<close>, \<open>strings.Contains\<close>, \<open>strings.Fields\<close>.\<close>

fun Index :: "string \<Rightarrow> string \<Rightarrow> int" where
  "Index s t = (if take (length t) s = t then 0
     else case s of [] \<Rightarrow> - 1 | c # cs \<Rightarrow> (let i = Index cs t in if i < 0 then - 1 else i + 1))"

declare Index.simps [simp del]

definition Contains :: "string \<Rightarrow> string \<Rightarrow> bool" where
  "Contains s t \<longleftrightarrow> 0 \<le> Index s t"

definition space_unit :: "unit_of \<Rightarrow> bool" where
  "space_unit u = (case fst u of None \<Rightarrow> False | Some n \<Rightarrow> IsSpace n)"

function fields_of :: "unit_of list \<Rightarrow> string list" where
  "fields_of us =
     (case dropWhile space_unit us of
        [] \<Rightarrow> []
      | v # vs \<Rightarrow> concat (map snd (takeWhile (Not \<circ> space_unit) (v # vs))) # fields_of (dropWhile (Not \<circ> space_unit) (v # vs)))"
  by pat_completeness auto
termination
proof (relation "measure length", simp)
  fix us vs :: "unit_of list" and v
  assume d: "dropWhile space_unit us = v # vs"
  then have "\<not> space_unit v" using hd_dropWhile [of space_unit us] by simp
  then have "length (dropWhile (Not \<circ> space_unit) (v # vs)) \<le> length vs" by (simp add: length_dropWhile_le)
  moreover have "length (v # vs) \<le> length us" using length_dropWhile_le [of space_unit us] d by simp
  ultimately show "(dropWhile (Not \<circ> space_unit) (v # vs), us) \<in> measure length" by simp
qed

declare fields_of.simps [simp del]

definition Fields :: "string \<Rightarrow> string list" where
  "Fields s = fields_of (go_units s)"

fun join_space :: "string list \<Rightarrow> string" where
  "join_space [] = []"
| "join_space [s] = s"
| "join_space (s # ss) = s @ CHR '' '' # join_space ss"

definition ellipsis :: string where
  "ellipsis = [CHR 0xE2, CHR 0x80, CHR 0xA6]"

lemma Index_range: "Index s t \<le> int (length s)"
proof (induction s)
  case Nil
  show ?case by (subst Index.simps) auto
next
  case (Cons c s)
  then show ?case by (subst Index.simps) (auto simp: Let_def)
qed

end
