(* ===== verification/Docs.thy ===== *)
theory Docs
  imports Cas Validate Redact GoStrings
begin

text \<open>
  Shared documents (\<open>internal/store/docs.go\<close>): compare-and-swap writes with tombstones, a bounded
  history, and the search with its snippets. The two tables are \<open>docs\<close> and \<open>doc_revisions\<close>.
  \<open>strings.ToLower\<close> depends on the Unicode tables and SQLite's \<open>LENGTH\<close> is not in the repository:
  both are arguments. Revisions are integers; a document never reaches \<open>2 ^ 63\<close> of them.
\<close>

section \<open>State\<close>

definition MaxDocBytes :: nat where "MaxDocBytes = 256 * 1024"
definition docHistoryKeep :: nat where "docHistoryKeep = 20"

record Doc =
  do_Name :: string
  do_Body :: string
  do_Rev :: int
  do_UpdatedAt :: string
  do_UpdatedBy :: string
  do_Deleted :: bool
  do_Size :: nat

record doc_row =
  dr_body :: string
  dr_rev :: int
  dr_updated_at :: string
  dr_updated_by :: string
  dr_deleted :: bool

record docs =
  dd_docs :: "(string, doc_row) table"
  dd_revs :: "(string \<times> int, doc_row) table"

datatype doc_err = DocConflict Doc | DocRefused string | DocSQL

definition scanDoc :: "string \<Rightarrow> doc_row \<Rightarrow> Doc" where
  "scanDoc name r = \<lparr>do_Name = name, do_Body = dr_body r, do_Rev = dr_rev r, do_UpdatedAt = dr_updated_at r,
     do_UpdatedBy = dr_updated_by r, do_Deleted = dr_deleted r, do_Size = length (dr_body r)\<rparr>"

section \<open>Writes\<close>

text \<open>The three statements of a write of \<open>next\<close>.\<close>

definition next_doc :: "env \<Rightarrow> string \<Rightarrow> string \<Rightarrow> int \<Rightarrow> bool \<Rightarrow> doc_row" where
  "next_doc e body updatedBy baseRev deleted =
     \<lparr>dr_body = (if deleted then [] else body), dr_rev = baseRev + 1, dr_updated_at = e_now e 0,
      dr_updated_by = updatedBy, dr_deleted = deleted\<rparr>"

lemma next_doc_sel [simp]: "dr_rev (next_doc e body updatedBy baseRev deleted) = baseRev + 1"
  "dr_body (next_doc e body updatedBy baseRev deleted) = (if deleted then [] else body)"
  "dr_deleted (next_doc e body updatedBy baseRev deleted) = deleted"
  by (simp_all add: next_doc_def)

definition write_doc :: "env \<Rightarrow> string \<Rightarrow> string \<Rightarrow> string \<Rightarrow> int \<Rightarrow> bool \<Rightarrow> docs \<Rightarrow> doc_err + Doc \<times> docs" where
  "write_doc e name body updatedBy baseRev deleted s =
     (let row = next_doc e body updatedBy baseRev deleted
      in case tb_insert (name, dr_rev row) row (dd_revs s) of
           None \<Rightarrow> Inl DocSQL
         | Some t \<Rightarrow> Inr (scanDoc name row,
             \<lparr>dd_docs = AList.update name row (dd_docs s),
              dd_revs = filter (\<lambda>((n, r), _). \<not> (n = name \<and> r \<le> dr_rev row - int docHistoryKeep)) t\<rparr>))"

definition PutDoc :: "env \<Rightarrow> string \<Rightarrow> string \<Rightarrow> string \<Rightarrow> int \<Rightarrow> bool \<Rightarrow> docs \<Rightarrow> doc_err + Doc \<times> docs" where
  "PutDoc e name body updatedBy baseRev deleted s =
     (if \<not> MatchString docNameRe name then Inl (DocRefused ''invalid document name'')
      else if MaxDocBytes < length body then Inl (DocRefused ''document too large'')
      else if snd (ScanAuthored body) \<noteq> [] then Inl (DocRefused ''secret-shaped content'')
      else case map_of (dd_docs s) name of
        None \<Rightarrow>
          if deleted then Inl (DocRefused ''no such document'')
          else if baseRev \<noteq> 0 then Inl (DocRefused ''no such document: use 0 to create'')
          else write_doc e name body updatedBy baseRev deleted s
      | Some row \<Rightarrow>
          (let doc = scanDoc name row
           in if body = do_Body doc \<and> deleted = do_Deleted doc then Inr (doc, s)
              else if baseRev \<noteq> do_Rev doc then Inl (DocConflict doc)
              else write_doc e name body updatedBy baseRev deleted s))"

section \<open>Reads\<close>

definition GetDoc :: "string \<Rightarrow> int \<Rightarrow> docs \<Rightarrow> doc_err + Doc" where
  "GetDoc name r s =
     (case (if 0 < r then map_of (dd_revs s) (name, r) else map_of (dd_docs s) name) of
        None \<Rightarrow> Inl (DocRefused ''no such document'') | Some row \<Rightarrow> Inr (scanDoc name row))"

text \<open>A listing has no bodies; its sizes are SQLite's \<open>LENGTH\<close>.\<close>

definition list_doc :: "(string \<Rightarrow> nat) \<Rightarrow> string \<Rightarrow> doc_row \<Rightarrow> Doc" where
  "list_doc len name r = (scanDoc name r)\<lparr>do_Body := [], do_Size := len (dr_body r)\<rparr>"

definition ListDocs :: "(string \<Rightarrow> nat) \<Rightarrow> docs \<Rightarrow> Doc list" where
  "ListDocs len s = map (\<lambda>(name, r). list_doc len name r) (sort_key fst (dd_docs s))"

definition DocLog :: "(string \<Rightarrow> nat) \<Rightarrow> string \<Rightarrow> docs \<Rightarrow> Doc list" where
  "DocLog len name s = map (\<lambda>((n, _), r). list_doc len n r)
     (rev (sort_key (\<lambda>(_, r). dr_rev r) (filter (\<lambda>((n, _), _). n = name) (dd_revs s))))"

section \<open>Search\<close>

text \<open>\<open>docSnippet\<close>. Reading a byte or slicing out of range panics: the result is \<open>None\<close>.\<close>

fun back_start :: "string \<Rightarrow> nat \<Rightarrow> nat option" where
  "back_start body 0 = Some 0"
| "back_start body (Suc n) =
     (if length body \<le> Suc n then None
      else if cont_byte (of_char (body ! Suc n)) then back_start body n else Some (Suc n))"

function forth_end :: "string \<Rightarrow> nat \<Rightarrow> nat" where
  "forth_end body n = (if n < length body \<and> cont_byte (of_char (body ! n)) then forth_end body (n + 1) else n)"
  by pat_completeness auto
termination
  by (relation "measure (\<lambda>(body, n). length body - n)") auto

declare forth_end.simps [simp del]

definition docSnippet :: "string \<Rightarrow> int \<Rightarrow> string option" where
  "docSnippet body pos =
     (let p = nat pos in
      case back_start body (p - 60) of None \<Rightarrow> None | Some start \<Rightarrow>
      let stop = forth_end body (min (p + 120) (length body)) in
      if stop < start then None
      else Some ((if 0 < start then ellipsis else []) @ join_space (Fields (take (stop - start) (drop start body)))
        @ (if stop < length body then ellipsis else [])))"

text \<open>The loop over the terms: \<open>None\<close> when one is missing, else the first hit in the body.\<close>

fun match_terms :: "string \<Rightarrow> string \<Rightarrow> string list \<Rightarrow> int \<Rightarrow> int option" where
  "match_terms lowBody lowName [] first = Some first"
| "match_terms lowBody lowName (t # ts) first =
     (let i = Index lowBody t in
      if i < 0 \<and> \<not> Contains lowName t then None
      else match_terms lowBody lowName ts (if 0 \<le> i \<and> (first < 0 \<or> i < first) then i else first))"

record DocMatch =
  dm_Name :: string
  dm_Rev :: int
  dm_UpdatedAt :: string
  dm_Snippet :: string

fun search_rows :: "(string \<Rightarrow> string) \<Rightarrow> string list \<Rightarrow> nat \<Rightarrow> (string \<times> doc_row) list \<Rightarrow> DocMatch list \<Rightarrow> DocMatch list option" where
  "search_rows toLower terms limit [] out = Some out"
| "search_rows toLower terms limit ((name, r) # rows) out =
     (case match_terms (toLower (dr_body r)) (toLower name) terms (- 1) of
        None \<Rightarrow> search_rows toLower terms limit rows out
      | Some first \<Rightarrow>
          (case docSnippet (dr_body r) first of None \<Rightarrow> None | Some snip \<Rightarrow>
           let out' = out @ [\<lparr>dm_Name = name, dm_Rev = dr_rev r, dm_UpdatedAt = dr_updated_at r, dm_Snippet = snip\<rparr>]
           in if limit \<le> length out' then Some out' else search_rows toLower terms limit rows out'))"

definition search_limit :: "int \<Rightarrow> nat" where
  "search_limit limit = (if limit \<le> 0 \<or> 50 < limit then 10 else nat limit)"

definition SearchDocs :: "(string \<Rightarrow> string) \<Rightarrow> string \<Rightarrow> int \<Rightarrow> docs \<Rightarrow> DocMatch list option" where
  "SearchDocs toLower q limit s =
     (let terms = Fields (toLower q)
      in if terms = [] then Some []
         else search_rows toLower terms (search_limit limit) (filter (\<lambda>(_, r). \<not> dr_deleted r) (sort_key fst (dd_docs s))) [])"

section \<open>The contract\<close>

definition no_docs :: docs where
  "no_docs = \<lparr>dd_docs = [], dd_revs = []\<rparr>"

lemma write_docD:
  assumes "write_doc e name body updatedBy baseRev deleted s = Inr (d, s')"
  obtains row t where "row = next_doc e body updatedBy baseRev deleted"
      "tb_insert (name, baseRev + 1) row (dd_revs s) = Some t" "d = scanDoc name row"
      "s' = \<lparr>dd_docs = AList.update name row (dd_docs s), dd_revs = filter (\<lambda>((n, r), _). \<not> (n = name \<and> r \<le> baseRev + 1 - int docHistoryKeep)) t\<rparr>"
proof -
  from assms obtain t where "tb_insert (name, baseRev + 1) (next_doc e body updatedBy baseRev deleted) (dd_revs s) = Some t"
    "d = scanDoc name (next_doc e body updatedBy baseRev deleted)"
    "s' = \<lparr>dd_docs = AList.update name (next_doc e body updatedBy baseRev deleted) (dd_docs s),
       dd_revs = filter (\<lambda>((n, r), _). \<not> (n = name \<and> r \<le> baseRev + 1 - int docHistoryKeep)) t\<rparr>"
    by (simp add: write_doc_def Let_def split: option.splits)
  then show thesis by (rule that [OF refl])
qed

lemma PutDoc_same_or_write:
  assumes "PutDoc e name body updatedBy baseRev deleted s = Inr (d, s')"
  shows "(\<exists>row. map_of (dd_docs s) name = Some row \<and> s' = s \<and> d = scanDoc name row \<and> dr_body row = body \<and> dr_deleted row = deleted)
    \<or> (baseRev = (case map_of (dd_docs s) name of None \<Rightarrow> 0 | Some c \<Rightarrow> dr_rev c)
       \<and> write_doc e name body updatedBy baseRev deleted s = Inr (d, s'))"
proof (cases "map_of (dd_docs s) name")
  case None
  with assms show ?thesis by (simp add: PutDoc_def split: if_splits)
next
  case (Some row)
  with assms show ?thesis
    by (cases "body = dr_body row \<and> deleted = dr_deleted row") (simp_all add: PutDoc_def scanDoc_def Let_def split: if_splits)
qed

lemma PutDoc_cases:
  assumes "PutDoc e name body updatedBy baseRev deleted s = Inr (d, s')"
  obtains (same) row where "s' = s" "map_of (dd_docs s) name = Some row" "d = scanDoc name row" "dr_body row = body" "dr_deleted row = deleted"
  | (fresh) row t where "row = next_doc e body updatedBy baseRev deleted"
      "baseRev = (case map_of (dd_docs s) name of None \<Rightarrow> 0 | Some c \<Rightarrow> dr_rev c)"
      "tb_insert (name, baseRev + 1) row (dd_revs s) = Some t" "d = scanDoc name row"
      "s' = \<lparr>dd_docs = AList.update name row (dd_docs s), dd_revs = filter (\<lambda>((n, r), _). \<not> (n = name \<and> r \<le> baseRev + 1 - int docHistoryKeep)) t\<rparr>"
  using PutDoc_same_or_write [OF assms]
proof (elim disjE exE conjE)
  fix row
  assume "map_of (dd_docs s) name = Some row" "s' = s" "d = scanDoc name row" "dr_body row = body" "dr_deleted row = deleted"
  then show thesis using same by blast
next
  assume r: "baseRev = (case map_of (dd_docs s) name of None \<Rightarrow> 0 | Some c \<Rightarrow> dr_rev c)"
    and w: "write_doc e name body updatedBy baseRev deleted s = Inr (d, s')"
  show thesis by (rule write_docD [OF w]) (rule fresh [OF _ r])
qed

text \<open>The new revision \<open>row\<close> of \<open>name\<close> is what happened.\<close>

definition doc_writes :: "string \<Rightarrow> doc_row \<Rightarrow> docs \<Rightarrow> docs \<Rightarrow> bool" where
  "doc_writes name row s s' \<longleftrightarrow> (\<exists>e body updatedBy baseRev deleted d. PutDoc e name body updatedBy baseRev deleted s = Inr (d, s'))
     \<and> map_of (dd_docs s') name = Some row \<and> map_of (dd_docs s) name \<noteq> Some row"

lemma doc_writesD:
  assumes "doc_writes name row s s'"
  shows "dr_rev row = (case map_of (dd_docs s) name of None \<Rightarrow> 0 | Some c \<Rightarrow> dr_rev c) + 1"
    "map_of (dd_docs s') = (map_of (dd_docs s))(name \<mapsto> row)"
    "(\<lambda>n r. map_of (dd_revs s') (n, r)) = (\<lambda>n r. map_of (dd_revs s) (n, r))
       (name := \<lambda>r. if r \<le> dr_rev row - int docHistoryKeep then None else if r = dr_rev row then Some row else map_of (dd_revs s) (name, r))"
proof -
  from assms obtain e body updatedBy baseRev deleted d where p: "PutDoc e name body updatedBy baseRev deleted s = Inr (d, s')"
    and n: "map_of (dd_docs s') name = Some row" "map_of (dd_docs s) name \<noteq> Some row" unfolding doc_writes_def by blast
  from p have "dr_rev row = (case map_of (dd_docs s) name of None \<Rightarrow> 0 | Some c \<Rightarrow> dr_rev c) + 1
    \<and> map_of (dd_docs s') = (map_of (dd_docs s))(name \<mapsto> row)
    \<and> (\<lambda>n r. map_of (dd_revs s') (n, r)) = (\<lambda>n r. map_of (dd_revs s) (n, r))
       (name := \<lambda>r. if r \<le> dr_rev row - int docHistoryKeep then None else if r = dr_rev row then Some row else map_of (dd_revs s) (name, r))"
  proof (cases rule: PutDoc_cases)
    case (same row')
    with n show ?thesis by simp
  next
    case (fresh row' t)
    then have r: "row' = row" using n(1) by simp
    have f: "(\<lambda>((n, r), _). \<not> (n = name \<and> r \<le> baseRev + 1 - int docHistoryKeep))
      = (\<lambda>(k, _). (\<lambda>(n, r). \<not> (n = name \<and> r \<le> baseRev + 1 - int docHistoryKeep)) k)" by auto
    from fresh(1) r have rv: "dr_rev row = baseRev + 1" by simp
    show ?thesis
      unfolding rv fresh(5) docs.select_convs f map_of_filter_key tb_insert_SomeD(2) [OF fresh(3)] r
      by (simp add: fresh(2) [symmetric] fun_eq_iff)
  qed
  then show "dr_rev row = (case map_of (dd_docs s) name of None \<Rightarrow> 0 | Some c \<Rightarrow> dr_rev c) + 1"
    "map_of (dd_docs s') = (map_of (dd_docs s))(name \<mapsto> row)"
    "(\<lambda>n r. map_of (dd_revs s') (n, r)) = (\<lambda>n r. map_of (dd_revs s) (n, r))
       (name := \<lambda>r. if r \<le> dr_rev row - int docHistoryKeep then None else if r = dr_rev row then Some row else map_of (dd_revs s) (name, r))"
    by blast+
qed

interpretation dv: versioned "\<lambda>s. map_of (dd_docs s)" "\<lambda>s n r. map_of (dd_revs s) (n, r)" dr_rev doc_writes docHistoryKeep no_docs
  by unfold_locales (simp add: no_docs_def, simp add: no_docs_def, simp add: docHistoryKeep_def,
    erule doc_writesD(1), erule doc_writesD(2), erule doc_writesD(3))

lemma PutDoc_writes:
  assumes "PutDoc e name body updatedBy baseRev deleted s = Inr (d, s')"
  shows "s' = s \<or> (\<exists>row. doc_writes name row s s' \<and> d = scanDoc name row \<and> dr_rev row = baseRev + 1)"
  using assms
proof (cases rule: PutDoc_cases)
  case (fresh row t)
  from fresh(1) have r: "dr_rev row = baseRev + 1" by simp
  have "map_of (dd_docs s') name = Some row" by (simp add: fresh(5))
  moreover have "map_of (dd_docs s) name \<noteq> Some row"
  proof
    assume "map_of (dd_docs s) name = Some row"
    with fresh(2) have "baseRev = dr_rev row" by (simp only: option.case)
    with r show False by simp
  qed
  ultimately show ?thesis using assms fresh(4) r unfolding doc_writes_def by blast
qed simp

end
