(* ===== verification/DocsProps.thy ===== *)
theory DocsProps
  imports Docs ExamplesBoard
begin

text \<open>
  What shared documents promise: the history they keep, no lost update, and what a search finds.
\<close>

section \<open>Runs of writes\<close>

abbreviation doc_step :: "docs \<Rightarrow> docs \<Rightarrow> bool" where
  "doc_step s s' \<equiv> \<exists>e name body who base deleted d. PutDoc e name body who base deleted s = Inr (d, s')"

lemma run_writes: "doc_step\<^sup>*\<^sup>* s s' \<Longrightarrow> (\<lambda>s s'. \<exists>k v. doc_writes k v s s')\<^sup>*\<^sup>* s s'"
proof (induction rule: rtranclp_induct)
  case (step t u)
  then have "u = t \<or> (\<exists>k v. doc_writes k v t u)" using PutDoc_writes by blast
  with step.IH show ?case by (auto intro: rtranclp.rtrancl_into_rtrancl)
qed simp

lemma run_tables: "doc_step\<^sup>*\<^sup>* no_docs s \<Longrightarrow> tb_ok (dd_revs s)"
proof (induction rule: rtranclp_induct)
  case (step t u)
  then obtain e name body who base deleted d where "PutDoc e name body who base deleted t = Inr (d, u)" by blast
  then show ?case
  proof (cases rule: PutDoc_cases)
    case (fresh row tb)
    with tb_insert_SomeD(3) [OF fresh(3)] step.IH show ?thesis by simp
  qed (use step.IH in simp)
qed (simp add: no_docs_def)

section \<open>History\<close>

lemma sort_key_distinct:
  fixes f :: "'a \<Rightarrow> 'b::linorder"
  assumes "distinct xs" "inj_on f (set xs)" "sorted ys" "distinct ys" "f ` set xs = set ys"
  shows "map f (sort_key f xs) = ys"
  by (rule sorted_distinct_set_unique) (use assms in \<open>simp_all add: distinct_map\<close>)

lemma DocLog_revs:
  assumes "tb_ok (dd_revs s)" "keeps n dr_rev log cur (\<lambda>n r. map_of (dd_revs s) (n, r))"
  shows "map do_Rev (DocLog len name s) = rev [max 1 (int (length (log name)) - int n + 1)..int (length (log name))]"
proof -
  let ?k = "int (length (log name))" and ?xs = "filter (\<lambda>((n, _), _). n = name) (dd_revs s)"
  let ?f = "\<lambda>(_ :: string \<times> int, r). dr_rev r"
  have x: "z \<in> set ?xs \<longleftrightarrow> (\<exists>r. 1 \<le> r \<and> ?k - int n < r \<and> r \<le> ?k \<and> z = ((name, r), log name ! nat (r - 1)))" for z
    using assms(1) keepsD(3) [OF assms(2), of name]
    by (cases z) (force simp: tb_mem_iff split: if_splits)
  have rv: "dr_rev (log name ! nat (r - 1)) = r" if "1 \<le> r" "r \<le> ?k" for r
    using keeps_rev [OF assms(2), of "nat (r - 1)" name] that by simp
  have xs: "set ?xs = (\<lambda>r. ((name, r), log name ! nat (r - 1))) ` {max 1 (?k - int n + 1)..?k}"
    by (rule set_eqI, unfold x) (auto simp: image_iff)
  have "map ?f (sort_key ?f ?xs) = [max 1 (?k - int n + 1)..?k]"
  proof (rule sort_key_distinct)
    show "distinct ?xs" using assms(1) by (simp add: tb_ok_def distinct_map distinct_filter)
    show "inj_on ?f (set ?xs)" unfolding xs by (rule inj_onI) (auto simp: rv)
    show "?f ` set ?xs = set [max 1 (?k - int n + 1)..?k]" unfolding xs image_image by (force simp: rv image_iff)
  qed simp_all
  moreover have "do_Rev \<circ> (\<lambda>((n, _), r). list_doc len n r) = ?f" by (auto simp: fun_eq_iff list_doc_def scanDoc_def)
  ultimately show ?thesis unfolding DocLog_def map_map by (simp add: rev_map [symmetric])
qed

text \<open>C36: However documents are written, each name has a log of all its versions, numbered from 1
  without a gap: the stored document is its newest, the stored revisions are exactly its newest
  twenty, and the log of a document lists those twenty, newest first.\<close>

theorem documents_keep_history:
  assumes "(\<lambda>s s'. \<exists>e name body who base deleted d. PutDoc e name body who base deleted s = Inr (d, s'))\<^sup>*\<^sup>* no_docs s"
  shows "\<exists>log. keeps 20 dr_rev log (map_of (dd_docs s)) (\<lambda>n r. map_of (dd_revs s) (n, r))
    \<and> (\<forall>len name. map do_Rev (DocLog len name s) = rev [max 1 (int (length (log name)) - 19)..int (length (log name))])"
proof -
  obtain log where k: "keeps docHistoryKeep dr_rev log (map_of (dd_docs s)) (\<lambda>n r. map_of (dd_revs s) (n, r))"
    using dv.run_log [OF run_writes [OF assms]] by blast
  with DocLog_revs [OF run_tables [OF assms] k] show ?thesis
    by (intro exI [of _ log]) (simp add: docHistoryKeep_def algebra_simps)
qed

section \<open>No lost update\<close>

text \<open>C7: No update is lost. Once a write on top of some revision has committed, no other write on
  top of that revision does, whatever was written in between: it is refused for its content, or it
  gets the current document as a conflict, or it asked for what the document already says.\<close>

theorem no_lost_update:
  assumes "PutDoc e name body who base deleted s = Inr (d, s1)" "s1 \<noteq> s"
    "(\<lambda>s s'. \<exists>e name body who base deleted d. PutDoc e name body who base deleted s = Inr (d, s'))\<^sup>*\<^sup>* s1 s2"
  shows "\<exists>c. map_option (scanDoc name) (map_of (dd_docs s2) name) = Some c \<and> base < do_Rev c
    \<and> PutDoc e' name body' who' base deleted' s2
      = (if MaxDocBytes < length body' then Inl (DocRefused ''document too large'')
         else if snd (ScanAuthored body') \<noteq> [] then Inl (DocRefused ''secret-shaped content'')
         else if body' = do_Body c \<and> deleted' = do_Deleted c then Inr (c, s2)
         else Inl (DocConflict c))"
proof -
  from PutDoc_writes [OF assms(1)] assms(2) obtain row where w: "doc_writes name row s s1" "dr_rev row = base + 1" by blast
  then have "map_of (dd_docs s1) name = Some row" by (simp add: doc_writes_def)
  from dv.revisions_grow [OF run_writes [OF assms(3)] this] w(2)
  obtain row' where r: "map_of (dd_docs s2) name = Some row'" "base < dr_rev row'" by auto
  have "MatchString docNameRe name" using assms(1) by (auto simp: PutDoc_def split: if_splits)
  with r show ?thesis by (intro exI [of _ "scanDoc name row'"]) (auto simp: PutDoc_def scanDoc_def)
qed

section \<open>A document\<close>

definition ex_docs :: docs where
  "ex_docs = (case PutDoc (ex_env 0) ''notes'' ''hello'' ''ann'' 0 False no_docs of Inl x \<Rightarrow> no_docs | Inr (d, s) \<Rightarrow> s)"

lemma ex_put: "\<exists>d. PutDoc (ex_env 0) ''notes'' ''hello'' ''ann'' 0 False no_docs = Inr (d, ex_docs)" "ex_docs \<noteq> no_docs"
  "map_of (dd_docs ex_docs) ''notes'' = Some (next_doc (ex_env 0) ''hello'' ''ann'' 0 False)"
proof -
  have "MatchString docNameRe ''notes''" "snd (ScanAuthored ''hello'') = []" by code_simp+
  then have p: "PutDoc (ex_env 0) ''notes'' ''hello'' ''ann'' 0 False no_docs = write_doc (ex_env 0) ''notes'' ''hello'' ''ann'' 0 False no_docs"
    by (simp add: PutDoc_def no_docs_def MaxDocBytes_def)
  obtain d s where w: "PutDoc (ex_env 0) ''notes'' ''hello'' ''ann'' 0 False no_docs = Inr (d, s)"
    "map_of (dd_docs s) ''notes'' = Some (next_doc (ex_env 0) ''hello'' ''ann'' 0 False)"
    unfolding p by (simp add: write_doc_def no_docs_def tb_insert_def Let_def)
  moreover from w(2) have "s \<noteq> no_docs" by (auto simp: no_docs_def)
  moreover have "ex_docs = s" using w(1) by (simp add: ex_docs_def)
  ultimately show "\<exists>d. PutDoc (ex_env 0) ''notes'' ''hello'' ''ann'' 0 False no_docs = Inr (d, ex_docs)" "ex_docs \<noteq> no_docs"
    "map_of (dd_docs ex_docs) ''notes'' = Some (next_doc (ex_env 0) ''hello'' ''ann'' 0 False)" by blast+
qed

lemma ex_docs_table: "dd_docs ex_docs = [(''notes'', next_doc (ex_env 0) ''hello'' ''ann'' 0 False)]"
proof -
  obtain d where "PutDoc (ex_env 0) ''notes'' ''hello'' ''ann'' 0 False no_docs = Inr (d, ex_docs)" using ex_put(1) by blast
  then show ?thesis
  proof (cases rule: PutDoc_cases)
    case (same row)
    then show ?thesis using ex_put(2) by simp
  next
    case (fresh row t)
    from fresh(1) show ?thesis unfolding fresh(5) by (simp add: no_docs_def)
  qed
qed

theorem documents_keep_history_witness: "map do_Rev (DocLog length ''notes'' ex_docs) = [1]"
proof -
  have "(\<lambda>s s'. \<exists>e name body who base deleted d. PutDoc e name body who base deleted s = Inr (d, s'))\<^sup>*\<^sup>* no_docs ex_docs"
    using ex_put(1) by blast
  from documents_keep_history [OF this] obtain log where k: "keeps 20 dr_rev log (map_of (dd_docs ex_docs)) (\<lambda>n r. map_of (dd_revs ex_docs) (n, r))"
    and l: "\<forall>len name. map do_Rev (DocLog len name ex_docs) = rev [max 1 (int (length (log name)) - 19)..int (length (log name))]" by blast
  have "int (length (log ''notes'')) = 1" using keeps_current [OF k, of "''notes''"] ex_put(3) by simp
  with l show ?thesis by simp
qed

theorem no_lost_update_witness:
  "\<exists>c. PutDoc (ex_env 1) ''notes'' ''bye'' ''bob'' 0 False ex_docs = Inl (DocConflict c) \<and> 0 < do_Rev c \<and> do_Body c = ''hello''"
proof -
  obtain d where p: "PutDoc (ex_env 0) ''notes'' ''hello'' ''ann'' 0 False no_docs = Inr (d, ex_docs)" using ex_put(1) by blast
  have s: "snd (ScanAuthored ''bye'') = []" by code_simp
  from no_lost_update [OF p ex_put(2) rtranclp.rtrancl_refl, of "ex_env 1" "''bye''" "''bob''" False] s ex_put(3) show ?thesis
    by (auto simp: MaxDocBytes_def scanDoc_def)
qed

section \<open>Search\<close>

lemma back_start_None: "back_start body n = None \<longleftrightarrow> 0 < n \<and> length body \<le> n"
  by (induction body n rule: back_start.induct) auto

lemma back_start_le: "back_start body n = Some m \<Longrightarrow> m \<le> n"
  by (induction body n rule: back_start.induct) (auto split: if_splits)

lemma forth_end_ge: "n \<le> forth_end body n"
  by (induction body n rule: forth_end.induct) (subst forth_end.simps, auto)

text \<open>The snippet of a hit panics exactly when the hit is more than sixty bytes past the body's end,
  which a lowered body longer than the body allows.\<close>

lemma docSnippet_panics_iff: "docSnippet body pos = None \<longleftrightarrow> 60 < pos \<and> length body \<le> nat pos - 60"
proof (cases "back_start body (nat pos - 60)")
  case None
  then have "docSnippet body pos = None" by (simp add: docSnippet_def Let_def)
  with None show ?thesis by (auto simp: back_start_None)
next
  case (Some start)
  then have n: "\<not> (60 < pos \<and> length body \<le> nat pos - 60)" using back_start_None [of body "nat pos - 60"] by auto
  then have "nat pos - 60 \<le> min (nat pos + 120) (length body)" by auto
  with back_start_le [OF Some] forth_end_ge [of "min (nat pos + 120) (length body)" body]
  have "start \<le> forth_end body (min (nat pos + 120) (length body))" by linarith
  with Some n show ?thesis by (simp add: docSnippet_def Let_def)
qed

definition has_term :: "string \<Rightarrow> string \<Rightarrow> string \<Rightarrow> bool" where
  "has_term lowBody lowName t \<longleftrightarrow> 0 \<le> Index lowBody t \<or> Contains lowName t"

lemma match_terms_iff: "match_terms lb ln ts f \<noteq> None \<longleftrightarrow> list_all (has_term lb ln) ts"
  by (induction lb ln ts f rule: match_terms.induct) (auto simp: Let_def has_term_def)

lemma match_terms_range: "match_terms lb ln ts f = Some g \<Longrightarrow> f \<le> int (length lb) \<Longrightarrow> g \<le> int (length lb)"
  by (induction lb ln ts f rule: match_terms.induct) (auto simp: Let_def Index_range split: if_splits)

lemma search_rows_exact:
  assumes "\<forall>(n, r) \<in> set rows. length (toLower (dr_body r)) \<le> length (dr_body r)" "length out < limit"
  shows "\<exists>res. search_rows toLower terms limit rows out = Some res
    \<and> map dm_Name res = map dm_Name out @ take (limit - length out)
        (map fst (filter (\<lambda>(n, r). list_all (has_term (toLower (dr_body r)) (toLower n)) terms) rows))"
  using assms
proof (induction toLower terms limit rows out rule: search_rows.induct)
  case (2 toLower terms limit name r rows out)
  show ?case
  proof (cases "match_terms (toLower (dr_body r)) (toLower name) terms (- 1)")
    case None
    then have "\<not> list_all (has_term (toLower (dr_body r)) (toLower name)) terms" using match_terms_iff by metis
    with None "2.IH"(1) [OF None] "2.prems" show ?thesis by simp
  next
    case (Some first)
    then have h: "list_all (has_term (toLower (dr_body r)) (toLower name)) terms" using match_terms_iff by (metis option.distinct(1))
    have "first \<le> int (length (dr_body r))" using match_terms_range [OF Some] "2.prems"(1) by simp
    then have "docSnippet (dr_body r) first \<noteq> None" by (simp add: docSnippet_panics_iff) arith
    then obtain snip where s: "docSnippet (dr_body r) first = Some snip" by blast
    let ?out = "out @ [\<lparr>dm_Name = name, dm_Rev = dr_rev r, dm_UpdatedAt = dr_updated_at r, dm_Snippet = snip\<rparr>]"
    show ?thesis
    proof (cases "limit \<le> length ?out")
      case True
      with "2.prems"(2) have "limit - length out = 1" by simp
      with True Some s h show ?thesis by simp
    next
      case False
      then obtain n where n: "limit - length out = Suc n" "limit - length ?out = n" using Suc_diff_Suc [of "length out" limit] "2.prems"(2) by auto
      with False "2.IH"(2) [OF Some s refl] "2.prems" Some s h show ?thesis by simp
    qed
  qed
qed simp

text \<open>A search finds exactly what it says. Where lowering a body does not lengthen it, the search
  does not panic, and its hits are the first of the limit, in order of name, among the documents that
  are not deleted and have every term in the body or in the name.\<close>

theorem search_is_exact:
  assumes "\<forall>(n, r) \<in> set (dd_docs s). length (toLower (dr_body r)) \<le> length (dr_body r)"
  shows "\<exists>hits. SearchDocs toLower q limit s = Some hits
    \<and> map dm_Name hits = (if Fields (toLower q) = [] then []
        else take (if limit \<le> 0 \<or> 50 < limit then 10 else nat limit)
          (map fst (filter (\<lambda>(n, r). \<not> dr_deleted r \<and> list_all (\<lambda>t. 0 \<le> Index (toLower (dr_body r)) t \<or> Contains (toLower n) t) (Fields (toLower q)))
            (sort_key fst (dd_docs s)))))"
proof -
  have l: "0 < search_limit limit" by (simp add: search_limit_def)
  have "\<forall>(n, r) \<in> set (filter (\<lambda>(_, r). \<not> dr_deleted r) (sort_key fst (dd_docs s))). length (toLower (dr_body r)) \<le> length (dr_body r)"
    using assms by auto
  from search_rows_exact [OF this, of "[]" "search_limit limit" "Fields (toLower q)"] l obtain res
    where r: "search_rows toLower (Fields (toLower q)) (search_limit limit) (filter (\<lambda>(_, r). \<not> dr_deleted r) (sort_key fst (dd_docs s))) [] = Some res"
      "map dm_Name res = take (search_limit limit) (map fst (filter (\<lambda>(n, r). list_all (has_term (toLower (dr_body r)) (toLower n)) (Fields (toLower q)))
        (filter (\<lambda>(_, r). \<not> dr_deleted r) (sort_key fst (dd_docs s)))))" by auto
  have f: "(\<lambda>x. (case x of (_, r) \<Rightarrow> \<not> dr_deleted r) \<and> (case x of (n, r) \<Rightarrow> list_all (has_term (toLower (dr_body r)) (toLower n)) (Fields (toLower q))))
    = (\<lambda>(n, r). \<not> dr_deleted r \<and> list_all (\<lambda>t. 0 \<le> Index (toLower (dr_body r)) t \<or> Contains (toLower n) t) (Fields (toLower q)))"
    by (auto simp: fun_eq_iff has_term_def [abs_def])
  show ?thesis
  proof (cases "Fields (toLower q) = []")
    case True
    then show ?thesis by (simp add: SearchDocs_def)
  next
    case False
    with r show ?thesis by (simp add: SearchDocs_def Let_def filter_filter f search_limit_def [symmetric])
  qed
qed

theorem search_is_exact_witness: "\<exists>hits. SearchDocs (\<lambda>s. s) ''ell'' 5 ex_docs = Some hits \<and> map dm_Name hits = [''notes'']"
proof -
  have d: "dd_docs ex_docs = [(''notes'', next_doc (ex_env 0) ''hello'' ''ann'' 0 False)]" by (rule ex_docs_table)
  have g: "go_units ''ell'' = [(Some 101, ''e''), (Some 108, ''l''), (Some 108, ''l'')]" by code_simp
  have f: "Fields ''ell'' = [''ell'']" unfolding Fields_def g by (simp add: fields_of.simps space_unit_def IsSpace_def)
  have i: "0 \<le> Index ''hello'' ''ell''" by code_simp
  from search_is_exact [of ex_docs "\<lambda>s. s" "''ell''" 5] show ?thesis by (simp add: d f i)
qed

end
