(* ===== verification/Collections.thy ===== *)
theory Collections
  imports Docs "HOL-Library.Product_Lexorder"
begin

text \<open>
  Structured collections (\<open>internal/store/collections.go\<close>): JSON records with slash-path
  identifiers, each with the compare-and-swap contract of a document. The tables are
  \<open>col_records\<close> and \<open>col_revisions\<close>. \<open>json.Valid\<close> is Go's scanner: one byte at a time, with a
  stack of open objects and arrays.
\<close>

section \<open>\<open>json.Valid\<close>\<close>

datatype jmode = BeginValue | BeginValueOrEmpty | BeginString | BeginStringOrEmpty | EndValue | EndTop
  | InString | InStringEsc | InStringEscU nat | Neg | Num1 | Num0 | Dot | Dot0 | Exp | ExpSign | Exp0 | Word string | Bad

datatype jopen = ObjKey | ObjValue | ArrValue

definition maxNestingDepth :: nat where "maxNestingDepth = 10000"

type_synonym jscan = "jmode \<times> jopen list"

definition jspace :: "nat \<Rightarrow> bool" where
  "jspace c \<longleftrightarrow> c \<le> 32 \<and> (c = 32 \<or> c = 9 \<or> c = 13 \<or> c = 10)"

definition digit19 :: "nat \<Rightarrow> bool" where
  "digit19 c \<longleftrightarrow> 49 \<le> c \<and> c \<le> 57"

definition pushed :: "jopen \<Rightarrow> jmode \<Rightarrow> jopen list \<Rightarrow> jscan" where
  "pushed p m st = (if length st < maxNestingDepth then (m, p # st) else (Bad, p # st))"

definition popped :: "jopen list \<Rightarrow> jscan" where
  "popped st = (if tl st = [] then (EndTop, []) else (EndValue, tl st))"

definition begin_value :: "nat \<Rightarrow> jopen list \<Rightarrow> jscan" where
  "begin_value c st =
     (if jspace c then (BeginValue, st)
      else if c = 123 then pushed ObjKey BeginStringOrEmpty st
      else if c = 91 then pushed ArrValue BeginValueOrEmpty st
      else if c = 34 then (InString, st)
      else if c = 45 then (Neg, st)
      else if c = 48 then (Num0, st)
      else if c = 116 then (Word ''rue'', st)
      else if c = 102 then (Word ''alse'', st)
      else if c = 110 then (Word ''ull'', st)
      else if digit19 c then (Num1, st)
      else (Bad, st))"

definition begin_string :: "nat \<Rightarrow> jopen list \<Rightarrow> jscan" where
  "begin_string c st = (if jspace c then (BeginString, st) else if c = 34 then (InString, st) else (Bad, st))"

fun end_value :: "nat \<Rightarrow> jopen list \<Rightarrow> jscan" where
  "end_value c [] = (if jspace c then (EndTop, []) else (Bad, []))"
| "end_value c (p # st) =
     (if jspace c then (EndValue, p # st)
      else case p of
        ObjKey \<Rightarrow> if c = 58 then (BeginValue, ObjValue # st) else (Bad, p # st)
      | ObjValue \<Rightarrow> if c = 44 then (BeginString, ObjKey # st) else if c = 125 then popped (p # st) else (Bad, p # st)
      | ArrValue \<Rightarrow> if c = 44 then (BeginValue, p # st) else if c = 93 then popped (p # st) else (Bad, p # st))"

definition num_tail :: "nat \<Rightarrow> jopen list \<Rightarrow> jscan" where
  \<comment> \<open>\<open>state0\<close>: what may follow the integer part\<close>
  "num_tail c st = (if c = 46 then (Dot, st) else if c = 101 \<or> c = 69 then (Exp, st) else end_value c st)"

fun scan_step :: "jscan \<Rightarrow> nat \<Rightarrow> jscan" where
  "scan_step (BeginValue, st) c = begin_value c st"
| "scan_step (BeginValueOrEmpty, st) c = (if jspace c then (BeginValueOrEmpty, st) else if c = 93 then end_value c st else begin_value c st)"
| "scan_step (BeginString, st) c = begin_string c st"
| "scan_step (BeginStringOrEmpty, st) c =
     (if jspace c then (BeginStringOrEmpty, st) else if c = 125 then end_value c (ObjValue # tl st) else begin_string c st)"
| "scan_step (EndValue, st) c = end_value c st"
| "scan_step (EndTop, st) c = (if jspace c then (EndTop, st) else (Bad, st))"
| "scan_step (InString, st) c = (if c = 34 then (EndValue, st) else if c = 92 then (InStringEsc, st) else if c < 32 then (Bad, st) else (InString, st))"
| "scan_step (InStringEsc, st) c = (if c \<in> {98, 102, 110, 114, 116, 92, 47, 34} then (InString, st) else if c = 117 then (InStringEscU 3, st) else (Bad, st))"
| "scan_step (InStringEscU n, st) c = (if hexdigit c \<or> 65 \<le> c \<and> c \<le> 70 then ((if n = 0 then InString else InStringEscU (n - 1)), st) else (Bad, st))"
| "scan_step (Neg, st) c = (if c = 48 then (Num0, st) else if digit19 c then (Num1, st) else (Bad, st))"
| "scan_step (Num1, st) c = (if digit c then (Num1, st) else num_tail c st)"
| "scan_step (Num0, st) c = num_tail c st"
| "scan_step (Dot, st) c = (if digit c then (Dot0, st) else (Bad, st))"
| "scan_step (Dot0, st) c = (if digit c then (Dot0, st) else if c = 101 \<or> c = 69 then (Exp, st) else end_value c st)"
| "scan_step (Exp, st) c = (if c = 43 \<or> c = 45 then (ExpSign, st) else if digit c then (Exp0, st) else (Bad, st))"
| "scan_step (ExpSign, st) c = (if digit c then (Exp0, st) else (Bad, st))"
| "scan_step (Exp0, st) c = (if digit c then (Exp0, st) else end_value c st)"
| "scan_step (Word w, st) c = (case w of [] \<Rightarrow> end_value c st | x # xs \<Rightarrow> if c = of_char x then ((if xs = [] then EndValue else Word xs), st) else (Bad, st))"
| "scan_step (Bad, st) c = (Bad, st)"

text \<open>At the end a space is fed once more; the text is valid when that ends the top value.\<close>

definition json_valid :: "string \<Rightarrow> bool" where
  "json_valid s =
     (let r = foldl (\<lambda>st c. scan_step st (of_char c)) (BeginValue, []) s
      in fst r \<noteq> Bad \<and> (fst r = EndTop \<or> scan_step r 32 = (EndTop, [])))"

section \<open>Records\<close>

definition MaxRecordBytes :: nat where "MaxRecordBytes = 32 * 1024"
definition colHistoryKeep :: nat where "colHistoryKeep = 20"

record Record =
  rc_Collection :: string
  rc_ID :: string
  rc_Body :: "string option"
  rc_Rev :: int
  rc_UpdatedAt :: string
  rc_UpdatedBy :: string
  rc_Deleted :: bool
  rc_Size :: nat

text \<open>The columns are those of a document; the key is the collection and the identifier.\<close>

record cols =
  co_records :: "(string \<times> string, doc_row) table"
  co_revs :: "((string \<times> string) \<times> int, doc_row) table"

datatype rec_err = RecordConflict Record | RecordRefused string | RecordSQL

definition scanRecord :: "string \<times> string \<Rightarrow> doc_row \<Rightarrow> Record" where
  "scanRecord k r = \<lparr>rc_Collection = fst k, rc_ID = snd k, rc_Body = Some (dr_body r), rc_Rev = dr_rev r,
     rc_UpdatedAt = dr_updated_at r, rc_UpdatedBy = dr_updated_by r, rc_Deleted = dr_deleted r, rc_Size = length (dr_body r)\<rparr>"

definition next_record :: "env \<Rightarrow> string \<Rightarrow> string \<Rightarrow> int \<Rightarrow> bool \<Rightarrow> doc_row" where
  "next_record e body updatedBy baseRev deleted =
     \<lparr>dr_body = body, dr_rev = baseRev + 1, dr_updated_at = e_now e 0, dr_updated_by = updatedBy, dr_deleted = deleted\<rparr>"

lemma next_record_sel [simp]: "dr_rev (next_record e body updatedBy baseRev deleted) = baseRev + 1"
  "dr_body (next_record e body updatedBy baseRev deleted) = body"
  "dr_deleted (next_record e body updatedBy baseRev deleted) = deleted"
  by (simp_all add: next_record_def)

definition write_record :: "env \<Rightarrow> string \<times> string \<Rightarrow> string \<Rightarrow> string \<Rightarrow> int \<Rightarrow> bool \<Rightarrow> cols \<Rightarrow> rec_err + Record \<times> cols" where
  "write_record e k body updatedBy baseRev deleted s =
     (let row = next_record e body updatedBy baseRev deleted
      in case tb_insert (k, dr_rev row) row (co_revs s) of
           None \<Rightarrow> Inl RecordSQL
         | Some t \<Rightarrow> Inr (scanRecord k row,
             \<lparr>co_records = AList.update k row (co_records s),
              co_revs = filter (\<lambda>((j, r), _). \<not> (j = k \<and> r \<le> dr_rev row - int colHistoryKeep)) t\<rparr>))"

definition PutRecord :: "env \<Rightarrow> string \<Rightarrow> string \<Rightarrow> string \<Rightarrow> string \<Rightarrow> int \<Rightarrow> bool \<Rightarrow> cols \<Rightarrow> rec_err + Record \<times> cols" where
  "PutRecord e collection i body0 updatedBy baseRev deleted s =
     (if \<not> MatchString docNameRe collection then Inl (RecordRefused ''invalid collection name'')
      else if \<not> validRecordID i then Inl (RecordRefused ''invalid record id'')
      else let body = (if deleted then ''{}'' else body0) in
      if MaxRecordBytes < length body then Inl (RecordRefused ''record too large'')
      else if \<not> json_valid body \<or> take 1 (TrimSpace body) \<noteq> ''{'' then Inl (RecordRefused ''record body must be a JSON object'')
      else if snd (ScanAuthored body) \<noteq> [] then Inl (RecordRefused ''secret-shaped content'')
      else case map_of (co_records s) (collection, i) of
        None \<Rightarrow>
          if deleted then Inl (RecordRefused ''no such record'')
          else if baseRev \<noteq> 0 then Inl (RecordRefused ''no such record: use 0 to create'')
          else write_record e (collection, i) body updatedBy baseRev deleted s
      | Some row \<Rightarrow>
          (let cur = scanRecord (collection, i) row
           in if rc_Body cur = Some body \<and> deleted = rc_Deleted cur then Inr (cur, s)
              else if baseRev \<noteq> rc_Rev cur then Inl (RecordConflict cur)
              else write_record e (collection, i) body updatedBy baseRev deleted s))"

section \<open>Reads\<close>

definition GetRecord :: "string \<Rightarrow> string \<Rightarrow> int \<Rightarrow> cols \<Rightarrow> rec_err + Record" where
  "GetRecord collection i r s =
     (case (if 0 < r then map_of (co_revs s) ((collection, i), r) else map_of (co_records s) (collection, i)) of
        None \<Rightarrow> Inl (RecordRefused ''no such record'') | Some row \<Rightarrow> Inr (scanRecord (collection, i) row))"

definition ListRecords :: "(string \<Rightarrow> nat) \<Rightarrow> string \<Rightarrow> bool \<Rightarrow> cols \<Rightarrow> Record list" where
  "ListRecords len collection withBodies s =
     map (\<lambda>(k, r). (scanRecord k r)\<lparr>rc_Body := (if withBodies then Some (dr_body r) else None), rc_Size := len (dr_body r)\<rparr>)
       (sort_key (\<lambda>(k, _). snd k) (filter (\<lambda>(k, _). fst k = collection) (co_records s)))"

record ColSummary =
  cs_Name :: string
  cs_Records :: nat
  cs_UpdatedAt :: string

text \<open>\<open>GROUP BY collection\<close>: the number of live records and the newest time of all.\<close>

definition summarize :: "cols \<Rightarrow> string \<Rightarrow> ColSummary" where
  "summarize s c =
     (let rows = map snd (filter (\<lambda>(k, _). fst k = c) (co_records s))
      in \<lparr>cs_Name = c, cs_Records = length (filter (\<lambda>r. \<not> dr_deleted r) rows), cs_UpdatedAt = foldl max [] (map dr_updated_at rows)\<rparr>)"

definition ListCollections :: "cols \<Rightarrow> ColSummary list" where
  "ListCollections s = map (summarize s) (sort (remdups (map (fst \<circ> fst) (co_records s))))"

definition RecordLog :: "(string \<Rightarrow> nat) \<Rightarrow> string \<Rightarrow> string \<Rightarrow> cols \<Rightarrow> Record list" where
  "RecordLog len collection i s =
     map (\<lambda>((k, _), r). (scanRecord k r)\<lparr>rc_Body := None, rc_Size := len (dr_body r)\<rparr>)
       (rev (sort_key (\<lambda>(_, r). dr_rev r) (filter (\<lambda>((k, _), _). k = (collection, i)) (co_revs s))))"

record ColMatch =
  cm_Collection :: string
  cm_RecordID :: string
  cm_Rev :: int
  cm_MatchedAt :: string
  cm_Snippet :: string

fun search_records :: "(string \<Rightarrow> string) \<Rightarrow> string list \<Rightarrow> nat \<Rightarrow> ((string \<times> string) \<times> doc_row) list \<Rightarrow> ColMatch list \<Rightarrow> ColMatch list option" where
  "search_records toLower terms limit [] out = Some out"
| "search_records toLower terms limit ((k, r) # rows) out =
     (case match_terms (toLower (dr_body r)) (toLower (fst k @ ''/'' @ snd k)) terms (- 1) of
        None \<Rightarrow> search_records toLower terms limit rows out
      | Some first \<Rightarrow>
          (case docSnippet (dr_body r) first of None \<Rightarrow> None | Some snip \<Rightarrow>
           let out' = out @ [\<lparr>cm_Collection = fst k, cm_RecordID = snd k, cm_Rev = dr_rev r, cm_MatchedAt = dr_updated_at r, cm_Snippet = snip\<rparr>]
           in if limit \<le> length out' then Some out' else search_records toLower terms limit rows out'))"

definition SearchRecords :: "(string \<Rightarrow> string) \<Rightarrow> string \<Rightarrow> int \<Rightarrow> cols \<Rightarrow> ColMatch list option" where
  "SearchRecords toLower q limit s =
     (let terms = Fields (toLower q)
      in if terms = [] then Some []
         else search_records toLower terms (if limit \<le> 0 \<or> 50 < limit then 10 else nat limit)
           (filter (\<lambda>(_, r). \<not> dr_deleted r) (sort_key fst (co_records s))) [])"

section \<open>The contract\<close>

definition no_cols :: cols where
  "no_cols = \<lparr>co_records = [], co_revs = []\<rparr>"

lemma PutRecord_same_or_write:
  assumes "PutRecord e c i body updatedBy baseRev deleted s = Inr (d, s')"
  shows "s' = s \<or> (baseRev = (case map_of (co_records s) (c, i) of None \<Rightarrow> 0 | Some r \<Rightarrow> dr_rev r)
       \<and> write_record e (c, i) (if deleted then ''{}'' else body) updatedBy baseRev deleted s = Inr (d, s'))"
proof (cases "map_of (co_records s) (c, i)")
  case None
  with assms show ?thesis by (simp add: PutRecord_def Let_def split: if_splits)
next
  case (Some row)
  with assms show ?thesis
    by (cases "(if deleted then ''{}'' else body) = dr_body row \<and> deleted = dr_deleted row")
       (simp_all add: PutRecord_def scanRecord_def Let_def split: if_splits)
qed

lemma write_recordD:
  assumes "write_record e k body updatedBy baseRev deleted s = Inr (d, s')"
  obtains row t where "row = next_record e body updatedBy baseRev deleted" "d = scanRecord k row"
      "tb_insert (k, baseRev + 1) row (co_revs s) = Some t"
      "s' = \<lparr>co_records = AList.update k row (co_records s), co_revs = filter (\<lambda>((j, r), _). \<not> (j = k \<and> r \<le> baseRev + 1 - int colHistoryKeep)) t\<rparr>"
proof -
  from assms obtain t where "d = scanRecord k (next_record e body updatedBy baseRev deleted)"
    "tb_insert (k, baseRev + 1) (next_record e body updatedBy baseRev deleted) (co_revs s) = Some t"
    "s' = \<lparr>co_records = AList.update k (next_record e body updatedBy baseRev deleted) (co_records s),
       co_revs = filter (\<lambda>((j, r), _). \<not> (j = k \<and> r \<le> baseRev + 1 - int colHistoryKeep)) t\<rparr>"
    by (simp add: write_record_def Let_def split: option.splits)
  then show thesis by (rule that [OF refl])
qed

text \<open>The new revision \<open>row\<close> of \<open>k\<close> is what happened.\<close>

definition record_writes :: "string \<times> string \<Rightarrow> doc_row \<Rightarrow> cols \<Rightarrow> cols \<Rightarrow> bool" where
  "record_writes k row s s' \<longleftrightarrow> (\<exists>t. tb_insert (k, dr_rev row) row (co_revs s) = Some t
     \<and> dr_rev row = (case map_of (co_records s) k of None \<Rightarrow> 0 | Some c \<Rightarrow> dr_rev c) + 1
     \<and> s' = \<lparr>co_records = AList.update k row (co_records s), co_revs = filter (\<lambda>((j, r), _). \<not> (j = k \<and> r \<le> dr_rev row - int colHistoryKeep)) t\<rparr>)"

lemma PutRecord_writes:
  assumes "PutRecord e c i body updatedBy baseRev deleted s = Inr (d, s')"
  shows "s' = s \<or> (\<exists>row. record_writes (c, i) row s s' \<and> d = scanRecord (c, i) row \<and> dr_rev row = baseRev + 1)"
  using PutRecord_same_or_write [OF assms]
proof (elim disjE conjE)
  assume r: "baseRev = (case map_of (co_records s) (c, i) of None \<Rightarrow> 0 | Some r \<Rightarrow> dr_rev r)"
    and w: "write_record e (c, i) (if deleted then ''{}'' else body) updatedBy baseRev deleted s = Inr (d, s')"
  show ?thesis
  proof (rule write_recordD [OF w], intro disjI2 exI conjI)
    fix row t
    assume a: "row = next_record e (if deleted then ''{}'' else body) updatedBy baseRev deleted" "d = scanRecord (c, i) row"
      "tb_insert ((c, i), baseRev + 1) row (co_revs s) = Some t"
      "s' = \<lparr>co_records = AList.update (c, i) row (co_records s), co_revs = filter (\<lambda>((j, r), _). \<not> (j = (c, i) \<and> r \<le> baseRev + 1 - int colHistoryKeep)) t\<rparr>"
    then show rv: "dr_rev row = baseRev + 1" by simp
    show "record_writes (c, i) row s s'" unfolding record_writes_def rv r [symmetric] using a(3,4) by blast
    show "d = scanRecord (c, i) row" by fact
  qed
qed simp

lemma record_writesD:
  assumes "record_writes k row s s'"
  shows "dr_rev row = (case map_of (co_records s) k of None \<Rightarrow> 0 | Some c \<Rightarrow> dr_rev c) + 1"
    "map_of (co_records s') = (map_of (co_records s))(k \<mapsto> row)"
    "(\<lambda>j r. map_of (co_revs s') (j, r)) = (\<lambda>j r. map_of (co_revs s) (j, r))
       (k := \<lambda>r. if r \<le> dr_rev row - int colHistoryKeep then None else if r = dr_rev row then Some row else map_of (co_revs s) (k, r))"
proof -
  from assms obtain t where t: "tb_insert (k, dr_rev row) row (co_revs s) = Some t"
    and rv: "dr_rev row = (case map_of (co_records s) k of None \<Rightarrow> 0 | Some c \<Rightarrow> dr_rev c) + 1"
    and s': "s' = \<lparr>co_records = AList.update k row (co_records s), co_revs = filter (\<lambda>((j, r), _). \<not> (j = k \<and> r \<le> dr_rev row - int colHistoryKeep)) t\<rparr>"
    unfolding record_writes_def by blast
  show "dr_rev row = (case map_of (co_records s) k of None \<Rightarrow> 0 | Some c \<Rightarrow> dr_rev c) + 1" by (rule rv)
  show "map_of (co_records s') = (map_of (co_records s))(k \<mapsto> row)" by (simp add: s')
  have f: "(\<lambda>((j, r), _). \<not> (j = k \<and> r \<le> dr_rev row - int colHistoryKeep))
    = (\<lambda>(q, _). (\<lambda>(j, r). \<not> (j = k \<and> r \<le> dr_rev row - int colHistoryKeep)) q)" by auto
  show "(\<lambda>j r. map_of (co_revs s') (j, r)) = (\<lambda>j r. map_of (co_revs s) (j, r))
       (k := \<lambda>r. if r \<le> dr_rev row - int colHistoryKeep then None else if r = dr_rev row then Some row else map_of (co_revs s) (k, r))"
    unfolding s' cols.select_convs f map_of_filter_key tb_insert_SomeD(2) [OF t] by (simp add: fun_eq_iff)
qed

interpretation rv: versioned "\<lambda>s. map_of (co_records s)" "\<lambda>s k r. map_of (co_revs s) (k, r)" dr_rev record_writes colHistoryKeep no_cols
  by unfold_locales (simp add: no_cols_def, simp add: no_cols_def, simp add: colHistoryKeep_def,
    erule record_writesD(1), erule record_writesD(2), erule record_writesD(3))

end
