(* ===== verification/CollectionsProps.thy ===== *)
theory CollectionsProps
  imports Collections DocsProps
begin

text \<open>
  What collection records promise: no lost update, and writers of different records never meet.
\<close>

section \<open>Runs of writes\<close>

lemma record_run_writes:
  "(\<lambda>s s'. \<exists>e c i body who base deleted d. PutRecord e c i body who base deleted s = Inr (d, s'))\<^sup>*\<^sup>* s s'
    \<Longrightarrow> (\<lambda>s s'. \<exists>k v. record_writes k v s s')\<^sup>*\<^sup>* s s'"
proof (induction rule: rtranclp_induct)
  case (step t u)
  then have "u = t \<or> (\<exists>k v. record_writes k v t u)" using PutRecord_writes by blast
  with step.IH show ?case by (auto intro: rtranclp.rtrancl_into_rtrancl)
qed simp

lemma PutRecord_named: "PutRecord e c i body who base deleted s = Inr z \<Longrightarrow> MatchString docNameRe c \<and> validRecordID i"
  by (simp add: PutRecord_def split: if_splits)

text \<open>No update of a record is lost. Once a write on top of some revision has committed, no other
  write on top of that revision does, whatever was written in between: it is refused for its body, or
  it gets the current record as a conflict, or it asked for what the record already says.\<close>

theorem record_update_not_lost:
  assumes "PutRecord e c i body who base deleted s = Inr (d, s1)" "s1 \<noteq> s"
    "(\<lambda>s s'. \<exists>e c i body who base deleted d. PutRecord e c i body who base deleted s = Inr (d, s'))\<^sup>*\<^sup>* s1 s2"
  shows "\<exists>r. map_option (scanRecord (c, i)) (map_of (co_records s2) (c, i)) = Some r \<and> base < rc_Rev r
    \<and> PutRecord e' c i body' who' base deleted' s2
      = (let b = (if deleted' then ''{}'' else body') in
         if MaxRecordBytes < length b then Inl (RecordRefused ''record too large'')
         else if \<not> json_valid b \<or> take 1 (TrimSpace b) \<noteq> ''{'' then Inl (RecordRefused ''record body must be a JSON object'')
         else if snd (ScanAuthored b) \<noteq> [] then Inl (RecordRefused ''secret-shaped content'')
         else if rc_Body r = Some b \<and> deleted' = rc_Deleted r then Inr (r, s2)
         else Inl (RecordConflict r))"
proof -
  from PutRecord_writes [OF assms(1)] assms(2) obtain row where w: "record_writes (c, i) row s s1" "dr_rev row = base + 1" by blast
  then have "map_of (co_records s1) (c, i) = Some row" by (simp add: record_writesD(2) [OF w(1)])
  from rv.revisions_grow [OF record_run_writes [OF assms(3)] this] w(2)
  obtain row' where r: "map_of (co_records s2) (c, i) = Some row'" "base < dr_rev row'" by auto
  with PutRecord_named [OF assms(1)] show ?thesis
    by (intro exI [of _ "scanRecord (c, i) row'"]) (auto simp: PutRecord_def scanRecord_def Let_def)
qed

section \<open>Independence\<close>

definition answer :: "'e + 'a \<times> 's \<Rightarrow> 'e + 'a" where
  "answer r = (case r of Inl x \<Rightarrow> Inl x | Inr (a, s) \<Rightarrow> Inr a)"

lemma answer_simps [simp]: "answer (Inl x) = Inl x" "answer (Inr (a, s)) = Inr a"
  by (simp_all add: answer_def)

lemma write_record_answer:
  "answer (write_record e k body who base deleted s) =
     (if map_of (co_revs s) (k, base + 1) = None then Inr (scanRecord k (next_record e body who base deleted)) else Inl RecordSQL)"
  by (simp add: write_record_def tb_insert_def Let_def)

lemma PutRecord_local:
  assumes "map_of (co_records s') (c, i) = map_of (co_records s) (c, i)" "\<And>r. map_of (co_revs s') ((c, i), r) = map_of (co_revs s) ((c, i), r)"
  shows "answer (PutRecord e c i body who base deleted s') = answer (PutRecord e c i body who base deleted s)"
  unfolding PutRecord_def Let_def assms(1)
  by (simp add: if_distrib [where f = answer] option.case_distrib [where h = answer] write_record_answer assms(2) cong: if_cong option.case_cong)

text \<open>Writers of different records never meet. A committed write of one record changes nothing
  that a read of another record sees, and a write of another record gets the answer it would have got
  without it.\<close>

theorem records_are_independent:
  assumes "PutRecord e c i body who base deleted s = Inr (d, s1)" "(c', i') \<noteq> (c, i)"
  shows "GetRecord c' i' r s1 = GetRecord c' i' r s
    \<and> answer (PutRecord e' c' i' body' who' base' deleted' s1) = answer (PutRecord e' c' i' body' who' base' deleted' s)"
proof -
  have "map_of (co_records s1) (c', i') = map_of (co_records s) (c', i')
    \<and> (\<forall>r. map_of (co_revs s1) ((c', i'), r) = map_of (co_revs s) ((c', i'), r))"
    using PutRecord_writes [OF assms(1)]
  proof (elim disjE exE conjE)
    fix row
    assume w: "record_writes (c, i) row s s1"
    from fun_cong [OF record_writesD(3) [OF w], of "(c', i')"] assms(2) show ?thesis
      by (auto simp: record_writesD(2) [OF w] fun_eq_iff)
  qed simp
  then show ?thesis using PutRecord_local [of s1 c' i' s] by (auto simp: GetRecord_def)
qed

section \<open>A record\<close>

definition ex_cols :: cols where
  "ex_cols = (case PutRecord (ex_env 0) ''api'' ''users'' ''{}'' ''ann'' 0 False no_cols of Inl x \<Rightarrow> no_cols | Inr (d, s) \<Rightarrow> s)"

lemmas json_scan_defs = json_valid_def begin_value_def begin_string_def pushed_def popped_def jspace_def maxNestingDepth_def Let_def

lemma ex_record_units: "go_units ''{}'' = [(Some 123, ''{''), (Some 125, ''}'')]" "go_units ''{ }'' = [(Some 123, ''{''), (Some 32, '' ''), (Some 125, ''}'')]"
  by code_simp+

lemma ex_record_trim: "TrimSpace ''{}'' = ''{}''" "TrimSpace ''{ }'' = ''{ }''"
  unfolding TrimSpace_def ex_record_units Let_def by (simp_all add: IsSpace_def)

lemma ex_record_json: "json_valid ''{}''" "json_valid ''{ }''"
  by (simp_all add: json_scan_defs)

lemma ex_record_names: "MatchString docNameRe ''api''" "validRecordID ''users''" "snd (ScanAuthored ''{}'') = []" "snd (ScanAuthored ''{ }'') = []"
  by code_simp+

lemmas ex_record_checks = ex_record_trim ex_record_json ex_record_names

lemma ex_record: "\<exists>d. PutRecord (ex_env 0) ''api'' ''users'' ''{}'' ''ann'' 0 False no_cols = Inr (d, ex_cols)" "ex_cols \<noteq> no_cols"
  "map_of (co_records ex_cols) (''api'', ''users'') = Some (next_record (ex_env 0) ''{}'' ''ann'' 0 False)"
proof -
  have p: "PutRecord (ex_env 0) ''api'' ''users'' ''{}'' ''ann'' 0 False no_cols = write_record (ex_env 0) (''api'', ''users'') ''{}'' ''ann'' 0 False no_cols"
    by (simp add: PutRecord_def no_cols_def MaxRecordBytes_def ex_record_checks)
  obtain d s where w: "PutRecord (ex_env 0) ''api'' ''users'' ''{}'' ''ann'' 0 False no_cols = Inr (d, s)"
    "map_of (co_records s) (''api'', ''users'') = Some (next_record (ex_env 0) ''{}'' ''ann'' 0 False)"
    unfolding p by (simp add: write_record_def no_cols_def tb_insert_def Let_def)
  moreover from w(2) have "s \<noteq> no_cols" by (auto simp: no_cols_def)
  moreover have "ex_cols = s" using w(1) by (simp add: ex_cols_def)
  ultimately show "\<exists>d. PutRecord (ex_env 0) ''api'' ''users'' ''{}'' ''ann'' 0 False no_cols = Inr (d, ex_cols)" "ex_cols \<noteq> no_cols"
    "map_of (co_records ex_cols) (''api'', ''users'') = Some (next_record (ex_env 0) ''{}'' ''ann'' 0 False)" by blast+
qed

theorem record_update_not_lost_witness:
  "\<exists>r. PutRecord (ex_env 1) ''api'' ''users'' ''{ }'' ''bob'' 0 False ex_cols = Inl (RecordConflict r) \<and> 0 < rc_Rev r \<and> rc_Body r = Some ''{}''"
proof -
  obtain d where p: "PutRecord (ex_env 0) ''api'' ''users'' ''{}'' ''ann'' 0 False no_cols = Inr (d, ex_cols)" using ex_record(1) by blast
  from record_update_not_lost [OF p ex_record(2) rtranclp.rtrancl_refl, of "ex_env 1" "''{ }''" "''bob''" False] ex_record(3) show ?thesis
    by (auto simp: MaxRecordBytes_def scanRecord_def ex_record_checks)
qed

theorem records_are_independent_witness: "GetRecord ''api'' ''posts'' 0 ex_cols = GetRecord ''api'' ''posts'' 0 no_cols"
proof -
  obtain d where p: "PutRecord (ex_env 0) ''api'' ''users'' ''{}'' ''ann'' 0 False no_cols = Inr (d, ex_cols)" using ex_record(1) by blast
  from records_are_independent [OF p, of "''api''" "''posts''" 0] show ?thesis by simp
qed

text \<open>A listing in order of identifier is not in tree order: \<open>-\<close> and \<open>.\<close> sort before \<open>/\<close>, so a
  sibling stands between a record and its children.\<close>

lemma id_order_is_not_tree_order: "sort [''a/b'', ''a-b'', ''a''] = [''a'', ''a-b'', ''a/b'']"
  by (simp add: less_list_code less_eq_list_code less_char_def less_eq_char_def)

end
