(* ===== verification/TeamAudit.thy ===== *)
theory TeamAudit
  imports Growth "HOL-Library.List_Lexorder" "HOL-Library.Char_ord"
begin

text \<open>
  The audit reads of a team (\<open>internal/store/team_audit.go\<close>): snapshots, the timeline of events and
  the record of messages, filtered and in pages. The sequence of a row is its place in its table.
  Instants are nanoseconds, and \<open>fmt\<close> is \<open>time.Time.Format\<close> in RFC 3339 of one in UTC.
\<close>

section \<open>The filter\<close>

record TeamAuditFilter =
  tf_SessionID :: string
  tf_TaskID :: string
  tf_AttemptID :: string
  tf_Operation :: string
  tf_Since :: string
  tf_Until :: string

definition operation_char :: "nat \<Rightarrow> bool" where
  "operation_char r \<longleftrightarrow> lower r \<or> r = 95"

definition auditOperationRE :: re where
  "auditOperationRE = Cats [BeginText, AtLeast 1 (Cls operation_char), Star (Cat (Lit 46) (AtLeast 1 (Cls operation_char))), Opt (Lit 46), EndText]"

text \<open>The next whole second, unless it is one.\<close>

definition whole_second :: "int \<Rightarrow> int" where
  "whole_second t = (let w = t div 1000000000 * 1000000000 in if w = t then t else w + 1000000000)"

text \<open>One bound: the text for the comparison, and the instant.\<close>

definition normal_bound :: "env \<Rightarrow> (int \<Rightarrow> string) \<Rightarrow> string \<Rightarrow> string \<Rightarrow> err + string \<times> int" where
  "normal_bound e fmt name v =
     (if v = [] then Inr ([], 0)
      else case e_parseTime e v of
        None \<Rightarrow> Inl (invalid (name @ '' must be an RFC3339 timestamp''))
      | Some t \<Rightarrow> Inr (fmt (whole_second t), t))"

definition Normalize :: "env \<Rightarrow> (int \<Rightarrow> string) \<Rightarrow> TeamAuditFilter \<Rightarrow> err + TeamAuditFilter" where
  "Normalize e fmt f =
     (case first_error (\<lambda>(name, v). if v \<noteq> [] \<and> \<not> is_id v then Some (invalid (''invalid '' @ name)) else None)
             [(''session_id'', tf_SessionID f), (''task_id'', tf_TaskID f), (''attempt_id'', tf_AttemptID f)] of
        Some x \<Rightarrow> Inl x
      | None \<Rightarrow>
      if tf_Operation f \<noteq> [] \<and> (128 < length (tf_Operation f) \<or> \<not> MatchString auditOperationRE (tf_Operation f))
        then Inl (invalid ''operation must be a dotted name or a prefix'')
      else case normal_bound e fmt ''since'' (tf_Since f) of Inl x \<Rightarrow> Inl x | Inr (since, s) \<Rightarrow>
      case normal_bound e fmt ''until'' (tf_Until f) of Inl x \<Rightarrow> Inl x | Inr (until, u) \<Rightarrow>
      if since \<noteq> [] \<and> until \<noteq> [] \<and> \<not> s < u then Inl (invalid ''until must be after since'')
      else Inr (f\<lparr>tf_Since := since, tf_Until := until\<rparr>))"

text \<open>A missing value of the row is \<open>NULL\<close> and matches nothing.\<close>

definition operation_fits :: "string \<Rightarrow> string option \<Rightarrow> bool" where
  "operation_fits p v = (case v of None \<Rightarrow> False
     | Some op \<Rightarrow> if last p = CHR ''.'' then take (length p) op = p else op = p)"

definition within :: "TeamAuditFilter \<Rightarrow> string \<Rightarrow> bool" where
  "within f at \<longleftrightarrow> (tf_Since f = [] \<or> tf_Since f \<le> at) \<and> (tf_Until f = [] \<or> at < tf_Until f)"

section \<open>Snapshots\<close>

record TeamAuditSnapshot =
  ts_EventSequence :: int
  ts_MessageSequence :: int
  ts_TakenAt :: string

definition numbered :: "'a list \<Rightarrow> (int \<times> 'a) list" where
  "numbered xs = zip (map (\<lambda>k. int k + 1) [0..<length xs]) xs"

definition auditTeam :: "string \<Rightarrow> db \<Rightarrow> err option" where
  "auditTeam team d =
     (case taskScopeOK d of Some x \<Rightarrow> Some x | None \<Rightarrow>
      if \<not> TasksEnabled d then Some ErrTeamSessionDenied
      else case readTeam team d of Inl x \<Rightarrow> Some x | Inr t \<Rightarrow> None)"

definition max_sequence :: "('a \<Rightarrow> bool) \<Rightarrow> 'a list \<Rightarrow> int" where
  "max_sequence P xs = foldl max 0 (map fst (filter (\<lambda>(_, x). P x) (numbered xs)))"

definition get_audit_snapshot :: "env \<Rightarrow> string \<Rightarrow> db \<Rightarrow> err + TeamAuditSnapshot" where
  "get_audit_snapshot e team d =
     (case auditTeam team d of Some x \<Rightarrow> Inl x | None \<Rightarrow>
      Inr \<lparr>ts_EventSequence = max_sequence (\<lambda>(t, _). t = team) (db_team_events d),
           ts_MessageSequence = max_sequence (\<lambda>r. mw_team_id r = team) (db_messages d), ts_TakenAt = e_now e 0\<rparr>)"

definition auditPage :: "int \<Rightarrow> int \<Rightarrow> int \<Rightarrow> err option" where
  "auditPage after upTo limit = (if after < 0 \<or> upTo < 0 \<or> limit < 1 \<or> 101 < limit then Some (invalid ''invalid audit page'') else None)"

section \<open>The timeline\<close>

definition event_sessions :: "TeamEvent \<Rightarrow> string list" where
  "event_sessions v =
     (case tev_Session v of None \<Rightarrow> [] | Some s \<Rightarrow> [se_ID s])
     @ (case tev_Assignment v of None \<Rightarrow> [] | Some a \<Rightarrow> [sh_SessionID (am_Worker a)])
     @ (case tev_Handoff v of None \<Rightarrow> [] | Some h \<Rightarrow> [sh_SessionID (ha_From h), sh_SessionID (ha_To h)])"

definition event_tasks :: "TeamEvent \<Rightarrow> string list" where
  "event_tasks v = (case tev_Assignment v of None \<Rightarrow> [] | Some a \<Rightarrow> [am_TaskID a])
     @ (case tev_Managed v of None \<Rightarrow> [] | Some m \<Rightarrow> [mc_TaskID m])"

definition event_attempts :: "TeamEvent \<Rightarrow> string list" where
  "event_attempts v = (case tev_Assignment v of None \<Rightarrow> [] | Some a \<Rightarrow> [am_ID a])
     @ (case tev_Managed v of None \<Rightarrow> [] | Some m \<Rightarrow> [mc_AttemptID m])"

definition event_fits :: "TeamAuditFilter \<Rightarrow> TeamEvent \<Rightarrow> bool" where
  "event_fits f v \<longleftrightarrow>
     (tf_SessionID f = [] \<or> tf_SessionID f \<in> set (event_sessions v))
     \<and> (tf_TaskID f = [] \<or> tf_TaskID f \<in> set (event_tasks v))
     \<and> (tf_AttemptID f = [] \<or> tf_AttemptID f \<in> set (event_attempts v))
     \<and> (tf_Operation f = [] \<or> operation_fits (tf_Operation f) (Some (tev_Operation v)))
     \<and> within f (tev_At v)"

definition timeline_query :: "string \<Rightarrow> TeamAuditFilter \<Rightarrow> int \<Rightarrow> int \<Rightarrow> db \<Rightarrow> (int \<times> TeamEvent) list" where
  "timeline_query team f after upTo d = map (\<lambda>(n, _, v). (n, v))
     (filter (\<lambda>(n, t, v). t = team \<and> after < n \<and> n \<le> upTo \<and> event_fits f v) (numbered (db_team_events d)))"

text \<open>An event is returned with its sequence.\<close>

definition TeamTimeline ::
  "env \<Rightarrow> (int \<Rightarrow> string) \<Rightarrow> string \<Rightarrow> TeamAuditFilter \<Rightarrow> int \<Rightarrow> int \<Rightarrow> int \<Rightarrow> db \<Rightarrow> err + (int \<times> TeamEvent) list" where
  "TeamTimeline e fmt team f0 after upTo limit d =
     (case auditTeam team d of Some x \<Rightarrow> Inl x | None \<Rightarrow>
      case auditPage after upTo limit of Some x \<Rightarrow> Inl x | None \<Rightarrow>
      case Normalize e fmt f0 of Inl x \<Rightarrow> Inl x | Inr f \<Rightarrow>
      Inr (take (nat limit) (timeline_query team f after upTo d)))"

section \<open>The messages\<close>

record TeamDeliveryRecord =
  td_SessionID :: string
  td_DeliveredAt :: string
  td_DeliveryCount :: int
  td_AckedAt :: string

record TeamMessageRecord =
  ta_ID :: string
  ta_Sequence :: int
  ta_TeamID :: string
  ta_SenderID :: string
  ta_SenderGeneration :: int
  ta_ProfileRevision :: int
  ta_Profile :: "TeamProfile option"
  ta_CreatedAt :: string
  ta_Recipient :: TeamRecipient
  ta_Kind :: string
  ta_TaskID :: string
  ta_AttemptID :: string
  ta_ReplyTo :: string
  ta_Lifecycle :: "TeamLifecycle option"
  ta_Payload :: "TeamMessagePayload option"
  ta_Deliveries :: "TeamDeliveryRecord list"

definition messageAuditRecord :: "TeamMessage \<Rightarrow> bool \<Rightarrow> TeamMessageRecord" where
  "messageAuditRecord m bodies =
     \<lparr>ta_ID = ms_ID m, ta_Sequence = ms_Sequence m, ta_TeamID = ms_TeamID m, ta_SenderID = ms_SenderID m,
      ta_SenderGeneration = ms_SenderGeneration m, ta_ProfileRevision = ms_ProfileRevision m,
      ta_Profile = (if ms_SenderID m \<noteq> [] then Some (ms_Profile m) else None), ta_CreatedAt = ms_CreatedAt m,
      ta_Recipient = mg_Recipient (ms_Content m), ta_Kind = mg_Kind (ms_Content m), ta_TaskID = mg_TaskID (ms_Content m),
      ta_AttemptID = mg_AttemptID (ms_Content m), ta_ReplyTo = mg_ReplyTo (ms_Content m), ta_Lifecycle = ms_Lifecycle m,
      ta_Payload = (if bodies then Some (mg_Payload (ms_Content m)) else None), ta_Deliveries = []\<rparr>"

definition readDeliveries :: "string \<Rightarrow> db \<Rightarrow> TeamDeliveryRecord list" where
  "readDeliveries mid d =
     map (\<lambda>((_, sid), r). \<lparr>td_SessionID = sid, td_DeliveredAt = dl_delivered_at r, td_DeliveryCount = dl_delivery_count r, td_AckedAt = dl_acked_at r\<rparr>)
       (sort_key (\<lambda>((_, sid), _). sid) (filter (\<lambda>((m, _), _). m = mid) (db_deliveries d)))"

definition message_fits :: "TeamAuditFilter \<Rightarrow> message_row \<Rightarrow> db \<Rightarrow> bool" where
  "message_fits f r d \<longleftrightarrow>
     (let m = mw_body r in
      (tf_SessionID f = [] \<or> ms_SenderID m = tf_SessionID f \<or> map_of (db_deliveries d) (mw_id r, tf_SessionID f) \<noteq> None)
      \<and> (tf_TaskID f = [] \<or> mg_TaskID (ms_Content m) = tf_TaskID f)
      \<and> (tf_AttemptID f = [] \<or> mg_AttemptID (ms_Content m) = tf_AttemptID f)
      \<and> (tf_Operation f = [] \<or> operation_fits (tf_Operation f) (map_option lc_Operation (ms_Lifecycle m)))
      \<and> within f (ms_CreatedAt m))"

definition message_audit_query :: "string \<Rightarrow> TeamAuditFilter \<Rightarrow> int \<Rightarrow> int \<Rightarrow> db \<Rightarrow> (int \<times> message_row) list" where
  "message_audit_query team f after upTo d =
     filter (\<lambda>(n, r). mw_team_id r = team \<and> after < n \<and> n \<le> upTo \<and> message_fits f r d) (numbered (db_messages d))"

definition get_message_audit ::
  "env \<Rightarrow> (int \<Rightarrow> string) \<Rightarrow> string \<Rightarrow> TeamAuditFilter \<Rightarrow> int \<Rightarrow> int \<Rightarrow> int \<Rightarrow> bool \<Rightarrow> db \<Rightarrow> err + TeamMessageRecord list" where
  "get_message_audit e fmt team f0 after upTo limit bodies d =
     (case auditTeam team d of Some x \<Rightarrow> Inl x | None \<Rightarrow>
      case auditPage after upTo limit of Some x \<Rightarrow> Inl x | None \<Rightarrow>
      case Normalize e fmt f0 of Inl x \<Rightarrow> Inl x | Inr f \<Rightarrow>
      Inr (map (\<lambda>(_, r). (messageAuditRecord (mw_body r) bodies)\<lparr>ta_Deliveries := readDeliveries (ms_ID (mw_body r)) d\<rparr>)
        (take (nat limit) (message_audit_query team f after upTo d))))"

section \<open>The export\<close>

text \<open>The export route of the server (\<open>internal/server/team_audit.go\<close>) behind its admin gate, with the
  query parsed to 64-bit numbers: the sequences, 0 when not given, and the snapshot of an earlier page. The snapshot, the
  events and the messages are read one after the other, each from the project as it is then.\<close>

record teamExportCursor =
  ec_AfterEvents :: int
  ec_AfterMessages :: int
  ec_SnapshotEvents :: int
  ec_SnapshotMessages :: int

record export_query =
  eq_AfterEvents :: int
  eq_AfterMessages :: int
  eq_SnapshotEvents :: "int option"
  eq_SnapshotMessages :: "int option"

record export_page =
  xp_Events :: "(int \<times> TeamEvent) list"
  xp_Messages :: "TeamMessageRecord list"
  xp_Complete :: bool
  xp_Next :: teamExportCursor

definition teamPageLimit :: "int \<Rightarrow> err option" where
  "teamPageLimit n = (if n < 1 \<or> 100 < n then Some (ErrOther ''limit must be 1-100'') else None)"

definition auditNumber :: "string \<times> int \<Rightarrow> err option" where
  "auditNumber x = (case x of (name, n) \<Rightarrow> if n < 0 then Some (ErrOther (''invalid '' @ name)) else None)"

definition export_bounds :: "env \<Rightarrow> string \<Rightarrow> export_query \<Rightarrow> db \<Rightarrow> err + int \<times> int" where
  "export_bounds e team q d =
     (case (eq_SnapshotEvents q, eq_SnapshotMessages q) of
        (None, None) \<Rightarrow> (case get_audit_snapshot e team d of Inl x \<Rightarrow> Inl x | Inr s \<Rightarrow> Inr (ts_EventSequence s, ts_MessageSequence s))
      | (Some a, Some b) \<Rightarrow> if a < eq_AfterEvents q \<or> b < eq_AfterMessages q
          then Inl (ErrOther ''a continued export needs both snapshot sequences and cursors within them'') else Inr (a, b)
      | _ \<Rightarrow> Inl (ErrOther ''a continued export needs both snapshot sequences and cursors within them''))"

definition teamExport ::
  "env \<Rightarrow> (int \<Rightarrow> string) \<Rightarrow> string \<Rightarrow> TeamAuditFilter \<Rightarrow> export_query \<Rightarrow> int \<Rightarrow> bool \<Rightarrow> db \<Rightarrow> db \<Rightarrow> db \<Rightarrow> err + export_page" where
  "teamExport e fmt team f q limit bodies d d1 d2 =
     (case teamPageLimit limit of Some x \<Rightarrow> Inl x | None \<Rightarrow>
      case first_error auditNumber [(''after_events'', eq_AfterEvents q), (''after_messages'', eq_AfterMessages q),
          (''snapshot_events'', case eq_SnapshotEvents q of Some n \<Rightarrow> n | None \<Rightarrow> 0),
          (''snapshot_messages'', case eq_SnapshotMessages q of Some n \<Rightarrow> n | None \<Rightarrow> 0)] of Some x \<Rightarrow> Inl x | None \<Rightarrow>
      case Normalize e fmt f of Inl x \<Rightarrow> Inl x | Inr _ \<Rightarrow>
      case export_bounds e team q d of Inl x \<Rightarrow> Inl x | Inr (se, sm) \<Rightarrow>
      case TeamTimeline e fmt team f (eq_AfterEvents q) se (limit + 1) d1 of Inl x \<Rightarrow> Inl x | Inr es \<Rightarrow>
      case get_message_audit e fmt team f (eq_AfterMessages q) sm (limit + 1) bodies d2 of Inl x \<Rightarrow> Inl x | Inr ms \<Rightarrow>
      let events = take (nat limit) es; messages = take (nat limit) ms
      in Inr \<lparr>xp_Events = events, xp_Messages = messages,
           xp_Complete = (\<not> limit < int (length es) \<and> \<not> limit < int (length ms)),
           xp_Next = \<lparr>ec_AfterEvents = (if events = [] then eq_AfterEvents q else fst (last events)),
             ec_AfterMessages = (if messages = [] then eq_AfterMessages q else ta_Sequence (last messages)),
             ec_SnapshotEvents = se, ec_SnapshotMessages = sm\<rparr>\<rparr>)"

section \<open>Pages of a log that grows\<close>

lemma numbered_prefix: "prefix xs ys \<Longrightarrow> numbered ys = numbered xs @ zip (map (\<lambda>k. int k + 1) [length xs..<length ys]) (drop (length xs) ys)"
proof -
  assume "prefix xs ys"
  then obtain zs where ys: "ys = xs @ zs" by (auto simp: prefix_def)
  have "[0..<length xs + length zs] = [0..<length xs] @ [length xs..<length xs + length zs]" by (rule upt_add_eq_append) simp
  then show ?thesis by (simp add: numbered_def ys)
qed

lemma numbered_increasing: "sorted_wrt (\<lambda>x y. fst x < fst y) (numbered xs)"
proof -
  have "sorted_wrt (<) (map fst (numbered xs))" by (simp add: numbered_def sorted_wrt_map sorted_wrt_iff_nth_less)
  then show ?thesis by (simp add: sorted_wrt_map)
qed

lemma numbered_le: "(n, x) \<in> set (numbered xs) \<Longrightarrow> 1 \<le> n \<and> n \<le> int (length xs)"
  by (auto simp: numbered_def in_set_zip)

lemma max_sequence_ge: "(n, x) \<in> set (numbered xs) \<Longrightarrow> P x \<Longrightarrow> n \<le> max_sequence P xs"
proof -
  assume n: "(n, x) \<in> set (numbered xs)" "P x"
  have up: "a \<le> foldl max a ns" for a :: int and ns
    by (induction ns arbitrary: a) (simp, metis foldl_Cons max.bounded_iff)
  have le: "m \<in> set ns \<Longrightarrow> m \<le> foldl max a ns" for a m :: int and ns
  proof (induction ns arbitrary: a)
    case (Cons n ns)
    then show ?case using up [of "max a n" ns] by auto
  qed simp
  show ?thesis unfolding max_sequence_def by (rule le) (use n in force)
qed

text \<open>A sorted list is read in pages: what is left after a page comes after its last entry.\<close>

lemma page_rest:
  assumes "sorted_wrt (\<lambda>x y. fst x < (fst y :: int)) xs" "\<forall>x \<in> set xs. after < fst x" "out = take k xs"
  shows "xs = out @ filter (\<lambda>x. (if out = [] then after else fst (last out)) < fst x) xs \<or> k = 0"
proof (cases "out = []")
  case True
  with assms(3) have "xs = [] \<or> k = 0" by auto
  then show ?thesis using True by auto
next
  case False
  have split: "xs = out @ drop k xs" using assms(3) by simp
  then have s: "sorted_wrt (\<lambda>x y. fst x < fst y) (out @ drop k xs)" using assms(1) by simp
  have low: "\<not> fst (last out) < fst x" if "x \<in> set out" for x
  proof -
    from False have o: "out = butlast out @ [last out]" by simp
    then have "sorted_wrt (\<lambda>x y. fst x < fst y) (butlast out @ [last out])" using s by (simp add: sorted_wrt_append)
    moreover from that o have "x \<in> set (butlast out) \<or> x = last out" by (metis Un_iff empty_iff empty_set set_append set_ConsD)
    ultimately show ?thesis by (fastforce simp: sorted_wrt_append)
  qed
  have high: "fst (last out) < fst x" if "x \<in> set (drop k xs)" for x
    using s that False by (auto simp: sorted_wrt_append)
  have "filter (\<lambda>x. fst (last out) < fst x) xs = drop k xs"
    by (subst split) (use low high in \<open>simp add: filter_empty_conv\<close>)
  with False split show ?thesis by simp
qed

end
