(* ===== verification/AuditProps.thy ===== *)
theory AuditProps
  imports TeamAudit MessageProps
begin

text \<open>
  Exports of the audit log: whatever happens on the hub between the pages of an export, they read the
  events and the messages as they were at its snapshot, each once and in order.
\<close>

lemma max_sequence_le: "max_sequence P xs \<le> int (length xs)"
proof -
  have "foldl max a ns \<le> b" if "a \<le> b" "\<forall>n \<in> set ns. n \<le> b" for a b :: int and ns
    using that by (induction ns arbitrary: a) auto
  note le = this
  show ?thesis unfolding max_sequence_def by (rule le) (auto dest: numbered_le)
qed

lemma max_sequence_nonneg: "0 \<le> max_sequence P xs"
proof -
  have "a \<le> foldl max a ns" for a :: int and ns by (induction ns arbitrary: a) (simp, metis foldl_Cons max.bounded_iff)
  then show ?thesis by (simp add: max_sequence_def)
qed

lemma timeline_of_snapshot:
  assumes "prefix (db_team_events d) (db_team_events d')" "upTo \<le> int (length (db_team_events d))"
  shows "timeline_query team f after upTo d' = timeline_query team f after upTo d"
proof -
  have "filter (\<lambda>(n, t, v). t = team \<and> after < n \<and> n \<le> upTo \<and> event_fits f v)
      (zip (map (\<lambda>k. int k + 1) [length (db_team_events d)..<length (db_team_events d')]) (drop (length (db_team_events d)) (db_team_events d'))) = []"
    using assms(2) by (auto simp: filter_empty_conv in_set_zip)
  then show ?thesis by (simp add: timeline_query_def numbered_prefix [OF assms(1)])
qed

lemma timeline_sorted: "sorted_wrt (\<lambda>x y. fst x < fst y) (timeline_query team f after upTo d)"
proof -
  let ?xs = "filter (\<lambda>(n, t, v). t = team \<and> after < n \<and> n \<le> upTo \<and> event_fits f v) (numbered (db_team_events d))"
  have "sorted_wrt (\<lambda>x y. fst x < fst y) ?xs" by (rule sorted_wrt_filter [OF numbered_increasing])
  then have "sorted_wrt (\<lambda>x y. fst ((\<lambda>(n, _, v). (n, v)) x) < fst ((\<lambda>(n, _, v). (n, v)) y)) ?xs"
    by (rule sorted_wrt_mono_rel [rotated]) (auto split: prod.splits)
  then show ?thesis by (simp add: timeline_query_def sorted_wrt_map)
qed

lemma timeline_after: "filter (\<lambda>x. n < fst x) (timeline_query team f after upTo d) = timeline_query team f (max after n) upTo d"
  by (simp add: timeline_query_def filter_map filter_filter o_def case_prod_unfold conj_ac)

lemma delivery_kept:
  assumes "deliveries_grow d d'" "r \<in> set (db_messages d)"
  shows "(map_of (db_deliveries d') (mw_id r, sid) \<noteq> None) = (map_of (db_deliveries d) (mw_id r, sid) \<noteq> None)"
proof (cases "map_of (db_deliveries d) (mw_id r, sid)")
  case None
  have "\<forall>w \<in> set (db_messages d). \<forall>sid. map_of (db_deliveries d) (mw_id w, sid) = None \<longrightarrow> map_of (db_deliveries d') (mw_id w, sid) = None"
    using assms(1) unfolding deliveries_grow_def by (rule conjunct2)
  from this [rule_format, OF assms(2) None] None show ?thesis by simp
next
  case (Some a)
  then obtain b where "map_of (db_deliveries d') (mw_id r, sid) = Some b" using assms(1) unfolding deliveries_grow_def by blast
  with Some show ?thesis by simp
qed

lemma messages_of_snapshot:
  assumes "log_grows d d'" "upTo \<le> int (length (db_messages d))"
  shows "message_audit_query team f after upTo d' = message_audit_query team f after upTo d"
proof -
  have p: "prefix (db_messages d) (db_messages d')" and g: "deliveries_grow d d'" using assms(1) by (simp_all add: log_grows_def)
  have fits: "message_fits f r d' = message_fits f r d" if "r \<in> set (db_messages d)" for r
    unfolding message_fits_def Let_def delivery_kept [OF g that] ..
  have "filter (\<lambda>(n, r). mw_team_id r = team \<and> after < n \<and> n \<le> upTo \<and> message_fits f r d')
      (zip (map (\<lambda>k. int k + 1) [length (db_messages d)..<length (db_messages d')]) (drop (length (db_messages d)) (db_messages d'))) = []"
    using assms(2) by (auto simp: filter_empty_conv in_set_zip)
  moreover have "filter (\<lambda>(n, r). mw_team_id r = team \<and> after < n \<and> n \<le> upTo \<and> message_fits f r d') (numbered (db_messages d))
      = filter (\<lambda>(n, r). mw_team_id r = team \<and> after < n \<and> n \<le> upTo \<and> message_fits f r d) (numbered (db_messages d))"
    by (rule filter_cong) (auto simp: numbered_def fits dest: set_zip_rightD)
  ultimately show ?thesis by (simp add: message_audit_query_def numbered_prefix [OF p])
qed

lemma messages_sorted: "sorted_wrt (\<lambda>x y. fst x < fst y) (message_audit_query team f after upTo d)"
  unfolding message_audit_query_def by (rule sorted_wrt_filter [OF numbered_increasing])

lemma messages_after: "filter (\<lambda>x. n < fst x) (message_audit_query team f after upTo d) = message_audit_query team f (max after n) upTo d"
  by (simp add: message_audit_query_def filter_filter case_prod_unfold conj_ac)

text \<open>A cursor: after a page of at least one row, what comes after it is the rest.\<close>

lemma cursor_rest:
  assumes "sorted_wrt (\<lambda>x y. fst x < (fst y :: int)) xs" "\<forall>x \<in> set xs. a < fst x" "0 < k"
    "n = (if take k xs = [] then a else fst (last (take k xs)))"
  shows "filter (\<lambda>x. n < fst x) xs = drop k xs" "a \<le> n" "\<forall>x \<in> set xs. fst x \<le> b \<Longrightarrow> a \<le> b \<Longrightarrow> n \<le> b"
proof -
  have "xs = take k xs @ filter (\<lambda>x. n < fst x) xs" using page_rest [OF assms(1,2) refl, of k] assms(3,4) by auto
  then have "take k xs @ filter (\<lambda>x. n < fst x) xs = take k xs @ drop k xs" by simp
  then show "filter (\<lambda>x. n < fst x) xs = drop k xs" by blast
  have l: "n = a \<or> (\<exists>x \<in> set xs. n = fst x)"
  proof (cases "take k xs = []")
    case False
    then have "last (take k xs) \<in> set xs" by (meson in_set_takeD last_in_set)
    with assms(4) False show ?thesis by auto
  qed (use assms(4) in simp)
  with assms(2) show "a \<le> n" by fastforce
  show "\<forall>x \<in> set xs. fst x \<le> b \<Longrightarrow> a \<le> b \<Longrightarrow> n \<le> b" using l by auto
qed

section \<open>The rows of a snapshot\<close>

definition matching_events :: "string \<Rightarrow> TeamAuditFilter \<Rightarrow> db \<Rightarrow> (int \<times> TeamEvent) list" where
  "matching_events team f d = map (\<lambda>(n, _, v). (n, v)) (filter (\<lambda>(n, t, v). t = team \<and> event_fits f v) (numbered (db_team_events d)))"

definition matching_messages :: "string \<Rightarrow> TeamAuditFilter \<Rightarrow> db \<Rightarrow> message_row list" where
  "matching_messages team f d = filter (\<lambda>r. mw_team_id r = team \<and> message_fits f r d) (db_messages d)"

text \<open>The record of a message without its deliveries.\<close>

definition plain_record :: "TeamMessageRecord \<Rightarrow> TeamMessageRecord" where
  "plain_record m = m\<lparr>ta_Deliveries := []\<rparr>"

definition recipients :: "TeamDeliveryRecord list \<Rightarrow> string set" where
  "recipients ds = td_SessionID ` set ds"

abbreviation last_event :: "string \<Rightarrow> db \<Rightarrow> int" where
  "last_event team d \<equiv> max_sequence (\<lambda>(t, _). t = team) (db_team_events d)"

abbreviation last_message :: "string \<Rightarrow> db \<Rightarrow> int" where
  "last_message team d \<equiv> max_sequence (\<lambda>r. mw_team_id r = team) (db_messages d)"

lemma matching_events_query: "matching_events team f d = timeline_query team f 0 (last_event team d) d"
  unfolding timeline_query_def matching_events_def
  by (rule arg_cong [where f = "map (\<lambda>(n, _, v). (n, v))"], rule filter_cong)
     (auto dest: numbered_le max_sequence_ge [where P = "\<lambda>(t, _). t = team"])

lemma matching_messages_query: "matching_messages team f d = map snd (message_audit_query team f 0 (last_message team d) d)"
proof -
  have s: "map snd (numbered (db_messages d)) = db_messages d" by (simp add: numbered_def)
  have "message_audit_query team f 0 (last_message team d) d = filter ((\<lambda>r. mw_team_id r = team \<and> message_fits f r d) \<circ> snd) (numbered (db_messages d))"
    unfolding message_audit_query_def
    by (rule filter_cong) (auto dest: numbered_le max_sequence_ge [where P = "\<lambda>r. mw_team_id r = team"])
  then show ?thesis by (simp only: matching_messages_def filter_map [symmetric] s)
qed

lemma recipients_deliveries: "recipients (readDeliveries mid d) = {sid. map_of (db_deliveries d) (mid, sid) \<noteq> None}"
proof -
  have "sid \<in> recipients (readDeliveries mid d) \<longleftrightarrow> (mid, sid) \<in> fst ` set (db_deliveries d)" for sid
    by (force simp: recipients_def readDeliveries_def)
  then show ?thesis by (auto simp: map_of_eq_None_iff)
qed

lemma recipients_kept:
  assumes "deliveries_grow d d'" "r \<in> set (db_messages d)"
  shows "recipients (readDeliveries (mw_id r) d') = recipients (readDeliveries (mw_id r) d)"
  unfolding recipients_deliveries delivery_kept [OF assms] ..

section \<open>One page\<close>

text \<open>The bounds of the snapshot of \<open>d\<close>, read at \<open>d1\<close> and \<open>d2\<close>.\<close>

lemma teamExport_page:
  assumes snap: "export_bounds e team q d0 = Inr (last_event team d, last_message team d)"
    and x: "teamExport e fmt team f q limit bodies d0 d1 d2 = Inr p"
    and g: "log_grows d d1" "log_grows d d2" "messages_ok d2"
  obtains h k where "Normalize e fmt f = Inr h" "0 < k" "k = nat limit"
    "eq_AfterEvents q \<le> ec_AfterEvents (xp_Next p)" "eq_AfterMessages q \<le> ec_AfterMessages (xp_Next p)"
    "eq_AfterEvents q \<le> last_event team d \<longrightarrow> ec_AfterEvents (xp_Next p) \<le> last_event team d"
    "eq_AfterMessages q \<le> last_message team d \<longrightarrow> ec_AfterMessages (xp_Next p) \<le> last_message team d"
    "ec_SnapshotEvents (xp_Next p) = last_event team d" "ec_SnapshotMessages (xp_Next p) = last_message team d"
    "xp_Events p = take k (timeline_query team h (eq_AfterEvents q) (last_event team d) d)"
    "timeline_query team h (ec_AfterEvents (xp_Next p)) (last_event team d) d = drop k (timeline_query team h (eq_AfterEvents q) (last_event team d) d)"
    "xp_Messages p = map (\<lambda>(_, r). (messageAuditRecord (mw_body r) bodies)\<lparr>ta_Deliveries := readDeliveries (mw_id r) d2\<rparr>)
        (take k (message_audit_query team h (eq_AfterMessages q) (last_message team d) d))"
    "message_audit_query team h (ec_AfterMessages (xp_Next p)) (last_message team d) d
        = drop k (message_audit_query team h (eq_AfterMessages q) (last_message team d) d)"
    "xp_Complete p \<longleftrightarrow> length (timeline_query team h (eq_AfterEvents q) (last_event team d) d) \<le> k
        \<and> length (message_audit_query team h (eq_AfterMessages q) (last_message team d) d) \<le> k"
proof -
  from x obtain h0 es ms where l: "teamPageLimit limit = None"
    and es: "TeamTimeline e fmt team f (eq_AfterEvents q) (last_event team d) (limit + 1) d1 = Inr es"
    and ms: "get_message_audit e fmt team f (eq_AfterMessages q) (last_message team d) (limit + 1) bodies d2 = Inr ms"
    and p: "p = (let events = take (nat limit) es; messages = take (nat limit) ms
      in \<lparr>xp_Events = events, xp_Messages = messages,
           xp_Complete = (\<not> limit < int (length es) \<and> \<not> limit < int (length ms)),
           xp_Next = \<lparr>ec_AfterEvents = (if events = [] then eq_AfterEvents q else fst (last events)),
             ec_AfterMessages = (if messages = [] then eq_AfterMessages q else ta_Sequence (last messages)),
             ec_SnapshotEvents = last_event team d, ec_SnapshotMessages = last_message team d\<rparr>\<rparr>)"
    unfolding teamExport_def by (auto simp: snap Let_def split: option.splits sum.splits)
  let ?k = "nat limit" and ?e = "\<lambda>h. timeline_query team h (eq_AfterEvents q) (last_event team d) d"
    and ?m = "\<lambda>h. message_audit_query team h (eq_AfterMessages q) (last_message team d) d"
    and ?rec = "\<lambda>(_ :: int, r). (messageAuditRecord (mw_body r) bodies)\<lparr>ta_Deliveries := readDeliveries (mw_id r) d2\<rparr>"
  have k: "1 \<le> limit" using l by (auto simp: teamPageLimit_def split: if_splits)
  have pre: "prefix (db_team_events d) (db_team_events d1)" using g(1) by (simp add: log_grows_def)
  from es obtain h where h: "Normalize e fmt f = Inr h" and es': "es = take (nat (limit + 1)) (?e h)"
    by (auto simp: TeamTimeline_def timeline_of_snapshot [OF pre max_sequence_le] split: option.splits sum.splits)
  have id: "ms_ID (mw_body r) = mw_id r" "ms_Sequence (mw_body r) = n" if "(n, r) \<in> set (?m h)" for n r
  proof -
    have "(n, r) \<in> set (numbered_messages d2)"
      using that unfolding messages_of_snapshot [OF g(2) max_sequence_le, symmetric]
      by (auto simp: message_audit_query_def numbered_def numbered_messages_def)
    from numbered_sequence [OF g(3) this] show "ms_Sequence (mw_body r) = n" .
    have "r \<in> set (db_messages d2)" using \<open>(n, r) \<in> set (numbered_messages d2)\<close> by (auto simp: numbered_messages_def dest: set_zip_rightD)
    with g(3) show "ms_ID (mw_body r) = mw_id r" by (simp add: messages_ok_def)
  qed
  have "ms = map (\<lambda>(_, r). (messageAuditRecord (mw_body r) bodies)\<lparr>ta_Deliveries := readDeliveries (ms_ID (mw_body r)) d2\<rparr>) (take (nat (limit + 1)) (?m h))"
    using ms h by (auto simp: get_message_audit_def messages_of_snapshot [OF g(2) max_sequence_le] split: option.splits sum.splits)
  also have "\<dots> = map ?rec (take (nat (limit + 1)) (?m h))" by (rule map_cong) (auto simp: id dest: in_set_takeD)
  finally have ms': "ms = map ?rec (take (nat (limit + 1)) (?m h))" .
  have n: "nat (limit + 1) = Suc ?k" using k by simp
  have e1: "xp_Events p = take ?k (?e h)" and m1: "xp_Messages p = map ?rec (take ?k (?m h))"
    by (simp_all add: p Let_def es' ms' n take_map min_def)
  have n1: "ec_AfterEvents (xp_Next p) = (if take ?k (?e h) = [] then eq_AfterEvents q else fst (last (take ?k (?e h))))"
    using e1 by (simp add: p Let_def)
  have n2: "ec_AfterMessages (xp_Next p) = (if take ?k (?m h) = [] then eq_AfterMessages q else fst (last (take ?k (?m h))))"
  proof (cases "take ?k (?m h) = []")
    case True
    with m1 show ?thesis by (simp add: p Let_def)
  next
    case False
    obtain j r where jr: "last (take ?k (?m h)) = (j, r)" by fastforce
    then have "(j, r) \<in> set (?m h)" using False by (metis in_set_takeD last_in_set)
    with id(2) have "ta_Sequence (?rec (j, r)) = j" by (simp add: messageAuditRecord_def)
    moreover have "last (xp_Messages p) = ?rec (j, r)" using False by (simp add: m1 last_map jr del: take_eq_Nil)
    ultimately show ?thesis using False m1 jr by (simp add: p Let_def)
  qed
  have low: "\<forall>x \<in> set (?e h). eq_AfterEvents q < fst x" "\<forall>x \<in> set (?m h). eq_AfterMessages q < fst x"
    and up: "\<forall>x \<in> set (?e h). fst x \<le> last_event team d" "\<forall>x \<in> set (?m h). fst x \<le> last_message team d"
    by (auto simp: timeline_query_def message_audit_query_def)
  have k0: "0 < ?k" using k by simp
  note ce = cursor_rest [OF timeline_sorted low(1) k0 n1] and cm = cursor_rest [OF messages_sorted low(2) k0 n2]
  show thesis
  proof (rule that [OF h k0 refl])
    show "eq_AfterEvents q \<le> ec_AfterEvents (xp_Next p)" "eq_AfterMessages q \<le> ec_AfterMessages (xp_Next p)" by (fact ce(2) cm(2))+
    show "eq_AfterEvents q \<le> last_event team d \<longrightarrow> ec_AfterEvents (xp_Next p) \<le> last_event team d" by (rule impI) (rule ce(3) [OF up(1)])
    show "eq_AfterMessages q \<le> last_message team d \<longrightarrow> ec_AfterMessages (xp_Next p) \<le> last_message team d" by (rule impI) (rule cm(3) [OF up(2)])
    show "xp_Events p = take ?k (?e h)" "xp_Messages p = map ?rec (take ?k (?m h))" by (fact e1 m1)+
    show "timeline_query team h (ec_AfterEvents (xp_Next p)) (last_event team d) d = drop ?k (?e h)"
      using ce by (simp add: timeline_after max_absorb2)
    show "message_audit_query team h (ec_AfterMessages (xp_Next p)) (last_message team d) d = drop ?k (?m h)"
      using cm by (simp add: messages_after max_absorb2)
    show "xp_Complete p \<longleftrightarrow> length (?e h) \<le> ?k \<and> length (?m h) \<le> ?k" using k by (auto simp: p Let_def es' ms' n)
  qed (simp_all add: p Let_def)
qed

text \<open>What a page takes away from what its cursors leave.\<close>

lemma teamExport_takes:
  assumes snap: "export_bounds e team q d0 = Inr (last_event team d, last_message team d)"
    and x: "teamExport e fmt team f q limit bodies d0 d1 d2 = Inr p"
    and g: "log_grows d d1" "log_grows d d2" "messages_ok d"
  obtains h where "Normalize e fmt f = Inr h"
    "ec_SnapshotEvents (xp_Next p) = last_event team d" "ec_SnapshotMessages (xp_Next p) = last_message team d"
    "timeline_query team h (eq_AfterEvents q) (last_event team d) d
      = xp_Events p @ timeline_query team h (ec_AfterEvents (xp_Next p)) (last_event team d) d"
    "map (\<lambda>(_, r). messageAuditRecord (mw_body r) bodies) (message_audit_query team h (eq_AfterMessages q) (last_message team d) d)
      = map plain_record (xp_Messages p)
        @ map (\<lambda>(_, r). messageAuditRecord (mw_body r) bodies) (message_audit_query team h (ec_AfterMessages (xp_Next p)) (last_message team d) d)"
    "xp_Complete p \<longleftrightarrow> timeline_query team h (ec_AfterEvents (xp_Next p)) (last_event team d) d = []
        \<and> message_audit_query team h (ec_AfterMessages (xp_Next p)) (last_message team d) d = []"
    "\<forall>m \<in> set (xp_Messages p). recipients (ta_Deliveries m) = recipients (readDeliveries (ta_ID m) d)"
    "\<not> xp_Complete p \<longrightarrow> xp_Events p \<noteq> [] \<or> xp_Messages p \<noteq> []"
proof -
  have ok2: "messages_ok d2" and dg: "deliveries_grow d d2" using g(2,3) by (simp_all add: log_grows_def)
  obtain h k where P: "Normalize e fmt f = Inr h" "0 < k"
    "ec_SnapshotEvents (xp_Next p) = last_event team d" "ec_SnapshotMessages (xp_Next p) = last_message team d"
    "xp_Events p = take k (timeline_query team h (eq_AfterEvents q) (last_event team d) d)"
    "timeline_query team h (ec_AfterEvents (xp_Next p)) (last_event team d) d = drop k (timeline_query team h (eq_AfterEvents q) (last_event team d) d)"
    "xp_Messages p = map (\<lambda>(_, r). (messageAuditRecord (mw_body r) bodies)\<lparr>ta_Deliveries := readDeliveries (mw_id r) d2\<rparr>)
        (take k (message_audit_query team h (eq_AfterMessages q) (last_message team d) d))"
    "message_audit_query team h (ec_AfterMessages (xp_Next p)) (last_message team d) d
        = drop k (message_audit_query team h (eq_AfterMessages q) (last_message team d) d)"
    "xp_Complete p \<longleftrightarrow> length (timeline_query team h (eq_AfterEvents q) (last_event team d) d) \<le> k
        \<and> length (message_audit_query team h (eq_AfterMessages q) (last_message team d) d) \<le> k"
    by (rule teamExport_page [OF snap x g(1,2) ok2])
  let ?M = "message_audit_query team h (eq_AfterMessages q) (last_message team d) d"
  have plain: "map plain_record (xp_Messages p) = map (\<lambda>(_, r). messageAuditRecord (mw_body r) bodies) (take k ?M)"
    by (auto simp: P(7) plain_record_def messageAuditRecord_def)
  have rows: "r \<in> set (db_messages d)" if "(n, r) \<in> set ?M" for n r
    using that by (auto simp: message_audit_query_def numbered_def dest: set_zip_rightD)
  have "recipients (ta_Deliveries m) = recipients (readDeliveries (ta_ID m) d)" if "m \<in> set (xp_Messages p)" for m
  proof -
    from that obtain n r where m: "m = (messageAuditRecord (mw_body r) bodies)\<lparr>ta_Deliveries := readDeliveries (mw_id r) d2\<rparr>" and r: "(n, r) \<in> set ?M"
      unfolding P(7) by (auto dest: in_set_takeD)
    have "ms_ID (mw_body r) = mw_id r" using g(3) rows [OF r] by (simp add: messages_ok_def)
    then have i: "ta_ID m = mw_id r" "ta_Deliveries m = readDeliveries (mw_id r) d2" by (simp_all add: m messageAuditRecord_def)
    show ?thesis unfolding i by (rule recipients_kept [OF dg rows [OF r]])
  qed
  moreover have "xp_Events p \<noteq> [] \<or> xp_Messages p \<noteq> []" if "\<not> xp_Complete p"
    using that P(2) unfolding P(5,7,9) by auto
  moreover have "xp_Complete p \<longleftrightarrow> timeline_query team h (ec_AfterEvents (xp_Next p)) (last_event team d) d = []
        \<and> message_audit_query team h (ec_AfterMessages (xp_Next p)) (last_message team d) d = []"
    by (simp add: P(6,8,9))
  moreover have "timeline_query team h (eq_AfterEvents q) (last_event team d) d
      = xp_Events p @ timeline_query team h (ec_AfterEvents (xp_Next p)) (last_event team d) d" by (simp add: P(5,6))
  moreover have "map (\<lambda>(_, r). messageAuditRecord (mw_body r) bodies) ?M
      = map plain_record (xp_Messages p)
        @ map (\<lambda>(_, r). messageAuditRecord (mw_body r) bodies) (message_audit_query team h (ec_AfterMessages (xp_Next p)) (last_message team d) d)"
    by (simp only: plain P(8) map_append [symmetric] append_take_drop_id)
  ultimately show thesis using that P(1,3,4) by blast
qed

section \<open>An export, page by page\<close>

definition first_query :: export_query where
  "first_query = \<lparr>eq_AfterEvents = 0, eq_AfterMessages = 0, eq_SnapshotEvents = None, eq_SnapshotMessages = None\<rparr>"

definition continued :: "teamExportCursor \<Rightarrow> export_query" where
  "continued c = \<lparr>eq_AfterEvents = ec_AfterEvents c, eq_AfterMessages = ec_AfterMessages c,
     eq_SnapshotEvents = Some (ec_SnapshotEvents c), eq_SnapshotMessages = Some (ec_SnapshotMessages c)\<rparr>"

text \<open>The first page takes the snapshot; as long as a page is not complete, the next one passes its
  values back. The hub moves on between any two reads.\<close>

inductive exports :: "env \<Rightarrow> (int \<Rightarrow> string) \<Rightarrow> string \<Rightarrow> TeamAuditFilter \<Rightarrow> int \<Rightarrow> bool \<Rightarrow> db \<Rightarrow> export_page list \<Rightarrow> db \<Rightarrow> bool"
  for e fmt team f limit bodies d where
  opened: "moves\<^sup>*\<^sup>* d d1 \<Longrightarrow> moves\<^sup>*\<^sup>* d1 d2 \<Longrightarrow> teamExport e fmt team f first_query limit bodies d d1 d2 = Inr p
    \<Longrightarrow> exports e fmt team f limit bodies d [p] d2"
| paged: "exports e fmt team f limit bodies d ps d2 \<Longrightarrow> \<not> xp_Complete (last ps) \<Longrightarrow> moves\<^sup>*\<^sup>* d2 d3 \<Longrightarrow> moves\<^sup>*\<^sup>* d3 d4
    \<Longrightarrow> teamExport e fmt team f (continued (xp_Next (last ps))) limit bodies d2 d3 d4 = Inr p
    \<Longrightarrow> exports e fmt team f limit bodies d (ps @ [p]) d4"

lemma first_bounds:
  assumes "teamExport e fmt team f first_query limit bodies d d1 d2 = Inr p"
  shows "export_bounds e team first_query d = Inr (last_event team d, last_message team d)"
  using assms by (auto simp: teamExport_def export_bounds_def first_query_def get_audit_snapshot_def split: option.splits sum.splits if_splits)

lemma continued_bounds:
  assumes "teamExport e fmt team f (continued c) limit bodies d d1 d2 = Inr p"
  shows "export_bounds e team (continued c) d = Inr (ec_SnapshotEvents c, ec_SnapshotMessages c)"
  using assms by (auto simp: teamExport_def export_bounds_def continued_def split: option.splits sum.splits if_splits)

lemma exports_read:
  assumes "exports e fmt team f limit bodies d ps d'" "messages_ok d"
  shows "moves\<^sup>*\<^sup>* d d' \<and> ps \<noteq> [] \<and> ec_SnapshotEvents (xp_Next (last ps)) = last_event team d \<and> ec_SnapshotMessages (xp_Next (last ps)) = last_message team d
    \<and> (\<exists>h. Normalize e fmt f = Inr h
        \<and> matching_events team h d = concat (map xp_Events ps) @ timeline_query team h (ec_AfterEvents (xp_Next (last ps))) (last_event team d) d
        \<and> map (\<lambda>r. messageAuditRecord (mw_body r) bodies) (matching_messages team h d) = map plain_record (concat (map xp_Messages ps))
            @ map (\<lambda>(_, r). messageAuditRecord (mw_body r) bodies) (message_audit_query team h (ec_AfterMessages (xp_Next (last ps))) (last_message team d) d)
        \<and> (xp_Complete (last ps) \<longleftrightarrow> timeline_query team h (ec_AfterEvents (xp_Next (last ps))) (last_event team d) d = []
            \<and> message_audit_query team h (ec_AfterMessages (xp_Next (last ps))) (last_message team d) d = []))
    \<and> (\<forall>p \<in> set ps. (\<forall>m \<in> set (xp_Messages p). recipients (ta_Deliveries m) = recipients (readDeliveries (ta_ID m) d))
        \<and> (\<not> xp_Complete p \<longrightarrow> xp_Events p \<noteq> [] \<or> xp_Messages p \<noteq> []))"
  using assms(1)
proof (induction rule: exports.induct)
  case (opened d1 d2 p)
  have m2: "moves\<^sup>*\<^sup>* d d2" using opened.hyps(1,2) by (rule rtranclp_trans)
  have q: "eq_AfterEvents first_query = 0" "eq_AfterMessages first_query = 0" by (simp_all add: first_query_def)
  show ?case
  proof (rule teamExport_takes [OF first_bounds [OF opened.hyps(3)] opened.hyps(3) moves_rtrancl_log_grows [OF opened.hyps(1)] moves_rtrancl_log_grows [OF m2] assms(2)])
    fix h
    assume T: "Normalize e fmt f = Inr h"
      "ec_SnapshotEvents (xp_Next p) = last_event team d" "ec_SnapshotMessages (xp_Next p) = last_message team d"
      "timeline_query team h (eq_AfterEvents first_query) (last_event team d) d
        = xp_Events p @ timeline_query team h (ec_AfterEvents (xp_Next p)) (last_event team d) d"
      "map (\<lambda>(_, r). messageAuditRecord (mw_body r) bodies) (message_audit_query team h (eq_AfterMessages first_query) (last_message team d) d)
        = map plain_record (xp_Messages p)
          @ map (\<lambda>(_, r). messageAuditRecord (mw_body r) bodies) (message_audit_query team h (ec_AfterMessages (xp_Next p)) (last_message team d) d)"
      "xp_Complete p \<longleftrightarrow> timeline_query team h (ec_AfterEvents (xp_Next p)) (last_event team d) d = []
          \<and> message_audit_query team h (ec_AfterMessages (xp_Next p)) (last_message team d) d = []"
      "\<forall>m \<in> set (xp_Messages p). recipients (ta_Deliveries m) = recipients (readDeliveries (ta_ID m) d)"
      "\<not> xp_Complete p \<longrightarrow> xp_Events p \<noteq> [] \<or> xp_Messages p \<noteq> []"
    have ev: "matching_events team h d = xp_Events p @ timeline_query team h (ec_AfterEvents (xp_Next p)) (last_event team d) d"
      unfolding matching_events_query using T(4) unfolding q .
    have ms: "map (\<lambda>r. messageAuditRecord (mw_body r) bodies) (matching_messages team h d) = map plain_record (xp_Messages p)
            @ map (\<lambda>(_, r). messageAuditRecord (mw_body r) bodies) (message_audit_query team h (ec_AfterMessages (xp_Next p)) (last_message team d) d)"
      using T(5) unfolding q by (simp add: matching_messages_query case_prod_unfold o_def)
    show ?case using m2 T(1-3) ev ms T(6-8) by simp
  qed
next
  case (paged ps d2 d3 d4 p)
  from paged.IH have m0: "moves\<^sup>*\<^sup>* d d2" and ne: "ps \<noteq> []" and b: "ec_SnapshotEvents (xp_Next (last ps)) = last_event team d"
    "ec_SnapshotMessages (xp_Next (last ps)) = last_message team d" by blast+
  have m3: "moves\<^sup>*\<^sup>* d d3" using m0 paged.hyps(3) by (rule rtranclp_trans)
  then have m4: "moves\<^sup>*\<^sup>* d d4" using paged.hyps(4) by (rule rtranclp_trans)
  let ?c = "xp_Next (last ps)"
  have q: "eq_AfterEvents (continued ?c) = ec_AfterEvents ?c" "eq_AfterMessages (continued ?c) = ec_AfterMessages ?c" by (simp_all add: continued_def)
  from paged.IH obtain h0 where IH: "Normalize e fmt f = Inr h0"
    "matching_events team h0 d = concat (map xp_Events ps) @ timeline_query team h0 (ec_AfterEvents ?c) (last_event team d) d"
    "map (\<lambda>r. messageAuditRecord (mw_body r) bodies) (matching_messages team h0 d) = map plain_record (concat (map xp_Messages ps))
            @ map (\<lambda>(_, r). messageAuditRecord (mw_body r) bodies) (message_audit_query team h0 (ec_AfterMessages ?c) (last_message team d) d)"
    "\<forall>p \<in> set ps. (\<forall>m \<in> set (xp_Messages p). recipients (ta_Deliveries m) = recipients (readDeliveries (ta_ID m) d))
        \<and> (\<not> xp_Complete p \<longrightarrow> xp_Events p \<noteq> [] \<or> xp_Messages p \<noteq> [])" by blast
  show ?case
  proof (rule teamExport_takes [OF continued_bounds [OF paged.hyps(5), unfolded b] paged.hyps(5) moves_rtrancl_log_grows [OF m3] moves_rtrancl_log_grows [OF m4] assms(2)])
    fix h
    assume T: "Normalize e fmt f = Inr h"
      "ec_SnapshotEvents (xp_Next p) = last_event team d" "ec_SnapshotMessages (xp_Next p) = last_message team d"
      "timeline_query team h (eq_AfterEvents (continued ?c)) (last_event team d) d
        = xp_Events p @ timeline_query team h (ec_AfterEvents (xp_Next p)) (last_event team d) d"
      "map (\<lambda>(_, r). messageAuditRecord (mw_body r) bodies) (message_audit_query team h (eq_AfterMessages (continued ?c)) (last_message team d) d)
        = map plain_record (xp_Messages p)
          @ map (\<lambda>(_, r). messageAuditRecord (mw_body r) bodies) (message_audit_query team h (ec_AfterMessages (xp_Next p)) (last_message team d) d)"
      "xp_Complete p \<longleftrightarrow> timeline_query team h (ec_AfterEvents (xp_Next p)) (last_event team d) d = []
          \<and> message_audit_query team h (ec_AfterMessages (xp_Next p)) (last_message team d) d = []"
      "\<forall>m \<in> set (xp_Messages p). recipients (ta_Deliveries m) = recipients (readDeliveries (ta_ID m) d)"
      "\<not> xp_Complete p \<longrightarrow> xp_Events p \<noteq> [] \<or> xp_Messages p \<noteq> []"
    have h: "h0 = h" using IH(1) T(1) by simp
    have ev: "matching_events team h d = (concat (map xp_Events ps) @ xp_Events p) @ timeline_query team h (ec_AfterEvents (xp_Next p)) (last_event team d) d"
      using IH(2) T(4) by (simp add: h q)
    have ms: "map (\<lambda>r. messageAuditRecord (mw_body r) bodies) (matching_messages team h d) = map plain_record (concat (map xp_Messages ps) @ xp_Messages p)
            @ map (\<lambda>(_, r). messageAuditRecord (mw_body r) bodies) (message_audit_query team h (ec_AfterMessages (xp_Next p)) (last_message team d) d)"
      using IH(3) T(5) by (simp add: h q)
    show ?case using m4 T(1-3) ev ms T(6-8) IH(4) by simp
  qed
qed

text \<open>C38: An export is stable. Whatever happens on the hub between its snapshot and its pages, and between
  the reads of one page, the events of the pages, in order, are the next part of the events of the
  snapshot that match the filter, and the messages of the pages are, record by record beside the
  deliveries, the next part of the messages that match it; the pages leave nothing of both exactly when
  the last page says that it is complete. A message is exported with the recipients it had at the
  snapshot. A page that is not complete is not empty, so following the pages ends.\<close>

theorem audit_export_is_stable:
  assumes "reachable d" "exports e fmt team f limit bodies d ps d'"
  shows "(\<exists>h rest later. Normalize e fmt f = Inr h
      \<and> matching_events team h d = concat (map xp_Events ps) @ rest
      \<and> map (\<lambda>r. messageAuditRecord (mw_body r) bodies) (matching_messages team h d) = map plain_record (concat (map xp_Messages ps)) @ later
      \<and> (xp_Complete (last ps) \<longleftrightarrow> rest = [] \<and> later = []))
    \<and> (\<forall>m \<in> set (concat (map xp_Messages ps)). recipients (ta_Deliveries m) = recipients (readDeliveries (ta_ID m) d))
    \<and> (\<forall>p \<in> set ps. \<not> xp_Complete p \<longrightarrow> xp_Events p \<noteq> [] \<or> xp_Messages p \<noteq> [])"
proof -
  note R = exports_read [OF assms(2) reachable_messages_ok [OF assms(1)]]
  then obtain h where h: "Normalize e fmt f = Inr h"
    "matching_events team h d = concat (map xp_Events ps) @ timeline_query team h (ec_AfterEvents (xp_Next (last ps))) (last_event team d) d"
    "map (\<lambda>r. messageAuditRecord (mw_body r) bodies) (matching_messages team h d) = map plain_record (concat (map xp_Messages ps))
        @ map (\<lambda>(_, r). messageAuditRecord (mw_body r) bodies) (message_audit_query team h (ec_AfterMessages (xp_Next (last ps))) (last_message team d) d)"
    "xp_Complete (last ps) \<longleftrightarrow> timeline_query team h (ec_AfterEvents (xp_Next (last ps))) (last_event team d) d = []
        \<and> message_audit_query team h (ec_AfterMessages (xp_Next (last ps))) (last_message team d) d = []" by blast
  have c: "xp_Complete (last ps) \<longleftrightarrow> timeline_query team h (ec_AfterEvents (xp_Next (last ps))) (last_event team d) d = []
      \<and> map (\<lambda>(_, r). messageAuditRecord (mw_body r) bodies) (message_audit_query team h (ec_AfterMessages (xp_Next (last ps))) (last_message team d) d) = []"
    using h(4) by simp
  show ?thesis
  proof (intro conjI)
    show "\<exists>h rest later. Normalize e fmt f = Inr h
      \<and> matching_events team h d = concat (map xp_Events ps) @ rest
      \<and> map (\<lambda>r. messageAuditRecord (mw_body r) bodies) (matching_messages team h d) = map plain_record (concat (map xp_Messages ps)) @ later
      \<and> (xp_Complete (last ps) \<longleftrightarrow> rest = [] \<and> later = [])"
      using h(1-3) c by blast
  qed (use R in auto)
qed

text \<open>A page is read whenever the query is sound and the team can be audited.\<close>

lemma teamExport_runs:
  assumes "Normalize e fmt f = Inr h" "1 \<le> limit" "limit \<le> 100" "0 \<le> eq_AfterEvents q" "0 \<le> eq_AfterMessages q"
    "export_bounds e team q d = Inr (se, sm)" "0 \<le> se" "0 \<le> sm"
    "eq_SnapshotEvents q \<in> {None, Some se}" "eq_SnapshotMessages q \<in> {None, Some sm}" "auditTeam team d1 = None" "auditTeam team d2 = None"
  shows "\<exists>p. teamExport e fmt team f q limit bodies d d1 d2 = Inr p"
  using assms by (auto simp: teamExport_def teamPageLimit_def auditNumber_def TeamTimeline_def get_message_audit_def auditPage_def Let_def)

definition no_filter :: TeamAuditFilter where
  "no_filter = \<lparr>tf_SessionID = [], tf_TaskID = [], tf_AttemptID = [], tf_Operation = [], tf_Since = [], tf_Until = []\<rparr>"

lemma no_filter: "Normalize e fmt no_filter = Inr no_filter" "event_fits no_filter v" "message_fits no_filter r d"
  by (simp_all add: Normalize_def no_filter_def normal_bound_def event_fits_def message_fits_def within_def)

lemma w5_audited: "auditTeam (ex_id 2) (w5 m ev dl) = None"
  by (simp add: auditTeam_def scope_p TasksEnabled_def readTeam_def)

text \<open>The events of the team up to the offer.\<close>

lemma w4_events: "length (matching_events (ex_id 2) no_filter w4) = 3"
  by (simp add: matching_events_def numbered_def no_filter w4_def w3_def w2_def w1_def ex_join_event_def upt_rec)

lemma matching_events_grow:
  assumes "prefix (db_team_events d) (db_team_events d')"
  shows "length (matching_events team f d) \<le> length (matching_events team f d')"
  by (simp add: matching_events_def numbered_prefix [OF assms])

text \<open>The log of the team and its message are exported in pages of two. After the first page the worker
  reads its inbox, which adds an event and counts the delivery; the second page goes on in the snapshot.\<close>

theorem audit_export_is_stable_witness:
  "\<exists>d d' p q rest. reachable d \<and> exports (ex_env 0) (\<lambda>_. []) (ex_id 2) no_filter 2 False d [p, q] d'
    \<and> db_deliveries d' \<noteq> db_deliveries d \<and> length (xp_Events p) = 2 \<and> length (xp_Messages p) = 1 \<and> xp_Messages q = []
    \<and> matching_events (ex_id 2) no_filter d = xp_Events p @ xp_Events q @ rest \<and> 3 \<le> length (matching_events (ex_id 2) no_filter d)"
proof -
  from w_reachable(7) ex_offer_run obtain m ev dl where i: "ms_ID m = ex_id 6" "dl_acked_at dl = []"
    and r: "act (ex_env 6) ex_offer_action w4 = Inr (w5 m ev dl)" by blast
  let ?d = "w5 m ev dl"
  have rd: "reachable ?d" by (rule reachable.acted [OF w_reachable(5) _ r]) (simp add: new_ids_def)
  have "prefix (db_team_events w4) (db_team_events ?d)" using act_grows [OF r] by (simp add: log_grows_def)
  from matching_events_grow [OF this, of "ex_id 2" no_filter] have three: "3 \<le> length (matching_events (ex_id 2) no_filter ?d)" by (simp add: w4_events)
  from w5_inbox [OF i] obtain pg d1 where pg: "TeamMessages (ex_env 9) (ex_id 2) \<lparr>sh_SessionID = ex_id 4, sh_Generation = 1\<rparr> 0 100 True (ex_audit ex_worker) ?d = Inr (pg, d1)"
    and m: "pg_Messages pg = [m]" by blast
  then have "act (ex_env 9) (Inbox (ex_id 2) \<lparr>sh_SessionID = ex_id 4, sh_Generation = 1\<rparr> 0 100 True (ex_audit ex_worker)) ?d = Inr d1" by simp
  then have moved_on: "moves\<^sup>*\<^sup>* ?d d1" unfolding moves_def by blast
  from TeamMessages_inbox [OF pg] m obtain t s k ev' where c: "currentMessageSession (ex_id 2) \<lparr>sh_SessionID = ex_id 4, sh_Generation = 1\<rparr> (au_Actor (ex_audit ex_worker)) ?d = Inr (t, s)"
    and d1: "d1 = messageAudit (ex_env 9) t s ''team.message.delivery_attempt'' ev' (ex_audit ex_worker) (mark_delivered (e_now (ex_env 9) 0) (se_ID s) [m] ?d)" by (metis list.discI)
  from c have "se_ID s = ex_id 4" by (auto simp: currentMessageSession_def)
  with i have "mark_delivered (e_now (ex_env 9) 0) (se_ID s) [m] ?d = ?d\<lparr>db_deliveries := [((ex_id 6, ex_id 4), dl\<lparr>dl_delivered_at := e_now (ex_env 9) 0, dl_delivery_count := dl_delivery_count dl + 1\<rparr>)]\<rparr>"
    by (simp add: update_conv)
  note d1 = d1 [unfolded this]
  have a1: "auditTeam (ex_id 2) d1 = None" by (simp add: d1 auditTeam_def scope_p TasksEnabled_def readTeam_def messageAudit_def putTeamEvent_def)
  have "dl_delivery_count (snd (hd (db_deliveries d1))) \<noteq> dl_delivery_count (snd (hd (db_deliveries ?d)))" by (simp add: d1)
  then have dv: "db_deliveries d1 \<noteq> db_deliveries ?d" by metis
  have b0: "export_bounds (ex_env 0) (ex_id 2) first_query ?d = Inr (last_event (ex_id 2) ?d, last_message (ex_id 2) ?d)"
    by (simp add: export_bounds_def first_query_def get_audit_snapshot_def w5_audited)
  have "\<exists>p. teamExport (ex_env 0) (\<lambda>_. []) (ex_id 2) no_filter first_query 2 False ?d ?d ?d = Inr p"
    by (rule teamExport_runs [OF no_filter(1) _ _ _ _ b0 max_sequence_nonneg max_sequence_nonneg _ _ w5_audited w5_audited]) (simp_all add: first_query_def)
  then obtain p where p: "teamExport (ex_env 0) (\<lambda>_. []) (ex_id 2) no_filter first_query 2 False ?d ?d ?d = Inr p" by blast
  have q0: "eq_AfterEvents first_query = 0" "eq_AfterMessages first_query = 0" by (simp_all add: first_query_def)
  have "length (matching_messages (ex_id 2) no_filter ?d) = 1" by (simp add: matching_messages_def no_filter)
  then have one: "length (message_audit_query (ex_id 2) no_filter 0 (last_message (ex_id 2) ?d) ?d) = 1" by (simp add: matching_messages_query)
  have P: "length (xp_Events p) = 2 \<and> length (xp_Messages p) = 1 \<and> \<not> xp_Complete p
    \<and> 0 \<le> ec_AfterEvents (xp_Next p) \<and> 0 \<le> ec_AfterMessages (xp_Next p)
    \<and> ec_AfterEvents (xp_Next p) \<le> last_event (ex_id 2) ?d \<and> ec_AfterMessages (xp_Next p) \<le> last_message (ex_id 2) ?d
    \<and> ec_SnapshotEvents (xp_Next p) = last_event (ex_id 2) ?d \<and> ec_SnapshotMessages (xp_Next p) = last_message (ex_id 2) ?d"
    using three one
    by (rule_tac teamExport_page [OF b0 p log_grows_refl log_grows_refl reachable_messages_ok [OF rd]])
       (simp add: no_filter(1) q0 matching_events_query [symmetric] max_sequence_nonneg)
  let ?q = "continued (xp_Next p)"
  have b1: "export_bounds (ex_env 0) (ex_id 2) ?q ?d = Inr (last_event (ex_id 2) ?d, last_message (ex_id 2) ?d)"
    using P by (simp add: export_bounds_def continued_def)
  have "\<exists>q. teamExport (ex_env 0) (\<lambda>_. []) (ex_id 2) no_filter ?q 2 False ?d d1 d1 = Inr q"
    by (rule teamExport_runs [OF no_filter(1) _ _ _ _ b1 max_sequence_nonneg max_sequence_nonneg _ _ a1 a1]) (use P in \<open>simp_all add: continued_def\<close>)
  then obtain q where q: "teamExport (ex_env 0) (\<lambda>_. []) (ex_id 2) no_filter ?q 2 False ?d d1 d1 = Inr q" by blast
  have "exports (ex_env 0) (\<lambda>_. []) (ex_id 2) no_filter 2 False ?d [p] ?d" by (rule exports.opened [OF _ _ p]) simp_all
  from exports.paged [OF this _ moved_on _ , of d1 q] P q
  have x: "exports (ex_env 0) (\<lambda>_. []) (ex_id 2) no_filter 2 False ?d [p, q] d1" by simp
  from audit_export_is_stable [OF rd x] obtain rest later where
    R: "matching_events (ex_id 2) no_filter ?d = xp_Events p @ xp_Events q @ rest"
    and L: "map (\<lambda>r. messageAuditRecord (mw_body r) False) (matching_messages (ex_id 2) no_filter ?d) = map plain_record (xp_Messages p @ xp_Messages q) @ later"
    by (auto simp: no_filter)
  from arg_cong [OF L, of length] P \<open>length (matching_messages (ex_id 2) no_filter ?d) = 1\<close> have "xp_Messages q = []" by simp
  with rd x dv P R three show ?thesis by blast
qed

end
