(* ===== verification/Keyset.thy ===== *)
theory Keyset
  imports Prelude
begin

text \<open>
  Listings in pages: \<open>ORDER BY\<close> with a strict order, a cursor that names the last row of a page, and
  a keyset condition that selects the rows after it. The locale \<open>keyset\<close> states what the three owe each
  other; what a client gets by following the cursors is proved once for all of them.
\<close>

section \<open>Sorting by a strict order\<close>

fun insert_by :: "('a \<Rightarrow> 'a \<Rightarrow> bool) \<Rightarrow> 'a \<Rightarrow> 'a list \<Rightarrow> 'a list" where
  "insert_by lt x [] = [x]"
| "insert_by lt x (y # ys) = (if lt y x then y # insert_by lt x ys else x # y # ys)"

definition order_by :: "('a \<Rightarrow> 'a \<Rightarrow> bool) \<Rightarrow> 'a list \<Rightarrow> 'a list" where
  "order_by lt xs = foldr (insert_by lt) xs []"

lemma set_insert_by [simp]: "set (insert_by lt x xs) = insert x (set xs)"
  by (induction xs) auto

lemma length_insert_by [simp]: "length (insert_by lt x xs) = Suc (length xs)"
  by (induction xs) auto

lemma set_order_by [simp]: "set (order_by lt xs) = set xs"
  by (induction xs) (simp_all add: order_by_def)

lemma length_order_by [simp]: "length (order_by lt xs) = length xs"
  by (induction xs) (simp_all add: order_by_def)

section \<open>Following the cursors\<close>

text \<open>The client's loop, from cursor to cursor until there is none. It gives up after so many pages.\<close>

fun follow :: "nat \<Rightarrow> ('c \<Rightarrow> 'e + 'b list \<times> 'c option) \<Rightarrow> 'c \<Rightarrow> ('e + 'b list) option" where
  "follow 0 f c = None"
| "follow (Suc n) f c = (case f c of
     Inl x \<Rightarrow> Some (Inl x)
   | Inr (xs, None) \<Rightarrow> Some (Inr xs)
   | Inr (xs, Some c') \<Rightarrow> map_option (map_sum id (\<lambda>ys. xs @ ys)) (follow n f c'))"

text \<open>What a page answers when \<open>rest c\<close> is left to read and a page has room for \<open>k\<close>.\<close>

definition paged :: "nat \<Rightarrow> ('a \<Rightarrow> 'b) \<Rightarrow> ('a \<Rightarrow> 'c) \<Rightarrow> 'a list \<Rightarrow> 'b list \<times> 'c option" where
  "paged k g at xs = (map g (take k xs), if k < length xs then Some (at (xs ! (k - 1))) else None)"

lemma follow_rest:
  assumes "\<And>c xs. left c xs \<Longrightarrow> f c = Inr (paged k g at xs)"
    "\<And>c xs. left c xs \<Longrightarrow> k < length xs \<Longrightarrow> left (at (xs ! (k - 1))) (drop k xs)"
    "0 < k"
  shows "left c xs \<Longrightarrow> length xs < n \<Longrightarrow> follow n f c = Some (Inr (map g xs))"
proof (induction n arbitrary: c xs)
  case (Suc n)
  show ?case
  proof (cases "k < length xs")
    case False
    then show ?thesis using assms(1) [OF Suc.prems(1)] by (simp add: paged_def)
  next
    case True
    then have "length (drop k xs) < n" using Suc.prems(2) assms(3) by simp
    from Suc.IH [OF assms(2) [OF Suc.prems(1) True] this] True assms(1) [OF Suc.prems(1)] show ?thesis
      by (simp add: paged_def flip: map_append)
  qed
qed simp

section \<open>The contract\<close>

text \<open>Rows that differ in \<open>ident\<close> are ordered by \<open>lt\<close>, one way; \<open>beyond (at x)\<close> selects what comes after \<open>x\<close>.\<close>

locale keyset =
  fixes lt :: "'a \<Rightarrow> 'a \<Rightarrow> bool" and ident :: "'a \<Rightarrow> 'i" and at :: "'a \<Rightarrow> 'c" and beyond :: "'c \<Rightarrow> 'a \<Rightarrow> bool"
  assumes lt_irrefl: "\<not> lt x x"
    and lt_trans: "lt x y \<Longrightarrow> lt y z \<Longrightarrow> lt x z"
    and lt_total: "ident x \<noteq> ident y \<Longrightarrow> lt x y \<or> lt y x"
    and beyond_at: "beyond (at x) y \<longleftrightarrow> lt x y"
begin

lemma lt_asym: "lt x y \<Longrightarrow> \<not> lt y x"
  using lt_irrefl lt_trans by blast

lemma insert_by_sorted:
  assumes "sorted_wrt lt xs" "\<forall>y \<in> set xs. ident y \<noteq> ident x"
  shows "sorted_wrt lt (insert_by lt x xs)"
  using assms
proof (induction xs)
  case (Cons y ys)
  then show ?case using lt_total [of x y] by (auto intro: lt_trans)
qed simp

lemma order_by_Cons: "order_by lt (x # xs) = insert_by lt x (order_by lt xs)"
  by (simp add: order_by_def)

lemma order_by_sorted: "distinct (map ident xs) \<Longrightarrow> sorted_wrt lt (order_by lt xs)"
proof (induction xs)
  case (Cons x xs)
  then have "\<forall>y \<in> set (order_by lt xs). ident y \<noteq> ident x" by (auto simp: image_iff)
  with Cons insert_by_sorted [of "order_by lt xs" x] show ?case by (simp add: order_by_Cons)
qed (simp add: order_by_def)

lemma sorted_lists_equal: "sorted_wrt lt xs \<Longrightarrow> sorted_wrt lt ys \<Longrightarrow> set xs = set ys \<Longrightarrow> xs = ys"
proof (induction xs arbitrary: ys)
  case (Cons x xs)
  from Cons.prems(3) obtain y zs where ys: "ys = y # zs" by (cases ys) auto
  have xy: "x = y"
  proof (rule ccontr)
    assume "x \<noteq> y"
    with Cons.prems(3) ys have "x \<in> set zs" "y \<in> set xs" by auto
    with Cons.prems(1,2) ys lt_asym show False by auto
  qed
  have "x \<notin> set xs" "x \<notin> set zs" using Cons.prems(1,2) ys xy lt_irrefl by auto
  then have "set xs = set zs" using Cons.prems(3) ys xy by auto
  with Cons ys xy show ?case by auto
qed simp

lemma order_by_filter:
  assumes "distinct (map ident xs)"
  shows "order_by lt (filter P xs) = filter P (order_by lt xs)"
proof (rule sorted_lists_equal)
  show "sorted_wrt lt (order_by lt (filter P xs))" by (rule order_by_sorted) (use assms in \<open>simp add: distinct_map_filter\<close>)
  show "sorted_wrt lt (filter P (order_by lt xs))" by (rule sorted_wrt_filter [OF order_by_sorted [OF assms]])
qed simp

text \<open>After the \<open>k\<close>-th row come the others.\<close>

lemma beyond_nth:
  assumes "sorted_wrt lt xs" "0 < k" "k \<le> length xs"
  shows "filter (beyond (at (xs ! (k - 1)))) xs = drop k xs"
proof -
  let ?x = "xs ! (k - 1)"
  have low: "\<not> lt ?x y" if y: "y \<in> set (take k xs)" for y
  proof -
    from y obtain i where i: "i < k" "i < length xs" "y = xs ! i" by (auto simp: in_set_conv_nth)
    have k: "k - 1 < length xs" using assms(2,3) by simp
    show ?thesis
    proof (cases "i = k - 1")
      case True
      then show ?thesis using i lt_irrefl by simp
    next
      case False
      with i(1) have "i < k - 1" by simp
      then have "lt y ?x" using sorted_wrt_nth_less [OF assms(1) _ k] i(3) by simp
      then show ?thesis by (rule lt_asym)
    qed
  qed
  have high: "lt ?x y" if y: "y \<in> set (drop k xs)" for y
  proof -
    from y obtain i where "i < length xs - k" "y = xs ! (k + i)" by (auto simp: in_set_conv_nth)
    then have i: "k + i < length xs" "y = xs ! (k + i)" by simp_all
    from assms(2) have "k - 1 < k + i" by simp
    from sorted_wrt_nth_less [OF assms(1) this i(1)] i(2) show ?thesis by simp
  qed
  have "filter (lt ?x) (take k xs @ drop k xs) = drop k xs" using low high by (simp add: filter_id_conv filter_empty_conv del: append_take_drop_id)
  moreover have "beyond (at ?x) = lt ?x" by (simp add: fun_eq_iff beyond_at)
  ultimately show ?thesis by simp
qed

text \<open>A page is read with the keyset condition of its cursor, or without one from the start; to do so
  over and over reads everything that was asked for, in order.\<close>

definition remaining :: "'a list \<Rightarrow> 'c option \<Rightarrow> 'a list" where
  "remaining xs c = filter (\<lambda>y. case c of None \<Rightarrow> True | Some p \<Rightarrow> beyond p y) xs"

lemma remaining_drop:
  assumes "sorted_wrt lt xs" "c = None \<or> (\<exists>x \<in> set xs. c = Some (at x))" "0 < k" "k < length (remaining xs c)"
  shows "remaining xs (Some (at (remaining xs c ! (k - 1)))) = drop k (remaining xs c) \<and> remaining xs c ! (k - 1) \<in> set xs"
proof -
  let ?r = "remaining xs c"
  have s: "sorted_wrt lt ?r" unfolding remaining_def by (rule sorted_wrt_filter [OF assms(1)])
  have "?r ! (k - 1) \<in> set ?r" using assms(4) by (intro nth_mem) simp
  then have m: "?r ! (k - 1) \<in> set xs" "case c of None \<Rightarrow> True | Some p \<Rightarrow> beyond p (?r ! (k - 1))"
    by (simp_all only: remaining_def set_filter mem_Collect_eq)
  have "remaining xs (Some (at (?r ! (k - 1)))) = filter (beyond (at (?r ! (k - 1)))) ?r"
    unfolding remaining_def [of xs "Some p" for p] remaining_def [of xs c, symmetric]
    by (subst (3) remaining_def) (use m(2) assms(2) in \<open>auto simp: filter_filter beyond_at intro!: filter_cong dest: lt_trans\<close>)
  also have "\<dots> = drop k ?r" using beyond_nth [OF s] assms(3,4) by simp
  finally show ?thesis using m(1) by blast
qed

lemma follow_all:
  assumes "distinct (map ident xs)" "0 < k" "length xs < n"
    and f: "\<And>c p. p = None \<and> c = start \<or> (\<exists>x \<in> set xs. p = Some (at x) \<and> c = enc x) \<Longrightarrow>
      f c = Inr (paged k g enc (remaining (order_by lt xs) p))"
  shows "follow n f start = Some (Inr (map g (order_by lt xs)))"
proof -
  let ?xs = "order_by lt xs"
  define left where "left c ys \<longleftrightarrow> (\<exists>p. (p = None \<and> c = start \<or> (\<exists>x \<in> set xs. p = Some (at x) \<and> c = enc x)) \<and> ys = remaining ?xs p)" for c ys
  have s: "sorted_wrt lt ?xs" by (rule order_by_sorted [OF assms(1)])
  have "left start ?xs" unfolding left_def by (intro exI [of _ None]) (simp add: remaining_def)
  moreover have "left c ys \<Longrightarrow> f c = Inr (paged k g enc ys)" for c ys unfolding left_def using f by blast
  moreover have "left (enc (ys ! (k - 1))) (drop k ys)" if "left c ys" "k < length ys" for c ys
  proof -
    from that(1) obtain p where p: "p = None \<or> (\<exists>x \<in> set ?xs. p = Some (at x))" "ys = remaining ?xs p" unfolding left_def by auto
    from remaining_drop [OF s p(1) assms(2)] that(2) p(2)
    have "remaining ?xs (Some (at (ys ! (k - 1)))) = drop k ys" "ys ! (k - 1) \<in> set xs" by auto
    then show ?thesis unfolding left_def by (intro exI [of _ "Some (at (ys ! (k - 1)))"]) auto
  qed
  ultimately show ?thesis using follow_rest [of left f k g enc start ?xs n] assms(2,3) by simp
qed

end

end
