(* ===== verification/Base64.thy ===== *)
theory Base64
  imports Prelude
begin

text \<open>
  \<open>encoding/base64\<close>'s \<open>RawURLEncoding\<close> as the cursors use it: six bits per letter, no padding. The
  decoder skips line breaks and does not look at the spare bits of the last letter.
\<close>

definition b64_letter :: "nat \<Rightarrow> char" where
  "b64_letter n = (if n < 26 then char_of (65 + n) else if n < 52 then char_of (71 + n)
     else if n < 62 then char_of (n - 4) else if n = 62 then CHR ''-'' else CHR ''_'')"

definition b64_value :: "char \<Rightarrow> nat option" where
  "b64_value c = (let n = of_char c :: nat in
     if 65 \<le> n \<and> n \<le> 90 then Some (n - 65) else if 97 \<le> n \<and> n \<le> 122 then Some (n - 71)
     else if 48 \<le> n \<and> n \<le> 57 then Some (n + 4) else if c = CHR ''-'' then Some 62
     else if c = CHR ''_'' then Some 63 else None)"

fun b64_split :: "nat list \<Rightarrow> nat list" where
  "b64_split [] = []"
| "b64_split [a] = [a div 4, a mod 4 * 16]"
| "b64_split [a, b] = [a div 4, a mod 4 * 16 + b div 16, b mod 16 * 4]"
| "b64_split (a # b # c # bs) = [a div 4, a mod 4 * 16 + b div 16, b mod 16 * 4 + c div 64, c mod 64] @ b64_split bs"

fun b64_join :: "nat list \<Rightarrow> nat list option" where
  "b64_join [] = Some []"
| "b64_join [p] = None"
| "b64_join [p, q] = Some [p * 4 + q div 16]"
| "b64_join [p, q, r] = Some [p * 4 + q div 16, q mod 16 * 16 + r div 4]"
| "b64_join (p # q # r # s # ns) =
     map_option (\<lambda>bs. [p * 4 + q div 16, q mod 16 * 16 + r div 4, r mod 4 * 64 + s] @ bs) (b64_join ns)"

definition RawURLEncode :: "string \<Rightarrow> string" where
  "RawURLEncode s = map b64_letter (b64_split (map of_char s))"

definition RawURLDecode :: "string \<Rightarrow> string option" where
  "RawURLDecode s = (case those (map b64_value (filter (\<lambda>c. c \<noteq> CHR 10 \<and> c \<noteq> CHR 13) s)) of
     None \<Rightarrow> None | Some ns \<Rightarrow> map_option (map char_of) (b64_join ns))"

lemma b64_value_letter: "n < 64 \<Longrightarrow> b64_value (b64_letter n) = Some n"
  by (auto simp: b64_letter_def b64_value_def Let_def)

lemma b64_value_break: "b64_value (CHR 10) = None" "b64_value (CHR 13) = None"
  by (simp_all add: b64_value_def)

lemma b64_letter [simp]: "n < 64 \<Longrightarrow> b64_value (b64_letter n) = Some n" "n < 64 \<Longrightarrow> b64_letter n \<noteq> CHR 10" "n < 64 \<Longrightarrow> b64_letter n \<noteq> CHR 13"
  using b64_value_letter [of n] b64_value_break by (metis option.distinct(1))+

lemma b64_split_less: "list_all (\<lambda>b. b < 256) bs \<Longrightarrow> list_all (\<lambda>n. n < 64) (b64_split bs)"
  by (induction bs rule: b64_split.induct) auto

lemma high_bits: "(b :: nat) < 256 \<Longrightarrow> b div 16 < 16" "(c :: nat) < 256 \<Longrightarrow> c div 64 < 4"
  by (rule less_mult_imp_div_less, simp)+

lemma b64_join_split: "list_all (\<lambda>b. b < 256) bs \<Longrightarrow> b64_join (b64_split bs) = Some bs"
proof (induction bs rule: b64_split.induct)
  case (4 a b c bs)
  have "(a mod 4 * 16 + b div 16) div 16 = a mod 4" "(a mod 4 * 16 + b div 16) mod 16 = b div 16"
    "(b mod 16 * 4 + c div 64) div 4 = b mod 16" "(b mod 16 * 4 + c div 64) mod 4 = c div 64"
    using 4(2) high_bits(1) [of b] high_bits(2) [of c] by simp_all
  then show ?case using 4 by simp
qed (auto simp: high_bits)

lemma those_letters: "list_all (\<lambda>n. n < 64) ns \<Longrightarrow> those (map b64_value (map b64_letter ns)) = Some ns"
  by (induction ns) simp_all

theorem RawURL_round_trip: "RawURLDecode (RawURLEncode s) = Some s"
proof -
  let ?ns = "b64_split (map of_char s)"
  have b: "list_all (\<lambda>b. b < 256) (map of_char s :: nat list)" by (simp add: list_all_iff)
  note n = b64_split_less [OF b]
  have "filter (\<lambda>c. c \<noteq> CHR 10 \<and> c \<noteq> CHR 13) (map b64_letter ?ns) = map b64_letter ?ns"
    using n by (auto simp: filter_id_conv list_all_iff)
  then show ?thesis unfolding RawURLDecode_def RawURLEncode_def
    using those_letters [OF n] b64_join_split [OF b] by (simp add: map_idI del: map_map) (simp add: map_idI)
qed

lemma RawURLEncode_Nil [simp]: "RawURLEncode s = [] \<longleftrightarrow> s = []"
  by (cases "map of_char s :: nat list" rule: b64_split.cases) (auto simp: RawURLEncode_def)

end
