(* ===== verification/TaskLists.thy ===== *)
theory TaskLists
  imports Keyset Base64 GoStrings TeamAudit Complex_Main
begin

text \<open>
  The reads of the task board (\<open>internal/store/tasks.go\<close>, \<open>task_state_changes.go\<close>): listings in five
  orders, the search by relevance, the counts, and the pages of a task's history, of its comments and of
  the feed of state changes. A score is the rational number a finite \<open>float64\<close> is. SQLite's full-text
  index, \<open>json.Unmarshal\<close> of a cursor and the JSON of a number are arguments.
\<close>

section \<open>Filters and cursors\<close>

definition taskPageLimit :: "int \<Rightarrow> err + nat" where
  "taskPageLimit limit = (if limit = 0 then Inr 20
     else if limit < 1 \<or> 100 < limit then Inl (invalid ''limit must be between 1 and 100'') else Inr (nat limit))"

record TaskFilter =
  fl_State :: string
  fl_Assignee :: "TaskAssignee option"
  fl_Epic :: string
  fl_IncludeArchived :: bool
  fl_Query :: string
  fl_UpdatedSince :: string
  fl_Order :: string
  fl_After :: string
  fl_Limit :: int

definition TaskOrderID :: string where "TaskOrderID = ''id''"
definition TaskOrderUpdatedDesc :: string where "TaskOrderUpdatedDesc = ''updated_desc''"
definition TaskOrderUpdatedAsc :: string where "TaskOrderUpdatedAsc = ''updated_asc''"
definition TaskOrderTitle :: string where "TaskOrderTitle = ''title''"
definition TaskOrderState :: string where "TaskOrderState = ''state''"
definition taskOrderRelevance :: string where "taskOrderRelevance = ''relevance''"

definition taskOrders :: "string list" where
  "taskOrders = [TaskOrderID, TaskOrderUpdatedDesc, TaskOrderUpdatedAsc, TaskOrderTitle, TaskOrderState]"

definition MaxTaskQueryBytes :: nat where "MaxTaskQueryBytes = 256"

record taskCursor =
  tu_Order :: string
  tu_Key :: string
  tu_Rank :: int
  tu_Score :: rat
  tu_ID :: string

text \<open>A row of the full-text index that matches the terms.\<close>

record task_hit =
  ht_task_id :: string
  ht_kind :: string
  ht_score :: rat
  ht_snip :: string

record lists_env =
  le_number :: "rat \<Rightarrow> string"
  le_cursor :: "string \<Rightarrow> taskCursor option"
  le_format :: "int \<Rightarrow> string"
  le_match :: "string \<Rightarrow> db \<Rightarrow> task_hit list"

definition cursor_json :: "(rat \<Rightarrow> string) \<Rightarrow> taskCursor \<Rightarrow> string" where
  "cursor_json number c = [CHR 123] @ join '','' (map (\<lambda>(k, v). marshal_string k @ '':'' @ v)
     ([(''o'', marshal_string (tu_Order c)), (''k'', marshal_string (tu_Key c))]
      @ (if tu_Rank c = 0 then [] else [(''r'', show_int (tu_Rank c))])
      @ (if tu_Score c = 0 then [] else [(''s'', number (tu_Score c))])
      @ [(''id'', marshal_string (tu_ID c))])) @ [CHR 125]"

definition encode_cursor :: "lists_env \<Rightarrow> taskCursor \<Rightarrow> string" where
  "encode_cursor l c = RawURLEncode (cursor_json (le_number l) c)"

definition decodeTaskCursor :: "lists_env \<Rightarrow> string \<Rightarrow> string \<Rightarrow> err + taskCursor" where
  "decodeTaskCursor l s order =
     (case RawURLDecode s of None \<Rightarrow> Inl (invalid ''invalid task cursor'') | Some raw \<Rightarrow>
      if 4096 < length raw then Inl (invalid ''invalid task cursor'')
      else case le_cursor l raw of None \<Rightarrow> Inl (invalid ''invalid task cursor'') | Some c \<Rightarrow>
      if \<not> is_id (tu_ID c) then Inl (invalid ''invalid task cursor'')
      else if tu_Order c \<notin> set taskOrders \<and> tu_Order c \<noteq> taskOrderRelevance then Inl (invalid ''invalid task cursor'')
      else if tu_Order c \<noteq> order then Inl (invalid ''the task cursor belongs to another order: start again without after'')
      else Inr c)"

text \<open>The first eight bytes of the SHA-256, as hex.\<close>

definition taskQueryDigest :: "env \<Rightarrow> string \<Rightarrow> string" where
  "taskQueryDigest e match = take 16 (e_sha e match)"

definition taskSinceKey :: "env \<Rightarrow> lists_env \<Rightarrow> string \<Rightarrow> err + string" where
  "taskSinceKey e l s = (case e_parseTime e s of
     None \<Rightarrow> Inl (invalid ''updated_since must be an RFC 3339 time, such as 2026-10-21T08:00:00Z'')
   | Some t \<Rightarrow> Inr (le_format l (whole_second t)))"

section \<open>Orders\<close>

text \<open>A row of a listing: the hit that found it, its key and the stored task.\<close>

type_synonym found = "task_hit \<times> string \<times> task_row"

definition no_hit :: task_hit where
  "no_hit = \<lparr>ht_task_id = [], ht_kind = [], ht_score = 0, ht_snip = []\<rparr>"

definition updated_key :: "task_row \<Rightarrow> string" where
  "updated_key r = tk_UpdatedAt (tr_body r)"

text \<open>Collation \<open>NOCASE\<close> folds the ASCII letters.\<close>

definition nocase :: "string \<Rightarrow> string" where
  "nocase s = map (\<lambda>c. if upper (of_char c) then char_of (of_char c + 32 :: nat) else c) s"

definition title_key :: "task_row \<Rightarrow> string" where
  "title_key r = nocase (tc_Title (tk_Content (tr_body r)))"

definition taskStateRank :: "string \<Rightarrow> int" where
  "taskStateRank st = int (length (takeWhile (\<lambda>s. s \<noteq> st) TaskStates))"

text \<open>\<open>ORDER BY\<close>: whether a row comes before another.\<close>

definition order_before :: "string \<Rightarrow> found \<Rightarrow> found \<Rightarrow> bool" where
  "order_before order = (\<lambda>(h, i, r) (h', i', r').
     if order = taskOrderRelevance then ht_score h < ht_score h' \<or> ht_score h = ht_score h' \<and> i < i'
     else if order = TaskOrderID then i < i'
     else if order = TaskOrderUpdatedDesc then updated_key r' < updated_key r \<or> updated_key r = updated_key r' \<and> i' < i
     else if order = TaskOrderUpdatedAsc then updated_key r < updated_key r' \<or> updated_key r = updated_key r' \<and> i < i'
     else if order = TaskOrderTitle then title_key r < title_key r' \<or> title_key r = title_key r' \<and> i < i'
     else taskStateRank (tr_state r) < taskStateRank (tr_state r')
       \<or> taskStateRank (tr_state r) = taskStateRank (tr_state r')
         \<and> (updated_key r' < updated_key r \<or> updated_key r = updated_key r' \<and> i' < i))"

text \<open>The keyset condition after a cursor; listings by id compare the bare id.\<close>

definition cursor_after :: "string \<Rightarrow> taskCursor \<Rightarrow> found \<Rightarrow> bool" where
  "cursor_after order c = (\<lambda>(h, i, r).
     if order = taskOrderRelevance then tu_Score c < ht_score h \<or> ht_score h = tu_Score c \<and> tu_ID c < i
     else if order = TaskOrderUpdatedDesc then updated_key r < tu_Key c \<or> updated_key r = tu_Key c \<and> i < tu_ID c
     else if order = TaskOrderUpdatedAsc then tu_Key c < updated_key r \<or> updated_key r = tu_Key c \<and> tu_ID c < i
     else if order = TaskOrderTitle then nocase (tu_Key c) < title_key r \<or> title_key r = nocase (tu_Key c) \<and> tu_ID c < i
     else tu_Rank c < taskStateRank (tr_state r)
       \<or> taskStateRank (tr_state r) = tu_Rank c \<and> (updated_key r < tu_Key c \<or> updated_key r = tu_Key c \<and> i < tu_ID c))"

section \<open>Summaries and pages\<close>

record TaskSummary =
  sm_Coordination :: "TaskCoordination option"
  sm_ID :: string
  sm_Title :: string
  sm_State :: string
  sm_Assignee :: "TaskAssignee option"
  sm_Epic :: string
  sm_Archived :: bool
  sm_Revision :: int
  sm_UpdatedAt :: string
  sm_Matched :: string
  sm_Snippet :: string

record TaskPage =
  tp_Tasks :: "TaskSummary list"
  tp_Next :: string

definition scanCurrentTask :: "string \<Rightarrow> task_row \<Rightarrow> db \<Rightarrow> Task" where
  "scanCurrentTask i r d = (case coordination_of i d of None \<Rightarrow> tr_body r | Some c \<Rightarrow> (tr_body r)\<lparr>tk_Coordination := Some c\<rparr>)"

definition task_summary :: "db \<Rightarrow> found \<Rightarrow> TaskSummary" where
  "task_summary d = (\<lambda>(h, i, r). let t = scanCurrentTask i r d; c = tk_Content t in
     \<lparr>sm_Coordination = tk_Coordination t, sm_ID = tk_ID t, sm_Title = tc_Title c, sm_State = tc_State c, sm_Assignee = tc_Assignee c,
      sm_Epic = tc_Epic c, sm_Archived = tc_Archived c, sm_Revision = tk_Revision t, sm_UpdatedAt = tk_UpdatedAt t,
      sm_Matched = ht_kind h, sm_Snippet = join_space (Fields (ht_snip h))\<rparr>)"

text \<open>The cursor that resumes after a row.\<close>

definition after_summary :: "string \<Rightarrow> TaskSummary \<Rightarrow> taskCursor" where
  "after_summary order t =
     \<lparr>tu_Order = order, tu_Key = (if order = TaskOrderTitle then sm_Title t else sm_UpdatedAt t),
      tu_Rank = (if order = TaskOrderState then taskStateRank (sm_State t) else 0), tu_Score = 0, tu_ID = sm_ID t\<rparr>"

definition taskCursorAfter :: "lists_env \<Rightarrow> string \<Rightarrow> TaskSummary \<Rightarrow> string" where
  "taskCursorAfter l order t = (if order = TaskOrderID then sm_ID t else encode_cursor l (after_summary order t))"

definition after_hit :: "env \<Rightarrow> string \<Rightarrow> rat \<Rightarrow> TaskSummary \<Rightarrow> taskCursor" where
  "after_hit e match score t = \<lparr>tu_Order = taskOrderRelevance, tu_Key = taskQueryDigest e match, tu_Rank = 0, tu_Score = score, tu_ID = sm_ID t\<rparr>"

definition next_cursor :: "env \<Rightarrow> lists_env \<Rightarrow> string \<Rightarrow> string \<Rightarrow> db \<Rightarrow> found \<Rightarrow> string" where
  "next_cursor e l order match d x =
     (if order = taskOrderRelevance then encode_cursor l (after_hit e match (ht_score (fst x)) (task_summary d x))
      else taskCursorAfter l order (task_summary d x))"

text \<open>The loop over the rows, at most one more than the limit.\<close>

definition list_page :: "env \<Rightarrow> lists_env \<Rightarrow> string \<Rightarrow> string \<Rightarrow> nat \<Rightarrow> db \<Rightarrow> found list \<Rightarrow> TaskPage" where
  "list_page e l order match limit d rows =
     (let got = take (limit + 1) rows; out = take limit got in
      \<lparr>tp_Tasks = map (task_summary d) out,
       tp_Next = (if limit < length got then next_cursor e l order match d (got ! (limit - 1)) else [])\<rparr>)"

section \<open>Listing\<close>

definition list_order :: "TaskFilter \<Rightarrow> err + string" where
  "list_order f = (let order = (if fl_Order f = [] then TaskOrderID else fl_Order f) in
     if fl_Query f \<noteq> [] then
       (if fl_Order f \<noteq> [] then Inl (invalid ''a search is ranked by relevance: it takes no order'') else Inr taskOrderRelevance)
     else if order \<notin> set taskOrders then Inl (invalid ''invalid task order (want id, updated_desc, updated_asc, title or state)'')
     else Inr order)"

definition filter_checks :: "TaskFilter \<Rightarrow> string \<Rightarrow> err option" where
  "filter_checks f order =
     (if order = TaskOrderID \<and> fl_After f \<noteq> [] \<and> \<not> is_id (fl_After f) then Some (invalid ''invalid task cursor'')
      else if (case fl_Assignee f of None \<Rightarrow> False | Some a \<Rightarrow> \<not> assignee_ok a) then Some (invalid ''invalid assignee filter'')
      else if fl_Epic f \<noteq> [] \<and> \<not> is_id (fl_Epic f) then Some (invalid ''invalid epic filter'')
      else None)"

definition checkFTSTerms :: "string \<Rightarrow> bool" where
  "checkFTSTerms q \<longleftrightarrow> CHR 0x00 \<notin> set q"

definition ftsQuote :: "string \<Rightarrow> string" where
  "ftsQuote q = join_space (map (\<lambda>f. [CHR 34] @ concat (map (\<lambda>c. if c = CHR 34 then [CHR 34, CHR 34] else [c]) f) @ [CHR 34]) (Fields q))"

text \<open>The best of a task's hits: the least score, the first of equals.\<close>

definition best_hit :: "task_hit list \<Rightarrow> string \<Rightarrow> task_hit option" where
  "best_hit hs i = (case filter (\<lambda>h. ht_task_id h = i) hs of [] \<Rightarrow> None
     | h # rest \<Rightarrow> Some (foldl (\<lambda>b h. if ht_score h < ht_score b then h else b) h rest))"

definition search_hits :: "task_hit list \<Rightarrow> db \<Rightarrow> found list" where
  "search_hits hs d = concat (map (\<lambda>(i, r). case best_hit hs i of None \<Rightarrow> [] | Some h \<Rightarrow> [(h, i, r)]) (db_tasks d))"

text \<open>What a listing selects from: the terms matched, the rows, and the keyset condition.\<close>

definition list_source :: "env \<Rightarrow> lists_env \<Rightarrow> TaskFilter \<Rightarrow> string \<Rightarrow> db \<Rightarrow> err + string \<times> found list \<times> (found \<Rightarrow> bool)" where
  "list_source e l f order d =
     (if order = taskOrderRelevance then
        (if MaxTaskQueryBytes < length (fl_Query f) \<or> \<not> ValidString (fl_Query f)
           then Inl (invalid ''search terms must be valid UTF-8 of at most 256 bytes'')
         else if \<not> checkFTSTerms (fl_Query f) then Inl (invalid ''search terms must not contain NUL'')
         else let match = ftsQuote (fl_Query f) in
         if match = [] then Inl (invalid ''search terms are blank'')
         else if fl_After f = [] then Inr (match, search_hits (le_match l match d) d, \<lambda>_. True)
         else case decodeTaskCursor l (fl_After f) order of Inl x \<Rightarrow> Inl x | Inr c \<Rightarrow>
         if tu_Key c \<noteq> taskQueryDigest e match
           then Inl (invalid ''the task cursor belongs to another search: start again without after'')
         else Inr (match, search_hits (le_match l match d) d, cursor_after order c))
      else if order \<noteq> TaskOrderID then
        (if fl_After f = [] then Inr ([], map (\<lambda>(i, r). (no_hit, i, r)) (db_tasks d), \<lambda>_. True)
         else case decodeTaskCursor l (fl_After f) order of Inl x \<Rightarrow> Inl x | Inr c \<Rightarrow>
         Inr ([], map (\<lambda>(i, r). (no_hit, i, r)) (db_tasks d), cursor_after order c))
      else Inr ([], map (\<lambda>(i, r). (no_hit, i, r)) (db_tasks d), \<lambda>(_, i, _). fl_After f < i))"

definition list_fits :: "TaskFilter \<Rightarrow> string \<Rightarrow> found \<Rightarrow> bool" where
  "list_fits f since = (\<lambda>(_, i, r). (fl_IncludeArchived f \<or> \<not> tr_archived r)
     \<and> (fl_State f = [] \<or> tr_state r = fl_State f)
     \<and> (fl_Assignee f = None \<or> tr_assignee r = assignee_column (fl_Assignee f))
     \<and> (fl_Epic f = [] \<or> tr_epic r = fl_Epic f)
     \<and> (since = [] \<or> since \<le> updated_key r))"

definition ListTasks :: "env \<Rightarrow> lists_env \<Rightarrow> TaskFilter \<Rightarrow> db \<Rightarrow> err + TaskPage" where
  "ListTasks e l f d =
     (case taskPageLimit (fl_Limit f) of Inl x \<Rightarrow> Inl x | Inr limit \<Rightarrow>
      if fl_State f \<noteq> [] \<and> \<not> validTaskState (fl_State f) then Inl (invalid ''invalid task state filter'')
      else case list_order f of Inl x \<Rightarrow> Inl x | Inr order \<Rightarrow>
      case filter_checks f order of Some x \<Rightarrow> Inl x | None \<Rightarrow>
      case (if fl_UpdatedSince f = [] then Inr [] else taskSinceKey e l (fl_UpdatedSince f)) of Inl x \<Rightarrow> Inl x | Inr since \<Rightarrow>
      case list_source e l f order d of Inl x \<Rightarrow> Inl x | Inr (match, rows, after) \<Rightarrow>
      Inr (list_page e l order match limit d (order_by (order_before order) (filter (\<lambda>x. after x \<and> list_fits f since x) rows))))"

section \<open>Counts\<close>

record TaskCounts =
  tn_Counts :: "(string, int) table"
  tn_Archived :: int
  tn_Total :: int

text \<open>One group of the query added to the result.\<close>

definition add_group :: "TaskCounts \<Rightarrow> (string \<times> bool) \<times> int \<Rightarrow> TaskCounts" where
  "add_group out = (\<lambda>((st, archived), n).
     (if archived then out\<lparr>tn_Archived := tn_Archived out + n\<rparr>
      else out\<lparr>tn_Counts := AList.update st ((case map_of (tn_Counts out) st of None \<Rightarrow> 0 | Some m \<Rightarrow> m) + n) (tn_Counts out)\<rparr>)
     \<lparr>tn_Total := tn_Total out + n\<rparr>)"

definition count_groups :: "task_row list \<Rightarrow> ((string \<times> bool) \<times> int) list" where
  "count_groups rows = map (\<lambda>k. (k, int (length (filter (\<lambda>r. (tr_state r, tr_archived r) = k) rows))))
     (remdups (map (\<lambda>r. (tr_state r, tr_archived r)) rows))"

definition CountTasks :: "TaskFilter \<Rightarrow> db \<Rightarrow> err + TaskCounts" where
  "CountTasks f d =
     (if (case fl_Assignee f of None \<Rightarrow> False | Some a \<Rightarrow> \<not> assignee_ok a) then Inl (invalid ''invalid assignee filter'')
      else if fl_Epic f \<noteq> [] \<and> \<not> is_id (fl_Epic f) then Inl (invalid ''invalid epic filter'')
      else Inr (foldl add_group \<lparr>tn_Counts = map (\<lambda>st. (st, 0)) TaskStates, tn_Archived = 0, tn_Total = 0\<rparr>
        (count_groups (filter (\<lambda>r. (fl_Assignee f = None \<or> tr_assignee r = assignee_column (fl_Assignee f))
           \<and> (fl_Epic f = [] \<or> tr_epic r = fl_Epic f)) (map snd (db_tasks d))))))"

section \<open>A task's history, its comments, the feed\<close>

record TaskHistoryPage =
  tq_Changes :: "TaskChange list"
  tq_Next :: int

definition TaskHistory :: "string \<Rightarrow> int \<Rightarrow> int \<Rightarrow> db \<Rightarrow> err + TaskHistoryPage" where
  "TaskHistory tid after limit0 d =
     (case taskPageLimit limit0 of Inl x \<Rightarrow> Inl x | Inr limit \<Rightarrow>
      if after < 0 then Inl (invalid ''invalid history cursor'')
      else case GetTask tid d of Inl x \<Rightarrow> Inl x | Inr t \<Rightarrow>
      let got = take (limit + 1) (map snd (sort_key (\<lambda>((_, n), _). n) (filter (\<lambda>((i, n), _). i = tid \<and> after < n) (db_history d))))
      in Inr \<lparr>tq_Changes = take limit got, tq_Next = (if limit < length got then tk_Revision (ch_Task (got ! (limit - 1))) else 0)\<rparr>)"

record TaskCommentPage =
  pc_Comments :: "TaskComment list"
  pc_Next :: int

definition comments_query :: "string \<Rightarrow> int \<Rightarrow> bool \<Rightarrow> db \<Rightarrow> TaskComment list" where
  "comments_query tid after desc d =
     (if desc then rev (sort_key cm_Sequence (filter (\<lambda>c. cm_TaskID c = tid \<and> (after = 0 \<or> cm_Sequence c < after)) (db_comments d)))
      else sort_key cm_Sequence (filter (\<lambda>c. cm_TaskID c = tid \<and> after < cm_Sequence c) (db_comments d)))"

definition TaskCommentsOrdered :: "string \<Rightarrow> int \<Rightarrow> int \<Rightarrow> bool \<Rightarrow> db \<Rightarrow> err + TaskCommentPage" where
  "TaskCommentsOrdered tid after limit0 desc d =
     (case taskPageLimit limit0 of Inl x \<Rightarrow> Inl x | Inr limit \<Rightarrow>
      if after < 0 then Inl (invalid ''invalid comment cursor'')
      else case GetTask tid d of Inl x \<Rightarrow> Inl x | Inr t \<Rightarrow>
      let got = take (limit + 1) (comments_query tid after desc d)
      in Inr \<lparr>pc_Comments = take limit got, pc_Next = (if limit < length got then cm_Sequence (got ! (limit - 1)) else 0)\<rparr>)"

definition TaskComments :: "string \<Rightarrow> int \<Rightarrow> int \<Rightarrow> db \<Rightarrow> err + TaskCommentPage" where
  "TaskComments tid after limit d = TaskCommentsOrdered tid after limit False d"

text \<open>A change is returned with the capability its task required at that revision.\<close>

definition change_row :: "db \<Rightarrow> TaskStateChange \<Rightarrow> TaskStateChange" where
  "change_row d c = c\<lparr>sc_RequiredCapability :=
     (case map_of (db_history d) (sc_TaskID c, sc_Revision c) of None \<Rightarrow> [] | Some h \<Rightarrow> tc_RequiredCapability (tk_Content (ch_Task h)))\<rparr>"

definition TaskStateChanges :: "int \<Rightarrow> int \<Rightarrow> db \<Rightarrow> err + TaskStateChange list \<times> int" where
  "TaskStateChanges after limit d =
     (if after < 0 \<or> limit < 1 then Inl (invalid ''invalid state change cursor or limit'')
      else Inr (map (change_row d) (take (nat limit) (sort_key sc_Sequence (filter (\<lambda>c. after < sc_Sequence c) (db_state_changes d)))),
        foldl max 0 (map sc_Sequence (db_state_changes d))))"

section \<open>The contract of the orders\<close>

text \<open>The cursor of a row, read off the row, and the condition \<open>ListTasks\<close> adds for it.\<close>

definition row_cursor :: "string \<Rightarrow> string \<Rightarrow> found \<Rightarrow> taskCursor" where
  "row_cursor order digest = (\<lambda>(h, i, r).
     if order = taskOrderRelevance then \<lparr>tu_Order = order, tu_Key = digest, tu_Rank = 0, tu_Score = ht_score h, tu_ID = i\<rparr>
     else \<lparr>tu_Order = order, tu_Key = (if order = TaskOrderTitle then tc_Title (tk_Content (tr_body r)) else updated_key r),
       tu_Rank = (if order = TaskOrderState then taskStateRank (tr_state r) else 0), tu_Score = 0, tu_ID = i\<rparr>)"

definition keyset_condition :: "string \<Rightarrow> taskCursor \<Rightarrow> found \<Rightarrow> bool" where
  "keyset_condition order c = (if order = TaskOrderID then \<lambda>(_, i, _). tu_ID c < i else cursor_after order c)"

lemmas task_order_defs = TaskOrderID_def TaskOrderUpdatedDesc_def TaskOrderUpdatedAsc_def TaskOrderTitle_def TaskOrderState_def
  taskOrderRelevance_def

definition known_order :: "string \<Rightarrow> bool" where
  "known_order order \<longleftrightarrow> order \<in> set taskOrders \<or> order = taskOrderRelevance"

lemma order_before_irrefl: "\<not> order_before order x x"
  by (cases x) (simp add: order_before_def)

text \<open>Each order compares a key and, in one direction or the other, the id.\<close>

lemma lex_trans: "a < b \<or> a = b \<and> P \<Longrightarrow> b < c \<or> b = c \<and> Q \<Longrightarrow> (P \<Longrightarrow> Q \<Longrightarrow> R) \<Longrightarrow> a < c \<or> a = c \<and> R" for a b c :: "'a :: order"
  by auto

lemma order_before_trans:
  assumes "order_before order x y" "order_before order y z"
  shows "order_before order x z"
proof -
  obtain h i r h' i' r' h'' i'' r'' where xyz: "x = (h, i, r)" "y = (h', i', r')" "z = (h'', i'', r'')" by (cases x, cases y, cases z) blast
  let ?up = "updated_key r'' < updated_key r \<or> updated_key r'' = updated_key r \<and> i'' < i"
  have down: ?up if "updated_key r' < updated_key r \<or> updated_key r = updated_key r' \<and> i' < i"
      "updated_key r'' < updated_key r' \<or> updated_key r' = updated_key r'' \<and> i'' < i'"
    by (rule lex_trans [of _ "updated_key r'" "i'' < i'" _ "i' < i"]) (use that in auto)
  consider (score) "order = taskOrderRelevance" | (bare) "order = TaskOrderID" | (newest) "order = TaskOrderUpdatedDesc" | (oldest) "order = TaskOrderUpdatedAsc"
    | (title) "order = TaskOrderTitle"
    | (other) "order \<noteq> taskOrderRelevance" "order \<noteq> TaskOrderID" "order \<noteq> TaskOrderUpdatedDesc" "order \<noteq> TaskOrderUpdatedAsc" "order \<noteq> TaskOrderTitle"
    by blast
  then show ?thesis
  proof cases
    case score
    then show ?thesis using assms lex_trans [of "ht_score h" "ht_score h'" "i < i'" "ht_score h''" "i' < i''" "i < i''"] unfolding xyz
      by (simp add: order_before_def task_order_defs)
  next
    case bare
    then show ?thesis using assms unfolding xyz by (simp add: order_before_def task_order_defs)
  next
    case newest
    then show ?thesis using assms down unfolding xyz by (simp add: order_before_def task_order_defs eq_commute)
  next
    case oldest
    then show ?thesis using assms lex_trans [of "updated_key r" "updated_key r'" "i < i'" "updated_key r''" "i' < i''" "i < i''"] unfolding xyz
      by (simp add: order_before_def task_order_defs)
  next
    case title
    then show ?thesis using assms lex_trans [of "title_key r" "title_key r'" "i < i'" "title_key r''" "i' < i''" "i < i''"] unfolding xyz
      by (simp add: order_before_def task_order_defs)
  next
    case other
    let ?rank = "\<lambda>r. taskStateRank (tr_state r)"
    from other assms have a: "?rank r < ?rank r' \<or> ?rank r = ?rank r' \<and> (updated_key r' < updated_key r \<or> updated_key r = updated_key r' \<and> i' < i)"
      "?rank r' < ?rank r'' \<or> ?rank r' = ?rank r'' \<and> (updated_key r'' < updated_key r' \<or> updated_key r' = updated_key r'' \<and> i'' < i')"
      unfolding xyz by (simp_all add: order_before_def)
    from lex_trans [OF a down] show ?thesis using other unfolding xyz by (simp add: order_before_def eq_commute)
  qed
qed

lemma order_before_total: "fst (snd x) \<noteq> fst (snd y) \<Longrightarrow> order_before order x y \<or> order_before order y x"
  by (cases x; cases y) (auto simp: order_before_def)

text \<open>Only the order \<open>state\<close> carries a rank, so the default branch of the condition is right for it alone.\<close>

definition keyset_order :: "string \<Rightarrow> string" where
  "keyset_order order = (if known_order order then order else TaskOrderID)"

lemma keyset_condition_row_cursor:
  assumes "known_order order"
  shows "keyset_condition order (row_cursor order digest x) y \<longleftrightarrow> order_before order x y"
proof -
  obtain h i r h' i' r' where xy: "x = (h, i, r)" "y = (h', i', r')" by (cases x, cases y) blast
  from assms consider "order = taskOrderRelevance" | "order = TaskOrderID" | "order = TaskOrderUpdatedDesc" | "order = TaskOrderUpdatedAsc"
    | "order = TaskOrderTitle" | "order = TaskOrderState"
    unfolding known_order_def taskOrders_def by (simp only: list.set insert_iff empty_iff) blast
  then show ?thesis unfolding xy
    by cases (simp add: keyset_condition_def cursor_after_def row_cursor_def order_before_def task_order_defs title_key_def; fastforce)+
qed

interpretation listing: keyset "order_before (keyset_order order)" "\<lambda>x. fst (snd x)" "row_cursor (keyset_order order) digest"
  "keyset_condition (keyset_order order)" for order digest
proof
  show "keyset_condition (keyset_order order) (row_cursor (keyset_order order) digest x) y = order_before (keyset_order order) x y" for x y
    by (rule keyset_condition_row_cursor) (simp add: keyset_order_def known_order_def taskOrders_def)
qed (rule order_before_irrefl, erule (1) order_before_trans, erule order_before_total)

end
