(* ===== verification/TaskListProps.thy ===== *)
theory TaskListProps
  imports TaskLists MessageProps
begin

text \<open>
  What a client that follows the cursors of the board's listings, comments and feed gets.
\<close>

section \<open>Cursors survive the round trip\<close>

lemma go_units_parts: "\<forall>u \<in> set (go_units s). snd u \<noteq> []"
proof (induction s rule: go_units.induct)
  case (1 s)
  show ?case
  proof (cases "s = []")
    case False
    obtain r w where rw: "decode_rune (map of_char s) = (r, w)" by (cases "decode_rune (map of_char s)")
    then have "0 < w" using False decode_rune_width by (cases s) (auto, metis snd_conv)
    with "1.IH" [OF False, of "(r, w)" r w] rw False show ?thesis by (simp add: go_units.simps [of s])
  qed simp
qed

lemma marshal_unit_length: "snd u \<noteq> [] \<Longrightarrow> length (marshal_unit u) \<le> 6 * length (snd u)"
  by (cases u; cases "fst u"; cases "snd u") (auto simp: marshal_unit_def)

lemma marshal_string_length: "length (marshal_string s) \<le> 6 * length s + 2"
proof -
  have "\<forall>u \<in> set us. snd u \<noteq> [] \<Longrightarrow> length (concat (map marshal_unit us)) \<le> 6 * length (concat (map snd us))" for us
  proof (induction us)
    case (Cons u us)
    then show ?case using marshal_unit_length [of u] by simp
  qed simp
  from this [OF go_units_parts] show ?thesis by (simp add: marshal_string_def go_units_bytes)
qed

text \<open>The rows of a board whose identifiers, titles and times the writers admitted.\<close>

definition rows_ok :: "db \<Rightarrow> bool" where
  "rows_ok d \<longleftrightarrow> tb_ok (db_tasks d) \<and> list_all (\<lambda>(i, r). is_id i \<and> r = task_columns (tr_body r) \<and> tk_ID (tr_body r) = i
     \<and> validTaskState (tr_state r) \<and> length (tc_Title (tk_Content (tr_body r))) \<le> MaxTaskTitleBytes \<and> length (updated_key r) \<le> 64) (db_tasks d)"

definition list_rows :: "lists_env \<Rightarrow> TaskFilter \<Rightarrow> db \<Rightarrow> found list" where
  "list_rows l f d = (if fl_Query f = [] then map (\<lambda>(i, r). (no_hit, i, r)) (db_tasks d)
     else search_hits (le_match l (ftsQuote (fl_Query f)) d) d)"

text \<open>What is asked of \<open>encoding/json\<close>: it gives back the cursors of the rows, and writes a number in at most 32 bytes.\<close>

definition cursors_kept :: "env \<Rightarrow> lists_env \<Rightarrow> TaskFilter \<Rightarrow> string \<Rightarrow> db \<Rightarrow> bool" where
  "cursors_kept e l f order d \<longleftrightarrow> (\<forall>n. length (le_number l n) \<le> 32)
     \<and> (\<forall>x \<in> set (list_rows l f d). let c = row_cursor order (taskQueryDigest e (ftsQuote (fl_Query f))) x
          in le_cursor l (cursor_json (le_number l) c) = Some c)"

lemma taskStateRank_range: "0 \<le> taskStateRank st \<and> taskStateRank st \<le> 7"
proof -
  have "length (takeWhile (\<lambda>s. s \<noteq> st) TaskStates) \<le> length TaskStates" by (rule length_takeWhile_le)
  then show ?thesis by (simp add: taskStateRank_def TaskStates_def)
qed

lemma show_int_length: "0 \<le> n \<Longrightarrow> n < 10 \<Longrightarrow> length (show_int n) = 1"
  by (simp add: show_int_def show_nat.simps)

lemma list_rows_in: "(h, i, r) \<in> set (list_rows l f d) \<Longrightarrow> (i, r) \<in> set (db_tasks d)"
  by (auto simp: list_rows_def search_hits_def split: if_splits option.splits)

lemma list_rows_distinct: "tb_ok (db_tasks d) \<Longrightarrow> distinct (map (\<lambda>x. fst (snd x)) (list_rows l f d))"
proof -
  assume "tb_ok (db_tasks d)"
  then have "distinct (map fst ts) \<Longrightarrow> distinct (map (\<lambda>x. fst (snd x)) (concat (map (\<lambda>(i, r). case best_hit hs i of None \<Rightarrow> [] | Some h \<Rightarrow> [(h, i, r)]) ts)))"
    for ts :: "(string \<times> task_row) list" and hs
  proof (induction ts)
    case (Cons t ts)
    have "i \<notin> fst ` set ts \<Longrightarrow> (h, i, r) \<notin> set (concat (map (\<lambda>(i, r). case best_hit hs i of None \<Rightarrow> [] | Some h \<Rightarrow> [(h, i, r)]) ts))" for h i r
      by (auto split: option.splits intro: rev_image_eqI)
    with Cons show ?case by (cases t) (force split: option.splits)
  qed simp
  then show ?thesis using \<open>tb_ok (db_tasks d)\<close>
    by (simp add: list_rows_def search_hits_def tb_ok_def comp_def case_prod_beta)
qed

lemma known_order_length: "known_order order \<Longrightarrow> length order \<le> 12"
  by (auto simp: known_order_def taskOrders_def task_order_defs)

lemma cursor_json_length:
  assumes "length (tu_Order c) \<le> 12" "length (tu_Key c) \<le> 256" "length (tu_ID c) \<le> 36" "length (show_int (tu_Rank c)) \<le> 8" "length (number (tu_Score c)) \<le> 32"
  shows "length (cursor_json number c) \<le> 4096"
proof -
  have k: "length (marshal_string ''o'') \<le> 8" "length (marshal_string ''k'') \<le> 8" "length (marshal_string ''r'') \<le> 8"
    "length (marshal_string ''s'') \<le> 8" "length (marshal_string ''id'') \<le> 14"
    using marshal_string_length [of "''o''"] marshal_string_length [of "''k''"] marshal_string_length [of "''r''"]
      marshal_string_length [of "''s''"] marshal_string_length [of "''id''"] by simp_all
  have v: "length (marshal_string (tu_Order c)) \<le> 74" "length (marshal_string (tu_Key c)) \<le> 1538" "length (marshal_string (tu_ID c)) \<le> 218"
    using marshal_string_length [of "tu_Order c"] marshal_string_length [of "tu_Key c"] marshal_string_length [of "tu_ID c"] assms(1-3) by simp_all
  show ?thesis unfolding cursor_json_def using k v assms(4,5) by simp
qed

lemma row_cursor_survives:
  assumes "rows_ok d" "x \<in> set (list_rows l f d)" "known_order order" "cursors_kept e l f order d"
  shows "decodeTaskCursor l (encode_cursor l (row_cursor order (taskQueryDigest e (ftsQuote (fl_Query f))) x)) order
    = Inr (row_cursor order (taskQueryDigest e (ftsQuote (fl_Query f))) x)"
proof -
  obtain h i r where x: "x = (h, i, r)" by (cases x) auto
  let ?c = "row_cursor order (taskQueryDigest e (ftsQuote (fl_Query f))) x"
  have "(i, r) \<in> set (db_tasks d)" using assms(2) list_rows_in unfolding x by blast
  with assms(1) have i: "is_id i" "length (tc_Title (tk_Content (tr_body r))) \<le> 256" "length (updated_key r) \<le> 64"
    by (auto simp: rows_ok_def list_all_iff MaxTaskTitleBytes_def)
  have c: "tu_ID ?c = i" "tu_Order ?c = order" "length (tu_Key ?c) \<le> 256" "0 \<le> tu_Rank ?c \<and> tu_Rank ?c \<le> 7"
    using i taskStateRank_range by (auto simp: x row_cursor_def taskQueryDigest_def)
  have "length (cursor_json (le_number l) ?c) \<le> 4096"
  proof (rule cursor_json_length)
    show "length (le_number l (tu_Score ?c)) \<le> 32" using assms(4) by (simp add: cursors_kept_def)
    show "length (show_int (tu_Rank ?c)) \<le> 8" using c(4) show_int_length [of "tu_Rank ?c"] by simp
  qed (use c i(1) is_id_ascii_36 known_order_length [OF assms(3)] in auto)
  moreover have "le_cursor l (cursor_json (le_number l) ?c) = Some ?c" using assms(2,4) by (simp add: cursors_kept_def Let_def)
  ultimately show ?thesis using c i(1) assms(3) by (auto simp: decodeTaskCursor_def encode_cursor_def RawURL_round_trip known_order_def)
qed

section \<open>Reading a listing to its end\<close>

text \<open>The client of a listing: the filter stays, the cursor of a page goes into the next call.\<close>

definition client_page :: "TaskPage \<Rightarrow> TaskSummary list \<times> string option" where
  "client_page p = (tp_Tasks p, if tp_Next p = [] then None else Some (tp_Next p))"

definition list_client :: "env \<Rightarrow> lists_env \<Rightarrow> TaskFilter \<Rightarrow> db \<Rightarrow> string \<Rightarrow> err + TaskSummary list \<times> string option" where
  "list_client e l f d c = map_sum id client_page (ListTasks e l (f\<lparr>fl_After := c\<rparr>) d)"

definition cursor_text :: "env \<Rightarrow> lists_env \<Rightarrow> TaskFilter \<Rightarrow> string \<Rightarrow> found \<Rightarrow> string" where
  "cursor_text e l f order x = (if order = TaskOrderID then fst (snd x)
     else encode_cursor l (row_cursor order (taskQueryDigest e (ftsQuote (fl_Query f))) x))"

lemma row_facts:
  assumes "rows_ok d" "(h, i, r) \<in> set (list_rows l f d)"
  shows "is_id i" "r = task_columns (tr_body r)" "tk_ID (tr_body r) = i" "validTaskState (tr_state r)"
  using assms list_rows_in [OF assms(2)] by (auto simp: rows_ok_def list_all_iff)

lemma next_cursor_text:
  assumes "rows_ok d" "x \<in> set (list_rows l f d)" "list_order f = Inr order"
  shows "next_cursor e l order (if order = taskOrderRelevance then ftsQuote (fl_Query f) else []) d x = cursor_text e l f order x"
    "cursor_text e l f order x \<noteq> []"
proof -
  obtain h i r where x: "x = (h, i, r)" by (cases x) auto
  note F = row_facts [OF assms(1) assms(2) [unfolded x]]
  have s: "tr_state r = tc_State (tk_Content (tr_body r))" by (subst F(2)) (simp add: task_columns_def)
  have t: "tk_ID (scanCurrentTask i r d) = i" "tk_Content (scanCurrentTask i r d) = tk_Content (tr_body r)" "tk_UpdatedAt (scanCurrentTask i r d) = tk_UpdatedAt (tr_body r)"
    using F(3) by (simp_all add: scanCurrentTask_def split: option.splits)
  show "next_cursor e l order (if order = taskOrderRelevance then ftsQuote (fl_Query f) else []) d x = cursor_text e l f order x"
    by (auto simp: x next_cursor_def cursor_text_def taskCursorAfter_def after_hit_def after_summary_def row_cursor_def task_summary_def t s updated_key_def
        Let_def task_order_defs)
  show "cursor_text e l f order x \<noteq> []" using is_id_nonempty [OF F(1)] by (simp add: x cursor_text_def encode_cursor_def cursor_json_def)
qed

lemma list_order_known: "list_order f = Inr order \<Longrightarrow> known_order order \<and> keyset_order order = order \<and> (order = taskOrderRelevance \<longleftrightarrow> fl_Query f \<noteq> [])"
  by (cases "fl_Query f = []") (auto simp: list_order_def Let_def known_order_def keyset_order_def taskOrders_def task_order_defs split: if_splits)

lemma list_order_after [simp]: "list_order (f\<lparr>fl_After := c\<rparr>) = list_order f"
  by (simp add: list_order_def)

definition since_of :: "env \<Rightarrow> lists_env \<Rightarrow> TaskFilter \<Rightarrow> string" where
  "since_of e l f = (if fl_UpdatedSince f = [] then [] else le_format l (whole_second (the (e_parseTime e (fl_UpdatedSince f)))))"

lemma list_fits_after [simp]: "list_fits (f\<lparr>fl_After := c\<rparr>) = list_fits f"
  by (simp add: list_fits_def fun_eq_iff)

text \<open>A call whose checks pass answers a page of the rows its cursor leaves.\<close>

lemma ListTasks_from_source:
  assumes "ListTasks e l (f\<lparr>fl_After := []\<rparr>) d = Inr p0" "list_order f = Inr order" "taskPageLimit (fl_Limit f) = Inr limit"
    "order = TaskOrderID \<Longrightarrow> c = [] \<or> is_id c" "list_source e l (f\<lparr>fl_After := c\<rparr>) order d = Inr (match, rows, after)"
  shows "ListTasks e l (f\<lparr>fl_After := c\<rparr>) d
    = Inr (list_page e l order match limit d (order_by (order_before order) (filter (\<lambda>x. after x \<and> list_fits f (since_of e l f) x) rows)))"
proof -
  have ch: "filter_checks (f\<lparr>fl_After := c\<rparr>) order = None"
    using assms(1-4) by (auto simp: ListTasks_def filter_checks_def split: if_splits option.splits)
  have st: "\<not> (fl_State f \<noteq> [] \<and> \<not> validTaskState (fl_State f))" using assms(1,3) by (auto simp: ListTasks_def split: if_splits)
  have sn: "(if fl_UpdatedSince f = [] then Inr [] else taskSinceKey e l (fl_UpdatedSince f)) = Inr (since_of e l f)"
    using assms(1-3) st by (auto simp: ListTasks_def since_of_def taskSinceKey_def split: if_splits option.splits sum.splits)
  show ?thesis unfolding ListTasks_def using assms(2,3,5) ch st sn by (cases "fl_UpdatedSince f = []") simp_all
qed

text \<open>The source after a cursor: the same rows, cut by the keyset condition.\<close>

lemma list_source_from:
  assumes "ListTasks e l (f\<lparr>fl_After := []\<rparr>) d = Inr p0" "list_order f = Inr order" "rows_ok d" "cursors_kept e l f order d"
    and p: "p = None \<and> c = [] \<or> (\<exists>x \<in> set (list_rows l f d). p = Some (row_cursor order (taskQueryDigest e (ftsQuote (fl_Query f))) x) \<and> c = cursor_text e l f order x)"
  shows "\<exists>after. list_source e l (f\<lparr>fl_After := c\<rparr>) order d
      = Inr (if order = taskOrderRelevance then ftsQuote (fl_Query f) else [], list_rows l f d, after)
    \<and> (\<forall>y \<in> set (list_rows l f d). after y \<longleftrightarrow> (case p of None \<Rightarrow> True | Some q \<Rightarrow> keyset_condition order q y))
    \<and> (order = TaskOrderID \<longrightarrow> c = [] \<or> is_id c)"
proof -
  note O = list_order_known [OF assms(2)]
  obtain p1 where first: "list_source e l (f\<lparr>fl_After := []\<rparr>) order d = Inr p1"
    using assms(1,2) by (auto simp: ListTasks_def split: if_splits sum.splits option.splits)
  have rid: "order = taskOrderRelevance \<Longrightarrow> order \<noteq> TaskOrderID" by (simp add: task_order_defs)
  show ?thesis
  proof (cases p)
    case None
    then have c: "c = []" using p by blast
    have pos: "[] < i" if "(h, i, r) \<in> set (list_rows l f d)" for h i r
      using row_facts(1) [OF assms(3) that] is_id_nonempty by (cases i) auto
    have "\<forall>y \<in> set (list_rows l f d). case y of (_, i, _) \<Rightarrow> [] < i" using pos by auto
    then show ?thesis using first O rid None unfolding c
      by (auto simp: list_source_def list_rows_def Let_def split: if_splits)
  next
    case (Some q)
    with p obtain x where x: "x \<in> set (list_rows l f d)" "q = row_cursor order (taskQueryDigest e (ftsQuote (fl_Query f))) x" "c = cursor_text e l f order x" by auto
    note ne = next_cursor_text(2) [OF assms(3) x(1) assms(2), of e]
    obtain h i r where xs: "x = (h, i, r)" by (cases x) auto
    have i: "is_id i" using row_facts(1) [OF assms(3) x(1) [unfolded xs]] .
    show ?thesis
    proof (cases "order = TaskOrderID")
      case True
      then have "c = i" by (simp add: x(3) cursor_text_def xs)
      with True i Some O show ?thesis
        by (auto simp: list_source_def list_rows_def Let_def x(2) xs keyset_condition_def row_cursor_def task_order_defs)
    next
      case False
      then have "c = encode_cursor l q" by (simp add: x(2,3) cursor_text_def)
      with row_cursor_survives [OF assms(3) x(1) _ assms(4)] O x(2) have dec: "decodeTaskCursor l c order = Inr q" by simp
      have k: "order = taskOrderRelevance \<Longrightarrow> tu_Key q = taskQueryDigest e (ftsQuote (fl_Query f))" by (simp add: x(2) xs row_cursor_def)
      show ?thesis using first O False Some dec k ne unfolding x(3) [symmetric]
        by (auto simp: list_source_def list_rows_def Let_def keyset_condition_def split: if_splits)
    qed
  qed
qed

lemma list_page_paged:
  assumes "rows_ok d" "list_order f = Inr order" "set rows \<subseteq> set (list_rows l f d)" "0 < limit"
  shows "client_page (list_page e l order (if order = taskOrderRelevance then ftsQuote (fl_Query f) else []) limit d rows)
    = paged limit (task_summary d) (cursor_text e l f order) rows"
proof -
  have g: "take limit (take (limit + 1) rows) = take limit rows" by (simp add: min_def)
  show ?thesis
  proof (cases "limit < length rows")
    case True
    let ?x = "rows ! (limit - 1)"
    from True have "take (limit + 1) rows ! (limit - 1) = ?x" "?x \<in> set rows" using assms(4) by simp_all
    moreover have "?x \<in> set (list_rows l f d)" using calculation(2) assms(3) by blast
    ultimately show ?thesis using True g next_cursor_text [OF assms(1) _ assms(2), of ?x l e]
      by (auto simp: client_page_def list_page_def paged_def Let_def)
  next
    case False
    with g show ?thesis by (simp add: client_page_def list_page_def paged_def Let_def)
  qed
qed

lemma taskPageLimit_pos: "taskPageLimit n = Inr k \<Longrightarrow> 0 < k \<and> k \<le> 100"
  by (auto simp: taskPageLimit_def split: if_splits)

text \<open>The rows in order, cut into pages and put together again.\<close>

lemma listing_read:
  assumes "ListTasks e l (f\<lparr>fl_After := []\<rparr>) d = Inr p0" "list_order f = Inr order" "rows_ok d" "cursors_kept e l f order d"
  shows "\<exists>rows. follow (length (db_tasks d) + 1) (list_client e l f d) [] = Some (Inr (map (task_summary d) rows))
    \<and> sorted_wrt (order_before order) rows \<and> distinct (map (\<lambda>(_, i, _). i) rows)
    \<and> set rows = {x \<in> set (list_rows l f d). list_fits f (since_of e l f) x}"
proof -
  note O = list_order_known [OF assms(2)]
  obtain limit where lim: "taskPageLimit (fl_Limit f) = Inr limit" using assms(1) by (auto simp: ListTasks_def split: sum.splits)
  have ko: "keyset_order order = order" using O by blast
  let ?all = "list_rows l f d" and ?fit = "list_fits f (since_of e l f)"
  let ?rows = "filter ?fit ?all" and ?dig = "taskQueryDigest e (ftsQuote (fl_Query f))"
  have tb: "tb_ok (db_tasks d)" using assms(3) by (simp add: rows_ok_def)
  have da: "distinct (map (\<lambda>x. fst (snd x)) ?all)" by (rule list_rows_distinct [OF tb])
  have dr: "distinct (map (\<lambda>x. fst (snd x)) ?rows)" using da by (rule distinct_map_filter)
  have id_of: "(\<lambda>(_, i, _). i) = (\<lambda>x :: found. fst (snd x))" by auto
  have len: "length ?rows < length (db_tasks d) + 1"
  proof -
    have "(\<lambda>x. fst (snd x)) ` set ?rows \<subseteq> fst ` set (db_tasks d)" using list_rows_in by force
    then have "card ((\<lambda>x. fst (snd x)) ` set ?rows) \<le> card (fst ` set (db_tasks d))" by (intro card_mono) auto
    also have "\<dots> \<le> length (db_tasks d)" using card_image_le [of "set (db_tasks d)" fst] card_length [of "db_tasks d"] by simp
    finally show ?thesis using dr distinct_card [OF dr] by simp
  qed
  have "follow (length (db_tasks d) + 1) (list_client e l f d) [] = Some (Inr (map (task_summary d) (order_by (order_before (keyset_order order)) ?rows)))"
  proof (rule listing.follow_all [where order = order and digest = ?dig and k = limit and enc = "cursor_text e l f order"])
    fix c q
    assume "q = None \<and> c = [] \<or> (\<exists>x \<in> set ?rows. q = Some (row_cursor (keyset_order order) ?dig x) \<and> c = cursor_text e l f order x)"
    then have q: "q = None \<and> c = [] \<or> (\<exists>x \<in> set ?all. q = Some (row_cursor order ?dig x) \<and> c = cursor_text e l f order x)" using O by auto
    have k: "0 < limit" using taskPageLimit_pos [OF lim] by blast
    from list_source_from [OF assms q] obtain after
      where src: "list_source e l (f\<lparr>fl_After := c\<rparr>) order d = Inr (if order = taskOrderRelevance then ftsQuote (fl_Query f) else [], ?all, after)"
        and af: "\<forall>y \<in> set ?all. after y \<longleftrightarrow> (case q of None \<Rightarrow> True | Some p \<Rightarrow> keyset_condition order p y)"
        and i: "order = TaskOrderID \<Longrightarrow> c = [] \<or> is_id c" by blast
    have "filter (\<lambda>x. after x \<and> ?fit x) ?all = filter (\<lambda>y. case q of None \<Rightarrow> True | Some p \<Rightarrow> keyset_condition order p y) ?rows"
      using af by (auto simp: filter_filter intro!: filter_cong)
    then have ord: "order_by (order_before order) (filter (\<lambda>x. after x \<and> ?fit x) ?all) = listing.remaining order (order_by (order_before order) ?rows) q"
      unfolding listing.remaining_def [of order] unfolding ko using listing.order_by_filter [OF dr, of order] ko by simp
    have L: "ListTasks e l (f\<lparr>fl_After := c\<rparr>) d = Inr (list_page e l order (if order = taskOrderRelevance then ftsQuote (fl_Query f) else []) limit d
        (order_by (order_before order) (filter (\<lambda>x. after x \<and> ?fit x) ?all)))"
      by (rule ListTasks_from_source [OF assms(1,2) lim _ src]) (rule i)
    have page: "set (listing.remaining order (order_by (order_before order) ?rows) q) \<subseteq> set ?all" unfolding listing.remaining_def by auto
    show "list_client e l f d c = Inr (paged limit (task_summary d) (cursor_text e l f order) (listing.remaining order (order_by (order_before (keyset_order order)) ?rows) q))"
      unfolding list_client_def L ord map_sum.simps list_page_paged [OF assms(3,2) page k] unfolding ko ..
  qed (use dr len taskPageLimit_pos [OF lim] in auto)
  moreover have "sorted_wrt (order_before order) (order_by (order_before order) ?rows)" using listing.order_by_sorted [OF dr, of order] O by simp
  moreover have "distinct (map (\<lambda>x. fst (snd x)) (order_by (order_before order) ?rows))"
  proof (rule card_distinct)
    have "card (set (map (\<lambda>x. fst (snd x)) (order_by (order_before order) ?rows))) = card (set (map (\<lambda>x. fst (snd x)) ?rows))" by simp
    then show "card (set (map (\<lambda>x. fst (snd x)) (order_by (order_before order) ?rows))) = length (map (\<lambda>x. fst (snd x)) (order_by (order_before order) ?rows))"
      using distinct_card [OF dr] by simp
  qed
  ultimately show ?thesis using O unfolding id_of by (intro exI [of _ "order_by (order_before order) ?rows"]) simp
qed

text \<open>C8: A listing is read whole. A client that follows the cursors of an accepted listing, in any of the orders or
  by relevance, gets each task that fits the filter exactly once, in that order, and no other, after at most as
  many pages as the board has tasks and one more.\<close>

theorem listing_is_read_whole:
  assumes "ListTasks e l (f\<lparr>fl_After := []\<rparr>) d = Inr p0" "list_order f = Inr order" "rows_ok d" "cursors_kept e l f order d"
  shows "\<exists>rows. follow (length (db_tasks d) + 1) (list_client e l f d) [] = Some (Inr (map (task_summary d) rows))
    \<and> sorted_wrt (order_before order) rows \<and> distinct (map (\<lambda>(_, i, _). i) rows)
    \<and> set rows = {x \<in> set (list_rows l f d). list_fits f (since_of e l f) x}"
  by (rule listing_read [OF assms])

text \<open>A board of two tasks, read newest first in pages of one.\<close>

definition listed_task :: "nat \<Rightarrow> string \<Rightarrow> Task" where
  "listed_task n stamp = \<lparr>tk_ID = ex_id n, tk_Revision = 1, tk_Coordination = None, tk_Content = ex_content, tk_CreatedAt = stamp, tk_UpdatedAt = stamp\<rparr>"

definition listed_db :: db where
  "listed_db = (new_hub [] [])\<lparr>db_tasks := map (\<lambda>(n, stamp). (ex_id n, task_columns (listed_task n stamp))) [(1, ''a''), (2, ''b'')]\<rparr>"

definition newest_first :: TaskFilter where
  "newest_first = \<lparr>fl_State = [], fl_Assignee = None, fl_Epic = [], fl_IncludeArchived = False, fl_Query = [], fl_UpdatedSince = [],
     fl_Order = TaskOrderUpdatedDesc, fl_After = [], fl_Limit = 1\<rparr>"

definition listed_row :: "nat \<Rightarrow> string \<Rightarrow> found" where
  "listed_row n stamp = (no_hit, ex_id n, task_columns (listed_task n stamp))"

definition listed_cursor :: "nat \<Rightarrow> string \<Rightarrow> taskCursor" where
  "listed_cursor n stamp = \<lparr>tu_Order = TaskOrderUpdatedDesc, tu_Key = stamp, tu_Rank = 0, tu_Score = 0, tu_ID = ex_id n\<rparr>"

definition listed_env :: lists_env where
  "listed_env = \<lparr>le_number = (\<lambda>_. ''0''), le_cursor = (\<lambda>s. find (\<lambda>c. cursor_json (\<lambda>_. ''0'') c = s) [listed_cursor 1 ''a'', listed_cursor 2 ''b'']),
     le_format = (\<lambda>_. []), le_match = (\<lambda>_ _. [])\<rparr>"

lemma listed_rows: "list_rows listed_env newest_first listed_db = [listed_row 1 ''a'', listed_row 2 ''b'']"
  by (simp add: list_rows_def newest_first_def listed_db_def listed_row_def)

lemma listed_columns: "updated_key (task_columns (listed_task n stamp)) = stamp" "tr_state (task_columns (listed_task n stamp)) = tc_State ex_content"
  "tc_Title (tk_Content (tr_body (task_columns (listed_task n stamp)))) = tc_Title ex_content" "tr_archived (task_columns (listed_task n stamp)) = tc_Archived ex_content"
  by (simp_all add: updated_key_def listed_task_def task_columns_def)

lemma listed_json: "cursor_json number (listed_cursor 1 ''a'') \<noteq> cursor_json number (listed_cursor 2 ''b'')"
proof -
  have "marshal_string ''a'' = [CHR 34, CHR ''a'', CHR 34]" "marshal_string ''b'' = [CHR 34, CHR ''b'', CHR 34]" by code_simp+
  then show ?thesis by (simp add: cursor_json_def listed_cursor_def)
qed

lemma listed_cursors_kept: "cursors_kept e listed_env newest_first TaskOrderUpdatedDesc listed_db"
proof -
  have "row_cursor TaskOrderUpdatedDesc q (listed_row n stamp) = listed_cursor n stamp" for q n stamp
    by (simp add: row_cursor_def listed_row_def listed_cursor_def listed_columns task_order_defs)
  then show ?thesis using listed_json [of "\<lambda>_. ''0''"] unfolding cursors_kept_def listed_rows
    by (simp add: listed_env_def Let_def)
qed

lemma listed_rows_ok: "rows_ok listed_db"
  by (simp add: rows_ok_def listed_db_def tb_ok_def listed_columns)
     (simp add: listed_task_def ex_content_def validTaskState_def TaskStates_def MaxTaskTitleBytes_def)

theorem listing_is_read_whole_witness:
  "\<exists>rows. follow 3 (list_client (ex_env 0) listed_env newest_first listed_db) [] = Some (Inr (map (task_summary listed_db) rows))
    \<and> map (\<lambda>(_, i, _). i) rows = [ex_id 2, ex_id 1]"
proof -
  have o: "list_order newest_first = Inr TaskOrderUpdatedDesc" by (simp add: list_order_def newest_first_def taskOrders_def Let_def task_order_defs)
  obtain p where p: "ListTasks (ex_env 0) listed_env (newest_first\<lparr>fl_After := []\<rparr>) listed_db = Inr p"
    using o by (simp add: ListTasks_def taskPageLimit_def filter_checks_def list_source_def newest_first_def task_order_defs)
  from listing_is_read_whole [OF p o listed_rows_ok listed_cursors_kept] obtain rows
    where f: "follow 3 (list_client (ex_env 0) listed_env newest_first listed_db) [] = Some (Inr (map (task_summary listed_db) rows))"
      and s: "sorted_wrt (order_before TaskOrderUpdatedDesc) rows"
      and t: "set rows = {x \<in> set [listed_row 1 ''a'', listed_row 2 ''b'']. list_fits newest_first (since_of (ex_env 0) listed_env newest_first) x}"
    unfolding listed_rows by (auto simp: listed_db_def numeral_3_eq_3)
  have "list_fits newest_first (since_of (ex_env 0) listed_env newest_first) (listed_row n stamp)" for n stamp
    by (simp add: list_fits_def newest_first_def since_of_def listed_row_def listed_columns ex_content_def)
  with t have t2: "set rows = set [listed_row 2 ''b'', listed_row 1 ''a'']" by auto
  have "sorted_wrt (order_before TaskOrderUpdatedDesc) [listed_row 2 ''b'', listed_row 1 ''a'']"
    by (simp add: order_before_def listed_row_def listed_columns task_order_defs)
  with listing.sorted_lists_equal [of TaskOrderUpdatedDesc] s t2 have "rows = [listed_row 2 ''b'', listed_row 1 ''a'']"
    by (simp add: keyset_order_def known_order_def taskOrders_def)
  with f show ?thesis by (intro exI [of _ rows]) (simp add: listed_row_def)
qed

section \<open>The counts\<close>

lemma count_by_key:
  assumes "finite K"
  shows "(\<Sum>k \<in> K. length (filter (\<lambda>x. f x = k) xs)) = length (filter (\<lambda>x. f x \<in> K) xs)"
proof (induction xs)
  case (Cons x xs)
  have "(\<Sum>k \<in> K. length (filter (\<lambda>x. f x = k) (x # xs))) = (\<Sum>k \<in> K. (if f x = k then 1 else 0) + length (filter (\<lambda>x. f x = k) xs))"
    by (rule sum.cong) auto
  also have "\<dots> = (if f x \<in> K then 1 else 0) + length (filter (\<lambda>x. f x \<in> K) xs)"
    using assms Cons by (simp add: sum.distrib)
  finally show ?case by simp
qed simp

lemma count_groups_sum:
  "sum_list (map snd (filter (\<lambda>(k, n). P k) (count_groups rows))) = int (length (filter (\<lambda>r. P (tr_state r, tr_archived r)) rows))"
proof -
  let ?f = "\<lambda>r. (tr_state r, tr_archived r)"
  let ?K = "{k \<in> ?f ` set rows. P k}"
  have "sum_list (map snd (filter (\<lambda>(k, n). P k) (count_groups rows)))
      = sum_list (map (\<lambda>k. int (length (filter (\<lambda>r. ?f r = k) rows))) (filter P (remdups (map ?f rows))))"
    by (simp add: count_groups_def filter_map comp_def)
  also have "\<dots> = (\<Sum>k \<in> ?K. int (length (filter (\<lambda>r. ?f r = k) rows)))"
    by (subst sum_list_distinct_conv_sum_set, simp) (rule sum.cong, auto)
  also have "\<dots> = int (length (filter (\<lambda>r. ?f r \<in> ?K) rows))"
    using count_by_key [of ?K ?f rows] by (simp flip: of_nat_sum)
  also have "filter (\<lambda>r. ?f r \<in> ?K) rows = filter (\<lambda>r. P (?f r)) rows" by (rule filter_cong) auto
  finally show ?thesis .
qed

lemma add_group_sel:
  "tn_Total (add_group out g) = tn_Total out + snd g"
  "tn_Archived (add_group out g) = tn_Archived out + (if snd (fst g) then snd g else 0)"
  "map_of (tn_Counts out) st = Some m \<Longrightarrow>
    map_of (tn_Counts (add_group out g)) st = Some (m + (if fst (fst g) = st \<and> \<not> snd (fst g) then snd g else 0))"
  by (cases g; cases "fst g"; simp add: add_group_def)+

lemma add_groups:
  "tn_Total (foldl add_group out gs) = tn_Total out + sum_list (map snd gs)"
  "tn_Archived (foldl add_group out gs) = tn_Archived out + sum_list (map snd (filter (\<lambda>(k, n). snd k) gs))"
  by (induction gs arbitrary: out) (simp_all add: add_group_sel case_prod_beta)

lemma add_groups_count:
  "map_of (tn_Counts out) st = Some m \<Longrightarrow>
    map_of (tn_Counts (foldl add_group out gs)) st = Some (m + sum_list (map snd (filter (\<lambda>(k, n). fst k = st \<and> \<not> snd k) gs)))"
proof (induction gs arbitrary: out m)
  case (Cons g gs)
  from Cons.IH [OF add_group_sel(3) [OF Cons.prems, of g]] show ?case by (simp add: case_prod_beta)
qed simp

lemma initial_counts: "st \<in> set TaskStates \<Longrightarrow> map_of (map (\<lambda>st. (st, 0 :: int)) TaskStates) st = Some 0"
  by (simp add: map_of_map_restrict)

definition count_rows :: "TaskFilter \<Rightarrow> db \<Rightarrow> task_row list" where
  "count_rows f d = filter (\<lambda>r. (fl_Assignee f = None \<or> tr_assignee r = assignee_column (fl_Assignee f)) \<and> (fl_Epic f = [] \<or> tr_epic r = fl_Epic f))
     (map snd (db_tasks d))"

lemma CountTasks_counts:
  assumes "CountTasks f d = Inr out"
  shows "tn_Total out = int (length (count_rows f d))" "tn_Archived out = int (length (filter tr_archived (count_rows f d)))"
    "st \<in> set TaskStates \<Longrightarrow> map_of (tn_Counts out) st = Some (int (length (filter (\<lambda>r. tr_state r = st \<and> \<not> tr_archived r) (count_rows f d))))"
proof -
  from assms have out: "out = foldl add_group \<lparr>tn_Counts = map (\<lambda>st. (st, 0)) TaskStates, tn_Archived = 0, tn_Total = 0\<rparr> (count_groups (count_rows f d))"
    by (auto simp: CountTasks_def count_rows_def split: if_splits)
  show "tn_Total out = int (length (count_rows f d))"
    using count_groups_sum [of "\<lambda>_. True" "count_rows f d"] by (simp add: out add_groups)
  show "tn_Archived out = int (length (filter tr_archived (count_rows f d)))"
    using count_groups_sum [of snd "count_rows f d"] by (simp add: out add_groups)
  show "map_of (tn_Counts out) st = Some (int (length (filter (\<lambda>r. tr_state r = st \<and> \<not> tr_archived r) (count_rows f d))))" if "st \<in> set TaskStates"
    using count_groups_sum [of "\<lambda>k. fst k = st \<and> \<not> snd k" "count_rows f d"] that by (simp add: out add_groups_count initial_counts)
qed

text \<open>The counts agree with the listings. For a state of the board's, the count of the open board is
  the number of tasks that the listing of that state reads to its end, under the same assignee and epic;
  the archived and the counted tasks are together the total.\<close>

theorem counts_agree_with_listings:
  assumes "CountTasks f d = Inr out" "st \<in> set TaskStates" "fl_State f = st" "fl_Query f = []" "fl_UpdatedSince f = []" "\<not> fl_IncludeArchived f"
    "ListTasks e l (f\<lparr>fl_After := []\<rparr>) d = Inr p0" "list_order f = Inr order" "rows_ok d" "cursors_kept e l f order d"
  shows "\<exists>listed. follow (length (db_tasks d) + 1) (list_client e l f d) [] = Some (Inr listed)
      \<and> map_of (tn_Counts out) st = Some (int (length listed))
      \<and> tn_Total out = tn_Archived out + (\<Sum>s \<leftarrow> TaskStates. the (map_of (tn_Counts out) s))"
proof -
  from listing_read [OF assms(7-10)] obtain rows
    where f: "follow (length (db_tasks d) + 1) (list_client e l f d) [] = Some (Inr (map (task_summary d) rows))"
      and r: "distinct (map (\<lambda>(_, i, _). i) rows)" "set rows = {x \<in> set (list_rows l f d). list_fits f (since_of e l f) x}" by blast
  let ?fit = "list_fits f (since_of e l f)"
  have tb: "distinct (map fst (db_tasks d))" using assms(9) by (simp add: rows_ok_def tb_ok_def)
  have dr: "distinct rows" using r(1) by (simp add: distinct_map)
  have da: "distinct (list_rows l f d)" using list_rows_distinct [of d l f] tb by (simp add: tb_ok_def distinct_map)
  have ne: "st \<noteq> []" using assms(2) by (auto simp: TaskStates_def)
  have "length rows = card (set rows)" using distinct_card [OF dr] by simp
  also have "\<dots> = length (filter ?fit (list_rows l f d))"
    using distinct_card [of "filter ?fit (list_rows l f d)"] da r(2) by simp
  also have "\<dots> = length (filter (\<lambda>r. tr_state r = st \<and> \<not> tr_archived r) (count_rows f d))"
    using assms(3-6) ne
    by (simp add: list_rows_def list_fits_def since_of_def count_rows_def filter_map filter_filter comp_def case_prod_beta conj_ac)
  finally have n: "length rows = length (filter (\<lambda>r. tr_state r = st \<and> \<not> tr_archived r) (count_rows f d))" .
  have valid: "\<forall>r \<in> set (count_rows f d). tr_state r \<in> set TaskStates"
    using assms(9) by (auto simp: count_rows_def rows_ok_def list_all_iff validTaskState_def)
  have "filter (\<lambda>r. \<not> tr_archived r \<and> tr_state r \<in> set TaskStates) (count_rows f d) = filter (\<lambda>r. \<not> tr_archived r) (count_rows f d)"
    using valid by (auto intro!: filter_cong)
  note all_valid = arg_cong [where f = length, OF this]
  have "(\<Sum>s \<leftarrow> TaskStates. the (map_of (tn_Counts out) s)) = (\<Sum>s \<in> set TaskStates. int (length (filter (\<lambda>r. tr_state r = s \<and> \<not> tr_archived r) (count_rows f d))))"
    using CountTasks_counts(3) [OF assms(1)] by (subst sum_list_distinct_conv_sum_set) (simp_all add: TaskStates_def)
  also have "\<dots> = (\<Sum>s \<in> set TaskStates. int (length (filter (\<lambda>r. tr_state r = s) (filter (\<lambda>r. \<not> tr_archived r) (count_rows f d)))))"
    by (simp add: filter_filter conj_commute)
  also have "\<dots> = int (length (filter (\<lambda>r. \<not> tr_archived r) (count_rows f d)))"
    using count_by_key [of "set TaskStates" tr_state "filter (\<lambda>r. \<not> tr_archived r) (count_rows f d)"] all_valid by (simp flip: of_nat_sum)
  finally have "(\<Sum>s \<leftarrow> TaskStates. the (map_of (tn_Counts out) s)) = int (length (filter (\<lambda>r. \<not> tr_archived r) (count_rows f d)))" .
  moreover have "length (count_rows f d) = length (filter tr_archived (count_rows f d)) + length (filter (\<lambda>r. \<not> tr_archived r) (count_rows f d))"
    by (rule sum_length_filter_compl [symmetric])
  ultimately show ?thesis using f n CountTasks_counts [OF assms(1)] assms(2) by (intro exI [of _ "map (task_summary d) rows"]) simp
qed

theorem counts_agree_with_listings_witness:
  "\<exists>out listed. CountTasks (newest_first\<lparr>fl_State := ''READY''\<rparr>) listed_db = Inr out
    \<and> follow 3 (list_client (ex_env 0) listed_env (newest_first\<lparr>fl_State := ''READY''\<rparr>) listed_db) [] = Some (Inr listed)
    \<and> map_of (tn_Counts out) ''READY'' = Some (int (length listed))"
proof -
  let ?f = "newest_first\<lparr>fl_State := ''READY''\<rparr>"
  have o: "list_order ?f = Inr TaskOrderUpdatedDesc" by (simp add: list_order_def newest_first_def taskOrders_def Let_def task_order_defs)
  obtain p where p: "ListTasks (ex_env 0) listed_env (?f\<lparr>fl_After := []\<rparr>) listed_db = Inr p"
    using o by (simp add: ListTasks_def taskPageLimit_def filter_checks_def list_source_def newest_first_def task_order_defs validTaskState_def TaskStates_def)
  obtain out where c: "CountTasks ?f listed_db = Inr out" by (simp add: CountTasks_def newest_first_def)
  have k: "cursors_kept (ex_env 0) listed_env ?f TaskOrderUpdatedDesc listed_db"
    using listed_cursors_kept [of "ex_env 0"] by (simp add: cursors_kept_def list_rows_def newest_first_def)
  have f: "fl_Query ?f = []" "fl_UpdatedSince ?f = []" "\<not> fl_IncludeArchived ?f" "fl_State ?f = ''READY''" "''READY'' \<in> set TaskStates"
    by (simp_all add: newest_first_def TaskStates_def)
  have n: "length (db_tasks listed_db) + 1 = 3" by (simp add: listed_db_def)
  from counts_agree_with_listings [OF c f(5,4,1,2,3) p o listed_rows_ok k] c show ?thesis unfolding n by blast
qed

end
