(* ===== verification/TaskLogProps.thy ===== *)
theory TaskLogProps
  imports TaskListProps
begin

text \<open>
  What a client gets that reads a task's history, its comments, or the feed of state changes to the end.
\<close>

section \<open>Comments and history in pages\<close>

lemma reachable_board: "reachable d \<Longrightarrow> task_board_ok d"
  using reachable_team_inv team_invD by (auto simp: ledger_inv_def)

lemma reachable_comments_ok: "reachable d \<Longrightarrow> comments_ok d"
proof (induction rule: reachable.induct)
  case (start project meta)
  then show ?case by (simp add: comments_ok_def)
next
  case (acted d e a d')
  from act_grows [OF acted(3)] acted.IH show ?case by (simp add: log_grows_def)
next
  case (settings d meta)
  then show ?case by (simp add: comments_ok_def)
qed

interpretation upward: keyset "\<lambda>c c'. cm_Sequence c < cm_Sequence c'" cm_Sequence cm_Sequence "\<lambda>n c. n < cm_Sequence c"
  by unfold_locales auto

interpretation downward: keyset "\<lambda>c c'. cm_Sequence c' < cm_Sequence c" cm_Sequence cm_Sequence "\<lambda>n c. cm_Sequence c < n"
  by unfold_locales auto

interpretation versions: keyset "\<lambda>c c'. tk_Revision (ch_Task c) < tk_Revision (ch_Task c')" "\<lambda>c. tk_Revision (ch_Task c)" "\<lambda>c. tk_Revision (ch_Task c)"
  "\<lambda>n c. n < tk_Revision (ch_Task c)"
  by unfold_locales auto

definition comments_of :: "string \<Rightarrow> db \<Rightarrow> TaskComment list" where
  "comments_of tid d = filter (\<lambda>c. cm_TaskID c = tid) (db_comments d)"

lemma comments_increasing:
  assumes "comments_ok d"
  shows "sorted_wrt (\<lambda>c c'. cm_Sequence c < cm_Sequence c') (comments_of tid d)" "\<forall>c \<in> set (comments_of tid d). 0 < cm_Sequence c"
proof -
  have m: "map cm_Sequence (db_comments d) = map (\<lambda>k. int k + 1) [0..<length (db_comments d)]" using assms by (simp add: comments_ok_def)
  then have "sorted_wrt (<) (map cm_Sequence (db_comments d))" by (simp add: sorted_wrt_map sorted_wrt_iff_nth_less)
  then show "sorted_wrt (\<lambda>c c'. cm_Sequence c < cm_Sequence c') (comments_of tid d)"
    unfolding comments_of_def by (intro sorted_wrt_filter) (simp add: sorted_wrt_map)
  have "cm_Sequence ` set (db_comments d) = set (map (\<lambda>k. int k + 1) [0..<length (db_comments d)])" using arg_cong [OF m, of set] by simp
  then have "0 < cm_Sequence c" if "c \<in> set (db_comments d)" for c using imageI [OF that, of cm_Sequence] by auto
  then show "\<forall>c \<in> set (comments_of tid d). 0 < cm_Sequence c" by (simp add: comments_of_def)
qed

lemma increasing_distinct: "sorted_wrt (\<lambda>x y. f x < f y) xs \<Longrightarrow> distinct (map f xs)" for f :: "'a \<Rightarrow> int"
  by (induction xs) auto

lemma sort_key_increasing: "sorted_wrt (\<lambda>x y. f x < f y) xs \<Longrightarrow> sort_key f xs = xs" for f :: "'a \<Rightarrow> int"
proof (induction xs)
  case (Cons x xs)
  then show ?case by (cases xs) auto
qed simp

text \<open>The clients: from cursor to cursor, until a page names none.\<close>

definition comments_client :: "string \<Rightarrow> int \<Rightarrow> bool \<Rightarrow> db \<Rightarrow> int \<Rightarrow> err + TaskComment list \<times> int option" where
  "comments_client tid limit desc d c =
     map_sum id (\<lambda>p. (pc_Comments p, if pc_Next p = 0 then None else Some (pc_Next p))) (TaskCommentsOrdered tid c limit desc d)"

definition history_client :: "string \<Rightarrow> int \<Rightarrow> db \<Rightarrow> int \<Rightarrow> err + TaskChange list \<times> int option" where
  "history_client tid limit d c =
     map_sum id (\<lambda>p. (tq_Changes p, if tq_Next p = 0 then None else Some (tq_Next p))) (TaskHistory tid c limit d)"

lemma take_page:
  assumes "0 < k"
  shows "take k (take (k + 1) xs) = take k xs" "k < length (take (k + 1) xs) \<longleftrightarrow> k < length xs"
    "k < length xs \<Longrightarrow> take (k + 1) xs ! (k - 1) = xs ! (k - 1)"
  using assms by (simp_all add: min_def)

lemma comments_client_page:
  assumes "GetTask tid d = Inr t" "taskPageLimit limit = Inr k" "0 \<le> c" "\<forall>x \<in> set (comments_query tid c desc d). 0 < cm_Sequence x"
  shows "comments_client tid limit desc d c = Inr (paged k (\<lambda>x. x) cm_Sequence (comments_query tid c desc d))"
proof -
  have k: "0 < k" using taskPageLimit_pos [OF assms(2)] by blast
  have "k < length (comments_query tid c desc d) \<Longrightarrow> 0 < cm_Sequence (comments_query tid c desc d ! (k - 1))"
    using assms(4) k by (metis diff_less less_trans nth_mem zero_less_one)
  then show ?thesis using assms(1-3) take_page [OF k, of "comments_query tid c desc d"]
    by (auto simp: comments_client_def TaskCommentsOrdered_def paged_def Let_def)
qed

lemma comments_read:
  assumes "comments_ok d" "GetTask tid d = Inr t" "taskPageLimit limit = Inr k"
  shows "follow (length (db_comments d) + 1) (comments_client tid limit False d) 0 = Some (Inr (comments_of tid d))"
    "follow (length (db_comments d) + 1) (comments_client tid limit True d) 0 = Some (Inr (rev (comments_of tid d)))"
proof -
  let ?cs = "comments_of tid d"
  note S = comments_increasing [OF assms(1), of tid]
  have k: "0 < k" using taskPageLimit_pos [OF assms(3)] by blast
  have len: "length ?cs < length (db_comments d) + 1" by (simp add: comments_of_def le_imp_less_Suc)
  have d: "distinct (map cm_Sequence ?cs)" by (rule increasing_distinct [OF S(1)])
  have up: "order_by (\<lambda>c c'. cm_Sequence c < cm_Sequence c') ?cs = ?cs"
    by (rule upward.sorted_lists_equal [OF upward.order_by_sorted [OF d] S(1)]) simp
  have dn: "order_by (\<lambda>c c'. cm_Sequence c' < cm_Sequence c) ?cs = rev ?cs"
    by (rule downward.sorted_lists_equal [OF downward.order_by_sorted [OF d]]) (simp_all add: sorted_wrt_rev S(1))
  have fc: "sort_key cm_Sequence (filter (\<lambda>c. cm_TaskID c = tid \<and> P c) (db_comments d)) = filter P ?cs" for P
    using sort_key_increasing [OF sorted_wrt_filter [OF S(1), of P]] by (simp add: comments_of_def conj_commute)
  have qu: "comments_query tid c False d = filter (\<lambda>x. c < cm_Sequence x) ?cs" for c
    by (simp add: comments_query_def fc)
  have qd: "comments_query tid c True d = rev (filter (\<lambda>x. c = 0 \<or> cm_Sequence x < c) ?cs)" for c
    by (simp add: comments_query_def fc)
  have "follow (length (db_comments d) + 1) (comments_client tid limit False d) 0
      = Some (Inr (map (\<lambda>x. x) (order_by (\<lambda>c c'. cm_Sequence c < cm_Sequence c') ?cs)))"
  proof (rule upward.follow_all [where k = k and enc = cm_Sequence])
    fix c q assume q: "q = None \<and> c = 0 \<or> (\<exists>x \<in> set ?cs. q = Some (cm_Sequence x) \<and> c = cm_Sequence x)"
    have pos: "\<forall>x \<in> set (comments_query tid c False d). 0 < cm_Sequence x" using S(2) by (auto simp: qu)
    have "comments_query tid c False d = upward.remaining ?cs q"
      unfolding qu upward.remaining_def using q S(2) by (auto intro!: filter_cong)
    moreover have "0 \<le> c" using q S(2) by fastforce
    ultimately show "comments_client tid limit False d c = Inr (paged k (\<lambda>x. x) cm_Sequence (upward.remaining (order_by (\<lambda>c c'. cm_Sequence c < cm_Sequence c') ?cs) q))"
      using comments_client_page [OF assms(2,3) _ pos] unfolding up by simp
  qed (use d k len in auto)
  then show "follow (length (db_comments d) + 1) (comments_client tid limit False d) 0 = Some (Inr ?cs)" by (simp add: up)
  have "follow (length (db_comments d) + 1) (comments_client tid limit True d) 0
      = Some (Inr (map (\<lambda>x. x) (order_by (\<lambda>c c'. cm_Sequence c' < cm_Sequence c) ?cs)))"
  proof (rule downward.follow_all [where k = k and enc = cm_Sequence])
    fix c q assume q: "q = None \<and> c = 0 \<or> (\<exists>x \<in> set ?cs. q = Some (cm_Sequence x) \<and> c = cm_Sequence x)"
    have pos: "\<forall>x \<in> set (comments_query tid c True d). 0 < cm_Sequence x" using S(2) by (auto simp: qd)
    have "comments_query tid c True d = downward.remaining (rev ?cs) q"
      unfolding qd downward.remaining_def using q S(2) by (auto simp flip: rev_filter intro!: filter_cong)
    moreover have "0 \<le> c" using q S(2) by fastforce
    ultimately show "comments_client tid limit True d c = Inr (paged k (\<lambda>x. x) cm_Sequence (downward.remaining (order_by (\<lambda>c c'. cm_Sequence c' < cm_Sequence c) ?cs) q))"
      using comments_client_page [OF assms(2,3) _ pos] unfolding dn by simp
  qed (use d k len in auto)
  then show "follow (length (db_comments d) + 1) (comments_client tid limit True d) 0 = Some (Inr (rev ?cs))" by (simp add: dn)
qed

section \<open>The history\<close>

definition versions_of :: "string \<Rightarrow> db \<Rightarrow> TaskChange list" where
  "versions_of tid d = map snd (sort_key (\<lambda>((_, n), _). n) (filter (\<lambda>((i, n), _). i = tid) (db_history d)))"

lemma history_member: "board_ok d \<Longrightarrow> ((i, n), c) \<in> set (db_history d) \<Longrightarrow> tk_Revision (ch_Task c) = n"
  using board_okD(2,9) tb_mem_iff by metis

lemma versions_query:
  assumes "board_ok d"
  shows "map snd (sort_key (\<lambda>((_, n), _). n) (filter (\<lambda>((i, n), _). i = tid \<and> after < n) (db_history d)))
    = filter (\<lambda>c. after < tk_Revision (ch_Task c)) (versions_of tid d)"
proof -
  let ?f = "\<lambda>((_, n), _). n" and ?xs = "filter (\<lambda>((i, n), _). i = tid) (db_history d)"
  have "filter (\<lambda>((i, n), _). i = tid \<and> after < n) (db_history d) = filter (\<lambda>x. after < ?f x) ?xs"
    unfolding filter_filter by (rule filter_cong) auto
  then have "map snd (sort_key ?f (filter (\<lambda>((i, n), _). i = tid \<and> after < n) (db_history d)))
      = map snd (filter (\<lambda>x. after < ?f x) (sort_key ?f ?xs))" by (simp add: filter_sort)
  also have "\<dots> = map snd (filter (\<lambda>x. after < tk_Revision (ch_Task (snd x))) (sort_key ?f ?xs))"
    using history_member [OF assms] by (intro arg_cong [where f = "map snd"] filter_cong) fastforce+
  finally show ?thesis by (simp add: versions_of_def filter_map comp_def)
qed

lemma versions_revisions:
  assumes "board_ok d" "task_revision d tid = Some r"
  shows "map (\<lambda>c. tk_Revision (ch_Task c)) (versions_of tid d) = [1..r]"
proof -
  let ?f = "\<lambda>((_ :: string, n :: int), _ :: TaskChange). n" and ?xs = "filter (\<lambda>((i, n), _). i = tid) (db_history d)"
  have "map (\<lambda>c. tk_Revision (ch_Task c)) (versions_of tid d) = map ?f (sort_key ?f ?xs)"
    unfolding versions_of_def map_map using history_member [OF assms(1)] by (intro map_cong) fastforce+
  also have "\<dots> = [1..r]"
  proof (rule sorted_distinct_set_unique)
    have "distinct (map fst (db_history d))" using board_okD(2) [OF assms(1)] by (simp add: tb_ok_def)
    then have x: "distinct ?xs" "inj_on fst (set (db_history d))" by (simp_all add: distinct_map)
    have "inj_on ?f (set ?xs)" using x(2) unfolding inj_on_def by (auto 4 4)
    with x(1) show "distinct (map ?f (sort_key ?f ?xs))" by (simp add: distinct_map)
    have "((tid, n), c) \<in> set (db_history d) \<longleftrightarrow> map_of (db_history d) (tid, n) = Some c" for n c
      by (rule tb_mem_iff [OF board_okD(2) [OF assms(1)]])
    with history_completeD [OF board_okD(3) [OF assms(1)], of tid] assms(2)
    show "set (map ?f (sort_key ?f ?xs)) = set [1..r]" by (force simp: image_iff)
  qed simp_all
  finally show ?thesis .
qed

lemma history_read:
  assumes "board_ok d" "GetTask tid d = Inr t" "taskPageLimit limit = Inr k"
  shows "follow (nat (tk_Revision t) + 1) (history_client tid limit d) 0 = Some (Inr (versions_of tid d))"
proof -
  let ?vs = "versions_of tid d" and ?rev = "\<lambda>c. tk_Revision (ch_Task c)"
  have "readTask tid d = Inr t" using assms(2) by (simp add: GetTask_def split: if_splits)
  then have r: "map ?rev ?vs = [1..tk_Revision t]" using versions_revisions [OF assms(1)] readTask_ok(2) [OF assms(1)] by blast
  have len: "length ?vs < nat (tk_Revision t) + 1" using arg_cong [OF r, of length] by simp
  have "sorted_wrt (<) (map ?rev ?vs)" unfolding r by (simp add: sorted_wrt_iff_nth_less)
  then have S: "sorted_wrt (\<lambda>c c'. ?rev c < ?rev c') ?vs" by (simp add: sorted_wrt_map)
  have pos: "0 < ?rev c" if "c \<in> set ?vs" for c using imageI [OF that, of ?rev] r by (metis image_set set_upto atLeastAtMost_iff zero_less_one less_le_trans)
  have d: "distinct (map ?rev ?vs)" unfolding r by simp
  have o: "order_by (\<lambda>c c'. ?rev c < ?rev c') ?vs = ?vs"
    by (rule versions.sorted_lists_equal [OF versions.order_by_sorted [OF d] S]) simp
  have k: "0 < k" using taskPageLimit_pos [OF assms(3)] by blast
  have "follow (nat (tk_Revision t) + 1) (history_client tid limit d) 0 = Some (Inr (map (\<lambda>x. x) (order_by (\<lambda>c c'. ?rev c < ?rev c') ?vs)))"
  proof (rule versions.follow_all [where k = k and enc = ?rev])
    fix c q assume q: "q = None \<and> c = 0 \<or> (\<exists>x \<in> set ?vs. q = Some (?rev x) \<and> c = ?rev x)"
    let ?q = "filter (\<lambda>x. c < ?rev x) ?vs"
    have "?q = versions.remaining ?vs q" unfolding versions.remaining_def using q pos by (auto intro!: filter_cong)
    moreover have "k < length ?q \<Longrightarrow> 0 < ?rev (?q ! (k - 1))"
      using pos k nth_mem [of "k - 1" ?q] by auto
    moreover have "0 \<le> c" using q pos by fastforce
    ultimately show "history_client tid limit d c = Inr (paged k (\<lambda>x. x) ?rev (versions.remaining (order_by (\<lambda>c c'. ?rev c < ?rev c') ?vs) q))"
      using assms(2,3) take_page [OF k, of ?q] unfolding o
      by (auto simp: history_client_def TaskHistory_def versions_query [OF assms(1)] paged_def Let_def)
  qed (use d k len in auto)
  then show ?thesis by (simp add: o)
qed

text \<open>A task's past is read whole. In every reachable state, a client that follows the cursors of a task's
  history gets its versions from the first to the current revision, each once; of the comments it gets
  the task's in order of their sequence, and newest first exactly the reverse.\<close>

theorem task_past_is_read_whole:
  assumes "reachable d" "GetTask tid d = Inr t" "taskPageLimit limit = Inr k"
  shows "\<exists>changes comments. follow (nat (tk_Revision t) + 1) (history_client tid limit d) 0 = Some (Inr changes)
    \<and> map (\<lambda>c. tk_Revision (ch_Task c)) changes = [1..tk_Revision t]
    \<and> (\<forall>c \<in> set changes. map_of (db_history d) (tid, tk_Revision (ch_Task c)) = Some c)
    \<and> comments = filter (\<lambda>c. cm_TaskID c = tid) (db_comments d)
    \<and> follow (length (db_comments d) + 1) (comments_client tid limit False d) 0 = Some (Inr comments)
    \<and> follow (length (db_comments d) + 1) (comments_client tid limit True d) 0 = Some (Inr (rev comments))
    \<and> sorted_wrt (\<lambda>c c'. cm_Sequence c < cm_Sequence c') comments"
proof -
  have b: "board_ok d" using reachable_board [OF assms(1)] by (simp add: task_board_ok_def)
  note c = reachable_comments_ok [OF assms(1)]
  have "readTask tid d = Inr t" using assms(2) by (simp add: GetTask_def split: if_splits)
  then have r: "map (\<lambda>c. tk_Revision (ch_Task c)) (versions_of tid d) = [1..tk_Revision t]"
    using versions_revisions [OF b] readTask_ok(2) [OF b] by blast
  have "map_of (db_history d) (tid, tk_Revision (ch_Task c)) = Some c" if v: "c \<in> set (versions_of tid d)" for c
  proof -
    from v obtain n where "((tid, n), c) \<in> set (db_history d)" by (auto simp: versions_of_def)
    with history_member [OF b this] tb_mem_iff [OF board_okD(2) [OF b], of "(tid, n)" c] show ?thesis by simp
  qed
  with r history_read [OF b assms(2,3)] comments_read [OF c assms(2,3)] comments_increasing(1) [OF c, of tid] show ?thesis
    by (intro exI [of _ "versions_of tid d"] exI [of _ "comments_of tid d"]) (simp add: comments_of_def)
qed

theorem task_past_is_read_whole_witness:
  "\<exists>t changes. GetTask (ex_id 0) db1 = Inr t \<and> follow (nat (tk_Revision t) + 1) (history_client (ex_id 0) 1 db1) 0 = Some (Inr changes)
    \<and> map (\<lambda>c. tk_Revision (ch_Task c)) changes = [1..tk_Revision t]"
proof -
  have "new_ids (ex_env 0) db0" by (simp add: new_ids_def)
  moreover have "act (ex_env 0) (Request (NewTask ex_content ex_user ''r1'')) db0 = Inr db1" by (simp add: as_def ex_create)
  ultimately have r: "reachable db1" by (rule reachable.acted [OF w_reachable(1)])
  obtain t where t: "GetTask (ex_id 0) db1 = Inr t" by (simp add: GetTask_def readTask_def)
  have l: "taskPageLimit 1 = Inr 1" by (simp add: taskPageLimit_def)
  from task_past_is_read_whole [OF r t l] t show ?thesis by blast
qed

section \<open>The feed\<close>

lemma feed_sorted:
  assumes "feed_ok d"
  shows "sorted_wrt (\<lambda>c c'. sc_Sequence c < sc_Sequence c') (db_state_changes d)" "foldl max 0 (map sc_Sequence (db_state_changes d)) = int (length (db_state_changes d))"
proof -
  have m: "map sc_Sequence (db_state_changes d) = map (\<lambda>k. int k + 1) [0..<length (db_state_changes d)]" using assms by (simp add: feed_ok_def)
  then have "sorted_wrt (<) (map sc_Sequence (db_state_changes d))" by (simp add: sorted_wrt_map sorted_wrt_iff_nth_less)
  then show "sorted_wrt (\<lambda>c c'. sc_Sequence c < sc_Sequence c') (db_state_changes d)" by (simp add: sorted_wrt_map)
  have "foldl max 0 (map (\<lambda>k. int k + 1) [0..<n]) = int n" for n by (induction n) simp_all
  then show "foldl max 0 (map sc_Sequence (db_state_changes d)) = int (length (db_state_changes d))" unfolding m .
qed

lemma change_row_kept:
  assumes "task_board_ok d" "map_of (db_history d) \<subseteq>\<^sub>m map_of (db_history d')" "c \<in> set (db_state_changes d)"
  shows "change_row d' c = change_row d c"
proof -
  have "(sc_TaskID c, sc_Revision c, sc_From c, sc_To c) \<in> feed_rows d"
    using assms(1,3) unfolding task_board_ok_def feed_ok_def by blast
  then obtain h where "map_of (db_history d) (sc_TaskID c, sc_Revision c) = Some h" by (auto simp: feed_rows_def)
  moreover from this assms(2) have "map_of (db_history d') (sc_TaskID c, sc_Revision c) = Some h" unfolding map_le_def by (metis domI)
  ultimately show ?thesis by (simp add: change_row_def)
qed

lemma sequence_change_row [simp]: "sc_Sequence (change_row d c) = sc_Sequence c"
  by (simp add: change_row_def)

text \<open>C40: A follower of the feed misses nothing and sees nothing twice. It reads the entries after its cursor;
  whatever happens on the hub before it reads on, the entries that are then after the old cursor are
  those it got and, after them, those after its new cursor. The latest sequence it is told is the
  number of changes so far, which no entry it got is beyond.\<close>

theorem feed_is_followed:
  assumes "reachable d" "TaskStateChanges after limit d = Inr (out, latest)" "moves\<^sup>*\<^sup>* d d'" "reachable d'"
  shows "map (change_row d') (filter (\<lambda>c. after < sc_Sequence c) (db_state_changes d'))
      = out @ map (change_row d') (filter (\<lambda>c. (if out = [] then after else sc_Sequence (last out)) < sc_Sequence c) (db_state_changes d'))
    \<and> latest = int (length (db_state_changes d)) \<and> (\<forall>c \<in> set out. after < sc_Sequence c \<and> sc_Sequence c \<le> latest)"
proof -
  have b: "task_board_ok d" by (rule reachable_board [OF assms(1)])
  have f: "feed_ok d" using b by (simp add: task_board_ok_def)
  have g: "log_grows d d'" by (rule moves_rtrancl_log_grows [OF assms(3)])
  then obtain later where later: "db_state_changes d' = db_state_changes d @ later" by (auto simp: log_grows_def prefix_def)
  have h: "map_of (db_history d) \<subseteq>\<^sub>m map_of (db_history d')" using g by (simp add: log_grows_def)
  let ?q = "filter (\<lambda>c. after < sc_Sequence c) (db_state_changes d)" and ?seq = sc_Sequence
  note S = feed_sorted [OF f]
  have sq: "sorted_wrt (\<lambda>c c'. ?seq c < ?seq c') ?q" by (rule sorted_wrt_filter [OF S(1)])
  from assms(2) have lim: "1 \<le> limit" and lt: "latest = int (length (db_state_changes d))"
    and out: "out = map (change_row d) (take (nat limit) ?q)"
    using sort_key_increasing [OF sq] S(2) by (auto simp: TaskStateChanges_def split: if_splits)
  have le: "?seq c \<le> latest" if "c \<in> set (db_state_changes d)" for c
  proof -
    have "?seq c \<in> set (map (\<lambda>k. int k + 1) [0..<length (db_state_changes d)])"
      using f imageI [OF that, of ?seq] unfolding feed_ok_def by (metis image_set)
    then show ?thesis using lt by auto
  qed
  have ends: "\<forall>c \<in> set out. after < ?seq c \<and> ?seq c \<le> latest"
    using le by (auto simp: out dest!: in_set_takeD)
  have out': "out = map (change_row d') (take (nat limit) ?q)"
    unfolding out using change_row_kept [OF b h] by (auto dest!: in_set_takeD)
  let ?n = "if out = [] then after else ?seq (last out)"
  let ?q' = "filter (\<lambda>c. after < ?seq c) (db_state_changes d')"
  have "feed_ok d'" using reachable_board [OF assms(4)] by (simp add: task_board_ok_def)
  then have sq': "sorted_wrt (\<lambda>c c'. ?seq c < ?seq c') ?q'" by (intro sorted_wrt_filter feed_sorted)
  have "?q' = ?q @ filter (\<lambda>c. after < ?seq c) later" by (simp add: later)
  then have t: "take (length out) ?q' = take (nat limit) ?q" by (simp add: out min_def)
  have "?q' = take (nat limit) ?q @ filter (\<lambda>c. ?n < ?seq c) (db_state_changes d')"
  proof (cases "out = []")
    case True
    then show ?thesis by (simp add: out)
  next
    case False
    then have k: "0 < length out" "length out \<le> length ?q'" using t by (auto simp: out later)
    have "last out = change_row d (last (take (nat limit) ?q))" using False by (simp add: out last_map)
    also have "last (take (nat limit) ?q) = ?q' ! (length out - 1)"
      using k False unfolding t [symmetric] by (subst last_conv_nth) (auto simp: min_def)
    finally have n: "?n = ?seq (?q' ! (length out - 1))" using False by simp
    have "filter (\<lambda>c. ?n < ?seq c) ?q' = drop (length out) ?q'" unfolding n by (rule filter_above [OF sq' k])
    moreover have "after < ?n" using ends False by simp
    then have "filter (\<lambda>c. ?n < ?seq c) ?q' = filter (\<lambda>c. ?n < ?seq c) (db_state_changes d')"
      unfolding filter_filter by (intro filter_cong) auto
    ultimately show ?thesis using t by (metis append_take_drop_id)
  qed
  then have "map (change_row d') ?q' = out @ map (change_row d') (filter (\<lambda>c. ?n < ?seq c) (db_state_changes d'))"
    unfolding out' by (metis map_append)
  with lt ends show ?thesis by blast
qed

theorem feed_is_followed_witness:
  "\<exists>out latest. TaskStateChanges 0 5 db1 = Inr (out, latest) \<and> (\<forall>c \<in> set out. sc_Sequence c \<le> latest)"
proof -
  have "new_ids (ex_env 0) db0" by (simp add: new_ids_def)
  moreover have "act (ex_env 0) (Request (NewTask ex_content ex_user ''r1'')) db0 = Inr db1" by (simp add: as_def ex_create)
  ultimately have r: "reachable db1" by (rule reachable.acted [OF w_reachable(1)])
  obtain out latest where o: "TaskStateChanges 0 5 db1 = Inr (out, latest)" by (simp add: TaskStateChanges_def)
  from feed_is_followed [OF r o rtranclp.rtrancl_refl r] o show ?thesis by blast
qed

end
