(* ===== verification/Access.thy ===== *)
theory Access
  imports Json GoStrings Base64 "HOL-Library.AList" "HOL-Library.Product_Lexorder"
begin

text \<open>
  The access store of a hub (\<open>internal/access/store.go\<close>, \<open>project_grants.go\<close>): users, groups, grants,
  tokens and the audit of every change. The tables of enrollments, peers, proofs and team profiles stand
  here too, as they are one database. Instants are nanoseconds since 1970; an operation reads the clock,
  the identifier generator and the random source from its environment, each reading by its number.
  Opening the file and migrating its schema are not modelled, nor the wait for the store that a context bounds.
\<close>

section \<open>State\<close>

record user_row =
  us_name :: string
  us_disabled :: bool

record token_row =
  tok_user_id :: string
  tok_label :: string
  tok_project :: string
  tok_digest :: string
  tok_expires_at :: int
  tok_revoked :: bool
  tok_scope :: string

record Event =
  ae_ID :: string
  ae_At :: string
  ae_Actor :: string
  ae_Action :: string
  ae_Subject :: string

record profile_row =
  tm_service_id :: string
  tm_team_id :: string
  tm_team_name :: string
  tm_disabled :: bool

record peer_row =
  pr_hub_id :: string
  pr_operation :: string
  pr_endpoint :: string
  pr_tls_mode :: string
  pr_tls_value :: string
  pr_disabled :: bool

record credential_row =
  pc_service_id :: string
  pc_operation :: string
  pc_digest :: string
  pc_created_at :: int
  pc_expires_at :: int
  pc_revoked :: bool

record receipt_row =
  rp_digest :: string
  rp_service_id :: string
  rp_hub_id :: string
  rp_challenge_id :: string
  rp_user_id :: string
  rp_token_id :: string
  rp_created_ms :: int
  rp_expires_ms :: int
  rp_state :: string

record redemption_row =
  rd_input_digest :: string
  rd_id :: string
  rd_receipt_id :: string
  rd_hub_id :: string
  rd_challenge_id :: string
  rd_user_id :: string
  rd_token_id :: string
  rd_redeemed_ms :: int

text \<open>The columns a redemption of an enrollment fills, with the stored delivery.\<close>

record redeemed =
  rm_at :: int
  rm_user_id :: string
  rm_token_id :: string
  rm_request_key :: string
  rm_input_digest :: string
  rm_suite :: string
  rm_enc :: string
  rm_ciphertext :: string

record bundle_row =
  bn_purpose :: string
  bn_digest :: string
  bn_input_digest :: string
  bn_created_at :: int
  bn_expires_at :: int
  bn_issued_by :: string
  bn_user_name :: string
  bn_revoked_at :: "int option"
  bn_redeemed :: "redeemed option"

record adb =
  ab_users :: "(string, user_row) table"
  ab_groups :: "(string, string) table"
  ab_members :: "(string \<times> string) list"
  ab_grants :: "(string \<times> string \<times> string) list"
  ab_tokens :: "(string, token_row) table"
  ab_audit :: "(string, Event) table"
  ab_hub :: string
  ab_profiles :: "(string, profile_row) table"
  ab_profile_grants :: "(string \<times> string) list"
  ab_peers :: "(string, peer_row) table"
  ab_credentials :: "(string, credential_row) table"
  ab_receipts :: "(string, receipt_row) table"
  ab_redemptions :: "(string \<times> string, redemption_row) table"
  ab_enrollments :: "(string, bundle_row) table"

datatype acc_err =
    ErrDenied
  | ErrInvalidRequest string
  | ErrCredentialScope
  | ErrPeerUnknown
  | ErrPeerUnauthenticated
  | ErrPeerForbidden
  | ErrPeerEnabled
  | ErrPeerCredentialLimit
  | ErrProofInvalid
  | ErrCredentialInactive
  | ErrIdempotencyConflict
  | ErrRateLimited
  | ErrEnrollmentExists
  | ErrEnrollmentRedeemed
  | ErrEnrollmentUnknown
  | ErrEnrollmentInvalid
  | ErrEnrollmentConflict
  | ErrTeamProfileExists
  | ErrTeamProfileUnknown
  | ErrTeamNameTaken
  | ErrTeamProfileDisabled
  | ErrSQL
  | ErrOther string

record endpoint =
  ur_Scheme :: string
  ur_Hostname :: string
  ur_User :: bool
  ur_Fragment :: string
  ur_RawQuery :: string
  ur_String :: string

record Plaintext =
  pt_Token :: string
  pt_UserID :: string
  pt_TokenID :: string
  pt_HubID :: string

text \<open>
  What comes from outside: the clock, \<open>uuidv7.New\<close>, 32 random bytes (or the source's failure), SHA-256 as
  hex, times in RFC 3339 and to the second, \<open>url.Parse\<close>, and the sealing of a delivery.
\<close>

record aenv =
  an_now :: "nat \<Rightarrow> int"
  an_uuid :: "nat \<Rightarrow> string"
  an_random :: "nat \<Rightarrow> string option"
  an_sha :: "string \<Rightarrow> string"
  an_rfc3339 :: "int \<Rightarrow> string"
  an_nano :: "int \<Rightarrow> string"
  an_second :: "int \<Rightarrow> string"
  an_url :: "string \<Rightarrow> endpoint option"
  an_seal :: "string \<Rightarrow> string \<Rightarrow> Plaintext \<Rightarrow> (string \<times> string) option"

section \<open>Times and texts\<close>

definition second_ns :: int where "second_ns = 1000000000"

definition unix :: "int \<Rightarrow> int" where "unix t = t div second_ns"

definition unix_ms :: "int \<Rightarrow> int" where "unix_ms t = t div 1000000"

text \<open>\<open>Truncate(time.Second)\<close>, and \<open>time.Unix(n, 0)\<close>.\<close>

definition truncate_second :: "int \<Rightarrow> int" where "truncate_second t = unix t * second_ns"

definition hex_encode :: "string \<Rightarrow> string" where
  "hex_encode s = concat (map (\<lambda>c. let n = of_char c :: nat in [hex_char (n div 16), hex_char (n mod 16)]) s)"

definition show_bool :: "bool \<Rightarrow> string" where
  "show_bool b = (if b then ''true'' else ''false'')"

definition name_shape :: "string \<Rightarrow> bool" where
  "name_shape s \<longleftrightarrow> TrimSpace s = s \<and> s \<noteq> [] \<and> length s \<le> 128 \<and> ValidString s
     \<and> list_all (\<lambda>c. c \<noteq> CHR 13 \<and> c \<noteq> CHR 10 \<and> c \<noteq> CHR 0x00) s"

definition validName :: "string \<Rightarrow> bool" where
  "validName s \<longleftrightarrow> name_shape s \<and> list_all (\<lambda>r. \<not> IsControl r) (runes s)"

text \<open>The error \<open>validName\<close> returns for a name it refuses.\<close>

definition name_text :: "string \<Rightarrow> string" where
  "name_text s = (if name_shape s then ''name contains a control character''
     else ''name must be 1-128 UTF-8 bytes without surrounding whitespace or control lines'')"

definition bad_name :: "string \<Rightarrow> acc_err" where
  "bad_name s = ErrOther (name_text s)"

section \<open>Changes\<close>

definition audit :: "aenv \<Rightarrow> string \<Rightarrow> string \<Rightarrow> string \<Rightarrow> adb \<Rightarrow> acc_err + adb" where
  "audit e actor action subject s =
     (if actor = [] then Inl (ErrOther ''authenticated actor is required'')
      else case tb_insert (an_uuid e 9) \<lparr>ae_ID = an_uuid e 9, ae_At = an_nano e (an_now e 9), ae_Actor = actor, ae_Action = action,
          ae_Subject = subject\<rparr> (ab_audit s) of
        None \<Rightarrow> Inl ErrSQL
      | Some t \<Rightarrow> Inr (s\<lparr>ab_audit := t\<rparr>))"

definition change :: "aenv \<Rightarrow> string \<Rightarrow> string \<Rightarrow> string \<Rightarrow> (adb \<Rightarrow> acc_err + adb) \<Rightarrow> adb \<Rightarrow> acc_err + adb" where
  "change e actor action subject fn s = (case fn s of Inl x \<Rightarrow> Inl x | Inr s1 \<Rightarrow> audit e actor action subject s1)"

definition has_row :: "('k, 'r) table \<Rightarrow> 'k \<Rightarrow> bool" where
  "has_row t k \<longleftrightarrow> map_of t k \<noteq> None"

definition requireRow :: "string \<Rightarrow> ('k, 'r) table \<Rightarrow> 'k \<Rightarrow> acc_err option" where
  "requireRow name t k = (if has_row t k then None else Some (ErrOther (''unknown '' @ name @ '' ID'')))"

text \<open>\<open>INSERT OR IGNORE\<close> and \<open>DELETE\<close> of a row that is its own key.\<close>

definition set_present :: "'a \<Rightarrow> bool \<Rightarrow> 'a list \<Rightarrow> 'a list" where
  "set_present x present xs = (if present then (if x \<in> set xs then xs else xs @ [x]) else filter (\<lambda>y. y \<noteq> x) xs)"

section \<open>Users, groups, grants\<close>

record User =
  ur_ID :: string
  ur_Name :: string
  ur_Disabled :: bool

record Group =
  gp_ID :: string
  gp_Name :: string

definition CreateUser :: "aenv \<Rightarrow> string \<Rightarrow> string \<Rightarrow> adb \<Rightarrow> acc_err + User \<times> adb" where
  "CreateUser e actor name s =
     (if \<not> validName name then Inl (bad_name name)
      else let u = \<lparr>ur_ID = an_uuid e 0, ur_Name = name, ur_Disabled = False\<rparr> in
      case change e actor ''user.create'' (ur_ID u) (\<lambda>s. case tb_insert (ur_ID u) \<lparr>us_name = name, us_disabled = False\<rparr> (ab_users s) of
          None \<Rightarrow> Inl ErrSQL | Some t \<Rightarrow> Inr (s\<lparr>ab_users := t\<rparr>)) s of
        Inl x \<Rightarrow> Inl x | Inr s' \<Rightarrow> Inr (u, s'))"

definition SetUser :: "aenv \<Rightarrow> string \<Rightarrow> string \<Rightarrow> string \<Rightarrow> bool \<Rightarrow> adb \<Rightarrow> acc_err + adb" where
  "SetUser e actor uid name disabled s =
     (if \<not> validName name then Inl (bad_name name)
      else change e actor ''user.update'' uid (\<lambda>s. case requireRow ''users'' (ab_users s) uid of Some x \<Rightarrow> Inl x
        | None \<Rightarrow> Inr (s\<lparr>ab_users := AList.update uid \<lparr>us_name = name, us_disabled = disabled\<rparr> (ab_users s)\<rparr>)) s)"

definition CreateGroup :: "aenv \<Rightarrow> string \<Rightarrow> string \<Rightarrow> adb \<Rightarrow> acc_err + Group \<times> adb" where
  "CreateGroup e actor name s =
     (if \<not> validName name then Inl (bad_name name)
      else let g = \<lparr>gp_ID = an_uuid e 0, gp_Name = name\<rparr> in
      case change e actor ''group.create'' (gp_ID g) (\<lambda>s. case tb_insert (gp_ID g) name (ab_groups s) of
          None \<Rightarrow> Inl ErrSQL | Some t \<Rightarrow> Inr (s\<lparr>ab_groups := t\<rparr>)) s of
        Inl x \<Rightarrow> Inl x | Inr s' \<Rightarrow> Inr (g, s'))"

definition SetMember :: "aenv \<Rightarrow> string \<Rightarrow> string \<Rightarrow> string \<Rightarrow> bool \<Rightarrow> adb \<Rightarrow> acc_err + adb" where
  "SetMember e actor grp user present s =
     change e actor (''member.'' @ show_bool present) (grp @ ''/'' @ user) (\<lambda>s.
       case requireRow ''access_groups'' (ab_groups s) grp of Some x \<Rightarrow> Inl x | None \<Rightarrow>
       case requireRow ''users'' (ab_users s) user of Some x \<Rightarrow> Inl x | None \<Rightarrow>
       Inr (s\<lparr>ab_members := set_present (grp, user) present (ab_members s)\<rparr>)) s"

definition SetGrant :: "aenv \<Rightarrow> string \<Rightarrow> string \<Rightarrow> string \<Rightarrow> string \<Rightarrow> bool \<Rightarrow> adb \<Rightarrow> acc_err + adb" where
  "SetGrant e actor project kind subject present s =
     (if project = [] then Inl (ErrOther ''project instance is required'')
      else if kind \<noteq> ''group'' \<and> kind \<noteq> ''user'' then Inl (ErrOther ''kind must be user or group'')
      else change e actor (''grant.'' @ show_bool present) (project @ ''/'' @ kind @ ''/'' @ subject) (\<lambda>s.
        case (if kind = ''group'' then requireRow ''access_groups'' (ab_groups s) subject else requireRow ''users'' (ab_users s) subject) of
          Some x \<Rightarrow> Inl x
        | None \<Rightarrow> Inr (s\<lparr>ab_grants := set_present (project, kind, subject) present (ab_grants s)\<rparr>)) s)"

definition IdentityExists :: "string \<Rightarrow> string \<Rightarrow> adb \<Rightarrow> bool" where
  "IdentityExists kind i s \<longleftrightarrow>
     (if kind = ''user'' then has_row (ab_users s) i else if kind = ''group'' then has_row (ab_groups s) i else False)"

text \<open>The grants of a project that reach a user: direct, or by a group.\<close>

definition granted :: "string \<Rightarrow> string \<Rightarrow> adb \<Rightarrow> bool" where
  "granted user project s \<longleftrightarrow> list_ex (\<lambda>(p, k, subject). p = project
     \<and> (k = ''user'' \<and> subject = user \<or> k = ''group'' \<and> (subject, user) \<in> set (ab_members s))) (ab_grants s)"

definition enabled_user :: "string \<Rightarrow> adb \<Rightarrow> bool" where
  "enabled_user user s \<longleftrightarrow> (case map_of (ab_users s) user of None \<Rightarrow> False | Some u \<Rightarrow> \<not> us_disabled u)"

definition canWrite :: "string \<Rightarrow> string \<Rightarrow> adb \<Rightarrow> bool" where
  "canWrite user project s \<longleftrightarrow> enabled_user user s \<and> granted user project s"

section \<open>Tokens\<close>

definition ScopeUser :: string where "ScopeUser = ''user''"
definition ScopeProject :: string where "ScopeProject = ''project''"
definition ScopeReadOnly :: string where "ScopeReadOnly = ''read-only''"

definition ResolveScope :: "string \<Rightarrow> string \<Rightarrow> acc_err + string" where
  "ResolveScope scope0 project =
     (let scope = (if scope0 = [] then (if project \<noteq> [] then ScopeProject else ScopeReadOnly) else scope0)
      in if scope = ScopeProject \<and> project \<noteq> [] \<or> (scope = ScopeUser \<or> scope = ScopeReadOnly) \<and> project = [] then Inr scope
         else Inl (ErrOther ''scope must be user or read-only without a project, or project with a project''))"

record Token =
  tk_ID :: string
  tk_UserID :: string
  tk_Label :: string
  tk_Scope :: string
  tk_Project :: string
  tk_ExpiresAt :: int
  tk_Revoked :: bool

definition days_ns :: "int \<Rightarrow> int" where "days_ns n = n * 24 * 3600 * second_ns"

text \<open>The primary key and the unique digest of \<open>tokens\<close>.\<close>

definition insert_token :: "string \<Rightarrow> token_row \<Rightarrow> adb \<Rightarrow> acc_err + adb" where
  "insert_token i r s =
     (if tb_exists (\<lambda>_ q. tok_digest q = tok_digest r) (ab_tokens s) then Inl ErrSQL
      else case tb_insert i r (ab_tokens s) of None \<Rightarrow> Inl ErrSQL | Some t \<Rightarrow> Inr (s\<lparr>ab_tokens := t\<rparr>))"

definition IssueScoped ::
  "aenv \<Rightarrow> string \<Rightarrow> string \<Rightarrow> string \<Rightarrow> string \<Rightarrow> string \<Rightarrow> int \<Rightarrow> adb \<Rightarrow> acc_err + (Token \<times> string) \<times> adb" where
  "IssueScoped e actor user label scope0 project expires s =
     (case ResolveScope scope0 project of Inl x \<Rightarrow> Inl x | Inr scope \<Rightarrow>
      if \<not> validName label then Inl (bad_name label)
      else if \<not> an_now e 0 < expires \<or> an_now e 1 + days_ns 366 < expires then Inl (ErrOther ''expiry must be in the future and within 366 days'')
      else case an_random e 0 of None \<Rightarrow> Inl (ErrOther ''random source'') | Some random \<Rightarrow>
      let secret = ''aimem_user_'' @ hex_encode random;
          t = \<lparr>tk_ID = an_uuid e 0, tk_UserID = user, tk_Label = label, tk_Scope = scope, tk_Project = project,
               tk_ExpiresAt = truncate_second expires, tk_Revoked = False\<rparr>
      in case change e actor ''token.issue'' (tk_ID t) (\<lambda>s.
          case map_of (ab_users s) user of None \<Rightarrow> Inl (ErrOther ''unknown user'') | Some u \<Rightarrow>
          if us_disabled u then Inl ErrDenied
          else if project \<noteq> [] \<and> \<not> canWrite user project s then Inl ErrDenied
          else insert_token (tk_ID t) \<lparr>tok_user_id = user, tok_label = label, tok_project = project, tok_digest = an_sha e secret,
            tok_expires_at = unix (tk_ExpiresAt t), tok_revoked = False, tok_scope = scope\<rparr> s) s of
        Inl x \<Rightarrow> Inl x | Inr s' \<Rightarrow> Inr ((t, secret), s'))"

definition Issue :: "aenv \<Rightarrow> string \<Rightarrow> string \<Rightarrow> string \<Rightarrow> string \<Rightarrow> int \<Rightarrow> adb \<Rightarrow> acc_err + (Token \<times> string) \<times> adb" where
  "Issue e actor user label project expires s = IssueScoped e actor user label [] project expires s"

definition Revoke :: "aenv \<Rightarrow> string \<Rightarrow> string \<Rightarrow> adb \<Rightarrow> acc_err + adb" where
  "Revoke e actor i s = change e actor ''token.revoke'' i (\<lambda>s.
     case map_of (ab_tokens s) i of None \<Rightarrow> Inl (ErrOther ''unknown tokens ID'')
     | Some r \<Rightarrow> Inr (s\<lparr>ab_tokens := AList.update i (r\<lparr>tok_revoked := True\<rparr>) (ab_tokens s)\<rparr>)) s"

record Identity =
  dn_UserID :: string
  dn_TokenID :: string
  dn_Name :: string
  dn_Scope :: string
  dn_Project :: string

definition live_row :: "aenv \<Rightarrow> adb \<Rightarrow> token_row \<Rightarrow> bool" where
  "live_row e s r \<longleftrightarrow> \<not> tok_revoked r \<and> unix (an_now e 0) < tok_expires_at r \<and> enabled_user (tok_user_id r) s"

definition Authenticate :: "aenv \<Rightarrow> string \<Rightarrow> adb \<Rightarrow> acc_err + Identity" where
  "Authenticate e secret s =
     (case find (\<lambda>(i, r). tok_digest r = an_sha e secret \<and> live_row e s r) (ab_tokens s) of
        None \<Rightarrow> Inl ErrDenied
      | Some (i, r) \<Rightarrow> Inr \<lparr>dn_UserID = tok_user_id r, dn_TokenID = i,
          dn_Name = (case map_of (ab_users s) (tok_user_id r) of None \<Rightarrow> [] | Some u \<Rightarrow> us_name u),
          dn_Scope = tok_scope r, dn_Project = tok_project r\<rparr>)"

definition TokenMeta :: "string \<Rightarrow> adb \<Rightarrow> acc_err + string \<times> int" where
  "TokenMeta i s = (case map_of (ab_tokens s) i of None \<Rightarrow> Inl ErrSQL | Some r \<Rightarrow> Inr (tok_label r, tok_expires_at r * second_ns))"

text \<open>The scope of a token reaches every project, or its own.\<close>

definition scope_reaches :: "token_row \<Rightarrow> string \<Rightarrow> bool" where
  "scope_reaches r project \<longleftrightarrow> tok_scope r = ScopeUser \<and> tok_project r = [] \<or> tok_scope r = ScopeProject \<and> tok_project r = project"

definition TokenLive :: "aenv \<Rightarrow> string \<Rightarrow> string \<Rightarrow> string \<Rightarrow> adb \<Rightarrow> bool" where
  "TokenLive e user token project s \<longleftrightarrow> project \<noteq> [] \<and>
     (case map_of (ab_tokens s) token of None \<Rightarrow> False | Some r \<Rightarrow> tok_user_id r = user \<and> live_row e s r \<and> scope_reaches r project)"

definition CanWriteToken :: "aenv \<Rightarrow> string \<Rightarrow> string \<Rightarrow> string \<Rightarrow> adb \<Rightarrow> bool" where
  "CanWriteToken e user token project s \<longleftrightarrow> project \<noteq> [] \<and>
     (case map_of (ab_tokens s) token of None \<Rightarrow> False
      | Some r \<Rightarrow> tok_user_id r = user \<and> live_row e s r \<and> scope_reaches r project \<and> granted user project s)"

definition Authorize :: "aenv \<Rightarrow> string \<Rightarrow> string \<Rightarrow> adb \<Rightarrow> acc_err + Identity" where
  "Authorize e secret project s =
     (case Authenticate e secret s of Inl x \<Rightarrow> Inl x | Inr i \<Rightarrow>
      if project \<noteq> [] \<and> \<not> CanWriteToken e (dn_UserID i) (dn_TokenID i) project s then Inl ErrDenied else Inr i)"

section \<open>Reads\<close>

definition AuditLimit :: int where "AuditLimit = 1000"

text \<open>Without a lower bound \<open>since\<close> is the zero time.\<close>

definition AuditEvents :: "aenv \<Rightarrow> int option \<Rightarrow> string \<Rightarrow> string \<Rightarrow> int \<Rightarrow> adb \<Rightarrow> acc_err + Event list" where
  "AuditEvents e since actor action limit s =
     (if limit < 1 \<or> AuditLimit < limit then Inl (ErrOther ''limit must be 1-1000'')
      else Inr (take (nat limit) (map snd (rev (sort_key fst (filter (\<lambda>(_, v). (case since of None \<Rightarrow> True | Some t \<Rightarrow> an_second e t \<le> ae_At v)
         \<and> (actor = [] \<or> ae_Actor v = actor) \<and> (action = [] \<or> ae_Action v = action)) (ab_audit s)))))))"

record Snapshot =
  sn_Users :: "User list"
  sn_Groups :: "Group list"
  sn_Members :: "(string \<times> string) list"
  sn_Grants :: "(string \<times> string \<times> string) list"
  sn_Tokens :: "Token list"
  sn_Audit :: "Event list"

definition token_of :: "string \<Rightarrow> token_row \<Rightarrow> Token" where
  "token_of i r = \<lparr>tk_ID = i, tk_UserID = tok_user_id r, tk_Label = tok_label r, tk_Scope = tok_scope r, tk_Project = tok_project r,
     tk_ExpiresAt = tok_expires_at r * second_ns, tk_Revoked = tok_revoked r\<rparr>"

definition access_snapshot :: "adb \<Rightarrow> Snapshot" where
  "access_snapshot s =
     \<lparr>sn_Users = map (\<lambda>(i, u). \<lparr>ur_ID = i, ur_Name = us_name u, ur_Disabled = us_disabled u\<rparr>) (sort_key fst (ab_users s)),
      sn_Groups = map (\<lambda>(i, n). \<lparr>gp_ID = i, gp_Name = n\<rparr>) (sort_key fst (ab_groups s)),
      sn_Members = sort (ab_members s), sn_Grants = sort (ab_grants s),
      sn_Tokens = map (\<lambda>(i, r). token_of i r) (sort_key fst (ab_tokens s)),
      sn_Audit = take 100 (map snd (rev (sort_key fst (ab_audit s))))\<rparr>"

record ProjectGrantee =
  ge_Kind :: string
  ge_ID :: string
  ge_Name :: string
  ge_Disabled :: bool
  ge_ServiceID :: string
  ge_TeamID :: string

text \<open>\<open>ORDER BY 1, 4, 6, 7, 3\<close>: the kinds one after the other, each by name, service, team and id.\<close>

definition by_name :: "ProjectGrantee list \<Rightarrow> ProjectGrantee list" where
  "by_name = sort_key (\<lambda>g. (ge_Name g, ge_ServiceID g, ge_TeamID g, ge_ID g))"

definition ProjectGrantees :: "string \<Rightarrow> adb \<Rightarrow> ProjectGrantee list" where
  "ProjectGrantees inst s =
     (if inst = [] then []
      else by_name (concat (map (\<lambda>(p, k, i). if p = inst \<and> k = ''user'' then (case map_of (ab_users s) i of None \<Rightarrow> []
            | Some u \<Rightarrow> [\<lparr>ge_Kind = ''user'', ge_ID = i, ge_Name = us_name u, ge_Disabled = us_disabled u, ge_ServiceID = [], ge_TeamID = []\<rparr>]) else []) (ab_grants s)))
        @ by_name (concat (map (\<lambda>(p, k, i). if p = inst \<and> k = ''group'' then (case map_of (ab_groups s) i of None \<Rightarrow> []
            | Some n \<Rightarrow> [\<lparr>ge_Kind = ''group'', ge_ID = i, ge_Name = n, ge_Disabled = False, ge_ServiceID = [], ge_TeamID = []\<rparr>]) else []) (ab_grants s)))
        @ by_name (concat (map (\<lambda>(p, i). if p = inst then (case map_of (ab_profiles s) i of None \<Rightarrow> []
            | Some r \<Rightarrow> [\<lparr>ge_Kind = ''team_profile'', ge_ID = i, ge_Name = tm_team_name r, ge_Disabled = tm_disabled r, ge_ServiceID = tm_service_id r,
                ge_TeamID = tm_team_id r\<rparr>]) else []) (ab_profile_grants s))))"

end
