(* ===== verification/Enrollments.thy ===== *)
theory Enrollments
  imports Access
begin

text \<open>
  Enrollment bundles (\<open>internal/access/enrollments.go\<close>, \<open>enrollment_redeem.go\<close>,
  \<open>internal/enrollment/delivery.go\<close>): an administrator issues a one-time code, which a client redeems
  for a user and a token sealed to its key. A delivery is kept as its three fields, not as their JSON.
\<close>

section \<open>Bundles\<close>

definition EnrollmentPurposeNewUser :: string where "EnrollmentPurposeNewUser = ''new_user''"
definition EnrollmentMaxLife :: int where "EnrollmentMaxLife = 72 * 3600 * second_ns"
definition EnrollmentDeliveryRetention :: int where "EnrollmentDeliveryRetention = 3600 * second_ns"
definition enrolledTokenLife :: int where "enrolledTokenLife = days_ns 365"

definition enrollmentClient :: string where "enrollmentClient = ''enrollment-client''"

definition Suite :: string where "Suite = ''hpke-x25519-sha256-chacha20poly1305''"

definition EnrollmentIssued :: string where "EnrollmentIssued = ''issued''"
definition EnrollmentRedeemed :: string where "EnrollmentRedeemed = ''redeemed''"
definition EnrollmentRevoked :: string where "EnrollmentRevoked = ''revoked''"
definition EnrollmentExpired :: string where "EnrollmentExpired = ''expired''"

lemmas enrollment_states = EnrollmentIssued_def EnrollmentRedeemed_def EnrollmentRevoked_def EnrollmentExpired_def

definition lower_hex :: "nat \<Rightarrow> bool" where
  "lower_hex r \<longleftrightarrow> digit r \<or> rng CHR ''a'' CHR ''f'' r"

definition bundleIDShape :: re where
  "bundleIDShape = Cats [BeginText, Times 8 (Cls lower_hex), Lit 45, Times 4 (Cls lower_hex), Lit 45, Times 4 (Cls lower_hex), Lit 45,
     Times 4 (Cls lower_hex), Lit 45, Times 12 (Cls lower_hex), EndText]"

definition b64url_char :: "nat \<Rightarrow> bool" where
  "b64url_char r \<longleftrightarrow> alnum r \<or> r = 95 \<or> r = 45"

definition requestKeyShape :: re where
  "requestKeyShape = Cats [BeginText, Word_of ''k1_'', Times 43 (Cls b64url_char), EndText]"

definition label_char :: "nat \<Rightarrow> bool" where
  "label_char r \<longleftrightarrow> lower r \<or> digit r \<or> r = 45"

definition enrollmentLabelShape :: re where
  "enrollmentLabelShape = Cats [BeginText, Cls label_char, UpTo 63 (Cls label_char), EndText]"

record Enrollment =
  em_BundleID :: string
  em_Purpose :: string
  em_State :: string
  em_CreatedAt :: int
  em_ExpiresAt :: int
  em_IssuedBy :: string
  em_UserName :: string
  em_Redeemed :: "(string \<times> string \<times> int) option"

record EnrollmentRequest =
  eq_BundleID :: string
  eq_Purpose :: string
  eq_ExpiresAt :: int
  eq_UserName :: string

definition request_digest :: "aenv \<Rightarrow> EnrollmentRequest \<Rightarrow> string" where
  "request_digest e r = an_sha e (eq_Purpose r @ [CHR 0x00] @ show_int (unix (eq_ExpiresAt r)) @ [CHR 0x00] @ eq_UserName r)"

definition request_validate :: "EnrollmentRequest \<Rightarrow> int \<Rightarrow> acc_err option" where
  "request_validate r now =
     (if eq_Purpose r \<noteq> EnrollmentPurposeNewUser then Some (ErrInvalidRequest ''purpose must be new_user'')
      else if \<not> now < eq_ExpiresAt r \<or> now + EnrollmentMaxLife < eq_ExpiresAt r
        then Some (ErrInvalidRequest ''expires_at must be in the future and at most 72 hours ahead'')
      else if eq_UserName r \<noteq> [] \<and> \<not> validName (eq_UserName r) then Some (ErrInvalidRequest (''user_name: '' @ name_text (eq_UserName r)))
      else None)"

text \<open>The state of a bundle at an instant.\<close>

definition scanEnrollment :: "int \<Rightarrow> string \<Rightarrow> bundle_row \<Rightarrow> Enrollment" where
  "scanEnrollment now i r =
     \<lparr>em_BundleID = i, em_Purpose = bn_purpose r,
      em_State = (if bn_redeemed r \<noteq> None then EnrollmentRedeemed else if bn_revoked_at r \<noteq> None then EnrollmentRevoked
        else if \<not> now < bn_expires_at r * second_ns then EnrollmentExpired else EnrollmentIssued),
      em_CreatedAt = bn_created_at r * second_ns, em_ExpiresAt = bn_expires_at r * second_ns, em_IssuedBy = bn_issued_by r,
      em_UserName = bn_user_name r,
      em_Redeemed = map_option (\<lambda>m. (rm_user_id m, rm_token_id m, rm_at m * second_ns)) (bn_redeemed r)\<rparr>"

definition enrollmentSubject :: "aenv \<Rightarrow> Enrollment \<Rightarrow> string" where
  "enrollmentSubject e m = ''bundle='' @ em_BundleID m @ '' purpose='' @ em_Purpose m @ '' expires_at='' @ an_rfc3339 e (em_ExpiresAt m)
     @ (case em_Redeemed m of None \<Rightarrow> [] | Some (u, t, _) \<Rightarrow> '' user='' @ u @ '' token='' @ t)"

text \<open>The primary key and the unique digest of \<open>enrollments\<close>.\<close>

definition insert_bundle :: "string \<Rightarrow> bundle_row \<Rightarrow> adb \<Rightarrow> acc_err + adb" where
  "insert_bundle i r s =
     (if tb_exists (\<lambda>_ q. bn_digest q = bn_digest r) (ab_enrollments s) then Inl ErrSQL
      else case tb_insert i r (ab_enrollments s) of None \<Rightarrow> Inl ErrSQL | Some t \<Rightarrow> Inr (s\<lparr>ab_enrollments := t\<rparr>))"

definition IssueEnrollment :: "aenv \<Rightarrow> string \<Rightarrow> EnrollmentRequest \<Rightarrow> adb \<Rightarrow> acc_err + (Enrollment \<times> string) \<times> adb" where
  "IssueEnrollment e actor req0 s =
     (let now = an_now e 0; req = req0\<lparr>eq_ExpiresAt := truncate_second (eq_ExpiresAt req0)\<rparr> in
      if \<not> MatchString bundleIDShape (eq_BundleID req) then Inl (ErrInvalidRequest ''bundle_id must be a lowercase UUID'')
      else case an_random e 0 of None \<Rightarrow> Inl (ErrOther ''random source'') | Some random \<Rightarrow>
      let subcode = ''aes1_'' @ RawURLEncode random;
          m = \<lparr>em_BundleID = eq_BundleID req, em_Purpose = eq_Purpose req, em_State = EnrollmentIssued, em_CreatedAt = truncate_second now,
               em_ExpiresAt = eq_ExpiresAt req, em_IssuedBy = actor, em_UserName = eq_UserName req, em_Redeemed = None\<rparr>
      in case change e actor ''enrollment.issued'' (enrollmentSubject e m) (\<lambda>s.
          case map_of (ab_enrollments s) (eq_BundleID req) of
            Some q \<Rightarrow> Inl (if bn_input_digest q = request_digest e req then ErrEnrollmentExists else ErrIdempotencyConflict)
          | None \<Rightarrow>
          case request_validate req now of Some x \<Rightarrow> Inl x | None \<Rightarrow>
          insert_bundle (em_BundleID m) \<lparr>bn_purpose = em_Purpose m, bn_digest = an_sha e subcode, bn_input_digest = request_digest e req,
            bn_created_at = unix (em_CreatedAt m), bn_expires_at = unix (em_ExpiresAt m), bn_issued_by = actor, bn_user_name = em_UserName m,
            bn_revoked_at = None, bn_redeemed = None\<rparr> s) s of
        Inl x \<Rightarrow> Inl x | Inr s' \<Rightarrow> Inr ((m, subcode), s'))"

text \<open>A refused revocation is audited and committed: it is a success with an error to report.\<close>

definition RevokeEnrollment :: "aenv \<Rightarrow> string \<Rightarrow> string \<Rightarrow> adb \<Rightarrow> acc_err + (Enrollment \<times> acc_err option) \<times> adb" where
  "RevokeEnrollment e actor i s =
     (case map_of (ab_enrollments s) i of None \<Rightarrow> Inl ErrEnrollmentUnknown | Some r \<Rightarrow>
      let m = scanEnrollment (an_now e 0) i r in
      if em_State m = EnrollmentIssued then
        (case audit e actor ''enrollment.revoked'' (enrollmentSubject e m)
            (s\<lparr>ab_enrollments := AList.update i (r\<lparr>bn_revoked_at := Some (unix (an_now e 1))\<rparr>) (ab_enrollments s)\<rparr>) of
           Inl x \<Rightarrow> Inl x | Inr s' \<Rightarrow> Inr ((m\<lparr>em_State := EnrollmentRevoked\<rparr>, None), s'))
      else if em_State m = EnrollmentRedeemed then
        (case audit e actor ''enrollment.revoke.refused.redeemed'' (enrollmentSubject e m) s of
           Inl x \<Rightarrow> Inl x | Inr s' \<Rightarrow> Inr ((m, Some ErrEnrollmentRedeemed), s'))
      else Inr ((m, None), s))"

definition ListEnrollments :: "aenv \<Rightarrow> string \<Rightarrow> adb \<Rightarrow> acc_err + Enrollment list" where
  "ListEnrollments e state s =
     (if state \<notin> {[], EnrollmentIssued, EnrollmentRedeemed, EnrollmentRevoked, EnrollmentExpired}
        then Inl (ErrInvalidRequest ''state must be issued, redeemed, revoked or expired'')
      else Inr (filter (\<lambda>m. state = [] \<or> em_State m = state)
        (map (\<lambda>(i, r). scanEnrollment (an_now e 0) i r) (rev (sort_key (\<lambda>(i, r). (bn_created_at r, i)) (ab_enrollments s))))))"

section \<open>Redemption\<close>

record EnrollmentRedeemRequest =
  rr_HubID :: string
  rr_Subcode :: string
  rr_RequestKey :: string
  rr_Label :: string
  rr_Suite :: string
  rr_PublicKey :: string

record EnrollmentRedeemResult =
  rs_BundleID :: string
  rs_Replayed :: bool
  rs_HubID :: string
  rs_UserID :: string
  rs_TokenID :: string
  rs_Suite :: string
  rs_Enc :: string
  rs_Ciphertext :: string
  rs_RedeemedAt :: int

definition redeem_input_digest :: "aenv \<Rightarrow> EnrollmentRedeemRequest \<Rightarrow> string" where
  "redeem_input_digest e r = an_sha e (rr_HubID r @ [CHR 0x00] @ rr_Label r @ [CHR 0x00] @ rr_Suite r @ [CHR 0x00] @ rr_PublicKey r)"

definition ParsePublicKey :: "string \<Rightarrow> string option" where
  "ParsePublicKey k = (case RawURLDecode k of None \<Rightarrow> None | Some raw \<Rightarrow> if length raw = 32 then Some raw else None)"

definition AAD :: "string \<Rightarrow> string \<Rightarrow> string \<Rightarrow> string \<Rightarrow> string \<Rightarrow> string" where
  "AAD hub bundle key user token = ''enrollment.v1|'' @ hub @ ''|'' @ bundle @ ''|'' @ key @ ''|'' @ user @ ''|'' @ token"

definition redeemSubject :: "string \<Rightarrow> string \<Rightarrow> string \<Rightarrow> string \<Rightarrow> string" where
  "redeemSubject bundle user token label = ''bundle='' @ bundle @ '' user='' @ user @ '' token='' @ token @ '' label='' @ label"

text \<open>A refusal names its audit reason, none for an error of the store, and the bundle it knows.\<close>

type_synonym refusal = "string \<times> string \<times> acc_err"

definition replay :: "aenv \<Rightarrow> int \<Rightarrow> string \<Rightarrow> EnrollmentRedeemRequest \<Rightarrow> string \<Rightarrow> redeemed \<Rightarrow> adb \<Rightarrow> refusal + EnrollmentRedeemResult \<times> adb" where
  "replay e now hub req i m s =
     (let at = rm_at m * second_ns in
      if \<not> now < at + EnrollmentDeliveryRetention then Inl (''retention_expired'', i, ErrEnrollmentInvalid)
      else if rm_request_key m \<noteq> rr_RequestKey req \<or> rm_input_digest m \<noteq> redeem_input_digest e req
        then Inl (''conflict'', i, ErrEnrollmentConflict)
      else if (case map_of (ab_tokens s) (rm_token_id m) of None \<Rightarrow> True
          | Some r \<Rightarrow> tok_revoked r \<or> \<not> enabled_user (tok_user_id r) s \<or> \<not> now < tok_expires_at r * second_ns)
        then Inl (''credential_inactive'', i, ErrEnrollmentInvalid)
      else case audit e enrollmentClient ''enrollment.redeem.replayed'' (redeemSubject i (rm_user_id m) (rm_token_id m) (rr_Label req)) s of
        Inl x \<Rightarrow> Inl ([], [], x)
      | Inr s' \<Rightarrow> Inr (\<lparr>rs_BundleID = i, rs_Replayed = True, rs_HubID = hub, rs_UserID = rm_user_id m, rs_TokenID = rm_token_id m,
          rs_Suite = rm_suite m, rs_Enc = rm_enc m, rs_Ciphertext = rm_ciphertext m, rs_RedeemedAt = at\<rparr>, s'))"

text \<open>The first redemption: a user, a token, the sealed delivery, the mark on the bundle, the audit.\<close>

definition redeem_fresh :: "aenv \<Rightarrow> int \<Rightarrow> EnrollmentRedeemRequest \<Rightarrow> string \<Rightarrow> string \<Rightarrow> bundle_row \<Rightarrow> adb \<Rightarrow> refusal + EnrollmentRedeemResult \<times> adb" where
  "redeem_fresh e now req pub i r s =
     (let name = (if bn_user_name r = [] then rr_Label req else bn_user_name r); userID = an_uuid e 0; tokenID = an_uuid e 1 in
      case an_random e 0 of None \<Rightarrow> Inl ([], [], ErrOther ''random source'') | Some random \<Rightarrow>
      let bearer = ''aimem_user_'' @ hex_encode random; at = truncate_second now in
      case tb_insert userID \<lparr>us_name = name, us_disabled = False\<rparr> (ab_users s) of None \<Rightarrow> Inl ([], [], ErrSQL) | Some us \<Rightarrow>
      case insert_token tokenID \<lparr>tok_user_id = userID, tok_label = rr_Label req, tok_project = [], tok_digest = an_sha e bearer,
          tok_expires_at = unix (at + enrolledTokenLife), tok_revoked = False, tok_scope = ScopeUser\<rparr> (s\<lparr>ab_users := us\<rparr>) of
        Inl x \<Rightarrow> Inl ([], [], x) | Inr s1 \<Rightarrow>
      case an_seal e pub (AAD (ab_hub s) i (rr_RequestKey req) userID tokenID)
          \<lparr>pt_Token = bearer, pt_UserID = userID, pt_TokenID = tokenID, pt_HubID = ab_hub s\<rparr> of
        None \<Rightarrow> Inl ([], [], ErrOther ''seal'') | Some (enc, ct) \<Rightarrow>
      let m = \<lparr>rm_at = unix at, rm_user_id = userID, rm_token_id = tokenID, rm_request_key = rr_RequestKey req,
               rm_input_digest = redeem_input_digest e req, rm_suite = rr_Suite req, rm_enc = enc, rm_ciphertext = ct\<rparr> in
      if bn_redeemed r \<noteq> None \<or> bn_revoked_at r \<noteq> None then Inl (''raced'', i, ErrEnrollmentInvalid) else
      case audit e enrollmentClient ''enrollment.redeemed'' (redeemSubject i userID tokenID (rr_Label req))
          (s1\<lparr>ab_enrollments := AList.update i (r\<lparr>bn_redeemed := Some m\<rparr>) (ab_enrollments s1)\<rparr>) of
        Inl x \<Rightarrow> Inl ([], [], x)
      | Inr s' \<Rightarrow> Inr (\<lparr>rs_BundleID = i, rs_Replayed = False, rs_HubID = ab_hub s, rs_UserID = userID, rs_TokenID = tokenID,
          rs_Suite = rr_Suite req, rs_Enc = enc, rs_Ciphertext = ct, rs_RedeemedAt = at\<rparr>, s'))"

definition redeem :: "aenv \<Rightarrow> EnrollmentRedeemRequest \<Rightarrow> string \<Rightarrow> adb \<Rightarrow> refusal + EnrollmentRedeemResult \<times> adb" where
  "redeem e req pub s =
     (let now = an_now e 0 in
      case find (\<lambda>(_, r). bn_digest r = an_sha e (rr_Subcode req)) (ab_enrollments s) of
        None \<Rightarrow> Inl (''unknown'', [], ErrEnrollmentInvalid)
      | Some (i, r) \<Rightarrow>
          if rr_HubID req \<noteq> ab_hub s then Inl (''wrong_hub'', i, ErrEnrollmentInvalid)
          else case bn_redeemed r of Some m \<Rightarrow> replay e now (ab_hub s) req i m s | None \<Rightarrow>
          if bn_revoked_at r \<noteq> None then Inl (''revoked'', i, ErrEnrollmentInvalid)
          else if \<not> now < bn_expires_at r * second_ns then Inl (''expired'', i, ErrEnrollmentInvalid)
          else if bn_purpose r \<noteq> EnrollmentPurposeNewUser then Inl (''purpose'', i, ErrEnrollmentInvalid)
          else redeem_fresh e now req pub i r s)"

text \<open>A refusal rolls back, and is audited in a transaction of its own.\<close>

definition RedeemEnrollment :: "aenv \<Rightarrow> EnrollmentRedeemRequest \<Rightarrow> adb \<Rightarrow> (acc_err + EnrollmentRedeemResult) \<times> adb" where
  "RedeemEnrollment e req s =
     (if \<not> MatchString requestKeyShape (rr_RequestKey req) then (Inl (ErrInvalidRequest ''the request key must be in k1_ form''), s)
      else if \<not> MatchString enrollmentLabelShape (rr_Label req) then (Inl (ErrInvalidRequest ''label must be 1 to 64 of a-z, 0-9 and -''), s)
      else if rr_Suite req \<noteq> Suite then (Inl (ErrInvalidRequest (''suite must be '' @ Suite)), s)
      else case ParsePublicKey (rr_PublicKey req) of None \<Rightarrow> (Inl (ErrInvalidRequest ''public_key must be 32 bytes of unpadded base64url''), s) | Some pub \<Rightarrow>
      case redeem e req pub s of
        Inr (out, s') \<Rightarrow> (Inr out, s')
      | Inl (reason, bundle, x) \<Rightarrow>
          if reason = [] then (Inl x, s)
          else case change e enrollmentClient (''enrollment.redeem.refused.'' @ reason) (''bundle='' @ bundle) Inr s of
            Inl y \<Rightarrow> (Inl y, s) | Inr s' \<Rightarrow> (Inl x, s'))"

end
