(* ===== verification/Identity.thy ===== *)
theory Identity
  imports Enrollments
begin

text \<open>
  The identity.v1 ledger (\<open>internal/access/identity_proofs.go\<close>): the registered peer and its credentials,
  the receipts that prove a user to it, and their redemptions.
\<close>

section \<open>Peers and credentials\<close>

definition PeerOperationRedeem :: string where "PeerOperationRedeem = ''identity.redeem''"
definition PeerOperationReservationRead :: string where "PeerOperationReservationRead = ''reservation.read''"
definition PeerOperationTeamRegister :: string where "PeerOperationTeamRegister = ''team.register''"
definition PeerOperationTeamRead :: string where "PeerOperationTeamRead = ''team.read''"
definition PeerOperationBoardRead :: string where "PeerOperationBoardRead = ''board.read''"
definition PeerOperationTaskRead :: string where "PeerOperationTaskRead = ''task.read''"

definition PeerOperations :: "string list" where
  "PeerOperations = [PeerOperationRedeem, PeerOperationReservationRead, PeerOperationTeamRegister, PeerOperationTeamRead,
     PeerOperationBoardRead, PeerOperationTaskRead]"

definition peerCredentialPrefix :: string where "peerCredentialPrefix = ''aimem_peer_''"
definition peerCredentialMaxLife :: int where "peerCredentialMaxLife = days_ns 366"
definition peerCredentialMaxActive :: nat where "peerCredentialMaxActive = 2"
definition receiptPrefix :: string where "receiptPrefix = ''amr1_''"
definition receiptLifetime :: int where "receiptLifetime = 60 * second_ns"
definition receiptsPerTokenPerMinute :: nat where "receiptsPerTokenPerMinute = 10"
definition redemptionRetention :: int where "redemptionRetention = 15 * 60 * second_ns"

definition id_char :: "nat \<Rightarrow> bool" where
  "id_char r \<longleftrightarrow> alnum r \<or> r = 46 \<or> r = 95 \<or> r = 58 \<or> r = 45"

definition identityIDPattern :: re where
  "identityIDPattern = Cats [BeginText, Cls id_char, UpTo 127 (Cls id_char), EndText]"

definition identityRequestKeyShape :: re where
  "identityRequestKeyShape = Cats [BeginText, Word_of ''k1_'', Times 43 (Cls b64url_char), EndText]"

definition identityReceiptShape :: re where
  "identityReceiptShape = Cats [BeginText, Word_of ''amr1_'', Times 43 (Cls b64url_char), EndText]"

record IdentityPeer =
  ip_ServiceID :: string
  ip_HubID :: string
  ip_Endpoint :: string
  ip_TLSMode :: string
  ip_TLSValue :: string
  ip_Disabled :: bool

record PeerCredential =
  cd_ID :: string
  cd_ServiceID :: string
  cd_Operation :: string
  cd_CreatedAt :: int
  cd_ExpiresAt :: int
  cd_Revoked :: bool

record PeerIdentity =
  pi_ServiceID :: string
  pi_CredentialID :: string
  pi_Operation :: string

text \<open>\<open>base64.StdEncoding\<close>: the standard letters, padded to four; the decoder skips line breaks.\<close>

definition std_value :: "char \<Rightarrow> nat option" where
  "std_value c = (if c = CHR ''+'' then Some 62 else if c = CHR ''/'' then Some 63
     else if c = CHR ''-'' \<or> c = CHR ''_'' then None else b64_value c)"

definition StdDecode :: "string \<Rightarrow> string option" where
  "StdDecode s =
     (let cs = filter (\<lambda>c. c \<noteq> CHR 10 \<and> c \<noteq> CHR 13) s; body = takeWhile (\<lambda>c. c \<noteq> CHR ''='') cs; pad = drop (length body) cs in
      if pad \<notin> {[], ''='', ''==''} \<or> length cs mod 4 \<noteq> 0 then None
      else case those (map std_value body) of None \<Rightarrow> None | Some ns \<Rightarrow> map_option (map char_of) (b64_join ns))"

definition validateTLSTrust :: "endpoint \<Rightarrow> string \<Rightarrow> string \<Rightarrow> string option" where
  "validateTLSTrust u mode value =
     (if mode = ''ca_dns'' then if value \<noteq> ur_Hostname u then Some ''ca_dns trust must name the endpoint host'' else None
      else if mode = ''spki_sha256'' then
        if take 7 value = ''sha256-'' \<and> map_option length (StdDecode (drop 7 value)) = Some 32 then None
        else Some ''spki_sha256 trust must be sha256- followed by a base64 SHA-256''
      else Some ''TLS trust mode must be ca_dns or spki_sha256'')"

definition other_active :: "string \<Rightarrow> adb \<Rightarrow> bool" where
  "other_active service s \<longleftrightarrow> tb_exists (\<lambda>k p. \<not> pr_disabled p \<and> k \<noteq> service) (ab_peers s)"

definition requireNoOtherActivePeer :: "string \<Rightarrow> adb \<Rightarrow> acc_err option" where
  "requireNoOtherActivePeer service s =
     (if other_active service s then Some (ErrOther ''another active identity peer is registered on this hub'') else None)"

definition RegisterIdentityPeer :: "aenv \<Rightarrow> string \<Rightarrow> IdentityPeer \<Rightarrow> adb \<Rightarrow> acc_err + adb" where
  "RegisterIdentityPeer e actor p s =
     (if \<not> MatchString identityIDPattern (ip_ServiceID p) then Inl (ErrInvalidRequest ''service ID'')
      else case an_url e (ip_Endpoint p) of
        None \<Rightarrow> Inl (ErrInvalidRequest ''endpoint must be an https URL without credentials, query or fragment'')
      | Some u \<Rightarrow>
      if ur_Scheme u \<noteq> ''https'' \<or> ur_Hostname u = [] \<or> ur_User u \<or> ur_Fragment u \<noteq> [] \<or> ur_RawQuery u \<noteq> []
        then Inl (ErrInvalidRequest ''endpoint must be an https URL without credentials, query or fragment'')
      else case validateTLSTrust u (ip_TLSMode p) (ip_TLSValue p) of Some x \<Rightarrow> Inl (ErrInvalidRequest x) | None \<Rightarrow>
      if ip_HubID p \<noteq> ab_hub s then Inl (ErrInvalidRequest ''peer must be registered for this hub'')
      else change e actor ''identity_peer.register'' (ip_ServiceID p) (\<lambda>s.
        case requireNoOtherActivePeer (ip_ServiceID p) s of Some x \<Rightarrow> Inl x | None \<Rightarrow>
        case tb_insert (ip_ServiceID p) \<lparr>pr_hub_id = ip_HubID p, pr_operation = PeerOperationRedeem, pr_endpoint = ur_String u,
            pr_tls_mode = ip_TLSMode p, pr_tls_value = ip_TLSValue p, pr_disabled = False\<rparr> (ab_peers s) of
          None \<Rightarrow> Inl ErrSQL | Some t \<Rightarrow> Inr (s\<lparr>ab_peers := t\<rparr>)) s)"

definition SetIdentityPeerDisabled :: "aenv \<Rightarrow> string \<Rightarrow> string \<Rightarrow> bool \<Rightarrow> adb \<Rightarrow> acc_err + adb" where
  "SetIdentityPeerDisabled e actor service disabled s =
     change e actor (''identity_peer.disabled.'' @ show_bool disabled) service (\<lambda>s.
       case map_of (ab_peers s) service of None \<Rightarrow> Inl (ErrOther ''unknown identity peer'') | Some p \<Rightarrow>
       case (if disabled then None else requireNoOtherActivePeer service s) of Some x \<Rightarrow> Inl x | None \<Rightarrow>
       Inr (s\<lparr>ab_peers := AList.update service (p\<lparr>pr_disabled := disabled\<rparr>) (ab_peers s)\<rparr>)) s"

record PeerRetirement =
  rt_Credentials :: nat
  rt_TeamProfiles :: nat
  rt_TeamGrants :: nat
  rt_Receipts :: nat
  rt_Redemptions :: nat

definition delete_where :: "('k \<Rightarrow> 'r \<Rightarrow> bool) \<Rightarrow> ('k, 'r) table \<Rightarrow> ('k, 'r) table" where
  "delete_where P t = filter (\<lambda>(k, r). \<not> P k r) t"

text \<open>The profiles of a service.\<close>

definition profile_of :: "string \<Rightarrow> adb \<Rightarrow> string \<Rightarrow> bool" where
  "profile_of service s i \<longleftrightarrow> tb_exists (\<lambda>k r. k = i \<and> tm_service_id r = service) (ab_profiles s)"

definition retired :: "string \<Rightarrow> adb \<Rightarrow> adb" where
  "retired service s = s\<lparr>
     ab_profile_grants := filter (\<lambda>(_, i). \<not> profile_of service s i) (ab_profile_grants s),
     ab_profiles := delete_where (\<lambda>_ r. tm_service_id r = service) (ab_profiles s),
     ab_credentials := delete_where (\<lambda>_ r. pc_service_id r = service) (ab_credentials s),
     ab_receipts := delete_where (\<lambda>_ r. rp_service_id r = service) (ab_receipts s),
     ab_redemptions := delete_where (\<lambda>(v, _) _. v = service) (ab_redemptions s),
     ab_peers := delete_where (\<lambda>k _. k = service) (ab_peers s)\<rparr>"

definition RetireIdentityPeer :: "aenv \<Rightarrow> string \<Rightarrow> string \<Rightarrow> adb \<Rightarrow> acc_err + PeerRetirement \<times> adb" where
  "RetireIdentityPeer e actor service s =
     (case map_of (ab_peers s) service of None \<Rightarrow> Inl ErrPeerUnknown | Some p \<Rightarrow>
      if \<not> pr_disabled p then Inl ErrPeerEnabled
      else let r = \<lparr>rt_Credentials = tb_count (\<lambda>_ r. pc_service_id r = service) (ab_credentials s),
            rt_TeamProfiles = tb_count (\<lambda>_ r. tm_service_id r = service) (ab_profiles s),
            rt_TeamGrants = length (filter (\<lambda>(_, i). profile_of service s i) (ab_profile_grants s)),
            rt_Receipts = tb_count (\<lambda>_ r. rp_service_id r = service) (ab_receipts s),
            rt_Redemptions = tb_count (\<lambda>(v, _) _. v = service) (ab_redemptions s)\<rparr>
      in case audit e actor ''identity_peer.retire'' (''service='' @ service @ '' credentials='' @ show_int (int (rt_Credentials r))
          @ '' team_profiles='' @ show_int (int (rt_TeamProfiles r)) @ '' team_grants='' @ show_int (int (rt_TeamGrants r))
          @ '' receipts='' @ show_int (int (rt_Receipts r)) @ '' redemptions='' @ show_int (int (rt_Redemptions r))) (retired service s) of
        Inl x \<Rightarrow> Inl x | Inr s' \<Rightarrow> Inr (r, s'))"

text \<open>The primary key and the unique digest of \<open>identity_peer_credentials\<close>.\<close>

definition insert_credential :: "string \<Rightarrow> credential_row \<Rightarrow> adb \<Rightarrow> acc_err + adb" where
  "insert_credential i r s =
     (if tb_exists (\<lambda>_ q. pc_digest q = pc_digest r) (ab_credentials s) then Inl ErrSQL
      else case tb_insert i r (ab_credentials s) of None \<Rightarrow> Inl ErrSQL | Some t \<Rightarrow> Inr (s\<lparr>ab_credentials := t\<rparr>))"

definition active_credential :: "int \<Rightarrow> string \<Rightarrow> string \<Rightarrow> credential_row \<Rightarrow> bool" where
  "active_credential now service operation r \<longleftrightarrow>
     pc_service_id r = service \<and> pc_operation r = operation \<and> \<not> pc_revoked r \<and> unix now < pc_expires_at r"

definition IssuePeerCredential ::
  "aenv \<Rightarrow> string \<Rightarrow> string \<Rightarrow> string \<Rightarrow> int \<Rightarrow> adb \<Rightarrow> acc_err + (PeerCredential \<times> string) \<times> adb" where
  "IssuePeerCredential e actor service operation expires s =
     (let now = an_now e 0 in
      if operation \<notin> set PeerOperations then Inl (ErrInvalidRequest (''operation must be one of '' @ join '', '' PeerOperations))
      else if \<not> now < expires \<or> now + peerCredentialMaxLife < expires
        then Inl (ErrInvalidRequest ''expiry must be in the future and within 366 days'')
      else case an_random e 0 of None \<Rightarrow> Inl (ErrOther ''random source'') | Some random \<Rightarrow>
      let secret = peerCredentialPrefix @ hex_encode random;
          c = \<lparr>cd_ID = an_uuid e 0, cd_ServiceID = service, cd_Operation = operation, cd_CreatedAt = truncate_second now,
               cd_ExpiresAt = truncate_second expires, cd_Revoked = False\<rparr>
      in case change e actor (''identity_peer.credential.issue.'' @ operation) (cd_ID c) (\<lambda>s.
          case map_of (ab_peers s) service of None \<Rightarrow> Inl (ErrOther ''unknown identity peer'') | Some p \<Rightarrow>
          if pr_disabled p then Inl (ErrOther ''identity peer is disabled'')
          else if peerCredentialMaxActive \<le> tb_count (\<lambda>_ r. active_credential (an_now e 1) service operation r) (ab_credentials s)
            then Inl ErrPeerCredentialLimit
          else insert_credential (cd_ID c) \<lparr>pc_service_id = service, pc_operation = operation, pc_digest = an_sha e secret,
            pc_created_at = unix (cd_CreatedAt c), pc_expires_at = unix (cd_ExpiresAt c), pc_revoked = False\<rparr> s) s of
        Inl x \<Rightarrow> Inl x | Inr s' \<Rightarrow> Inr ((c, secret), s'))"

definition RevokePeerCredential :: "aenv \<Rightarrow> string \<Rightarrow> string \<Rightarrow> string \<Rightarrow> adb \<Rightarrow> acc_err + adb" where
  "RevokePeerCredential e actor service i s = change e actor ''identity_peer.credential.revoke'' i (\<lambda>s.
     case map_of (ab_credentials s) i of None \<Rightarrow> Inl (ErrOther ''unknown peer credential'') | Some r \<Rightarrow>
     if pc_service_id r \<noteq> service then Inl (ErrOther ''unknown peer credential'')
     else Inr (s\<lparr>ab_credentials := AList.update i (r\<lparr>pc_revoked := True\<rparr>) (ab_credentials s)\<rparr>)) s"

definition RecordIdentityPeerCheck :: "aenv \<Rightarrow> string \<Rightarrow> string \<Rightarrow> string \<Rightarrow> adb \<Rightarrow> acc_err + adb" where
  "RecordIdentityPeerCheck e actor service outcome s = change e actor (''identity_peer.check.'' @ outcome) service Inr s"

definition ListIdentityPeers :: "adb \<Rightarrow> IdentityPeer list" where
  "ListIdentityPeers s = map (\<lambda>(k, p). \<lparr>ip_ServiceID = k, ip_HubID = pr_hub_id p, ip_Endpoint = pr_endpoint p,
     ip_TLSMode = pr_tls_mode p, ip_TLSValue = pr_tls_value p, ip_Disabled = pr_disabled p\<rparr>) (sort_key fst (ab_peers s))"

definition ListPeerCredentials :: "string \<Rightarrow> adb \<Rightarrow> PeerCredential list" where
  "ListPeerCredentials service s = map (\<lambda>(k, r). \<lparr>cd_ID = k, cd_ServiceID = pc_service_id r, cd_Operation = pc_operation r,
     cd_CreatedAt = pc_created_at r * second_ns, cd_ExpiresAt = pc_expires_at r * second_ns, cd_Revoked = pc_revoked r\<rparr>)
     (sort_key fst (filter (\<lambda>(_, r). pc_service_id r = service) (ab_credentials s)))"

text \<open>A credential in force: not revoked, not expired, of an enabled peer of this hub.\<close>

definition credential_live :: "int \<Rightarrow> adb \<Rightarrow> credential_row \<Rightarrow> bool" where
  "credential_live now s r \<longleftrightarrow> \<not> pc_revoked r \<and> unix now < pc_expires_at r \<and>
     (case map_of (ab_peers s) (pc_service_id r) of None \<Rightarrow> False
      | Some p \<Rightarrow> pr_hub_id p = ab_hub s \<and> \<not> pr_disabled p \<and> pr_operation p = PeerOperationRedeem)"

definition lookupPeer :: "aenv \<Rightarrow> string \<Rightarrow> adb \<Rightarrow> acc_err + PeerIdentity" where
  "lookupPeer e secret s =
     (if take (length peerCredentialPrefix) secret \<noteq> peerCredentialPrefix then Inl ErrPeerUnauthenticated
      else case find (\<lambda>(_, r). pc_digest r = an_sha e secret \<and> credential_live (an_now e 0) s r) (ab_credentials s) of
        None \<Rightarrow> Inl ErrPeerUnauthenticated
      | Some (i, r) \<Rightarrow> Inr \<lparr>pi_ServiceID = pc_service_id r, pi_CredentialID = i, pi_Operation = pc_operation r\<rparr>)"

definition AuthenticatePeer :: "aenv \<Rightarrow> string \<Rightarrow> adb \<Rightarrow> acc_err + PeerIdentity" where
  "AuthenticatePeer e secret s = lookupPeer e secret s"

definition peerStillValid :: "PeerIdentity \<Rightarrow> int \<Rightarrow> adb \<Rightarrow> acc_err option" where
  "peerStillValid p now s =
     (case map_of (ab_credentials s) (pi_CredentialID p) of None \<Rightarrow> Some ErrPeerUnauthenticated | Some r \<Rightarrow>
      if pc_service_id r = pi_ServiceID p \<and> pc_operation r = pi_Operation p \<and> credential_live now s r then None
      else Some ErrPeerUnauthenticated)"

section \<open>Receipts\<close>

record ProofRequest =
  pq_PeerServiceID :: string
  pq_HubID :: string
  pq_ChallengeID :: string

record ProofReceipt =
  pf_Receipt :: string
  pf_ID :: string
  pf_ExpiresAt :: int
  pf_HubID :: string
  pf_PeerServiceID :: string
  pf_ChallengeID :: string
  pf_UserID :: string
  pf_TokenID :: string

record RedeemRequest =
  dq_HubID :: string
  dq_ChallengeID :: string
  dq_Receipt :: string
  dq_RequestKey :: string

record Redemption =
  dm_ID :: string
  dm_RequestKey :: string
  dm_Replayed :: bool
  dm_PeerServiceID :: string
  dm_ChallengeID :: string
  dm_HubID :: string
  dm_UserID :: string
  dm_TokenID :: string
  dm_RedeemedAt :: int

text \<open>Whether a token is live, and whether it is a user's own: its scope \<open>user\<close>, without a project.\<close>

definition userTokenState :: "string \<Rightarrow> string \<Rightarrow> int \<Rightarrow> adb \<Rightarrow> bool \<times> bool" where
  "userTokenState user token now s =
     (case map_of (ab_tokens s) token of None \<Rightarrow> (False, False) | Some r \<Rightarrow>
      if tok_user_id r = user \<and> enabled_user user s \<and> \<not> tok_revoked r \<and> unix now < tok_expires_at r
      then (True, tok_scope r = ScopeUser \<and> tok_project r = []) else (False, False))"

definition pruneIdentityLedger :: "int \<Rightarrow> adb \<Rightarrow> adb" where
  "pruneIdentityLedger now s = (let floor_ms = unix_ms (now - redemptionRetention) in
     s\<lparr>ab_redemptions := delete_where (\<lambda>_ r. rd_redeemed_ms r < floor_ms) (ab_redemptions s),
       ab_receipts := delete_where (\<lambda>_ r. rp_expires_ms r < floor_ms) (ab_receipts s)\<rparr>)"

definition supersede :: "string \<Rightarrow> string \<Rightarrow> string \<Rightarrow> adb \<Rightarrow> adb" where
  "supersede token service challenge s = s\<lparr>ab_receipts := map (\<lambda>(k, r).
     (k, if rp_token_id r = token \<and> rp_service_id r = service \<and> rp_challenge_id r = challenge \<and> rp_state r = ''live''
         then r\<lparr>rp_state := ''superseded''\<rparr> else r)) (ab_receipts s)\<rparr>"

text \<open>The primary key and the unique digest of \<open>identity_receipts\<close>.\<close>

definition insert_receipt :: "string \<Rightarrow> receipt_row \<Rightarrow> adb \<Rightarrow> acc_err + adb" where
  "insert_receipt i r s =
     (if tb_exists (\<lambda>_ q. rp_digest q = rp_digest r) (ab_receipts s) then Inl ErrSQL
      else case tb_insert i r (ab_receipts s) of None \<Rightarrow> Inl ErrSQL | Some t \<Rightarrow> Inr (s\<lparr>ab_receipts := t\<rparr>))"

definition receipt_secret :: "string \<Rightarrow> string" where
  "receipt_secret random = receiptPrefix @ RawURLEncode random"

definition IssueProof :: "aenv \<Rightarrow> string \<Rightarrow> string \<Rightarrow> ProofRequest \<Rightarrow> adb \<Rightarrow> acc_err + ProofReceipt \<times> adb" where
  "IssueProof e user token req s =
     (if \<not> MatchString identityIDPattern (pq_ChallengeID req) \<or> \<not> MatchString identityIDPattern (pq_PeerServiceID req)
        then Inl (ErrInvalidRequest [])
      else case an_random e 0 of None \<Rightarrow> Inl (ErrOther ''random source'') | Some random \<Rightarrow>
      let now = an_now e 0;
          r = \<lparr>pf_Receipt = receipt_secret random, pf_ID = an_uuid e 0, pf_ExpiresAt = now + receiptLifetime, pf_HubID = pq_HubID req,
               pf_PeerServiceID = pq_PeerServiceID req, pf_ChallengeID = pq_ChallengeID req, pf_UserID = user, pf_TokenID = token\<rparr>;
          (live, scoped) = userTokenState user token now s in
      if \<not> live then Inl ErrDenied
      else if \<not> scoped then Inl ErrCredentialScope
      else if (case map_of (ab_peers s) (pq_PeerServiceID req) of None \<Rightarrow> True
          | Some p \<Rightarrow> pr_hub_id p \<noteq> pq_HubID req \<or> pr_hub_id p \<noteq> ab_hub s \<or> pr_disabled p \<or> pr_operation p \<noteq> PeerOperationRedeem)
        then Inl ErrPeerUnknown
      else if receiptsPerTokenPerMinute \<le> tb_count (\<lambda>_ q. rp_token_id q = token \<and> unix_ms (now - 60 * second_ns) < rp_created_ms q) (ab_receipts s)
        then Inl ErrRateLimited
      else case insert_receipt (pf_ID r) \<lparr>rp_digest = an_sha e (pf_Receipt r), rp_service_id = pf_PeerServiceID r, rp_hub_id = pf_HubID r,
          rp_challenge_id = pf_ChallengeID r, rp_user_id = user, rp_token_id = token, rp_created_ms = unix_ms now,
          rp_expires_ms = unix_ms (pf_ExpiresAt r), rp_state = ''live''\<rparr>
          (supersede token (pq_PeerServiceID req) (pq_ChallengeID req) (pruneIdentityLedger now s)) of
        Inl x \<Rightarrow> Inl x | Inr s1 \<Rightarrow>
      case audit e (''user:'' @ user) ''identity.proof.issue'' (pf_ID r) s1 of Inl x \<Rightarrow> Inl x | Inr s' \<Rightarrow> Inr (r, s'))"

section \<open>Redemptions\<close>

definition receipt_input_digest :: "aenv \<Rightarrow> RedeemRequest \<Rightarrow> string" where
  "receipt_input_digest e req = an_sha e (dq_HubID req @ [CHR 0x00] @ dq_ChallengeID req @ [CHR 0x00] @ an_sha e (dq_Receipt req))"

text \<open>Why a receipt cannot be redeemed: the audit's reason.\<close>

definition receipt_refusal :: "int \<Rightarrow> PeerIdentity \<Rightarrow> RedeemRequest \<Rightarrow> receipt_row \<Rightarrow> string option" where
  "receipt_refusal now peer req r =
     (if rp_service_id r \<noteq> pi_ServiceID peer then Some ''wrong_peer''
      else if rp_challenge_id r \<noteq> dq_ChallengeID req then Some ''wrong_challenge''
      else if rp_hub_id r \<noteq> dq_HubID req then Some ''wrong_hub''
      else if rp_state r = ''redeemed'' then Some ''already_redeemed''
      else if rp_state r = ''superseded'' then Some ''superseded''
      else if rp_expires_ms r \<le> unix_ms now then Some ''expired''
      else None)"

text \<open>The primary key, the unique id and the unique receipt of \<open>identity_redemptions\<close>.\<close>

definition insert_redemption :: "string \<times> string \<Rightarrow> redemption_row \<Rightarrow> adb \<Rightarrow> acc_err + adb" where
  "insert_redemption k r s =
     (if tb_exists (\<lambda>_ q. rd_id q = rd_id r \<or> rd_receipt_id q = rd_receipt_id r) (ab_redemptions s) then Inl ErrSQL
      else case tb_insert k r (ab_redemptions s) of None \<Rightarrow> Inl ErrSQL | Some t \<Rightarrow> Inr (s\<lparr>ab_redemptions := t\<rparr>))"

text \<open>The first redemption of a live receipt: its state, the recorded result, the audit.\<close>

definition redeem_receipt ::
  "aenv \<Rightarrow> int \<Rightarrow> PeerIdentity \<Rightarrow> RedeemRequest \<Rightarrow> string \<Rightarrow> receipt_row \<Rightarrow> adb \<Rightarrow> acc_err + Redemption \<times> adb" where
  "redeem_receipt e now peer req i r s =
     (if rp_state r \<noteq> ''live'' then Inl (ErrOther ''receipt state changed during redemption'')
      else let m = \<lparr>dm_ID = an_uuid e 0, dm_RequestKey = dq_RequestKey req, dm_Replayed = False, dm_PeerServiceID = pi_ServiceID peer,
            dm_ChallengeID = rp_challenge_id r, dm_HubID = rp_hub_id r, dm_UserID = rp_user_id r, dm_TokenID = rp_token_id r,
            dm_RedeemedAt = unix_ms now * 1000000\<rparr>
      in case insert_redemption (pi_ServiceID peer, dq_RequestKey req) \<lparr>rd_input_digest = receipt_input_digest e req, rd_id = dm_ID m,
          rd_receipt_id = i, rd_hub_id = rp_hub_id r, rd_challenge_id = rp_challenge_id r, rd_user_id = rp_user_id r,
          rd_token_id = rp_token_id r, rd_redeemed_ms = unix_ms now\<rparr>
          (s\<lparr>ab_receipts := AList.update i (r\<lparr>rp_state := ''redeemed''\<rparr>) (ab_receipts s)\<rparr>) of
        Inl x \<Rightarrow> Inl x | Inr s1 \<Rightarrow>
      case audit e (''peer:'' @ pi_ServiceID peer) ''identity.redeem'' (dm_ID m) s1 of Inl x \<Rightarrow> Inl x | Inr s' \<Rightarrow> Inr (m, s'))"

text \<open>A refusal commits its audit, with the pruning that came before it.\<close>

definition refuse_redeem ::
  "aenv \<Rightarrow> PeerIdentity \<Rightarrow> RedeemRequest \<Rightarrow> adb \<Rightarrow> string \<Rightarrow> acc_err \<Rightarrow> adb \<Rightarrow> (acc_err + Redemption) \<times> adb" where
  "refuse_redeem e peer req s0 reason cause s =
     (case audit e (''peer:'' @ pi_ServiceID peer) (''identity.redeem.refused.'' @ reason) (dq_ChallengeID req) s of
        Inl x \<Rightarrow> (Inl x, s0) | Inr s' \<Rightarrow> (Inl cause, s'))"

definition RedeemProof :: "aenv \<Rightarrow> PeerIdentity \<Rightarrow> RedeemRequest \<Rightarrow> adb \<Rightarrow> (acc_err + Redemption) \<times> adb" where
  "RedeemProof e peer req s =
     (let now = an_now e 0; refuse = refuse_redeem e peer req s in
      if pi_Operation peer \<noteq> PeerOperationRedeem then (Inl ErrPeerForbidden, s)
      else if \<not> MatchString identityRequestKeyShape (dq_RequestKey req) \<or> \<not> MatchString identityReceiptShape (dq_Receipt req)
        \<or> \<not> MatchString identityIDPattern (dq_ChallengeID req) \<or> dq_HubID req = [] then (Inl (ErrInvalidRequest []), s)
      else case peerStillValid peer now s of Some x \<Rightarrow> (Inl x, s) | None \<Rightarrow>
      let s1 = pruneIdentityLedger now s in
      case map_of (ab_redemptions s1) (pi_ServiceID peer, dq_RequestKey req) of
        Some m \<Rightarrow>
          if rd_input_digest m \<noteq> receipt_input_digest e req then refuse ''changed_input'' ErrIdempotencyConflict s1
          else if userTokenState (rd_user_id m) (rd_token_id m) now s1 \<noteq> (True, True)
            then refuse ''token_inactive_on_replay'' ErrCredentialInactive s1
          else (Inr \<lparr>dm_ID = rd_id m, dm_RequestKey = dq_RequestKey req, dm_Replayed = True, dm_PeerServiceID = pi_ServiceID peer,
            dm_ChallengeID = rd_challenge_id m, dm_HubID = rd_hub_id m, dm_UserID = rd_user_id m, dm_TokenID = rd_token_id m,
            dm_RedeemedAt = rd_redeemed_ms m * 1000000\<rparr>, s1)
      | None \<Rightarrow>
      case find (\<lambda>(_, r). rp_digest r = an_sha e (dq_Receipt req)) (ab_receipts s1) of
        None \<Rightarrow> refuse ''unknown'' ErrProofInvalid s1
      | Some (i, r) \<Rightarrow>
      case receipt_refusal now peer req r of Some reason \<Rightarrow> refuse reason ErrProofInvalid s1 | None \<Rightarrow>
      if userTokenState (rp_user_id r) (rp_token_id r) now s1 \<noteq> (True, True) then refuse ''token_inactive'' ErrCredentialInactive s1
      else case redeem_receipt e now peer req i r s1 of Inl x \<Rightarrow> (Inl x, s) | Inr (m, s') \<Rightarrow> (Inr m, s'))"

end
