(* ===== verification/TeamProfiles.thy ===== *)
theory TeamProfiles
  imports Identity
begin

text \<open>
  Team profiles (\<open>internal/access/team_profiles.go\<close>): the teams a peer registers, and the projects an
  operator grants them. An operation that reads the store before its transaction takes that earlier store
  as an argument of its own. \<open>quote\<close> stands for the verb \<open>%q\<close> of \<open>fmt\<close>.
\<close>

section \<open>Profiles\<close>

record AccessTeamProfile =
  ap_ID :: string
  ap_ServiceID :: string
  ap_TeamID :: string
  ap_TeamName :: string
  ap_Disabled :: bool

definition no_profile :: AccessTeamProfile where
  "no_profile = \<lparr>ap_ID = [], ap_ServiceID = [], ap_TeamID = [], ap_TeamName = [], ap_Disabled = False\<rparr>"

definition scan_profile :: "string \<Rightarrow> profile_row \<Rightarrow> AccessTeamProfile" where
  "scan_profile i r = \<lparr>ap_ID = i, ap_ServiceID = tm_service_id r, ap_TeamID = tm_team_id r, ap_TeamName = tm_team_name r,
     ap_Disabled = tm_disabled r\<rparr>"

definition teamAuditSubject :: "AccessTeamProfile \<Rightarrow> string \<Rightarrow> string" where
  "teamAuditSubject p inst = ''service='' @ ap_ServiceID p @ '' team='' @ ap_TeamID p @ '' profile='' @ ap_ID p
     @ (if inst \<noteq> [] then '' instance='' @ inst else [])"

definition of_team :: "string \<Rightarrow> string \<Rightarrow> profile_row \<Rightarrow> bool" where
  "of_team service team r \<longleftrightarrow> tm_service_id r = service \<and> tm_team_id r = team"

text \<open>The primary key and the unique key of \<open>team_access_profiles\<close>; its unique name is settled before.\<close>

definition insert_profile :: "string \<Rightarrow> profile_row \<Rightarrow> adb \<Rightarrow> acc_err + adb" where
  "insert_profile i r s =
     (if tb_exists (\<lambda>_ q. of_team (tm_service_id r) (tm_team_id r) q) (ab_profiles s) then Inl ErrSQL
      else case tb_insert i r (ab_profiles s) of None \<Rightarrow> Inl ErrSQL | Some t \<Rightarrow> Inr (s\<lparr>ab_profiles := t\<rparr>))"

definition CreateTeamProfile :: "aenv \<Rightarrow> string \<Rightarrow> string \<Rightarrow> string \<Rightarrow> adb \<Rightarrow> acc_err + AccessTeamProfile \<times> adb" where
  "CreateTeamProfile e actor service team s =
     (if \<not> MatchString identityIDPattern service then Inl (ErrInvalidRequest ''service ID'')
      else if \<not> MatchString identityIDPattern team then Inl (ErrInvalidRequest ''team ID must be 1-128 of A-Z a-z 0-9 . _ : -'')
      else if team = ''.'' \<or> team = ''..'' then Inl (ErrInvalidRequest ''a team ID cannot be \".\" or \"..\"'')
      else let p = \<lparr>ap_ID = an_uuid e 0, ap_ServiceID = service, ap_TeamID = team, ap_TeamName = [], ap_Disabled = False\<rparr> in
      case change e actor ''team_profile.create'' (teamAuditSubject p []) (\<lambda>s.
          if \<not> has_row (ab_peers s) service then Inl ErrPeerUnknown
          else if tb_exists (\<lambda>_ r. of_team service team r) (ab_profiles s) then Inl ErrTeamProfileExists
          else insert_profile (ap_ID p) \<lparr>tm_service_id = service, tm_team_id = team, tm_team_name = [], tm_disabled = False\<rparr> s) s of
        Inl x \<Rightarrow> Inl x | Inr s' \<Rightarrow> Inr (p, s'))"

definition ListTeamProfiles :: "string \<Rightarrow> adb \<Rightarrow> AccessTeamProfile list" where
  "ListTeamProfiles service s = map (\<lambda>(i, r). scan_profile i r)
     (sort_key (\<lambda>(_, r). tm_team_id r) (filter (\<lambda>(_, r). tm_service_id r = service) (ab_profiles s)))"

definition teamProfileByID :: "string \<Rightarrow> adb \<Rightarrow> acc_err + AccessTeamProfile" where
  "teamProfileByID i s = (case map_of (ab_profiles s) i of None \<Rightarrow> Inl ErrTeamProfileUnknown | Some r \<Rightarrow> Inr (scan_profile i r))"

definition TeamProfileByKey :: "string \<Rightarrow> string \<Rightarrow> adb \<Rightarrow> AccessTeamProfile option" where
  "TeamProfileByKey service team s =
     map_option (\<lambda>(i, r). scan_profile i r) (find (\<lambda>(_, r). of_team service team r) (ab_profiles s))"

definition SetTeamProfileDisabled :: "aenv \<Rightarrow> string \<Rightarrow> string \<Rightarrow> bool \<Rightarrow> adb \<Rightarrow> adb \<Rightarrow> acc_err + adb" where
  "SetTeamProfileDisabled e actor i disabled s0 s =
     (case teamProfileByID i s0 of Inl x \<Rightarrow> Inl x | Inr p \<Rightarrow>
      change e actor (''team_profile.disabled.'' @ show_bool disabled) (teamAuditSubject p []) (\<lambda>s.
        case map_of (ab_profiles s) i of None \<Rightarrow> Inl (ErrOther ''unknown team_access_profiles ID'')
        | Some r \<Rightarrow> Inr (s\<lparr>ab_profiles := AList.update i (r\<lparr>tm_disabled := disabled\<rparr>) (ab_profiles s)\<rparr>)) s)"

section \<open>Grants\<close>

definition SetTeamGrant :: "aenv \<Rightarrow> string \<Rightarrow> string \<Rightarrow> string \<Rightarrow> bool \<Rightarrow> adb \<Rightarrow> adb \<Rightarrow> acc_err + adb" where
  "SetTeamGrant e actor project i present s0 s =
     (if project = [] \<or> list_ex (\<lambda>c. c = CHR '' '' \<or> c = CHR ''/'') project then Inl (ErrInvalidRequest ''project instance'')
      else case teamProfileByID i s0 of Inl x \<Rightarrow> Inl x | Inr p \<Rightarrow>
      change e actor (''team_grant.'' @ show_bool present) (teamAuditSubject p project) (\<lambda>s.
        case requireRow ''team_access_profiles'' (ab_profiles s) i of Some x \<Rightarrow> Inl x
        | None \<Rightarrow> Inr (s\<lparr>ab_profile_grants := set_present (project, i) present (ab_profile_grants s)\<rparr>)) s)"

definition profile_enabled :: "string \<Rightarrow> adb \<Rightarrow> bool" where
  "profile_enabled i s \<longleftrightarrow> (case map_of (ab_profiles s) i of None \<Rightarrow> False | Some p \<Rightarrow> \<not> tm_disabled p)"

definition TeamGrantAllows :: "aenv \<Rightarrow> string \<Rightarrow> string \<Rightarrow> string \<Rightarrow> string \<Rightarrow> adb \<Rightarrow> bool" where
  "TeamGrantAllows e user token i project s \<longleftrightarrow>
     user \<noteq> [] \<and> token \<noteq> [] \<and> i \<noteq> [] \<and> project \<noteq> [] \<and> profile_enabled i s \<and> (project, i) \<in> set (ab_profile_grants s) \<and>
     (case map_of (ab_tokens s) token of None \<Rightarrow> False
      | Some r \<Rightarrow> tok_user_id r = user \<and> live_row e s r \<and> tok_scope r = ScopeUser \<and> tok_project r = [])"

definition TeamGrantInstances :: "string \<Rightarrow> adb \<Rightarrow> string list" where
  "TeamGrantInstances i s = sort (map fst (filter (\<lambda>(_, j). j = i) (ab_profile_grants s)))"

definition TeamGrantProjects :: "string \<Rightarrow> adb \<Rightarrow> string list" where
  "TeamGrantProjects i s = (if profile_enabled i s then sort (map fst (filter (\<lambda>(_, j). j = i) (ab_profile_grants s))) else [])"

definition RecordTeamRequest :: "aenv \<Rightarrow> string \<Rightarrow> string \<Rightarrow> string \<Rightarrow> adb \<Rightarrow> acc_err + adb" where
  "RecordTeamRequest e actor action subject s = change e actor action subject Inr s"

definition RecordTeamRevokeWithoutInstance :: "aenv \<Rightarrow> string \<Rightarrow> string \<Rightarrow> string \<Rightarrow> adb \<Rightarrow> adb \<Rightarrow> acc_err + adb" where
  "RecordTeamRevokeWithoutInstance e actor i project s0 s =
     (case teamProfileByID i s0 of Inl x \<Rightarrow> Inl x | Inr p \<Rightarrow>
      change e actor ''team_grant.false'' (teamAuditSubject p [] @ '' project='' @ project @ '' instance=none'') Inr s)"

section \<open>Registration\<close>

text \<open>The shape \<open>teamUUIDPattern\<close> is that of a bundle's id.\<close>

definition teamUUIDPattern :: re where
  "teamUUIDPattern = Cats [BeginText, Times 8 (Cls lower_hex), Lit 45, Times 4 (Cls lower_hex), Lit 45, Times 4 (Cls lower_hex), Lit 45,
     Times 4 (Cls lower_hex), Lit 45, Times 12 (Cls lower_hex), EndText]"

record TeamRegistration =
  rg_Profile :: AccessTeamProfile
  rg_OldName :: string
  rg_Created :: bool

definition registration_outcome :: "string \<Rightarrow> TeamRegistration \<Rightarrow> acc_err option \<Rightarrow> string" where
  "registration_outcome name reg x = (case x of
     None \<Rightarrow> if rg_Created reg then ''created'' else if rg_OldName reg = name then ''unchanged'' else ''renamed''
   | Some ErrPeerForbidden \<Rightarrow> ''refused.peer_forbidden''
   | Some ErrPeerUnauthenticated \<Rightarrow> ''refused.peer_unauthenticated''
   | Some ErrTeamNameTaken \<Rightarrow> ''refused.team_name_taken''
   | Some ErrTeamProfileDisabled \<Rightarrow> ''refused.profile_disabled''
   | Some (ErrInvalidRequest _) \<Rightarrow> ''refused.invalid_request''
   | Some _ \<Rightarrow> ''failed'')"

definition registration_subject :: "(string \<Rightarrow> string) \<Rightarrow> string \<Rightarrow> string \<Rightarrow> string \<Rightarrow> TeamRegistration \<Rightarrow> string" where
  "registration_subject quote service team name reg =
     ''service='' @ service @ '' team='' @ team @ '' old_name='' @ quote (rg_OldName reg) @ '' new_name='' @ quote name
       @ '' profile='' @ ap_ID (rg_Profile reg)"

text \<open>The refusal it reports, or the failure of its audit, with the store after it.\<close>

definition recordRegistration :: "aenv \<Rightarrow> string \<Rightarrow> string \<Rightarrow> string \<Rightarrow> acc_err \<Rightarrow> adb \<Rightarrow> acc_err \<times> adb" where
  "recordRegistration e actor outcome subject cause s =
     (case change e actor (''team.register.'' @ outcome) subject Inr s of Inl x \<Rightarrow> (x, s) | Inr s' \<Rightarrow> (cause, s'))"

text \<open>The transaction: what it refuses with the registration to report, or the registration with the store.\<close>

definition register_tx :: "aenv \<Rightarrow> PeerIdentity \<Rightarrow> string \<Rightarrow> string \<Rightarrow> TeamRegistration \<Rightarrow> adb \<Rightarrow>
    (acc_err \<times> TeamRegistration) + TeamRegistration \<times> adb" where
  "register_tx e peer team name reg s =
     (let service = pi_ServiceID peer in
      case peerStillValid peer (an_now e 0) s of Some x \<Rightarrow> Inl (x, reg) | None \<Rightarrow>
      if tb_exists (\<lambda>_ r. tm_team_id r = team \<and> tm_service_id r \<noteq> service) (ab_profiles s) then Inl (ErrPeerForbidden, reg)
      else let row = find (\<lambda>(_, r). of_team service team r) (ab_profiles s);
          p = (case row of Some (i, r) \<Rightarrow> scan_profile i r
            | None \<Rightarrow> \<lparr>ap_ID = an_uuid e 0, ap_ServiceID = service, ap_TeamID = team, ap_TeamName = [], ap_Disabled = False\<rparr>);
          reg1 = reg\<lparr>rg_Created := row = None, rg_OldName := ap_TeamName p\<rparr>
      in if ap_Disabled p then Inl (ErrTeamProfileDisabled, reg1\<lparr>rg_Profile := p\<rparr>)
      else if tb_exists (\<lambda>_ r. tm_service_id r = service \<and> tm_team_name r = name \<and> tm_team_id r \<noteq> team) (ab_profiles s)
        then Inl (ErrTeamNameTaken, reg1\<lparr>rg_Profile := p\<rparr>)
      else case (case row of
          None \<Rightarrow> insert_profile (ap_ID p) \<lparr>tm_service_id = service, tm_team_id = team, tm_team_name = name, tm_disabled = False\<rparr> s
        | Some (i, r) \<Rightarrow> Inr (s\<lparr>ab_profiles := AList.update i (r\<lparr>tm_team_name := name\<rparr>) (ab_profiles s)\<rparr>)) of
        Inl x \<Rightarrow> Inl (x, reg1)
      | Inr s' \<Rightarrow> Inr (reg1\<lparr>rg_Profile := p\<lparr>ap_TeamName := name\<rparr>\<rparr>, s'))"

definition RegisterTeam :: "(string \<Rightarrow> string) \<Rightarrow> aenv \<Rightarrow> string \<Rightarrow> PeerIdentity \<Rightarrow> string \<Rightarrow> string \<Rightarrow> adb \<Rightarrow> adb \<Rightarrow>
    (TeamRegistration \<times> acc_err option) \<times> adb" where
  "RegisterTeam quote e actor peer team name s0 s =
     (let service = pi_ServiceID peer;
          reg0 = \<lparr>rg_Profile = no_profile, rg_OldName = [], rg_Created = False\<rparr>;
          reg = (case TeamProfileByKey service team s0 of None \<Rightarrow> reg0 | Some p \<Rightarrow> reg0\<lparr>rg_Profile := p, rg_OldName := ap_TeamName p\<rparr>);
          refuse = (\<lambda>(x, reg). case recordRegistration e actor (registration_outcome name reg (Some x))
            (registration_subject quote service team name reg) x s of (y, s') \<Rightarrow> ((reg, Some y), s'))
      in if \<not> MatchString teamUUIDPattern team then refuse (ErrInvalidRequest ''team ID must be a lowercase canonical UUID'', reg)
      else if \<not> validName name then refuse (ErrInvalidRequest (''team name: '' @ name_text name), reg)
      else case register_tx e peer team name reg s of
        Inl r \<Rightarrow> refuse r
      | Inr (reg1, s1) \<Rightarrow>
          (case audit e actor (''team.register.'' @ registration_outcome name reg1 None) (registration_subject quote service team name reg1) s1 of
             Inl x \<Rightarrow> ((reg1, Some x), s) | Inr s' \<Rightarrow> ((reg1, None), s')))"

end
