(* ===== verification/AccessSteps.thy ===== *)
theory AccessSteps
  imports TeamProfiles
begin

text \<open>
  The access store as a step relation. \<open>aop\<close> is one operation; \<open>edit\<close> is one change of a table, with what
  the operations check before it. Every operation is a run of edits (\<open>aop_edits\<close>), so an invariant is
  shown once for each edit.
\<close>

section \<open>Operations\<close>

inductive aop :: "aenv \<Rightarrow> adb \<Rightarrow> adb \<Rightarrow> bool" for e s where
  createUser: "CreateUser e actor name s = Inr (u, s') \<Longrightarrow> aop e s s'"
| setUser: "SetUser e actor uid name disabled s = Inr s' \<Longrightarrow> aop e s s'"
| createGroup: "CreateGroup e actor name s = Inr (g, s') \<Longrightarrow> aop e s s'"
| setMember: "SetMember e actor grp user present s = Inr s' \<Longrightarrow> aop e s s'"
| setGrant: "SetGrant e actor project kind subject present s = Inr s' \<Longrightarrow> aop e s s'"
| issueToken: "IssueScoped e actor user label scope project expires s = Inr (t, s') \<Longrightarrow> aop e s s'"
| revoke: "Revoke e actor i s = Inr s' \<Longrightarrow> aop e s s'"
| issueEnrollment: "IssueEnrollment e actor req s = Inr (m, s') \<Longrightarrow> aop e s s'"
| revokeEnrollment: "RevokeEnrollment e actor i s = Inr (m, s') \<Longrightarrow> aop e s s'"
| redeemEnrollment: "RedeemEnrollment e rreq s = (res, s') \<Longrightarrow> aop e s s'"
| registerPeer: "RegisterIdentityPeer e actor p s = Inr s' \<Longrightarrow> aop e s s'"
| setPeer: "SetIdentityPeerDisabled e actor service disabled s = Inr s' \<Longrightarrow> aop e s s'"
| retirePeer: "RetireIdentityPeer e actor service s = Inr (r, s') \<Longrightarrow> aop e s s'"
| issueCredential: "IssuePeerCredential e actor service operation expires s = Inr (c, s') \<Longrightarrow> aop e s s'"
| revokeCredential: "RevokePeerCredential e actor service i s = Inr s' \<Longrightarrow> aop e s s'"
| checkPeer: "RecordIdentityPeerCheck e actor service outcome s = Inr s' \<Longrightarrow> aop e s s'"
| issueProof: "IssueProof e user token preq s = Inr (f, s') \<Longrightarrow> aop e s s'"
| redeemProof: "RedeemProof e peer dreq s = (mres, s') \<Longrightarrow> aop e s s'"
| createProfile: "CreateTeamProfile e actor service team s = Inr (q, s') \<Longrightarrow> aop e s s'"
| setProfile: "SetTeamProfileDisabled e actor i disabled s0 s = Inr s' \<Longrightarrow> aop e s s'"
| setTeamGrant: "SetTeamGrant e actor project i present s0 s = Inr s' \<Longrightarrow> aop e s s'"
| recordRequest: "RecordTeamRequest e actor action subject s = Inr s' \<Longrightarrow> aop e s s'"
| recordRevoke: "RecordTeamRevokeWithoutInstance e actor i project s0 s = Inr s' \<Longrightarrow> aop e s s'"
| registerTeam: "RegisterTeam quote e actor peer team name s0 s = (reg, s') \<Longrightarrow> aop e s s'"

section \<open>Edits\<close>

text \<open>The digests of the receipts an environment can mint; an edit mints those of \<open>M\<close> only.\<close>

definition mints :: "aenv \<Rightarrow> string \<Rightarrow> bool" where
  "mints e d \<longleftrightarrow> (\<exists>r. an_random e 0 = Some r \<and> d = an_sha e (receipt_secret r))"

text \<open>No other team of a service holds a name.\<close>

definition name_free :: "string \<Rightarrow> string \<Rightarrow> string \<Rightarrow> adb \<Rightarrow> bool" where
  "name_free v team name s \<longleftrightarrow> \<not> tb_exists (\<lambda>_ r. tm_service_id r = v \<and> tm_team_name r = name \<and> tm_team_id r \<noteq> team) (ab_profiles s)"

inductive edit :: "(string \<Rightarrow> bool) \<Rightarrow> adb \<Rightarrow> adb \<Rightarrow> bool" for M s where
  ed_audit: "edit M s (s\<lparr>ab_audit := t\<rparr>)"
| ed_user_new: "tb_insert i r (ab_users s) = Some t \<Longrightarrow> edit M s (s\<lparr>ab_users := t\<rparr>)"
| ed_user_set: "has_row (ab_users s) i \<Longrightarrow> edit M s (s\<lparr>ab_users := AList.update i r (ab_users s)\<rparr>)"
| ed_group_new: "tb_insert i n (ab_groups s) = Some t \<Longrightarrow> edit M s (s\<lparr>ab_groups := t\<rparr>)"
| ed_member: "has_row (ab_groups s) g \<Longrightarrow> has_row (ab_users s) u \<Longrightarrow>
    edit M s (s\<lparr>ab_members := set_present (g, u) present (ab_members s)\<rparr>)"
| ed_grant: "k = ''group'' \<and> has_row (ab_groups s) i \<or> k = ''user'' \<and> has_row (ab_users s) i \<Longrightarrow>
    edit M s (s\<lparr>ab_grants := set_present (p, k, i) present (ab_grants s)\<rparr>)"
| ed_token_new: "insert_token i tk s = Inr s' \<Longrightarrow> has_row (ab_users s) (tok_user_id tk) \<Longrightarrow> \<not> tok_revoked tk \<Longrightarrow> edit M s s'"
| ed_token_revoke: "map_of (ab_tokens s) i = Some tk \<Longrightarrow>
    edit M s (s\<lparr>ab_tokens := AList.update i (tk\<lparr>tok_revoked := True\<rparr>) (ab_tokens s)\<rparr>)"
| ed_bundle_new: "insert_bundle i b s = Inr s' \<Longrightarrow> bn_revoked_at b = None \<Longrightarrow> bn_redeemed b = None \<Longrightarrow> edit M s s'"
| ed_bundle_revoke: "map_of (ab_enrollments s) i = Some b \<Longrightarrow> bn_revoked_at b = None \<Longrightarrow> bn_redeemed b = None \<Longrightarrow>
    edit M s (s\<lparr>ab_enrollments := AList.update i (b\<lparr>bn_revoked_at := Some n\<rparr>) (ab_enrollments s)\<rparr>)"
| ed_bundle_redeem: "map_of (ab_enrollments s) i = Some b \<Longrightarrow> bn_revoked_at b = None \<Longrightarrow> bn_redeemed b = None \<Longrightarrow>
    has_row (ab_users s) (rm_user_id m) \<Longrightarrow> has_row (ab_tokens s) (rm_token_id m) \<Longrightarrow>
    edit M s (s\<lparr>ab_enrollments := AList.update i (b\<lparr>bn_redeemed := Some m\<rparr>) (ab_enrollments s)\<rparr>)"
| ed_peer_new: "\<not> other_active v s \<Longrightarrow> tb_insert v p (ab_peers s) = Some t' \<Longrightarrow> edit M s (s\<lparr>ab_peers := t'\<rparr>)"
| ed_peer_set: "map_of (ab_peers s) v = Some p \<Longrightarrow> disabled \<or> \<not> other_active v s \<Longrightarrow>
    edit M s (s\<lparr>ab_peers := AList.update v (p\<lparr>pr_disabled := disabled\<rparr>) (ab_peers s)\<rparr>)"
| ed_retire: "edit M s (retired v s)"
| ed_credential_new: "insert_credential i c s = Inr s' \<Longrightarrow> has_row (ab_peers s) (pc_service_id c) \<Longrightarrow> edit M s s'"
| ed_credential_revoke: "map_of (ab_credentials s) i = Some c \<Longrightarrow>
    edit M s (s\<lparr>ab_credentials := AList.update i (c\<lparr>pc_revoked := True\<rparr>) (ab_credentials s)\<rparr>)"
| ed_prune: "edit M s (pruneIdentityLedger now s)"
| ed_supersede: "edit M s (supersede token v ch s)"
| ed_receipt_new: "insert_receipt i f s = Inr s' \<Longrightarrow> M (rp_digest f) \<Longrightarrow> edit M s s'"
| ed_receipt_redeem: "map_of (ab_receipts s) i = Some f \<Longrightarrow> rp_state f = ''live'' \<Longrightarrow> rd_receipt_id d = i \<Longrightarrow>
    rd_redeemed_ms d < rp_expires_ms f \<Longrightarrow> rp_service_id f = fst k \<Longrightarrow>
    insert_redemption k d (s\<lparr>ab_receipts := AList.update i (f\<lparr>rp_state := ''redeemed''\<rparr>) (ab_receipts s)\<rparr>) = Inr s' \<Longrightarrow> edit M s s'"
| ed_profile_new: "insert_profile i q s = Inr s' \<Longrightarrow> has_row (ab_peers s) (tm_service_id q) \<Longrightarrow>
    tm_team_name q = [] \<or> name_free (tm_service_id q) (tm_team_id q) (tm_team_name q) s \<Longrightarrow> edit M s s'"
| ed_profile_set: "map_of (ab_profiles s) i = Some q \<Longrightarrow> tm_service_id q' = tm_service_id q \<Longrightarrow> tm_team_id q' = tm_team_id q \<Longrightarrow>
    tm_team_name q' = tm_team_name q \<or> name_free (tm_service_id q) (tm_team_id q) (tm_team_name q') s \<Longrightarrow>
    edit M s (s\<lparr>ab_profiles := AList.update i q' (ab_profiles s)\<rparr>)"
| ed_team_grant: "has_row (ab_profiles s) i \<Longrightarrow>
    edit M s (s\<lparr>ab_profile_grants := set_present (p, i) present (ab_profile_grants s)\<rparr>)"

abbreviation edits :: "(string \<Rightarrow> bool) \<Rightarrow> adb \<Rightarrow> adb \<Rightarrow> bool" where
  "edits M \<equiv> (edit M)\<^sup>*\<^sup>*"

lemma edits_trans: "edits M s s1 \<Longrightarrow> edit M s1 s2 \<Longrightarrow> edits M s s2"
  by (rule rtranclp.rtrancl_into_rtrancl)

lemma edit_mono: "edit M s s' \<Longrightarrow> (\<And>d. M d \<Longrightarrow> N d) \<Longrightarrow> edit N s s'"
  by (induction rule: edit.induct) (auto intro: edit.intros)

lemma edits_mono: "edits M s s' \<Longrightarrow> (\<And>d. M d \<Longrightarrow> N d) \<Longrightarrow> edits N s s'"
  by (induction rule: rtranclp_induct) (auto intro: edits_trans edit_mono)

section \<open>Every operation is a run of edits\<close>

lemma auditD: "audit e a c d s = Inr s' \<Longrightarrow> \<exists>t. s' = s\<lparr>ab_audit := t\<rparr>"
  by (auto simp: audit_def split: if_splits option.splits)

lemma audit_edits: "edits M s s1 \<Longrightarrow> audit e a c d s1 = Inr s' \<Longrightarrow> edits M s s'"
  using auditD edit.ed_audit edits_trans by metis

lemma audit_edit: "audit e a c d s1 = Inr s' \<Longrightarrow> edit M s s1 \<Longrightarrow> edits M s s'"
  by (rule audit_edits) auto

lemma audit_same: "audit e a c d s = Inr s' \<Longrightarrow> edits M s s'"
  by (rule audit_edits) auto

lemma change_edits: "change e a c d fn s = Inr s' \<Longrightarrow> (\<And>s1. fn s = Inr s1 \<Longrightarrow> edits M s s1) \<Longrightarrow> edits M s s'"
  by (auto simp: change_def intro: audit_edits split: sum.splits)

lemma change_edit: "change e a c d fn s = Inr s' \<Longrightarrow> (\<And>s1. fn s = Inr s1 \<Longrightarrow> edit M s s1) \<Longrightarrow> edits M s s'"
  by (erule change_edits) blast

lemma change_same: "change e a c d Inr s = Inr s' \<Longrightarrow> edits M s s'"
  by (erule change_edits) simp

lemma requireRow_None [simp]: "requireRow n t k = None \<longleftrightarrow> has_row t k"
  by (simp add: requireRow_def)

lemma has_rowI: "map_of t k = Some r \<Longrightarrow> has_row t k"
  by (simp add: has_row_def)

lemma find_row:
  assumes "find (\<lambda>(_, r). P r) t = Some (i, r)" "tb_ok t"
  shows "map_of t i = Some r" "P r"
  using assms tb_mem_iff [of t i r] by (auto simp: find_Some_iff in_set_conv_nth)

lemmas step_splits = option.splits sum.splits if_splits prod.splits

lemma users_edits:
  "CreateUser e actor name s = Inr (u, s') \<Longrightarrow> edits M s s'"
  "SetUser e actor uid name disabled s = Inr s' \<Longrightarrow> edits M s s'"
  "CreateGroup e actor name s = Inr (g, s') \<Longrightarrow> edits M s s'"
  "SetMember e actor grp user present s = Inr s' \<Longrightarrow> edits M s s'"
  "SetGrant e actor project kind subject present s = Inr s' \<Longrightarrow> edits M s s'"
  unfolding CreateUser_def SetUser_def CreateGroup_def SetMember_def SetGrant_def
  by (auto simp: Let_def has_row_def intro!: ed_user_new ed_user_set ed_group_new ed_member ed_grant elim!: change_edit split: step_splits)

lemma tokens_edits:
  "IssueScoped e actor user label scope project expires s = Inr (t, s') \<Longrightarrow> edits M s s'"
  "Revoke e actor i s = Inr s' \<Longrightarrow> edits M s s'"
  unfolding IssueScoped_def Revoke_def
  by (auto simp: Let_def has_row_def elim!: change_edit ed_token_new intro!: ed_token_revoke split: step_splits)

lemma scan_issued:
  "em_State (scanEnrollment now i r) = EnrollmentIssued \<longleftrightarrow> bn_redeemed r = None \<and> bn_revoked_at r = None \<and> now < bn_expires_at r * second_ns"
  by (simp add: scanEnrollment_def enrollment_states)

lemma IssueEnrollment_edits: "IssueEnrollment e actor req s = Inr (m, s') \<Longrightarrow> edits M s s'"
  unfolding IssueEnrollment_def by (auto simp: Let_def elim!: change_edit ed_bundle_new split: step_splits)

lemma RevokeEnrollment_edits: "RevokeEnrollment e actor i s = Inr (m, s') \<Longrightarrow> edits M s s'"
  unfolding RevokeEnrollment_def Let_def
  by (auto simp: scan_issued elim: audit_edit audit_same intro!: ed_bundle_revoke split: option.splits sum.splits if_splits)

lemma peers_edits:
  "RegisterIdentityPeer e actor p s = Inr s' \<Longrightarrow> edits M s s'"
  "SetIdentityPeerDisabled e actor service disabled s = Inr s' \<Longrightarrow> edits M s s'"
  "RetireIdentityPeer e actor service s = Inr (r, s') \<Longrightarrow> edits M s s'"
  "IssuePeerCredential e actor service operation expires s = Inr (c, s') \<Longrightarrow> edits M s s'"
  "RevokePeerCredential e actor service i s = Inr s' \<Longrightarrow> edits M s s'"
  unfolding RegisterIdentityPeer_def SetIdentityPeerDisabled_def RetireIdentityPeer_def IssuePeerCredential_def RevokePeerCredential_def
  by (auto simp: Let_def has_row_def requireNoOtherActivePeer_def elim!: change_edit ed_credential_new audit_edit
    intro!: ed_peer_new ed_peer_set ed_retire ed_credential_revoke split: step_splits)

lemma profiles_edits:
  "CreateTeamProfile e actor service team s = Inr (q, s') \<Longrightarrow> edits M s s'"
  "SetTeamProfileDisabled e actor i disabled s0 s = Inr s' \<Longrightarrow> edits M s s'"
  "SetTeamGrant e actor project i present s0 s = Inr s' \<Longrightarrow> edits M s s'"
  unfolding CreateTeamProfile_def SetTeamProfileDisabled_def SetTeamGrant_def
  by (auto simp: Let_def elim!: change_edit ed_profile_new intro!: ed_profile_set ed_team_grant split: step_splits)

lemma record_edits:
  "RecordIdentityPeerCheck e actor service outcome s = Inr s' \<Longrightarrow> edits M s s'"
  "RecordTeamRequest e actor action subject s = Inr s' \<Longrightarrow> edits M s s'"
  "RecordTeamRevokeWithoutInstance e actor i project s0 s = Inr s' \<Longrightarrow> edits M s s'"
  unfolding RecordIdentityPeerCheck_def RecordTeamRequest_def RecordTeamRevokeWithoutInstance_def
  by (auto elim: change_same split: step_splits)

end
