(* ===== verification/AccessRuns.thy ===== *)
theory AccessRuns
  imports AccessSteps
begin

text \<open>
  The redemptions and the proofs as runs of edits, and with them every operation (\<open>aop_edits\<close>).
\<close>

lemma insert_tokenD:
  assumes "insert_token i tk s = Inr s'"
  obtains t where "tb_insert i tk (ab_tokens s) = Some t" "s' = s\<lparr>ab_tokens := t\<rparr>" "\<not> tb_exists (\<lambda>_ q. tok_digest q = tok_digest tk) (ab_tokens s)"
  using assms by (auto simp: insert_token_def split: if_splits option.splits)

text \<open>What the first redemption of a bundle writes.\<close>

definition enrolled_token :: "aenv \<Rightarrow> int \<Rightarrow> EnrollmentRedeemRequest \<Rightarrow> string \<Rightarrow> token_row" where
  "enrolled_token e now req random = \<lparr>tok_user_id = an_uuid e 0, tok_label = rr_Label req, tok_project = [],
     tok_digest = an_sha e (''aimem_user_'' @ hex_encode random), tok_expires_at = unix (truncate_second now + enrolledTokenLife),
     tok_revoked = False, tok_scope = ScopeUser\<rparr>"

definition redeemed_mark :: "aenv \<Rightarrow> int \<Rightarrow> EnrollmentRedeemRequest \<Rightarrow> string \<Rightarrow> string \<Rightarrow> redeemed" where
  "redeemed_mark e now req enc ct = \<lparr>rm_at = unix (truncate_second now), rm_user_id = an_uuid e 0, rm_token_id = an_uuid e 1,
     rm_request_key = rr_RequestKey req, rm_input_digest = redeem_input_digest e req, rm_suite = rr_Suite req, rm_enc = enc,
     rm_ciphertext = ct\<rparr>"

lemma redeem_freshE:
  assumes "redeem_fresh e now req pub i b s = Inr (res, s')"
  obtains random us ts enc ct c where "an_random e 0 = Some random"
    "tb_insert (an_uuid e 0) \<lparr>us_name = if bn_user_name b = [] then rr_Label req else bn_user_name b, us_disabled = False\<rparr> (ab_users s) = Some us"
    "insert_token (an_uuid e 1) (enrolled_token e now req random) (s\<lparr>ab_users := us\<rparr>) = Inr (s\<lparr>ab_users := us, ab_tokens := ts\<rparr>)"
    "tb_insert (an_uuid e 1) (enrolled_token e now req random) (ab_tokens s) = Some ts"
    "audit e enrollmentClient ''enrollment.redeemed'' c (s\<lparr>ab_users := us, ab_tokens := ts,
       ab_enrollments := AList.update i (b\<lparr>bn_redeemed := Some (redeemed_mark e now req enc ct)\<rparr>) (ab_enrollments s)\<rparr>) = Inr s'"
    "res = \<lparr>rs_BundleID = i, rs_Replayed = False, rs_HubID = ab_hub s, rs_UserID = an_uuid e 0, rs_TokenID = an_uuid e 1,
       rs_Suite = rr_Suite req, rs_Enc = enc, rs_Ciphertext = ct, rs_RedeemedAt = truncate_second now\<rparr>"
    "an_seal e pub (AAD (ab_hub s) i (rr_RequestKey req) (an_uuid e 0) (an_uuid e 1))
       \<lparr>pt_Token = ''aimem_user_'' @ hex_encode random, pt_UserID = an_uuid e 0, pt_TokenID = an_uuid e 1, pt_HubID = ab_hub s\<rparr> = Some (enc, ct)"
proof -
  from assms obtain random us s1 enc ct where a: "an_random e 0 = Some random"
    "tb_insert (an_uuid e 0) \<lparr>us_name = if bn_user_name b = [] then rr_Label req else bn_user_name b, us_disabled = False\<rparr> (ab_users s) = Some us"
    and t: "insert_token (an_uuid e 1) (enrolled_token e now req random) (s\<lparr>ab_users := us\<rparr>) = Inr s1"
    and b: "an_seal e pub (AAD (ab_hub s) i (rr_RequestKey req) (an_uuid e 0) (an_uuid e 1))
       \<lparr>pt_Token = ''aimem_user_'' @ hex_encode random, pt_UserID = an_uuid e 0, pt_TokenID = an_uuid e 1, pt_HubID = ab_hub s\<rparr> = Some (enc, ct)"
    "audit e enrollmentClient ''enrollment.redeemed'' (redeemSubject i (an_uuid e 0) (an_uuid e 1) (rr_Label req))
       (s1\<lparr>ab_enrollments := AList.update i (b\<lparr>bn_redeemed := Some (redeemed_mark e now req enc ct)\<rparr>) (ab_enrollments s1)\<rparr>) = Inr s'"
    "res = \<lparr>rs_BundleID = i, rs_Replayed = False, rs_HubID = ab_hub s, rs_UserID = an_uuid e 0, rs_TokenID = an_uuid e 1,
       rs_Suite = rr_Suite req, rs_Enc = enc, rs_Ciphertext = ct, rs_RedeemedAt = truncate_second now\<rparr>"
    unfolding redeem_fresh_def Let_def enrolled_token_def [symmetric] redeemed_mark_def [symmetric]
    by (clarsimp split: option.splits sum.splits prod.splits if_split_asm)
  from t obtain ts where ts: "tb_insert (an_uuid e 1) (enrolled_token e now req random) (ab_tokens s) = Some ts"
    "s1 = s\<lparr>ab_users := us, ab_tokens := ts\<rparr>" by (elim insert_tokenD) simp
  show thesis by (rule that [OF a t [unfolded ts(2)] ts(1) _ b(3,1)]) (use b(2) in \<open>simp add: ts(2)\<close>)
qed

lemma redeem_fresh_edits:
  assumes "redeem_fresh e now req pub i b s = Inr (res, s')" "map_of (ab_enrollments s) i = Some b" "bn_revoked_at b = None" "bn_redeemed b = None"
  shows "edits M s s'"
  using assms(1)
proof (cases rule: redeem_freshE)
  case (1 random us ts enc ct c)
  let ?s1 = "s\<lparr>ab_users := us\<rparr>" and ?s2 = "s\<lparr>ab_users := us, ab_tokens := ts\<rparr>"
  have a: "edits M s ?s1" using ed_user_new [OF 1(2)] by blast
  have b: "edit M ?s1 ?s2"
    using tb_insert_SomeD [OF 1(2)] by (intro ed_token_new [OF 1(3)]) (auto simp: has_row_def enrolled_token_def)
  have "edit M ?s2 (?s2\<lparr>ab_enrollments := AList.update i (b\<lparr>bn_redeemed := Some (redeemed_mark e now req enc ct)\<rparr>) (ab_enrollments ?s2)\<rparr>)"
    using assms(2-4) tb_insert_SomeD(2) [OF 1(2)] tb_insert_SomeD(2) [OF 1(4)]
    by (intro ed_bundle_redeem) (auto simp: has_row_def redeemed_mark_def)
  from edits_trans [OF edits_trans [OF a b] this] show ?thesis using 1(5) by (simp add: audit_edits)
qed

lemma redeem_edits:
  assumes "redeem e req pub s = Inr (res, s')" "tb_ok (ab_enrollments s)"
  shows "edits M s s'"
proof -
  from assms(1) obtain i b where f: "find (\<lambda>(_, r). bn_digest r = an_sha e (rr_Subcode req)) (ab_enrollments s) = Some (i, b)"
    and c: "(\<exists>m. bn_redeemed b = Some m \<and> replay e (an_now e 0) (ab_hub s) req i m s = Inr (res, s'))
      \<or> bn_redeemed b = None \<and> bn_revoked_at b = None \<and> redeem_fresh e (an_now e 0) req pub i b s = Inr (res, s')"
    unfolding redeem_def Let_def by (auto split: option.splits if_splits)
  from c show ?thesis
  proof (elim disjE exE conjE)
    fix m assume "replay e (an_now e 0) (ab_hub s) req i m s = Inr (res, s')"
    then show ?thesis by (auto simp: replay_def Let_def intro: audit_edits split: if_splits sum.splits)
  qed (rule redeem_fresh_edits [OF _ find_row(1) [OF f assms(2)]])
qed

lemma RedeemEnrollment_edits:
  assumes "RedeemEnrollment e req s = (res, s')" "tb_ok (ab_enrollments s)"
  shows "edits M s s'"
  using assms by (auto simp: RedeemEnrollment_def intro: redeem_edits change_same split: step_splits)

definition new_receipt :: "aenv \<Rightarrow> string \<Rightarrow> string \<Rightarrow> ProofRequest \<Rightarrow> string \<Rightarrow> receipt_row" where
  "new_receipt e user token req random = \<lparr>rp_digest = an_sha e (receipt_secret random), rp_service_id = pq_PeerServiceID req,
     rp_hub_id = pq_HubID req, rp_challenge_id = pq_ChallengeID req, rp_user_id = user, rp_token_id = token,
     rp_created_ms = unix_ms (an_now e 0), rp_expires_ms = unix_ms (an_now e 0 + receiptLifetime), rp_state = ''live''\<rparr>"

definition cleared :: "aenv \<Rightarrow> string \<Rightarrow> ProofRequest \<Rightarrow> adb \<Rightarrow> adb" where
  "cleared e token req s = supersede token (pq_PeerServiceID req) (pq_ChallengeID req) (pruneIdentityLedger (an_now e 0) s)"

lemma IssueProofE:
  assumes "IssueProof e user token req s = Inr (f, s')"
  obtains random s1 where "an_random e 0 = Some random" "userTokenState user token (an_now e 0) s = (True, True)"
    "insert_receipt (an_uuid e 0) (new_receipt e user token req random) (cleared e token req s) = Inr s1"
    "audit e (''user:'' @ user) ''identity.proof.issue'' (an_uuid e 0) s1 = Inr s'"
  using assms unfolding IssueProof_def Let_def cleared_def [symmetric]
  by (clarsimp simp: new_receipt_def split: option.splits sum.splits if_splits prod.splits)

lemma IssueProof_edits:
  assumes "IssueProof e user token req s = Inr (f, s')"
  shows "edits (mints e) s s'"
  using assms
proof (cases rule: IssueProofE)
  case (1 random s1)
  have "mints e (rp_digest (new_receipt e user token req random))" using 1(1) by (auto simp: mints_def new_receipt_def)
  then have "edit (mints e) (cleared e token req s) s1" by (rule ed_receipt_new [OF 1(3)])
  moreover have "edits (mints e) s (cleared e token req s)"
    unfolding cleared_def by (rule edits_trans [OF r_into_rtranclp [of "edit (mints e)", OF ed_prune] ed_supersede])
  ultimately show ?thesis using audit_edits [OF edits_trans 1(4)] by blast
qed

text \<open>What the first redemption of a receipt writes.\<close>

definition redemption_of :: "aenv \<Rightarrow> int \<Rightarrow> RedeemRequest \<Rightarrow> string \<Rightarrow> receipt_row \<Rightarrow> redemption_row" where
  "redemption_of e now req i r = \<lparr>rd_input_digest = receipt_input_digest e req, rd_id = an_uuid e 0, rd_receipt_id = i,
     rd_hub_id = rp_hub_id r, rd_challenge_id = rp_challenge_id r, rd_user_id = rp_user_id r, rd_token_id = rp_token_id r,
     rd_redeemed_ms = unix_ms now\<rparr>"

lemma redeem_receiptE:
  assumes "redeem_receipt e now peer req i r s = Inr (m, s')"
  obtains s1 where "rp_state r = ''live''"
    "insert_redemption (pi_ServiceID peer, dq_RequestKey req) (redemption_of e now req i r)
       (s\<lparr>ab_receipts := AList.update i (r\<lparr>rp_state := ''redeemed''\<rparr>) (ab_receipts s)\<rparr>) = Inr s1"
    "audit e (''peer:'' @ pi_ServiceID peer) ''identity.redeem'' (an_uuid e 0) s1 = Inr s'" "\<not> dm_Replayed m"
  using assms unfolding redeem_receipt_def Let_def
  by (clarsimp simp: redemption_of_def split: sum.splits if_splits)

lemma redeem_receipt_edits:
  assumes "redeem_receipt e now peer req i r s = Inr (m, s')" "map_of (ab_receipts s) i = Some r" "receipt_refusal now peer req r = None"
  shows "edits M s s'"
  using assms(1)
proof (cases rule: redeem_receiptE)
  case (1 s1)
  have "edit M s s1" using assms(3)
    by (intro ed_receipt_redeem [OF assms(2) 1(1) _ _ _ 1(2)]) (auto simp: redemption_of_def receipt_refusal_def split: if_splits)
  then show ?thesis by (rule audit_edit [OF 1(3)])
qed

lemma refuse_edits:
  assumes "refuse_redeem e peer req s0 reason cause s = (res, s')" "edits M s0 s"
  shows "edits M s0 s'"
  using assms by (auto simp: refuse_redeem_def intro: audit_edits split: sum.splits)

text \<open>\<open>RedeemProof\<close> once the request is well-formed and the peer in force.\<close>

definition redeem_checked :: "aenv \<Rightarrow> PeerIdentity \<Rightarrow> RedeemRequest \<Rightarrow> adb \<Rightarrow> adb \<Rightarrow> (acc_err + Redemption) \<times> adb" where
  "redeem_checked e peer req s s1 =
     (case map_of (ab_redemptions s1) (pi_ServiceID peer, dq_RequestKey req) of
        Some m \<Rightarrow>
          if rd_input_digest m \<noteq> receipt_input_digest e req then refuse_redeem e peer req s ''changed_input'' ErrIdempotencyConflict s1
          else if userTokenState (rd_user_id m) (rd_token_id m) (an_now e 0) s1 \<noteq> (True, True)
            then refuse_redeem e peer req s ''token_inactive_on_replay'' ErrCredentialInactive s1
          else (Inr \<lparr>dm_ID = rd_id m, dm_RequestKey = dq_RequestKey req, dm_Replayed = True, dm_PeerServiceID = pi_ServiceID peer,
            dm_ChallengeID = rd_challenge_id m, dm_HubID = rd_hub_id m, dm_UserID = rd_user_id m, dm_TokenID = rd_token_id m,
            dm_RedeemedAt = rd_redeemed_ms m * 1000000\<rparr>, s1)
      | None \<Rightarrow>
      case find (\<lambda>(_, r). rp_digest r = an_sha e (dq_Receipt req)) (ab_receipts s1) of
        None \<Rightarrow> refuse_redeem e peer req s ''unknown'' ErrProofInvalid s1
      | Some (i, r) \<Rightarrow>
      case receipt_refusal (an_now e 0) peer req r of Some reason \<Rightarrow> refuse_redeem e peer req s reason ErrProofInvalid s1 | None \<Rightarrow>
      if userTokenState (rp_user_id r) (rp_token_id r) (an_now e 0) s1 \<noteq> (True, True)
        then refuse_redeem e peer req s ''token_inactive'' ErrCredentialInactive s1
      else case redeem_receipt e (an_now e 0) peer req i r s1 of Inl x \<Rightarrow> (Inl x, s) | Inr (m, s') \<Rightarrow> (Inr m, s'))"

lemma RedeemProof_checked:
  "RedeemProof e peer req s =
     (if pi_Operation peer \<noteq> PeerOperationRedeem then (Inl ErrPeerForbidden, s)
      else if \<not> MatchString identityRequestKeyShape (dq_RequestKey req) \<or> \<not> MatchString identityReceiptShape (dq_Receipt req)
        \<or> \<not> MatchString identityIDPattern (dq_ChallengeID req) \<or> dq_HubID req = [] then (Inl (ErrInvalidRequest []), s)
      else case peerStillValid peer (an_now e 0) s of Some x \<Rightarrow> (Inl x, s)
        | None \<Rightarrow> redeem_checked e peer req s (pruneIdentityLedger (an_now e 0) s))"
  unfolding RedeemProof_def redeem_checked_def Let_def by (rule refl)

lemma find_row_both: "find (\<lambda>(_, r). P r) t = Some (i, r) \<Longrightarrow> tb_ok t \<Longrightarrow> map_of t i = Some r \<and> P r"
  using find_row by fast

lemma RedeemProof_cases:
  assumes "RedeemProof e peer req s = (res, s')" "tb_ok (ab_receipts s)"
  obtains (same) "s' = s" "\<exists>x. res = Inl x"
  | (refused) reason cause where "refuse_redeem e peer req s reason cause (pruneIdentityLedger (an_now e 0) s) = (res, s')"
  | (replayed) m where "res = Inr m" "dm_Replayed m" "s' = pruneIdentityLedger (an_now e 0) s"
  | (fresh) i r m where "res = Inr m" "map_of (ab_receipts (pruneIdentityLedger (an_now e 0) s)) i = Some r" "rp_digest r = an_sha e (dq_Receipt req)"
      "receipt_refusal (an_now e 0) peer req r = None" "userTokenState (rp_user_id r) (rp_token_id r) (an_now e 0) (pruneIdentityLedger (an_now e 0) s) = (True, True)"
      "peerStillValid peer (an_now e 0) s = None"
      "redeem_receipt e (an_now e 0) peer req i r (pruneIdentityLedger (an_now e 0) s) = Inr (m, s')"
proof -
  have ok: "tb_ok (ab_receipts (pruneIdentityLedger (an_now e 0) s))"
    using assms(2) by (simp add: pruneIdentityLedger_def Let_def delete_where_def)
  let ?now = "an_now e 0" and ?s1 = "pruneIdentityLedger (an_now e 0) s"
  have "(\<exists>x. RedeemProof e peer req s = (Inl x, s)) \<or>
      peerStillValid peer ?now s = None \<and> RedeemProof e peer req s = redeem_checked e peer req s ?s1"
    using RedeemProof_checked [of e peer req s] by (cases "peerStillValid peer ?now s") (auto split: if_splits)
  then show thesis
  proof (elim disjE exE conjE)
    fix x assume "RedeemProof e peer req s = (Inl x, s)"
    with assms(1) show ?thesis by (intro same) auto
  next
    assume good: "peerStillValid peer ?now s = None" "RedeemProof e peer req s = redeem_checked e peer req s ?s1"
    with assms(1) have "redeem_checked e peer req s ?s1 = (res, s')" by simp
    then show ?thesis unfolding redeem_checked_def
      using same refused replayed fresh [OF _ _ _ _ _ good(1)]
      by (cases "map_of (ab_redemptions ?s1) (pi_ServiceID peer, dq_RequestKey req)")
        (auto split: option.splits sum.splits if_splits prod.splits dest!: find_row_both [OF _ ok])
  qed
qed

lemma RedeemProof_edits:
  assumes "RedeemProof e peer req s = (res, s')" "tb_ok (ab_receipts s)"
  shows "edits M s s'"
proof -
  have p: "edits M s (pruneIdentityLedger (an_now e 0) s)" using ed_prune by blast
  from assms show ?thesis
  proof (cases rule: RedeemProof_cases)
    case (refused reason cause)
    then show ?thesis by (rule refuse_edits [OF _ p])
  next
    case (fresh i r m)
    with p redeem_receipt_edits show ?thesis by (metis rtranclp_trans)
  qed (use p in auto)
qed

text \<open>A registration writes one profile, of the peer it comes from, or only its audit.\<close>

lemma find_team:
  assumes "find (\<lambda>(_, r). of_team v team r) (ab_profiles s) = Some (i, r)" "tb_ok (ab_profiles s)"
  shows "map_of (ab_profiles s) i = Some r" "tm_service_id r = v" "tm_team_id r = team"
  using find_row [OF assms] by (auto simp: of_team_def)

lemma register_tx_edit:
  assumes "register_tx e peer team name reg s = Inr (reg', s')" "tb_ok (ab_profiles s)"
  shows "edit M s s'"
proof (cases "find (\<lambda>(_, r). of_team (pi_ServiceID peer) team r) (ab_profiles s)")
  case None
  with assms(1) show ?thesis
    by (auto simp: register_tx_def Let_def peerStillValid_def credential_live_def has_row_def name_free_def elim!: ed_profile_new split: option.splits if_splits sum.splits)
next
  case (Some x)
  obtain i r where x: "x = (i, r)" by (cases x)
  note f = find_team [OF Some [unfolded x] assms(2)]
  from assms(1) Some have "s' = s\<lparr>ab_profiles := AList.update i (r\<lparr>tm_team_name := name\<rparr>) (ab_profiles s)\<rparr>"
    and "name_free (pi_ServiceID peer) team name s"
    by (auto simp: register_tx_def Let_def x name_free_def split: option.splits if_splits sum.splits)
  then show ?thesis using ed_profile_set [OF f(1), of "r\<lparr>tm_team_name := name\<rparr>"] f(2,3) by simp
qed

lemma RegisterTeam_edits:
  assumes "RegisterTeam quote e actor peer team name s0 s = (reg, s')" "tb_ok (ab_profiles s)"
  shows "edits M s s'"
  using assms unfolding RegisterTeam_def Let_def
  by (auto simp: recordRegistration_def intro: change_same audit_edits [OF r_into_rtranclp, OF register_tx_edit] split: step_splits)

definition acc_keys :: "adb \<Rightarrow> bool" where
  "acc_keys s \<longleftrightarrow> tb_ok (ab_enrollments s) \<and> tb_ok (ab_receipts s) \<and> tb_ok (ab_profiles s)"

theorem aop_edits: "aop e s s' \<Longrightarrow> acc_keys s \<Longrightarrow> edits (mints e) s s'"
  by (induction rule: aop.induct)
    (auto simp: acc_keys_def intro: users_edits tokens_edits IssueEnrollment_edits RevokeEnrollment_edits peers_edits profiles_edits record_edits RedeemEnrollment_edits
      IssueProof_edits RedeemProof_edits RegisterTeam_edits)

end
