(* ===== verification/AccessInv.thy ===== *)
theory AccessInv
  imports AccessRuns
begin

text \<open>
  The invariant of the access store: the keys of its tables and their unique columns, the rows that
  refer to others, the one enabled peer, the bundles and the proof ledger. Every edit preserves it.
\<close>

section \<open>Tables\<close>

definition uniq_by :: "('r \<Rightarrow> 'a) \<Rightarrow> ('k, 'r) table \<Rightarrow> bool" where
  "uniq_by f t \<longleftrightarrow> (\<forall>k r k' r'. map_of t k = Some r \<longrightarrow> map_of t k' = Some r' \<longrightarrow> f r = f r' \<longrightarrow> k = k')"

definition rows_all :: "('k \<Rightarrow> 'r \<Rightarrow> bool) \<Rightarrow> ('k, 'r) table \<Rightarrow> bool" where
  "rows_all P t \<longleftrightarrow> (\<forall>k r. map_of t k = Some r \<longrightarrow> P k r)"

lemma rows_allD: "rows_all P t \<Longrightarrow> map_of t k = Some r \<Longrightarrow> P k r"
  by (simp add: rows_all_def)

lemma rows_all_insert: "tb_insert k r t = Some t' \<Longrightarrow> rows_all P t' \<longleftrightarrow> P k r \<and> rows_all P t"
  by (frule tb_insert_SomeD(1), drule tb_insert_SomeD(2)) (auto simp: rows_all_def)

lemma rows_all_update: "rows_all P t \<Longrightarrow> P k r \<Longrightarrow> rows_all P (AList.update k r t)"
  by (auto simp: rows_all_def)

lemma rows_all_mono: "rows_all P t \<Longrightarrow> (\<And>k r. map_of t k = Some r \<Longrightarrow> P k r \<Longrightarrow> Q k r) \<Longrightarrow> rows_all Q t"
  by (auto simp: rows_all_def)

lemma has_row_insert: "tb_insert k r t = Some t' \<Longrightarrow> has_row t' j \<longleftrightarrow> j = k \<or> has_row t j"
  by (drule tb_insert_SomeD(2)) (auto simp: has_row_def)

lemma has_row_update [simp]: "has_row (AList.update k r t) j \<longleftrightarrow> j = k \<or> has_row t j"
  by (auto simp: has_row_def)

lemma uniq_insert:
  assumes "tb_insert k r t = Some t'" "uniq_by f t" "\<not> tb_exists (\<lambda>_ q. f q = f r) t" "tb_ok t"
  shows "uniq_by f t'"
  using assms(2,3) unfolding uniq_by_def tb_exists_iff [OF assms(4)] tb_insert_SomeD(2) [OF assms(1)] fun_upd_apply
  by (metis option.inject)

lemma uniq_update: "uniq_by f t \<Longrightarrow> map_of t k = Some r0 \<Longrightarrow> f r = f r0 \<Longrightarrow> uniq_by f (AList.update k r t)"
  unfolding uniq_by_def by auto

lemma uniq_sub: "uniq_by f t \<Longrightarrow> (\<And>k r. map_of t' k = Some r \<Longrightarrow> map_of t k = Some r) \<Longrightarrow> uniq_by f t'"
  unfolding uniq_by_def by blast

lemma uniq_map: "uniq_by f t \<Longrightarrow> (\<And>r. f (g r) = f r) \<Longrightarrow> uniq_by f (map (\<lambda>(k, r). (k, g r)) t)"
  unfolding uniq_by_def by (clarsimp simp: map_of_map)

lemma map_of_delete_where:
  "tb_ok t \<Longrightarrow> map_of (delete_where P t) k = Some r \<longleftrightarrow> map_of t k = Some r \<and> \<not> P k r"
  using tb_mem_iff [of "delete_where P t" k r] tb_mem_iff [of t k r] by (auto simp: delete_where_def)

lemma tb_ok_delete_where [simp]: "tb_ok t \<Longrightarrow> tb_ok (delete_where P t)"
  by (simp add: delete_where_def)

lemma has_row_delete: "tb_ok t \<Longrightarrow> has_row (delete_where P t) k \<longleftrightarrow> (\<exists>r. map_of t k = Some r \<and> \<not> P k r)"
  using map_of_delete_where [of t P k] by (auto simp: has_row_def)

lemma uniq_delete: "tb_ok t \<Longrightarrow> uniq_by f t \<Longrightarrow> uniq_by f (delete_where P t)"
  by (erule uniq_sub) (simp add: map_of_delete_where)

lemma rows_all_delete: "tb_ok t \<Longrightarrow> rows_all Q (delete_where P t) \<longleftrightarrow> rows_all (\<lambda>k r. \<not> P k r \<longrightarrow> Q k r) t"
  by (auto simp: rows_all_def map_of_delete_where)

lemma profile_of_iff: "tb_ok (ab_profiles s) \<Longrightarrow> profile_of v s i \<longleftrightarrow> (\<exists>r. map_of (ab_profiles s) i = Some r \<and> tm_service_id r = v)"
  by (auto simp: profile_of_def tb_exists_iff)

lemma set_present_subset: "x \<in> set (set_present y b xs) \<Longrightarrow> x = y \<and> b \<or> x \<in> set xs"
  by (auto simp: set_present_def split: if_splits)

lemma map_of_supersede:
  "map_of (ab_receipts (supersede token v ch s)) k = map_option (\<lambda>r. if rp_token_id r = token \<and> rp_service_id r = v \<and> rp_challenge_id r = ch
     \<and> rp_state r = ''live'' then r\<lparr>rp_state := ''superseded''\<rparr> else r) (map_of (ab_receipts s) k)"
  by (simp add: supersede_def map_of_map)

section \<open>Inserts\<close>

lemma insert_bundleD:
  assumes "insert_bundle i r s = Inr s'"
  obtains t where "tb_insert i r (ab_enrollments s) = Some t" "s' = s\<lparr>ab_enrollments := t\<rparr>" "\<not> tb_exists (\<lambda>_ q. bn_digest q = bn_digest r) (ab_enrollments s)"
  using assms by (auto simp: insert_bundle_def split: if_splits option.splits)

lemma insert_credentialD:
  assumes "insert_credential i r s = Inr s'"
  obtains t where "tb_insert i r (ab_credentials s) = Some t" "s' = s\<lparr>ab_credentials := t\<rparr>" "\<not> tb_exists (\<lambda>_ q. pc_digest q = pc_digest r) (ab_credentials s)"
  using assms by (auto simp: insert_credential_def split: if_splits option.splits)

lemma insert_receiptD:
  assumes "insert_receipt i r s = Inr s'"
  obtains t where "tb_insert i r (ab_receipts s) = Some t" "s' = s\<lparr>ab_receipts := t\<rparr>" "\<not> tb_exists (\<lambda>_ q. rp_digest q = rp_digest r) (ab_receipts s)"
  using assms by (auto simp: insert_receipt_def split: if_splits option.splits)

lemma insert_redemptionD:
  assumes "insert_redemption k r s = Inr s'"
  obtains t where "tb_insert k r (ab_redemptions s) = Some t" "s' = s\<lparr>ab_redemptions := t\<rparr>"
    "\<not> tb_exists (\<lambda>_ q. rd_receipt_id q = rd_receipt_id r) (ab_redemptions s)"
  using assms by (auto simp: insert_redemption_def tb_exists_def list_ex_iff split: if_splits option.splits)

lemma insert_profileD:
  assumes "insert_profile i r s = Inr s'"
  obtains t where "tb_insert i r (ab_profiles s) = Some t" "s' = s\<lparr>ab_profiles := t\<rparr>"
    "\<not> tb_exists (\<lambda>_ q. (tm_service_id q, tm_team_id q) = (tm_service_id r, tm_team_id r)) (ab_profiles s)"
  using assms by (auto simp: insert_profile_def of_team_def split: if_splits option.splits)

lemmas insertE = insert_tokenD insert_bundleD insert_credentialD insert_receiptD insert_redemptionD insert_profileD

section \<open>The invariant\<close>

definition tables_ok :: "adb \<Rightarrow> bool" where
  "tables_ok s \<longleftrightarrow> tb_ok (ab_users s) \<and> tb_ok (ab_groups s) \<and> tb_ok (ab_tokens s) \<and> tb_ok (ab_profiles s) \<and> tb_ok (ab_peers s)
     \<and> tb_ok (ab_credentials s) \<and> tb_ok (ab_receipts s) \<and> tb_ok (ab_redemptions s) \<and> tb_ok (ab_enrollments s)"

definition digests_ok :: "adb \<Rightarrow> bool" where
  "digests_ok s \<longleftrightarrow> uniq_by tok_digest (ab_tokens s) \<and> uniq_by pc_digest (ab_credentials s) \<and> uniq_by rp_digest (ab_receipts s)
     \<and> uniq_by bn_digest (ab_enrollments s) \<and> uniq_by (\<lambda>r. (tm_service_id r, tm_team_id r)) (ab_profiles s)"

definition refs_ok :: "adb \<Rightarrow> bool" where
  "refs_ok s \<longleftrightarrow> (\<forall>(g, u) \<in> set (ab_members s). has_row (ab_groups s) g \<and> has_row (ab_users s) u)
     \<and> (\<forall>(_, k, i) \<in> set (ab_grants s). k = ''group'' \<and> has_row (ab_groups s) i \<or> k = ''user'' \<and> has_row (ab_users s) i)
     \<and> rows_all (\<lambda>_ r. has_row (ab_users s) (tok_user_id r)) (ab_tokens s)
     \<and> rows_all (\<lambda>_ r. has_row (ab_peers s) (pc_service_id r)) (ab_credentials s)
     \<and> rows_all (\<lambda>_ r. has_row (ab_peers s) (tm_service_id r)) (ab_profiles s)
     \<and> (\<forall>(_, i) \<in> set (ab_profile_grants s). has_row (ab_profiles s) i)"

definition one_peer :: "adb \<Rightarrow> bool" where
  "one_peer s \<longleftrightarrow> rows_all (\<lambda>v p. pr_disabled p \<or> \<not> other_active v s) (ab_peers s)"

definition bundle_ok :: "(string, user_row) table \<Rightarrow> (string, token_row) table \<Rightarrow> bundle_row \<Rightarrow> bool" where
  "bundle_ok us ts b \<longleftrightarrow> (\<forall>m. bn_redeemed b = Some m \<longrightarrow> bn_revoked_at b = None \<and> has_row us (rm_user_id m) \<and> has_row ts (rm_token_id m))"

definition bundles_ok :: "adb \<Rightarrow> bool" where
  "bundles_ok s \<longleftrightarrow> rows_all (\<lambda>_. bundle_ok (ab_users s) (ab_tokens s)) (ab_enrollments s)"

text \<open>A redemption is of a receipt that is there, redeemed before it expired, by the same peer.\<close>

definition ledger_ok :: "adb \<Rightarrow> bool" where
  "ledger_ok s \<longleftrightarrow> uniq_by rd_receipt_id (ab_redemptions s) \<and> rows_all (\<lambda>(v, _) d. \<exists>f. map_of (ab_receipts s) (rd_receipt_id d) = Some f
     \<and> rp_state f = ''redeemed'' \<and> rd_redeemed_ms d < rp_expires_ms f \<and> rp_service_id f = v) (ab_redemptions s)"

text \<open>The names a service's teams hold are its teams' own.\<close>

definition names_ok :: "adb \<Rightarrow> bool" where
  "names_ok s \<longleftrightarrow> rows_all (\<lambda>_ q. tm_team_name q = [] \<or> name_free (tm_service_id q) (tm_team_id q) (tm_team_name q) s) (ab_profiles s)"

definition acc_ok :: "adb \<Rightarrow> bool" where
  "acc_ok s \<longleftrightarrow> tables_ok s \<and> digests_ok s \<and> refs_ok s \<and> one_peer s \<and> names_ok s \<and> bundles_ok s \<and> ledger_ok s"

lemma edit_tables: "edit M s s' \<Longrightarrow> tables_ok s \<Longrightarrow> tables_ok s'"
  by (induction rule: edit.induct)
    (auto simp: tables_ok_def retired_def pruneIdentityLedger_def supersede_def Let_def tb_ok_def [of "map _ _"] case_prod_beta comp_def
      elim!: insertE dest: tb_insert_SomeD(3) intro: tb_ok_update, auto simp: tb_ok_def)

lemma edit_digests: "edit M s s' \<Longrightarrow> tables_ok s \<Longrightarrow> digests_ok s \<Longrightarrow> digests_ok s'"
proof (induction rule: edit.induct)
  case (ed_supersede token v ch)
  then show ?case by (simp add: digests_ok_def supersede_def uniq_map)
next
  case (ed_token_new i tk s')
  then show ?case by (elim insert_tokenD) (auto simp: digests_ok_def tables_ok_def elim: uniq_insert)
next
  case (ed_bundle_new i b s')
  then show ?case by (elim insert_bundleD) (auto simp: digests_ok_def tables_ok_def elim: uniq_insert)
next
  case (ed_credential_new i c s')
  then show ?case by (elim insert_credentialD) (auto simp: digests_ok_def tables_ok_def elim: uniq_insert)
next
  case (ed_receipt_new i f s')
  then show ?case by (elim insert_receiptD) (auto simp: digests_ok_def tables_ok_def elim: uniq_insert)
next
  case (ed_profile_new i q s')
  then show ?case by (elim insert_profileD) (auto simp: digests_ok_def tables_ok_def elim!: uniq_insert)
next
  case (ed_receipt_redeem i f d k s')
  then show ?case by (elim insert_redemptionD) (auto simp: digests_ok_def intro: uniq_update)
next
  case (ed_retire v)
  then show ?case by (simp add: digests_ok_def tables_ok_def retired_def uniq_delete)
next
  case (ed_prune now)
  then show ?case by (simp add: digests_ok_def tables_ok_def pruneIdentityLedger_def Let_def uniq_delete)
next
  case (ed_token_revoke i tk)
  then show ?case by (auto simp: digests_ok_def intro: uniq_update)
next
  case (ed_bundle_revoke i b n)
  then show ?case by (auto simp: digests_ok_def intro: uniq_update)
next
  case (ed_bundle_redeem i b m)
  then show ?case by (auto simp: digests_ok_def intro: uniq_update)
next
  case (ed_credential_revoke i c)
  then show ?case by (auto simp: digests_ok_def intro: uniq_update)
next
  case (ed_profile_set i q q')
  then show ?case by (auto simp: digests_ok_def intro: uniq_update)
qed (simp_all add: digests_ok_def)

lemma rows_all_same: "rows_all P t \<Longrightarrow> map_of t k = Some r0 \<Longrightarrow> (P k r0 \<Longrightarrow> P k r) \<Longrightarrow> rows_all P (AList.update k r t)"
  by (auto simp: rows_all_def)

lemma retired_refs:
  assumes "tables_ok s" "refs_ok s"
  shows "refs_ok (retired v s)"
proof -
  have ok: "tb_ok (ab_peers s)" "tb_ok (ab_credentials s)" "tb_ok (ab_profiles s)" using assms(1) by (simp_all add: tables_ok_def)
  from assms(2) have c: "rows_all (\<lambda>_ r. has_row (ab_peers s) (pc_service_id r)) (ab_credentials s)"
    and p: "rows_all (\<lambda>_ r. has_row (ab_peers s) (tm_service_id r)) (ab_profiles s)"
    and g: "\<forall>(_, i) \<in> set (ab_profile_grants s). has_row (ab_profiles s) i"
    by (simp_all add: refs_ok_def)
  from c have "rows_all (\<lambda>_ r. has_row (ab_peers (retired v s)) (pc_service_id r)) (ab_credentials (retired v s))"
    using ok by (auto simp: retired_def rows_all_def map_of_delete_where has_row_delete has_row_def)
  moreover from p have "rows_all (\<lambda>_ r. has_row (ab_peers (retired v s)) (tm_service_id r)) (ab_profiles (retired v s))"
    using ok by (auto simp: retired_def rows_all_def map_of_delete_where has_row_delete has_row_def)
  moreover from g have "\<forall>(_, i) \<in> set (ab_profile_grants (retired v s)). has_row (ab_profiles (retired v s)) i"
  proof clarify
    fix p i assume "(p, i) \<in> set (ab_profile_grants (retired v s))"
    then have "(p, i) \<in> set (ab_profile_grants s)" "\<not> profile_of v s i" by (auto simp: retired_def)
    with g obtain r where "map_of (ab_profiles s) i = Some r" "tm_service_id r \<noteq> v" by (auto simp: has_row_def profile_of_iff ok)
    then show "has_row (ab_profiles (retired v s)) i" by (simp add: retired_def has_row_delete ok)
  qed
  ultimately show ?thesis using assms(2) by (simp add: refs_ok_def retired_def)
qed

lemma edit_refs: "edit M s s' \<Longrightarrow> tables_ok s \<Longrightarrow> refs_ok s \<Longrightarrow> refs_ok s'"
proof (induction rule: edit.induct)
  case (ed_user_new i r t)
  then show ?case by (fastforce simp: refs_ok_def has_row_insert elim: rows_all_mono)
next
  case (ed_user_set i r)
  then show ?case by (fastforce simp: refs_ok_def elim: rows_all_mono)
next
  case (ed_group_new i n t)
  then show ?case by (fastforce simp: refs_ok_def has_row_insert)
next
  case (ed_member g u present)
  then show ?case by (fastforce simp: refs_ok_def dest!: set_present_subset)
next
  case (ed_grant k i p present)
  then show ?case by (fastforce simp: refs_ok_def dest!: set_present_subset)
next
  case (ed_team_grant i p present)
  then show ?case by (fastforce simp: refs_ok_def dest!: set_present_subset)
next
  case (ed_token_new i tk s')
  then show ?case by (elim insert_tokenD) (simp add: refs_ok_def rows_all_insert)
next
  case (ed_token_revoke i tk)
  then show ?case by (auto simp: refs_ok_def intro: rows_all_same)
next
  case (ed_bundle_new i b s')
  then show ?case by (elim insert_bundleD) (simp add: refs_ok_def)
next
  case (ed_peer_new v p t)
  then show ?case by (fastforce simp: refs_ok_def has_row_insert elim: rows_all_mono)
next
  case (ed_peer_set v p disabled)
  then show ?case by (fastforce simp: refs_ok_def elim: rows_all_mono)
next
  case (ed_retire v)
  then show ?case
    by (rule retired_refs)
next
  case (ed_credential_new i c s')
  then show ?case by (elim insert_credentialD) (simp add: refs_ok_def rows_all_insert)
next
  case (ed_credential_revoke i c)
  then show ?case by (auto simp: refs_ok_def intro: rows_all_same)
next
  case (ed_receipt_new i f s')
  then show ?case by (elim insert_receiptD) (simp add: refs_ok_def)
next
  case (ed_receipt_redeem i f d k s')
  then show ?case by (elim insert_redemptionD) (simp add: refs_ok_def)
next
  case (ed_profile_new i q s')
  then show ?case by (elim insert_profileD) (fastforce simp: refs_ok_def rows_all_insert has_row_insert)
next
  case (ed_profile_set i q q')
  then show ?case by (fastforce simp: refs_ok_def intro: rows_all_same)
qed (simp_all add: refs_ok_def pruneIdentityLedger_def supersede_def Let_def)

lemma other_active_iff: "tb_ok (ab_peers s) \<Longrightarrow> other_active v s \<longleftrightarrow> (\<exists>k p. map_of (ab_peers s) k = Some p \<and> \<not> pr_disabled p \<and> k \<noteq> v)"
  by (simp add: other_active_def tb_exists_iff)

lemma one_peer_iff: "tb_ok (ab_peers s) \<Longrightarrow> one_peer s \<longleftrightarrow> (\<forall>v p v' p'. map_of (ab_peers s) v = Some p \<longrightarrow> \<not> pr_disabled p \<longrightarrow>
    map_of (ab_peers s) v' = Some p' \<longrightarrow> \<not> pr_disabled p' \<longrightarrow> v = v')"
  unfolding one_peer_def rows_all_def by (simp add: other_active_iff) blast

lemma one_peer_same: "ab_peers s' = ab_peers s \<Longrightarrow> one_peer s \<Longrightarrow> one_peer s'"
  by (simp add: one_peer_def other_active_def)

lemma edit_one_peer:
  assumes "edit M s s'" "tables_ok s" "one_peer s"
  shows "one_peer s'"
proof -
  from assms(2) have ok: "tb_ok (ab_peers s)" by (simp add: tables_ok_def)
  from edit_tables [OF assms(1,2)] have ok': "tb_ok (ab_peers s')" by (simp add: tables_ok_def)
  from assms(1,3) ok ok' show ?thesis
  proof (induction rule: edit.induct)
    case (ed_peer_new v p t)
    then show ?case by (auto simp: one_peer_iff other_active_iff tb_insert_SomeD(2))
  next
    case (ed_peer_set v p disabled)
    then show ?case by (auto simp: one_peer_iff other_active_iff)
  next
    case (ed_retire v)
    then show ?case by (simp add: one_peer_iff) (auto simp: retired_def map_of_delete_where)
  qed (auto simp: pruneIdentityLedger_def supersede_def Let_def elim!: insertE intro: one_peer_same)
qed

lemma name_free_iff: "tb_ok (ab_profiles s) \<Longrightarrow> name_free v team name s \<longleftrightarrow>
    (\<forall>i r. map_of (ab_profiles s) i = Some r \<longrightarrow> tm_service_id r = v \<longrightarrow> tm_team_name r = name \<longrightarrow> tm_team_id r = team)"
  by (auto simp: name_free_def tb_exists_iff)

definition named :: "(string \<rightharpoonup> profile_row) \<Rightarrow> bool" where
  "named m \<longleftrightarrow> (\<forall>i q. m i = Some q \<longrightarrow> tm_team_name q = [] \<or> (\<forall>i' q'. m i' = Some q' \<longrightarrow> tm_service_id q' = tm_service_id q
     \<longrightarrow> tm_team_name q' = tm_team_name q \<longrightarrow> tm_team_id q' = tm_team_id q))"

lemma namedD: "named m \<Longrightarrow> m i = Some q \<Longrightarrow> m i' = Some q' \<Longrightarrow> tm_team_name q \<noteq> [] \<Longrightarrow> tm_service_id q' = tm_service_id q
    \<Longrightarrow> tm_team_name q' = tm_team_name q \<Longrightarrow> tm_team_id q' = tm_team_id q"
  unfolding named_def by blast

lemma names_iff: "tb_ok (ab_profiles s) \<Longrightarrow> names_ok s \<longleftrightarrow> named (map_of (ab_profiles s))"
  by (simp add: names_ok_def rows_all_def named_def name_free_iff)

lemma namedI: "(\<And>i q i' q'. m i = Some q \<Longrightarrow> m i' = Some q' \<Longrightarrow> tm_team_name q \<noteq> [] \<Longrightarrow> tm_service_id q' = tm_service_id q
    \<Longrightarrow> tm_team_name q' = tm_team_name q \<Longrightarrow> tm_team_id q' = tm_team_id q) \<Longrightarrow> named m"
  unfolding named_def by blast

lemma named_sub: "named m \<Longrightarrow> (\<And>i q. m' i = Some q \<Longrightarrow> m i = Some q) \<Longrightarrow> named m'"
  unfolding named_def by blast

lemma named_upd:
  assumes "named m" "\<And>j r. m j = Some r \<Longrightarrow> tm_service_id r = tm_service_id q \<Longrightarrow> tm_team_name r = tm_team_name q \<Longrightarrow>
    tm_team_name q \<noteq> [] \<Longrightarrow> tm_team_id r = tm_team_id q"
  shows "named (m(i \<mapsto> q))"
proof (rule namedI)
  fix j r j' r'
  assume a: "(m(i \<mapsto> q)) j = Some r" "(m(i \<mapsto> q)) j' = Some r'" and n: "tm_team_name r \<noteq> []" "tm_service_id r' = tm_service_id r"
    "tm_team_name r' = tm_team_name r"
  show "tm_team_id r' = tm_team_id r"
  proof (cases "j = i")
    case True
    with a(1) have r: "r = q" by simp
    show ?thesis
    proof (cases "j' = i")
      case True
      with a(2) r show ?thesis by simp
    next
      case False
      with a(2) have "m j' = Some r'" by simp
      from assms(2) [OF this] n show ?thesis unfolding r by blast
    qed
  next
    case False
    with a(1) have j: "m j = Some r" by simp
    show ?thesis
    proof (cases "j' = i")
      case True
      with a(2) have "r' = q" by simp
      with assms(2) [OF j] n show ?thesis by metis
    next
      case False
      with a(2) have "m j' = Some r'" by simp
      from namedD [OF assms(1) j this n] show ?thesis .
    qed
  qed
qed

lemma names_same: "ab_profiles s' = ab_profiles s \<Longrightarrow> names_ok s \<Longrightarrow> names_ok s'"
  by (simp add: names_ok_def name_free_def)

lemma edit_names:
  assumes "edit M s s'" "tables_ok s" "names_ok s"
  shows "names_ok s'"
proof -
  from assms(2) have ok: "tb_ok (ab_profiles s)" by (simp add: tables_ok_def)
  from edit_tables [OF assms(1,2)] have ok': "tb_ok (ab_profiles s')" by (simp add: tables_ok_def)
  from assms(1,3) ok ok' show ?thesis
  proof (induction rule: edit.induct)
    case (ed_profile_new i q s')
    then obtain t where t: "tb_insert i q (ab_profiles s) = Some t" "s' = s\<lparr>ab_profiles := t\<rparr>" by (elim insert_profileD)
    have "named ((map_of (ab_profiles s))(i \<mapsto> q))"
      using ed_profile_new by (intro named_upd) (auto simp: names_iff name_free_iff)
    then show ?case using ed_profile_new(6) t by (simp add: names_iff tb_insert_SomeD(2))
  next
    case (ed_profile_set i q q')
    then have n: "named (map_of (ab_profiles s))" by (simp add: names_iff)
    have "named ((map_of (ab_profiles s))(i \<mapsto> q'))"
    proof (rule named_upd [OF n])
      fix j r
      assume j: "map_of (ab_profiles s) j = Some r" "tm_service_id r = tm_service_id q'" "tm_team_name r = tm_team_name q'" "tm_team_name q' \<noteq> []"
      from ed_profile_set(4) show "tm_team_id r = tm_team_id q'"
      proof
        assume "tm_team_name q' = tm_team_name q"
        then show ?thesis using namedD [OF n ed_profile_set(1) j(1)] j(2-4) ed_profile_set(2,3) by simp
      qed (use j ed_profile_set(2,3,6) in \<open>simp add: name_free_iff\<close>)
    qed
    then show ?case using ed_profile_set(7) by (simp add: names_iff)
  next
    case (ed_retire v)
    then show ?case by (simp add: names_iff) (erule named_sub, simp add: retired_def map_of_delete_where)
  qed (auto simp: pruneIdentityLedger_def supersede_def Let_def elim!: insertE intro: names_same)
qed

lemma edit_bundles: "edit M s s' \<Longrightarrow> bundles_ok s \<Longrightarrow> bundles_ok s'"
proof (induction rule: edit.induct)
  case (ed_user_new i r t)
  then show ?case by (auto simp: bundles_ok_def bundle_ok_def has_row_insert elim!: rows_all_mono)
next
  case (ed_user_set i r)
  then show ?case by (auto simp: bundles_ok_def bundle_ok_def elim!: rows_all_mono)
next
  case (ed_token_new i tk s')
  then show ?case by (elim insert_tokenD) (auto simp: bundles_ok_def bundle_ok_def has_row_insert elim!: rows_all_mono)
next
  case (ed_token_revoke i tk)
  then show ?case by (auto simp: bundles_ok_def bundle_ok_def elim!: rows_all_mono)
next
  case (ed_bundle_new i b s')
  then show ?case by (elim insert_bundleD) (simp add: bundles_ok_def bundle_ok_def rows_all_insert)
next
  case (ed_bundle_revoke i b n)
  then show ?case by (simp add: bundles_ok_def bundle_ok_def rows_all_update)
next
  case (ed_bundle_redeem i b m)
  then show ?case by (simp add: bundles_ok_def bundle_ok_def rows_all_update)
qed (auto simp: bundles_ok_def pruneIdentityLedger_def supersede_def retired_def Let_def elim!: insertE)

lemma ledger_same: "ab_receipts s' = ab_receipts s \<Longrightarrow> ab_redemptions s' = ab_redemptions s \<Longrightarrow> ledger_ok s \<Longrightarrow> ledger_ok s'"
  by (simp add: ledger_ok_def)

text \<open>
  Pruning drops a redemption before its receipt: a receipt that is dropped has expired long enough that
  its redemption, which is older, is dropped with it.
\<close>

lemma pruned_ledger:
  assumes "tables_ok s" "ledger_ok s"
  shows "ledger_ok (pruneIdentityLedger now s)"
proof -
  have ok: "tb_ok (ab_receipts s)" "tb_ok (ab_redemptions s)" using assms(1) by (simp_all add: tables_ok_def)
  show ?thesis using assms(2) ok
    by (fastforce simp: ledger_ok_def pruneIdentityLedger_def Let_def rows_all_def map_of_delete_where intro: uniq_delete)
qed

lemma retired_ledger:
  assumes "tables_ok s" "ledger_ok s"
  shows "ledger_ok (retired v s)"
proof -
  have ok: "tb_ok (ab_receipts s)" "tb_ok (ab_redemptions s)" using assms(1) by (simp_all add: tables_ok_def)
  show ?thesis using assms(2) ok
    by (fastforce simp: ledger_ok_def retired_def rows_all_def map_of_delete_where intro: uniq_delete)
qed

lemma redeemed_ledger:
  assumes "tables_ok s" "ledger_ok s" "map_of (ab_receipts s) i = Some f" "rp_state f = ''live''" "rd_receipt_id d = i"
    "rd_redeemed_ms d < rp_expires_ms f" "rp_service_id f = fst k"
    "insert_redemption k d (s\<lparr>ab_receipts := AList.update i (f\<lparr>rp_state := ''redeemed''\<rparr>) (ab_receipts s)\<rparr>) = Inr s'"
  shows "ledger_ok s'"
  using assms(8)
proof (cases rule: insert_redemptionD)
  case (1 t)
  have ok: "tb_ok (ab_redemptions s)" using assms(1) by (simp add: tables_ok_def)
  have "uniq_by rd_receipt_id t" using uniq_insert [OF 1(1), of rd_receipt_id] assms(2) ok 1(3) by (simp add: ledger_ok_def)
  moreover have "rows_all (\<lambda>(v, _) d. \<exists>f'. map_of (ab_receipts s') (rd_receipt_id d) = Some f'
     \<and> rp_state f' = ''redeemed'' \<and> rd_redeemed_ms d < rp_expires_ms f' \<and> rp_service_id f' = v) t"
    unfolding rows_all_insert [OF 1(1)]
    using assms(2-7) 1(2) by (auto simp: ledger_ok_def split_beta elim!: rows_all_mono)
  ultimately show ?thesis using 1(2) by (simp add: ledger_ok_def)
qed

lemma superseded_redeemed:
  "map_of (ab_receipts s) k = Some f \<Longrightarrow> rp_state f = ''redeemed'' \<Longrightarrow> map_of (ab_receipts (supersede token v ch s)) k = Some f"
  by (simp add: map_of_supersede)

lemma edit_ledger: "edit M s s' \<Longrightarrow> tables_ok s \<Longrightarrow> ledger_ok s \<Longrightarrow> ledger_ok s'"
proof (induction rule: edit.induct)
  case (ed_supersede token v ch)
  have "rows_all (\<lambda>(v, _) d. \<exists>f. map_of (ab_receipts s) (rd_receipt_id d) = Some f
     \<and> rp_state f = ''redeemed'' \<and> rd_redeemed_ms d < rp_expires_ms f \<and> rp_service_id f = v) (ab_redemptions s)"
    using ed_supersede(2) by (simp add: ledger_ok_def)
  then have "rows_all (\<lambda>(x, _) d. \<exists>f. map_of (ab_receipts (supersede token v ch s)) (rd_receipt_id d) = Some f
     \<and> rp_state f = ''redeemed'' \<and> rd_redeemed_ms d < rp_expires_ms f \<and> rp_service_id f = x) (ab_redemptions s)"
    by (rule rows_all_mono) (auto simp: split_beta superseded_redeemed)
  with ed_supersede show ?case by (simp add: ledger_ok_def supersede_def)
next
  case (ed_receipt_new i f s')
  then show ?case
    by (elim insert_receiptD) (auto simp: ledger_ok_def tb_insert_SomeD dest: tb_insert_SomeD(1) elim!: rows_all_mono)
next
  case (ed_receipt_redeem i f d k s')
  then show ?case using redeemed_ledger [of s i f d k s'] by blast
qed (auto elim!: insertE intro: ledger_same pruned_ledger retired_ledger)

theorem edit_ok: "edit M s s' \<Longrightarrow> acc_ok s \<Longrightarrow> acc_ok s'"
  using edit_tables edit_digests edit_refs edit_one_peer edit_names edit_bundles edit_ledger unfolding acc_ok_def by metis

text \<open>What every step keeps, a run of steps keeps.\<close>

locale stable =
  fixes step :: "'s \<Rightarrow> 's \<Rightarrow> bool" and P :: "'s \<Rightarrow> bool"
  assumes kept: "step s s' \<Longrightarrow> P s \<Longrightarrow> P s'"
begin

lemma along: "step\<^sup>*\<^sup>* s s' \<Longrightarrow> P s \<Longrightarrow> P s'"
  by (induction rule: rtranclp_induct) (auto intro: kept)

end

interpretation ok: stable "edit M" acc_ok for M
  by unfold_locales (rule edit_ok)

lemmas edits_ok = ok.along

lemma acc_ok_keys: "acc_ok s \<Longrightarrow> acc_keys s"
  by (simp add: acc_ok_def tables_ok_def acc_keys_def)

lemma aop_ok: "aop e s s' \<Longrightarrow> acc_ok s \<Longrightarrow> acc_ok s'"
  by (rule edits_ok [OF aop_edits [OF _ acc_ok_keys]])

end
