(* ===== verification/ExamplesAccess.thy ===== *)
theory ExamplesAccess
  imports TeamProfiles
begin

text \<open>
  A hub in use, state by state: a user enrolls, a peer is registered with a credential, the user proves who
  they are to it, the peer registers a team, which is granted a project; then the token is revoked, and the
  peer disabled and retired. Every environment names its own identifiers and its own random bytes.
\<close>

definition ax :: "char \<Rightarrow> string \<Rightarrow> aenv" where
  "ax n random = \<lparr>an_now = (\<lambda>_. 1000000000000), an_uuid = (\<lambda>k. [n, if k = 0 then CHR ''0'' else if k = 1 then CHR ''1'' else CHR ''9'']),
     an_random = (\<lambda>_. Some random), an_sha = take 14, an_rfc3339 = (\<lambda>_. ''t''), an_nano = (\<lambda>_. ''t''), an_second = (\<lambda>_. ''t''),
     an_url = (\<lambda>s. Some \<lparr>ur_Scheme = ''https'', ur_Hostname = ''crew'', ur_User = False, ur_Fragment = [], ur_RawQuery = [], ur_String = s\<rparr>),
     an_seal = (\<lambda>_ aad p. Some (''enc'', pt_Token p))\<rparr>"

lemma ax_sha [simp]: "an_sha (ax n random) = take 14"
  by (simp add: ax_def)

definition yields :: "acc_err + 'a \<times> adb \<Rightarrow> adb \<Rightarrow> bool" where
  "yields r s' = (case r of Inl _ \<Rightarrow> False | Inr (_, s) \<Rightarrow> s = s')"

lemma yieldsD: "yields r s' \<Longrightarrow> \<exists>x. r = Inr (x, s')"
  by (auto simp: yields_def split: sum.splits)

definition ax_id :: string where "ax_id = ''00000000-0000-0000-0000-000000000000''"
definition ax_key :: string where "ax_key = ''k1_'' @ replicate 43 (CHR ''x'')"
definition ax_random :: string where "ax_random = replicate 32 (CHR ''z'')"

definition ax_issue :: EnrollmentRequest where
  "ax_issue = \<lparr>eq_BundleID = ax_id, eq_Purpose = EnrollmentPurposeNewUser, eq_ExpiresAt = 2000000000000, eq_UserName = []\<rparr>"

definition ax_redeem :: EnrollmentRedeemRequest where
  "ax_redeem = \<lparr>rr_HubID = ''hub'', rr_Subcode = ''aes1_Y29kZQ'', rr_RequestKey = ax_key, rr_Label = ''laptop'', rr_Suite = Suite,
     rr_PublicKey = RawURLEncode (replicate 32 (CHR ''p''))\<rparr>"

definition ax_peer :: IdentityPeer where
  "ax_peer = \<lparr>ip_ServiceID = ''crew'', ip_HubID = ''hub'', ip_Endpoint = ''url'', ip_TLSMode = ''ca_dns'', ip_TLSValue = ''crew'', ip_Disabled = False\<rparr>"

definition ax_who :: PeerIdentity where
  "ax_who = \<lparr>pi_ServiceID = ''crew'', pi_CredentialID = ''E0'', pi_Operation = PeerOperationRedeem\<rparr>"

definition ax_registrar :: PeerIdentity where
  "ax_registrar = \<lparr>pi_ServiceID = ''crew'', pi_CredentialID = ''H0'', pi_Operation = PeerOperationTeamRegister\<rparr>"

definition ax_proof :: ProofRequest where
  "ax_proof = \<lparr>pq_PeerServiceID = ''crew'', pq_HubID = ''hub'', pq_ChallengeID = ''ch''\<rparr>"

definition ax_prove :: RedeemRequest where
  "ax_prove = \<lparr>dq_HubID = ''hub'', dq_ChallengeID = ''ch'', dq_Receipt = receipt_secret ax_random, dq_RequestKey = ax_key\<rparr>"

section \<open>States\<close>

definition ax_audited :: "char \<Rightarrow> string \<Rightarrow> string \<Rightarrow> string \<Rightarrow> adb \<Rightarrow> adb" where
  "ax_audited n actor action subject s = s\<lparr>ab_audit := ab_audit s @ [([n, CHR ''9''],
     \<lparr>ae_ID = [n, CHR ''9''], ae_At = ''t'', ae_Actor = actor, ae_Action = action, ae_Subject = subject\<rparr>)]\<rparr>"

definition empty_store :: "string \<Rightarrow> adb" where
  "empty_store hub = \<lparr>ab_users = [], ab_groups = [], ab_members = [], ab_grants = [], ab_tokens = [], ab_audit = [], ab_hub = hub,
     ab_profiles = [], ab_profile_grants = [], ab_peers = [], ab_credentials = [], ab_receipts = [], ab_redemptions = [], ab_enrollments = []\<rparr>"

definition ax_bundle :: bundle_row where
  "ax_bundle = \<lparr>bn_purpose = ''new_user'', bn_digest = ''aes1_Y29kZQ'', bn_input_digest = request_digest (ax (CHR ''B'') []) ax_issue,
     bn_created_at = 1000, bn_expires_at = 2000, bn_issued_by = ''admin'', bn_user_name = [], bn_revoked_at = None, bn_redeemed = None\<rparr>"

definition ax_mark :: redeemed where
  "ax_mark = \<lparr>rm_at = 1000, rm_user_id = ''C0'', rm_token_id = ''C1'', rm_request_key = ax_key, rm_input_digest = redeem_input_digest (ax (CHR ''B'') []) ax_redeem,
     rm_suite = Suite, rm_enc = ''enc'', rm_ciphertext = ''aimem_user_72''\<rparr>"

definition ax_token :: token_row where
  "ax_token = \<lparr>tok_user_id = ''C0'', tok_label = ''laptop'', tok_project = [], tok_digest = ''aimem_user_72'', tok_expires_at = 31537000,
     tok_revoked = False, tok_scope = ''user''\<rparr>"

definition ax_peer_row :: peer_row where
  "ax_peer_row = \<lparr>pr_hub_id = ''hub'', pr_operation = ''identity.redeem'', pr_endpoint = ''url'', pr_tls_mode = ''ca_dns'', pr_tls_value = ''crew'',
     pr_disabled = False\<rparr>"

definition ax_credential :: "string \<Rightarrow> string \<Rightarrow> credential_row" where
  "ax_credential operation digest = \<lparr>pc_service_id = ''crew'', pc_operation = operation, pc_digest = digest, pc_created_at = 1000,
     pc_expires_at = 2000, pc_revoked = False\<rparr>"

definition ax_receipt :: receipt_row where
  "ax_receipt = \<lparr>rp_digest = ''amr1_enp6enp6e'', rp_service_id = ''crew'', rp_hub_id = ''hub'', rp_challenge_id = ''ch'', rp_user_id = ''C0'',
     rp_token_id = ''C1'', rp_created_ms = 1000000, rp_expires_ms = 1060000, rp_state = ''live''\<rparr>"

definition ax_redemption :: redemption_row where
  "ax_redemption = \<lparr>rd_input_digest = receipt_input_digest (ax (CHR ''B'') []) ax_prove, rd_id = ''G0'', rd_receipt_id = ''F0'', rd_hub_id = ''hub'',
     rd_challenge_id = ''ch'', rd_user_id = ''C0'', rd_token_id = ''C1'', rd_redeemed_ms = 1000000\<rparr>"

definition ax_profile :: profile_row where
  "ax_profile = \<lparr>tm_service_id = ''crew'', tm_team_id = ax_id, tm_team_name = ''core'', tm_disabled = False\<rparr>"

definition ax0 :: adb where "ax0 = empty_store ''hub''"
definition ax1 :: adb where
  "ax1 = ax_audited (CHR ''B'') ''admin'' ''enrollment.issued'' (''bundle='' @ ax_id @ '' purpose=new_user expires_at=t'') (ax0\<lparr>ab_enrollments := [(ax_id, ax_bundle)]\<rparr>)"
definition ax2 :: adb where
  "ax2 = ax_audited (CHR ''C'') ''enrollment-client'' ''enrollment.redeemed'' (''bundle='' @ ax_id @ '' user=C0 token=C1 label=laptop'')
     (ax1\<lparr>ab_users := [(''C0'', \<lparr>us_name = ''laptop'', us_disabled = False\<rparr>)], ab_tokens := [(''C1'', ax_token)],
       ab_enrollments := [(ax_id, ax_bundle\<lparr>bn_redeemed := Some ax_mark\<rparr>)]\<rparr>)"
definition ax3 :: adb where
  "ax3 = ax_audited (CHR ''D'') ''admin'' ''identity_peer.register'' ''crew'' (ax2\<lparr>ab_peers := [(''crew'', ax_peer_row)]\<rparr>)"
definition ax4 :: adb where
  "ax4 = ax_audited (CHR ''E'') ''admin'' ''identity_peer.credential.issue.identity.redeem'' ''E0''
     (ax3\<lparr>ab_credentials := [(''E0'', ax_credential ''identity.redeem'' ''aimem_peer_73'')]\<rparr>)"
definition ax5 :: adb where
  "ax5 = ax_audited (CHR ''F'') ''user:C0'' ''identity.proof.issue'' ''F0'' (ax4\<lparr>ab_receipts := [(''F0'', ax_receipt)]\<rparr>)"
definition ax6 :: adb where
  "ax6 = ax_audited (CHR ''G'') ''peer:crew'' ''identity.redeem'' ''G0'' (ax5\<lparr>ab_receipts := [(''F0'', ax_receipt\<lparr>rp_state := ''redeemed''\<rparr>)],
     ab_redemptions := [((''crew'', ax_key), ax_redemption)]\<rparr>)"
definition ax7 :: adb where
  "ax7 = ax_audited (CHR ''H'') ''admin'' ''identity_peer.credential.issue.team.register'' ''H0'' (ax6\<lparr>ab_credentials :=
     [(''E0'', ax_credential ''identity.redeem'' ''aimem_peer_73''), (''H0'', ax_credential ''team.register'' ''aimem_peer_74'')]\<rparr>)"
definition ax8 :: adb where
  "ax8 = ax_audited (CHR ''I'') ''peer:crew'' ''team.register.created'' (''service=crew team='' @ ax_id @ '' old_name= new_name=core profile=I0'')
     (ax7\<lparr>ab_profiles := [(''I0'', ax_profile)]\<rparr>)"
definition ax9 :: adb where
  "ax9 = ax_audited (CHR ''J'') ''admin'' ''team_grant.true'' (''service=crew team='' @ ax_id @ '' profile=I0 instance=inst'')
     (ax8\<lparr>ab_profile_grants := [(''inst'', ''I0'')]\<rparr>)"
definition ax10 :: adb where
  "ax10 = ax_audited (CHR ''K'') ''admin'' ''token.revoke'' ''C1'' (ax9\<lparr>ab_tokens := [(''C1'', ax_token\<lparr>tok_revoked := True\<rparr>)]\<rparr>)"
definition ax11 :: adb where
  "ax11 = ax_audited (CHR ''L'') ''admin'' ''identity_peer.disabled.true'' ''crew'' (ax10\<lparr>ab_peers := [(''crew'', ax_peer_row\<lparr>pr_disabled := True\<rparr>)]\<rparr>)"
definition ax12 :: adb where
  "ax12 = ax_audited (CHR ''M'') ''admin'' ''identity_peer.retire'' ''service=crew credentials=2 team_profiles=1 team_grants=1 receipts=1 redemptions=1''
     (ax11\<lparr>ab_peers := [], ab_credentials := [], ab_profiles := [], ab_profile_grants := [], ab_receipts := [], ab_redemptions := []\<rparr>)"

section \<open>Steps\<close>

lemmas ax_states = ax_def ax_audited_def empty_store_def ax0_def ax1_def ax2_def ax3_def ax4_def ax5_def ax6_def ax7_def ax8_def
  ax9_def ax10_def ax11_def ax12_def
lemmas ax_rows = ax_bundle_def ax_mark_def ax_token_def ax_peer_row_def ax_credential_def ax_receipt_def ax_redemption_def ax_profile_def
lemmas ax_calls = change_def audit_def tb_insert_def tb_exists_def has_row_def requireRow_def yields_def Let_def
lemmas ax_times = unix_def unix_ms_def second_ns_def truncate_second_def days_ns_def

lemma ax_shapes: "MatchString bundleIDShape ax_id" "MatchString teamUUIDPattern ax_id" "MatchString requestKeyShape ax_key"
  "MatchString identityRequestKeyShape ax_key" "MatchString identityIDPattern ''crew''" "MatchString identityIDPattern ''ch''"
  "MatchString identityReceiptShape ''amr1_enp6enp6enp6enp6enp6enp6enp6enp6enp6enp6eno''" "MatchString enrollmentLabelShape ''laptop''"
  by code_simp+

lemma ax_texts: "RawURLEncode ''code'' = ''Y29kZQ''" "hex_encode ''r'' = ''72''" "hex_encode ''s'' = ''73''" "hex_encode ''t'' = ''74''"
  "show_int 1 = ''1''" "show_int 2 = ''2''" "ParsePublicKey (RawURLEncode (replicate 32 (CHR ''p''))) = Some (replicate 32 (CHR ''p''))"
  "receipt_secret ax_random = ''amr1_enp6enp6enp6enp6enp6enp6enp6enp6enp6enp6eno''"
  by code_simp+

lemma ax1_step: "yields (IssueEnrollment (ax (CHR ''B'') ''code'') ''admin'' ax_issue ax0) ax1"
  by (simp add: IssueEnrollment_def insert_bundle_def request_validate_def enrollmentSubject_def ax_issue_def EnrollmentPurposeNewUser_def
    EnrollmentMaxLife_def request_digest_def ax_shapes ax_texts ax_calls ax_times ax_states ax_rows)

lemma ax3_step: "RegisterIdentityPeer (ax (CHR ''D'') []) ''admin'' ax_peer ax2 = Inr ax3"
  by (simp add: RegisterIdentityPeer_def ax_peer_def validateTLSTrust_def requireNoOtherActivePeer_def other_active_def PeerOperationRedeem_def
    ax_shapes ax_calls ax_states ax_rows)

lemma ax4_step: "yields (IssuePeerCredential (ax (CHR ''E'') ''s'') ''admin'' ''crew'' PeerOperationRedeem 2000000000000 ax3) ax4"
  by (simp add: IssuePeerCredential_def PeerOperations_def PeerOperationRedeem_def peerCredentialMaxLife_def peerCredentialMaxActive_def
    peerCredentialPrefix_def tb_count_def insert_credential_def ax_texts ax_calls ax_times ax_states ax_rows)

lemma ax7_step: "yields (IssuePeerCredential (ax (CHR ''H'') ''t'') ''admin'' ''crew'' PeerOperationTeamRegister 2000000000000 ax6) ax7"
  by (simp add: IssuePeerCredential_def PeerOperations_def PeerOperationTeamRegister_def peerCredentialMaxLife_def peerCredentialMaxActive_def
    peerCredentialPrefix_def active_credential_def tb_count_def insert_credential_def ax_texts ax_calls ax_times ax_states ax_rows)

lemma ax9_step: "SetTeamGrant (ax (CHR ''J'') []) ''admin'' ''inst'' ''I0'' True ax8 ax8 = Inr ax9"
  by (simp add: SetTeamGrant_def teamProfileByID_def teamAuditSubject_def scan_profile_def show_bool_def set_present_def ax_calls ax_states ax_rows)

lemma ax10_step: "Revoke (ax (CHR ''K'') []) ''admin'' ''C1'' ax9 = Inr ax10"
  by (simp add: Revoke_def ax_calls ax_states ax_rows)

lemma ax11_step: "SetIdentityPeerDisabled (ax (CHR ''L'') []) ''admin'' ''crew'' True ax10 = Inr ax11"
  by (simp add: SetIdentityPeerDisabled_def show_bool_def ax_calls ax_states ax_rows)

lemma ax12_step: "yields (RetireIdentityPeer (ax (CHR ''M'') []) ''admin'' ''crew'' ax11) ax12"
  by (simp add: RetireIdentityPeer_def retired_def delete_where_def profile_of_def tb_count_def ax_texts ax_calls ax_states ax_rows)

lemma ax_redeem_outcome: "RedeemEnrollment (ax (CHR ''C'') ''r'') ax_redeem ax1 = (Inr \<lparr>rs_BundleID = ax_id, rs_Replayed = False, rs_HubID = ''hub'',
    rs_UserID = ''C0'', rs_TokenID = ''C1'', rs_Suite = Suite, rs_Enc = ''enc'', rs_Ciphertext = ''aimem_user_72'', rs_RedeemedAt = 1000000000000\<rparr>, ax2)"
  by (simp add: RedeemEnrollment_def redeem_def redeem_fresh_def insert_token_def ax_redeem_def redeemSubject_def EnrollmentPurposeNewUser_def
    enrollmentClient_def enrolledTokenLife_def ScopeUser_def redeem_input_digest_def ax_texts ax_shapes ax_calls ax_times ax_states ax_rows)

lemma ax5_step: "yields (IssueProof (ax (CHR ''F'') ax_random) ''C0'' ''C1'' ax_proof ax4) ax5"
  by (simp add: IssueProof_def ax_proof_def userTokenState_def enabled_user_def ScopeUser_def PeerOperationRedeem_def tb_count_def
    receiptsPerTokenPerMinute_def insert_receipt_def supersede_def pruneIdentityLedger_def delete_where_def receiptLifetime_def
    ax_texts ax_shapes ax_calls ax_times ax_states ax_rows)

lemma ax_redeemed: "RedeemProof (ax (CHR ''G'') []) ax_who ax_prove ax5 = (Inr \<lparr>dm_ID = ''G0'', dm_RequestKey = ax_key, dm_Replayed = False,
    dm_PeerServiceID = ''crew'', dm_ChallengeID = ''ch'', dm_HubID = ''hub'', dm_UserID = ''C0'', dm_TokenID = ''C1'', dm_RedeemedAt = 1000000000000\<rparr>, ax6)"
  by (simp add: RedeemProof_def ax_prove_def ax_who_def peerStillValid_def credential_live_def PeerOperationRedeem_def pruneIdentityLedger_def
    delete_where_def redemptionRetention_def receipt_refusal_def userTokenState_def enabled_user_def ScopeUser_def redeem_receipt_def insert_redemption_def
    receipt_input_digest_def ax_texts ax_shapes ax_calls ax_times ax_states ax_rows)

lemma ax_name: "validName ''core''"
  by (simp add: validName_def name_shape_def TrimSpace_def Let_def go_units_ascii ascii_def IsSpace_def runes_def ValidString_def IsControl_def)

lemma ax_registered: "RegisterTeam (\<lambda>s. s) (ax (CHR ''I'') []) ''peer:crew'' ax_registrar ax_id ''core'' ax7 ax7 =
    ((\<lparr>rg_Profile = \<lparr>ap_ID = ''I0'', ap_ServiceID = ''crew'', ap_TeamID = ax_id, ap_TeamName = ''core'', ap_Disabled = False\<rparr>,
       rg_OldName = [], rg_Created = True\<rparr>, None), ax8)"
  by (simp add: RegisterTeam_def register_tx_def ax_registrar_def ax_name TeamProfileByKey_def no_profile_def peerStillValid_def credential_live_def
    PeerOperationRedeem_def PeerOperationTeamRegister_def insert_profile_def registration_outcome_def registration_subject_def
    ax_texts ax_shapes ax_calls ax_times ax_states ax_rows)

end
