(* ===== verification/AccessProps.thy ===== *)
theory AccessProps
  imports AccessInv ExamplesAccess
begin

text \<open>
  The properties of the access store, over any run of its operations: what it keeps, what a revoked token
  and a redeemed bundle or receipt can never do again, what a retirement removes and a registration leaves.
\<close>

section \<open>Runs\<close>

text \<open>
  The operations of one hub share SHA-256; \<open>M\<close> bounds the digests of the receipts they mint.
\<close>

inductive acc_step :: "(string \<Rightarrow> string) \<Rightarrow> (string \<Rightarrow> bool) \<Rightarrow> adb \<Rightarrow> adb \<Rightarrow> bool" for sha M where
  "aop e s s' \<Longrightarrow> an_sha e = sha \<Longrightarrow> \<forall>d. mints e d \<longrightarrow> M d \<Longrightarrow> acc_step sha M s s'"

inductive_cases acc_stepE: "acc_step sha M s s'"

definition acc_run :: "(string \<Rightarrow> string) \<Rightarrow> (string \<Rightarrow> bool) \<Rightarrow> adb \<Rightarrow> adb \<Rightarrow> bool" where
  "acc_run sha M = (acc_step sha M)\<^sup>*\<^sup>*"

lemma acc_run_edits: "acc_run sha M s s' \<Longrightarrow> acc_ok s \<Longrightarrow> edits M s s'"
  unfolding acc_run_def
proof (induction rule: rtranclp_induct)
  case (step s1 s2)
  then have e: "edits M s s1" by simp
  then have "acc_ok s1" using step.prems by (rule edits_ok)
  with step(2) have "edits M s1 s2" by (auto elim!: acc_stepE intro: edits_mono [OF aop_edits [OF _ acc_ok_keys]])
  with e show ?case by (rule rtranclp_trans)
qed simp

lemma acc_run_ok: "acc_run sha M s s' \<Longrightarrow> acc_ok s \<Longrightarrow> acc_ok s'"
  using acc_run_edits edits_ok by metis

lemma acc_runI: "aop e s s' \<Longrightarrow> acc_run (an_sha e) (\<lambda>_. True) s s'"
  unfolding acc_run_def by (intro r_into_rtranclp acc_step.intros) auto

lemma acc_run_trans: "acc_run sha M s s1 \<Longrightarrow> acc_run sha M s1 s2 \<Longrightarrow> acc_run sha M s s2"
  unfolding acc_run_def by (rule rtranclp_trans)

lemma empty_store_ok: "acc_ok (empty_store hub)"
  by (simp add: acc_ok_def empty_store_def tables_ok_def digests_ok_def refs_ok_def one_peer_def names_ok_def bundles_ok_def ledger_ok_def
    uniq_by_def rows_all_def)

lemma tb_insert_keep: "tb_insert k r t = Some t' \<Longrightarrow> map_of t i = Some q \<Longrightarrow> map_of t' i = Some q"
  by (frule tb_insert_SomeD(1), drule tb_insert_SomeD(2)) auto

lemma uniq_byD: "uniq_by f t \<Longrightarrow> map_of t k = Some r \<Longrightarrow> map_of t k' = Some r' \<Longrightarrow> f r = f r' \<Longrightarrow> k = k'"
  unfolding uniq_by_def by blast

section \<open>Tokens\<close>

definition token_dead :: "string \<Rightarrow> string \<Rightarrow> adb \<Rightarrow> bool" where
  "token_dead i d s \<longleftrightarrow> (\<exists>r. map_of (ab_tokens s) i = Some r \<and> tok_revoked r \<and> tok_digest r = d)"

lemma edit_token_dead: "edit M s s' \<Longrightarrow> token_dead i d s \<Longrightarrow> token_dead i d s'"
  by (induction rule: edit.induct)
    (auto simp: token_dead_def pruneIdentityLedger_def supersede_def retired_def Let_def dest: tb_insert_keep elim!: insertE)

interpretation dead: stable "edit M" "token_dead i d" for M i d
  by unfold_locales (rule edit_token_dead)

lemma dead_token:
  assumes "acc_ok s" "token_dead i d s" "an_sha e secret = d"
  shows "Authenticate e secret s = Inl ErrDenied" "\<not> TokenLive e user i project s" "\<not> CanWriteToken e user i project s"
    "\<not> TeamGrantAllows e user i profile project s" "userTokenState user i now s = (False, False)"
proof -
  from assms(2) obtain r where r: "map_of (ab_tokens s) i = Some r" "tok_revoked r" "tok_digest r = d" by (auto simp: token_dead_def)
  show "\<not> TokenLive e user i project s" "\<not> CanWriteToken e user i project s"
    "\<not> TeamGrantAllows e user i profile project s" "userTokenState user i now s = (False, False)"
    using r by (simp_all add: TokenLive_def CanWriteToken_def TeamGrantAllows_def userTokenState_def live_row_def)
  have "find (\<lambda>(i, r). tok_digest r = an_sha e secret \<and> live_row e s r) (ab_tokens s) = None"
  proof (rule ccontr)
    assume "find (\<lambda>(i, r). tok_digest r = an_sha e secret \<and> live_row e s r) (ab_tokens s) \<noteq> None"
    then obtain j q where "find (\<lambda>(_, r). tok_digest r = an_sha e secret \<and> live_row e s r) (ab_tokens s) = Some (j, q)" by auto
    note q = find_row [OF this]
    have "tb_ok (ab_tokens s)" "uniq_by tok_digest (ab_tokens s)" using assms(1) by (simp_all add: acc_ok_def tables_ok_def digests_ok_def)
    with q r assms(3) have "j = i" by (auto simp: uniq_by_def)
    with q r \<open>tb_ok (ab_tokens s)\<close> show False by (simp add: live_row_def)
  qed
  then show "Authenticate e secret s = Inl ErrDenied" by (simp add: Authenticate_def)
qed

section \<open>Bundles\<close>

lemma edit_bundle: "edit M s s' \<Longrightarrow> map_of (ab_enrollments s) i = Some b \<Longrightarrow> bn_redeemed b \<noteq> None \<or> bn_revoked_at b \<noteq> None \<Longrightarrow>
    map_of (ab_enrollments s') i = Some b"
  by (induction rule: edit.induct)
    (auto simp: pruneIdentityLedger_def supersede_def retired_def Let_def tb_insert_keep elim!: insertE)

definition bundle_settled :: "string \<Rightarrow> bundle_row \<Rightarrow> adb \<Rightarrow> bool" where
  "bundle_settled i b s \<longleftrightarrow> map_of (ab_enrollments s) i = Some b \<and> (bn_redeemed b \<noteq> None \<or> bn_revoked_at b \<noteq> None)"

interpretation settled: stable "edit M" "bundle_settled i b" for M i b
  by unfold_locales (auto simp: bundle_settled_def intro: edit_bundle)

lemma row_found:
  assumes "tb_ok t" "uniq_by f t" "map_of t i = Some b" "f b = d" "Q b"
  shows "find (\<lambda>(_, r). f r = d \<and> Q r) t = Some (i, b)"
proof (cases "find (\<lambda>(_, r). f r = d \<and> Q r) t")
  case None
  then show ?thesis using assms(3-5) map_of_SomeD by (fastforce simp: find_None_iff)
next
  case (Some x)
  obtain j q where x: "x = (j, q)" by (cases x)
  note q = find_row [OF Some [unfolded x] assms(1)]
  with uniq_byD [OF assms(2) q(1) assms(3)] assms(4) have "j = i" by simp
  with q assms(3) Some x show ?thesis by simp
qed

lemma bundle_found:
  assumes "acc_ok s" "map_of (ab_enrollments s) i = Some b" "bn_digest b = d"
  shows "find (\<lambda>(_, r). bn_digest r = d) (ab_enrollments s) = Some (i, b)"
  using row_found [of "ab_enrollments s" bn_digest i b d "\<lambda>_. True"] assms by (simp add: acc_ok_def tables_ok_def digests_ok_def)

lemma RedeemEnrollment_Inr:
  assumes "RedeemEnrollment e req s = (Inr res, s')"
  obtains pub where "redeem e req pub s = Inr (res, s')" "ParsePublicKey (rr_PublicKey req) = Some pub"
  using assms by (auto simp: RedeemEnrollment_def split: step_splits)

lemma replayD:
  assumes "replay e now hub req i m s = Inr (res, s')"
  shows "rs_Replayed res" "rs_UserID res = rm_user_id m" "rs_TokenID res = rm_token_id m" "rs_Enc res = rm_enc m" "rs_Ciphertext res = rm_ciphertext m"
    "rr_RequestKey req = rm_request_key m" "redeem_input_digest e req = rm_input_digest m" "\<exists>t. s' = s\<lparr>ab_audit := t\<rparr>"
  using assms by (auto simp: replay_def Let_def dest!: auditD split: step_splits)

section \<open>Receipts\<close>

definition no_live :: "string \<Rightarrow> adb \<Rightarrow> bool" where
  "no_live d s \<longleftrightarrow> rows_all (\<lambda>_ f. rp_digest f = d \<longrightarrow> rp_state f \<noteq> ''live'') (ab_receipts s)"

lemma edit_no_live:
  assumes "edit M s s'" "tables_ok s" "no_live d s" "\<not> M d"
  shows "no_live d s'"
proof -
  have ok: "tb_ok (ab_receipts s)" using assms(2) by (simp add: tables_ok_def)
  from assms(1,3) ok show ?thesis
  proof (induction rule: edit.induct)
    case (ed_supersede token v ch)
    then show ?case by (auto simp: no_live_def rows_all_def map_of_supersede split: if_splits)
  next
    case (ed_receipt_new i f s')
    with assms(4) have "rp_digest f \<noteq> d" by metis
    with ed_receipt_new show ?case by (elim insert_receiptD) (simp add: no_live_def rows_all_insert)
  next
    case (ed_receipt_redeem i f x k s')
    then show ?case by (elim insert_redemptionD) (simp add: no_live_def rows_all_update)
  qed (auto simp: no_live_def pruneIdentityLedger_def retired_def Let_def rows_all_delete elim!: insertE elim: rows_all_mono)
qed

lemma acc_ok_tables: "acc_ok s \<Longrightarrow> tables_ok s"
  by (simp add: acc_ok_def)

interpretation spent: stable "edit M" "\<lambda>s. acc_ok s \<and> (M d \<or> no_live d s)" for M d
  by unfold_locales (auto intro: edit_ok edit_no_live acc_ok_tables)

lemma redeemed_no_live:
  assumes "acc_ok s" "RedeemProof e peer req s = (Inr m, s')" "\<not> dm_Replayed m"
  shows "no_live (an_sha e (dq_Receipt req)) s'"
proof -
  have t: "tables_ok s" "digests_ok s" using assms(1) by (simp_all add: acc_ok_def)
  have "tb_ok (ab_receipts s)" using t by (simp add: tables_ok_def)
  from assms(2) this show ?thesis
  proof (cases rule: RedeemProof_cases)
    case (fresh i r n)
    let ?s1 = "pruneIdentityLedger (an_now e 0) s"
    have ok: "tables_ok ?s1" "digests_ok ?s1" using t ed_prune edit_tables edit_digests by metis+
    from fresh(7) show ?thesis
    proof (cases rule: redeem_receiptE)
      case (1 s1)
      from insert_redemptionD [OF 1(2)] auditD [OF 1(3)]
      have r': "ab_receipts s' = AList.update i (r\<lparr>rp_state := ''redeemed''\<rparr>) (ab_receipts ?s1)" by fastforce
      have "uniq_by rp_digest (ab_receipts ?s1)" using ok(2) by (simp add: digests_ok_def)
      note u = uniq_byD [OF this _ fresh(2)]
      show ?thesis unfolding no_live_def r' rows_all_def
      proof (intro allI impI)
        fix k f assume k: "map_of (AList.update i (r\<lparr>rp_state := ''redeemed''\<rparr>) (ab_receipts ?s1)) k = Some f" "rp_digest f = an_sha e (dq_Receipt req)"
        show "rp_state f \<noteq> ''live''"
        proof (cases "k = i")
          case False
          with k u [of k f] fresh(3) show ?thesis by simp
        qed (use k in auto)
      qed
    qed
  qed (use assms(3) in \<open>auto simp: refuse_redeem_def split: sum.splits\<close>)
qed

lemma no_live_fresh:
  assumes "acc_ok s" "no_live (an_sha e (dq_Receipt req)) s" "RedeemProof e peer req s = (Inr m, s')"
  shows "dm_Replayed m"
proof -
  have t: "tables_ok s" using assms(1) by (simp add: acc_ok_def)
  then have "tb_ok (ab_receipts s)" by (simp add: tables_ok_def)
  from assms(3) this show ?thesis
  proof (cases rule: RedeemProof_cases)
    case (fresh i r n)
    have "no_live (an_sha e (dq_Receipt req)) (pruneIdentityLedger (an_now e 0) s)"
      by (rule edit_no_live [OF ed_prune t assms(2), of "\<lambda>_. False"]) simp
    with fresh(2,3) have "rp_state r \<noteq> ''live''" by (simp add: no_live_def rows_all_def)
    with fresh(7) show ?thesis by (simp add: redeem_receipt_def)
  qed (auto simp: refuse_redeem_def split: sum.splits)
qed

section \<open>What the store keeps\<close>

text \<open>C9: from an empty store every run of operations keeps the unique columns and references: one enabled peer, one team per name.\<close>

theorem access_store_stays_consistent:
  assumes "acc_run sha M (empty_store hub) s"
  shows "acc_ok s"
  by (rule acc_run_ok [OF assms empty_store_ok])

text \<open>C10: a revoked token's secret is refused for ever, and the token writes to no project, whatever is done next.\<close>

theorem revoked_token_stays_dead:
  assumes "acc_ok s0" "Revoke e actor i s0 = Inr s" "map_of (ab_tokens s0) i = Some r" "acc_run sha M s s'" "sha secret = tok_digest r" "an_sha e' = sha"
  shows "Authenticate e' secret s' = Inl ErrDenied \<and> \<not> CanWriteToken e' user i project s' \<and> \<not> TeamGrantAllows e' user i profile project s'
    \<and> \<not> succeeds (IssueProof e' user i req s')"
proof -
  have ok: "acc_ok s" by (rule aop_ok [OF aop.revoke [OF assms(2)] assms(1)])
  have "token_dead i (tok_digest r) s"
    using assms(2,3) by (auto simp: Revoke_def change_def token_dead_def dest!: auditD split: step_splits)
  then have d: "token_dead i (tok_digest r) s'" by (rule dead.along [OF acc_run_edits [OF assms(4) ok]])
  have s: "an_sha e' secret = tok_digest r" using assms(5,6) by simp
  note dead = dead_token [OF acc_run_ok [OF assms(4) ok] d s]
  have "\<not> succeeds (IssueProof e' user i req s')" using dead(5) by (auto simp: succeeds_iff elim!: IssueProofE)
  with dead(1,3,4) show ?thesis by blast
qed

text \<open>C11: A bundle is redeemed once: a later redemption of its code returns the recorded delivery, and makes no user and no token.\<close>

theorem bundle_is_redeemed_once:
  assumes "acc_ok s" "map_of (ab_enrollments s) i = Some b" "bn_redeemed b = Some m" "acc_run sha M s s1"
    "an_sha e (rr_Subcode req) = bn_digest b" "RedeemEnrollment e req s1 = (Inr res, s2)"
  shows "rs_Replayed res \<and> rs_UserID res = rm_user_id m \<and> rs_TokenID res = rm_token_id m \<and> rs_Ciphertext res = rm_ciphertext m
    \<and> rr_RequestKey req = rm_request_key m \<and> redeem_input_digest e req = rm_input_digest m
    \<and> ab_users s2 = ab_users s1 \<and> ab_tokens s2 = ab_tokens s1 \<and> map_of (ab_enrollments s2) i = Some b"
proof -
  have b: "map_of (ab_enrollments s1) i = Some b"
    using settled.along [OF acc_run_edits [OF assms(4,1)], of i b] assms(2,3) by (simp add: bundle_settled_def)
  note f = bundle_found [OF acc_run_ok [OF assms(4,1)] b refl]
  from assms(6) obtain pub where "redeem e req pub s1 = Inr (res, s2)" by (elim RedeemEnrollment_Inr)
  then have "replay e (an_now e 0) (ab_hub s1) req i m s1 = Inr (res, s2)"
    using assms(3) f by (auto simp: redeem_def Let_def assms(5) split: if_splits)
  note r = replayD [OF this]
  from r(8) b have "ab_users s2 = ab_users s1" "ab_tokens s2 = ab_tokens s1" "map_of (ab_enrollments s2) i = Some b" by auto
  with r(1-3,5-7) show ?thesis by simp
qed

text \<open>C12: The first redemption of a live code, one that is not revoked, expired or of another hub,
  enrolls one new user with one new token: one row each, everything else in those tables unchanged.
  What is sealed to the client's key, returned, and stored with the bundle for a replay, is the bearer
  secret of that very token: it authenticates as the new user until the token expires, and writes to
  no project yet. Besides the users and the tokens, only the bundle and the audit change.\<close>

theorem redemption_enrolls_one_user:
  assumes "acc_ok s" "RedeemEnrollment e req s = (Inr res, s')" "\<not> rs_Replayed res" "an_sha e' = an_sha e"
    "unix (an_now e' 0) < unix (truncate_second (an_now e 0) + enrolledTokenLife)"
  shows "\<exists>i b random name pub bearer m. map_of (ab_enrollments s) i = Some b \<and> bn_digest b = an_sha e (rr_Subcode req) \<and> bn_redeemed b = None
    \<and> bn_revoked_at b = None \<and> an_now e 0 < bn_expires_at b * second_ns \<and> rr_HubID req = ab_hub s
    \<and> name = (if bn_user_name b = [] then rr_Label req else bn_user_name b)
    \<and> ParsePublicKey (rr_PublicKey req) = Some pub \<and> an_random e 0 = Some random \<and> bearer = ''aimem_user_'' @ hex_encode random
    \<and> map_of (ab_users s) (rs_UserID res) = None
    \<and> map_of (ab_users s') = (map_of (ab_users s))(rs_UserID res \<mapsto> \<lparr>us_name = name, us_disabled = False\<rparr>)
    \<and> map_of (ab_tokens s) (rs_TokenID res) = None
    \<and> map_of (ab_tokens s') = (map_of (ab_tokens s))(rs_TokenID res \<mapsto> \<lparr>tok_user_id = rs_UserID res, tok_label = rr_Label req,
         tok_project = [], tok_digest = an_sha e bearer, tok_expires_at = unix (truncate_second (an_now e 0) + enrolledTokenLife),
         tok_revoked = False, tok_scope = ScopeUser\<rparr>)
    \<and> an_seal e pub (AAD (ab_hub s) i (rr_RequestKey req) (rs_UserID res) (rs_TokenID res))
         \<lparr>pt_Token = bearer, pt_UserID = rs_UserID res, pt_TokenID = rs_TokenID res, pt_HubID = ab_hub s\<rparr>
         = Some (rs_Enc res, rs_Ciphertext res)
    \<and> map_of (ab_enrollments s') = (map_of (ab_enrollments s))(i \<mapsto> b\<lparr>bn_redeemed := Some m\<rparr>)
    \<and> rm_enc m = rs_Enc res \<and> rm_ciphertext m = rs_Ciphertext res \<and> rm_user_id m = rs_UserID res \<and> rm_token_id m = rs_TokenID res
    \<and> rm_request_key m = rr_RequestKey req
    \<and> Authenticate e' bearer s' = Inr \<lparr>dn_UserID = rs_UserID res, dn_TokenID = rs_TokenID res, dn_Name = name,
        dn_Scope = ScopeUser, dn_Project = []\<rparr>
    \<and> \<not> CanWriteToken e' (rs_UserID res) (rs_TokenID res) project s'
    \<and> (\<exists>us ts es t. s' = s\<lparr>ab_users := us, ab_tokens := ts, ab_enrollments := es, ab_audit := t\<rparr>)"
proof -
  have ok': "acc_ok s'" by (rule aop_ok [OF aop.redeemEnrollment [OF assms(2)] assms(1)])
  have ok: "tb_ok (ab_enrollments s)" "refs_ok s" using assms(1) by (simp_all add: acc_ok_def tables_ok_def)
  from assms(2) obtain pub where r: "redeem e req pub s = Inr (res, s')" and pub: "ParsePublicKey (rr_PublicKey req) = Some pub"
    by (elim RedeemEnrollment_Inr)
  from r assms(3) obtain i b where f: "find (\<lambda>(_, r). bn_digest r = an_sha e (rr_Subcode req)) (ab_enrollments s) = Some (i, b)"
    and c: "bn_redeemed b = None" "bn_revoked_at b = None" "an_now e 0 < bn_expires_at b * second_ns" "rr_HubID req = ab_hub s"
    and q: "redeem_fresh e (an_now e 0) req pub i b s = Inr (res, s')"
    unfolding redeem_def Let_def by (auto split: option.splits if_splits dest: replayD(1))
  note b = find_row [OF f ok(1)]
  from q show ?thesis
  proof (cases rule: redeem_freshE)
    case (1 random us ts enc ct w)
    let ?name = "if bn_user_name b = [] then rr_Label req else bn_user_name b" and ?r = "enrolled_token e (an_now e 0) req random"
      and ?bearer = "''aimem_user_'' @ hex_encode random" and ?m = "redeemed_mark e (an_now e 0) req enc ct"
    note u = tb_insert_SomeD [OF 1(2)] and t = tb_insert_SomeD [OF 1(4)]
    have s': "ab_users s' = us" "ab_tokens s' = ts" "ab_members s' = ab_members s" "ab_grants s' = ab_grants s"
      "ab_enrollments s' = AList.update i (b\<lparr>bn_redeemed := Some ?m\<rparr>) (ab_enrollments s)" using auditD [OF 1(5)] by auto
    have only: "\<exists>us ts es t. s' = s\<lparr>ab_users := us, ab_tokens := ts, ab_enrollments := es, ab_audit := t\<rparr>"
      using auditD [OF 1(5)] by fastforce
    have id: "rs_UserID res = an_uuid e 0" "rs_TokenID res = an_uuid e 1" "rs_Enc res = enc" "rs_Ciphertext res = ct" using 1(6) by simp_all
    have row: "map_of (ab_tokens s') (an_uuid e 1) = Some ?r" using t(2) s'(2) by simp
    have d: "tok_digest ?r = an_sha e' ?bearer" using assms(4) by (simp add: enrolled_token_def)
    have live: "live_row e' s' ?r" using assms(5) u(2) s'(1) by (simp add: live_row_def enrolled_token_def enabled_user_def)
    have "find (\<lambda>(_, r). tok_digest r = an_sha e' ?bearer \<and> live_row e' s' r) (ab_tokens s') = Some (an_uuid e 1, ?r)"
      using ok' by (intro row_found [where f = tok_digest and Q = "live_row e' s'", OF _ _ row d live]) (simp_all add: acc_ok_def tables_ok_def digests_ok_def)
    then have a: "Authenticate e' ?bearer s' = Inr \<lparr>dn_UserID = rs_UserID res, dn_TokenID = rs_TokenID res,
        dn_Name = ?name, dn_Scope = ScopeUser, dn_Project = []\<rparr>"
      using u(2) s'(1) by (simp add: Authenticate_def id enrolled_token_def)
    have "\<not> granted (an_uuid e 0) project s'"
      using ok(2) u(1) by (fastforce simp: granted_def s'(3,4) refs_ok_def has_row_def list_ex_iff)
    then have w: "\<not> CanWriteToken e' (rs_UserID res) (rs_TokenID res) project s'" by (simp add: CanWriteToken_def id split: option.splits)
    have es: "map_of (ab_enrollments s') = (map_of (ab_enrollments s))(i \<mapsto> b\<lparr>bn_redeemed := Some ?m\<rparr>)" by (simp add: s'(5))
    have tok: "map_of (ab_tokens s) (rs_TokenID res) = None" "map_of (ab_tokens s') = (map_of (ab_tokens s))(rs_TokenID res \<mapsto> ?r)"
      "map_of (ab_users s) (rs_UserID res) = None" "map_of (ab_users s') = (map_of (ab_users s))(rs_UserID res \<mapsto> \<lparr>us_name = ?name, us_disabled = False\<rparr>)"
      using t u s'(1,2) id by simp_all
    have m: "rm_enc ?m = rs_Enc res" "rm_ciphertext ?m = rs_Ciphertext res" "rm_user_id ?m = rs_UserID res" "rm_token_id ?m = rs_TokenID res"
      "rm_request_key ?m = rr_RequestKey req" by (simp_all add: redeemed_mark_def id)
    have seal: "an_seal e pub (AAD (ab_hub s) i (rr_RequestKey req) (rs_UserID res) (rs_TokenID res))
         \<lparr>pt_Token = ?bearer, pt_UserID = rs_UserID res, pt_TokenID = rs_TokenID res, pt_HubID = ab_hub s\<rparr>
         = Some (rs_Enc res, rs_Ciphertext res)" using 1(7) by (simp add: id)
    have row': "?r = \<lparr>tok_user_id = rs_UserID res, tok_label = rr_Label req,
         tok_project = [], tok_digest = an_sha e ?bearer, tok_expires_at = unix (truncate_second (an_now e 0) + enrolledTokenLife),
         tok_revoked = False, tok_scope = ScopeUser\<rparr>" by (simp add: enrolled_token_def id)
    show ?thesis
      by (intro exI [of _ i] exI [of _ b] exI [of _ random] exI [of _ ?name] exI [of _ pub] exI [of _ ?bearer] exI [of _ ?m] conjI
          refl b(1) b(2) c pub 1(1) tok(1,3,4) tok(2) [unfolded row'] es m a w seal only)
  qed
qed

text \<open>C13: A receipt is redeemed once. After its redemption, and as long as no later receipt is minted
  with the same digest, every success with it, under any key and by any peer, is a replay: it
  enrolls and redeems nothing, and the store it leaves is the store it found without the receipts and
  redemptions that are past their retention, the pruning every redemption starts with.\<close>

theorem receipt_is_spent_once:
  assumes "acc_ok s" "RedeemProof e peer req s = (Inr m, s1)" "\<not> dm_Replayed m" "acc_run sha M s1 s2" "\<not> M (an_sha e (dq_Receipt req))"
    "an_sha e' = an_sha e" "dq_Receipt req' = dq_Receipt req" "RedeemProof e' peer' req' s2 = (Inr m', s3)"
  shows "dm_Replayed m' \<and> s3 = pruneIdentityLedger (an_now e' 0) s2"
proof -
  have ok1: "acc_ok s1" by (rule aop_ok [OF aop.redeemProof [OF assms(2)] assms(1)])
  note ok2 = acc_run_ok [OF assms(4) ok1]
  have "acc_ok s2 \<and> no_live (an_sha e (dq_Receipt req)) s2"
    using redeemed_no_live [OF assms(1-3)] ok1 assms(5) spent.along [OF acc_run_edits [OF assms(4) ok1]] by blast
  then have "no_live (an_sha e' (dq_Receipt req')) s2" using assms(6,7) by simp
  with ok2 assms(8) have m: "dm_Replayed m'" by (intro no_live_fresh)
  have "tb_ok (ab_receipts s2)" using ok2 by (simp add: acc_ok_def tables_ok_def)
  from assms(8) this show ?thesis
  proof (cases rule: RedeemProof_cases)
    case (fresh i r n)
    then show ?thesis using m by (auto elim!: redeem_receiptE)
  qed (use m in \<open>auto simp: refuse_redeem_def split: sum.splits\<close>)
qed

lemma deleted_count: "length (delete_where P t) + tb_count P t = length t"
  using sum_length_filter_compl [of "\<lambda>(k, r). P k r" t] by (simp add: delete_where_def tb_count_def split_beta' add.commute)

text \<open>Retiring takes a disabled peer: its credentials, teams, receipts and redemptions go, in the numbers reported; nothing else changes.\<close>

theorem retirement_leaves_nothing:
  assumes "acc_ok s" "RetireIdentityPeer e actor v s = Inr (r, s')"
  shows "(\<exists>p. map_of (ab_peers s) v = Some p \<and> pr_disabled p)
    \<and> (\<forall>k p. map_of (ab_peers s') k = Some p \<longleftrightarrow> map_of (ab_peers s) k = Some p \<and> k \<noteq> v)
    \<and> (\<forall>k c. map_of (ab_credentials s') k = Some c \<longleftrightarrow> map_of (ab_credentials s) k = Some c \<and> pc_service_id c \<noteq> v)
    \<and> (\<forall>k q. map_of (ab_profiles s') k = Some q \<longleftrightarrow> map_of (ab_profiles s) k = Some q \<and> tm_service_id q \<noteq> v)
    \<and> (\<forall>k f. map_of (ab_receipts s') k = Some f \<longleftrightarrow> map_of (ab_receipts s) k = Some f \<and> rp_service_id f \<noteq> v)
    \<and> (\<forall>i p. (p, i) \<in> set (ab_profile_grants s') \<longleftrightarrow> (p, i) \<in> set (ab_profile_grants s) \<and> has_row (ab_profiles s') i)
    \<and> (\<forall>e' secret. lookupPeer e' secret s' \<noteq> Inr \<lparr>pi_ServiceID = v, pi_CredentialID = k, pi_Operation = opn\<rparr>)
    \<and> length (ab_credentials s') + rt_Credentials r = length (ab_credentials s)
    \<and> length (ab_receipts s') + rt_Receipts r = length (ab_receipts s)
    \<and> ab_users s' = ab_users s \<and> ab_tokens s' = ab_tokens s \<and> ab_grants s' = ab_grants s \<and> ab_enrollments s' = ab_enrollments s"
proof -
  from assms(2) obtain p w t where p: "map_of (ab_peers s) v = Some p" "pr_disabled p"
    and a: "s' = (retired v s)\<lparr>ab_audit := t\<rparr>"
    and r: "rt_Credentials r = tb_count (\<lambda>_ r. pc_service_id r = v) (ab_credentials s)" "rt_Receipts r = tb_count (\<lambda>_ r. rp_service_id r = v) (ab_receipts s)"
    by (auto simp: RetireIdentityPeer_def Let_def dest!: auditD split: step_splits)
  have ok: "tb_ok (ab_peers s)" "tb_ok (ab_credentials s)" "tb_ok (ab_profiles s)" "tb_ok (ab_receipts s)" and g: "refs_ok s"
    using assms(1) by (simp_all add: acc_ok_def tables_ok_def)
  have c: "\<forall>k c. map_of (ab_credentials s') k = Some c \<longleftrightarrow> map_of (ab_credentials s) k = Some c \<and> pc_service_id c \<noteq> v"
    by (simp add: a retired_def map_of_delete_where ok)
  have "\<forall>e' secret. lookupPeer e' secret s' \<noteq> Inr \<lparr>pi_ServiceID = v, pi_CredentialID = k, pi_Operation = opn\<rparr>"
  proof (intro allI notI)
    fix e' secret assume "lookupPeer e' secret s' = Inr \<lparr>pi_ServiceID = v, pi_CredentialID = k, pi_Operation = opn\<rparr>"
    then obtain q where q: "find (\<lambda>(_, r). pc_digest r = an_sha e' secret \<and> credential_live (an_now e' 0) s' r) (ab_credentials s') = Some (k, q)"
      "pc_service_id q = v" by (auto simp: lookupPeer_def split: step_splits)
    have "tb_ok (ab_credentials s')" by (simp add: a retired_def ok)
    from find_row(1) [OF q(1) this] q(2) c show False by blast
  qed
  moreover have "\<forall>i p. (p, i) \<in> set (ab_profile_grants s') \<longleftrightarrow> (p, i) \<in> set (ab_profile_grants s) \<and> has_row (ab_profiles s') i"
  proof (intro allI iffI)
    fix i p assume "(p, i) \<in> set (ab_profile_grants s')"
    then have i: "(p, i) \<in> set (ab_profile_grants s)" "\<not> profile_of v s i" by (auto simp: a retired_def)
    from g i(1) obtain q where "map_of (ab_profiles s) i = Some q" by (auto simp: refs_ok_def has_row_def)
    with i show "(p, i) \<in> set (ab_profile_grants s) \<and> has_row (ab_profiles s') i" by (simp add: a retired_def has_row_delete profile_of_iff ok)
  next
    fix i p assume i: "(p, i) \<in> set (ab_profile_grants s) \<and> has_row (ab_profiles s') i"
    then have "\<not> profile_of v s i" by (auto simp: a retired_def has_row_delete profile_of_iff ok)
    with i show "(p, i) \<in> set (ab_profile_grants s')" by (simp add: a retired_def)
  qed
  moreover have "length (ab_credentials s') + rt_Credentials r = length (ab_credentials s)" "length (ab_receipts s') + rt_Receipts r = length (ab_receipts s)"
    unfolding r by (simp_all add: a retired_def deleted_count)
  moreover have "\<forall>k p. map_of (ab_peers s') k = Some p \<longleftrightarrow> map_of (ab_peers s) k = Some p \<and> k \<noteq> v"
    "\<forall>k q. map_of (ab_profiles s') k = Some q \<longleftrightarrow> map_of (ab_profiles s) k = Some q \<and> tm_service_id q \<noteq> v"
    "\<forall>k f. map_of (ab_receipts s') k = Some f \<longleftrightarrow> map_of (ab_receipts s) k = Some f \<and> rp_service_id f \<noteq> v"
    "ab_users s' = ab_users s" "ab_tokens s' = ab_tokens s" "ab_grants s' = ab_grants s" "ab_enrollments s' = ab_enrollments s"
    by (simp_all add: a retired_def map_of_delete_where ok)
  ultimately show ?thesis using c p by blast
qed

text \<open>The one profile a registration writes: of the peer and the team, with the name, enabled; a new
  one, if the peer had not registered the team, or the one it had, which was not disabled.\<close>

definition registers :: "string \<Rightarrow> string \<Rightarrow> string \<Rightarrow> string \<Rightarrow> adb \<Rightarrow> bool" where
  "registers service team name k s \<longleftrightarrow> (case map_of (ab_profiles s) k of
     None \<Rightarrow> (\<forall>j r. map_of (ab_profiles s) j = Some r \<longrightarrow> \<not> of_team service team r)
   | Some r \<Rightarrow> \<lparr>tm_service_id = service, tm_team_id = team, tm_team_name = name, tm_disabled = False\<rparr> = r\<lparr>tm_team_name := name\<rparr>)"

lemma register_txD:
  assumes "register_tx e peer team name reg s = Inr (reg', s')" "tb_ok (ab_profiles s)"
  defines "q \<equiv> \<lparr>tm_service_id = pi_ServiceID peer, tm_team_id = team, tm_team_name = name, tm_disabled = False\<rparr>"
  shows "peerStillValid peer (an_now e 0) s = None" "\<exists>t i. s' = s\<lparr>ab_profiles := t\<rparr> \<and> map_of t = (map_of (ab_profiles s))(i \<mapsto> q)
    \<and> registers (pi_ServiceID peer) team name i s"
proof -
  show "peerStillValid peer (an_now e 0) s = None" using assms(1) by (auto simp: register_tx_def Let_def split: option.splits)
  show "\<exists>t i. s' = s\<lparr>ab_profiles := t\<rparr> \<and> map_of t = (map_of (ab_profiles s))(i \<mapsto> q) \<and> registers (pi_ServiceID peer) team name i s"
  proof (cases "find (\<lambda>(_, r). of_team (pi_ServiceID peer) team r) (ab_profiles s)")
    case None
    with assms(1) have "insert_profile (an_uuid e 0) q s = Inr s'"
      by (auto simp: register_tx_def Let_def q_def split: option.splits if_splits sum.splits)
    then obtain t where "tb_insert (an_uuid e 0) q (ab_profiles s) = Some t" "s' = s\<lparr>ab_profiles := t\<rparr>" by (elim insert_profileD)
    note t = this tb_insert_SomeD(1,2) [OF this(1)]
    have "\<forall>j r. map_of (ab_profiles s) j = Some r \<longrightarrow> \<not> of_team (pi_ServiceID peer) team r"
      using None map_of_SomeD by (fastforce simp: find_None_iff)
    with t show ?thesis by (intro exI [of _ t] exI [of _ "an_uuid e 0"]) (simp add: registers_def)
  next
    case (Some x)
    obtain i r where x: "x = (i, r)" by (cases x)
    note f = find_team [OF Some [unfolded x] assms(2)]
    from assms(1) Some have s': "s' = s\<lparr>ab_profiles := AList.update i (r\<lparr>tm_team_name := name\<rparr>) (ab_profiles s)\<rparr>" and "\<not> tm_disabled r"
      by (auto simp: register_tx_def Let_def x scan_profile_def split: option.splits if_splits sum.splits)
    with f have "q = r\<lparr>tm_team_name := name\<rparr>" by (cases r) (simp add: q_def)
    with s' f(1) show ?thesis by (intro exI [of _ "AList.update i q (ab_profiles s)"] exI [of _ i]) (simp add: registers_def q_def)
  qed
qed

lemma grant_frame:
  assumes "ab_users s' = ab_users s" "ab_tokens s' = ab_tokens s" "ab_profile_grants s' = ab_profile_grants s"
    "(project, i) \<in> set (ab_profile_grants s) \<Longrightarrow> profile_enabled i s' = profile_enabled i s"
  shows "TeamGrantAllows e user token i project s' = TeamGrantAllows e user token i project s"
proof -
  have "live_row e s' = live_row e s" using assms(1) by (simp add: live_row_def enabled_user_def fun_eq_iff)
  with assms show ?thesis by (auto simp: TeamGrantAllows_def split: option.splits)
qed

lemma audit_self: "\<exists>t. s = s\<lparr>ab_audit := t\<rparr>"
  by (rule exI [of _ "ab_audit s"]) (cases s, simp)

text \<open>C14: A registration grants nothing. A refused one changes nothing but the audit. One that
  succeeds comes from a peer still valid and writes exactly one profile row, of the calling service
  and the team it names: the row that service had for the team, enabled, whose name alone changes, or
  the first row for them, enabled. No other profile row, and no other table but the audit, changes:
  neither a grant of a project nor one of a team, no user, token or credential. Who is granted what
  through a team is as before.\<close>

theorem registration_grants_nothing:
  assumes "acc_ok s" "RegisterTeam quote e actor peer team name s0 s = ((reg, x), s')"
  shows "(x \<noteq> None \<longrightarrow> (\<exists>t. s' = s\<lparr>ab_audit := t\<rparr>))
    \<and> (x = None \<longrightarrow> peerStillValid peer (an_now e 0) s = None \<and> validName name \<and> MatchString teamUUIDPattern team
        \<and> (\<exists>k ps t. s' = s\<lparr>ab_profiles := ps, ab_audit := t\<rparr>
            \<and> map_of ps = (map_of (ab_profiles s))(k \<mapsto>
                \<lparr>tm_service_id = pi_ServiceID peer, tm_team_id = team, tm_team_name = name, tm_disabled = False\<rparr>)
            \<and> (case map_of (ab_profiles s) k of
                 None \<Rightarrow> (\<forall>j r. map_of (ab_profiles s) j = Some r \<longrightarrow> \<not> of_team (pi_ServiceID peer) team r)
               | Some r \<Rightarrow> tm_service_id r = pi_ServiceID peer \<and> tm_team_id r = team \<and> \<not> tm_disabled r)))
    \<and> ab_grants s' = ab_grants s \<and> ab_profile_grants s' = ab_profile_grants s
    \<and> TeamGrantAllows e' user token i project s' = TeamGrantAllows e' user token i project s"
proof -
  have ok: "tb_ok (ab_profiles s)" and g: "refs_ok s" using assms(1) by (simp_all add: acc_ok_def tables_ok_def)
  from assms(2) have c: "x \<noteq> None \<and> (\<exists>t. s' = s\<lparr>ab_audit := t\<rparr>) \<or> x = None \<and> validName name \<and> MatchString teamUUIDPattern team
      \<and> (\<exists>reg0 reg1 s1 t. register_tx e peer team name reg0 s = Inr (reg1, s1) \<and> s' = s1\<lparr>ab_audit := t\<rparr>)"
    unfolding RegisterTeam_def recordRegistration_def change_def Let_def
    by (auto dest!: auditD intro: audit_self split: step_splits)
  then show ?thesis
  proof (elim disjE conjE exE)
    fix t assume "x \<noteq> None" "s' = s\<lparr>ab_audit := t\<rparr>"
    then show ?thesis using grant_frame [of s' s project i] by (auto simp: profile_enabled_def)
  next
    fix reg0 reg1 s1 t
    assume x: "x = None" "validName name" "MatchString teamUUIDPattern team" and r: "register_tx e peer team name reg0 s = Inr (reg1, s1)"
      and s': "s' = s1\<lparr>ab_audit := t\<rparr>"
    let ?q = "\<lparr>tm_service_id = pi_ServiceID peer, tm_team_id = team, tm_team_name = name, tm_disabled = False\<rparr>"
    from register_txD(2) [OF r ok] obtain ps k where k: "s1 = s\<lparr>ab_profiles := ps\<rparr>" "map_of ps = (map_of (ab_profiles s))(k \<mapsto> ?q)"
      "registers (pi_ServiceID peer) team name k s" by blast
    have "profile_enabled i s' = profile_enabled i s" if "(project, i) \<in> set (ab_profile_grants s)"
    proof -
      from that g obtain q where q: "map_of (ab_profiles s) i = Some q" by (auto simp: refs_ok_def has_row_def)
      show ?thesis
      proof (cases "i = k")
        case True
        with q k(3) have "?q = q\<lparr>tm_team_name := name\<rparr>" by (simp add: registers_def)
        then have "tm_disabled q = tm_disabled ?q" by (metis profile_row.select_convs(4) profile_row.surjective profile_row.update_convs(3))
        with q True show ?thesis by (simp add: profile_enabled_def s' k(1,2))
      qed (use q in \<open>simp add: profile_enabled_def s' k(1,2)\<close>)
    qed
    then have a: "TeamGrantAllows e' user token i project s' = TeamGrantAllows e' user token i project s"
      by (intro grant_frame) (simp_all add: s' k(1))
    have "case map_of (ab_profiles s) k of
           None \<Rightarrow> (\<forall>j r. map_of (ab_profiles s) j = Some r \<longrightarrow> \<not> of_team (pi_ServiceID peer) team r)
         | Some r \<Rightarrow> tm_service_id r = pi_ServiceID peer \<and> tm_team_id r = team \<and> \<not> tm_disabled r"
    proof (cases "map_of (ab_profiles s) k")
      case (Some q)
      then show ?thesis using k(3) by (cases q) (simp add: registers_def)
    qed (use k(3) in \<open>simp add: registers_def\<close>)
    moreover have "s' = s\<lparr>ab_profiles := ps, ab_audit := t\<rparr>" by (simp add: s' k(1))
    ultimately show ?thesis using a x register_txD(1) [OF r ok] k(2) by auto
  qed
qed

section \<open>Witnesses\<close>

lemma ax_aops: "aop (ax (CHR ''B'') ''code'') ax0 ax1" "aop (ax (CHR ''C'') ''r'') ax1 ax2" "aop (ax (CHR ''D'') []) ax2 ax3"
  "aop (ax (CHR ''E'') ''s'') ax3 ax4" "aop (ax (CHR ''F'') ax_random) ax4 ax5" "aop (ax (CHR ''G'') []) ax5 ax6"
  "aop (ax (CHR ''H'') ''t'') ax6 ax7" "aop (ax (CHR ''I'') []) ax7 ax8" "aop (ax (CHR ''J'') []) ax8 ax9"
  "aop (ax (CHR ''K'') []) ax9 ax10" "aop (ax (CHR ''L'') []) ax10 ax11" "aop (ax (CHR ''M'') []) ax11 ax12"
  using yieldsD [OF ax1_step] ax_redeem_outcome ax3_step yieldsD [OF ax4_step] yieldsD [OF ax5_step] ax_redeemed yieldsD [OF ax7_step]
    ax_registered ax9_step ax10_step ax11_step yieldsD [OF ax12_step]
  by (blast intro: aop.intros)+

lemma ax_go: "aop (ax c random) s s' \<Longrightarrow> acc_run (take 14) (\<lambda>_. True) s s'"
  using acc_runI [of "ax c random" s s'] by simp

lemma ax_run_to_2: "acc_run (take 14) (\<lambda>_. True) ax0 ax2"
  by (rule acc_run_trans [OF ax_go [OF ax_aops(1)] ax_go [OF ax_aops(2)]])

lemma ax_run_to_5: "acc_run (take 14) (\<lambda>_. True) ax2 ax5"
  by (rule acc_run_trans [OF acc_run_trans [OF ax_go [OF ax_aops(3)] ax_go [OF ax_aops(4)]] ax_go [OF ax_aops(5)]])

lemma ax_run_to_7: "acc_run (take 14) (\<lambda>_. True) ax5 ax7"
  by (rule acc_run_trans [OF ax_go [OF ax_aops(6)] ax_go [OF ax_aops(7)]])

lemma ax_run_to_9: "acc_run (take 14) (\<lambda>_. True) ax7 ax9"
  by (rule acc_run_trans [OF ax_go [OF ax_aops(8)] ax_go [OF ax_aops(9)]])

lemma ax_run_to_12: "acc_run (take 14) (\<lambda>_. True) ax10 ax12"
  by (rule acc_run_trans [OF ax_go [OF ax_aops(11)] ax_go [OF ax_aops(12)]])

lemma ax_run_2_9: "acc_run (take 14) (\<lambda>_. True) ax2 ax9"
  by (rule acc_run_trans [OF acc_run_trans [OF ax_run_to_5 ax_run_to_7] ax_run_to_9])

lemma ax_oks: "acc_ok ax0" "acc_ok ax1" "acc_ok ax2" "acc_ok ax5" "acc_ok ax7" "acc_ok ax9" "acc_ok ax11"
proof -
  show a: "acc_ok ax0" by (simp add: ax0_def empty_store_ok)
  show "acc_ok ax1" by (rule aop_ok [OF ax_aops(1) a])
  show b: "acc_ok ax2" by (rule acc_run_ok [OF ax_run_to_2 a])
  show c: "acc_ok ax5" by (rule acc_run_ok [OF ax_run_to_5 b])
  show d: "acc_ok ax7" by (rule acc_run_ok [OF ax_run_to_7 c])
  show f: "acc_ok ax9" by (rule acc_run_ok [OF ax_run_to_9 d])
  show "acc_ok ax11" by (rule aop_ok [OF ax_aops(11) aop_ok [OF ax_aops(10) f]])
qed

theorem access_store_stays_consistent_witness: "acc_ok ax9 \<and> ab_profile_grants ax9 = [(''inst'', ''I0'')]"
proof -
  have "acc_run (take 14) (\<lambda>_. True) (empty_store ''hub'') ax9"
    using acc_run_trans [OF ax_run_to_2 ax_run_2_9] by (simp add: ax0_def)
  from access_store_stays_consistent [OF this] show ?thesis by (simp add: ax9_def ax_audited_def)
qed

theorem revoked_token_stays_dead_witness:
  "Authenticate (ax (CHR ''N'') []) ''aimem_user_72'' ax12 = Inl ErrDenied \<and> \<not> CanWriteToken (ax (CHR ''N'') []) ''C0'' ''C1'' ''inst'' ax12"
proof -
  have "map_of (ab_tokens ax9) ''C1'' = Some ax_token" by (simp add: ax_states)
  from revoked_token_stays_dead [OF ax_oks(6) ax10_step this ax_run_to_12, of "''aimem_user_72''" "ax (CHR ''N'') []"]
  show ?thesis by (simp add: ax_token_def)
qed

lemma ax_again: "\<exists>res s'. RedeemEnrollment (ax (CHR ''N'') []) ax_redeem ax9 = (Inr res, s')"
  by (simp add: RedeemEnrollment_def redeem_def replay_def ax_redeem_def redeemSubject_def EnrollmentDeliveryRetention_def enabled_user_def
    enrollmentClient_def redeem_input_digest_def ax_texts ax_shapes ax_calls ax_times ax_states ax_rows)

theorem bundle_is_redeemed_once_witness:
  "\<exists>res s'. RedeemEnrollment (ax (CHR ''N'') []) ax_redeem ax9 = (Inr res, s') \<and> rs_Replayed res \<and> rs_UserID res = ''C0'' \<and> ab_users s' = ab_users ax9"
proof -
  from ax_again obtain res s' where r: "RedeemEnrollment (ax (CHR ''N'') []) ax_redeem ax9 = (Inr res, s')" by blast
  have "map_of (ab_enrollments ax2) ax_id = Some (ax_bundle\<lparr>bn_redeemed := Some ax_mark\<rparr>)" by (simp add: ax_states)
  from bundle_is_redeemed_once [OF ax_oks(3) this _ ax_run_2_9 _ r] r show ?thesis
    by (auto simp: ax_bundle_def ax_redeem_def ax_mark_def)
qed

theorem redemption_enrolls_one_user_witness:
  "Authenticate (ax (CHR ''N'') []) ''aimem_user_72'' ax2 = Inr \<lparr>dn_UserID = ''C0'', dn_TokenID = ''C1'',
     dn_Name = ''laptop'', dn_Scope = ScopeUser, dn_Project = []\<rparr>
   \<and> map_of (ab_tokens ax2) = [''C1'' \<mapsto> ax_token]
   \<and> (\<exists>m. map_of (ab_enrollments ax2) = [ax_id \<mapsto> ax_bundle\<lparr>bn_redeemed := Some m\<rparr>] \<and> rm_ciphertext m = ''aimem_user_72'')"
proof -
  have "unix (an_now (ax (CHR ''N'') []) 0) < unix (truncate_second (an_now (ax (CHR ''C'') ''r'') 0) + enrolledTokenLife)"
    by (simp add: ax_def ax_times enrolledTokenLife_def)
  from redemption_enrolls_one_user [OF ax_oks(2) ax_redeem_outcome _ _ this, of "''p''"] obtain i b random name bearer m where
    b: "map_of (ab_enrollments ax1) i = Some b" "name = (if bn_user_name b = [] then rr_Label ax_redeem else bn_user_name b)"
    and r: "an_random (ax (CHR ''C'') ''r'') 0 = Some random" "bearer = ''aimem_user_'' @ hex_encode random"
    and t: "map_of (ab_tokens ax2) = (map_of (ab_tokens ax1))(''C1'' \<mapsto> \<lparr>tok_user_id = ''C0'', tok_label = rr_Label ax_redeem,
         tok_project = [], tok_digest = an_sha (ax (CHR ''C'') ''r'') bearer,
         tok_expires_at = unix (truncate_second (an_now (ax (CHR ''C'') ''r'') 0) + enrolledTokenLife),
         tok_revoked = False, tok_scope = ScopeUser\<rparr>)"
    and e: "map_of (ab_enrollments ax2) = (map_of (ab_enrollments ax1))(i \<mapsto> b\<lparr>bn_redeemed := Some m\<rparr>)" "rm_ciphertext m = ''aimem_user_72''"
    and a: "Authenticate (ax (CHR ''N'') []) bearer ax2 = Inr \<lparr>dn_UserID = ''C0'', dn_TokenID = ''C1'',
     dn_Name = name, dn_Scope = ScopeUser, dn_Project = []\<rparr>" by auto
  have one: "ab_enrollments ax1 = [(ax_id, ax_bundle)]" "ab_tokens ax1 = []" by (simp_all add: ax_states)
  have i: "i = ax_id" "b = ax_bundle" using b(1) by (simp_all add: one split: if_splits)
  have "random = ''r''" using r(1) by (simp add: ax_def)
  then have bearer: "bearer = ''aimem_user_72''" using r(2) ax_texts(2) by simp
  have name: "name = ''laptop''" using b(2) by (simp add: i ax_bundle_def ax_redeem_def)
  have "map_of (ab_tokens ax2) = [''C1'' \<mapsto> ax_token]"
    using t by (simp add: one bearer ax_token_def ax_redeem_def ScopeUser_def) (simp add: ax_def ax_times enrolledTokenLife_def)
  then show ?thesis using a e by (auto simp: bearer name i one)
qed

lemma ax_reproof: "\<exists>m. RedeemProof (ax (CHR ''N'') []) ax_who ax_prove ax7 = (Inr m, ax7)"
  by (simp add: RedeemProof_def ax_prove_def ax_who_def peerStillValid_def credential_live_def PeerOperationRedeem_def pruneIdentityLedger_def
    delete_where_def redemptionRetention_def userTokenState_def enabled_user_def ScopeUser_def receipt_input_digest_def
    ax_texts ax_shapes ax_calls ax_times ax_states ax_rows)

theorem receipt_is_spent_once_witness:
  "\<exists>m. RedeemProof (ax (CHR ''N'') []) ax_who ax_prove ax7 = (Inr m, ax7) \<and> dm_Replayed m"
proof -
  let ?M = "\<lambda>d. d \<noteq> an_sha (ax (CHR ''G'') []) (dq_Receipt ax_prove)"
  have "receipt_secret ''t'' = ''amr1_dA''" by code_simp
  then have "\<forall>d. mints (ax (CHR ''H'') ''t'') d \<longrightarrow> ?M d" by (simp add: mints_def ax_prove_def ax_texts) (simp add: ax_def)
  then have run: "acc_run (take 14) ?M ax6 ax7"
    unfolding acc_run_def by (intro r_into_rtranclp acc_step.intros [OF ax_aops(7)]) simp
  from ax_reproof obtain m where m: "RedeemProof (ax (CHR ''N'') []) ax_who ax_prove ax7 = (Inr m, ax7)" by blast
  from receipt_is_spent_once [OF ax_oks(4) ax_redeemed _ run _ _ refl m] m show ?thesis by simp
qed

theorem retirement_leaves_nothing_witness: "ab_credentials ax12 = [] \<and> length (ab_credentials ax11) = 2 \<and> (\<forall>k p. map_of (ab_peers ax12) k \<noteq> Some p)"
proof -
  from yieldsD [OF ax12_step] obtain r where "RetireIdentityPeer (ax (CHR ''M'') []) ''admin'' ''crew'' ax11 = Inr (r, ax12)" by blast
  from retirement_leaves_nothing [OF ax_oks(7) this] show ?thesis by (auto simp: ax_states)
qed

theorem registration_grants_nothing_witness:
  "\<exists>k. map_of (ab_profiles ax8) = [k \<mapsto> ax_profile] \<and> ab_grants ax8 = ab_grants ax7 \<and> ab_profile_grants ax8 = []"
proof -
  from registration_grants_nothing [OF ax_oks(5) ax_registered, of "ax (CHR ''N'') []" "''C0''" "''C1''" "''I0''" "''inst''"] obtain k ps t where
    "ax8 = ax7\<lparr>ab_profiles := ps, ab_audit := t\<rparr>" "map_of ps = (map_of (ab_profiles ax7))(k \<mapsto>
                \<lparr>tm_service_id = pi_ServiceID ax_registrar, tm_team_id = ax_id, tm_team_name = ''core'', tm_disabled = False\<rparr>)"
      "ab_grants ax8 = ab_grants ax7" "ab_profile_grants ax8 = ab_profile_grants ax7" by auto
  then show ?thesis by (auto simp: ax_profile_def ax_registrar_def ax_states)
qed

text \<open>A refused redemption commits more than its audit: the pruning that came before it.\<close>

lemma refusal_commits_pruning:
  "\<exists>e peer req s s'. acc_ok s \<and> RedeemProof e peer req s = (Inl ErrProofInvalid, s') \<and> ab_receipts s' \<noteq> ab_receipts s"
proof -
  let ?f = "ax_receipt\<lparr>rp_expires_ms := 0\<rparr>"
  let ?s = "ax4\<lparr>ab_receipts := [(''F0'', ?f)]\<rparr>"
  have "insert_receipt ''F0'' ?f ax4 = Inr ?s" by (simp add: insert_receipt_def ax_calls ax_states)
  from edit_ok [OF ed_receipt_new [OF this, of "\<lambda>_. True"]] aop_ok [OF ax_aops(4) aop_ok [OF ax_aops(3) ax_oks(3)]] have "acc_ok ?s" by simp
  moreover have "\<exists>s'. RedeemProof (ax (CHR ''N'') []) ax_who ax_prove ?s = (Inl ErrProofInvalid, s') \<and> ab_receipts s' = []"
    by (simp add: RedeemProof_def refuse_redeem_def ax_prove_def ax_who_def peerStillValid_def credential_live_def PeerOperationRedeem_def
      pruneIdentityLedger_def delete_where_def redemptionRetention_def ax_texts ax_shapes ax_calls ax_times ax_states ax_rows)
  ultimately show ?thesis by (metis (no_types, lifting) adb.select_convs(12) adb.update_convs(12) list.distinct(1) adb.surjective)
qed

end
