(* ===== verification/Aliases.thy ===== *)
theory Aliases
  imports Prelude
begin

text \<open>
  The aliases a rename or a merge of projects records (\<open>MergeOriginAliases\<close> in
  \<open>internal/store/memory.go\<close>): the union of two maps with the local entries preferred, and the walk
  that points every chain at its end. A Go map is an association list with distinct keys. Go visits the
  entries of a map in an unspecified order, so the order is an argument.
\<close>

section \<open>The merge\<close>

type_synonym aliases = "(string \<times> string) list"

text \<open>Reading an absent key gives the empty string.\<close>

definition look :: "aliases \<Rightarrow> string \<Rightarrow> string" where
  "look m k = (case map_of m k of None \<Rightarrow> [] | Some v \<Rightarrow> v)"

function walk_alias :: "aliases \<Rightarrow> string list \<Rightarrow> string \<Rightarrow> string" where
  "walk_alias m seen v = (if look m v \<noteq> [] \<and> v \<notin> set seen then walk_alias m (v # seen) (look m v) else v)"
  by pat_completeness auto
termination
proof (relation "measure (\<lambda>(m, seen, v). card (fst ` set m - set seen))", simp, clarsimp)
  fix m :: aliases and seen v
  assume l: "look m v \<noteq> []" and v: "v \<notin> set seen"
  have "v \<in> fst ` set m" using l by (auto simp: look_def split: option.splits dest: map_of_SomeD intro: rev_image_eqI)
  then have "fst ` set m - insert v (set seen) \<subset> fst ` set m - set seen" using v by blast
  then show "card (fst ` set m - insert v (set seen)) < card (fst ` set m - set seen)"
    by (intro psubset_card_mono) auto
qed

declare walk_alias.simps [simp del]

definition repoint :: "string \<Rightarrow> aliases \<Rightarrow> aliases" where
  "repoint k m = AList.update k (walk_alias m [k] (look m k)) m"

definition MergeOriginAliases :: "string list \<Rightarrow> aliases \<Rightarrow> aliases \<Rightarrow> aliases" where
  "MergeOriginAliases order local peer = fold repoint order (AList.merge peer local)"

section \<open>Maps without a cycle\<close>

text \<open>Following a map so many steps, and the end of a chain.\<close>

fun chase :: "nat \<Rightarrow> aliases \<Rightarrow> string \<Rightarrow> string" where
  "chase 0 m v = v"
| "chase (Suc n) m v = (if look m v = [] then v else chase n m (look m v))"

definition final :: "aliases \<Rightarrow> string \<Rightarrow> string" where
  "final m v = chase (length m) m v"

definition named_map :: "aliases \<Rightarrow> bool" where
  \<comment> \<open>no key and no value is the empty string\<close>
  "named_map m \<longleftrightarrow> list_all (\<lambda>(k, v). k \<noteq> [] \<and> v \<noteq> []) m"

definition acyclic_map :: "aliases \<Rightarrow> bool" where
  "acyclic_map m \<longleftrightarrow> named_map m \<and> list_all (\<lambda>(k, v). look m (final m k) = []) m"

definition visits :: "string list \<Rightarrow> aliases \<Rightarrow> bool" where
  \<comment> \<open>an order in which Go may visit the entries\<close>
  "visits order m \<longleftrightarrow> distinct order \<and> set order = fst ` set m"

lemma look_merge: "look (AList.merge peer local) k = (if k \<in> fst ` set local then look local k else look peer k)"
proof (cases "map_of local k")
  case None
  then have "k \<notin> fst ` set local" by (simp add: map_of_eq_None_iff)
  with None show ?thesis by (simp add: look_def merge_conv' map_add_def)
next
  case (Some v)
  then have "k \<in> fst ` set local" by (metis map_of_eq_None_iff option.distinct(1))
  with Some show ?thesis by (simp add: look_def merge_conv' map_add_def)
qed

lemma look_update: "look (AList.update k v m) u = (if u = k then v else look m u)"
  by (simp add: look_def)

lemma look_Nil_iff: "named_map m \<Longrightarrow> look m v = [] \<longleftrightarrow> v \<notin> fst ` set m"
proof (cases "map_of m v")
  case None
  moreover from None have "v \<notin> fst ` set m" by (simp add: map_of_eq_None_iff)
  ultimately show ?thesis by (simp add: look_def)
next
  case (Some w)
  assume "named_map m"
  with map_of_SomeD [OF Some] have "w \<noteq> []" by (auto simp: named_map_def list_all_iff)
  with Some show ?thesis by (metis look_def map_of_eq_None_iff option.distinct(1) option.simps(5))
qed

lemma chase_stop: "look m v = [] \<Longrightarrow> chase n m v = v"
  by (cases n) auto

lemma chase_more: "look m (chase n m v) = [] \<Longrightarrow> n \<le> n' \<Longrightarrow> chase n' m v = chase n m v"
proof (induction n arbitrary: v n')
  case 0
  then show ?case by (simp add: chase_stop)
next
  case (Suc n)
  obtain j where j: "n' = Suc j" using Suc.prems(2) by (cases n') auto
  show ?case
  proof (cases "look m v = []")
    case True
    then show ?thesis by (simp add: chase_stop)
  next
    case False
    have "look m (chase n m (look m v)) = []" using Suc.prems(1) False by simp
    from Suc.IH [OF this, of j] show ?thesis using False Suc.prems(2) j by simp
  qed
qed

lemma acyclic_final:
  assumes "acyclic_map m"
  shows "look m (final m v) = []"
proof (cases "look m v = []")
  case True
  then show ?thesis by (simp add: final_def chase_stop)
next
  case False
  with assms have "v \<in> fst ` set m" by (simp add: look_Nil_iff acyclic_map_def)
  then obtain p where "p \<in> set m" "v = fst p" by blast
  moreover have "\<forall>q \<in> set m. look m (final m (fst q)) = []"
    using assms by (simp add: acyclic_map_def list_all_iff split_beta)
  ultimately show ?thesis by blast
qed

lemma final_step:
  assumes "acyclic_map m" "look m v \<noteq> []"
  shows "final m (look m v) = final m v"
proof -
  have f: "look m (chase (length m) m v) = []" using acyclic_final [OF assms(1)] by (simp add: final_def)
  obtain n where n: "length m = Suc n"
    using assms by (cases "length m") (auto simp: look_def)
  have c: "chase (Suc n) m v = chase n m (look m v)" using assms by simp
  have "chase (Suc n) m (look m v) = chase n m (look m v)"
    by (rule chase_more) (use f n c in auto)
  then show ?thesis using c n by (simp add: final_def)
qed

text \<open>How far a name is from its end; it falls along the map.\<close>

definition far :: "aliases \<Rightarrow> string \<Rightarrow> nat" where
  "far m v = (LEAST n. look m (chase n m v) = [])"

lemma far_step:
  assumes a: "acyclic_map m" and l: "look m v \<noteq> []"
  shows "far m (look m v) < far m v"
proof -
  have ex: "look m (chase (far m v) m v) = []"
    unfolding far_def by (rule LeastI [of _ "length m"]) (use acyclic_final [OF a] in \<open>simp add: final_def\<close>)
  then obtain n where n: "far m v = Suc n" using l by (cases "far m v") auto
  then have "look m (chase n m (look m v)) = []" using ex l by simp
  then have "far m (look m v) \<le> n" by (simp add: far_def Least_le)
  then show ?thesis using n by simp
qed

lemma far_final:
  assumes a: "acyclic_map m"
  shows "far m (final m v) = 0"
  using acyclic_final [OF a, of v] by (simp add: far_def)

section \<open>What the merge computes\<close>

text \<open>A map on its way: every entry still has its first value or has its end already.\<close>

definition between :: "aliases \<Rightarrow> aliases \<Rightarrow> bool" where
  "between r m \<longleftrightarrow> (\<forall>k. look m k = look r k \<or> look r k \<noteq> [] \<and> look m k = final r (look r k))"

lemma final_named:
  assumes a: "acyclic_map r" and l: "look r v \<noteq> []"
  shows "final r (look r v) \<noteq> []"
proof -
  have e: "look r [] = []" using a by (auto simp: look_Nil_iff acyclic_map_def named_map_def list_all_iff)
  have "chase n r u \<noteq> []" if "u \<noteq> []" for n u using that by (induction n arbitrary: u) auto
  then show ?thesis using l by (simp add: final_def)
qed

lemma between_step:
  assumes a: "acyclic_map r" and b: "between r m" and l: "look m v \<noteq> []"
  shows "look r v \<noteq> []" "final r (look m v) = final r v" "far r (look m v) < far r v"
proof -
  show r: "look r v \<noteq> []" using b l by (metis between_def)
  have f: "final r (final r (look r v)) = final r (look r v)"
    using acyclic_final [OF a] by (metis chase_stop final_def)
  from b r consider "look m v = look r v" | "look m v = final r (look r v)" by (auto simp: between_def)
  then show "final r (look m v) = final r v"
    by cases (use final_step [OF a r] f in auto)
  have s: "far r (look r v) < far r v" by (rule far_step [OF a r])
  from b r consider "look m v = look r v" | "look m v = final r (look r v)" by (auto simp: between_def)
  then show "far r (look m v) < far r v"
    by cases (use s far_final [OF a] in auto)
qed

lemma walk_final:
  assumes a: "acyclic_map r" and b: "between r m"
  shows "\<forall>u \<in> set seen. far r v < far r u \<Longrightarrow> walk_alias m seen v = final r v"
proof (induction "far r v" arbitrary: v seen rule: less_induct)
  case less
  show ?case
  proof (cases "look m v = []")
    case True
    then have "look r v = []" using b final_named [OF a] by (metis between_def)
    with True show ?thesis by (simp add: walk_alias.simps final_def chase_stop)
  next
    case False
    note s = between_step [OF a b False]
    have "v \<notin> set seen" using less.prems by blast
    moreover have "walk_alias m (v # seen) (look m v) = final r (look m v)"
      by (rule less.hyps) (use s less.prems in auto)
    ultimately show ?thesis using False s(2) by (simp add: walk_alias.simps [of m seen v])
  qed
qed

lemma repoint_between:
  assumes a: "acyclic_map r" and b: "between r m" and k: "look r k \<noteq> []"
  shows "between r (repoint k m)" "look (repoint k m) k = final r (look r k)"
proof -
  have n: "look m k \<noteq> []" using b k final_named [OF a k] by (metis between_def)
  note s = between_step [OF a b n]
  have w: "walk_alias m [k] (look m k) = final r (look r k)"
    using walk_final [OF a b, of "[k]" "look m k"] s final_step [OF a k] by simp
  show "between r (repoint k m)" using b k w by (simp add: between_def repoint_def look_update)
  show "look (repoint k m) k = final r (look r k)" by (simp add: repoint_def look_update w)
qed

lemma repoint_keys: "k \<in> fst ` set m \<Longrightarrow> fst ` set (repoint k m) = fst ` set m"
  by (auto simp: repoint_def dom_update)

lemma fold_repoint:
  assumes a: "acyclic_map r"
  shows "\<lbrakk>between r m; set order \<subseteq> fst ` set r; distinct order; fst ` set m = fst ` set r;
      \<forall>k \<in> fst ` set r - set order. look m k = final r (look r k)\<rbrakk> \<Longrightarrow>
    fst ` set (fold repoint order m) = fst ` set r \<and>
    (\<forall>k \<in> fst ` set r. look (fold repoint order m) k = final r (look r k))"
proof (induction order arbitrary: m)
  case (Cons k ks)
  have k: "look r k \<noteq> []" using Cons.prems a by (simp add: look_Nil_iff acyclic_map_def)
  note s = repoint_between [OF a Cons.prems(1) k]
  have "\<forall>u \<in> fst ` set r - set ks. look (repoint k m) u = final r (look r u)"
    using Cons.prems(5) s(2) by (auto simp: repoint_def look_update)
  then show ?case using Cons.IH [OF s(1)] Cons.prems by (auto simp: repoint_keys)
qed simp

lemma merged_aliases:
  assumes "acyclic_map (AList.merge peer local)" "visits order (AList.merge peer local)"
  defines "r \<equiv> AList.merge peer local"
  shows "fst ` set (MergeOriginAliases order local peer) = fst ` set local \<union> fst ` set peer"
    "k \<in> fst ` set local \<union> fst ` set peer \<Longrightarrow> look (MergeOriginAliases order local peer) k = final r (look r k)"
proof -
  have d: "fst ` set r = fst ` set local \<union> fst ` set peer"
    using dom_merge [of peer local] by (auto simp: r_def)
  have "between r r" by (simp add: between_def)
  with assms have f: "fst ` set (fold repoint order r) = fst ` set r \<and>
      (\<forall>k \<in> fst ` set r. look (fold repoint order r) k = final r (look r k))"
    by (intro fold_repoint) (auto simp: visits_def)
  then show "fst ` set (MergeOriginAliases order local peer) = fst ` set local \<union> fst ` set peer"
    using d by (simp add: MergeOriginAliases_def r_def)
  assume "k \<in> fst ` set local \<union> fst ` set peer"
  with d have "k \<in> fst ` set r" by blast
  with f show "look (MergeOriginAliases order local peer) k = final r (look r k)"
    unfolding MergeOriginAliases_def r_def by blast
qed

end
