(* ===== verification/Pacer.thy ===== *)
theory Pacer
  imports GoStrings "HOL-Library.Signed_Division"
begin

text \<open>
  The pacer of outbound model calls (\<open>internal/llmrate/llmrate.go\<close>). Times and durations are
  nanoseconds. The base interval and the number of retries (\<open>conf\<close>) are arguments. The state file
  is part of the state; every process that shares it runs this code. Waiting is split at the sleep:
  \<open>reserve\<close> is what happens under the mutex before it, \<open>wake\<close> what happens after.
\<close>

section \<open>State\<close>

definition Second :: int where "Second = 1000000000"
definition Millisecond :: int where "Millisecond = 1000000"
definition maxPenalty :: int where "maxPenalty = 120 * Second"
definition penaltyStep :: int where "penaltyStep = 5 * Second"

record saved =
  sv_PenaltyMS :: int
  sv_Blocks :: int
  sv_LastBlock :: string

record pacer =
  pc_last :: int
  pc_penGen :: int
  pc_penalty :: int
  pc_blocks :: int
  pc_lastHit :: string
  pc_stateDir :: bool
  pc_file :: "saved option"

text \<open>\<open>pc_file\<close> is \<open>None\<close> when the file is missing or does not parse. The time of the write in it is
  never read and is left out; so are the log lines.\<close>

text \<open>A duration is an \<open>int64\<close>; Go's division truncates.\<close>

definition wrap64 :: "int \<Rightarrow> int" where
  "wrap64 n = (n + 2 ^ 63) mod 2 ^ 64 - 2 ^ 63"

definition loadLocked :: "pacer \<Rightarrow> pacer" where
  "loadLocked s =
     (if \<not> pc_stateDir s then s
      else case pc_file s of None \<Rightarrow> s
        | Some f \<Rightarrow> s\<lparr>pc_penalty := wrap64 (sv_PenaltyMS f * Millisecond), pc_blocks := sv_Blocks f, pc_lastHit := sv_LastBlock f\<rparr>)"

definition saveLocked :: "pacer \<Rightarrow> pacer" where
  "saveLocked s =
     (if \<not> pc_stateDir s then s
      else s\<lparr>pc_file := Some \<lparr>sv_PenaltyMS = pc_penalty s sdiv Millisecond, sv_Blocks = pc_blocks s, sv_LastBlock = pc_lastHit s\<rparr>\<rparr>)"

definition SetStateDir :: "bool \<Rightarrow> pacer \<Rightarrow> pacer" where
  "SetStateDir dir s = loadLocked (s\<lparr>pc_stateDir := dir\<rparr>)"

section \<open>Adapting\<close>

definition Penalize :: "string \<Rightarrow> pacer \<Rightarrow> pacer" where
  "Penalize now s =
     (let p = (if pc_penalty s < penaltyStep then penaltyStep else wrap64 (pc_penalty s * 2));
          p' = (if maxPenalty < p then maxPenalty else p)
      in saveLocked (s\<lparr>pc_penalty := p', pc_blocks := pc_blocks s + 1, pc_penGen := pc_penGen s + 1, pc_lastHit := now\<rparr>))"

definition Recover :: "pacer \<Rightarrow> pacer" where
  "Recover s =
     (if pc_penalty s = 0 then s
      else let p = pc_penalty s sdiv 2 in saveLocked (s\<lparr>pc_penalty := (if p < Second then 0 else p)\<rparr>))"

section \<open>Waiting\<close>

datatype reserved = Go | Refused | Sleep int int

text \<open>\<open>Wait\<close> up to its sleep: it may go at once, or sleeps until its slot under a generation.\<close>

definition wait_reserve :: "int \<Rightarrow> int \<Rightarrow> pacer \<Rightarrow> reserved \<times> pacer" where
  "wait_reserve interval now s =
     (let gap = wrap64 (interval + pc_penalty s) in
      if gap \<le> 0 then (Go, if pc_last s < now then s\<lparr>pc_last := now\<rparr> else s)
      else let slot = (if pc_last s + gap < now then now else pc_last s + gap)
           in (Sleep slot (pc_penGen s), s\<lparr>pc_last := slot\<rparr>))"

definition within_reserve :: "int \<Rightarrow> int \<Rightarrow> int \<Rightarrow> pacer \<Rightarrow> reserved \<times> pacer" where
  "within_reserve interval deadline now s =
     (let gap = wrap64 (interval + pc_penalty s);
          slot = (if pc_last s + gap < now then now else pc_last s + gap)
      in if deadline < slot then (Refused, s) else (Sleep slot (pc_penGen s), s\<lparr>pc_last := slot\<rparr>))"

text \<open>After the sleep: whether the waiter must queue again.\<close>

definition requeue :: "int \<Rightarrow> pacer \<Rightarrow> bool" where
  "requeue gen s \<longleftrightarrow> pc_penGen s \<noteq> gen"

section \<open>Retries and blocks\<close>

text \<open>The jitter is the random number drawn below five seconds.\<close>

definition RetryDelay :: "nat \<Rightarrow> int \<Rightarrow> int" where
  "RetryDelay attempt jitter =
     (let d = wrap64 (push_bit attempt (15 * Second)) in (if maxPenalty < d then maxPenalty else d) + jitter)"

definition BlockedMessage :: "(string \<Rightarrow> string) \<Rightarrow> string \<Rightarrow> bool" where
  "BlockedMessage toLower msg \<longleftrightarrow>
     (let t = TrimSpace msg; low = toLower t in
      take 1 t = ''<'' \<or> Contains low ''<html'' \<or> Contains low ''cloudflare'' \<or> Contains low ''attention required'')"

definition Blocked :: "(string \<Rightarrow> string) \<Rightarrow> int \<Rightarrow> string \<Rightarrow> bool \<Rightarrow> bool" where
  "Blocked toLower status body decoded \<longleftrightarrow>
     (if status = 429 \<or> 500 \<le> status then True
      else if decoded \<and> status div 100 = 2 then False
      else BlockedMessage toLower body)"

definition Clip :: "string \<Rightarrow> nat \<Rightarrow> string" where
  "Clip s n = (if length s \<le> n then s else take n s @ ellipsis @ '' (truncated)'')"

section \<open>Runs\<close>

text \<open>What this code leaves in the state file.\<close>

definition penalty_ok :: "int \<Rightarrow> bool" where
  "penalty_ok p \<longleftrightarrow> p = 0 \<or> (Second \<le> p \<and> p \<le> maxPenalty)"

definition file_ok :: "saved option \<Rightarrow> bool" where
  "file_ok f = (case f of None \<Rightarrow> True | Some v \<Rightarrow> penalty_ok (sv_PenaltyMS v * Millisecond))"

definition first_pacer :: "bool \<Rightarrow> saved option \<Rightarrow> pacer" where
  "first_pacer dir f = \<lparr>pc_last = 0, pc_penGen = 0, pc_penalty = 0, pc_blocks = 0, pc_lastHit = [], pc_stateDir = dir, pc_file = f\<rparr>"

text \<open>\<open>pacing interval now s W R G\<close>: at time \<open>now\<close> the state is \<open>s\<close>, the waiters in \<open>W\<close> sleep until
  their slots under their generations, \<open>R\<close> are all the slots reserved so far, newest first, and \<open>G\<close>
  the slots of the calls that were let go. Other processes write the file. A waiter that must queue
  again reserves in a later step, as one that comes anew.\<close>

inductive pacing :: "int \<Rightarrow> int \<Rightarrow> pacer \<Rightarrow> (int \<times> int) list \<Rightarrow> int list \<Rightarrow> int list \<Rightarrow> bool" for interval where
  start: "file_ok f \<Longrightarrow> 0 \<le> now \<Longrightarrow> pacing interval now (first_pacer dir f) [] [] []"
| tick: "pacing interval now s W R G \<Longrightarrow> now \<le> later \<Longrightarrow> pacing interval later s W R G"
| go: "pacing interval now s W R G \<Longrightarrow> wait_reserve interval now s = (Go, s') \<Longrightarrow> pacing interval now s' W R G"
| wait: "pacing interval now s W R G \<Longrightarrow> wait_reserve interval now s = (Sleep slot gen, s')
    \<Longrightarrow> pacing interval now s' ((slot, gen) # W) (slot # R) G"
| within: "pacing interval now s W R G \<Longrightarrow> within_reserve interval deadline now s = (Sleep slot gen, s')
    \<Longrightarrow> pacing interval now s' ((slot, gen) # W) (slot # R) G"
| refused: "pacing interval now s W R G \<Longrightarrow> within_reserve interval deadline now s = (Refused, s') \<Longrightarrow> pacing interval now s' W R G"
| wake: "pacing interval now s W R G \<Longrightarrow> (slot, gen) \<in> set W \<Longrightarrow> slot \<le> now
    \<Longrightarrow> pacing interval now s (remove1 (slot, gen) W) R (if requeue gen s then G else slot # G)"
| penalize: "pacing interval now s W R G \<Longrightarrow> pacing interval now (Penalize at s) W R G"
| recover: "pacing interval now s W R G \<Longrightarrow> pacing interval now (Recover s) W R G"
| set_dir: "pacing interval now s W R G \<Longrightarrow> pacing interval now (SetStateDir dir s) W R G"
| status: "pacing interval now s W R G \<Longrightarrow> pacing interval now (loadLocked s) W R G"
| others: "pacing interval now s W R G \<Longrightarrow> file_ok f \<Longrightarrow> pacing interval now (s\<lparr>pc_file := f\<rparr>) W R G"

lemma wrap64_id: "- (2 ^ 63) \<le> n \<Longrightarrow> n < 2 ^ 63 \<Longrightarrow> wrap64 n = n"
  by (simp add: wrap64_def)

lemmas pacer_units = Second_def Millisecond_def maxPenalty_def penaltyStep_def

lemma penalty_ok_bounds: "penalty_ok p \<Longrightarrow> 0 \<le> p \<and> p \<le> maxPenalty"
  by (auto simp: penalty_ok_def pacer_units)

definition sound :: "pacer \<Rightarrow> bool" where
  "sound s \<longleftrightarrow> penalty_ok (pc_penalty s) \<and> file_ok (pc_file s)"

lemma save_sound: "penalty_ok (pc_penalty s) \<Longrightarrow> file_ok (pc_file s) \<Longrightarrow> sound (saveLocked s)"
proof -
  assume p: "penalty_ok (pc_penalty s)" "file_ok (pc_file s)"
  have "penalty_ok (pc_penalty s sdiv Millisecond * Millisecond)"
  proof (cases "pc_penalty s = 0")
    case False
    with p(1) have b: "Second \<le> pc_penalty s" "pc_penalty s \<le> maxPenalty" by (auto simp: penalty_ok_def)
    then have "pc_penalty s sdiv Millisecond = pc_penalty s div Millisecond" by (simp add: signed_divide_int_def pacer_units)
    moreover have "Second \<le> pc_penalty s div Millisecond * Millisecond"
    proof -
      have "Second div Millisecond \<le> pc_penalty s div Millisecond" using b(1) by (rule zdiv_mono1) (simp add: pacer_units)
      then show ?thesis by (simp add: pacer_units)
    qed
    moreover have "pc_penalty s div Millisecond * Millisecond \<le> maxPenalty"
      using b(2) div_mult_mod_eq [of "pc_penalty s" Millisecond] pos_mod_sign [of Millisecond "pc_penalty s"] by (simp add: Millisecond_def)
    ultimately show ?thesis by (simp add: penalty_ok_def)
  qed (simp add: penalty_ok_def signed_divide_int_def)
  with p show ?thesis by (simp add: sound_def saveLocked_def file_ok_def)
qed

lemma load_sound: "sound s \<Longrightarrow> sound (loadLocked s)"
proof (cases "pc_stateDir s \<and> pc_file s \<noteq> None")
  case True
  assume s: "sound s"
  from True obtain f where f: "pc_stateDir s" "pc_file s = Some f" by auto
  with s have p: "penalty_ok (sv_PenaltyMS f * Millisecond)" by (simp add: sound_def file_ok_def)
  then have "wrap64 (sv_PenaltyMS f * Millisecond) = sv_PenaltyMS f * Millisecond"
    using penalty_ok_bounds [OF p] by (intro wrap64_id) (simp_all add: pacer_units)
  with f s p show ?thesis by (simp add: loadLocked_def sound_def)
qed (auto simp: loadLocked_def split: option.splits)

lemma Penalize_sound: "sound s \<Longrightarrow> sound (Penalize at s)"
proof -
  assume s: "sound s"
  then have b: "0 \<le> pc_penalty s" "pc_penalty s \<le> maxPenalty" using penalty_ok_bounds by (auto simp: sound_def)
  have "wrap64 (pc_penalty s * 2) = pc_penalty s * 2" using b by (intro wrap64_id) (simp_all add: pacer_units)
  with s b show ?thesis unfolding Penalize_def Let_def by (intro save_sound) (auto simp: sound_def penalty_ok_def pacer_units)
qed

lemma Recover_sound: "sound s \<Longrightarrow> sound (Recover s)"
proof -
  assume s: "sound s"
  then have b: "0 \<le> pc_penalty s" "pc_penalty s \<le> maxPenalty" using penalty_ok_bounds by (auto simp: sound_def)
  let ?p = "pc_penalty s sdiv 2"
  have "?p = pc_penalty s div 2" using b by (cases "pc_penalty s = 0") (simp_all add: signed_divide_int_def)
  then have "?p \<le> maxPenalty" using b by linarith
  then have "penalty_ok (if ?p < Second then 0 else ?p)" by (simp add: penalty_ok_def)
  then have "sound (saveLocked (s\<lparr>pc_penalty := (if ?p < Second then 0 else ?p)\<rparr>))"
    using s by (intro save_sound) (simp_all add: sound_def)
  with s show ?thesis by (simp add: Recover_def Let_def)
qed

lemma reserve_sound: "wait_reserve interval now s = (r, s') \<Longrightarrow> sound s \<Longrightarrow> sound s'" "within_reserve interval deadline now s = (r', s'') \<Longrightarrow> sound s \<Longrightarrow> sound s''"
  by (auto simp: wait_reserve_def within_reserve_def Let_def sound_def split: if_splits)

lemma pacing_sound: "pacing interval now s W R G \<Longrightarrow> sound s"
proof (induction rule: pacing.induct)
  case (start f now dir)
  then show ?case by (simp add: sound_def first_pacer_def penalty_ok_def)
next
  case (set_dir now s W R G dir)
  then show ?case unfolding SetStateDir_def by (intro load_sound) (simp add: sound_def)
next
  case (others now s W R G f)
  then show ?case by (simp add: sound_def)
qed (auto intro: load_sound Penalize_sound Recover_sound reserve_sound)

section \<open>Spacing\<close>

text \<open>The bookkeeping of the slots: the reserved ones are spaced, the last of them is the pacer's, and
  every slot that is slept for or was let go is one of them, once.\<close>

definition slots_ok :: "int \<Rightarrow> int \<Rightarrow> pacer \<Rightarrow> (int \<times> int) list \<Rightarrow> int list \<Rightarrow> int list \<Rightarrow> bool" where
  "slots_ok interval now s W R G \<longleftrightarrow> sorted_wrt (\<lambda>x y. y + interval \<le> x) R \<and> (\<forall>x \<in> set R. x \<le> pc_last s)
     \<and> set (map fst W @ G) \<subseteq> set R \<and> distinct (map fst W @ G) \<and> (\<forall>x \<in> set G. x \<le> now)"

lemma slots_reserved:
  assumes "slots_ok interval now s W R G" "0 < interval" "pc_last s + interval \<le> slot" "pc_last s' = slot"
  shows "slots_ok interval now s' ((slot, gen) # W) (slot # R) G"
proof -
  have new: "x + interval \<le> slot" if "x \<in> set R" for x
    using assms that unfolding slots_ok_def by force
  then have "slot \<notin> set R" using assms(2) by force
  with assms new show ?thesis unfolding slots_ok_def by (auto intro: order_trans)
qed

lemma reserve_last:
  assumes "sound s" "0 < interval" "interval \<le> 2 ^ 62"
  shows "wait_reserve interval now s = (Sleep slot gen, s') \<Longrightarrow> pc_last s + interval \<le> slot \<and> pc_last s' = slot"
    "within_reserve interval deadline now s = (Sleep slot gen, s') \<Longrightarrow> pc_last s + interval \<le> slot \<and> pc_last s' = slot \<and> slot \<le> deadline"
    "wait_reserve interval now s \<noteq> (Go, s')" "within_reserve interval deadline now s = (Refused, s') \<Longrightarrow> s' = s"
proof -
  from assms have p: "0 \<le> pc_penalty s" "pc_penalty s \<le> maxPenalty" using penalty_ok_bounds by (auto simp: sound_def)
  with assms have w: "wrap64 (interval + pc_penalty s) = interval + pc_penalty s" by (intro wrap64_id) (simp_all add: pacer_units)
  show "wait_reserve interval now s = (Sleep slot gen, s') \<Longrightarrow> pc_last s + interval \<le> slot \<and> pc_last s' = slot"
    using p assms by (auto simp: wait_reserve_def w Let_def split: if_splits)
  show "within_reserve interval deadline now s = (Sleep slot gen, s') \<Longrightarrow> pc_last s + interval \<le> slot \<and> pc_last s' = slot \<and> slot \<le> deadline"
    using p by (auto simp: within_reserve_def w Let_def split: if_splits)
  show "wait_reserve interval now s \<noteq> (Go, s')" using p assms by (simp add: wait_reserve_def w Let_def)
  show "within_reserve interval deadline now s = (Refused, s') \<Longrightarrow> s' = s"
    by (auto simp: within_reserve_def Let_def split: if_splits)
qed

lemma pacer_last [simp]: "pc_last (saveLocked s) = pc_last s" "pc_last (loadLocked s) = pc_last s" "pc_last (Penalize at s) = pc_last s"
  "pc_last (Recover s) = pc_last s" "pc_last (SetStateDir dir s) = pc_last s"
  by (simp_all add: saveLocked_def loadLocked_def Penalize_def Recover_def SetStateDir_def Let_def split: option.splits)

lemma slots_same: "slots_ok interval now s W R G \<Longrightarrow> pc_last s' = pc_last s \<Longrightarrow> slots_ok interval now s' W R G"
  by (simp add: slots_ok_def)

lemma pacing_slots: "pacing interval now s W R G \<Longrightarrow> 0 < interval \<Longrightarrow> interval \<le> 2 ^ 62 \<Longrightarrow> slots_ok interval now s W R G"
proof (induction rule: pacing.induct)
  case (start f now dir)
  then show ?case by (simp add: slots_ok_def)
next
  case (tick now s W R G later)
  then show ?case unfolding slots_ok_def by auto
next
  case (go now s W R G s')
  then show ?case using reserve_last(3) [OF pacing_sound [OF go(1)]] by blast
next
  case (wait now s W R G slot gen s')
  with reserve_last(1) [OF pacing_sound [OF wait(1)] _ _ wait(2)] show ?case by (auto intro: slots_reserved)
next
  case (within now s W R G deadline slot gen s')
  with reserve_last(2) [OF pacing_sound [OF within(1)] _ _ within(2)] show ?case by (auto intro: slots_reserved)
next
  case (refused now s W R G deadline s')
  with reserve_last(4) [OF pacing_sound [OF refused(1)] _ _ refused(2)] show ?case by simp
next
  case (wake now s W R G slot gen)
  then have ok: "slots_ok interval now s W R G" by blast
  let ?W = "remove1 (slot, gen) W" and ?G = "if requeue gen s then G else slot # G"
  from wake(2) obtain A B where W: "W = A @ (slot, gen) # B" "(slot, gen) \<notin> set A" by (metis split_list_first)
  then have W': "?W = A @ B" by (simp add: remove1_append)
  have "distinct (map fst ?W @ ?G)" "set (map fst ?W @ ?G) \<subseteq> set (map fst W @ G)"
    using ok unfolding W' slots_ok_def by (auto simp: W(1))
  moreover have "\<forall>x \<in> set ?G. x \<le> now" using ok wake(3) by (auto simp: slots_ok_def)
  ultimately show ?case using ok unfolding slots_ok_def by blast
qed (auto intro: slots_same)

lemma sorted_spaced: "sorted_wrt (\<lambda>x y. y + d \<le> (x :: int)) R \<Longrightarrow> 0 < d \<Longrightarrow> x \<in> set R \<Longrightarrow> y \<in> set R \<Longrightarrow> x < y \<Longrightarrow> x + d \<le> y"
  by (induction R) fastforce+

section \<open>The pacer's promise\<close>

lemma Recover_penalty: "sound s \<Longrightarrow> pc_penalty (Recover s) = (if pc_penalty s div 2 < Second then 0 else pc_penalty s div 2)"
proof -
  assume "sound s"
  then have "0 \<le> pc_penalty s" using penalty_ok_bounds by (auto simp: sound_def)
  then have "pc_penalty s sdiv 2 = pc_penalty s div 2" by (cases "pc_penalty s = 0") (simp_all add: signed_divide_int_def)
  then show ?thesis by (simp add: Recover_def Let_def saveLocked_def Second_def)
qed

lemma recovers: "sound s \<Longrightarrow> pc_penalty s < 2 ^ n * Second \<Longrightarrow> pc_penalty ((Recover ^^ n) s) = 0"
proof (induction n arbitrary: s)
  case 0
  then show ?case by (auto simp: sound_def penalty_ok_def)
next
  case (Suc n)
  have p: "pc_penalty (Recover s) < 2 ^ n * Second"
    using Suc.prems(2) by (simp add: Recover_penalty [OF Suc.prems(1)] Second_def) linarith
  from Suc.IH [OF Recover_sound [OF Suc.prems(1)] this] show ?case by (simp add: funpow_swap1)
qed

text \<open>The pacer keeps its promise in every interleaving of callers, blocks, successes and other
  processes: two calls that were let go hold slots at least the base interval apart, none of them in
  the future; the penalty stays between zero and two minutes; and seven clean successes in a row
  bring it back to zero.\<close>

theorem pacer_keeps_spacing:
  assumes "pacing interval now s W R G" "0 < interval" "interval \<le> 2 ^ 62"
  shows "distinct G \<and> {(x, y). x \<in> set G \<and> y \<in> set G \<and> x < y \<and> y < x + interval} = {} \<and> {x \<in> set G. now < x} = {}
    \<and> 0 \<le> pc_penalty s \<and> pc_penalty s \<le> 120000000000 \<and> pc_penalty ((Recover ^^ 7) s) = 0"
proof -
  note ok = pacing_slots [OF assms, unfolded slots_ok_def]
  have snd: "sound s" by (rule pacing_sound [OF assms(1)])
  then have b: "0 \<le> pc_penalty s" "pc_penalty s \<le> maxPenalty" using penalty_ok_bounds by (auto simp: sound_def)
  then have "pc_penalty ((Recover ^^ 7) s) = 0" by (intro recovers snd) (simp add: pacer_units)
  moreover have "x + interval \<le> y" if "x \<in> set G" "y \<in> set G" "x < y" for x y
  proof -
    have "x \<in> set R" "y \<in> set R" using ok that by auto
    then show ?thesis using sorted_spaced [of interval R x y] ok assms(2) that(3) by blast
  qed
  ultimately show ?thesis using ok b by (auto simp: pacer_units not_less)
qed

theorem pacer_keeps_spacing_witness:
  "\<exists>s W R G. pacing (2 * Second) (100 * Second) s W R G \<and> length G = 2 \<and> distinct G"
proof -
  let ?s0 = "first_pacer False None"
  let ?s1 = "?s0\<lparr>pc_last := 90 * Second\<rparr>" and ?s2 = "?s0\<lparr>pc_last := 92 * Second\<rparr>"
  have 0: "pacing (2 * Second) (90 * Second) ?s0 [] [] []" by (rule pacing.start) (simp_all add: file_ok_def Second_def)
  have "wait_reserve (2 * Second) (90 * Second) ?s0 = (Sleep (90 * Second) 0, ?s1)"
    by (simp add: wait_reserve_def first_pacer_def wrap64_def Second_def)
  from pacing.wait [OF 0 this] have 1: "pacing (2 * Second) (90 * Second) ?s1 [(90 * Second, 0)] [90 * Second] []" .
  have "wait_reserve (2 * Second) (90 * Second) ?s1 = (Sleep (92 * Second) 0, ?s2)"
    by (simp add: wait_reserve_def first_pacer_def wrap64_def Second_def)
  from pacing.wait [OF 1 this] have 2: "pacing (2 * Second) (90 * Second) ?s2 [(92 * Second, 0), (90 * Second, 0)] [92 * Second, 90 * Second] []" .
  have 3: "pacing (2 * Second) (100 * Second) ?s2 [(92 * Second, 0), (90 * Second, 0)] [92 * Second, 90 * Second] []"
    by (rule pacing.tick [OF 2]) (simp add: Second_def)
  have q: "\<not> requeue 0 ?s2" by (simp add: requeue_def first_pacer_def)
  from pacing.wake [OF 3, of "92 * Second" 0] q
  have 4: "pacing (2 * Second) (100 * Second) ?s2 [(90 * Second, 0)] [92 * Second, 90 * Second] [92 * Second]" by (simp add: Second_def)
  from pacing.wake [OF 4, of "90 * Second" 0] q
  have 5: "pacing (2 * Second) (100 * Second) ?s2 [] [92 * Second, 90 * Second] [90 * Second, 92 * Second]" by (simp add: Second_def)
  from pacer_keeps_spacing [OF 5] have "distinct [90 * Second, 92 * Second]" by (simp add: Second_def)
  with 5 show ?thesis by (intro exI conjI) (assumption, simp)
qed

text \<open>The backoff before a retry: up to the thirtieth it is between fifteen seconds and two minutes,
  plus jitter. The shift of the thirty-first overflows, and the delay is negative.\<close>

lemma RetryDelay_bounds:
  assumes "attempt < 30" "0 \<le> jitter" "jitter < 5 * Second"
  shows "15 * Second \<le> RetryDelay attempt jitter \<and> RetryDelay attempt jitter < 125 * Second"
proof -
  have m: "(1 :: int) \<le> 2 ^ attempt" "(2 :: int) ^ attempt \<le> 2 ^ 29"
    using assms(1) by (simp, intro power_increasing) simp_all
  have w: "wrap64 (push_bit attempt (15 * Second)) = 15 * Second * 2 ^ attempt"
  proof -
    have "0 \<le> 15 * Second * 2 ^ attempt" "15 * Second * 2 ^ attempt \<le> 15 * Second * 2 ^ 29" using m by (simp_all add: Second_def)
    moreover have "15 * Second * 2 ^ 29 < (2 :: int) ^ 63" "- ((2 :: int) ^ 63) < 0" by (simp_all add: Second_def)
    ultimately have "wrap64 (15 * Second * 2 ^ attempt) = 15 * Second * 2 ^ attempt" by (intro wrap64_id) linarith+
    then show ?thesis by (simp only: push_bit_eq_mult)
  qed
  have lo: "15 * Second \<le> 15 * Second * 2 ^ attempt" using m by (simp add: Second_def)
  have u: "maxPenalty = 120 * Second" "0 < Second" by (simp_all add: pacer_units)
  show ?thesis
  proof (cases "maxPenalty < 15 * Second * 2 ^ attempt")
    case True
    with assms u show ?thesis by (simp add: RetryDelay_def w)
  next
    case False
    then have "RetryDelay attempt jitter = 15 * Second * 2 ^ attempt + jitter" by (simp only: RetryDelay_def w Let_def if_False)
    with assms lo False u show ?thesis by linarith
  qed
qed

lemma RetryDelay_overflows: "RetryDelay 30 0 < 0"
  by (simp add: RetryDelay_def wrap64_def push_bit_eq_mult pacer_units)

end
