(* ===== verification/Facts.thy ===== *)
theory Facts
  imports Aliases TaskLists Pacer Redact Validate "HOL-Library.Product_Lexorder"
begin

text \<open>
  The curated knowledge of a project (\<open>internal/store/memory.go\<close>) and its review queue
  (\<open>internal/store/review.go\<close>). The statements of an operation run one by one, outside a transaction, so
  an operation that fails answers with the state it has reached. The list of a table is its rowid order.
  A confidence is the rational number a finite \<open>float64\<close> is; the rounded addition of two of them, the
  process environment, \<open>strings.ToLower\<close>, the verb \<open>%q\<close> and the full-text index are arguments. The meta
  row \<open>origin_aliases\<close> is held decoded. The sources and the links of a listed fact come in table order, where
  the code leaves the order to the database. Each operation reads the clock and the generator by number.
\<close>

section \<open>State\<close>

record Memory =
  mm_ID :: string
  mm_Text :: string
  mm_Kind :: string
  mm_Confidence :: rat
  mm_Tags :: "string list"
  mm_Links :: "string list"
  mm_CreatedAt :: string
  mm_ExpiredAt :: string
  mm_ValidAt :: string
  mm_InvalidAt :: string
  mm_SupersededBy :: string
  mm_Pinned :: bool
  mm_Actor :: string
  mm_Corroboration :: nat
  mm_Sources :: "string list"

record RememberOpts =
  ro_ValidAt :: string
  ro_Kind :: string
  ro_Tags :: "string list"
  ro_Sources :: "string list"

record mem_row =
  mr_text :: string
  mr_kind :: string
  mr_confidence :: rat
  mr_created_at :: string
  mr_expired_at :: "string option"
  mr_valid_at :: "string option"
  mr_invalid_at :: "string option"
  mr_superseded_by :: "string option"
  mr_pinned :: bool
  mr_actor :: string

record AuditEntry =
  au_TS :: string
  au_MemoryID :: string
  au_Op :: string
  au_OldText :: string
  au_NewText :: string
  au_Actor :: string

record kb =
  kb_memories :: "(string, mem_row) table"
  kb_sources :: "(string \<times> string) list"
  kb_tags :: "(string \<times> string) list"
  kb_links :: "(string \<times> string \<times> string) list"
  kb_audit :: "(string, AuditEntry) table"
  kb_aliases :: aliases
  kb_embeddings :: "(string \<times> string, int \<times> string) table"

datatype kb_err = KbRefused string | KbSQL

record kenv = env +
  ke_getenv :: "string \<Rightarrow> string"
  ke_lower :: "string \<Rightarrow> string"
  ke_quote :: "string \<Rightarrow> string"
  ke_add :: "rat \<Rightarrow> rat \<Rightarrow> rat"

definition empty_kb :: kb where
  "empty_kb = \<lparr>kb_memories = [], kb_sources = [], kb_tags = [], kb_links = [], kb_audit = [], kb_aliases = [],
     kb_embeddings = []\<rparr>"

section \<open>Texts\<close>

definition MemoryKinds :: "string list" where
  "MemoryKinds = [''fact'', ''decision'', ''convention'', ''preference'', ''solution'', ''reference'']"

definition validKind :: "string \<Rightarrow> string" where
  "validKind k = (if k \<in> set MemoryKinds then k else ''fact'')"

definition normTag :: "kenv \<Rightarrow> string \<Rightarrow> string" where
  "normTag e t = take 64 (ke_lower e (TrimSpace t))"

text \<open>\<open>strings.Map\<close> writes an invalid byte, that the mapping keeps, as the replacement character.\<close>

definition markup_rune :: "nat \<Rightarrow> bool" where
  "markup_rune r \<longleftrightarrow> IsControl r \<or> r \<in> {60, 62, 34, 39, 96, 92}"

definition StripMarkup :: "string \<Rightarrow> string" where
  "StripMarkup s = concat (map (\<lambda>(r, w). case r of
      None \<Rightarrow> [CHR 0xEF, CHR 0xBF, CHR 0xBD]
    | Some n \<Rightarrow> if markup_rune n then [] else w) (go_units s))"

definition HasMarkup :: "string \<Rightarrow> bool" where
  "HasMarkup s \<longleftrightarrow> StripMarkup s \<noteq> s"

definition writeTag :: "kenv \<Rightarrow> string \<Rightarrow> string" where
  "writeTag e t = normTag e (StripMarkup t)"

definition memoryIDPattern :: re where
  "memoryIDPattern = Cats [BeginText, Cls alnum, UpTo 63 (Cls (\<lambda>r. alnum r \<or> one_of ''_-'' r)), EndText]"

definition ValidMemoryID :: "string \<Rightarrow> bool" where
  "ValidMemoryID i \<longleftrightarrow> MatchString memoryIDPattern i"

definition CheckImportedMemory :: "Memory \<Rightarrow> kb_err option" where
  "CheckImportedMemory m =
     (if \<not> ValidMemoryID (mm_ID m) \<or> mm_SupersededBy m \<noteq> [] \<and> \<not> ValidMemoryID (mm_SupersededBy m)
      then Some (KbRefused ''invalid memory id: want 1-64 letters, digits, '-' or '_', starting with a letter or digit'')
      else None)"

definition nullable :: "string \<Rightarrow> string option" where
  "nullable s = (if s = [] then None else Some s)"

definition coalesce :: "'a option \<Rightarrow> 'a option \<Rightarrow> 'a option" where
  "coalesce x y = (case x of None \<Rightarrow> y | Some v \<Rightarrow> Some v)"

section \<open>Rows\<close>

definition unexpired :: "mem_row \<Rightarrow> bool" where
  "unexpired r \<longleftrightarrow> mr_expired_at r = None"

definition live_fact :: "mem_row \<Rightarrow> bool" where
  "live_fact r \<longleftrightarrow> mr_expired_at r = None \<and> mr_superseded_by r = None"

definition row_where :: "(mem_row \<Rightarrow> bool) \<Rightarrow> string \<Rightarrow> kb \<Rightarrow> mem_row option" where
  "row_where P i s = (case map_of (kb_memories s) i of None \<Rightarrow> None | Some r \<Rightarrow> if P r then Some r else None)"

definition set_row :: "string \<Rightarrow> mem_row \<Rightarrow> kb \<Rightarrow> kb" where
  "set_row i r s = s\<lparr>kb_memories := AList.update i r (kb_memories s)\<rparr>"

definition add_once :: "'a \<Rightarrow> 'a list \<Rightarrow> 'a list" where
  \<comment> \<open>\<open>INSERT ... ON CONFLICT DO NOTHING\<close>\<close>
  "add_once x xs = (if x \<in> set xs then xs else xs @ [x])"

definition audit_memory :: "kenv \<Rightarrow> nat \<Rightarrow> nat \<Rightarrow> string \<Rightarrow> string \<Rightarrow> string \<Rightarrow> string \<Rightarrow> string \<Rightarrow> kb \<Rightarrow> kb_err option \<times> kb" where
  "audit_memory e u n i operation oldText newText actor s =
     (case tb_insert (e_uuid e u) \<lparr>au_TS = e_now e n, au_MemoryID = i, au_Op = operation, au_OldText = oldText,
         au_NewText = newText, au_Actor = actor\<rparr> (kb_audit s) of
        None \<Rightarrow> (Some KbSQL, s) | Some t \<Rightarrow> (None, s\<lparr>kb_audit := t\<rparr>))"

definition no_memory :: "string \<Rightarrow> kb_err" where
  "no_memory i = KbRefused (''no active memory '' @ i)"

section \<open>Sources and aliases\<close>

definition project_label :: "string \<Rightarrow> string" where
  "project_label p = ''project:'' @ p"

definition relabelled :: "aliases \<Rightarrow> string \<Rightarrow> string" where
  "relabelled m ev =
     (if take 8 ev = ''project:'' then (case map_of m (drop 8 ev) of None \<Rightarrow> ev | Some t \<Rightarrow> project_label t) else ev)"

definition add_source :: "string \<Rightarrow> string \<Rightarrow> kb \<Rightarrow> kb" where
  "add_source i ev s =
     (let ev' = StripMarkup ev
      in if ev' = [] then s
         else s\<lparr>kb_sources := add_once (i, relabelled (kb_aliases s) ev') (kb_sources s)\<rparr>)"

definition addSources :: "string \<Rightarrow> string list \<Rightarrow> kb \<Rightarrow> kb" where
  "addSources i evs s = fold (add_source i) evs s"

text \<open>\<open>UPDATE OR IGNORE\<close> leaves a row whose new key is taken; then the rows still under the old label go.\<close>

definition relabel_row :: "string \<Rightarrow> string \<Rightarrow> (string \<times> string) list \<Rightarrow> string \<times> string \<Rightarrow> string \<times> string" where
  "relabel_row old new rows = (\<lambda>(m, ev). if ev = old \<and> (old = new \<or> (m, new) \<notin> set rows) then (m, new) else (m, ev))"

definition relabel_source :: "aliases \<Rightarrow> string \<Rightarrow> (string \<times> string) list \<times> nat \<Rightarrow> (string \<times> string) list \<times> nat" where
  "relabel_source m k = (\<lambda>(rows, touched).
     (let old = project_label k; new = project_label (look m k);
          moved_rows = filter (\<lambda>(i, ev). ev = old \<and> (old = new \<or> (i, new) \<notin> set rows)) rows;
          rows1 = map (relabel_row old new rows) rows;
          rows2 = filter (\<lambda>(_, ev). ev \<noteq> old) rows1
      in (rows2, touched + length moved_rows + (length rows1 - length rows2))))"

definition same_map :: "aliases \<Rightarrow> aliases \<Rightarrow> bool" where
  "same_map a b \<longleftrightarrow> list_all (\<lambda>k. map_of a k = map_of b k) (map fst a @ map fst b)"

text \<open>\<open>order1\<close> and \<open>order2\<close> are the orders in which the two loops visit the merged map.\<close>

definition ApplyOriginAliases :: "string list \<Rightarrow> string list \<Rightarrow> aliases \<Rightarrow> kb \<Rightarrow> (nat \<times> bool) \<times> kb" where
  "ApplyOriginAliases order1 order2 add s =
     (if add = [] then ((0, False), s)
      else let merged = MergeOriginAliases order1 (kb_aliases s) add;
               changed = (\<not> same_map merged (kb_aliases s))
           in case fold (relabel_source merged) order2 (kb_sources s, 0) of (rows, touched) \<Rightarrow>
             ((touched, changed), s\<lparr>kb_sources := rows, kb_aliases := (if changed then merged else kb_aliases s)\<rparr>))"

section \<open>Tags\<close>

definition MaxChaptersPerFact :: nat where "MaxChaptersPerFact = 3"

definition fold_case :: "char \<Rightarrow> char" where
  "fold_case c = (if CHR ''A'' \<le> c \<and> c \<le> CHR ''Z'' then char_of ((of_char c :: nat) + 32) else c)"

definition like_chapter :: "string \<Rightarrow> bool" where
  \<comment> \<open>\<open>tag LIKE 'chapter:%'\<close>, which ignores the case of ASCII letters\<close>
  "like_chapter t \<longleftrightarrow> map fold_case (take 8 t) = ''chapter:''"

definition chapter_tag :: "string \<Rightarrow> bool" where
  "chapter_tag t \<longleftrightarrow> take 8 t = ''chapter:''"

definition chapters :: "string \<Rightarrow> kb \<Rightarrow> string list" where
  "chapters i s = map snd (filter (\<lambda>(m, t). m = i \<and> like_chapter t) (kb_tags s))"

definition ChapterCount :: "string \<Rightarrow> kb \<Rightarrow> nat" where
  "ChapterCount i s = length (chapters i s)"

definition hasTag :: "string \<Rightarrow> string \<Rightarrow> kb \<Rightarrow> bool" where
  "hasTag i t s \<longleftrightarrow> (i, t) \<in> set (kb_tags s)"

definition add_tag :: "kenv \<Rightarrow> string \<Rightarrow> bool \<Rightarrow> string \<Rightarrow> kb \<Rightarrow> kb" where
  "add_tag e i multi tag s =
     (let t = writeTag e tag
      in if t = [] then s
         else if chapter_tag t \<and> \<not> hasTag i t s \<and> (if multi then MaxChaptersPerFact else 1) \<le> ChapterCount i s then s
         else s\<lparr>kb_tags := add_once (i, t) (kb_tags s)\<rparr>)"

definition addTagsOpt :: "kenv \<Rightarrow> string \<Rightarrow> string list \<Rightarrow> bool \<Rightarrow> kb \<Rightarrow> kb" where
  "addTagsOpt e i tags multi s = fold (add_tag e i multi) tags s"

definition addTags :: "kenv \<Rightarrow> string \<Rightarrow> string list \<Rightarrow> kb \<Rightarrow> kb" where
  "addTags e i tags s = addTagsOpt e i tags False s"

definition too_many_chapters :: "string \<Rightarrow> nat \<Rightarrow> string" where
  "too_many_chapters i c = ''memory '' @ i @ '' is already filed in '' @ show_nat c @ '' chapters (max 3) '' @
     [CHR 0xE2, CHR 0x80, CHR 0x94] @ '' unfile one first''"

definition TagMemory :: "kenv \<Rightarrow> string \<Rightarrow> string \<Rightarrow> string \<Rightarrow> kb \<Rightarrow> kb_err option \<times> kb" where
  "TagMemory e i tag actor s =
     (case row_where live_fact i s of
        None \<Rightarrow> (Some (no_memory i), s)
      | Some _ \<Rightarrow>
          let t = writeTag e tag; c = ChapterCount i s
          in if chapter_tag t \<and> \<not> hasTag i t s \<and> MaxChaptersPerFact \<le> c
             then (Some (KbRefused (too_many_chapters i c)), s)
             else audit_memory e 0 0 i ''tag'' [] tag actor (addTagsOpt e i [tag] True s))"

definition RemoveTag :: "kenv \<Rightarrow> string \<Rightarrow> string \<Rightarrow> kb \<Rightarrow> kb_err option \<times> kb" where
  "RemoveTag e i tag s =
     (if hasTag i (normTag e tag) s
      then (None, s\<lparr>kb_tags := filter (\<lambda>p. p \<noteq> (i, normTag e tag)) (kb_tags s)\<rparr>)
      else (Some (KbRefused (''memory '' @ i @ '' has no tag '' @ ke_quote e tag)), s))"

section \<open>Writes\<close>

definition conf_default :: rat where "conf_default = 5404319552844595 / 9007199254740992"
definition conf_reassert :: rat where "conf_reassert = 5404319552844595 / 36028797018963968"
definition conf_confirm :: rat where "conf_confirm = 3602879701896397 / 36028797018963968"

definition reinforce :: "kenv \<Rightarrow> rat \<Rightarrow> mem_row \<Rightarrow> mem_row" where
  "reinforce e by_much r = r\<lparr>mr_confidence := min 1 (ke_add e (mr_confidence r) by_much)\<rparr>"

definition memory_text :: "kenv \<Rightarrow> string \<Rightarrow> string" where
  "memory_text e text = fst (redact_String (e_sha e) (ke_getenv e) text 8192)"

definition same_text :: "string \<Rightarrow> kb \<Rightarrow> (string \<times> mem_row) option" where
  "same_text text s = List.find (\<lambda>(_, r). mr_text r = text \<and> live_fact r) (kb_memories s)"

definition new_memory :: "kenv \<Rightarrow> string \<Rightarrow> string \<Rightarrow> RememberOpts \<Rightarrow> mem_row" where
  "new_memory e text actor opts = \<lparr>mr_text = text, mr_kind = validKind (ro_Kind opts), mr_confidence = conf_default,
     mr_created_at = e_now e 0, mr_expired_at = None, mr_valid_at = nullable (ro_ValidAt opts), mr_invalid_at = None,
     mr_superseded_by = None, mr_pinned = False, mr_actor = actor\<rparr>"

definition answered :: "'a \<Rightarrow> kb_err option \<times> kb \<Rightarrow> (kb_err + 'a) \<times> kb" where
  "answered x r = (case r of (None, s) \<Rightarrow> (Inr x, s) | (Some m, s) \<Rightarrow> (Inl m, s))"

definition Remember :: "kenv \<Rightarrow> string \<Rightarrow> string \<Rightarrow> RememberOpts \<Rightarrow> kb \<Rightarrow> (kb_err + string \<times> bool) \<times> kb" where
  "Remember e raw actor opts s =
     (let text = memory_text e raw
      in if text = [] then (Inl (KbRefused ''empty memory text''), s)
         else case same_text text s of
           Some (i, r) \<Rightarrow>
             answered (i, True) (audit_memory e 0 0 i ''reassert'' [] text actor
               (addTags e i (ro_Tags opts) (addSources i (ro_Sources opts) (set_row i (reinforce e conf_reassert r) s))))
         | None \<Rightarrow>
             (let i = e_uuid e 0
              in case tb_insert i (new_memory e text actor opts) (kb_memories s) of
                   None \<Rightarrow> (Inl KbSQL, s)
                 | Some t \<Rightarrow>
                     answered (i, False) (audit_memory e 1 1 i ''remember'' [] text actor
                       (addTags e i (ro_Tags opts) (addSources i (ro_Sources opts) (s\<lparr>kb_memories := t\<rparr>))))))"

definition IsPinned :: "string \<Rightarrow> kb \<Rightarrow> bool" where
  "IsPinned i s = (case row_where unexpired i s of None \<Rightarrow> False | Some r \<Rightarrow> mr_pinned r)"

definition LinkMemories :: "kenv \<Rightarrow> string \<Rightarrow> string \<Rightarrow> string \<Rightarrow> string \<Rightarrow> kb \<Rightarrow> kb_err option \<times> kb" where
  "LinkMemories e fromID toID rel0 actor s =
     (let rel = (if normTag e rel0 = [] then ''related'' else normTag e rel0)
      in case List.find (\<lambda>i. row_where unexpired i s = None) [fromID, toID] of
           Some i \<Rightarrow> (Some (no_memory i), s)
         | None \<Rightarrow> audit_memory e 0 0 fromID ''link'' [] (rel @ '' -> '' @ toID) actor
             (s\<lparr>kb_links := add_once (fromID, toID, rel) (kb_links s)\<rparr>))"

definition NoteConflict :: "kenv \<Rightarrow> string \<Rightarrow> string \<Rightarrow> string \<Rightarrow> string \<Rightarrow> kb \<Rightarrow> kb_err option \<times> kb" where
  "NoteConflict e i oldText newText actor s = audit_memory e 0 0 i ''conflict'' oldText newText actor s"

definition ForgetMemory :: "kenv \<Rightarrow> string \<Rightarrow> string \<Rightarrow> kb \<Rightarrow> kb_err option \<times> kb" where
  "ForgetMemory e i actor s =
     (case row_where unexpired i s of
        None \<Rightarrow> (Some (no_memory i), s)
      | Some r \<Rightarrow>
          if mr_pinned r then (Some (KbRefused (''memory '' @ i @ '' is pinned; unpin before forgetting'')), s)
          else audit_memory e 0 2 i ''forget'' (mr_text r) [] actor
            (set_row i (r\<lparr>mr_expired_at := Some (e_now e 0), mr_invalid_at := coalesce (mr_invalid_at r) (Some (e_now e 1))\<rparr>) s))"

definition superseded_row :: "string \<Rightarrow> string \<Rightarrow> mem_row \<Rightarrow> mem_row" where
  "superseded_row newID now r = r\<lparr>mr_superseded_by := Some newID, mr_expired_at := Some now,
     mr_invalid_at := coalesce (mr_invalid_at r) (Some now)\<rparr>"

definition retire_for :: "string \<Rightarrow> string \<Rightarrow> string \<Rightarrow> kb \<Rightarrow> kb" where
  \<comment> \<open>the update of the old fact and the link to it\<close>
  "retire_for newID now oldID s = s\<lparr>
     kb_memories := map (\<lambda>(i, r). (i, if i = oldID then superseded_row newID now r else r)) (kb_memories s),
     kb_links := add_once (newID, oldID, ''supersedes'') (kb_links s)\<rparr>"

definition SupersedeMemory :: "kenv \<Rightarrow> string \<Rightarrow> string \<Rightarrow> string \<Rightarrow> RememberOpts \<Rightarrow> kb \<Rightarrow> (kb_err + string) \<times> kb" where
  "SupersedeMemory e oldID newText actor opts s =
     (case row_where live_fact oldID s of
        None \<Rightarrow> (Inl (no_memory oldID), s)
      | Some r \<Rightarrow>
          (case Remember e newText actor opts s of
             (Inl x, s1) \<Rightarrow> (Inl x, s1)
           | (Inr (newID, again), s1) \<Rightarrow>
               if newID = oldID then (Inr newID, s1)
               else let n = (if again then 1 else 2)
                    in answered newID (audit_memory e n (n + 1) oldID ''supersede'' (mr_text r) newText actor
                         (retire_for newID (e_now e n) oldID s1))))"

definition PinMemory :: "kenv \<Rightarrow> string \<Rightarrow> bool \<Rightarrow> string \<Rightarrow> kb \<Rightarrow> kb_err option \<times> kb" where
  "PinMemory e i pinned actor s =
     (case row_where unexpired i s of
        None \<Rightarrow> (Some (no_memory i), s)
      | Some r \<Rightarrow> audit_memory e 0 0 i (if pinned then ''pin'' else ''unpin'') [] [] actor
          (set_row i (r\<lparr>mr_pinned := pinned\<rparr>) s))"

definition SetEmbedding :: "string \<Rightarrow> string \<Rightarrow> int \<Rightarrow> string \<Rightarrow> kb \<Rightarrow> kb" where
  "SetEmbedding i model width vec s = s\<lparr>kb_embeddings := AList.update (i, model) (width, vec) (kb_embeddings s)\<rparr>"

section \<open>Reads\<close>

definition scan_memory :: "kb \<Rightarrow> string \<Rightarrow> mem_row \<Rightarrow> Memory" where
  "scan_memory s i r =
     (let text = (\<lambda>x. case x of None \<Rightarrow> [] | Some v \<Rightarrow> v);
          srcs = map snd (filter (\<lambda>(m, _). m = i) (kb_sources s))
      in \<lparr>mm_ID = i, mm_Text = mr_text r, mm_Kind = mr_kind r, mm_Confidence = mr_confidence r,
          mm_Tags = map snd (filter (\<lambda>(m, _). m = i) (kb_tags s)),
          mm_Links = map (\<lambda>(_, to, rel). rel @ '':'' @ to) (filter (\<lambda>(m, _). m = i) (kb_links s)),
          mm_CreatedAt = mr_created_at r, mm_ExpiredAt = text (mr_expired_at r), mm_ValidAt = text (mr_valid_at r),
          mm_InvalidAt = text (mr_invalid_at r), mm_SupersededBy = text (mr_superseded_by r), mm_Pinned = mr_pinned r,
          mm_Actor = mr_actor r, mm_Corroboration = length srcs, mm_Sources = srcs\<rparr>)"

definition pinned_then_newest :: "Memory \<Rightarrow> Memory \<Rightarrow> bool" where
  "pinned_then_newest a b \<longleftrightarrow> mm_Pinned a \<and> \<not> mm_Pinned b \<or> mm_Pinned a = mm_Pinned b \<and> mm_ID b < mm_ID a"

definition Memories :: "bool \<Rightarrow> kb \<Rightarrow> Memory list" where
  "Memories includeStale s = order_by pinned_then_newest
     (map (\<lambda>(i, r). scan_memory s i r) (filter (\<lambda>(_, r). includeStale \<or> live_fact r) (kb_memories s)))"

definition AuditLog :: "int \<Rightarrow> kb \<Rightarrow> AuditEntry list" where
  "AuditLog limit s = take (if limit \<le> 0 \<or> 1000 < limit then 200 else nat limit)
     (rev (sort_key au_TS (map snd (kb_audit s))))"

definition NeedingEmbedding :: "string \<Rightarrow> nat \<Rightarrow> kb \<Rightarrow> (string \<times> string) list" where
  "NeedingEmbedding model limit s = take limit (map (\<lambda>(i, r). (i, mr_text r))
     (sort_key fst (filter (\<lambda>(i, r). live_fact r \<and> map_of (kb_embeddings s) (i, model) = None) (kb_memories s))))"

text \<open>\<open>Recall\<close>: the index gives at most a hundred rows by rank before the others conditions apply; the vector leg
  (\<open>fuseVectorLeg\<close>) is the argument \<open>fuse\<close>. A character costs a byte, a fact 64 more.\<close>

record RecallOpts =
  rc_TokenBudget :: int
  rc_Tag :: string
  rc_Kind :: string

definition ftsQuoteAny :: "string \<Rightarrow> string" where
  "ftsQuoteAny q = join '' OR '' (map (\<lambda>f. [CHR 34] @ ReplaceAll f [CHR 34] [CHR 34, CHR 34] @ [CHR 34]) (Fields q))"

definition recall_cost :: "Memory \<Rightarrow> int" where
  "recall_cost m = int (length (mm_Text m)) + 64"

fun recall_trim :: "int \<Rightarrow> int \<Rightarrow> bool \<Rightarrow> Memory list \<Rightarrow> Memory list" where
  "recall_trim budget used some [] = []"
| "recall_trim budget used some (m # ms) =
     (if budget < used + recall_cost m \<and> some then [] else m # recall_trim budget (used + recall_cost m) True ms)"

definition recall_hit :: "kenv \<Rightarrow> RecallOpts \<Rightarrow> kb \<Rightarrow> string \<Rightarrow> Memory option" where
  "recall_hit e opts s i =
     (case row_where live_fact i s of
        None \<Rightarrow> None
      | Some r \<Rightarrow>
          if (rc_Tag opts = [] \<or> hasTag i (normTag e (rc_Tag opts)) s) \<and> (rc_Kind opts = [] \<or> mr_kind r = rc_Kind opts)
          then Some (scan_memory s i r) else None)"

definition recall_hits :: "kenv \<Rightarrow> (string \<Rightarrow> kb \<Rightarrow> string list) \<Rightarrow> string \<Rightarrow> RecallOpts \<Rightarrow> kb \<Rightarrow> Memory list" where
  "recall_hits e fts query opts s =
     (let hits = List.map_filter (recall_hit e opts s) (take 100 (fts (ftsQuoteAny query) s))
      in filter mm_Pinned hits @ filter (\<lambda>m. \<not> mm_Pinned m) hits)"

definition Recall :: "kenv \<Rightarrow> (string \<Rightarrow> kb \<Rightarrow> string list) \<Rightarrow> (Memory list \<Rightarrow> Memory list) \<Rightarrow> string \<Rightarrow> RecallOpts \<Rightarrow> kb
    \<Rightarrow> kb_err + Memory list" where
  "Recall e fts fuse query opts s =
     (if \<not> checkFTSTerms query then Inl (KbRefused ''invalid query: search terms must not contain NUL'')
      else let budget = (if rc_TokenBudget opts \<le> 0 then 1000 else rc_TokenBudget opts)
           in Inr (recall_trim (wrap64 (budget * 4)) 0 False (fuse (recall_hits e fts query opts s))))"

section \<open>Synchronisation\<close>

definition imported_row :: "kenv \<Rightarrow> Memory \<Rightarrow> mem_row" where
  "imported_row e m = \<lparr>mr_text = memory_text e (mm_Text m), mr_kind = validKind (mm_Kind m), mr_confidence = mm_Confidence m,
     mr_created_at = mm_CreatedAt m, mr_expired_at = nullable (mm_ExpiredAt m), mr_valid_at = nullable (mm_ValidAt m),
     mr_invalid_at = nullable (mm_InvalidAt m), mr_superseded_by = nullable (mm_SupersededBy m), mr_pinned = mm_Pinned m,
     mr_actor = mm_Actor m\<rparr>"

definition adopted :: "mem_row \<Rightarrow> mem_row \<Rightarrow> mem_row" where
  "adopted own x = own\<lparr>mr_expired_at := coalesce (mr_expired_at own) (mr_expired_at x),
     mr_invalid_at := coalesce (mr_invalid_at own) (mr_invalid_at x),
     mr_superseded_by := coalesce (mr_superseded_by own) (mr_superseded_by x),
     mr_confidence := max (mr_confidence own) (mr_confidence x), mr_pinned := (mr_pinned own \<or> mr_pinned x)\<rparr>"

definition cut_colon :: "string \<Rightarrow> (string \<times> string) option" where
  "cut_colon l = (let n = Index l '':'' in if n < 0 then None else Some (take (nat n) l, drop (nat n + 1) l))"

definition import_link :: "string \<Rightarrow> string \<Rightarrow> kb \<Rightarrow> kb" where
  "import_link i l s = (case cut_colon l of None \<Rightarrow> s
     | Some (rel, to) \<Rightarrow> s\<lparr>kb_links := add_once (i, to, rel) (kb_links s)\<rparr>)"

definition import_row :: "kenv \<Rightarrow> Memory \<Rightarrow> kb \<Rightarrow> kb" where
  "import_row e m s = set_row (mm_ID m) (case map_of (kb_memories s) (mm_ID m) of
     None \<Rightarrow> imported_row e m | Some own \<Rightarrow> adopted own (imported_row e m)) s"

definition ImportMemory :: "kenv \<Rightarrow> Memory \<Rightarrow> kb \<Rightarrow> kb" where
  "ImportMemory e m s = fold (import_link (mm_ID m)) (mm_Links m)
     (addTagsOpt e (mm_ID m) (mm_Tags m) True (addSources (mm_ID m) (mm_Sources m) (import_row e m s)))"

definition DumpMemories :: "kb \<Rightarrow> Memory list" where
  "DumpMemories s = Memories True s"

section \<open>Review\<close>

definition DefaultReviewMaxCorroboration :: int where "DefaultReviewMaxCorroboration = 2"

record ReviewItem =
  ri_ID :: string
  ri_Text :: string
  ri_Kind :: string
  ri_Confidence :: rat
  ri_CreatedAt :: string
  ri_Actor :: string
  ri_Corroboration :: nat
  ri_LastSeen :: string

definition touches :: "string \<Rightarrow> kb \<Rightarrow> string list" where
  "touches i s = map (au_TS \<circ> snd) (filter (\<lambda>(_, a). au_MemoryID a = i \<and> au_Op a \<in> {''remember'', ''reassert'', ''confirm''}) (kb_audit s))"

definition last_seen :: "string \<Rightarrow> mem_row \<Rightarrow> kb \<Rightarrow> string" where
  "last_seen i r s = (case touches i s of [] \<Rightarrow> mr_created_at r | t # ts \<Rightarrow> fold max ts t)"

definition reviewCandidates :: "kb \<Rightarrow> ReviewItem list" where
  "reviewCandidates s = map (\<lambda>(i, r). \<lparr>ri_ID = i, ri_Text = mr_text r, ri_Kind = mr_kind r, ri_Confidence = mr_confidence r,
       ri_CreatedAt = mr_created_at r, ri_Actor = mr_actor r,
       ri_Corroboration = length (filter (\<lambda>(m, _). m = i) (kb_sources s)), ri_LastSeen = last_seen i r s\<rparr>)
     (filter (\<lambda>(_, r). live_fact r \<and> \<not> mr_pinned r) (kb_memories s))"

definition corroboration_bound :: "int \<Rightarrow> int" where
  "corroboration_bound n = (if n < 0 then DefaultReviewMaxCorroboration else n)"

definition ReviewCounts :: "string list \<Rightarrow> int \<Rightarrow> kb \<Rightarrow> nat list" where
  "ReviewCounts cutoffs maxCorroboration s =
     (let rows = filter (\<lambda>x. int (ri_Corroboration x) \<le> corroboration_bound maxCorroboration) (reviewCandidates s)
      in map (\<lambda>c. sum_list (map (\<lambda>x. if ri_LastSeen x < c then 1 else 0) rows)) cutoffs)"

definition review_limit :: "int \<Rightarrow> nat" where
  "review_limit limit = (if limit \<le> 0 \<or> 500 < limit then 50 else nat limit)"

definition ReviewQueue :: "string \<Rightarrow> int \<Rightarrow> int \<Rightarrow> kb \<Rightarrow> ReviewItem list" where
  "ReviewQueue cutoff maxCorroboration limit s = take (review_limit limit)
     (sort_key (\<lambda>x. (ri_LastSeen x, ri_Confidence x))
       (filter (\<lambda>x. int (ri_Corroboration x) \<le> corroboration_bound maxCorroboration \<and> ri_LastSeen x < cutoff) (reviewCandidates s)))"

definition ConfirmMemory :: "kenv \<Rightarrow> string \<Rightarrow> string \<Rightarrow> kb \<Rightarrow> kb_err option \<times> kb" where
  "ConfirmMemory e i actor s =
     (case row_where live_fact i s of
        None \<Rightarrow> (Some (no_memory i), s)
      | Some r \<Rightarrow> audit_memory e 0 0 i ''confirm'' [] (mr_text r) actor (set_row i (reinforce e conf_confirm r) s))"

end
