(* ===== verification/FactSteps.thy ===== *)
theory FactSteps
  imports Facts
begin

text \<open>
  The curated knowledge as a step relation. \<open>kop\<close> is one operation; \<open>fact_edit\<close> is one change of a table
  with what the operations check before it. Every operation is a run of edits (\<open>kop_edits\<close>), so an
  invariant is shown once for each edit. \<open>C\<close> restricts the alias maps that get recorded.
\<close>

section \<open>Operations\<close>

inductive kop :: "(aliases \<Rightarrow> bool) \<Rightarrow> kenv \<Rightarrow> kb \<Rightarrow> kb \<Rightarrow> bool" for C e s where
  remember: "Remember e text actor opts s = (res, s') \<Longrightarrow> kop C e s s'"
| tag: "TagMemory e i tg actor s = (done_with, s') \<Longrightarrow> kop C e s s'"
| untag: "RemoveTag e i tg s = (done_with, s') \<Longrightarrow> kop C e s s'"
| link: "LinkMemories e i j rel actor s = (done_with, s') \<Longrightarrow> kop C e s s'"
| conflict: "NoteConflict e i old_text new_text actor s = (done_with, s') \<Longrightarrow> kop C e s s'"
| retire: "ForgetMemory e i actor s = (done_with, s') \<Longrightarrow> kop C e s s'"
| supersede: "SupersedeMemory e i new_text actor opts s = (ans, s') \<Longrightarrow> kop C e s s'"
| pin: "PinMemory e i p actor s = (done_with, s') \<Longrightarrow> kop C e s s'"
| confirm: "ConfirmMemory e i actor s = (done_with, s') \<Longrightarrow> kop C e s s'"
| embed: "s' = SetEmbedding i model n vec s \<Longrightarrow> kop C e s s'"
| importing: "s' = ImportMemory e m s \<Longrightarrow> kop C e s s'"
| realias: "C (AList.merge add (kb_aliases s)) \<Longrightarrow> visits order1 (AList.merge add (kb_aliases s)) \<Longrightarrow>
    visits order2 (AList.merge add (kb_aliases s)) \<Longrightarrow> ApplyOriginAliases order1 order2 add s = (n, s') \<Longrightarrow> kop C e s s'"

text \<open>What the documentation of \<open>strings.ToLower\<close> says of an ASCII letter.\<close>

definition lowers :: "kenv \<Rightarrow> bool" where
  "lowers e \<longleftrightarrow> (\<forall>t. list_all (\<lambda>c. fold_case c = c) (ke_lower e t))"

definition fact_step :: "(aliases \<Rightarrow> bool) \<Rightarrow> kb \<Rightarrow> kb \<Rightarrow> bool" where
  "fact_step C s s' \<longleftrightarrow> (\<exists>e. lowers e \<and> kop C e s s')"

abbreviation fact_run :: "(aliases \<Rightarrow> bool) \<Rightarrow> kb \<Rightarrow> kb \<Rightarrow> bool" where
  "fact_run C \<equiv> (fact_step C)\<^sup>*\<^sup>*"

section \<open>Edits\<close>

text \<open>What may happen to a stored fact: its text, its kind and its times of creation stay, and what
  retired it stays.\<close>

definition ages :: "mem_row \<Rightarrow> mem_row \<Rightarrow> bool" where
  "ages r r' \<longleftrightarrow> mr_text r' = mr_text r \<and> mr_kind r' = mr_kind r \<and> mr_created_at r' = mr_created_at r
     \<and> mr_valid_at r' = mr_valid_at r \<and> mr_actor r' = mr_actor r
     \<and> (mr_expired_at r \<noteq> None \<longrightarrow> mr_expired_at r' = mr_expired_at r)
     \<and> (mr_superseded_by r \<noteq> None \<longrightarrow> mr_superseded_by r' = mr_superseded_by r)
     \<and> (mr_invalid_at r \<noteq> None \<longrightarrow> mr_invalid_at r' = mr_invalid_at r)"

inductive fact_edit :: "(aliases \<Rightarrow> bool) \<Rightarrow> kb \<Rightarrow> kb \<Rightarrow> bool" for C s where
  fe_audit: "tb_insert a x (kb_audit s) = Some t \<Longrightarrow> fact_edit C s (s\<lparr>kb_audit := t\<rparr>)"
| fe_new: "map_of (kb_memories s) i = None \<Longrightarrow> fact_edit C s (set_row i r s)"
| fe_row: "map_of (kb_memories s) i = Some r \<Longrightarrow> ages r r' \<Longrightarrow> fact_edit C s (set_row i r' s)"
| fe_source: "ev \<noteq> [] \<Longrightarrow> fact_edit C s (s\<lparr>kb_sources := add_once (i, relabelled (kb_aliases s) ev) (kb_sources s)\<rparr>)"
| fe_tag: "like_chapter t \<longrightarrow> hasTag i t s \<or> ChapterCount i s < MaxChaptersPerFact \<Longrightarrow>
    fact_edit C s (s\<lparr>kb_tags := add_once (i, t) (kb_tags s)\<rparr>)"
| fe_untag: "fact_edit C s (s\<lparr>kb_tags := filter (\<lambda>p. p \<noteq> q) (kb_tags s)\<rparr>)"
| fe_link: "fact_edit C s (s\<lparr>kb_links := add_once l (kb_links s)\<rparr>)"
| fe_embed: "fact_edit C s (SetEmbedding i model n vec s)"
| fe_alias: "C (AList.merge add (kb_aliases s)) \<Longrightarrow> visits order1 (AList.merge add (kb_aliases s)) \<Longrightarrow>
    visits order2 (AList.merge add (kb_aliases s)) \<Longrightarrow> ApplyOriginAliases order1 order2 add s = (n, s') \<Longrightarrow> fact_edit C s s'"

abbreviation fact_edits :: "(aliases \<Rightarrow> bool) \<Rightarrow> kb \<Rightarrow> kb \<Rightarrow> bool" where
  "fact_edits C \<equiv> (fact_edit C)\<^sup>*\<^sup>*"

named_theorems edit_trans \<open>operations extend a run of edits\<close>

lemma fact_edits_step: "fact_edits C s s1 \<Longrightarrow> fact_edit C s1 s2 \<Longrightarrow> fact_edits C s s2"
  by (rule rtranclp.rtrancl_into_rtrancl)

lemma ages_refl [simp]: "ages r r"
  by (simp add: ages_def)

lemma ages_trans: "ages r1 r2 \<Longrightarrow> ages r2 r3 \<Longrightarrow> ages r1 r3"
  by (simp add: ages_def)

lemma ages_simps [simp]:
  "ages r (r\<lparr>mr_pinned := p\<rparr>)" "ages r (reinforce e c r)" "ages r (adopted r x)"
  "mr_expired_at r = None \<Longrightarrow> ages r (r\<lparr>mr_expired_at := x1, mr_invalid_at := coalesce (mr_invalid_at r) y\<rparr>)"
  "mr_expired_at r = None \<Longrightarrow> mr_superseded_by r = None \<Longrightarrow>
     ages r (r\<lparr>mr_superseded_by := z, mr_expired_at := x1, mr_invalid_at := coalesce (mr_invalid_at r) y\<rparr>)"
  by (auto simp: ages_def reinforce_def adopted_def coalesce_def)

section \<open>Every operation is a run of edits\<close>

lemma audit_memory_edits [edit_trans]:
  assumes "audit_memory e u n i operation x y actor s1 = (res, s2)" "fact_edits C s s1"
  shows "fact_edits C s s2"
  using assms by (auto simp: audit_memory_def split: option.splits intro: fact_edits_step fe_audit)

lemma answered_edits [edit_trans]:
  assumes "answered x (audit_memory e u n i operation x' y actor s1) = (res, s2)" "fact_edits C s s1"
  shows "fact_edits C s s2"
proof (cases "audit_memory e u n i operation x' y actor s1")
  case (Pair r s')
  from audit_memory_edits [OF Pair assms(2)] have "fact_edits C s s'" .
  with Pair assms(1) show ?thesis by (auto simp: answered_def split: option.splits)
qed

lemma add_source_edits: "fact_edits C s s1 \<Longrightarrow> fact_edits C s (add_source i ev s1)"
  by (auto simp: add_source_def Let_def intro: fact_edits_step fe_source)

lemma addSources_edits [intro]: "fact_edits C s s1 \<Longrightarrow> fact_edits C s (addSources i evs s1)"
  unfolding addSources_def by (induction evs arbitrary: s1) (auto intro: add_source_edits)

lemma fold_case_id: "list_all (\<lambda>c. fold_case c = c) t \<Longrightarrow> map fold_case t = t"
  by (induction t) auto

lemma writeTag_like:
  assumes "lowers e"
  shows "like_chapter (writeTag e t) = chapter_tag (writeTag e t)"
proof -
  have "list_all (\<lambda>c. fold_case c = c) (ke_lower e (TrimSpace (StripMarkup t)))"
    using assms by (simp add: lowers_def)
  then have "list_all (\<lambda>c. fold_case c = c) (take 8 (writeTag e t))"
    by (auto simp: writeTag_def normTag_def list_all_iff dest: in_set_takeD)
  then show ?thesis by (simp add: like_chapter_def chapter_tag_def fold_case_id)
qed

lemma add_tag_edits:
  assumes "lowers e" "fact_edits C s s1"
  shows "fact_edits C s (add_tag e i multi t s1)"
proof (cases "add_tag e i multi t s1 = s1")
  case False
  let ?t = "writeTag e t"
  from False have eq: "add_tag e i multi t s1 = s1\<lparr>kb_tags := add_once (i, ?t) (kb_tags s1)\<rparr>"
    and "\<not> (chapter_tag ?t \<and> \<not> hasTag i ?t s1 \<and> (if multi then MaxChaptersPerFact else 1) \<le> ChapterCount i s1)"
    by (auto simp: add_tag_def Let_def split: if_splits)
  then have "like_chapter ?t \<longrightarrow> hasTag i ?t s1 \<or> ChapterCount i s1 < MaxChaptersPerFact"
    by (auto simp: writeTag_like [OF assms(1)] MaxChaptersPerFact_def split: if_splits)
  with assms(2) show ?thesis unfolding eq by (blast intro: fact_edits_step fe_tag)
qed (use assms in simp)

lemma addTagsOpt_edits [intro]:
  assumes "lowers e"
  shows "fact_edits C s s1 \<Longrightarrow> fact_edits C s (addTagsOpt e i tags multi s1)"
  unfolding addTagsOpt_def by (induction tags arbitrary: s1) (auto intro: add_tag_edits [OF assms])

lemma addTags_edits [intro]: "lowers e \<Longrightarrow> fact_edits C s s1 \<Longrightarrow> fact_edits C s (addTags e i tags s1)"
  by (auto simp: addTags_def)

lemma row_edits: "map_of (kb_memories s) i = Some r \<Longrightarrow> ages r r' \<Longrightarrow> fact_edits C s (set_row i r' s)"
  by (rule r_into_rtranclp) (rule fe_row)

lemma row_where_Some [simp]: "row_where P i s = Some r \<longleftrightarrow> map_of (kb_memories s) i = Some r \<and> P r"
  by (auto simp: row_where_def split: option.splits)

lemma row_where_None: "row_where P i s = None \<longleftrightarrow> (\<forall>r. map_of (kb_memories s) i = Some r \<longrightarrow> \<not> P r)"
  by (auto simp: row_where_def split: option.splits)

text \<open>The primary key of the facts is the reason why a row found by its text is the row of its id.\<close>

definition kb_keys :: "kb \<Rightarrow> bool" where
  "kb_keys s \<longleftrightarrow> tb_ok (kb_memories s)"

lemma same_text_D:
  assumes "same_text text s = Some (i, r)" "kb_keys s"
  shows "map_of (kb_memories s) i = Some r" "mr_text r = text" "live_fact r"
  using assms unfolding same_text_def kb_keys_def find_Some_iff
  by (auto simp: tb_ok_def dest: nth_mem)

lemma insert_is_set_row: "tb_insert i r (kb_memories s) = Some t \<Longrightarrow> s\<lparr>kb_memories := t\<rparr> = set_row i r s"
proof -
  have "map_of m i = None \<Longrightarrow> AList.update i r m = m @ [(i, r)]" for m
    by (induction m) (auto split: if_splits)
  then show "tb_insert i r (kb_memories s) = Some t \<Longrightarrow> s\<lparr>kb_memories := t\<rparr> = set_row i r s"
    by (auto simp: tb_insert_def set_row_def split: if_splits)
qed

lemma Remember_edits:
  assumes "lowers e" "kb_keys s" "Remember e text actor opts s = (res, s')"
  shows "fact_edits C s s'"
proof (cases "memory_text e text = [] \<or> same_text (memory_text e text) s = None \<and>
    tb_insert (e_uuid e 0) (new_memory e (memory_text e text) actor opts) (kb_memories s) = None")
  case True
  with assms show ?thesis by (auto simp: Remember_def Let_def split: if_splits)
next
  case False
  show ?thesis
  proof (cases "same_text (memory_text e text) s")
    case (Some p)
    obtain i r where p: "p = (i, r)" by (cases p)
    from same_text_D [OF _ assms(2)] Some p have "map_of (kb_memories s) i = Some r" by blast
    then have "fact_edits C s (set_row i (reinforce e conf_reassert r) s)" by (rule row_edits) simp
    with False assms(1,3) Some p show ?thesis
      by (auto simp: Remember_def Let_def elim!: answered_edits)
  next
    case None
    with False obtain t where t: "tb_insert (e_uuid e 0) (new_memory e (memory_text e text) actor opts) (kb_memories s) = Some t"
      by auto
    have "fact_edits C s (s\<lparr>kb_memories := t\<rparr>)"
      unfolding insert_is_set_row [OF t] by (rule r_into_rtranclp) (rule fe_new, rule tb_insert_SomeD [OF t])
    with False assms(1,3) None t show ?thesis
      by (auto simp: Remember_def Let_def elim!: answered_edits)
  qed
qed

lemma fact_edit_keys: "fact_edit C s s' \<Longrightarrow> kb_keys s \<Longrightarrow> kb_keys s'"
  by (induction rule: fact_edit.induct)
    (auto simp: kb_keys_def set_row_def SetEmbedding_def ApplyOriginAliases_def Let_def split: if_splits prod.splits)

lemma fact_edits_keys: "fact_edits C s s' \<Longrightarrow> kb_keys s \<Longrightarrow> kb_keys s'"
  by (induction rule: rtranclp_induct) (auto intro: fact_edit_keys)

lemma fact_edit_row:
  assumes "fact_edit C s s'" "map_of (kb_memories s) i = Some r"
  shows "\<exists>r'. map_of (kb_memories s') i = Some r' \<and> ages r r'"
  using assms
  by (induction rule: fact_edit.induct)
    (auto simp: set_row_def SetEmbedding_def ApplyOriginAliases_def Let_def split: if_splits prod.splits)

lemma fact_edits_row:
  assumes "fact_edits C s s'" "map_of (kb_memories s) i = Some r"
  shows "\<exists>r'. map_of (kb_memories s') i = Some r' \<and> ages r r'"
  using assms by (induction rule: rtranclp_induct) (auto dest!: fact_edit_row intro: ages_trans)

text \<open>A reassertion touches the row it returns only, and a new row takes a free id.\<close>

lemma addSources_memories [simp]: "kb_memories (addSources i evs s) = kb_memories s"
proof -
  have "kb_memories (add_source i ev s) = kb_memories s" for ev s by (simp add: add_source_def Let_def)
  then show ?thesis unfolding addSources_def by (induction evs arbitrary: s) auto
qed

lemma addTagsOpt_memories [simp]: "kb_memories (addTagsOpt e i tags multi s) = kb_memories s"
proof -
  have "kb_memories (add_tag e i multi t s) = kb_memories s" for t s by (simp add: add_tag_def Let_def)
  then show ?thesis unfolding addTagsOpt_def by (induction tags arbitrary: s) auto
qed

lemma addTags_memories [simp]: "kb_memories (addTags e i tags s) = kb_memories s"
  by (simp add: addTags_def)

lemma audit_memory_memories: "audit_memory e u n i operation x y actor s = (res, s') \<Longrightarrow> kb_memories s' = kb_memories s"
  by (auto simp: audit_memory_def split: option.splits)

lemma answered_D: "answered x a = (Inr y, s') \<Longrightarrow> y = x \<and> a = (None, s')"
  by (cases a) (auto simp: answered_def split: option.splits)

lemma Remember_InrE:
  assumes "Remember e text actor opts s = (Inr (i, again), s')"
  obtains r where "again" "same_text (memory_text e text) s = Some (i, r)"
      "kb_memories s' = AList.update i (reinforce e conf_reassert r) (kb_memories s)"
  | "\<not> again" "same_text (memory_text e text) s = None" "i = e_uuid e 0" "map_of (kb_memories s) i = None"
      "kb_memories s' = AList.update i (new_memory e (memory_text e text) actor opts) (kb_memories s)"
proof (cases "same_text (memory_text e text) s")
  case (Some p)
  obtain j r where p: "p = (j, r)" by (cases p)
  show ?thesis
    by (rule that(1) [of r])
      (use assms Some p in \<open>auto simp: Remember_def Let_def set_row_def split: if_splits dest!: answered_D audit_memory_memories\<close>)
next
  case None
  from assms None obtain t where t: "tb_insert (e_uuid e 0) (new_memory e (memory_text e text) actor opts) (kb_memories s) = Some t"
    and s': "kb_memories s' = t" "i = e_uuid e 0" "\<not> again"
    by (auto simp: Remember_def Let_def split: if_splits option.splits dest!: answered_D audit_memory_memories)
  have "t = AList.update i (new_memory e (memory_text e text) actor opts) (kb_memories s)"
    using insert_is_set_row [OF t] s' by (simp add: set_row_def) (metis kb.ext_inject kb.surjective kb.update_convs(1))
  with None t s' show ?thesis by (intro that(2)) (auto dest: tb_insert_SomeD)
qed

lemma map_one_row: "tb_ok m \<Longrightarrow> map_of m i = Some r \<Longrightarrow> map (\<lambda>(j, x). (j, if j = i then f x else x)) m = AList.update i (f r) m"
proof (induction m)
  case (Cons p m)
  obtain j x where p: "p = (j, x)" by (cases p)
  show ?case
  proof (cases "j = i")
    case True
    with Cons.prems p have "i \<notin> fst ` set m" by (simp add: tb_ok_def)
    then have "map (\<lambda>(j, x). (j, if j = i then f x else x)) m = m"
      by (intro map_idI) force
    with True Cons.prems p show ?thesis by simp
  next
    case False
    with Cons p show ?thesis by (simp add: tb_ok_def)
  qed
qed simp

lemma retire_for_edits:
  assumes "kb_keys s1" "map_of (kb_memories s1) i = Some r" "live_fact r" "fact_edits C s s1"
  shows "fact_edits C s (retire_for j now i s1)"
proof -
  let ?s2 = "set_row i (superseded_row j now r) s1"
  have "fact_edit C s1 ?s2"
    using assms(2,3) by (intro fe_row) (auto simp: superseded_row_def live_fact_def)
  with assms(4) have "fact_edits C s ?s2" by (rule fact_edits_step)
  then have "fact_edits C s (?s2\<lparr>kb_links := add_once (j, i, ''supersedes'') (kb_links ?s2)\<rparr>)"
    by (rule fact_edits_step) (rule fe_link)
  moreover have "?s2\<lparr>kb_links := add_once (j, i, ''supersedes'') (kb_links ?s2)\<rparr> = retire_for j now i s1"
    using map_one_row [of _ i r "superseded_row j now"] assms by (simp add: retire_for_def set_row_def kb_keys_def)
  ultimately show ?thesis by simp
qed

lemma SupersedeMemory_edits:
  assumes "lowers e" "kb_keys s" "SupersedeMemory e i text actor opts s = (res, s')"
  shows "fact_edits C s s'"
proof (cases "row_where live_fact i s")
  case None
  with assms show ?thesis by (simp add: SupersedeMemory_def)
next
  case (Some r)
  then have r: "map_of (kb_memories s) i = Some r" "live_fact r" by auto
  obtain x s1 where R: "Remember e text actor opts s = (x, s1)" by (cases "Remember e text actor opts s")
  have s1: "fact_edits C s s1" by (rule Remember_edits [OF assms(1,2) R])
  show ?thesis
  proof (cases x)
    case (Inl y)
    with assms Some R s1 show ?thesis by (simp add: SupersedeMemory_def)
  next
    case (Inr y)
    obtain j again where y: "y = (j, again)" by (cases y)
    show ?thesis
    proof (cases "j = i")
      case True
      with assms Some R s1 Inr y show ?thesis by (simp add: SupersedeMemory_def)
    next
      case False
      have k: "kb_keys s1" by (rule fact_edits_keys [OF s1 assms(2)])
      have r1: "map_of (kb_memories s1) i = Some r"
        using Remember_InrE [OF R [unfolded Inr y]] False r by (metis fun_upd_apply map_of_update)
      have "fact_edits C s (retire_for j now i s1)" for now by (rule retire_for_edits [OF k r1 r(2) s1])
      then show ?thesis
        using assms(3) Some R Inr y False by (auto simp: SupersedeMemory_def Let_def elim!: answered_edits)
    qed
  qed
qed

lemma TagMemory_edits:
  assumes "lowers e" "TagMemory e i t actor s = (res, s')"
  shows "fact_edits C s s'"
  using assms by (auto simp: TagMemory_def Let_def split: option.splits if_splits elim!: audit_memory_edits)

lemma import_edits:
  assumes "lowers e"
  shows "fact_edits C s (ImportMemory e m s)"
proof -
  have l: "fact_edits C s s1 \<Longrightarrow> fact_edits C s (import_link i l s1)" for i l s1
    by (auto simp: import_link_def split: option.splits prod.splits intro: fact_edits_step fe_link)
  have fold: "fact_edits C s s1 \<Longrightarrow> fact_edits C s (fold (import_link i) ls s1)" for i ls s1
    by (induction ls arbitrary: s1) (auto intro: l)
  have "fact_edit C s (import_row e m s)"
    by (auto simp: import_row_def split: option.splits intro: fe_new fe_row)
  then show ?thesis unfolding ImportMemory_def using assms by (intro fold) auto
qed

lemma kop_edits:
  assumes "kop C e s s'" "lowers e" "kb_keys s"
  shows "fact_edits C s s'"
  using assms(1)
proof cases
  case remember
  then show ?thesis by (rule Remember_edits [OF assms(2,3)])
next
  case tag
  then show ?thesis by (rule TagMemory_edits [OF assms(2)])
next
  case untag
  then show ?thesis by (auto simp: RemoveTag_def split: if_splits intro!: r_into_rtranclp fe_untag)
next
  case link
  then show ?thesis
    by (auto simp: LinkMemories_def Let_def split: option.splits if_splits elim!: audit_memory_edits)
      (intro r_into_rtranclp fe_link)+
next
  case conflict
  then show ?thesis by (auto simp: NoteConflict_def elim!: audit_memory_edits)
next
  case retire
  then show ?thesis
    by (auto simp: ForgetMemory_def unexpired_def split: option.splits if_splits elim!: audit_memory_edits intro!: row_edits)
next
  case supersede
  then show ?thesis by (rule SupersedeMemory_edits [OF assms(2,3)])
next
  case pin
  then show ?thesis by (auto simp: PinMemory_def split: option.splits elim!: audit_memory_edits intro!: row_edits)
next
  case confirm
  then show ?thesis by (auto simp: ConfirmMemory_def split: option.splits elim!: audit_memory_edits intro!: row_edits)
next
  case embed
  then show ?thesis by (auto intro!: r_into_rtranclp fe_embed)
next
  case importing
  then show ?thesis by (auto intro: import_edits [OF assms(2)])
next
  case realias
  then show ?thesis by (blast intro: r_into_rtranclp fe_alias)
qed

lemma fact_run_edits:
  assumes "fact_run C s s'" "kb_keys s"
  shows "fact_edits C s s'"
  using assms
proof (induction rule: rtranclp_induct)
  case (step s1 s2)
  then obtain e where "lowers e" "kop C e s1 s2" by (auto simp: fact_step_def)
  moreover from step have "kb_keys s1" by (blast intro: fact_edits_keys)
  ultimately show ?case using step kop_edits by (meson rtranclp_trans)
qed simp

lemma empty_kb_keys [simp]: "kb_keys empty_kb"
  by (simp add: kb_keys_def empty_kb_def)

end
