(* ===== verification/FactLabels.thy ===== *)
theory FactLabels
  imports FactSteps
begin

text \<open>
  The citations of projects under their aliases: relabelling loses none, and a label that was retired
  never returns. What a cycle of aliases does is shown at the end.
\<close>

section \<open>One label\<close>

lemma project_label_inj [simp]: "project_label p = project_label q \<longleftrightarrow> p = q"
  by (simp add: project_label_def)

definition relabel_one :: "aliases \<Rightarrow> string \<Rightarrow> string \<times> string \<Rightarrow> string \<times> string" where
  "relabel_one m k = (\<lambda>(i, ev). (i, if ev = project_label k then project_label (look m k) else ev))"

lemma relabel_source_set:
  assumes "look m k \<noteq> k"
  shows "set (fst (relabel_source m k (rows, n))) = relabel_one m k ` set rows"
proof -
  let ?old = "project_label k" and ?new = "project_label (look m k)"
  have n: "?old \<noteq> ?new" using assms by simp
  have "p \<in> set (fst (relabel_source m k (rows, n))) \<longleftrightarrow> p \<in> relabel_one m k ` set rows" for p
  proof -
    obtain i ev where p: "p = (i, ev)" by (cases p)
    have "p \<in> set (fst (relabel_source m k (rows, n))) \<longleftrightarrow>
        ev \<noteq> ?old \<and> ((i, ev) \<in> set rows \<or> ev = ?new \<and> (i, ?old) \<in> set rows)"
      using n by (auto simp: p relabel_source_def relabel_row_def Let_def image_iff split: prod.splits if_splits)
    also have "\<dots> \<longleftrightarrow> p \<in> relabel_one m k ` set rows"
    proof
      assume h: "ev \<noteq> ?old \<and> ((i, ev) \<in> set rows \<or> ev = ?new \<and> (i, ?old) \<in> set rows)"
      then show "p \<in> relabel_one m k ` set rows"
      proof (cases "(i, ev) \<in> set rows")
        case True
        with h show ?thesis by (intro rev_image_eqI [of "(i, ev)"]) (auto simp: p relabel_one_def)
      next
        case False
        with h show ?thesis by (intro rev_image_eqI [of "(i, ?old)"]) (auto simp: p relabel_one_def)
      qed
    next
      assume "p \<in> relabel_one m k ` set rows"
      then show "ev \<noteq> ?old \<and> ((i, ev) \<in> set rows \<or> ev = ?new \<and> (i, ?old) \<in> set rows)"
        using n by (auto simp: p relabel_one_def split: if_splits)
    qed
    finally show ?thesis .
  qed
  then show ?thesis by blast
qed

definition canonical_label :: "aliases \<Rightarrow> string \<Rightarrow> string" where
  "canonical_label m ev =
     (if take 8 ev = ''project:'' \<and> look m (drop 8 ev) \<noteq> [] then project_label (final m (drop 8 ev)) else ev)"

lemma canonical_label_project [simp]:
  "canonical_label m (project_label p) = (if look m p = [] then project_label p else project_label (final m p))"
  by (simp add: canonical_label_def project_label_def)

lemma label_shape: "take 8 ev = ''project:'' \<Longrightarrow> ev = project_label (drop 8 ev)"
  by (metis append_take_drop_id project_label_def)

lemma canonical_label_cases:
  obtains p where "ev = project_label p" | "\<And>m. canonical_label m ev = ev" "\<And>p. ev \<noteq> project_label p"
proof (cases "take 8 ev = ''project:''")
  case True
  then show ?thesis using label_shape that(1) by blast
next
  case False
  then show ?thesis by (intro that(2)) (auto simp: canonical_label_def project_label_def)
qed

section \<open>All labels\<close>

text \<open>\<open>m\<close> sends every key of \<open>r\<close> to its end in \<open>r\<close>.\<close>

definition resolves :: "aliases \<Rightarrow> aliases \<Rightarrow> bool" where
  "resolves m r \<longleftrightarrow> (\<forall>k. look r k \<noteq> [] \<longrightarrow> look m k = final r k)"

lemma relabel_all:
  assumes a: "acyclic_map r" and m: "resolves m r"
  shows "\<forall>k \<in> set ks. look r k \<noteq> [] \<Longrightarrow>
    set (fst (fold (relabel_source m) ks (rows, n))) =
      (\<lambda>(i, ev). (i, if \<exists>k \<in> set ks. ev = project_label k then canonical_label r ev else ev)) ` set rows"
proof (induction ks arbitrary: rows n)
  case (Cons k ks)
  have k: "look r k \<noteq> []" "look m k = final r k" using Cons.prems m by (auto simp: resolves_def)
  have e: "look r (final r k) = []" by (rule acyclic_final [OF a])
  have ne: "look m k \<noteq> k" using k e by metis
  obtain rows1 n1 where s: "relabel_source m k (rows, n) = (rows1, n1)" by (cases "relabel_source m k (rows, n)")
  have r1: "set rows1 = relabel_one m k ` set rows" using relabel_source_set [OF ne, of rows n] s by simp
  have nk: "project_label (final r k) \<noteq> project_label j" if "j \<in> set ks" for j
    using e that Cons.prems by auto
  have "set (fst (fold (relabel_source m) (k # ks) (rows, n))) =
      (\<lambda>(i, ev). (i, if \<exists>k \<in> set ks. ev = project_label k then canonical_label r ev else ev)) ` (relabel_one m k ` set rows)"
    using Cons.IH [of rows1 n1] Cons.prems s r1 by simp
  also have "\<dots> = (\<lambda>(i, ev). (i, if \<exists>k \<in> set (k # ks). ev = project_label k then canonical_label r ev else ev)) ` set rows"
    unfolding image_image by (rule image_cong) (use k nk in \<open>auto simp: relabel_one_def\<close>)
  finally show ?case .
qed auto

lemma final_of_step: "acyclic_map r \<Longrightarrow> look r k \<noteq> [] \<Longrightarrow> final r (look r k) = final r k"
  by (rule final_step)

lemma merge_resolves:
  assumes "acyclic_map (AList.merge peer local)" "visits order (AList.merge peer local)"
  shows "resolves (MergeOriginAliases order local peer) (AList.merge peer local)"
  unfolding resolves_def
proof (intro allI impI)
  fix k
  let ?r = "AList.merge peer local"
  assume k: "look ?r k \<noteq> []"
  then have "k \<in> fst ` set ?r" using assms(1) by (simp add: look_Nil_iff acyclic_map_def)
  then have "k \<in> fst ` set local \<union> fst ` set peer" unfolding dom_merge by (simp add: Un_commute)
  from merged_aliases(2) [OF assms this]
  show "look (MergeOriginAliases order local peer) k = final ?r k"
    by (simp add: final_step [OF assms(1) k])
qed

lemma relabelled_sources:
  assumes a: "acyclic_map (AList.merge add (kb_aliases s))"
    and v: "visits order1 (AList.merge add (kb_aliases s))" "visits order2 (AList.merge add (kb_aliases s))"
    and A: "ApplyOriginAliases order1 order2 add s = (n, s')" and ne: "add \<noteq> []"
  shows "set (kb_sources s') = map_prod id (canonical_label (AList.merge add (kb_aliases s))) ` set (kb_sources s)"
proof -
  let ?r = "AList.merge add (kb_aliases s)"
  let ?m = "MergeOriginAliases order1 (kb_aliases s) add"
  have keys: "look ?r k = [] \<longleftrightarrow> k \<notin> set order2" for k
    using a v(2) by (auto simp: look_Nil_iff acyclic_map_def visits_def)
  have "kb_sources s' = fst (fold (relabel_source ?m) order2 (kb_sources s, 0))"
    using A ne by (auto simp: ApplyOriginAliases_def Let_def split: prod.splits)
  then have "set (kb_sources s') = (\<lambda>(i, ev). (i, if \<exists>k \<in> set order2. ev = project_label k then canonical_label ?r ev else ev)) ` set (kb_sources s)"
    using relabel_all [OF a merge_resolves [OF a v(1)], of order2 "kb_sources s" 0] keys by simp
  also have "\<dots> = map_prod id (canonical_label ?r) ` set (kb_sources s)"
  proof (rule image_cong [OF refl])
    fix p :: "string \<times> string"
    obtain i ev where p: "p = (i, ev)" by (cases p)
    show "(\<lambda>(i, ev). (i, if \<exists>k \<in> set order2. ev = project_label k then canonical_label ?r ev else ev)) p = map_prod id (canonical_label ?r) p"
      by (rule canonical_label_cases [of ev]) (auto simp: p keys)
  qed
  finally show ?thesis .
qed

section \<open>Retired labels\<close>

text \<open>The recorded aliases are resolved, and no citation carries a name they retire.\<close>

definition labels_ok :: "kb \<Rightarrow> bool" where
  "labels_ok s \<longleftrightarrow> (\<forall>k \<in> fst ` set (kb_aliases s). look (kb_aliases s) k \<noteq> [] \<and> look (kb_aliases s) (look (kb_aliases s) k) = [])
     \<and> (\<forall>(i, ev) \<in> set (kb_sources s). \<forall>k \<in> fst ` set (kb_aliases s). ev \<noteq> project_label k)"

lemma look_off: "k \<notin> fst ` set m \<Longrightarrow> look m k = []"
  by (simp add: look_def flip: map_of_eq_None_iff)

lemma labels_okD:
  assumes "labels_ok s"
  shows "look (kb_aliases s) q = [] \<longleftrightarrow> q \<notin> fst ` set (kb_aliases s)"
    "k \<in> fst ` set (kb_aliases s) \<Longrightarrow> look (kb_aliases s) (look (kb_aliases s) k) = []"
    "(i, ev) \<in> set (kb_sources s) \<Longrightarrow> k \<in> fst ` set (kb_aliases s) \<Longrightarrow> ev \<noteq> project_label k"
proof -
  have "q \<notin> fst ` set (kb_aliases s) \<Longrightarrow> look (kb_aliases s) q = []"
    by (rule look_off)
  then show "look (kb_aliases s) q = [] \<longleftrightarrow> q \<notin> fst ` set (kb_aliases s)"
    using assms unfolding labels_ok_def by blast
qed (use assms in \<open>unfold labels_ok_def, blast+\<close>)

lemma relabelled_not_key:
  assumes "labels_ok s" "k \<in> fst ` set (kb_aliases s)"
  shows "relabelled (kb_aliases s) ev \<noteq> project_label k"
proof (rule canonical_label_cases [of ev])
  fix p
  assume ev: "ev = project_label p"
  let ?A = "kb_aliases s"
  note key = labels_okD(1) [OF assms(1)]
  show "relabelled ?A ev \<noteq> project_label k"
  proof (cases "map_of ?A p")
    case None
    then have "p \<notin> fst ` set ?A" by (simp add: map_of_eq_None_iff)
    then show ?thesis using None ev assms(2) by (auto simp: relabelled_def project_label_def)
  next
    case (Some t)
    then have t: "look ?A p = t" "p \<in> fst ` set ?A"
      by (simp add: look_def) (metis Some map_of_eq_None_iff option.distinct(1))
    then have "t \<notin> fst ` set ?A" using labels_okD(2) [OF assms(1), of p] key by simp
    then show ?thesis using Some ev assms(2) by (auto simp: relabelled_def project_label_def)
  qed
next
  assume "\<And>m. canonical_label m ev = ev" "\<And>p. ev \<noteq> project_label p"
  then show "relabelled (kb_aliases s) ev \<noteq> project_label k"
    by (metis label_shape relabelled_def)
qed

lemma same_map_of: "same_map a b \<Longrightarrow> map_of a k = map_of b k"
  unfolding same_map_def list_all_iff by (metis Un_iff map_of_eq_None_iff set_append set_map)

lemma alias_labels_ok:
  assumes a: "acyclic_map (AList.merge add (kb_aliases s))"
    and v: "visits order1 (AList.merge add (kb_aliases s))" "visits order2 (AList.merge add (kb_aliases s))"
    and A: "ApplyOriginAliases order1 order2 add s = (n, s')" and ok: "labels_ok s"
  shows "labels_ok s'"
proof (cases "add = []")
  case True
  with A ok show ?thesis by (simp add: ApplyOriginAliases_def)
next
  case False
  let ?r = "AList.merge add (kb_aliases s)"
  let ?m = "MergeOriginAliases order1 (kb_aliases s) add"
  have d: "fst ` set ?m = fst ` set ?r"
    unfolding merged_aliases(1) [OF a v(1)] dom_merge by (rule Un_commute)
  have key: "look ?r k = [] \<longleftrightarrow> k \<notin> fst ` set ?r" for k using a by (simp add: look_Nil_iff acyclic_map_def)
  have res: "look ?m k = final ?r k" if "k \<in> fst ` set ?r" for k
    using merge_resolves [OF a v(1)] that by (simp add: resolves_def key)
  have off: "final ?r k \<notin> fst ` set ?r" for k using acyclic_final [OF a, of k] key by blast
  have al: "map_of (kb_aliases s') k = map_of ?m k" for k
    using A False by (auto simp: ApplyOriginAliases_def Let_def same_map_of split: prod.splits if_splits)
  have lk: "look (kb_aliases s') = look ?m" by (simp add: fun_eq_iff look_def al)
  have "k \<in> fst ` set (kb_aliases s') \<longleftrightarrow> k \<in> fst ` set ?m" for k using al [of k] by (metis map_of_eq_None_iff)
  then have keys: "fst ` set (kb_aliases s') = fst ` set ?r" unfolding d [symmetric] by (intro set_eqI)
  have nk: "final ?r k \<noteq> []" if "k \<in> fst ` set ?r" for k
    using final_named [OF a, of k] final_step [OF a, of k] that key by metis
  have src: "set (kb_sources s') = map_prod id (canonical_label ?r) ` set (kb_sources s)"
    by (rule relabelled_sources [OF a v A False])
  have c: "canonical_label ?r ev \<noteq> project_label k" if "k \<in> fst ` set ?r" for ev k
    by (rule canonical_label_cases [of ev]) (use that off key in \<open>auto split: if_splits\<close>)
  have l: "look ?m k \<noteq> [] \<and> look ?m (look ?m k) = []" if "k \<in> fst ` set ?r" for k
  proof -
    have "look ?m (final ?r k) = []" by (rule look_off) (use off [of k] d in blast)
    with that show ?thesis using nk res by simp
  qed
  have f: "ev \<noteq> project_label k" if "(i, ev) \<in> set (kb_sources s')" "k \<in> fst ` set ?r" for i ev k
  proof -
    from that(1) obtain ev' where "ev = canonical_label ?r ev'" unfolding src by auto
    with c [OF that(2)] show ?thesis by simp
  qed
  show ?thesis unfolding labels_ok_def keys lk
  proof (intro conjI ballI)
    fix p
    assume "p \<in> set (kb_sources s')"
    with f show "case p of (i, ev) \<Rightarrow> \<forall>k \<in> fst ` set ?r. ev \<noteq> project_label k" by (cases p) blast
  qed (use l in blast)+
qed

lemma labels_ok_edit:
  assumes "fact_edit acyclic_map s s'" "labels_ok s"
  shows "labels_ok s'"
  using assms(1)
proof cases
  case (fe_source ev i)
  then show ?thesis
    using assms(2) relabelled_not_key [OF assms(2)] by (auto simp: labels_ok_def add_once_def)
next
  case fe_alias
  then show ?thesis using alias_labels_ok assms(2) by blast
qed (use assms(2) in \<open>simp_all add: labels_ok_def set_row_def SetEmbedding_def\<close>)

lemma labels_ok_run:
  assumes "fact_run acyclic_map s s'" "kb_keys s" "labels_ok s"
  shows "labels_ok s'"
  using fact_run_edits [OF assms(1,2)] assms(3) by (induction rule: rtranclp_induct) (auto intro: labels_ok_edit)

end
