(* ===== verification/FactProps.thy ===== *)
theory FactProps
  imports FactLabels
begin

text \<open>
  What holds of the curated knowledge: a retired fact stays retired, chapters stay few, an assertion and
  an import can be repeated, two stores that exchange their facts agree on what is live, labels and the
  review queue behave.
\<close>

section \<open>Retired facts\<close>

lemma ages_retired: "ages r r' \<Longrightarrow> \<not> live_fact r \<Longrightarrow> \<not> live_fact r'"
  by (auto simp: ages_def live_fact_def)

lemma same_text_live: "same_text text s = Some (i, r) \<Longrightarrow> (i, r) \<in> set (kb_memories s) \<and> live_fact r \<and> mr_text r = text"
  unfolding same_text_def find_Some_iff by (auto simp: in_set_conv_nth)

lemma Memories_live:
  assumes "m \<in> set (Memories False s)" "kb_keys s"
  shows "\<exists>r. map_of (kb_memories s) (mm_ID m) = Some r \<and> live_fact r"
  using assms by (auto simp: Memories_def scan_memory_def Let_def kb_keys_def tb_mem_iff)

lemma reviewCandidates_live:
  assumes "x \<in> set (reviewCandidates s)" "kb_keys s"
  shows "\<exists>r. map_of (kb_memories s) (ri_ID x) = Some r \<and> live_fact r"
  using assms by (auto simp: reviewCandidates_def kb_keys_def tb_mem_iff)

lemma ReviewQueue_candidates: "set (ReviewQueue c n l s) \<subseteq> set (reviewCandidates s)"
  by (auto simp: ReviewQueue_def dest!: in_set_takeD)

lemma recall_trim_set: "set (recall_trim b u some ms) \<subseteq> set ms"
  by (induction ms arbitrary: u some) auto

lemma recall_hits_live:
  assumes "m \<in> set (recall_hits e fts query opts s)"
  shows "\<exists>r. map_of (kb_memories s) (mm_ID m) = Some r \<and> live_fact r"
proof -
  obtain i where "recall_hit e opts s i = Some m"
    using assms by (auto simp: recall_hits_def Let_def map_filter_def)
  then show ?thesis by (auto simp: recall_hit_def scan_memory_def Let_def split: option.splits if_splits)
qed

text \<open>C16: Once a fact is expired or superseded, no later operation brings it back, imports from a lagging peer
  and reassertions of the same text included. Its text never changes, no listing, no recall and no review queue
  shows it, and asserting its text again makes another fact.\<close>

theorem stale_facts_stay_stale:
  assumes "fact_run C s s'" "kb_keys s" "map_of (kb_memories s) i = Some r" "\<not> live_fact r"
  shows "(\<exists>r'. map_of (kb_memories s') i = Some r' \<and> ages r r' \<and> \<not> live_fact r')
    \<and> i \<notin> mm_ID ` set (Memories False s')
    \<and> i \<notin> ri_ID ` set (ReviewQueue cutoff n limit s')
    \<and> (\<forall>ms. Recall e fts (\<lambda>hits. hits) query opts s' = Inr ms \<longrightarrow> i \<notin> mm_ID ` set ms)
    \<and> (\<forall>j again s2. Remember e text actor ropts s' = (Inr (j, again), s2) \<longrightarrow> j \<noteq> i)"
proof -
  have k: "kb_keys s'" using fact_edits_keys [OF fact_run_edits [OF assms(1,2)] assms(2)] .
  obtain r' where r': "map_of (kb_memories s') i = Some r'" "ages r r'"
    using fact_edits_row [OF fact_run_edits [OF assms(1,2)] assms(3)] by blast
  note stale = ages_retired [OF r'(2) assms(4)]
  have "i \<notin> mm_ID ` set (Memories False s')" using Memories_live k r' stale by fastforce
  moreover have "i \<notin> ri_ID ` set (ReviewQueue cutoff n limit s')"
    using ReviewQueue_candidates reviewCandidates_live k r' stale by fastforce
  moreover have "i \<notin> mm_ID ` set ms" if "Recall e fts (\<lambda>hits. hits) query opts s' = Inr ms" for ms
  proof
    assume "i \<in> mm_ID ` set ms"
    then obtain m where m: "m \<in> set ms" "mm_ID m = i" by blast
    define b where "b = wrap64 ((if rc_TokenBudget opts \<le> 0 then 1000 else rc_TokenBudget opts) * 4)"
    have "ms = recall_trim b 0 False (recall_hits e fts query opts s')"
      using that by (simp add: Recall_def Let_def b_def split: if_splits)
    with m have "m \<in> set (recall_hits e fts query opts s')" using recall_trim_set by blast
    with m show False using recall_hits_live r' stale by fastforce
  qed
  moreover have "j \<noteq> i" if "Remember e text actor ropts s' = (Inr (j, again), s2)" for j again s2
    using that
  proof (cases rule: Remember_InrE)
    case (1 x)
    then show ?thesis using same_text_D k r' stale by fastforce
  next
    case 2
    then show ?thesis using r' by auto
  qed
  ultimately show ?thesis using r' stale by blast
qed

section \<open>Chapters\<close>

definition filed_ok :: "kb \<Rightarrow> bool" where
  "filed_ok s \<longleftrightarrow> distinct (kb_tags s) \<and> (\<forall>i. ChapterCount i s \<le> MaxChaptersPerFact)"

lemma chapters_add:
  "chapters i (s\<lparr>kb_tags := add_once (j, t) (kb_tags s)\<rparr>) =
     (if j = i \<and> like_chapter t \<and> \<not> hasTag j t s then chapters i s @ [t] else chapters i s)"
  by (auto simp: chapters_def add_once_def hasTag_def)

lemma filed_ok_same: "kb_tags s' = kb_tags s \<Longrightarrow> filed_ok s \<Longrightarrow> filed_ok s'"
  by (simp add: filed_ok_def ChapterCount_def chapters_def)

lemma filed_ok_edit: "fact_edit C s s' \<Longrightarrow> filed_ok s \<Longrightarrow> filed_ok s'"
proof (induction rule: fact_edit.induct)
  case (fe_tag t i)
  have "ChapterCount j (s\<lparr>kb_tags := add_once (i, t) (kb_tags s)\<rparr>) \<le> MaxChaptersPerFact" for j
    using fe_tag by (auto simp: filed_ok_def ChapterCount_def chapters_add Suc_le_eq)
  moreover have "distinct (add_once (i, t) (kb_tags s))" using fe_tag by (simp add: filed_ok_def add_once_def)
  ultimately show ?case by (simp add: filed_ok_def)
next
  case (fe_untag q)
  have "length (chapters j (s\<lparr>kb_tags := filter (\<lambda>p. p \<noteq> q) (kb_tags s)\<rparr>)) \<le> length (chapters j s)" for j
    using length_filter_le [of "\<lambda>p. p \<noteq> q" "filter (\<lambda>(m, t). m = j \<and> like_chapter t) (kb_tags s)"]
    by (simp add: chapters_def filter_filter conj_commute split_beta)
  with fe_untag show ?case by (auto simp: filed_ok_def ChapterCount_def intro: order_trans)
qed (erule filed_ok_same [rotated], auto simp: set_row_def SetEmbedding_def ApplyOriginAliases_def Let_def split: if_splits prod.splits)+

lemma filed_ok_run:
  assumes "fact_run C s s'" "kb_keys s" "filed_ok s"
  shows "filed_ok s'"
  using fact_run_edits [OF assms(1,2)] assms(3) by (induction rule: rtranclp_induct) (auto intro: filed_ok_edit)

lemma distinct_chapters: "filed_ok s \<Longrightarrow> distinct (chapters i s)"
  unfolding filed_ok_def chapters_def by (auto simp: distinct_map inj_on_def intro!: distinct_filter)

lemma add_tag_keeps_chapters:
  assumes "lowers e" "chapters i s \<noteq> []"
  shows "chapters j (add_tag e i False t s) = chapters j s"
proof (cases "add_tag e i False t s = s")
  case False
  let ?t = "writeTag e t"
  have n: "1 \<le> ChapterCount i s" using assms(2) by (simp add: ChapterCount_def Suc_le_eq)
  from False have "add_tag e i False t s = s\<lparr>kb_tags := add_once (i, ?t) (kb_tags s)\<rparr>"
    "\<not> (chapter_tag ?t \<and> \<not> hasTag i ?t s)"
    using n by (auto simp: add_tag_def Let_def split: if_splits)
  then show ?thesis by (auto simp: chapters_add writeTag_like [OF assms(1)])
qed simp

lemma addTags_keeps_chapters:
  assumes "lowers e"
  shows "chapters i s \<noteq> [] \<Longrightarrow> chapters j (addTags e i ts s) = chapters j s"
  unfolding addTags_def addTagsOpt_def
  by (induction ts arbitrary: s) (simp_all add: add_tag_keeps_chapters [OF assms])

lemma chapters_same: "kb_tags s = kb_tags s' \<Longrightarrow> chapters i s = chapters i s'"
  by (simp add: chapters_def)

lemma addSources_tags [simp]: "kb_tags (addSources i evs s) = kb_tags s"
proof -
  have "kb_tags (add_source i ev s) = kb_tags s" for ev s by (simp add: add_source_def Let_def)
  then show ?thesis unfolding addSources_def by (induction evs arbitrary: s) auto
qed

lemma audit_memory_tags: "audit_memory e u n i operation x y actor s = (res, s') \<Longrightarrow> kb_tags s' = kb_tags s"
  by (auto simp: audit_memory_def split: option.splits)

lemma reassert_keeps_chapters:
  assumes "lowers e" "Remember e text actor opts s = (Inr (i, True), s')" "chapters i s \<noteq> []"
  shows "chapters j s' = chapters j s"
proof -
  from assms(2) obtain r where
    "audit_memory e 0 0 i ''reassert'' [] (memory_text e text) actor
       (addTags e i (ro_Tags opts) (addSources i (ro_Sources opts) (set_row i (reinforce e conf_reassert r) s))) = (None, s')"
    by (auto simp: Remember_def Let_def split: if_splits option.splits prod.splits dest!: answered_D)
  from audit_memory_tags [OF this]
  have "chapters j s' = chapters j (addTags e i (ro_Tags opts) (addSources i (ro_Sources opts) (set_row i (reinforce e conf_reassert r) s)))"
    by (rule chapters_same)
  also have "\<dots> = chapters j (addSources i (ro_Sources opts) (set_row i (reinforce e conf_reassert r) s))"
    by (rule addTags_keeps_chapters [OF assms(1)]) (use assms(3) in \<open>simp add: chapters_def set_row_def\<close>)
  also have "\<dots> = chapters j s" by (simp add: chapters_def set_row_def)
  finally show ?thesis .
qed

text \<open>C17: From an empty store, whatever operations run, no fact is filed in more than three chapters, nor twice
  in one. Asserting again a fact that is filed changes no filing, whatever tags the assertion brings.\<close>

theorem chapters_stay_few:
  assumes "fact_run C empty_kb s" "lowers e"
  shows "ChapterCount i s \<le> 3 \<and> distinct (chapters i s)
    \<and> (\<forall>s'. Remember e text actor opts s = (Inr (i, True), s') \<and> chapters i s \<noteq> [] \<longrightarrow> (\<forall>j. chapters j s' = chapters j s))"
proof -
  have "filed_ok empty_kb" by (simp add: filed_ok_def empty_kb_def ChapterCount_def chapters_def)
  then have "filed_ok s" by (rule filed_ok_run [OF assms(1) empty_kb_keys])
  then show ?thesis using reassert_keeps_chapters [OF assms(2)] distinct_chapters [of s i]
    by (auto simp: filed_ok_def MaxChaptersPerFact_def)
qed

section \<open>Asserting twice\<close>

lemma find_append: "List.find P (xs @ ys) = (case List.find P xs of None \<Rightarrow> List.find P ys | Some x \<Rightarrow> Some x)"
  by (induction xs) auto

lemma find_update:
  assumes "List.find (\<lambda>(_, r). Q r) t = Some (i, r)" "tb_ok t" "Q r'"
  shows "List.find (\<lambda>(_, r). Q r) (AList.update i r' t) = Some (i, r')"
  using assms by (induction t) (auto simp: tb_ok_def split: if_splits)

lemma keys_update: "map_of t i \<noteq> None \<Longrightarrow> map fst (AList.update i r t) = map fst t"
  by (induction t) auto

lemma Remember_found:
  assumes "same_text (memory_text e text) s = Some (i, r)" "Remember e text actor opts s = (res, s')"
    "memory_text e text \<noteq> []" "kb_keys s"
  shows "(\<forall>p. res = Inr p \<longrightarrow> p = (i, True)) \<and> kb_memories s' = AList.update i (reinforce e conf_reassert r) (kb_memories s)"
proof -
  from assms(1,2,3) have a: "answered (i, True) (audit_memory e 0 0 i ''reassert'' [] (memory_text e text) actor
       (addTags e i (ro_Tags opts) (addSources i (ro_Sources opts) (set_row i (reinforce e conf_reassert r) s)))) = (res, s')"
    by (simp add: Remember_def Let_def)
  then show ?thesis
    by (cases res) (auto simp: answered_def set_row_def split: option.splits prod.splits dest!: audit_memory_memories)
qed

text \<open>Asserting a text that was just asserted, by whomever and with whatever tags and sources, answers the same fact
  as a reassertion and adds no fact.\<close>

theorem remember_is_idempotent:
  assumes "Remember e text actor opts s = (Inr (i, again), s1)" "kb_keys s"
    and "memory_text e2 text2 = memory_text e text" "Remember e2 text2 actor2 opts2 s1 = (res, s2)"
  shows "(\<forall>p. res = Inr p \<longrightarrow> p = (i, True)) \<and> map fst (kb_memories s2) = map fst (kb_memories s1)
    \<and> (\<exists>r. map_of (kb_memories s2) i = Some r \<and> live_fact r \<and> mr_text r = memory_text e text)"
proof -
  have ne: "memory_text e text \<noteq> []" using assms(1) by (auto simp: Remember_def Let_def split: if_splits)
  have ok: "\<exists>r. same_text (memory_text e text) s1 = Some (i, r)" and keys: "tb_ok (kb_memories s1)"
    using assms(1)
  proof (atomize (full), cases rule: Remember_InrE)
    case (1 r)
    note t = 1(2) [unfolded same_text_def]
    have "mr_text r = memory_text e text" "live_fact r" using same_text_D [OF 1(2) assms(2)] by auto
    then have "same_text (memory_text e text) s1 = Some (i, reinforce e conf_reassert r)"
      using find_update [OF t, of "reinforce e conf_reassert r"] assms(2)
      by (simp add: same_text_def 1(3) kb_keys_def reinforce_def live_fact_def)
    then show "(\<exists>r. same_text (memory_text e text) s1 = Some (i, r)) \<and> tb_ok (kb_memories s1)"
      using assms(2) by (simp add: 1(3) kb_keys_def)
  next
    case 2
    let ?r = "new_memory e (memory_text e text) actor opts"
    have "AList.update i ?r (kb_memories s) = kb_memories s @ [(i, ?r)]"
      using insert_is_set_row [of i ?r s] 2(4) by (simp add: tb_insert_def set_row_def) (metis kb.ext_inject kb.surjective kb.update_convs(1))
    then have "same_text (memory_text e text) s1 = Some (i, ?r)"
      using 2(2) by (simp add: same_text_def 2(5) find_append new_memory_def live_fact_def)
    then show "(\<exists>r. same_text (memory_text e text) s1 = Some (i, r)) \<and> tb_ok (kb_memories s1)"
      using assms(2) by (simp add: 2(5) kb_keys_def)
  qed
  then obtain r where r: "same_text (memory_text e2 text2) s1 = Some (i, r)" using assms(3) by auto
  have k1: "kb_keys s1" using keys by (simp add: kb_keys_def)
  note d = same_text_D [OF r k1]
  have f: "(\<forall>p. res = Inr p \<longrightarrow> p = (i, True)) \<and> kb_memories s2 = AList.update i (reinforce e2 conf_reassert r) (kb_memories s1)"
    by (rule Remember_found [OF r assms(4) _ k1]) (use ne assms(3) in simp)
  show ?thesis using f d assms(3) by (auto simp: keys_update reinforce_def live_fact_def)
qed

end
