(* ===== verification/FactSync.thy ===== *)
theory FactSync
  imports FactProps
begin

text \<open>
  Synchronisation of the curated knowledge: imports can be repeated, two stores that exchange their facts
  agree on what is live, labels follow the aliases. At the end, the review queue.
\<close>

section \<open>Importing twice\<close>

text \<open>Steps that stay done: one that has run is idle when it comes again, whatever ran since.\<close>

locale settling =
  fixes f :: "'x \<Rightarrow> 's \<Rightarrow> 's" and settled :: "'x \<Rightarrow> 's \<Rightarrow> bool"
  assumes settles: "settled x (f x s)"
    and stays: "settled x s \<Longrightarrow> settled x (f y s)"
    and idle: "settled x s \<Longrightarrow> f x s = s"
begin

lemma stays_fold: "settled x s \<Longrightarrow> settled x (fold f ys s)"
  by (induction ys arbitrary: s) (auto intro: stays)

lemma settles_fold: "x \<in> set xs \<Longrightarrow> settled x (fold f xs s)"
  by (induction xs arbitrary: s) (auto intro: settles stays_fold)

lemma idle_fold: "(\<And>x. x \<in> set xs \<Longrightarrow> settled x s) \<Longrightarrow> fold f xs s = s"
  by (induction xs) (auto simp: idle)

end

lemma add_once_in [simp]: "x \<in> set (add_once x xs)" "y \<in> set xs \<Longrightarrow> y \<in> set (add_once x xs)"
  by (auto simp: add_once_def)

definition source_in :: "string \<Rightarrow> string \<Rightarrow> kb \<Rightarrow> bool" where
  "source_in i ev s \<longleftrightarrow> StripMarkup ev = [] \<or> (i, relabelled (kb_aliases s) (StripMarkup ev)) \<in> set (kb_sources s)"

interpretation sources: settling "add_source i" "source_in i" for i
  by unfold_locales (auto simp: source_in_def add_source_def Let_def add_once_def)

definition tag_in :: "kenv \<Rightarrow> string \<Rightarrow> bool \<Rightarrow> string \<Rightarrow> kb \<Rightarrow> bool" where
  "tag_in e i multi t s \<longleftrightarrow> writeTag e t = [] \<or> hasTag i (writeTag e t) s
     \<or> chapter_tag (writeTag e t) \<and> (if multi then MaxChaptersPerFact else 1) \<le> ChapterCount i s"

lemma add_tag_cases: "add_tag e i multi t s = s \<or>
    writeTag e t \<noteq> [] \<and> add_tag e i multi t s = s\<lparr>kb_tags := add_once (i, writeTag e t) (kb_tags s)\<rparr>"
  by (auto simp: add_tag_def Let_def)

interpretation tags: settling "add_tag e i multi" "tag_in e i multi" for e i multi
proof unfold_locales
  fix t s
  show "tag_in e i multi t (add_tag e i multi t s)"
    by (auto simp: tag_in_def add_tag_def Let_def hasTag_def)
next
  fix t u s
  assume "tag_in e i multi t s"
  then show "tag_in e i multi t (add_tag e i multi u s)"
    using add_tag_cases [of e i multi u s]
    by (auto simp: tag_in_def hasTag_def ChapterCount_def chapters_add)
next
  fix t s
  show "tag_in e i multi t s \<Longrightarrow> add_tag e i multi t s = s"
    by (auto simp: tag_in_def add_tag_def Let_def add_once_def hasTag_def)
qed

definition link_in :: "string \<Rightarrow> string \<Rightarrow> kb \<Rightarrow> bool" where
  "link_in i l s \<longleftrightarrow> (case cut_colon l of None \<Rightarrow> True | Some (rel, to) \<Rightarrow> (i, to, rel) \<in> set (kb_links s))"

interpretation links: settling "import_link i" "link_in i" for i
  by unfold_locales (auto simp: link_in_def import_link_def add_once_def split: option.splits)

lemma import_link_fields [simp]:
  "kb_memories (import_link i l s) = kb_memories s" "kb_sources (import_link i l s) = kb_sources s"
  "kb_tags (import_link i l s) = kb_tags s" "kb_aliases (import_link i l s) = kb_aliases s"
  by (auto simp: import_link_def split: option.splits)

lemma import_links_fields [simp]:
  "kb_memories (fold (import_link i) ls s) = kb_memories s" "kb_sources (fold (import_link i) ls s) = kb_sources s"
  "kb_tags (fold (import_link i) ls s) = kb_tags s" "kb_aliases (fold (import_link i) ls s) = kb_aliases s"
  by (induction ls arbitrary: s) simp_all

lemma addTagsOpt_fields [simp]: "kb_sources (addTagsOpt e i ts multi s) = kb_sources s" "kb_aliases (addTagsOpt e i ts multi s) = kb_aliases s"
proof -
  have "kb_sources (add_tag e i multi t s) = kb_sources s \<and> kb_aliases (add_tag e i multi t s) = kb_aliases s" for t s
    by (simp add: add_tag_def Let_def)
  then show "kb_sources (addTagsOpt e i ts multi s) = kb_sources s" "kb_aliases (addTagsOpt e i ts multi s) = kb_aliases s"
    unfolding addTagsOpt_def by (induction ts arbitrary: s) auto
qed

lemma update_same: "map_of t i = Some r \<Longrightarrow> AList.update i r t = t"
  by (induction t) (auto split: if_splits)

lemma adopted_twice: "adopted (adopted r x) x = adopted r x" "adopted x x = x"
  by (auto simp: adopted_def coalesce_def split: option.splits)

lemma import_row_memories:
  "map_of (kb_memories (ImportMemory e m s)) i =
     (if i = mm_ID m then Some (case map_of (kb_memories s) i of None \<Rightarrow> imported_row e m | Some own \<Rightarrow> adopted own (imported_row e m))
      else map_of (kb_memories s) i)"
  by (simp add: ImportMemory_def import_row_def set_row_def)

lemma import_row_idle:
  assumes "map_of (kb_memories s) (mm_ID m) = Some r" "adopted r (imported_row e m) = r"
  shows "import_row e m s = s"
  using assms by (simp add: import_row_def set_row_def update_same)

text \<open>C18: Importing a fact a second time changes nothing at all. After the import the fact is live only when it
  was live or unknown here and comes as live; what had retired it here stays as it was, the text of a known fact stays,
  and no other fact changes.\<close>

theorem import_is_idempotent:
  "ImportMemory e m (ImportMemory e m s) = ImportMemory e m s
   \<and> (\<exists>r. map_of (kb_memories (ImportMemory e m s)) (mm_ID m) = Some r
        \<and> (live_fact r \<longleftrightarrow> mm_ExpiredAt m = [] \<and> mm_SupersededBy m = []
             \<and> (\<forall>own. map_of (kb_memories s) (mm_ID m) = Some own \<longrightarrow> live_fact own))
        \<and> (\<forall>own. map_of (kb_memories s) (mm_ID m) = Some own \<longrightarrow> ages own r))
   \<and> (\<forall>i. i \<noteq> mm_ID m \<longrightarrow> map_of (kb_memories (ImportMemory e m s)) i = map_of (kb_memories s) i)"
proof -
  define s1 where "s1 = addSources (mm_ID m) (mm_Sources m) (import_row e m s)"
  define s2 where "s2 = addTagsOpt e (mm_ID m) (mm_Tags m) True s1"
  define s3 where "s3 = fold (import_link (mm_ID m)) (mm_Links m) s2"
  have s3: "ImportMemory e m s = s3" by (simp add: ImportMemory_def s1_def s2_def s3_def)
  have "map_of (kb_memories s3) (mm_ID m) =
      Some (case map_of (kb_memories s) (mm_ID m) of None \<Rightarrow> imported_row e m | Some own \<Rightarrow> adopted own (imported_row e m))"
    using import_row_memories [of e m s "mm_ID m"] s3 by simp
  then have "import_row e m s3 = s3"
    by (rule import_row_idle) (simp add: adopted_twice split: option.splits)
  moreover have "addSources (mm_ID m) (mm_Sources m) s3 = s3"
    unfolding addSources_def
  proof (rule sources.idle_fold)
    fix ev
    assume "ev \<in> set (mm_Sources m)"
    then have "source_in (mm_ID m) ev s1" unfolding s1_def addSources_def by (rule sources.settles_fold)
    then show "source_in (mm_ID m) ev s3" by (simp add: source_in_def s3_def s2_def)
  qed
  moreover have "addTagsOpt e (mm_ID m) (mm_Tags m) True s3 = s3"
    unfolding addTagsOpt_def
  proof (rule tags.idle_fold)
    fix t
    assume "t \<in> set (mm_Tags m)"
    then have "tag_in e (mm_ID m) True t s2" unfolding s2_def addTagsOpt_def by (rule tags.settles_fold)
    then show "tag_in e (mm_ID m) True t s3" by (simp add: tag_in_def hasTag_def ChapterCount_def chapters_def s3_def)
  qed
  moreover have "fold (import_link (mm_ID m)) (mm_Links m) s3 = s3"
    by (rule links.idle_fold) (simp add: s3_def links.settles_fold)
  ultimately have "ImportMemory e m s3 = s3" by (simp add: ImportMemory_def)
  moreover have "live_fact (imported_row e m) \<longleftrightarrow> mm_ExpiredAt m = [] \<and> mm_SupersededBy m = []"
    by (simp add: live_fact_def imported_row_def nullable_def)
  moreover have "live_fact (adopted own x) \<longleftrightarrow> live_fact own \<and> live_fact x" for own x
    by (auto simp: live_fact_def adopted_def coalesce_def split: option.splits)
  ultimately show ?thesis
    by (auto simp: import_row_memories simp flip: s3 split: option.splits)
qed

section \<open>Exchanging facts\<close>

definition import_all :: "kenv \<Rightarrow> Memory list \<Rightarrow> kb \<Rightarrow> kb" where
  "import_all e ms s = fold (ImportMemory e) ms s"

text \<open>No time is the empty string, which a dump reads as no time.\<close>

definition dated :: "kb \<Rightarrow> bool" where
  "dated s \<longleftrightarrow> list_all (\<lambda>(_, r). mr_expired_at r \<noteq> Some [] \<and> mr_superseded_by r \<noteq> Some []) (kb_memories s)"

lemma import_all_row:
  "distinct (map mm_ID ms) \<Longrightarrow> map_of (kb_memories (import_all e ms s)) i =
     (case List.find (\<lambda>m. mm_ID m = i) ms of
        None \<Rightarrow> map_of (kb_memories s) i
      | Some m \<Rightarrow> Some (case map_of (kb_memories s) i of None \<Rightarrow> imported_row e m | Some own \<Rightarrow> adopted own (imported_row e m)))"
proof (induction ms arbitrary: s)
  case (Cons m ms)
  have "List.find (\<lambda>m. mm_ID m = i) ms = None" if "mm_ID m = i"
    using Cons.prems that by (simp add: find_None_iff) (metis image_eqI)
  then show ?case
    using Cons.IH [of "ImportMemory e m s"] Cons.prems
    by (auto simp: import_all_def import_row_memories split: option.splits)
qed (simp add: import_all_def)

lemma distinct_order_by: "distinct (map f xs) \<Longrightarrow> distinct (map f (order_by lt xs))"
proof -
  assume d: "distinct (map f xs)"
  have "card (set (map f (order_by lt xs))) = length (map f (order_by lt xs))"
    using distinct_card [OF d] by simp
  then show ?thesis by (rule card_distinct)
qed

lemma dump_find:
  assumes "kb_keys b"
  shows "List.find (\<lambda>m. mm_ID m = i) (DumpMemories b) =
      (case map_of (kb_memories b) i of None \<Rightarrow> None | Some r \<Rightarrow> Some (scan_memory b i r))" (is "?f = _")
    and "distinct (map mm_ID (DumpMemories b))"
proof -
  let ?ms = "map (\<lambda>(i, r). scan_memory b i r) (kb_memories b)"
  have id: "mm_ID (scan_memory b i r) = i" for i r by (simp add: scan_memory_def Let_def)
  have "map mm_ID ?ms = map fst (kb_memories b)" by (simp add: id split_beta)
  then have d: "distinct (map mm_ID ?ms)" using assms unfolding kb_keys_def tb_ok_def by metis
  then show dd: "distinct (map mm_ID (DumpMemories b))" by (simp add: DumpMemories_def Memories_def distinct_order_by)
  have mem: "m \<in> set (DumpMemories b) \<longleftrightarrow> (\<exists>r. map_of (kb_memories b) (mm_ID m) = Some r \<and> m = scan_memory b (mm_ID m) r)" for m
  proof
    assume "m \<in> set (DumpMemories b)"
    then obtain i r where "(i, r) \<in> set (kb_memories b)" "m = scan_memory b i r" by (auto simp: DumpMemories_def Memories_def)
    then show "\<exists>r. map_of (kb_memories b) (mm_ID m) = Some r \<and> m = scan_memory b (mm_ID m) r"
      using assms by (auto simp: kb_keys_def tb_mem_iff id)
  next
    assume "\<exists>r. map_of (kb_memories b) (mm_ID m) = Some r \<and> m = scan_memory b (mm_ID m) r"
    then obtain r where "(mm_ID m, r) \<in> set (kb_memories b)" "m = scan_memory b (mm_ID m) r" by (auto dest: map_of_SomeD)
    then have "m \<in> (\<lambda>(i, r). scan_memory b i r) ` set (kb_memories b)" by (metis case_prod_conv rev_image_eqI)
    then show "m \<in> set (DumpMemories b)" by (simp add: DumpMemories_def Memories_def)
  qed
  show "?f = (case map_of (kb_memories b) i of None \<Rightarrow> None | Some r \<Rightarrow> Some (scan_memory b i r))"
  proof (cases "map_of (kb_memories b) i")
    case None
    then show ?thesis using mem by (auto simp: find_None_iff)
  next
    case (Some r)
    then have "scan_memory b i r \<in> set (DumpMemories b)" using mem [of "scan_memory b i r"] id by simp
    then have "?f \<noteq> None" by (auto simp: find_None_iff id)
    then obtain m where m: "?f = Some m" by blast
    then have "m \<in> set (DumpMemories b)" "mm_ID m = i" by (auto simp: find_Some_iff)
    then show ?thesis using m mem Some by auto
  qed
qed

definition same_standing :: "mem_row \<Rightarrow> mem_row \<Rightarrow> bool" where
  "same_standing r r' \<longleftrightarrow> (live_fact r \<longleftrightarrow> live_fact r') \<and> mr_pinned r = mr_pinned r' \<and> mr_confidence r = mr_confidence r'"

lemma imported_standing:
  assumes "dated b" "map_of (kb_memories b) i = Some r"
  shows "same_standing (imported_row e (scan_memory b i r)) r"
proof -
  have "mr_expired_at r \<noteq> Some []" "mr_superseded_by r \<noteq> Some []"
    using assms map_of_SomeD by (fastforce simp: dated_def list_all_iff)+
  then show ?thesis
    by (auto simp: same_standing_def live_fact_def imported_row_def scan_memory_def Let_def nullable_def split: option.splits)
qed

lemma adopted_standing:
  "same_standing x y' \<Longrightarrow> same_standing y x' \<Longrightarrow> same_standing (adopted y' y) (adopted x' x)"
  by (auto simp: same_standing_def live_fact_def adopted_def coalesce_def max_def split: option.splits)

text \<open>C19: When two stores have imported each other's dump they know the same facts, and of each they agree whether it
  is live, whether it is pinned, and how confident they are: what either had retired is retired in both.\<close>

theorem exchange_agrees:
  assumes "kb_keys a" "kb_keys b" "dated a" "dated b"
  shows "rel_option same_standing (map_of (kb_memories (import_all e1 (DumpMemories b) a)) i)
      (map_of (kb_memories (import_all e2 (DumpMemories a) b)) i)"
proof (cases "map_of (kb_memories a) i")
  case None
  then show ?thesis using assms imported_standing [OF assms(4)]
    by (cases "map_of (kb_memories b) i") (simp_all add: import_all_row dump_find)
next
  case (Some ra)
  have sym: "same_standing x y \<Longrightarrow> same_standing y x" for x y by (simp add: same_standing_def)
  show ?thesis
  proof (cases "map_of (kb_memories b) i")
    case None
    with Some show ?thesis using assms imported_standing [OF assms(3) Some]
      by (simp add: import_all_row dump_find sym)
  next
    case (Some rb)
    note ra = \<open>map_of (kb_memories a) i = Some ra\<close>
    have "same_standing (adopted ra (imported_row e1 (scan_memory b i rb))) (adopted rb (imported_row e2 (scan_memory a i ra)))"
      using imported_standing [OF assms(3) ra, of e2] imported_standing [OF assms(4) Some, of e1]
      by (rule adopted_standing)
    with ra Some show ?thesis using assms by (simp add: import_all_row dump_find)
  qed
qed

section \<open>Labels\<close>

text \<open>C20: Recording aliases that form no cycle relabels every citation of a renamed project to the end of its chain,
  loses none and invents none, in whatever order the maps are visited; no citation keeps a renamed label, and nothing
  else of the store changes.\<close>

theorem relabelling_loses_no_citation:
  assumes "acyclic_map (AList.merge add (kb_aliases s))"
    and "visits order1 (AList.merge add (kb_aliases s))" "visits order2 (AList.merge add (kb_aliases s))"
    and "ApplyOriginAliases order1 order2 add s = (n, s')" "add \<noteq> []"
  shows "set (kb_sources s') = map_prod id (canonical_label (AList.merge add (kb_aliases s))) ` set (kb_sources s)
    \<and> (\<forall>(i, ev) \<in> set (kb_sources s'). \<forall>k \<in> fst ` set (AList.merge add (kb_aliases s)). ev \<noteq> project_label k)
    \<and> kb_memories s' = kb_memories s \<and> kb_tags s' = kb_tags s \<and> kb_links s' = kb_links s \<and> kb_audit s' = kb_audit s"
proof -
  let ?r = "AList.merge add (kb_aliases s)"
  have src: "set (kb_sources s') = map_prod id (canonical_label ?r) ` set (kb_sources s)"
    by (rule relabelled_sources [OF assms])
  have key: "look ?r k = [] \<longleftrightarrow> k \<notin> fst ` set ?r" for k using assms(1) by (simp add: look_Nil_iff acyclic_map_def)
  have c: "canonical_label ?r ev \<noteq> project_label k" if "k \<in> fst ` set ?r" for ev k
    by (rule canonical_label_cases [of ev])
      (use that acyclic_final [OF assms(1)] key in \<open>auto split: if_splits\<close>)
  have k: "\<forall>k \<in> fst ` set ?r. ev \<noteq> project_label k" if "(i, ev) \<in> set (kb_sources s')" for i ev
  proof -
    from that obtain ev' where "ev = canonical_label ?r ev'" unfolding src by auto
    then show ?thesis using c by (intro ballI) (simp only: not_False_eq_True)
  qed
  have "\<forall>p \<in> set (kb_sources s'). case p of (i, ev) \<Rightarrow> \<forall>k \<in> fst ` set ?r. ev \<noteq> project_label k"
  proof (intro ballI)
    fix p
    assume "p \<in> set (kb_sources s')"
    moreover obtain i ev where "p = (i, ev)" by (cases p)
    ultimately show "case p of (i, ev) \<Rightarrow> \<forall>k \<in> fst ` set ?r. ev \<noteq> project_label k" using k by (simp only: prod.case)
  qed
  moreover have "kb_memories s' = kb_memories s \<and> kb_tags s' = kb_tags s \<and> kb_links s' = kb_links s \<and> kb_audit s' = kb_audit s"
    using assms(4) by (auto simp: ApplyOriginAliases_def Let_def split: if_splits prod.splits)
  ultimately show ?thesis using src by (intro conjI) simp_all
qed

lemma aliases_stay:
  assumes "fact_edit acyclic_map s s'" "k \<in> fst ` set (kb_aliases s)"
  shows "k \<in> fst ` set (kb_aliases s')"
  using assms
proof (induction rule: fact_edit.induct)
  case (fe_alias add order1 order2 n s')
  have "k \<in> fst ` set (MergeOriginAliases order1 (kb_aliases s) add)"
    unfolding merged_aliases(1) [OF fe_alias(1,2)] using fe_alias(5) by blast
  then show ?case using fe_alias(4,5) by (auto simp: ApplyOriginAliases_def Let_def split: if_splits prod.splits)
qed (simp_all add: set_row_def SetEmbedding_def)

text \<open>C21: Retired labels stay retired while the aliases form no cycle. In every run of the fact operations
  that keeps the recorded aliases free of cycles, a label a rename has retired is carried by no citation
  again, whatever facts are asserted, imported from a peer that never saw the rename, or relabelled later.
  (A rename back closes a cycle: \<open>renaming_back_can_drop_citations\<close>.)\<close>

theorem retired_label_never_returns:
  assumes "fact_run acyclic_map empty_kb s" "k \<in> fst ` set (kb_aliases s)" "fact_run acyclic_map s s'"
  shows "k \<in> fst ` set (kb_aliases s') \<and> (i, project_label k) \<notin> set (kb_sources s')"
proof -
  have keys: "kb_keys s" using fact_edits_keys [OF fact_run_edits [OF assms(1)]] by simp
  have "labels_ok empty_kb" by (simp add: labels_ok_def empty_kb_def)
  then have "labels_ok s" using labels_ok_run [OF assms(1)] by simp
  then have ok: "labels_ok s'" by (rule labels_ok_run [OF assms(3) keys])
  have "k \<in> fst ` set (kb_aliases s')"
    using fact_run_edits [OF assms(3) keys] assms(2) by (induction rule: rtranclp_induct) (auto intro: aliases_stay)
  then show ?thesis using labels_okD(3) [OF ok] by blast
qed

text \<open>A rename and the rename back record a cycle. Then the order in which a map is visited decides whether the
  citations survive.\<close>

lemma renaming_back_can_drop_citations:
  defines "s \<equiv> empty_kb\<lparr>kb_sources := [(''m'', ''project:b'')], kb_aliases := [(''a'', ''b'')]\<rparr>"
  shows "kb_sources (snd (ApplyOriginAliases [''a'', ''b''] [''b'', ''a''] [(''b'', ''a'')] s)) = []"
    "kb_sources (snd (ApplyOriginAliases [''a'', ''b''] [''a'', ''b''] [(''b'', ''a'')] s)) = [(''m'', ''project:a'')]"
    "visits [''a'', ''b''] (AList.merge [(''b'', ''a'')] (kb_aliases s))" "visits [''b'', ''a''] (AList.merge [(''b'', ''a'')] (kb_aliases s))"
  unfolding s_def by code_simp+

section \<open>Review\<close>

lemma counted: "sum_list (map (\<lambda>x. if P x then 1 else 0) xs) = length (filter P xs)"
  by (induction xs) auto

lemma fold_max_start: "x \<le> fold max xs (x :: string)"
proof (induction xs arbitrary: x)
  case (Cons y ys)
  have "x \<le> max y x" by simp
  also have "\<dots> \<le> fold max ys (max y x)" by (rule Cons)
  finally show ?case by simp
qed simp

lemma fold_max_ge: "t \<in> set xs \<Longrightarrow> t \<le> fold max xs (x :: string)"
proof (induction xs arbitrary: x)
  case (Cons y ys)
  show ?case
  proof (cases "t = y")
    case True
    have "y \<le> max y x" by simp
    also have "\<dots> \<le> fold max ys (max y x)" by (rule fold_max_start)
    finally show ?thesis using True by simp
  next
    case False
    then show ?thesis using Cons by simp
  qed
qed simp

lemma last_seen_ge:
  assumes "t \<in> set (touches i s)"
  shows "t \<le> last_seen i r s"
proof (cases "touches i s")
  case Nil
  with assms show ?thesis by simp
next
  case (Cons x xs)
  then show ?thesis using assms fold_max_start fold_max_ge by (auto simp: last_seen_def)
qed

lemma confirm_touches:
  assumes "ConfirmMemory e i actor s = (None, s')"
  shows "e_now e 0 \<in> set (touches i s')"
proof -
  obtain r where "row_where live_fact i s = Some r" using assms by (auto simp: ConfirmMemory_def split: option.splits)
  then obtain t where "kb_audit s' = t @ [(e_uuid e 0, \<lparr>au_TS = e_now e 0, au_MemoryID = i, au_Op = ''confirm'', au_OldText = [],
      au_NewText = mr_text r, au_Actor = actor\<rparr>)]"
    using assms by (auto simp: ConfirmMemory_def audit_memory_def tb_insert_def split: option.splits if_splits)
  then show ?thesis by (simp add: touches_def)
qed

lemma not_live_not_queued:
  assumes "kb_keys s" "map_of (kb_memories s) i = Some r" "\<not> live_fact r"
  shows "i \<notin> ri_ID ` set (ReviewQueue c n l s)"
  using ReviewQueue_candidates reviewCandidates_live assms by fastforce

lemma forget_retires:
  assumes "ForgetMemory e i actor s = (None, s')"
  shows "\<exists>r. map_of (kb_memories s') i = Some r \<and> \<not> live_fact r"
  using assms by (auto simp: ForgetMemory_def live_fact_def set_row_def split: option.splits if_splits dest!: audit_memory_memories)

lemma supersede_retires:
  assumes "SupersedeMemory e i text actor opts s = (Inr j, s')" "j \<noteq> i"
  shows "\<exists>r. map_of (kb_memories s') i = Some r \<and> \<not> live_fact r"
proof -
  from assms obtain r where r: "map_of (kb_memories s) i = Some r" "live_fact r"
    by (auto simp: SupersedeMemory_def split: option.splits)
  from assms r obtain again s1 where R: "Remember e text actor opts s = (Inr (j, again), s1)"
    by (auto simp: SupersedeMemory_def Let_def row_where_def split: prod.splits sum.splits if_splits dest!: answered_D)
  define n where "n = (if again then 1 else 2 :: nat)"
  have A: "audit_memory e n (n + 1) i ''supersede'' (mr_text r) text actor (retire_for j (e_now e n) i s1) = (None, s')"
    using assms r R by (auto simp: SupersedeMemory_def Let_def row_where_def n_def dest!: answered_D)
  have "map_of (kb_memories s1) i = Some r" using Remember_InrE [OF R] assms(2) r by (metis fun_upd_apply map_of_update)
  moreover have "map_of (map (\<lambda>(k, x). (k, if k = i then f x else x)) m) i = map_option f (map_of m i)"
    for f :: "mem_row \<Rightarrow> mem_row" and m by (induction m) auto
  ultimately show ?thesis using audit_memory_memories [OF A] by (simp add: retire_for_def superseded_row_def live_fact_def)
qed

text \<open>C22: A review queue lists as many facts as its count says, up to the limit of the page. A confirmed fact leaves
  every queue whose cutoff is not after the confirmation, and a fact that is forgotten or superseded leaves all of them.\<close>

theorem verdicts_leave_the_queue:
  assumes "kb_keys s"
  shows "length (ReviewQueue cutoff n limit s) = min (review_limit limit) (hd (ReviewCounts (cutoff # cutoffs) n s))
    \<and> (ConfirmMemory e i actor s = (None, s') \<and> cutoff \<le> e_now e 0 \<longrightarrow> i \<notin> ri_ID ` set (ReviewQueue cutoff n limit s'))
    \<and> (ForgetMemory e i actor s = (None, s') \<longrightarrow> i \<notin> ri_ID ` set (ReviewQueue cutoff n limit s'))
    \<and> (SupersedeMemory e i text actor opts s = (Inr j, s') \<and> j \<noteq> i \<and> lowers e \<longrightarrow> i \<notin> ri_ID ` set (ReviewQueue cutoff n limit s'))"
proof (intro conjI impI)
  show "length (ReviewQueue cutoff n limit s) = min (review_limit limit) (hd (ReviewCounts (cutoff # cutoffs) n s))"
    by (simp add: ReviewQueue_def ReviewCounts_def counted min.commute conj_commute)
next
  assume c: "ConfirmMemory e i actor s = (None, s') \<and> cutoff \<le> e_now e 0"
  show "i \<notin> ri_ID ` set (ReviewQueue cutoff n limit s')"
  proof
    assume "i \<in> ri_ID ` set (ReviewQueue cutoff n limit s')"
    then obtain x where "x \<in> set (reviewCandidates s')" "ri_ID x = i" "ri_LastSeen x < cutoff"
      by (auto simp: ReviewQueue_def dest!: in_set_takeD)
    then obtain r where "last_seen i r s' < cutoff" by (auto simp: reviewCandidates_def)
    with last_seen_ge [OF confirm_touches, of e i actor s s' r] c show False by force
  qed
next
  assume f: "ForgetMemory e i actor s = (None, s')"
  have "kb_keys s'" using f assms
    by (auto simp: ForgetMemory_def kb_keys_def set_row_def split: option.splits if_splits dest!: audit_memory_memories)
  then show "i \<notin> ri_ID ` set (ReviewQueue cutoff n limit s')" using forget_retires [OF f] not_live_not_queued by blast
next
  assume "SupersedeMemory e i text actor opts s = (Inr j, s') \<and> j \<noteq> i \<and> lowers e"
  then have c: "SupersedeMemory e i text actor opts s = (Inr j, s')" "j \<noteq> i" "lowers e" by auto
  have "kb_keys s'" using fact_edits_keys [OF SupersedeMemory_edits [OF c(3) assms c(1)] assms] .
  then show "i \<notin> ri_ID ` set (ReviewQueue cutoff n limit s')" using supersede_retires [OF c(1,2)] not_live_not_queued by blast
qed

end
