(* ===== verification/FactExamples.thy ===== *)
theory FactExamples
  imports FactSync
begin

text \<open>
  The properties of the curated knowledge at concrete stores: a fact that is filed and asserted again, one
  that is retired and comes back in an import, two stores that exchange their facts, a renamed project.
\<close>

section \<open>An environment\<close>

definition fx :: "char \<Rightarrow> kenv" where
  "fx c = \<lparr>e_now = (\<lambda>k. [c, if k = 0 then CHR ''0'' else if k = 1 then CHR ''1'' else if k = 2 then CHR ''2'' else CHR ''3'']), e_uuid = (\<lambda>k. [c, if k = 0 then CHR ''0'' else if k = 1 then CHR ''1'' else if k = 2 then CHR ''2'' else CHR ''3'']), e_sha = (\<lambda>s. s), e_sha64 = (\<lambda>s. s),
     e_isPrint = (\<lambda>_. True), e_url = (\<lambda>_. None), e_parseTime = (\<lambda>_. None), e_parsePin = (\<lambda>_. None),
     ke_getenv = (\<lambda>_. []), ke_lower = map fold_case, ke_quote = (\<lambda>s. s), ke_add = (\<lambda>x y. x + y)\<rparr>"

lemma fx_sel [simp]: "e_now (fx c) k = [c, if k = 0 then CHR ''0'' else if k = 1 then CHR ''1'' else if k = 2 then CHR ''2'' else CHR ''3'']" "e_uuid (fx c) k = [c, if k = 0 then CHR ''0'' else if k = 1 then CHR ''1'' else if k = 2 then CHR ''2'' else CHR ''3'']"
  "ke_getenv (fx c) = (\<lambda>_. [])" "ke_lower (fx c) = map fold_case" "ke_add (fx c) = (\<lambda>x y. x + y)"
  by (simp_all add: fx_def)

lemma fold_case_twice: "fold_case (fold_case c) = fold_case c"
proof (cases "CHR ''A'' \<le> c \<and> c \<le> CHR ''Z''")
  case True
  then have n: "65 \<le> (of_char c :: nat)" "(of_char c :: nat) \<le> 90" by (simp_all add: less_eq_char_def)
  then have "\<not> char_of ((of_char c :: nat) + 32) \<le> CHR ''Z''" by (simp add: less_eq_char_def)
  with True show ?thesis by (simp add: fold_case_def)
next
  case False
  then have "fold_case c = c" by (auto simp: fold_case_def)
  then show ?thesis by simp
qed

lemma fx_lowers [simp]: "lowers (fx c)"
  by (simp add: lowers_def list_all_iff fold_case_twice)

lemma fx_text [simp]: "memory_text (fx c) ''x'' = ''x''"
proof -
  have "sanitize (\<lambda>_. []) ''x'' = ''x''"
    by (rule sanitize_clean) (code_simp, simp add: secretEnvValues_def)
  then show ?thesis by (simp add: memory_text_def redact_String_def)
qed

lemma fx_strip: "StripMarkup ''chapter:a'' = ''chapter:a''" "StripMarkup ''chapter:b'' = ''chapter:b''" "StripMarkup ''project:old'' = ''project:old''"
  by code_simp+

lemma fx_units: "go_units ''chapter:a'' = map (\<lambda>c. (Some (of_char c), [c])) ''chapter:a''"
  "go_units ''chapter:b'' = map (\<lambda>c. (Some (of_char c), [c])) ''chapter:b''"
  by (rule go_units_ascii, simp add: ascii_def)+

lemma fx_trim: "TrimSpace ''chapter:a'' = ''chapter:a''" "TrimSpace ''chapter:b'' = ''chapter:b''"
  unfolding TrimSpace_def fx_units Let_def by (simp_all add: IsSpace_def)

lemma fx_tags [simp]: "writeTag (fx c) ''chapter:a'' = ''chapter:a''" "writeTag (fx c) ''chapter:b'' = ''chapter:b''"
  unfolding writeTag_def normTag_def fx_strip fx_trim fx_sel by (simp_all add: fold_case_def)

definition filed :: "string \<Rightarrow> RememberOpts" where
  "filed t = \<lparr>ro_ValidAt = [], ro_Kind = ''decision'', ro_Tags = [t], ro_Sources = []\<rparr>"

lemma filed_sel [simp]: "ro_Tags (filed t) = [t]" "ro_Sources (filed t) = []"
  by (simp_all add: filed_def)

definition fk1 :: kb where "fk1 = snd (Remember (fx (CHR ''A'')) ''x'' ''ann'' (filed ''chapter:a'') empty_kb)"
definition fk2 :: kb where "fk2 = snd (Remember (fx (CHR ''B'')) ''x'' ''bob'' (filed ''chapter:b'') fk1)"

lemmas remember_defs = Remember_def Let_def same_text_def tb_insert_def new_memory_def live_fact_def addSources_def addTags_def addTagsOpt_def
  add_tag_def audit_memory_def answered_def hasTag_def ChapterCount_def chapters_def chapter_tag_def like_chapter_def add_once_def set_row_def

lemma fk1_run: "Remember (fx (CHR ''A'')) ''x'' ''ann'' (filed ''chapter:a'') empty_kb = (Inr (''A0'', False), fk1)"
  "chapters ''A0'' fk1 = [''chapter:a'']"
  unfolding fk1_def by (simp_all add: remember_defs empty_kb_def fold_case_def)

lemma fk2_run: "Remember (fx (CHR ''B'')) ''x'' ''bob'' (filed ''chapter:b'') fk1 = (Inr (''A0'', True), fk2)"
  unfolding fk2_def fk1_def by (simp add: remember_defs empty_kb_def fold_case_def)


lemma fk1_step: "fact_step C empty_kb fk1"
  unfolding fact_step_def using fk1_run(1) fx_lowers kop.remember by blast

lemma fk1_run_from: "fact_run C empty_kb fk1"
  using fk1_step by blast

lemma chapters_stay_few_witness:
  "fact_run (\<lambda>_. True) empty_kb fk1 \<and> lowers (fx (CHR ''B'')) \<and> ChapterCount ''A0'' fk1 \<le> 3
   \<and> Remember (fx (CHR ''B'')) ''x'' ''bob'' (filed ''chapter:b'') fk1 = (Inr (''A0'', True), fk2)
   \<and> chapters ''A0'' fk2 = [''chapter:a'']"
proof -
  note run = fk1_run_from [where C = "\<lambda>_. True"]
  note few = chapters_stay_few [of "\<lambda>_. True" fk1 "fx (CHR ''B'')" "''A0''" "''x''" "''bob''" "filed ''chapter:b''", OF run fx_lowers]
  have "chapters ''A0'' fk1 \<noteq> []" by (simp add: fk1_run(2))
  with fk2_run have "\<forall>j. chapters j fk2 = chapters j fk1"
    by (intro few [THEN conjunct2, THEN conjunct2, THEN spec, THEN mp] conjI)
  then show ?thesis using few run fk1_run(2) fk2_run by simp
qed

lemma remember_is_idempotent_witness:
  "Remember (fx (CHR ''A'')) ''x'' ''ann'' (filed ''chapter:a'') empty_kb = (Inr (''A0'', False), fk1) \<and> kb_keys empty_kb
   \<and> Remember (fx (CHR ''B'')) ''x'' ''bob'' (filed ''chapter:b'') fk1 = (Inr (''A0'', True), fk2)
   \<and> map fst (kb_memories fk2) = map fst (kb_memories fk1)"
  using remember_is_idempotent [OF fk1_run(1) empty_kb_keys _ fk2_run] fk1_run(1) fk2_run by simp

section \<open>A retired fact\<close>

definition fact_row :: "string option \<Rightarrow> bool \<Rightarrow> mem_row" where
  "fact_row expired pinned = \<lparr>mr_text = ''x'', mr_kind = ''fact'', mr_confidence = 1, mr_created_at = ''t'', mr_expired_at = expired,
     mr_valid_at = None, mr_invalid_at = expired, mr_superseded_by = None, mr_pinned = pinned, mr_actor = ''ann''\<rparr>"

definition fact_kb :: "(string, mem_row) table \<Rightarrow> kb" where
  "fact_kb t = empty_kb\<lparr>kb_memories := t\<rparr>"

definition fk_stale :: kb where "fk_stale = fact_kb [(''m'', fact_row (Some ''t1'') False)]"
definition fk_live :: kb where "fk_live = fact_kb [(''m'', fact_row None True), (''n'', fact_row None False)]"
definition fact_copy :: Memory where "fact_copy = scan_memory fk_live ''m'' (fact_row None True)"

lemmas fact_states = fk_stale_def fk_live_def fact_kb_def fact_copy_def fact_row_def empty_kb_def

lemma fk_keys [simp]: "kb_keys fk_stale" "kb_keys fk_live" "dated fk_stale" "dated fk_live"
  by (simp_all add: fact_states kb_keys_def tb_ok_def dated_def)

lemma fk_stale_row: "map_of (kb_memories fk_stale) ''m'' = Some (fact_row (Some ''t1'') False)" "\<not> live_fact (fact_row (Some ''t1'') False)"
  by (simp_all add: fk_stale_def fact_kb_def live_fact_def fact_row_def)

definition fk_back :: kb where "fk_back = ImportMemory (fx (CHR ''C'')) fact_copy fk_stale"

lemma fk_back_run: "fact_run C fk_stale fk_back"
proof -
  have "kop C (fx (CHR ''C'')) fk_stale fk_back" unfolding fk_back_def by (rule kop.importing) simp
  then have "fact_step C fk_stale fk_back" unfolding fact_step_def using fx_lowers by blast
  then show ?thesis by blast
qed

lemma stale_facts_stay_stale_witness:
  "fact_run (\<lambda>_. True) fk_stale fk_back \<and> mm_ID fact_copy = ''m'' \<and> mm_ExpiredAt fact_copy = []
   \<and> (\<exists>r. map_of (kb_memories fk_back) ''m'' = Some r \<and> \<not> live_fact r) \<and> ''m'' \<notin> mm_ID ` set (Memories False fk_back)"
proof -
  note run = fk_back_run [where C = "\<lambda>_. True"]
  note stale = stale_facts_stay_stale [OF run fk_keys(1) fk_stale_row]
  have "\<exists>r. map_of (kb_memories fk_back) ''m'' = Some r \<and> \<not> live_fact r" using stale by blast
  moreover have "''m'' \<notin> mm_ID ` set (Memories False fk_back)" using stale by blast
  ultimately show ?thesis using run by (simp add: fact_copy_def scan_memory_def fact_row_def Let_def)
qed

lemma import_is_idempotent_witness:
  "map_of (kb_memories fk_stale) ''m'' = Some (fact_row (Some ''t1'') False)
   \<and> ImportMemory (fx (CHR ''C'')) fact_copy fk_back = fk_back
   \<and> (\<exists>r. map_of (kb_memories fk_back) ''m'' = Some r \<and> \<not> live_fact r \<and> ages (fact_row (Some ''t1'') False) r)"
proof -
  have "mm_ID fact_copy = ''m''" by (simp add: fact_copy_def scan_memory_def Let_def)
  with import_is_idempotent [of "fx (CHR ''C'')" fact_copy fk_stale] fk_stale_row show ?thesis
    unfolding fk_back_def by auto
qed

lemma exchange_agrees_witness:
  "kb_keys fk_stale \<and> kb_keys fk_live \<and> dated fk_stale \<and> dated fk_live \<and>
   rel_option same_standing (map_of (kb_memories (import_all (fx (CHR ''C'')) (DumpMemories fk_live) fk_stale)) ''m'')
      (map_of (kb_memories (import_all (fx (CHR ''D'')) (DumpMemories fk_stale) fk_live)) ''m'')"
  using exchange_agrees [OF fk_keys] by simp

section \<open>A renamed project\<close>

definition fk_cited :: kb where "fk_cited = empty_kb\<lparr>kb_sources := [(''m'', ''project:old'')], kb_aliases := [(''older'', ''old'')]\<rparr>"
definition fk_renamed :: kb where
  "fk_renamed = empty_kb\<lparr>kb_sources := [(''m'', ''project:new'')], kb_aliases := [(''old'', ''new''), (''older'', ''new'')]\<rparr>"

lemma rename_checks:
  "acyclic_map (AList.merge [(''old'', ''new'')] (kb_aliases fk_cited))"
  "visits [''old'', ''older''] (AList.merge [(''old'', ''new'')] (kb_aliases fk_cited))"
  "visits [''older'', ''old''] (AList.merge [(''old'', ''new'')] (kb_aliases fk_cited))"
  unfolding fk_cited_def by code_simp+

lemma rename_run: "ApplyOriginAliases [''old'', ''older''] [''older'', ''old''] [(''old'', ''new'')] fk_cited = ((1, True), fk_renamed)"
  by (simp add: fk_cited_def fk_renamed_def empty_kb_def ApplyOriginAliases_def MergeOriginAliases_def repoint_def walk_alias.simps look_def
    same_map_def relabel_source_def relabel_row_def project_label_def Let_def)

lemma relabelling_loses_no_citation_witness:
  "ApplyOriginAliases [''old'', ''older''] [''older'', ''old''] [(''old'', ''new'')] fk_cited = ((1, True), fk_renamed)
   \<and> set (kb_sources fk_renamed) = map_prod id (canonical_label (AList.merge [(''old'', ''new'')] (kb_aliases fk_cited))) ` set (kb_sources fk_cited)"
  using relabelling_loses_no_citation [OF rename_checks rename_run] rename_run by simp

definition fk_named :: kb where "fk_named = empty_kb\<lparr>kb_aliases := [(''old'', ''new'')]\<rparr>"
definition fact_cite :: Memory where "fact_cite = fact_copy\<lparr>mm_Sources := [''project:old'']\<rparr>"
definition fk_pulled :: kb where "fk_pulled = ImportMemory (fx (CHR ''C'')) fact_cite fk_named"

lemma fk_named_run: "fact_run acyclic_map empty_kb fk_named"
proof -
  have "acyclic_map (AList.merge [(''old'', ''new'')] (kb_aliases empty_kb))" "visits [''old''] (AList.merge [(''old'', ''new'')] (kb_aliases empty_kb))"
    unfolding empty_kb_def by code_simp+
  moreover have "ApplyOriginAliases [''old''] [''old''] [(''old'', ''new'')] empty_kb = ((0, True), fk_named)"
    by (simp add: fk_named_def empty_kb_def ApplyOriginAliases_def MergeOriginAliases_def repoint_def walk_alias.simps look_def
      same_map_def relabel_source_def relabel_row_def project_label_def Let_def)
  ultimately have "kop acyclic_map (fx (CHR ''A'')) empty_kb fk_named" by (blast intro: kop.realias)
  then have "fact_step acyclic_map empty_kb fk_named" unfolding fact_step_def using fx_lowers by blast
  then show ?thesis by blast
qed

lemma fk_pulled_run: "fact_run acyclic_map fk_named fk_pulled"
proof -
  have "kop acyclic_map (fx (CHR ''C'')) fk_named fk_pulled" unfolding fk_pulled_def by (rule kop.importing) simp
  then have "fact_step acyclic_map fk_named fk_pulled" unfolding fact_step_def using fx_lowers by blast
  then show ?thesis by blast
qed

lemma retired_label_never_returns_witness:
  "fact_run acyclic_map empty_kb fk_named \<and> fact_run acyclic_map fk_named fk_pulled \<and> ''project:old'' \<in> set (mm_Sources fact_cite)
   \<and> ''old'' \<in> fst ` set (kb_aliases fk_pulled) \<and> (''m'', project_label ''old'') \<notin> set (kb_sources fk_pulled)"
proof -
  have "''old'' \<in> fst ` set (kb_aliases fk_named)" by (simp add: fk_named_def)
  from retired_label_never_returns [OF fk_named_run this fk_pulled_run] show ?thesis
    using fk_named_run fk_pulled_run by (simp add: fact_cite_def)
qed

section \<open>A review\<close>

definition fk_forgot :: kb where "fk_forgot = snd (ForgetMemory (fx (CHR ''E'')) ''n'' ''ann'' fk_live)"

lemma verdicts_leave_the_queue_witness:
  "kb_keys fk_live \<and> ri_ID ` set (ReviewQueue ''z'' 2 0 fk_live) = {''n''} \<and> ReviewCounts [''z''] 2 fk_live = [1]
   \<and> ForgetMemory (fx (CHR ''E'')) ''n'' ''ann'' fk_live = (None, fk_forgot) \<and> ''n'' \<notin> ri_ID ` set (ReviewQueue ''z'' 2 0 fk_forgot)"
proof -
  have c: "ReviewCounts [''z''] 2 fk_live = [1]" "ri_ID ` set (ReviewQueue ''z'' 2 0 fk_live) = {''n''}"
    by (simp_all add: ReviewCounts_def ReviewQueue_def reviewCandidates_def last_seen_def touches_def corroboration_bound_def
      review_limit_def fact_states live_fact_def)
  have f: "ForgetMemory (fx (CHR ''E'')) ''n'' ''ann'' fk_live = (None, fk_forgot)"
    unfolding fk_forgot_def by (simp add: ForgetMemory_def audit_memory_def tb_insert_def row_where_def unexpired_def set_row_def fact_states)
  show ?thesis using verdicts_leave_the_queue [OF fk_keys(2)] c f fk_keys(2) by blast
qed

end
