(* ===== verification/Limiter.thy ===== *)
theory Limiter
  imports Prelude
begin

text \<open>
  The redemption limiter (\<open>internal/enrollment/limiter.go\<close>): events per key in a sliding window,
  with a sweep that forgets idle keys. Times are nanoseconds; the zero time of \<open>swept\<close> is 0. The
  reference is a limiter that keeps every event for ever.
\<close>

section \<open>The code\<close>

record Limiter =
  lm_limit :: nat
  lm_window :: int
  lm_seen :: "(string \<times> int list) list"
  lm_swept :: int

definition NewLimiter :: "nat \<Rightarrow> int \<Rightarrow> Limiter" where
  "NewLimiter limit window = \<lparr>lm_limit = limit, lm_window = window, lm_seen = [], lm_swept = 0\<rparr>"

text \<open>A missing key reads as the empty slice.\<close>

definition seen_of :: "string \<Rightarrow> Limiter \<Rightarrow> int list" where
  "seen_of key l = (case map_of (lm_seen l) key of None \<Rightarrow> [] | Some ts \<Rightarrow> ts)"

definition sweep :: "int \<Rightarrow> Limiter \<Rightarrow> Limiter" where
  "sweep now l =
     (if lm_window l \<le> now - lm_swept l
      then l\<lparr>lm_seen := filter (\<lambda>(k, ts). \<not> (ts = [] \<or> \<not> now - lm_window l < last ts)) (lm_seen l), lm_swept := now\<rparr>
      else l)"

definition Allow :: "string \<Rightarrow> int \<Rightarrow> Limiter \<Rightarrow> bool \<times> Limiter" where
  "Allow key now l =
     (let kept = filter (\<lambda>t. now - lm_window l < t) (seen_of key l)
      in if lm_limit l \<le> length kept then (False, l\<lparr>lm_seen := AList.update key kept (lm_seen l)\<rparr>)
         else (True, sweep now (l\<lparr>lm_seen := AList.update key (kept @ [now]) (lm_seen l)\<rparr>)))"

fun Allows :: "(string \<times> int) list \<Rightarrow> Limiter \<Rightarrow> bool list \<times> Limiter" where
  "Allows [] l = ([], l)"
| "Allows ((key, now) # es) l = (case Allow key now l of (b, l') \<Rightarrow> case Allows es l' of (bs, l'') \<Rightarrow> (b # bs, l''))"

section \<open>The reference\<close>

text \<open>The log holds every allowed event, newest first. \<open>recent\<close> counts those of a key in the window
  that ends now.\<close>

type_synonym log = "(string \<times> int) list"

definition recent :: "int \<Rightarrow> string \<Rightarrow> int \<Rightarrow> log \<Rightarrow> nat" where
  "recent window key now log = length (filter (\<lambda>(k, t). k = key \<and> now - window < t) log)"

fun sliding :: "nat \<Rightarrow> int \<Rightarrow> (string \<times> int) list \<Rightarrow> log \<Rightarrow> bool list \<times> log" where
  "sliding limit window [] log = ([], log)"
| "sliding limit window ((key, now) # es) log =
     (if recent window key now log < limit
      then (case sliding limit window es ((key, now) # log) of (bs, log') \<Rightarrow> (True # bs, log'))
      else (case sliding limit window es log of (bs, log') \<Rightarrow> (False # bs, log')))"

section \<open>The two agree\<close>

definition times :: "string \<Rightarrow> log \<Rightarrow> int list" where
  "times key log = rev (map snd (filter (\<lambda>(k, t). k = key) log))"

text \<open>At time \<open>now\<close> the limiter knows of each key's events at least those of the window, in order.\<close>

definition tracks :: "int \<Rightarrow> log \<Rightarrow> Limiter \<Rightarrow> bool" where
  "tracks now log l \<longleftrightarrow> sorted (rev (map snd log)) \<and> (\<forall>(k, t) \<in> set log. t \<le> now) \<and> tb_ok (lm_seen l)
     \<and> (\<forall>key. sorted (seen_of key l)
        \<and> (\<forall>from. now - lm_window l \<le> from \<longrightarrow> filter ((<) from) (seen_of key l) = filter ((<) from) (times key log)))"

lemma recent_times: "recent window key now log = length (filter ((<) (now - window)) (times key log))"
  by (induction log) (auto simp: recent_def times_def)

lemma sorted_filter_last: "sorted xs \<Longrightarrow> \<not> c < last xs \<Longrightarrow> c \<le> d \<Longrightarrow> filter ((<) (d::int)) xs = []"
proof -
  assume s: "sorted xs" "\<not> c < last xs" "c \<le> d"
  have "x \<le> last xs" if "x \<in> set xs" for x
    using s(1) that by (induction xs) auto
  with s show ?thesis by (force simp: filter_empty_conv)
qed

lemma seen_update [simp]: "seen_of k (l\<lparr>lm_seen := AList.update key ts (lm_seen l)\<rparr>) = (if k = key then ts else seen_of k l)"
  by (simp add: seen_of_def)

lemma tracks_later: "tracks now log l \<Longrightarrow> now \<le> later \<Longrightarrow> tracks later log l"
  unfolding tracks_def by fastforce

lemma sweep_tracks:
  assumes "tracks now log l"
  shows "tracks now log (sweep now l)" "lm_window (sweep now l) = lm_window l" "lm_limit (sweep now l) = lm_limit l"
proof -
  note T = assms [unfolded tracks_def]
  show "lm_window (sweep now l) = lm_window l" "lm_limit (sweep now l) = lm_limit l" by (simp_all add: sweep_def)
  show "tracks now log (sweep now l)"
  proof (cases "lm_window l \<le> now - lm_swept l")
    case True
    let ?P = "\<lambda>ts. \<not> (ts = [] \<or> \<not> now - lm_window l < last ts)"
    let ?l = "l\<lparr>lm_seen := filter (\<lambda>(k, ts). ?P ts) (lm_seen l), lm_swept := now\<rparr>"
    have ok: "tb_ok (lm_seen l)" using T by blast
    have seen: "seen_of key ?l = (if ?P (seen_of key l) then seen_of key l else [])" for key
      by (simp add: seen_of_def map_of_filter_value [OF ok] split: option.splits)
    have gone: "filter ((<) from) (seen_of key l) = []" if "\<not> ?P (seen_of key l)" "now - lm_window l \<le> from" for key "from"
    proof (cases "seen_of key l = []")
      case False
      with that(1) have "\<not> now - lm_window l < last (seen_of key l)" by simp
      moreover have "sorted (seen_of key l)" using T by blast
      ultimately show ?thesis using sorted_filter_last that(2) by blast
    qed simp
    have "tb_ok (lm_seen ?l)" using ok unfolding tb_ok_def by (simp add: distinct_map_filter)
    moreover have "sorted (seen_of key ?l)" for key unfolding seen using T by simp
    moreover have "filter ((<) from) (seen_of key ?l) = filter ((<) from) (times key log)" if "now - lm_window l \<le> from" for key "from"
    proof -
      have "filter ((<) from) (seen_of key l) = filter ((<) from) (times key log)" using T that by blast
      with gone [of key "from"] that show ?thesis unfolding seen by (cases "?P (seen_of key l)") simp_all
    qed
    ultimately have "tracks now log ?l" using T unfolding tracks_def by simp
    with True show ?thesis by (simp add: sweep_def)
  qed (use assms in \<open>simp add: sweep_def\<close>)
qed

lemma Allow_sliding:
  assumes "tracks now log l" "Allow key now l = (b, l')"
  shows "b \<longleftrightarrow> recent (lm_window l) key now log < lm_limit l" "tracks now (if b then (key, now) # log else log) l'"
    "lm_window l' = lm_window l" "lm_limit l' = lm_limit l"
proof -
  note T = assms(1) [unfolded tracks_def]
  let ?cut = "now - lm_window l" and ?kept = "filter ((<) (now - lm_window l)) (seen_of key l)"
  have kept: "?kept = filter ((<) ?cut) (times key log)" using T by blast
  have b: "b \<longleftrightarrow> recent (lm_window l) key now log < lm_limit l"
    using assms(2) by (auto simp: Allow_def Let_def recent_times kept split: if_splits)
  have le: "t \<le> now" if "t \<in> set (times key log)" for t
    using that T by (auto simp: times_def)
  have sub: "filter ((<) from) ?kept = filter ((<) from) (seen_of key l)" if "?cut \<le> from" for "from"
    using that by (auto intro: filter_cong)
  have "sorted (seen_of key l)" using T by blast
  then have s: "sorted ?kept" by (rule sorted_wrt_filter)
  show "b \<longleftrightarrow> recent (lm_window l) key now log < lm_limit l" by (rule b)
  show "tracks now (if b then (key, now) # log else log) l'"
  proof (cases b)
    case True
    let ?l = "l\<lparr>lm_seen := AList.update key (?kept @ [now]) (lm_seen l)\<rparr>"
    from True assms(2) have l': "l' = sweep now ?l" by (simp add: Allow_def Let_def split: if_splits)
    have "tracks now ((key, now) # log) ?l"
      unfolding tracks_def
    proof (intro conjI allI impI)
      show "sorted (rev (map snd ((key, now) # log)))" using T by (auto simp: sorted_append)
      show "\<forall>(k, t) \<in> set ((key, now) # log). t \<le> now" using T by auto
      show "tb_ok (lm_seen ?l)" using T by simp
      fix k "from"
      show "sorted (seen_of k ?l)" using T s le kept by (auto simp: sorted_append)
      assume "now - lm_window ?l \<le> from"
      then have f: "?cut \<le> from" by simp
      have "times k ((key, now) # log) = (if k = key then times key log @ [now] else times k log)" by (simp add: times_def)
      with T sub [OF f] f show "filter ((<) from) (seen_of k ?l) = filter ((<) from) (times k ((key, now) # log))" by auto
    qed
    with sweep_tracks(1) True l' show ?thesis by simp
  next
    case False
    with assms(2) have l': "l' = l\<lparr>lm_seen := AList.update key ?kept (lm_seen l)\<rparr>" by (simp add: Allow_def Let_def split: if_splits)
    with T s sub False show ?thesis unfolding tracks_def l' by auto
  qed
  show "lm_window l' = lm_window l" "lm_limit l' = lm_limit l"
    using assms(2) by (auto simp: Allow_def Let_def sweep_def split: if_splits)
qed

lemma Allows_sliding:
  "tracks now log l \<Longrightarrow> sorted (now # map snd es) \<Longrightarrow> fst (Allows es l) = fst (sliding (lm_limit l) (lm_window l) es log)"
proof (induction es arbitrary: now log l)
  case (Cons e es)
  obtain key t where e: "e = (key, t)" by (cases e)
  with Cons.prems have tr: "tracks t log l" and s: "sorted (t # map snd es)" using tracks_later by auto
  obtain b l' where a: "Allow key t l = (b, l')" by fastforce
  note A = Allow_sliding [OF tr a]
  from Cons.IH [OF A(2) s] A(1,3,4) show ?case
    by (auto simp: e a split: prod.splits if_splits)
qed simp

lemma tracks_new: "tracks now [] (NewLimiter limit window)"
  by (simp add: tracks_def NewLimiter_def seen_of_def times_def)

section \<open>The bound\<close>

lemma length_filter_le_filter: "(\<And>x. P x \<Longrightarrow> Q x) \<Longrightarrow> length (filter P xs) \<le> length (filter Q xs)"
  by (induction xs) (auto simp: le_SucI)

lemma sliding_bound:
  assumes "\<forall>key t. recent window key t (filter (\<lambda>(k, u). u \<le> t) log) \<le> limit" "sorted (rev (map snd log) @ map snd es)"
    "sliding limit window es log = (bs, log')"
  shows "recent window key t (filter (\<lambda>(k, u). u \<le> t) log') \<le> limit"
  using assms
proof (induction limit window es log arbitrary: bs log' rule: sliding.induct)
  case (2 limit window k now es log)
  show ?case
  proof (cases "recent window k now log < limit")
    case True
    have "recent window j u (filter (\<lambda>(k, v). v \<le> u) ((k, now) # log)) \<le> limit" for j u
    proof (cases "j = k \<and> now \<le> u \<and> u - window < now")
      case True
      then have "recent window j u (filter (\<lambda>(k, v). v \<le> u) ((k, now) # log)) = Suc (recent window k u (filter (\<lambda>(k, v). v \<le> u) log))"
        by (simp add: recent_def)
      also have "recent window k u (filter (\<lambda>(k, v). v \<le> u) log) \<le> recent window k now log"
        using True unfolding recent_def filter_filter by (intro length_filter_le_filter) auto
      finally show ?thesis using \<open>recent window k now log < limit\<close> by simp
    next
      case False
      then have "recent window j u (filter (\<lambda>(k, v). v \<le> u) ((k, now) # log)) = recent window j u (filter (\<lambda>(k, v). v \<le> u) log)"
        by (auto simp: recent_def)
      with "2.prems"(1) show ?thesis by simp
    qed
    with 2 True show ?thesis by (auto split: prod.splits)
  next
    case False
    with 2 show ?thesis by (auto simp: sorted_append split: prod.splits)
  qed
qed simp

text \<open>C39: The limiter is a sliding window. For any sequence of requests in the order of their times, it
  allows exactly those that the reference allows, which keeps every event for ever: neither the
  pruning of old events nor the sweep of idle keys can be seen. And in every window at most the limit
  of a key's events were allowed.\<close>

theorem limiter_is_sliding_window:
  assumes "sorted (map snd es)"
  shows "fst (Allows es (NewLimiter limit window)) = fst (sliding limit window es [])
    \<and> recent window key now (filter (\<lambda>(k, t). t \<le> now) (snd (sliding limit window es []))) \<le> limit"
proof
  show "fst (Allows es (NewLimiter limit window)) = fst (sliding limit window es [])"
  proof (cases es)
    case (Cons e es')
    with assms Allows_sliding [OF tracks_new [of "snd e"], of es limit window] show ?thesis by (simp add: NewLimiter_def)
  qed simp
  obtain bs log where s: "sliding limit window es [] = (bs, log)" by fastforce
  have "recent window key now (filter (\<lambda>(k, t). t \<le> now) log) \<le> limit"
    by (rule sliding_bound [OF _ _ s]) (use assms in \<open>simp_all add: recent_def\<close>)
  then show "recent window key now (filter (\<lambda>(k, t). t \<le> now) (snd (sliding limit window es []))) \<le> limit" by (simp add: s)
qed

theorem limiter_is_sliding_window_witness:
  "fst (Allows [(''a'', 100), (''a'', 101), (''b'', 102), (''a'', 111)] (NewLimiter 1 10)) = [True, False, True, True]"
proof -
  have "sorted (map snd [(''a'', 100), (''a'', 101), (''b'', 102), (''a'', 111 :: int)])" by simp
  from limiter_is_sliding_window [OF this, of 1 10 "''a''" 111] show ?thesis by (simp add: recent_def)
qed

end
