(* ===== verification/Diff3.thy ===== *)
theory Diff3
  imports Prelude "HOL-Library.Sublist"
begin

text \<open>
  The three-way merge of shared documents (\<open>internal/diff3\<close>): the edit script of each side
  against their common base, from a longest-common-subsequence table, and the merge of two
  scripts, which keeps what only one side changed and marks what both changed differently.

  Go's slice expressions panic out of range; \<open>slice\<close> is \<open>None\<close> there, so that a merge that
  returns has read only what exists.
\<close>

section \<open>The edit script\<close>

definition MaxLines :: nat where "MaxLines = 4000"

record hunk =
  hk_b1 :: nat
  hk_b2 :: nat
  hk_repl :: "string list"

text \<open>One row of the table, from the row below it, from its last column back.\<close>

fun lcs_row :: "string \<Rightarrow> string list \<Rightarrow> nat list \<Rightarrow> nat list" where
  "lcs_row x (y # ys) (n # ns) =
     (let r = lcs_row x ys ns
      in (if x = y then hd ns + 1 else if hd r \<le> n then n else hd r) # r)"
| "lcs_row x ys ns = [0]"

fun lcs_table :: "string list \<Rightarrow> string list \<Rightarrow> nat list list" where
  "lcs_table [] other = [replicate (length other + 1) 0]"
| "lcs_table (x # xs) other = (let t = lcs_table xs other in lcs_row x other (hd t) # t)"

definition matches :: "string list \<Rightarrow> string list \<Rightarrow> nat \<Rightarrow> nat \<Rightarrow> bool" where
  "matches base other i j \<longleftrightarrow> i < length base \<and> j < length other \<and> base ! i = other ! j"

text \<open>The end of the mismatch region that starts at \<open>i\<close>, \<open>j\<close>.\<close>

function mismatch :: "nat list list \<Rightarrow> string list \<Rightarrow> string list \<Rightarrow> nat \<Rightarrow> nat \<Rightarrow> nat \<times> nat" where
  "mismatch lcs base other i j =
     (if \<not> (i < length base \<or> j < length other) \<or> matches base other i j then (i, j)
      else if j < length other \<and> (length base \<le> i \<or> lcs ! (i + 1) ! j \<le> lcs ! i ! (j + 1))
        then mismatch lcs base other i (j + 1)
      else mismatch lcs base other (i + 1) j)"
  by pat_completeness auto
termination
  by (relation "measure (\<lambda>(lcs, base, other, i, j). (length base - i) + (length other - j))") auto

declare mismatch.simps [simp del]

lemma mismatch_bounds:
  "mismatch lcs base other i j = (i', j') \<Longrightarrow> i \<le> length base \<Longrightarrow> j \<le> length other
    \<Longrightarrow> i \<le> i' \<and> j \<le> j' \<and> i' \<le> length base \<and> j' \<le> length other"
proof (induction lcs base other i j rule: mismatch.induct)
  case (1 lcs base other i j)
  note ps = "1.prems"
  show ?case
  proof (cases "\<not> (i < length base \<or> j < length other) \<or> matches base other i j")
    case True
    with ps show ?thesis by (simp add: mismatch.simps [of lcs base other i j])
  next
    case False
    show ?thesis
    proof (cases "j < length other \<and> (length base \<le> i \<or> lcs ! (i + 1) ! j \<le> lcs ! i ! (j + 1))")
      case True
      then have "mismatch lcs base other i (j + 1) = (i', j')" using ps False by (subst (asm) mismatch.simps) simp
      with "1.IH"(1) [OF False True] True ps show ?thesis by simp
    next
      case F2: False
      then have m: "mismatch lcs base other (i + 1) j = (i', j')" using ps False by (subst (asm) mismatch.simps) (simp split: if_splits)
      have "i < length base" using False F2 ps by auto
      with "1.IH"(2) [OF False F2 m] ps show ?thesis by simp
    qed
  qed
qed

lemma mismatch_le: "mismatch lcs base other i j = (i', j')
    \<Longrightarrow> (length base - i') + (length other - j') \<le> (length base - i) + (length other - j)"
proof (induction lcs base other i j rule: mismatch.induct)
  case (1 lcs base other i j)
  show ?case
    using "1.prems" "1.IH" by (subst (asm) mismatch.simps) (auto split: if_splits)
qed

lemma mismatch_progress:
  assumes "mismatch lcs base other i j = (i', j')" "i < length base \<or> j < length other" "\<not> matches base other i j"
  shows "(length base - i') + (length other - j') < (length base - i) + (length other - j)"
proof (cases "j < length other \<and> (length base \<le> i \<or> lcs ! (i + 1) ! j \<le> lcs ! i ! (j + 1))")
  case True
  with assms have "mismatch lcs base other i (j + 1) = (i', j')" by (subst (asm) mismatch.simps) simp
  from mismatch_le [OF this] True show ?thesis by linarith
next
  case False
  with assms have "mismatch lcs base other (i + 1) j = (i', j')" by (subst (asm) mismatch.simps) (simp split: if_splits)
  moreover have "i < length base" using assms(2) False by auto
  ultimately show ?thesis using mismatch_le [of lcs base other "i + 1" j i' j'] by linarith
qed

function diff_from :: "nat list list \<Rightarrow> string list \<Rightarrow> string list \<Rightarrow> nat \<Rightarrow> nat \<Rightarrow> hunk list" where
  "diff_from lcs base other i j =
     (if \<not> (i < length base \<or> j < length other) then []
      else if matches base other i j then diff_from lcs base other (i + 1) (j + 1)
      else (case mismatch lcs base other i j of (i', j') \<Rightarrow>
        \<lparr>hk_b1 = i, hk_b2 = i', hk_repl = take (j' - j) (drop j other)\<rparr> # diff_from lcs base other i' j'))"
  by pat_completeness auto
termination
proof (relation "measure (\<lambda>(lcs, base, other, i, j). (length base - i) + (length other - j))")
  let ?R = "measure (\<lambda>(lcs :: nat list list, base :: string list, other :: string list, i, j). (length base - i) + (length other - j))"
  show "wf ?R" by simp
  fix lcs :: "nat list list" and base other :: "string list" and i j :: nat
  show "((lcs, base, other, i + 1, j + 1), lcs, base, other, i, j) \<in> ?R" if "matches base other i j"
    using that by (auto simp: matches_def)
  fix i' j'
  assume m: "\<not> \<not> (i < length base \<or> j < length other)" "\<not> matches base other i j" "(i', j') = mismatch lcs base other i j"
  from mismatch_progress [OF m(3) [symmetric]] m(1,2) show "((lcs, base, other, i', j'), lcs, base, other, i, j) \<in> ?R" by simp
qed

declare diff_from.simps [simp del]

definition diff :: "string list \<Rightarrow> string list \<Rightarrow> hunk list" where
  "diff base other = diff_from (lcs_table base other) base other 0 0"

section \<open>Applying a script\<close>

definition slice :: "nat \<Rightarrow> nat \<Rightarrow> 'a list \<Rightarrow> 'a list option" where
  "slice a b xs = (if a \<le> b \<and> b \<le> length xs then Some (take (b - a) (drop a xs)) else None)"

fun applyWithin :: "string list \<Rightarrow> nat \<Rightarrow> nat \<Rightarrow> hunk list \<Rightarrow> string list option" where
  "applyWithin base cur c2 [] = slice cur c2 base"
| "applyWithin base cur c2 (h # hs) =
     (case slice cur (hk_b1 h) base of None \<Rightarrow> None | Some pre \<Rightarrow>
      case applyWithin base (hk_b2 h) c2 hs of None \<Rightarrow> None | Some post \<Rightarrow>
      Some (pre @ hk_repl h @ post))"

text \<open>The scripts the code builds: hunks in order, apart, inside \<open>[c1, c2]\<close>. Between two of
  them lies at least one line of the base.\<close>

fun script :: "nat \<Rightarrow> nat \<Rightarrow> hunk list \<Rightarrow> bool" where
  "script c1 c2 [] \<longleftrightarrow> c1 \<le> c2"
| "script c1 c2 (h # hs) \<longleftrightarrow> c1 \<le> hk_b1 h \<and> hk_b1 h \<le> hk_b2 h \<and> hk_b2 h \<le> c2
     \<and> (hk_b1 h < hk_b2 h \<or> hk_repl h \<noteq> []) \<and> (hs = [] \<or> script (hk_b2 h + 1) c2 hs)"

lemma mismatch_match:
  assumes "mismatch lcs base other i j = (i', j')"
  shows "\<not> (i' < length base \<or> j' < length other) \<or> matches base other i' j'"
  using assms
proof (induction lcs base other i j rule: mismatch.induct)
  case (1 lcs base other i j)
  show ?case
    using "1.prems" "1.IH" by (subst (asm) mismatch.simps) (auto split: if_splits)
qed

text \<open>After a hunk the scripts agree on a line, or both texts end.\<close>

lemma diff_from_script:
  assumes "i \<le> length base" "j \<le> length other"
  shows "script i (length base) (diff_from lcs base other i j)
    \<and> applyWithin base i (length base) (diff_from lcs base other i j) = Some (drop j other)
    \<and> (matches base other i j \<longrightarrow> diff_from lcs base other i j = [] \<or> script (i + 1) (length base) (diff_from lcs base other i j))"
  using assms
proof (induction lcs base other i j rule: diff_from.induct)
  case (1 lcs base other i j)
  let ?D = "diff_from lcs base other"
  consider (ended) "\<not> (i < length base \<or> j < length other)" | (match) "matches base other i j"
    | (hunk) "i < length base \<or> j < length other" "\<not> matches base other i j" by blast
  then show ?case
  proof cases
    case ended
    then have e: "diff_from lcs base other i j = []" by (simp add: diff_from.simps [of lcs base other i j])
    have "matches base other i j \<Longrightarrow> False" using ended by (auto simp: matches_def)
    then show ?thesis using ended "1.prems" unfolding e by (auto simp: slice_def)
  next
    case match
    then have n: "i < length base" "j < length other" "base ! i = other ! j" by (auto simp: matches_def)
    have e: "?D i j = ?D (i + 1) (j + 1)" using match n by (subst diff_from.simps) simp
    have IH: "script (i + 1) (length base) (?D (i + 1) (j + 1))"
      "applyWithin base (i + 1) (length base) (?D (i + 1) (j + 1)) = Some (drop (j + 1) other)"
      using "1.IH"(1) match n by auto
    have "applyWithin base i (length base) (?D (i + 1) (j + 1)) = Some (drop j other)"
    proof (cases "?D (i + 1) (j + 1)")
      case Nil
      with IH(2) have eq: "drop (i + 1) base = drop (j + 1) other" by (simp add: slice_def split: if_splits)
      have "drop i base = drop j other" using eq n Cons_nth_drop_Suc [of i base] Cons_nth_drop_Suc [of j other] by simp
      moreover have "applyWithin base i (length base) [] = Some (drop i base)" using n by (simp add: slice_def)
      ultimately show ?thesis using Nil by metis
    next
      case (Cons h hs)
      with IH(1) have b: "i + 1 \<le> hk_b1 h" "hk_b1 h \<le> length base" by auto
      have "hk_b1 h - i = Suc (hk_b1 h - (i + 1))" using b by simp
      then have tk: "take (hk_b1 h - i) (drop i base) = base ! i # take (hk_b1 h - (i + 1)) (drop (i + 1) base)"
        using n by (simp add: Cons_nth_drop_Suc [symmetric])
      have "drop j other = other ! j # drop (j + 1) other" using n by (simp add: Cons_nth_drop_Suc)
      then show ?thesis using IH(2) b n(3) unfolding Cons by (auto simp: slice_def tk split: option.splits)
    qed
    moreover have "script i (length base) (?D (i + 1) (j + 1))" using IH(1) by (cases "?D (i + 1) (j + 1)") auto
    ultimately show ?thesis unfolding e using IH(1) by blast
  next
    case hunk
    obtain i' j' where m: "mismatch lcs base other i j = (i', j')" by fastforce
    note B = mismatch_bounds [OF m "1.prems"]
    let ?h = "\<lparr>hk_b1 = i, hk_b2 = i', hk_repl = take (j' - j) (drop j other)\<rparr>"
    have e: "?D i j = ?h # ?D i' j'" using hunk m by (subst diff_from.simps) simp
    have IH: "script i' (length base) (?D i' j')" "applyWithin base i' (length base) (?D i' j') = Some (drop j' other)"
      "matches base other i' j' \<longrightarrow> ?D i' j' = [] \<or> script (i' + 1) (length base) (?D i' j')"
      using "1.IH"(2) [of i' j'] hunk m B by auto
    have gap: "?D i' j' = [] \<or> script (i' + 1) (length base) (?D i' j')"
      using mismatch_match [OF m] IH(3) by (auto simp: diff_from.simps [of lcs base other i' j'])
    have "i < i' \<or> j < j'" using mismatch_progress [OF m hunk] B by linarith
    then have "hk_b1 ?h < hk_b2 ?h \<or> hk_repl ?h \<noteq> []" using B by auto
    moreover have "take (j' - j) (drop j other) @ drop j' other = drop j other"
      using B by (metis append_take_drop_id drop_drop le_add_diff_inverse2)
    ultimately show ?thesis unfolding e using IH(2) B gap hunk(2) by (simp add: slice_def)
  qed
qed

section \<open>The table holds the longest common subsequences\<close>

text \<open>The length of a longest common subsequence, by its definition.\<close>

definition common :: "string list \<Rightarrow> string list \<Rightarrow> string list set" where
  "common xs ys = {zs. subseq zs xs \<and> subseq zs ys}"

fun lcs_len :: "string list \<Rightarrow> string list \<Rightarrow> nat" where
  "lcs_len (x # xs) (y # ys) = (if x = y then lcs_len xs ys + 1 else max (lcs_len xs (y # ys)) (lcs_len (x # xs) ys))"
| "lcs_len xs ys = 0"

lemma lcs_len_Nil [simp]: "lcs_len xs [] = 0"
  by (cases xs) simp_all

lemma lcs_len_upper: "zs \<in> common xs ys \<Longrightarrow> length zs \<le> lcs_len xs ys"
proof (induction xs ys arbitrary: zs rule: lcs_len.induct)
  case (1 x xs y ys)
  show ?case
  proof (cases zs)
    case (Cons z zs')
    have s: "subseq (z # zs') (x # xs)" "subseq (z # zs') (y # ys)" using "1.prems" Cons by (auto simp: common_def)
    show ?thesis
    proof (cases "x = y")
      case True
      have "zs' \<in> common xs ys" using s by (auto simp: common_def split: if_splits dest: subseq_Cons')
      with "1.IH"(1) [OF True] show ?thesis using True Cons by simp
    next
      case False
      then have "zs \<in> common xs (y # ys) \<or> zs \<in> common (x # xs) ys"
        using s Cons by (auto simp: common_def split: if_splits)
      with "1.IH"(2,3) [OF False] show ?thesis using False by (fastforce simp: le_max_iff_disj)
    qed
  qed simp
qed (auto simp: common_def)

lemma lcs_len_attained: "\<exists>zs \<in> common xs ys. length zs = lcs_len xs ys"
proof (induction xs ys rule: lcs_len.induct)
  case (1 x xs y ys)
  show ?case
  proof (cases "x = y")
    case True
    from "1.IH"(1) [OF True] obtain zs where "zs \<in> common xs ys" "length zs = lcs_len xs ys" by blast
    then have "x # zs \<in> common (x # xs) (y # ys)" "length (x # zs) = lcs_len (x # xs) (y # ys)" using True by (auto simp: common_def)
    then show ?thesis by blast
  next
    case False
    from "1.IH"(2,3) [OF False] obtain as bs where "as \<in> common xs (y # ys)" "length as = lcs_len xs (y # ys)"
      "bs \<in> common (x # xs) ys" "length bs = lcs_len (x # xs) ys" by blast
    then have "as \<in> common (x # xs) (y # ys)" "bs \<in> common (x # xs) (y # ys)"
      "length as = lcs_len xs (y # ys)" "length bs = lcs_len (x # xs) ys"
      by (auto simp: common_def)
    then show ?thesis using False by (cases "lcs_len xs (y # ys) \<le> lcs_len (x # xs) ys") (auto simp: max_def)
  qed
qed (auto simp: common_def)

lemma common_finite: "finite (common xs ys)"
  by (rule finite_subset [of _ "set (subseqs xs)"]) (auto simp: common_def)

lemma lcs_len_Max: "lcs_len xs ys = Max (length ` common xs ys)"
proof (rule Max_eqI [symmetric])
  show "lcs_len xs ys \<in> length ` common xs ys" using lcs_len_attained [of xs ys] by (metis image_eqI)
qed (auto simp: common_finite lcs_len_upper)

text \<open>A row as a function of its column.\<close>

abbreviation row :: "(nat \<Rightarrow> nat) \<Rightarrow> nat \<Rightarrow> nat list" where
  "row f m \<equiv> map f [0..<Suc m]"

lemma row_Suc: "row f (Suc m) = f 0 # row (\<lambda>j. f (Suc j)) m"
  by (simp add: upt_conv_Cons map_Suc_upt [symmetric] del: upt_Suc)

lemma hd_row: "hd (row f m) = f 0"
  by (simp add: upt_conv_Cons del: upt_Suc)

lemma lcs_row_correct:
  "lcs_row x ys (row (\<lambda>j. lcs_len xs (drop j ys)) (length ys)) = row (\<lambda>j. lcs_len (x # xs) (drop j ys)) (length ys)"
proof (induction ys)
  case (Cons y ys)
  then show ?case
    unfolding list.size(4) add_0_right One_nat_def add_Suc_right row_Suc drop_0 drop_Suc_Cons lcs_row.simps hd_row
    by (simp add: Let_def hd_row max_def del: upt_Suc)
qed simp

lemma lcs_table_correct:
  "i \<le> length base \<Longrightarrow> lcs_table base other ! i = row (\<lambda>j. lcs_len (drop i base) (drop j other)) (length other)"
proof (induction base arbitrary: i)
  case Nil
  have "replicate (Suc (length other)) (0::nat) = row (\<lambda>j. 0) (length other)" by (simp add: map_replicate_const del: upt_Suc)
  with Nil show ?case by (simp del: upt_Suc replicate_Suc)
next
  case (Cons x xs)
  have hd: "hd (lcs_table xs other) = row (\<lambda>j. lcs_len xs (drop j other)) (length other)"
    using Cons.IH [of 0] by (cases xs) (auto simp: Let_def simp del: upt_Suc)
  show ?case
  proof (cases i)
    case 0
    then show ?thesis using lcs_row_correct [of x other xs] by (simp add: Let_def hd del: upt_Suc)
  next
    case (Suc k)
    then show ?thesis using Cons by (simp add: Let_def del: upt_Suc)
  qed
qed

section \<open>Merging\<close>

definition overlaps :: "hunk \<Rightarrow> hunk \<Rightarrow> bool" where
  "overlaps a b \<longleftrightarrow> (hk_b1 a < hk_b2 b \<and> hk_b1 b < hk_b2 a)
     \<or> (hk_b1 a = hk_b1 b \<and> (hk_b1 a = hk_b2 a \<or> hk_b1 b = hk_b2 b))"

abbreviation region :: "nat \<Rightarrow> nat \<Rightarrow> hunk" where
  "region c1 c2 \<equiv> \<lparr>hk_b1 = c1, hk_b2 = c2, hk_repl = []\<rparr>"

text \<open>The hunks of one side that the growing range takes, those left, and the range's end.\<close>

fun absorb_side :: "nat \<Rightarrow> nat \<Rightarrow> hunk list \<Rightarrow> hunk list \<times> hunk list \<times> nat" where
  "absorb_side c1 c2 [] = ([], [], c2)"
| "absorb_side c1 c2 (h # hs) =
     (if overlaps h (region c1 c2)
      then (case absorb_side c1 (if c2 < hk_b2 h then hk_b2 h else c2) hs of (t, r, c) \<Rightarrow> (h # t, r, c))
      else ([], h # hs, c2))"

lemma absorb_side_append: "absorb_side c1 c2 hs = (t, r, c) \<Longrightarrow> hs = t @ r"
  by (induction c1 c2 hs arbitrary: t r c rule: absorb_side.induct) (auto split: if_splits prod.splits)

function absorb :: "nat \<Rightarrow> nat \<Rightarrow> hunk list \<Rightarrow> hunk list \<Rightarrow> hunk list \<times> hunk list \<times> hunk list \<times> hunk list \<times> nat" where
  "absorb c1 c2 ls hs =
     (case absorb_side c1 c2 ls of (lt, lr, c) \<Rightarrow>
      case absorb_side c1 c hs of (ht, hr, c') \<Rightarrow>
      if lt = [] \<and> ht = [] then ([], lr, [], hr, c')
      else (case absorb c1 c' lr hr of (lt', lr', ht', hr', c'') \<Rightarrow> (lt @ lt', lr', ht @ ht', hr', c'')))"
  by pat_completeness auto
termination
  by (relation "measure (\<lambda>(c1, c2, ls, hs). length ls + length hs)")
     (simp, auto dest!: sym [of _ "absorb_side _ _ _"] absorb_side_append)

declare absorb.simps [simp del]

text \<open>One cluster of the output, and whether it is a conflict.\<close>

definition cluster :: "string \<Rightarrow> string \<Rightarrow> bool \<Rightarrow> bool \<Rightarrow> string list \<Rightarrow> string list \<Rightarrow> string list \<times> nat" where
  "cluster ll hl noLocal noHub lSide hSide =
     (if noLocal then (hSide, 0) else if noHub then (lSide, 0) else if lSide = hSide then (lSide, 0)
      else ((''<<<<<<< '' @ ll) # lSide @ [''======='' ] @ hSide @ [''>>>>>>> '' @ hl], 1))"

text \<open>The loop ends because a cluster takes at least the hunk that opens it; that is a theorem
  below, not part of the definition.\<close>

partial_function (option) merge_from ::
  "string list \<Rightarrow> string \<Rightarrow> string \<Rightarrow> nat \<Rightarrow> hunk list \<Rightarrow> hunk list \<Rightarrow> (string list \<times> nat) option" where
  "merge_from base ll hl pos ls hs =
     (if ls = [] \<and> hs = [] then map_option (\<lambda>t. (t, 0)) (slice pos (length base) base)
      else let h = (if hs = [] \<or> (ls \<noteq> [] \<and> hk_b1 (hd ls) \<le> hk_b1 (hd hs)) then hd ls else hd hs); c1 = hk_b1 h in
      case absorb c1 (hk_b2 h) ls hs of (lt, lr, ht, hr, c2) \<Rightarrow>
      case slice pos c1 base of None \<Rightarrow> None | Some pre \<Rightarrow>
      case applyWithin base c1 c2 lt of None \<Rightarrow> None | Some lSide \<Rightarrow>
      case applyWithin base c1 c2 ht of None \<Rightarrow> None | Some hSide \<Rightarrow>
      case cluster ll hl (lt = []) (ht = []) lSide hSide of (mid, k) \<Rightarrow>
      Option.bind (merge_from base ll hl c2 lr hr) (\<lambda>(rest, n). Some (pre @ mid @ rest, k + n)))"

declare merge_from.simps [code]

record Result =
  mr_Lines :: "string list"
  mr_Conflicts :: nat

definition Merge :: "string list \<Rightarrow> string list \<Rightarrow> string list \<Rightarrow> string \<Rightarrow> string \<Rightarrow> (string + Result) option" where
  "Merge base local hub localLabel hubLabel =
     (if MaxLines < length base \<or> MaxLines < length local \<or> MaxLines < length hub
      then Some (Inl ''inputs exceed 4000 lines; merge by hand'')
      else map_option (\<lambda>(t, n). Inr \<lparr>mr_Lines = t, mr_Conflicts = n\<rparr>)
        (merge_from base localLabel hubLabel 0 (diff base local) (diff base hub)))"

section \<open>A cluster\<close>

lemma script_within: "script c1 n hs \<Longrightarrow> c2 \<le> length base \<Longrightarrow> n \<le> c2 \<Longrightarrow> applyWithin base c1 c2 hs \<noteq> None"
  by (induction base c1 c2 hs rule: applyWithin.induct) (auto simp: slice_def split: option.splits if_splits elim: script.elims)

lemma script_empty: "script c1 c2 hs \<Longrightarrow> c1 \<le> c2"
  by (induction c1 c2 hs rule: script.induct) auto

lemma script_tail: "script c n hs \<Longrightarrow> hs \<noteq> [] \<longrightarrow> b \<le> hk_b1 (hd hs) \<Longrightarrow> b \<le> n \<Longrightarrow> script b n hs"
  by (cases hs) auto

lemma script_take: "script c1 n (t @ r) \<Longrightarrow> \<forall>h \<in> set t. hk_b2 h \<le> c \<Longrightarrow> t \<noteq> [] \<or> c1 \<le> c \<Longrightarrow> script c1 c t"
  by (induction t arbitrary: c1) auto

lemma script_lower: "script b n hs \<Longrightarrow> a \<le> b \<Longrightarrow> script a n hs"
  by (cases hs) auto

lemma script_drop: "script c1 n (t @ r) \<Longrightarrow> r = [] \<or> script c1 n r"
proof (induction t arbitrary: c1)
  case (Cons a t)
  then have "t @ r = [] \<or> script (hk_b2 a + 1) n (t @ r)" "c1 \<le> hk_b2 a + 1" by auto
  with Cons.IH [of "hk_b2 a + 1"] script_lower [of "hk_b2 a + 1" n r c1] show ?case by auto
qed simp

lemma script_head: "script c1 n hs \<Longrightarrow> hs \<noteq> [] \<Longrightarrow> c1 \<le> hk_b1 (hd hs) \<and> hk_b1 (hd hs) \<le> hk_b2 (hd hs) \<and> hk_b2 (hd hs) \<le> n"
  by (cases hs) auto

text \<open>Where a growing range stops on one side.\<close>

definition stops :: "nat \<Rightarrow> nat \<Rightarrow> hunk list \<Rightarrow> bool" where
  "stops c1 c2 hs \<longleftrightarrow> hs \<noteq> [] \<longrightarrow> \<not> overlaps (hd hs) (region c1 c2)"

lemma stops_after: "stops c1 c2 hs \<Longrightarrow> script c1 n hs \<Longrightarrow> hs \<noteq> [] \<longrightarrow> c2 \<le> hk_b1 (hd hs)"
  by (cases hs) (auto simp: stops_def overlaps_def)

lemma overlaps_mono: "overlaps h (region c1 c2) \<Longrightarrow> c2 \<le> c \<Longrightarrow> hk_b1 h \<le> hk_b2 h \<Longrightarrow> overlaps h (region c1 c)"
  by (auto simp: overlaps_def)

lemma absorb_side_spec:
  "absorb_side c1 c2 hs = (t, r, c) \<Longrightarrow> c2 \<le> c \<and> (\<forall>h \<in> set t. hk_b2 h \<le> c) \<and> stops c1 c r
     \<and> (t = [] \<longrightarrow> c = c2) \<and> (t \<noteq> [] \<longrightarrow> (\<exists>h \<in> set t. c = c2 \<or> c = hk_b2 h))"
  by (induction c1 c2 hs arbitrary: t r c rule: absorb_side.induct)
     (fastforce simp: stops_def split: if_splits prod.splits)+

lemma absorb_spec:
  "absorb c1 c2 ls hs = (lt, lr, ht, hr, c) \<Longrightarrow> ls = lt @ lr \<and> hs = ht @ hr \<and> c2 \<le> c
     \<and> (\<forall>h \<in> set (lt @ ht). hk_b2 h \<le> c) \<and> stops c1 c lr \<and> stops c1 c hr
     \<and> (c = c2 \<or> (\<exists>h \<in> set (lt @ ht). c = hk_b2 h))"
proof (induction c1 c2 ls hs arbitrary: lt lr ht hr c rule: absorb.induct)
  case (1 c1 c2 ls hs)
  obtain a b x where A: "absorb_side c1 c2 ls = (a, b, x)" by (cases "absorb_side c1 c2 ls")
  obtain a' b' x' where B: "absorb_side c1 x hs = (a', b', x')" by (cases "absorb_side c1 x hs")
  note S = absorb_side_spec [OF A] absorb_side_append [OF A] absorb_side_spec [OF B] absorb_side_append [OF B]
  show ?case
  proof (cases "a = [] \<and> a' = []")
    case True
    then have "absorb c1 c2 ls hs = ([], b, [], b', x')" by (simp add: absorb.simps [of c1 c2 ls hs] A B)
    with "1.prems" S True show ?thesis by auto
  next
    case False
    obtain p q p' q' y where R: "absorb c1 x' b b' = (p, q, p', q', y)" by (cases "absorb c1 x' b b'")
    note I = "1.IH" [OF A [symmetric] refl B [symmetric] refl False R]
    have "lt = a @ p" "lr = q" "ht = a' @ p'" "hr = q'" "c = y" using "1.prems" False by (auto simp: absorb.simps [of c1 c2] A B R)
    then show ?thesis using I S by (auto intro: le_trans)
  qed
qed

lemma absorb_takes:
  assumes "absorb c1 c2 ls hs = (lt, lr, ht, hr, c)" "\<forall>h \<in> set (ls @ hs). hk_b1 h \<le> hk_b2 h"
    and "ls \<noteq> [] \<and> overlaps (hd ls) (region c1 c2) \<or> hs \<noteq> [] \<and> overlaps (hd hs) (region c1 c2)"
  shows "lt \<noteq> [] \<or> ht \<noteq> []"
proof (rule ccontr)
  assume no: "\<not> (lt \<noteq> [] \<or> ht \<noteq> [])"
  with absorb_spec [OF assms(1)] have "stops c1 c ls" "stops c1 c hs" "c2 \<le> c" by auto
  then show False using assms(2,3) overlaps_mono [of _ c1 c2 c] unfolding stops_def
    by (metis hd_in_set in_set_conv_decomp list.set_sel(1) set_append UnCI)
qed

text \<open>The opener of a cluster, and what the cluster leaves for the rest of the merge.\<close>

definition opener :: "hunk list \<Rightarrow> hunk list \<Rightarrow> hunk" where
  "opener ls hs = (if hs = [] \<or> (ls \<noteq> [] \<and> hk_b1 (hd ls) \<le> hk_b1 (hd hs)) then hd ls else hd hs)"

definition edits :: "nat \<Rightarrow> nat \<Rightarrow> hunk list \<Rightarrow> bool" where
  "edits p n hs \<longleftrightarrow> p \<le> n \<and> (hs = [] \<or> script p n hs)"

lemma edits_ordered: "edits p n hs \<Longrightarrow> h \<in> set hs \<Longrightarrow> hk_b1 h \<le> hk_b2 h \<and> hk_b2 h \<le> n"
proof -
  have "script p n hs \<Longrightarrow> \<forall>h \<in> set hs. hk_b1 h \<le> hk_b2 h \<and> hk_b2 h \<le> n" for p
    by (induction hs arbitrary: p) auto
  then show "edits p n hs \<Longrightarrow> h \<in> set hs \<Longrightarrow> hk_b1 h \<le> hk_b2 h \<and> hk_b2 h \<le> n" by (auto simp: edits_def)
qed

lemma opener_first:
  assumes "edits p n ls" "edits p n hs" "ls \<noteq> [] \<or> hs \<noteq> []" "o' = opener ls hs"
  shows "p \<le> hk_b1 o' \<and> hk_b1 o' \<le> hk_b2 o' \<and> hk_b2 o' \<le> n \<and> edits (hk_b1 o') n ls \<and> edits (hk_b1 o') n hs
    \<and> (ls \<noteq> [] \<and> o' = hd ls \<or> hs \<noteq> [] \<and> o' = hd hs)"
proof -
  have L: "ls \<noteq> [] \<longrightarrow> p \<le> hk_b1 (hd ls) \<and> hk_b1 (hd ls) \<le> hk_b2 (hd ls) \<and> hk_b2 (hd ls) \<le> n"
    and H: "hs \<noteq> [] \<longrightarrow> p \<le> hk_b1 (hd hs) \<and> hk_b1 (hd hs) \<le> hk_b2 (hd hs) \<and> hk_b2 (hd hs) \<le> n"
    using assms(1,2) script_head by (auto simp: edits_def)
  have o: "hk_b1 o' \<le> n" "ls \<noteq> [] \<longrightarrow> hk_b1 o' \<le> hk_b1 (hd ls)" "hs \<noteq> [] \<longrightarrow> hk_b1 o' \<le> hk_b1 (hd hs)"
    using L H assms(3,4) by (auto simp: opener_def split: if_splits)
  then have "edits (hk_b1 o') n ls" "edits (hk_b1 o') n hs"
    using assms(1,2) script_tail by (auto simp: edits_def)
  then show ?thesis using L H assms(3,4) by (auto simp: opener_def split: if_splits)
qed

lemma edits_rest: "edits c1 n (t @ r) \<Longrightarrow> stops c1 c2 r \<Longrightarrow> c2 \<le> n \<Longrightarrow> edits c2 n r"
  by (auto simp: edits_def dest!: script_drop dest: stops_after intro: script_tail)

lemma edits_within:
  assumes "edits c1 n (t @ r)" "\<forall>h \<in> set t. hk_b2 h \<le> c2" "c1 \<le> c2" "c2 \<le> n" "n = length base"
  shows "applyWithin base c1 c2 t \<noteq> None"
proof -
  have "script c1 c2 t" using assms(1-3) script_take [of c1 n t r c2] by (cases "t = []") (auto simp: edits_def)
  then show ?thesis using assms(4,5) script_within [of c1 c2 t c2 base] by simp
qed

lemma cluster_step:
  assumes "edits p n ls" "edits p n hs" "ls \<noteq> [] \<or> hs \<noteq> []" "n = length base"
    and A: "absorb (hk_b1 (opener ls hs)) (hk_b2 (opener ls hs)) ls hs = (lt, lr, ht, hr, c2)"
  shows "edits c2 n lr \<and> edits c2 n hr \<and> length lr + length hr < length ls + length hs
    \<and> slice p (hk_b1 (opener ls hs)) base \<noteq> None
    \<and> applyWithin base (hk_b1 (opener ls hs)) c2 lt \<noteq> None \<and> applyWithin base (hk_b1 (opener ls hs)) c2 ht \<noteq> None"
proof -
  let ?h = "opener ls hs"
  note O = opener_first [OF assms(1-3) refl]
  note S = absorb_spec [OF A]
  have b: "\<forall>h \<in> set (ls @ hs). hk_b1 h \<le> hk_b2 h \<and> hk_b2 h \<le> n" using assms(1,2) edits_ordered by fastforce
  then have c: "c2 \<le> n" using S O by auto
  have c1: "hk_b1 ?h \<le> c2" using S O by linarith
  have "overlaps ?h (region (hk_b1 ?h) (hk_b2 ?h))" using O by (auto simp: overlaps_def)
  then have "lt \<noteq> [] \<or> ht \<noteq> []" using absorb_takes [OF A] b O by fastforce
  then have "length lr + length hr < length ls + length hs" using S by auto
  moreover have "edits c2 n lr" "edits c2 n hr" using S O c edits_rest by metis+
  moreover have "applyWithin base (hk_b1 ?h) c2 lt \<noteq> None" "applyWithin base (hk_b1 ?h) c2 ht \<noteq> None"
    using S O c c1 assms(4) edits_within [of "hk_b1 ?h" n lt lr c2 base] edits_within [of "hk_b1 ?h" n ht hr c2 base] by auto
  moreover have "slice p (hk_b1 ?h) base \<noteq> None" using O assms(4) by (auto simp: slice_def)
  ultimately show ?thesis by blast
qed

lemma merge_from_returns:
  assumes "edits p (length base) ls" "edits p (length base) hs"
  shows "\<exists>t k. merge_from base a b p ls hs = Some (t, k)"
  using assms
proof (induction "length ls + length hs" arbitrary: p ls hs rule: less_induct)
  case less
  show ?case
  proof (cases "ls = [] \<and> hs = []")
    case True
    then show ?thesis using less.prems by (subst merge_from.simps) (simp add: slice_def edits_def)
  next
    case False
    obtain lt lr ht hr c2 where A: "absorb (hk_b1 (opener ls hs)) (hk_b2 (opener ls hs)) ls hs = (lt, lr, ht, hr, c2)"
      by (metis prod_cases5)
    note C = cluster_step [OF less.prems _ refl A]
    have C: "edits c2 (length base) lr \<and> edits c2 (length base) hr \<and> length lr + length hr < length ls + length hs
      \<and> slice p (hk_b1 (opener ls hs)) base \<noteq> None
      \<and> applyWithin base (hk_b1 (opener ls hs)) c2 lt \<noteq> None \<and> applyWithin base (hk_b1 (opener ls hs)) c2 ht \<noteq> None"
      using C False by blast
    then obtain t k where "merge_from base a b c2 lr hr = Some (t, k)" using less.hyps by blast
    then show ?thesis using C False A
      by (subst merge_from.simps) (auto simp: opener_def [symmetric] Let_def split: prod.splits)
  qed
qed

lemma diff_edits: "edits 0 (length base) (diff base other)"
  using diff_from_script [of 0 base 0 other "lcs_table base other"] by (simp add: edits_def diff_def)

section \<open>One side unchanged, or both the same\<close>

text \<open>Two hunks of one script are apart, so a script's own hunk is a cluster of its own.\<close>

lemma own_overlap: "script p n (h # r) \<Longrightarrow> overlaps h (region (hk_b1 h) (hk_b2 h))"
  by (auto simp: overlaps_def)

lemma own_cluster:
  assumes "script p n (h # r)"
  shows "absorb_side (hk_b1 h) (hk_b2 h) (h # r) = ([h], r, hk_b2 h)" "absorb_side (hk_b1 h) (hk_b2 h) r = ([], r, hk_b2 h)"
proof -
  show g: "absorb_side (hk_b1 h) (hk_b2 h) r = ([], r, hk_b2 h)"
    using assms by (cases r) (auto simp: overlaps_def)
  show "absorb_side (hk_b1 h) (hk_b2 h) (h # r) = ([h], r, hk_b2 h)" using g own_overlap [OF assms] by simp
qed

lemma absorb_one:
  assumes "script p n (h # r)"
  shows "absorb (hk_b1 h) (hk_b2 h) (h # r) [] = ([h], r, [], [], hk_b2 h)"
    and "absorb (hk_b1 h) (hk_b2 h) [] (h # r) = ([], [], [h], r, hk_b2 h)"
    and "absorb (hk_b1 h) (hk_b2 h) (h # r) (h # r) = ([h], r, [h], r, hk_b2 h)"
  by (simp_all add: absorb.simps own_cluster [OF assms] own_overlap [OF assms])

lemma own_region: "script p n (h # r) \<Longrightarrow> n \<le> length base \<Longrightarrow> applyWithin base (hk_b1 h) (hk_b2 h) [h] = Some (hk_repl h)"
  by (simp add: slice_def)

lemma applyWithin_empty: "c1 \<le> c2 \<Longrightarrow> c2 \<le> length base \<Longrightarrow> applyWithin base c1 c2 [] \<noteq> None"
  by (simp add: slice_def)

lemma edits_next: "script p n (h # r) \<Longrightarrow> edits (hk_b2 h) n r"
  by (auto simp: edits_def intro: script_lower)

lemma merge_alone:
  assumes "edits p (length base) hs"
  shows "merge_from base a b p hs [] = map_option (\<lambda>t. (t, 0)) (applyWithin base p (length base) hs)
    \<and> merge_from base a b p [] hs = map_option (\<lambda>t. (t, 0)) (applyWithin base p (length base) hs)
    \<and> merge_from base a b p hs hs = map_option (\<lambda>t. (t, 0)) (applyWithin base p (length base) hs)"
  using assms
proof (induction hs arbitrary: p)
  case Nil
  then show ?case by (subst (1 2 3) merge_from.simps) simp
next
  case (Cons h r)
  then have s: "script p (length base) (h # r)" by (simp add: edits_def)
  obtain x where x: "applyWithin base (hk_b1 h) (hk_b2 h) [] = Some x"
    using s applyWithin_empty [of "hk_b1 h" "hk_b2 h" base] by auto
  note M = merge_from.simps [where ls = "h # r" and hs = "[]"] merge_from.simps [where ls = "[]" and hs = "h # r"]
    merge_from.simps [where ls = "h # r" and hs = "h # r"]
  have R: "applyWithin base p (length base) (h # r) = (case slice p (hk_b1 h) base of None \<Rightarrow> None | Some pre \<Rightarrow>
      case applyWithin base (hk_b2 h) (length base) r of None \<Rightarrow> None | Some post \<Rightarrow> Some (pre @ hk_repl h @ post))" by simp
  show ?case
    using Cons.IH [OF edits_next [OF s]] own_region [OF s]
    by (simp add: M absorb_one [OF s] x R cluster_def Let_def del: applyWithin.simps split: option.split)
qed

lemma apply_diff: "applyWithin base 0 (length base) (diff base other) = Some other"
  using diff_from_script [of 0 base 0 other "lcs_table base other"] by (simp add: diff_def)

lemma diff_same: "diff base base = []"
proof -
  have "i \<le> length base \<Longrightarrow> diff_from t base base i i = []" for i t
  proof (induction "length base - i" arbitrary: i)
    case (Suc k)
    then show ?case by (subst diff_from.simps) (auto simp: matches_def)
  qed (subst diff_from.simps, simp)
  then show ?thesis by (simp add: diff_def)
qed

section \<open>The sides are interchangeable\<close>

text \<open>A cluster is the least range around its opener that no remaining hunk overlaps.\<close>

lemma absorb_side_least:
  "absorb_side c1 c2 hs = (t, r, c) \<Longrightarrow> hs = C @ D \<Longrightarrow> c2 \<le> c' \<Longrightarrow> \<forall>h \<in> set C. hk_b2 h \<le> c' \<Longrightarrow> stops c1 c' D
    \<Longrightarrow> \<forall>h \<in> set hs. hk_b1 h \<le> hk_b2 h \<Longrightarrow> (\<exists>u. C = t @ u) \<and> c \<le> c'"
proof (induction c1 c2 hs arbitrary: t r c C rule: absorb_side.induct)
  case (2 c1 c2 h hs)
  show ?case
  proof (cases "overlaps h (region c1 c2)")
    case True
    have "C \<noteq> []" using "2.prems"(2-6) overlaps_mono [OF True, of c'] by (auto simp: stops_def)
    then obtain C' where C: "C = h # C'" using "2.prems"(2) by (cases C) auto
    obtain t' r' x where R: "absorb_side c1 (if c2 < hk_b2 h then hk_b2 h else c2) hs = (t', r', x)" by (metis prod_cases3)
    have "(\<exists>u. C' = t' @ u) \<and> x \<le> c'" using "2.prems" C by (intro "2.IH" [OF True R]) auto
    then show ?thesis using "2.prems"(1) True R C by auto
  next
    case False
    then have "t = []" "c = c2" using "2.prems"(1) by auto
    then show ?thesis using "2.prems"(3) by simp
  qed
qed auto

lemma absorb_least:
  "absorb c1 c2 ls hs = (lt, lr, ht, hr, c) \<Longrightarrow> ls = A @ B \<Longrightarrow> hs = C @ D \<Longrightarrow> c2 \<le> c'
    \<Longrightarrow> \<forall>h \<in> set (A @ C). hk_b2 h \<le> c' \<Longrightarrow> stops c1 c' B \<Longrightarrow> stops c1 c' D \<Longrightarrow> \<forall>h \<in> set (ls @ hs). hk_b1 h \<le> hk_b2 h
    \<Longrightarrow> (\<exists>u. A = lt @ u) \<and> (\<exists>v. C = ht @ v) \<and> c \<le> c'"
proof (induction c1 c2 ls hs arbitrary: lt lr ht hr c A C rule: absorb.induct)
  case (1 c1 c2 ls hs)
  note ps = "1.prems"
  obtain a b x where P: "absorb_side c1 c2 ls = (a, b, x)" by (cases "absorb_side c1 c2 ls")
  obtain a' b' x' where Q: "absorb_side c1 x hs = (a', b', x')" by (cases "absorb_side c1 x hs")
  have p: "(\<exists>u. A = a @ u) \<and> x \<le> c'" using ps by (intro absorb_side_least [OF P ps(2)]) auto
  then have q: "(\<exists>u. C = a' @ u) \<and> x' \<le> c'" using ps by (intro absorb_side_least [OF Q ps(3)]) auto
  from p q obtain u v where uv: "A = a @ u" "C = a' @ v" by blast
  have rest: "b = u @ B" "b' = v @ D" using absorb_side_append [OF P] absorb_side_append [OF Q] ps uv by auto
  show ?case
  proof (cases "a = [] \<and> a' = []")
    case True
    then have "absorb c1 c2 ls hs = ([], b, [], b', x')" by (simp add: absorb.simps [of c1 c2 ls hs] P Q)
    then show ?thesis using ps(1) q by auto
  next
    case False
    obtain lt' lr' ht' hr' y where R: "absorb c1 x' b b' = (lt', lr', ht', hr', y)" by (metis prod_cases5)
    have "(\<exists>w. u = lt' @ w) \<and> (\<exists>w. v = ht' @ w) \<and> y \<le> c'"
      using ps uv rest q by (intro "1.IH" [OF P [symmetric] refl Q [symmetric] refl False R]) auto
    moreover have "lt = a @ lt'" "ht = a' @ ht'" "c = y" using ps(1) False by (auto simp: absorb.simps [of c1 c2 ls hs] P Q R)
    ultimately show ?thesis using uv by auto
  qed
qed

lemma opener_taken:
  assumes "absorb c1 c2 ls hs = (lt, lr, ht, hr, c)" "hs \<noteq> []" "hk_b1 (hd hs) = c1" "c1 \<le> c2" "c1 \<le> hk_b2 (hd hs)"
  shows "hk_b2 (hd hs) \<le> c"
proof -
  note S = absorb_spec [OF assms(1)]
  have "ht \<noteq> []"
  proof
    assume "ht = []"
    with S assms(2) have "\<not> overlaps (hd hs) (region c1 c)" "c2 \<le> c" by (auto simp: stops_def)
    then show False using assms(3-5) by (auto simp: overlaps_def)
  qed
  then show ?thesis using S by auto
qed

lemma absorb_swap:
  assumes "edits p n ls" "edits p n hs" "ls \<noteq> [] \<or> hs \<noteq> []"
    and A: "absorb (hk_b1 (opener ls hs)) (hk_b2 (opener ls hs)) ls hs = (lt, lr, ht, hr, c)"
  shows "hk_b1 (opener hs ls) = hk_b1 (opener ls hs)
    \<and> absorb (hk_b1 (opener hs ls)) (hk_b2 (opener hs ls)) hs ls = (ht, hr, lt, lr, c)"
proof -
  let ?o = "opener ls hs" and ?p = "opener hs ls"
  obtain ht' hr' lt' lr' c' where B: "absorb (hk_b1 ?p) (hk_b2 ?p) hs ls = (ht', hr', lt', lr', c')" by (metis prod_cases5)
  note O = opener_first [OF assms(1-3) refl] and P = opener_first [OF assms(2,1) _ refl]
  have b: "\<forall>h \<in> set (ls @ hs). hk_b1 h \<le> hk_b2 h" using assms(1,2) edits_ordered by fastforce
  have e: "hk_b1 ?p = hk_b1 ?o" using assms(3) by (auto simp: opener_def)
  note S = absorb_spec [OF A] and T = absorb_spec [OF B]
  have ord: "hk_b1 ?o \<le> hk_b2 ?o" "hk_b1 ?p \<le> hk_b2 ?p" using O P assms(3) by blast+
  have o: "hk_b2 ?o \<le> c'"
  proof (cases "?p = ?o")
    case False
    then have ne: "ls \<noteq> []" and hd: "hd ls = ?o" by (auto simp: opener_def split: if_splits)
    show ?thesis using opener_taken [OF B ne] hd ord e by simp
  next
    case True
    have "hk_b2 ?p \<le> c'" using T by blast
    then show ?thesis using True by metis
  qed
  have q: "hk_b2 ?p \<le> c"
  proof (cases "?p = ?o")
    case False
    then have ne: "hs \<noteq> []" and hd: "hd hs = ?p" by (auto simp: opener_def split: if_splits)
    show ?thesis using opener_taken [OF A ne] hd ord e by simp
  next
    case True
    have "hk_b2 ?o \<le> c" using S by blast
    then show ?thesis using True by metis
  qed
  have "(\<exists>u. lt' = lt @ u) \<and> (\<exists>v. ht' = ht @ v) \<and> c \<le> c'"
  proof (rule absorb_least [OF A])
    show "ls = lt' @ lr'" "hs = ht' @ hr'" "stops (hk_b1 ?o) c' lr'" "stops (hk_b1 ?o) c' hr'" using T unfolding e by blast+
    show "\<forall>h \<in> set (lt' @ ht'). hk_b2 h \<le> c'" using T by auto
  qed (rule o, rule b)
  moreover have "(\<exists>u. ht = ht' @ u) \<and> (\<exists>v. lt = lt' @ v) \<and> c' \<le> c"
  proof (rule absorb_least [OF B])
    show "hs = ht @ hr" "ls = lt @ lr" "stops (hk_b1 ?p) c lr" "stops (hk_b1 ?p) c hr" using S unfolding e by blast+
    show "\<forall>h \<in> set (ht @ lt). hk_b2 h \<le> c" using S by auto
    show "\<forall>h \<in> set (hs @ ls). hk_b1 h \<le> hk_b2 h" using b by auto
  qed (rule q)
  ultimately have "lt' = lt" "ht' = ht" "c' = c" by auto
  then show ?thesis using e B S T by auto
qed

lemma cluster_swap: "\<not> (x \<and> y) \<Longrightarrow> cluster a b x y ls hs = (m, k) \<Longrightarrow> \<exists>m'. cluster b a y x hs ls = (m', k) \<and> (k = 0 \<longrightarrow> m' = m)"
  by (auto simp: cluster_def split: if_splits)

lemma merge_from_swap:
  assumes "edits p (length base) ls" "edits p (length base) hs"
  shows "\<exists>t t' k. merge_from base a b p ls hs = Some (t, k) \<and> merge_from base b a p hs ls = Some (t', k) \<and> (k = 0 \<longrightarrow> t' = t)"
  using assms
proof (induction "length ls + length hs" arbitrary: p ls hs rule: less_induct)
  case less
  show ?case
  proof (cases "ls = [] \<and> hs = []")
    case True
    then show ?thesis using less.prems by (subst (1 2) merge_from.simps) (simp add: slice_def edits_def)
  next
    case False
    let ?c1 = "hk_b1 (opener ls hs)"
    obtain lt lr ht hr c2 where A: "absorb ?c1 (hk_b2 (opener ls hs)) ls hs = (lt, lr, ht, hr, c2)"
      by (metis prod_cases5)
    have ne: "ls \<noteq> [] \<or> hs \<noteq> []" using False by blast
    note C = cluster_step [OF less.prems ne refl A] and W = absorb_swap [OF less.prems ne A]
    then have L: "length lr + length hr < length ls + length hs" "\<not> (lt = [] \<and> ht = [])"
      using absorb_spec [OF A] by auto
    obtain t t' k where R: "merge_from base a b c2 lr hr = Some (t, k)" "merge_from base b a c2 hr lr = Some (t', k)" "k = 0 \<longrightarrow> t' = t"
      using less.hyps [OF L(1)] C by blast
    obtain pre lS hS where S: "slice p ?c1 base = Some pre" "applyWithin base ?c1 c2 lt = Some lS" "applyWithin base ?c1 c2 ht = Some hS"
      using C by blast
    obtain m j where M: "cluster a b (lt = []) (ht = []) lS hS = (m, j)" by fastforce
    then obtain m' where M': "cluster b a (ht = []) (lt = []) hS lS = (m', j)" "j = 0 \<longrightarrow> m' = m" using cluster_swap [OF L(2) M] by blast
    have nb: "(ls = [] \<and> hs = []) = False" "(hs = [] \<and> ls = []) = False" using ne by auto
    have E: "merge_from base a b p ls hs = Some (pre @ m @ t, j + k)"
      by (subst merge_from.simps) (simp only: nb if_False opener_def [symmetric] Let_def A S M R(1) prod.case option.case bind.bind_lunit)
    have V: "hk_b1 (opener hs ls) = ?c1" "absorb ?c1 (hk_b2 (opener hs ls)) hs ls = (ht, hr, lt, lr, c2)" using W by metis+
    have E': "merge_from base b a p hs ls = Some (pre @ m' @ t', j + k)"
      by (subst merge_from.simps) (simp only: nb if_False opener_def [symmetric] Let_def V S M' R(2) prod.case option.case bind.bind_lunit)
    show ?thesis using E E' M'(2) R(3) by auto
  qed
qed

section \<open>Texts\<close>

definition newline :: char where "newline = CHR 0x0A"

definition TrimSuffix_nl :: "string \<Rightarrow> string" where
  "TrimSuffix_nl s = (if s \<noteq> [] \<and> last s = newline then butlast s else s)"

text \<open>\<open>strings.Split\<close> and \<open>strings.Join\<close> at line breaks.\<close>

fun Split_nl :: "string \<Rightarrow> string list" where
  "Split_nl [] = [[]]"
| "Split_nl (c # cs) = (if c = newline then [] # Split_nl cs else (c # hd (Split_nl cs)) # tl (Split_nl cs))"

fun Join_nl :: "string list \<Rightarrow> string" where
  "Join_nl [] = []"
| "Join_nl [l] = l"
| "Join_nl (l # ls) = l @ newline # Join_nl ls"

definition splitLines :: "string \<Rightarrow> string list" where
  "splitLines s = (if s = [] then [] else Split_nl (TrimSuffix_nl s))"

definition MergeText :: "string \<Rightarrow> string \<Rightarrow> string \<Rightarrow> string \<Rightarrow> string \<Rightarrow> (string + string \<times> nat) option" where
  "MergeText base local hub localLabel hubLabel =
     (case Merge (splitLines base) (splitLines local) (splitLines hub) localLabel hubLabel of
        None \<Rightarrow> None
      | Some (Inl e) \<Rightarrow> Some (Inl e)
      | Some (Inr r) \<Rightarrow> Some (Inr (if mr_Lines r = [] then [] else Join_nl (mr_Lines r) @ [newline], mr_Conflicts r)))"

lemma Split_nl_ne [simp]: "Split_nl s \<noteq> []"
  by (cases s) simp_all

lemma Join_nl_cons: "Join_nl ((c # l) # ls) = c # Join_nl (l # ls)"
  by (cases ls) simp_all

lemma Join_Split: "Join_nl (Split_nl s) = s"
proof (induction s)
  case (Cons c cs)
  obtain l ls where S: "Split_nl cs = l # ls" by (meson Split_nl_ne neq_Nil_conv)
  then show ?case using Cons by (auto simp: Join_nl_cons)
qed simp

lemma splitLines_Join:
  assumes "s = [] \<or> last s = newline"
  shows "(if splitLines s = [] then [] else Join_nl (splitLines s) @ [newline]) = s"
proof (cases "s = []")
  case False
  then have "butlast s @ [newline] = s" using assms by (metis append_butlast_last_id)
  then show ?thesis using False assms by (simp add: splitLines_def TrimSuffix_nl_def Join_Split)
qed (simp add: splitLines_def)

section \<open>Properties\<close>

lemmas Merge_simps = Merge_def apply_diff diff_same merge_alone [OF diff_edits]

text \<open>C32: Round trip: the edit script of two texts, applied to the first, gives the second, and
  it is well formed: its hunks lie in the text, in order, none empty, with an unchanged line between
  any two.\<close>

theorem edit_script_roundtrip:
  "applyWithin base 0 (length base) (diff base other) = Some other \<and> script 0 (length base) (diff base other)"
  using diff_from_script [of 0 base 0 other "lcs_table base other"] by (simp add: diff_def)

text \<open>The dynamic-programming table agrees with the definition of the longest common
  subsequence: each entry is the length of the longest list that is a subsequence of both remainders.\<close>

theorem table_is_lcs:
  "list_all (\<lambda>i. lcs_table base other ! i = map (\<lambda>j. Max (length ` common (drop i base) (drop j other))) [0..<length other + 1])
     [0..<length base + 1]"
  unfolding list_all_iff by (auto simp: lcs_table_correct lcs_len_Max simp del: upt_Suc)

text \<open>C33: A merge always returns: no slice is out of range, and the loop over the clusters ends.
  The only error is the size limit.\<close>

theorem merge_returns:
  "Merge base local hub ll hl = Some (Inl ''inputs exceed 4000 lines; merge by hand'')
   \<or> (\<exists>r. Merge base local hub ll hl = Some (Inr r))"
  using merge_from_returns [OF diff_edits [of base local] diff_edits [of base hub], of ll hl] by (auto simp: Merge_def)

text \<open>A side that did not change the base decides nothing, and identical changes are no
  conflict: the merge is the other side, or the common text, exactly.\<close>

theorem merge_unchanged_side:
  assumes "length base \<le> MaxLines" "length text' \<le> MaxLines"
  shows "Merge base text' base ll hl = Some (Inr \<lparr>mr_Lines = text', mr_Conflicts = 0\<rparr>)
    \<and> Merge base base text' ll hl = Some (Inr \<lparr>mr_Lines = text', mr_Conflicts = 0\<rparr>)
    \<and> Merge base text' text' ll hl = Some (Inr \<lparr>mr_Lines = text', mr_Conflicts = 0\<rparr>)"
  using assms by (simp add: Merge_simps)

theorem merge_unchanged_side_witness:
  "Merge [''a''] [''b''] [''a''] ''local'' ''hub'' = Some (Inr \<lparr>mr_Lines = [''b''], mr_Conflicts = 0\<rparr>)"
  using merge_unchanged_side [of "[''a'']" "[''b'']" "''local''" "''hub''"] by (simp add: MaxLines_def)

text \<open>The merge prefers neither side: with the sides exchanged it finds as many conflicts,
  and the same text when there are none.\<close>

theorem merge_symmetric:
  assumes "Merge base local hub ll hl = Some (Inr r)"
  shows "\<exists>r'. Merge base hub local hl ll = Some (Inr r') \<and> mr_Conflicts r' = mr_Conflicts r
    \<and> (mr_Conflicts r = 0 \<longrightarrow> mr_Lines r' = mr_Lines r)"
  using assms merge_from_swap [OF diff_edits [of base local] diff_edits [of base hub], of ll hl] by (auto simp: Merge_def split: if_splits)

theorem merge_symmetric_witness:
  "\<exists>r'. Merge [''a''] [''c''] [''b''] ''hub'' ''local'' = Some (Inr r') \<and> mr_Conflicts r' = 1"
proof -
  have "Merge [''a''] [''b''] [''c''] ''local'' ''hub'' = Some (Inr \<lparr>mr_Lines =
      [''<<<<<<< local'', ''b'', ''======='', ''c'', ''>>>>>>> hub''], mr_Conflicts = 1\<rparr>)"
    by code_simp
  from merge_symmetric [OF this] show ?thesis by simp
qed

text \<open>For a text that ends in a line break, merging it with itself over any base gives it back
  byte for byte.\<close>

theorem merge_text_same:
  assumes "s = [] \<or> last s = newline" "length (splitLines base) \<le> MaxLines" "length (splitLines s) \<le> MaxLines"
  shows "MergeText base s s ll hl = Some (Inr (s, 0))"
proof -
  have "Merge (splitLines base) (splitLines s) (splitLines s) ll hl = Some (Inr \<lparr>mr_Lines = splitLines s, mr_Conflicts = 0\<rparr>)"
    using assms(2,3) by (simp add: Merge_simps)
  then show ?thesis unfolding MergeText_def by (simp only: option.case sum.case Result.select_convs splitLines_Join [OF assms(1)])
qed

theorem merge_text_same_witness: "MergeText ''x'' (''ab'' @ [newline]) (''ab'' @ [newline]) ''l'' ''h'' = Some (Inr (''ab'' @ [newline], 0))"
  by (rule merge_text_same) (simp_all add: newline_def splitLines_def TrimSuffix_nl_def MaxLines_def)

end
