(* ===== verification/Uuidv7.thy ===== *)
theory Uuidv7
  imports Validate "HOL-Library.Word"
begin

unbundle bit_operations_syntax

text \<open>
  Identifiers (\<open>internal/uuidv7\<close>). The generator keeps the last millisecond and a sequence
  number; an identifier is a 48-bit timestamp, a 12-bit sequence number and random bits. The
  clock (\<open>uint64\<close> milliseconds) and the random bytes are arguments.
\<close>

section \<open>The generator\<close>

record gen =
  lastMs :: "64 word"
  seq :: "16 word"

definition New_step :: "64 word \<Rightarrow> gen \<Rightarrow> gen" where
  "New_step now g =
     (if now \<le> lastMs g
      then (let s = seq g + 1
            in if 0x0fff < s then \<lparr>lastMs = lastMs g + 1, seq = 0\<rparr> else \<lparr>lastMs = lastMs g, seq = s\<rparr>)
      else \<lparr>lastMs = now, seq = 0\<rparr>)"

definition hexd :: "nat \<Rightarrow> char" where
  "hexd n = ''0123456789abcdef'' ! n"

definition Encode :: "8 word list \<Rightarrow> string" where
  "Encode bs = concat (map (\<lambda>b. [hexd (unat b div 16), hexd (unat b mod 16)]) bs)"

definition byte_at :: "nat \<Rightarrow> 64 word \<Rightarrow> 8 word" where
  "byte_at k ms = ucast (drop_bit k ms)"

text \<open>The 16 bytes, of which the last eight come from the random source \<open>r\<close>.\<close>

definition id_bytes :: "gen \<Rightarrow> 8 word list \<Rightarrow> 8 word list" where
  "id_bytes g r = [byte_at 40 (lastMs g), byte_at 32 (lastMs g), byte_at 24 (lastMs g), byte_at 16 (lastMs g),
     byte_at 8 (lastMs g), byte_at 0 (lastMs g), 0x70 OR ucast (drop_bit 8 (seq g)), ucast (seq g),
     (r ! 0 AND 0x3f) OR 0x80] @ tl r"

definition format :: "8 word list \<Rightarrow> string" where
  "format b = Encode (take 4 b) @ ''-'' @ Encode (take 2 (drop 4 b)) @ ''-'' @ Encode (take 2 (drop 6 b)) @ ''-''
     @ Encode (take 2 (drop 8 b)) @ ''-'' @ Encode (drop 10 b)"

definition New :: "64 word \<Rightarrow> 8 word list \<Rightarrow> gen \<Rightarrow> string \<times> gen" where
  "New now r g = (let g' = New_step now g in (format (id_bytes g' r), g'))"

section \<open>Hexadecimal numbers\<close>

fun hexn :: "nat \<Rightarrow> nat \<Rightarrow> string" where
  "hexn 0 x = []"
| "hexn (Suc n) x = hexd (x div 16 ^ n mod 16) # hexn n x"

lemma length_hexn [simp]: "length (hexn n x) = n"
  by (induction n) simp_all

lemma digit_mod: "n < m \<Longrightarrow> (x mod 16 ^ m) div 16 ^ n mod 16 = x div 16 ^ n mod (16 :: nat)"
proof -
  assume "n < m"
  then obtain k where m: "m = n + Suc k" using less_imp_Suc_add by (metis add_Suc_right)
  have "(x mod 16 ^ m) div 16 ^ n = x div 16 ^ n mod 16 ^ Suc k"
    unfolding m power_add by (simp add: mod_mult2_eq)
  also have "\<dots> mod 16 = x div 16 ^ n mod 16" by (simp add: mod_mod_cancel)
  finally show ?thesis .
qed

lemma hexn_mod: "n \<le> m \<Longrightarrow> hexn n (x mod 16 ^ m) = hexn n x"
  by (induction n) (simp_all add: digit_mod)

text \<open>Go compares strings byte by byte.\<close>

definition go_less :: "string \<Rightarrow> string \<Rightarrow> bool" where
  "go_less s t \<longleftrightarrow> ord_class.lexordp (map (of_char :: char \<Rightarrow> nat) s) (map of_char t)"

lemma go_less_simps [simp]:
  "go_less [] t \<longleftrightarrow> t \<noteq> []" "\<not> go_less s []" "go_less (c # s) (c # t) \<longleftrightarrow> go_less s t"
  by (simp_all add: go_less_def)

lemma go_less_append [simp]: "go_less (p @ s) (p @ t) \<longleftrightarrow> go_less s t"
  by (induction p) simp_all

lemma go_less_irrefl: "\<not> go_less s s"
  by (induction s) simp_all

lemma hexd_less: "a < b \<Longrightarrow> b < 16 \<Longrightarrow> (of_char (hexd a) :: nat) < of_char (hexd b)"
proof -
  have "list_all (\<lambda>b. list_all (\<lambda>a. (of_char (hexd a) :: nat) < of_char (hexd b)) [0..<b]) [0..<16]" by code_simp
  then show "a < b \<Longrightarrow> b < 16 \<Longrightarrow> (of_char (hexd a) :: nat) < of_char (hexd b)" by (auto simp: list_all_iff)
qed

lemma hexn_less: "a < b \<Longrightarrow> b < 16 ^ n \<Longrightarrow> go_less (hexn n a @ s) (hexn n b @ t)"
proof (induction n arbitrary: a b)
  case (Suc n)
  have top: "x div 16 ^ n mod 16 = x div 16 ^ n" if "x < 16 ^ Suc n" for x :: nat
    using that by (simp add: less_mult_imp_div_less mult.commute)
  have ab: "a div 16 ^ n mod 16 = a div 16 ^ n" "b div 16 ^ n mod 16 = b div 16 ^ n" "b div 16 ^ n < 16"
    using top Suc.prems by (auto simp: less_mult_imp_div_less mult.commute)
  show ?case
  proof (cases "a div 16 ^ n = b div 16 ^ n")
    case True
    have "a mod 16 ^ n < b mod 16 ^ n" using Suc.prems(1) True by (metis div_mult_mod_eq nat_add_left_cancel_less)
    then have "go_less (hexn n (a mod 16 ^ n) @ s) (hexn n (b mod 16 ^ n) @ t)" by (rule Suc.IH) simp
    then show ?thesis using True by (simp add: hexn_mod)
  next
    case False
    then have "a div 16 ^ n < b div 16 ^ n" using Suc.prems(1) by (metis div_le_mono le_neq_implies_less less_imp_le)
    then show ?thesis using hexd_less [of "a div 16 ^ n" "b div 16 ^ n"] ab by (simp add: go_less_def)
  qed
qed simp

section \<open>The text of an identifier\<close>

lemma Encode_append: "Encode (bs @ cs) = Encode bs @ Encode cs"
  by (simp add: Encode_def)

lemma unat_byte_at: "unat (byte_at k w) = unat w div 2 ^ k mod 256"
  by (simp only: byte_at_def unsigned_ucast_eq unat_drop_bit_eq take_bit_eq_mod) (simp add: drop_bit_eq_div)

lemma byte_digits: "y mod 256 div 16 = y div 16 mod (16 :: nat)" "y mod 256 mod 16 = y mod (16 :: nat)"
  using mod_mult2_eq [of y 16 16] by simp_all

lemma seq_digits: "x < 16 \<Longrightarrow> (112 + x) div 16 = (7 :: nat)" "x < 16 \<Longrightarrow> (112 + x) mod 16 = (x :: nat)"
  using mod_mult_self4 [of 16 7 x] by simp_all

lemma var_digits: "(128 + y) div 16 = 8 + y div (16 :: nat)" "(128 + y) mod 16 = y mod (16 :: nat)"
  using div_mult_self4 [of 16 8 y] mod_mult_self4 [of 16 8 y] by simp_all

lemma tail_digits:
  assumes "c < 256" "m < 16"
  shows "(m * 256 + c) div 256 mod 16 = m" "(m * 256 + c) div 16 mod 16 = c div 16" "(m * 256 + c) mod 16 = c mod (16 :: nat)"
proof -
  show "(m * 256 + c) div 256 mod 16 = m" using assms by simp
  have "(m * 256 + c) div 16 = 16 * m + c div 16" using div_mult_self4 [of 16 "16 * m" c] by (simp add: ac_simps)
  then show "(m * 256 + c) div 16 mod 16 = c div 16" using assms by simp
  show "(m * 256 + c) mod 16 = c mod 16" using mod_mult_self4 [of 16 "16 * m" c] by (simp add: ac_simps)
qed
lemma Encode_bytes: "Encode (map (\<lambda>i. byte_at (8 * i + k) w) (rev [0..<n])) = hexn (2 * n) (unat w div 2 ^ k)"
proof (induction n)
  case (Suc n)
  let ?z = "unat w div 2 ^ k div 16 ^ (2 * n)"
  have "(2 :: nat) ^ (8 * n + k) = 2 ^ k * 16 ^ (2 * n)"
    using power_mult [of "2 :: nat" 8 n] power_mult [of "16 :: nat" 2 n] by (simp add: power_add)
  then have b: "unat (byte_at (8 * n + k) w) = ?z mod 256" by (simp only: unat_byte_at div_mult2_eq)
  have z: "?z div 16 = unat w div 2 ^ k div 16 ^ Suc (2 * n)" by (simp only: power_Suc2 div_mult2_eq)
  have h: "hexn (2 * Suc n) (unat w div 2 ^ k) = hexd (?z div 16 mod 16) # hexd (?z mod 16) # hexn (2 * n) (unat w div 2 ^ k)"
    unfolding z by simp
  show ?case unfolding h using Suc by (simp add: Encode_def b byte_digits del: unat_byte_at)
qed (simp add: Encode_def)

lemma timestamp_text:
  "Encode [byte_at 40 w, byte_at 32 w, byte_at 24 w, byte_at 16 w] = hexn 8 (unat w div 2 ^ 16)"
  "Encode [byte_at 8 w, byte_at 0 w] = hexn 4 (unat w)"
proof -
  have "rev [0..<4] = [3, 2, 1, 0 :: nat]" "rev [0..<2] = [1, 0 :: nat]" by code_simp+
  then show "Encode [byte_at 40 w, byte_at 32 w, byte_at 24 w, byte_at 16 w] = hexn 8 (unat w div 2 ^ 16)"
    "Encode [byte_at 8 w, byte_at 0 w] = hexn 4 (unat w)"
    using Encode_bytes [where n = 4 and k = 16 and w = w] Encode_bytes [where n = 2 and k = 0 and w = w] by simp_all
qed

lemma or_blocks:
  "x < 16 \<Longrightarrow> unat ((0x70 :: 8 word) OR of_nat x) = 0x70 + x"
  "y < 64 \<Longrightarrow> unat ((of_nat y :: 8 word) OR 0x80) = 0x80 + y"
proof -
  have "list_all (\<lambda>x. unat ((0x70 :: 8 word) OR of_nat x) = 0x70 + x) [0..<16]" by code_simp
  then show "x < 16 \<Longrightarrow> unat ((0x70 :: 8 word) OR of_nat x) = 0x70 + x" by (auto simp: list_all_iff)
  have "list_all (\<lambda>y. unat ((of_nat y :: 8 word) OR 0x80) = 0x80 + y) [0..<64]" by code_simp
  then show "y < 64 \<Longrightarrow> unat ((of_nat y :: 8 word) OR 0x80) = 0x80 + y" by (auto simp: list_all_iff)
qed

lemma sequence_text:
  assumes "s \<le> 0x0fff"
  shows "Encode [0x70 OR ucast (drop_bit 8 s), ucast (s :: 16 word)] = ''7'' @ hexn 3 (unat s)"
proof -
  have s: "unat s < 4096" using assms by (simp add: word_le_nat_alt)
  have "ucast (drop_bit 8 s) = (of_nat (unat s div 256) :: 8 word)"
    by (simp only: word_unat_eq_iff unsigned_ucast_eq unat_drop_bit_eq unat_of_nat) (simp add: take_bit_eq_mod drop_bit_eq_div)
  then have hi: "unat ((0x70 :: 8 word) OR ucast (drop_bit 8 s)) = 0x70 + unat s div 256" using or_blocks(1) [of "unat s div 256"] s by simp
  have lo: "unat (ucast s :: 8 word) = unat s mod 256" by (simp add: unsigned_ucast_eq take_bit_eq_mod)
  have x: "unat s div 256 < 16" using s by simp
  have h: "hexn 3 (unat s) = [hexd (unat s div 256 mod 16), hexd (unat s div 16 mod 16), hexd (unat s mod 16)]"
    by (simp add: numeral_3_eq_3)
  have "hexd 7 = CHR ''7''" by (simp add: hexd_def)
  then show ?thesis using x by (simp add: Encode_def hi lo h seq_digits byte_digits)
qed

lemma variant_text: "Encode [(b AND 0x3f) OR 0x80, c] = hexd (8 + unat b mod 64 div 16) # hexn 3 (unat b mod 16 * 256 + unat c)"
proof -
  have "b AND 0x3f = take_bit 6 b" by (simp add: take_bit_eq_mask mask_eq_exp_minus_1)
  then have "b AND 0x3f = of_nat (unat b mod 64)"
    by (simp only: word_unat_eq_iff unsigned_take_bit_eq unat_of_nat) (simp add: take_bit_eq_mod)
  then have hi: "unat ((b AND 0x3f) OR 0x80) = 0x80 + unat b mod 64" using or_blocks(2) [of "unat b mod 64"] by simp
  have c: "unat c < 256" using unsigned_less [of c] by simp
  have m: "unat b mod 64 mod 16 = unat b mod 16" by (simp add: mod_mod_cancel)
  let ?x = "unat b mod 16 * 256 + unat c"
  have h: "hexn 3 ?x = [hexd (?x div 256 mod 16), hexd (?x div 16 mod 16), hexd (?x mod 16)]"
    by (simp add: numeral_3_eq_3)
  show ?thesis unfolding h using tail_digits [OF c, of "unat b mod 16"] c by (simp add: Encode_def hi var_digits m)
qed

lemma id_text:
  assumes "seq g \<le> 0x0fff" "length r = 8"
  shows "format (id_bytes g r) = hexn 8 (unat (lastMs g) div 2 ^ 16) @ ''-'' @ hexn 4 (unat (lastMs g)) @ ''-7'' @ hexn 3 (unat (seq g))
    @ ''-'' @ hexd (8 + unat (r ! 0) mod 64 div 16) # hexn 3 (unat (r ! 0) mod 16 * 256 + unat (r ! 1)) @ ''-'' @ Encode (drop 2 r)"
proof -
  obtain r0 r1 rs where r: "r = r0 # r1 # rs" using assms(2) by (cases r; cases "tl r") auto
  have "Encode [0x70 OR ucast (drop_bit 8 (seq g)), ucast (seq g)] = ''7'' @ hexn 3 (unat (seq g))" by (rule sequence_text [OF assms(1)])
  then show ?thesis using timestamp_text [of "lastMs g"] variant_text [of r0 r1] unfolding r by (simp add: format_def id_bytes_def)
qed

lemma hexd_hexdigit: "n < 16 \<Longrightarrow> hexdigit (of_char (hexd n)) \<and> of_char (hexd n) < (128 :: nat)"
proof -
  have "list_all (\<lambda>n. hexdigit (of_char (hexd n)) \<and> of_char (hexd n) < (128 :: nat)) [0..<16]" by code_simp
  then show "n < 16 \<Longrightarrow> hexdigit (of_char (hexd n)) \<and> of_char (hexd n) < (128 :: nat)" by (auto simp: list_all_iff)
qed

lemma hexd_variant: "n < 4 \<Longrightarrow> one_of ''89ab'' (of_char (hexd (8 + n)))"
proof -
  have "list_all (\<lambda>n. one_of ''89ab'' (of_char (hexd (8 + n)))) [0..<4]" by code_simp
  then show "n < 4 \<Longrightarrow> one_of ''89ab'' (of_char (hexd (8 + n)))" by (auto simp: list_all_iff)
qed

lemma hexdigits_hexn: "c \<in> set (hexn n x) \<Longrightarrow> hexdigit (of_char c) \<and> of_char c < (128 :: nat)"
  using hexd_hexdigit [of "x div 16 ^ k mod 16" for k] by (induction n) auto

lemma hexdigits_Encode: "c \<in> set (Encode bs) \<Longrightarrow> hexdigit (of_char c) \<and> of_char c < (128 :: nat)"
proof -
  assume "c \<in> set (Encode bs)"
  then obtain b :: "8 word" where "c = hexd (unat b div 16) \<or> c = hexd (unat b mod 16)" by (auto simp: Encode_def)
  moreover have "unat b < 256" using unsigned_less [of b] by simp
  ultimately show ?thesis using hexd_hexdigit [of "unat b div 16"] hexd_hexdigit [of "unat b mod 16"] by fastforce
qed

lemma length_Encode [simp]: "length (Encode bs) = 2 * length bs"
  by (induction bs) (simp_all add: Encode_def)

lemma shape_append: "length ps = length rs \<Longrightarrow> shape (ps @ qs) (rs @ ss) \<longleftrightarrow> shape ps rs \<and> shape qs ss"
  by (induction ps rs rule: list_induct2) simp_all

lemma shape_hexes: "(\<forall>r \<in> set rs. P r) \<Longrightarrow> n = length rs \<Longrightarrow> shape (replicate n P) rs"
  by (induction rs arbitrary: n) auto

lemma New_is_id:
  assumes "seq g \<le> 0x0fff" "length r = 8"
  shows "is_id (format (id_bytes g r))"
proof -
  let ?t = "format (id_bytes g r)"
  have hx: "shape (replicate n hexdigit) (map of_char (hexn n x))" for n x
    by (rule shape_hexes) (auto dest: hexdigits_hexn)
  have he: "shape (replicate 12 hexdigit) (map of_char (Encode (drop 2 r)))"
    by (rule shape_hexes) (use assms(2) in \<open>auto dest: hexdigits_Encode\<close>)
  have v: "one_of ''89ab'' (of_char (hexd (8 + unat (r ! 0) mod 64 div 16)))" by (rule hexd_variant) (simp add: less_mult_imp_div_less)
  have "8 + unat (r ! 0) mod 64 div 16 < 16" by (simp add: less_mult_imp_div_less)
  then have "ascii ?t" unfolding id_text [OF assms] ascii_def list_all_iff
    using hexd_hexdigit by (auto dest: hexdigits_hexn hexdigits_Encode)
  moreover have "shape id_shape (map of_char ?t)"
    unfolding id_text [OF assms] id_shape_def map_append list.map append_assoc
    using hx he v by (simp add: shape_append)
  ultimately show ?thesis by (simp add: is_id_ascii)
qed

section \<open>Order\<close>

definition rank :: "gen \<Rightarrow> nat" where
  "rank g = unat (lastMs g) * 4096 + unat (seq g)"

lemma New_step_seq: "seq g \<le> 0x0fff \<Longrightarrow> seq (New_step now g) \<le> 0x0fff"
  by (simp add: New_step_def Let_def not_less)

lemma New_step_rank:
  assumes "seq g \<le> 0x0fff" "unat (lastMs g) < 2 ^ 64 - 1"
  shows "rank g < rank (New_step now g)"
proof -
  have s: "unat (seq g) < 4096" using assms(1) by (simp add: word_le_nat_alt)
  then have s1: "unat (seq g + 1) = unat (seq g) + 1" by (simp add: unat_plus_if')
  have m1: "unat (lastMs g + 1) = unat (lastMs g) + 1" using assms(2) by (simp add: unat_plus_if')
  show ?thesis
  proof (cases "now \<le> lastMs g")
    case True
    then show ?thesis using s s1 m1 by (simp add: New_step_def rank_def Let_def)
  next
    case False
    then have "unat (lastMs g) < unat now" by (simp add: word_less_nat_alt not_le)
    then show ?thesis using False s by (simp add: New_step_def rank_def)
  qed
qed

lemma split_16:
  assumes "m \<le> (n :: nat)"
  shows "m div 2 ^ 16 < n div 2 ^ 16 \<or> (m div 2 ^ 16 = n div 2 ^ 16 \<and> m mod 2 ^ 16 < n mod 2 ^ 16) \<or> m = n"
proof (cases "m div 2 ^ 16 = n div 2 ^ 16")
  case True
  have "m = n div 2 ^ 16 * 2 ^ 16 + m mod 2 ^ 16" using True div_mult_mod_eq [of m "2 ^ 16"] by metis
  moreover have "n = n div 2 ^ 16 * 2 ^ 16 + n mod 2 ^ 16" by (simp only: div_mult_mod_eq)
  ultimately show ?thesis using True assms by linarith
next
  case False
  then show ?thesis using div_le_mono [OF assms, of "2 ^ 16"] by linarith
qed

lemma rank_text:
  assumes "rank g < rank g'" "seq g \<le> 0x0fff" "seq g' \<le> 0x0fff" "length r = 8" "length r' = 8" "unat (lastMs g') < 2 ^ 48"
  shows "go_less (format (id_bytes g r)) (format (id_bytes g' r'))"
proof -
  let ?m = "unat (lastMs g)" and ?m' = "unat (lastMs g')"
  have s: "unat (seq g) < 4096" "unat (seq g') < 4096" using assms(2,3) by (simp_all add: word_le_nat_alt)
  consider (hi) "?m div 2 ^ 16 < ?m' div 2 ^ 16" | (lo) "?m div 2 ^ 16 = ?m' div 2 ^ 16" "?m mod 2 ^ 16 < ?m' mod 2 ^ 16"
    | (sq) "?m = ?m'" "unat (seq g) < unat (seq g')"
  proof -
    have "?m < ?m' \<or> ?m = ?m' \<and> unat (seq g) < unat (seq g')" using assms(1) s unfolding rank_def by linarith
    moreover have "?m div 2 ^ 16 < ?m' div 2 ^ 16 \<or> ?m div 2 ^ 16 = ?m' div 2 ^ 16 \<and> ?m mod 2 ^ 16 < ?m' mod 2 ^ 16" if "?m < ?m'"
      using that split_16 [of ?m ?m'] by linarith
    ultimately show ?thesis using that by blast
  qed
  then show ?thesis
  proof cases
    case hi
    have "?m' div 2 ^ 16 < 16 ^ 8" using assms(6) by (simp add: less_mult_imp_div_less)
    then show ?thesis unfolding id_text [OF assms(2,4)] id_text [OF assms(3,5)] by (rule hexn_less [OF hi])
  next
    case lo
    have "go_less (hexn 4 (?m mod 16 ^ 4) @ t) (hexn 4 (?m' mod 16 ^ 4) @ t')" for t t'
      by (rule hexn_less) (use lo(2) in simp_all)
    then have "go_less (hexn 4 ?m @ t) (hexn 4 ?m' @ t')" for t t' by (simp only: hexn_mod [OF order_refl])
    then show ?thesis unfolding id_text [OF assms(2,4)] id_text [OF assms(3,5)] using lo(1) by simp
  next
    case sq
    have "go_less (hexn 3 (unat (seq g)) @ t) (hexn 3 (unat (seq g')) @ t')" for t t'
      by (rule hexn_less [OF sq(2)]) (use s in simp)
    then show ?thesis unfolding id_text [OF assms(2,4)] id_text [OF assms(3,5)] using sq(1) by simp
  qed
qed

section \<open>A cursor moved back\<close>

text \<open>\<open>fmt.Sscanf\<close> with \<open>%012x\<close>: white space is skipped, a line break is an error, then
  at least one hexadecimal digit.\<close>

fun skip_space :: "unit_of list \<Rightarrow> unit_of list option" where
  "skip_space [] = Some []"
| "skip_space (u # us) =
     (if rune_of u = 10 then None
      else if IsSpace (rune_of u) then skip_space us
      else Some (u # us))"

definition hex_value :: "nat \<Rightarrow> nat" where
  "hex_value r = (if r \<le> 57 then r - 48 else if r < 97 then r - 55 else r - 87)"

definition is_hex :: "nat \<Rightarrow> bool" where
  "is_hex r \<longleftrightarrow> (48 \<le> r \<and> r \<le> 57) \<or> (65 \<le> r \<and> r \<le> 70) \<or> (97 \<le> r \<and> r \<le> 102)"

definition scan_hex :: "string \<Rightarrow> nat option" where
  "scan_hex s =
     (case skip_space (go_units s) of None \<Rightarrow> None
      | Some us \<Rightarrow>
          let ds = takeWhile is_hex (map rune_of us)
          in if ds = [] then None else Some (foldl (\<lambda>x d. 16 * x + hex_value d) 0 ds))"

text \<open>The duration is a count of nanoseconds; \<open>Milliseconds\<close> truncates, and the conversion
  to \<open>uint64\<close> wraps.\<close>

definition Milliseconds :: "int \<Rightarrow> int" where
  "Milliseconds d = (if d < 0 then - (- d div 1000000) else d div 1000000)"

definition ShiftBack :: "string \<Rightarrow> int \<Rightarrow> string" where
  "ShiftBack s d =
     (if length s < 13 then []
      else case scan_hex (take 8 s @ take 4 (drop 9 s)) of
        None \<Rightarrow> []
      | Some n \<Rightarrow>
          (let ms = of_nat n :: 64 word;
               bk = word_of_int (Milliseconds d);
               ms' = (if ms < bk then 0 else ms - bk)
           in hexn 8 (unat (drop_bit 16 ms')) @ ''-'' @ hexn 4 (unat (ms' AND 0xffff)) @ ''-7000-8000-000000000000''))"

lemma hex_not_space: "is_hex r \<Longrightarrow> \<not> IsSpace r \<and> r \<noteq> 10"
  by (auto simp: is_hex_def IsSpace_def)

lemma hexd_value: "n < 16 \<Longrightarrow> is_hex (of_char (hexd n)) \<and> hex_value (of_char (hexd n)) = n"
proof -
  have "list_all (\<lambda>n. is_hex (of_char (hexd n)) \<and> hex_value (of_char (hexd n)) = n) [0..<16]" by code_simp
  then show "n < 16 \<Longrightarrow> is_hex (of_char (hexd n)) \<and> hex_value (of_char (hexd n)) = n" by (auto simp: list_all_iff)
qed

lemma hexn_value: "foldl (\<lambda>x d. 16 * x + hex_value d) a (map of_char (hexn n x)) = a * 16 ^ n + x mod 16 ^ n"
proof (induction n arbitrary: a)
  case (Suc n)
  have m: "x mod 16 ^ Suc n = x div 16 ^ n mod 16 * 16 ^ n + x mod 16 ^ n"
    by (simp only: power_Suc2 mod_mult2_eq) simp
  have v: "hex_value (of_char (hexd (x div 16 ^ n mod 16))) = x div 16 ^ n mod 16" using hexd_value [of "x div 16 ^ n mod 16"] by simp
  have "foldl (\<lambda>x d. 16 * x + hex_value d) a (map of_char (hexn (Suc n) x))
      = (16 * a + x div 16 ^ n mod 16) * 16 ^ n + x mod 16 ^ n" using Suc [of "16 * a + x div 16 ^ n mod 16"] by (simp add: v)
  then show ?case unfolding m by (simp add: distrib_right)
qed simp

lemma scan_hexn: "x < 16 ^ Suc n \<Longrightarrow> scan_hex (hexn (Suc n) x) = Some x"
proof -
  assume x: "x < 16 ^ Suc n"
  have a: "ascii (hexn (Suc n) x)" unfolding ascii_def list_all_iff using hexdigits_hexn by blast
  have hx: "is_hex r" if "r \<in> set (map of_char (hexn (Suc n) x))" for r
  proof -
    from that obtain c where "c \<in> set (hexn (Suc n) x)" "r = of_char c" by auto
    moreover have "\<exists>k. c = hexd (x div 16 ^ k mod 16)" if "c \<in> set (hexn m x)" for m using that by (induction m) auto
    ultimately show ?thesis using hexd_value mod_less_divisor [of 16] by (metis zero_less_numeral)
  qed
  let ?us = "go_units (hexn (Suc n) x)"
  have r: "map rune_of ?us = map of_char (hexn (Suc n) x)" by (simp only: runes_units ascii_runes [OF a])
  have "skip_space ?us = Some ?us" unfolding go_units_ascii [OF a]
    using hexd_value [of "x div 16 ^ n mod 16"] hex_not_space [of "of_char (hexd (x div 16 ^ n mod 16))"] by (simp add: rune_of_def)
  moreover have "takeWhile is_hex (map rune_of ?us) = map of_char (hexn (Suc n) x)"
    unfolding r using hx by (simp add: takeWhile_eq_all_conv del: hexn.simps)
  moreover have "hexn (Suc n) x \<noteq> []" by simp
  ultimately show ?thesis using hexn_value [of 0 "Suc n" x] x by (simp add: scan_hex_def Let_def del: hexn.simps)
qed

lemma hexn_append: "hexn m (x div 16 ^ n) @ hexn n x = hexn (m + n) x"
proof (induction m)
  case (Suc m)
  have "x div 16 ^ n div 16 ^ m = x div 16 ^ (m + n)" unfolding add.commute [of m n] power_add div_mult2_eq ..
  then show ?case using Suc by simp
qed simp

lemma ShiftBack_text:
  assumes "seq g \<le> 0x0fff" "length r = 8" "unat (lastMs g) < 2 ^ 48" "0 \<le> d" "d < 2 ^ 63"
  defines "m \<equiv> unat (lastMs g) - nat (d div 1000000)"
  shows "ShiftBack (format (id_bytes g r)) d = hexn 8 (m div 2 ^ 16) @ ''-'' @ hexn 4 m @ ''-7000-8000-000000000000''"
proof -
  let ?t = "format (id_bytes g r)" and ?w = "lastMs g"
  note T = id_text [OF assms(1,2)]
  have cut12: "take 8 ?t @ take 4 (drop 9 ?t) = hexn 12 (unat ?w)"
    unfolding T using hexn_append [of 8 "unat ?w" 4] by simp
  have scan12: "scan_hex (hexn 12 (unat ?w)) = Some (unat ?w)" using scan_hexn [of "unat ?w" 11] assms(3) by simp
  have len12: "13 \<le> length ?t" unfolding T by simp
  define bk :: "64 word" where "bk = word_of_int (Milliseconds d)"
  define ms' where "ms' = (if ?w < bk then 0 else ?w - bk)"
  have "unat bk = nat (d div 1000000)"
  proof -
    have "d div 1000000 \<le> d" using zdiv_mono2 [of d 1 1000000] assms(4) by simp
    then have "d div 1000000 < 2 ^ 64" using assms(5) by simp
    then show ?thesis using assms(4) by (simp add: bk_def Milliseconds_def unat_eq_nat_uint uint_word_of_int_eq take_bit_eq_mod pos_imp_zdiv_nonneg_iff)
  qed
  then have u: "unat ms' = m" by (simp add: ms'_def m_def word_less_nat_alt unat_sub_if')
  have "unat (ms' AND 0xffff) = m mod 2 ^ 16"
  proof -
    have "ms' AND 0xffff = take_bit 16 ms'" by (simp add: take_bit_eq_mask mask_eq_exp_minus_1)
    then have "unat (ms' AND 0xffff) = take_bit 16 (unat ms')" by (simp only: unsigned_take_bit_eq)
    then show ?thesis by (simp only: take_bit_eq_mod u)
  qed
  moreover have "unat (drop_bit 16 ms') = m div 2 ^ 16" using u by (simp only: unat_drop_bit_eq) (simp add: drop_bit_eq_div)
  moreover have "hexn 4 (m mod 2 ^ 16) = hexn 4 m" using hexn_mod [of 4 4 m] by simp
  moreover have "ShiftBack ?t d = hexn 8 (unat (drop_bit 16 ms')) @ ''-'' @ hexn 4 (unat (ms' AND 0xffff)) @ ''-7000-8000-000000000000''"
    using cut12 scan12 len12 unfolding ShiftBack_def Let_def ms'_def bk_def by simp
  ultimately show ?thesis by simp
qed

text \<open>Text that is nowhere greater is not greater.\<close>

lemma pointwise_not_less: "list_all2 (\<lambda>a b. of_char a \<le> (of_char b :: nat)) s t \<Longrightarrow> \<not> go_less t s"
  by (induction rule: list_all2_induct) (auto simp: go_less_def)

lemma zeros_below: "(\<forall>c \<in> set t. hexdigit (of_char c)) \<Longrightarrow> n = length t
    \<Longrightarrow> list_all2 (\<lambda>a b. of_char a \<le> (of_char b :: nat)) (replicate n CHR ''0'') t"
  by (induction t arbitrary: n) (auto simp: hexdigit_def rng_def digit_def)

lemma ShiftBack_below:
  assumes "seq g \<le> 0x0fff" "length r = 8" "unat m' < 2 ^ 48" "m \<le> unat m'" "lastMs g = m'"
  shows "\<not> go_less (format (id_bytes g r)) (hexn 8 (m div 2 ^ 16) @ ''-'' @ hexn 4 m @ ''-7000-8000-000000000000'')"
proof -
  have asym: "\<not> go_less b a" if "go_less a b" for a b using that unfolding go_less_def by (blast dest: lexordp_antisym)
  note T = id_text [OF assms(1,2)]
  consider (hi) "m div 2 ^ 16 < unat m' div 2 ^ 16" | (lo) "m div 2 ^ 16 = unat m' div 2 ^ 16" "m mod 2 ^ 16 < unat m' mod 2 ^ 16" | (eq) "m = unat m'"
    using split_16 [OF assms(4)] by blast
  then show ?thesis
  proof cases
    case hi
    have "unat m' div 2 ^ 16 < 16 ^ 8" using assms(3) by (simp add: less_mult_imp_div_less)
    from hexn_less [OF hi this] show ?thesis unfolding T assms(5) by (intro asym) simp
  next
    case lo
    have "go_less (hexn 4 (m mod 16 ^ 4) @ t) (hexn 4 (unat m' mod 16 ^ 4) @ t')" for t t'
      by (rule hexn_less) (use lo(2) in simp_all)
    then have "go_less (hexn 4 m @ t) (hexn 4 (unat m') @ t')" for t t' by (simp only: hexn_mod [OF order_refl])
    then show ?thesis unfolding T assms(5) using lo(1) by (intro asym) simp
  next
    case eq
    have v: "hexdigit (of_char (hexd (8 + unat (r ! 0) mod 64 div 16))) \<and> (of_char CHR ''8'' :: nat) \<le> of_char (hexd (8 + unat (r ! 0) mod 64 div 16))"
    proof -
      have "unat (r ! 0) mod 64 div 16 < 4" by (simp add: less_mult_imp_div_less)
      moreover have "list_all (\<lambda>n. hexdigit (of_char (hexd (8 + n))) \<and> (of_char CHR ''8'' :: nat) \<le> of_char (hexd (8 + n))) [0..<4]" by code_simp
      ultimately show ?thesis by (auto simp: list_all_iff)
    qed
    let ?le = "list_all2 (\<lambda>a b. of_char a \<le> (of_char b :: nat))"
    have z: "?le (replicate n CHR ''0'') (hexn n x)" for n x by (rule zeros_below) (auto dest: hexdigits_hexn)
    have e: "?le (replicate 12 CHR ''0'') (Encode (drop 2 r))" by (rule zeros_below) (use assms(2) in \<open>auto dest: hexdigits_Encode\<close>)
    let ?v = "hexd (8 + unat (r ! 0) mod 64 div 16)" and ?x = "unat (r ! 0) mod 16 * 256 + unat (r ! 1)"
    have "?le (''-7'' @ replicate 3 CHR ''0'' @ ''-'' @ ''8'' @ replicate 3 CHR ''0'' @ ''-'' @ replicate 12 CHR ''0'')
      (''-7'' @ hexn 3 (unat (seq g)) @ ''-'' @ [?v] @ hexn 3 ?x @ ''-'' @ Encode (drop 2 r))"
      by (intro list_all2_appendI z e) (use v in simp_all)
    moreover have "''-7'' @ replicate 3 CHR ''0'' @ ''-'' @ ''8'' @ replicate 3 CHR ''0'' @ ''-'' @ replicate 12 CHR ''0'' = ''-7000-8000-000000000000''"
      by code_simp
    ultimately have "\<not> go_less (''-7'' @ hexn 3 (unat (seq g)) @ ''-'' @ [?v] @ hexn 3 ?x @ ''-'' @ Encode (drop 2 r)) ''-7000-8000-000000000000''"
      using pointwise_not_less by metis
    then show ?thesis unfolding T assms(5) eq by simp
  qed
qed

section \<open>Properties\<close>

text \<open>The identifiers of one process, call after call: the time and the random bytes of each.\<close>

fun News :: "(64 word \<times> 8 word list) list \<Rightarrow> gen \<Rightarrow> string list \<times> gen" where
  "News [] g = ([], g)"
| "News ((now, r) # cs) g = (case New now r g of (s, g') \<Rightarrow> case News cs g' of (ss, g'') \<Rightarrow> (s # ss, g''))"

text \<open>C35: Every identifier the generator makes has the shape the hub demands of an identifier:
  it matches the regular expression that guards every operation.\<close>

theorem New_matches_taskIDRE:
  assumes "seq g \<le> 0x0fff" "length r = 8"
  shows "is_id (fst (New now r g)) \<and> seq (snd (New now r g)) \<le> 0x0fff"
  unfolding New_def Let_def using New_is_id [OF New_step_seq [OF assms(1)] assms(2)] New_step_seq [OF assms(1)] by simp

theorem New_matches_taskIDRE_witness: "is_id (fst (New 1 (replicate 8 7) \<lparr>lastMs = 5, seq = 0x0fff\<rparr>))"
  using New_matches_taskIDRE [of "\<lparr>lastMs = 5, seq = 0x0fff\<rparr>" "replicate 8 7" 1] by simp

lemma New_step_Ms: "unat (lastMs g) < 2 ^ 48 \<Longrightarrow> unat (lastMs (New_step now g)) \<le> max (unat (lastMs g) + 1) (unat now)"
  by (auto simp: New_step_def Let_def unat_plus_if' max_def)

definition clocks_ok :: "(64 word \<times> 8 word list) list \<Rightarrow> gen \<Rightarrow> bool" where
  "clocks_ok cs g \<longleftrightarrow> seq g \<le> 0x0fff \<and> unat (lastMs g) + length cs < 2 ^ 48
     \<and> list_all (\<lambda>(now, r). unat now + length cs < 2 ^ 48 \<and> length r = 8) cs"

lemma clocks_ok_next:
  assumes "clocks_ok ((now, r) # cs) g"
  shows "clocks_ok cs (New_step now g) \<and> length r = 8 \<and> rank g < rank (New_step now g) \<and> unat (lastMs (New_step now g)) < 2 ^ 48"
proof -
  from assms have a: "seq g \<le> 0x0fff" "unat (lastMs g) + length cs + 1 < 2 ^ 48" "unat now + length cs + 1 < 2 ^ 48" "length r = 8"
    "list_all (\<lambda>(now, r). unat now + length cs + 1 < 2 ^ 48 \<and> length r = 8) cs" by (simp_all add: clocks_ok_def)
  have "unat (lastMs (New_step now g)) \<le> max (unat (lastMs g) + 1) (unat now)" using a(2) by (intro New_step_Ms) simp
  then have m: "unat (lastMs (New_step now g)) + length cs < 2 ^ 48" using a(2,3) by (simp add: max_def split: if_splits)
  have l: "list_all (\<lambda>(now, r). unat now + length cs < 2 ^ 48 \<and> length r = 8) cs" using a(5) by (auto simp: list_all_iff)
  have "rank g < rank (New_step now g)" using a(1,2) by (intro New_step_rank) simp_all
  then show ?thesis using m l a(4) New_step_seq [OF a(1)] by (simp add: clocks_ok_def)
qed

lemma News_above:
  "clocks_ok cs g \<Longrightarrow> seq g0 \<le> 0x0fff \<Longrightarrow> length r0 = 8 \<Longrightarrow> rank g0 \<le> rank g
    \<Longrightarrow> s \<in> set (fst (News cs g)) \<Longrightarrow> go_less (format (id_bytes g0 r0)) s"
proof (induction cs arbitrary: g)
  case (Cons c cs)
  obtain now r where c: "c = (now, r)" by fastforce
  let ?g = "New_step now g"
  from clocks_ok_next [of now r cs g] Cons.prems(1) c
  have n: "clocks_ok cs ?g" "length r = 8" "rank g < rank ?g" "unat (lastMs ?g) < 2 ^ 48" by auto
  have up: "rank g0 < rank ?g" using n(3) Cons.prems(4) by simp
  have "seq ?g \<le> 0x0fff" using n(1) by (simp add: clocks_ok_def)
  from rank_text [OF up Cons.prems(2) this Cons.prems(3) n(2,4)]
  have h: "go_less (format (id_bytes g0 r0)) (format (id_bytes ?g r))" .
  have "fst (News (c # cs) g) = format (id_bytes ?g r) # fst (News cs ?g)" by (simp add: c New_def Let_def split: prod.split)
  then have "s = format (id_bytes ?g r) \<or> s \<in> set (fst (News cs ?g))" using Cons.prems(5) by auto
  then show ?case using h Cons.IH [OF n(1) Cons.prems(2,3)] up by auto
qed simp

text \<open>C34: Identifiers are strictly increasing: each is greater, as a byte string, than all made before
  it by the same process, whatever the clock does in between, including standing still or moving
  back. This is why they never repeat, and why ordering rows by identifier orders them by creation.\<close>

theorem ids_increase:
  assumes "clocks_ok cs g"
  shows "sorted_wrt go_less (fst (News cs g))"
  using assms
proof (induction cs arbitrary: g)
  case (Cons c cs)
  obtain now r where c: "c = (now, r)" by fastforce
  let ?g = "New_step now g"
  from clocks_ok_next [of now r cs g] Cons.prems c have n: "clocks_ok cs ?g" "length r = 8" by auto
  have "fst (News (c # cs) g) = format (id_bytes ?g r) # fst (News cs ?g)" by (simp add: c New_def Let_def split: prod.split)
  moreover have "go_less (format (id_bytes ?g r)) s" if "s \<in> set (fst (News cs ?g))" for s
    using News_above [OF n(1) _ n(2) order_refl that] n(1) by (simp add: clocks_ok_def)
  ultimately show ?case using Cons.IH [OF n(1)] by simp
qed simp

theorem ids_increase_witness:
  "sorted_wrt go_less (fst (News [(7, replicate 8 255), (7, replicate 8 1), (3, replicate 8 0)] \<lparr>lastMs = 6, seq = 0x0fff\<rparr>))"
  by (rule ids_increase) (simp add: clocks_ok_def)

text \<open>The cursor moved back covers its overlap: it is not greater than any identifier whose
  timestamp is at least the original's less the overlap, so a read from it misses none of them.\<close>

theorem ShiftBack_covers:
  assumes "seq g \<le> 0x0fff" "length r = 8" "unat (lastMs g) < 2 ^ 48" "0 \<le> d" "d < 2 ^ 63"
    and "seq g' \<le> 0x0fff" "length r' = 8" "unat (lastMs g') < 2 ^ 48" "int (unat (lastMs g)) - d div 1000000 \<le> int (unat (lastMs g'))"
  shows "\<not> go_less (format (id_bytes g' r')) (ShiftBack (format (id_bytes g r)) d)"
proof -
  have "unat (lastMs g) - nat (d div 1000000) \<le> unat (lastMs g')" using assms(4,9) by linarith
  from ShiftBack_below [OF assms(6,7,8) this refl] show ?thesis unfolding ShiftBack_text [OF assms(1-5)] .
qed

theorem ShiftBack_covers_witness:
  "\<not> go_less (format (id_bytes \<lparr>lastMs = 999, seq = 0\<rparr> (replicate 8 0))) (ShiftBack (format (id_bytes \<lparr>lastMs = 1000, seq = 0\<rparr> (replicate 8 9))) 1000000)"
  by (rule ShiftBack_covers) simp_all

end
