(* ===== verification/Spec2Isabelle.thy ===== *)
theory Spec2Isabelle
  imports LedgerProps HoldProps TeamProps LifecycleProps MessageProps TaskLocProps DependencyProps DocsProps CollectionsProps
    AuditProps TaskLogProps AccessProps FactExamples Limiter Pacer Diff3 Uuidv7 Redact
begin

text \<open>
  aimem is a hub on which people and coding agents keep shared project memory: tasks and
  epics, a ledger of task reservations, teams of agent sessions that work on managed tasks,
  messages, shared documents and collections; an access store says who may do so. This library
  models the core of the hub, the operations of \<open>internal/store\<close> on tasks, reservations, teams,
  documents, collections and curated facts and those of \<open>internal/access\<close>, and the pure packages around it, and
  proves what makes them correct.

  \<^bold>\<open>The program and the model.\<close> A project's hub is one SQLite file. Every operation opens an
  immediate transaction, checks scope, actor, retry key and permission, reads its receipt,
  applies its guards in a fixed order, writes rows, appends to the logs and stores the
  receipt, or fails and leaves the file as it was. The model has one record \<open>db\<close> for the
  file, with one table per SQL table, an association list in insertion order keyed by the
  primary key (theory StoreState); an operation is a function from an environment, its
  arguments and a \<open>db\<close> to an error or a reply with the next \<open>db\<close>. The environment \<open>env\<close> holds
  what the operation takes from outside: the clock's readings, the fresh identifiers, SHA-256
  and the parsing of times, as functions. Every error return of the source is a branch.

  \<^bold>\<open>Theories.\<close>
  \<^item> Prelude: tables, error values and their automation. GoText: UTF-8, the text functions of
    Go's library that the source calls. Json: the canonical JSON of \<open>encoding/json\<close> and the
    receipt digest (\<open>receiptDigest\<close>, \<open>pruneZero\<close> in tasks.go).
  \<^item> StoreState: structs, tables and errors of the store. Validate: authored text, actors,
    references, task content, identifiers (tasks.go, taskrefs.go, schema.go).
  \<^item> Receipts: \<open>taskMutation\<close>, \<open>checkedTaskMutation\<close>: the retry protocol. Retry: the contract of
    a retry, the locale \<open>idempotent\<close>, and the hub's requests as its instance.
  \<^item> Epics (epics.go); Tasks (tasks.go, task_triage.go, task_state_changes.go), with Board: the
    invariants of tasks, their history and their feed of state changes.
  \<^item> Reservations (task_reservations.go, task_reservation_coordination.go,
    task_reservation_recovery.go), with Ledger: the fence contract, the locale \<open>fenced\<close>, and the
    ledger as its instance.
  \<^item> Teams (teams.go, team_sessions.go), Attempts (team_assignments.go, team_work.go,
    team_results.go, team_recovery.go), TeamOps (team_sessions.go, team_handoff.go,
    team_token.go, team_managed.go), Messages (team_messages.go).
  \<^item> TeamInv, AttemptInv, SessionInv, MemberInv, HubInv: one invariant \<open>team_inv\<close> over all
    tables, and that every transaction keeps it. Hub: every operation under a retry receipt as one
    request type, \<open>serve\<close>; every operation on a project's hub as one action, \<open>act\<close>, the claims,
    changes and recoveries of the ledger, the registry's claim that proves dependencies (Claims), the
    comments and the reads of an inbox included; and the reachable states. Growth: the logs that only
    grow. RetryLive: what a retry is answered. Lifecycle: the abstract life cycle of an attempt, which
    every transaction follows.
  \<^item> TaskLoc (taskloc.go, taskprefix.go): which project holds a task, and identifier prefixes, over
    the registry's projects as a \<open>world\<close> of databases. Dependencies
    (task_reservation_dependencies.go): the claim that walks the dependency graph across
    projects, and its reconciliation; each of their steps reads its own \<open>moment\<close>. Claims: what such a
    claim does to the project it commits in. TaskLocProps
    and DependencyProps hold their theorems.
  \<^item> Cas: the contract of versioned values, the locale \<open>versioned\<close>. Docs (docs.go) and
    Collections (collections.go): shared documents and collection records, each an instance of
    it; DocsProps and CollectionsProps hold their theorems.
  \<^item> TeamAudit (team_audit.go of internal/store and of internal/server), with AuditProps: the filtered
    pages of a team's audit log, and the export that follows them at one snapshot. Limiter
    (internal/enrollment/limiter.go): the sliding window of redemptions. Pacer
    (internal/llmrate): the spacing of model calls, with its interleavings as a step relation.
    GoStrings: more of package \<open>strings\<close>.
  \<^item> Keyset: listings in pages, the locale \<open>keyset\<close> of an order, its cursors and the condition that
    resumes after one. TaskLists (tasks.go, task_state_changes.go): the board's listings, search,
    counts, histories, comments and feed, instances of it; Base64: the letters of its cursors.
    TaskListProps and TaskLogProps hold their theorems.
  \<^item> Access (store.go, project_grants.go of internal/access): users, groups, grants, tokens and their
    audit, with the tables of the access database, a record \<open>adb\<close>. Enrollments (enrollments.go,
    enrollment_redeem.go, internal/enrollment/delivery.go), Identity (identity_proofs.go) and
    TeamProfiles (team_profiles.go) are the other operations on it. AccessSteps and AccessRuns: each
    operation as a run of edits of the tables; AccessInv: the invariant every edit keeps, and the
    locale \<open>stable\<close> of what a run keeps; AccessProps: the theorems, ExamplesAccess: a run.
  \<^item> Facts (memory.go, review.go): the curated facts of a project, a record \<open>kb\<close>, with their tags,
    sources, links and audit; recall, import and the review queue. Aliases: the map of renamed projects
    and the walk to the end of its chains. FactSteps: each operation as a run of edits; FactLabels: the
    citations under their aliases; FactProps and FactSync: the theorems, with the locale \<open>settling\<close> of
    steps that can be repeated; FactExamples: stores on which they are applied.
  \<^item> LedgerProps, HoldProps, TeamProps, LifecycleProps, MessageProps: the theorems about the hub;
    ExamplesBoard and ExamplesTeam: concrete runs on which they are applied.
  \<^item> Diff3 (internal/diff3): the three-way merge. Uuidv7 (internal/uuidv7): identifiers. Redact
    (internal/redact): the redaction of secrets.

  \<^bold>\<open>What the theorems show.\<close> On tasks: an update is a compare-and-swap on the revision; a
  task's history and the feed of state changes are exactly its past; a reserved task is
  fenced off from board writes, and open and unmanaged. On the ledger: a hold is exclusive,
  for the claim in a project and for the one through the registry, and a command under a fence once
  passed is refused, or answered from the receipt of the command it repeats, whatever the hub was
  asked in between. On teams: one active coordinator
  per team, whose generation only moves forward; a coordinator that lost the slot can never
  command again, nor hand the team over; live attempts are exclusive, agree with their tasks, follow their life cycle
  and are immutable once closed. On retries: the same request has its effect once; later it is answered from its
  receipt, or refused by a check that does not look at receipts. On listings: a client that follows the cursors reads every matching task
  once, in order, the counts agree with what it reads, and a follower of the feed misses nothing
  while the hub moves on. On messages: paging is complete, acknowledging is precise, and an inbox
  drains. On
  lookups: the location hints cannot be seen, although projects may be unreadable at times and
  renames, merges and drops overlap the scans, a prefix resolves to the one task it starts. On
  dependencies: the walk decides well-foundedness, a claim that commits has proved every
  dependency in the state it commits in, and reconciliation fails closed. On documents and
  records: no update is lost, the stored history is the newest twenty versions, writers of
  different records never meet, and a search finds exactly what it says. On access: the
  store stays consistent in every run; a revoked token is dead for ever; an enrollment code and a
  proof receipt have one effect each; a redemption enrolls one user with no grant yet; retiring a
  peer leaves nothing of it; a team registration grants nothing. On curated facts: what was
  retired never comes back (a label, as long as the aliases form no cycle), chapters stay few, an assertion and an import can be repeated, stores that
  exchange their facts agree on what is live, relabelling loses no citation unless the aliases form a
  cycle, and a verdict empties the review queue. An export of the audit
  log reads the events and the messages of its snapshot, each once and in order, whatever happens meanwhile; the limiter is the sliding window it stands
  for; the pacer keeps its spacing in every interleaving. On the packages: the edit script of the merge is a round trip, its table is the
  longest common subsequence, the merge always returns and prefers neither side; identifiers
  are well formed and strictly increase whatever the clock does.

  \<^bold>\<open>Bounds and fuel.\<close> Integers of the store are Go's 64-bit \<open>int\<close>; only the fence can reach a
  bound by counting, and the source refuses that (\<open>ErrReservationOverflow\<close>), so they are modelled
  as \<open>int\<close> with this check written out. The generator's words and the pacer's durations are
  modelled at their width.
  The loops of the merge are \<open>function\<close>s with proved termination, except the loop over
  clusters, which is a \<open>partial_function (option)\<close> and proved to return. \<open>read_history\<close>, the
  client's loop over pages, takes as fuel one more than the number of messages, which is
  proved to be enough; so does \<open>follow\<close>, the client's loop over the
  pages of the board, with one more than the number of rows, and the depth-first walk of the dependency graph, with one more than
  the number of tasks. \<open>json.Valid\<close> is a fold over the bytes and needs none.

  \<^bold>\<open>Modelled from outside.\<close> SQL is modelled by what its statements mean on the tables, with
  primary keys, unique indices and checks as guards; a row that fails to decode is an error
  value. A confidence is a rational, and the rounded sum of two is a parameter. SHA-256, the clock, the random source, the parser of times, the list of secrets in the
  environment, \<open>url.Parse\<close>, the sealing of a delivery, the verb \<open>%q\<close>, the full-text index, \<open>json.Unmarshal\<close> of a cursor, \<open>strings.ToLower\<close> and SQLite's \<open>LENGTH\<close> are parameters.

  \<^bold>\<open>Not modelled.\<close> The HTTP and MCP servers, the terminal interface, the command line and the
  installer translate requests into the operations above and render replies; curation and
  embedding call language models; the read scopes of the ledger, the vector leg of recall and the exchange of group settings are not
  modelled, nor the opening and migration of the access file and the contexts that bound the wait for it. The locks, time-outs and
  connections of a dependency claim appear only as the order of its moments.
\<close>

end
